(* ===== verification/Rust_Prelude.thy ===== *)
theory Rust_Prelude
  imports Main "HOL-Library.Word"
begin

unbundle bit_operations_syntax

text \<open>
  What every component of the model shares: the fallible results of the source
  (\<^verbatim>\<open>Result\<close> as a sum, \<^verbatim>\<open>Option\<close> as an option), checked arithmetic of the fixed width
  integers, slices and in-place copies of byte buffers, and the little-endian codecs.

  \<^verbatim>\<open>u8\<close>, \<^verbatim>\<open>u16\<close>, \<^verbatim>\<open>u32\<close> and \<^verbatim>\<open>u64\<close> are words of their width. \<^verbatim>\<open>usize\<close> is \<open>nat\<close>: the
  targets of the crate are 64-bit, slice lengths are below \<open>2 ^ 63\<close>, so the conversions
  \<^verbatim>\<open>usize::try_from(u64)\<close> and \<^verbatim>\<open>u64::try_from(usize)\<close> never fail there, and an unchecked
  sum of lengths and constants cannot reach \<open>2 ^ 64\<close>. A checked \<^verbatim>\<open>usize\<close> operation writes
  its bound out (\<open>usize_add\<close>).
\<close>

type_synonym u8 = "8 word"
type_synonym u16 = "16 word"
type_synonym u32 = "32 word"
type_synonym u64 = "64 word"
type_synonym byte_string = "8 word list"

named_theorems word_nat \<open>equivalences that move checked word arithmetic to \<open>nat\<close>\<close>
named_theorems result_iff \<open>when a fallible computation returns what\<close>

section \<open>Results\<close>

text \<open>\<^verbatim>\<open>Result::and_then\<close> (and the question mark operator), \<^verbatim>\<open>ok_or\<close> and \<^verbatim>\<open>map_err\<close>.\<close>

definition and_then :: "'e + 'a \<Rightarrow> ('a \<Rightarrow> 'e + 'b) \<Rightarrow> 'e + 'b" where
  "and_then r f = (case r of Inl e \<Rightarrow> Inl e | Inr a \<Rightarrow> f a)"

definition ok_or :: "'a option \<Rightarrow> 'e \<Rightarrow> 'e + 'a" where
  "ok_or opt e = (case opt of None \<Rightarrow> Inl e | Some a \<Rightarrow> Inr a)"

definition map_err :: "('e \<Rightarrow> 'f) \<Rightarrow> 'e + 'a \<Rightarrow> 'f + 'a" where
  "map_err f r = (case r of Inl e \<Rightarrow> Inl (f e) | Inr a \<Rightarrow> Inr a)"

lemma and_then_simps [simp]:
  "and_then (Inl e) f = Inl e"
  "and_then (Inr a) f = f a"
  by (simp_all add: and_then_def)

lemma and_then_cong [fundef_cong]:
  assumes "r = r'" and "\<And>a. r' = Inr a \<Longrightarrow> f a = g a"
  shows "and_then r f = and_then r' g"
  using assms by (cases r') (auto simp: and_then_def)

lemma and_then_Inr [result_iff]:
  "and_then r f = Inr b \<longleftrightarrow> (\<exists>a. r = Inr a \<and> f a = Inr b)"
  by (cases r) auto

lemma and_then_Inl [result_iff]:
  "and_then r f = Inl e \<longleftrightarrow> r = Inl e \<or> (\<exists>a. r = Inr a \<and> f a = Inl e)"
  by (cases r) auto

lemma ok_or_simps [simp]:
  "ok_or None e = Inl e"
  "ok_or (Some a) e = Inr a"
  by (simp_all add: ok_or_def)

lemma ok_or_Inr [result_iff]: "ok_or opt e = Inr a \<longleftrightarrow> opt = Some a"
  by (cases opt) auto

lemma ok_or_Inl [result_iff]: "ok_or opt e = Inl e' \<longleftrightarrow> opt = None \<and> e' = e"
  by (cases opt) auto

lemma map_err_simps [simp]:
  "map_err f (Inl e) = Inl (f e)"
  "map_err f (Inr a) = Inr a"
  by (simp_all add: map_err_def)

lemma map_err_Inr [result_iff]: "map_err f r = Inr a \<longleftrightarrow> r = Inr a"
  by (cases r) auto

lemma map_err_Inl [result_iff]: "map_err f r = Inl e \<longleftrightarrow> (\<exists>e'. r = Inl e' \<and> e = f e')"
  by (cases r) auto

lemma if_Inl_Inr [result_iff]:
  "(if c then Inl e else r) = Inr b \<longleftrightarrow> \<not> c \<and> r = Inr b"
  by simp

text \<open>
  A \<^verbatim>\<open>&mut self\<close> method returns its result together with the state it leaves. The question
  mark operator of such a method gives up in the state reached so far.
\<close>

definition or_return :: "'e + 'a \<Rightarrow> 's \<Rightarrow> ('a \<Rightarrow> ('e + 'b) \<times> 's) \<Rightarrow> ('e + 'b) \<times> 's" where
  "or_return r s f = (case r of Inl e \<Rightarrow> (Inl e, s) | Inr a \<Rightarrow> f a)"

lemma or_return_simps [simp]:
  "or_return (Inl e) s f = (Inl e, s)"
  "or_return (Inr a) s f = f a"
  by (simp_all add: or_return_def)

lemma or_return_Inr [result_iff]:
  "or_return r s f = (Inr b, s') \<longleftrightarrow> (\<exists>a. r = Inr a \<and> f a = (Inr b, s'))"
  by (cases r) auto

lemma or_return_Inl [result_iff]:
  "or_return r s f = (Inl e, s') \<longleftrightarrow>
   (r = Inl e \<and> s' = s) \<or> (\<exists>a. r = Inr a \<and> f a = (Inl e, s'))"
  by (cases r) auto

lemma if_Inl_state [result_iff]:
  "(if c then (Inl e, s) else r) = (Inr b, s') \<longleftrightarrow> \<not> c \<and> r = (Inr b, s')"
  by simp

text \<open>One state-changing call after another.\<close>

definition and_run :: "('e + 'a) \<times> 's \<Rightarrow> ('a \<Rightarrow> 's \<Rightarrow> ('e + 'b) \<times> 's) \<Rightarrow> ('e + 'b) \<times> 's" where
  "and_run r f = (case r of (Inl e, s) \<Rightarrow> (Inl e, s) | (Inr a, s) \<Rightarrow> f a s)"

lemma and_run_simps [simp]:
  "and_run (Inl e, s) f = (Inl e, s)"
  "and_run (Inr a, s) f = f a s"
  by (simp_all add: and_run_def)

lemma and_run_Inr [result_iff]:
  "and_run r f = (Inr b, s') \<longleftrightarrow> (\<exists>a s. r = (Inr a, s) \<and> f a s = (Inr b, s'))"
  by (cases r; cases "fst r") auto

lemma and_run_Inl [result_iff]:
  "and_run r f = (Inl e, s') \<longleftrightarrow>
   r = (Inl e, s') \<or> (\<exists>a s. r = (Inr a, s) \<and> f a s = (Inl e, s'))"
  by (cases r; cases "fst r") auto

text \<open>What avoids an error, in the branches of a function.\<close>

lemma and_then_no_panic:
  assumes "r \<noteq> Inl e" and "\<And>a. r = Inr a \<Longrightarrow> f a \<noteq> Inl e"
  shows "and_then r f \<noteq> Inl e"
  using assms by (cases r) auto

lemma branch_no_panic: "(c \<Longrightarrow> a \<noteq> x) \<Longrightarrow> (\<not> c \<Longrightarrow> b \<noteq> x) \<Longrightarrow> (if c then a else b) \<noteq> x"
  by simp

section \<open>Checked arithmetic\<close>

definition checked_add :: "'a::len word \<Rightarrow> 'a word \<Rightarrow> 'a word option" where
  "checked_add a b = (if unat a + unat b < 2 ^ LENGTH('a) then Some (a + b) else None)"

definition checked_sub :: "'a::len word \<Rightarrow> 'a word \<Rightarrow> 'a word option" where
  "checked_sub a b = (if b \<le> a then Some (a - b) else None)"

definition checked_mul :: "'a::len word \<Rightarrow> 'a word \<Rightarrow> 'a word option" where
  "checked_mul a b = (if unat a * unat b < 2 ^ LENGTH('a) then Some (a * b) else None)"

text \<open>\<^verbatim>\<open>usize::checked_add\<close> on a 64-bit target.\<close>

definition usize_add :: "nat \<Rightarrow> nat \<Rightarrow> nat option" where
  "usize_add a b = (if a + b < 2 ^ 64 then Some (a + b) else None)"

definition usize_mul :: "nat \<Rightarrow> nat \<Rightarrow> nat option" where
  "usize_mul a b = (if a * b < 2 ^ 64 then Some (a * b) else None)"

text \<open>\<^verbatim>\<open>u64::try_from(usize)\<close>: total on a 64-bit target, where a length fits.\<close>

definition u64_of_usize :: "nat \<Rightarrow> u64 option" where
  "u64_of_usize n = (if n < 2 ^ 64 then Some (of_nat n) else None)"

lemma unat_add_exact:
  fixes a b :: "'a::len word"
  assumes "unat a + unat b < 2 ^ LENGTH('a)"
  shows "unat (a + b) = unat a + unat b"
  using assms by (simp add: unat_word_ariths)

lemma unat_mul_exact:
  fixes a b :: "'a::len word"
  assumes "unat a * unat b < 2 ^ LENGTH('a)"
  shows "unat (a * b) = unat a * unat b"
  using assms by (simp add: unat_word_ariths)

lemma unat_sub_exact:
  fixes a b :: "'a::len word"
  assumes "b \<le> a"
  shows "unat (a - b) = unat a - unat b"
  using assms by (rule unat_sub)

lemma checked_add_Some [word_nat]:
  fixes a b c :: "'a::len word"
  shows "checked_add a b = Some c \<longleftrightarrow> unat a + unat b = unat c"
proof
  assume "checked_add a b = Some c"
  then show "unat a + unat b = unat c"
    by (auto simp: checked_add_def unat_add_exact split: if_splits)
next
  assume eq: "unat a + unat b = unat c"
  moreover have "unat c < 2 ^ LENGTH('a)" by (rule unsigned_less)
  ultimately have lt: "unat a + unat b < 2 ^ LENGTH('a)" by simp
  then have "unat (a + b) = unat c" using eq by (simp add: unat_add_exact)
  then have "a + b = c" by (simp add: word_unat_eq_iff)
  then show "checked_add a b = Some c" using lt by (simp add: checked_add_def)
qed

lemma checked_add_None [word_nat]:
  fixes a b :: "'a::len word"
  shows "checked_add a b = None \<longleftrightarrow> 2 ^ LENGTH('a) \<le> unat a + unat b"
  by (auto simp: checked_add_def)

lemma checked_sub_Some [word_nat]:
  fixes a b c :: "'a::len word"
  shows "checked_sub a b = Some c \<longleftrightarrow> unat a = unat b + unat c"
proof
  assume "checked_sub a b = Some c"
  then show "unat a = unat b + unat c"
    by (auto simp: checked_sub_def unat_sub_exact word_le_nat_alt split: if_splits)
next
  assume eq: "unat a = unat b + unat c"
  then have le: "b \<le> a" by (simp add: word_le_nat_alt)
  then have "unat (a - b) = unat c" using eq by (simp add: unat_sub_exact)
  then have "a - b = c" by (simp add: word_unat_eq_iff)
  then show "checked_sub a b = Some c" using le by (simp add: checked_sub_def)
qed

lemma checked_sub_None [word_nat]:
  "checked_sub a b = None \<longleftrightarrow> unat a < unat b"
  by (auto simp: checked_sub_def word_le_nat_alt)

lemma checked_mul_Some [word_nat]:
  fixes a b c :: "'a::len word"
  shows "checked_mul a b = Some c \<longleftrightarrow> unat a * unat b = unat c"
proof
  assume "checked_mul a b = Some c"
  then show "unat a * unat b = unat c"
    by (auto simp: checked_mul_def unat_mul_exact split: if_splits)
next
  assume eq: "unat a * unat b = unat c"
  moreover have "unat c < 2 ^ LENGTH('a)" by (rule unsigned_less)
  ultimately have lt: "unat a * unat b < 2 ^ LENGTH('a)" by simp
  then have "unat (a * b) = unat c" using eq by (simp add: unat_mul_exact)
  then have "a * b = c" by (simp add: word_unat_eq_iff)
  then show "checked_mul a b = Some c" using lt by (simp add: checked_mul_def)
qed

lemma checked_mul_None [word_nat]:
  fixes a b :: "'a::len word"
  shows "checked_mul a b = None \<longleftrightarrow> 2 ^ LENGTH('a) \<le> unat a * unat b"
  by (auto simp: checked_mul_def)

lemma usize_add_Some [word_nat]: "usize_add a b = Some c \<longleftrightarrow> a + b = c \<and> c < 2 ^ 64"
  by (auto simp: usize_add_def)

lemma usize_add_None [word_nat]: "usize_add a b = None \<longleftrightarrow> 2 ^ 64 \<le> a + b"
  by (auto simp: usize_add_def)

lemma usize_mul_Some [word_nat]: "usize_mul a b = Some c \<longleftrightarrow> a * b = c \<and> c < 2 ^ 64"
  by (auto simp: usize_mul_def)

lemma usize_mul_None [word_nat]: "usize_mul a b = None \<longleftrightarrow> 2 ^ 64 \<le> a * b"
  by (auto simp: usize_mul_def)

lemma u64_of_usize_Some [word_nat]: "u64_of_usize n = Some w \<longleftrightarrow> unat w = n"
proof -
  have "unat (of_nat n :: u64) = n" if "n < 2 ^ 64"
    using that by (simp add: unat_of_nat)
  moreover have "unat w < 2 ^ 64" using unsigned_less [of w] by simp
  ultimately show ?thesis
    by (auto simp: u64_of_usize_def)
qed

lemma u64_of_usize_None [word_nat]: "u64_of_usize n = None \<longleftrightarrow> 2 ^ 64 \<le> n"
  by (auto simp: u64_of_usize_def)

lemmas word_order_nat = word_le_nat_alt word_less_nat_alt
declare word_order_nat [word_nat]

lemma unat_ucast_up:
  assumes "LENGTH('a::len) \<le> LENGTH('b::len)"
  shows "unat (ucast (w :: 'a word) :: 'b word) = unat w"
proof -
  have "unat w < 2 ^ LENGTH('a)" by (rule unsigned_less)
  also have "\<dots> \<le> (2 :: nat) ^ LENGTH('b)" using assms by simp
  finally show ?thesis by (simp add: unsigned_ucast_eq take_bit_nat_eq_self_iff)
qed

lemma unat_take_bit_mod: "unat (take_bit n (w :: u64)) = unat w mod 2 ^ n"
proof -
  have "unat (take_bit n w) = take_bit n (unat w)" by (rule unsigned_take_bit_eq)
  then show ?thesis by (simp only: take_bit_eq_mod [of n "unat w"])
qed

lemma unat_drop_bit_div: "unat (drop_bit n (w :: u64)) = unat w div 2 ^ n"
proof -
  have "unat (drop_bit n w) = drop_bit n (unat w)" by (rule unat_drop_bit_eq)
  then show ?thesis by (simp only: drop_bit_eq_div [of n "unat w"])
qed

text \<open>The bits of a word from \<open>k\<close> on, \<open>n\<close> of them.\<close>

lemma unat_field: "unat (drop_bit k (w :: u64) AND mask n) = unat w div 2 ^ k mod 2 ^ n"
proof -
  have "drop_bit k w AND mask n = take_bit n (drop_bit k w)" by (rule take_bit_eq_mask [symmetric])
  then show ?thesis by (simp only: unat_take_bit_mod unat_drop_bit_div)
qed

lemma unat_u64_bound: "unat (w :: u64) < 2 ^ 64"
  using unsigned_less [of w] by simp

lemma unat_u32_bound: "unat (w :: u32) < 2 ^ 32"
  using unsigned_less [of w] by simp

lemma unat_u16_bound: "unat (w :: u16) < 2 ^ 16"
  using unsigned_less [of w] by simp

lemma unat_u8_bound: "unat (w :: u8) < 256"
  using unsigned_less [of w] by simp


subsection \<open>Alignment\<close>

text \<open>\<^verbatim>\<open>u64::is_power_of_two\<close>, and \<^verbatim>\<open>value & !(alignment - 1)\<close>.\<close>

definition is_power_of_two :: "u64 \<Rightarrow> bool" where
  "is_power_of_two a \<longleftrightarrow> (\<exists>k \<in> set [0..<64]. a = 2 ^ k)"

definition align_down :: "u64 \<Rightarrow> u64 \<Rightarrow> u64" where
  "align_down x a = x AND NOT (a - 1)"

lemma unat_power_of_two:
  assumes "k < 64"
  shows "unat ((2 :: u64) ^ k) = 2 ^ k"
proof -
  have "(2 :: nat) ^ k < 2 ^ 64" using assms by (rule power_strict_increasing) simp
  moreover have "(2 :: u64) ^ k = of_nat (2 ^ k)" by simp
  ultimately show ?thesis by (simp only: unat_of_nat) simp
qed

lemma is_power_of_two_nat:
  assumes "is_power_of_two a"
  obtains k where "k < 64" and "a = 2 ^ k" and "unat a = 2 ^ k"
  using assms unat_power_of_two by (auto simp: is_power_of_two_def)

lemma is_power_of_two_pos: "is_power_of_two a \<Longrightarrow> 0 < unat a"
  by (erule is_power_of_two_nat) simp

lemma and_not_mask_word: "x AND NOT (mask n) = x - take_bit n (x :: u64)"
proof -
  have "x AND NOT (mask n) = push_bit n (drop_bit n x)"
    by (rule bit_word_eqI)
      (auto simp: bit_simps)
  also have "\<dots> = x - take_bit n x"
    using bits_ident [of n x] by (simp add: algebra_simps)
  finally show ?thesis .
qed

lemma unat_align_down:
  assumes "is_power_of_two a"
  shows "unat (align_down x a) = unat x - unat x mod unat a"
proof -
  obtain k where k: "k < 64" "a = 2 ^ k" "unat a = 2 ^ k"
    using assms by (rule is_power_of_two_nat)
  have "a - 1 = mask k" using k by (simp add: mask_eq_exp_minus_1)
  then have "align_down x a = x - take_bit k x"
    by (simp add: align_down_def and_not_mask_word)
  moreover have low: "unat (take_bit k x) = unat x mod unat a"
  proof -
    have "unat (take_bit k x) = take_bit k (unat x)" by (rule unsigned_take_bit_eq)
    then show ?thesis by (simp only: take_bit_eq_mod [of k "unat x"] k(3))
  qed
  moreover have "take_bit k x \<le> x"
    by (simp add: word_le_nat_alt low)
  ultimately show ?thesis by (simp add: unat_sub_exact)
qed

lemma align_down_props:
  assumes "is_power_of_two a"
  shows "unat (align_down x a) \<le> unat x"
    and "unat x < unat (align_down x a) + unat a"
    and "unat (align_down x a) mod unat a = 0"
proof -
  have pos: "0 < unat a" by (rule is_power_of_two_pos [OF assms])
  note eq = unat_align_down [OF assms, of x]
  show "unat (align_down x a) \<le> unat x" by (simp add: eq)
  have "unat x mod unat a < unat a" using pos by simp
  moreover have "unat x mod unat a \<le> unat x" by simp
  ultimately show "unat x < unat (align_down x a) + unat a" using eq by linarith
  have "unat x - unat x mod unat a = unat x div unat a * unat a"
    by (simp add: minus_mod_eq_div_mult)
  then show "unat (align_down x a) mod unat a = 0" by (simp add: eq)
qed

section \<open>Byte buffers\<close>

text \<open>
  \<open>get_range\<close> is the slice method \<^verbatim>\<open>get(a..b)\<close>: \<^verbatim>\<open>None\<close> where the range does not lie
  in the slice. \<open>put_bytes\<close> is \<^verbatim>\<open>buf[off..off + src.len()].copy_from_slice(src)\<close>.
\<close>

definition get_range :: "'a list \<Rightarrow> nat \<Rightarrow> nat \<Rightarrow> 'a list option" where
  "get_range xs a b = (if a \<le> b \<and> b \<le> length xs then Some (take (b - a) (drop a xs)) else None)"

definition put_bytes :: "'a list \<Rightarrow> nat \<Rightarrow> 'a list \<Rightarrow> 'a list" where
  "put_bytes buf off src = take off buf @ src @ drop (off + length src) buf"

lemma get_range_Some [result_iff]:
  "get_range xs a b = Some ys \<longleftrightarrow> a \<le> b \<and> b \<le> length xs \<and> ys = take (b - a) (drop a xs)"
  by (auto simp: get_range_def)

lemma get_range_length: "get_range xs a b = Some ys \<Longrightarrow> length ys = b - a"
  by (auto simp: get_range_def split: if_splits)

lemma length_put_bytes [simp]:
  "off + length src \<le> length buf \<Longrightarrow> length (put_bytes buf off src) = length buf"
  by (simp add: put_bytes_def)

lemma nth_put_bytes:
  assumes "off + length src \<le> length buf" and "i < length buf"
  shows "put_bytes buf off src ! i =
    (if off \<le> i \<and> i < off + length src then src ! (i - off) else buf ! i)"
  using assms by (auto simp: put_bytes_def nth_append min_def)

lemma take_drop_put_bytes_same:
  "off + length src \<le> length buf \<Longrightarrow>
   take (length src) (drop off (put_bytes buf off src)) = src"
  by (simp add: put_bytes_def min_def)

lemma take_drop_put_bytes_disjoint:
  assumes "off + length src \<le> length buf" and "a + n \<le> length buf"
    and "a + n \<le> off \<or> off + length src \<le> a"
  shows "take n (drop a (put_bytes buf off src)) = take n (drop a buf)"
proof (rule nth_equalityI)
  show "length (take n (drop a (put_bytes buf off src))) = length (take n (drop a buf))"
    using assms by simp
next
  fix i assume "i < length (take n (drop a (put_bytes buf off src)))"
  then show "take n (drop a (put_bytes buf off src)) ! i = take n (drop a buf) ! i"
    using assms by (auto simp: nth_put_bytes)
qed

text \<open>Several writes one after another. Disjoint writes inside the buffer all stay readable.\<close>

definition put_chunks :: "(nat \<times> 'a list) list \<Rightarrow> 'a list \<Rightarrow> 'a list" where
  "put_chunks chunks buf = foldl (\<lambda>buf (off, src). put_bytes buf off src) buf chunks"

definition chunk_apart :: "nat \<times> 'a list \<Rightarrow> nat \<times> 'a list \<Rightarrow> bool" where
  "chunk_apart c d \<longleftrightarrow> fst c + length (snd c) \<le> fst d \<or> fst d + length (snd d) \<le> fst c"

definition chunks_fit :: "nat \<Rightarrow> (nat \<times> 'a list) list \<Rightarrow> bool" where
  "chunks_fit n chunks \<longleftrightarrow> (\<forall>c \<in> set chunks. fst c + length (snd c) \<le> n)"

lemma put_chunks_simps [simp]:
  "put_chunks [] buf = buf"
  "put_chunks ((off, src) # cs) buf = put_chunks cs (put_bytes buf off src)"
  "put_chunks (cs @ ds) buf = put_chunks ds (put_chunks cs buf)"
  by (simp_all add: put_chunks_def)

lemma chunks_fit_simps [simp]:
  "chunks_fit n []"
  "chunks_fit n (c # cs) \<longleftrightarrow> fst c + length (snd c) \<le> n \<and> chunks_fit n cs"
  "chunks_fit n (cs @ ds) \<longleftrightarrow> chunks_fit n cs \<and> chunks_fit n ds"
  by (auto simp: chunks_fit_def)

lemma length_put_chunks: "chunks_fit (length buf) cs \<Longrightarrow> length (put_chunks cs buf) = length buf"
  by (induction cs arbitrary: buf) auto

lemma put_chunks_elsewhere:
  assumes "chunks_fit (length buf) cs" and "a + n \<le> length buf"
    and "\<forall>c \<in> set cs. a + n \<le> fst c \<or> fst c + length (snd c) \<le> a"
  shows "take n (drop a (put_chunks cs buf)) = take n (drop a buf)"
  using assms
proof (induction cs arbitrary: buf)
  case (Cons c cs)
  obtain off src where c: "c = (off, src)" by (cases c)
  have "take n (drop a (put_bytes buf off src)) = take n (drop a buf)"
    using Cons.prems c by (intro take_drop_put_bytes_disjoint) auto
  then show ?case using Cons.IH [of "put_bytes buf off src"] Cons.prems c by simp
qed simp

lemma put_chunks_read:
  assumes "chunks_fit (length buf) cs" and "sorted_wrt chunk_apart cs" and "(off, src) \<in> set cs"
  shows "take (length src) (drop off (put_chunks cs buf)) = src"
  using assms
proof (induction cs arbitrary: buf)
  case (Cons c cs)
  obtain off' src' where c: "c = (off', src')" by (cases c)
  let ?b = "put_bytes buf off' src'"
  have len: "length ?b = length buf" using Cons.prems c by simp
  show ?case
  proof (cases "(off, src) = (off', src')")
    case True
    then have "take (length src) (drop off (put_chunks cs ?b)) = take (length src) (drop off ?b)"
      using Cons.prems c len by (intro put_chunks_elsewhere) (auto simp: chunk_apart_def)
    then show ?thesis using True Cons.prems c take_drop_put_bytes_same [of off' src' buf] by simp
  next
    case False
    then show ?thesis using Cons.IH [of ?b] Cons.prems c len by auto
  qed
qed simp

lemma put_chunks_nth_elsewhere:
  assumes "chunks_fit (length buf) cs" and "i < length buf"
    and "\<forall>c \<in> set cs. i < fst c \<or> fst c + length (snd c) \<le> i"
  shows "put_chunks cs buf ! i = buf ! i"
proof -
  have "take 1 (drop i (put_chunks cs buf)) = take 1 (drop i buf)"
    using assms by (intro put_chunks_elsewhere) auto
  then show ?thesis using assms(2) length_put_chunks [OF assms(1)]
    by (simp add: take_Suc hd_drop_conv_nth)
qed

text \<open>The bytes between two positions.\<close>

definition segment :: "'a list \<Rightarrow> nat \<Rightarrow> nat \<Rightarrow> 'a list" where
  "segment xs a b = take (b - a) (drop a xs)"

lemma segment_empty [simp]: "segment xs a a = []"
  by (simp add: segment_def)

lemma segment_all [simp]: "segment xs 0 (length xs) = xs"
  by (simp add: segment_def)

lemma length_segment: "a \<le> b \<Longrightarrow> b \<le> length xs \<Longrightarrow> length (segment xs a b) = b - a"
  by (simp add: segment_def)

lemma segment_join:
  assumes "a \<le> b" and "b \<le> c"
  shows "segment xs a c = segment xs a b @ segment xs b c"
proof -
  have "segment xs a c = take ((b - a) + (c - b)) (drop a xs)"
    using assms by (simp add: segment_def)
  also have "\<dots> = take (b - a) (drop a xs) @ take (c - b) (drop (b - a) (drop a xs))"
    by (rule take_add)
  finally show ?thesis using assms by (simp add: segment_def)
qed

lemma segment_join4:
  assumes "a \<le> b" and "b \<le> c" and "c \<le> d" and "d \<le> e"
  shows "segment xs a e = segment xs a b @ segment xs b c @ segment xs c d @ segment xs d e"
  using assms segment_join [of a b e xs] segment_join [of b c e xs] segment_join [of c d e xs]
  by simp

text \<open>
  \<^verbatim>\<open>buf[a..b].copy_from_slice(src)\<close>: a panic (\<open>None\<close>) where the range is not in the buffer
  or its length is not that of the source.
\<close>

definition copy_from_slice :: "'a list \<Rightarrow> nat \<times> nat \<Rightarrow> 'a list \<Rightarrow> 'a list option" where
  "copy_from_slice buf bounds src =
     (case bounds of (a, b) \<Rightarrow>
      if a \<le> b \<and> b \<le> length buf \<and> b - a = length src then Some (put_bytes buf a src) else None)"

lemma copy_from_slice_Some [result_iff]:
  "copy_from_slice buf (a, b) src = Some buf' \<longleftrightarrow>
   a \<le> b \<and> b \<le> length buf \<and> b - a = length src \<and> buf' = put_bytes buf a src"
  by (auto simp: copy_from_slice_def)

text \<open>\<^verbatim>\<open>iter().position(p)\<close> and \<^verbatim>\<open>iter().flatten()\<close> over options.\<close>

fun position_where :: "('a \<Rightarrow> bool) \<Rightarrow> 'a list \<Rightarrow> nat option" where
  "position_where P [] = None"
| "position_where P (x # xs) = (if P x then Some 0 else map_option Suc (position_where P xs))"

lemma position_where_Some:
  "position_where P xs = Some i \<Longrightarrow> i < length xs \<and> P (xs ! i) \<and> (\<forall>j<i. \<not> P (xs ! j))"
proof (induction xs arbitrary: i)
  case (Cons x xs)
  show ?case
  proof (cases "P x")
    case False
    then obtain j where "position_where P xs = Some j" and "i = Suc j"
      using Cons.prems by auto
    with Cons.IH [of j] False show ?thesis by (auto simp: less_Suc_eq_0_disj)
  qed (use Cons.prems in auto)
qed simp

lemma position_where_None: "position_where P xs = None \<longleftrightarrow> (\<forall>x \<in> set xs. \<not> P x)"
  by (induction xs) auto

definition flatten :: "'a option list \<Rightarrow> 'a list" where
  "flatten xs = List.map_filter (\<lambda>x. x) xs"

lemma set_flatten: "set (flatten xs) = {x. Some x \<in> set xs}"
  by (force simp: flatten_def List.map_filter_def image_def)

lemma flatten_simps [simp]:
  "flatten [] = []"
  "flatten (None # xs) = flatten xs"
  "flatten (Some x # xs) = x # flatten xs"
  by (simp_all add: flatten_def List.map_filter_def)

section \<open>Little-endian integers\<close>

fun le_value :: "byte_string \<Rightarrow> nat" where
  "le_value [] = 0"
| "le_value (b # bs) = unat b + 256 * le_value bs"

fun le_digits :: "nat \<Rightarrow> nat \<Rightarrow> byte_string" where
  "le_digits 0 n = []"
| "le_digits (Suc k) n = of_nat (n mod 256) # le_digits k (n div 256)"

definition from_le_bytes :: "byte_string \<Rightarrow> 'a::len word" where
  "from_le_bytes bs = of_nat (le_value bs)"

definition to_le_bytes :: "'a::len word \<Rightarrow> byte_string" where
  "to_le_bytes w = le_digits (LENGTH('a) div 8) (unat w)"

lemma length_le_digits [simp]: "length (le_digits k n) = k"
  by (induction k arbitrary: n) auto

lemma le_value_digits: "le_value (le_digits k n) = n mod 256 ^ k"
proof (induction k arbitrary: n)
  case (Suc k)
  have "unat (of_nat (n mod 256) :: u8) = n mod 256" by (simp add: unat_of_nat)
  then show ?case by (simp add: Suc mod_mult2_eq)
qed simp

lemma le_value_bound: "le_value bs < 256 ^ length bs"
proof (induction bs)
  case (Cons b bs)
  have "unat b < 256" by (rule unat_u8_bound)
  with Cons show ?case by simp
qed simp

lemma le_digits_value: "le_digits (length bs) (le_value bs) = bs"
proof (induction bs)
  case (Cons b bs)
  have b: "unat b < 256" by (rule unat_u8_bound)
  then have "(unat b + 256 * le_value bs) div 256 = le_value bs" by simp
  moreover have "(unat b + 256 * le_value bs) mod 256 = unat b" using b by simp
  moreover have "of_nat (unat b) = b" by simp
  ultimately show ?case using Cons by simp
qed simp

lemma length_to_le_bytes [simp]: "length (to_le_bytes (w :: 'a::len word)) = LENGTH('a) div 8"
  by (simp add: to_le_bytes_def)

lemma from_to_le_bytes:
  fixes w :: "'a::len word"
  assumes "8 dvd LENGTH('a)"
  shows "from_le_bytes (to_le_bytes w) = w"
proof -
  have "(256 :: nat) ^ (LENGTH('a) div 8) = 2 ^ (8 * (LENGTH('a) div 8))"
    by (simp add: power_mult)
  also have "\<dots> = 2 ^ LENGTH('a)" using assms by simp
  finally have "unat w mod 256 ^ (LENGTH('a) div 8) = unat w"
    using unsigned_less [of w, where ?'a = nat] by simp
  then show ?thesis
    by (simp add: from_le_bytes_def to_le_bytes_def le_value_digits)
qed

lemma unat_from_le_bytes:
  assumes "8 * length bs \<le> LENGTH('a)"
  shows "unat (from_le_bytes bs :: 'a::len word) = le_value bs"
proof -
  have "le_value bs < 2 ^ (8 * length bs)"
    using le_value_bound [of bs] by (simp add: power_mult)
  also have "\<dots> \<le> 2 ^ LENGTH('a)" using assms by (simp add: power_increasing)
  finally show ?thesis by (simp add: from_le_bytes_def unat_of_nat)
qed

lemma to_from_le_bytes:
  assumes "LENGTH('a) = 8 * length bs"
  shows "to_le_bytes (from_le_bytes bs :: 'a::len word) = bs"
  using assms by (simp add: to_le_bytes_def unat_from_le_bytes le_digits_value)

lemma from_to_le_u64 [simp]: "from_le_bytes (to_le_bytes (w :: u64)) = w"
  by (rule from_to_le_bytes) simp

lemma from_to_le_u32 [simp]: "from_le_bytes (to_le_bytes (w :: u32)) = w"
  by (rule from_to_le_bytes) simp

lemma from_to_le_u16 [simp]: "from_le_bytes (to_le_bytes (w :: u16)) = w"
  by (rule from_to_le_bytes) simp

end
