(* ===== verification/Contracts.thy ===== *)
theory Contracts
  imports Rust_Prelude
begin

text \<open>
  The interfaces several components share, as locales. Each is interpreted in the theory of
  the component that provides the operation, on the model of that operation.

  \<^item> \<open>cursor_reader\<close>: the \<^verbatim>\<open>take\<close> operation the device-tree readers are built on
    (\<^verbatim>\<open>flat_dt::take\<close>, \<^verbatim>\<open>firmware_dt::Parser::take\<close>, \<^verbatim>\<open>xnu_arm64_boot_args::Cursor::take\<close>).
  \<^item> \<open>interval_test\<close>: the half-open overlap test of the ledger, the page tables and the
    boot-argument ranges.
  \<^item> \<open>page_rounding\<close>: rounding an address up to a power-of-two boundary with overflow
    reported as an error (\<^verbatim>\<open>guest_memory::align_up\<close>, \<^verbatim>\<open>xnu_arm64_handoff::align_up\<close>).
\<close>

section \<open>Reading from a cursor\<close>

locale cursor_reader =
  fixes take_at :: "byte_string \<Rightarrow> nat \<Rightarrow> nat \<Rightarrow> 'e + (byte_string \<times> nat)"
    and short :: 'e
  assumes take_at_inside:
    "length bs < 2 ^ 64 \<Longrightarrow> pos + n \<le> length bs \<Longrightarrow>
     take_at bs pos n = Inr (take n (drop pos bs), pos + n)"
  assumes take_at_outside:
    "length bs < 2 ^ 64 \<Longrightarrow> length bs < pos + n \<Longrightarrow> take_at bs pos n = Inl short"
begin

lemma take_at_Inr:
  assumes "length bs < 2 ^ 64"
  shows "take_at bs pos n = Inr (ys, pos') \<longleftrightarrow>
    pos + n \<le> length bs \<and> ys = take n (drop pos bs) \<and> pos' = pos + n"
  using assms take_at_inside [of bs pos n] take_at_outside [of bs pos n]
  by (cases "pos + n \<le> length bs") auto

text \<open>Reading the middle of a concatenation.\<close>

lemma take_at_append:
  assumes "length (xs @ ys @ zs) < 2 ^ 64"
  shows "take_at (xs @ ys @ zs) (length xs) (length ys) = Inr (ys, length xs + length ys)"
  using take_at_inside [OF assms, of "length xs" "length ys"] by simp

text \<open>What was read stays readable when more bytes follow.\<close>

lemma take_at_extend:
  assumes "length (bs @ zs) < 2 ^ 64" and "take_at bs pos n = Inr r"
  shows "take_at (bs @ zs) pos n = Inr r"
proof -
  obtain ys pos' where r: "r = (ys, pos')" by (cases r)
  have "length bs < 2 ^ 64" using assms(1) by simp
  then have "pos + n \<le> length bs \<and> ys = take n (drop pos bs) \<and> pos' = pos + n"
    using assms(2) r by (simp add: take_at_Inr)
  then show ?thesis using assms(1) r by (simp add: take_at_Inr)
qed

lemma take_at_progress:
  assumes "length bs < 2 ^ 64" and "take_at bs pos n = Inr (ys, pos')"
  shows "pos' = pos + n" and "pos' \<le> length bs" and "length ys = n"
  using assms by (auto simp: take_at_Inr)

end

section \<open>Overlap of half-open intervals\<close>

text \<open>The addresses of a half-open interval.\<close>

definition addresses :: "u64 \<Rightarrow> u64 \<Rightarrow> nat set" where
  "addresses a b = {unat a ..< unat b}"

locale interval_test =
  fixes overlaps_with :: "u64 \<Rightarrow> u64 \<Rightarrow> u64 \<Rightarrow> u64 \<Rightarrow> bool"
  assumes overlaps_with: "overlaps_with a a' b b' \<longleftrightarrow> a < b' \<and> b < a'"
begin

lemma overlaps_iff_common_address:
  assumes "a < a'" and "b < b'"
  shows "overlaps_with a a' b b' \<longleftrightarrow> addresses a a' \<inter> addresses b b' \<noteq> {}"
proof
  assume "overlaps_with a a' b b'"
  then have "max (unat a) (unat b) \<in> addresses a a' \<inter> addresses b b'"
    using assms by (auto simp: overlaps_with addresses_def word_nat)
  then show "addresses a a' \<inter> addresses b b' \<noteq> {}" by blast
next
  assume "addresses a a' \<inter> addresses b b' \<noteq> {}"
  then show "overlaps_with a a' b b'"
    by (auto simp: overlaps_with addresses_def word_nat)
qed

lemma overlaps_sym: "overlaps_with a a' b b' \<longleftrightarrow> overlaps_with b b' a a'"
  by (auto simp: overlaps_with)

end

section \<open>Rounding up\<close>

locale page_rounding =
  fixes round_up :: "u64 \<Rightarrow> u64 \<Rightarrow> 'e + u64"
    and overflow :: 'e
  assumes round_up_def:
    "is_power_of_two a \<Longrightarrow>
     round_up x a = (case checked_add x (a - 1) of
        None \<Rightarrow> Inl overflow | Some v \<Rightarrow> Inr (align_down v a))"
begin

lemma round_up_Inr:
  assumes "is_power_of_two a" and "round_up x a = Inr y"
  shows "unat x \<le> unat y" and "unat y < unat x + unat a" and "unat y mod unat a = 0"
proof -
  have pos: "0 < unat a" by (rule is_power_of_two_pos [OF assms(1)])
  then have pred: "unat (a - 1) = unat a - 1"
    by (simp add: unat_sub_exact word_nat)
  obtain v where v: "checked_add x (a - 1) = Some v" and y: "y = align_down v a"
    using assms by (auto simp: round_up_def split: option.splits)
  from v have v': "unat v = unat x + (unat a - 1)" by (simp add: checked_add_Some pred)
  have "unat y \<le> unat v" "unat v < unat y + unat a" "unat y mod unat a = 0"
    unfolding y by (rule align_down_props [OF assms(1)])+
  then show "unat x \<le> unat y" "unat y < unat x + unat a" "unat y mod unat a = 0"
    using v' pos by auto
qed

text \<open>No multiple of the alignment lies between the address and its rounding.\<close>

lemma round_up_least:
  assumes "is_power_of_two a" and "round_up x a = Inr y"
    and "unat x \<le> m" and "m mod unat a = 0"
  shows "unat y \<le> m"
proof (rule ccontr)
  note r = round_up_Inr [OF assms(1,2)]
  have pos: "0 < unat a" by (rule is_power_of_two_pos [OF assms(1)])
  assume "\<not> unat y \<le> m"
  then have lt: "m < unat y" by simp
  obtain i j where i: "unat y = unat a * i" and j: "m = unat a * j"
    using r(3) assms(4) by (auto simp: mod_eq_0_iff_dvd dvd_def)
  have "j < i" using lt i j pos by simp
  then have "unat a * (j + 1) \<le> unat a * i" by (intro mult_le_mono2) simp
  then have "m + unat a \<le> unat y" using i j by simp
  then show False using r(2) assms(3) by linarith
qed

text \<open>Overflow is reported only where no multiple of the alignment is left in 64 bits.\<close>

lemma round_up_Inl:
  assumes "is_power_of_two a" and "round_up x a = Inl e"
    and "unat x \<le> m" and "m mod unat a = 0"
  shows "2 ^ 64 \<le> m"
proof (rule ccontr)
  have pos: "0 < unat a" by (rule is_power_of_two_pos [OF assms(1)])
  then have pred: "unat (a - 1) = unat a - 1"
    by (simp add: unat_sub_exact word_nat)
  from assms(1,2) have over: "2 ^ 64 \<le> unat x + (unat a - 1)"
    using checked_add_None [of x "a - 1"]
    by (auto simp: round_up_def pred split: option.splits)
  assume "\<not> 2 ^ 64 \<le> m"
  then have lt: "m < 2 ^ 64" by simp
  obtain k where k: "k < 64" "unat a = 2 ^ k" using assms(1) by (rule is_power_of_two_nat)
  have "(2 :: nat) ^ 64 = 2 ^ (64 - k) * 2 ^ k"
    using k(1) by (simp flip: power_add)
  then have top: "(2 :: nat) ^ 64 = unat a * 2 ^ (64 - k)" by (simp only: k(2) mult.commute)
  obtain j where j: "m = unat a * j" using assms(4) by (auto simp: mod_eq_0_iff_dvd dvd_def)
  have "unat a * j < unat a * 2 ^ (64 - k)" using lt j top by linarith
  then have "j < 2 ^ (64 - k)" by (simp only: mult_less_cancel1)
  then have "unat a * (j + 1) \<le> unat a * 2 ^ (64 - k)" by (intro mult_le_mono2) simp
  then have "m + unat a \<le> 2 ^ 64" using j top by simp
  then show False using over assms(3) pos by linarith
qed

end

end
