(* ===== verification/Flat_Dt.thy ===== *)
theory Flat_Dt
  imports Contracts
begin

text \<open>
  \<^verbatim>\<open>src/src/flat_dt.rs\<close>: the bounded codec of the flattened device tree. A node is written
  as its property count, its child count, its properties (the name first) and its children;
  a property as a 32-byte name, a length and the value padded to four bytes.

  Strings are their UTF-8 bytes. The \<^verbatim>\<open>&mut Budget\<close> and \<^verbatim>\<open>&mut cursor\<close> arguments are
  passed and returned. The allocator is the argument \<open>can_reserve\<close> of \<open>encode\<close>.
\<close>

section \<open>Data\<close>

definition MAX_SERIALIZED_SIZE :: nat where "MAX_SERIALIZED_SIZE = 1024 * 1024"
definition MAX_DEPTH :: nat where "MAX_DEPTH = 32"
definition MAX_NODES :: nat where "MAX_NODES = 1024"
definition MAX_PROPERTIES :: nat where "MAX_PROPERTIES = 4096"
definition MAX_PROPERTIES_PER_NODE :: nat where "MAX_PROPERTIES_PER_NODE = 64"
definition MAX_CHILDREN_PER_NODE :: nat where "MAX_CHILDREN_PER_NODE = 64"
definition MAX_NODE_NAME :: nat where "MAX_NODE_NAME = 63"
definition MAX_PROPERTY_NAME :: nat where "MAX_PROPERTY_NAME = 31"

lemmas flat_dt_limits =
  MAX_SERIALIZED_SIZE_def MAX_DEPTH_def MAX_NODES_def MAX_PROPERTIES_def
  MAX_PROPERTIES_PER_NODE_def MAX_CHILDREN_PER_NODE_def MAX_NODE_NAME_def MAX_PROPERTY_NAME_def

datatype flat_property = FlatProperty (property_name: byte_string) (property_value: byte_string)

datatype flat_node =
  FlatNode (node_name: byte_string) (node_properties: "flat_property list")
    (node_children: "flat_node list")

datatype flat_dt_error =
    InvalidNodeName
  | InvalidPropertyName
  | DuplicateProperty
  | DuplicateChild
  | InvalidNameProperty
  | LimitsExceeded
  | Truncated
  | InvalidPadding
  | TrailingData
  | AllocationFailed

record budget =
  budget_nodes :: nat
  budget_properties :: nat
  budget_bytes :: nat

definition budget_default :: budget where
  "budget_default = \<lparr>budget_nodes = 0, budget_properties = 0, budget_bytes = 0\<rparr>"

section \<open>Budget and name checks\<close>

definition add_bytes :: "budget \<Rightarrow> nat \<Rightarrow> flat_dt_error + budget" where
  "add_bytes b n =
     and_then (ok_or (usize_add (budget_bytes b) n) LimitsExceeded) (\<lambda>total.
     let b = b\<lparr>budget_bytes := total\<rparr> in
     if MAX_SERIALIZED_SIZE < total then Inl LimitsExceeded else Inr b)"

definition budget_node :: "budget \<Rightarrow> nat \<Rightarrow> nat \<Rightarrow> nat \<Rightarrow> flat_dt_error + budget" where
  "budget_node b depth properties children =
     (if MAX_DEPTH < depth \<or> properties = 0 \<or> MAX_PROPERTIES_PER_NODE < properties
         \<or> MAX_CHILDREN_PER_NODE < children
      then Inl LimitsExceeded
      else and_then (ok_or (usize_add (budget_nodes b) 1) LimitsExceeded) (\<lambda>nodes.
           and_then (ok_or (usize_add (budget_properties b) properties) LimitsExceeded) (\<lambda>props.
           let b = b\<lparr>budget_nodes := nodes, budget_properties := props\<rparr> in
           if MAX_NODES < nodes \<or> MAX_PROPERTIES < props then Inl LimitsExceeded
           else add_bytes b 8)))"

text \<open>\<^verbatim>\<open>(n + 3) & !3\<close>.\<close>

definition round4 :: "nat \<Rightarrow> nat" where
  "round4 n = (n + 3) div 4 * 4"

definition property_size :: "nat \<Rightarrow> flat_dt_error + nat" where
  "property_size value_size =
     (if MAX_SERIALIZED_SIZE < value_size then Inl LimitsExceeded
      else Inr (36 + round4 value_size))"

definition printable :: "byte_string \<Rightarrow> bool" where
  "printable bytes = list_all (\<lambda>b. 0x20 \<le> b \<and> b \<le> 0x7e) bytes"

definition check_node_name :: "byte_string \<Rightarrow> nat \<Rightarrow> flat_dt_error + unit" where
  "check_node_name name depth =
     (if MAX_NODE_NAME < length name \<or> (name = [] \<and> depth \<noteq> 0) \<or> \<not> printable name
      then Inl InvalidNodeName else Inr ())"

definition check_property_name :: "byte_string \<Rightarrow> flat_dt_error + unit" where
  "check_property_name name =
     (if name = [] \<or> MAX_PROPERTY_NAME < length name \<or> \<not> printable name
      then Inl InvalidPropertyName else Inr ())"

text \<open>The byte string \<^verbatim>\<open>b"name"\<close>.\<close>

definition name_key :: byte_string where
  "name_key = [0x6e, 0x61, 0x6d, 0x65]"

section \<open>Encoding\<close>

text \<open>The loop over the properties of a node; \<open>earlier\<close> holds the names already seen.\<close>

fun measure_properties ::
  "byte_string list \<Rightarrow> flat_property list \<Rightarrow> budget \<Rightarrow> flat_dt_error + budget" where
  "measure_properties earlier [] b = Inr b"
| "measure_properties earlier (p # ps) b =
     and_then (check_property_name (property_name p)) (\<lambda>_.
     if property_name p = name_key \<or> property_name p \<in> set earlier
     then Inl DuplicateProperty
     else and_then (property_size (length (property_value p))) (\<lambda>size.
          and_then (add_bytes b size) (\<lambda>b.
          measure_properties (earlier @ [property_name p]) ps b)))"

fun measure_node :: "flat_node \<Rightarrow> nat \<Rightarrow> budget \<Rightarrow> flat_dt_error + budget"
  and measure_children ::
    "byte_string list \<Rightarrow> flat_node list \<Rightarrow> nat \<Rightarrow> budget \<Rightarrow> flat_dt_error + budget" where
  "measure_node (FlatNode name properties children) depth b =
     and_then (ok_or (usize_add (length properties) 1) LimitsExceeded) (\<lambda>property_count.
     and_then (budget_node b depth property_count (length children)) (\<lambda>b.
     and_then (check_node_name name depth) (\<lambda>_.
     and_then (property_size (length name + 1)) (\<lambda>size.
     and_then (add_bytes b size) (\<lambda>b.
     and_then (measure_properties [] properties b) (\<lambda>b.
     measure_children [] children depth b))))))"
| "measure_children earlier [] depth b = Inr b"
| "measure_children earlier (c # cs) depth b =
     (if node_name c \<in> set earlier then Inl DuplicateChild
      else and_then (measure_node c (depth + 1) b) (\<lambda>b.
           measure_children (earlier @ [node_name c]) cs depth b))"

text \<open>\<^verbatim>\<open>u32::try_from(usize)\<close>.\<close>

definition u32_of_usize :: "nat \<Rightarrow> u32 option" where
  "u32_of_usize n = (if n < 2 ^ 32 then Some (of_nat n) else None)"

definition resize_zero :: "byte_string \<Rightarrow> nat \<Rightarrow> byte_string" where
  "resize_zero bytes n = take n bytes @ replicate (n - length bytes) 0"

definition write_property ::
  "byte_string \<Rightarrow> byte_string \<Rightarrow> byte_string \<Rightarrow> flat_dt_error + byte_string" where
  "write_property name val bytes =
     and_then (ok_or (u32_of_usize (length val)) LimitsExceeded) (\<lambda>len.
     let wire_name = put_bytes (replicate 32 0) 0 name;
         bytes = bytes @ wire_name @ to_le_bytes len @ val
     in Inr (resize_zero bytes (round4 (length bytes))))"

fun write_properties :: "flat_property list \<Rightarrow> byte_string \<Rightarrow> flat_dt_error + byte_string" where
  "write_properties [] bytes = Inr bytes"
| "write_properties (p # ps) bytes =
     and_then (write_property (property_name p) (property_value p) bytes) (write_properties ps)"

fun write_node :: "flat_node \<Rightarrow> byte_string \<Rightarrow> flat_dt_error + byte_string"
  and write_children :: "flat_node list \<Rightarrow> byte_string \<Rightarrow> flat_dt_error + byte_string" where
  "write_node (FlatNode name properties children) bytes =
     and_then (ok_or (u32_of_usize (length properties + 1)) LimitsExceeded) (\<lambda>property_count.
     and_then (ok_or (u32_of_usize (length children)) LimitsExceeded) (\<lambda>child_count.
     let bytes = bytes @ to_le_bytes property_count @ to_le_bytes child_count;
         name_value = put_bytes (replicate (MAX_NODE_NAME + 1) 0) 0 name in
     and_then (write_property name_key (take (length name + 1) name_value) bytes) (\<lambda>bytes.
     and_then (write_properties properties bytes) (\<lambda>bytes.
     write_children children bytes))))"
| "write_children [] bytes = Inr bytes"
| "write_children (c # cs) bytes = and_then (write_node c bytes) (write_children cs)"

definition encode :: "(nat \<Rightarrow> bool) \<Rightarrow> flat_node \<Rightarrow> flat_dt_error + byte_string" where
  "encode can_reserve root =
     and_then (measure_node root 0 budget_default) (\<lambda>b.
     if \<not> can_reserve (budget_bytes b) then Inl AllocationFailed
     else write_node root [])"

section \<open>Validation\<close>

definition take_bytes ::
  "byte_string \<Rightarrow> nat \<Rightarrow> nat \<Rightarrow> flat_dt_error + (byte_string \<times> nat)" where
  "take_bytes bytes cursor count =
     and_then (ok_or (usize_add cursor count) Truncated) (\<lambda>last.
     and_then (ok_or (get_range bytes cursor last) Truncated) (\<lambda>slice.
     Inr (slice, last)))"

definition read_u32 :: "byte_string \<Rightarrow> nat \<Rightarrow> flat_dt_error + (u32 \<times> nat)" where
  "read_u32 bytes cursor =
     and_then (take_bytes bytes cursor 4) (\<lambda>(raw, cursor). Inr (from_le_bytes raw, cursor))"

text \<open>\<^verbatim>\<open>iter().position(|&b| b == 0)\<close>.\<close>

fun position_zero :: "byte_string \<Rightarrow> nat option" where
  "position_zero [] = None"
| "position_zero (b # bs) = (if b = 0 then Some 0 else map_option Suc (position_zero bs))"

text \<open>
  The loop over the properties of a node: the number left, the names read so far
  (\<^verbatim>\<open>property_names[..index]\<close>) and the node's name once its property was met.
\<close>

fun read_properties ::
  "byte_string \<Rightarrow> nat \<Rightarrow> nat \<Rightarrow> byte_string list \<Rightarrow> byte_string option \<Rightarrow> nat \<Rightarrow> budget \<Rightarrow>
   flat_dt_error + (byte_string option \<times> nat \<times> budget)" where
  "read_properties bytes depth 0 names found cursor b = Inr (found, cursor, b)"
| "read_properties bytes depth (Suc left) names found cursor b =
     and_then (take_bytes bytes cursor 32) (\<lambda>(wire_name, cursor).
     and_then (ok_or (position_zero wire_name) InvalidPropertyName) (\<lambda>terminator.
     let name = take terminator wire_name in
     and_then (check_property_name name) (\<lambda>_.
     if list_ex (\<lambda>b. b \<noteq> 0) (drop terminator wire_name) then Inl InvalidPropertyName
     else if name \<in> set names then Inl DuplicateProperty
     else
     and_then (read_u32 bytes cursor) (\<lambda>(size32, cursor).
     let size = unat size32 in
     and_then (property_size size) (\<lambda>wire.
     and_then (add_bytes b wire) (\<lambda>b.
     and_then (take_bytes bytes cursor size) (\<lambda>(val, cursor).
     and_then
       (if name = name_key then
          (if val = [] \<or> last val \<noteq> 0 then Inl InvalidNameProperty
           else and_then (check_node_name (butlast val) depth) (\<lambda>_. Inr (Some (butlast val))))
        else Inr found) (\<lambda>found.
     and_then (take_bytes bytes cursor ((4 - size mod 4) mod 4)) (\<lambda>(padding, cursor).
     if list_ex (\<lambda>b. b \<noteq> 0) padding then Inl InvalidPadding
     else read_properties bytes depth left (names @ [name]) found cursor b)))))))))"

lemma budget_node_depth: "budget_node b depth p c = Inr b' \<Longrightarrow> depth \<le> MAX_DEPTH"
  by (auto simp: budget_node_def split: if_splits)

text \<open>
  Reading a node and its children. The recursion goes down one level per child list, and
  the budget refuses a node below \<open>MAX_DEPTH\<close>: that is the termination measure.
\<close>

function (sequential) read_node ::
    "byte_string \<Rightarrow> nat \<Rightarrow> nat \<Rightarrow> budget \<Rightarrow> flat_dt_error + (byte_string \<times> nat \<times> budget)"
  and read_children ::
    "byte_string \<Rightarrow> nat \<Rightarrow> byte_string list \<Rightarrow> nat \<Rightarrow> nat \<Rightarrow> budget \<Rightarrow>
     flat_dt_error + (nat \<times> budget)" where
  "read_node bytes cursor depth b =
     and_then (read_u32 bytes cursor) (\<lambda>(properties, cursor).
     and_then (read_u32 bytes cursor) (\<lambda>(children, cursor).
     and_then (budget_node b depth (unat properties) (unat children)) (\<lambda>b.
     and_then (read_properties bytes depth (unat properties) [] None cursor b)
       (\<lambda>(found, cursor, b).
     and_then (ok_or found InvalidNameProperty) (\<lambda>name.
     and_then (read_children bytes (unat children) [] cursor (depth + 1) b) (\<lambda>(cursor, b).
     Inr (name, cursor, b)))))))"
| "read_children bytes 0 names cursor depth b = Inr (cursor, b)"
| "read_children bytes (Suc left) names cursor depth b =
     and_then (read_node bytes cursor depth b) (\<lambda>(name, cursor, b).
     if name \<in> set names then Inl DuplicateChild
     else read_children bytes left (names @ [name]) cursor depth b)"
  by pat_completeness auto

termination
proof (relation "inv_image (less_than <*lex*> less_than <*lex*> less_than)
    (\<lambda>x. case x of Inl (bytes, cursor, depth, b) \<Rightarrow> (MAX_DEPTH + 2 - depth, 0, 0)
                 | Inr (bytes, left, names, cursor, depth, b) \<Rightarrow>
                     (MAX_DEPTH + 2 - depth, 1, left))", goal_cases)
  case 1
  show ?case by (auto intro!: wf_inv_image)
next
  case (2 bytes cursor depth b x xa)
  then show ?case by (auto dest!: budget_node_depth)
qed auto

declare read_node.simps [simp del]

definition validate :: "byte_string \<Rightarrow> flat_dt_error + unit" where
  "validate bytes =
     (if MAX_SERIALIZED_SIZE < length bytes then Inl LimitsExceeded
      else and_then (read_node bytes 0 0 budget_default) (\<lambda>(name, cursor, b).
           if cursor \<noteq> length bytes then Inl TrailingData else Inr ()))"


section \<open>Cursor, budget and alignment lemmas\<close>

interpretation flat_cursor: cursor_reader take_bytes Truncated
  by unfold_locales
    (auto simp: take_bytes_def ok_or_def usize_add_def get_range_def)

lemma take_bytes_at:
  assumes "bytes = pre @ ys @ zs" and "cursor = length pre" and "n = length ys"
    and "length bytes < 2 ^ 64"
  shows "take_bytes bytes cursor n = Inr (ys, cursor + n)"
  using assms flat_cursor.take_at_append [of pre ys zs] by simp

lemma read_u32_at:
  assumes "bytes = pre @ to_le_bytes w @ zs" and "cursor = length pre"
    and "length bytes < 2 ^ 64"
  shows "read_u32 bytes cursor = Inr (w, cursor + 4)"
proof -
  have "take_bytes bytes cursor 4 = Inr (to_le_bytes w, cursor + 4)"
    by (rule take_bytes_at [OF assms(1,2) _ assms(3)]) simp
  then show ?thesis by (simp add: read_u32_def)
qed

lemma add_bytes_Inr:
  "add_bytes b n = Inr b' \<longleftrightarrow>
   budget_bytes b + n \<le> MAX_SERIALIZED_SIZE \<and> b' = b\<lparr>budget_bytes := budget_bytes b + n\<rparr>"
  by (auto simp: add_bytes_def result_iff word_nat flat_dt_limits Let_def)

lemma budget_node_bytes:
  "budget_node b d p c = Inr b' \<Longrightarrow>
   budget_bytes b' = budget_bytes b + 8 \<and> budget_bytes b' \<le> MAX_SERIALIZED_SIZE \<and>
   0 < p \<and> p \<le> MAX_PROPERTIES_PER_NODE \<and> c \<le> MAX_CHILDREN_PER_NODE \<and> d \<le> MAX_DEPTH"
  by (auto simp: budget_node_def result_iff add_bytes_Inr Let_def split: if_splits)

lemma property_size_Inr:
  "property_size n = Inr s \<longleftrightarrow> n \<le> MAX_SERIALIZED_SIZE \<and> s = 36 + round4 n"
  by (auto simp: property_size_def)

lemma round4_eq: "round4 n = n + (4 - n mod 4) mod 4"
proof -
  have "n = 4 * (n div 4) + n mod 4" by simp
  then obtain q r where n: "n = 4 * q + r" and r: "r < 4" by (metis mod_less_divisor zero_less_numeral)
  have m: "n mod 4 = r" using n r by simp
  have "r = 0 \<or> r = 1 \<or> r = 2 \<or> r = 3" using r by arith
  then show ?thesis unfolding round4_def m unfolding n by (elim disjE) simp_all
qed

lemma round4_dvd [simp]: "4 dvd round4 n"
  by (simp add: round4_def)

lemma round4_add: "4 dvd m \<Longrightarrow> round4 (m + n) = m + round4 n"
proof -
  assume "4 dvd m"
  then obtain k where m: "m = 4 * k" by (rule dvdE)
  have "(n + 3 + k * 4) div 4 = k + (n + 3) div 4" by (rule div_mult_self1) simp
  then show ?thesis unfolding round4_def m by (simp add: algebra_simps)
qed

lemma dvd_length_append:
  "(4 :: nat) dvd length xs \<Longrightarrow> 4 dvd length ys \<Longrightarrow> 4 dvd length (xs @ ys)"
  by (simp add: dvd_add)

lemma round4_ge: "n \<le> round4 n"
  by (simp add: round4_eq)

lemma check_property_name_Inr:
  "check_property_name name = Inr u \<longleftrightarrow>
   name \<noteq> [] \<and> length name \<le> MAX_PROPERTY_NAME \<and> printable name"
  by (auto simp: check_property_name_def)

lemma check_node_name_Inr:
  "check_node_name name d = Inr u \<longleftrightarrow>
   length name \<le> MAX_NODE_NAME \<and> (name = [] \<longrightarrow> d = 0) \<and> printable name"
  by (auto simp: check_node_name_def)

lemma printable_nonzero: "printable name \<Longrightarrow> b \<in> set name \<Longrightarrow> b \<noteq> 0"
  by (auto simp: printable_def list_all_iff)

lemma position_zero_append:
  "\<forall>b \<in> set name. b \<noteq> 0 \<Longrightarrow> position_zero (name @ 0 # rest) = Some (length name)"
  by (induction name) auto

lemma position_zero_replicate [simp]:
  "0 < n \<Longrightarrow> position_zero (replicate n 0) = Some 0"
  by (cases n) auto

lemma list_ex_nonzero_replicate [simp]: "\<not> list_ex (\<lambda>b. b \<noteq> 0) (replicate n 0)"
  by (simp add: list_ex_iff)

lemma name_key_props:
  "length name_key = 4" "name_key \<noteq> []" "check_property_name name_key = Inr ()"
  by (simp_all add: name_key_def check_property_name_def printable_def flat_dt_limits
      word_le_nat_alt)

section \<open>The wire format\<close>

text \<open>The bytes of one property and of one subtree, without a buffer.\<close>

definition enc_property :: "byte_string \<Rightarrow> byte_string \<Rightarrow> byte_string" where
  "enc_property name val =
     (name @ replicate (32 - length name) 0) @ to_le_bytes (of_nat (length val) :: u32) @
     val @ replicate ((4 - length val mod 4) mod 4) 0"

fun enc_properties :: "flat_property list \<Rightarrow> byte_string" where
  "enc_properties [] = []"
| "enc_properties (p # ps) = enc_property (property_name p) (property_value p) @ enc_properties ps"

fun enc_node :: "flat_node \<Rightarrow> byte_string"
  and enc_children :: "flat_node list \<Rightarrow> byte_string" where
  "enc_node (FlatNode name properties children) =
     to_le_bytes (of_nat (length properties + 1) :: u32) @
     to_le_bytes (of_nat (length children) :: u32) @
     enc_property name_key (name @ [0]) @ enc_properties properties @ enc_children children"
| "enc_children [] = []"
| "enc_children (c # cs) = enc_node c @ enc_children cs"

lemma length_enc_property:
  "length name \<le> 32 \<Longrightarrow> length (enc_property name val) = 36 + round4 (length val)"
  by (simp add: enc_property_def round4_eq)

lemma resize_zero_grow:
  "length bytes \<le> n \<Longrightarrow> resize_zero bytes n = bytes @ replicate (n - length bytes) 0"
  by (simp add: resize_zero_def)

lemma put_bytes_zeros:
  "length name \<le> n \<Longrightarrow> put_bytes (replicate n 0) 0 name = name @ replicate (n - length name) 0"
  by (simp add: put_bytes_def)

lemma write_property_enc:
  assumes "length name \<le> 32" and "length val < 2 ^ 32" and "4 dvd length bytes"
  shows "write_property name val bytes = Inr (bytes @ enc_property name val)"
proof -
  let ?wire = "name @ replicate (32 - length name) 0"
  let ?all = "bytes @ ?wire @ to_le_bytes (of_nat (length val) :: u32) @ val"
  have len: "length ?all = (length bytes + 36) + length val" using assms(1) by simp
  have "4 dvd length bytes + 36" using assms(3) by (simp add: dvd_add)
  then have "round4 (length ?all) = length ?all + (4 - length val mod 4) mod 4"
    unfolding len by (simp only: round4_add) (simp only: round4_eq add.assoc)
  then have "resize_zero ?all (round4 (length ?all)) =
      ?all @ replicate ((4 - length val mod 4) mod 4) 0"
    using resize_zero_grow [of ?all "round4 (length ?all)"] by simp
  then show ?thesis
    using assms by (simp add: write_property_def u32_of_usize_def put_bytes_zeros Let_def
        enc_property_def)
qed

lemma dvd_enc_property:
  "length name \<le> 32 \<Longrightarrow> 4 dvd length (enc_property name val)"
  by (simp add: length_enc_property dvd_add)

section \<open>What a successful preflight says\<close>

lemma measure_properties_Cons:
  assumes "measure_properties earlier (p # ps) b = Inr b'"
  obtains b1 where "check_property_name (property_name p) = Inr ()"
    and "property_name p \<noteq> name_key" and "property_name p \<notin> set earlier"
    and "length (property_value p) \<le> MAX_SERIALIZED_SIZE"
    and "add_bytes b (36 + round4 (length (property_value p))) = Inr b1"
    and "measure_properties (earlier @ [property_name p]) ps b1 = Inr b'"
  using assms that by (auto simp: result_iff property_size_Inr split: if_splits)

lemma measure_node_FlatNode:
  assumes "measure_node (FlatNode name ps cs) d b = Inr b'"
  obtains b1 b2 b3 where "budget_node b d (length ps + 1) (length cs) = Inr b1"
    and "check_node_name name d = Inr ()"
    and "add_bytes b1 (36 + round4 (length name + 1)) = Inr b2"
    and "measure_properties [] ps b2 = Inr b3"
    and "measure_children [] cs d b3 = Inr b'"
  using assms that
  by (auto simp: result_iff property_size_Inr word_nat split: if_splits)

lemma measure_children_Cons:
  assumes "measure_children earlier (c # cs) d b = Inr b'"
  obtains b1 where "node_name c \<notin> set earlier" and "measure_node c (d + 1) b = Inr b1"
    and "measure_children (earlier @ [node_name c]) cs d b1 = Inr b'"
  using assms that by (auto simp: result_iff split: if_splits)

text \<open>The preflight counts exactly the bytes of the wire format.\<close>

lemma measure_properties_bytes:
  assumes "measure_properties earlier ps b = Inr b'"
  shows "budget_bytes b' = budget_bytes b + length (enc_properties ps)
    \<and> 4 dvd length (enc_properties ps)"
  using assms
proof (induction ps arbitrary: earlier b)
  case (Cons p ps)
  from Cons.prems obtain b1 where p: "check_property_name (property_name p) = Inr ()"
    and add: "add_bytes b (36 + round4 (length (property_value p))) = Inr b1"
    and rest: "measure_properties (earlier @ [property_name p]) ps b1 = Inr b'"
    by (rule measure_properties_Cons)
  from p have "length (property_name p) \<le> 32"
    by (simp add: check_property_name_Inr flat_dt_limits)
  then show ?case using Cons.IH [OF rest] add
    by (simp add: add_bytes_Inr length_enc_property dvd_enc_property dvd_add)
qed simp

lemma measure_bytes:
  "measure_node n d b = Inr b' \<Longrightarrow>
   budget_bytes b' = budget_bytes b + length (enc_node n) \<and> 4 dvd length (enc_node n)"
  "measure_children earlier cs d b = Inr b' \<Longrightarrow>
   budget_bytes b' = budget_bytes b + length (enc_children cs) \<and> 4 dvd length (enc_children cs)"
proof (induction n and cs arbitrary: d b b' and earlier d b b'
    rule: enc_node_enc_children.induct)
  case (1 name ps cs)
  from "1.prems" obtain b1 b2 b3 where node: "budget_node b d (length ps + 1) (length cs) = Inr b1"
    and add: "add_bytes b1 (36 + round4 (length name + 1)) = Inr b2"
    and props: "measure_properties [] ps b2 = Inr b3"
    and kids: "measure_children [] cs d b3 = Inr b'"
    by (rule measure_node_FlatNode)
  show ?case
    using "1.IH" [OF kids] measure_properties_bytes [OF props] budget_node_bytes [OF node] add
    by (simp add: add_bytes_Inr length_enc_property name_key_props dvd_add dvd_enc_property)
next
  case (3 c cs)
  from "3.prems" obtain b1 where c: "measure_node c (d + 1) b = Inr b1"
    and rest: "measure_children (earlier @ [node_name c]) cs d b1 = Inr b'"
    by (rule measure_children_Cons)
  show ?case using "3.IH"(1) [OF c] "3.IH"(2) [OF rest] by (simp add: dvd_add)
qed simp

lemma measure_properties_limit:
  assumes "measure_properties earlier ps b = Inr b'" and "budget_bytes b \<le> MAX_SERIALIZED_SIZE"
  shows "budget_bytes b' \<le> MAX_SERIALIZED_SIZE"
  using assms
proof (induction ps arbitrary: earlier b)
  case (Cons p ps)
  from Cons.prems(1) obtain b1
    where "add_bytes b (36 + round4 (length (property_value p))) = Inr b1"
      and "measure_properties (earlier @ [property_name p]) ps b1 = Inr b'"
    by (rule measure_properties_Cons)
  then show ?case using Cons.IH by (simp add: add_bytes_Inr)
qed simp

lemma measure_limit:
  "measure_node n d b = Inr b' \<Longrightarrow> budget_bytes b' \<le> MAX_SERIALIZED_SIZE"
  "measure_children earlier cs d b = Inr b' \<Longrightarrow> budget_bytes b \<le> MAX_SERIALIZED_SIZE \<Longrightarrow>
   budget_bytes b' \<le> MAX_SERIALIZED_SIZE"
proof (induction n and cs arbitrary: d b b' and earlier d b b'
    rule: enc_node_enc_children.induct)
  case (1 name ps cs)
  from "1.prems" obtain b1 b2 b3
    where add: "add_bytes b1 (36 + round4 (length name + 1)) = Inr b2"
    and props: "measure_properties [] ps b2 = Inr b3"
    and kids: "measure_children [] cs d b3 = Inr b'"
    by (rule measure_node_FlatNode)
  from add have "budget_bytes b2 \<le> MAX_SERIALIZED_SIZE" by (simp add: add_bytes_Inr)
  then have "budget_bytes b3 \<le> MAX_SERIALIZED_SIZE" by (rule measure_properties_limit [OF props])
  then show ?case by (rule "1.IH" [OF kids])
next
  case (3 c cs)
  from "3.prems"(1) obtain b1 where c: "measure_node c (d + 1) b = Inr b1"
    and rest: "measure_children (earlier @ [node_name c]) cs d b1 = Inr b'"
    by (rule measure_children_Cons)
  show ?case using "3.IH"(2) [OF rest] "3.IH"(1) [OF c] by simp
qed simp

section \<open>Writing produces the wire format\<close>

lemma write_properties_enc:
  assumes "measure_properties earlier ps b = Inr b'" and "4 dvd length bytes"
  shows "write_properties ps bytes = Inr (bytes @ enc_properties ps)"
  using assms
proof (induction ps arbitrary: earlier b bytes)
  case (Cons p ps)
  from Cons.prems(1) obtain b1 where p: "check_property_name (property_name p) = Inr ()"
    and val: "length (property_value p) \<le> MAX_SERIALIZED_SIZE"
    and rest: "measure_properties (earlier @ [property_name p]) ps b1 = Inr b'"
    by (rule measure_properties_Cons)
  have name: "length (property_name p) \<le> 32"
    using p by (simp add: check_property_name_Inr flat_dt_limits)
  have "length (property_value p) < 2 ^ 32" using val by (simp add: flat_dt_limits)
  note step = write_property_enc [OF name this Cons.prems(2)]
  have "4 dvd length (bytes @ enc_property (property_name p) (property_value p))"
    using Cons.prems(2) dvd_enc_property [OF name] by (simp add: dvd_add)
  from Cons.IH [OF rest this] show ?case by (simp add: step)
qed simp

lemma name_value_buffer:
  "length name \<le> MAX_NODE_NAME \<Longrightarrow>
   take (length name + 1) (put_bytes (replicate (MAX_NODE_NAME + 1) 0) 0 name) = name @ [0]"
  by (simp add: put_bytes_zeros flat_dt_limits take_Cons')

lemma write_enc:
  "measure_node n d b = Inr b' \<Longrightarrow> 4 dvd length bytes \<Longrightarrow>
   write_node n bytes = Inr (bytes @ enc_node n)"
  "measure_children earlier cs d b = Inr b' \<Longrightarrow> 4 dvd length bytes \<Longrightarrow>
   write_children cs bytes = Inr (bytes @ enc_children cs)"
proof (induction n and cs arbitrary: d b b' bytes and earlier d b b' bytes
    rule: enc_node_enc_children.induct)
  case (1 name ps cs)
  from "1.prems"(1) obtain b1 b2 b3
    where node: "budget_node b d (length ps + 1) (length cs) = Inr b1"
    and name: "check_node_name name d = Inr ()"
    and props: "measure_properties [] ps b2 = Inr b3"
    and kids: "measure_children [] cs d b3 = Inr b'"
    by (rule measure_node_FlatNode)
  from node have counts: "length ps + 1 < 2 ^ 32" "length cs < 2 ^ 32"
    by (auto dest!: budget_node_bytes simp: flat_dt_limits)
  have short: "length name \<le> MAX_NODE_NAME" using name by (simp add: check_node_name_Inr)
  let ?head = "bytes @ to_le_bytes (of_nat (length ps + 1) :: u32) @
    to_le_bytes (of_nat (length cs) :: u32)"
  have head: "4 dvd length ?head" using "1.prems"(2) by (simp add: dvd_add)
  have w1: "write_property name_key (name @ [0]) ?head =
      Inr (?head @ enc_property name_key (name @ [0]))"
    using short by (intro write_property_enc [OF _ _ head]) (simp_all add: name_key_props flat_dt_limits)
  have d2: "4 dvd length (?head @ enc_property name_key (name @ [0]))"
    by (intro dvd_length_append [OF head] dvd_enc_property) (simp add: name_key_props)
  note w2 = write_properties_enc [OF props d2]
  have d3: "4 dvd length ((?head @ enc_property name_key (name @ [0])) @ enc_properties ps)"
    using measure_properties_bytes [OF props] by (intro dvd_length_append [OF d2]) simp
  note w3 = "1.IH" [OF kids d3]
  show ?case
    using counts w1 w2 w3
    by (simp add: u32_of_usize_def name_value_buffer [OF short, simplified] Let_def)
next
  case (3 c cs)
  from "3.prems"(1) obtain b1 where c: "measure_node c (d + 1) b = Inr b1"
    and rest: "measure_children (earlier @ [node_name c]) cs d b1 = Inr b'"
    by (rule measure_children_Cons)
  have "4 dvd length (bytes @ enc_node c)"
    using "3.prems"(2) measure_bytes(1) [OF c] by (simp add: dvd_add)
  then show ?case using "3.IH"(1) [OF c "3.prems"(2)] "3.IH"(2) [OF rest] by simp
qed simp

end
