(* ===== verification/Flat_Dt_Roundtrip.thy ===== *)
theory Flat_Dt_Roundtrip
  imports Flat_Dt
begin

text \<open>
  What the two halves of the flat device-tree codec promise each other: everything
  \<open>encode\<close> produces is accepted by \<open>validate\<close>, has the size the preflight announced, and
  an accepted buffer is self-delimiting.
\<close>

section \<open>Reading back the wire format\<close>

lemma wire_name_split:
  assumes "length name \<le> MAX_PROPERTY_NAME"
  shows "name @ replicate (32 - length name) 0 = name @ 0 # replicate (31 - length name) (0 :: u8)"
proof -
  have "32 - length name = Suc (31 - length name)" using assms by (simp add: flat_dt_limits)
  then show ?thesis by simp
qed

lemma read_properties_step:
  assumes bytes: "bytes = pre @ enc_property name val @ suf" and cursor: "cursor = length pre"
    and len: "length bytes < 2 ^ 64"
    and name: "check_property_name name = Inr ()" and new: "name \<notin> set names"
    and val: "length val \<le> MAX_SERIALIZED_SIZE"
    and add: "add_bytes b (36 + round4 (length val)) = Inr b1"
    and found: "(if name = name_key then
          (if val = [] \<or> last val \<noteq> 0 then Inl InvalidNameProperty
           else and_then (check_node_name (butlast val) depth) (\<lambda>_. Inr (Some (butlast val))))
        else Inr found) = Inr found'"
  shows "read_properties bytes depth (Suc left) names found cursor b =
    read_properties bytes depth left (names @ [name]) found'
      (cursor + length (enc_property name val)) b1"
proof -
  let ?wire = "name @ replicate (32 - length name) 0"
  let ?len = "to_le_bytes (of_nat (length val) :: u32)"
  let ?pad = "replicate ((4 - length val mod 4) mod 4) (0 :: u8)"
  have nm: "length name \<le> MAX_PROPERTY_NAME" and pr: "printable name"
    using name by (simp_all add: check_property_name_Inr)
  have nm32: "length name \<le> 32" using nm by (simp add: flat_dt_limits)
  have size: "unat (of_nat (length val) :: u32) = length val"
    using val by (simp add: unat_of_nat flat_dt_limits)
  have t1: "take_bytes bytes cursor 32 = Inr (?wire, cursor + 32)"
    by (rule take_bytes_at [OF _ cursor _ len, where zs = "?len @ val @ ?pad @ suf"])
      (use nm32 in \<open>simp_all add: bytes enc_property_def\<close>)
  have t2: "read_u32 bytes (cursor + 32) = Inr (of_nat (length val), cursor + 32 + 4)"
    by (rule read_u32_at [OF _ _ len, where pre = "pre @ ?wire" and zs = "val @ ?pad @ suf"])
      (use nm32 in \<open>simp_all add: bytes enc_property_def cursor\<close>)
  have t3: "take_bytes bytes (cursor + 32 + 4) (length val) =
      Inr (val, cursor + 32 + 4 + length val)"
    by (rule take_bytes_at [OF _ _ _ len, where pre = "pre @ ?wire @ ?len" and zs = "?pad @ suf"])
      (use nm32 in \<open>simp_all add: bytes enc_property_def cursor\<close>)
  have t4: "take_bytes bytes (cursor + 32 + 4 + length val) ((4 - length val mod 4) mod 4) =
      Inr (?pad, cursor + 32 + 4 + length val + (4 - length val mod 4) mod 4)"
    by (rule take_bytes_at [OF _ _ _ len, where pre = "pre @ ?wire @ ?len @ val" and zs = suf])
      (use nm32 in \<open>simp_all add: bytes enc_property_def cursor\<close>)
  have pos: "position_zero ?wire = Some (length name)"
    unfolding wire_name_split [OF nm]
    by (rule position_zero_append) (use pr in \<open>auto dest: printable_nonzero\<close>)
  have tail: "\<not> list_ex (\<lambda>b. b \<noteq> 0) (drop (length name) ?wire)"
    "\<not> list_ex (\<lambda>b. b \<noteq> 0) ?pad"
    by (simp_all add: list_ex_iff)
  have total: "cursor + 32 + 4 + length val + (4 - length val mod 4) mod 4 =
      cursor + length (enc_property name val)"
    using nm32 by (simp add: length_enc_property round4_eq)
  have sz: "property_size (length val) = Inr (36 + round4 (length val))"
    using val by (simp add: property_size_Inr)
  have step: "read_properties bytes depth (Suc left) names found cursor b =
    and_then (if name = name_key then
          (if val = [] \<or> last val \<noteq> 0 then Inl InvalidNameProperty
           else and_then (check_node_name (butlast val) depth) (\<lambda>_. Inr (Some (butlast val))))
        else Inr found) (\<lambda>found.
     and_then (take_bytes bytes (cursor + 32 + 4 + length val) ((4 - length val mod 4) mod 4))
     (\<lambda>(padding, cursor).
     if list_ex (\<lambda>b. b \<noteq> 0) padding then Inl InvalidPadding
     else read_properties bytes depth left (names @ [name]) found cursor b1))"
    by (simp only: read_properties.simps t1 and_then_simps prod.case pos ok_or_simps Let_def
        take_append append_take_drop_id diff_self_eq_0 take_all_iff take_0 append_Nil2 order_refl
        take_all name tail if_False new t2 size sz add t3)
  show ?thesis
    unfolding step found by (simp only: and_then_simps t4 prod.case tail if_False total)
qed

lemma read_properties_enc:
  assumes "bytes = pre @ enc_properties ps @ suf" and "cursor = length pre"
    and "length bytes < 2 ^ 64"
    and "measure_properties earlier ps b = Inr b'"
  shows "read_properties bytes depth (length ps) (name_key # earlier) (Some nm) cursor b =
    Inr (Some nm, cursor + length (enc_properties ps), b')"
  using assms
proof (induction ps arbitrary: pre earlier cursor b)
  case (Cons p ps)
  from Cons.prems(4) obtain b1 where p: "check_property_name (property_name p) = Inr ()"
    and key: "property_name p \<noteq> name_key" and new: "property_name p \<notin> set earlier"
    and val: "length (property_value p) \<le> MAX_SERIALIZED_SIZE"
    and add: "add_bytes b (36 + round4 (length (property_value p))) = Inr b1"
    and rest: "measure_properties (earlier @ [property_name p]) ps b1 = Inr b'"
    by (rule measure_properties_Cons)
  let ?e = "enc_property (property_name p) (property_value p)"
  have "read_properties bytes depth (Suc (length ps)) (name_key # earlier) (Some nm) cursor b =
    read_properties bytes depth (length ps) ((name_key # earlier) @ [property_name p]) (Some nm)
      (cursor + length ?e) b1"
    by (rule read_properties_step [OF _ Cons.prems(2,3) p _ val add,
          where suf = "enc_properties ps @ suf"])
      (use key new Cons.prems(1) in simp_all)
  also have "\<dots> = Inr (Some nm, cursor + length ?e + length (enc_properties ps), b')"
    using Cons.IH [OF _ _ Cons.prems(3) rest, of "pre @ ?e" "cursor + length ?e"]
      Cons.prems(1,2) by simp
  finally show ?case by simp
qed simp

lemma read_enc:
  "bytes = pre @ enc_node n @ suf \<Longrightarrow> cursor = length pre \<Longrightarrow> length bytes < 2 ^ 64 \<Longrightarrow>
   measure_node n d b = Inr b' \<Longrightarrow>
   read_node bytes cursor d b = Inr (node_name n, cursor + length (enc_node n), b')"
  "bytes = pre @ enc_children cs @ suf \<Longrightarrow> cursor = length pre \<Longrightarrow> length bytes < 2 ^ 64 \<Longrightarrow>
   measure_children earlier cs d b = Inr b' \<Longrightarrow>
   read_children bytes (length cs) earlier cursor (d + 1) b =
     Inr (cursor + length (enc_children cs), b')"
proof (induction n and cs arbitrary: pre suf cursor d b b' and pre suf earlier cursor d b b'
    rule: enc_node_enc_children.induct)
  case (1 name ps cs)
  note bytes = "1.prems"(1) and cursor = "1.prems"(2) and len = "1.prems"(3)
  from "1.prems"(4) obtain b1 b2 b3
    where node: "budget_node b d (length ps + 1) (length cs) = Inr b1"
    and name: "check_node_name name d = Inr ()"
    and add: "add_bytes b1 (36 + round4 (length name + 1)) = Inr b2"
    and props: "measure_properties [] ps b2 = Inr b3"
    and kids: "measure_children [] cs d b3 = Inr b'"
    by (rule measure_node_FlatNode)
  from node have few: "length ps + 1 < 2 ^ 32" "length cs < 2 ^ 32"
    by (auto dest!: budget_node_bytes simp: flat_dt_limits)
  have counts: "unat (of_nat (length ps + 1) :: u32) = length ps + 1"
    "unat (of_nat (length cs) :: u32) = length cs"
    using few by (simp_all only: unat_of_nat) simp_all
  have short: "length name \<le> MAX_NODE_NAME" using name by (simp add: check_node_name_Inr)
  let ?p = "to_le_bytes (of_nat (length ps + 1) :: u32)"
  let ?c = "to_le_bytes (of_nat (length cs) :: u32)"
  let ?e = "enc_property name_key (name @ [0])"
  have r1: "read_u32 bytes cursor = Inr (of_nat (length ps + 1), cursor + 4)"
    by (rule read_u32_at [OF _ cursor len]) (simp add: bytes)
  have r2: "read_u32 bytes (cursor + 4) = Inr (of_nat (length cs), cursor + 4 + 4)"
    by (rule read_u32_at [OF _ _ len, where pre = "pre @ ?p"]) (simp_all add: bytes cursor)
  have r3: "read_properties bytes d (Suc (length ps)) [] None (cursor + 4 + 4) b1 =
      read_properties bytes d (length ps) ([] @ [name_key]) (Some name)
        (cursor + 4 + 4 + length ?e) b2"
    by (rule read_properties_step [OF _ _ len name_key_props(3), where pre = "pre @ ?p @ ?c"
          and val = "name @ [0]"
          and suf = "enc_properties ps @ enc_children cs @ suf"])
      (use short add name in \<open>simp_all add: bytes cursor flat_dt_limits\<close>)
  have r4: "read_properties bytes d (length ps) [name_key] (Some name)
        (cursor + 4 + 4 + length ?e) b2 =
      Inr (Some name, cursor + 4 + 4 + length ?e + length (enc_properties ps), b3)"
    by (rule read_properties_enc [OF _ _ len props, where pre = "pre @ ?p @ ?c @ ?e"
          and suf = "enc_children cs @ suf"]) (simp_all add: bytes cursor)
  have r5: "read_children bytes (length cs) []
        (cursor + 4 + 4 + length ?e + length (enc_properties ps)) (d + 1) b3 =
      Inr (cursor + 4 + 4 + length ?e + length (enc_properties ps) + length (enc_children cs), b')"
    by (rule "1.IH" [OF _ _ len kids, where pre = "pre @ ?p @ ?c @ ?e @ enc_properties ps"
          and suf = suf]) (simp_all add: bytes cursor)
  have r34: "read_properties bytes d (length ps + 1) [] None (cursor + 4 + 4) b1 =
      Inr (Some name, cursor + 4 + 4 + length ?e + length (enc_properties ps), b3)"
    using r3 r4 by simp
  have "read_node bytes cursor d b = Inr (name,
      cursor + 4 + 4 + length ?e + length (enc_properties ps) + length (enc_children cs), b')"
    unfolding read_node.simps [of bytes cursor d b]
    by (simp only: r1 r2 and_then_simps prod.case counts node r34 ok_or_simps r5)
  then show ?case by simp
next
  case (2)
  then show ?case by simp
next
  case (3 c cs)
  note bytes = "3.prems"(1) and cursor = "3.prems"(2) and len = "3.prems"(3)
  from "3.prems"(4) obtain b1 where new: "node_name c \<notin> set earlier"
    and c: "measure_node c (d + 1) b = Inr b1"
    and rest: "measure_children (earlier @ [node_name c]) cs d b1 = Inr b'"
    by (rule measure_children_Cons)
  have s1: "read_node bytes cursor (d + 1) b = Inr (node_name c, cursor + length (enc_node c), b1)"
    by (rule "3.IH"(1) [OF _ cursor len c, where suf = "enc_children cs @ suf"])
      (simp add: bytes)
  have s2: "read_children bytes (length cs) (earlier @ [node_name c])
        (cursor + length (enc_node c)) (d + 1) b1 =
      Inr (cursor + length (enc_node c) + length (enc_children cs), b')"
    by (rule "3.IH"(2) [OF _ _ len rest, where pre = "pre @ enc_node c" and suf = suf])
      (simp_all add: bytes cursor)
  show ?case
    by (simp only: read_children.simps list.size(4) add_Suc_right add_0_right s1 s2 new
        and_then_simps prod.case if_False enc_children.simps length_append add.assoc)
qed

text \<open>What \<open>encode\<close> returns.\<close>

lemma encode_Inr:
  assumes "encode can_reserve root = Inr bytes"
  obtains b where "measure_node root 0 budget_default = Inr b" and "bytes = enc_node root"
    and "length bytes = budget_bytes b" and "budget_bytes b \<le> MAX_SERIALIZED_SIZE"
proof -
  obtain b where b: "measure_node root 0 budget_default = Inr b"
    and w: "write_node root [] = Inr bytes"
    using assms by (auto simp: encode_def result_iff)
  have "bytes = enc_node root" using write_enc(1) [OF b, of "[]"] w by simp
  then show thesis
    using that b measure_bytes(1) [OF b] measure_limit(1) [OF b]
    by (simp add: budget_default_def)
qed

section \<open>Success survives appended bytes\<close>

text \<open>The choice the reader makes for the \<^verbatim>\<open>name\<close> property, apart from the buffer.\<close>

definition found_name ::
  "byte_string \<Rightarrow> byte_string \<Rightarrow> nat \<Rightarrow> byte_string option \<Rightarrow> flat_dt_error + byte_string option" where
  "found_name name val depth found =
     (if name = name_key then
        (if val = [] \<or> last val \<noteq> 0 then Inl InvalidNameProperty
         else and_then (check_node_name (butlast val) depth) (\<lambda>_. Inr (Some (butlast val))))
      else Inr found)"

lemma read_properties_Suc_Inr:
  "read_properties bytes depth (Suc left) names found cursor b = Inr r \<longleftrightarrow>
   (\<exists>wire c1 t len c2 s b1 val c3 found' pad c4.
      take_bytes bytes cursor 32 = Inr (wire, c1) \<and> position_zero wire = Some t \<and>
      check_property_name (take t wire) = Inr () \<and>
      \<not> list_ex (\<lambda>b. b \<noteq> 0) (drop t wire) \<and> take t wire \<notin> set names \<and>
      read_u32 bytes c1 = Inr (len, c2) \<and> property_size (unat len) = Inr s \<and>
      add_bytes b s = Inr b1 \<and> take_bytes bytes c2 (unat len) = Inr (val, c3) \<and>
      found_name (take t wire) val depth found = Inr found' \<and>
      take_bytes bytes c3 ((4 - unat len mod 4) mod 4) = Inr (pad, c4) \<and>
      \<not> list_ex (\<lambda>b. b \<noteq> 0) pad \<and>
      read_properties bytes depth left (names @ [take t wire]) found' c4 b1 = Inr r)"
  unfolding read_properties.simps found_name_def [symmetric] Let_def
  by (simp add: result_iff split_paired_Ex)

lemma read_node_Inr:
  "read_node bytes cursor depth b = Inr r \<longleftrightarrow>
   (\<exists>ps c1 cs c2 b1 c3 b2 name c4 b3.
      read_u32 bytes cursor = Inr (ps, c1) \<and> read_u32 bytes c1 = Inr (cs, c2) \<and>
      budget_node b depth (unat ps) (unat cs) = Inr b1 \<and>
      read_properties bytes depth (unat ps) [] None c2 b1 = Inr (Some name, c3, b2) \<and>
      read_children bytes (unat cs) [] c3 (depth + 1) b2 = Inr (c4, b3) \<and>
      r = (name, c4, b3))"
  unfolding read_node.simps by (auto simp: result_iff)

lemma read_children_Suc_Inr:
  "read_children bytes (Suc left) names cursor depth b = Inr r \<longleftrightarrow>
   (\<exists>name c1 b1. read_node bytes cursor depth b = Inr (name, c1, b1) \<and> name \<notin> set names \<and>
      read_children bytes left (names @ [name]) c1 depth b1 = Inr r)"
  by (auto simp: result_iff)

lemma read_u32_extend:
  "length (bytes @ zs) < 2 ^ 64 \<Longrightarrow> read_u32 bytes cursor = Inr r \<Longrightarrow>
   read_u32 (bytes @ zs) cursor = Inr r"
  by (auto simp: read_u32_def result_iff flat_cursor.take_at_extend)

lemma read_properties_extend:
  "length (bytes @ zs) < 2 ^ 64 \<Longrightarrow>
   read_properties bytes depth left names found cursor b = Inr r \<Longrightarrow>
   read_properties (bytes @ zs) depth left names found cursor b = Inr r"
proof (induction left arbitrary: names found cursor b)
  case (Suc left)
  show ?case
    using Suc.prems(2) unfolding read_properties_Suc_Inr
    by (elim exE conjE)
      (intro exI conjI, (assumption | erule flat_cursor.take_at_extend [OF Suc.prems(1)]
          read_u32_extend [OF Suc.prems(1)] Suc.IH [OF Suc.prems(1)])+)
qed simp

lemma read_extend:
  "length (bytes @ zs) < 2 ^ 64 \<Longrightarrow> read_node bytes cursor depth b = Inr r \<Longrightarrow>
   read_node (bytes @ zs) cursor depth b = Inr r"
  "length (bytes @ zs) < 2 ^ 64 \<Longrightarrow> read_children bytes left names cursor depth b = Inr r' \<Longrightarrow>
   read_children (bytes @ zs) left names cursor depth b = Inr r'"
proof (induction bytes cursor depth b and bytes left names cursor depth b
    arbitrary: r and r' rule: read_node_read_children.induct)
  case (1 bytes cursor depth b)
  from "1.prems"(2) obtain ps c1 cs c2 b1 c3 b2 name c4 b3 where
    h: "read_u32 bytes cursor = Inr (ps, c1)" "read_u32 bytes c1 = Inr (cs, c2)"
    "budget_node b depth (unat ps) (unat cs) = Inr b1"
    "read_properties bytes depth (unat ps) [] None c2 b1 = Inr (Some name, c3, b2)"
    and kids: "read_children bytes (unat cs) [] c3 (depth + 1) b2 = Inr (c4, b3)"
    and r: "r = (name, c4, b3)"
    unfolding read_node_Inr by blast
  have "read_children (bytes @ zs) (unat cs) [] c3 (depth + 1) b2 = Inr (c4, b3)"
    by (rule "1.IH" [OF h(1) _ h(2) _ h(3) h(4) _ _ _ "1.prems"(1) kids])
      (rule ok_or_simps(2) | simp)+
  then show ?case
    unfolding read_node_Inr
    using h r read_u32_extend [OF "1.prems"(1)] read_properties_extend [OF "1.prems"(1)] by blast
next
  case (3 bytes left names cursor depth b)
  from "3.prems"(2) obtain name c1 b1 where
    n: "read_node bytes cursor depth b = Inr (name, c1, b1)" and new: "name \<notin> set names"
    and rest: "read_children bytes left (names @ [name]) c1 depth b1 = Inr r'"
    unfolding read_children_Suc_Inr by blast
  have "read_node (bytes @ zs) cursor depth b = Inr (name, c1, b1)"
    by (rule "3.IH"(1) [OF "3.prems"(1) n])
  moreover have "read_children (bytes @ zs) left (names @ [name]) c1 depth b1 = Inr r'"
    by (rule "3.IH"(2) [OF n _ _ new "3.prems"(1) rest]) simp_all
  ultimately show ?case unfolding read_children_Suc_Inr using new by blast
qed simp

lemma validate_enc_node:
  assumes "measure_node root 0 budget_default = Inr b"
  shows "validate (enc_node root) = Inr ()"
proof -
  have len: "length (enc_node root) \<le> MAX_SERIALIZED_SIZE"
    using measure_bytes(1) [OF assms] measure_limit(1) [OF assms] by (simp add: budget_default_def)
  then have short: "length (enc_node root) < 2 ^ 64" by (simp add: flat_dt_limits)
  have "read_node (enc_node root) 0 0 budget_default = Inr (node_name root, length (enc_node root), b)"
    using read_enc(1) [of "enc_node root" "[]" root "[]" 0 0 budget_default b] assms short by simp
  then show ?thesis using len by (simp add: validate_def)
qed

section \<open>Properties\<close>

text \<open>
  C5. Whatever tree the encoder accepts, the bytes it returns pass the validator: the
  writer and the reader of \<^verbatim>\<open>flat_dt.rs\<close> agree on names, limits, budgets, padding and
  nesting.
\<close>

theorem encode_then_validate:
  assumes "encode can_reserve root = Inr bytes"
  shows "validate bytes = Inr ()"
proof -
  obtain b where "measure_node root 0 budget_default = Inr b" and "bytes = enc_node root"
    using assms by (rule encode_Inr)
  then show ?thesis by (simp add: validate_enc_node)
qed


text \<open>A concrete tree: a named root with one property and one child.\<close>

definition sample_root :: flat_node where
  "sample_root = FlatNode [] [FlatProperty [0x61] [1, 2, 3]] [FlatNode [0x62] [] []]"

lemma sample_root_encodes: "\<exists>bytes. encode (\<lambda>_. True) sample_root = Inr bytes"
  by (simp add: encode_def sample_root_def Let_def budget_default_def budget_node_def
      usize_add_def add_bytes_def flat_dt_limits check_node_name_def check_property_name_def
      printable_def property_size_def round4_def name_key_def u32_of_usize_def
      write_property_def word_le_nat_alt)

theorem encode_then_validate_witness:
  "\<exists>bytes. encode (\<lambda>_. True) sample_root = Inr bytes \<and> validate bytes = Inr ()"
  using sample_root_encodes encode_then_validate by blast

text \<open>The preflight is exact: the encoder's output has as many bytes as the budget the
  allocator was asked for, never more than the serialized limit, and is a whole number of
  32-bit words.\<close>

theorem encode_size:
  assumes "encode can_reserve root = Inr bytes"
  shows "\<exists>b. measure_node root 0 budget_default = Inr b \<and> length bytes = budget_bytes b \<and>
    can_reserve (length bytes) \<and> length bytes \<le> MAX_SERIALIZED_SIZE \<and> 4 dvd length bytes"
proof -
  obtain b where b: "measure_node root 0 budget_default = Inr b" and bytes: "bytes = enc_node root"
    and len: "length bytes = budget_bytes b" "budget_bytes b \<le> MAX_SERIALIZED_SIZE"
    using assms by (rule encode_Inr)
  have "can_reserve (budget_bytes b)" using assms b by (simp add: encode_def split: if_splits)
  then show ?thesis using b len bytes measure_bytes(1) [OF b] by auto
qed

theorem encode_size_witness:
  "\<exists>bytes. encode (\<lambda>_. True) sample_root = Inr bytes \<and> length bytes \<le> MAX_SERIALIZED_SIZE"
  using sample_root_encodes encode_size by blast

text \<open>An accepted buffer is self-delimiting: with anything appended (within the size limit)
  the validator reports exactly trailing data, so no buffer and a longer one are both valid.\<close>

theorem validate_trailing_data:
  assumes "validate bytes = Inr ()" and "extra \<noteq> []"
    and "length (bytes @ extra) \<le> MAX_SERIALIZED_SIZE"
  shows "validate (bytes @ extra) = Inl TrailingData"
proof -
  obtain name b where "read_node bytes 0 0 budget_default = Inr (name, length bytes, b)"
    using assms(1) by (auto simp: validate_def result_iff split: if_splits)
  moreover have "length (bytes @ extra) < 2 ^ 64" using assms(3) by (simp add: flat_dt_limits)
  ultimately have "read_node (bytes @ extra) 0 0 budget_default = Inr (name, length bytes, b)"
    by (intro read_extend(1))
  then show ?thesis using assms(2,3) by (simp add: validate_def)
qed

theorem validate_trailing_data_witness:
  "\<exists>bytes. validate bytes = Inr () \<and> validate (bytes @ [0]) = Inl TrailingData"
proof -
  obtain bytes where e: "encode (\<lambda>_. True) sample_root = Inr bytes"
    using sample_root_encodes by blast
  obtain b where b: "bytes = enc_node sample_root" using e by (rule encode_Inr)
  obtain b' where "measure_node sample_root 0 budget_default = Inr b'"
    using e by (rule encode_Inr)
  then have ok: "validate bytes = Inr ()" by (simp add: b validate_enc_node)
  have "length (bytes @ [0]) \<le> MAX_SERIALIZED_SIZE"
    unfolding b by (simp add: sample_root_def enc_property_def name_key_def flat_dt_limits)
  with ok show ?thesis using validate_trailing_data [of bytes "[0]"] by auto
qed

end
