(* ===== verification/Firmware_Dt.thy ===== *)
theory Firmware_Dt
  imports Flat_Dt
begin

text \<open>
  \<^verbatim>\<open>src/src/firmware_dt.rs\<close>: the borrowed structural view of a firmware device tree, whose
  properties are literals or unresolved templates (the top bit of the length word).

  The \<^verbatim>\<open>Parser\<close> of the source is its position and its statistics, passed and returned;
  borrowed slices are byte lists. \<open>can_reserve\<close> is the allocator behind
  \<^verbatim>\<open>try_reserve_exact\<close>. \<^verbatim>\<open>core::str::from_utf8\<close> of a name is not a branch: it is applied
  to bytes already checked to be printable ASCII, on which it cannot fail.
\<close>

section \<open>Data\<close>

definition TEMPLATE_FLAG :: u32 where "TEMPLATE_FLAG = 2 ^ 31"
definition FW_MAX_INPUT_BYTES :: nat where "FW_MAX_INPUT_BYTES = 1024 * 1024"
definition FW_MAX_NODES :: nat where "FW_MAX_NODES = 4096"
definition FW_MAX_PROPERTIES :: nat where "FW_MAX_PROPERTIES = 16384"
definition FW_MAX_PROPERTIES_PER_NODE :: nat where "FW_MAX_PROPERTIES_PER_NODE = 1024"
definition FW_MAX_CHILDREN_PER_NODE :: nat where "FW_MAX_CHILDREN_PER_NODE = 1024"
definition FW_MAX_DEPTH :: nat where "FW_MAX_DEPTH = 32"

lemmas firmware_limits =
  FW_MAX_INPUT_BYTES_def FW_MAX_NODES_def FW_MAX_PROPERTIES_def FW_MAX_PROPERTIES_PER_NODE_def
  FW_MAX_CHILDREN_PER_NODE_def FW_MAX_DEPTH_def

datatype property_kind = Literal | Template

record firmware_statistics =
  fw_nodes :: nat
  fw_properties :: nat
  fw_templates :: nat
  fw_maximum_depth :: nat

definition statistics_default :: firmware_statistics where
  "statistics_default =
     \<lparr>fw_nodes = 0, fw_properties = 0, fw_templates = 0, fw_maximum_depth = 0\<rparr>"

datatype firmware_dt_error =
    Fw_InputTooLarge
  | Fw_Truncated
  | Fw_LimitsExceeded
  | Fw_InvalidPropertyName
  | Fw_TrailingData
  | Fw_AllocationFailed
  | Fw_UnresolvedTemplates nat
  | Fw_Runtime flat_dt_error

record firmware_property =
  fp_offset :: nat
  fp_raw_name :: byte_string
  fp_name :: byte_string
  fp_raw_length :: u32
  fp_value :: byte_string
  fp_padding :: byte_string

definition fp_kind :: "firmware_property \<Rightarrow> property_kind" where
  "fp_kind p = (if fp_raw_length p AND TEMPLATE_FLAG \<noteq> 0 then Template else Literal)"

text \<open>\<^verbatim>\<open>template_ascii_cstr\<close>: the template body as a NUL-terminated printable string.\<close>

definition template_ascii_cstr :: "firmware_property \<Rightarrow> byte_string option" where
  "template_ascii_cstr p =
     (if fp_kind p \<noteq> Template then None
      else if fp_value p = [] \<or> last (fp_value p) \<noteq> 0 then None
      else let str = butlast (fp_value p) in
           if \<not> list_all (\<lambda>b. 0x20 \<le> b \<and> b \<le> 0x7e) str then None else Some str)"

datatype firmware_node =
  FirmwareNode (fn_offset: nat) (fn_properties: "firmware_property list")
    (fn_children: "firmware_node list")

record firmware_device_tree =
  fdt_source :: byte_string
  fdt_root :: firmware_node
  fdt_statistics :: firmware_statistics

section \<open>The parser\<close>

definition fw_take ::
  "byte_string \<Rightarrow> nat \<Rightarrow> nat \<Rightarrow> firmware_dt_error + (byte_string \<times> nat)" where
  "fw_take source position count =
     and_then (ok_or (usize_add position count) Fw_Truncated) (\<lambda>last.
     and_then (ok_or (get_range source position last) Fw_Truncated) (\<lambda>bytes.
     Inr (bytes, last)))"

definition fw_word :: "byte_string \<Rightarrow> nat \<Rightarrow> firmware_dt_error + (u32 \<times> nat)" where
  "fw_word source position =
     and_then (fw_take source position 4) (\<lambda>(raw, position). Inr (from_le_bytes raw, position))"

fun fw_properties_loop ::
  "byte_string \<Rightarrow> nat \<Rightarrow> nat \<Rightarrow> firmware_statistics \<Rightarrow>
   firmware_dt_error + (firmware_property list \<times> nat \<times> firmware_statistics)" where
  "fw_properties_loop source 0 position st = Inr ([], position, st)"
| "fw_properties_loop source (Suc left) position st =
     (let offset = position in
     and_then (fw_take source position 32) (\<lambda>(raw_name, position).
     let terminator = (case position_zero raw_name of None \<Rightarrow> 32 | Some t \<Rightarrow> t) in
     if terminator = 0
        \<or> \<not> list_all (\<lambda>b. 0x20 \<le> b \<and> b \<le> 0x7e) (take terminator raw_name)
        \<or> list_ex (\<lambda>b. b \<noteq> 0) (drop terminator raw_name)
     then Inl Fw_InvalidPropertyName
     else
     and_then (fw_word source position) (\<lambda>(raw_length, position).
     let len = unat (raw_length AND NOT TEMPLATE_FLAG) in
     and_then (fw_take source position len) (\<lambda>(val, position).
     and_then (fw_take source position ((4 - len mod 4) mod 4)) (\<lambda>(padding, position).
     let st = (if raw_length AND TEMPLATE_FLAG \<noteq> 0
               then st\<lparr>fw_templates := fw_templates st + 1\<rparr> else st);
         p = \<lparr>fp_offset = offset, fp_raw_name = raw_name, fp_name = take terminator raw_name,
              fp_raw_length = raw_length, fp_value = val, fp_padding = padding\<rparr> in
     and_then (fw_properties_loop source left position st) (\<lambda>(ps, position, st).
     Inr (p # ps, position, st)))))))"

function (sequential) fw_node ::
    "(nat \<Rightarrow> bool) \<Rightarrow> byte_string \<Rightarrow> nat \<Rightarrow> nat \<Rightarrow> firmware_statistics \<Rightarrow>
     firmware_dt_error + (firmware_node \<times> nat \<times> firmware_statistics)"
  and fw_children_loop ::
    "(nat \<Rightarrow> bool) \<Rightarrow> byte_string \<Rightarrow> nat \<Rightarrow> nat \<Rightarrow> nat \<Rightarrow> firmware_statistics \<Rightarrow>
     firmware_dt_error + (firmware_node list \<times> nat \<times> firmware_statistics)" where
  "fw_node can_reserve source depth position st =
     (if FW_MAX_DEPTH < depth \<or> fw_nodes st = FW_MAX_NODES then Inl Fw_LimitsExceeded
      else
      let offset = position in
      and_then (fw_word source position) (\<lambda>(properties, position).
      and_then (fw_word source position) (\<lambda>(children, position).
      let property_count = unat properties; child_count = unat children in
      if FW_MAX_PROPERTIES_PER_NODE < property_count
         \<or> FW_MAX_CHILDREN_PER_NODE < child_count
         \<or> FW_MAX_PROPERTIES - fw_properties st < property_count
         \<or> FW_MAX_NODES - fw_nodes st - 1 < child_count
      then Inl Fw_LimitsExceeded
      else
      and_then (ok_or (Option.bind (usize_mul property_count 36)
                         (\<lambda>n. usize_add n (child_count * 8))) Fw_LimitsExceeded) (\<lambda>minimum.
      if length source - position < minimum then Inl Fw_Truncated
      else
      let st = st\<lparr>fw_nodes := fw_nodes st + 1,
                  fw_properties := fw_properties st + property_count,
                  fw_maximum_depth := max (fw_maximum_depth st) depth\<rparr> in
      if \<not> can_reserve property_count then Inl Fw_AllocationFailed
      else
      and_then (fw_properties_loop source property_count position st) (\<lambda>(ps, position, st).
      if \<not> can_reserve child_count then Inl Fw_AllocationFailed
      else
      and_then (fw_children_loop can_reserve source (depth + 1) child_count position st)
        (\<lambda>(cs, position, st).
      Inr (FirmwareNode offset ps cs, position, st)))))))"
| "fw_children_loop can_reserve source depth 0 position st = Inr ([], position, st)"
| "fw_children_loop can_reserve source depth (Suc left) position st =
     and_then (fw_node can_reserve source depth position st) (\<lambda>(c, position, st).
     and_then (fw_children_loop can_reserve source depth left position st) (\<lambda>(cs, position, st).
     Inr (c # cs, position, st)))"
  by pat_completeness auto

termination
proof (relation "inv_image (less_than <*lex*> less_than <*lex*> less_than)
    (\<lambda>x. case x of
        Inl (can_reserve, source, depth, position, st) \<Rightarrow> (FW_MAX_DEPTH + 2 - depth, 0, 0)
      | Inr (can_reserve, source, depth, left, position, st) \<Rightarrow>
          (FW_MAX_DEPTH + 2 - depth, 1, left))", goal_cases)
  case 1
  show ?case by (auto intro!: wf_inv_image)
qed auto

declare fw_node.simps [simp del]

definition fw_parse ::
  "(nat \<Rightarrow> bool) \<Rightarrow> byte_string \<Rightarrow> firmware_dt_error + firmware_device_tree" where
  "fw_parse can_reserve source =
     (if FW_MAX_INPUT_BYTES < length source then Inl Fw_InputTooLarge
      else and_then (fw_node can_reserve source 0 0 statistics_default) (\<lambda>(root, position, st).
           if position \<noteq> length source then Inl Fw_TrailingData
           else Inr \<lparr>fdt_source = source, fdt_root = root, fdt_statistics = st\<rparr>))"

definition validated_runtime_bytes ::
  "firmware_device_tree \<Rightarrow> firmware_dt_error + byte_string" where
  "validated_runtime_bytes t =
     (if fw_templates (fdt_statistics t) \<noteq> 0
      then Inl (Fw_UnresolvedTemplates (fw_templates (fdt_statistics t)))
      else and_then (map_err Fw_Runtime (validate (fdt_source t))) (\<lambda>_. Inr (fdt_source t)))"


section \<open>What a successful parse consumed\<close>

interpretation firmware_cursor: cursor_reader fw_take Fw_Truncated
  by unfold_locales
    (auto simp: fw_take_def ok_or_def usize_add_def get_range_def)

text \<open>The bytes a parsed property, node or child list came from.\<close>

definition render_property :: "firmware_property \<Rightarrow> byte_string" where
  "render_property p =
     fp_raw_name p @ to_le_bytes (fp_raw_length p) @ fp_value p @ fp_padding p"

fun render_node :: "firmware_node \<Rightarrow> byte_string"
  and render_children :: "firmware_node list \<Rightarrow> byte_string" where
  "render_node (FirmwareNode offset ps cs) =
     to_le_bytes (of_nat (length ps) :: u32) @ to_le_bytes (of_nat (length cs) :: u32) @
     concat (map render_property ps) @ render_children cs"
| "render_children [] = []"
| "render_children (c # cs) = render_node c @ render_children cs"

text \<open>Every property of a subtree, in the order of the bytes.\<close>

fun subtree_properties :: "firmware_node \<Rightarrow> firmware_property list"
  and children_properties :: "firmware_node list \<Rightarrow> firmware_property list" where
  "subtree_properties (FirmwareNode offset ps cs) = ps @ children_properties cs"
| "children_properties [] = []"
| "children_properties (c # cs) = subtree_properties c @ children_properties cs"

fun subtree_nodes :: "firmware_node \<Rightarrow> nat"
  and children_nodes :: "firmware_node list \<Rightarrow> nat" where
  "subtree_nodes (FirmwareNode offset ps cs) = 1 + children_nodes cs"
| "children_nodes [] = 0"
| "children_nodes (c # cs) = subtree_nodes c + children_nodes cs"

definition templates_of :: "firmware_property list \<Rightarrow> firmware_property list" where
  "templates_of ps = filter (\<lambda>p. fp_kind p = Template) ps"

text \<open>
  What the parser guarantees of a property: its fields are consistent with the raw bytes
  of the record at its offset.
\<close>

definition property_ok :: "byte_string \<Rightarrow> firmware_property \<Rightarrow> bool" where
  "property_ok source p \<longleftrightarrow>
     length (fp_raw_name p) = 32 \<and>
     length (fp_value p) = unat (fp_raw_length p AND NOT TEMPLATE_FLAG) \<and>
     length (fp_padding p) = (4 - length (fp_value p) mod 4) mod 4 \<and>
     fp_name p \<noteq> [] \<and> (\<exists>zeros. fp_raw_name p = fp_name p @ replicate zeros 0) \<and>
     fp_offset p + length (render_property p) \<le> length source \<and>
     segment source (fp_offset p) (fp_offset p + length (render_property p)) = render_property p"

lemma fw_take_segment:
  assumes "length source < 2 ^ 64" and "fw_take source position n = Inr (ys, position')"
  shows "position' = position + n" and "position' \<le> length source"
    and "ys = segment source position position'" and "length ys = n"
  using assms by (auto simp: firmware_cursor.take_at_Inr segment_def)

lemma fw_word_segment:
  assumes "length source < 2 ^ 64" and "fw_word source position = Inr (w, position')"
  shows "position' = position + 4" and "position' \<le> length source"
    and "to_le_bytes w = segment source position position'"
proof -
  obtain raw where raw: "fw_take source position 4 = Inr (raw, position')"
    and w: "w = from_le_bytes raw"
    using assms(2) by (auto simp: fw_word_def result_iff)
  note seg = fw_take_segment [OF assms(1) raw]
  show "position' = position + 4" "position' \<le> length source" using seg by auto
  have "to_le_bytes (from_le_bytes raw :: u32) = raw"
    by (rule to_from_le_bytes) (simp add: seg(4))
  then show "to_le_bytes w = segment source position position'" using w seg(3) by simp
qed

lemma fw_properties_Suc_Inr:
  assumes "fw_properties_loop source (Suc left) position st = Inr (out, position', st')"
  obtains raw_name c1 t raw_length c2 val c3 pad c4 p st1 ps where
    "fw_take source position 32 = Inr (raw_name, c1)"
    and "t = (case position_zero raw_name of None \<Rightarrow> 32 | Some t \<Rightarrow> t)" and "t \<noteq> 0"
    and "\<not> list_ex (\<lambda>b. b \<noteq> 0) (drop t raw_name)"
    and "fw_word source c1 = Inr (raw_length, c2)"
    and "fw_take source c2 (unat (raw_length AND NOT TEMPLATE_FLAG)) = Inr (val, c3)"
    and "fw_take source c3 ((4 - unat (raw_length AND NOT TEMPLATE_FLAG) mod 4) mod 4) = Inr (pad, c4)"
    and "p = \<lparr>fp_offset = position, fp_raw_name = raw_name, fp_name = take t raw_name,
              fp_raw_length = raw_length, fp_value = val, fp_padding = pad\<rparr>"
    and "st1 = (if fp_kind p = Template then st\<lparr>fw_templates := fw_templates st + 1\<rparr> else st)"
    and "fw_properties_loop source left c4 st1 = Inr (ps, position', st')"
    and "out = p # ps"
  using assms
  by (auto simp: result_iff Let_def fp_kind_def split: if_splits)

lemma raw_name_split:
  assumes "t = (case position_zero raw of None \<Rightarrow> 32 | Some t \<Rightarrow> t)" and "length raw = 32"
    and "\<not> list_ex (\<lambda>b. b \<noteq> 0) (drop t raw)"
  shows "raw = take t raw @ replicate (length (drop t raw)) 0"
proof -
  have "drop t raw = replicate (length (drop t raw)) 0"
    using assms(3) by (intro replicate_eqI) (auto simp: list_ex_iff)
  then show ?thesis by (metis append_take_drop_id)
qed

lemma fw_properties_parse:
  assumes len: "length source < 2 ^ 64"
    and "fw_properties_loop source left position st = Inr (ps, position', st')"
    and "position \<le> length source"
  shows "position \<le> position' \<and> position' \<le> length source \<and> length ps = left \<and>
    segment source position position' = concat (map render_property ps) \<and>
    (\<forall>p \<in> set ps. property_ok source p) \<and>
    (\<forall>p \<in> set ps. position \<le> fp_offset p \<and> fp_offset p < position') \<and>
    sorted_wrt (<) (map fp_offset ps) \<and>
    st' = st\<lparr>fw_templates := fw_templates st + length (templates_of ps)\<rparr>"
  using assms(2,3)
proof (induction left arbitrary: position st ps)
  case 0
  then show ?case by (simp add: templates_of_def)
next
  case (Suc left)
  obtain raw_name c1 t raw_length c2 val c3 pad c4 p st1 rest where
    r1: "fw_take source position 32 = Inr (raw_name, c1)"
    and t: "t = (case position_zero raw_name of None \<Rightarrow> 32 | Some t \<Rightarrow> t)" "t \<noteq> 0"
    and zeros: "\<not> list_ex (\<lambda>b. b \<noteq> 0) (drop t raw_name)"
    and r2: "fw_word source c1 = Inr (raw_length, c2)"
    and r3: "fw_take source c2 (unat (raw_length AND NOT TEMPLATE_FLAG)) = Inr (val, c3)"
    and r4: "fw_take source c3 ((4 - unat (raw_length AND NOT TEMPLATE_FLAG) mod 4) mod 4)
        = Inr (pad, c4)"
    and p: "p = \<lparr>fp_offset = position, fp_raw_name = raw_name, fp_name = take t raw_name,
              fp_raw_length = raw_length, fp_value = val, fp_padding = pad\<rparr>"
    and st1: "st1 = (if fp_kind p = Template then st\<lparr>fw_templates := fw_templates st + 1\<rparr> else st)"
    and tail: "fw_properties_loop source left c4 st1 = Inr (rest, position', st')"
    and out: "ps = p # rest"
    using Suc.prems(1) by (rule fw_properties_Suc_Inr)
  note s1 = fw_take_segment [OF len r1] and s2 = fw_word_segment [OF len r2]
    and s3 = fw_take_segment [OF len r3] and s4 = fw_take_segment [OF len r4]
  note IH = Suc.IH [OF tail s4(2)]
  have c4: "c4 = position + length (render_property p)"
    using s1(1,4) s2(1) s3(1,4) s4(1,4) by (simp add: p render_property_def)
  have "segment source position c4 = segment source position c1 @ segment source c1 c2 @
      segment source c2 c3 @ segment source c3 c4"
    using s1(1) s2(1) s3(1) s4(1) by (intro segment_join4) simp_all
  then have seg: "segment source position c4 = render_property p"
    using s1(3) s2(3) s3(3) s4(3) by (simp add: p render_property_def)
  have "raw_name = take t raw_name @ replicate (length (drop t raw_name)) 0"
    by (rule raw_name_split [OF t(1) s1(4) zeros])
  moreover have "take t raw_name \<noteq> []" using t(2) s1(4) by auto
  ultimately have ok: "property_ok source p"
    using s1(4) s3(4) s4(2,4) seg c4 unfolding property_ok_def by (auto simp: p)
  have pos: "position < c4" using c4 s1(4) by (simp add: p render_property_def)
  have "segment source position position' = segment source position c4 @ segment source c4 position'"
    using pos IH by (intro segment_join) auto
  then show ?case
    using IH seg ok pos
    by (auto simp: out st1 templates_of_def) (auto simp: p)
qed


text \<open>The statistics of a subtree, added to what was counted before it.\<close>

definition counted ::
  "firmware_statistics \<Rightarrow> nat \<Rightarrow> firmware_property list \<Rightarrow> firmware_statistics \<Rightarrow> bool" where
  "counted st nodes ps st' \<longleftrightarrow>
     fw_nodes st' = fw_nodes st + nodes \<and>
     fw_properties st' = fw_properties st + length ps \<and>
     fw_templates st' = fw_templates st + length (templates_of ps)"

lemma templates_of_append [simp]: "templates_of (ps @ qs) = templates_of ps @ templates_of qs"
  by (simp add: templates_of_def)

text \<open>A subtree parsed from \<open>position\<close> to \<open>position'\<close>.\<close>

definition parsed_span ::
  "byte_string \<Rightarrow> nat \<Rightarrow> nat \<Rightarrow> byte_string \<Rightarrow> firmware_property list \<Rightarrow> bool" where
  "parsed_span source position position' bytes ps \<longleftrightarrow>
     position \<le> position' \<and> position' \<le> length source \<and>
     segment source position position' = bytes \<and>
     (\<forall>p \<in> set ps. property_ok source p \<and> position \<le> fp_offset p \<and> fp_offset p < position') \<and>
     sorted_wrt (<) (map fp_offset ps)"

lemma parsed_span_join:
  assumes "parsed_span source a b xs ps" and "parsed_span source b c ys qs"
  shows "parsed_span source a c (xs @ ys) (ps @ qs)"
proof -
  have "segment source a c = segment source a b @ segment source b c"
    using assms by (intro segment_join) (auto simp: parsed_span_def)
  moreover have "\<forall>p \<in> set ps. \<forall>q \<in> set qs. fp_offset p < fp_offset q"
    using assms unfolding parsed_span_def by (meson order_less_le_trans)
  ultimately show ?thesis
    using assms unfolding parsed_span_def by (auto simp: sorted_wrt_append)
qed

lemma parsed_span_word:
  assumes "length source < 2 ^ 64" and "fw_word source position = Inr (w, position')"
  shows "parsed_span source position position' (to_le_bytes w) []"
  using fw_word_segment [OF assms] by (simp add: parsed_span_def)

lemma fw_node_Inr:
  "fw_node can_reserve source depth position st = Inr (n, position', st') \<Longrightarrow>
   \<exists>w1 c1 w2 c2 ps c3 st2 cs. depth \<le> FW_MAX_DEPTH \<and> fw_nodes st \<noteq> FW_MAX_NODES \<and>
     fw_word source position = Inr (w1, c1) \<and> fw_word source c1 = Inr (w2, c2) \<and>
     unat w1 \<le> FW_MAX_PROPERTIES - fw_properties st \<and> unat w2 \<le> FW_MAX_NODES - fw_nodes st - 1 \<and>
     fw_properties_loop source (unat w1) c2
       (st\<lparr>fw_nodes := fw_nodes st + 1, fw_properties := fw_properties st + unat w1,
           fw_maximum_depth := max (fw_maximum_depth st) depth\<rparr>) = Inr (ps, c3, st2) \<and>
     fw_children_loop can_reserve source (depth + 1) (unat w2) c3 st2 = Inr (cs, position', st') \<and>
     n = FirmwareNode position ps cs"
  unfolding fw_node.simps Let_def
  by (auto simp: result_iff not_less split: if_splits)

lemma fw_children_Suc_Inr:
  assumes "fw_children_loop can_reserve source depth (Suc left) position st = Inr (out, position', st')"
  obtains c c1 st1 cs where "fw_node can_reserve source depth position st = Inr (c, c1, st1)"
    and "fw_children_loop can_reserve source depth left c1 st1 = Inr (cs, position', st')"
    and "out = c # cs"
  using assms that by (auto simp: result_iff)

text \<open>
  Induction over a successful parse: a node from its child list, a child list from its
  nodes. \<open>P\<close> and \<open>Q\<close> relate the state before, the result and the state after.
\<close>

lemma fw_children_from_nodes:
  assumes node: "\<And>position st n position' st'.
      fw_node R source depth position st = Inr (n, position', st') \<Longrightarrow>
      P depth position st n position' st'"
    and nil: "\<And>position st. Q depth position st [] position st"
    and cons: "\<And>position st c c1 st1 cs position' st'.
      P depth position st c c1 st1 \<Longrightarrow> Q depth c1 st1 cs position' st' \<Longrightarrow>
      Q depth position st (c # cs) position' st'"
    and kids: "fw_children_loop R source depth left position st = Inr (cs, position', st')"
  shows "length cs = left \<and> Q depth position st cs position' st'"
  using kids
proof (induction left arbitrary: position st cs)
  case 0
  then show ?case using nil by simp
next
  case (Suc left)
  obtain c c1 st1 rest where c: "fw_node R source depth position st = Inr (c, c1, st1)"
    and rest: "fw_children_loop R source depth left c1 st1 = Inr (rest, position', st')"
    and cs: "cs = c # rest"
    using Suc.prems by (rule fw_children_Suc_Inr)
  have "Q depth position st (c # rest) position' st'"
    using cons [OF node [OF c]] Suc.IH [OF rest] by blast
  then show ?case using Suc.IH [OF rest] cs by simp
qed

lemma fw_node_induct [consumes 1]:
  assumes parse: "fw_node R source depth position st = Inr (n, position', st')"
    and step: "\<And>depth position st n position' st'.
      fw_node R source depth position st = Inr (n, position', st') \<Longrightarrow>
      (\<And>left c st1 cs position' st'.
         fw_children_loop R source (depth + 1) left c st1 = Inr (cs, position', st') \<Longrightarrow>
         length cs = left \<and> Q (depth + 1) c st1 cs position' st') \<Longrightarrow>
      P depth position st n position' st'"
    and nil: "\<And>depth position st. Q depth position st [] position st"
    and cons: "\<And>depth position st c c1 st1 cs position' st'.
      P depth position st c c1 st1 \<Longrightarrow> Q depth c1 st1 cs position' st' \<Longrightarrow>
      Q depth position st (c # cs) position' st'"
  shows "P depth position st n position' st'"
  using parse
proof (induction "FW_MAX_DEPTH + 1 - depth" arbitrary: depth position st n position' st'
    rule: less_induct)
  case less
  have "depth \<le> FW_MAX_DEPTH" using fw_node_Inr [OF less.prems] by blast
  then have smaller: "FW_MAX_DEPTH + 1 - (depth + 1) < FW_MAX_DEPTH + 1 - depth" by simp
  show ?case
  proof (rule step [OF less.prems])
    fix left c st1 cs position' st'
    assume kids: "fw_children_loop R source (depth + 1) left c st1 = Inr (cs, position', st')"
    show "length cs = left \<and> Q (depth + 1) c st1 cs position' st'"
      by (rule fw_children_from_nodes [where P = P, OF less.hyps [OF smaller] nil cons kids])
  qed
qed

lemma fw_node_span:
  assumes len: "length source < 2 ^ 64" and parse: "fw_node R source depth position st = Inr (n, position', st')"
    and start: "position \<le> length source"
  shows "parsed_span source position position' (render_node n) (subtree_properties n) \<and>
    counted st (subtree_nodes n) (subtree_properties n) st'"
proof -
  let ?P = "\<lambda>depth :: nat. \<lambda>position st n position' st'. position \<le> length source \<longrightarrow>
    parsed_span source position position' (render_node n) (subtree_properties n) \<and>
    counted st (subtree_nodes n) (subtree_properties n) st'"
  let ?Q = "\<lambda>depth :: nat. \<lambda>position st cs position' st'. position \<le> length source \<longrightarrow>
    parsed_span source position position' (render_children cs) (children_properties cs) \<and>
    counted st (children_nodes cs) (children_properties cs) st'"
  have "?P depth position st n position' st'"
    using parse
  proof (rule fw_node_induct [where P = ?P and Q = ?Q])
    fix depth position st n position' st'
    assume node: "fw_node R source depth position st = Inr (n, position', st')"
      and IH: "\<And>left c st1 cs position' st'.
        fw_children_loop R source (depth + 1) left c st1 = Inr (cs, position', st') \<Longrightarrow>
        length cs = left \<and> ?Q (depth + 1) c st1 cs position' st'"
    obtain w1 c1 w2 c2 ps c3 st2 cs where
      w1: "fw_word source position = Inr (w1, c1)" and w2: "fw_word source c1 = Inr (w2, c2)"
      and props: "fw_properties_loop source (unat w1) c2
        (st\<lparr>fw_nodes := fw_nodes st + 1, fw_properties := fw_properties st + unat w1,
            fw_maximum_depth := max (fw_maximum_depth st) depth\<rparr>) = Inr (ps, c3, st2)"
      and kids: "fw_children_loop R source (depth + 1) (unat w2) c3 st2 = Inr (cs, position', st')"
      and n: "n = FirmwareNode position ps cs"
      using fw_node_Inr [OF node] by blast
    have c2: "c2 \<le> length source" using fw_word_segment [OF len w2] by simp
    note P = fw_properties_parse [OF len props c2]
    have K: "length cs = unat w2 \<and> parsed_span source c3 position' (render_children cs)
        (children_properties cs) \<and> counted st2 (children_nodes cs) (children_properties cs) st'"
      using IH [OF kids] P by simp
    have s: "parsed_span source c2 c3 (concat (map render_property ps)) ps"
      using P by (auto simp: parsed_span_def)
    have ws: "w1 = of_nat (length ps)" "w2 = of_nat (length cs)" using P K by auto
    have "parsed_span source position position'
        (to_le_bytes w1 @ to_le_bytes w2 @ concat (map render_property ps) @ render_children cs)
        ([] @ [] @ ps @ children_properties cs)"
      using K by (intro parsed_span_join [OF parsed_span_word [OF len w1]]
          parsed_span_join [OF parsed_span_word [OF len w2]] parsed_span_join [OF s]) simp
    moreover have "counted st (1 + children_nodes cs) (ps @ children_properties cs) st'"
      using P K by (auto simp: counted_def)
    ultimately show "?P depth position st n position' st'" by (simp add: n ws)
  next
    show "?Q depth position st [] position st" for depth position st
      by (simp add: parsed_span_def counted_def templates_of_def)
  next
    fix depth position st c c1 st1 cs position' st'
    assume C: "?P depth position st c c1 st1" and K: "?Q depth c1 st1 cs position' st'"
    show "?Q depth position st (c # cs) position' st'"
    proof
      assume "position \<le> length source"
      then have C': "parsed_span source position c1 (render_node c) (subtree_properties c) \<and>
          counted st (subtree_nodes c) (subtree_properties c) st1" using C by simp
      then have "c1 \<le> length source" by (simp add: parsed_span_def)
      then have "parsed_span source c1 position' (render_children cs) (children_properties cs) \<and>
          counted st1 (children_nodes cs) (children_properties cs) st'" using K by simp
      then show "parsed_span source position position' (render_children (c # cs))
          (children_properties (c # cs)) \<and>
          counted st (children_nodes (c # cs)) (children_properties (c # cs)) st'"
        using C' by (auto simp: counted_def intro: parsed_span_join)
    qed
  qed
  then show ?thesis using start by simp
qed

lemma fw_parse_Inr:
  assumes "fw_parse R source = Inr t"
  shows "fdt_source t = source" and "length source \<le> FW_MAX_INPUT_BYTES"
    and "parsed_span source 0 (length source) (render_node (fdt_root t)) (subtree_properties (fdt_root t))"
    and "counted statistics_default (subtree_nodes (fdt_root t)) (subtree_properties (fdt_root t))
      (fdt_statistics t)"
proof -
  obtain root st where node: "fw_node R source 0 0 statistics_default = Inr (root, length source, st)"
    and t: "t = \<lparr>fdt_source = source, fdt_root = root, fdt_statistics = st\<rparr>"
    and len: "length source \<le> FW_MAX_INPUT_BYTES"
    using assms by (auto simp: fw_parse_def result_iff split: if_splits)
  have "length source < 2 ^ 64" using len by (simp add: firmware_limits)
  from fw_node_span [OF this node]
  show "fdt_source t = source" and "length source \<le> FW_MAX_INPUT_BYTES"
    and "parsed_span source 0 (length source) (render_node (fdt_root t)) (subtree_properties (fdt_root t))"
    and "counted statistics_default (subtree_nodes (fdt_root t)) (subtree_properties (fdt_root t))
      (fdt_statistics t)"
    by (simp_all add: t len)
qed

section \<open>Properties\<close>

text \<open>C12. Parsing a firmware device tree is lossless: writing the counts, raw names, raw length
  words, values and paddings of the tree back in order gives exactly the source bytes.\<close>

theorem fw_parse_lossless:
  assumes "fw_parse R source = Inr t"
  shows "render_node (fdt_root t) = source"
  using fw_parse_Inr(3) [OF assms] by (simp add: parsed_span_def)

text \<open>A root with one template property.\<close>

definition sample_firmware :: byte_string where
  "sample_firmware =
     [1, 0, 0, 0, 0, 0, 0, 0] @ (0x62 # replicate 31 0) @ [2, 0, 0, 0x80] @ [0x78, 0, 0, 0]"

lemma sample_firmware_reads:
  "fw_word sample_firmware 0 = Inr (1, 4)"
  "fw_word sample_firmware 4 = Inr (0, 8)"
  "fw_take sample_firmware 8 32 = Inr (0x62 # replicate 31 0, 40)"
  "fw_word sample_firmware 40 = Inr (0x80000002, 44)"
  "fw_take sample_firmware 44 2 = Inr ([0x78, 0], 46)"
  "fw_take sample_firmware 46 2 = Inr ([0, 0], 48)"
  "length sample_firmware = 48"
  by (simp_all add: fw_word_def fw_take_def usize_add_def get_range_def sample_firmware_def
      from_le_bytes_def)

lemma sample_firmware_parses: "\<exists>t. fw_parse (\<lambda>_. True) sample_firmware = Inr t"
  by (simp add: fw_parse_def fw_node.simps sample_firmware_reads usize_add_def usize_mul_def
      statistics_default_def firmware_limits TEMPLATE_FLAG_def Let_def word_le_nat_alt)

theorem fw_parse_lossless_witness:
  "\<exists>t. fw_parse (\<lambda>_. True) sample_firmware = Inr t \<and> render_node (fdt_root t) = sample_firmware"
  using sample_firmware_parses fw_parse_lossless by blast

text \<open>How deep a subtree goes below its root.\<close>

fun subtree_height :: "firmware_node \<Rightarrow> nat"
  and children_height :: "firmware_node list \<Rightarrow> nat" where
  "subtree_height (FirmwareNode offset ps cs) = children_height cs"
| "children_height [] = 0"
| "children_height (c # cs) = max (Suc (subtree_height c)) (children_height cs)"

definition within_firmware_limits :: "firmware_statistics \<Rightarrow> bool" where
  "within_firmware_limits st \<longleftrightarrow>
     fw_nodes st \<le> FW_MAX_NODES \<and> fw_properties st \<le> FW_MAX_PROPERTIES \<and>
     fw_maximum_depth st \<le> FW_MAX_DEPTH"

lemma max_height:
  "max (max (m :: nat) (d + h)) (d + k - 1) = max m (d + max (Suc h) k - 1)"
  by (cases "Suc h \<le> k") (auto simp: max_def)

lemma fw_node_limits:
  assumes len: "length source < 2 ^ 64"
    and parse: "fw_node R source depth position st = Inr (n, position', st')"
    and start: "position \<le> length source" "within_firmware_limits st"
  shows "within_firmware_limits st' \<and>
    fw_maximum_depth st' = max (fw_maximum_depth st) (depth + subtree_height n)"
proof -
  let ?P = "\<lambda>depth position st n position' st'. position \<le> length source \<longrightarrow>
    within_firmware_limits st \<longrightarrow> position' \<le> length source \<and> within_firmware_limits st' \<and>
    fw_maximum_depth st' = max (fw_maximum_depth st) (depth + subtree_height n)"
  let ?Q = "\<lambda>depth position st cs position' st'. position \<le> length source \<longrightarrow>
    within_firmware_limits st \<longrightarrow> depth \<le> fw_maximum_depth st + 1 \<longrightarrow>
    position' \<le> length source \<and> within_firmware_limits st' \<and>
    fw_maximum_depth st' = max (fw_maximum_depth st) (depth + children_height cs - 1)"
  have "?P depth position st n position' st'"
    using parse
  proof (rule fw_node_induct [where P = ?P and Q = ?Q])
    fix depth position st n position' st'
    assume node: "fw_node R source depth position st = Inr (n, position', st')"
      and IH: "\<And>left c st1 cs position' st'.
        fw_children_loop R source (depth + 1) left c st1 = Inr (cs, position', st') \<Longrightarrow>
        length cs = left \<and> ?Q (depth + 1) c st1 cs position' st'"
    obtain w1 c1 w2 c2 ps c3 st2 cs where
      w1: "fw_word source position = Inr (w1, c1)" and w2: "fw_word source c1 = Inr (w2, c2)"
      and guard: "depth \<le> FW_MAX_DEPTH" "fw_nodes st \<noteq> FW_MAX_NODES"
        "unat w1 \<le> FW_MAX_PROPERTIES - fw_properties st"
      and props: "fw_properties_loop source (unat w1) c2
        (st\<lparr>fw_nodes := fw_nodes st + 1, fw_properties := fw_properties st + unat w1,
            fw_maximum_depth := max (fw_maximum_depth st) depth\<rparr>) = Inr (ps, c3, st2)"
      and kids: "fw_children_loop R source (depth + 1) (unat w2) c3 st2 = Inr (cs, position', st')"
      and n: "n = FirmwareNode position ps cs"
      using fw_node_Inr [OF node] by (elim exE conjE) (rule that, assumption+)
    have c2: "c2 \<le> length source" using fw_word_segment [OF len w2] by simp
    note P = fw_properties_parse [OF len props c2]
    show "?P depth position st n position' st'"
    proof (intro impI)
      assume st: "within_firmware_limits st"
      have st2: "within_firmware_limits st2" "fw_maximum_depth st2 = max (fw_maximum_depth st) depth"
        using P st guard by (auto simp: within_firmware_limits_def)
      then have "depth + 1 \<le> fw_maximum_depth st2 + 1" by simp
      then show "position' \<le> length source \<and> within_firmware_limits st' \<and>
          fw_maximum_depth st' = max (fw_maximum_depth st) (depth + subtree_height n)"
        using IH [OF kids] P st2 by (simp add: n)
    qed
  next
    show "?Q depth position st [] position st" for depth position st by simp
  next
    fix depth position st c c1 st1 cs position' st'
    assume "?P depth position st c c1 st1" and "?Q depth c1 st1 cs position' st'"
    then show "?Q depth position st (c # cs) position' st'"
      using max_height [of "fw_maximum_depth st" depth "subtree_height c" "children_height cs"]
      by simp
  qed
  then show ?thesis using start by simp
qed

text \<open>The statistics of a parsed tree are those of the tree: its node count, its property
  count, its number of template properties and its height, each within the public limit.\<close>

theorem fw_parse_statistics:
  assumes "fw_parse R source = Inr t"
  shows "fw_nodes (fdt_statistics t) = subtree_nodes (fdt_root t) \<and>
    fw_properties (fdt_statistics t) = length (subtree_properties (fdt_root t)) \<and>
    fw_templates (fdt_statistics t) = length (templates_of (subtree_properties (fdt_root t))) \<and>
    fw_maximum_depth (fdt_statistics t) = subtree_height (fdt_root t) \<and>
    within_firmware_limits (fdt_statistics t)"
proof -
  obtain root st where node: "fw_node R source 0 0 statistics_default = Inr (root, length source, st)"
    and t: "t = \<lparr>fdt_source = source, fdt_root = root, fdt_statistics = st\<rparr>"
    and len: "length source \<le> FW_MAX_INPUT_BYTES"
    using assms by (auto simp: fw_parse_def result_iff split: if_splits)
  have "length source < 2 ^ 64" using len by (simp add: firmware_limits)
  from fw_node_limits [OF this node]
  have L: "within_firmware_limits st \<and> fw_maximum_depth st = subtree_height root"
    by (simp add: within_firmware_limits_def statistics_default_def)
  have "counted statistics_default (subtree_nodes root) (subtree_properties root) st"
    using fw_parse_Inr(4) [OF assms] by (simp add: t)
  then show ?thesis using L by (simp add: t counted_def statistics_default_def)
qed

theorem fw_parse_statistics_witness:
  "\<exists>t. fw_parse (\<lambda>_. True) sample_firmware = Inr t \<and>
     fw_nodes (fdt_statistics t) = subtree_nodes (fdt_root t)"
  using sample_firmware_parses fw_parse_statistics by blast

text \<open>
  \<open>validated_runtime_bytes\<close> hands out the unmodified source, only when no property of
  the tree is a template and the runtime validator accepts the bytes; a tree with templates
  is refused with their exact number.
\<close>

theorem validated_runtime_bytes_sound:
  assumes "fw_parse R source = Inr t"
  shows "validated_runtime_bytes t =
    (if templates_of (subtree_properties (fdt_root t)) \<noteq> []
     then Inl (Fw_UnresolvedTemplates (length (templates_of (subtree_properties (fdt_root t)))))
     else case validate source of Inl e \<Rightarrow> Inl (Fw_Runtime e) | Inr _ \<Rightarrow> Inr source)"
proof -
  have "fw_templates (fdt_statistics t) = length (templates_of (subtree_properties (fdt_root t)))"
    using fw_parse_Inr(4) [OF assms] by (simp add: counted_def statistics_default_def)
  moreover have "fdt_source t = source" by (rule fw_parse_Inr(1) [OF assms])
  ultimately show ?thesis
    by (auto simp: validated_runtime_bytes_def split: sum.split)
qed

theorem validated_runtime_bytes_sound_witness:
  "\<exists>t. fw_parse (\<lambda>_. True) sample_firmware = Inr t \<and>
     isl (validated_runtime_bytes t) = (templates_of (subtree_properties (fdt_root t)) \<noteq> []
        \<or> isl (validate sample_firmware))"
proof -
  obtain t where t: "fw_parse (\<lambda>_. True) sample_firmware = Inr t"
    using sample_firmware_parses by blast
  show ?thesis
    using t by (auto simp: validated_runtime_bytes_sound [OF t] split: sum.splits)
qed

end
