(* ===== verification/Runtime_Dt.thy ===== *)
theory Runtime_Dt
  imports Firmware_Dt Flat_Dt_Roundtrip
begin

text \<open>
  \<^verbatim>\<open>src/src/runtime_dt.rs\<close>: templates of a firmware device tree are replaced by bytes a
  caller supplies for them, the result is checked by the runtime validator and may be copied
  into declared guest memory.

  The digest of the \<^verbatim>\<open>sha2\<close> crate is the argument \<open>sha256\<close>; \<open>R\<close> is the allocator behind
  \<^verbatim>\<open>try_reserve\<close> (an element count to whether the reservation succeeds).
\<close>

section \<open>Data\<close>

definition MAX_OUTPUT_BYTES :: nat where "MAX_OUTPUT_BYTES = MAX_SERIALIZED_SIZE"
definition MAX_BINDINGS :: nat where "MAX_BINDINGS = MAX_PROPERTIES"

record property_id =
  source_sha256 :: byte_string
  property_offset :: nat

record provided_value =
  pv_property :: property_id
  pv_provider :: byte_string
  pv_value :: byte_string

datatype runtime_error =
    Rt_Firmware firmware_dt_error
  | Rt_Runtime flat_dt_error
  | Rt_Limits
  | Rt_Allocation
  | Rt_SourceIdentity
  | Rt_StructuralTemplate
  | Rt_InvalidProvider
  | Rt_DuplicateBinding
  | Rt_UnknownBinding
  | Rt_MissingProviders "property_id list"
  | Rt_ArithmeticOverflow
  | Rt_InvalidRam
  | Rt_InvalidReservation
  | Rt_DestinationCapacity
  | Rt_Panic \<comment> \<open>the \<^verbatim>\<open>expect\<close> of \<^verbatim>\<open>write\<close>; not a value of the source's enum\<close>

record applied_binding =
  ab_property :: property_id
  ab_provider :: byte_string
  ab_value_sha256 :: byte_string
  ab_value_bytes :: nat

record materialized_tree =
  mt_source :: byte_string
  mt_bytes :: byte_string
  mt_source_sha256 :: byte_string
  mt_replacement_count :: nat
  mt_bindings :: "applied_binding list"

section \<open>Templates\<close>

fun collect_properties ::
  "(nat \<Rightarrow> bool) \<Rightarrow> byte_string \<Rightarrow> firmware_property list \<Rightarrow> property_id list \<Rightarrow>
   runtime_error + property_id list" where
  "collect_properties R digest [] ids = Inr ids"
| "collect_properties R digest (p # ps) ids =
     (if fp_kind p = Template then
        if fp_name p = name_key then Inl Rt_StructuralTemplate
        else if length ids = MAX_BINDINGS then Inl Rt_Limits
        else if \<not> R 1 then Inl Rt_Allocation
        else collect_properties R digest ps
               (ids @ [\<lparr>source_sha256 = digest, property_offset = fp_offset p\<rparr>])
      else collect_properties R digest ps ids)"

fun collect_templates ::
    "(nat \<Rightarrow> bool) \<Rightarrow> byte_string \<Rightarrow> firmware_node \<Rightarrow> property_id list \<Rightarrow>
     runtime_error + property_id list"
  and collect_children ::
    "(nat \<Rightarrow> bool) \<Rightarrow> byte_string \<Rightarrow> firmware_node list \<Rightarrow> property_id list \<Rightarrow>
     runtime_error + property_id list" where
  "collect_templates R digest (FirmwareNode offset ps cs) ids =
     and_then (collect_properties R digest ps ids) (collect_children R digest cs)"
| "collect_children R digest [] ids = Inr ids"
| "collect_children R digest (c # cs) ids =
     and_then (collect_templates R digest c ids) (collect_children R digest cs)"

definition template_ids ::
  "(byte_string \<Rightarrow> byte_string) \<Rightarrow> (nat \<Rightarrow> bool) \<Rightarrow> byte_string \<Rightarrow>
   runtime_error + property_id list" where
  "template_ids sha256 R source =
     and_then (map_err Rt_Firmware (fw_parse R source)) (\<lambda>tree.
     collect_templates R (sha256 source) (fdt_root tree) [])"

section \<open>Measuring and writing\<close>

definition property_wire_bytes :: "u64 \<Rightarrow> runtime_error + u64" where
  "property_wire_bytes value_length =
     and_then (ok_or (checked_add value_length 3) Rt_ArithmeticOverflow) (\<lambda>v.
     let padded = v AND NOT 3 in
     and_then (ok_or (checked_add padded 36) Rt_ArithmeticOverflow) (\<lambda>total.
     if ucast TEMPLATE_FLAG \<le> value_length then Inl Rt_Limits else Inr total))"

definition replacement :: "nat \<Rightarrow> provided_value list \<Rightarrow> provided_value option" where
  "replacement offset provided =
     find (\<lambda>b. property_offset (pv_property b) = offset) provided"

fun measure_fw_properties ::
  "firmware_property list \<Rightarrow> provided_value list \<Rightarrow> u64 \<Rightarrow> runtime_error + u64" where
  "measure_fw_properties [] provided tot = Inr tot"
| "measure_fw_properties (p # ps) provided tot =
     and_then (case fp_kind p of
         Literal \<Rightarrow> Inr (length (fp_value p))
       | Template \<Rightarrow> and_then (ok_or (replacement (fp_offset p) provided) Rt_UnknownBinding)
                       (\<lambda>b. Inr (length (pv_value b)))) (\<lambda>len.
     and_then (property_wire_bytes (of_nat len)) (\<lambda>wire.
     and_then (ok_or (checked_add tot wire) Rt_ArithmeticOverflow) (\<lambda>tot.
     measure_fw_properties ps provided tot)))"

fun measure_tree ::
    "firmware_node \<Rightarrow> provided_value list \<Rightarrow> u64 \<Rightarrow> runtime_error + u64"
  and measure_trees ::
    "firmware_node list \<Rightarrow> provided_value list \<Rightarrow> u64 \<Rightarrow> runtime_error + u64" where
  "measure_tree (FirmwareNode offset ps cs) provided tot =
     and_then (ok_or (checked_add tot 8) Rt_ArithmeticOverflow) (\<lambda>tot.
     and_then (measure_fw_properties ps provided tot) (\<lambda>tot.
     measure_trees cs provided tot))"
| "measure_trees [] provided tot = Inr tot"
| "measure_trees (c # cs) provided tot =
     and_then (measure_tree c provided tot) (\<lambda>tot. measure_trees cs provided tot)"

text \<open>
  Writing runs after every template was seen to have a binding; \<^verbatim>\<open>expect\<close> on a missing one
  is the value \<open>None\<close>, which \<open>prepare\<close> turns into \<open>Rt_Panic\<close>.
\<close>

fun write_fw_properties ::
  "firmware_property list \<Rightarrow> provided_value list \<Rightarrow> byte_string \<Rightarrow> byte_string option" where
  "write_fw_properties [] provided out = Some out"
| "write_fw_properties (p # ps) provided out =
     (let out = out @ fp_raw_name p in
      if fp_kind p = Literal then
        write_fw_properties ps provided
          (out @ to_le_bytes (fp_raw_length p) @ fp_value p @ fp_padding p)
      else
        Option.bind (replacement (fp_offset p) provided) (\<lambda>b.
        let val = pv_value b;
            out = out @ to_le_bytes (of_nat (length val) :: u32) @ val
        in write_fw_properties ps provided
             (resize_zero out (length out + (4 - length val mod 4) mod 4))))"

fun write_tree ::
    "firmware_node \<Rightarrow> provided_value list \<Rightarrow> byte_string \<Rightarrow> byte_string option"
  and write_trees ::
    "firmware_node list \<Rightarrow> provided_value list \<Rightarrow> byte_string \<Rightarrow> byte_string option" where
  "write_tree (FirmwareNode offset ps cs) provided out =
     Option.bind
       (write_fw_properties ps provided
         (out @ to_le_bytes (of_nat (length ps) :: u32) @ to_le_bytes (of_nat (length cs) :: u32)))
       (write_trees cs provided)"
| "write_trees [] provided out = Some out"
| "write_trees (c # cs) provided out =
     Option.bind (write_tree c provided out) (write_trees cs provided)"

section \<open>Preparation\<close>

definition is_ascii_alphanumeric :: "u8 \<Rightarrow> bool" where
  "is_ascii_alphanumeric b \<longleftrightarrow>
     (0x30 \<le> b \<and> b \<le> 0x39) \<or> (0x41 \<le> b \<and> b \<le> 0x5a) \<or> (0x61 \<le> b \<and> b \<le> 0x7a)"

text \<open>The extra characters \<^verbatim>\<open>-_.:/\<close> of a provider label.\<close>

definition valid_provider :: "byte_string \<Rightarrow> bool" where
  "valid_provider label \<longleftrightarrow> label \<noteq> [] \<and> length label \<le> 64 \<and>
     list_all (\<lambda>b. is_ascii_alphanumeric b \<or> b \<in> set [0x2d, 0x5f, 0x2e, 0x3a, 0x2f]) label"

text \<open>The loop over the bindings; \<open>earlier\<close> is \<^verbatim>\<open>provided[..index]\<close>.\<close>

fun check_bindings ::
  "byte_string \<Rightarrow> property_id list \<Rightarrow> provided_value list \<Rightarrow> provided_value list \<Rightarrow>
   runtime_error + unit" where
  "check_bindings digest templates earlier [] = Inr ()"
| "check_bindings digest templates earlier (b # bs) =
     (if source_sha256 (pv_property b) \<noteq> digest then Inl Rt_SourceIdentity
      else if \<not> valid_provider (pv_provider b) then Inl Rt_InvalidProvider
      else if pv_property b \<in> set (map pv_property earlier) then Inl Rt_DuplicateBinding
      else if pv_property b \<notin> set templates then Inl Rt_UnknownBinding
      else check_bindings digest templates (earlier @ [b]) bs)"

fun applied_bindings ::
  "(byte_string \<Rightarrow> byte_string) \<Rightarrow> (nat \<Rightarrow> bool) \<Rightarrow> provided_value list \<Rightarrow>
   runtime_error + applied_binding list" where
  "applied_bindings sha256 R [] = Inr []"
| "applied_bindings sha256 R (b # bs) =
     (if \<not> R (length (pv_provider b)) then Inl Rt_Allocation
      else and_then (applied_bindings sha256 R bs) (\<lambda>rest.
        Inr (\<lparr>ab_property = pv_property b, ab_provider = pv_provider b,
              ab_value_sha256 = sha256 (pv_value b), ab_value_bytes = length (pv_value b)\<rparr>
             # rest)))"

definition prepare ::
  "(byte_string \<Rightarrow> byte_string) \<Rightarrow> (nat \<Rightarrow> bool) \<Rightarrow> byte_string \<Rightarrow> provided_value list \<Rightarrow> nat \<Rightarrow>
   runtime_error + materialized_tree" where
  "prepare sha256 R source provided maximum_output =
     (if maximum_output = 0 \<or> MAX_OUTPUT_BYTES < maximum_output
         \<or> MAX_BINDINGS < length provided
      then Inl Rt_Limits
      else
      and_then (map_err Rt_Firmware (fw_parse R source)) (\<lambda>tree.
      let digest = sha256 source in
      and_then (collect_templates R digest (fdt_root tree) []) (\<lambda>templates.
      and_then (check_bindings digest templates [] provided) (\<lambda>_.
      if \<not> R (length templates) then Inl Rt_Allocation
      else
      let missing = filter (\<lambda>i. replacement (property_offset i) provided = None) templates in
      if missing \<noteq> [] then Inl (Rt_MissingProviders missing)
      else
      and_then (measure_tree (fdt_root tree) provided 0) (\<lambda>len.
      if of_nat maximum_output < len then Inl Rt_Limits
      else if \<not> R (unat len) then Inl Rt_Allocation
      else
      and_then (ok_or (write_tree (fdt_root tree) provided []) Rt_Panic) (\<lambda>bytes.
      and_then (map_err Rt_Runtime (validate bytes)) (\<lambda>_.
      if \<not> R (length provided) then Inl Rt_Allocation
      else
      and_then (applied_bindings sha256 R provided) (\<lambda>bindings.
      Inr \<lparr>mt_source = source, mt_bytes = bytes, mt_source_sha256 = digest,
           mt_replacement_count = length templates, mt_bindings = bindings\<rparr>))))))))"

section \<open>Copying into declared memory\<close>

record ram_extent =
  ram_base :: u64
  ram_size :: u64

definition ram_extent_from_backing :: "u64 \<Rightarrow> byte_string \<Rightarrow> runtime_error + ram_extent" where
  "ram_extent_from_backing base bytes =
     and_then (ok_or (u64_of_usize (length bytes)) Rt_ArithmeticOverflow) (\<lambda>count.
     if count = 0 then Inl Rt_InvalidRam
     else and_then (ok_or (checked_add base count) Rt_ArithmeticOverflow) (\<lambda>_.
          Inr \<lparr>ram_base = base, ram_size = count\<rparr>))"

definition ram_end :: "ram_extent \<Rightarrow> u64" where
  "ram_end e = ram_base e + ram_size e"

definition little_endian_values :: "ram_extent \<Rightarrow> byte_string \<times> byte_string" where
  "little_endian_values e = (to_le_bytes (ram_base e), to_le_bytes (ram_size e))"

record declared_reservation =
  dr_address :: u64
  dr_capacity :: u64

text \<open>\<^verbatim>\<open>write_reserved\<close>: the result and the bytes of \<^verbatim>\<open>ram\<close> afterwards.\<close>

definition write_reserved ::
  "materialized_tree \<Rightarrow> byte_string \<Rightarrow> u64 \<Rightarrow> declared_reservation \<Rightarrow>
   (runtime_error + unit) \<times> byte_string" where
  "write_reserved m ram base r =
     (let checked =
        and_then (ram_extent_from_backing base ram) (\<lambda>observed.
        and_then (ok_or (checked_add (dr_address r) (dr_capacity r)) Rt_ArithmeticOverflow)
          (\<lambda>last.
        if dr_capacity r = 0 \<or> dr_address r mod 4 \<noteq> 0 \<or> dr_address r < ram_base observed
           \<or> ram_end observed < last
        then Inl Rt_InvalidReservation
        else if dr_capacity r < of_nat (length (mt_bytes m)) then Inl Rt_DestinationCapacity
        else
        let offset = unat (dr_address r - base) in
        and_then (ok_or (usize_add offset (length (mt_bytes m))) Rt_ArithmeticOverflow)
          (\<lambda>output_end.
        if length ram < output_end then Inl Rt_DestinationCapacity else Inr offset)))
      in case checked of
           Inl e \<Rightarrow> (Inl e, ram)
         | Inr offset \<Rightarrow> (Inr (), put_bytes ram offset (mt_bytes m)))"

definition materialize_into ::
  "(byte_string \<Rightarrow> byte_string) \<Rightarrow> (nat \<Rightarrow> bool) \<Rightarrow> byte_string \<Rightarrow> provided_value list \<Rightarrow> nat \<Rightarrow>
   byte_string \<Rightarrow> u64 \<Rightarrow> declared_reservation \<Rightarrow> (runtime_error + nat) \<times> byte_string" where
  "materialize_into sha256 R source provided maximum_output ram base reservation =
     (case prepare sha256 R source provided maximum_output of
        Inl e \<Rightarrow> (Inl e, ram)
      | Inr tree \<Rightarrow>
          (case write_reserved tree ram base reservation of
             (Inl e, ram) \<Rightarrow> (Inl e, ram)
           | (Inr _, ram) \<Rightarrow> (Inr (length (mt_bytes tree)), ram)))"

end
