(* ===== verification/Runtime_Dt_Proofs.thy ===== *)
theory Runtime_Dt_Proofs
  imports Runtime_Dt
begin

text \<open>
  What materializing a device tree guarantees: the templates are exactly the bindings, the
  output is the source tree with the supplied values in place, its length was measured
  before it was allocated, and guest memory changes only by a complete, checked copy.
\<close>

section \<open>Collected templates\<close>

definition template_id :: "byte_string \<Rightarrow> firmware_property \<Rightarrow> property_id" where
  "template_id digest p = \<lparr>source_sha256 = digest, property_offset = fp_offset p\<rparr>"

lemma templates_of_Cons:
  "templates_of (p # ps) = (if fp_kind p = Template then p # templates_of ps else templates_of ps)"
  by (simp add: templates_of_def)

lemma collect_properties_Inr:
  "collect_properties R digest ps ids = Inr ids' \<Longrightarrow>
   ids' = ids @ map (template_id digest) (templates_of ps) \<and>
   (\<forall>p \<in> set (templates_of ps). fp_name p \<noteq> name_key)"
proof (induction ps arbitrary: ids)
  case (Cons p ps)
  show ?case
  proof (cases "fp_kind p = Template")
    case True
    with Cons.prems have name: "fp_name p \<noteq> name_key"
      and rest: "collect_properties R digest ps (ids @ [template_id digest p]) = Inr ids'"
      by (auto simp: template_id_def split: if_splits)
    then show ?thesis using Cons.IH [OF rest] True by (simp add: templates_of_Cons)
  next
    case False
    then show ?thesis using Cons by (simp add: templates_of_Cons)
  qed
qed (simp add: templates_of_def)

lemma collect_Inr:
  "collect_templates R digest n ids = Inr ids' \<Longrightarrow>
   ids' = ids @ map (template_id digest) (templates_of (subtree_properties n)) \<and>
   (\<forall>p \<in> set (templates_of (subtree_properties n)). fp_name p \<noteq> name_key)"
  "collect_children R digest cs ids = Inr ids' \<Longrightarrow>
   ids' = ids @ map (template_id digest) (templates_of (children_properties cs)) \<and>
   (\<forall>p \<in> set (templates_of (children_properties cs)). fp_name p \<noteq> name_key)"
proof (induction n and cs arbitrary: ids ids' and ids ids'
    rule: subtree_properties_children_properties.induct)
  case (1 offset ps cs)
  then obtain ids1 where ps: "collect_properties R digest ps ids = Inr ids1"
    and cs: "collect_children R digest cs ids1 = Inr ids'"
    by (auto simp: result_iff)
  show ?case using collect_properties_Inr [OF ps] "1.IH" [OF cs] by auto
next
  case 2
  then show ?case by (simp add: templates_of_def)
next
  case (3 c cs)
  then obtain ids1 where c: "collect_templates R digest c ids = Inr ids1"
    and cs: "collect_children R digest cs ids1 = Inr ids'"
    by (auto simp: result_iff)
  show ?case using "3.IH"(1) [OF c] "3.IH"(2) [OF cs] by auto
qed

lemma check_bindings_Inr:
  "check_bindings digest templates earlier bs = Inr () \<Longrightarrow>
   (\<forall>b \<in> set bs. source_sha256 (pv_property b) = digest \<and> valid_provider (pv_provider b) \<and>
      pv_property b \<in> set templates \<and> pv_property b \<notin> pv_property ` set earlier) \<and>
   distinct (map pv_property bs)"
proof (induction bs arbitrary: earlier)
  case (Cons b bs)
  from Cons.prems have rest: "check_bindings digest templates (earlier @ [b]) bs = Inr ()"
    and b: "source_sha256 (pv_property b) = digest" "valid_provider (pv_provider b)"
      "pv_property b \<in> set templates" "pv_property b \<notin> pv_property ` set earlier"
    by (simp_all only: check_bindings.simps if_Inl_Inr not_not set_map not_False_eq_True)
  note IH = Cons.IH [OF rest]
  have "set (earlier @ [b]) = insert b (set earlier)" by simp
  then have out: "pv_property x \<noteq> pv_property b \<and> pv_property x \<notin> pv_property ` set earlier"
    if "x \<in> set bs" for x
    using IH that by blast
  then have "pv_property b \<notin> set (map pv_property bs)" by (metis image_iff list.set_map)
  then have "distinct (map pv_property (b # bs))" using IH by simp
  moreover have "source_sha256 (pv_property x) = digest \<and> valid_provider (pv_provider x) \<and>
      pv_property x \<in> set templates \<and> pv_property x \<notin> pv_property ` set earlier"
    if "x \<in> set (b # bs)" for x
  proof (cases "x = b")
    case True
    then show ?thesis using b by blast
  next
    case False
    then have "x \<in> set bs" using that by simp
    then show ?thesis using IH out by blast
  qed
  ultimately show ?case by blast
qed simp

lemma replacement_None:
  "replacement offset provided = None \<longleftrightarrow>
   (\<forall>b \<in> set provided. property_offset (pv_property b) \<noteq> offset)"
  by (auto simp: replacement_def find_None_iff)

lemma replacement_Some:
  "replacement offset provided = Some b \<Longrightarrow>
   b \<in> set provided \<and> property_offset (pv_property b) = offset"
  by (auto simp: replacement_def find_Some_iff)

section \<open>The tree with its values in place\<close>

definition bind_property :: "provided_value list \<Rightarrow> firmware_property \<Rightarrow> firmware_property" where
  "bind_property provided p =
     (if fp_kind p = Template then
        (case replacement (fp_offset p) provided of
           None \<Rightarrow> p
         | Some b \<Rightarrow> p\<lparr>fp_raw_length := of_nat (length (pv_value b)), fp_value := pv_value b,
             fp_padding := replicate ((4 - length (pv_value b) mod 4) mod 4) 0\<rparr>)
      else p)"

fun bind_tree :: "provided_value list \<Rightarrow> firmware_node \<Rightarrow> firmware_node"
  and bind_trees :: "provided_value list \<Rightarrow> firmware_node list \<Rightarrow> firmware_node list" where
  "bind_tree provided (FirmwareNode offset ps cs) =
     FirmwareNode offset (map (bind_property provided) ps) (bind_trees provided cs)"
| "bind_trees provided [] = []"
| "bind_trees provided (c # cs) = bind_tree provided c # bind_trees provided cs"

definition all_bound :: "provided_value list \<Rightarrow> firmware_property list \<Rightarrow> bool" where
  "all_bound provided ps \<longleftrightarrow>
     (\<forall>p \<in> set (templates_of ps). replacement (fp_offset p) provided \<noteq> None)"

lemma all_bound_simps [simp]:
  "all_bound provided []"
  "all_bound provided (p # ps) \<longleftrightarrow>
     (fp_kind p = Template \<longrightarrow> replacement (fp_offset p) provided \<noteq> None) \<and> all_bound provided ps"
  "all_bound provided (ps @ qs) \<longleftrightarrow> all_bound provided ps \<and> all_bound provided qs"
  by (auto simp: all_bound_def templates_of_def)

lemma length_bind_trees [simp]: "length (bind_trees provided cs) = length cs"
  by (induction cs) auto

lemma fp_kind_Literal: "fp_kind p = Literal \<longleftrightarrow> fp_kind p \<noteq> Template"
  by (cases "fp_kind p") auto

lemma write_fw_properties_render:
  "all_bound provided ps \<Longrightarrow>
   write_fw_properties ps provided out =
     Some (out @ concat (map (render_property \<circ> bind_property provided) ps))"
  by (induction ps arbitrary: out)
    (auto simp: Let_def bind_property_def render_property_def resize_zero_def fp_kind_Literal)

lemma write_tree_render:
  "all_bound provided (subtree_properties n) \<Longrightarrow>
   write_tree n provided out = Some (out @ render_node (bind_tree provided n))"
  "all_bound provided (children_properties cs) \<Longrightarrow>
   write_trees cs provided out = Some (out @ render_children (bind_trees provided cs))"
  by (induction n and cs arbitrary: out and out
      rule: subtree_properties_children_properties.induct)
    (auto simp: write_fw_properties_render)

section \<open>Measuring\<close>

lemma unat_and_not_3: "unat (v AND NOT (3 :: u64)) = unat v - unat v mod 4"
proof -
  have p: "is_power_of_two 4" by (simp add: is_power_of_two_def) (rule bexI [of _ 2], simp_all)
  show ?thesis using unat_align_down [OF p, of v] by (simp add: align_down_def)
qed

lemma unat_numerals: "unat (3 :: u64) = 3" "unat (36 :: u64) = 36"
  by simp_all

lemma property_wire_bytes_Inr:
  "property_wire_bytes w = Inr wire \<longleftrightarrow>
   unat w < 2 ^ 31 \<and> unat wire = 36 + round4 (unat w)"
proof -
  have flag: "unat (ucast TEMPLATE_FLAG :: u64) = 2 ^ 31"
    by (simp add: TEMPLATE_FLAG_def unsigned_ucast_eq)
  have r: "n + 3 - (n + 3) mod 4 = round4 n" for n :: nat
    by (simp add: round4_def minus_mod_eq_div_mult)
  have "round4 n \<le> n + 3" for n by (simp add: round4_eq)
  note bound = this [of "unat w"]
  show ?thesis
  proof
    assume "property_wire_bytes w = Inr wire"
    then have "\<exists>v :: u64. unat w + 3 = unat v \<and> unat (v AND NOT 3) + 36 = unat wire \<and> unat w < 2 ^ 31"
      unfolding property_wire_bytes_def
      by (simp only: result_iff word_nat Let_def flag not_le sum.inject unat_numerals)
        (elim exE conjE, intro exI conjI, assumption, simp only:, assumption)
    then obtain v :: u64 where v: "unat w + 3 = unat v"
      and t: "unat (v AND NOT 3) + 36 = unat wire" and s: "unat w < 2 ^ 31" by blast
    have "unat (v AND NOT 3) = round4 (unat w)"
      using unat_and_not_3 [of v] r [of "unat w"] v by metis
    then show "unat w < 2 ^ 31 \<and> unat wire = 36 + round4 (unat w)"
      using t s by linarith
  next
    assume a: "unat w < 2 ^ 31 \<and> unat wire = 36 + round4 (unat w)"
    then have 1: "checked_add w 3 = Some (w + 3)" by (simp add: checked_add_def)
    then have v: "unat (w + 3) = unat w + 3" by (simp add: checked_add_Some)
    have "unat ((w + 3) AND NOT 3) = round4 (unat w)"
      using r [of "unat w"] unat_and_not_3 [of "w + 3"] v by metis
    then have "checked_add ((w + 3) AND NOT 3) 36 = Some wire"
      using a by (simp add: checked_add_Some)
    then show "property_wire_bytes w = Inr wire"
      using 1 a by (simp add: property_wire_bytes_def word_le_nat_alt flag)
  qed
qed

text \<open>Byte lists a program can hold: lengths are \<^verbatim>\<open>usize\<close> values.\<close>

definition values_fit :: "provided_value list \<Rightarrow> bool" where
  "values_fit provided \<longleftrightarrow> (\<forall>b \<in> set provided. length (pv_value b) < 2 ^ 64)"

lemma length_render_bound:
  assumes "property_ok source p" and "length source < 2 ^ 64" and "values_fit provided"
    and "fp_kind p = Template \<longrightarrow> replacement (fp_offset p) provided \<noteq> None"
  shows "length (fp_value (bind_property provided p)) < 2 ^ 64"
    and "length (render_property (bind_property provided p)) =
      36 + round4 (length (fp_value (bind_property provided p)))"
proof -
  have own: "length (fp_value p) < 2 ^ 64"
    using assms(1,2) by (simp add: property_ok_def render_property_def)
  show "length (fp_value (bind_property provided p)) < 2 ^ 64"
    using own assms(3) by (auto simp: bind_property_def values_fit_def split: option.split
        dest!: replacement_Some)
  show "length (render_property (bind_property provided p)) =
      36 + round4 (length (fp_value (bind_property provided p)))"
    using assms(1,4) by (auto simp: bind_property_def render_property_def property_ok_def round4_eq)
qed

lemma measure_fw_properties_render:
  assumes "length source < 2 ^ 64" and "values_fit provided"
    and "\<forall>p \<in> set ps. property_ok source p" and "all_bound provided ps"
    and "measure_fw_properties ps provided tot = Inr tot'"
  shows "unat tot' = unat tot + length (concat (map (render_property \<circ> bind_property provided) ps))
    \<and> (\<forall>p \<in> set ps. length (fp_value (bind_property provided p)) < 2 ^ 31)"
  using assms(3-5)
proof (induction ps arbitrary: tot)
  case (Cons p ps)
  let ?v = "fp_value (bind_property provided p)"
  from Cons.prems(1,2) have p: "property_ok source p"
    and bound: "fp_kind p = Template \<longrightarrow> replacement (fp_offset p) provided \<noteq> None"
    and rest: "\<forall>p \<in> set ps. property_ok source p" "all_bound provided ps" by auto
  note len = length_render_bound [OF p assms(1,2) bound]
  obtain wire tot1 where w: "property_wire_bytes (of_nat (length ?v)) = Inr wire"
    and t: "checked_add tot wire = Some tot1"
    and m: "measure_fw_properties ps provided tot1 = Inr tot'"
    using Cons.prems(3) bound
    by (auto simp: result_iff bind_property_def split: property_kind.splits option.splits)
  have "unat (of_nat (length ?v) :: u64) = length ?v" using len(1) by (simp add: unat_of_nat)
  then have "length ?v < 2 ^ 31" "unat wire = 36 + round4 (length ?v)"
    using w by (simp_all add: property_wire_bytes_Inr)
  then show ?case using Cons.IH [OF rest m] t len(2) by (simp add: checked_add_Some)
qed simp

lemma measure_tree_render:
  assumes "length source < 2 ^ 64" and "values_fit provided"
  shows "\<forall>p \<in> set (subtree_properties n). property_ok source p \<Longrightarrow>
      all_bound provided (subtree_properties n) \<Longrightarrow> measure_tree n provided tot = Inr tot' \<Longrightarrow>
      unat tot' = unat tot + length (render_node (bind_tree provided n))"
    and "\<forall>p \<in> set (children_properties cs). property_ok source p \<Longrightarrow>
      all_bound provided (children_properties cs) \<Longrightarrow> measure_trees cs provided tot = Inr tot' \<Longrightarrow>
      unat tot' = unat tot + length (render_children (bind_trees provided cs))"
proof (induction n and cs arbitrary: tot tot' and tot tot'
    rule: subtree_properties_children_properties.induct)
  case (1 offset ps cs)
  obtain t1 t2 where t1: "checked_add tot 8 = Some t1"
    and t2: "measure_fw_properties ps provided t1 = Inr t2"
    and t3: "measure_trees cs provided t2 = Inr tot'"
    using "1.prems"(3) by (auto simp: result_iff)
  have "unat t2 = unat t1 + length (concat (map (render_property \<circ> bind_property provided) ps))"
    using measure_fw_properties_render [OF assms _ _ t2] "1.prems"(1,2) by auto
  moreover have "unat tot' = unat t2 + length (render_children (bind_trees provided cs))"
    using "1.IH" [OF _ _ t3] "1.prems"(1,2) by auto
  ultimately show ?case using t1 by (simp add: checked_add_Some)
next
  case (3 c cs)
  obtain t1 where t1: "measure_tree c provided tot = Inr t1"
    and t2: "measure_trees cs provided t1 = Inr tot'"
    using "3.prems"(3) by (auto simp: result_iff)
  then show ?case using "3.IH"(1) [OF _ _ t1] "3.IH"(2) [OF _ _ t2] "3.prems"(1,2) by auto
qed simp


section \<open>What \<open>prepare\<close> returns\<close>

lemma applied_bindings_Inr:
  "applied_bindings sha256 R bs = Inr out \<Longrightarrow> map ab_property out = map pv_property bs"
  by (induction bs arbitrary: out) (auto simp: result_iff split: if_splits)

lemma prepare_Inr:
  assumes "prepare sha256 R source provided maximum_output = Inr m"
  obtains tree templates len where "fw_parse R source = Inr tree"
    and "collect_templates R (sha256 source) (fdt_root tree) [] = Inr templates"
    and "check_bindings (sha256 source) templates [] provided = Inr ()"
    and "\<forall>i \<in> set templates. replacement (property_offset i) provided \<noteq> None"
    and "measure_tree (fdt_root tree) provided 0 = Inr len"
    and "len \<le> of_nat maximum_output" and "maximum_output \<le> MAX_OUTPUT_BYTES"
    and "write_tree (fdt_root tree) provided [] = Some (mt_bytes m)"
    and "validate (mt_bytes m) = Inr ()"
    and "mt_source m = source" and "mt_replacement_count m = length templates"
    and "map ab_property (mt_bindings m) = map pv_property provided"
    and "R (unat len)"
  using assms
  by (auto simp: prepare_def result_iff Let_def filter_empty_conv not_less
      dest!: applied_bindings_Inr split: if_splits)

text \<open>The parse, the collected templates and the bindings fit together.\<close>

lemma templates_are_bindings:
  assumes tree: "fw_parse R source = Inr tree"
    and col: "collect_templates R digest (fdt_root tree) [] = Inr templates"
    and chk: "check_bindings digest templates [] provided = Inr ()"
    and bound: "\<forall>i \<in> set templates. replacement (property_offset i) provided \<noteq> None"
  shows "set templates = set (map pv_property provided)" and "distinct templates"
    and "distinct (map pv_property provided)"
    and "all_bound provided (subtree_properties (fdt_root tree))"
    and "templates = map (template_id digest) (templates_of (subtree_properties (fdt_root tree)))"
proof -
  let ?ts = "templates_of (subtree_properties (fdt_root tree))"
  show eq: "templates = map (template_id digest) ?ts" using collect_Inr(1) [OF col] by simp
  have "sorted_wrt (<) (map fp_offset (subtree_properties (fdt_root tree)))"
    using fw_parse_Inr(3) [OF tree] by (simp add: parsed_span_def)
  then have "distinct (map fp_offset (subtree_properties (fdt_root tree)))"
    by (simp add: strict_sorted_iff)
  then have "distinct (map fp_offset ?ts)"
    unfolding templates_of_def by (rule distinct_map_filter)
  moreover have "map fp_offset ?ts = map property_offset templates"
    by (simp add: eq template_id_def)
  ultimately have "distinct (map property_offset templates)" by simp
  then show "distinct templates" by (simp add: distinct_map)
  note B = check_bindings_Inr [OF chk]
  show "distinct (map pv_property provided)" using B by simp
  show "all_bound provided (subtree_properties (fdt_root tree))"
    using bound by (simp add: all_bound_def eq template_id_def)
  show "set templates = set (map pv_property provided)"
  proof
    show "set (map pv_property provided) \<subseteq> set templates" using B by auto
    show "set templates \<subseteq> set (map pv_property provided)"
    proof
      fix i assume i: "i \<in> set templates"
      then obtain b where b: "b \<in> set provided" "property_offset (pv_property b) = property_offset i"
        using bound replacement_Some by blast
      have "source_sha256 i = digest" using i by (auto simp: eq template_id_def)
      then have "pv_property b = i" using B b by (intro property_id.equality) auto
      then show "i \<in> set (map pv_property provided)" using b by auto
    qed
  qed
qed

text \<open>No step before the writing reports a panic.\<close>

lemma collect_properties_no_panic: "collect_properties R digest ps ids \<noteq> Inl Rt_Panic"
  by (induction ps arbitrary: ids) auto

lemma collect_no_panic:
  "collect_templates R digest n ids \<noteq> Inl Rt_Panic"
  "collect_children R digest cs ids \<noteq> Inl Rt_Panic"
  by (induction n and cs arbitrary: ids and ids rule: subtree_properties_children_properties.induct)
    (auto simp: result_iff collect_properties_no_panic)

lemma check_bindings_no_panic: "check_bindings digest templates earlier bs \<noteq> Inl Rt_Panic"
  by (induction bs arbitrary: earlier) auto

lemma property_wire_bytes_no_panic: "property_wire_bytes w \<noteq> Inl Rt_Panic"
  by (auto simp: property_wire_bytes_def result_iff Let_def)

lemma measure_fw_properties_no_panic: "measure_fw_properties ps provided tot \<noteq> Inl Rt_Panic"
  by (induction ps arbitrary: tot)
    (auto simp: result_iff property_wire_bytes_no_panic split: property_kind.splits)

lemma measure_no_panic:
  "measure_tree n provided tot \<noteq> Inl Rt_Panic"
  "measure_trees cs provided tot \<noteq> Inl Rt_Panic"
  by (induction n and cs arbitrary: tot and tot rule: subtree_properties_children_properties.induct)
    (auto simp: result_iff measure_fw_properties_no_panic)

lemma applied_bindings_no_panic: "applied_bindings sha256 R bs \<noteq> Inl Rt_Panic"
  by (induction bs) (auto simp: result_iff)

lemmas no_panic = collect_no_panic check_bindings_no_panic measure_no_panic applied_bindings_no_panic

lemma prepare_panic:
  assumes "prepare sha256 R source provided maximum_output = Inl Rt_Panic"
  obtains tree templates where "fw_parse R source = Inr tree"
    and "collect_templates R (sha256 source) (fdt_root tree) [] = Inr templates"
    and "check_bindings (sha256 source) templates [] provided = Inr ()"
    and "\<forall>i \<in> set templates. replacement (property_offset i) provided \<noteq> None"
    and "write_tree (fdt_root tree) provided [] = None"
  using assms
  by (auto simp: prepare_def result_iff Let_def filter_empty_conv no_panic split: if_splits)

section \<open>Properties\<close>

text \<open>
  A concrete run: a root with its name and one template named \<^verbatim>\<open>x\<close>, bound to one byte.
  The digest is a constant function.
\<close>

definition sample_source :: byte_string where
  "sample_source =
     [2, 0, 0, 0, 0, 0, 0, 0] @ (name_key @ replicate 28 0) @ [1, 0, 0, 0] @ [0, 0, 0, 0] @
     (0x78 # replicate 31 0) @ [0, 0, 0, 0x80]"

definition sample_provided :: "provided_value list" where
  "sample_provided =
     [\<lparr>pv_property = \<lparr>source_sha256 = [], property_offset = 48\<rparr>, pv_provider = [0x70],
       pv_value = [5]\<rparr>]"

lemma sample_source_reads:
  "fw_word sample_source 0 = Inr (2, 4)"
  "fw_word sample_source 4 = Inr (0, 8)"
  "fw_take sample_source 8 32 = Inr (name_key @ replicate 28 0, 40)"
  "fw_word sample_source 40 = Inr (1, 44)"
  "fw_take sample_source 44 (Suc 0) = Inr ([0], 45)"
  "fw_take sample_source 45 3 = Inr ([0, 0, 0], 48)"
  "fw_take sample_source 48 32 = Inr (0x78 # replicate 31 0, 80)"
  "fw_word sample_source 80 = Inr (0x80000000, 84)"
  "fw_take sample_source 84 0 = Inr ([], 84)"
  "length sample_source = 84"
  by (simp_all add: fw_word_def fw_take_def usize_add_def get_range_def sample_source_def
      from_le_bytes_def name_key_def)

definition sample_firmware_root :: firmware_node where
  "sample_firmware_root = FirmwareNode 0
     [\<lparr>fp_offset = 8, fp_raw_name = name_key @ replicate 28 0, fp_name = name_key,
       fp_raw_length = 1, fp_value = [0], fp_padding = [0, 0, 0]\<rparr>,
      \<lparr>fp_offset = 48, fp_raw_name = 0x78 # replicate 31 0, fp_name = [0x78],
       fp_raw_length = 0x80000000, fp_value = [], fp_padding = []\<rparr>] []"

lemma position_zero_name_key: "position_zero (name_key @ replicate 28 0) = Some 4"
  by (simp add: name_key_def)

lemma sample_source_properties:
  "fw_properties_loop sample_source (Suc (Suc 0)) 8 st =
     Inr (fn_properties sample_firmware_root, 84, st\<lparr>fw_templates := fw_templates st + 1\<rparr>)"
  by (simp add: sample_source_reads TEMPLATE_FLAG_def Let_def word_le_nat_alt
      position_zero_name_key sample_firmware_root_def) (simp add: name_key_def)

lemmas sample_source_properties2 = sample_source_properties [folded numeral_2_eq_2]

lemma sample_source_parses:
  "\<exists>st. fw_parse (\<lambda>_. True) sample_source =
     Inr \<lparr>fdt_source = sample_source, fdt_root = sample_firmware_root, fdt_statistics = st\<rparr>"
  by (simp add: fw_parse_def fw_node.simps sample_source_reads usize_add_def usize_mul_def
      statistics_default_def firmware_limits Let_def sample_source_properties2)
    (simp add: sample_firmware_root_def)

definition sample_runtime_root :: flat_node where
  "sample_runtime_root = FlatNode [] [FlatProperty [0x78] [5]] []"

lemma sample_runtime_bytes:
  "write_tree sample_firmware_root sample_provided [] = Some (enc_node sample_runtime_root)"
  by (simp add: sample_firmware_root_def sample_provided_def sample_runtime_root_def
      fp_kind_def TEMPLATE_FLAG_def replacement_def enc_property_def Let_def resize_zero_def
      name_key_def to_le_bytes_def) (simp add: numeral_3_eq_3)

lemma sample_runtime_valid: "validate (enc_node sample_runtime_root) = Inr ()"
proof -
  have "\<exists>b. measure_node sample_runtime_root 0 budget_default = Inr b"
    by (simp add: sample_runtime_root_def budget_default_def budget_node_def
        usize_add_def add_bytes_def flat_dt_limits check_node_name_def check_property_name_def
        printable_def property_size_def round4_def name_key_def Let_def word_le_nat_alt)
  then show ?thesis using validate_enc_node by blast
qed

lemma sample_measure: "measure_tree sample_firmware_root sample_provided 0 = Inr 88"
proof -
  have "property_wire_bytes 1 = Inr 40" by (simp add: property_wire_bytes_Inr round4_def)
  then show ?thesis
    by (simp add: sample_firmware_root_def sample_provided_def fp_kind_def TEMPLATE_FLAG_def
        replacement_def checked_add_def)
qed

lemma sample_prepares: "\<exists>m. prepare (\<lambda>_. []) (\<lambda>_. True) sample_source sample_provided 4096 = Inr m"
proof -
  obtain st where p: "fw_parse (\<lambda>_. True) sample_source =
     Inr \<lparr>fdt_source = sample_source, fdt_root = sample_firmware_root, fdt_statistics = st\<rparr>"
    using sample_source_parses by blast
  have c: "collect_templates (\<lambda>_. True) [] sample_firmware_root [] =
      Inr [\<lparr>source_sha256 = [], property_offset = 48\<rparr>]"
    by (simp add: sample_firmware_root_def fp_kind_def TEMPLATE_FLAG_def name_key_def
        MAX_BINDINGS_def flat_dt_limits)
  have b: "check_bindings [] [\<lparr>source_sha256 = [], property_offset = 48\<rparr>] [] sample_provided = Inr ()"
    by (simp add: sample_provided_def valid_provider_def is_ascii_alphanumeric_def word_le_nat_alt)
  have r: "replacement 48 sample_provided \<noteq> None"
    by (simp add: sample_provided_def replacement_def)
  show ?thesis
    using r by (simp add: prepare_def p c b sample_measure sample_runtime_bytes sample_runtime_valid
        MAX_OUTPUT_BYTES_def MAX_BINDINGS_def flat_dt_limits Let_def word_less_nat_alt)
      (simp add: sample_provided_def)
qed

text \<open>C4. A prepared tree is the source tree with the supplied values in place of its templates:
  its bytes are the rendering of that tree, they pass the runtime validator, they are no
  longer than the caller allowed, and the buffer reserved before writing had exactly their
  length.\<close>

theorem prepare_output:
  assumes "prepare sha256 R source provided maximum_output = Inr m" and "values_fit provided"
  shows "\<exists>tree. fw_parse R source = Inr tree \<and>
    mt_bytes m = render_node (bind_tree provided (fdt_root tree)) \<and>
    validate (mt_bytes m) = Inr () \<and> length (mt_bytes m) \<le> maximum_output \<and>
    R (length (mt_bytes m))"
proof -
  obtain tree templates len where tree: "fw_parse R source = Inr tree"
    and col: "collect_templates R (sha256 source) (fdt_root tree) [] = Inr templates"
    and chk: "check_bindings (sha256 source) templates [] provided = Inr ()"
    and bound: "\<forall>i \<in> set templates. replacement (property_offset i) provided \<noteq> None"
    and len: "measure_tree (fdt_root tree) provided 0 = Inr len"
    and small: "len \<le> of_nat maximum_output" "maximum_output \<le> MAX_OUTPUT_BYTES"
    and bytes: "write_tree (fdt_root tree) provided [] = Some (mt_bytes m)"
    and ok: "validate (mt_bytes m) = Inr ()" "R (unat len)"
    using assms(1) by (rule prepare_Inr)
  note all = templates_are_bindings(4) [OF tree col chk bound]
  have out: "mt_bytes m = render_node (bind_tree provided (fdt_root tree))"
    using write_tree_render(1) [OF all, of "[]"] bytes by simp
  have "length source < 2 ^ 64" using fw_parse_Inr(2) [OF tree] by (simp add: firmware_limits)
  moreover have "\<forall>p \<in> set (subtree_properties (fdt_root tree)). property_ok source p"
    using fw_parse_Inr(3) [OF tree] unfolding parsed_span_def by blast
  ultimately have "unat len = 0 + length (render_node (bind_tree provided (fdt_root tree)))"
    using measure_tree_render(1) [OF _ assms(2) _ all len] by simp
  then have "unat len = length (mt_bytes m)" by (simp add: out)
  moreover have "unat (of_nat maximum_output :: u64) = maximum_output"
    using small(2) by (simp add: unat_of_nat MAX_OUTPUT_BYTES_def flat_dt_limits)
  ultimately show ?thesis using tree out ok small(1) by (auto simp: word_nat)
qed

theorem prepare_output_witness:
  "\<exists>m. prepare (\<lambda>_. []) (\<lambda>_. True) sample_source sample_provided 4096 = Inr m \<and>
     validate (mt_bytes m) = Inr () \<and> length (mt_bytes m) \<le> 4096"
proof -
  have "values_fit sample_provided" by (simp add: values_fit_def sample_provided_def)
  then show ?thesis using sample_prepares prepare_output by blast
qed

text \<open>The bindings of a prepared tree are exactly its templates: every template has one
  binding, every binding names one template, and the reported replacement count is the
  number of both.\<close>

theorem prepare_bindings:
  assumes "prepare sha256 R source provided maximum_output = Inr m"
  shows "\<exists>tree. fw_parse R source = Inr tree \<and>
    set (map ab_property (mt_bindings m)) =
      set (map (template_id (sha256 source)) (templates_of (subtree_properties (fdt_root tree)))) \<and>
    distinct (map ab_property (mt_bindings m)) \<and>
    mt_replacement_count m = length (mt_bindings m) \<and>
    mt_replacement_count m = length (templates_of (subtree_properties (fdt_root tree)))"
proof -
  obtain tree templates where tree: "fw_parse R source = Inr tree"
    and col: "collect_templates R (sha256 source) (fdt_root tree) [] = Inr templates"
    and chk: "check_bindings (sha256 source) templates [] provided = Inr ()"
    and bound: "\<forall>i \<in> set templates. replacement (property_offset i) provided \<noteq> None"
    and count: "mt_replacement_count m = length templates"
    and props: "map ab_property (mt_bindings m) = map pv_property provided"
    using assms by (rule prepare_Inr)
  note T = templates_are_bindings [OF tree col chk bound]
  have "length templates = length (map pv_property provided)"
    using distinct_card [OF T(2)] distinct_card [OF T(3)] T(1) by simp
  then have "length templates = length (mt_bindings m)"
    using arg_cong [OF props, of length] by simp
  then show ?thesis using tree T props count by auto
qed

theorem prepare_bindings_witness:
  "\<exists>m. prepare (\<lambda>_. []) (\<lambda>_. True) sample_source sample_provided 4096 = Inr m \<and>
     mt_replacement_count m = length (mt_bindings m)"
  using sample_prepares prepare_bindings by blast

text \<open>
  The \<^verbatim>\<open>expect\<close> in \<^verbatim>\<open>write\<close> never fires: by the time the tree is written every template
  was found to have a binding.
\<close>

theorem prepare_never_panics: "prepare sha256 R source provided maximum_output \<noteq> Inl Rt_Panic"
proof
  assume "prepare sha256 R source provided maximum_output = Inl Rt_Panic"
  then obtain tree templates where tree: "fw_parse R source = Inr tree"
    and col: "collect_templates R (sha256 source) (fdt_root tree) [] = Inr templates"
    and chk: "check_bindings (sha256 source) templates [] provided = Inr ()"
    and bound: "\<forall>i \<in> set templates. replacement (property_offset i) provided \<noteq> None"
    and w: "write_tree (fdt_root tree) provided [] = None"
    by (rule prepare_panic)
  note all = templates_are_bindings(4) [OF tree col chk bound]
  show False using write_tree_render(1) [OF all, of "[]"] w by simp
qed


text \<open>Wire measurement: a value below the template flag takes its 36-byte header and the
  value rounded up to a word; every longer one is refused, without wrapping.\<close>

theorem property_wire_bytes_exact:
  "case property_wire_bytes w of
     Inr wire \<Rightarrow> unat w < 2 ^ 31 \<and> unat wire = 36 + round4 (unat w)
   | Inl e \<Rightarrow> 2 ^ 31 \<le> unat w \<and> (e = Rt_Limits \<or> e = Rt_ArithmeticOverflow)"
proof (cases "property_wire_bytes w")
  case (Inr wire)
  have "unat w < 2 ^ 31 \<and> unat wire = 36 + round4 (unat w)"
    using Inr by (rule property_wire_bytes_Inr [THEN iffD1])
  then show ?thesis by (simp only: Inr sum.case)
next
  case (Inl e)
  have "2 ^ 31 \<le> unat w"
  proof (rule ccontr)
    assume "\<not> 2 ^ 31 \<le> unat w"
    then have small: "unat w < 2 ^ 31" by simp
    have "round4 (unat w) \<le> unat w + 3" by (simp add: round4_eq)
    then have "unat (of_nat (36 + round4 (unat w)) :: u64) = 36 + round4 (unat w)"
      using small by (simp only: unat_of_nat) simp
    then have "property_wire_bytes w = Inr (of_nat (36 + round4 (unat w)))"
      using small property_wire_bytes_Inr by blast
    then show False using Inl by simp
  qed
  moreover have "e = Rt_Limits \<or> e = Rt_ArithmeticOverflow"
    using Inl by (auto simp: property_wire_bytes_def result_iff Let_def split: if_splits)
  ultimately show ?thesis by (simp only: Inl sum.case)
qed

text \<open>Copying into declared memory is all or nothing. On an error every byte of RAM is as it
  was; on success the output is exactly at the reservation's address, lies within the
  reservation and within RAM, and every byte outside it is unchanged.\<close>

theorem write_reserved_frame:
  assumes "write_reserved m ram base r = (res, ram')" and "length ram < 2 ^ 64"
  shows "case res of
      Inl e \<Rightarrow> ram' = ram
    | Inr _ \<Rightarrow> (\<exists>off. unat (dr_address r) = unat base + off \<and>
        length (mt_bytes m) mod 2 ^ 64 \<le> unat (dr_capacity r) \<and>
        off + length (mt_bytes m) \<le> length ram \<and> length ram' = length ram \<and>
        take (length (mt_bytes m)) (drop off ram') = mt_bytes m \<and>
        (\<forall>i < length ram. i < off \<or> off + length (mt_bytes m) \<le> i \<longrightarrow> ram' ! i = ram ! i))"
proof (cases res)
  case (Inl e)
  then show ?thesis using assms(1) by (auto simp: write_reserved_def Let_def split: sum.splits)
next
  case (Inr u)
  obtain off observed last where obs: "ram_extent_from_backing base ram = Inr observed"
    and base: "ram_base observed \<le> dr_address r"
    and cap: "of_nat (length (mt_bytes m)) \<le> dr_capacity r"
    and off: "off = unat (dr_address r - base)"
    and fits: "off + length (mt_bytes m) \<le> length ram"
    and ram': "ram' = put_bytes ram off (mt_bytes m)"
    using assms(1) Inr
    by (auto simp: write_reserved_def Let_def result_iff usize_add_Some not_less split: sum.splits)
  have "base \<le> dr_address r"
    using obs base by (auto simp: ram_extent_from_backing_def result_iff)
  then have "unat (dr_address r) = unat base + off"
    by (simp add: off unat_sub_exact word_le_nat_alt)
  moreover have "length (mt_bytes m) mod 2 ^ 64 \<le> unat (dr_capacity r)"
    using cap by (simp add: word_le_nat_alt unat_of_nat)
  ultimately show ?thesis
    using fits by (auto simp: Inr ram' take_drop_put_bytes_same nth_put_bytes)
qed

theorem write_reserved_frame_witness:
  "\<exists>off. off = 4 \<and> snd (write_reserved
      \<lparr>mt_source = [], mt_bytes = [7], mt_source_sha256 = [], mt_replacement_count = 0,
       mt_bindings = []\<rparr> [1, 2, 3, 4, 5, 6] 0x1000 \<lparr>dr_address = 0x1004, dr_capacity = 2\<rparr>) ! off = 7"
proof -
  let ?m = "\<lparr>mt_source = [], mt_bytes = [7], mt_source_sha256 = [], mt_replacement_count = 0,
       mt_bindings = []\<rparr> :: materialized_tree"
  let ?r = "\<lparr>dr_address = 0x1004, dr_capacity = 2\<rparr>"
  have run: "write_reserved ?m [1, 2, 3, 4, 5, 6] 0x1000 ?r = (Inr (), [1, 2, 3, 4, 7, 6])"
    by (simp add: write_reserved_def ram_extent_from_backing_def u64_of_usize_def checked_add_def
        ram_end_def usize_add_def put_bytes_def word_less_nat_alt)
  show ?thesis using write_reserved_frame [OF run] by (simp add: run)
qed

end
