(* ===== verification/Guest_Memory.thy ===== *)
theory Guest_Memory
  imports Contracts Runtime_Dt
begin

text \<open>
  Model of \<^verbatim>\<open>src/guest_memory.rs\<close>: the ledger of guest reservations over one exclusive
  backing. A \<^verbatim>\<open>&mut self\<close> method is a function from the ledger to its result and the ledger
  it leaves, with the assignments in the order of the source. The process-wide counter
  \<^verbatim>\<open>NEXT_OWNER\<close> is passed in and out of the constructors. The \<^verbatim>\<open>expect\<close> and the slice
  indexing that could panic give \<open>Gm_Panic\<close>.
\<close>

section \<open>Data\<close>

definition MAX_RESERVATIONS :: nat where "MAX_RESERVATIONS = 64"
definition NEXT_OWNER :: u64 where "NEXT_OWNER = 1"

datatype gm_error =
    Gm_EmptyBacking
  | Gm_ArithmeticOverflow
  | Gm_IdentityExhausted
  | Gm_GenerationExhausted
  | Gm_InvalidSize
  | Gm_InvalidAlignment
  | Gm_UnalignedAddress
  | Gm_OutsideAperture
  | Gm_Overlap
  | Gm_ReservationLimit
  | Gm_NoSpace
  | Gm_ForeignOwner
  | Gm_ReleasedReservation
  | Gm_StaleSnapshot
  | Gm_WrongPurpose
  | Gm_DestinationCapacity
  | Gm_Panic \<comment> \<open>an \<^verbatim>\<open>expect\<close> or a slice index that fails; not a value of the source's enum\<close>

datatype purpose =
  KernelImage | BootArguments | RuntimeDeviceTree | Stack | TranslationTables | ProviderData

record extent =
  ext_address :: u64
  ext_bytes :: u64

text \<open>\<^verbatim>\<open>Extent::end\<close>: a plain sum, exact for every extent of a well-formed ledger.\<close>

definition ext_end :: "extent \<Rightarrow> u64" where
  "ext_end e = ext_address e + ext_bytes e"

record reservation_token =
  token_owner :: u64
  token_serial :: u64

record snapshot_stamp =
  stamp_owner :: u64
  stamp_generation :: u64

record reservation_record =
  rec_token :: reservation_token
  rec_extent :: extent
  rec_alignment :: u64
  rec_purpose :: purpose

record allocation_snapshot =
  snap_aperture :: extent
  snap_stamp :: snapshot_stamp
  snap_slots :: "reservation_record option list"

definition snap_generation :: "allocation_snapshot \<Rightarrow> u64" where
  "snap_generation s = stamp_generation (snap_stamp s)"

definition snap_records :: "allocation_snapshot \<Rightarrow> reservation_record list" where
  "snap_records s = flatten (snap_slots s)"

datatype backing = Owned byte_string | Borrowed byte_string

fun backing_bytes :: "backing \<Rightarrow> byte_string" where
  "backing_bytes (Owned bytes) = bytes"
| "backing_bytes (Borrowed bytes) = bytes"

text \<open>What \<^verbatim>\<open>bytes_mut\<close> lets its caller do: replace the contents.\<close>

fun backing_update :: "backing \<Rightarrow> byte_string \<Rightarrow> backing" where
  "backing_update (Owned _) bytes = Owned bytes"
| "backing_update (Borrowed _) bytes = Borrowed bytes"

record guest_memory =
  gm_backing :: backing
  gm_aperture :: extent
  gm_owner :: u64
  gm_generation :: u64
  gm_reservations :: "reservation_record option list"

record prepared_device_tree =
  prep_tree :: materialized_tree
  prep_stamp :: snapshot_stamp
  prep_destination :: reservation_token

definition prep_bytes :: "prepared_device_tree \<Rightarrow> byte_string" where
  "prep_bytes p = mt_bytes (prep_tree p)"

definition prep_source_sha256 :: "prepared_device_tree \<Rightarrow> byte_string" where
  "prep_source_sha256 p = mt_source_sha256 (prep_tree p)"

section \<open>Operations\<close>

definition mint_owner :: "u64 \<Rightarrow> (gm_error + u64) \<times> u64" where
  "mint_owner counter =
     (case checked_add counter 1 of
        None \<Rightarrow> (Inl Gm_IdentityExhausted, counter)
      | Some following \<Rightarrow> (Inr counter, following))"

definition validate_request :: "u64 \<Rightarrow> u64 \<Rightarrow> gm_error + unit" where
  "validate_request bytes alignment =
     (if bytes = 0 then Inl Gm_InvalidSize
      else if \<not> is_power_of_two alignment then Inl Gm_InvalidAlignment
      else Inr ())"

definition align_up :: "u64 \<Rightarrow> u64 \<Rightarrow> gm_error + u64" where
  "align_up address alignment =
     ok_or (map_option (\<lambda>v. v AND NOT (alignment - 1)) (checked_add address (alignment - 1)))
       Gm_ArithmeticOverflow"

definition gm_new :: "u64 \<Rightarrow> backing \<Rightarrow> u64 \<Rightarrow> (gm_error + guest_memory) \<times> u64" where
  "gm_new base backing counter =
     or_return (ok_or (u64_of_usize (length (backing_bytes backing))) Gm_ArithmeticOverflow) counter
       (\<lambda>bytes.
     if bytes = 0 then (Inl Gm_EmptyBacking, counter)
     else or_return (ok_or (checked_add base bytes) Gm_ArithmeticOverflow) counter (\<lambda>_.
     case mint_owner counter of (minted, counter) \<Rightarrow>
     or_return minted counter (\<lambda>owner.
     (Inr \<lparr> gm_backing = backing,
            gm_aperture = \<lparr> ext_address = base, ext_bytes = bytes \<rparr>,
            gm_owner = owner, gm_generation = 0,
            gm_reservations = replicate MAX_RESERVATIONS None \<rparr>, counter))))"

definition from_owned :: "u64 \<Rightarrow> byte_string \<Rightarrow> u64 \<Rightarrow> (gm_error + guest_memory) \<times> u64" where
  "from_owned base bytes = gm_new base (Owned bytes)"

definition from_borrowed :: "u64 \<Rightarrow> byte_string \<Rightarrow> u64 \<Rightarrow> (gm_error + guest_memory) \<times> u64" where
  "from_borrowed base bytes = gm_new base (Borrowed bytes)"

definition snapshot :: "guest_memory \<Rightarrow> allocation_snapshot" where
  "snapshot m =
     \<lparr> snap_aperture = gm_aperture m,
       snap_stamp = \<lparr> stamp_owner = gm_owner m, stamp_generation = gm_generation m \<rparr>,
       snap_slots = gm_reservations m \<rparr>"

definition next_generation :: "guest_memory \<Rightarrow> gm_error + u64" where
  "next_generation m = ok_or (checked_add (gm_generation m) 1) Gm_GenerationExhausted"

definition slot :: "guest_memory \<Rightarrow> reservation_token \<Rightarrow> gm_error + nat" where
  "slot m token =
     (if token_owner token \<noteq> gm_owner m then Inl Gm_ForeignOwner
      else ok_or (position_where
        (\<lambda>r. case r of None \<Rightarrow> False | Some r \<Rightarrow> rec_token r = token) (gm_reservations m))
        Gm_ReleasedReservation)"

definition live_record :: "guest_memory \<Rightarrow> reservation_token \<Rightarrow> gm_error + reservation_record" where
  "live_record m token =
     and_then (slot m token) (\<lambda>i. ok_or (gm_reservations m ! i) Gm_Panic)"

definition validate_stamp :: "guest_memory \<Rightarrow> snapshot_stamp \<Rightarrow> gm_error + unit" where
  "validate_stamp m stamp =
     (if stamp_owner stamp \<noteq> gm_owner m then Inl Gm_ForeignOwner
      else if stamp_generation stamp \<noteq> gm_generation m then Inl Gm_StaleSnapshot
      else Inr ())"

text \<open>The overlap test that \<^verbatim>\<open>reserve_at\<close> and \<^verbatim>\<open>allocate\<close> write inline.\<close>

definition extents_overlap :: "u64 \<Rightarrow> u64 \<Rightarrow> u64 \<Rightarrow> u64 \<Rightarrow> bool" where
  "extents_overlap start stop other_start other_stop \<longleftrightarrow>
     start < other_stop \<and> other_start < stop"

definition reserve_at ::
  "guest_memory \<Rightarrow> u64 \<Rightarrow> u64 \<Rightarrow> u64 \<Rightarrow> purpose \<Rightarrow>
   (gm_error + reservation_token) \<times> guest_memory" where
  "reserve_at m address bytes alignment purpose =
     or_return (validate_request bytes alignment) m (\<lambda>_.
     if address mod alignment \<noteq> 0 then (Inl Gm_UnalignedAddress, m)
     else or_return (ok_or (checked_add address bytes) Gm_ArithmeticOverflow) m (\<lambda>stop.
     if address < ext_address (gm_aperture m) \<or> ext_end (gm_aperture m) < stop
     then (Inl Gm_OutsideAperture, m)
     else if list_ex (\<lambda>r. extents_overlap address stop
                 (ext_address (rec_extent r)) (ext_end (rec_extent r)))
               (flatten (gm_reservations m))
     then (Inl Gm_Overlap, m)
     else or_return (ok_or (position_where (\<lambda>r. r = None) (gm_reservations m))
            Gm_ReservationLimit) m (\<lambda>free.
     or_return (next_generation m) m (\<lambda>generation.
     let token = \<lparr> token_owner = gm_owner m, token_serial = generation \<rparr>;
         r = \<lparr> rec_token = token,
               rec_extent = \<lparr> ext_address = address, ext_bytes = bytes \<rparr>,
               rec_alignment = alignment, rec_purpose = purpose \<rparr>;
         m = m\<lparr> gm_reservations := (gm_reservations m)[free := Some r] \<rparr>;
         m = m\<lparr> gm_generation := generation \<rparr>
     in (Inr token, m)))))"

text \<open>\<^verbatim>\<open>iter().flatten().filter(..).map(|r| r.extent.end()).max()\<close>.\<close>

definition blocking_end :: "guest_memory \<Rightarrow> u64 \<Rightarrow> u64 \<Rightarrow> u64 option" where
  "blocking_end m candidate stop =
     (case map (\<lambda>r. ext_end (rec_extent r))
        (filter (\<lambda>r. extents_overlap candidate stop
             (ext_address (rec_extent r)) (ext_end (rec_extent r)))
           (flatten (gm_reservations m))) of
        [] \<Rightarrow> None
      | e # es \<Rightarrow> Some (fold max es e))"

text \<open>The loop of \<^verbatim>\<open>allocate\<close>; a loop that never ends is \<open>None\<close>.\<close>

partial_function (option) allocate_loop ::
  "guest_memory \<Rightarrow> u64 \<Rightarrow> u64 \<Rightarrow> purpose \<Rightarrow> u64 \<Rightarrow>
   ((gm_error + reservation_token) \<times> guest_memory) option" where
  "allocate_loop m bytes alignment purpose candidate =
     (case checked_add candidate bytes of
        None \<Rightarrow> Some (Inl Gm_ArithmeticOverflow, m)
      | Some stop \<Rightarrow>
          if ext_end (gm_aperture m) < stop then Some (Inl Gm_NoSpace, m)
          else (case blocking_end m candidate stop of
                  Some next_free \<Rightarrow>
                    (case align_up next_free alignment of
                       Inl e \<Rightarrow> Some (Inl e, m)
                     | Inr candidate \<Rightarrow> allocate_loop m bytes alignment purpose candidate)
                | None \<Rightarrow> Some (reserve_at m candidate bytes alignment purpose)))"

definition allocate ::
  "guest_memory \<Rightarrow> u64 \<Rightarrow> u64 \<Rightarrow> purpose \<Rightarrow>
   ((gm_error + reservation_token) \<times> guest_memory) option" where
  "allocate m bytes alignment purpose =
     (case validate_request bytes alignment of
        Inl e \<Rightarrow> Some (Inl e, m)
      | Inr _ \<Rightarrow>
          if list_all (\<lambda>r. r \<noteq> None) (gm_reservations m) then Some (Inl Gm_ReservationLimit, m)
          else (case align_up (ext_address (gm_aperture m)) alignment of
                  Inl e \<Rightarrow> Some (Inl e, m)
                | Inr candidate \<Rightarrow> allocate_loop m bytes alignment purpose candidate))"

definition release :: "guest_memory \<Rightarrow> reservation_token \<Rightarrow> (gm_error + unit) \<times> guest_memory" where
  "release m token =
     or_return (slot m token) m (\<lambda>i.
     or_return (next_generation m) m (\<lambda>generation.
     let m = m\<lparr> gm_reservations := (gm_reservations m)[i := None] \<rparr>;
         m = m\<lparr> gm_generation := generation \<rparr>
     in (Inr (), m)))"

definition gm_range ::
  "guest_memory \<Rightarrow> reservation_record \<Rightarrow> u64 \<Rightarrow> nat \<Rightarrow> gm_error + (nat \<times> nat)" where
  "gm_range m r offset count =
     and_then (ok_or (u64_of_usize count) Gm_ArithmeticOverflow) (\<lambda>bytes.
     and_then (ok_or (checked_add offset bytes) Gm_ArithmeticOverflow) (\<lambda>last.
     if ext_bytes (rec_extent r) < last then Inl Gm_DestinationCapacity
     else and_then (ok_or (case checked_sub (ext_address (rec_extent r)) (ext_address (gm_aperture m)) of
                         None \<Rightarrow> None | Some relative \<Rightarrow> checked_add relative offset)
                    Gm_ArithmeticOverflow) (\<lambda>start.
     and_then (ok_or (checked_add start bytes) Gm_ArithmeticOverflow) (\<lambda>stop.
     if ext_bytes (gm_aperture m) < stop then Inl Gm_OutsideAperture
     else Inr (unat start, unat stop)))))"

definition gm_read :: "guest_memory \<Rightarrow> reservation_token \<Rightarrow> gm_error + byte_string" where
  "gm_read m token =
     and_then (live_record m token) (\<lambda>r.
     let count = unat (ext_bytes (rec_extent r)) in
     and_then (gm_range m r 0 count) (\<lambda>(start, stop).
     ok_or (get_range (backing_bytes (gm_backing m)) start stop) Gm_Panic))"

definition copy_into ::
  "guest_memory \<Rightarrow> reservation_token \<Rightarrow> u64 \<Rightarrow> byte_string \<Rightarrow> (gm_error + unit) \<times> guest_memory" where
  "copy_into m token offset bytes =
     or_return (live_record m token) m (\<lambda>r.
     if rec_purpose r = RuntimeDeviceTree then (Inl Gm_WrongPurpose, m)
     else or_return (gm_range m r offset (length bytes)) m (\<lambda>range.
     or_return (next_generation m) m (\<lambda>generation.
     or_return (ok_or (copy_from_slice (backing_bytes (gm_backing m)) range bytes) Gm_Panic) m
       (\<lambda>contents.
     let m = m\<lparr> gm_backing := backing_update (gm_backing m) contents \<rparr>;
         m = m\<lparr> gm_generation := generation \<rparr>
     in (Inr (), m)))))"

definition dt_range :: "guest_memory \<Rightarrow> reservation_token \<Rightarrow> nat \<Rightarrow> gm_error + (nat \<times> nat)" where
  "dt_range m token bytes =
     and_then (live_record m token) (\<lambda>r.
     if rec_purpose r \<noteq> RuntimeDeviceTree then Inl Gm_WrongPurpose
     else if ext_address (rec_extent r) mod 4 \<noteq> 0 then Inl Gm_UnalignedAddress
     else gm_range m r 0 bytes)"

definition bind_device_tree ::
  "guest_memory \<Rightarrow> snapshot_stamp \<Rightarrow> reservation_token \<Rightarrow> materialized_tree \<Rightarrow>
   gm_error + prepared_device_tree" where
  "bind_device_tree m stamp destination tree =
     and_then (validate_stamp m stamp) (\<lambda>_.
     and_then (dt_range m destination (length (mt_bytes tree))) (\<lambda>_.
     Inr \<lparr> prep_tree = tree, prep_stamp = stamp, prep_destination = destination \<rparr>))"

definition commit_device_tree ::
  "guest_memory \<Rightarrow> prepared_device_tree \<Rightarrow> (gm_error + unit) \<times> guest_memory" where
  "commit_device_tree m prepared =
     or_return (validate_stamp m (prep_stamp prepared)) m (\<lambda>_.
     or_return (dt_range m (prep_destination prepared) (length (prep_bytes prepared))) m (\<lambda>range.
     or_return (next_generation m) m (\<lambda>generation.
     or_return (ok_or (copy_from_slice (backing_bytes (gm_backing m)) range (prep_bytes prepared))
                  Gm_Panic) m (\<lambda>contents.
     let m = m\<lparr> gm_backing := backing_update (gm_backing m) contents \<rparr>;
         m = m\<lparr> gm_generation := generation \<rparr>
     in (Inr (), m)))))"

text \<open>
  \<^verbatim>\<open>with_guest_memory\<close>: the closure gets the base and the bytes, and leaves its result and
  the bytes it wrote. A mutable slice keeps its length, which is a premise where it matters.
\<close>

definition with_guest_memory ::
  "guest_memory \<Rightarrow> (u64 \<Rightarrow> byte_string \<Rightarrow> 'r \<times> byte_string) \<Rightarrow> (gm_error + 'r) \<times> guest_memory" where
  "with_guest_memory m run =
     or_return (next_generation m) m (\<lambda>generation.
     let m = m\<lparr> gm_generation := generation \<rparr> in
     case run (ext_address (gm_aperture m)) (backing_bytes (gm_backing m)) of (result, contents) \<Rightarrow>
     (Inr result, m\<lparr> gm_backing := backing_update (gm_backing m) contents \<rparr>))"

section \<open>The shared contracts\<close>

interpretation gm_interval: interval_test extents_overlap
  by unfold_locales (simp add: extents_overlap_def)

interpretation gm_rounding: page_rounding align_up Gm_ArithmeticOverflow
  by unfold_locales (simp add: align_up_def align_down_def ok_or_def split: option.splits)

end
