(* ===== verification/Guest_Memory_Proofs.thy ===== *)
theory Guest_Memory_Proofs
  imports Guest_Memory
begin

text \<open>
  The ledger of \<open>Guest_Memory\<close>: its invariant over every reachable state, first fit of
  \<open>allocate\<close>, isolation of the copies, and the lifetime of tokens and stamps.
\<close>

section \<open>The invariant\<close>

definition ext_range :: "extent \<Rightarrow> nat set" where
  "ext_range e = {unat (ext_address e) ..< unat (ext_address e) + unat (ext_bytes e)}"

definition record_ok :: "guest_memory \<Rightarrow> reservation_record \<Rightarrow> bool" where
  "record_ok m r \<longleftrightarrow>
     token_owner (rec_token r) = gm_owner m \<and>
     token_serial (rec_token r) \<le> gm_generation m \<and>
     0 < unat (ext_bytes (rec_extent r)) \<and>
     is_power_of_two (rec_alignment r) \<and>
     unat (ext_address (rec_extent r)) mod unat (rec_alignment r) = 0 \<and>
     unat (ext_address (gm_aperture m)) \<le> unat (ext_address (rec_extent r)) \<and>
     unat (ext_address (rec_extent r)) + unat (ext_bytes (rec_extent r))
       \<le> unat (ext_address (gm_aperture m)) + unat (ext_bytes (gm_aperture m))"

definition apart :: "reservation_record \<Rightarrow> reservation_record \<Rightarrow> bool" where
  "apart r s \<longleftrightarrow> rec_token r \<noteq> rec_token s \<and> ext_range (rec_extent r) \<inter> ext_range (rec_extent s) = {}"

definition ledger_ok :: "guest_memory \<Rightarrow> bool" where
  "ledger_ok m \<longleftrightarrow>
     length (gm_reservations m) = MAX_RESERVATIONS \<and>
     unat (ext_bytes (gm_aperture m)) = length (backing_bytes (gm_backing m)) \<and>
     0 < length (backing_bytes (gm_backing m)) \<and>
     unat (ext_address (gm_aperture m)) + unat (ext_bytes (gm_aperture m)) < 2 ^ 64 \<and>
     (\<forall>r. Some r \<in> set (gm_reservations m) \<longrightarrow> record_ok m r) \<and>
     (\<forall>i < length (gm_reservations m). \<forall>j < length (gm_reservations m). \<forall>r s.
        i \<noteq> j \<longrightarrow> gm_reservations m ! i = Some r \<longrightarrow> gm_reservations m ! j = Some s \<longrightarrow> apart r s)"

lemma ledger_ok_aperture:
  assumes "ledger_ok m"
  shows "unat (ext_bytes (gm_aperture m)) = length (backing_bytes (gm_backing m))"
    and "unat (ext_address (gm_aperture m)) + unat (ext_bytes (gm_aperture m)) < 2 ^ 64"
    and "unat (ext_end (gm_aperture m))
      = unat (ext_address (gm_aperture m)) + unat (ext_bytes (gm_aperture m))"
  using assms by (auto simp: ledger_ok_def ext_end_def unat_add_exact)

lemma ledger_ok_record:
  assumes "ledger_ok m" and "Some r \<in> set (gm_reservations m)"
  shows "record_ok m r"
    and "unat (ext_end (rec_extent r))
      = unat (ext_address (rec_extent r)) + unat (ext_bytes (rec_extent r))"
proof -
  show ok: "record_ok m r" using assms by (auto simp: ledger_ok_def)
  then have "unat (ext_address (rec_extent r)) + unat (ext_bytes (rec_extent r)) < 2 ^ 64"
    using ledger_ok_aperture(2) [OF assms(1)] by (auto simp: record_ok_def)
  then show "unat (ext_end (rec_extent r))
      = unat (ext_address (rec_extent r)) + unat (ext_bytes (rec_extent r))"
    by (simp add: ext_end_def unat_add_exact)
qed

text \<open>The inline overlap test is intersection of address ranges, for a live record.\<close>

lemma live_overlap:
  assumes "ledger_ok m" and "Some r \<in> set (gm_reservations m)"
    and "unat stop = unat start + n" and "0 < n"
  shows "extents_overlap start stop (ext_address (rec_extent r)) (ext_end (rec_extent r)) \<longleftrightarrow>
    {unat start ..< unat start + n} \<inter> ext_range (rec_extent r) \<noteq> {}"
proof -
  note r = ledger_ok_record [OF assms(1,2)]
  have "start < stop" using assms(3,4) by (simp add: word_nat)
  moreover have "ext_address (rec_extent r) < ext_end (rec_extent r)"
    using r by (simp add: word_nat record_ok_def)
  ultimately have "extents_overlap start stop (ext_address (rec_extent r)) (ext_end (rec_extent r)) \<longleftrightarrow>
    addresses start stop \<inter> addresses (ext_address (rec_extent r)) (ext_end (rec_extent r)) \<noteq> {}"
    by (rule gm_interval.overlaps_iff_common_address)
  then show ?thesis by (simp add: addresses_def ext_range_def assms(3) r(2))
qed

section \<open>What each operation does\<close>

lemma validate_request_Inr [result_iff]:
  "validate_request bytes alignment = Inr u \<longleftrightarrow> bytes \<noteq> 0 \<and> is_power_of_two alignment"
  by (auto simp: validate_request_def)

lemma next_generation_Inr [result_iff]:
  "next_generation m = Inr g \<longleftrightarrow> unat g = unat (gm_generation m) + 1"
  by (auto simp: next_generation_def ok_or_Inr checked_add_Some)

lemma next_generation_less: "next_generation m = Inr g \<Longrightarrow> gm_generation m < g"
  by (simp add: next_generation_Inr word_less_nat_alt)

lemma slot_Inr:
  assumes "slot m token = Inr i"
  obtains r where "i < length (gm_reservations m)" and "gm_reservations m ! i = Some r"
    and "rec_token r = token" and "token_owner token = gm_owner m"
proof -
  have own: "token_owner token = gm_owner m"
    and pos: "position_where
        (\<lambda>r. case r of None \<Rightarrow> False | Some r \<Rightarrow> rec_token r = token) (gm_reservations m) = Some i"
    using assms by (auto simp: slot_def ok_or_Inr split: if_splits)
  from position_where_Some [OF pos] show ?thesis
    using that own by (auto split: option.splits)
qed

lemma live_record_Inr:
  assumes "live_record m token = Inr r"
  obtains i where "i < length (gm_reservations m)" and "gm_reservations m ! i = Some r"
    and "rec_token r = token" and "token_owner token = gm_owner m" and "slot m token = Inr i"
proof -
  obtain i where i: "slot m token = Inr i" and r: "gm_reservations m ! i = Some r"
    using assms by (auto simp: live_record_def result_iff)
  from i show ?thesis
    by (rule slot_Inr) (use that i r in auto)
qed

lemma reserve_at_Inr:
  assumes "reserve_at m address bytes alignment purpose = (Inr token, m')"
  shows "\<exists>free generation r.
    bytes \<noteq> 0 \<and> is_power_of_two alignment \<and> address mod alignment = 0 \<and>
    unat address + unat bytes < 2 ^ 64 \<and>
    ext_address (gm_aperture m) \<le> address \<and> address + bytes \<le> ext_end (gm_aperture m) \<and>
    (\<forall>r. Some r \<in> set (gm_reservations m) \<longrightarrow>
       \<not> extents_overlap address (address + bytes)
            (ext_address (rec_extent r)) (ext_end (rec_extent r))) \<and>
    free < length (gm_reservations m) \<and> gm_reservations m ! free = None \<and>
    unat generation = unat (gm_generation m) + 1 \<and>
    token = \<lparr> token_owner = gm_owner m, token_serial = generation \<rparr> \<and>
    r = \<lparr> rec_token = token, rec_extent = \<lparr> ext_address = address, ext_bytes = bytes \<rparr>,
          rec_alignment = alignment, rec_purpose = purpose \<rparr> \<and>
    m' = m\<lparr> gm_reservations := (gm_reservations m)[free := Some r],
            gm_generation := generation \<rparr>"
proof -
  obtain stop free generation where *:
    "bytes \<noteq> 0" "is_power_of_two alignment" "address mod alignment = 0"
    "checked_add address bytes = Some stop"
    "\<not> address < ext_address (gm_aperture m)" "\<not> ext_end (gm_aperture m) < stop"
    "\<not> list_ex (\<lambda>r. extents_overlap address stop
        (ext_address (rec_extent r)) (ext_end (rec_extent r))) (flatten (gm_reservations m))"
    "position_where (\<lambda>r. r = None) (gm_reservations m) = Some free"
    "next_generation m = Inr generation"
    and tok: "token = \<lparr> token_owner = gm_owner m, token_serial = generation \<rparr>"
    and m': "m' = m\<lparr> gm_reservations := (gm_reservations m)[free := Some
          \<lparr> rec_token = token, rec_extent = \<lparr> ext_address = address, ext_bytes = bytes \<rparr>,
          rec_alignment = alignment, rec_purpose = purpose \<rparr>], gm_generation := generation \<rparr>"
    using assms unfolding reserve_at_def or_return_Inr ok_or_Inr validate_request_Inr Let_def
      if_Inl_state by (auto split: if_splits)
  have stop: "stop = address + bytes" "unat address + unat bytes < 2 ^ 64"
    using *(4) by (auto simp: checked_add_def split: if_splits)
  have "\<forall>r. Some r \<in> set (gm_reservations m) \<longrightarrow> \<not> extents_overlap address (address + bytes)
            (ext_address (rec_extent r)) (ext_end (rec_extent r))"
    using *(7) by (simp add: list_ex_iff set_flatten stop(1))
  then show ?thesis
    using * stop tok m' position_where_Some [OF *(8)]
    by (intro exI [of _ free] exI [of _ generation] exI conjI)
      (simp_all add: not_less next_generation_Inr)
qed

text \<open>An operation that gives an error leaves the ledger as it was.\<close>

lemma reserve_at_Inl: "reserve_at m address bytes alignment purpose = (Inl e, m') \<Longrightarrow> m' = m"
  by (auto simp: reserve_at_def or_return_Inl Let_def split: if_splits)

lemma release_Inl: "release m token = (Inl e, m') \<Longrightarrow> m' = m"
  by (auto simp: release_def or_return_Inl Let_def)

lemma copy_into_Inl: "copy_into m token offset bytes = (Inl e, m') \<Longrightarrow> m' = m"
  by (auto simp: copy_into_def or_return_Inl Let_def split: if_splits)

lemma commit_Inl: "commit_device_tree m prepared = (Inl e, m') \<Longrightarrow> m' = m"
  by (auto simp: commit_device_tree_def or_return_Inl Let_def)

lemma loan_Inl: "with_guest_memory m run = (Inl e, m') \<Longrightarrow> m' = m"
  by (auto simp: with_guest_memory_def or_return_Inl Let_def split: prod.splits)

lemma release_Inr:
  assumes "release m token = (Inr u, m')"
  shows "\<exists>i generation. slot m token = Inr i \<and> next_generation m = Inr generation \<and>
    m' = m\<lparr> gm_reservations := (gm_reservations m)[i := None], gm_generation := generation \<rparr>"
  using assms by (auto simp: release_def or_return_Inr Let_def)

lemma copy_into_Inr:
  assumes "copy_into m token offset bytes = (Inr u, m')"
  shows "\<exists>r start stop generation. live_record m token = Inr r \<and>
    rec_purpose r \<noteq> RuntimeDeviceTree \<and>
    gm_range m r offset (length bytes) = Inr (start, stop) \<and>
    next_generation m = Inr generation \<and>
    start \<le> stop \<and> stop \<le> length (backing_bytes (gm_backing m)) \<and> stop - start = length bytes \<and>
    m' = m\<lparr> gm_backing := backing_update (gm_backing m)
              (put_bytes (backing_bytes (gm_backing m)) start bytes),
            gm_generation := generation \<rparr>"
  using assms
  by (auto simp: copy_into_def or_return_Inr ok_or_Inr copy_from_slice_Some Let_def split: if_splits)

lemma commit_Inr:
  assumes "commit_device_tree m prepared = (Inr u, m')"
  shows "\<exists>start stop generation. validate_stamp m (prep_stamp prepared) = Inr () \<and>
    dt_range m (prep_destination prepared) (length (prep_bytes prepared)) = Inr (start, stop) \<and>
    next_generation m = Inr generation \<and>
    start \<le> stop \<and> stop \<le> length (backing_bytes (gm_backing m)) \<and>
    stop - start = length (prep_bytes prepared) \<and>
    m' = m\<lparr> gm_backing := backing_update (gm_backing m)
              (put_bytes (backing_bytes (gm_backing m)) start (prep_bytes prepared)),
            gm_generation := generation \<rparr>"
  using assms
  by (auto simp: commit_device_tree_def or_return_Inr ok_or_Inr copy_from_slice_Some Let_def)

lemma loan_Inr:
  assumes "with_guest_memory m run = (Inr result, m')"
  shows "\<exists>generation contents. next_generation m = Inr generation \<and>
    run (ext_address (gm_aperture m)) (backing_bytes (gm_backing m)) = (result, contents) \<and>
    m' = m\<lparr> gm_generation := generation, gm_backing := backing_update (gm_backing m) contents \<rparr>"
  using assms
  by (cases "run (ext_address (gm_aperture m)) (backing_bytes (gm_backing m))")
    (auto simp: with_guest_memory_def or_return_Inr Let_def)

lemma backing_bytes_update [simp]: "backing_bytes (backing_update b bytes) = bytes"
  by (cases b) auto

section \<open>Every operation keeps the invariant\<close>

lemma record_ok_cong:
  assumes "record_ok m r" and "gm_owner m' = gm_owner m" and "gm_aperture m' = gm_aperture m"
    and "gm_generation m \<le> gm_generation m'"
  shows "record_ok m' r"
  using assms by (auto simp: record_ok_def)

lemma ledger_ok_generation:
  assumes "ledger_ok m" and "gm_generation m \<le> g"
  shows "ledger_ok (m\<lparr>gm_generation := g\<rparr>)"
proof -
  have "record_ok (m\<lparr>gm_generation := g\<rparr>) r" if "Some r \<in> set (gm_reservations m)" for r
    by (rule record_ok_cong [OF ledger_ok_record(1) [OF assms(1) that]]) (use assms(2) in simp_all)
  then show ?thesis using assms(1) by (simp add: ledger_ok_def)
qed

lemma ledger_ok_bytes:
  assumes "ledger_ok m" and "gm_generation m \<le> g"
    and "length contents = length (backing_bytes (gm_backing m))"
  shows "ledger_ok (m\<lparr>gm_backing := backing_update (gm_backing m) contents, gm_generation := g\<rparr>)"
proof -
  have "record_ok (m\<lparr>gm_backing := backing_update (gm_backing m) contents, gm_generation := g\<rparr>) r"
    if "Some r \<in> set (gm_reservations m)" for r
    by (rule record_ok_cong [OF ledger_ok_record(1) [OF assms(1) that]]) (use assms(2) in simp_all)
  then show ?thesis using assms(1,3) by (simp add: ledger_ok_def)
qed

lemma ledger_ok_remove:
  assumes "ledger_ok m" and "gm_generation m \<le> g"
  shows "ledger_ok (m\<lparr>gm_reservations := (gm_reservations m)[i := None], gm_generation := g\<rparr>)"
    (is "ledger_ok ?m")
proof -
  have old: "Some r \<in> set (gm_reservations m)"
    if "Some r \<in> set ((gm_reservations m)[i := None])" for r
    using that set_update_subset_insert [of "gm_reservations m" i None] by auto
  have "record_ok ?m r" if "Some r \<in> set ((gm_reservations m)[i := None])" for r
    by (rule record_ok_cong [OF ledger_ok_record(1) [OF assms(1) old [OF that]]])
      (use assms(2) in simp_all)
  moreover have "apart r s" if "j < length (gm_reservations m)" "k < length (gm_reservations m)"
    "j \<noteq> k" "(gm_reservations m)[i := None] ! j = Some r" "(gm_reservations m)[i := None] ! k = Some s"
    for j k r s
  proof -
    have "gm_reservations m ! j = Some r \<and> gm_reservations m ! k = Some s"
      using that by (cases "i = j"; cases "i = k") simp_all
    then show ?thesis using assms(1) that(1-3) by (simp add: ledger_ok_def)
  qed
  ultimately show ?thesis using assms(1) by (simp add: ledger_ok_def)
qed

lemma apart_sym: "apart r s \<longleftrightarrow> apart s r"
  by (auto simp: apart_def)

lemma ledger_ok_insert:
  assumes ok: "ledger_ok m" and gen: "gm_generation m \<le> g"
    and new: "record_ok (m\<lparr>gm_generation := g\<rparr>) r"
    and far: "\<And>s. Some s \<in> set (gm_reservations m) \<Longrightarrow> apart r s"
  shows "ledger_ok (m\<lparr>gm_reservations := (gm_reservations m)[i := Some r], gm_generation := g\<rparr>)"
    (is "ledger_ok ?m")
proof -
  have new': "record_ok ?m r" by (rule record_ok_cong [OF new]) simp_all
  have "record_ok ?m s" if s: "Some s \<in> set ((gm_reservations m)[i := Some r])" for s
  proof (cases "Some s \<in> set (gm_reservations m)")
    case True
    show ?thesis
      by (rule record_ok_cong [OF ledger_ok_record(1) [OF ok True]]) (use gen in simp_all)
  next
    case False
    then have "s = r" using s set_update_subset_insert [of "gm_reservations m" i "Some r"] by auto
    then show ?thesis using new' by simp
  qed
  moreover have "apart s t" if "j < length (gm_reservations m)" "k < length (gm_reservations m)"
    "j \<noteq> k" "(gm_reservations m)[i := Some r] ! j = Some s" "(gm_reservations m)[i := Some r] ! k = Some t"
    for j k s t
  proof -
    have in_old: "Some x \<in> set (gm_reservations m)" if "gm_reservations m ! l = Some x"
      "l < length (gm_reservations m)" for x l
      using that by (metis nth_mem)
    show ?thesis
    proof -
      consider "i = j" | "i = k" | "i \<noteq> j" "i \<noteq> k" by blast
      then show ?thesis
      proof cases
        case 1
        then have "s = r" and "gm_reservations m ! k = Some t" using that by simp_all
        then show ?thesis using far in_old that(2) by simp
      next
        case 2
        then have "t = r" and "gm_reservations m ! j = Some s" using that by simp_all
        then show ?thesis using far [OF in_old [OF _ that(1)]] apart_sym [of s t] by simp
      next
        case 3
        then show ?thesis using ok that by (simp add: ledger_ok_def)
      qed
    qed
  qed
  ultimately show ?thesis using ok by (simp add: ledger_ok_def)
qed

lemma reserve_at_ok:
  assumes ok: "ledger_ok m" and res: "reserve_at m address bytes alignment purpose = (Inr token, m')"
  shows "ledger_ok m'"
proof -
  from reserve_at_Inr [OF res] obtain i g r where *: "bytes \<noteq> 0" "is_power_of_two alignment"
    "address mod alignment = 0" "unat address + unat bytes < 2 ^ 64"
    "ext_address (gm_aperture m) \<le> address" "address + bytes \<le> ext_end (gm_aperture m)"
    "\<And>r. Some r \<in> set (gm_reservations m) \<Longrightarrow> \<not> extents_overlap address (address + bytes)
            (ext_address (rec_extent r)) (ext_end (rec_extent r))"
    "unat g = unat (gm_generation m) + 1"
    "token = \<lparr> token_owner = gm_owner m, token_serial = g \<rparr>"
    "r = \<lparr> rec_token = token, rec_extent = \<lparr> ext_address = address, ext_bytes = bytes \<rparr>,
          rec_alignment = alignment, rec_purpose = purpose \<rparr>"
    and m': "m' = m\<lparr> gm_reservations := (gm_reservations m)[i := Some r], gm_generation := g \<rparr>"
    by (elim exE conjE) (rule that, blast+)
  have stop: "unat (address + bytes) = unat address + unat bytes"
    by (rule unat_add_exact) (use *(4) in simp)
  have pos: "0 < unat bytes" using *(1) by (simp add: unat_gt_0)
  have "unat address mod unat alignment = 0"
    using *(3) by (metis unat_0 unat_mod)
  then have new: "record_ok (m\<lparr>gm_generation := g\<rparr>) r"
    using * stop pos ledger_ok_aperture(3) [OF ok]
    by (simp add: record_ok_def word_le_nat_alt)
  have far: "apart r s" if s: "Some s \<in> set (gm_reservations m)" for s
  proof -
    have "token_serial (rec_token s) \<le> gm_generation m"
      using ledger_ok_record(1) [OF ok s] by (simp add: record_ok_def)
    then have "token_serial (rec_token r) \<noteq> token_serial (rec_token s)"
      using *(8,9,10) by (auto simp: word_le_nat_alt)
    then have "rec_token r \<noteq> rec_token s" by auto
    moreover have "ext_range (rec_extent r) \<inter> ext_range (rec_extent s) = {}"
      using *(7) [OF s] live_overlap [OF ok s stop pos] *(10) by (simp add: ext_range_def)
    ultimately show ?thesis by (simp add: apart_def)
  qed
  have "gm_generation m \<le> g" using *(8) by (simp add: word_le_nat_alt)
  from ledger_ok_insert [OF ok this new far] show ?thesis by (simp add: m')
qed

lemma release_ok: "ledger_ok m \<Longrightarrow> release m token = (Inr u, m') \<Longrightarrow> ledger_ok m'"
  by (drule release_Inr) (auto intro!: ledger_ok_remove dest!: next_generation_less)

lemma copy_into_ok: "ledger_ok m \<Longrightarrow> copy_into m token offset bytes = (Inr u, m') \<Longrightarrow> ledger_ok m'"
  by (drule copy_into_Inr) (auto intro!: ledger_ok_bytes dest!: next_generation_less)

lemma commit_ok: "ledger_ok m \<Longrightarrow> commit_device_tree m prepared = (Inr u, m') \<Longrightarrow> ledger_ok m'"
  by (drule commit_Inr) (auto intro!: ledger_ok_bytes dest!: next_generation_less)

lemma loan_ok:
  assumes "ledger_ok m" and "with_guest_memory m run = (Inr result, m')"
    and "\<And>base bytes. length (snd (run base bytes)) = length bytes"
  shows "ledger_ok m'"
proof -
  from loan_Inr [OF assms(2)] obtain g contents where g: "next_generation m = Inr g"
    and run: "run (ext_address (gm_aperture m)) (backing_bytes (gm_backing m)) = (result, contents)"
    and m': "m' = m\<lparr> gm_backing := backing_update (gm_backing m) contents, gm_generation := g \<rparr>"
    by auto
  have "gm_generation m \<le> g" using next_generation_less [OF g] by simp
  moreover have "length contents = length (backing_bytes (gm_backing m))"
    using assms(3) [of "ext_address (gm_aperture m)" "backing_bytes (gm_backing m)"] run by simp
  ultimately show ?thesis using ledger_ok_bytes [OF assms(1)] by (simp add: m')
qed

section \<open>First fit\<close>

text \<open>
  The specification of \<open>allocate\<close>: the places where a request fits, as a predicate on natural
  addresses. It does not mention the loop or the rounding of the code.
\<close>

definition fits :: "guest_memory \<Rightarrow> u64 \<Rightarrow> u64 \<Rightarrow> nat \<Rightarrow> bool" where
  "fits m bytes alignment a \<longleftrightarrow>
     a mod unat alignment = 0 \<and>
     unat (ext_address (gm_aperture m)) \<le> a \<and>
     a + unat bytes \<le> unat (ext_address (gm_aperture m)) + unat (ext_bytes (gm_aperture m)) \<and>
     (\<forall>r. Some r \<in> set (gm_reservations m) \<longrightarrow>
        {a ..< a + unat bytes} \<inter> ext_range (rec_extent r) = {})"

lemma fold_max_in: "fold max es (e :: 'a::linorder) \<in> insert e (set es)"
  by (induction es arbitrary: e) (auto simp: max_def)

lemma blocking_end_Some:
  assumes "blocking_end m candidate stop = Some e"
  obtains r where "Some r \<in> set (gm_reservations m)" and "e = ext_end (rec_extent r)"
    and "extents_overlap candidate stop (ext_address (rec_extent r)) (ext_end (rec_extent r))"
proof -
  let ?P = "\<lambda>r. extents_overlap candidate stop (ext_address (rec_extent r)) (ext_end (rec_extent r))"
  obtain f fs where es: "map (\<lambda>r. ext_end (rec_extent r)) (filter ?P (flatten (gm_reservations m))) = f # fs"
    and e: "e = fold max fs f"
    using assms by (auto simp: blocking_end_def split: list.splits)
  have "e \<in> set (f # fs)" unfolding e using fold_max_in [of fs f] by simp
  then have "e \<in> (\<lambda>r. ext_end (rec_extent r)) ` set (filter ?P (flatten (gm_reservations m)))"
    unfolding es [symmetric] by simp
  then show ?thesis using that by (auto simp: set_flatten)
qed

lemma blocking_end_None:
  "blocking_end m candidate stop = None \<longleftrightarrow>
   (\<forall>r. Some r \<in> set (gm_reservations m) \<longrightarrow>
      \<not> extents_overlap candidate stop (ext_address (rec_extent r)) (ext_end (rec_extent r)))"
proof -
  have "blocking_end m candidate stop = None \<longleftrightarrow>
    filter (\<lambda>r. extents_overlap candidate stop (ext_address (rec_extent r)) (ext_end (rec_extent r)))
      (flatten (gm_reservations m)) = []"
    by (auto simp: blocking_end_def split: list.splits)
  then show ?thesis by (simp add: filter_empty_conv set_flatten)
qed

text \<open>A place that fits is not before the end of a reservation that blocks an earlier place.\<close>

lemma fits_after_block:
  assumes ok: "ledger_ok m" and r: "Some r \<in> set (gm_reservations m)"
    and over: "extents_overlap candidate stop (ext_address (rec_extent r)) (ext_end (rec_extent r))"
    and stop: "unat stop = unat candidate + unat bytes" and pos: "bytes \<noteq> 0"
    and a: "fits m bytes alignment a" "unat candidate \<le> a"
  shows "unat (ext_end (rec_extent r)) \<le> a"
proof (rule ccontr)
  assume lt: "\<not> unat (ext_end (rec_extent r)) \<le> a"
  note e = ledger_ok_record [OF ok r]
  have "unat (ext_address (rec_extent r)) < unat candidate + unat bytes"
    using over stop by (simp add: extents_overlap_def word_less_nat_alt)
  then have "max a (unat (ext_address (rec_extent r))) \<in> {a ..< a + unat bytes} \<inter> ext_range (rec_extent r)"
    using lt a(2) pos e by (auto simp: ext_range_def unat_gt_0 record_ok_def)
  moreover have "{a ..< a + unat bytes} \<inter> ext_range (rec_extent r) = {}"
    using a(1) r by (simp add: fits_def)
  ultimately show False by (simp only: empty_iff)
qed

definition alloc_outcome ::
  "guest_memory \<Rightarrow> u64 \<Rightarrow> u64 \<Rightarrow> purpose \<Rightarrow> (gm_error + reservation_token) \<times> guest_memory \<Rightarrow> bool" where
  "alloc_outcome m bytes alignment purpose result \<longleftrightarrow>
     (case result of
        (Inr token, m') \<Rightarrow>
          (\<exists>a. live_record m' token = Inr
               \<lparr> rec_token = token, rec_extent = \<lparr> ext_address = a, ext_bytes = bytes \<rparr>,
                 rec_alignment = alignment, rec_purpose = purpose \<rparr> \<and>
             fits m bytes alignment (unat a) \<and>
             (\<forall>b. fits m bytes alignment b \<longrightarrow> unat a \<le> b))
      | (Inl e, m') \<Rightarrow>
          m' = m \<and> e \<in> {Gm_NoSpace, Gm_ArithmeticOverflow, Gm_GenerationExhausted} \<and>
          (e \<noteq> Gm_GenerationExhausted \<longrightarrow> (\<forall>b. \<not> fits m bytes alignment b)))"

text \<open>A reserved token leads to its record.\<close>

lemma live_record_new:
  assumes ok: "ledger_ok m'" and i: "i < length (gm_reservations m')"
    and r: "gm_reservations m' ! i = Some r"
  shows "live_record m' (rec_token r) = Inr r"
proof -
  have own: "token_owner (rec_token r) = gm_owner m'"
    using ledger_ok_record(1) [OF ok] i r by (metis nth_mem record_ok_def)
  let ?P = "\<lambda>x. case x of None \<Rightarrow> False | Some x \<Rightarrow> rec_token x = rec_token r"
  obtain j where j: "position_where ?P (gm_reservations m') = Some j"
    using position_where_None [of ?P "gm_reservations m'"] i r
    by (cases "position_where ?P (gm_reservations m')") (auto dest!: bspec [OF _ nth_mem [OF i]])
  from position_where_Some [OF j] obtain s where s: "j < length (gm_reservations m')"
    "gm_reservations m' ! j = Some s" "rec_token s = rec_token r"
    by (auto split: option.splits)
  have "j = i" using ok i r s unfolding ledger_ok_def apart_def by metis
  then show ?thesis using own j r by (simp add: live_record_def slot_def)
qed

lemma reserve_at_Inl_errors:
  assumes "reserve_at m address bytes alignment purpose = (Inl e, m')"
    and "bytes \<noteq> 0" and "is_power_of_two alignment" and "address mod alignment = 0"
    and "checked_add address bytes = Some stop"
    and "ext_address (gm_aperture m) \<le> address" and "stop \<le> ext_end (gm_aperture m)"
    and "blocking_end m address stop = None" and "None \<in> set (gm_reservations m)"
  shows "e = Gm_GenerationExhausted"
proof -
  have free: "position_where (\<lambda>r. r = None) (gm_reservations m) \<noteq> None"
    using assms(9) by (auto simp: position_where_None)
  have clear: "\<not> list_ex (\<lambda>r. extents_overlap address stop
        (ext_address (rec_extent r)) (ext_end (rec_extent r))) (flatten (gm_reservations m))"
    using assms(8) by (simp add: list_ex_iff set_flatten blocking_end_None)
  have valid: "validate_request bytes alignment = Inr ()"
    using assms(2,3) by (simp add: validate_request_def)
  show ?thesis
    using assms(1,4,5,6,7) free clear valid
    by (auto simp: reserve_at_def next_generation_def ok_or_def or_return_Inl Let_def not_less
        split: if_splits option.splits)
qed

lemma fits_candidate:
  assumes ok: "ledger_ok m" and stop: "checked_add candidate bytes = Some stop"
    and "bytes \<noteq> 0" and "unat candidate mod unat alignment = 0"
    and "unat (ext_address (gm_aperture m)) \<le> unat candidate"
    and inside: "stop \<le> ext_end (gm_aperture m)" and clear: "blocking_end m candidate stop = None"
  shows "fits m bytes alignment (unat candidate)"
proof -
  have stop': "unat stop = unat candidate + unat bytes" using stop by (simp add: checked_add_Some)
  have pos: "0 < unat bytes" using assms(3) by (simp add: unat_gt_0)
  have "{unat candidate ..< unat candidate + unat bytes} \<inter> ext_range (rec_extent r) = {}"
    if "Some r \<in> set (gm_reservations m)" for r
    using clear that live_overlap [OF ok that stop' pos] by (simp add: blocking_end_None)
  then show ?thesis
    using assms(4,5) inside stop' ledger_ok_aperture(3) [OF ok]
    by (simp add: fits_def word_le_nat_alt)
qed

lemma word_mod_zero: "unat (a :: u64) mod unat b = 0 \<longleftrightarrow> a mod b = 0"
  by (metis unat_eq_zero unat_mod)

text \<open>The three ways the loop ends: a sum that overflows, the end of the aperture, a clear place.\<close>

lemma no_fit_beyond:
  assumes "ledger_ok m" and "\<And>b. fits m bytes alignment b \<Longrightarrow> c \<le> b"
    and "unat (ext_address (gm_aperture m)) + unat (ext_bytes (gm_aperture m)) < c + unat bytes"
  shows "\<not> fits m bytes alignment b"
proof
  assume b: "fits m bytes alignment b"
  then show False using assms(2) [OF b] assms(3) by (simp add: fits_def)
qed

lemma alloc_outcome_error:
  assumes "\<And>b. \<not> fits m bytes alignment b" and "e = Gm_NoSpace \<or> e = Gm_ArithmeticOverflow"
  shows "alloc_outcome m bytes alignment purpose (Inl e, m)"
  using assms by (auto simp: alloc_outcome_def)

lemma reserve_at_outcome:
  assumes ok: "ledger_ok m" and pos: "bytes \<noteq> 0" and pow: "is_power_of_two alignment"
    and free: "None \<in> set (gm_reservations m)"
    and aligned: "unat candidate mod unat alignment = 0"
    and above: "unat (ext_address (gm_aperture m)) \<le> unat candidate"
    and least: "\<And>b. fits m bytes alignment b \<Longrightarrow> unat candidate \<le> b"
    and stop: "checked_add candidate bytes = Some stop"
    and inside: "stop \<le> ext_end (gm_aperture m)" and clear: "blocking_end m candidate stop = None"
  shows "alloc_outcome m bytes alignment purpose (reserve_at m candidate bytes alignment purpose)"
proof -
  obtain r m' where res: "reserve_at m candidate bytes alignment purpose = (r, m')" by fastforce
  show ?thesis
  proof (cases r)
    case (Inl e)
    have above': "ext_address (gm_aperture m) \<le> candidate"
      using above by (simp add: word_le_nat_alt)
    have "e = Gm_GenerationExhausted"
      by (rule reserve_at_Inl_errors [OF res [unfolded Inl] pos pow _ stop above' inside clear free])
        (use aligned in \<open>simp add: word_mod_zero\<close>)
    then show ?thesis
      using res Inl reserve_at_Inl [OF res [unfolded Inl]] by (simp add: alloc_outcome_def)
  next
    case (Inr token)
    note res' = res [unfolded Inr]
    from reserve_at_Inr [OF res'] obtain i g s where
      i: "i < length (gm_reservations m)"
      and s: "s = \<lparr> rec_token = token,
        rec_extent = \<lparr> ext_address = candidate, ext_bytes = bytes \<rparr>,
        rec_alignment = alignment, rec_purpose = purpose \<rparr>"
      and m': "m' = m\<lparr> gm_reservations := (gm_reservations m)[i := Some s],
        gm_generation := g \<rparr>"
      by blast
    have "live_record m' (rec_token s) = Inr s"
      by (rule live_record_new [OF reserve_at_ok [OF ok res'], of i]) (simp_all add: m' i)
    moreover have "fits m bytes alignment (unat candidate)"
      by (rule fits_candidate [OF ok stop pos aligned above inside clear])
    ultimately show ?thesis using res' s least by (auto simp: alloc_outcome_def)
  qed
qed

lemma align_up_fits:
  assumes ok: "ledger_ok m" and pow: "is_power_of_two alignment"
    and later: "\<And>b. fits m bytes alignment b \<Longrightarrow> unat x \<le> b"
  shows "align_up x alignment = Inl e \<Longrightarrow> \<not> fits m bytes alignment b"
    and "align_up x alignment = Inr y \<Longrightarrow> fits m bytes alignment b \<Longrightarrow> unat y \<le> b"
proof -
  assume up: "align_up x alignment = Inl e"
  show "\<not> fits m bytes alignment b"
  proof
    assume b: "fits m bytes alignment b"
    then have "2 ^ 64 \<le> b"
      using gm_rounding.round_up_Inl [OF pow up later [OF b]] by (simp add: fits_def)
    then show False using b ledger_ok_aperture(2) [OF ok] by (simp add: fits_def)
  qed
next
  assume up: "align_up x alignment = Inr y" and b: "fits m bytes alignment b"
  then show "unat y \<le> b"
    using gm_rounding.round_up_least [OF pow up later [OF b]] by (simp add: fits_def)
qed

lemma align_up_Inl: "align_up x alignment = Inl e \<Longrightarrow> e = Gm_ArithmeticOverflow"
  by (auto simp: align_up_def ok_or_Inl)

lemma allocate_loop_outcome:
  assumes ok: "ledger_ok m" and pos: "bytes \<noteq> 0" and pow: "is_power_of_two alignment"
    and free: "None \<in> set (gm_reservations m)"
    and "unat candidate mod unat alignment = 0"
    and "unat (ext_address (gm_aperture m)) \<le> unat candidate"
    and "\<And>b. fits m bytes alignment b \<Longrightarrow> unat candidate \<le> b"
  shows "\<exists>result. allocate_loop m bytes alignment purpose candidate = Some result \<and>
    alloc_outcome m bytes alignment purpose result"
  using assms(5-7)
proof (induction "2 ^ 64 - unat candidate" arbitrary: candidate rule: less_induct)
  case less
  note ap = ledger_ok_aperture [OF ok]
  consider "checked_add candidate bytes = None"
    | stop where "checked_add candidate bytes = Some stop" "ext_end (gm_aperture m) < stop"
    | stop where "checked_add candidate bytes = Some stop" "stop \<le> ext_end (gm_aperture m)"
        "blocking_end m candidate stop = None"
    | stop after where "checked_add candidate bytes = Some stop" "stop \<le> ext_end (gm_aperture m)"
        "blocking_end m candidate stop = Some after"
    by (metis not_le option.exhaust)
  then show ?case
  proof cases
    case 1
    then have "2 ^ 64 \<le> unat candidate + unat bytes" by (simp add: checked_add_None)
    then have "\<not> fits m bytes alignment b" for b
      using ap by (intro no_fit_beyond [OF ok less.prems(3)]) auto
    then show ?thesis using 1 by (subst allocate_loop.simps) (simp add: alloc_outcome_error)
  next
    case (2 stop)
    then have "unat stop = unat candidate + unat bytes" by (simp add: checked_add_Some)
    with 2 show ?thesis
      using ap less.prems(3) no_fit_beyond [OF ok, of bytes alignment "unat candidate"]
      by (subst allocate_loop.simps) (simp add: alloc_outcome_error word_less_nat_alt)
  next
    case (3 stop)
    have "alloc_outcome m bytes alignment purpose (reserve_at m candidate bytes alignment purpose)"
      by (rule reserve_at_outcome [OF ok pos pow free less.prems 3(1,2,3)])
    moreover have "allocate_loop m bytes alignment purpose candidate =
        Some (reserve_at m candidate bytes alignment purpose)"
      using 3 leD [OF 3(2)] by (subst allocate_loop.simps) simp
    ultimately show ?thesis by blast
  next
    case (4 stop after)
    then have stop: "unat stop = unat candidate + unat bytes" by (simp add: checked_add_Some)
    from 4(3) obtain r where r: "Some r \<in> set (gm_reservations m)" "after = ext_end (rec_extent r)"
      and over: "extents_overlap candidate stop (ext_address (rec_extent r)) (ext_end (rec_extent r))"
      by (rule blocking_end_Some)
    have later: "unat after \<le> b" if "fits m bytes alignment b" for b
      unfolding r(2)
      by (rule fits_after_block [OF ok r(1) over stop pos that less.prems(3) [OF that]])
    have up: "unat candidate < unat after"
      using over by (simp add: r(2) extents_overlap_def word_less_nat_alt)
    show ?thesis
    proof (cases "align_up after alignment")
      case (Inl e)
      then show ?thesis
        using 4 leD [OF 4(2)] align_up_fits(1) [OF ok pow later Inl] align_up_Inl [OF Inl]
        by (subst allocate_loop.simps) (simp add: alloc_outcome_error)
    next
      case (Inr candidate')
      note up' = gm_rounding.round_up_Inr [OF pow Inr]
      have "2 ^ 64 - unat candidate' < 2 ^ 64 - unat candidate"
        using up up'(1) unat_u64_bound [of candidate'] by linarith
      moreover have "unat (ext_address (gm_aperture m)) \<le> unat candidate'"
        using less.prems(2) up up'(1) by linarith
      moreover have "unat candidate' \<le> b" if "fits m bytes alignment b" for b
        by (rule align_up_fits(2) [OF ok pow later Inr that])
      ultimately have "\<exists>result. allocate_loop m bytes alignment purpose candidate' = Some result \<and>
          alloc_outcome m bytes alignment purpose result"
        using up'(3) by (intro less.hyps)
      moreover have "allocate_loop m bytes alignment purpose candidate =
          allocate_loop m bytes alignment purpose candidate'"
        using 4 leD [OF 4(2)] Inr by (subst allocate_loop.simps) simp
      ultimately show ?thesis by simp
    qed
  qed
qed

section \<open>Steps of a ledger\<close>

text \<open>
  One call of a mutating method, whatever it returns. The closure of \<open>with_guest_memory\<close> is
  arbitrary, but what it leaves has the length of what it got. Its result is a number here: a
  step does not look at it.
\<close>

inductive ledger_step :: "guest_memory \<Rightarrow> guest_memory \<Rightarrow> bool" where
  step_reserve: "reserve_at m address bytes alignment purpose = (r, m') \<Longrightarrow> ledger_step m m'"
| step_allocate: "allocate m bytes alignment purpose = Some (r, m') \<Longrightarrow> ledger_step m m'"
| step_release: "release m token = (u, m') \<Longrightarrow> ledger_step m m'"
| step_copy: "copy_into m token offset data = (u, m') \<Longrightarrow> ledger_step m m'"
| step_commit: "commit_device_tree m prepared = (u, m') \<Longrightarrow> ledger_step m m'"
| step_loan: "with_guest_memory m (run :: u64 \<Rightarrow> byte_string \<Rightarrow> nat \<times> byte_string) = (result, m') \<Longrightarrow>
    (\<And>base bytes. length (snd (run base bytes)) = length bytes) \<Longrightarrow> ledger_step m m'"

inductive ledger_reachable :: "guest_memory \<Rightarrow> bool" where
  reach_new: "gm_new base backing counter = (Inr m, counter') \<Longrightarrow> ledger_reachable m"
| reach_step: "ledger_reachable m \<Longrightarrow> ledger_step m m' \<Longrightarrow> ledger_reachable m'"

lemma gm_new_Inr:
  assumes "gm_new base backing counter = (Inr m, counter')"
  shows "\<exists>bytes. unat bytes = length (backing_bytes backing) \<and> bytes \<noteq> 0 \<and>
    unat base + unat bytes < 2 ^ 64 \<and> unat counter' = unat counter + 1 \<and>
    m = \<lparr> gm_backing = backing, gm_aperture = \<lparr> ext_address = base, ext_bytes = bytes \<rparr>,
          gm_owner = counter, gm_generation = 0,
          gm_reservations = replicate MAX_RESERVATIONS None \<rparr>"
proof -
  obtain bytes stop where bytes: "u64_of_usize (length (backing_bytes backing)) = Some bytes"
    "bytes \<noteq> 0" "checked_add base bytes = Some stop"
    and rest: "(case mint_owner counter of (minted, counter) \<Rightarrow>
     or_return minted counter (\<lambda>owner.
     (Inr \<lparr> gm_backing = backing,
            gm_aperture = \<lparr> ext_address = base, ext_bytes = bytes \<rparr>,
            gm_owner = owner, gm_generation = 0,
            gm_reservations = replicate MAX_RESERVATIONS None \<rparr>, counter))) = (Inr m, counter')"
    using assms by (auto simp: gm_new_def or_return_Inr ok_or_Inr split: if_splits)
  have "unat base + unat bytes < 2 ^ 64"
    using bytes(3) by (auto simp: checked_add_def split: if_splits)
  moreover have "unat bytes = length (backing_bytes backing)"
    using bytes(1) by (simp add: u64_of_usize_Some)
  moreover obtain following where following: "checked_add counter 1 = Some following"
    using rest by (auto simp: mint_owner_def split: option.splits)
  then have "unat following = unat counter + 1" by (simp add: checked_add_Some)
  ultimately show ?thesis
    using rest bytes(2) following by (auto simp: mint_owner_def)
qed

lemma allocate_shape:
  assumes "ledger_ok m"
  shows "\<exists>result. allocate m bytes alignment purpose = Some result \<and>
    (result = (Inl Gm_InvalidSize, m) \<and> bytes = 0 \<or>
     result = (Inl Gm_InvalidAlignment, m) \<and> \<not> is_power_of_two alignment \<or>
     result = (Inl Gm_ReservationLimit, m) \<and> None \<notin> set (gm_reservations m) \<or>
     alloc_outcome m bytes alignment purpose result)"
proof -
  consider "bytes = 0" | "bytes \<noteq> 0" "\<not> is_power_of_two alignment"
    | "bytes \<noteq> 0" "is_power_of_two alignment" "None \<notin> set (gm_reservations m)"
    | (main) "bytes \<noteq> 0" "is_power_of_two alignment" "None \<in> set (gm_reservations m)"
    by blast
  then show ?thesis
  proof cases
    case main
    have low: "unat (ext_address (gm_aperture m)) \<le> b" if "fits m bytes alignment b" for b
      using that by (simp add: fits_def)
    have start: "allocate m bytes alignment purpose =
      (case align_up (ext_address (gm_aperture m)) alignment of
         Inl e \<Rightarrow> Some (Inl e, m)
       | Inr candidate \<Rightarrow> allocate_loop m bytes alignment purpose candidate)"
      using main by (auto simp: allocate_def validate_request_def list_all_iff)
    show ?thesis
    proof (cases "align_up (ext_address (gm_aperture m)) alignment")
      case (Inl e)
      then show ?thesis
        using start align_up_fits(1) [OF assms main(2) low Inl] align_up_Inl [OF Inl]
        by (simp add: alloc_outcome_error)
    next
      case (Inr candidate)
      note up = gm_rounding.round_up_Inr [OF main(2) Inr]
      have "unat candidate \<le> b" if "fits m bytes alignment b" for b
        by (rule align_up_fits(2) [OF assms main(2) low Inr that])
      from allocate_loop_outcome [OF assms main up(3,1) this, of purpose]
      obtain result where "allocate_loop m bytes alignment purpose candidate = Some result"
        "alloc_outcome m bytes alignment purpose result" by blast
      then show ?thesis using start Inr by simp
    qed
  qed (auto simp: allocate_def validate_request_def list_all_iff)
qed

text \<open>A successful allocation is a successful \<open>reserve_at\<close>.\<close>

lemma allocate_loop_reserves:
  assumes "allocate_loop m bytes alignment purpose candidate = Some result"
  shows "(\<exists>e. result = (Inl e, m)) \<or> (\<exists>a. result = reserve_at m a bytes alignment purpose)"
  using assms
proof (rule allocate_loop.raw_induct [rotated], goal_cases)
  case (1 loop m bytes alignment purpose candidate result)
  then show ?case by (simp split: option.splits if_splits sum.splits) blast+
qed

lemma allocate_cases:
  assumes "allocate m bytes alignment purpose = Some result"
  shows "(\<exists>e. result = (Inl e, m)) \<or> (\<exists>a. result = reserve_at m a bytes alignment purpose)"
  using assms
  by (auto simp: allocate_def split: sum.splits if_splits dest!: allocate_loop_reserves)

lemma ledger_ok_new:
  assumes "gm_new base backing counter = (Inr m, counter')"
  shows "ledger_ok m"
proof -
  from gm_new_Inr [OF assms] obtain bytes where "unat bytes = length (backing_bytes backing)"
    "bytes \<noteq> 0" "unat base + unat bytes < 2 ^ 64"
    and m: "m = \<lparr> gm_backing = backing, gm_aperture = \<lparr> ext_address = base, ext_bytes = bytes \<rparr>,
      gm_owner = counter, gm_generation = 0, gm_reservations = replicate MAX_RESERVATIONS None \<rparr>"
    by blast
  moreover from this have "0 < length (backing_bytes backing)"
    by (metis unat_gt_0 word_gt_0)
  ultimately show ?thesis by (simp add: ledger_ok_def)
qed

lemma ledger_step_ok:
  assumes "ledger_step m m'" and "ledger_ok m"
  shows "ledger_ok m'"
  using assms
proof cases
  case (step_reserve address bytes alignment purpose r)
  then show ?thesis
    using assms(2) reserve_at_ok reserve_at_Inl by (cases r) metis+
next
  case (step_allocate bytes alignment purpose r)
  then show ?thesis
    using assms(2) reserve_at_ok reserve_at_Inl allocate_cases [OF step_allocate]
    by (cases r) (metis Pair_inject)+
next
  case (step_release token u)
  then show ?thesis using assms(2) release_ok release_Inl by (cases u) metis+
next
  case (step_copy token offset data u)
  then show ?thesis using assms(2) copy_into_ok copy_into_Inl by (cases u) metis+
next
  case (step_commit prepared u)
  then show ?thesis using assms(2) commit_ok commit_Inl by (cases u) metis+
next
  case (step_loan run result)
  show ?thesis
  proof (cases result)
    case (Inl e)
    then show ?thesis using step_loan loan_Inl assms(2) by blast
  next
    case (Inr x)
    show ?thesis
      by (rule loan_ok [OF assms(2) step_loan(1) [unfolded Inr]]) (rule step_loan(2))
  qed
qed

lemma ledger_reachable_ok: "ledger_reachable m \<Longrightarrow> ledger_ok m"
  by (induction rule: ledger_reachable.induct) (auto intro: ledger_ok_new ledger_step_ok)

section \<open>Generations\<close>

text \<open>
  Every step either leaves the ledger as it was, or moves its generation on by one and keeps
  the owner and the aperture; a token live afterwards was live before or is the one just made.
\<close>

definition advances :: "guest_memory \<Rightarrow> guest_memory \<Rightarrow> bool" where
  "advances m m' \<longleftrightarrow>
     unat (gm_generation m') = unat (gm_generation m) + 1 \<and> gm_owner m' = gm_owner m \<and>
     (\<forall>r. Some r \<in> set (gm_reservations m') \<longrightarrow>
        Some r \<in> set (gm_reservations m) \<or> token_serial (rec_token r) = gm_generation m')"

lemma advances_intro:
  assumes "next_generation m = Inr (gm_generation m')" and "gm_owner m' = gm_owner m"
    and "gm_reservations m' = gm_reservations m \<or>
      (\<exists>i. gm_reservations m' = (gm_reservations m)[i := None]) \<or>
      (\<exists>i r. gm_reservations m' = (gm_reservations m)[i := Some r] \<and>
        token_serial (rec_token r) = gm_generation m')"
  shows "advances m m'"
  using assms set_update_subset_insert [of "gm_reservations m"]
  by (fastforce simp: advances_def next_generation_Inr)

lemma reserve_at_advances:
  "reserve_at m address bytes alignment purpose = (Inr token, m') \<Longrightarrow> advances m m'"
proof (drule reserve_at_Inr, elim exE conjE, rule advances_intro, goal_cases)
  case (3 i g r)
  then have "gm_reservations m' = (gm_reservations m)[i := Some r]"
    and "token_serial (rec_token r) = gm_generation m'"
    by simp_all
  then show ?case by blast
qed (simp_all add: next_generation_Inr)

lemma release_advances: "release m token = (Inr u, m') \<Longrightarrow> advances m m'"
  by (drule release_Inr) (auto intro!: advances_intro)

lemma copy_into_advances: "copy_into m token offset bytes = (Inr u, m') \<Longrightarrow> advances m m'"
  by (drule copy_into_Inr) (auto intro!: advances_intro)

lemma commit_advances: "commit_device_tree m prepared = (Inr u, m') \<Longrightarrow> advances m m'"
  by (drule commit_Inr) (auto intro!: advances_intro)

lemma loan_advances: "with_guest_memory m run = (Inr x, m') \<Longrightarrow> advances m m'"
  by (drule loan_Inr) (auto intro!: advances_intro)

lemma ledger_step_advances: "ledger_step m m' \<Longrightarrow> m' = m \<or> advances m m'"
proof (induction rule: ledger_step.induct)
  case (step_reserve m address bytes alignment purpose r m')
  then show ?case by (cases r) (auto dest: reserve_at_Inl reserve_at_advances)
next
  case (step_allocate m bytes alignment purpose r m')
  then show ?case
    by (cases r) (auto dest!: allocate_cases dest: reserve_at_Inl [OF sym] reserve_at_advances [OF sym])
next
  case (step_release m token u m')
  then show ?case by (cases u) (auto dest: release_Inl release_advances)
next
  case (step_copy m token offset data u m')
  then show ?case by (cases u) (auto dest: copy_into_Inl copy_into_advances)
next
  case (step_commit m prepared u m')
  then show ?case by (cases u) (auto dest: commit_Inl commit_advances)
next
  case (step_loan m run result m')
  then show ?case by (cases result) (auto dest: loan_Inl loan_advances)
qed

lemma advances_generation: "advances m m' \<Longrightarrow> gm_generation m < gm_generation m'"
  by (simp add: advances_def word_less_nat_alt)

lemma steps_generation:
  assumes "ledger_step\<^sup>*\<^sup>* m m'"
  shows "gm_owner m' = gm_owner m \<and> (m' = m \<or> gm_generation m < gm_generation m')"
  using assms
proof (induction rule: rtranclp_induct)
  case (step m' m'')
  from ledger_step_advances [OF step.hyps(2)] step.IH show ?case
    by (auto simp: advances_def word_less_nat_alt)
qed simp

text \<open>A token that is not live stays so, unless its serial is still to come.\<close>

definition token_live :: "guest_memory \<Rightarrow> reservation_token \<Rightarrow> bool" where
  "token_live m token \<longleftrightarrow> (\<exists>r. Some r \<in> set (gm_reservations m) \<and> rec_token r = token)"

lemma dead_token_steps:
  assumes "ledger_step\<^sup>*\<^sup>* m m'" and "\<not> token_live m token"
    and "token_serial token \<le> gm_generation m"
  shows "\<not> token_live m' token \<and> token_serial token \<le> gm_generation m'"
  using assms(1)
proof (induction rule: rtranclp_induct)
  case base
  then show ?case using assms by simp
next
  case (step m' m'')
  from ledger_step_advances [OF step.hyps(2)] show ?case
  proof
    assume adv: "advances m' m''"
    then have "gm_generation m' < gm_generation m''" by (rule advances_generation)
    then show ?case using step.IH adv by (auto simp: token_live_def advances_def)
  qed (use step.IH in simp)
qed

section \<open>Reading and copying\<close>

text \<open>Where a live reservation lies in the backing.\<close>

definition rec_offset :: "guest_memory \<Rightarrow> reservation_record \<Rightarrow> nat" where
  "rec_offset m r = unat (ext_address (rec_extent r)) - unat (ext_address (gm_aperture m))"

lemma record_window:
  assumes "record_ok m r"
  shows "unat (ext_address (rec_extent r)) = unat (ext_address (gm_aperture m)) + rec_offset m r"
    and "rec_offset m r + unat (ext_bytes (rec_extent r)) \<le> unat (ext_bytes (gm_aperture m))"
  using assms by (auto simp: record_ok_def rec_offset_def)

lemma live_apart:
  assumes "ledger_ok m" and "Some r \<in> set (gm_reservations m)" and "Some s \<in> set (gm_reservations m)"
    and "r \<noteq> s"
  shows "apart r s"
proof -
  obtain i j where i: "i < length (gm_reservations m)" "gm_reservations m ! i = Some r"
    and j: "j < length (gm_reservations m)" "gm_reservations m ! j = Some s"
    using assms(2,3) by (metis in_set_conv_nth)
  then have "i \<noteq> j" using assms(4) by auto
  then show ?thesis using assms(1) i j by (simp add: ledger_ok_def)
qed

lemma live_record_in: "live_record m token = Inr r \<Longrightarrow> Some r \<in> set (gm_reservations m)"
  by (erule live_record_Inr) (metis nth_mem)

lemma live_record_no_panic: "live_record m token \<noteq> Inl Gm_Panic"
proof
  assume "live_record m token = Inl Gm_Panic"
  then obtain i where "slot m token = Inr i" "gm_reservations m ! i = None"
    by (auto simp: live_record_def slot_def result_iff split: if_splits)
  then show False by (auto elim: slot_Inr)
qed

lemma gm_range_live:
  assumes ok: "ledger_ok m" and r: "Some r \<in> set (gm_reservations m)" and n: "n < 2 ^ 64"
  shows "gm_range m r offset n = Inr (start, stop) \<longleftrightarrow>
    unat offset + n \<le> unat (ext_bytes (rec_extent r)) \<and>
    start = rec_offset m r + unat offset \<and> stop = start + n"
proof -
  note rec = ledger_ok_record(1) [OF ok r, unfolded record_ok_def] and ap = ledger_ok_aperture [OF ok]
  have word: "u64_of_usize n = Some (of_nat n)" "unat (of_nat n :: u64) = n"
    using n by (simp_all add: u64_of_usize_def unat_of_nat)
  show ?thesis
  proof (cases "unat offset + n \<le> unat (ext_bytes (rec_extent r))")
    case False
    then show ?thesis
      by (auto simp: gm_range_def word ok_or_def checked_add_def word_less_nat_alt unat_add_exact
          split: option.splits)
  next
    case True
    then have sum: "unat (offset + of_nat n) = unat offset + n"
      using unat_u64_bound [of "ext_bytes (rec_extent r)"] by (simp add: unat_add_exact word)
    have rel: "unat (ext_address (rec_extent r) - ext_address (gm_aperture m)) = rec_offset m r"
      using rec by (simp add: rec_offset_def unat_sub_exact word_le_nat_alt)
    have fit: "rec_offset m r + (unat offset + n) \<le> unat (ext_bytes (gm_aperture m))"
      using record_window(2) [OF ledger_ok_record(1) [OF ok r]] True by linarith
    then have small: "rec_offset m r + (unat offset + n) < 2 ^ 64"
      using unat_u64_bound [of "ext_bytes (gm_aperture m)"] by linarith
    have start: "unat (ext_address (rec_extent r) - ext_address (gm_aperture m) + offset)
        = rec_offset m r + unat offset"
      using small by (simp add: unat_add_exact rel)
    have stop: "unat (ext_address (rec_extent r) - ext_address (gm_aperture m) + offset + of_nat n)
        = rec_offset m r + unat offset + n"
      using small start by (simp add: unat_add_exact word)
    have "gm_range m r offset n = Inr (rec_offset m r + unat offset, rec_offset m r + unat offset + n)"
      using True rec small fit unat_u64_bound [of "ext_bytes (rec_extent r)"]
      by (simp add: gm_range_def word ok_or_def checked_add_def checked_sub_def word_le_nat_alt
          word_less_nat_alt sum rel start stop)
    then show ?thesis using True by auto
  qed
qed

lemma rec_offset_bound:
  assumes "ledger_ok m" and "Some r \<in> set (gm_reservations m)"
  shows "rec_offset m r + unat (ext_bytes (rec_extent r)) \<le> length (backing_bytes (gm_backing m))"
  using record_window(2) [OF ledger_ok_record(1) [OF assms]] ledger_ok_aperture(1) [OF assms(1)]
  by simp

lemma gm_read_live:
  assumes ok: "ledger_ok m" and r: "live_record m token = Inr r"
  shows "gm_read m token = Inr (take (unat (ext_bytes (rec_extent r)))
      (drop (rec_offset m r) (backing_bytes (gm_backing m))))"
proof -
  note mem = live_record_in [OF r]
  have "gm_range m r 0 (unat (ext_bytes (rec_extent r)))
    = Inr (rec_offset m r, rec_offset m r + unat (ext_bytes (rec_extent r)))"
    using gm_range_live [OF ok mem unat_u64_bound, of 0 "ext_bytes (rec_extent r)"] by simp
  then show ?thesis
    using r rec_offset_bound [OF ok mem]
    by (simp add: gm_read_def get_range_def ok_or_def Let_def)
qed

text \<open>What a write into one reservation does to the reads of every reservation.\<close>

lemma live_record_bytes:
  "live_record (m\<lparr>gm_backing := b, gm_generation := g\<rparr>) token = live_record m token"
  by (simp add: live_record_def slot_def)

text \<open>A write inside one live reservation does not touch the bytes of another.\<close>

lemma write_elsewhere:
  assumes ok: "ledger_ok m" and r: "live_record m token = Inr r" and s: "live_record m other = Inr s"
    and "other \<noteq> token" and fit: "off + length bytes \<le> unat (ext_bytes (rec_extent r))"
  shows "take (unat (ext_bytes (rec_extent s))) (drop (rec_offset m s)
      (put_bytes (backing_bytes (gm_backing m)) (rec_offset m r + off) bytes))
    = take (unat (ext_bytes (rec_extent s))) (drop (rec_offset m s) (backing_bytes (gm_backing m)))"
proof -
  note mem = live_record_in [OF r] and mem' = live_record_in [OF s]
  have "rec_token r = token" "rec_token s = other"
    using r s by (auto elim!: live_record_Inr)
  then have "r \<noteq> s" using assms(4) by auto
  from live_apart [OF ok mem mem' this]
  have "rec_offset m s + unat (ext_bytes (rec_extent s)) \<le> rec_offset m r + off \<or>
      rec_offset m r + off + length bytes \<le> rec_offset m s"
    using record_window(1) [OF ledger_ok_record(1) [OF ok mem]] fit
      record_window(1) [OF ledger_ok_record(1) [OF ok mem']]
      ledger_ok_record(1) [OF ok mem] ledger_ok_record(1) [OF ok mem']
    by (auto simp: apart_def ext_range_def record_ok_def)
  then show ?thesis
    using rec_offset_bound [OF ok mem] fit rec_offset_bound [OF ok mem']
    by (intro take_drop_put_bytes_disjoint) auto
qed

lemma write_and_read:
  assumes ok: "ledger_ok m" and r: "live_record m token = Inr r"
    and fit: "off + length bytes \<le> unat (ext_bytes (rec_extent r))"
    and gen: "gm_generation m \<le> g"
    and m': "m' = m\<lparr> gm_backing := backing_update (gm_backing m)
        (put_bytes (backing_bytes (gm_backing m)) (rec_offset m r + off) bytes),
        gm_generation := g \<rparr>"
  shows "\<exists>old. gm_read m token = Inr old \<and> length old = unat (ext_bytes (rec_extent r)) \<and>
    gm_read m' token = Inr (put_bytes old off bytes) \<and>
    (\<forall>other. other \<noteq> token \<longrightarrow> gm_read m' other = gm_read m other)"
proof -
  let ?B = "backing_bytes (gm_backing m)" and ?n = "unat (ext_bytes (rec_extent r))"
  note mem = live_record_in [OF r]
  note bound = rec_offset_bound [OF ok mem]
  have ok': "ledger_ok m'"
    unfolding m' using bound fit by (intro ledger_ok_bytes [OF ok gen]) simp
  have live: "live_record m' t = live_record m t" for t unfolding m' by (rule live_record_bytes)
  have offs: "rec_offset m' s = rec_offset m s" for s by (simp add: m' rec_offset_def)
  have same: "gm_read m' token = Inr (put_bytes (take ?n (drop (rec_offset m r) ?B)) off bytes)"
  proof -
    have "take ?n (drop (rec_offset m r) (put_bytes ?B (rec_offset m r + off) bytes))
        = put_bytes (take ?n (drop (rec_offset m r) ?B)) off bytes"
      by (rule nth_equalityI) (use bound fit in \<open>auto simp: nth_put_bytes\<close>)
    then show ?thesis
      using gm_read_live [OF ok', unfolded live, OF r] offs by (simp add: m')
  qed
  have others: "gm_read m' other = gm_read m other" if "other \<noteq> token" for other
  proof (cases "live_record m other")
    case (Inl e)
    then show ?thesis using live [of other] by (simp add: gm_read_def)
  next
    case (Inr s)
    from write_elsewhere [OF ok r Inr that fit] show ?thesis
      using gm_read_live [OF ok', unfolded live, OF Inr] gm_read_live [OF ok Inr] offs
      by (simp add: m')
  qed
  show ?thesis using gm_read_live [OF ok r] same others bound by simp
qed

section \<open>Properties\<close>

text \<open>
  C2. Whatever calls are made on a ledger, in whatever order and with whatever results, its
  live reservations are aligned, inside the aperture and pairwise disjoint, and no two share
  a token.
\<close>

theorem ledger_invariant: "ledger_reachable m \<Longrightarrow> ledger_ok m"
  by (rule ledger_reachable_ok)

definition sample_ledger :: guest_memory where
  "sample_ledger = \<lparr> gm_backing = Owned (replicate 64 0),
     gm_aperture = \<lparr> ext_address = 0x1000, ext_bytes = 64 \<rparr>, gm_owner = 1, gm_generation = 0,
     gm_reservations = replicate MAX_RESERVATIONS None \<rparr>"

lemma sample_ledger_new: "from_owned 0x1000 (replicate 64 0) NEXT_OWNER = (Inr sample_ledger, 2)"
  by (simp add: from_owned_def gm_new_def NEXT_OWNER_def sample_ledger_def mint_owner_def
      u64_of_usize_def ok_or_def checked_add_def)

lemma sample_ledger_reachable: "ledger_reachable sample_ledger"
  using sample_ledger_new unfolding from_owned_def by (rule reach_new)

text \<open>The sample after reserving 16 bytes at \<open>0x1010\<close>, and the token.\<close>

definition sample_token :: reservation_token where
  "sample_token = \<lparr> token_owner = 1, token_serial = 1 \<rparr>"

definition sample_reserved :: guest_memory where
  "sample_reserved = sample_ledger\<lparr> gm_reservations := Some
       \<lparr> rec_token = sample_token, rec_extent = \<lparr> ext_address = 0x1010, ext_bytes = 16 \<rparr>,
         rec_alignment = 16, rec_purpose = KernelImage \<rparr> # replicate 63 None,
     gm_generation := 1 \<rparr>"

lemma power_of_two_16: "is_power_of_two 16"
  unfolding is_power_of_two_def by (rule bexI [of _ 4]) auto

lemma slots_unfold: "replicate MAX_RESERVATIONS x = x # replicate 63 x"
proof -
  have "MAX_RESERVATIONS = Suc 63" by (simp add: MAX_RESERVATIONS_def)
  then show ?thesis by (metis replicate_Suc)
qed

lemma flatten_replicate_None [simp]: "flatten (replicate n None) = []"
  by (induction n) simp_all

lemma sample_reserve:
  "reserve_at sample_ledger 0x1010 16 16 KernelImage = (Inr sample_token, sample_reserved)"
proof -
  have "flatten (gm_reservations sample_ledger) = []" by (simp add: sample_ledger_def)
  moreover have "position_where (\<lambda>r. r = None) (gm_reservations sample_ledger) = Some 0"
    by (simp add: sample_ledger_def slots_unfold)
  moreover have "validate_request 16 16 = Inr ()" by (simp add: validate_request_def power_of_two_16)
  ultimately show ?thesis
    unfolding reserve_at_def
    by (simp add: next_generation_def ok_or_def checked_add_def ext_end_def
        sample_token_def sample_reserved_def Let_def)
      (simp add: sample_ledger_def ext_end_def slots_unfold)
qed

lemma sample_reserved_reachable: "ledger_reachable sample_reserved"
  by (rule reach_step [OF sample_ledger_reachable step_reserve [OF sample_reserve]])

theorem ledger_invariant_witness:
  "ledger_reachable sample_reserved \<and> ledger_ok sample_reserved"
  using ledger_invariant [OF sample_reserved_reachable] sample_reserved_reachable by simp

text \<open>
  C20. On a reachable ledger \<open>allocate\<close> returns. A token it returns names a record of the
  requested size, alignment and purpose at the lowest address where the request fits. If it
  reports no space or an overflow, the request fits nowhere, and every error leaves the ledger
  as it was and is one of those listed.
\<close>

theorem allocate_first_fit:
  assumes "ledger_reachable m"
  shows "\<exists>result. allocate m bytes alignment purpose = Some result \<and>
    (case result of
       (Inr token, m') \<Rightarrow>
         (\<exists>a. live_record m' token = Inr
              \<lparr> rec_token = token, rec_extent = \<lparr> ext_address = a, ext_bytes = bytes \<rparr>,
                rec_alignment = alignment, rec_purpose = purpose \<rparr> \<and>
            fits m bytes alignment (unat a) \<and>
            (\<forall>b. fits m bytes alignment b \<longrightarrow> unat a \<le> b))
     | (Inl e, m') \<Rightarrow>
         m' = m \<and>
         (e = Gm_InvalidSize \<and> bytes = 0 \<or>
          e = Gm_InvalidAlignment \<and> \<not> is_power_of_two alignment \<or>
          e = Gm_ReservationLimit \<and> None \<notin> set (gm_reservations m) \<or>
          e = Gm_GenerationExhausted \<or>
          e \<in> {Gm_NoSpace, Gm_ArithmeticOverflow} \<and> (\<forall>b. \<not> fits m bytes alignment b)))"
proof -
  from allocate_shape [OF ledger_reachable_ok [OF assms], of bytes alignment purpose]
  obtain r m' where "allocate m bytes alignment purpose = Some (r, m')"
    "(r, m') = (Inl Gm_InvalidSize, m) \<and> bytes = 0 \<or>
     (r, m') = (Inl Gm_InvalidAlignment, m) \<and> \<not> is_power_of_two alignment \<or>
     (r, m') = (Inl Gm_ReservationLimit, m) \<and> None \<notin> set (gm_reservations m) \<or>
     alloc_outcome m bytes alignment purpose (r, m')"
    by (metis surj_pair)
  then show ?thesis by (cases r) (auto simp: alloc_outcome_def)
qed

theorem allocate_first_fit_witness:
  "allocate sample_reserved 16 16 Stack \<noteq> None \<and> allocate sample_reserved 0 16 Stack \<noteq> None"
  using allocate_first_fit [OF sample_reserved_reachable] by (metis option.distinct(1))

text \<open>
  C17. A successful \<open>copy_into\<close> changes exactly the bytes it was given in the reservation it
  was given: a read of that reservation shows the old bytes overwritten at the offset, and a
  read through any other token, live or not, gives what it gave before.
\<close>

theorem copy_into_isolated:
  assumes "ledger_reachable m" and "copy_into m token offset bytes = (Inr (), m')"
  shows "\<exists>old. gm_read m token = Inr old \<and> unat offset + length bytes \<le> length old \<and>
    gm_read m' token = Inr (put_bytes old (unat offset) bytes) \<and>
    (\<forall>other. other \<noteq> token \<longrightarrow> gm_read m' other = gm_read m other)"
proof -
  note ok = ledger_reachable_ok [OF assms(1)]
  from copy_into_Inr [OF assms(2)] obtain r start stop g where r: "live_record m token = Inr r"
    and range: "gm_range m r offset (length bytes) = Inr (start, stop)"
    and g: "next_generation m = Inr g"
    and m': "m' = m\<lparr> gm_backing := backing_update (gm_backing m)
        (put_bytes (backing_bytes (gm_backing m)) start bytes), gm_generation := g \<rparr>"
    by blast
  have "length bytes < 2 ^ 64"
    using range by (auto simp: gm_range_def result_iff u64_of_usize_def split: if_splits)
  from gm_range_live [OF ok live_record_in [OF r] this] range
  have fit: "unat offset + length bytes \<le> unat (ext_bytes (rec_extent r))"
    and start: "start = rec_offset m r + unat offset" by auto
  have "gm_generation m \<le> g" using next_generation_less [OF g] by simp
  from write_and_read [OF ok r fit this m' [unfolded start]] fit show ?thesis by auto
qed

lemma sample_live: "live_record sample_reserved sample_token = Inr
    \<lparr> rec_token = sample_token, rec_extent = \<lparr> ext_address = 0x1010, ext_bytes = 16 \<rparr>,
      rec_alignment = 16, rec_purpose = KernelImage \<rparr>"
  by (simp add: live_record_def slot_def sample_reserved_def sample_token_def sample_ledger_def ok_or_def)

definition sample_written :: guest_memory where
  "sample_written = snd (copy_into sample_reserved sample_token 4 [1, 2])"

lemma sample_copies: "copy_into sample_reserved sample_token 4 [1, 2] = (Inr (), sample_written)"
  by (simp add: sample_written_def copy_into_def sample_live gm_range_def u64_of_usize_def ok_or_def
      checked_add_def checked_sub_def next_generation_def copy_from_slice_def Let_def)
    (simp add: sample_reserved_def sample_ledger_def)

theorem copy_into_isolated_witness:
  "\<exists>old. gm_read sample_reserved sample_token = Inr old \<and>
     gm_read sample_written sample_token = Inr (put_bytes old 4 [1, 2])"
proof -
  have four: "unat (4 :: u64) = 4" by simp
  show ?thesis
    using copy_into_isolated [OF sample_reserved_reachable sample_copies] unfolding four by blast
qed

text \<open>
  A released token is dead for good: after any further calls, whatever they return and
  whatever tokens they make, the ledger refuses it.
\<close>

theorem released_stays_released:
  assumes "ledger_reachable m" and "release m token = (Inr (), m')" and "ledger_step\<^sup>*\<^sup>* m' m''"
  shows "live_record m'' token = Inl Gm_ReleasedReservation"
proof -
  note ok = ledger_reachable_ok [OF assms(1)]
  from release_Inr [OF assms(2)] obtain i g where i: "slot m token = Inr i"
    and g: "next_generation m = Inr g"
    and m': "m' = m\<lparr> gm_reservations := (gm_reservations m)[i := None], gm_generation := g \<rparr>"
    by blast
  from i obtain r where r: "i < length (gm_reservations m)" "gm_reservations m ! i = Some r"
    "rec_token r = token" "token_owner token = gm_owner m" by (rule slot_Inr)
  have "token_serial token \<le> gm_generation m"
    using ledger_ok_record(1) [OF ok] r by (metis nth_mem record_ok_def)
  then have serial: "token_serial token \<le> gm_generation m'"
    using next_generation_less [OF g] by (simp add: m')
  have "\<not> token_live m' token"
    using r ok by (auto simp: m' token_live_def in_set_conv_nth nth_list_update ledger_ok_def apart_def
        split: if_splits)
  from dead_token_steps [OF assms(3) this serial] have dead: "\<not> token_live m'' token" by simp
  have "token_owner token = gm_owner m''"
    using steps_generation [OF assms(3)] r(4) by (simp add: m')
  then have "slot m'' token = Inl Gm_ReleasedReservation \<or> (\<exists>j. slot m'' token = Inr j)"
    by (auto simp: slot_def ok_or_def split: option.splits)
  moreover have "slot m'' token \<noteq> Inr j" for j
    using dead by (metis slot_Inr token_live_def nth_mem)
  ultimately show ?thesis by (auto simp: live_record_def)
qed

definition sample_released :: guest_memory where
  "sample_released = snd (release sample_reserved sample_token)"

lemma sample_releases: "release sample_reserved sample_token = (Inr (), sample_released)"
  by (simp add: sample_released_def release_def slot_def sample_reserved_def sample_ledger_def
      sample_token_def ok_or_def next_generation_def checked_add_def Let_def)

theorem released_stays_released_witness:
  "live_record sample_released sample_token = Inl Gm_ReleasedReservation"
  by (rule released_stays_released [OF sample_reserved_reachable sample_releases rtranclp.rtrancl_refl])

text \<open>
  A tree bound to a ledger commits only if nothing has happened to the ledger since: any
  call in between that changed anything makes the commit fail with the stale-snapshot error.
\<close>

theorem commit_only_unchanged:
  assumes "bind_device_tree m stamp destination tree = Inr prepared"
    and "ledger_step\<^sup>*\<^sup>* m m'"
  shows "m' = m \<or> commit_device_tree m' prepared = (Inl Gm_StaleSnapshot, m')"
proof -
  have stamp: "stamp_owner (prep_stamp prepared) = gm_owner m"
    "stamp_generation (prep_stamp prepared) = gm_generation m"
    using assms(1) by (auto simp: bind_device_tree_def result_iff validate_stamp_def split: if_splits)
  from steps_generation [OF assms(2)] show ?thesis
    using stamp by (auto simp: commit_device_tree_def validate_stamp_def)
qed

definition sample_tree :: materialized_tree where
  "sample_tree = \<lparr> mt_source = [], mt_bytes = replicate 8 0, mt_source_sha256 = [],
     mt_replacement_count = 0, mt_bindings = [] \<rparr>"

text \<open>The sample ledger with a reservation for a device tree.\<close>

definition sample_dt_ledger :: guest_memory where
  "sample_dt_ledger = sample_ledger\<lparr> gm_reservations := Some
       \<lparr> rec_token = sample_token, rec_extent = \<lparr> ext_address = 0x1010, ext_bytes = 16 \<rparr>,
         rec_alignment = 16, rec_purpose = RuntimeDeviceTree \<rparr> # replicate 63 None,
     gm_generation := 1 \<rparr>"

definition sample_prepared :: prepared_device_tree where
  "sample_prepared = \<lparr> prep_tree = sample_tree,
     prep_stamp = \<lparr> stamp_owner = 1, stamp_generation = 1 \<rparr>, prep_destination = sample_token \<rparr>"

lemma sample_binds:
  "bind_device_tree sample_dt_ledger \<lparr> stamp_owner = 1, stamp_generation = 1 \<rparr> sample_token sample_tree
    = Inr sample_prepared"
  by (simp add: bind_device_tree_def validate_stamp_def sample_dt_ledger_def sample_ledger_def
      dt_range_def live_record_def slot_def sample_token_def ok_or_def gm_range_def sample_tree_def
      u64_of_usize_def checked_add_def checked_sub_def sample_prepared_def)

lemma sample_dt_release: "\<exists>m'. release sample_dt_ledger sample_token = (Inr (), m') \<and> m' \<noteq> sample_dt_ledger"
proof -
  have "release sample_dt_ledger sample_token = (Inr (), sample_ledger
      \<lparr> gm_reservations := replicate MAX_RESERVATIONS None, gm_generation := 2 \<rparr>)"
    by (simp add: release_def slot_def sample_dt_ledger_def sample_ledger_def
      sample_token_def ok_or_def next_generation_def checked_add_def Let_def slots_unfold)
  moreover from this have "sample_ledger\<lparr> gm_reservations := replicate MAX_RESERVATIONS None,
      gm_generation := 2 \<rparr> \<noteq> sample_dt_ledger"
    using advances_generation [OF release_advances] by fastforce
  ultimately show ?thesis by blast
qed

theorem commit_only_unchanged_witness:
  "\<exists>m'. ledger_step sample_dt_ledger m' \<and>
     commit_device_tree m' sample_prepared = (Inl Gm_StaleSnapshot, m')"
proof -
  obtain m' where m': "release sample_dt_ledger sample_token = (Inr (), m')" "m' \<noteq> sample_dt_ledger"
    using sample_dt_release by blast
  then have step: "ledger_step sample_dt_ledger m'" by (intro step_release)
  then show ?thesis
    using commit_only_unchanged [OF sample_binds r_into_rtranclp [of ledger_step, OF step]] m'(2)
    by blast
qed

lemma range_in_backing:
  assumes ok: "ledger_ok m" and r: "live_record m token = Inr r"
    and range: "gm_range m r offset n = Inr (start, stop)"
  shows "start \<le> stop \<and> stop \<le> length (backing_bytes (gm_backing m)) \<and> stop - start = n"
proof -
  have "n < 2 ^ 64" using range by (auto simp: gm_range_def result_iff u64_of_usize_def split: if_splits)
  from gm_range_live [OF ok live_record_in [OF r] this] range rec_offset_bound [OF ok live_record_in [OF r]]
  show ?thesis by auto
qed

lemma gm_range_no_panic: "gm_range m r offset n \<noteq> Inl Gm_Panic"
  by (auto simp: gm_range_def result_iff split: if_splits)

lemma next_generation_no_panic: "next_generation m \<noteq> Inl Gm_Panic"
  by (auto simp: next_generation_def result_iff)

lemma slot_no_panic: "slot m token \<noteq> Inl Gm_Panic"
  by (auto simp: slot_def result_iff split: if_splits)

lemma allocate_no_panic:
  assumes "ledger_ok m" and "allocate m bytes alignment purpose = Some (r, m')"
  shows "r \<noteq> Inl Gm_Panic"
  using allocate_shape [OF assms(1), of bytes alignment purpose] assms(2)
  by (auto simp: alloc_outcome_def)

lemma reserve_at_no_panic: "fst (reserve_at m address bytes alignment purpose) \<noteq> Inl Gm_Panic"
  by (auto simp: reserve_at_def or_return_def validate_request_def ok_or_def next_generation_def Let_def
      split: sum.splits option.splits if_splits)

lemma release_no_panic: "fst (release m token) \<noteq> Inl Gm_Panic"
  using slot_no_panic [of m token] next_generation_no_panic [of m]
  by (auto simp: release_def or_return_def Let_def split: sum.splits)

lemma gm_read_no_panic:
  assumes "ledger_ok m"
  shows "gm_read m token \<noteq> Inl Gm_Panic"
proof (cases "live_record m token")
  case (Inl e)
  then show ?thesis using live_record_no_panic [of m token] by (simp add: gm_read_def)
next
  case (Inr r)
  then show ?thesis by (simp add: gm_read_live [OF assms])
qed

lemma copy_into_no_panic:
  assumes "ledger_ok m"
  shows "fst (copy_into m token offset bytes) \<noteq> Inl Gm_Panic"
proof (cases "live_record m token")
  case (Inl e)
  then show ?thesis using live_record_no_panic [of m token] by (simp add: copy_into_def)
next
  case (Inr r)
  note range = range_in_backing [OF assms Inr]
  have "copy_from_slice (backing_bytes (gm_backing m)) (start, stop) bytes \<noteq> None"
    if "gm_range m r offset (length bytes) = Inr (start, stop)" for start stop
    using range [OF that] by (simp add: copy_from_slice_def)
  then show ?thesis
    using Inr gm_range_no_panic [of m r offset "length bytes"] next_generation_no_panic [of m]
    by (auto simp: copy_into_def or_return_def ok_or_def Let_def split: sum.splits option.splits)
qed

lemma commit_no_panic:
  assumes "ledger_ok m"
  shows "fst (commit_device_tree m prepared) \<noteq> Inl Gm_Panic"
proof -
  let ?n = "length (prep_bytes prepared)" and ?t = "prep_destination prepared"
  have "copy_from_slice (backing_bytes (gm_backing m)) (start, stop) (prep_bytes prepared) \<noteq> None"
    if "dt_range m ?t ?n = Inr (start, stop)" for start stop
  proof -
    from that obtain r where "live_record m ?t = Inr r" "gm_range m r 0 ?n = Inr (start, stop)"
      by (auto simp: dt_range_def result_iff split: if_splits)
    from range_in_backing [OF assms this] show ?thesis by (simp add: copy_from_slice_def)
  qed
  moreover have "dt_range m ?t ?n \<noteq> Inl Gm_Panic"
    using live_record_no_panic [of m ?t] gm_range_no_panic
    by (auto simp: dt_range_def result_iff split: if_splits)
  moreover have "validate_stamp m (prep_stamp prepared) \<noteq> Inl Gm_Panic"
    by (simp add: validate_stamp_def)
  ultimately show ?thesis
    using next_generation_no_panic [of m]
    by (auto simp: commit_device_tree_def or_return_def ok_or_def Let_def split: sum.splits option.splits)
qed

text \<open>
  On a reachable ledger no method panics: the record a slot names is there, and the range
  a copy or a read uses lies in the backing.
\<close>

theorem ledger_never_panics:
  assumes "ledger_reachable m"
  shows "fst (reserve_at m address bytes alignment purpose) \<noteq> Inl Gm_Panic \<and>
    map_option fst (allocate m bytes alignment purpose) \<noteq> Some (Inl Gm_Panic) \<and>
    fst (release m token) \<noteq> Inl Gm_Panic \<and> gm_read m token \<noteq> Inl Gm_Panic \<and>
    fst (copy_into m token offset data) \<noteq> Inl Gm_Panic \<and>
    fst (commit_device_tree m prepared) \<noteq> Inl Gm_Panic"
proof -
  note ok = ledger_reachable_ok [OF assms]
  have "map_option fst (allocate m bytes alignment purpose) \<noteq> Some (Inl Gm_Panic)"
    using allocate_no_panic [OF ok] by (cases "allocate m bytes alignment purpose") force+
  then show ?thesis
    using ok reserve_at_no_panic release_no_panic gm_read_no_panic copy_into_no_panic commit_no_panic
    by blast
qed

theorem ledger_never_panics_witness:
  "gm_read sample_reserved sample_token \<noteq> Inl Gm_Panic \<and>
   fst (copy_into sample_reserved sample_token 12 [1, 2, 3, 4, 5]) \<noteq> Inl Gm_Panic"
  using ledger_never_panics [OF sample_reserved_reachable] by blast

text \<open>
  A call that returns an error leaves the whole ledger as it was: the bytes, the
  reservations and the generation.
\<close>

theorem errors_change_nothing:
  "(reserve_at m address bytes alignment purpose = (Inl e, m') \<longrightarrow> m' = m) \<and>
   (allocate m bytes alignment purpose = Some (Inl e, m') \<longrightarrow> m' = m) \<and>
   (release m token = (Inl e, m') \<longrightarrow> m' = m) \<and>
   (copy_into m token offset data = (Inl e, m') \<longrightarrow> m' = m) \<and>
   (commit_device_tree m prepared = (Inl e, m') \<longrightarrow> m' = m) \<and>
   (with_guest_memory m run = (Inl e, m') \<longrightarrow> m' = m)"
proof -
  have "m' = m" if "allocate m bytes alignment purpose = Some (Inl e, m')"
    using allocate_cases [OF that] reserve_at_Inl by (metis Pair_inject)
  then show ?thesis
    by (intro conjI impI) (simp_all add: reserve_at_Inl release_Inl copy_into_Inl commit_Inl loan_Inl)
qed

lemma position_where_replicate [simp]: "\<not> P x \<Longrightarrow> position_where P (replicate n x) = None"
  by (simp add: position_where_None)

theorem errors_change_nothing_witness:
  "\<exists>m'. release sample_released sample_token = (Inl Gm_ReleasedReservation, m') \<and> m' = sample_released"
proof -
  obtain m' where again: "release sample_released sample_token = (Inl Gm_ReleasedReservation, m')"
    by (simp add: release_def slot_def sample_released_def sample_reserved_def sample_ledger_def
        sample_token_def ok_or_def next_generation_def checked_add_def Let_def)
  moreover have "m' = sample_released"
    using errors_change_nothing [THEN conjunct2, THEN conjunct2, THEN conjunct1] again by blast
  ultimately show ?thesis by blast
qed

end
