(* ===== verification/Arm64_Boot_Args.thy ===== *)
theory Arm64_Boot_Args
  imports Contracts Flat_Dt
begin

text \<open>
  Model of \<^verbatim>\<open>src/xnu_arm64_boot_args.rs\<close>: the checked encoding of the boot-argument block and
  the second read of the device tree for the two memory properties of \<^verbatim>\<open>/chosen\<close>.
\<close>

section \<open>Data\<close>

definition ARM64_BOOT_ARGS_SIZE :: nat where "ARM64_BOOT_ARGS_SIZE = 1152"
definition ARM64_COMMAND_LINE_MAX :: nat where "ARM64_COMMAND_LINE_MAX = 1023"
definition VMAPPLE_PAGE_SIZE :: u64 where "VMAPPLE_PAGE_SIZE = 16 * 1024"
definition ARM64_DARK_BOOT :: u64 where "ARM64_DARK_BOOT = 1"

record arm64_boot_video =
  av_base_address :: u64
  av_display :: u64
  av_row_bytes :: u64
  av_width :: u64
  av_height :: u64
  av_depth :: u64

definition boot_video_default :: arm64_boot_video where
  "boot_video_default = \<lparr> av_base_address = 0, av_display = 0, av_row_bytes = 0,
     av_width = 0, av_height = 0, av_depth = 0 \<rparr>"

text \<open>The command line is its UTF-8 bytes.\<close>

record arm64_boot_args_input =
  ai_physical_base :: u64
  ai_virtual_base :: u64
  ai_memory_size :: u64
  ai_actual_memory_size :: u64
  ai_top_of_kernel_data :: u64
  ai_kernel_phys :: u64
  ai_kernel_size :: u64
  ai_boot_args_phys :: u64
  ai_device_tree_phys :: u64
  ai_device_tree :: byte_string
  ai_command_line :: byte_string
  ai_machine_type :: u32
  ai_boot_flags :: u64
  ai_video :: arm64_boot_video

datatype arm64_boot_args_error =
    Aba_InvalidCommandLine
  | Aba_UnsupportedBootFlags
  | Aba_InvalidMemoryRange
  | Aba_InvalidVirtualRange
  | Aba_InvalidKernelRange
  | Aba_InvalidOccupiedTop
  | Aba_InvalidArgumentRange
  | Aba_InvalidDeviceTree
  | Aba_MissingDramProperties
  | Aba_InvalidDramProperties
  | Aba_HandoffOutsideOccupiedMemory
  | Aba_OverlappingHandoff
  | Aba_OutOfFuel \<comment> \<open>the bound of the recursion below; never reached, not a value of the source\<close>

record arm64_boot_args_encoding =
  ae_bytes :: byte_string
  ae_physical_address :: u64
  ae_device_tree_virtual_address :: u64

definition execution_ready :: "arm64_boot_args_encoding \<Rightarrow> bool" where
  "execution_ready e = False"

record addr_range =
  range_start :: u64
  range_end :: u64

definition range_new :: "u64 \<Rightarrow> u64 \<Rightarrow> arm64_boot_args_error \<Rightarrow> arm64_boot_args_error + addr_range" where
  "range_new start count error =
     (if count = 0 then Inl error
      else and_then (ok_or (checked_add start count) error) (\<lambda>stop.
           Inr \<lparr> range_start = start, range_end = stop \<rparr>))"

definition range_contains :: "addr_range \<Rightarrow> addr_range \<Rightarrow> bool" where
  "range_contains r other \<longleftrightarrow> range_start r \<le> range_start other \<and> range_end other \<le> range_end r"

definition range_overlaps :: "addr_range \<Rightarrow> addr_range \<Rightarrow> bool" where
  "range_overlaps r other \<longleftrightarrow> range_start r < range_end other \<and> range_start other < range_end r"

section \<open>The memory properties of the device tree\<close>

text \<open>The cursor is the bytes and an offset into them.\<close>

definition cursor_take ::
  "byte_string \<Rightarrow> nat \<Rightarrow> nat \<Rightarrow> arm64_boot_args_error + (byte_string \<times> nat)" where
  "cursor_take bytes offset count =
     and_then (ok_or (usize_add offset count) Aba_InvalidDeviceTree) (\<lambda>stop.
     and_then (ok_or (get_range bytes offset stop) Aba_InvalidDeviceTree) (\<lambda>result.
     Inr (result, stop)))"

definition cursor_u32 :: "byte_string \<Rightarrow> nat \<Rightarrow> arm64_boot_args_error + (u32 \<times> nat)" where
  "cursor_u32 bytes offset =
     and_then (cursor_take bytes offset 4) (\<lambda>(raw, offset). Inr (from_le_bytes raw, offset))"

text \<open>The byte strings \<^verbatim>\<open>b"chosen\0"\<close>, \<^verbatim>\<open>b"dram-base"\<close> and \<^verbatim>\<open>b"dram-size"\<close>.\<close>

definition chosen_name :: byte_string where
  "chosen_name = [0x63, 0x68, 0x6f, 0x73, 0x65, 0x6e]"

definition dram_base_key :: byte_string where
  "dram_base_key = [0x64, 0x72, 0x61, 0x6d, 0x2d, 0x62, 0x61, 0x73, 0x65]"

definition dram_size_key :: byte_string where
  "dram_size_key = [0x64, 0x72, 0x61, 0x6d, 0x2d, 0x73, 0x69, 0x7a, 0x65]"

text \<open>The three local variables of a node: \<^verbatim>\<open>chosen\<close>, \<^verbatim>\<open>base\<close>, \<^verbatim>\<open>size\<close>.\<close>

record dram_locals =
  dl_chosen :: bool
  dl_base :: "byte_string option"
  dl_size :: "byte_string option"

definition dram_property :: "nat \<Rightarrow> byte_string \<Rightarrow> byte_string \<Rightarrow> dram_locals \<Rightarrow> dram_locals" where
  "dram_property depth name val l =
     (if name = name_key then l\<lparr> dl_chosen := depth = 1 \<and> val = chosen_name @ [0] \<rparr>
      else if depth = 1 \<and> name = dram_base_key then l\<lparr> dl_base := Some val \<rparr>
      else if depth = 1 \<and> name = dram_size_key then l\<lparr> dl_size := Some val \<rparr>
      else l)"

fun read_dram_properties ::
  "byte_string \<Rightarrow> nat \<Rightarrow> nat \<Rightarrow> dram_locals \<Rightarrow> nat \<Rightarrow> arm64_boot_args_error + (dram_locals \<times> nat)" where
  "read_dram_properties bytes depth 0 l offset = Inr (l, offset)"
| "read_dram_properties bytes depth (Suc left) l offset =
     and_then (cursor_take bytes offset 32) (\<lambda>(raw_name, offset).
     let name = (case position_zero raw_name of None \<Rightarrow> raw_name | Some i \<Rightarrow> take i raw_name) in
     and_then (cursor_u32 bytes offset) (\<lambda>(length32, offset).
     let len = unat length32 in
     and_then (cursor_take bytes offset len) (\<lambda>(val, offset).
     and_then (cursor_take bytes offset ((4 - len mod 4) mod 4)) (\<lambda>(_, offset).
     read_dram_properties bytes depth left (dram_property depth name val l) offset))))"

text \<open>\<^verbatim>\<open>u64::from_le_bytes(value.try_into()?)\<close>.\<close>

definition exact_u64 :: "byte_string \<Rightarrow> arm64_boot_args_error + u64" where
  "exact_u64 bs = (if length bs = 8 then Inr (from_le_bytes bs) else Inl Aba_InvalidDramProperties)"

definition chosen_dram :: "dram_locals \<Rightarrow> arm64_boot_args_error + addr_range" where
  "chosen_dram l =
     and_then (ok_or (dl_base l) Aba_MissingDramProperties) (\<lambda>base.
     and_then (ok_or (dl_size l) Aba_MissingDramProperties) (\<lambda>size.
     and_then (exact_u64 base) (\<lambda>base.
     and_then (exact_u64 size) (\<lambda>size.
     range_new base size Aba_InvalidDramProperties))))"

text \<open>
  The recursion is bounded by \<open>fuel\<close>: every node takes at least its eight header bytes, so a
  tree nests at most as deep as it has bytes, which is the fuel \<open>dram_range\<close> gives.
\<close>

fun read_dram_node ::
    "nat \<Rightarrow> byte_string \<Rightarrow> nat \<Rightarrow> nat \<Rightarrow> addr_range option \<Rightarrow>
     arm64_boot_args_error + (addr_range option \<times> nat)"
  and read_dram_children ::
    "nat \<Rightarrow> byte_string \<Rightarrow> nat \<Rightarrow> nat \<Rightarrow> nat \<Rightarrow> addr_range option \<Rightarrow>
     arm64_boot_args_error + (addr_range option \<times> nat)" where
  "read_dram_node 0 bytes depth offset dram = Inl Aba_OutOfFuel"
| "read_dram_node (Suc fuel) bytes depth offset dram =
     and_then (cursor_u32 bytes offset) (\<lambda>(properties, offset).
     and_then (cursor_u32 bytes offset) (\<lambda>(children, offset).
     and_then (read_dram_properties bytes depth (unat properties)
         \<lparr> dl_chosen = False, dl_base = None, dl_size = None \<rparr> offset) (\<lambda>(l, offset).
     and_then (if dl_chosen l then and_then (chosen_dram l) (\<lambda>r. Inr (Some r)) else Inr dram)
       (\<lambda>dram.
     read_dram_children fuel bytes (unat children) (depth + 1) offset dram))))"
| "read_dram_children fuel bytes 0 depth offset dram = Inr (dram, offset)"
| "read_dram_children fuel bytes (Suc left) depth offset dram =
     and_then (read_dram_node fuel bytes depth offset dram) (\<lambda>(dram, offset).
     read_dram_children fuel bytes left depth offset dram)"

definition dram_range :: "byte_string \<Rightarrow> arm64_boot_args_error + addr_range" where
  "dram_range bytes =
     and_then (read_dram_node (length bytes + 1) bytes 0 0 None) (\<lambda>(dram, offset).
     ok_or dram Aba_MissingDramProperties)"

section \<open>Encoding\<close>

definition is_ascii :: "byte_string \<Rightarrow> bool" where
  "is_ascii bs \<longleftrightarrow> list_all (\<lambda>b. b < 0x80) bs"

definition put_fields :: "(nat \<times> u64) list \<Rightarrow> byte_string \<Rightarrow> byte_string" where
  "put_fields entries bytes =
     foldl (\<lambda>bytes (offset, val). put_bytes bytes offset (to_le_bytes val)) bytes entries"

text \<open>The block that the last part of \<^verbatim>\<open>encode_arm64_boot_args\<close> fills in.\<close>

definition boot_args_fields :: "arm64_boot_args_input \<Rightarrow> u64 \<Rightarrow> (nat \<times> u64) list" where
  "boot_args_fields i dt_virtual =
     [(8, ai_virtual_base i), (16, ai_physical_base i), (24, ai_memory_size i),
      (32, ai_top_of_kernel_data i), (40, av_base_address (ai_video i)),
      (48, av_display (ai_video i)), (56, av_row_bytes (ai_video i)), (64, av_width (ai_video i)),
      (72, av_height (ai_video i)), (80, av_depth (ai_video i)), (96, dt_virtual),
      (1136, ai_boot_flags i), (1144, ai_actual_memory_size i)]"

definition boot_args_bytes :: "arm64_boot_args_input \<Rightarrow> u32 \<Rightarrow> u64 \<Rightarrow> byte_string" where
  "boot_args_bytes i dt_length dt_virtual =
     (let bytes = replicate ARM64_BOOT_ARGS_SIZE 0;
          bytes = put_bytes bytes 0 (to_le_bytes (2 :: u16));
          bytes = put_bytes bytes 2 (to_le_bytes (2 :: u16));
          bytes = put_fields (boot_args_fields i dt_virtual) bytes;
          bytes = put_bytes bytes 88 (to_le_bytes (ai_machine_type i));
          bytes = put_bytes bytes 104 (to_le_bytes dt_length)
      in put_bytes bytes 108 (ai_command_line i))"

definition encode_arm64_boot_args ::
  "arm64_boot_args_input \<Rightarrow> arm64_boot_args_error + arm64_boot_args_encoding" where
  "encode_arm64_boot_args i =
     (if ARM64_COMMAND_LINE_MAX < length (ai_command_line i) \<or> \<not> is_ascii (ai_command_line i) \<or>
         0 \<in> set (ai_command_line i)
      then Inl Aba_InvalidCommandLine
      else if ai_boot_flags i AND NOT ARM64_DARK_BOOT \<noteq> 0 then Inl Aba_UnsupportedBootFlags
      else
      and_then (range_new (ai_physical_base i) (ai_memory_size i) Aba_InvalidMemoryRange) (\<lambda>ram.
      if ai_physical_base i mod VMAPPLE_PAGE_SIZE \<noteq> 0 \<or> ai_memory_size i mod VMAPPLE_PAGE_SIZE \<noteq> 0
      then Inl Aba_InvalidMemoryRange
      else
      and_then (range_new (ai_virtual_base i) (ai_memory_size i) Aba_InvalidVirtualRange) (\<lambda>_.
      if ai_virtual_base i mod VMAPPLE_PAGE_SIZE \<noteq> 0 then Inl Aba_InvalidVirtualRange
      else let top = ai_top_of_kernel_data i in
      if top \<le> range_start ram \<or> range_end ram \<le> top \<or> top mod VMAPPLE_PAGE_SIZE \<noteq> 0
      then Inl Aba_InvalidOccupiedTop
      else let occupied = \<lparr> range_start = range_start ram, range_end = top \<rparr> in
      and_then (range_new (ai_kernel_phys i) (ai_kernel_size i) Aba_InvalidKernelRange) (\<lambda>kernel.
      if ai_kernel_phys i mod VMAPPLE_PAGE_SIZE \<noteq> 0 \<or> \<not> range_contains occupied kernel
      then Inl Aba_InvalidKernelRange
      else
      and_then (range_new (ai_boot_args_phys i) (of_nat ARM64_BOOT_ARGS_SIZE)
          Aba_InvalidArgumentRange) (\<lambda>args.
      if ai_boot_args_phys i mod 8 \<noteq> 0 then Inl Aba_InvalidArgumentRange
      else
      and_then (ok_or (u32_of_usize (length (ai_device_tree i))) Aba_InvalidDeviceTree)
        (\<lambda>dt_length.
      if ai_device_tree_phys i mod 4 \<noteq> 0 \<or> dt_length mod 4 \<noteq> 0 then Inl Aba_InvalidDeviceTree
      else
      and_then (range_new (ai_device_tree_phys i) (ucast dt_length) Aba_InvalidDeviceTree) (\<lambda>dt.
      and_then (map_err (\<lambda>_. Aba_InvalidDeviceTree) (validate (ai_device_tree i))) (\<lambda>_.
      and_then (dram_range (ai_device_tree i)) (\<lambda>dram.
      if range_start dram mod VMAPPLE_PAGE_SIZE \<noteq> 0 \<or>
         (range_end dram - range_start dram) mod VMAPPLE_PAGE_SIZE \<noteq> 0 \<or>
         range_end dram - range_start dram \<noteq> ai_actual_memory_size i \<or>
         \<not> range_contains dram ram
      then Inl Aba_InvalidDramProperties
      else if \<not> range_contains occupied args \<or> \<not> range_contains occupied dt
      then Inl Aba_HandoffOutsideOccupiedMemory
      else if range_overlaps args dt \<or> range_overlaps args kernel \<or> range_overlaps dt kernel
      then Inl Aba_OverlappingHandoff
      else if range_start args < range_end kernel \<or> range_start dt < range_end kernel
      then Inl Aba_HandoffOutsideOccupiedMemory
      else
      and_then (ok_or (checked_sub (range_start dt) (range_start ram)) Aba_InvalidDeviceTree)
        (\<lambda>relative.
      and_then (ok_or (checked_add (ai_virtual_base i) relative) Aba_InvalidVirtualRange)
        (\<lambda>dt_virtual.
      Inr \<lparr> ae_bytes = boot_args_bytes i dt_length dt_virtual,
            ae_physical_address = ai_boot_args_phys i,
            ae_device_tree_virtual_address = dt_virtual \<rparr>)))))))))))"

section \<open>The shared contracts\<close>

interpretation boot_cursor: cursor_reader cursor_take Aba_InvalidDeviceTree
  by unfold_locales
    (auto simp: cursor_take_def ok_or_def usize_add_def get_range_def)

interpretation boot_interval: interval_test
  "\<lambda>a a' b b'. range_overlaps \<lparr> range_start = a, range_end = a' \<rparr> \<lparr> range_start = b, range_end = b' \<rparr>"
  by unfold_locales (simp add: range_overlaps_def)

end
