(* ===== verification/Arm64_Boot_Args_Proofs.thy ===== *)
theory Arm64_Boot_Args_Proofs
  imports Arm64_Boot_Args Flat_Dt_Roundtrip
begin

text \<open>
  The boot-argument block: its layout, the geometry a successful encoding guarantees, and the
  reading of \<^verbatim>\<open>/chosen\<close> against the tree that \<open>encode\<close> wrote.
\<close>

section \<open>The layout of the block\<close>

definition word64_at :: "byte_string \<Rightarrow> nat \<Rightarrow> u64" where
  "word64_at bytes off = from_le_bytes (take 8 (drop off bytes))"

definition word32_at :: "byte_string \<Rightarrow> nat \<Rightarrow> u32" where
  "word32_at bytes off = from_le_bytes (take 4 (drop off bytes))"

definition word16_at :: "byte_string \<Rightarrow> nat \<Rightarrow> u16" where
  "word16_at bytes off = from_le_bytes (take 2 (drop off bytes))"

text \<open>All the writes into the block, as one list.\<close>

definition boot_args_chunks :: "arm64_boot_args_input \<Rightarrow> u32 \<Rightarrow> u64 \<Rightarrow> (nat \<times> byte_string) list" where
  "boot_args_chunks i d v =
     [(0, to_le_bytes (2 :: u16)), (2, to_le_bytes (2 :: u16))] @
     map (\<lambda>(off, w). (off, to_le_bytes w)) (boot_args_fields i v) @
     [(88, to_le_bytes (ai_machine_type i)), (104, to_le_bytes d), (108, ai_command_line i)]"

lemma boot_args_bytes_chunks:
  "boot_args_bytes i d v = put_chunks (boot_args_chunks i d v) (replicate 1152 0)"
  by (simp add: boot_args_bytes_def boot_args_chunks_def boot_args_fields_def put_fields_def
      Let_def ARM64_BOOT_ARGS_SIZE_def)

lemma boot_args_chunks_ok:
  assumes "length (ai_command_line i) \<le> 1023"
  shows "chunks_fit (length (replicate 1152 (0 :: u8))) (boot_args_chunks i d v)"
    and "sorted_wrt chunk_apart (boot_args_chunks i d v)"
  using assms by (simp_all add: boot_args_chunks_def boot_args_fields_def chunk_apart_def)

lemma boot_args_bytes_reads:
  assumes cmd: "length (ai_command_line i) \<le> 1023"
  shows "length (boot_args_bytes i d v) = 1152"
    and "word16_at (boot_args_bytes i d v) 0 = 2" and "word16_at (boot_args_bytes i d v) 2 = 2"
    and "(off, w) \<in> set (boot_args_fields i v) \<Longrightarrow> word64_at (boot_args_bytes i d v) off = w"
    and "word32_at (boot_args_bytes i d v) 88 = ai_machine_type i"
    and "word32_at (boot_args_bytes i d v) 104 = d"
    and "take (length (ai_command_line i)) (drop 108 (boot_args_bytes i d v)) = ai_command_line i"
    and "boot_args_bytes i d v ! (108 + length (ai_command_line i)) = 0"
proof -
  note ok = boot_args_chunks_ok [OF cmd, of d v]
  have read: "take (length src) (drop off (boot_args_bytes i d v)) = src"
    if "(off, src) \<in> set (boot_args_chunks i d v)" for off src
    unfolding boot_args_bytes_chunks by (rule put_chunks_read [OF ok that])
  note mem = boot_args_chunks_def
  show "length (boot_args_bytes i d v) = 1152"
    unfolding boot_args_bytes_chunks using length_put_chunks [OF ok(1)] by simp
  show "word16_at (boot_args_bytes i d v) 0 = 2" "word16_at (boot_args_bytes i d v) 2 = 2"
    using read [of 0 "to_le_bytes (2 :: u16)"] read [of 2 "to_le_bytes (2 :: u16)"]
    by (simp_all add: mem word16_at_def)
  show "word64_at (boot_args_bytes i d v) off = w" if "(off, w) \<in> set (boot_args_fields i v)"
  proof -
    have "(off, to_le_bytes w) \<in> set (boot_args_chunks i d v)"
      using that by (force simp: mem)
    from read [OF this] show ?thesis by (simp add: word64_at_def)
  qed
  show "word32_at (boot_args_bytes i d v) 88 = ai_machine_type i"
    "word32_at (boot_args_bytes i d v) 104 = d"
    using read [of 88 "to_le_bytes (ai_machine_type i)"] read [of 104 "to_le_bytes d"]
    by (simp_all add: mem word32_at_def)
  show "take (length (ai_command_line i)) (drop 108 (boot_args_bytes i d v)) = ai_command_line i"
    by (rule read) (simp add: mem)
  show "boot_args_bytes i d v ! (108 + length (ai_command_line i)) = 0"
    unfolding boot_args_bytes_chunks using cmd
    by (subst put_chunks_nth_elsewhere [OF ok(1)]) (auto simp: mem boot_args_fields_def)
qed

section \<open>What a successful encoding checked\<close>

lemma range_new_Inr [result_iff]:
  "range_new start count error = Inr r \<longleftrightarrow>
   count \<noteq> 0 \<and> (\<exists>stop. checked_add start count = Some stop \<and>
     r = \<lparr> range_start = start, range_end = stop \<rparr>)"
  by (auto simp: range_new_def ok_or_Inr and_then_Inr)

definition range_set :: "u64 \<Rightarrow> nat \<Rightarrow> nat set" where
  "range_set start count = {unat start ..< unat start + count}"

lemma encode_arm64_Inr:
  assumes "encode_arm64_boot_args i = Inr e"
  shows "\<exists>ram_end kernel_end args_end dt_len dt_end dram relative v w.
    length (ai_command_line i) \<le> ARM64_COMMAND_LINE_MAX \<and>
    0 \<notin> set (ai_command_line i) \<and>
    checked_add (ai_physical_base i) (ai_memory_size i) = Some ram_end \<and>
    checked_add (ai_virtual_base i) (ai_memory_size i) = Some w \<and>
    ai_physical_base i < ai_top_of_kernel_data i \<and> ai_top_of_kernel_data i < ram_end \<and>
    ai_kernel_size i \<noteq> 0 \<and>
    checked_add (ai_kernel_phys i) (ai_kernel_size i) = Some kernel_end \<and>
    ai_physical_base i \<le> ai_kernel_phys i \<and> kernel_end \<le> ai_top_of_kernel_data i \<and>
    checked_add (ai_boot_args_phys i) (of_nat ARM64_BOOT_ARGS_SIZE) = Some args_end \<and>
    u32_of_usize (length (ai_device_tree i)) = Some dt_len \<and> dt_len \<noteq> 0 \<and>
    checked_add (ai_device_tree_phys i) (ucast dt_len) = Some dt_end \<and>
    validate (ai_device_tree i) = Inr () \<and>
    dram_range (ai_device_tree i) = Inr dram \<and>
    range_end dram - range_start dram = ai_actual_memory_size i \<and>
    range_start dram \<le> ai_physical_base i \<and> ram_end \<le> range_end dram \<and>
    args_end \<le> ai_top_of_kernel_data i \<and> dt_end \<le> ai_top_of_kernel_data i \<and>
    \<not> range_overlaps \<lparr> range_start = ai_boot_args_phys i, range_end = args_end \<rparr>
        \<lparr> range_start = ai_device_tree_phys i, range_end = dt_end \<rparr> \<and>
    kernel_end \<le> ai_boot_args_phys i \<and> kernel_end \<le> ai_device_tree_phys i \<and>
    checked_sub (ai_device_tree_phys i) (ai_physical_base i) = Some relative \<and>
    checked_add (ai_virtual_base i) relative = Some v \<and>
    e = \<lparr> ae_bytes = boot_args_bytes i dt_len v, ae_physical_address = ai_boot_args_phys i,
          ae_device_tree_virtual_address = v \<rparr>"
  using assms
  by (auto simp: encode_arm64_boot_args_def result_iff range_contains_def Let_def not_less not_le
      split: if_splits)

section \<open>The device tree behind the bytes\<close>

text \<open>
  The specification of \<open>dram_range\<close> on the tree itself: the child of the root called
  \<^verbatim>\<open>chosen\<close> and its two properties.
\<close>

definition tree_property :: "byte_string \<Rightarrow> flat_node \<Rightarrow> byte_string option" where
  "tree_property key n = map_option property_value (find (\<lambda>p. property_name p = key) (node_properties n))"

definition node_dram :: "flat_node \<Rightarrow> arm64_boot_args_error + addr_range" where
  "node_dram n = chosen_dram
     \<lparr> dl_chosen = True, dl_base = tree_property dram_base_key n,
       dl_size = tree_property dram_size_key n \<rparr>"

definition tree_dram :: "flat_node \<Rightarrow> arm64_boot_args_error + addr_range" where
  "tree_dram root =
     (case find (\<lambda>c. node_name c = chosen_name) (node_children root) of
        None \<Rightarrow> Inl Aba_MissingDramProperties
      | Some c \<Rightarrow> node_dram c)"

text \<open>Reading one property that the encoder wrote.\<close>

lemma cursor_take_at:
  assumes "bytes = pre @ ys @ zs" and "offset = length pre" and "n = length ys"
    and "length bytes < 2 ^ 64"
  shows "cursor_take bytes offset n = Inr (ys, offset + n)"
  using assms boot_cursor.take_at_append [of pre ys zs] by simp

lemma cursor_u32_at:
  assumes "bytes = pre @ to_le_bytes w @ zs" and "offset = length pre"
    and "length bytes < 2 ^ 64"
  shows "cursor_u32 bytes offset = Inr (w, offset + 4)"
proof -
  have "cursor_take bytes offset 4 = Inr (to_le_bytes w, offset + 4)"
    by (rule cursor_take_at [OF assms(1,2) _ assms(3)]) simp
  then show ?thesis by (simp add: cursor_u32_def)
qed

lemma read_dram_property_enc:
  assumes bytes: "bytes = pre @ enc_property name val @ suf" and off: "offset = length pre"
    and len: "length bytes < 2 ^ 64"
    and name: "check_property_name name = Inr ()" and val: "length val \<le> MAX_SERIALIZED_SIZE"
  shows "read_dram_properties bytes depth (Suc left) l offset =
    read_dram_properties bytes depth left (dram_property depth name val l)
      (offset + length (enc_property name val))"
proof -
  let ?wire = "name @ replicate (32 - length name) 0"
  let ?len = "to_le_bytes (of_nat (length val) :: u32)"
  let ?pad = "replicate ((4 - length val mod 4) mod 4) (0 :: u8)"
  have nm: "length name \<le> MAX_PROPERTY_NAME" and pr: "printable name"
    using name by (simp_all add: check_property_name_Inr)
  have nm32: "length name \<le> 32" using nm by (simp add: flat_dt_limits)
  have size: "unat (of_nat (length val) :: u32) = length val"
    using val by (simp add: unat_of_nat flat_dt_limits)
  have t1: "cursor_take bytes offset 32 = Inr (?wire, offset + 32)"
    by (rule cursor_take_at [OF _ off _ len, where zs = "?len @ val @ ?pad @ suf"])
      (use nm32 in \<open>simp_all add: bytes enc_property_def\<close>)
  have t2: "cursor_u32 bytes (offset + 32) = Inr (of_nat (length val), offset + 32 + 4)"
    by (rule cursor_u32_at [OF _ _ len, where pre = "pre @ ?wire" and zs = "val @ ?pad @ suf"])
      (use nm32 in \<open>simp_all add: bytes enc_property_def off\<close>)
  have t3: "cursor_take bytes (offset + 32 + 4) (length val) = Inr (val, offset + 32 + 4 + length val)"
    by (rule cursor_take_at [OF _ _ _ len, where pre = "pre @ ?wire @ ?len" and zs = "?pad @ suf"])
      (use nm32 in \<open>simp_all add: bytes enc_property_def off\<close>)
  have t4: "cursor_take bytes (offset + 32 + 4 + length val) ((4 - length val mod 4) mod 4) =
      Inr (?pad, offset + 32 + 4 + length val + (4 - length val mod 4) mod 4)"
    by (rule cursor_take_at [OF _ _ _ len, where pre = "pre @ ?wire @ ?len @ val" and zs = suf])
      (use nm32 in \<open>simp_all add: bytes enc_property_def off\<close>)
  have pos: "position_zero ?wire = Some (length name)"
    unfolding wire_name_split [OF nm]
    by (rule position_zero_append) (use pr in \<open>auto dest: printable_nonzero\<close>)
  have total: "offset + 32 + 4 + length val + (4 - length val mod 4) mod 4 =
      offset + length (enc_property name val)"
    using nm32 by (simp add: length_enc_property round4_eq)
  have cut: "take (length name) ?wire = name" by simp
  show ?thesis
    unfolding read_dram_properties.simps t1 and_then_simps prod.case pos option.case cut Let_def
      t2 size t3 t4 total ..
qed

text \<open>The locals after the properties of a node, by the properties themselves.\<close>

fun dram_properties :: "nat \<Rightarrow> flat_property list \<Rightarrow> dram_locals \<Rightarrow> dram_locals" where
  "dram_properties depth [] l = l"
| "dram_properties depth (p # ps) l =
     dram_properties depth ps (dram_property depth (property_name p) (property_value p) l)"

lemma read_dram_properties_enc:
  assumes "bytes = pre @ enc_properties ps @ suf" and "offset = length pre"
    and "length bytes < 2 ^ 64" and "measure_properties earlier ps b = Inr b'"
  shows "read_dram_properties bytes depth (length ps) l offset =
    Inr (dram_properties depth ps l, offset + length (enc_properties ps))"
  using assms
proof (induction ps arbitrary: pre earlier offset b l)
  case (Cons p ps)
  from Cons.prems(4) obtain b1 where p: "check_property_name (property_name p) = Inr ()"
    and val: "length (property_value p) \<le> MAX_SERIALIZED_SIZE"
    and rest: "measure_properties (earlier @ [property_name p]) ps b1 = Inr b'"
    by (rule measure_properties_Cons)
  let ?e = "enc_property (property_name p) (property_value p)"
  have "read_dram_properties bytes depth (Suc (length ps)) l offset =
    read_dram_properties bytes depth (length ps)
      (dram_property depth (property_name p) (property_value p) l) (offset + length ?e)"
    by (rule read_dram_property_enc [OF _ Cons.prems(2,3) p val, where suf = "enc_properties ps @ suf"])
      (use Cons.prems(1) in simp)
  also have "\<dots> = Inr (dram_properties depth (p # ps) l, offset + length ?e + length (enc_properties ps))"
    using Cons.IH [OF _ _ Cons.prems(3) rest, of "pre @ ?e" "offset + length ?e"] Cons.prems(1,2)
    by simp
  finally show ?case by simp
qed simp

lemma dram_keys:
  "dram_base_key \<noteq> name_key" "dram_size_key \<noteq> name_key" "dram_base_key \<noteq> dram_size_key"
  by (simp_all add: dram_base_key_def dram_size_key_def name_key_def)

lemma measure_properties_distinct:
  assumes "measure_properties earlier ps b = Inr b'"
  shows "distinct (map property_name ps) \<and> property_name ` set ps \<inter> set earlier = {}"
  using assms
proof (induction ps arbitrary: earlier b)
  case (Cons p ps)
  from Cons.prems obtain b1 where "property_name p \<notin> set earlier"
    and "measure_properties (earlier @ [property_name p]) ps b1 = Inr b'"
    by (rule measure_properties_Cons)
  then show ?case using Cons.IH by fastforce
qed simp

lemma measure_children_distinct:
  assumes "measure_children earlier cs d b = Inr b'"
  shows "distinct (map node_name cs) \<and> node_name ` set cs \<inter> set earlier = {}"
  using assms
proof (induction cs arbitrary: earlier b)
  case (Cons c cs)
  from Cons.prems obtain b1 where "node_name c \<notin> set earlier"
    and "measure_children (earlier @ [node_name c]) cs d b1 = Inr b'"
    by (rule measure_children_Cons)
  then show ?case using Cons.IH by fastforce
qed simp

text \<open>Distinct property names: the last value of a key is its only one.\<close>

lemma dram_properties_eq:
  assumes "measure_properties earlier ps b = Inr b'"
  shows "dram_properties depth ps l = l
    \<lparr> dl_base := (if depth = 1 then
         (case find (\<lambda>p. property_name p = dram_base_key) ps of
            None \<Rightarrow> dl_base l | Some p \<Rightarrow> Some (property_value p)) else dl_base l),
      dl_size := (if depth = 1 then
         (case find (\<lambda>p. property_name p = dram_size_key) ps of
            None \<Rightarrow> dl_size l | Some p \<Rightarrow> Some (property_value p)) else dl_size l) \<rparr>"
  using assms
proof (induction ps arbitrary: earlier b l)
  case (Cons p ps)
  from Cons.prems obtain b1 where key: "property_name p \<noteq> name_key"
    and rest: "measure_properties (earlier @ [property_name p]) ps b1 = Inr b'"
    by (rule measure_properties_Cons)
  have "property_name p \<notin> property_name ` set ps"
    using measure_properties_distinct [OF rest] by auto
  then have new: "find (\<lambda>q. property_name q = property_name p) ps = None"
    unfolding find_None_iff by (metis image_eqI)
  note IH = Cons.IH [OF rest, of "dram_property depth (property_name p) (property_value p) l"]
  consider "depth = 1" "property_name p = dram_base_key" | "depth = 1" "property_name p = dram_size_key"
    | "depth \<noteq> 1 \<or> property_name p \<noteq> dram_base_key \<and> property_name p \<noteq> dram_size_key" by blast
  then show ?case
    unfolding dram_properties.simps IH
    using new key dram_keys by cases (simp_all add: dram_property_def split: option.splits)
qed simp

text \<open>The same walk over the tree instead of its bytes.\<close>

fun walk_node :: "nat \<Rightarrow> flat_node \<Rightarrow> addr_range option \<Rightarrow> arm64_boot_args_error + addr_range option"
  and walk_children ::
    "nat \<Rightarrow> flat_node list \<Rightarrow> addr_range option \<Rightarrow> arm64_boot_args_error + addr_range option" where
  "walk_node depth (FlatNode name ps cs) dram =
     and_then (if depth = 1 \<and> name = chosen_name
               then and_then (node_dram (FlatNode name ps cs)) (\<lambda>r. Inr (Some r)) else Inr dram)
       (walk_children (depth + 1) cs)"
| "walk_children depth [] dram = Inr dram"
| "walk_children depth (c # cs) dram = and_then (walk_node depth c dram) (walk_children depth cs)"

lemma and_then_assoc: "and_then (and_then r f) g = and_then r (\<lambda>a. and_then (f a) g)"
  by (cases r) simp_all

lemma dram_locals_node:
  fixes name :: byte_string and depth :: nat
  assumes "measure_properties [] ps b = Inr b'"
  defines "l \<equiv> dram_properties depth ps
    (dram_property depth name_key (name @ [0]) \<lparr> dl_chosen = False, dl_base = None, dl_size = None \<rparr>)"
  shows "(if dl_chosen l then and_then (chosen_dram l) (\<lambda>r. Inr (Some r)) else Inr dram) =
    (if depth = 1 \<and> name = chosen_name
     then and_then (node_dram (FlatNode name ps cs)) (\<lambda>r. Inr (Some r)) else Inr dram)"
  unfolding l_def dram_properties_eq [OF assms(1)]
  by (auto simp: dram_property_def node_dram_def tree_property_def chosen_dram_def
      split: option.splits)

lemma read_dram_enc:
  "bytes = pre @ enc_node n @ suf \<Longrightarrow> offset = length pre \<Longrightarrow> length bytes < 2 ^ 64 \<Longrightarrow>
   measure_node n depth b = Inr b' \<Longrightarrow> length (enc_node n) \<le> fuel \<Longrightarrow>
   read_dram_node fuel bytes depth offset dram =
     and_then (walk_node depth n dram) (\<lambda>dram. Inr (dram, offset + length (enc_node n)))"
  "bytes = pre @ enc_children cs @ suf \<Longrightarrow> offset = length pre \<Longrightarrow> length bytes < 2 ^ 64 \<Longrightarrow>
   measure_children earlier cs depth b = Inr b' \<Longrightarrow> length (enc_children cs) \<le> fuel \<Longrightarrow>
   read_dram_children fuel bytes (length cs) (depth + 1) offset dram =
     and_then (walk_children (depth + 1) cs dram)
       (\<lambda>dram. Inr (dram, offset + length (enc_children cs)))"
proof (induction n and cs arbitrary: pre suf offset depth b b' fuel dram
    and pre suf earlier offset depth b b' fuel dram rule: enc_node_enc_children.induct)
  case (1 name ps cs)
  from "1.prems"(4) obtain b1 b2 b3 where node: "budget_node b depth (length ps + 1) (length cs) = Inr b1"
    and name: "check_node_name name depth = Inr ()"
    and props: "measure_properties [] ps b2 = Inr b3" and kids: "measure_children [] cs depth b3 = Inr b'"
    by (rule measure_node_FlatNode)
  let ?h1 = "to_le_bytes (of_nat (length ps + 1) :: u32)" and ?h2 = "to_le_bytes (of_nat (length cs) :: u32)"
  let ?n = "enc_property name_key (name @ [0])" and ?p = "enc_properties ps" and ?c = "enc_children cs"
  obtain f where fuel: "fuel = Suc f" using "1.prems"(5) by (cases fuel) auto
  have "length ps + 1 \<le> 64" "length cs \<le> 64"
    using node by (auto simp: budget_node_def flat_dt_limits Let_def result_iff split: if_splits)
  then have counts: "unat (of_nat (length ps + 1) :: u32) = Suc (length ps)"
    "unat (of_nat (length cs) :: u32) = length cs"
    by (simp_all only: unat_of_nat) simp_all
  have nm: "length (name @ [0]) \<le> MAX_SERIALIZED_SIZE"
    using name by (simp add: check_node_name_Inr flat_dt_limits)
  have r1: "cursor_u32 bytes offset = Inr (of_nat (length ps + 1), offset + 4)"
    by (rule cursor_u32_at [OF _ "1.prems"(2,3), where zs = "?h2 @ ?n @ ?p @ ?c @ suf"])
      (use "1.prems"(1) in simp)
  have r2: "cursor_u32 bytes (offset + 4) = Inr (of_nat (length cs), offset + 4 + 4)"
    by (rule cursor_u32_at [OF _ _ "1.prems"(3), where pre = "pre @ ?h1" and zs = "?n @ ?p @ ?c @ suf"])
      (use "1.prems"(1,2) in simp_all)
  have r3: "read_dram_properties bytes depth (Suc (length ps)) l (offset + 4 + 4) =
      read_dram_properties bytes depth (length ps) (dram_property depth name_key (name @ [0]) l)
        (offset + 4 + 4 + length ?n)" for l
    by (rule read_dram_property_enc [OF _ _ "1.prems"(3) _ nm, where pre = "pre @ ?h1 @ ?h2"
          and suf = "?p @ ?c @ suf"])
      (use "1.prems"(1,2) name_key_props in \<open>simp_all add: check_property_name_Inr\<close>)
  have r4: "read_dram_properties bytes depth (length ps) l (offset + 4 + 4 + length ?n) =
      Inr (dram_properties depth ps l, offset + 4 + 4 + length ?n + length ?p)" for l
    by (rule read_dram_properties_enc [OF _ _ "1.prems"(3) props, where pre = "pre @ ?h1 @ ?h2 @ ?n"
          and suf = "?c @ suf"])
      (use "1.prems"(1,2) in simp_all)
  have r5: "read_dram_children f bytes (length cs) (depth + 1) (offset + 4 + 4 + length ?n + length ?p)
      = (\<lambda>dram. and_then (walk_children (depth + 1) cs dram)
          (\<lambda>dram. Inr (dram, offset + 4 + 4 + length ?n + length ?p + length ?c)))"
    by (rule ext, rule "1.IH" [OF _ _ "1.prems"(3) kids, where pre = "pre @ ?h1 @ ?h2 @ ?n @ ?p" and suf = suf])
      (use "1.prems"(1,2,5) fuel in simp_all)
  show ?case
    unfolding fuel read_dram_node.simps r1 r2 and_then_simps prod.case counts
    by (simp only: r3 r4 and_then_simps prod.case dram_locals_node [OF props, where cs = cs] r5)
      (simp add: and_then_assoc add_ac)
next
  case 2
  then show ?case by simp
next
  case (3 c cs)
  from "3.prems"(4) obtain b1 where c: "measure_node c (depth + 1) b = Inr b1"
    and rest: "measure_children (earlier @ [node_name c]) cs depth b1 = Inr b'"
    by (rule measure_children_Cons)
  have n: "read_dram_node fuel bytes (depth + 1) offset dram =
     and_then (walk_node (depth + 1) c dram) (\<lambda>dram. Inr (dram, offset + length (enc_node c)))"
    by (rule "3.IH"(1) [OF _ "3.prems"(2,3) c]) (use "3.prems" in auto)
  have k: "read_dram_children fuel bytes (length cs) (depth + 1) (offset + length (enc_node c)) =
     (\<lambda>dram. and_then (walk_children (depth + 1) cs dram)
       (\<lambda>dram. Inr (dram, offset + length (enc_node c) + length (enc_children cs))))"
    by (rule ext, rule "3.IH"(2) [OF _ _ "3.prems"(3) rest, where pre = "pre @ enc_node c" and suf = suf])
      (use "3.prems" in auto)
  show ?case
    using n k by (simp add: and_then_assoc add_ac)
qed

lemma walk_below:
  "2 \<le> depth \<Longrightarrow> walk_node depth n dram = Inr dram"
  "2 \<le> depth \<Longrightarrow> walk_children depth cs dram = Inr dram"
  by (induction depth n dram and depth cs dram rule: walk_node_walk_children.induct) auto

lemma walk_child:
  "walk_node 1 c dram = (if node_name c = chosen_name
     then and_then (node_dram c) (\<lambda>r. Inr (Some r)) else Inr dram)"
  by (cases c) (simp add: walk_below and_then_assoc)

lemma walk_siblings:
  assumes "distinct (map node_name cs)"
  shows "walk_children 1 cs dram = (case find (\<lambda>c. node_name c = chosen_name) cs of
     None \<Rightarrow> Inr dram | Some c \<Rightarrow> and_then (node_dram c) (\<lambda>r. Inr (Some r)))"
  using assms
proof (induction cs arbitrary: dram)
  case (Cons c cs)
  have "find (\<lambda>c. node_name c = chosen_name) cs = None" if "node_name c = chosen_name"
    using Cons.prems that unfolding find_None_iff by (metis image_eqI distinct.simps(2) list.simps(9) list.set_map)
  then show ?case
    using Cons.IH Cons.prems by (simp add: walk_child [simplified] and_then_assoc)
qed simp

lemma dram_range_enc:
  assumes "measure_node root 0 budget_default = Inr b"
  shows "dram_range (enc_node root) = tree_dram root"
proof -
  obtain name ps cs where root: "root = FlatNode name ps cs" by (cases root)
  from assms obtain b3 where kids: "measure_children [] cs 0 b3 = Inr b"
    unfolding root by (rule measure_node_FlatNode)
  have "length (enc_node root) \<le> MAX_SERIALIZED_SIZE"
    using measure_bytes(1) [OF assms] measure_limit(1) [OF assms] by (simp add: budget_default_def)
  then have len: "length (enc_node root) < 2 ^ 64" by (simp add: flat_dt_limits)
  have "read_dram_node (length (enc_node root) + 1) (enc_node root) 0 0 None =
    and_then (walk_node 0 root None) (\<lambda>dram. Inr (dram, length (enc_node root)))"
    by (rule read_dram_enc(1) [of "enc_node root" "[]" root "[]" 0, OF _ _ len assms, simplified]) simp
  also have "walk_node 0 root None = walk_children 1 cs None" by (simp add: root)
  also have "\<dots> = (case find (\<lambda>c. node_name c = chosen_name) cs of
     None \<Rightarrow> Inr None | Some c \<Rightarrow> and_then (node_dram c) (\<lambda>r. Inr (Some r)))"
    using measure_children_distinct [OF kids] by (intro walk_siblings) simp
  finally show ?thesis
    by (simp add: dram_range_def tree_dram_def root and_then_assoc split: option.splits)
      (cases "node_dram (FlatNode name ps cs)"; simp add: and_then_def split: sum.splits)
qed

section \<open>The recursion bound is never met\<close>

lemma cursor_take_progress:
  "cursor_take bytes offset n = Inr (ys, offset') \<Longrightarrow> offset' = offset + n \<and> offset' \<le> length bytes"
  by (auto simp: cursor_take_def result_iff word_nat)

lemma cursor_u32_progress:
  "cursor_u32 bytes offset = Inr (w, offset') \<Longrightarrow> offset' = offset + 4 \<and> offset' \<le> length bytes"
  by (auto simp: cursor_u32_def result_iff dest: cursor_take_progress)

lemma cursor_error: "cursor_take bytes offset n = Inl e \<Longrightarrow> e = Aba_InvalidDeviceTree"
  "cursor_u32 bytes offset = Inl e \<Longrightarrow> e = Aba_InvalidDeviceTree"
  by (auto simp: cursor_u32_def cursor_take_def result_iff)

lemma read_dram_properties_progress:
  "read_dram_properties bytes depth left l offset = Inr (l', offset') \<Longrightarrow> offset \<le> length bytes \<Longrightarrow>
   offset \<le> offset' \<and> offset' \<le> length bytes"
proof (induction left arbitrary: l offset)
  case (Suc left)
  then show ?case
    by (fastforce simp: result_iff Let_def dest!: cursor_take_progress cursor_u32_progress)
qed simp

lemma read_dram_properties_error:
  "read_dram_properties bytes depth left l offset = Inl e \<Longrightarrow> e = Aba_InvalidDeviceTree"
  by (induction left arbitrary: l offset)
    (auto simp: and_then_Inl Let_def dest: cursor_error)

lemma chosen_dram_error: "chosen_dram l \<noteq> Inl Aba_OutOfFuel"
  by (auto simp: chosen_dram_def exact_u64_def range_new_def ok_or_def and_then_def
      split: option.splits sum.splits if_splits)

lemma read_dram_progress:
  "read_dram_node fuel bytes depth offset dram = Inr (d, offset') \<Longrightarrow>
   offset + 8 \<le> offset' \<and> offset' \<le> length bytes"
  "read_dram_children fuel bytes left depth offset dram = Inr (d, offset') \<Longrightarrow>
   offset \<le> length bytes \<Longrightarrow> offset \<le> offset' \<and> offset' \<le> length bytes"
proof (induction fuel bytes depth offset dram and fuel bytes left depth offset dram
    arbitrary: d offset' and d offset' rule: read_dram_node_read_dram_children.induct)
  case (2 fuel bytes depth offset dram)
  from "2.prems" obtain properties o1 children o2 l o3 dram' where
    "cursor_u32 bytes offset = Inr (properties, o1)" "cursor_u32 bytes o1 = Inr (children, o2)"
    "read_dram_properties bytes depth (unat properties)
       \<lparr> dl_chosen = False, dl_base = None, dl_size = None \<rparr> o2 = Inr (l, o3)"
    "(if dl_chosen l then and_then (chosen_dram l) (\<lambda>r. Inr (Some r)) else Inr dram) = Inr dram'"
    "read_dram_children fuel bytes (unat children) (depth + 1) o3 dram' = Inr (d, offset')"
    by (auto simp only: read_dram_node.simps and_then_Inr split_paired_Ex prod.case)
  with "2.IH" [OF this(1) refl this(2) refl this(3) refl this(4) this(5)] show ?case
    by (auto dest!: cursor_u32_progress read_dram_properties_progress)
next
  case (4 fuel bytes left depth offset dram)
  from "4.prems" obtain dram' o1 where n: "read_dram_node fuel bytes depth offset dram = Inr (dram', o1)"
    and k: "read_dram_children fuel bytes left depth o1 dram' = Inr (d, offset')"
    by (auto simp only: read_dram_children.simps and_then_Inr split_paired_Ex prod.case)
  from "4.IH"(1) [OF n] "4.IH"(2) [OF n refl k] show ?case by auto
qed simp_all

lemma read_dram_fuel:
  "offset \<le> length bytes \<Longrightarrow> length bytes < offset + 8 * fuel \<Longrightarrow>
   read_dram_node fuel bytes depth offset dram \<noteq> Inl Aba_OutOfFuel"
  "offset \<le> length bytes \<Longrightarrow> length bytes < offset + 8 * fuel \<Longrightarrow>
   read_dram_children fuel bytes left depth offset dram \<noteq> Inl Aba_OutOfFuel"
proof (induction fuel bytes depth offset dram and fuel bytes left depth offset dram
    rule: read_dram_node_read_dram_children.induct)
  case (2 fuel bytes depth offset dram)
  show ?case
  proof
    assume "read_dram_node (Suc fuel) bytes depth offset dram = Inl Aba_OutOfFuel"
    then obtain properties o1 children o2 l o3 dram' where
      r: "cursor_u32 bytes offset = Inr (properties, o1)" "cursor_u32 bytes o1 = Inr (children, o2)"
      "read_dram_properties bytes depth (unat properties)
         \<lparr> dl_chosen = False, dl_base = None, dl_size = None \<rparr> o2 = Inr (l, o3)"
      "(if dl_chosen l then and_then (chosen_dram l) (\<lambda>r. Inr (Some r)) else Inr dram) = Inr dram'"
      "read_dram_children fuel bytes (unat children) (depth + 1) o3 dram' = Inl Aba_OutOfFuel"
      using chosen_dram_error
      by (fastforce simp: and_then_Inl dest: cursor_error read_dram_properties_error split: if_splits)
    have "o3 \<le> length bytes" "length bytes < o3 + 8 * fuel"
      using cursor_u32_progress [OF r(1)] cursor_u32_progress [OF r(2)]
        read_dram_properties_progress [OF r(3)] "2.prems" by auto
    with "2.IH" [OF r(1) refl r(2) refl r(3) refl r(4)] r(5) show False by blast
  qed
next
  case (4 fuel bytes left depth offset dram)
  show ?case
  proof
    assume "read_dram_children fuel bytes (Suc left) depth offset dram = Inl Aba_OutOfFuel"
    with "4.IH"(1) "4.prems" obtain dram' o1 where
      n: "read_dram_node fuel bytes depth offset dram = Inr (dram', o1)"
      and k: "read_dram_children fuel bytes left depth o1 dram' = Inl Aba_OutOfFuel"
      by (auto simp: and_then_Inl)
    from read_dram_progress(1) [OF n] "4.IH"(2) [OF n refl] "4.prems" k show False by auto
  qed
qed simp_all

lemma unat_ucast_u32: "unat (ucast (w :: u32) :: u64) = unat w"
  by (simp add: unsigned_ucast_eq take_bit_nat_eq_self_iff less_le_trans [OF unat_u32_bound])

section \<open>Properties\<close>

text \<open>
  C21. The bound on the recursion of \<open>dram_range\<close> is only a bound: on every input the function
  ends with an answer of the source, whatever counts the bytes claim.
\<close>

theorem dram_range_terminates: "dram_range bytes \<noteq> Inl Aba_OutOfFuel"
  using read_dram_fuel(1) [of 0 bytes "length bytes + 1" 0 None]
  by (auto simp: dram_range_def and_then_Inl ok_or_Inl)

text \<open>
  On the bytes that the flat device-tree encoder wrote, \<open>dram_range\<close> is the memory range
  of the tree: the two properties of the root's child called chosen, each exactly eight bytes,
  or the error that says which is missing or malformed.
\<close>

theorem dram_range_of_encoded:
  assumes "encode can_reserve root = Inr bytes"
  shows "dram_range bytes = tree_dram root"
  using assms by (rule encode_Inr) (simp add: dram_range_enc)

definition sample_dram_root :: flat_node where
  "sample_dram_root = FlatNode [] []
     [FlatNode chosen_name
        [FlatProperty dram_base_key [0, 0, 0, 0x80, 0, 0, 0, 0],
         FlatProperty dram_size_key [0, 0, 0, 0x10, 0, 0, 0, 0]] []]"

definition sample_dram_tree :: byte_string where
  "sample_dram_tree = enc_node sample_dram_root"

lemma sample_dram_measured: "\<exists>b. measure_node sample_dram_root 0 budget_default = Inr b"
  by (simp add: sample_dram_root_def budget_default_def budget_node_def usize_add_def
      add_bytes_def flat_dt_limits check_node_name_def check_property_name_def printable_def
      property_size_def round4_def name_key_def chosen_name_def dram_base_key_def dram_size_key_def
      word_le_nat_alt Let_def)

lemma sample_dram_encodes: "encode (\<lambda>_. True) sample_dram_root = Inr sample_dram_tree"
proof -
  obtain b where b: "measure_node sample_dram_root 0 budget_default = Inr b"
    using sample_dram_measured by blast
  then show ?thesis using write_enc(1) [OF b, of "[]"] by (simp add: encode_def sample_dram_tree_def)
qed

lemma sample_tree_dram:
  "tree_dram sample_dram_root = Inr \<lparr> range_start = 0x80000000, range_end = 0x90000000 \<rparr>"
  by (simp add: tree_dram_def sample_dram_root_def node_dram_def chosen_dram_def tree_property_def
      dram_base_key_def dram_size_key_def exact_u64_def range_new_def from_le_bytes_def ok_or_def
      checked_add_def)

theorem dram_range_of_encoded_witness:
  "dram_range sample_dram_tree = Inr \<lparr> range_start = 0x80000000, range_end = 0x90000000 \<rparr>"
  using dram_range_of_encoded [OF sample_dram_encodes] sample_tree_dram by simp

text \<open>
  C7. A successful encoding is safe to hand over: the kernel, the argument block and the device
  tree lie in the occupied part of the memory window, below its top, apart from each other and
  the last two behind the kernel; the window lies in the memory the device tree declares, whose
  size is the actual size given; and the virtual address of the tree is its offset in the
  window added to the virtual base, without wrapping.
\<close>

theorem encode_arm64_geometry:
  assumes "encode_arm64_boot_args i = Inr e"
  defines "kern \<equiv> range_set (ai_kernel_phys i) (unat (ai_kernel_size i))"
    and "args \<equiv> range_set (ai_boot_args_phys i) ARM64_BOOT_ARGS_SIZE"
    and "tree \<equiv> range_set (ai_device_tree_phys i) (length (ai_device_tree i))"
    and "occupied \<equiv> {unat (ai_physical_base i) ..< unat (ai_top_of_kernel_data i)}"
    and "window \<equiv> range_set (ai_physical_base i) (unat (ai_memory_size i))"
  shows "kern \<union> args \<union> tree \<subseteq> occupied \<and> occupied \<subset> window \<and>
    kern \<inter> args = {} \<and> kern \<inter> tree = {} \<and> args \<inter> tree = {} \<and>
    validate (ai_device_tree i) = Inr () \<and>
    (\<exists>dram. dram_range (ai_device_tree i) = Inr dram \<and>
       window \<subseteq> range_set (range_start dram) (unat (ai_actual_memory_size i))) \<and>
    unat (ae_device_tree_virtual_address e) + unat (ai_physical_base i)
      = unat (ai_virtual_base i) + unat (ai_device_tree_phys i)"
proof -
  from encode_arm64_Inr [OF assms(1)] obtain ram_end kernel_end args_end dt_len dt_end dram relative v where
    f: "checked_add (ai_physical_base i) (ai_memory_size i) = Some ram_end"
    "ai_physical_base i < ai_top_of_kernel_data i" "ai_top_of_kernel_data i < ram_end"
    "checked_add (ai_kernel_phys i) (ai_kernel_size i) = Some kernel_end"
    "ai_physical_base i \<le> ai_kernel_phys i" "kernel_end \<le> ai_top_of_kernel_data i"
    "checked_add (ai_boot_args_phys i) (of_nat ARM64_BOOT_ARGS_SIZE) = Some args_end"
    "u32_of_usize (length (ai_device_tree i)) = Some dt_len" "dt_len \<noteq> 0"
    "checked_add (ai_device_tree_phys i) (ucast dt_len) = Some dt_end"
    and valid: "validate (ai_device_tree i) = Inr ()" and dram: "dram_range (ai_device_tree i) = Inr dram"
    and g: "range_end dram - range_start dram = ai_actual_memory_size i"
    "range_start dram \<le> ai_physical_base i" "ram_end \<le> range_end dram"
    "args_end \<le> ai_top_of_kernel_data i" "dt_end \<le> ai_top_of_kernel_data i"
    "\<not> range_overlaps \<lparr> range_start = ai_boot_args_phys i, range_end = args_end \<rparr>
        \<lparr> range_start = ai_device_tree_phys i, range_end = dt_end \<rparr>"
    "kernel_end \<le> ai_boot_args_phys i" "kernel_end \<le> ai_device_tree_phys i"
    "checked_sub (ai_device_tree_phys i) (ai_physical_base i) = Some relative"
    "checked_add (ai_virtual_base i) relative = Some v" "ae_device_tree_virtual_address e = v"
    by auto
  have len: "unat (ucast dt_len :: u64) = length (ai_device_tree i)" "0 < length (ai_device_tree i)"
    using f(8,9) by (auto simp: u32_of_usize_def unat_of_nat unat_ucast_u32 split: if_splits)
  have size: "unat (of_nat ARM64_BOOT_ARGS_SIZE :: u64) = ARM64_BOOT_ARGS_SIZE" "0 < ARM64_BOOT_ARGS_SIZE"
    by (simp_all add: ARM64_BOOT_ARGS_SIZE_def)
  have ends: "unat ram_end = unat (ai_physical_base i) + unat (ai_memory_size i)"
    "unat kernel_end = unat (ai_kernel_phys i) + unat (ai_kernel_size i)"
    "unat args_end = unat (ai_boot_args_phys i) + ARM64_BOOT_ARGS_SIZE"
    "unat dt_end = unat (ai_device_tree_phys i) + length (ai_device_tree i)"
    using f(1,4,7,10) len size by (simp_all add: checked_add_Some)
  have "args \<inter> tree = {}"
    using boot_interval.overlaps_iff_common_address
        [of "ai_boot_args_phys i" args_end "ai_device_tree_phys i" dt_end] g(6) ends len size
    by (auto simp: addresses_def args_def tree_def range_set_def word_less_nat_alt)
  moreover have "kern \<inter> args = {}" "kern \<inter> tree = {}" "kern \<union> args \<union> tree \<subseteq> occupied"
    using f(5,6) g(4,5,7,8) ends
    by (auto simp: kern_def args_def tree_def occupied_def range_set_def word_le_nat_alt)
  moreover have "occupied \<subset> window"
    using f(2,3) ends by (auto simp: occupied_def window_def range_set_def word_less_nat_alt)
  moreover have "window \<subseteq> range_set (range_start dram) (unat (ai_actual_memory_size i))"
  proof -
    have "unat (range_end dram - range_start dram) = unat (range_end dram) - unat (range_start dram)"
      using g(2,3) f(2,3) by (intro unat_sub_exact) (simp add: word_le_nat_alt word_less_nat_alt)
    then show ?thesis
      using g(1,2,3) ends(1) by (auto simp: window_def range_set_def word_le_nat_alt)
  qed
  moreover have "unat v + unat (ai_physical_base i) = unat (ai_virtual_base i) + unat (ai_device_tree_phys i)"
    using g(9,10) by (simp add: checked_add_Some checked_sub_Some)
  ultimately show ?thesis using valid dram g(11) by blast
qed

text \<open>
  C19. The block is exactly the fields: 1152 bytes that read back, at the offsets of the public
  layout, as the revision and version, the given addresses, sizes, video words, machine type,
  flags and tree length, and the command line followed by a zero byte.
\<close>

theorem encode_arm64_layout:
  assumes "encode_arm64_boot_args i = Inr e"
  shows "length (ae_bytes e) = ARM64_BOOT_ARGS_SIZE \<and>
    word16_at (ae_bytes e) 0 = 2 \<and> word16_at (ae_bytes e) 2 = 2 \<and>
    map (word64_at (ae_bytes e)) [8, 16, 24, 32, 96, 1136, 1144] =
      [ai_virtual_base i, ai_physical_base i, ai_memory_size i, ai_top_of_kernel_data i,
       ae_device_tree_virtual_address e, ai_boot_flags i, ai_actual_memory_size i] \<and>
    map (word64_at (ae_bytes e)) [40, 48, 56, 64, 72, 80] =
      [av_base_address (ai_video i), av_display (ai_video i), av_row_bytes (ai_video i),
       av_width (ai_video i), av_height (ai_video i), av_depth (ai_video i)] \<and>
    word32_at (ae_bytes e) 88 = ai_machine_type i \<and>
    unat (word32_at (ae_bytes e) 104) = length (ai_device_tree i) \<and>
    take (length (ai_command_line i)) (drop 108 (ae_bytes e)) = ai_command_line i \<and>
    0 \<notin> set (ai_command_line i) \<and> ae_bytes e ! (108 + length (ai_command_line i)) = 0 \<and>
    ae_physical_address e = ai_boot_args_phys i"
proof -
  from encode_arm64_Inr [OF assms] obtain dt_len :: u32 and v where
    cmd: "length (ai_command_line i) \<le> ARM64_COMMAND_LINE_MAX" "0 \<notin> set (ai_command_line i)"
    and len: "u32_of_usize (length (ai_device_tree i)) = Some dt_len"
    and e: "e = \<lparr> ae_bytes = boot_args_bytes i dt_len v, ae_physical_address = ai_boot_args_phys i,
          ae_device_tree_virtual_address = v \<rparr>"
    by auto
  have max: "length (ai_command_line i) \<le> 1023" using cmd(1) by (simp add: ARM64_COMMAND_LINE_MAX_def)
  have "unat dt_len = length (ai_device_tree i)"
    using len by (auto simp: u32_of_usize_def unat_of_nat split: if_splits)
  then show ?thesis
    using boot_args_bytes_reads [OF max, where d = dt_len and v = v] cmd(2)
    by (simp add: e ARM64_BOOT_ARGS_SIZE_def boot_args_fields_def)
qed

definition sample_boot_input :: arm64_boot_args_input where
  "sample_boot_input = \<lparr> ai_physical_base = 0x80000000, ai_virtual_base = 0xfffffe0000000000,
     ai_memory_size = 0x10000000, ai_actual_memory_size = 0x10000000,
     ai_top_of_kernel_data = 0x80020000, ai_kernel_phys = 0x80004000, ai_kernel_size = 0x4000,
     ai_boot_args_phys = 0x80008000, ai_device_tree_phys = 0x8000c000,
     ai_device_tree = sample_dram_tree, ai_command_line = [0x2d, 0x76], ai_machine_type = 1,
     ai_boot_flags = 0, ai_video = boot_video_default \<rparr>"

lemma sample_tree_length: "length sample_dram_tree = 188"
  by (simp add: sample_dram_tree_def sample_dram_root_def length_enc_property name_key_def
      chosen_name_def dram_base_key_def dram_size_key_def round4_def)

lemma sample_tree_valid: "validate sample_dram_tree = Inr ()"
  using sample_dram_measured validate_enc_node by (auto simp: sample_dram_tree_def)

lemma sample_tree_range:
  "dram_range sample_dram_tree = Inr \<lparr> range_start = 0x80000000, range_end = 0x90000000 \<rparr>"
  using sample_dram_measured dram_range_enc sample_tree_dram by (auto simp: sample_dram_tree_def)

lemma sample_boot_encodes: "\<exists>e. encode_arm64_boot_args sample_boot_input = Inr e"
  by (simp add: encode_arm64_boot_args_def sample_boot_input_def ARM64_COMMAND_LINE_MAX_def
      is_ascii_def range_new_def checked_add_def checked_sub_def ok_or_def VMAPPLE_PAGE_SIZE_def
      range_contains_def range_overlaps_def ARM64_BOOT_ARGS_SIZE_def u32_of_usize_def
      sample_tree_length sample_tree_valid sample_tree_range Let_def)

theorem encode_arm64_geometry_witness:
  "\<exists>e. encode_arm64_boot_args sample_boot_input = Inr e \<and>
     unat (ae_device_tree_virtual_address e) = 0xfffffe000000c000"
proof -
  obtain e where e: "encode_arm64_boot_args sample_boot_input = Inr e" using sample_boot_encodes by blast
  have "unat (ae_device_tree_virtual_address e) + unat (ai_physical_base sample_boot_input)
      = unat (ai_virtual_base sample_boot_input) + unat (ai_device_tree_phys sample_boot_input)"
    using encode_arm64_geometry [OF e] by blast
  then show ?thesis using e by (simp add: sample_boot_input_def)
qed

theorem encode_arm64_layout_witness:
  "\<exists>e. encode_arm64_boot_args sample_boot_input = Inr e \<and>
     word64_at (ae_bytes e) 16 = 0x80000000 \<and> unat (word32_at (ae_bytes e) 104) = 188"
proof -
  obtain e where e: "encode_arm64_boot_args sample_boot_input = Inr e" using sample_boot_encodes by blast
  from encode_arm64_layout [OF e] e show ?thesis
    by (auto simp: sample_boot_input_def sample_tree_length)
qed

end
