(* ===== verification/Arm64_Stage1_Tables.thy ===== *)
theory Arm64_Stage1_Tables
  imports Contracts
begin

text \<open>
  Model of \<^verbatim>\<open>src/arm64_stage1_tables.rs\<close>: the construction of the three-level page tables with
  16 KiB granules. The table bytes are a list; a table is its offset in it. An index out of the
  bytes or a subtraction below zero would panic: \<open>S1_Panic\<close>. The allocator behind
  \<^verbatim>\<open>try_reserve_exact\<close> is the argument \<open>R\<close>, asked with the length the bytes are to have.
\<close>

section \<open>Data\<close>

definition PAGE_SIZE :: u64 where "PAGE_SIZE = 16 * 1024"
definition MAX_MEMORY_SIZE :: u64 where "MAX_MEMORY_SIZE = 1024 * 1024 * 1024"
definition MAX_TABLE_BYTES :: nat where "MAX_TABLE_BYTES = 2 * 1024 * 1024"
definition MAX_ALIAS_BYTES :: u64 where "MAX_ALIAS_BYTES = 128 * 1024 * 1024"
definition LOW_END :: u64 where "LOW_END = push_bit 47 1"
definition HIGH_START :: u64 where "HIGH_START = 0xffff800000000000"
definition PA_END :: u64 where "PA_END = push_bit 48 1"
definition ADDRESS_MASK :: u64 where "ADDRESS_MASK = 0x0000ffffffffc000"
definition TCR :: u64 where
  "TCR = 17 OR push_bit 14 2 OR push_bit 16 17 OR push_bit 30 1 OR push_bit 32 5"

datatype stage1_error =
    S1_InvalidRange
  | S1_Alignment
  | S1_AddressOverflow
  | S1_TableCapacity
  | S1_Allocation
  | S1_UnmappedAddress
  | S1_OverlappingRange
  | S1_Panic \<comment> \<open>an index or a subtraction that fails; not a value of the source's enum\<close>

record stage1_alias =
  sa_virtual_base :: u64
  sa_physical_base :: u64
  sa_bytes :: u64

record stage1_tables =
  st_bytes :: byte_string
  st_table_base :: u64
  st_ram_base :: u64
  st_virtual_base :: u64
  st_memory_size :: u64

abbreviation page :: nat where "page \<equiv> 16384"

section \<open>Building the tables\<close>

definition allocate_table ::
  "(nat \<Rightarrow> bool) \<Rightarrow> stage1_tables \<Rightarrow> (stage1_error + nat) \<times> stage1_tables" where
  "allocate_table R t =
     (let start = length (st_bytes t) in
      or_return (ok_or (usize_add start (unat PAGE_SIZE)) S1_TableCapacity) t (\<lambda>stop.
      if MAX_TABLE_BYTES < stop then (Inl S1_TableCapacity, t)
      else if (case checked_add (st_table_base t) (of_nat stop) of
                 None \<Rightarrow> True | Some stop \<Rightarrow> PA_END < stop)
      then (Inl S1_AddressOverflow, t)
      else if \<not> R stop then (Inl S1_Allocation, t)
      else (Inr start, t\<lparr> st_bytes := st_bytes t @ replicate (stop - start) 0 \<rparr>)))"

text \<open>\<^verbatim>\<open>u64::from_le_bytes(self.bytes[slot..slot + 8].try_into().unwrap())\<close> and the store.\<close>

definition read_descriptor :: "stage1_tables \<Rightarrow> nat \<Rightarrow> u64 option" where
  "read_descriptor t slot = map_option from_le_bytes (get_range (st_bytes t) slot (slot + 8))"

definition write_descriptor :: "stage1_tables \<Rightarrow> nat \<Rightarrow> u64 \<Rightarrow> stage1_tables option" where
  "write_descriptor t slot w =
     map_option (\<lambda>bytes. t\<lparr> st_bytes := bytes \<rparr>)
       (copy_from_slice (st_bytes t) (slot, slot + 8) (to_le_bytes w))"

definition slot_of :: "nat \<Rightarrow> u64 \<Rightarrow> nat \<Rightarrow> nat" where
  "slot_of table va shift = table + unat (drop_bit shift va AND 0x7ff) * 8"

text \<open>One round of the loop over the shifts 36 and 25: the table of the next level.\<close>

definition descend ::
  "(nat \<Rightarrow> bool) \<Rightarrow> stage1_tables \<Rightarrow> nat \<Rightarrow> u64 \<Rightarrow> nat \<Rightarrow> (stage1_error + nat) \<times> stage1_tables" where
  "descend R t table va shift =
     (let slot = slot_of table va shift in
      or_return (ok_or (read_descriptor t slot) S1_Panic) t (\<lambda>descriptor.
      if descriptor = 0 then
        and_run (allocate_table R t) (\<lambda>following t.
        let w = (st_table_base t + of_nat following) OR 3 in
        or_return (ok_or (write_descriptor t slot w) S1_Panic) t (\<lambda>t.
        (Inr following, t)))
      else
        or_return (ok_or (checked_sub (descriptor AND ADDRESS_MASK) (st_table_base t)) S1_Panic) t
          (\<lambda>following. (Inr (unat following), t))))"

text \<open>\<^verbatim>\<open>self.bytes[slot..slot + 8].iter().any(|&byte| byte != 0)\<close>.\<close>

definition slot_used :: "stage1_tables \<Rightarrow> nat \<Rightarrow> bool option" where
  "slot_used t slot = map_option (list_ex (\<lambda>byte. byte \<noteq> 0)) (get_range (st_bytes t) slot (slot + 8))"

definition map_page ::
  "(nat \<Rightarrow> bool) \<Rightarrow> stage1_tables \<Rightarrow> nat \<Rightarrow> u64 \<Rightarrow> u64 \<Rightarrow> (stage1_error + unit) \<times> stage1_tables" where
  "map_page R t root va pa =
     and_run (descend R t root va 36) (\<lambda>table t.
     and_run (descend R t table va 25) (\<lambda>table t.
     let slot = slot_of table va 14 in
     or_return (ok_or (slot_used t slot) S1_Panic) t (\<lambda>used.
     if used then (Inl S1_OverlappingRange, t)
     else or_return (ok_or (write_descriptor t slot (pa OR 0x403)) S1_Panic) t (\<lambda>t.
     (Inr (), t)))))"

text \<open>\<^verbatim>\<open>(0..bytes).step_by(PAGE_SIZE as usize)\<close>.\<close>

definition page_offsets :: "u64 \<Rightarrow> u64 list" where
  "page_offsets bytes =
     map (\<lambda>k. of_nat (k * unat PAGE_SIZE))
       [0 ..< (unat bytes + (unat PAGE_SIZE - 1)) div unat PAGE_SIZE]"

fun map_linear ::
  "(nat \<Rightarrow> bool) \<Rightarrow> u64 \<Rightarrow> u64 \<Rightarrow> u64 list \<Rightarrow> stage1_tables \<Rightarrow> (stage1_error + unit) \<times> stage1_tables" where
  "map_linear R physical virt [] t = (Inr (), t)"
| "map_linear R physical virt (off # offs) t =
     (let pa = physical + off in
      and_run (map_page R t 0 pa pa) (\<lambda>_ t.
      and_run (map_page R t (unat PAGE_SIZE) (virt + off) pa) (\<lambda>_ t.
      map_linear R physical virt offs t)))"

text \<open>A table set that met an error is dropped with it.\<close>

definition finish :: "('e + unit) \<times> 't \<Rightarrow> 'e + 't" where
  "finish r = (case r of (Inl e, _) \<Rightarrow> Inl e | (Inr _, t) \<Rightarrow> Inr t)"

definition stage1_new ::
  "(nat \<Rightarrow> bool) \<Rightarrow> u64 \<Rightarrow> u64 \<Rightarrow> u64 \<Rightarrow> stage1_error + stage1_tables" where
  "stage1_new R physical_base virtual_base memory_size =
     (if (physical_base OR virtual_base OR memory_size) AND (PAGE_SIZE - 1) \<noteq> 0 then Inl S1_Alignment
      else if memory_size = 0 \<or> MAX_MEMORY_SIZE < memory_size then Inl S1_InvalidRange
      else
      and_then (ok_or (checked_add physical_base memory_size) S1_AddressOverflow) (\<lambda>table_base.
      and_then (ok_or (checked_add virtual_base memory_size) S1_AddressOverflow) (\<lambda>_.
      if LOW_END < table_base \<or> virtual_base < HIGH_START then Inl S1_InvalidRange
      else
      let t = \<lparr> st_bytes = [], st_table_base = table_base, st_ram_base = physical_base,
                st_virtual_base = virtual_base, st_memory_size = memory_size \<rparr> in
      finish (and_run (allocate_table R t) (\<lambda>_ t.
              and_run (allocate_table R t) (\<lambda>_ t.
              map_linear R physical_base virtual_base (page_offsets memory_size) t))))))"

section \<open>Linked aliases\<close>

definition ranges_overlap :: "u64 \<Rightarrow> u64 \<Rightarrow> u64 \<Rightarrow> u64 \<Rightarrow> bool" where
  "ranges_overlap a_start a_end b_start b_end \<longleftrightarrow> a_start < b_end \<and> b_start < a_end"

text \<open>The loop over the aliases; \<open>earlier\<close> is \<^verbatim>\<open>aliases[..index]\<close>.\<close>

fun check_aliases ::
  "u64 \<Rightarrow> u64 \<Rightarrow> u64 \<Rightarrow> u64 \<Rightarrow> stage1_alias list \<Rightarrow> stage1_alias list \<Rightarrow> stage1_error + unit" where
  "check_aliases physical_base physical_end virtual_base linear_end earlier [] = Inr ()"
| "check_aliases physical_base physical_end virtual_base linear_end earlier (alias # rest) =
     (if (sa_virtual_base alias OR sa_physical_base alias OR sa_bytes alias) AND (PAGE_SIZE - 1) \<noteq> 0
      then Inl S1_Alignment
      else if sa_bytes alias = 0 \<or> MAX_ALIAS_BYTES < sa_bytes alias \<or> sa_virtual_base alias < HIGH_START
      then Inl S1_InvalidRange
      else
      and_then (ok_or (checked_add (sa_virtual_base alias) (sa_bytes alias)) S1_AddressOverflow)
        (\<lambda>alias_end.
      and_then (ok_or (checked_add (sa_physical_base alias) (sa_bytes alias)) S1_AddressOverflow)
        (\<lambda>alias_physical_end.
      if sa_physical_base alias < physical_base \<or> physical_end < alias_physical_end
      then Inl S1_InvalidRange
      else if ranges_overlap (sa_virtual_base alias) alias_end virtual_base linear_end \<or>
              list_ex (\<lambda>other. ranges_overlap (sa_virtual_base alias) alias_end
                 (sa_virtual_base other) (sa_virtual_base other + sa_bytes other)) earlier
      then Inl S1_OverlappingRange
      else check_aliases physical_base physical_end virtual_base linear_end (earlier @ [alias]) rest)))"

fun map_alias ::
  "(nat \<Rightarrow> bool) \<Rightarrow> u64 \<Rightarrow> u64 \<Rightarrow> u64 list \<Rightarrow> stage1_tables \<Rightarrow> (stage1_error + unit) \<times> stage1_tables" where
  "map_alias R virt physical [] t = (Inr (), t)"
| "map_alias R virt physical (off # offs) t =
     and_run (map_page R t (unat PAGE_SIZE) (virt + off) (physical + off)) (\<lambda>_ t.
     map_alias R virt physical offs t)"

fun map_aliases ::
  "(nat \<Rightarrow> bool) \<Rightarrow> stage1_alias list \<Rightarrow> stage1_tables \<Rightarrow> (stage1_error + unit) \<times> stage1_tables" where
  "map_aliases R [] t = (Inr (), t)"
| "map_aliases R (alias # rest) t =
     and_run (map_alias R (sa_virtual_base alias) (sa_physical_base alias)
        (page_offsets (sa_bytes alias)) t) (\<lambda>_ t.
     map_aliases R rest t)"

definition new_with_aliases ::
  "(nat \<Rightarrow> bool) \<Rightarrow> u64 \<Rightarrow> u64 \<Rightarrow> u64 \<Rightarrow> stage1_alias list \<Rightarrow> stage1_error + stage1_tables" where
  "new_with_aliases R physical_base virtual_base memory_size aliases =
     (if 2 < length aliases then Inl S1_InvalidRange
      else
      and_then (ok_or (checked_add physical_base memory_size) S1_AddressOverflow) (\<lambda>physical_end.
      and_then (ok_or (checked_add virtual_base memory_size) S1_AddressOverflow) (\<lambda>linear_end.
      and_then (check_aliases physical_base physical_end virtual_base linear_end [] aliases) (\<lambda>_.
      and_then (stage1_new R physical_base virtual_base memory_size) (\<lambda>t.
      finish (map_aliases R aliases t))))))"

section \<open>What the tables tell\<close>

definition st_physical_base :: "stage1_tables \<Rightarrow> u64" where "st_physical_base t = st_table_base t"
definition ttbr0 :: "stage1_tables \<Rightarrow> u64" where "ttbr0 t = st_table_base t"
definition ttbr1 :: "stage1_tables \<Rightarrow> u64" where "ttbr1 t = st_table_base t + PAGE_SIZE"
definition tcr :: "stage1_tables \<Rightarrow> u64" where "tcr t = TCR"

definition virtual_address :: "stage1_tables \<Rightarrow> u64 \<Rightarrow> stage1_error + u64" where
  "virtual_address t pa =
     and_then (ok_or (checked_sub pa (st_ram_base t)) S1_UnmappedAddress) (\<lambda>offset.
     if st_memory_size t \<le> offset then Inl S1_UnmappedAddress
     else ok_or (checked_add (st_virtual_base t) offset) S1_AddressOverflow)"

section \<open>The shared contract\<close>

interpretation stage1_interval: interval_test ranges_overlap
  by unfold_locales (simp add: ranges_overlap_def)

end
