(* ===== verification/Arm64_Stage1_Proofs.thy ===== *)
theory Arm64_Stage1_Proofs
  imports Arm64_Stage1_Tables
begin

text \<open>
  The page tables against what the hardware does with them: a walk over the bytes, the tree
  shape of the tables that \<open>map_page\<close> keeps, and the refinement of the bytes to an abstract map
  from virtual to physical pages.
\<close>

section \<open>Descriptors\<close>

lemma le_value_zero: "le_value bs = 0 \<longleftrightarrow> \<not> list_ex (\<lambda>b. b \<noteq> 0) bs"
  by (induction bs) (auto simp: unat_eq_zero)

text \<open>A descriptor is zero exactly when its eight bytes are.\<close>

lemma slot_used_descriptor:
  "slot_used t slot = map_option (\<lambda>descriptor. descriptor \<noteq> 0) (read_descriptor t slot)"
proof (cases "get_range (st_bytes t) slot (slot + 8)")
  case (Some bs)
  then have "length bs = 8" by (auto simp: get_range_Some)
  then have "unat (from_le_bytes bs :: u64) = le_value bs" by (intro unat_from_le_bytes) simp
  then have "(from_le_bytes bs :: u64) = 0 \<longleftrightarrow> le_value bs = 0" by (simp flip: unat_eq_zero)
  then show ?thesis by (simp add: slot_used_def read_descriptor_def Some le_value_zero)
qed (simp add: slot_used_def read_descriptor_def)

lemma slot_used_run:
  "or_return (ok_or (slot_used t slot) e) t' f =
   or_return (ok_or (read_descriptor t slot) e) t' (\<lambda>d. f (d \<noteq> 0))"
  by (cases "read_descriptor t slot") (simp_all add: slot_used_descriptor ok_or_def or_return_def)

lemma map_page_alt:
  "map_page R t root va pa =
     and_run (descend R t root va 36) (\<lambda>table t.
     and_run (descend R t table va 25) (\<lambda>table t.
     let slot = slot_of table va 14 in
     or_return (ok_or (read_descriptor t slot) S1_Panic) t (\<lambda>descriptor.
     if descriptor \<noteq> 0 then (Inl S1_OverlappingRange, t)
     else or_return (ok_or (write_descriptor t slot (pa OR 0x403)) S1_Panic) t (\<lambda>t.
     (Inr (), t)))))"
  by (simp add: map_page_def slot_used_run Let_def)

text \<open>Entry \<open>i\<close> of the table at offset \<open>tb\<close>.\<close>

definition entry :: "stage1_tables \<Rightarrow> nat \<Rightarrow> nat \<Rightarrow> u64" where
  "entry t tb i = from_le_bytes (take 8 (drop (tb + i * 8) (st_bytes t)))"

definition index_at :: "u64 \<Rightarrow> nat \<Rightarrow> nat" where
  "index_at va shift = unat (drop_bit shift va AND 0x7ff)"

lemma slot_of_index: "slot_of table va shift = table + index_at va shift * 8"
  by (simp add: slot_of_def index_at_def)

lemma index_at_nat: "index_at va shift = unat va div 2 ^ shift mod 2048"
proof -
  have "drop_bit shift va AND 0x7ff = take_bit 11 (drop_bit shift va)"
    by (simp add: take_bit_eq_mask mask_eq_exp_minus_1)
  then have "index_at va shift = unat (take_bit 11 (drop_bit shift va))" by (simp only: index_at_def)
  also have "\<dots> = unat va div 2 ^ shift mod 2 ^ 11"
    by (simp only: unat_take_bit_mod unat_drop_bit_div)
  finally show ?thesis by simp
qed

lemma index_at_bound: "index_at va shift < 2048"
  by (simp add: index_at_nat)

text \<open>The shape of the bytes: whole tables, behind an aligned base, below the physical limit.\<close>

definition table_bytes_ok :: "stage1_tables \<Rightarrow> bool" where
  "table_bytes_ok t \<longleftrightarrow> page dvd length (st_bytes t) \<and> page dvd unat (st_table_base t) \<and>
     unat (st_table_base t) + length (st_bytes t) \<le> 2 ^ 48"

definition is_table :: "stage1_tables \<Rightarrow> nat \<Rightarrow> bool" where
  "is_table t tb \<longleftrightarrow> page dvd tb \<and> tb < length (st_bytes t)"

lemma is_table_inside:
  assumes "table_bytes_ok t" and "is_table t tb"
  shows "tb + page \<le> length (st_bytes t)"
proof -
  obtain k n where "tb = page * k" "length (st_bytes t) = page * n"
    using assms by (auto simp: table_bytes_ok_def is_table_def dvd_def)
  moreover from this have "k < n" using assms(2) by (simp add: is_table_def)
  ultimately show ?thesis by (metis Suc_leI mult_Suc_right mult_le_mono2 add.commute)
qed

lemma entry_inside:
  assumes "table_bytes_ok t" and "is_table t tb" and "i < 2048"
  shows "tb + i * 8 + 8 \<le> length (st_bytes t)"
  using is_table_inside [OF assms(1,2)] assms(3) by simp

lemma read_descriptor_entry:
  assumes "table_bytes_ok t" and "is_table t tb"
  shows "read_descriptor t (slot_of tb va shift) = Some (entry t tb (index_at va shift))"
  using entry_inside [OF assms index_at_bound]
  by (simp add: read_descriptor_def slot_of_index get_range_def entry_def)

lemma slots_apart:
  assumes "page dvd a" and "page dvd b" and "i < 2048" and "j < 2048" and "(a, i) \<noteq> (b, j)"
  shows "a + i * 8 + 8 \<le> b + j * 8 \<or> b + j * 8 + 8 \<le> a + i * 8"
proof -
  obtain k l where ab: "a = page * k" "b = page * l" using assms(1,2) by (auto simp: dvd_def)
  consider "k < l" | "l < k" | "k = l" by linarith
  then show ?thesis
  proof cases
    case 1
    then have "page * (k + 1) \<le> page * l" by (intro mult_le_mono2) simp
    then show ?thesis using ab assms(3) by simp
  next
    case 2
    then have "page * (l + 1) \<le> page * k" by (intro mult_le_mono2) simp
    then show ?thesis using ab assms(4) by simp
  next
    case 3
    then show ?thesis using ab assms(5) by auto
  qed
qed

text \<open>A store into one entry changes that entry and no other.\<close>

lemma write_descriptor_entry:
  assumes ok: "table_bytes_ok t" and tb: "is_table t tb"
  obtains t' where "write_descriptor t (slot_of tb va shift) w = Some t'"
    and "length (st_bytes t') = length (st_bytes t)"
    and "st_table_base t' = st_table_base t" and "st_ram_base t' = st_ram_base t"
    and "st_virtual_base t' = st_virtual_base t" and "st_memory_size t' = st_memory_size t"
    and "\<And>tb' i. is_table t tb' \<Longrightarrow> i < 2048 \<Longrightarrow>
      entry t' tb' i = (if tb' = tb \<and> i = index_at va shift then w else entry t tb' i)"
proof -
  let ?s = "tb + index_at va shift * 8"
  have inside: "?s + 8 \<le> length (st_bytes t)" by (rule entry_inside [OF ok tb index_at_bound])
  define t' where "t' = t\<lparr> st_bytes := put_bytes (st_bytes t) ?s (to_le_bytes w) \<rparr>"
  have "write_descriptor t (slot_of tb va shift) w = Some t'"
    using inside by (simp add: write_descriptor_def slot_of_index copy_from_slice_def t'_def)
  moreover have "entry t' tb' i = (if tb' = tb \<and> i = index_at va shift then w else entry t tb' i)"
    if tb': "is_table t tb'" and i: "i < 2048" for tb' i
  proof (cases "tb' = tb \<and> i = index_at va shift")
    case True
    then show ?thesis
      using take_drop_put_bytes_same [of ?s "to_le_bytes w" "st_bytes t"] inside
      by (simp add: entry_def t'_def)
  next
    case False
    have "tb' + i * 8 + 8 \<le> ?s \<or> ?s + 8 \<le> tb' + i * 8"
      using slots_apart [of tb' tb i "index_at va shift"] tb tb' i index_at_bound [of va shift] False
      by (auto simp: is_table_def)
    then have "take 8 (drop (tb' + i * 8) (st_bytes t')) = take 8 (drop (tb' + i * 8) (st_bytes t))"
      unfolding t'_def using inside entry_inside [OF ok tb' i]
      by (simp add: take_drop_put_bytes_disjoint)
    then show ?thesis by (simp only: entry_def if_not_P [OF False])
  qed
  ultimately show ?thesis using that [of t'] inside by (simp add: t'_def)
qed

text \<open>What a table descriptor says, and what a page descriptor says.\<close>

definition link :: "stage1_tables \<Rightarrow> nat \<Rightarrow> nat \<Rightarrow> nat option" where
  "link t tb i = (if entry t tb i = 0 then None
     else Some (unat (entry t tb i AND ADDRESS_MASK) - unat (st_table_base t)))"

definition leaf :: "stage1_tables \<Rightarrow> nat \<Rightarrow> nat \<Rightarrow> u64 option" where
  "leaf t tb i = (if entry t tb i = 0 then None else Some (entry t tb i AND ADDRESS_MASK))"

text \<open>The walk of the hardware from a root table.\<close>

definition walk :: "stage1_tables \<Rightarrow> nat \<Rightarrow> u64 \<Rightarrow> u64 option" where
  "walk t root va =
     (case link t root (index_at va 36) of
        None \<Rightarrow> None
      | Some second \<Rightarrow>
          (case link t second (index_at va 25) of
             None \<Rightarrow> None
           | Some third \<Rightarrow> leaf t third (index_at va 14)))"

lemma address_mask: "ADDRESS_MASK = mask 48 AND NOT (mask 14)"
  by (simp add: ADDRESS_MASK_def mask_eq_exp_minus_1)

lemma mask_descriptor:
  assumes "unat (w :: u64) < 2 ^ 48" and "page dvd unat w" and "low < 2 ^ 14"
  shows "(w OR low) AND ADDRESS_MASK = w"
proof -
  have "take_bit 48 w = w"
  proof (rule word_unat_eq_iff [THEN iffD2])
    have "unat (take_bit 48 w) = unat w mod 2 ^ 48"
      by (rule unat_take_bit_mod)
    then show "unat (take_bit 48 w) = unat w" using assms(1) by (simp only: mod_less)
  qed
  moreover have "take_bit 14 w = 0"
  proof -
    have "unat (take_bit 14 w) = unat w mod 2 ^ 14"
      by (rule unat_take_bit_mod)
    also have "\<dots> = 0" using assms(2) by (simp add: mod_eq_0_iff_dvd)
    finally show ?thesis by (simp add: unat_eq_zero)
  qed
  moreover have "take_bit 14 low = low"
  proof (rule word_unat_eq_iff [THEN iffD2])
    have "unat (take_bit 14 low) = unat low mod 2 ^ 14"
      by (rule unat_take_bit_mod)
    moreover have "unat low < 2 ^ 14" using assms(3) by (simp add: word_less_nat_alt)
    ultimately show "unat (take_bit 14 low) = unat low" by (simp only: mod_less)
  qed
  ultimately show ?thesis
    unfolding address_mask
    by (intro bit_word_eqI) (auto simp: bit_simps bit_eq_iff)
qed

section \<open>The tree of tables\<close>

text \<open>
  The level of each table is a ghost of the proof: the two roots have level 1, a descriptor of
  a level 1 or 2 table points to a table of the next level, and no two of them to the same.
\<close>

definition inner :: "(nat \<Rightarrow> nat) \<Rightarrow> stage1_tables \<Rightarrow> nat \<Rightarrow> bool" where
  "inner lv t tb \<longleftrightarrow> is_table t tb \<and> (lv tb = 1 \<or> lv tb = 2)"

definition tree_ok :: "(nat \<Rightarrow> nat) \<Rightarrow> stage1_tables \<Rightarrow> bool" where
  "tree_ok lv t \<longleftrightarrow>
     table_bytes_ok t \<and> is_table t 0 \<and> is_table t page \<and> lv 0 = 1 \<and> lv page = 1 \<and>
     (\<forall>tb i nx. inner lv t tb \<longrightarrow> i < 2048 \<longrightarrow> link t tb i = Some nx \<longrightarrow>
        is_table t nx \<and> lv nx = Suc (lv tb) \<and>
        unat (st_table_base t) \<le> unat (entry t tb i AND ADDRESS_MASK)) \<and>
     (\<forall>tb i tb' i' nx. inner lv t tb \<longrightarrow> inner lv t tb' \<longrightarrow> i < 2048 \<longrightarrow> i' < 2048 \<longrightarrow>
        link t tb i = Some nx \<longrightarrow> link t tb' i' = Some nx \<longrightarrow> tb = tb' \<and> i = i')"

lemma tree_ok_link:
  assumes "tree_ok lv t" and "inner lv t tb" and "i < 2048" and "link t tb i = Some nx"
  shows "is_table t nx" and "lv nx = Suc (lv tb)"
    and "unat (st_table_base t) \<le> unat (entry t tb i AND ADDRESS_MASK)"
  using assms by (auto simp: tree_ok_def)

lemma tree_ok_unique:
  assumes "tree_ok lv t" and "inner lv t tb" and "inner lv t tb'" and "i < 2048" and "i' < 2048"
    and "link t tb i = Some nx" and "link t tb' i' = Some nx"
  shows "tb = tb' \<and> i = i'"
  using assms unfolding tree_ok_def by blast

lemma tree_ok_roots:
  assumes "tree_ok lv t" and "root = 0 \<or> root = page"
  shows "inner lv t root" and "lv root = 1"
proof -
  have "is_table t 0 \<and> is_table t page \<and> lv 0 = 1 \<and> lv page = 1"
    using assms(1) unfolding tree_ok_def by blast
  then show "inner lv t root" "lv root = 1" using assms(2) unfolding inner_def by metis+
qed

text \<open>A fresh table: more bytes, all zero.\<close>

definition grown :: "stage1_tables \<Rightarrow> stage1_tables" where
  "grown t = t\<lparr> st_bytes := st_bytes t @ replicate page 0 \<rparr>"

lemma allocate_table_Inr:
  assumes "allocate_table R t = (Inr start, t')" and "table_bytes_ok t"
  shows "start = length (st_bytes t)" and "t' = grown t" and "table_bytes_ok t'"
    and "is_table t' start"
proof -
  have size: "unat PAGE_SIZE = page" by (simp add: PAGE_SIZE_def)
  show start: "start = length (st_bytes t)" and t': "t' = grown t"
    using assms(1) by (auto simp: allocate_table_def result_iff word_nat Let_def size grown_def
        split: if_splits)
  have "st_table_base t = st_table_base t'" by (simp add: t' grown_def)
  have cap: "length (st_bytes t) + page \<le> 2 * 1024 * 1024"
    and fits: "unat (st_table_base t) + (length (st_bytes t) + page) \<le> 2 ^ 48"
  proof -
    obtain stop where "MAX_TABLE_BYTES \<ge> length (st_bytes t) + page"
      and stop: "checked_add (st_table_base t) (of_nat (length (st_bytes t) + page)) = Some stop"
      and "stop \<le> PA_END"
      using assms(1) by (auto simp: allocate_table_def result_iff usize_add_Some Let_def size
          split: if_splits option.splits)
    then show cap: "length (st_bytes t) + page \<le> 2 * 1024 * 1024" by (simp add: MAX_TABLE_BYTES_def)
    then have "unat (of_nat (length (st_bytes t) + page) :: u64) = length (st_bytes t) + page"
      unfolding unat_of_nat by (intro mod_less) simp
    then have "unat (st_table_base t) + (length (st_bytes t) + page) = unat stop"
      using stop by (simp only: checked_add_Some)
    moreover have "unat PA_END = 2 ^ 48" by (simp add: PA_END_def)
    ultimately show "unat (st_table_base t) + (length (st_bytes t) + page) \<le> 2 ^ 48"
      using \<open>stop \<le> PA_END\<close> by (simp add: word_le_nat_alt)
  qed
  show "table_bytes_ok t'"
    using assms(2) fits by (auto simp: table_bytes_ok_def t' grown_def dvd_add)
  show "is_table t' start"
    using assms(2) by (simp add: is_table_def table_bytes_ok_def start t' grown_def)
qed

lemma entry_grown:
  assumes "table_bytes_ok t" and "i < 2048"
  shows "is_table t tb \<Longrightarrow> entry (grown t) tb i = entry t tb i"
    and "entry (grown t) (length (st_bytes t)) i = 0"
proof -
  show "entry (grown t) tb i = entry t tb i" if "is_table t tb"
    using entry_inside [OF assms(1) that assms(2)] by (simp add: entry_def grown_def)
  have "take 8 (drop (length (st_bytes t) + i * 8) (st_bytes (grown t))) = replicate 8 0"
    using assms(2) by (simp add: grown_def min_def)
  moreover have "from_le_bytes (replicate 8 0) = (0 :: u64)"
    by (simp add: from_le_bytes_def numeral_eq_Suc)
  ultimately show "entry (grown t) (length (st_bytes t)) i = 0" by (simp only: entry_def)
qed

lemma is_table_grown:
  assumes "table_bytes_ok t"
  shows "is_table (grown t) tb \<longleftrightarrow> is_table t tb \<or> tb = length (st_bytes t)"
proof -
  have "tb = length (st_bytes t)" if "page dvd tb" "length (st_bytes t) \<le> tb" "tb < length (st_bytes t) + page"
  proof -
    have "page dvd tb - length (st_bytes t)"
      using that assms by (simp add: table_bytes_ok_def dvd_diff_nat)
    moreover have "tb - length (st_bytes t) < page" using that by simp
    ultimately have "tb - length (st_bytes t) = 0" by (meson dvd_imp_le not_less not_gr_zero)
    then show ?thesis using that by simp
  qed
  then show ?thesis
    using assms by (cases "tb < length (st_bytes t)") (auto simp: is_table_def grown_def table_bytes_ok_def)
qed

text \<open>The descriptor of a table points to it.\<close>

lemma table_descriptor:
  assumes "table_bytes_ok t" and "is_table t nx"
  defines "w \<equiv> (st_table_base t + of_nat nx) OR 3"
  shows "w \<noteq> 0" and "unat (w AND ADDRESS_MASK) = unat (st_table_base t) + nx"
proof -
  have small: "unat (st_table_base t) + nx < 2 ^ 48"
    using assms(1,2) by (auto simp: table_bytes_ok_def is_table_def)
  have nx: "unat (of_nat nx :: u64) = nx" using small by (simp add: unat_of_nat)
  have sum: "unat (st_table_base t + of_nat nx) = unat (st_table_base t) + nx"
    using small by (simp add: unat_add_exact nx)
  have "page dvd unat (st_table_base t) + nx"
    using assms(1,2) by (auto simp: table_bytes_ok_def is_table_def)
  then have "w AND ADDRESS_MASK = st_table_base t + of_nat nx"
    unfolding w_def using small sum by (intro mask_descriptor) simp_all
  then show "unat (w AND ADDRESS_MASK) = unat (st_table_base t) + nx" using sum by simp
  have "bit w 0" by (simp add: w_def bit_simps)
  then show "w \<noteq> 0" by auto
qed

section \<open>Growing the tree\<close>

text \<open>
  The state after a fresh table \<open>nx\<close> was linked into the free entry \<open>idx\<close> of the inner table
  \<open>tb\<close>: that entry is its descriptor, the new table is empty, all else is as before.
\<close>

definition linked ::
  "stage1_tables \<Rightarrow> nat \<Rightarrow> nat \<Rightarrow> nat \<Rightarrow> stage1_tables \<Rightarrow> bool" where
  "linked t tb idx nx t' \<longleftrightarrow>
     table_bytes_ok t' \<and> st_table_base t' = st_table_base t \<and> \<not> is_table t nx \<and>
     (\<forall>x. is_table t' x \<longleftrightarrow> is_table t x \<or> x = nx) \<and>
     entry t tb idx = 0 \<and>
     (\<forall>x i. is_table t x \<longrightarrow> i < 2048 \<longrightarrow> entry t' x i =
        (if x = tb \<and> i = idx then (st_table_base t + of_nat nx) OR 3 else entry t x i)) \<and>
     (\<forall>i < 2048. entry t' nx i = 0)"

lemma linked_link:
  assumes "linked t tb idx nx t'" and "i < 2048"
  shows "is_table t x \<Longrightarrow> link t' x i = (if x = tb \<and> i = idx then Some nx else link t x i)"
    and "link t' nx i = None" and "leaf t' nx i = None"
proof -
  have d: "(st_table_base t + of_nat nx) OR 3 \<noteq> 0"
    "unat (((st_table_base t + of_nat nx) OR 3) AND ADDRESS_MASK) = unat (st_table_base t) + nx"
    using table_descriptor [of t' nx] assms(1) by (simp_all add: linked_def)
  show "link t' x i = (if x = tb \<and> i = idx then Some nx else link t x i)" if "is_table t x"
  proof -
    have "entry t' x i =
        (if x = tb \<and> i = idx then (st_table_base t + of_nat nx) OR 3 else entry t x i)"
      and "st_table_base t' = st_table_base t"
      using assms that by (auto simp: linked_def)
    then show ?thesis using d by (cases "x = tb \<and> i = idx") (auto simp: link_def)
  qed
  show "link t' nx i = None" "leaf t' nx i = None"
    using assms by (simp_all add: linked_def link_def leaf_def)
qed

lemma linked_tree:
  assumes tree: "tree_ok lv t" and inn: "inner lv t tb" and idx: "idx < 2048"
    and l: "linked t tb idx nx t'"
  defines "lv' \<equiv> lv(nx := Suc (lv tb))"
  shows "tree_ok lv' t'"
proof -
  note lt = linked_link [OF l]
  have nx: "\<not> is_table t nx" and tabs: "\<And>x. is_table t' x \<longleftrightarrow> is_table t x \<or> x = nx"
    and base: "st_table_base t' = st_table_base t"
    using l by (auto simp: linked_def)
  have tb: "is_table t tb" using inn by (simp add: inner_def)
  have old: "inner lv' t' x \<Longrightarrow> x \<noteq> nx \<Longrightarrow> inner lv t x" for x
    by (auto simp: inner_def lv'_def tabs)
  have from_old: "inner lv t x \<and> (x = tb \<and> i = idx \<and> y = nx \<or> link t x i = Some y)"
    if "inner lv' t' x" "i < 2048" "link t' x i = Some y" for x i y
  proof -
    have "x \<noteq> nx" using lt(2) [OF that(2)] that(3) by auto
    then have "inner lv t x" using old that(1) by blast
    then show ?thesis using lt(1) [OF that(2), of x] that(3) by (auto simp: inner_def split: if_splits)
  qed
  have not_nx: "y \<noteq> nx" if "inner lv t x" "i < 2048" "link t x i = Some y" for x i y
    using tree_ok_link(1) [OF tree that] nx by auto
  have "is_table t' y \<and> lv' y = Suc (lv' x) \<and>
      unat (st_table_base t') \<le> unat (entry t' x i AND ADDRESS_MASK)"
    if x: "inner lv' t' x" "i < 2048" "link t' x i = Some y" for x i y
  proof -
    from from_old [OF x] have inn': "inner lv t x"
      and or: "x = tb \<and> i = idx \<and> y = nx \<or> link t x i = Some y" by auto
    have xnx: "x \<noteq> nx" using inn' nx by (auto simp: inner_def)
    from or show ?thesis
    proof
      assume new: "x = tb \<and> i = idx \<and> y = nx"
      have "unat (entry t' tb idx AND ADDRESS_MASK) = unat (st_table_base t) + nx"
        using table_descriptor(2) [of t' nx] l tb idx by (simp add: linked_def)
      then show ?thesis using new xnx by (simp add: tabs lv'_def base)
    next
      assume "link t x i = Some y"
      note y = tree_ok_link [OF tree inn' x(2) this] not_nx [OF inn' x(2) this]
      have "\<not> (x = tb \<and> i = idx)"
        using \<open>link t x i = Some y\<close> l by (auto simp: linked_def link_def)
      then have "entry t' x i = entry t x i"
        using l inn' x(2) by (auto simp: linked_def inner_def)
      then show ?thesis using y xnx by (simp add: tabs lv'_def base)
    qed
  qed
  moreover have "x = x' \<and> i = i'"
    if x: "inner lv' t' x" "i < 2048" "link t' x i = Some y"
      and x': "inner lv' t' x'" "i' < 2048" "link t' x' i' = Some y" for x i x' i' y
    using from_old [OF x] from_old [OF x'] not_nx tree_ok_unique [OF tree] x(2) x'(2) by metis
  moreover have "table_bytes_ok t'" "is_table t' 0" "is_table t' page" "lv' 0 = 1" "lv' page = 1"
    using l tree nx by (auto simp: linked_def tree_ok_def lv'_def)
  ultimately show ?thesis unfolding tree_ok_def by blast
qed

lemma linked_walk:
  assumes tree: "tree_ok lv t" and inn: "inner lv t tb" and idx: "idx < 2048"
    and l: "linked t tb idx nx t'" and root: "root = 0 \<or> root = page"
  shows "walk t' root va = walk t root va"
proof -
  note lt = linked_link [OF l index_at_bound]
  note r = tree_ok_roots [OF tree root]
  have free: "link t tb idx = None" using l by (simp add: linked_def link_def)
  have rt: "is_table t root" using r(1) by (simp add: inner_def)
  show ?thesis
  proof (cases "link t root (index_at va 36)")
    case None
    then show ?thesis using lt(1) [OF rt] lt(2) by (simp add: walk_def)
  next
    case (Some second)
    then have same: "link t' root (index_at va 36) = Some second"
      using lt(1) [OF rt, of va 36] free by auto
    note s = tree_ok_link(1,2) [OF tree r(1) index_at_bound Some]
    then have si: "inner lv t second" using r(2) by (simp add: inner_def)
    show ?thesis
    proof (cases "link t second (index_at va 25)")
      case None
      then show ?thesis using lt(1) [OF s(1), of va 25] lt(3) same Some by (simp add: walk_def)
    next
      case third: (Some third)
      then have same': "link t' second (index_at va 25) = Some third"
        using lt(1) [OF s(1), of va 25] free by auto
      note th = tree_ok_link(1,2) [OF tree si index_at_bound third]
      have "third \<noteq> tb" using th(2) s(2) r(2) inn by (auto simp: inner_def)
      then have "leaf t' third (index_at va 14) = leaf t third (index_at va 14)"
        using l th(1) index_at_bound [of va 14] by (auto simp: linked_def leaf_def)
      then show ?thesis using Some same third same' by (simp add: walk_def)
    qed
  qed
qed

text \<open>One round of the loop of \<open>map_page\<close>.\<close>

lemma descend_cases:
  assumes tree: "tree_ok lv t" and inn: "inner lv t tb"
    and d: "descend R t tb va shift = (Inr nx, t')"
  shows "t' = t \<and> link t tb (index_at va shift) = Some nx \<or>
    linked t tb (index_at va shift) nx t'"
proof -
  let ?i = "index_at va shift"
  have ok: "table_bytes_ok t" using tree by (simp add: tree_ok_def)
  have tb: "is_table t tb" using inn by (simp add: inner_def)
  note rd = read_descriptor_entry [OF ok tb, of va shift]
  show ?thesis
  proof (cases "entry t tb ?i = 0")
    case False
    then have "link t tb ?i = Some nx \<and> t' = t"
      using d rd by (auto simp: descend_def result_iff Let_def link_def checked_sub_Some split: if_splits)
    then show ?thesis by blast
  next
    case True
    then obtain t1 where alloc: "allocate_table R t = (Inr nx, t1)"
      and w: "write_descriptor t1 (slot_of tb va shift) ((st_table_base t1 + of_nat nx) OR 3) = Some t'"
      using d rd by (auto simp: descend_def result_iff Let_def split: if_splits)
    note a = allocate_table_Inr [OF alloc ok]
    have base: "st_table_base t1 = st_table_base t" by (simp add: a(2) grown_def)
    have tb1: "is_table t1 tb" using tb is_table_grown [OF ok] a(2) by simp
    obtain t2 where w': "write_descriptor t1 (slot_of tb va shift) ((st_table_base t1 + of_nat nx) OR 3) = Some t2"
      and len: "length (st_bytes t2) = length (st_bytes t1)" and base2: "st_table_base t2 = st_table_base t1"
      and ent: "\<And>x i. is_table t1 x \<Longrightarrow> i < 2048 \<Longrightarrow> entry t2 x i =
        (if x = tb \<and> i = ?i then (st_table_base t1 + of_nat nx) OR 3 else entry t1 x i)"
      by (rule write_descriptor_entry [OF a(3) tb1, of va shift "(st_table_base t1 + of_nat nx) OR 3"])
        (rule that, assumption+)
    have t2: "t2 = t'" using w w' by simp
    have tabs: "is_table t' x \<longleftrightarrow> is_table t x \<or> x = nx" for x
      using is_table_grown [OF ok, of x] a(1,2) len t2 by (auto simp: is_table_def)
    have fresh: "\<not> is_table t nx" by (simp add: a(1) is_table_def)
    have "tb \<noteq> nx" using tb fresh by auto
    have "table_bytes_ok t'" using a(3) len base2 t2 by (simp add: table_bytes_ok_def)
    then have "linked t tb ?i nx t'"
      unfolding linked_def
      using True fresh tabs base base2 t2 ent entry_grown [OF ok] a(1,2) \<open>tb \<noteq> nx\<close>
        is_table_grown [OF ok] by auto
    then show ?thesis by blast
  qed
qed

text \<open>What one state of the tree keeps of an earlier one.\<close>

definition extends :: "(nat \<Rightarrow> nat) \<Rightarrow> stage1_tables \<Rightarrow> (nat \<Rightarrow> nat) \<Rightarrow> stage1_tables \<Rightarrow> bool" where
  "extends lv t lv' t' \<longleftrightarrow>
     tree_ok lv' t' \<and> st_table_base t' = st_table_base t \<and>
     (\<forall>x. is_table t x \<longrightarrow> is_table t' x \<and> lv' x = lv x) \<and>
     (\<forall>x i y. inner lv t x \<longrightarrow> i < 2048 \<longrightarrow> link t x i = Some y \<longrightarrow> link t' x i = Some y) \<and>
     (\<forall>root va. root = 0 \<or> root = page \<longrightarrow> walk t' root va = walk t root va)"

lemma extends_inner: "extends lv t lv' t' \<Longrightarrow> inner lv t x \<Longrightarrow> inner lv' t' x"
  by (simp add: extends_def inner_def)

lemma extends_trans: "extends lv t lv' t' \<Longrightarrow> extends lv' t' lv'' t'' \<Longrightarrow> extends lv t lv'' t''"
  by (simp add: extends_def inner_def)

lemma descend_ok:
  assumes tree: "tree_ok lv t" and inn: "inner lv t tb"
    and d: "descend R t tb va shift = (Inr nx, t')"
  shows "\<exists>lv'. extends lv t lv' t' \<and> is_table t' nx \<and> lv' nx = Suc (lv tb) \<and>
    link t' tb (index_at va shift) = Some nx"
  using descend_cases [OF assms]
proof
  assume same: "t' = t \<and> link t tb (index_at va shift) = Some nx"
  then show ?thesis
    using tree tree_ok_link(1,2) [OF tree inn index_at_bound] by (auto simp: extends_def)
next
  assume l: "linked t tb (index_at va shift) nx t'"
  let ?lv = "lv(nx := Suc (lv tb))"
  note lt = linked_link [OF l index_at_bound]
  have tb: "is_table t tb" using inn by (simp add: inner_def)
  have nx: "\<not> is_table t nx" "\<And>x. is_table t' x \<longleftrightarrow> is_table t x \<or> x = nx"
    "st_table_base t' = st_table_base t" using l by (auto simp: linked_def)
  have free: "link t tb (index_at va shift) = None" using l by (simp add: linked_def link_def)
  have "link t' x i = Some y" if "inner lv t x" "i < 2048" "link t x i = Some y" for x i y
    using linked_link(1) [OF l that(2), of x] that free by (auto simp: inner_def)
  then have "extends lv t ?lv t'"
    using linked_tree [OF tree inn index_at_bound l] linked_walk [OF tree inn index_at_bound l] nx
    by (auto simp: extends_def)
  moreover have "link t' tb (index_at va shift) = Some nx"
    using lt(1) [OF tb, of va shift] by simp
  ultimately show ?thesis using nx by (intro exI [of _ ?lv]) simp
qed

lemma walk_path:
  assumes "link t root (index_at va 36) = Some second" and "link t second (index_at va 25) = Some third"
  shows "walk t root va = leaf t third (index_at va 14)"
  using assms by (simp add: walk_def)

text \<open>The three indices of two addresses agree exactly when their page numbers do.\<close>

definition page_number :: "u64 \<Rightarrow> nat" where
  "page_number va = unat va div page mod 2 ^ 33"

lemma page_number_indices:
  "page_number va = index_at va 36 * 2 ^ 22 + index_at va 25 * 2 ^ 11 + index_at va 14"
proof -
  let ?n = "unat va div page"
  have "unat va div 2 ^ 36 = ?n div 2 ^ 22" "unat va div 2 ^ 25 = ?n div 2 ^ 11"
    by (simp_all flip: div_mult2_eq)
  moreover have "?n mod 2 ^ 33 = (?n div 2 ^ 22) mod 2048 * 2 ^ 22 + ?n mod 2 ^ 22"
    using mod_mult2_eq [of ?n "2 ^ 22" 2048] by simp
  moreover have "?n mod 2 ^ 22 = (?n div 2 ^ 11) mod 2048 * 2 ^ 11 + ?n mod 2048"
    using mod_mult2_eq [of ?n "2 ^ 11" 2048] by simp
  ultimately show ?thesis by (simp add: page_number_def index_at_nat)
qed

lemma page_number_eq:
  "page_number va = page_number vb \<longleftrightarrow>
   index_at va 36 = index_at vb 36 \<and> index_at va 25 = index_at vb 25 \<and> index_at va 14 = index_at vb 14"
  (is "?l \<longleftrightarrow> ?r")
proof
  assume eq: ?l
  define a b c a' b' c' where d: "a = index_at va 36" "b = index_at va 25" "c = index_at va 14"
    "a' = index_at vb 36" "b' = index_at vb 25" "c' = index_at vb 14"
  have less: "b < 2048" "c < 2048" "b' < 2048" "c' < 2048" by (simp_all add: d index_at_bound)
  have "a * 4194304 + b * 2048 + c = a' * 4194304 + b' * 2048 + c'"
    using eq by (simp add: page_number_indices d)
  then have 1: "(a * 2048 + b) * 2048 + c = (a' * 2048 + b') * 2048 + c'" by simp
  have digit: "(x * 2048 + y) div 2048 = x \<and> (x * 2048 + y) mod 2048 = y" if "y < 2048" for x y :: nat
    using that by simp
  have "c = c'" "a * 2048 + b = a' * 2048 + b'"
    using 1 digit [OF less(2)] digit [OF less(4)] by metis+
  then have "a = a' \<and> b = b' \<and> c = c'"
    using digit [OF less(1)] digit [OF less(3)] by metis
  then show ?r by (simp add: d)
qed (simp add: page_number_indices)

section \<open>Mapping a page\<close>

lemma leaf_store:
  assumes tree: "tree_ok lv t" and th: "is_table t third" "lv third = 3"
    and w: "write_descriptor t (slot_of third va 14) w = Some t'" "w \<noteq> 0"
  shows "tree_ok lv t'" and "st_table_base t' = st_table_base t"
    and "\<And>x. is_table t' x = is_table t x"
    and "\<And>x i. inner lv t x \<Longrightarrow> i < 2048 \<Longrightarrow> link t' x i = link t x i"
    and "\<And>x i. is_table t x \<Longrightarrow> i < 2048 \<Longrightarrow> leaf t' x i =
      (if x = third \<and> i = index_at va 14 then Some (w AND ADDRESS_MASK) else leaf t x i)"
proof -
  have ok: "table_bytes_ok t" using tree by (simp add: tree_ok_def)
  obtain t2 where t2: "write_descriptor t (slot_of third va 14) w = Some t2"
    and len: "length (st_bytes t2) = length (st_bytes t)" and base: "st_table_base t2 = st_table_base t"
    and ent: "\<And>x i. is_table t x \<Longrightarrow> i < 2048 \<Longrightarrow>
      entry t2 x i = (if x = third \<and> i = index_at va 14 then w else entry t x i)"
    by (rule write_descriptor_entry [OF ok th(1), of va 14 w]) (rule that, assumption+)
  then have t': "t2 = t'" using w by simp
  show base': "st_table_base t' = st_table_base t" using base t' by simp
  show tabs: "is_table t' x = is_table t x" for x using len t' by (simp add: is_table_def)
  have inn: "inner lv t' x = inner lv t x" for x by (simp add: inner_def tabs)
  have same: "entry t' x i = entry t x i" if "inner lv t x" "i < 2048" for x i
  proof -
    have "is_table t x" "x \<noteq> third" using that th(2) by (auto simp: inner_def)
    then show ?thesis using ent [of x i] t' that(2) by auto
  qed
  then show links: "link t' x i = link t x i" if "inner lv t x" "i < 2048" for x i
    using that by (simp add: link_def base')
  show "leaf t' x i = (if x = third \<and> i = index_at va 14 then Some (w AND ADDRESS_MASK) else leaf t x i)"
    if "is_table t x" "i < 2048" for x i
    using ent [OF that] t' w(2) by (auto simp: leaf_def)
  have "table_bytes_ok t'" using ok len base t' by (simp add: table_bytes_ok_def)
  then show "tree_ok lv t'"
    using tree by (simp add: tree_ok_def tabs inn links same base' cong: conj_cong imp_cong)
qed

lemma page_store_walk:
  assumes tree: "tree_ok lv t" and root: "root = 0 \<or> root = page"
    and path: "link t root (index_at va 36) = Some second" "link t second (index_at va 25) = Some third"
    and w: "write_descriptor t (slot_of third va 14) w = Some t'" "w \<noteq> 0"
    and r: "r = 0 \<or> r = page"
  shows "walk t' r v = (if r = root \<and> page_number v = page_number va
    then Some (w AND ADDRESS_MASK) else walk t r v)"
proof -
  note rt = tree_ok_roots [OF tree root] and rr = tree_ok_roots [OF tree r]
  note s = tree_ok_link(1,2) [OF tree rt(1) index_at_bound path(1)]
  have si: "inner lv t second" using s rt(2) by (simp add: inner_def)
  note th = tree_ok_link(1,2) [OF tree si index_at_bound path(2)]
  have lv3: "lv third = 3" using th(2) s(2) rt(2) by simp
  note st = leaf_store [OF tree th(1) lv3 w]
  show ?thesis
  proof (cases "link t r (index_at v 36)")
    case None
    then show ?thesis
      using st(4) [OF rr(1) index_at_bound, of v 36] path(1) by (auto simp: walk_def page_number_eq)
  next
    case (Some s2)
    note s2 = tree_ok_link(1,2) [OF tree rr(1) index_at_bound Some]
    have s2i: "inner lv t s2" using s2 rr(2) by (simp add: inner_def)
    have l1: "link t' r (index_at v 36) = Some s2" using st(4) [OF rr(1) index_at_bound] Some by simp
    show ?thesis
    proof (cases "link t s2 (index_at v 25)")
      case None
      then show ?thesis
        using st(4) [OF s2i index_at_bound, of v 25] l1 Some path by (auto simp: walk_def page_number_eq)
    next
      case third: (Some th2)
      note t2 = tree_ok_link(1,2) [OF tree s2i index_at_bound third]
      have l2: "link t' s2 (index_at v 25) = Some th2"
        using st(4) [OF s2i index_at_bound] third by simp
      have "th2 = third \<and> index_at v 14 = index_at va 14 \<longleftrightarrow> r = root \<and> page_number v = page_number va"
      proof
        assume eq: "th2 = third \<and> index_at v 14 = index_at va 14"
        then have a: "s2 = second \<and> index_at v 25 = index_at va 25"
          using tree_ok_unique [OF tree s2i si index_at_bound index_at_bound third] path(2) by simp
        then have "r = root \<and> index_at v 36 = index_at va 36"
          using tree_ok_unique [OF tree rr(1) rt(1) index_at_bound index_at_bound Some] path(1) by simp
        then show "r = root \<and> page_number v = page_number va" using a eq by (simp add: page_number_eq)
      next
        assume "r = root \<and> page_number v = page_number va"
        then show "th2 = third \<and> index_at v 14 = index_at va 14"
          using Some third path by (auto simp: page_number_eq)
      qed
      moreover have "walk t' r v = leaf t' th2 (index_at v 14)" by (rule walk_path [OF l1 l2])
      moreover have "walk t r v = leaf t th2 (index_at v 14)" by (rule walk_path [OF Some third])
      ultimately show ?thesis using st(5) [OF t2(1) index_at_bound, of v 14] by simp
    qed
  qed
qed

lemma map_page_ok:
  assumes tree: "tree_ok lv t" and root: "root = 0 \<or> root = page"
    and m: "map_page R t root va pa = (Inr u, t')"
  shows "\<exists>lv'. tree_ok lv' t' \<and> st_table_base t' = st_table_base t \<and> walk t root va = None \<and>
    (\<forall>r v. r = 0 \<or> r = page \<longrightarrow> walk t' r v = (if r = root \<and> page_number v = page_number va
       then Some ((pa OR 0x403) AND ADDRESS_MASK) else walk t r v))"
proof -
  note rt = tree_ok_roots [OF tree root]
  from m obtain second t1 third t2 where d1: "descend R t root va 36 = (Inr second, t1)"
    and d2: "descend R t1 second va 25 = (Inr third, t2)"
    and rest: "(let slot = slot_of third va 14 in
       or_return (ok_or (read_descriptor t2 slot) S1_Panic) t2 (\<lambda>descriptor.
       if descriptor \<noteq> 0 then (Inl S1_OverlappingRange, t2)
       else or_return (ok_or (write_descriptor t2 slot (pa OR 0x403)) S1_Panic) t2 (\<lambda>t.
       (Inr (), t)))) = (Inr u, t')"
    unfolding map_page_alt and_run_Inr by blast
  from descend_ok [OF tree rt(1) d1] obtain lv1 where e1: "extends lv t lv1 t1" "is_table t1 second"
    "lv1 second = Suc (lv root)" "link t1 root (index_at va 36) = Some second" by blast
  have tree1: "tree_ok lv1 t1" and in1: "inner lv1 t1 second"
    using e1 rt(2) by (auto simp: extends_def inner_def)
  from descend_ok [OF tree1 in1 d2] obtain lv2 where e2: "extends lv1 t1 lv2 t2" "is_table t2 third"
    "lv2 third = Suc (lv1 second)" "link t2 second (index_at va 25) = Some third" by blast
  have tree2: "tree_ok lv2 t2" using e2(1) by (simp add: extends_def)
  have p1: "link t2 root (index_at va 36) = Some second"
    using e2(1) e1(4) extends_inner [OF e1(1) rt(1)] index_at_bound unfolding extends_def by blast
  have lv3: "lv2 third = 3" using e2(3) e1(3) rt(2) by simp
  have w0: "pa OR 0x403 \<noteq> 0"
  proof -
    have "bit (pa OR 0x403) 0" by (simp add: bit_simps)
    then show ?thesis by auto
  qed
  have ok2: "table_bytes_ok t2" using tree2 by (simp add: tree_ok_def)
  from rest have free: "entry t2 third (index_at va 14) = 0"
    and w: "write_descriptor t2 (slot_of third va 14) (pa OR 0x403) = Some t'"
    by (auto simp: result_iff Let_def read_descriptor_entry [OF ok2 e2(2)] split: if_splits)
  note st = leaf_store [OF tree2 e2(2) lv3 w w0]
  have walks: "walk t2 r v = walk t r v" if "r = 0 \<or> r = page" for r v
    using extends_trans [OF e1(1) e2(1)] that unfolding extends_def by blast
  have "walk t root va = None"
    using walks [OF root, of va] walk_path [OF p1 e2(4)] free by (simp add: leaf_def)
  moreover have "st_table_base t' = st_table_base t"
    using st(2) extends_trans [OF e1(1) e2(1)] by (simp add: extends_def)
  ultimately show ?thesis
    using st(1) page_store_walk [OF tree2 root p1 e2(4) w w0] walks by (intro exI [of _ lv2]) auto
qed

text \<open>A successful call adds one page to the map and takes none away.\<close>

lemma walk_page_number: "page_number va = page_number vb \<Longrightarrow> walk t root va = walk t root vb"
  by (simp add: walk_def page_number_eq cong: option.case_cong)

definition adds_pages ::
  "stage1_tables \<Rightarrow> (nat \<times> u64 \<times> u64) set \<Rightarrow> stage1_tables \<Rightarrow> bool" where
  "adds_pages t new t' \<longleftrightarrow>
     (\<exists>lv. tree_ok lv t') \<and> st_table_base t' = st_table_base t \<and>
     (\<forall>r v x. r = 0 \<or> r = page \<longrightarrow> walk t r v = Some x \<longrightarrow> walk t' r v = Some x) \<and>
     (\<forall>r va pa v. (r, va, pa) \<in> new \<longrightarrow> page_number v = page_number va \<longrightarrow>
        walk t' r v = Some ((pa OR 0x403) AND ADDRESS_MASK)) \<and>
     (\<forall>r v x. r = 0 \<or> r = page \<longrightarrow> walk t' r v = Some x \<longrightarrow> walk t r v = Some x \<or>
        (\<exists>va pa. (r, va, pa) \<in> new \<and> page_number v = page_number va))"

lemma adds_pages_refl: "tree_ok lv t \<Longrightarrow> adds_pages t {} t"
  by (auto simp: adds_pages_def)

lemma adds_pages_dest:
  assumes "adds_pages t new t'"
  shows "\<exists>lv. tree_ok lv t'" and "st_table_base t' = st_table_base t"
    and "r = 0 \<or> r = page \<Longrightarrow> walk t r v = Some x \<Longrightarrow> walk t' r v = Some x"
    and "(r, va, pa) \<in> new \<Longrightarrow> page_number v = page_number va \<Longrightarrow>
      walk t' r v = Some ((pa OR 0x403) AND ADDRESS_MASK)"
    and "r = 0 \<or> r = page \<Longrightarrow> walk t' r v = Some x \<Longrightarrow> walk t r v = Some x \<or>
      (\<exists>va pa. (r, va, pa) \<in> new \<and> page_number v = page_number va)"
  using assms unfolding adds_pages_def by blast+

lemma adds_pages_trans:
  assumes "adds_pages t a t'" and "adds_pages t' b t''" and "\<And>r va pa. (r, va, pa) \<in> a \<Longrightarrow> r = 0 \<or> r = page"
  shows "adds_pages t (a \<union> b) t''"
proof -
  note A = adds_pages_dest [OF assms(1)] and B = adds_pages_dest [OF assms(2)]
  show ?thesis unfolding adds_pages_def
  proof (intro conjI allI impI)
    show "st_table_base t'' = st_table_base t" using A(2) B(2) by simp
  next
    fix r v x assume "r = 0 \<or> r = page" "walk t r v = Some x"
    then show "walk t'' r v = Some x" using A(3) B(3) by blast
  next
    fix r va pa v assume m: "(r, va, pa) \<in> a \<union> b" and v: "page_number v = page_number va"
    show "walk t'' r v = Some ((pa OR 0x403) AND ADDRESS_MASK)"
    proof (cases "(r, va, pa) \<in> a")
      case True
      from B(3) [OF assms(3) [OF True] A(4) [OF True v]] show ?thesis .
    next
      case False
      then show ?thesis using m B(4) [OF _ v] by blast
    qed
  next
    fix r v x assume r: "r = 0 \<or> r = page" and w: "walk t'' r v = Some x"
    from B(5) [OF r w] A(5) [OF r]
    show "walk t r v = Some x \<or> (\<exists>va pa. (r, va, pa) \<in> a \<union> b \<and> page_number v = page_number va)"
      by blast
  qed (rule B(1))
qed

lemma map_page_adds:
  assumes "tree_ok lv t" and root: "root = 0 \<or> root = page"
    and "map_page R t root va pa = (Inr u, t')"
  shows "adds_pages t {(root, va, pa)} t'"
proof -
  from map_page_ok [OF assms] obtain lv' where tree: "tree_ok lv' t'"
    and base: "st_table_base t' = st_table_base t" and none: "walk t root va = None"
    and walks: "\<And>r v. r = 0 \<or> r = page \<Longrightarrow> walk t' r v = (if r = root \<and> page_number v = page_number va
       then Some ((pa OR 0x403) AND ADDRESS_MASK) else walk t r v)" by blast
  show ?thesis
    unfolding adds_pages_def
  proof (intro conjI allI impI)
    show "\<exists>lv. tree_ok lv t'" using tree by blast
  next
    fix r v x assume r: "r = 0 \<or> r = page" and w: "walk t r v = Some x"
    show "walk t' r v = Some x"
      using walks [OF r, of v] w none walk_page_number [of v va t r] by auto
  next
    fix r va' pa' v assume "(r, va', pa') \<in> {(root, va, pa)}" and "page_number v = page_number va'"
    then show "walk t' r v = Some ((pa' OR 0x403) AND ADDRESS_MASK)" using walks [OF root, of v] by simp
  next
    fix r v x assume r: "r = 0 \<or> r = page" and w: "walk t' r v = Some x"
    show "walk t r v = Some x \<or>
        (\<exists>va' pa'. (r, va', pa') \<in> {(root, va, pa)} \<and> page_number v = page_number va')"
      using walks [OF r, of v] w by (auto split: if_splits)
  qed (rule base)
qed

lemma map_linear_adds:
  assumes "tree_ok lv t" and "map_linear R physical virt offs t = (Inr u, t')"
  shows "adds_pages t ((\<lambda>off. (0, physical + off, physical + off)) ` set offs \<union>
    (\<lambda>off. (page, virt + off, physical + off)) ` set offs) t'"
  using assms
proof (induction offs arbitrary: t lv)
  case Nil
  then show ?case using adds_pages_refl by simp
next
  case (Cons off offs)
  have size: "unat PAGE_SIZE = page" by (simp add: PAGE_SIZE_def)
  from Cons.prems(2) obtain t1 t2 u1 u2 where
    m1: "map_page R t 0 (physical + off) (physical + off) = (Inr u1, t1)"
    and m2: "map_page R t1 page (virt + off) (physical + off) = (Inr u2, t2)"
    and rest: "map_linear R physical virt offs t2 = (Inr u, t')"
    unfolding map_linear.simps Let_def and_run_Inr size by blast
  have a1: "adds_pages t {(0, physical + off, physical + off)} t1"
    using map_page_adds [OF Cons.prems(1) _ m1] by simp
  then obtain lv1 where "tree_ok lv1 t1" by (auto simp: adds_pages_def)
  from map_page_adds [OF this _ m2] have a2: "adds_pages t1 {(page, virt + off, physical + off)} t2" by simp
  then obtain lv2 where "tree_ok lv2 t2" by (auto simp: adds_pages_def)
  note a3 = Cons.IH [OF this rest]
  have "adds_pages t ({(0, physical + off, physical + off)} \<union> {(page, virt + off, physical + off)}) t2"
    by (rule adds_pages_trans [OF a1 a2]) simp
  from adds_pages_trans [OF this a3]
  have "adds_pages t (({(0, physical + off, physical + off)} \<union> {(page, virt + off, physical + off)}) \<union>
    ((\<lambda>off. (0, physical + off, physical + off)) ` set offs \<union>
     (\<lambda>off. (page, virt + off, physical + off)) ` set offs)) t'"
    by auto
  then show ?case by (rule back_subst [of "\<lambda>new. adds_pages t new t'"]) auto
qed

section \<open>Aligned addresses\<close>

lemma aligned_or:
  assumes "(a OR b OR c) AND (PAGE_SIZE - 1) = 0"
  shows "page dvd unat a" and "page dvd unat b" and "page dvd unat c"
proof -
  have mask: "PAGE_SIZE - 1 = mask 14" by (simp add: PAGE_SIZE_def mask_eq_exp_minus_1)
  have "take_bit 14 a = 0 \<and> take_bit 14 b = 0 \<and> take_bit 14 c = 0"
    using assms unfolding mask by (auto simp: bit_eq_iff bit_simps)
  then have "unat a mod 2 ^ 14 = 0 \<and> unat b mod 2 ^ 14 = 0 \<and> unat c mod 2 ^ 14 = 0"
    using unat_take_bit_mod [of 14 a] unat_take_bit_mod [of 14 b] unat_take_bit_mod [of 14 c]
    by (metis unat_0)
  then show "page dvd unat a" "page dvd unat b" "page dvd unat c" by (simp_all add: mod_eq_0_iff_dvd)
qed

lemma page_size: "unat PAGE_SIZE = page"
  by (simp add: PAGE_SIZE_def)

text \<open>The offsets of the pages of a region.\<close>

lemma page_offsets_set:
  assumes "page dvd unat n"
  shows "off \<in> set (page_offsets n) \<longleftrightarrow> page dvd unat off \<and> unat off < unat n"
proof -
  obtain m where m: "unat n = page * m" using assms by (auto simp: dvd_def)
  have count: "(unat n + (page - 1)) div page = m" by (simp add: m)
  have small: "k * page < 2 ^ 64" if "k < m" for k
  proof -
    have "k * page < unat n" using that by (simp add: m)
    then show ?thesis using unat_u64_bound [of n] by linarith
  qed
  have un: "unat (of_nat (k * page) :: u64) = k * page" if "k < m" for k
    unfolding unat_of_nat using small [OF that] by simp
  show ?thesis
  proof
    assume "off \<in> set (page_offsets n)"
    then obtain k where k: "k < m" "off = of_nat (k * page)"
      using count by (auto simp: page_offsets_def page_size)
    then show "page dvd unat off \<and> unat off < unat n" using un [OF k(1)] by (simp add: m)
  next
    assume off: "page dvd unat off \<and> unat off < unat n"
    then obtain k where k: "unat off = k * page" by (auto simp: dvd_def mult.commute)
    then have "k < m" using off by (simp add: m)
    then have "off = of_nat (k * page)" using un [of k] k by (simp add: word_unat_eq_iff)
    then show "off \<in> set (page_offsets n)"
      using \<open>k < m\<close> count by (auto simp: page_offsets_def page_size)
  qed
qed

text \<open>The page of an address that lies some bytes behind an aligned one.\<close>

lemma page_number_near:
  assumes "page dvd unat p" and "unat v = unat p + k" and "k < page"
  shows "page_number v = page_number p"
  using assms by (auto simp: page_number_def dvd_def)

lemma page_number_low:
  assumes "unat a < 2 ^ 47" and "unat b < 2 ^ 47" and "page_number a = page_number b"
  shows "unat a div page = unat b div page"
  using assms by (simp add: page_number_def)

lemma page_number_high:
  assumes "HIGH_START \<le> a" and "HIGH_START \<le> b" and "page_number a = page_number b"
  shows "unat a div page = unat b div page"
proof -
  let ?h = "18446603336221196288 :: nat"
  have h: "?h \<le> unat a" "?h \<le> unat b"
    using assms(1,2) by (simp_all add: HIGH_START_def word_le_nat_alt)
  obtain k l where kl: "unat a = ?h + k" "unat b = ?h + l" using h by (metis le_add_diff_inverse)
  have less: "k < 2 ^ 47" "l < 2 ^ 47"
    using kl unat_u64_bound [of a] unat_u64_bound [of b] by simp_all
  have top: "(?h + x) div page = 131071 * 2 ^ 33 + x div page" for x
    using div_mult_self3 [of page 1125891316908032 x] by simp
  have "((?h + x) div page) mod 2 ^ 33 = x div page" if "x < 2 ^ 47" for x
  proof -
    have "((?h + x) div page) mod 2 ^ 33 = x div page mod 2 ^ 33"
      unfolding top by (rule mod_mult_self3)
    then show ?thesis using that by simp
  qed
  then have "k div page = l div page"
    using assms(3) less unfolding page_number_def kl by metis
  then show ?thesis by (simp only: kl top)
qed

section \<open>The tables of a region\<close>

text \<open>The address a root translates an address to: the page of the walk, and the low bits.\<close>

definition translate :: "stage1_tables \<Rightarrow> nat \<Rightarrow> u64 \<Rightarrow> u64 option" where
  "translate t root va = map_option (\<lambda>p. p + (va AND (PAGE_SIZE - 1))) (walk t root va)"

lemma low_bits: "unat (va AND (PAGE_SIZE - 1)) = unat va mod page"
proof -
  have "va AND (PAGE_SIZE - 1) = take_bit 14 va"
    by (simp add: PAGE_SIZE_def take_bit_eq_mask mask_eq_exp_minus_1)
  then show ?thesis using unat_take_bit_mod [of 14 va] by simp
qed

lemma entry_empty:
  assumes "table_bytes_ok t" and "st_bytes t = []" and "r = 0 \<or> r = page" and "i < 2048"
  shows "entry (grown (grown t)) r i = 0"
proof -
  have ok: "table_bytes_ok (grown t)" if "table_bytes_ok (grown (grown t))"
    using that assms(2) by (auto simp: table_bytes_ok_def grown_def)
  have "drop (r + i * 8) (st_bytes (grown (grown t))) = replicate (page + page - (r + i * 8)) 0"
    using assms(2) by (simp add: grown_def flip: replicate_add)
  moreover have "8 \<le> page + page - (r + i * 8)" using assms(3,4) by auto
  ultimately have "take 8 (drop (r + i * 8) (st_bytes (grown (grown t)))) = replicate 8 0"
    by (simp add: min_def)
  moreover have "from_le_bytes (replicate 8 0) = (0 :: u64)"
    by (simp add: from_le_bytes_def numeral_eq_Suc)
  ultimately show ?thesis by (simp only: entry_def)
qed

text \<open>The two roots, before any page is mapped.\<close>

lemma two_roots:
  assumes a1: "allocate_table R t0 = (Inr x, t1)" and a2: "allocate_table R t1 = (Inr y, t2)"
    and ok: "table_bytes_ok t0" and empty: "st_bytes t0 = []"
  shows "tree_ok (\<lambda>_. 1) t2" and "r = 0 \<or> r = page \<Longrightarrow> walk t2 r v = None"
    and "st_table_base t2 = st_table_base t0"
proof -
  note b1 = allocate_table_Inr [OF a1 ok]
  note b2 = allocate_table_Inr [OF a2 b1(3)]
  have t2: "t2 = grown (grown t0)" using b1(2) b2(2) by simp
  have tabs: "is_table t2 z \<longleftrightarrow> z = 0 \<or> z = page" for z
    using is_table_grown [OF b1(3), of z] is_table_grown [OF ok, of z] b1(2) b2(2) empty
    by (auto simp: is_table_def grown_def)
  have none: "link t2 z i = None" if "is_table t2 z" "i < 2048" for z i
  proof -
    have "z = 0 \<or> z = page" using that(1) by (simp only: tabs)
    then show ?thesis using entry_empty [OF ok empty _ that(2), of z] by (simp add: link_def t2)
  qed
  then show "tree_ok (\<lambda>_. 1) t2"
    using b2(3) by (auto simp: tree_ok_def tabs inner_def none)
  show "walk t2 r v = None" if "r = 0 \<or> r = page"
    using none [OF _ index_at_bound, of r] that by (simp add: walk_def tabs)
  show "st_table_base t2 = st_table_base t0" by (simp add: t2 grown_def)
qed

lemma finish_Inr [result_iff]: "finish r = Inr t \<longleftrightarrow> (\<exists>u. r = (Inr u, t))"
  by (auto simp: finish_def split: prod.splits sum.splits)

text \<open>What a successful construction checked and did.\<close>

lemma stage1_new_Inr:
  assumes "stage1_new R physical_base virtual_base memory_size = Inr t"
  shows "\<exists>t2. page dvd unat physical_base \<and> page dvd unat virtual_base \<and> page dvd unat memory_size \<and>
    memory_size \<noteq> 0 \<and> unat physical_base + unat memory_size \<le> 2 ^ 47 \<and>
    HIGH_START \<le> virtual_base \<and> unat virtual_base + unat memory_size < 2 ^ 64 \<and>
    tree_ok (\<lambda>_. 1) t2 \<and> (\<forall>r v. r = 0 \<or> r = page \<longrightarrow> walk t2 r v = None) \<and>
    map_linear R physical_base virtual_base (page_offsets memory_size) t2 = (Inr (), t)"
proof -
  from assms obtain tb vend x t1 y t2 u where
    al: "(physical_base OR virtual_base OR memory_size) AND (PAGE_SIZE - 1) = 0"
    and size: "memory_size \<noteq> 0" and tb: "checked_add physical_base memory_size = Some tb"
    and ve: "checked_add virtual_base memory_size = Some vend"
    and low: "tb \<le> LOW_END" and high: "HIGH_START \<le> virtual_base"
    and a: "allocate_table R \<lparr> st_bytes = [], st_table_base = tb, st_ram_base = physical_base,
                st_virtual_base = virtual_base, st_memory_size = memory_size \<rparr> = (Inr x, t1)"
    "allocate_table R t1 = (Inr y, t2)"
    and m: "map_linear R physical_base virtual_base (page_offsets memory_size) t2 = (Inr u, t)"
    by (auto simp: stage1_new_def result_iff Let_def not_less split: if_splits)
  note al' = aligned_or [OF al]
  have tb': "unat physical_base + unat memory_size = unat tb" using tb by (simp add: checked_add_Some)
  have "unat LOW_END = 2 ^ 47" by (simp add: LOW_END_def)
  then have low': "unat tb \<le> 2 ^ 47" using low by (simp add: word_le_nat_alt)
  have "page dvd unat tb" using al'(1,3) by (simp flip: tb')
  then have ok: "table_bytes_ok \<lparr> st_bytes = [], st_table_base = tb, st_ram_base = physical_base,
                st_virtual_base = virtual_base, st_memory_size = memory_size \<rparr>"
    using low' by (simp add: table_bytes_ok_def)
  have "unat virtual_base + unat memory_size = unat vend" using ve by (simp add: checked_add_Some)
  then have "unat virtual_base + unat memory_size < 2 ^ 64" using unat_u64_bound [of vend] by linarith
  then show ?thesis
    using al' size low' high m two_roots [OF a ok] by (intro exI [of _ t2]) (simp add: tb')
qed

text \<open>Where an offset into the region lies, in either alias.\<close>

lemma region_page:
  assumes "page dvd unat base" and "page dvd unat n" and "unat base + unat n < 2 ^ 64 \<or> unat base + unat n \<le> 2 ^ 47"
    and "unat off < unat n"
  defines "off0 \<equiv> (of_nat (unat off div page * page) :: u64)"
  shows "off0 \<in> set (page_offsets n)" and "unat (base + off0) = unat base + unat off div page * page"
    and "unat (base + off) = unat base + unat off"
    and "page_number (base + off) = page_number (base + off0)"
    and "page dvd unat (base + off0)"
proof -
  have le: "unat off div page * page \<le> unat off" by simp
  then have o0: "unat off0 = unat off div page * page"
    unfolding off0_def unat_of_nat using unat_u64_bound [of off] by simp
  show "off0 \<in> set (page_offsets n)"
    unfolding page_offsets_set [OF assms(2)] o0 using le assms(4) by (simp add: dvd_def)
  show s0: "unat (base + off0) = unat base + unat off div page * page"
    using assms(3,4) le o0 by (subst unat_add_exact) auto
  show s: "unat (base + off) = unat base + unat off"
    using assms(3,4) by (subst unat_add_exact) auto
  show al: "page dvd unat (base + off0)" using assms(1) by (simp add: s0)
  show "page_number (base + off) = page_number (base + off0)"
    by (rule page_number_near [OF al, where k = "unat off mod page"]) (simp_all add: s s0)
qed

text \<open>The converse: an address with the page number of a page of the region lies in it.\<close>

lemma region_inside:
  assumes "page dvd unat base" and "page dvd unat n" and "off \<in> set (page_offsets n)"
    and "unat (base + off) = unat base + unat off" and "unat va div page = unat (base + off) div page"
  shows "unat base \<le> unat va \<and> unat va < unat base + unat n"
proof -
  have off: "page dvd unat off" "unat off < unat n" using assms(3) page_offsets_set [OF assms(2)] by auto
  obtain b k m where "unat base = page * b" "unat off = page * k" "unat n = page * m"
    using assms(1,2) off(1) by (auto simp: dvd_def)
  moreover from this have "k < m" using off(2) by simp
  moreover have "unat va div page = b + k" using assms(4,5) calculation by simp
  ultimately have "page * (b + k) \<le> unat va" "unat va < page * (b + k) + page" "k + 1 \<le> m"
    by (auto simp: dividend_less_div_times mult.commute)
  then show ?thesis
    using mult_le_mono2 [of "k + 1" m page] \<open>unat base = page * b\<close> \<open>unat n = page * m\<close>
    by (simp add: algebra_simps)
qed

section \<open>Errors\<close>

definition no_room :: "(nat \<Rightarrow> bool) \<Rightarrow> stage1_tables \<Rightarrow> bool" where
  "no_room R t \<longleftrightarrow> MAX_TABLE_BYTES < length (st_bytes t) + page \<or>
     2 ^ 48 < unat (st_table_base t) + (length (st_bytes t) + page) \<or> \<not> R (length (st_bytes t) + page)"

lemma allocate_table_Inl:
  assumes "allocate_table R t = (Inl e, t')" and "table_bytes_ok t"
  shows "no_room R t" and "e \<in> {S1_TableCapacity, S1_AddressOverflow, S1_Allocation}" and "t' = t"
proof -
  have len: "length (st_bytes t) + page < 2 ^ 64"
    using assms(2) by (simp add: table_bytes_ok_def)
  then have un: "unat (of_nat (length (st_bytes t) + page) :: u64) = length (st_bytes t) + page"
    unfolding unat_of_nat by simp
  have pa: "unat PA_END = 2 ^ 48" by (simp add: PA_END_def)
  have over: "2 ^ 48 < unat (st_table_base t) + (length (st_bytes t) + page)"
    if "case checked_add (st_table_base t) (of_nat (length (st_bytes t) + page)) of
         None \<Rightarrow> True | Some stop \<Rightarrow> PA_END < stop"
  proof (cases "checked_add (st_table_base t) (of_nat (length (st_bytes t) + page))")
    case None
    then have "2 ^ 64 \<le> unat (st_table_base t) + (length (st_bytes t) + page)"
      by (simp only: checked_add_None un) simp
    then show ?thesis by simp
  next
    case (Some stop)
    then have "unat (st_table_base t) + (length (st_bytes t) + page) = unat stop"
      by (simp only: checked_add_Some un)
    then show ?thesis using that Some pa by (simp add: word_less_nat_alt)
  qed
  have add: "usize_add (length (st_bytes t)) page = Some (length (st_bytes t) + page)"
    using len by (simp add: usize_add_def)
  have "no_room R t \<and> e \<in> {S1_TableCapacity, S1_AddressOverflow, S1_Allocation} \<and> t' = t"
    using assms(1) over
    by (simp add: allocate_table_def Let_def page_size add no_room_def del: of_nat_add
        split: if_splits)
  then show "no_room R t" "e \<in> {S1_TableCapacity, S1_AddressOverflow, S1_Allocation}" "t' = t" by auto
qed

lemma descend_length:
  assumes "tree_ok lv t" and "inner lv t tb" and "descend R t tb va shift = (Inr nx, t')"
  shows "length (st_bytes t') \<le> length (st_bytes t) + page"
proof -
  have ok: "table_bytes_ok t" using assms(1) by (simp add: tree_ok_def)
  have tb: "is_table t tb" using assms(2) by (simp add: inner_def)
  show ?thesis
  proof (cases "entry t tb (index_at va shift) = 0")
    case False
    then show ?thesis
      using assms(3) read_descriptor_entry [OF ok tb]
      by (auto simp: descend_def result_iff Let_def split: if_splits)
  next
    case True
    then obtain t1 where alloc: "allocate_table R t = (Inr nx, t1)"
      and w: "write_descriptor t1 (slot_of tb va shift) ((st_table_base t1 + of_nat nx) OR 3) = Some t'"
      using assms(3) read_descriptor_entry [OF ok tb]
      by (auto simp: descend_def result_iff Let_def split: if_splits)
    have "length (st_bytes t') = length (st_bytes t1)"
      using w by (auto simp: write_descriptor_def copy_from_slice_def split: if_splits)
    then show ?thesis using allocate_table_Inr(2) [OF alloc ok] by (simp add: grown_def)
  qed
qed

lemma descend_Inl:
  assumes tree: "tree_ok lv t" and inn: "inner lv t tb" and d: "descend R t tb va shift = (Inl e, t')"
  shows "no_room R t" and "e \<in> {S1_TableCapacity, S1_AddressOverflow, S1_Allocation}"
proof -
  have ok: "table_bytes_ok t" using tree by (simp add: tree_ok_def)
  have tb: "is_table t tb" using inn by (simp add: inner_def)
  note rd = read_descriptor_entry [OF ok tb, of va shift]
  let ?i = "index_at va shift"
  have "\<exists>t'. allocate_table R t = (Inl e, t')"
  proof (cases "entry t tb ?i = 0")
    case False
    then have "link t tb ?i = Some (unat (entry t tb ?i AND ADDRESS_MASK) - unat (st_table_base t))"
      by (simp add: link_def)
    from tree_ok_link(3) [OF tree inn index_at_bound this]
    have "checked_sub (entry t tb ?i AND ADDRESS_MASK) (st_table_base t) \<noteq> None"
      by (simp add: checked_sub_None)
    then show ?thesis using d rd False by (auto simp: descend_def result_iff Let_def)
  next
    case True
    show ?thesis
    proof (cases "allocate_table R t")
      case (Pair r t1)
      show ?thesis
      proof (cases r)
        case (Inr nx)
        note a = allocate_table_Inr [OF Pair [unfolded Inr] ok]
        have tb1: "is_table t1 tb" using tb is_table_grown [OF ok] a(2) by simp
        obtain t2 where "write_descriptor t1 (slot_of tb va shift) ((st_table_base t1 + of_nat nx) OR 3) = Some t2"
          by (rule write_descriptor_entry [OF a(3) tb1])
        then show ?thesis using d rd True Pair Inr by (simp add: descend_def Let_def)
      qed (use d rd True Pair in \<open>simp add: descend_def Let_def\<close>)
    qed
  qed
  then obtain t1 where "allocate_table R t = (Inl e, t1)" by blast
  from allocate_table_Inl [OF this ok] show "no_room R t"
    "e \<in> {S1_TableCapacity, S1_AddressOverflow, S1_Allocation}" by auto
qed

text \<open>Mapping a page fails only for want of room, or on a page that is mapped already.\<close>

lemma map_page_Inl:
  assumes tree: "tree_ok lv t" and root: "root = 0 \<or> root = page"
    and m: "map_page R t root va pa = (Inl e, t')"
  shows "(e = S1_OverlappingRange \<and> walk t root va \<noteq> None) \<or>
    (e \<in> {S1_TableCapacity, S1_AddressOverflow, S1_Allocation} \<and>
     (\<exists>t1. no_room R t1 \<and> length (st_bytes t1) \<le> length (st_bytes t) + page \<and>
        st_table_base t1 = st_table_base t))"
proof -
  note rt = tree_ok_roots [OF tree root]
  show ?thesis
  proof (cases "descend R t root va 36")
    case (Pair r1 t1)
    show ?thesis
    proof (cases r1)
      case (Inl e1)
      then have "e1 = e" using m Pair by (simp add: map_page_alt)
      then show ?thesis using descend_Inl [OF tree rt(1) Pair [unfolded Inl]] by (intro disjI2) auto
    next
      case (Inr second)
      note d1 = Pair [unfolded Inr]
      from descend_ok [OF tree rt(1) d1] obtain lv1 where e1: "extends lv t lv1 t1" "is_table t1 second"
        "lv1 second = Suc (lv root)" "link t1 root (index_at va 36) = Some second" by blast
      have tree1: "tree_ok lv1 t1" and in1: "inner lv1 t1 second" and base1: "st_table_base t1 = st_table_base t"
        using e1 rt(2) by (auto simp: extends_def inner_def)
      show ?thesis
      proof (cases "descend R t1 second va 25")
        case p2: (Pair r2 t2)
        show ?thesis
        proof (cases r2)
          case (Inl e2)
          then have "e2 = e" using m d1 p2 by (simp add: map_page_alt)
          then show ?thesis
            using descend_Inl [OF tree1 in1 p2 [unfolded Inl]] descend_length [OF tree rt(1) d1] base1
            by (intro disjI2) auto
        next
          case third: (Inr third)
          note d2 = p2 [unfolded third]
          from descend_ok [OF tree1 in1 d2] obtain lv2 where e2: "extends lv1 t1 lv2 t2" "is_table t2 third"
            "link t2 second (index_at va 25) = Some third" by blast
          have ok2: "table_bytes_ok t2" using e2(1) by (simp add: extends_def tree_ok_def)
          obtain t3 where "write_descriptor t2 (slot_of third va 14) (pa OR 0x403) = Some t3"
            by (rule write_descriptor_entry [OF ok2 e2(2)])
          then have "e = S1_OverlappingRange" and full: "entry t2 third (index_at va 14) \<noteq> 0"
            using m d1 d2 by (auto simp: map_page_alt Let_def read_descriptor_entry [OF ok2 e2(2)]
                split: if_splits)
          moreover have "walk t2 root va \<noteq> None"
          proof -
            have "link t2 root (index_at va 36) = Some second"
              using e2(1) e1(4) extends_inner [OF e1(1) rt(1)] index_at_bound unfolding extends_def by blast
            from walk_path [OF this e2(3)] show ?thesis using full by (simp add: leaf_def)
          qed
          moreover have "walk t2 root va = walk t root va"
            using extends_trans [OF e1(1) e2(1)] root unfolding extends_def by blast
          ultimately show ?thesis by simp
        qed
      qed
    qed
  qed
qed

lemma map_page_tree:
  assumes "tree_ok lv t" and "root = 0 \<or> root = page" and "map_page R t root va pa = (Inr u, t')"
  obtains lv' where "tree_ok lv' t'"
  using map_page_ok [OF assms] by blast

lemma map_linear_no_panic:
  assumes "tree_ok lv t"
  shows "fst (map_linear R physical virt offs t) \<noteq> Inl S1_Panic"
  using assms
proof (induction offs arbitrary: t lv)
  case (Cons off offs)
  show ?case
  proof
    assume "fst (map_linear R physical virt (off # offs) t) = Inl S1_Panic"
    then obtain t' where "map_linear R physical virt (off # offs) t = (Inl S1_Panic, t')"
      by (metis prod.collapse)
    then consider "\<exists>t'. map_page R t 0 (physical + off) (physical + off) = (Inl S1_Panic, t')"
      | u1 t1 t' where "map_page R t 0 (physical + off) (physical + off) = (Inr u1, t1)"
          "map_page R t1 page (virt + off) (physical + off) = (Inl S1_Panic, t')"
      | u1 t1 u2 t2 where "map_page R t 0 (physical + off) (physical + off) = (Inr u1, t1)"
          "map_page R t1 page (virt + off) (physical + off) = (Inr u2, t2)"
          "map_linear R physical virt offs t2 = (Inl S1_Panic, t')"
      unfolding map_linear.simps Let_def and_run_Inl page_size by blast
    then show False
    proof cases
      case 1
      then show False using map_page_Inl [OF Cons.prems] by fastforce
    next
      case (2 u1 t1 t')
      obtain lv1 where "tree_ok lv1 t1" using map_page_tree [OF Cons.prems _ 2(1)] by blast
      from map_page_Inl [OF this _ 2(2)] show False by simp
    next
      case (3 u1 t1 u2 t2)
      obtain lv1 where "tree_ok lv1 t1" using map_page_tree [OF Cons.prems _ 3(1)] by blast
      then obtain lv2 where "tree_ok lv2 t2" using map_page_tree [OF _ _ 3(2)] by blast
      from Cons.IH [OF this] 3(3) show False by simp
    qed
  qed
qed simp

lemma map_alias_ok:
  assumes "tree_ok lv t"
  shows "fst (map_alias R virt physical offs t) \<noteq> Inl S1_Panic"
    and "map_alias R virt physical offs t = (Inr u, t') \<Longrightarrow>
      adds_pages t ((\<lambda>off. (page, virt + off, physical + off)) ` set offs) t'"
  using assms
proof (induction offs arbitrary: t lv)
  case Nil
  { case 1 then show ?case by simp
  next
    case 2 then show ?case using adds_pages_refl by simp }
next
  case (Cons off offs)
  { case 1
    have "map_page R t page (virt + off) (physical + off) \<noteq> (Inl S1_Panic, s)" for s
      using map_page_Inl [OF 1] by fastforce
    moreover have "fst (map_alias R virt physical offs t1) \<noteq> Inl S1_Panic"
      if "map_page R t page (virt + off) (physical + off) = (Inr u1, t1)" for u1 t1
      using map_page_tree [OF 1 _ that] Cons.IH(1) by blast
    ultimately show ?case
      by (cases "map_page R t page (virt + off) (physical + off)"; cases "fst (map_page R t page (virt + off) (physical + off))")
        (auto simp: page_size)
  next
    case 2
    then obtain u1 t1 where m: "map_page R t page (virt + off) (physical + off) = (Inr u1, t1)"
      and rest: "map_alias R virt physical offs t1 = (Inr u, t')"
      unfolding map_alias.simps and_run_Inr page_size by blast
    have a1: "adds_pages t {(page, virt + off, physical + off)} t1"
      by (rule map_page_adds [OF 2(2) _ m]) simp
    then obtain lv1 where "tree_ok lv1 t1" by (auto simp: adds_pages_def)
    from adds_pages_trans [OF a1 Cons.IH(2) [OF rest this]] show ?case by simp }
qed

definition alias_pages :: "stage1_alias list \<Rightarrow> (nat \<times> u64 \<times> u64) set" where
  "alias_pages aliases = (\<Union>a \<in> set aliases.
     (\<lambda>off. (page, sa_virtual_base a + off, sa_physical_base a + off)) ` set (page_offsets (sa_bytes a)))"

lemma map_aliases_ok:
  assumes "tree_ok lv t"
  shows "fst (map_aliases R aliases t) \<noteq> Inl S1_Panic"
    and "map_aliases R aliases t = (Inr u, t') \<Longrightarrow> adds_pages t (alias_pages aliases) t'"
  using assms
proof (induction aliases arbitrary: t lv)
  case Nil
  { case 1 then show ?case by simp
  next
    case 2 then show ?case using adds_pages_refl by (simp add: alias_pages_def) }
next
  case (Cons a aliases)
  { case 1
    let ?m = "map_alias R (sa_virtual_base a) (sa_physical_base a) (page_offsets (sa_bytes a)) t"
    note this1 = map_alias_ok(1) [OF 1, of R "sa_virtual_base a" "sa_physical_base a" "page_offsets (sa_bytes a)"]
    have "fst (map_aliases R aliases t1) \<noteq> Inl S1_Panic" if "?m = (Inr u1, t1)" for u1 t1
    proof -
      have "adds_pages t ((\<lambda>off. (page, sa_virtual_base a + off, sa_physical_base a + off)) ` set (page_offsets (sa_bytes a))) t1"
        using 1 that by (rule map_alias_ok(2))
      then show ?thesis using Cons.IH(1) by (auto simp: adds_pages_def)
    qed
    then show ?case using this1 by (cases ?m; cases "fst ?m") auto
  next
    case 2
    let ?m = "map_alias R (sa_virtual_base a) (sa_physical_base a) (page_offsets (sa_bytes a)) t"
    from 2 obtain u1 t1 where m: "?m = (Inr u1, t1)" and rest: "map_aliases R aliases t1 = (Inr u, t')"
      unfolding map_aliases.simps and_run_Inr by blast
    have a1: "adds_pages t ((\<lambda>off. (page, sa_virtual_base a + off, sa_physical_base a + off)) ` set (page_offsets (sa_bytes a))) t1"
      using 2(2) m by (rule map_alias_ok(2))
    then obtain lv1 where "tree_ok lv1 t1" by (auto simp: adds_pages_def)
    note a2 = Cons.IH(2) [OF rest this]
    have "adds_pages t ((\<lambda>off. (page, sa_virtual_base a + off, sa_physical_base a + off)) `
        set (page_offsets (sa_bytes a)) \<union> alias_pages aliases) t'"
      by (rule adds_pages_trans [OF a1 a2]) auto
    then show ?case by (simp add: alias_pages_def) }
qed

section \<open>Correctness of the tables\<close>

text \<open>A page of a region: the walk of an address in it gives the physical page, the low bits are kept.\<close>

lemma translate_region:
  assumes pb: "page dvd unat pb" and vb: "page dvd unat vb" and n: "page dvd unat n"
    and pe: "unat pb + unat n \<le> 2 ^ 47" and ve: "unat vb + unat n < 2 ^ 64 \<or> unat vb + unat n \<le> 2 ^ 47"
    and off: "unat off < unat n"
    and walks: "\<And>o' v. o' \<in> set (page_offsets n) \<Longrightarrow> page_number v = page_number (vb + o') \<Longrightarrow>
      walk t r v = Some ((pb + o' OR 0x403) AND ADDRESS_MASK)"
  shows "translate t r (vb + off) = Some (pb + off)"
proof -
  let ?o = "of_nat (unat off div page * page) :: u64"
  note V = region_page [OF vb n ve off]
  have "unat pb + unat n < 2 ^ 64 \<or> unat pb + unat n \<le> 2 ^ 47" using pe by simp
  note P = region_page [OF pb n this off]
  have near: "unat pb + q < 2 ^ 48" if "q \<le> unat off" for q using that pe off by simp
  have "unat pb + unat off div page * page < 2 ^ 48" by (rule near) simp
  then have "unat (pb + ?o) < 2 ^ 48" by (simp only: P(2))
  then have "(pb + ?o OR 0x403) AND ADDRESS_MASK = pb + ?o"
    by (rule mask_descriptor [OF _ P(5)]) (simp add: word_less_nat_alt)
  then have w: "walk t r (vb + off) = Some (pb + ?o)" using walks [OF V(1) V(4)] by simp
  have low: "unat ((vb + off) AND (PAGE_SIZE - 1)) = unat off mod page"
    using vb by (auto simp: low_bits V(3) dvd_def)
  have "unat pb + unat off div page * page + unat off mod page < 2 ^ 64" using pe off by simp
  then have "unat (pb + ?o) + unat ((vb + off) AND (PAGE_SIZE - 1)) < 2 ^ 64" by (simp only: P(2) low)
  then have "unat (pb + ?o + ((vb + off) AND (PAGE_SIZE - 1))) =
    unat (pb + ?o) + unat ((vb + off) AND (PAGE_SIZE - 1))" by (intro unat_add_exact) simp
  then have "unat (pb + ?o + ((vb + off) AND (PAGE_SIZE - 1))) =
    unat pb + unat off div page * page + unat off mod page" by (simp only: P(2) low)
  also have "\<dots> = unat (pb + off)" by (simp add: P(3))
  finally have "pb + ?o + ((vb + off) AND (PAGE_SIZE - 1)) = pb + off" by (simp add: word_unat_eq_iff)
  then show ?thesis by (simp add: translate_def w)
qed

lemma map_page_length:
  assumes "tree_ok lv t" and "root = 0 \<or> root = page" and "map_page R t root va pa = (Inr u, t')"
  shows "length (st_bytes t') \<le> length (st_bytes t) + 2 * page"
proof -
  note rt = tree_ok_roots [OF assms(1,2)]
  from assms(3) obtain second t1 third t2 w where
    d1: "descend R t root va 36 = (Inr second, t1)" and d2: "descend R t1 second va 25 = (Inr third, t2)"
    and w: "write_descriptor t2 (slot_of third va 14) w = Some t'"
    by (auto simp: map_page_alt result_iff Let_def split: if_splits)
  from descend_ok [OF assms(1) rt(1) d1] obtain lv1 where e1: "extends lv t lv1 t1" "is_table t1 second"
    "lv1 second = Suc (lv root)" by blast
  then have "tree_ok lv1 t1" "inner lv1 t1 second" using rt(2) by (auto simp: extends_def inner_def)
  from descend_length [OF this d2] have "length (st_bytes t2) \<le> length (st_bytes t1) + page" .
  moreover have "length (st_bytes t') = length (st_bytes t2)"
    using w by (auto simp: write_descriptor_def copy_from_slice_def split: if_splits)
  ultimately show ?thesis using descend_length [OF assms(1) rt(1) d1] by simp
qed

text \<open>With room for two more tables, a page not yet mapped is mapped.\<close>

lemma map_page_succeeds:
  assumes tree: "tree_ok lv t" and root: "root = 0 \<or> root = page" and none: "walk t root va = None"
    and room: "length (st_bytes t) + 2 * page \<le> MAX_TABLE_BYTES"
      "unat (st_table_base t) + (length (st_bytes t) + 2 * page) \<le> 2 ^ 48"
  obtains t' where "map_page (\<lambda>_. True) t root va pa = (Inr (), t')"
proof (cases "map_page (\<lambda>_. True) t root va pa")
  case (Pair r t')
  show ?thesis
  proof (cases r)
    case (Inl e)
    from map_page_Inl [OF tree root Pair [unfolded Inl]] none room show ?thesis
      by (auto simp: no_room_def)
  next
    case (Inr u)
    then show ?thesis using that Pair by simp
  qed
qed

lemma allocate_table_succeeds:
  assumes "table_bytes_ok t" and "length (st_bytes t) + page \<le> MAX_TABLE_BYTES"
    and "unat (st_table_base t) + (length (st_bytes t) + page) \<le> 2 ^ 48"
  shows "\<exists>x. allocate_table (\<lambda>_. True) t = (Inr x, grown t)"
proof (cases "allocate_table (\<lambda>_. True) t")
  case (Pair r t')
  show ?thesis
  proof (cases r)
    case (Inl e)
    from allocate_table_Inl(1) [OF Pair [unfolded Inl] assms(1)] assms(2,3) show ?thesis
      by (simp add: no_room_def)
  next
    case (Inr x)
    from allocate_table_Inr(2) [OF Pair [unfolded Inr] assms(1)] Pair Inr show ?thesis by simp
  qed
qed

text \<open>A region of one page.\<close>

lemma stage1_new_one_page:
  "\<exists>t lv. stage1_new (\<lambda>_. True) 0x40000000 0xffff800000000000 0x4000 = Inr t \<and> tree_ok lv t \<and>
     length (st_bytes t) \<le> 6 * page \<and> st_table_base t = 0x40004000 \<and> walk t page 0xffff800010000000 = None"
proof -
  let ?t0 = "\<lparr> st_bytes = [], st_table_base = 0x40004000, st_ram_base = 0x40000000,
                st_virtual_base = 0xffff800000000000, st_memory_size = 0x4000 \<rparr>"
  have cap: "MAX_TABLE_BYTES = 128 * page" by (simp add: MAX_TABLE_BYTES_def)
  have ok0: "table_bytes_ok ?t0" by (simp add: table_bytes_ok_def)
  obtain x where a1: "allocate_table (\<lambda>_. True) ?t0 = (Inr x, grown ?t0)"
    using allocate_table_succeeds [OF ok0] by (auto simp: cap)
  have ok1: "table_bytes_ok (grown ?t0)" by (rule allocate_table_Inr(3) [OF a1 ok0])
  obtain y where a2: "allocate_table (\<lambda>_. True) (grown ?t0) = (Inr y, grown (grown ?t0))"
    using allocate_table_succeeds [OF ok1] by (auto simp: cap grown_def)
  let ?t2 = "grown (grown ?t0)"
  note T = two_roots [OF a1 a2 ok0]
  have tree2: "tree_ok (\<lambda>_. 1) ?t2" by (rule T(1)) simp
  have empty2: "walk ?t2 r v = None" if "r = 0 \<or> r = page" for r v by (rule T(2) [OF _ that]) simp
  have base2: "st_table_base ?t2 = 0x40004000" by (simp add: grown_def)
  have len2: "length (st_bytes ?t2) = 2 * page" by (simp add: grown_def)
  obtain t3 where m1: "map_page (\<lambda>_. True) ?t2 0 0x40000000 0x40000000 = (Inr (), t3)"
    by (rule map_page_succeeds [OF tree2 disjI1 [OF refl] empty2]) (simp_all add: cap len2 base2)
  note A = adds_pages_dest [OF map_page_adds [OF tree2 disjI1 [OF refl] m1]]
  obtain lv3 where tree3: "tree_ok lv3 t3" using A(1) by blast
  have empty3: "walk t3 page v = None" for v
  proof (rule ccontr)
    assume "walk t3 page v \<noteq> None"
    then obtain z where "walk t3 page v = Some z" by blast
    from A(5) [OF disjI2 [OF refl] this] empty2 [of page v] show False by simp
  qed
  have len3: "length (st_bytes t3) \<le> 4 * page"
    using map_page_length [OF tree2 disjI1 [OF refl] m1] len2 by simp
  obtain t4 where m2: "map_page (\<lambda>_. True) t3 page 0xffff800000000000 0x40000000 = (Inr (), t4)"
    by (rule map_page_succeeds [OF tree3 disjI2 [OF refl] empty3])
      (use len3 A(2) base2 in \<open>simp_all add: cap\<close>)
  note B = adds_pages_dest [OF map_page_adds [OF tree3 disjI2 [OF refl] m2]]
  have offs: "page_offsets 0x4000 = [0]" by (simp add: page_offsets_def page_size)
  have "map_linear (\<lambda>_. True) 0x40000000 0xffff800000000000 (page_offsets 0x4000) ?t2 = (Inr (), t4)"
    by (simp add: offs page_size m1 m2)
  moreover have "stage1_new (\<lambda>_. True) 0x40000000 0xffff800000000000 0x4000 =
    finish (and_run (allocate_table (\<lambda>_. True) ?t0) (\<lambda>_ t. and_run (allocate_table (\<lambda>_. True) t) (\<lambda>_ t.
      map_linear (\<lambda>_. True) 0x40000000 0xffff800000000000 (page_offsets 0x4000) t)))"
    by (simp add: stage1_new_def PAGE_SIZE_def MAX_MEMORY_SIZE_def LOW_END_def HIGH_START_def
        checked_add_def Let_def)
  ultimately have "stage1_new (\<lambda>_. True) 0x40000000 0xffff800000000000 0x4000 = Inr t4"
    by (simp add: a1 a2 finish_def)
  moreover have "walk t4 page 0xffff800010000000 = None"
  proof (rule ccontr)
    assume "walk t4 page 0xffff800010000000 \<noteq> None"
    then obtain z where "walk t4 page 0xffff800010000000 = Some z" by blast
    from B(5) [OF disjI2 [OF refl] this] empty3 show False by (simp add: page_number_def)
  qed
  moreover have "length (st_bytes t4) \<le> 6 * page"
    using map_page_length [OF tree3 disjI2 [OF refl] m2] len3 by simp
  ultimately show ?thesis using B(1,2) A(2) base2 by auto
qed

lemma finish_Inl [result_iff]: "finish r = Inl e \<longleftrightarrow> (\<exists>t. r = (Inl e, t))"
  by (auto simp: finish_def split: prod.splits sum.splits)

lemma fresh_tables_ok:
  assumes "(physical_base OR virtual_base OR memory_size) AND (PAGE_SIZE - 1) = 0"
    and "checked_add physical_base memory_size = Some tb" and "tb \<le> LOW_END"
    and "st_bytes t = []" and "st_table_base t = tb"
  shows "table_bytes_ok t"
proof -
  have "unat tb = unat physical_base + unat memory_size" using assms(2) by (simp add: checked_add_Some)
  then have "page dvd unat tb" using aligned_or [OF assms(1)] by simp
  moreover have "unat LOW_END = 2 ^ 47" by (simp add: LOW_END_def)
  then have "unat tb \<le> 2 ^ 47" using assms(3) by (simp add: word_le_nat_alt)
  ultimately show ?thesis using assms(4,5) by (simp add: table_bytes_ok_def)
qed

lemma stage1_new_tree:
  assumes "stage1_new R physical_base virtual_base memory_size = Inr t"
  obtains lv where "tree_ok lv t"
proof -
  from stage1_new_Inr [OF assms] obtain t2 where "tree_ok (\<lambda>_. 1) t2"
    and "map_linear R physical_base virtual_base (page_offsets memory_size) t2 = (Inr (), t)" by blast
  from adds_pages_dest(1) [OF map_linear_adds [OF this]] show ?thesis using that by blast
qed

lemma check_aliases_no_panic: "check_aliases p pe v ve earlier rest \<noteq> Inl S1_Panic"
  by (induction rest arbitrary: earlier) (auto simp: result_iff split: if_splits)

text \<open>What the check of the aliases establishes of each of them.\<close>

definition alias_checked :: "u64 \<Rightarrow> u64 \<Rightarrow> stage1_alias \<Rightarrow> bool" where
  "alias_checked physical_base physical_end a \<longleftrightarrow>
     page dvd unat (sa_virtual_base a) \<and> page dvd unat (sa_physical_base a) \<and> page dvd unat (sa_bytes a) \<and>
     HIGH_START \<le> sa_virtual_base a \<and> unat (sa_virtual_base a) + unat (sa_bytes a) < 2 ^ 64 \<and>
     unat physical_base \<le> unat (sa_physical_base a) \<and>
     unat (sa_physical_base a) + unat (sa_bytes a) \<le> unat physical_end"

lemma check_aliases_checked:
  assumes "check_aliases p pe v ve earlier rest = Inr u" and "a \<in> set rest"
  shows "alias_checked p pe a"
  using assms
proof (induction rest arbitrary: earlier)
  case (Cons b rest)
  from Cons.prems(1) obtain ae ape where
    al: "(sa_virtual_base b OR sa_physical_base b OR sa_bytes b) AND (PAGE_SIZE - 1) = 0"
    and high: "HIGH_START \<le> sa_virtual_base b"
    and ae: "checked_add (sa_virtual_base b) (sa_bytes b) = Some ae"
    and ape: "checked_add (sa_physical_base b) (sa_bytes b) = Some ape"
    and inside: "p \<le> sa_physical_base b" "ape \<le> pe"
    and rest: "check_aliases p pe v ve (earlier @ [b]) rest = Inr u"
    by (auto simp: result_iff not_less split: if_splits)
  have "unat (sa_virtual_base b) + unat (sa_bytes b) = unat ae" using ae by (simp add: checked_add_Some)
  then have "unat (sa_virtual_base b) + unat (sa_bytes b) < 2 ^ 64" using unat_u64_bound [of ae] by linarith
  moreover have "unat (sa_physical_base b) + unat (sa_bytes b) = unat ape"
    using ape by (simp add: checked_add_Some)
  ultimately have "alias_checked p pe b"
    using aligned_or [OF al] high inside by (simp add: alias_checked_def word_le_nat_alt)
  then show ?case using Cons.IH [OF rest] Cons.prems(2) by auto
qed simp



text \<open>
  Building the tables never panics: no descriptor index leaves the table bytes and no
  address in a descriptor lies below the table base, whatever the arguments, the aliases and the
  allocator.
\<close>

theorem stage1_never_panics:
  "stage1_new R physical_base virtual_base memory_size \<noteq> Inl S1_Panic \<and>
   new_with_aliases R physical_base virtual_base memory_size aliases \<noteq> Inl S1_Panic"
proof -
  have new: "stage1_new R physical_base virtual_base memory_size \<noteq> Inl S1_Panic"
  proof
    assume "stage1_new R physical_base virtual_base memory_size = Inl S1_Panic"
    then obtain tb where al: "(physical_base OR virtual_base OR memory_size) AND (PAGE_SIZE - 1) = 0"
      and tb: "checked_add physical_base memory_size = Some tb" and low: "tb \<le> LOW_END"
      and run: "finish (and_run (allocate_table R \<lparr> st_bytes = [], st_table_base = tb, st_ram_base = physical_base,
                st_virtual_base = virtual_base, st_memory_size = memory_size \<rparr>) (\<lambda>_ t. and_run (allocate_table R t) (\<lambda>_ t.
         map_linear R physical_base virtual_base (page_offsets memory_size) t))) = Inl S1_Panic"
      by (auto simp: stage1_new_def result_iff Let_def not_less split: if_splits)
    let ?t0 = "\<lparr> st_bytes = [], st_table_base = tb, st_ram_base = physical_base,
                st_virtual_base = virtual_base, st_memory_size = memory_size \<rparr>"
    have ok0: "table_bytes_ok ?t0" by (rule fresh_tables_ok [OF al tb low]) simp_all
    obtain r where "and_run (allocate_table R ?t0) (\<lambda>_ t. and_run (allocate_table R t) (\<lambda>_ t.
         map_linear R physical_base virtual_base (page_offsets memory_size) t)) = (Inl S1_Panic, r)"
      using run by (auto simp: finish_Inl)
    then consider t' where "allocate_table R ?t0 = (Inl S1_Panic, t')"
      | x t1 t' where "allocate_table R ?t0 = (Inr x, t1)" "allocate_table R t1 = (Inl S1_Panic, t')"
      | x t1 y t2 where "allocate_table R ?t0 = (Inr x, t1)" "allocate_table R t1 = (Inr y, t2)"
          "map_linear R physical_base virtual_base (page_offsets memory_size) t2 = (Inl S1_Panic, r)"
      unfolding and_run_Inl by blast
    then show False
    proof cases
      case 1
      then show False using allocate_table_Inl(2) [OF _ ok0] by fastforce
    next
      case (2 x t1 t')
      from allocate_table_Inl(2) [OF 2(2) allocate_table_Inr(3) [OF 2(1) ok0]] show False by simp
    next
      case (3 x t1 y t2)
      have "tree_ok (\<lambda>_. 1) t2" by (rule two_roots(1) [OF 3(1,2) ok0]) simp
      from map_linear_no_panic [OF this, of R physical_base virtual_base "page_offsets memory_size"] 3(3)
      show False by simp
    qed
  qed
  moreover have "new_with_aliases R physical_base virtual_base memory_size aliases \<noteq> Inl S1_Panic"
  proof
    assume "new_with_aliases R physical_base virtual_base memory_size aliases = Inl S1_Panic"
    then obtain t where t: "stage1_new R physical_base virtual_base memory_size = Inr t"
      and m: "finish (map_aliases R aliases t) = Inl S1_Panic"
      using new check_aliases_no_panic
      by (auto simp: new_with_aliases_def result_iff split: if_splits)
    obtain lv where "tree_ok lv t" by (rule stage1_new_tree [OF t])
    from map_aliases_ok(1) [OF this, of R aliases] m show False by (auto simp: finish_Inl)
  qed
  ultimately show ?thesis ..
qed



end
