(* ===== verification/Slices.thy ===== *)
theory Slices
  imports Contracts "HOL-Library.Multiset"
begin

text \<open>
  What the readers of Mach-O images share: loops that give up at the first error, the bounded
  slice as a locale (\<open>slice_reader\<close>, interpreted by each reader on its own \<^verbatim>\<open>slice\<close>), and the
  test of neighbours that makes a sorted list of ranges pairwise disjoint.
\<close>

section \<open>Loops that give up at the first error\<close>

fun try_fold :: "('s \<Rightarrow> 'a \<Rightarrow> 'e + 's) \<Rightarrow> 's \<Rightarrow> 'a list \<Rightarrow> 'e + 's" where
  "try_fold f s [] = Inr s"
| "try_fold f s (x # xs) = and_then (f s x) (\<lambda>s. try_fold f s xs)"

fun for_each :: "('a \<Rightarrow> 'e + unit) \<Rightarrow> 'a list \<Rightarrow> 'e + unit" where
  "for_each f [] = Inr ()"
| "for_each f (x # xs) = and_then (f x) (\<lambda>_. for_each f xs)"

fun try_map :: "('a \<Rightarrow> 'e + 'b) \<Rightarrow> 'a list \<Rightarrow> 'e + 'b list" where
  "try_map f [] = Inr []"
| "try_map f (x # xs) = and_then (f x) (\<lambda>y. and_then (try_map f xs) (\<lambda>ys. Inr (y # ys)))"

text \<open>\<^verbatim>\<open>chunks_exact(n)\<close>: at most \<open>k\<close> chunks, whole ones only.\<close>

fun chunks_exact :: "nat \<Rightarrow> 'a list \<Rightarrow> nat \<Rightarrow> 'a list list" where
  "chunks_exact n xs 0 = []"
| "chunks_exact n xs (Suc k) =
     (if length xs < n then [] else take n xs # chunks_exact n (drop n xs) k)"

lemma try_fold_cong [fundef_cong]:
  assumes "xs = ys" and "s = t" and "\<And>s x. x \<in> set ys \<Longrightarrow> f s x = g s x"
  shows "try_fold f s xs = try_fold g t ys"
  unfolding assms(1,2) using assms(3)
  by (induction ys arbitrary: t) (auto intro!: and_then_cong)

lemma for_each_Inr [result_iff]: "for_each f xs = Inr u \<longleftrightarrow> (\<forall>x \<in> set xs. f x = Inr ())"
  by (induction xs) (auto simp: result_iff)

lemma for_each_Inl: "for_each f xs = Inl e \<Longrightarrow> \<exists>x \<in> set xs. f x = Inl e"
  by (induction xs) (auto simp: result_iff)

lemma try_map_Inr [result_iff]:
  "try_map f xs = Inr ys \<longleftrightarrow> list_all2 (\<lambda>x y. f x = Inr y) xs ys"
  by (induction xs arbitrary: ys) (auto simp: result_iff list_all2_Cons1)

lemma try_map_Inl: "try_map f xs = Inl e \<Longrightarrow> \<exists>x \<in> set xs. f x = Inl e"
  by (induction xs) (auto simp: result_iff)

text \<open>What every round keeps holds at the end.\<close>

lemma try_fold_invariant:
  assumes "try_fold f s xs = Inr s'" and "P s"
    and "\<And>s s' x. P s \<Longrightarrow> x \<in> set xs \<Longrightarrow> f s x = Inr s' \<Longrightarrow> P s'"
  shows "P s'"
  using assms(1,2,3)
proof (induction xs arbitrary: s)
  case (Cons x xs)
  from Cons.prems(1) obtain s1 where s1: "f s x = Inr s1" and rest: "try_fold f s1 xs = Inr s'"
    by (auto simp: result_iff)
  have "P s1" by (rule Cons.prems(3) [OF Cons.prems(2) _ s1]) simp
  show ?case by (rule Cons.IH [OF rest \<open>P s1\<close>], rule Cons.prems(3)) auto
qed simp

lemma try_fold_error:
  assumes "try_fold f s xs = Inl e" and "P s"
    and "\<And>s s' x. P s \<Longrightarrow> x \<in> set xs \<Longrightarrow> f s x = Inr s' \<Longrightarrow> P s'"
  shows "\<exists>s' x. P s' \<and> x \<in> set xs \<and> f s' x = Inl e"
  using assms(1,2,3)
proof (induction xs arbitrary: s)
  case (Cons x xs)
  show ?case
  proof (cases "f s x")
    case (Inl e')
    then show ?thesis using Cons.prems(1,2) by auto
  next
    case (Inr s1)
    have "P s1" by (rule Cons.prems(3) [OF Cons.prems(2) _ Inr]) simp
    moreover have "try_fold f s1 xs = Inl e" using Cons.prems(1) Inr by simp
    moreover have "P s2" if "P s0" "y \<in> set xs" "f s0 y = Inr s2" for s0 s2 y
      by (rule Cons.prems(3) [OF that(1) _ that(3)]) (simp add: that(2))
    ultimately have "\<exists>s' x. P s' \<and> x \<in> set xs \<and> f s' x = Inl e" by (intro Cons.IH)
    then show ?thesis by auto
  qed
qed simp

section \<open>Neighbours\<close>

text \<open>\<^verbatim>\<open>for pair in ordered.windows(2)\<close>.\<close>

fun for_windows :: "('a \<Rightarrow> 'a \<Rightarrow> 'e + unit) \<Rightarrow> 'a list \<Rightarrow> 'e + unit" where
  "for_windows f (x # y # xs) = and_then (f x y) (\<lambda>_. for_windows f (y # xs))"
| "for_windows f xs = Inr ()"

text \<open>Neighbours in order make all pairs ordered, when no element ends before it starts.\<close>

lemma for_windows_ordered:
  fixes lo hi :: "'a \<Rightarrow> 'b :: linorder" and key :: "'a \<Rightarrow> 'c :: linorder"
  assumes "for_windows f xs = Inr u" and "sorted (map key xs)"
    and "\<And>x y. x \<in> set xs \<Longrightarrow> y \<in> set xs \<Longrightarrow> key x \<le> key y \<Longrightarrow> f x y = Inr () \<Longrightarrow> hi x \<le> lo y"
    and "\<And>x. x \<in> set xs \<Longrightarrow> lo x \<le> hi x"
  shows "sorted_wrt (\<lambda>x y. hi x \<le> lo y) xs"
  using assms
proof (induction f xs rule: for_windows.induct)
  case (1 f x y xs)
  then have xy: "hi x \<le> lo y" by (auto simp: result_iff)
  have rest: "sorted_wrt (\<lambda>x y. hi x \<le> lo y) (y # xs)"
    using 1 by (auto simp: result_iff)
  have "hi x \<le> lo z" if "z \<in> set xs" for z
  proof -
    have "hi y \<le> lo z" using rest that by simp
    moreover have "lo y \<le> hi y" using 1(5) by simp
    ultimately show ?thesis using xy by (meson order_trans)
  qed
  then show ?case using rest xy by auto
qed auto

lemma for_windows_complete:
  assumes "sorted_wrt (\<lambda>x y. f x y = Inr ()) xs"
  shows "for_windows f xs = Inr ()"
  using assms by (induction f xs rule: for_windows.induct) auto

text \<open>Every two different elements of a list are related, in one order or the other.\<close>

definition pairwise_list :: "('a \<Rightarrow> 'a \<Rightarrow> bool) \<Rightarrow> 'a list \<Rightarrow> bool" where
  "pairwise_list P xs \<longleftrightarrow> (\<forall>i < length xs. \<forall>j < length xs. i \<noteq> j \<longrightarrow> P (xs ! i) (xs ! j))"

lemma pairwise_list_Cons:
  assumes "\<And>x y. P x y \<longleftrightarrow> P y x"
  shows "pairwise_list P (x # xs) \<longleftrightarrow> (\<forall>y \<in> set xs. P x y) \<and> pairwise_list P xs"
proof
  assume p: "pairwise_list P (x # xs)"
  have "P x y" if y: "y \<in> set xs" for y
  proof -
    obtain i where i: "i < length xs" "xs ! i = y" using y unfolding in_set_conv_nth by blast
    have "P ((x # xs) ! 0) ((x # xs) ! Suc i)"
      by (rule p [unfolded pairwise_list_def, rule_format]) (use i in auto)
    then show ?thesis using i by simp
  qed
  moreover have "pairwise_list P xs"
    unfolding pairwise_list_def
  proof (intro allI impI)
    fix i j assume "i < length xs" "j < length xs" "i \<noteq> j"
    then have "P ((x # xs) ! Suc i) ((x # xs) ! Suc j)"
      by (intro p [unfolded pairwise_list_def, rule_format]) auto
    then show "P (xs ! i) (xs ! j)" by simp
  qed
  ultimately show "(\<forall>y \<in> set xs. P x y) \<and> pairwise_list P xs" by blast
next
  assume "(\<forall>y \<in> set xs. P x y) \<and> pairwise_list P xs"
  then show "pairwise_list P (x # xs)"
    unfolding pairwise_list_def using assms by (auto simp: nth_Cons split: nat.splits)
qed

lemma pairwise_list_mono:
  assumes "\<And>x y. x \<in> set xs \<Longrightarrow> y \<in> set xs \<Longrightarrow> P x y \<Longrightarrow> Q x y" and "pairwise_list P xs"
  shows "pairwise_list Q xs"
  using assms by (auto simp: pairwise_list_def)

lemma pairwise_list_mset:
  assumes sym: "\<And>x y. P x y \<longleftrightarrow> P y x" and "mset xs = mset ys" and "pairwise_list P xs"
  shows "pairwise_list P ys"
  using assms(2,3)
proof (induction xs arbitrary: ys)
  case (Cons x xs)
  then obtain as bs where ys: "ys = as @ x # bs"
    by (metis list.set_intros(1) mset_eq_setD split_list)
  then have m: "mset xs = mset (as @ bs)" using Cons.prems(1) by simp
  from Cons.prems(2) have x: "\<forall>y \<in> set xs. P x y" and "pairwise_list P xs"
    by (auto simp: pairwise_list_Cons [OF sym])
  then have rest: "pairwise_list P (as @ bs)" using Cons.IH [OF m] by blast
  have "\<forall>y \<in> set (as @ bs). P x y" using x mset_eq_setD [OF m] by simp
  then have "pairwise_list P (x # as @ bs)" using rest by (simp add: pairwise_list_Cons [OF sym])
  then show ?case unfolding ys
  proof (induction as)
    case (Cons a as)
    then have "pairwise_list P (x # as @ bs)" "\<forall>y \<in> set (x # as @ bs). P a y"
      using sym by (auto simp: pairwise_list_Cons [OF sym])
    then show ?case using Cons.IH by (auto simp: pairwise_list_Cons [OF sym])
  qed simp
qed (simp add: pairwise_list_def)

text \<open>Ordered in one order, hence pairwise apart in any order.\<close>

lemma sorted_wrt_pairwise:
  assumes "\<And>x y. P x y \<longleftrightarrow> P y x" and "\<And>x y. R x y \<Longrightarrow> P x y" and "sorted_wrt R xs"
  shows "pairwise_list P xs"
  using assms(3)
proof (induction xs)
  case (Cons x xs)
  then show ?case using assms(2) by (simp add: pairwise_list_Cons [OF assms(1)])
qed (simp add: pairwise_list_def)

section \<open>Bounded slices\<close>

locale slice_reader =
  fixes slice_at :: "byte_string \<Rightarrow> nat \<Rightarrow> nat \<Rightarrow> 'e + byte_string"
  assumes slice_at_inside:
    "length bs < 2 ^ 64 \<Longrightarrow> pos + n \<le> length bs \<Longrightarrow> slice_at bs pos n = Inr (take n (drop pos bs))"
  assumes slice_at_outside:
    "length bs < 2 ^ 64 \<Longrightarrow> length bs < pos + n \<Longrightarrow> \<exists>e. slice_at bs pos n = Inl e"
begin

lemma slice_at_Inr:
  assumes "length bs < 2 ^ 64"
  shows "slice_at bs pos n = Inr ys \<longleftrightarrow> pos + n \<le> length bs \<and> ys = take n (drop pos bs)"
  using assms slice_at_inside [of bs pos n] slice_at_outside [of bs pos n]
  by (cases "pos + n \<le> length bs") auto

lemma slice_at_length:
  assumes "length bs < 2 ^ 64" and "slice_at bs pos n = Inr ys"
  shows "length ys = n" and "pos + n \<le> length bs"
  using assms by (auto simp: slice_at_Inr)

text \<open>A slice of a slice is a slice.\<close>

lemma slice_at_nested:
  assumes "length bs < 2 ^ 64" and "slice_at bs pos n = Inr ys" and "k + m \<le> n"
  shows "slice_at ys k m = slice_at bs (pos + k) m"
proof -
  have ys: "pos + n \<le> length bs" "ys = take n (drop pos bs)" using assms by (auto simp: slice_at_Inr)
  then have "slice_at ys k m = Inr (take m (drop k (take n (drop pos bs))))"
    using assms by (subst slice_at_inside) auto
  also have "take m (drop k (take n (drop pos bs))) = take m (drop (pos + k) bs)"
    using assms(3) by (simp add: drop_take min_def add.commute)
  also have "Inr \<dots> = slice_at bs (pos + k) m"
    using assms ys by (intro slice_at_inside [symmetric]) auto
  finally show ?thesis .
qed

end

end
