(* ===== verification/Kernel_Collection.thy ===== *)
theory Kernel_Collection
  imports Slices
begin

text \<open>
  Model of \<^verbatim>\<open>src/kernel_collection.rs\<close>: the inspection of an \<^verbatim>\<open>MH_FILESET\<close> image and of the
  members it contains. A length is compared with a 64-bit end in \<open>nat\<close>. The counters of the
  parser and the variables of its loop over the load commands are passed explicitly; what they
  hold after an error is not observable, so an error carries no state.
  \<^verbatim>\<open>sort_unstable_by_key\<close> is \<open>sort_key\<close>: where two keys are equal, the test of neighbours that
  follows fails with the same error in every order.
\<close>

section \<open>Data\<close>

definition MAX_INPUT_SIZE :: nat where "MAX_INPUT_SIZE = 128 * 1024 * 1024"
definition MAX_COMMANDS :: nat where "MAX_COMMANDS = 16384"
definition MAX_COMMAND_BYTES :: nat where "MAX_COMMAND_BYTES = 1024 * 1024"
definition MAX_SEGMENTS :: nat where "MAX_SEGMENTS = 4096"
definition MAX_SECTIONS :: nat where "MAX_SECTIONS = 32768"
definition MAX_MEMBERS :: nat where "MAX_MEMBERS = 512"
definition MAX_IDENTIFIER :: nat where "MAX_IDENTIFIER = 1024"
definition MAX_FIXUP_BYTES :: u64 where "MAX_FIXUP_BYTES = 16 * 1024 * 1024"
definition MAX_PAGE_START_VISITS :: nat where "MAX_PAGE_START_VISITS = 1000000"

record file_range =
  fr_offset :: u64
  fr_size :: u64

record section_metadata =
  sec_address :: u64
  sec_size :: u64
  sec_file_offset :: u64
  sec_flags :: u32
  sec_relocations :: file_range

record segment_metadata =
  seg_name :: byte_string
  seg_address :: u64
  seg_memory_size :: u64
  seg_file :: file_range
  seg_maximum_protection :: u32
  seg_initial_protection :: u32
  seg_flags :: u32
  seg_sections :: "section_metadata list"

datatype entry_metadata =
    UnixThread64 u64 \<comment> \<open>instruction pointer\<close>
  | ArmThread64 u64 u64 u32 u32 \<comment> \<open>instruction pointer, stack pointer, cpsr, flags\<close>
  | EntryMain u64 u64 \<comment> \<open>text offset, stack size\<close>

record relocation_metadata =
  rel_local :: file_range
  rel_external :: file_range
  rel_local_count :: u32
  rel_external_count :: u32

record fixup_segment_metadata =
  fs_segment_index :: nat
  fs_pointer_format :: u16
  fs_page_size :: u16
  fs_page_count :: u16
  fs_pages_with_fixups :: u32
  fs_multiple_start_pages :: u32
  fs_segment_offset :: u64

record chained_fixup_metadata =
  cf_file :: file_range
  cf_imports_count :: u32
  cf_imports_format :: u32
  cf_symbols_format :: u32
  cf_segments :: "fixup_segment_metadata list"

record image_metadata =
  im_cpu_type :: u32
  im_cpu_subtype :: u32
  im_header_file_offset :: u64
  im_header_address :: u64
  im_file_type :: u32
  im_flags :: u32
  im_command_count :: u32
  im_command_bytes :: u32
  im_segments :: "segment_metadata list"
  im_entry :: "entry_metadata option"
  im_relocations :: "relocation_metadata option"
  im_chained_fixups :: "chained_fixup_metadata option"

record fileset_member =
  fm_identifier :: byte_string
  fm_image :: image_metadata

datatype preparation_requirement =
    CollectionPlacement
  | KernelEntryAbi
  | PlatformHandoffProviders
  | ClassicRelocations
  | ChainedRebasing
  | ChainedImports
  | CompressedFixupSymbols
  | UnsupportedPointerFormat u16

record kc_metadata_inspection =
  ki_collection :: image_metadata
  ki_members :: "fileset_member list"
  ki_requirements :: "preparation_requirement list"

definition ki_preparation_ready :: "kc_metadata_inspection \<Rightarrow> bool" where
  "ki_preparation_ready inspection \<longleftrightarrow> False"

datatype kc_metadata_error =
    KC_InputTooLarge
  | KC_Truncated
  | KC_Overflow
  | KC_LimitExceeded
  | KC_UnsupportedFormat
  | KC_UnsupportedCpu
  | KC_UnsupportedFileType
  | KC_UnsupportedCommand
  | KC_UnsupportedSegmentFlags
  | KC_UnsupportedThreadState
  | KC_UnsupportedCollectionEntry
  | KC_UnsupportedFixupVersion
  | KC_InvalidHeader
  | KC_InvalidCommand
  | KC_InvalidSegment
  | KC_InvalidSection
  | KC_InvalidIdentifier
  | KC_DuplicateMember
  | KC_OverlappingRange
  | KC_InvalidMemberMapping
  | KC_InvalidLinkedit
  | KC_InvalidFixups
  | KC_MissingEntry
  | KC_DuplicateEntry
  | KC_InvalidEntry

record kc_budget =
  bu_commands :: nat
  bu_segments :: nat
  bu_sections :: nat

definition empty_budget :: kc_budget where
  "empty_budget = \<lparr> bu_commands = 0, bu_segments = 0, bu_sections = 0 \<rparr>"

record member_reference =
  mr_identifier :: byte_string
  mr_offset :: u64
  mr_address :: u64

record parsed_image =
  pi_image :: image_metadata
  pi_members :: "member_reference list"

datatype profile = X86_64 | Arm64

section \<open>Bounded reading\<close>

definition kc_end :: "u64 \<Rightarrow> u64 \<Rightarrow> kc_metadata_error + u64" where
  "kc_end start n = ok_or (checked_add start n) KC_Overflow"

definition kc_slice :: "byte_string \<Rightarrow> nat \<Rightarrow> nat \<Rightarrow> kc_metadata_error + byte_string" where
  "kc_slice bytes offset n =
     and_then (ok_or (usize_add offset n) KC_Overflow) (\<lambda>stop.
     ok_or (get_range bytes offset stop) KC_Truncated)"

definition kc_range :: "byte_string \<Rightarrow> u64 \<Rightarrow> u64 \<Rightarrow> kc_metadata_error + byte_string" where
  "kc_range bytes offset n =
     and_then (kc_end offset n) (\<lambda>stop.
     if length bytes < unat stop then Inl KC_Truncated
     else kc_slice bytes (unat offset) (unat n))"

definition kc_exact :: "byte_string \<Rightarrow> nat \<Rightarrow> kc_metadata_error + unit" where
  "kc_exact bytes expected = (if length bytes \<noteq> expected then Inl KC_InvalidCommand else Inr ())"

definition kc_u16_at :: "byte_string \<Rightarrow> nat \<Rightarrow> kc_metadata_error + u16" where
  "kc_u16_at bytes offset = and_then (kc_slice bytes offset 2) (\<lambda>b. Inr (from_le_bytes b))"

definition kc_u32_at :: "byte_string \<Rightarrow> nat \<Rightarrow> kc_metadata_error + u32" where
  "kc_u32_at bytes offset = and_then (kc_slice bytes offset 4) (\<lambda>b. Inr (from_le_bytes b))"

definition kc_u64_at :: "byte_string \<Rightarrow> nat \<Rightarrow> kc_metadata_error + u64" where
  "kc_u64_at bytes offset = and_then (kc_slice bytes offset 8) (\<lambda>b. Inr (from_le_bytes b))"

definition kc_file_range :: "byte_string \<Rightarrow> u64 \<Rightarrow> u64 \<Rightarrow> u64 \<Rightarrow> kc_metadata_error + file_range" where
  "kc_file_range bytes offset items width =
     and_then (ok_or (checked_mul items width) KC_Overflow) (\<lambda>n.
     and_then (kc_range bytes offset n) (\<lambda>_.
     Inr \<lparr> fr_offset = offset, fr_size = n \<rparr>))"

definition kc_contains :: "file_range \<Rightarrow> file_range \<Rightarrow> bool" where
  "kc_contains outer inner \<longleftrightarrow>
     fr_offset outer \<le> fr_offset inner \<and>
     (case (checked_add (fr_offset inner) (fr_size inner), checked_add (fr_offset outer) (fr_size outer)) of
        (Some a, Some b) \<Rightarrow> a \<le> b
      | _ \<Rightarrow> False)"

definition kc_overlaps :: "file_range \<Rightarrow> file_range \<Rightarrow> bool" where
  "kc_overlaps a b \<longleftrightarrow>
     fr_size a \<noteq> 0 \<and> fr_size b \<noteq> 0 \<and>
     fr_offset a < fr_offset b + fr_size b \<and> fr_offset b < fr_offset a + fr_size a"

definition add_budget :: "nat \<Rightarrow> nat \<Rightarrow> nat \<Rightarrow> kc_metadata_error + nat" where
  "add_budget value amount limit =
     and_then (ok_or (usize_add value amount) KC_Overflow) (\<lambda>value.
     if limit < value then Inl KC_LimitExceeded else Inr value)"

definition set_entry :: "entry_metadata option \<Rightarrow> entry_metadata \<Rightarrow> kc_metadata_error + entry_metadata option" where
  "set_entry entry value = (if entry \<noteq> None then Inl KC_DuplicateEntry else Inr (Some value))"

definition is_collection_view :: "segment_metadata list \<Rightarrow> file_range \<Rightarrow> u64 \<Rightarrow> bool" where
  "is_collection_view segments file address =
     list_ex (\<lambda>s. kc_contains (seg_file s) file \<and>
        checked_sub address (seg_address s) = checked_sub (fr_offset file) (fr_offset (seg_file s)))
       segments"

section \<open>Segments and sections\<close>

text \<open>The rounds of the loop over the section headers, each 80 bytes.\<close>

definition parse_section ::
  "byte_string \<Rightarrow> byte_string \<Rightarrow> u64 \<Rightarrow> u64 \<Rightarrow> file_range \<Rightarrow> byte_string \<Rightarrow>
   kc_metadata_error + section_metadata" where
  "parse_section bytes cmd address memory_size file s =
     and_then (kc_u64_at s 32) (\<lambda>sa.
     and_then (kc_u64_at s 40) (\<lambda>n.
     and_then (kc_u32_at s 48) (\<lambda>section_offset32.
     let section_offset = ucast section_offset32 :: u64 in
     and_then (kc_u32_at s 52) (\<lambda>align.
     and_then (kc_u32_at s 64) (\<lambda>section_flags.
     and_then
       (if take 16 (drop 16 s) \<noteq> take 16 (drop 8 cmd) \<or> sa < address then Inr True
        else
          and_then (kc_end sa n) (\<lambda>section_end.
          and_then (kc_end address memory_size) (\<lambda>segment_end.
          Inr (segment_end < section_end \<or> 64 \<le> align \<or>
               sa AND (push_bit (unat align) 1 - 1) \<noteq> 0)))) (\<lambda>invalid.
     if invalid then Inl KC_InvalidSection
     else if section_flags AND 0xff \<notin> {1, 0xc, 0x12} \<and> n \<noteq> 0 \<and>
        (\<not> kc_contains file \<lparr> fr_offset = section_offset, fr_size = n \<rparr> \<or>
         section_offset - fr_offset file \<noteq> sa - address)
     then Inl KC_InvalidSection
     else
     and_then (kc_u32_at s 56) (\<lambda>relocation_offset.
     and_then (kc_u32_at s 60) (\<lambda>relocation_count.
     and_then (kc_file_range bytes (ucast relocation_offset) (ucast relocation_count) 8) (\<lambda>relocations.
     Inr \<lparr> sec_address = sa, sec_size = n, sec_file_offset = section_offset,
            sec_flags = section_flags, sec_relocations = relocations \<rparr>)))))))))"

definition check_section_pair :: "section_metadata \<Rightarrow> section_metadata \<Rightarrow> kc_metadata_error + unit" where
  "check_section_pair a b =
     and_then (kc_end (sec_address a) (sec_size a)) (\<lambda>stop.
     if sec_address b < stop then Inl KC_OverlappingRange else Inr ())"

definition parse_segment ::
  "byte_string \<Rightarrow> byte_string \<Rightarrow> kc_budget \<Rightarrow> kc_metadata_error + segment_metadata \<times> kc_budget" where
  "parse_segment bytes cmd budget =
     and_then (kc_slice cmd 0 72) (\<lambda>_.
     and_then (kc_u32_at cmd 64) (\<lambda>count32.
     let sections = unat count32 in
     and_then (add_budget (bu_sections budget) sections MAX_SECTIONS) (\<lambda>sections_used.
     let budget = budget\<lparr> bu_sections := sections_used \<rparr> in
     if 72 + sections * 80 \<noteq> length cmd then Inl KC_InvalidCommand
     else
     and_then (kc_u64_at cmd 24) (\<lambda>address.
     and_then (kc_u64_at cmd 32) (\<lambda>memory_size.
     and_then (kc_u64_at cmd 40) (\<lambda>file_offset.
     and_then (kc_u64_at cmd 48) (\<lambda>file_size.
     and_then (kc_file_range bytes file_offset file_size 1) (\<lambda>file.
     and_then (kc_u32_at cmd 56) (\<lambda>maximum_protection.
     and_then (kc_u32_at cmd 60) (\<lambda>initial_protection.
     and_then (kc_u32_at cmd 68) (\<lambda>flags.
     and_then (kc_end address memory_size) (\<lambda>_.
     if memory_size < fr_size file \<or> maximum_protection AND NOT 7 \<noteq> 0 \<or>
        initial_protection AND NOT maximum_protection \<noteq> 0
     then Inl KC_InvalidSegment
     else if flags AND NOT 4 \<noteq> 0 then Inl KC_UnsupportedSegmentFlags
     else
     and_then (try_map (parse_section bytes cmd address memory_size file)
        (chunks_exact 80 (drop 72 cmd) (length (drop 72 cmd)))) (\<lambda>sections.
     and_then (for_windows check_section_pair
        (sort_key sec_address (filter (\<lambda>s. sec_size s \<noteq> 0) sections))) (\<lambda>_.
     Inr (\<lparr> seg_name = take 16 (drop 8 cmd), seg_address = address, seg_memory_size = memory_size,
             seg_file = file, seg_maximum_protection = maximum_protection,
             seg_initial_protection = initial_protection, seg_flags = flags,
             seg_sections = sections \<rparr>, budget)))))))))))))))"

definition check_address_pair :: "segment_metadata \<Rightarrow> segment_metadata \<Rightarrow> kc_metadata_error + unit" where
  "check_address_pair a b =
     and_then (kc_end (seg_address a) (seg_memory_size a)) (\<lambda>stop.
     if seg_address b < stop then Inl KC_OverlappingRange else Inr ())"

definition check_file_pair :: "segment_metadata \<Rightarrow> segment_metadata \<Rightarrow> kc_metadata_error + unit" where
  "check_file_pair a b =
     (if kc_overlaps (seg_file a) (seg_file b) then Inl KC_OverlappingRange else Inr ())"

definition validate_nonoverlap :: "segment_metadata list \<Rightarrow> kc_metadata_error + unit" where
  "validate_nonoverlap segments =
     and_then (for_windows check_address_pair
        (sort_key seg_address (filter (\<lambda>s. seg_memory_size s \<noteq> 0) segments))) (\<lambda>_.
     for_windows check_file_pair
        (sort_key (\<lambda>s. fr_offset (seg_file s)) (filter (\<lambda>s. fr_size (seg_file s) \<noteq> 0) segments)))"

section \<open>Chained fixups\<close>

definition validate_page_start :: "u16 \<Rightarrow> u16 \<Rightarrow> u64 \<Rightarrow> u16 \<Rightarrow> kc_metadata_error + unit" where
  "validate_page_start offset page_size backed_bytes format =
     (let width = (if format \<in> {8, 11} then 8 else 1) :: u64 in
      if page_size \<le> offset \<or> backed_bytes < ucast offset + width then Inl KC_InvalidFixups
      else Inr ())"

text \<open>The loop over the starts of a page with several of them; the cursor grows up to \<open>available\<close>.\<close>

function multiple_starts ::
  "byte_string \<Rightarrow> nat \<Rightarrow> u16 \<Rightarrow> u64 \<Rightarrow> u16 \<Rightarrow> nat \<Rightarrow> nat \<Rightarrow> kc_metadata_error + nat" where
  "multiple_starts info available page_size backed_bytes format cursor visits =
     and_then (add_budget visits 1 MAX_PAGE_START_VISITS) (\<lambda>visits.
     if available \<le> cursor then Inl KC_InvalidFixups
     else
     and_then (kc_u16_at info (22 + cursor * 2)) (\<lambda>value.
     and_then (validate_page_start (value AND 0x7fff) page_size backed_bytes format) (\<lambda>_.
     if value AND 0x8000 \<noteq> 0 then Inr visits
     else multiple_starts info available page_size backed_bytes format (cursor + 1) visits)))"
  by pat_completeness auto
termination
  by (relation "measure (\<lambda>(_, available, _, _, _, cursor, _). available - cursor)") auto

definition saturating_sub :: "u64 \<Rightarrow> u64 \<Rightarrow> u64" where
  "saturating_sub a b = (if a < b then 0 else a - b)"

record page_counts =
  pc_visits :: nat
  pc_with_fixups :: u32
  pc_multiple :: u32

text \<open>One round of the loop over the pages of a segment.\<close>

definition check_page ::
  "byte_string \<Rightarrow> segment_metadata \<Rightarrow> u16 \<Rightarrow> u16 \<Rightarrow> u16 \<Rightarrow> nat \<Rightarrow> page_counts \<Rightarrow> nat \<Rightarrow>
   kc_metadata_error + page_counts" where
  "check_page info segm page_size page_count format available counts index =
     and_then (add_budget (pc_visits counts) 1 MAX_PAGE_START_VISITS) (\<lambda>visits.
     let counts = counts\<lparr> pc_visits := visits \<rparr> in
     and_then (kc_u16_at info (22 + index * 2)) (\<lambda>first.
     if first = 0xffff then Inr counts
     else
     let counts = counts\<lparr> pc_with_fixups := pc_with_fixups counts + 1 \<rparr>;
         page_offset = of_nat index * ucast page_size :: u64;
         backed_bytes = min (saturating_sub (fr_size (seg_file segm)) page_offset)
           (saturating_sub (seg_memory_size segm) page_offset)
     in
     if first AND 0x8000 = 0 then
       and_then (validate_page_start first page_size backed_bytes format) (\<lambda>_. Inr counts)
     else
     let counts = counts\<lparr> pc_multiple := pc_multiple counts + 1 \<rparr>;
         cursor = unat (first AND 0x7fff)
     in
     if cursor < unat page_count then Inl KC_InvalidFixups
     else
     and_then (multiple_starts info available page_size backed_bytes format cursor (pc_visits counts))
       (\<lambda>visits. Inr (counts\<lparr> pc_visits := visits \<rparr>))))"

record fixup_state =
  fx_info_ranges :: "file_range list"
  fx_result :: "fixup_segment_metadata list"
  fx_visits :: nat

definition div_ceil :: "u64 \<Rightarrow> u64 \<Rightarrow> u64" where
  "div_ceil a b = a div b + (if a mod b = 0 then 0 else 1)"

text \<open>One round of the loop over the segments.\<close>

definition parse_fixup_segment ::
  "byte_string \<Rightarrow> nat \<Rightarrow> nat \<Rightarrow> file_range \<Rightarrow> file_range \<Rightarrow> u64 \<Rightarrow> fixup_state \<Rightarrow> nat \<times> segment_metadata \<Rightarrow>
   kc_metadata_error + fixup_state" where
  "parse_fixup_segment data starts table_size import_range symbol_range header_address st = (\<lambda>(index, segm).
     and_then (kc_u32_at data (starts + 4 + index * 4)) (\<lambda>relative32.
     let relative = unat relative32 in
     if relative = 0 then Inr st
     else if relative < table_size then Inl KC_InvalidFixups
     else
     and_then (ok_or (usize_add starts relative) KC_Overflow) (\<lambda>at.
     and_then (kc_u32_at data at) (\<lambda>size32.
     let n = unat size32 in
     if n < 22 \<or> (n - 22) mod 2 \<noteq> 0 then Inl KC_InvalidFixups
     else
     and_then (kc_slice data at n) (\<lambda>info.
     let ir = \<lparr> fr_offset = of_nat at, fr_size = of_nat n \<rparr> in
     if list_ex (\<lambda>r. kc_overlaps r ir) (fx_info_ranges st) \<or> kc_overlaps ir import_range \<or>
        kc_overlaps ir symbol_range
     then Inl KC_InvalidFixups
     else
     let st = st\<lparr> fx_info_ranges := fx_info_ranges st @ [ir] \<rparr> in
     and_then (kc_u16_at info 4) (\<lambda>page_size.
     and_then (kc_u16_at info 6) (\<lambda>pointer_format.
     and_then (kc_u64_at info 8) (\<lambda>segment_offset.
     and_then (kc_u16_at info 20) (\<lambda>page_count.
     and_then
       (if segment_offset \<noteq> seg_address segm - header_address \<or> page_size \<notin> {4096, 16384} then Inr True
        else
          and_then (kc_u32_at info 16) (\<lambda>maximum.
          Inr (maximum \<noteq> 0 \<or>
               div_ceil (seg_memory_size segm) (ucast page_size) < ucast page_count))) (\<lambda>invalid.
     if invalid then Inl KC_InvalidFixups
     else
     let available = (n - 22) div 2 in
     if available < unat page_count then Inl KC_InvalidFixups
     else
     and_then (try_fold (check_page info segm page_size page_count pointer_format available)
        \<lparr> pc_visits = fx_visits st, pc_with_fixups = 0, pc_multiple = 0 \<rparr> [0 ..< unat page_count]) (\<lambda>counts.
     Inr (st\<lparr> fx_visits := pc_visits counts,
       fx_result := fx_result st @ [\<lparr> fs_segment_index = index, fs_pointer_format = pointer_format,
          fs_page_size = page_size, fs_page_count = page_count,
          fs_pages_with_fixups = pc_with_fixups counts, fs_multiple_start_pages = pc_multiple counts,
          fs_segment_offset = segment_offset \<rparr>] \<rparr>))))))))))))"

definition parse_fixups ::
  "byte_string \<Rightarrow> file_range \<Rightarrow> segment_metadata list \<Rightarrow> u64 \<Rightarrow>
   kc_metadata_error + chained_fixup_metadata" where
  "parse_fixups bytes file segments header_address =
     (if MAX_FIXUP_BYTES < fr_size file then Inl KC_LimitExceeded
      else
      and_then (kc_range bytes (fr_offset file) (fr_size file)) (\<lambda>data.
      and_then (kc_slice data 0 28) (\<lambda>_.
      and_then (kc_u32_at data 0) (\<lambda>version.
      if version \<noteq> 0 then Inl KC_UnsupportedFixupVersion
      else
      and_then (kc_u32_at data 4) (\<lambda>starts32.
      and_then (kc_u32_at data 8) (\<lambda>imports32.
      and_then (kc_u32_at data 12) (\<lambda>symbols32.
      and_then (kc_u32_at data 16) (\<lambda>imports_count.
      and_then (kc_u32_at data 20) (\<lambda>imports_format.
      and_then (kc_u32_at data 24) (\<lambda>symbols_format.
      let starts = unat starts32; imports = unat imports32; symbols = unat symbols32 in
      if starts < 28 \<or> imports < 28 \<or> symbols < 28 \<or> length data < symbols \<or> 1 < symbols_format
      then Inl KC_InvalidFixups
      else
      and_then
        (if imports_format = 1 then Inr 4 else if imports_format = 2 then Inr 8
         else if imports_format = 3 then Inr 16 else Inl KC_InvalidFixups) (\<lambda>import_width.
      and_then (kc_file_range data (of_nat imports) (ucast imports_count) import_width) (\<lambda>import_range.
      let symbol_range = \<lparr> fr_offset = of_nat symbols, fr_size = of_nat (length data - symbols) \<rparr> in
      if kc_overlaps import_range symbol_range then Inl KC_InvalidFixups
      else
      and_then (kc_u32_at data starts) (\<lambda>count32.
      if unat count32 \<noteq> length segments then Inl KC_InvalidFixups
      else
      let table_size = 4 + unat count32 * 4 in
      and_then (kc_slice data starts table_size) (\<lambda>_.
      let table_range = \<lparr> fr_offset = of_nat starts, fr_size = of_nat table_size \<rparr> in
      if kc_overlaps table_range import_range \<or> kc_overlaps table_range symbol_range
      then Inl KC_InvalidFixups
      else
      and_then (try_fold (parse_fixup_segment data starts table_size import_range symbol_range header_address)
         \<lparr> fx_info_ranges = [], fx_result = [], fx_visits = 0 \<rparr> (enumerate 0 segments)) (\<lambda>st.
      Inr \<lparr> cf_file = file, cf_imports_count = imports_count, cf_imports_format = imports_format,
             cf_symbols_format = symbols_format, cf_segments = fx_result st \<rparr>)))))))))))))))"

section \<open>Load commands\<close>

record command_state =
  cs_segments :: "segment_metadata list"
  cs_members :: "member_reference list"
  cs_entry :: "entry_metadata option"
  cs_symtab :: "u32 option"
  cs_dysymtab :: "byte_string option"
  cs_fixup_range :: "file_range option"
  cs_linkedit_ranges :: "file_range list"
  cs_budget :: kc_budget

definition initial_command_state :: "kc_budget \<Rightarrow> command_state" where
  "initial_command_state budget =
     \<lparr> cs_segments = [], cs_members = [], cs_entry = None, cs_symtab = None, cs_dysymtab = None,
       cs_fixup_range = None, cs_linkedit_ranges = [], cs_budget = budget \<rparr>"

definition segment_command ::
  "byte_string \<Rightarrow> byte_string \<Rightarrow> command_state \<Rightarrow> kc_metadata_error + command_state" where
  "segment_command bytes cmd st =
     and_then (add_budget (bu_segments (cs_budget st)) 1 MAX_SEGMENTS) (\<lambda>segments_used.
     and_then (parse_segment bytes cmd ((cs_budget st)\<lparr> bu_segments := segments_used \<rparr>)) (\<lambda>(segm, budget).
     Inr (st\<lparr> cs_segments := cs_segments st @ [segm], cs_budget := budget \<rparr>)))"

definition fileset_command ::
  "byte_string \<Rightarrow> byte_string \<Rightarrow> command_state \<Rightarrow> kc_metadata_error + command_state" where
  "fileset_command bytes cmd st =
     (if length cmd < 32 then Inl KC_InvalidCommand
      else if length (cs_members st) = MAX_MEMBERS then Inl KC_LimitExceeded
      else
      and_then (kc_u32_at cmd 24) (\<lambda>string_offset32.
      let string_offset = unat string_offset32 in
      and_then
        (if string_offset < 32 \<or> length cmd \<le> string_offset then Inr True
         else and_then (kc_u32_at cmd 28) (\<lambda>reserved. Inr (reserved \<noteq> 0))) (\<lambda>invalid.
      if invalid then Inl KC_InvalidIdentifier
      else
      let tail = drop string_offset cmd in
      and_then (ok_or (position_where (\<lambda>b. b = 0) tail) KC_InvalidIdentifier) (\<lambda>n.
      if n = 0 \<or> MAX_IDENTIFIER < n then Inl KC_InvalidIdentifier
      else
      let identifier = take n tail in
      and_then (kc_u64_at cmd 16) (\<lambda>member_offset.
      and_then (kc_u64_at cmd 8) (\<lambda>address.
      and_then (kc_range bytes member_offset 32) (\<lambda>_.
      if member_offset = 0 \<or>
         list_ex (\<lambda>m. mr_offset m = member_offset \<or> mr_address m = address \<or>
            mr_identifier m = identifier) (cs_members st)
      then Inl KC_DuplicateMember
      else
      Inr (st\<lparr> cs_members := cs_members st @
        [\<lparr> mr_identifier = identifier, mr_offset = member_offset, mr_address = address \<rparr>] \<rparr>))))))))"

definition thread_entry :: "profile \<Rightarrow> byte_string \<Rightarrow> kc_metadata_error + entry_metadata" where
  "thread_entry profile cmd =
     (case profile of
        X86_64 \<Rightarrow>
          and_then (kc_exact cmd 184) (\<lambda>_.
          and_then (kc_u32_at cmd 8) (\<lambda>flavor.
          and_then (if flavor \<noteq> 4 then Inr True
                    else and_then (kc_u32_at cmd 12) (\<lambda>words. Inr (words \<noteq> 42))) (\<lambda>invalid.
          if invalid then Inl KC_UnsupportedThreadState
          else and_then (kc_u64_at cmd 144) (\<lambda>ip. Inr (UnixThread64 ip)))))
      | Arm64 \<Rightarrow>
          and_then (if length cmd \<noteq> 288 then Inr True
                    else and_then (kc_u32_at cmd 8) (\<lambda>flavor.
                      if flavor \<noteq> 6 then Inr True
                      else and_then (kc_u32_at cmd 12) (\<lambda>words. Inr (words \<noteq> 68)))) (\<lambda>invalid.
          if invalid then Inl KC_UnsupportedThreadState
          else
          and_then (kc_u64_at cmd 272) (\<lambda>ip.
          and_then (kc_u64_at cmd 264) (\<lambda>sp.
          and_then (kc_u32_at cmd 280) (\<lambda>cpsr.
          and_then (kc_u32_at cmd 284) (\<lambda>flags.
          Inr (ArmThread64 ip sp cpsr flags)))))))"

definition thread_command ::
  "profile \<Rightarrow> byte_string \<Rightarrow> command_state \<Rightarrow> kc_metadata_error + command_state" where
  "thread_command profile cmd st =
     and_then (thread_entry profile cmd) (\<lambda>value.
     and_then (set_entry (cs_entry st) value) (\<lambda>entry.
     Inr (st\<lparr> cs_entry := entry \<rparr>)))"

definition main_command :: "byte_string \<Rightarrow> command_state \<Rightarrow> kc_metadata_error + command_state" where
  "main_command cmd st =
     and_then (kc_exact cmd 24) (\<lambda>_.
     and_then (kc_u64_at cmd 8) (\<lambda>text_offset.
     and_then (kc_u64_at cmd 16) (\<lambda>stack_size.
     and_then (set_entry (cs_entry st) (EntryMain text_offset stack_size)) (\<lambda>entry.
     Inr (st\<lparr> cs_entry := entry \<rparr>)))))"

text \<open>\<^verbatim>\<open>file_range(bytes, u32_at(cmd, at)?, u32_at(cmd, at + 4)?, width)?\<close>.\<close>

definition command_file_range ::
  "byte_string \<Rightarrow> byte_string \<Rightarrow> nat \<Rightarrow> u64 \<Rightarrow> kc_metadata_error + file_range" where
  "command_file_range bytes cmd at width =
     and_then (kc_u32_at cmd at) (\<lambda>offset.
     and_then (kc_u32_at cmd (at + 4)) (\<lambda>items.
     kc_file_range bytes (ucast offset) (ucast items) width))"

definition symtab_command ::
  "byte_string \<Rightarrow> byte_string \<Rightarrow> command_state \<Rightarrow> kc_metadata_error + command_state" where
  "symtab_command bytes cmd st =
     and_then (kc_exact cmd 24) (\<lambda>_.
     if cs_symtab st \<noteq> None then Inl KC_InvalidCommand
     else
     and_then (command_file_range bytes cmd 8 16) (\<lambda>symbols.
     and_then (command_file_range bytes cmd 16 1) (\<lambda>strings.
     and_then (kc_u32_at cmd 12) (\<lambda>number.
     Inr (st\<lparr> cs_linkedit_ranges := cs_linkedit_ranges st @ [symbols, strings],
            cs_symtab := Some number \<rparr>)))))"

definition dysymtab_command ::
  "byte_string \<Rightarrow> byte_string \<Rightarrow> command_state \<Rightarrow> kc_metadata_error + command_state" where
  "dysymtab_command bytes cmd st =
     and_then (kc_exact cmd 80) (\<lambda>_.
     if cs_dysymtab st \<noteq> None then Inl KC_InvalidCommand
     else
     and_then (try_map (\<lambda>(at, width). command_file_range bytes cmd at width)
        [(32, 8), (40, 56), (48, 4), (56, 4), (64, 8), (72, 8)]) (\<lambda>ranges.
     Inr (st\<lparr> cs_linkedit_ranges := cs_linkedit_ranges st @ ranges, cs_dysymtab := Some cmd \<rparr>)))"

definition fixups_command ::
  "byte_string \<Rightarrow> byte_string \<Rightarrow> command_state \<Rightarrow> kc_metadata_error + command_state" where
  "fixups_command bytes cmd st =
     and_then (kc_exact cmd 16) (\<lambda>_.
     if cs_fixup_range st \<noteq> None then Inl KC_InvalidCommand
     else
     and_then (command_file_range bytes cmd 8 1) (\<lambda>r.
     Inr (st\<lparr> cs_linkedit_ranges := cs_linkedit_ranges st @ [r], cs_fixup_range := Some r \<rparr>)))"

definition build_version_command :: "byte_string \<Rightarrow> command_state \<Rightarrow> kc_metadata_error + command_state" where
  "build_version_command cmd st =
     and_then (kc_slice cmd 0 24) (\<lambda>_.
     and_then (kc_u32_at cmd 20) (\<lambda>tools.
     if 24 + unat tools * 8 \<noteq> length cmd then Inl KC_InvalidCommand else Inr st))"

definition linkedit_command ::
  "u32 \<Rightarrow> byte_string \<Rightarrow> byte_string \<Rightarrow> command_state \<Rightarrow> kc_metadata_error + command_state" where
  "linkedit_command kind bytes cmd st =
     and_then (kc_exact cmd 16) (\<lambda>_.
     and_then (kc_u32_at cmd 12) (\<lambda>n.
     if kind = 0x29 \<and> n mod 8 \<noteq> 0 then Inl KC_InvalidCommand
     else
     and_then (kc_u32_at cmd 8) (\<lambda>offset.
     and_then (kc_file_range bytes (ucast offset) (ucast n) 1) (\<lambda>r.
     Inr (st\<lparr> cs_linkedit_ranges := cs_linkedit_ranges st @ [r] \<rparr>)))))"

definition parse_command ::
  "byte_string \<Rightarrow> bool \<Rightarrow> profile \<Rightarrow> u32 \<Rightarrow> byte_string \<Rightarrow> command_state \<Rightarrow>
   kc_metadata_error + command_state" where
  "parse_command bytes outer profile kind cmd st =
     (if kind = 0x19 then segment_command bytes cmd st
      else if kind = 0x80000035 \<and> outer then fileset_command bytes cmd st
      else if kind = 5 then thread_command profile cmd st
      else if kind = 0x80000028 then main_command cmd st
      else if kind = 2 then symtab_command bytes cmd st
      else if kind = 0xb then dysymtab_command bytes cmd st
      else if kind = 0x80000034 then fixups_command bytes cmd st
      else if kind = 0x1b then and_then (kc_exact cmd 24) (\<lambda>_. Inr st)
      else if kind \<in> {0x24, 0x2a} then and_then (kc_exact cmd 16) (\<lambda>_. Inr st)
      else if kind = 0x32 then build_version_command cmd st
      else if kind \<in> {0x1d, 0x26, 0x29} then linkedit_command kind bytes cmd st
      else Inl KC_UnsupportedCommand)"

text \<open>The loop over the load commands, with the offset of the next one.\<close>

fun parse_commands ::
  "byte_string \<Rightarrow> byte_string \<Rightarrow> bool \<Rightarrow> profile \<Rightarrow> nat \<Rightarrow> nat \<Rightarrow> command_state \<Rightarrow>
   kc_metadata_error + command_state \<times> nat" where
  "parse_commands bytes commands outer profile 0 offset st = Inr (st, offset)"
| "parse_commands bytes commands outer profile (Suc n) offset st =
     and_then (kc_u32_at commands offset) (\<lambda>kind.
     and_then (kc_u32_at commands (offset + 4)) (\<lambda>size32.
     let cmd_size = unat size32 in
     if cmd_size < 8 \<or> cmd_size mod 8 \<noteq> 0 then Inl KC_InvalidCommand
     else
     and_then (kc_slice commands offset cmd_size) (\<lambda>cmd.
     and_then (parse_command bytes outer profile kind cmd st) (\<lambda>st.
     and_then (ok_or (usize_add offset cmd_size) KC_Overflow) (\<lambda>offset.
     parse_commands bytes commands outer profile n offset st)))))"

section \<open>Images\<close>

definition valid_cpu :: "profile \<Rightarrow> u32 \<Rightarrow> u32 \<Rightarrow> bool" where
  "valid_cpu profile cpu_type cpu_subtype =
     (case profile of
        X86_64 \<Rightarrow> cpu_type = 0x01000007 \<and> cpu_subtype = 3
      | Arm64 \<Rightarrow> cpu_type = 0x0100000c \<and>
          cpu_subtype \<in> {0, 1, 2, 0x80000002, 0x81000002, 0xc0000002, 0xc1000002, 0xc2000002})"

text \<open>\<^verbatim>\<open>b"__LINKEDIT\0\0\0\0\0\0"\<close>.\<close>

definition LINKEDIT_NAME :: byte_string where
  "LINKEDIT_NAME = [0x5f, 0x5f, 0x4c, 0x49, 0x4e, 0x4b, 0x45, 0x44, 0x49, 0x54, 0, 0, 0, 0, 0, 0]"

definition in_linkedit :: "segment_metadata list \<Rightarrow> file_range \<Rightarrow> bool" where
  "in_linkedit segments r = list_ex (\<lambda>s. seg_name s = LINKEDIT_NAME \<and> kc_contains (seg_file s) r) segments"

text \<open>\<^verbatim>\<open>iter().find_map(f)\<close>.\<close>

fun find_map :: "('a \<Rightarrow> 'b option) \<Rightarrow> 'a list \<Rightarrow> 'b option" where
  "find_map f [] = None"
| "find_map f (x # xs) = (case f x of None \<Rightarrow> find_map f xs | Some y \<Rightarrow> Some y)"

definition header_address_in :: "u64 \<Rightarrow> u64 \<Rightarrow> segment_metadata \<Rightarrow> u64 option" where
  "header_address_in base header_size s =
     (if kc_contains (seg_file s) \<lparr> fr_offset = base, fr_size = header_size \<rparr>
      then checked_add (seg_address s) (base - fr_offset (seg_file s)) else None)"

definition parse_relocations ::
  "byte_string \<Rightarrow> u32 option \<Rightarrow> byte_string \<Rightarrow> kc_metadata_error + relocation_metadata" where
  "parse_relocations bytes symtab cmd =
     and_then (ok_or symtab KC_InvalidLinkedit) (\<lambda>symbols.
     and_then (for_each (\<lambda>at.
        and_then (kc_u32_at cmd at) (\<lambda>first.
        and_then (kc_u32_at cmd (at + 4)) (\<lambda>number.
        and_then (kc_end (ucast first) (ucast number)) (\<lambda>stop.
        if ucast symbols < stop then Inl KC_InvalidLinkedit else Inr ())))) [8, 16, 24]) (\<lambda>_.
     and_then (command_file_range bytes cmd 72 8) (\<lambda>local.
     and_then (command_file_range bytes cmd 64 8) (\<lambda>external.
     and_then (kc_u32_at cmd 76) (\<lambda>local_count.
     and_then (kc_u32_at cmd 68) (\<lambda>external_count.
     Inr \<lparr> rel_local = local, rel_external = external,
            rel_local_count = local_count, rel_external_count = external_count \<rparr>))))))"

text \<open>What follows the loop: the checks over all the commands, and the image.\<close>

definition finish_image ::
  "byte_string \<Rightarrow> u64 \<Rightarrow> byte_string \<Rightarrow> u32 \<Rightarrow> u32 \<Rightarrow> u32 \<Rightarrow> u32 \<Rightarrow> u32 \<Rightarrow> command_state \<Rightarrow>
   kc_metadata_error + parsed_image" where
  "finish_image bytes base h cpu_type cpu_subtype file_type number command_bytes st =
     (let segments = cs_segments st in
      and_then (validate_nonoverlap segments) (\<lambda>_.
      let header_size = 32 + ucast command_bytes :: u64 in
      and_then (ok_or (find_map (header_address_in base header_size) segments) KC_InvalidHeader)
        (\<lambda>header_address.
      and_then (for_each (\<lambda>r. if fr_size r \<noteq> 0 \<and> \<not> in_linkedit segments r
          then Inl KC_InvalidLinkedit else Inr ()) (cs_linkedit_ranges st)) (\<lambda>_.
      and_then (for_each (\<lambda>section. if fr_size (sec_relocations section) \<noteq> 0 \<and>
            \<not> in_linkedit segments (sec_relocations section)
          then Inl KC_InvalidLinkedit else Inr ()) (concat (map seg_sections segments))) (\<lambda>_.
      and_then (case cs_dysymtab st of
            None \<Rightarrow> Inr None
          | Some cmd \<Rightarrow> and_then (parse_relocations bytes (cs_symtab st) cmd) (\<lambda>r. Inr (Some r)))
        (\<lambda>relocations.
      and_then (case cs_fixup_range st of
            None \<Rightarrow> Inr None
          | Some r \<Rightarrow> and_then (parse_fixups bytes r segments header_address) (\<lambda>f. Inr (Some f)))
        (\<lambda>chained_fixups.
      and_then (kc_u32_at h 24) (\<lambda>flags.
      Inr \<lparr> pi_image = \<lparr> im_cpu_type = cpu_type, im_cpu_subtype = cpu_subtype,
               im_header_file_offset = base, im_header_address = header_address,
               im_file_type = file_type, im_flags = flags, im_command_count = number,
               im_command_bytes = command_bytes, im_segments = segments, im_entry = cs_entry st,
               im_relocations = relocations, im_chained_fixups = chained_fixups \<rparr>,
             pi_members = cs_members st \<rparr>))))))))"

definition parse_image ::
  "byte_string \<Rightarrow> u64 \<Rightarrow> bool \<Rightarrow> profile \<Rightarrow> kc_budget \<Rightarrow>
   kc_metadata_error + parsed_image \<times> kc_budget" where
  "parse_image bytes base outer profile budget =
     and_then (kc_range bytes base 32) (\<lambda>h.
     and_then (kc_u32_at h 0) (\<lambda>magic.
     if magic \<noteq> 0xfeedfacf then Inl KC_UnsupportedFormat
     else
     and_then (kc_u32_at h 4) (\<lambda>cpu_type.
     and_then (kc_u32_at h 8) (\<lambda>cpu_subtype.
     if \<not> valid_cpu profile cpu_type cpu_subtype then Inl KC_UnsupportedCpu
     else
     and_then (kc_u32_at h 12) (\<lambda>file_type.
     if (outer \<and> file_type \<noteq> 12) \<or> (\<not> outer \<and> file_type \<noteq> 2 \<and> file_type \<noteq> 11)
     then Inl KC_UnsupportedFileType
     else
     and_then (kc_u32_at h 16) (\<lambda>number.
     and_then (kc_u32_at h 20) (\<lambda>command_bytes.
     and_then (kc_u32_at h 28) (\<lambda>reserved.
     if reserved \<noteq> 0 \<or> command_bytes mod 8 \<noteq> 0 \<or> command_bytes div 8 < number
     then Inl KC_InvalidHeader
     else
     and_then (add_budget (bu_commands budget) (unat number) MAX_COMMANDS) (\<lambda>commands_used.
     let budget = budget\<lparr> bu_commands := commands_used \<rparr> in
     if MAX_COMMAND_BYTES < unat command_bytes then Inl KC_LimitExceeded
     else
     and_then (kc_end base 32) (\<lambda>first.
     and_then (kc_range bytes first (ucast command_bytes)) (\<lambda>commands.
     and_then (parse_commands bytes commands outer profile (unat number) 0
        (initial_command_state budget)) (\<lambda>(st, offset).
     if offset \<noteq> length commands \<or> cs_segments st = [] then Inl KC_InvalidHeader
     else
     and_then (finish_image bytes base h cpu_type cpu_subtype file_type number command_bytes st)
       (\<lambda>parsed. Inr (parsed, cs_budget st))))))))))))))"

section \<open>The collection\<close>

definition entry_in_segment :: "entry_metadata \<Rightarrow> segment_metadata \<Rightarrow> bool" where
  "entry_in_segment entry s =
     (if seg_initial_protection s AND 4 = 0 then False
      else
      (case entry of
         UnixThread64 ip \<Rightarrow>
           (case checked_sub ip (seg_address s) of
              None \<Rightarrow> False | Some n \<Rightarrow> n < fr_size (seg_file s))
       | ArmThread64 ip _ _ _ \<Rightarrow>
           ip mod 4 = 0 \<and>
           (case checked_sub ip (seg_address s) of
              None \<Rightarrow> False
            | Some n \<Rightarrow>
                (case checked_add n 4 of None \<Rightarrow> False | Some stop \<Rightarrow> stop \<le> fr_size (seg_file s)))
       | EntryMain _ _ \<Rightarrow> False))"

definition validate_collection_entry :: "image_metadata \<Rightarrow> kc_metadata_error + unit" where
  "validate_collection_entry img =
     and_then (ok_or (im_entry img) KC_MissingEntry) (\<lambda>entry.
     if (case entry of EntryMain _ _ \<Rightarrow> True | _ \<Rightarrow> False) then Inl KC_UnsupportedCollectionEntry
     else if \<not> list_ex (entry_in_segment entry) (im_segments img) then Inl KC_InvalidEntry
     else Inr ())"

definition memory_range :: "segment_metadata \<Rightarrow> file_range" where
  "memory_range s = \<lparr> fr_offset = seg_address s, fr_size = seg_memory_size s \<rparr>"

text \<open>The test of one segment of a member against the segments of the collection.\<close>

definition check_member_segment ::
  "segment_metadata list \<Rightarrow> segment_metadata \<Rightarrow> kc_metadata_error + unit" where
  "check_member_segment outer segm =
     (if seg_memory_size segm \<noteq> 0 \<and>
         \<not> list_ex (\<lambda>s. kc_contains (memory_range s) (memory_range segm)) outer
      then Inl KC_InvalidMemberMapping
      else if fr_size (seg_file segm) \<noteq> 0 \<and>
         \<not> is_collection_view outer (seg_file segm) (seg_address segm)
      then Inl KC_InvalidMemberMapping
      else Inr ())"

definition inspect_member ::
  "byte_string \<Rightarrow> profile \<Rightarrow> image_metadata \<Rightarrow> fileset_member list \<times> kc_budget \<Rightarrow> member_reference \<Rightarrow>
   kc_metadata_error + fileset_member list \<times> kc_budget" where
  "inspect_member bytes profile outer = (\<lambda>(members, budget) reference.
     and_then (parse_image bytes (mr_offset reference) False profile budget) (\<lambda>(parsed, budget).
     let child = pi_image parsed in
     if im_cpu_subtype child \<noteq> im_cpu_subtype outer then Inl KC_UnsupportedCpu
     else if im_header_address child \<noteq> mr_address reference then Inl KC_InvalidMemberMapping
     else
     let header = \<lparr> fr_offset = mr_offset reference, fr_size = 32 + ucast (im_command_bytes child) \<rparr> in
     if \<not> is_collection_view (im_segments outer) header (mr_address reference)
     then Inl KC_InvalidMemberMapping
     else
     and_then (for_each (check_member_segment (im_segments outer)) (im_segments child)) (\<lambda>_.
     Inr (members @ [\<lparr> fm_identifier = mr_identifier reference, fm_image = child \<rparr>], budget))))"

definition require_value ::
  "preparation_requirement \<Rightarrow> preparation_requirement list \<Rightarrow> preparation_requirement list" where
  "require_value v requirements = (if v \<in> set requirements then requirements else requirements @ [v])"

definition require_fixups ::
  "chained_fixup_metadata \<Rightarrow> preparation_requirement list \<Rightarrow> preparation_requirement list" where
  "require_fixups fixups requirements =
     (let requirements = require_value ChainedRebasing requirements;
          requirements = (if cf_imports_count fixups \<noteq> 0 then require_value ChainedImports requirements
            else requirements);
          requirements = (if cf_symbols_format fixups \<noteq> 0
            then require_value CompressedFixupSymbols requirements else requirements)
      in foldl (\<lambda>requirements segm. if fs_pointer_format segm \<noteq> 11
            then require_value (UnsupportedPointerFormat (fs_pointer_format segm)) requirements
            else requirements) requirements (cf_segments fixups))"

definition require_image ::
  "preparation_requirement list \<Rightarrow> image_metadata \<Rightarrow> preparation_requirement list" where
  "require_image requirements img =
     (let requirements =
        (if (case im_relocations img of None \<Rightarrow> False
              | Some r \<Rightarrow> rel_local_count r \<noteq> 0 \<or> rel_external_count r \<noteq> 0) \<or>
            list_ex (\<lambda>s. list_ex (\<lambda>s. fr_size (sec_relocations s) \<noteq> 0) (seg_sections s)) (im_segments img)
         then require_value ClassicRelocations requirements else requirements)
      in case im_chained_fixups img of
           None \<Rightarrow> requirements
         | Some fixups \<Rightarrow> require_fixups fixups requirements)"

definition inspect_profile :: "byte_string \<Rightarrow> profile \<Rightarrow> kc_metadata_error + kc_metadata_inspection" where
  "inspect_profile bytes profile =
     (if MAX_INPUT_SIZE < length bytes then Inl KC_InputTooLarge
      else
      and_then (parse_image bytes 0 True profile empty_budget) (\<lambda>(outer, budget).
      and_then (validate_collection_entry (pi_image outer)) (\<lambda>_.
      if pi_members outer = [] then Inl KC_InvalidHeader
      else
      and_then (try_fold (inspect_member bytes profile (pi_image outer)) ([], budget) (pi_members outer))
        (\<lambda>(members, _).
      Inr \<lparr> ki_collection = pi_image outer, ki_members = members,
             ki_requirements = foldl require_image
               [CollectionPlacement, KernelEntryAbi, PlatformHandoffProviders]
               (pi_image outer # map fm_image members) \<rparr>))))"

definition inspect_kernel_collection :: "byte_string \<Rightarrow> kc_metadata_error + kc_metadata_inspection" where
  "inspect_kernel_collection bytes = inspect_profile bytes X86_64"

definition inspect_arm64_kernel_collection :: "byte_string \<Rightarrow> kc_metadata_error + kc_metadata_inspection" where
  "inspect_arm64_kernel_collection bytes = inspect_profile bytes Arm64"

section \<open>The shared contract\<close>

interpretation kc: slice_reader kc_slice
  by unfold_locales (auto simp: kc_slice_def get_range_def usize_add_def)

end
