(* ===== verification/Kernel_Collection_Proofs.thy ===== *)
theory Kernel_Collection_Proofs
  imports Kernel_Collection
begin

text \<open>
  What an accepted collection is: every segment and section lies where it says, in the file and
  in memory, no two of them share a byte, every member lies in the collection with the same
  displacement, and the counts over all images stay within the limits.
\<close>

section \<open>Ranges as sets of offsets\<close>

definition fr_first :: "file_range \<Rightarrow> nat" where "fr_first r = unat (fr_offset r)"
definition fr_last :: "file_range \<Rightarrow> nat" where "fr_last r = unat (fr_offset r) + unat (fr_size r)"

text \<open>A range that ends where 64 bits do, at the latest, and one that lies in a file.\<close>

definition fr_exact :: "file_range \<Rightarrow> bool" where "fr_exact r \<longleftrightarrow> fr_last r < 2 ^ 64"

definition fr_within :: "file_range \<Rightarrow> file_range \<Rightarrow> bool" where
  "fr_within inner outer \<longleftrightarrow> fr_first outer \<le> fr_first inner \<and> fr_last inner \<le> fr_last outer"

definition fr_apart :: "file_range \<Rightarrow> file_range \<Rightarrow> bool" where
  "fr_apart a b \<longleftrightarrow> fr_last a \<le> fr_first b \<or> fr_last b \<le> fr_first a"

lemma fr_apart_sym: "fr_apart a b \<longleftrightarrow> fr_apart b a"
  by (auto simp: fr_apart_def)

lemma kc_end_Inr [result_iff]:
  "kc_end start n = Inr stop \<longleftrightarrow> unat start + unat n = unat stop"
  by (auto simp: kc_end_def result_iff checked_add_Some)

lemma kc_contains_nat:
  "kc_contains outer inner \<longleftrightarrow> fr_within inner outer \<and> fr_exact inner \<and> fr_exact outer"
proof -
  have "fr_first outer \<le> fr_first inner \<longleftrightarrow> fr_offset outer \<le> fr_offset inner"
    by (simp add: fr_first_def word_le_nat_alt)
  moreover have "fr_exact r \<longleftrightarrow> checked_add (fr_offset r) (fr_size r) \<noteq> None" for r
    by (simp add: fr_exact_def fr_last_def checked_add_None not_le)
  moreover have "unat stop = fr_last r" if "checked_add (fr_offset r) (fr_size r) = Some stop" for r stop
    using that by (simp add: fr_last_def checked_add_Some)
  ultimately show ?thesis
    by (auto simp: kc_contains_def fr_within_def word_le_nat_alt split: option.splits)
qed

lemma kc_overlaps_nat:
  assumes "fr_exact a" and "fr_exact b"
  shows "kc_overlaps a b \<longleftrightarrow> fr_size a \<noteq> 0 \<and> fr_size b \<noteq> 0 \<and> \<not> fr_apart a b"
proof -
  have "unat (fr_offset r + fr_size r) = fr_last r" if "fr_exact r" for r
    using that unfolding fr_exact_def fr_last_def by (intro unat_add_exact) simp
  then show ?thesis
    using assms by (auto simp: kc_overlaps_def fr_apart_def fr_first_def word_less_nat_alt)
qed

lemma kc_range_Inr:
  assumes "length bs < 2 ^ 64"
  shows "kc_range bs offset n = Inr r \<longleftrightarrow>
    unat offset + unat n \<le> length bs \<and> r = take (unat n) (drop (unat offset) bs)"
proof -
  have "unat offset + unat n \<le> length bs \<Longrightarrow> \<exists>stop. unat offset + unat n = unat (stop :: u64)"
    using assms by (intro exI [of _ "of_nat (unat offset + unat n)"])
      (simp add: unat_of_nat del: of_nat_add)
  then show ?thesis
    unfolding kc_range_def and_then_Inr kc_end_Inr if_Inl_Inr kc.slice_at_Inr [OF assms] not_less
    by metis
qed

lemma kc_file_range_Inr:
  assumes "length bs < 2 ^ 64" and "kc_file_range bs offset items width = Inr r"
  shows "fr_last r \<le> length bs" and "fr_offset r = offset"
    and "unat (fr_size r) = unat items * unat width"
  using assms(2) by (auto simp: kc_file_range_def result_iff kc_range_Inr [OF assms(1)]
      fr_last_def checked_mul_Some)

section \<open>Well-formed segments\<close>

definition section_ok :: "nat \<Rightarrow> segment_metadata \<Rightarrow> section_metadata \<Rightarrow> bool" where
  "section_ok n s sec \<longleftrightarrow>
     unat (seg_address s) \<le> unat (sec_address sec) \<and>
     unat (sec_address sec) + unat (sec_size sec) \<le> unat (seg_address s) + unat (seg_memory_size s) \<and>
     fr_last (sec_relocations sec) \<le> n \<and>
     (sec_size sec \<noteq> 0 \<longrightarrow> sec_flags sec AND 0xff \<notin> {1, 0xc, 0x12} \<longrightarrow>
        fr_first (seg_file s) \<le> unat (sec_file_offset sec) \<and>
        unat (sec_file_offset sec) + unat (sec_size sec) \<le> fr_last (seg_file s) \<and>
        unat (sec_file_offset sec) - fr_first (seg_file s) = unat (sec_address sec) - unat (seg_address s))"

definition section_memory :: "section_metadata \<Rightarrow> file_range" where
  "section_memory sec = \<lparr> fr_offset = sec_address sec, fr_size = sec_size sec \<rparr>"

definition segment_ok :: "nat \<Rightarrow> segment_metadata \<Rightarrow> bool" where
  "segment_ok n s \<longleftrightarrow>
     fr_last (seg_file s) \<le> n \<and> fr_exact (memory_range s) \<and>
     unat (fr_size (seg_file s)) \<le> unat (seg_memory_size s) \<and>
     seg_maximum_protection s AND NOT 7 = 0 \<and>
     seg_initial_protection s AND NOT (seg_maximum_protection s) = 0 \<and>
     length (seg_name s) = 16 \<and>
     (\<forall>sec \<in> set (seg_sections s). section_ok n s sec) \<and>
     pairwise_list fr_apart (map section_memory (filter (\<lambda>s. sec_size s \<noteq> 0) (seg_sections s)))"

lemma parse_section_ok:
  assumes len: "length bs < 2 ^ 64" and fx: "fr_exact file"
    and "parse_section bs cmd address memory_size file s = Inr sec"
  shows "unat address \<le> unat (sec_address sec)"
    and "unat (sec_address sec) + unat (sec_size sec) \<le> unat address + unat memory_size"
    and "fr_last (sec_relocations sec) \<le> length bs"
    and "sec_size sec \<noteq> 0 \<Longrightarrow> sec_flags sec AND 0xff \<notin> {1, 0xc, 0x12} \<Longrightarrow>
        fr_first file \<le> unat (sec_file_offset sec) \<and>
        unat (sec_file_offset sec) + unat (sec_size sec) \<le> fr_last file \<and>
        unat (sec_file_offset sec) - fr_first file = unat (sec_address sec) - unat address"
proof -
  from assms(3) obtain sa n so32 align flags invalid ro rc relocations where
    range: "(if take 16 (drop 16 s) \<noteq> take 16 (drop 8 cmd) \<or> sa < address then Inr True
        else and_then (kc_end sa n) (\<lambda>section_end. and_then (kc_end address memory_size) (\<lambda>segment_end.
          Inr (segment_end < section_end \<or> 64 \<le> (align :: u32) \<or> sa AND (push_bit (unat align) 1 - 1) \<noteq> 0)))) = Inr invalid"
    and "\<not> invalid"
    and mapped: "\<not> (flags AND 0xff \<notin> {1, 0xc, 0x12} \<and> n \<noteq> 0 \<and>
        (\<not> kc_contains file \<lparr> fr_offset = ucast (so32 :: u32), fr_size = n \<rparr> \<or>
         ucast so32 - fr_offset file \<noteq> sa - address))"
    and rel: "kc_file_range bs (ucast (ro :: u32)) (ucast (rc :: u32)) 8 = Inr relocations"
    and sec32: "\<lparr> sec_address = sa, sec_size = n, sec_file_offset = ucast so32,
            sec_flags = flags, sec_relocations = relocations \<rparr> = sec"
    unfolding parse_section_def Let_def and_then_Inr if_Inl_Inr sum.inject
    by (elim exE conjE) (rule that, assumption+)
  have names: "\<not> (take 16 (drop 16 s) \<noteq> take 16 (drop 8 cmd) \<or> sa < address)"
    using range \<open>\<not> invalid\<close> by (auto split: if_splits)
  then have "\<not> sa < address" by blast
  obtain section_end segment_end :: u64 where
    stop: "unat sa + unat n = unat section_end" "unat address + unat memory_size = unat segment_end"
    and le: "\<not> segment_end < section_end"
    using range [unfolded if_not_P [OF names] and_then_Inr kc_end_Inr sum.inject] \<open>\<not> invalid\<close> by blast
  define section_offset :: u64 where so: "section_offset = ucast so32"
  have sec: "sec = \<lparr> sec_address = sa, sec_size = n, sec_file_offset = section_offset,
            sec_flags = flags, sec_relocations = relocations \<rparr>"
    by (simp only: so flip: sec32)
  note mapped = mapped [folded so]
  show "unat address \<le> unat (sec_address sec)" using \<open>\<not> sa < address\<close> by (simp add: sec word_less_nat_alt)
  show "unat (sec_address sec) + unat (sec_size sec) \<le> unat address + unat memory_size"
    using stop le by (simp add: sec word_less_nat_alt)
  show "fr_last (sec_relocations sec) \<le> length bs" using kc_file_range_Inr [OF len rel] by (simp add: sec)
  assume "sec_size sec \<noteq> 0" and "sec_flags sec AND 0xff \<notin> {1, 0xc, 0x12}"
  then have c: "kc_contains file \<lparr> fr_offset = section_offset, fr_size = n \<rparr>"
    and d: "section_offset - fr_offset file = sa - address"
    using mapped by (auto simp: sec)
  from c have w: "fr_first file \<le> unat section_offset" "unat section_offset + unat n \<le> fr_last file"
    by (auto simp: kc_contains_nat fr_within_def fr_first_def fr_last_def)
  have "unat (section_offset - fr_offset file) = unat section_offset - fr_first file"
    using w(1) by (simp add: unat_sub_exact fr_first_def word_le_nat_alt)
  moreover have "unat (sa - address) = unat sa - unat address"
    using \<open>\<not> sa < address\<close> by (simp add: unat_sub_exact not_less)
  ultimately show "fr_first file \<le> unat (sec_file_offset sec) \<and>
        unat (sec_file_offset sec) + unat (sec_size sec) \<le> fr_last file \<and>
        unat (sec_file_offset sec) - fr_first file = unat (sec_address sec) - unat address"
    using w d by (simp add: sec)
qed

text \<open>The neighbours of a sorted list of sections do not overlap, so no two sections do.\<close>

lemma check_section_pairs_apart:
  assumes "for_windows check_section_pair (sort_key sec_address (filter (\<lambda>s. sec_size s \<noteq> 0) secs)) = Inr u"
  shows "pairwise_list fr_apart (map section_memory (filter (\<lambda>s. sec_size s \<noteq> 0) secs))"
proof -
  let ?xs = "filter (\<lambda>s. sec_size s \<noteq> 0) secs"
  have "sorted_wrt (\<lambda>x y. fr_last (section_memory x) \<le> fr_first (section_memory y)) (sort_key sec_address ?xs)"
    by (rule for_windows_ordered [OF assms sorted_sort_key])
      (auto simp: check_section_pair_def result_iff fr_last_def fr_first_def section_memory_def
        word_less_nat_alt not_less split: if_splits)
  then have "pairwise_list fr_apart (map section_memory (sort_key sec_address ?xs))"
    by (intro sorted_wrt_pairwise [OF fr_apart_sym, where R = "\<lambda>x y. fr_last x \<le> fr_first y"])
      (auto simp: sorted_wrt_map fr_apart_def)
  then show ?thesis
    by (rule pairwise_list_mset [OF fr_apart_sym, rotated]) (simp add: mset_map)
qed

lemma add_budget_Inr [result_iff]:
  "add_budget v amount limit = Inr v' \<longleftrightarrow> v' = v + amount \<and> v' \<le> limit \<and> v' < 2 ^ 64"
  by (auto simp: add_budget_def result_iff usize_add_def split: if_splits)

lemma length_chunks_exact:
  "0 < n \<Longrightarrow> length xs = k * n \<Longrightarrow> k \<le> m \<Longrightarrow> length (chunks_exact n xs m) = k"
proof (induction n xs m arbitrary: k rule: chunks_exact.induct)
  case (2 n xs m)
  then show ?case by (cases k) auto
qed simp

lemma list_all2_set1: "list_all2 P xs ys \<Longrightarrow> y \<in> set ys \<Longrightarrow> \<exists>x \<in> set xs. P x y"
  by (induction rule: list_all2_induct) auto

lemma parse_segment_ok:
  assumes len: "length bs < 2 ^ 64" and cmd: "length cmd < 2 ^ 64"
    and p: "parse_segment bs cmd budget = Inr (s, budget')"
  shows "segment_ok (length bs) s"
    and "bu_sections budget' = bu_sections budget + length (seg_sections s)"
    and "bu_sections budget' \<le> MAX_SECTIONS"
    and "bu_commands budget' = bu_commands budget" and "bu_segments budget' = bu_segments budget"
proof -
  from p obtain h and count32 :: u32 and used address memory_size fo fsz fl maxp initp flags stop sections u where
    h: "kc_slice cmd 0 72 = Inr h"
    and used: "used = bu_sections budget + unat count32 \<and> used \<le> MAX_SECTIONS \<and> used < 2 ^ 64"
    and size: "\<not> 72 + unat count32 * 80 \<noteq> length cmd"
    and fr: "kc_file_range bs fo fsz 1 = Inr fl"
    and stop: "unat address + unat memory_size = unat (stop :: u64)"
    and valid: "\<not> (memory_size < fr_size fl \<or> maxp AND NOT 7 \<noteq> 0 \<or> initp AND NOT maxp \<noteq> 0)"
    and secs: "list_all2 (\<lambda>c sec. parse_section bs cmd address memory_size fl c = Inr sec)
       (chunks_exact 80 (drop 72 cmd) (length (drop 72 cmd))) sections"
    and apart: "for_windows check_section_pair
        (sort_key sec_address (filter (\<lambda>s. sec_size s \<noteq> 0) sections)) = Inr u"
    and s: "(\<lparr> seg_name = take 16 (drop 8 cmd), seg_address = address, seg_memory_size = memory_size,
             seg_file = fl, seg_maximum_protection = maxp,
             seg_initial_protection = initp, seg_flags = flags,
             seg_sections = sections \<rparr>, budget\<lparr> bu_sections := used \<rparr>) = (s, budget')"
    unfolding parse_segment_def Let_def and_then_Inr if_Inl_Inr kc_end_Inr add_budget_Inr try_map_Inr sum.inject
    by (elim exE conjE) (rule that, (assumption | rule conjI)+)
  note f = kc_file_range_Inr [OF len fr]
  have fx: "fr_exact fl" using f(1) len by (simp add: fr_exact_def)
  have "length (drop 72 cmd) = unat count32 * 80" using size by simp
  then have "length (chunks_exact 80 (drop 72 cmd) (length (drop 72 cmd))) = unat count32"
    by (intro length_chunks_exact) auto
  then have n: "length sections = unat count32" using secs by (simp add: list_all2_lengthD)
  have "section_ok (length bs) s sec" if sec: "sec \<in> set sections" for sec
  proof -
    obtain c where "parse_section bs cmd address memory_size fl c = Inr sec"
      using list_all2_set1 [OF secs sec] by blast
    from parse_section_ok [OF len fx this] show ?thesis using s by (auto simp: section_ok_def)
  qed
  then show "segment_ok (length bs) s"
    using s f(1) stop valid size check_section_pairs_apart [OF apart]
      unat_u64_bound [of stop]
    by (auto simp: segment_ok_def fr_exact_def fr_last_def memory_range_def word_less_nat_alt not_less)
  show "bu_sections budget' = bu_sections budget + length (seg_sections s)"
    "bu_sections budget' \<le> MAX_SECTIONS" "bu_commands budget' = bu_commands budget"
    "bu_segments budget' = bu_segments budget"
    using s used n by auto
qed

section \<open>The loop over the load commands\<close>

definition distinct_members :: "member_reference \<Rightarrow> member_reference \<Rightarrow> bool" where
  "distinct_members a b \<longleftrightarrow>
     mr_identifier a \<noteq> mr_identifier b \<and> mr_offset a \<noteq> mr_offset b \<and> mr_address a \<noteq> mr_address b"

lemma distinct_members_sym: "distinct_members a b \<longleftrightarrow> distinct_members b a"
  by (auto simp: distinct_members_def)

definition member_ok :: "nat \<Rightarrow> member_reference \<Rightarrow> bool" where
  "member_ok n m \<longleftrightarrow>
     mr_offset m \<noteq> 0 \<and> unat (mr_offset m) + 32 \<le> n \<and>
     mr_identifier m \<noteq> [] \<and> length (mr_identifier m) \<le> MAX_IDENTIFIER \<and> 0 \<notin> set (mr_identifier m)"

definition section_count :: "segment_metadata list \<Rightarrow> nat" where
  "section_count segments = sum_list (map (\<lambda>s. length (seg_sections s)) segments)"

text \<open>What holds after every command, with the budget \<open>b\<close> the loop started with.\<close>

definition commands_ok :: "nat \<Rightarrow> kc_budget \<Rightarrow> command_state \<Rightarrow> bool" where
  "commands_ok n b st \<longleftrightarrow>
     (\<forall>s \<in> set (cs_segments st). segment_ok n s) \<and>
     (\<forall>m \<in> set (cs_members st). member_ok n m) \<and>
     pairwise_list distinct_members (cs_members st) \<and> length (cs_members st) \<le> MAX_MEMBERS \<and>
     (\<forall>r \<in> set (cs_linkedit_ranges st). fr_last r \<le> n) \<and>
     bu_commands (cs_budget st) = bu_commands b \<and>
     bu_segments (cs_budget st) = bu_segments b + length (cs_segments st) \<and>
     bu_sections (cs_budget st) = bu_sections b + section_count (cs_segments st) \<and>
     bu_segments (cs_budget st) \<le> MAX_SEGMENTS \<and> bu_sections (cs_budget st) \<le> MAX_SECTIONS"

lemma segment_command_ok:
  assumes "length bs < 2 ^ 64" and "length cmd < 2 ^ 64" and "commands_ok (length bs) b st"
    and "segment_command bs cmd st = Inr st'"
  shows "commands_ok (length bs) b st'"
proof -
  from assms(4) obtain used s budget' where used: "used = bu_segments (cs_budget st) + 1" "used \<le> MAX_SEGMENTS"
    and p: "parse_segment bs cmd ((cs_budget st)\<lparr> bu_segments := used \<rparr>) = Inr (s, budget')"
    and st': "st' = st\<lparr> cs_segments := cs_segments st @ [s], cs_budget := budget' \<rparr>"
    by (auto simp: segment_command_def result_iff split: prod.splits)
  from parse_segment_ok [OF assms(1,2) p] show ?thesis
    using assms(3) used by (auto simp: commands_ok_def st' section_count_def)
qed

lemma pairwise_list_snoc:
  assumes "\<And>x y. P x y \<longleftrightarrow> P y x"
  shows "pairwise_list P (xs @ [x]) \<longleftrightarrow> pairwise_list P xs \<and> (\<forall>y \<in> set xs. P y x)"
proof -
  have "pairwise_list P (xs @ [x]) \<longleftrightarrow> pairwise_list P (x # xs)"
    using pairwise_list_mset [OF assms, of "xs @ [x]" "x # xs"] pairwise_list_mset [OF assms, of "x # xs" "xs @ [x]"]
    by auto
  also have "\<dots> \<longleftrightarrow> pairwise_list P xs \<and> (\<forall>y \<in> set xs. P x y)"
    by (auto simp: pairwise_list_Cons [OF assms])
  finally show ?thesis using assms by blast
qed

lemma fileset_command_ok:
  assumes len: "length bs < 2 ^ 64" and ok: "commands_ok (length bs) b st"
    and f: "fileset_command bs cmd st = Inr st'"
  shows "commands_ok (length bs) b st'"
proof -
  from f obtain string_offset :: u32 and n and member_offset address :: u64 and r where
    room: "\<not> length (cs_members st) = MAX_MEMBERS"
    and pos: "position_where (\<lambda>b. b = 0) (drop (unat string_offset) cmd) = Some n"
    and n: "\<not> (n = 0 \<or> MAX_IDENTIFIER < n)"
    and r: "kc_range bs member_offset 32 = Inr r"
    and fresh: "\<not> (member_offset = 0 \<or>
         list_ex (\<lambda>m. mr_offset m = member_offset \<or> mr_address m = address \<or>
            mr_identifier m = take n (drop (unat string_offset) cmd)) (cs_members st))"
    and st': "st\<lparr> cs_members := cs_members st @
        [\<lparr> mr_identifier = take n (drop (unat string_offset) cmd), mr_offset = member_offset,
           mr_address = address \<rparr>] \<rparr> = st'"
    unfolding fileset_command_def Let_def and_then_Inr if_Inl_Inr ok_or_Inr sum.inject
    by (elim exE conjE) (rule that, assumption+)
  note p = position_where_Some [OF pos]
  have "0 \<notin> set (take n (drop (unat string_offset) cmd))"
  proof
    assume "0 \<in> set (take n (drop (unat string_offset) cmd))"
    then obtain i where "i < n" "drop (unat string_offset) cmd ! i = 0"
      using p by (auto simp: in_set_conv_nth)
    then show False using p by blast
  qed
  moreover have "unat member_offset + 32 \<le> length bs" using r by (simp add: kc_range_Inr [OF len])
  ultimately have new: "member_ok (length bs) \<lparr> mr_identifier = take n (drop (unat string_offset) cmd),
      mr_offset = member_offset, mr_address = address \<rparr>"
    using n fresh p by (auto simp: member_ok_def)
  have "distinct_members m \<lparr> mr_identifier = take n (drop (unat string_offset) cmd),
      mr_offset = member_offset, mr_address = address \<rparr>" if "m \<in> set (cs_members st)" for m
    using fresh that by (auto simp: distinct_members_def list_ex_iff)
  then show ?thesis
    using ok room new unfolding commands_ok_def
    by (auto simp flip: st' simp: pairwise_list_snoc [OF distinct_members_sym])
qed

lemma command_file_range_Inr:
  assumes "length bs < 2 ^ 64" and "command_file_range bs cmd at width = Inr r"
  shows "fr_last r \<le> length bs"
  using assms(2) kc_file_range_Inr(1) [OF assms(1)] by (auto simp: command_file_range_def result_iff)

lemma parse_command_ok:
  assumes len: "length bs < 2 ^ 64" and cmd: "length cmd < 2 ^ 64"
    and ok: "commands_ok (length bs) b st"
    and c: "parse_command bs outer profile kind cmd st = Inr st'"
  shows "commands_ok (length bs) b st'"
proof -
  have ranges: "commands_ok (length bs) b st'"
    if "\<exists>entry symtab dysymtab fixups rs. st' = st\<lparr> cs_entry := entry, cs_symtab := symtab,
        cs_dysymtab := dysymtab, cs_fixup_range := fixups, cs_linkedit_ranges := cs_linkedit_ranges st @ rs \<rparr> \<and>
        (\<forall>r \<in> set rs. fr_last r \<le> length bs)"
    using that ok by (auto simp: commands_ok_def)
  note cf = command_file_range_Inr [OF len]
  consider "segment_command bs cmd st = Inr st'" | "fileset_command bs cmd st = Inr st'"
    | "thread_command profile cmd st = Inr st'" | "main_command cmd st = Inr st'"
    | "symtab_command bs cmd st = Inr st'" | "dysymtab_command bs cmd st = Inr st'"
    | "fixups_command bs cmd st = Inr st'" | "build_version_command cmd st = Inr st'"
    | "linkedit_command kind bs cmd st = Inr st'" | "st' = st"
    using c unfolding parse_command_def by (auto simp: result_iff split: if_splits)
  then show ?thesis
  proof cases
    case 1
    then show ?thesis by (rule segment_command_ok [OF len cmd ok])
  next
    case 2
    then show ?thesis by (rule fileset_command_ok [OF len ok])
  next
    case 3
    then show ?thesis using ok by (auto simp: thread_command_def result_iff commands_ok_def)
  next
    case 4
    then show ?thesis using ok by (auto simp: main_command_def result_iff commands_ok_def)
  next
    case 5
    then show ?thesis using ok cf by (auto simp: symtab_command_def result_iff commands_ok_def split: if_splits)
  next
    case 6
    then obtain rs where
      rs: "list_all2 (\<lambda>x y. (case x of (at, width) \<Rightarrow> command_file_range bs cmd at width) = Inr y)
        [(32, 8), (40, 56), (48, 4), (56, 4), (64, 8), (72, 8)] rs"
      and st': "st' = st\<lparr> cs_linkedit_ranges := cs_linkedit_ranges st @ rs, cs_dysymtab := Some cmd \<rparr>"
      unfolding dysymtab_command_def and_then_Inr if_Inl_Inr try_map_Inr by auto
    have "fr_last r \<le> length bs" if "r \<in> set rs" for r
      using list_all2_set1 [OF rs that] cf by auto
    then show ?thesis using ok by (auto simp: commands_ok_def st')
  next
    case 7
    then show ?thesis using ok cf by (auto simp: fixups_command_def result_iff commands_ok_def split: if_splits)
  next
    case 8
    then show ?thesis using ok by (auto simp: build_version_command_def result_iff split: if_splits)
  next
    case 9
    then show ?thesis using ok kc_file_range_Inr(1) [OF len]
      by (auto simp: linkedit_command_def result_iff commands_ok_def split: if_splits)
  next
    case 10
    then show ?thesis using ok by simp
  qed
qed

lemma parse_commands_ok:
  assumes "length bs < 2 ^ 64" and "length commands < 2 ^ 64" and "commands_ok (length bs) b st"
    and "parse_commands bs commands outer profile n offset st = Inr (st', offset')"
  shows "commands_ok (length bs) b st'"
  using assms(3,4)
proof (induction n arbitrary: offset st)
  case (Suc n)
  from Suc.prems(2) obtain kind size cmd st1 offset1 where
    cmd: "kc_slice commands offset size = Inr cmd"
    and c: "parse_command bs outer profile kind cmd st = Inr st1"
    and rest: "parse_commands bs commands outer profile n offset1 st1 = Inr (st', offset')"
    by (auto simp: result_iff Let_def split: if_splits)
  have "length cmd < 2 ^ 64" using kc.slice_at_length [OF assms(2) cmd] assms(2) by simp
  from Suc.IH [OF parse_command_ok [OF assms(1) this Suc.prems(1) c] rest] show ?case .
qed simp

section \<open>Images\<close>

definition image_ok :: "nat \<Rightarrow> image_metadata \<Rightarrow> bool" where
  "image_ok n img \<longleftrightarrow>
     im_segments img \<noteq> [] \<and> (\<forall>s \<in> set (im_segments img). segment_ok n s) \<and>
     pairwise_list fr_apart (map memory_range (filter (\<lambda>s. seg_memory_size s \<noteq> 0) (im_segments img))) \<and>
     pairwise_list fr_apart (map seg_file (filter (\<lambda>s. fr_size (seg_file s) \<noteq> 0) (im_segments img))) \<and>
     (\<exists>s \<in> set (im_segments img).
        fr_within \<lparr> fr_offset = im_header_file_offset img, fr_size = 32 + ucast (im_command_bytes img) \<rparr> (seg_file s) \<and>
        unat (im_header_address img) =
          unat (seg_address s) + (unat (im_header_file_offset img) - fr_first (seg_file s)))"

lemma validate_nonoverlap_apart:
  assumes ok: "\<forall>s \<in> set segments. segment_ok n s" and n: "n < 2 ^ 64"
    and v: "validate_nonoverlap segments = Inr u"
  shows "pairwise_list fr_apart (map memory_range (filter (\<lambda>s. seg_memory_size s \<noteq> 0) segments))"
    and "pairwise_list fr_apart (map seg_file (filter (\<lambda>s. fr_size (seg_file s) \<noteq> 0) segments))"
proof -
  let ?ms = "filter (\<lambda>s. seg_memory_size s \<noteq> 0) segments"
  let ?fs = "filter (\<lambda>s. fr_size (seg_file s) \<noteq> 0) segments"
  let ?fkey = "\<lambda>s. fr_offset (seg_file s)"
  from v obtain u1 where m: "for_windows check_address_pair (sort_key seg_address ?ms) = Inr u1"
    and f: "for_windows check_file_pair (sort_key ?fkey ?fs) = Inr u"
    by (auto simp: validate_nonoverlap_def result_iff)
  have "sorted_wrt (\<lambda>x y. fr_last (memory_range x) \<le> fr_first (memory_range y)) (sort_key seg_address ?ms)"
    by (rule for_windows_ordered [OF m sorted_sort_key])
      (auto simp: check_address_pair_def result_iff fr_last_def fr_first_def memory_range_def
        word_less_nat_alt not_less split: if_splits)
  then have "pairwise_list fr_apart (map memory_range (sort_key seg_address ?ms))"
    by (intro sorted_wrt_pairwise [OF fr_apart_sym, where R = "\<lambda>x y. fr_last x \<le> fr_first y"])
      (auto simp: sorted_wrt_map fr_apart_def)
  then show "pairwise_list fr_apart (map memory_range ?ms)"
    by (rule pairwise_list_mset [OF fr_apart_sym, rotated]) (simp add: mset_map)
  have "sorted_wrt (\<lambda>x y. fr_last (seg_file x) \<le> fr_first (seg_file y)) (sort_key ?fkey ?fs)"
  proof (rule for_windows_ordered [OF f sorted_sort_key])
    fix x y assume "x \<in> set (sort_key ?fkey ?fs)" and "y \<in> set (sort_key ?fkey ?fs)"
    then have xy: "fr_exact (seg_file x)" "fr_exact (seg_file y)" "fr_size (seg_file x) \<noteq> 0" "fr_size (seg_file y) \<noteq> 0"
      using ok n by (auto simp: segment_ok_def fr_exact_def)
    assume "?fkey x \<le> ?fkey y" and "check_file_pair x y = Inr ()"
    then have "fr_apart (seg_file x) (seg_file y)" and le: "fr_first (seg_file x) \<le> fr_first (seg_file y)"
      using kc_overlaps_nat [OF xy(1,2)] xy(3,4)
      by (auto simp: check_file_pair_def fr_first_def word_le_nat_alt split: if_splits)
    moreover have "0 < unat (fr_size (seg_file y))" using xy(4) by (simp add: unat_gt_0)
    ultimately show "fr_last (seg_file x) \<le> fr_first (seg_file y)"
      by (auto simp: fr_apart_def fr_last_def fr_first_def)
  qed (simp add: fr_last_def fr_first_def)
  then have "pairwise_list fr_apart (map seg_file (sort_key ?fkey ?fs))"
    by (intro sorted_wrt_pairwise [OF fr_apart_sym, where R = "\<lambda>x y. fr_last x \<le> fr_first y"])
      (auto simp: sorted_wrt_map fr_apart_def)
  then show "pairwise_list fr_apart (map seg_file ?fs)"
    by (rule pairwise_list_mset [OF fr_apart_sym, rotated]) (simp add: mset_map)
qed

lemma find_map_Some: "find_map f xs = Some y \<Longrightarrow> \<exists>x \<in> set xs. f x = Some y"
  by (induction xs) (auto split: option.splits)

text \<open>What an image adds to the counters.\<close>

definition adds_counts :: "kc_budget \<Rightarrow> image_metadata \<Rightarrow> kc_budget \<Rightarrow> bool" where
  "adds_counts b img b' \<longleftrightarrow>
     bu_commands b' = bu_commands b + unat (im_command_count img) \<and> bu_commands b' \<le> MAX_COMMANDS \<and>
     bu_segments b' = bu_segments b + length (im_segments img) \<and> bu_segments b' \<le> MAX_SEGMENTS \<and>
     bu_sections b' = bu_sections b + section_count (im_segments img) \<and> bu_sections b' \<le> MAX_SECTIONS"

lemma parse_image_ok:
  assumes len: "length bs < 2 ^ 64" and b: "bu_segments b \<le> MAX_SEGMENTS" "bu_sections b \<le> MAX_SECTIONS"
    and p: "parse_image bs base outer profile b = Inr (parsed, b')"
  shows "image_ok (length bs) (pi_image parsed)"
    and "im_header_file_offset (pi_image parsed) = base"
    and "adds_counts b (pi_image parsed) b'"
    and "\<forall>m \<in> set (pi_members parsed). member_ok (length bs) m"
    and "pairwise_list distinct_members (pi_members parsed)" and "length (pi_members parsed) \<le> MAX_MEMBERS"
proof -
  from p obtain h and cpu_type cpu_subtype file_type number command_bytes :: u32 and used and first :: u64
    and commands and st :: command_state and offset and parsed1 where
    used: "used = bu_commands b + unat number \<and> used \<le> MAX_COMMANDS \<and> used < 2 ^ 64"
    and commands: "kc_range bs first (ucast command_bytes) = Inr commands"
    and loop: "parse_commands bs commands outer profile (unat number) 0
        (initial_command_state (b\<lparr> bu_commands := used \<rparr>)) = Inr (st, offset)"
    and ne': "\<not> (offset \<noteq> length commands \<or> cs_segments st = [])"
    and fin': "finish_image bs base h cpu_type cpu_subtype file_type number command_bytes st = Inr parsed1"
    and b1: "(parsed1, cs_budget st) = (parsed, b')"
    unfolding parse_image_def Let_def split_paired_Ex and_then_Inr if_Inl_Inr add_budget_Inr prod.case sum.inject
    by (elim exE conjE) (rule that, (assumption | rule conjI)+)
  have ne: "cs_segments st \<noteq> []"
    and fin: "finish_image bs base h cpu_type cpu_subtype file_type number command_bytes st = Inr parsed"
    and b': "b' = cs_budget st"
    using ne' fin' b1 by auto
  have "length commands < 2 ^ 64" using commands len by (auto simp: kc_range_Inr [OF len])
  moreover have "commands_ok (length bs) (b\<lparr> bu_commands := used \<rparr>)
      (initial_command_state (b\<lparr> bu_commands := used \<rparr>))"
    using b by (auto simp: commands_ok_def initial_command_state_def pairwise_list_def section_count_def)
  ultimately have ok: "commands_ok (length bs) (b\<lparr> bu_commands := used \<rparr>) st"
    by (rule parse_commands_ok [OF len _ _ loop])
  from fin obtain u header_address relocations chained flags where
    v: "validate_nonoverlap (cs_segments st) = Inr u"
    and ha: "find_map (header_address_in base (32 + ucast command_bytes)) (cs_segments st) = Some header_address"
    and parsed: "parsed = \<lparr> pi_image = \<lparr> im_cpu_type = cpu_type, im_cpu_subtype = cpu_subtype,
               im_header_file_offset = base, im_header_address = header_address,
               im_file_type = file_type, im_flags = flags, im_command_count = number,
               im_command_bytes = command_bytes, im_segments = cs_segments st, im_entry = cs_entry st,
               im_relocations = relocations, im_chained_fixups = chained \<rparr>,
             pi_members = cs_members st \<rparr>"
    unfolding finish_image_def Let_def and_then_Inr ok_or_Inr sum.inject by blast
  obtain s where s: "s \<in> set (cs_segments st)"
    "header_address_in base (32 + ucast command_bytes) s = Some header_address"
    using find_map_Some [OF ha] by blast
  then have c: "kc_contains (seg_file s) \<lparr> fr_offset = base, fr_size = 32 + ucast command_bytes \<rparr>"
    and sum: "unat (seg_address s) + unat (base - fr_offset (seg_file s)) = unat header_address"
    by (auto simp: header_address_in_def checked_add_Some split: if_splits)
  have "fr_first (seg_file s) \<le> unat base"
    using c by (auto simp: kc_contains_nat fr_within_def fr_first_def)
  then have "unat (base - fr_offset (seg_file s)) = unat base - fr_first (seg_file s)"
    by (simp add: unat_sub_exact fr_first_def word_le_nat_alt)
  then have header: "\<exists>s \<in> set (cs_segments st).
      fr_within \<lparr> fr_offset = base, fr_size = 32 + ucast command_bytes \<rparr> (seg_file s) \<and>
      unat header_address = unat (seg_address s) + (unat base - fr_first (seg_file s))"
    using s(1) c sum by (auto simp: kc_contains_nat)
  have segs: "\<forall>s \<in> set (cs_segments st). segment_ok (length bs) s" using ok by (simp add: commands_ok_def)
  show "image_ok (length bs) (pi_image parsed)"
    using header segs ne validate_nonoverlap_apart [OF segs len v] by (simp add: image_ok_def parsed)
  show "im_header_file_offset (pi_image parsed) = base" by (simp add: parsed)
  show "adds_counts b (pi_image parsed) b'"
    using ok used by (simp add: commands_ok_def adds_counts_def parsed b')
  show "\<forall>m \<in> set (pi_members parsed). member_ok (length bs) m"
    "pairwise_list distinct_members (pi_members parsed)" "length (pi_members parsed) \<le> MAX_MEMBERS"
    using ok by (simp_all add: commands_ok_def parsed)
qed

section \<open>The collection and its members\<close>

text \<open>The range of an image lies in a segment of the collection, with the displacement of the addresses.\<close>

definition viewed :: "segment_metadata list \<Rightarrow> file_range \<Rightarrow> u64 \<Rightarrow> bool" where
  "viewed outer r address \<longleftrightarrow>
     (\<exists>s \<in> set outer. fr_within r (seg_file s) \<and> unat (seg_address s) \<le> unat address \<and>
        unat address - unat (seg_address s) = fr_first r - fr_first (seg_file s))"

lemma is_collection_view_viewed:
  assumes "is_collection_view outer r address"
  shows "viewed outer r address"
proof -
  from assms obtain s where s: "s \<in> set outer" "kc_contains (seg_file s) r"
    "checked_sub address (seg_address s) = checked_sub (fr_offset r) (fr_offset (seg_file s))"
    by (auto simp: is_collection_view_def list_ex_iff)
  then have w: "fr_within r (seg_file s)" by (simp add: kc_contains_nat)
  then have "fr_offset (seg_file s) \<le> fr_offset r" by (simp add: fr_within_def fr_first_def word_le_nat_alt)
  then obtain d where d: "checked_sub (fr_offset r) (fr_offset (seg_file s)) = Some d"
    by (simp add: checked_sub_def)
  then have "checked_sub address (seg_address s) = Some d" by (simp only: s(3))
  with d have "unat (fr_offset r) = unat (fr_offset (seg_file s)) + unat d"
    "unat address = unat (seg_address s) + unat d"
    by (simp_all only: checked_sub_Some)
  then show ?thesis using s(1) w by (auto simp: viewed_def fr_first_def)
qed

definition member_in_collection :: "image_metadata \<Rightarrow> image_metadata \<Rightarrow> bool" where
  "member_in_collection outer img \<longleftrightarrow>
     im_cpu_subtype img = im_cpu_subtype outer \<and>
     viewed (im_segments outer) \<lparr> fr_offset = im_header_file_offset img, fr_size = 32 + ucast (im_command_bytes img) \<rparr>
       (im_header_address img) \<and>
     (\<forall>s \<in> set (im_segments img).
        (seg_memory_size s \<noteq> 0 \<longrightarrow>
           (\<exists>o' \<in> set (im_segments outer). fr_within (memory_range s) (memory_range o'))) \<and>
        (fr_size (seg_file s) \<noteq> 0 \<longrightarrow> viewed (im_segments outer) (seg_file s) (seg_address s)))"

definition total_counts :: "image_metadata list \<Rightarrow> kc_budget" where
  "total_counts imgs =
     \<lparr> bu_commands = sum_list (map (\<lambda>img. unat (im_command_count img)) imgs),
       bu_segments = sum_list (map (\<lambda>img. length (im_segments img)) imgs),
       bu_sections = sum_list (map (\<lambda>img. section_count (im_segments img)) imgs) \<rparr>"

definition within_limits :: "kc_budget \<Rightarrow> bool" where
  "within_limits b \<longleftrightarrow>
     bu_commands b \<le> MAX_COMMANDS \<and> bu_segments b \<le> MAX_SEGMENTS \<and> bu_sections b \<le> MAX_SECTIONS"

lemma adds_counts_total:
  assumes "adds_counts (total_counts imgs) img b'"
  shows "b' = total_counts (imgs @ [img])" and "within_limits b'"
  using assms by (simp_all add: adds_counts_def total_counts_def within_limits_def)

text \<open>One member: what the round of the loop appends.\<close>

lemma inspect_member_Inr:
  assumes len: "length bs < 2 ^ 64" and lim: "within_limits b"
    and i: "inspect_member bs profile outer (ms, b) reference = Inr (ms', b')"
  obtains img where "ms' = ms @ [\<lparr> fm_identifier = mr_identifier reference, fm_image = img \<rparr>]"
    and "image_ok (length bs) img" and "member_in_collection outer img" and "adds_counts b img b'"
    and "im_header_file_offset img = mr_offset reference" and "im_header_address img = mr_address reference"
proof -
  from i obtain parsed b1 u where
    p: "parse_image bs (mr_offset reference) False profile b = Inr (parsed, b1)"
    and cpu: "im_cpu_subtype (pi_image parsed) = im_cpu_subtype outer"
    and ha: "im_header_address (pi_image parsed) = mr_address reference"
    and hv: "is_collection_view (im_segments outer)
      \<lparr> fr_offset = mr_offset reference, fr_size = 32 + ucast (im_command_bytes (pi_image parsed)) \<rparr>
      (mr_address reference)"
    and segs: "for_each (check_member_segment (im_segments outer)) (im_segments (pi_image parsed)) = Inr u"
    and ms': "ms' = ms @ [\<lparr> fm_identifier = mr_identifier reference, fm_image = pi_image parsed \<rparr>]" "b' = b1"
    unfolding inspect_member_def prod.case Let_def split_paired_Ex and_then_Inr if_Inl_Inr sum.inject prod.inject
    by blast
  note P = parse_image_ok [OF len _ _ p]
  have b: "bu_segments b \<le> MAX_SEGMENTS" "bu_sections b \<le> MAX_SECTIONS" using lim by (simp_all add: within_limits_def)
  have "\<forall>s \<in> set (im_segments (pi_image parsed)).
        (seg_memory_size s \<noteq> 0 \<longrightarrow>
           (\<exists>o' \<in> set (im_segments outer). fr_within (memory_range s) (memory_range o'))) \<and>
        (fr_size (seg_file s) \<noteq> 0 \<longrightarrow> viewed (im_segments outer) (seg_file s) (seg_address s))"
  proof
    fix s assume "s \<in> set (im_segments (pi_image parsed))"
    then have "check_member_segment (im_segments outer) s = Inr ()" using segs by (simp add: for_each_Inr)
    then show "(seg_memory_size s \<noteq> 0 \<longrightarrow>
           (\<exists>o' \<in> set (im_segments outer). fr_within (memory_range s) (memory_range o'))) \<and>
        (fr_size (seg_file s) \<noteq> 0 \<longrightarrow> viewed (im_segments outer) (seg_file s) (seg_address s))"
      by (auto simp: check_member_segment_def list_ex_iff kc_contains_nat dest: is_collection_view_viewed
          split: if_splits)
  qed
  then have "member_in_collection outer (pi_image parsed)"
    using cpu is_collection_view_viewed [OF hv] P(2) [OF b] ha by (simp add: member_in_collection_def)
  then show ?thesis using that [OF ms'(1) P(1) [OF b]] P(2,3) [OF b] ms'(2) ha by simp
qed

definition member_key :: "fileset_member \<Rightarrow> byte_string \<times> u64 \<times> u64" where
  "member_key m = (fm_identifier m, im_header_file_offset (fm_image m), im_header_address (fm_image m))"

definition reference_key :: "member_reference \<Rightarrow> byte_string \<times> u64 \<times> u64" where
  "reference_key r = (mr_identifier r, mr_offset r, mr_address r)"

definition members_done :: "nat \<Rightarrow> image_metadata \<Rightarrow> fileset_member list \<times> kc_budget \<Rightarrow> bool" where
  "members_done n outer = (\<lambda>(ms, b).
     (\<forall>m \<in> set ms. image_ok n (fm_image m) \<and> member_in_collection outer (fm_image m)) \<and>
     b = total_counts (outer # map fm_image ms) \<and> within_limits b)"

lemma inspect_members_Inr:
  assumes len: "length bs < 2 ^ 64" and "members_done (length bs) outer (ms, b)"
    and "try_fold (inspect_member bs profile outer) (ms, b) refs = Inr (ms', b')"
  shows "members_done (length bs) outer (ms', b') \<and> map member_key ms' = map member_key ms @ map reference_key refs"
  using assms(2,3)
proof (induction refs arbitrary: ms b)
  case (Cons r refs)
  from Cons.prems(2) obtain ms1 b1 where i: "inspect_member bs profile outer (ms, b) r = Inr (ms1, b1)"
    and rest: "try_fold (inspect_member bs profile outer) (ms1, b1) refs = Inr (ms', b')"
    unfolding try_fold.simps and_then_Inr split_paired_Ex by blast
  have lim: "within_limits b" and b: "b = total_counts (outer # map fm_image ms)"
    using Cons.prems(1) by (auto simp: members_done_def)
  from len lim i obtain img where
    img: "ms1 = ms @ [\<lparr> fm_identifier = mr_identifier r, fm_image = img \<rparr>]"
    "image_ok (length bs) img" "member_in_collection outer img" "adds_counts b img b1"
    "im_header_file_offset img = mr_offset r" "im_header_address img = mr_address r"
    by (rule inspect_member_Inr)
  note c = adds_counts_total [OF img(4) [unfolded b]]
  have "members_done (length bs) outer (ms1, b1)"
    using Cons.prems(1) img(1-3) c by (auto simp: members_done_def)
  from Cons.IH [OF this rest] show ?case
    using img by (simp add: member_key_def reference_key_def)
qed simp

lemma inspect_profile_Inr:
  assumes "inspect_profile bs profile = Inr insp"
  shows "length bs \<le> MAX_INPUT_SIZE" and "image_ok (length bs) (ki_collection insp)"
    and "im_header_file_offset (ki_collection insp) = 0"
    and "validate_collection_entry (ki_collection insp) = Inr ()" and "ki_members insp \<noteq> []"
    and "\<exists>b. members_done (length bs) (ki_collection insp) (ki_members insp, b)"
    and "\<exists>refs. map member_key (ki_members insp) = map reference_key refs \<and> pairwise_list distinct_members refs \<and>
      length refs \<le> MAX_MEMBERS \<and> (\<forall>r \<in> set refs. member_ok (length bs) r)"
proof -
  from assms obtain outer b0 u ms b where small: "\<not> MAX_INPUT_SIZE < length bs"
    and p: "parse_image bs 0 True profile empty_budget = Inr (outer, b0)"
    and entry: "validate_collection_entry (pi_image outer) = Inr u"
    and ne: "pi_members outer \<noteq> []"
    and fold: "try_fold (inspect_member bs profile (pi_image outer)) ([], b0) (pi_members outer) = Inr (ms, b)"
    and insp: "\<lparr> ki_collection = pi_image outer, ki_members = ms,
             ki_requirements = foldl require_image
               [CollectionPlacement, KernelEntryAbi, PlatformHandoffProviders]
               (pi_image outer # map fm_image ms) \<rparr> = insp"
    unfolding inspect_profile_def split_paired_Ex and_then_Inr if_Inl_Inr prod.case sum.inject by blast
  have "MAX_INPUT_SIZE < 2 ^ 64" by (simp add: MAX_INPUT_SIZE_def)
  then have len: "length bs < 2 ^ 64" using small by linarith
  have "within_limits empty_budget" by (simp add: within_limits_def empty_budget_def)
  then have "bu_segments empty_budget \<le> MAX_SEGMENTS" "bu_sections empty_budget \<le> MAX_SECTIONS"
    by (simp_all add: within_limits_def)
  note P = parse_image_ok [OF len this p]
  have "empty_budget = total_counts []" by (simp add: empty_budget_def total_counts_def)
  then have "b0 = total_counts [pi_image outer]" "within_limits b0"
    using adds_counts_total [of "[]"] P(3) by simp_all
  then have "members_done (length bs) (pi_image outer) ([], b0)" by (simp add: members_done_def)
  note M = inspect_members_Inr [OF len this fold]
  have keys: "map member_key ms = map reference_key (pi_members outer)" using M by simp
  then have "ms \<noteq> []" using ne by auto
  show "length bs \<le> MAX_INPUT_SIZE" using small by simp
  show "image_ok (length bs) (ki_collection insp)" "im_header_file_offset (ki_collection insp) = 0"
    using P by (simp_all flip: insp)
  show "validate_collection_entry (ki_collection insp) = Inr ()" using entry by (simp flip: insp)
  show "ki_members insp \<noteq> []" using \<open>ms \<noteq> []\<close> by (simp flip: insp)
  show "\<exists>b. members_done (length bs) (ki_collection insp) (ki_members insp, b)" using M by (auto simp flip: insp)
  show "\<exists>refs. map member_key (ki_members insp) = map reference_key refs \<and> pairwise_list distinct_members refs \<and>
      length refs \<le> MAX_MEMBERS \<and> (\<forall>r \<in> set refs. member_ok (length bs) r)"
    using keys P(4-6) by (auto simp flip: insp)
qed

definition collection_images :: "kc_metadata_inspection \<Rightarrow> image_metadata list" where
  "collection_images insp = ki_collection insp # map fm_image (ki_members insp)"

definition distinct_keys :: "byte_string \<times> u64 \<times> u64 \<Rightarrow> byte_string \<times> u64 \<times> u64 \<Rightarrow> bool" where
  "distinct_keys a b \<longleftrightarrow> fst a \<noteq> fst b \<and> fst (snd a) \<noteq> fst (snd b) \<and> snd (snd a) \<noteq> snd (snd b)"

text \<open>
  C6. Every image of an accepted collection, the collection and each member, is laid out
  soundly: its segments lie in the input and below the end of the address space, hold no more
  file bytes than memory, have no protection beyond their maximum, and no two of them share a
  byte of memory or of the file; the same for the sections in their segment; and the header lies
  in a segment, at the address the inspection reports.
\<close>

theorem inspect_images_wellformed:
  assumes "inspect_profile bytes profile = Inr insp"
  shows "\<forall>img \<in> set (collection_images insp). image_ok (length bytes) img"
  using inspect_profile_Inr(2,6) [OF assms] by (auto simp: collection_images_def members_done_def)

text \<open>
  C18. The members of an accepted collection: at least one and at most \<open>MAX_MEMBERS\<close>, no two with
  the same identifier, file offset or address; each has the processor subtype of the collection,
  its header and each of its segments lie in a segment of the collection, and the file bytes of
  a segment lie at the same displacement there as its addresses.
\<close>

theorem inspect_members_contained:
  assumes "inspect_profile bytes profile = Inr insp"
  shows "ki_members insp \<noteq> [] \<and> length (ki_members insp) \<le> MAX_MEMBERS \<and>
    pairwise_list distinct_keys (map member_key (ki_members insp)) \<and>
    (\<forall>m \<in> set (ki_members insp). member_in_collection (ki_collection insp) (fm_image m))"
proof -
  note I = inspect_profile_Inr [OF assms]
  obtain refs where refs: "map member_key (ki_members insp) = map reference_key refs"
    "pairwise_list distinct_members refs" "length refs \<le> MAX_MEMBERS"
    using I(7) by blast
  have "pairwise_list distinct_keys (map reference_key refs)"
    using refs(2) by (auto simp: pairwise_list_def distinct_members_def distinct_keys_def reference_key_def)
  moreover have "length (ki_members insp) = length refs" using refs(1) by (metis length_map)
  ultimately show ?thesis
    using refs I(5,6) by (auto simp: members_done_def)
qed

text \<open>
  The limits are limits of the whole inspection: added up over the collection and all its
  members, there are at most \<open>MAX_COMMANDS\<close> load commands, \<open>MAX_SEGMENTS\<close> segments and
  \<open>MAX_SECTIONS\<close> sections.
\<close>

theorem inspect_counts_bounded:
  assumes "inspect_profile bytes profile = Inr insp"
  shows "within_limits (total_counts (collection_images insp))"
  using inspect_profile_Inr(6) [OF assms] by (auto simp: members_done_def collection_images_def)

end
