(* ===== verification/Kc_Sample.thy ===== *)
theory Kc_Sample
  imports Kernel_Collection_Proofs
begin

text \<open>
  A small ARM64 collection with one member, written field by field, and its inspection by
  rewriting: the concrete input the properties of the collection components are instantiated on.
\<close>

section \<open>Reading fields\<close>

definition w32 :: "u32 \<Rightarrow> byte_string" where "w32 x = to_le_bytes x"
definition w64 :: "u64 \<Rightarrow> byte_string" where "w64 x = to_le_bytes x"

lemma length_w [simp]: "length (w32 x) = 4" "length (w64 y) = 8"
  by (simp_all add: w32_def w64_def)

lemma kc_slice_skip:
  "length xs \<le> n \<Longrightarrow> n + m < 2 ^ 64 \<Longrightarrow> kc_slice (xs @ ys) n m = kc_slice ys (n - length xs) m"
  by (auto simp: kc_slice_def usize_add_def get_range_def ok_or_def)

lemma kc_slice_here:
  "length xs = m \<Longrightarrow> m < 2 ^ 64 \<Longrightarrow> kc_slice (xs @ ys) 0 m = Inr xs"
  by (auto simp: kc_slice_def usize_add_def get_range_def)

lemma kc_u32_at_skip [simp]:
  "length xs \<le> n \<Longrightarrow> n + 4 < 2 ^ 64 \<Longrightarrow> kc_u32_at (xs @ ys) n = kc_u32_at ys (n - length xs)"
  by (simp add: kc_u32_at_def kc_slice_skip)

lemma kc_u64_at_skip [simp]:
  "length xs \<le> n \<Longrightarrow> n + 8 < 2 ^ 64 \<Longrightarrow> kc_u64_at (xs @ ys) n = kc_u64_at ys (n - length xs)"
  by (simp add: kc_u64_at_def kc_slice_skip)

lemma kc_u32_at_here [simp]: "kc_u32_at (w32 x @ ys) 0 = Inr x" "kc_u32_at (w32 x) 0 = Inr x"
  using kc_slice_here [of "w32 x" 4 ys] kc_slice_here [of "w32 x" 4 "[]"]
  by (simp_all add: kc_u32_at_def) (simp_all add: w32_def)

lemma kc_u64_at_here [simp]: "kc_u64_at (w64 x @ ys) 0 = Inr x" "kc_u64_at (w64 x) 0 = Inr x"
  using kc_slice_here [of "w64 x" 8 ys] kc_slice_here [of "w64 x" 8 "[]"]
  by (simp_all add: kc_u64_at_def) (simp_all add: w64_def)

section \<open>The input\<close>

definition header_bytes :: "u32 \<Rightarrow> u32 \<Rightarrow> u32 \<Rightarrow> byte_string" where
  "header_bytes file_type number command_bytes =
     w32 0xfeedfacf @ w32 0x0100000c @ w32 2 @ w32 file_type @ w32 number @ w32 command_bytes @ w32 0 @ w32 0"

definition segment_bytes :: "u64 \<Rightarrow> u64 \<Rightarrow> u64 \<Rightarrow> u64 \<Rightarrow> byte_string" where
  "segment_bytes address memory_size file_offset file_size =
     w32 0x19 @ w32 72 @ replicate 16 0x54 @ w64 address @ w64 memory_size @ w64 file_offset @ w64 file_size @
     w32 7 @ w32 5 @ w32 0 @ w32 0"

definition thread_bytes :: "u64 \<Rightarrow> byte_string" where
  "thread_bytes ip =
     w32 5 @ w32 288 @ w32 6 @ w32 68 @ replicate 248 0 @ w64 0 @ w64 ip @ w32 0 @ w32 0"

definition fileset_bytes :: "u64 \<Rightarrow> u64 \<Rightarrow> byte_string" where
  "fileset_bytes address offset =
     w32 0x80000035 @ w32 40 @ w64 address @ w64 offset @ w32 32 @ w32 0 @ [0x6b, 0] @ replicate 6 0"

definition SAMPLE_BASE :: u64 where "SAMPLE_BASE = 0xfffffe0010000000"

definition sample_outer_segment :: byte_string where
  "sample_outer_segment = segment_bytes SAMPLE_BASE 0x4000 0 536"

definition sample_thread :: byte_string where "sample_thread = thread_bytes (SAMPLE_BASE + 16)"
definition sample_fileset :: byte_string where "sample_fileset = fileset_bytes (SAMPLE_BASE + 432) 432"
definition sample_member_segment :: byte_string where
  "sample_member_segment = segment_bytes (SAMPLE_BASE + 432) 0x100 432 104"

definition sample_commands :: byte_string where
  "sample_commands = sample_outer_segment @ sample_thread @ sample_fileset"

definition sample_collection :: byte_string where
  "sample_collection =
     header_bytes 12 3 400 @ sample_commands @ header_bytes 2 1 72 @ sample_member_segment"

lemma length_parts [simp]:
  "length (header_bytes a b c) = 32" "length (segment_bytes d e f g) = 72"
  "length (thread_bytes d) = 288" "length (fileset_bytes d e) = 40"
  "length sample_outer_segment = 72" "length sample_thread = 288" "length sample_fileset = 40"
  "length sample_member_segment = 72" "length sample_commands = 400" "length sample_collection = 536"
  by (simp_all add: header_bytes_def segment_bytes_def thread_bytes_def fileset_bytes_def
      sample_outer_segment_def sample_thread_def sample_fileset_def sample_member_segment_def
      sample_commands_def sample_collection_def)

lemma sample_length: "length sample_collection < 2 ^ 64"
  by simp

lemma header_reads [simp]:
  "kc_u32_at (header_bytes a b c) 0 = Inr 0xfeedfacf" "kc_u32_at (header_bytes a b c) 4 = Inr 0x0100000c"
  "kc_u32_at (header_bytes a b c) 8 = Inr 2" "kc_u32_at (header_bytes a b c) 12 = Inr a"
  "kc_u32_at (header_bytes a b c) 16 = Inr b" "kc_u32_at (header_bytes a b c) 20 = Inr c"
  "kc_u32_at (header_bytes a b c) 24 = Inr 0" "kc_u32_at (header_bytes a b c) 28 = Inr 0"
  by (simp_all add: header_bytes_def)

lemma segment_reads [simp]:
  "kc_u32_at (segment_bytes a m f n) 0 = Inr 0x19" "kc_u32_at (segment_bytes a m f n) 4 = Inr 72"
  "kc_u32_at (segment_bytes a m f n) 64 = Inr 0" "kc_u64_at (segment_bytes a m f n) 24 = Inr a"
  "kc_u64_at (segment_bytes a m f n) 32 = Inr m" "kc_u64_at (segment_bytes a m f n) 40 = Inr f"
  "kc_u64_at (segment_bytes a m f n) 48 = Inr n" "kc_u32_at (segment_bytes a m f n) 56 = Inr 7"
  "kc_u32_at (segment_bytes a m f n) 60 = Inr 5" "kc_u32_at (segment_bytes a m f n) 68 = Inr 0"
  "take 16 (drop 8 (segment_bytes a m f n)) = replicate 16 0x54"
  by (simp_all add: segment_bytes_def)

lemma thread_reads [simp]:
  "kc_u32_at (thread_bytes ip) 0 = Inr 5" "kc_u32_at (thread_bytes ip) 4 = Inr 288"
  "kc_u32_at (thread_bytes ip) 8 = Inr 6" "kc_u32_at (thread_bytes ip) 12 = Inr 68"
  "kc_u64_at (thread_bytes ip) 264 = Inr 0" "kc_u64_at (thread_bytes ip) 272 = Inr ip"
  "kc_u32_at (thread_bytes ip) 280 = Inr 0" "kc_u32_at (thread_bytes ip) 284 = Inr 0"
  by (simp_all add: thread_bytes_def)

lemma fileset_reads [simp]:
  "kc_u32_at (fileset_bytes a f) 0 = Inr 0x80000035" "kc_u32_at (fileset_bytes a f) 4 = Inr 40"
  "kc_u64_at (fileset_bytes a f) 8 = Inr a" "kc_u64_at (fileset_bytes a f) 16 = Inr f"
  "kc_u32_at (fileset_bytes a f) 24 = Inr 32" "kc_u32_at (fileset_bytes a f) 28 = Inr 0"
  "drop 32 (fileset_bytes a f) = 0x6b # 0 # replicate 6 0"
  by (simp_all add: fileset_bytes_def)

section \<open>Its inspection\<close>

definition sample_segment :: "u64 \<Rightarrow> u64 \<Rightarrow> u64 \<Rightarrow> u64 \<Rightarrow> segment_metadata" where
  "sample_segment a m f n =
     \<lparr> seg_name = replicate 16 0x54, seg_address = a, seg_memory_size = m,
       seg_file = \<lparr> fr_offset = f, fr_size = n \<rparr>, seg_maximum_protection = 7,
       seg_initial_protection = 5, seg_flags = 0, seg_sections = [] \<rparr>"

lemma kc_range_sample:
  assumes "unat off + unat n \<le> length sample_collection"
  shows "kc_range sample_collection off n = Inr (take (unat n) (drop (unat off) sample_collection))"
  using assms kc_range_Inr [OF sample_length] by blast

lemma kc_file_range_sample:
  assumes "unat off + unat n \<le> length sample_collection"
  shows "kc_file_range sample_collection off n 1 = Inr \<lparr> fr_offset = off, fr_size = n \<rparr>"
  using assms kc_range_sample [OF assms] by (simp add: kc_file_range_def checked_mul_def)

lemma parse_segment_sample:
  assumes "unat f + unat n \<le> length sample_collection" and "unat a + unat m < 2 ^ 64" and "n \<le> m"
    and "bu_sections b \<le> MAX_SECTIONS"
  shows "parse_segment sample_collection (segment_bytes a m f n) b = Inr (sample_segment a m f n, b)"
proof -
  have "kc_slice (segment_bytes a m f n) 0 72 = Inr (segment_bytes a m f n)"
    using kc_slice_here [of "segment_bytes a m f n" 72 "[]"] by simp
  moreover have "drop 72 (segment_bytes a m f n) = []" by simp
  moreover have "kc_end a m = Inr (a + m)" using assms(2) by (simp add: kc_end_def checked_add_def)
  moreover have "add_budget (bu_sections b) 0 MAX_SECTIONS = Inr (bu_sections b)"
    using assms(4) by (simp add: add_budget_def usize_add_def MAX_SECTIONS_def)
  ultimately show ?thesis
    using assms(3) kc_file_range_sample [OF assms(1)]
    by (simp add: parse_segment_def sample_segment_def)
qed

definition sample_outer :: image_metadata where
  "sample_outer = \<lparr> im_cpu_type = 0x0100000c, im_cpu_subtype = 2, im_header_file_offset = 0,
     im_header_address = SAMPLE_BASE, im_file_type = 12, im_flags = 0, im_command_count = 3,
     im_command_bytes = 400, im_segments = [sample_segment SAMPLE_BASE 0x4000 0 536],
     im_entry = Some (ArmThread64 (SAMPLE_BASE + 16) 0 0 0), im_relocations = None,
     im_chained_fixups = None \<rparr>"

definition sample_member :: image_metadata where
  "sample_member = \<lparr> im_cpu_type = 0x0100000c, im_cpu_subtype = 2, im_header_file_offset = 432,
     im_header_address = SAMPLE_BASE + 432, im_file_type = 2, im_flags = 0, im_command_count = 1,
     im_command_bytes = 72, im_segments = [sample_segment (SAMPLE_BASE + 432) 0x100 432 104],
     im_entry = None, im_relocations = None, im_chained_fixups = None \<rparr>"

definition sample_reference :: member_reference where
  "sample_reference = \<lparr> mr_identifier = [0x6b], mr_offset = 432, mr_address = SAMPLE_BASE + 432 \<rparr>"

lemma commands_reads:
  "kc_slice sample_commands 0 72 = Inr sample_outer_segment"
  "kc_slice sample_commands 72 288 = Inr sample_thread"
  "kc_slice sample_commands 360 40 = Inr sample_fileset"
  "kc_u32_at sample_commands 0 = Inr 0x19" "kc_u32_at sample_commands 4 = Inr 72"
  "kc_u32_at sample_commands 72 = Inr 5" "kc_u32_at sample_commands 76 = Inr 288"
  "kc_u32_at sample_commands 360 = Inr 0x80000035" "kc_u32_at sample_commands 364 = Inr 40"
proof -
  have r: "kc_slice (xs @ ys) 0 4 = kc_slice xs 0 4" "kc_slice (xs @ ys) 4 4 = kc_slice xs 4 4"
    if "8 \<le> length xs" for xs ys
    using that by (auto simp: kc_slice_def usize_add_def get_range_def)
  have a: "kc_u32_at (sample_outer_segment @ ys) 0 = kc_u32_at sample_outer_segment 0"
    "kc_u32_at (sample_outer_segment @ ys) 4 = kc_u32_at sample_outer_segment 4"
    "kc_u32_at (sample_thread @ ys) 0 = kc_u32_at sample_thread 0"
    "kc_u32_at (sample_thread @ ys) 4 = kc_u32_at sample_thread 4" for ys
    unfolding kc_u32_at_def by (simp_all add: r)
  have b: "kc_slice sample_fileset 0 40 = Inr sample_fileset"
    using kc_slice_here [of sample_fileset 40 "[]"] by simp
  show "kc_slice sample_commands 0 72 = Inr sample_outer_segment"
    "kc_slice sample_commands 72 288 = Inr sample_thread"
    "kc_slice sample_commands 360 40 = Inr sample_fileset"
    by (simp_all add: sample_commands_def kc_slice_here kc_slice_skip b)
  show "kc_u32_at sample_commands 0 = Inr 0x19" "kc_u32_at sample_commands 4 = Inr 72"
    by (simp_all add: sample_commands_def a) (simp_all add: sample_outer_segment_def)
  show "kc_u32_at sample_commands 72 = Inr 5" "kc_u32_at sample_commands 76 = Inr 288"
    by (simp_all add: sample_commands_def a) (simp_all add: sample_thread_def)
  show "kc_u32_at sample_commands 360 = Inr 0x80000035" "kc_u32_at sample_commands 364 = Inr 40"
    by (simp_all add: sample_commands_def) (simp_all add: sample_fileset_def)
qed

lemma sample_parts:
  "kc_range sample_collection 0 32 = Inr (header_bytes 12 3 400)"
  "kc_range sample_collection 32 400 = Inr sample_commands"
  "kc_range sample_collection 432 32 = Inr (header_bytes 2 1 72)"
  "kc_range sample_collection 464 72 = Inr sample_member_segment"
  by (simp_all add: kc_range_sample) (simp_all add: sample_collection_def)

definition sample_budget :: "nat \<Rightarrow> nat \<Rightarrow> kc_budget" where
  "sample_budget c s = \<lparr> bu_commands = c, bu_segments = s, bu_sections = 0 \<rparr>"

lemma parse_commands_step:
  assumes "kc_u32_at commands offset = Inr kind" and "kc_u32_at commands (offset + 4) = Inr n32"
    and "8 \<le> unat n32" and "unat n32 mod 8 = 0" and "kc_slice commands offset (unat n32) = Inr cmd"
    and "parse_command bs outer profile kind cmd st = Inr st1" and "offset + unat n32 < 2 ^ 64"
  shows "parse_commands bs commands outer profile (Suc n) offset st =
    parse_commands bs commands outer profile n (offset + unat n32) st1"
  using assms by (simp add: Let_def usize_add_def)

definition sample_outer_state :: command_state where
  "sample_outer_state =
     \<lparr> cs_segments = [sample_segment SAMPLE_BASE 0x4000 0 536], cs_members = [sample_reference],
       cs_entry = Some (ArmThread64 (SAMPLE_BASE + 16) 0 0 0), cs_symtab = None, cs_dysymtab = None,
       cs_fixup_range = None, cs_linkedit_ranges = [], cs_budget = sample_budget 3 1 \<rparr>"

lemma sample_outer_commands:
  "parse_commands sample_collection sample_commands True Arm64 3 0 (initial_command_state (sample_budget 3 0)) =
   Inr (sample_outer_state, 400)"
proof -
  let ?s1 = "(initial_command_state (sample_budget 3 0))\<lparr> cs_segments := [sample_segment SAMPLE_BASE 0x4000 0 536],
      cs_budget := sample_budget 3 1 \<rparr>"
  let ?s2 = "?s1\<lparr> cs_entry := Some (ArmThread64 (SAMPLE_BASE + 16) 0 0 0) \<rparr>"
  have "parse_segment sample_collection sample_outer_segment (sample_budget 3 1) =
    Inr (sample_segment SAMPLE_BASE 0x4000 0 536, sample_budget 3 1)"
    unfolding sample_outer_segment_def
    by (rule parse_segment_sample) (simp_all add: SAMPLE_BASE_def sample_budget_def)
  then have c1: "parse_command sample_collection True Arm64 0x19 sample_outer_segment
      (initial_command_state (sample_budget 3 0)) = Inr ?s1"
    by (simp add: parse_command_def segment_command_def add_budget_def usize_add_def MAX_SEGMENTS_def
        initial_command_state_def sample_budget_def)
  have c2: "parse_command sample_collection True Arm64 5 sample_thread ?s1 = Inr ?s2"
    by (simp add: parse_command_def thread_command_def thread_entry_def sample_thread_def set_entry_def
        initial_command_state_def)
  have c3: "parse_command sample_collection True Arm64 0x80000035 sample_fileset ?s2 = Inr sample_outer_state"
    by (simp add: parse_command_def fileset_command_def sample_fileset_def initial_command_state_def
        MAX_MEMBERS_def MAX_IDENTIFIER_def Let_def sample_parts sample_outer_state_def sample_reference_def)
  let ?run = "\<lambda>n offset st. parse_commands sample_collection sample_commands True Arm64 n offset st"
  have "?run (Suc 2) 0 (initial_command_state (sample_budget 3 0)) = ?run 2 (0 + unat (72 :: u32)) ?s1"
    by (rule parse_commands_step [OF commands_reads(4) _ _ _ _ c1]) (simp_all add: commands_reads)
  moreover have "?run (Suc 1) 72 ?s1 = ?run 1 (72 + unat (288 :: u32)) ?s2"
    by (rule parse_commands_step [OF commands_reads(6) _ _ _ _ c2]) (simp_all add: commands_reads)
  moreover have "?run (Suc 0) 360 ?s2 = ?run 0 (360 + unat (40 :: u32)) sample_outer_state"
    by (rule parse_commands_step [OF commands_reads(8) _ _ _ _ c3]) (simp_all add: commands_reads)
  moreover have "Suc 2 = 3" "Suc 1 = 2" "Suc 0 = 1" "0 + unat (72 :: u32) = 72"
    "72 + unat (288 :: u32) = 360" "360 + unat (40 :: u32) = 400" by simp_all
  ultimately have "?run 3 0 (initial_command_state (sample_budget 3 0)) = ?run 0 400 sample_outer_state"
    by (simp only:)
  then show ?thesis by (simp only: parse_commands.simps)
qed

lemma kc_contains_sample:
  "kc_contains \<lparr> fr_offset = a, fr_size = n \<rparr> \<lparr> fr_offset = b, fr_size = m \<rparr> \<longleftrightarrow>
   unat a \<le> unat b \<and> unat b + unat m \<le> unat a + unat n \<and> unat b + unat m < 2 ^ 64 \<and> unat a + unat n < 2 ^ 64"
  by (auto simp: kc_contains_nat fr_within_def fr_exact_def fr_first_def fr_last_def)

lemma sample_outer_parsed:
  "parse_image sample_collection 0 True Arm64 empty_budget =
   Inr (\<lparr> pi_image = sample_outer, pi_members = [sample_reference] \<rparr>, sample_budget 3 1)"
proof -
  have "finish_image sample_collection 0 (header_bytes 12 3 400) 0x0100000c 2 12 3 400 sample_outer_state =
    Inr \<lparr> pi_image = sample_outer, pi_members = [sample_reference] \<rparr>"
    by (simp add: finish_image_def sample_outer_state_def Let_def validate_nonoverlap_def sample_segment_def
        header_address_in_def kc_contains_sample checked_add_def SAMPLE_BASE_def sample_outer_def)
  moreover have "kc_end 0 32 = Inr 32" by (simp add: kc_end_def checked_add_def)
  moreover have "empty_budget\<lparr> bu_commands := 3 \<rparr> = sample_budget 3 0"
    by (simp add: empty_budget_def sample_budget_def)
  moreover have "add_budget (bu_commands empty_budget) 3 MAX_COMMANDS = Inr 3"
    by (simp add: add_budget_def usize_add_def empty_budget_def MAX_COMMANDS_def)
  moreover have "cs_segments sample_outer_state \<noteq> []" "cs_budget sample_outer_state = sample_budget 3 1"
    by (simp_all add: sample_outer_state_def)
  ultimately show ?thesis
    by (simp add: parse_image_def sample_parts valid_cpu_def Let_def MAX_COMMAND_BYTES_def sample_outer_commands)
qed

definition sample_member_state :: command_state where
  "sample_member_state =
     \<lparr> cs_segments = [sample_segment (SAMPLE_BASE + 432) 0x100 432 104], cs_members = [],
       cs_entry = None, cs_symtab = None, cs_dysymtab = None,
       cs_fixup_range = None, cs_linkedit_ranges = [], cs_budget = sample_budget 4 2 \<rparr>"

lemma sample_member_commands:
  "parse_commands sample_collection sample_member_segment False Arm64 1 0
     (initial_command_state (sample_budget 4 1)) = Inr (sample_member_state, 72)"
proof -
  have "parse_segment sample_collection sample_member_segment (sample_budget 4 2) =
    Inr (sample_segment (SAMPLE_BASE + 432) 0x100 432 104, sample_budget 4 2)"
    unfolding sample_member_segment_def
    by (rule parse_segment_sample) (simp_all add: SAMPLE_BASE_def sample_budget_def)
  then have "parse_command sample_collection False Arm64 0x19 sample_member_segment
      (initial_command_state (sample_budget 4 1)) = Inr sample_member_state"
    by (simp add: parse_command_def segment_command_def add_budget_def usize_add_def MAX_SEGMENTS_def
        initial_command_state_def sample_budget_def sample_member_state_def flip: numeral_2_eq_2)
  moreover have "kc_slice sample_member_segment 0 72 = Inr sample_member_segment"
    using kc_slice_here [of sample_member_segment 72 "[]"] by simp
  moreover have "kc_u32_at sample_member_segment 0 = Inr 0x19" "kc_u32_at sample_member_segment 4 = Inr 72"
    by (simp_all add: sample_member_segment_def)
  ultimately show ?thesis by (simp add: Let_def usize_add_def)
qed

lemma sample_member_parsed:
  "parse_image sample_collection 432 False Arm64 (sample_budget 3 1) =
   Inr (\<lparr> pi_image = sample_member, pi_members = [] \<rparr>, sample_budget 4 2)"
proof -
  have "finish_image sample_collection 432 (header_bytes 2 1 72) 0x0100000c 2 2 1 72 sample_member_state =
    Inr \<lparr> pi_image = sample_member, pi_members = [] \<rparr>"
    by (simp add: finish_image_def sample_member_state_def Let_def validate_nonoverlap_def sample_segment_def
        header_address_in_def kc_contains_sample checked_add_def SAMPLE_BASE_def sample_member_def)
  moreover have "kc_end 432 32 = Inr 464" by (simp add: kc_end_def checked_add_def)
  moreover have "(sample_budget 3 1)\<lparr> bu_commands := 4 \<rparr> = sample_budget 4 1"
    by (simp add: sample_budget_def)
  moreover have "add_budget (bu_commands (sample_budget 3 1)) 1 MAX_COMMANDS = Inr 4"
    by (simp add: add_budget_def usize_add_def sample_budget_def MAX_COMMANDS_def)
  moreover have "cs_segments sample_member_state \<noteq> []" "cs_budget sample_member_state = sample_budget 4 2"
    by (simp_all add: sample_member_state_def)
  ultimately show ?thesis
    using sample_member_commands
    by (simp add: parse_image_def sample_parts valid_cpu_def Let_def MAX_COMMAND_BYTES_def
        del: parse_commands.simps)
qed

definition sample_inspection :: kc_metadata_inspection where
  "sample_inspection = \<lparr> ki_collection = sample_outer,
     ki_members = [\<lparr> fm_identifier = [0x6b], fm_image = sample_member \<rparr>],
     ki_requirements = [CollectionPlacement, KernelEntryAbi, PlatformHandoffProviders] \<rparr>"

lemma sample_inspected: "inspect_profile sample_collection Arm64 = Inr sample_inspection"
proof -
  have entry: "validate_collection_entry sample_outer = Inr ()"
    by (simp add: validate_collection_entry_def sample_outer_def entry_in_segment_def sample_segment_def
        SAMPLE_BASE_def checked_sub_def checked_add_def)
  have view: "is_collection_view (im_segments sample_outer) \<lparr> fr_offset = 432, fr_size = n \<rparr> (SAMPLE_BASE + 432)"
    if "unat n \<le> 104" for n
    using that by (simp add: is_collection_view_def sample_outer_def sample_segment_def kc_contains_sample
        checked_sub_def SAMPLE_BASE_def)
  have "check_member_segment (im_segments sample_outer) (sample_segment (SAMPLE_BASE + 432) 0x100 432 104) = Inr ()"
    using view [of 104]
    by (simp add: check_member_segment_def sample_segment_def memory_range_def kc_contains_sample
        SAMPLE_BASE_def sample_outer_def)
  then have "inspect_member sample_collection Arm64 sample_outer ([], sample_budget 3 1) sample_reference =
    Inr ([\<lparr> fm_identifier = [0x6b], fm_image = sample_member \<rparr>], sample_budget 4 2)"
    using view [of 104] sample_member_parsed
    by (simp add: inspect_member_def sample_reference_def Let_def) (simp add: sample_member_def sample_outer_def)
  moreover have "foldl require_image [CollectionPlacement, KernelEntryAbi, PlatformHandoffProviders]
      [sample_outer, sample_member] = [CollectionPlacement, KernelEntryAbi, PlatformHandoffProviders]"
    by (simp add: require_image_def sample_outer_def sample_member_def sample_segment_def)
  ultimately show ?thesis
    by (simp add: inspect_profile_def MAX_INPUT_SIZE_def sample_outer_parsed entry sample_inspection_def)
qed

end
