(* ===== verification/Kc_Staging.thy ===== *)
theory Kc_Staging
  imports Kernel_Collection
begin

text \<open>
  Model of \<^verbatim>\<open>src/kc_staging.rs\<close>: the plan that lays an inspected collection out in an arena, the
  copy into a destination, and the readback. A slice index that fails would panic: \<open>KS_Panic\<close>.
  The allocator is the argument \<open>R\<close>, asked with what is to be reserved. The observer of a
  staging call is the list of the phases it is told of, in their order.

  \<^verbatim>\<open>align_to\<close> splits a slice where its address is aligned: the argument \<open>al\<close> gives the length
  of the unaligned prefix of the slice from one offset of the arena to another. 64-bit words are
  read in the byte order of the targets, which is little-endian.
\<close>

section \<open>Data\<close>

definition STAGING_PAGE_SIZE :: u64 where "STAGING_PAGE_SIZE = 4096"
definition ARM64_STAGING_PAGE_SIZE :: u64 where "ARM64_STAGING_PAGE_SIZE = 16 * 1024"
definition MAX_STAGING_SIZE :: nat where "MAX_STAGING_SIZE = 128 * 1024 * 1024"

datatype kc_staging_error =
    KS_Metadata kc_metadata_error
  | KS_EmptyImage
  | KS_AddressOverflow
  | KS_ArenaTooLarge
  | KS_AllocationFailed
  | KS_DestinationSize
  | KS_InvalidMapping
  | KS_ReadbackMismatch
  | KS_Panic \<comment> \<open>a slice index that fails; not a value of the source's enum\<close>

record staging_segment =
  ss_collection_segment_index :: nat
  ss_virtual_address :: u64
  ss_destination_offset :: nat
  ss_memory_size :: nat
  ss_file_offset :: nat
  ss_file_size :: nat
  ss_initial_protection :: u32
  ss_maximum_protection :: u32

record member_view =
  mv_destination_offset :: nat
  mv_memory_size :: nat
  mv_file_offset :: nat
  mv_file_size :: nat
  mv_is_header :: bool

record staging_verification =
  sv_arena_bytes :: nat
  sv_copied_bytes :: nat
  sv_zero_tail_bytes :: nat
  sv_hole_bytes :: nat
  sv_member_headers_checked :: nat
  sv_member_segment_views_checked :: nat
  sv_member_file_bytes_compared :: nat

datatype kc_staging_phase =
    DestinationInitialized
  | SegmentsCopied
  | ArenaVerified
  | MemberViewsVerified

record kc_staging_plan =
  sp_source :: byte_string
  sp_inspection :: kc_metadata_inspection
  sp_segments :: "staging_segment list"
  sp_member_views :: "member_view list"
  sp_minimum_virtual_address :: u64
  sp_arena_size :: nat
  sp_collection_header_offset :: nat
  sp_outer_entry_offset :: nat
  sp_page_size :: u64

record staged_kc =
  sk_plan :: kc_staging_plan
  sk_bytes :: byte_string
  sk_verification :: staging_verification

definition sp_preparation_ready :: "kc_staging_plan \<Rightarrow> bool" where
  "sp_preparation_ready plan \<longleftrightarrow> False"

definition sk_preparation_ready :: "staged_kc \<Rightarrow> bool" where
  "sk_preparation_ready staged \<longleftrightarrow> False"

text \<open>What is asked of the allocator, with the number of elements.\<close>

datatype staging_reservation = Reserve_Segments nat | Reserve_Views nat | Reserve_Arena nat

section \<open>Planning\<close>

definition relative_range :: "u64 \<Rightarrow> u64 \<Rightarrow> u64 \<Rightarrow> nat \<Rightarrow> kc_staging_error + nat" where
  "relative_range address n base arena =
     and_then (ok_or (checked_sub address base) KS_InvalidMapping) (\<lambda>start.
     and_then (ok_or (checked_add start n) KS_AddressOverflow) (\<lambda>stop.
     if arena < unat stop then Inl KS_InvalidMapping else Inr (unat start)))"

definition source_range :: "byte_string \<Rightarrow> u64 \<Rightarrow> u64 \<Rightarrow> kc_staging_error + nat" where
  "source_range source offset n =
     and_then (ok_or (checked_add offset n) KS_AddressOverflow) (\<lambda>stop.
     if length source < unat stop then Inl KS_InvalidMapping else Inr (unat offset))"

definition view ::
  "byte_string \<Rightarrow> staging_segment list \<Rightarrow> u64 \<Rightarrow> nat \<Rightarrow> u64 \<Rightarrow> u64 \<Rightarrow> u64 \<Rightarrow> u64 \<Rightarrow> bool \<Rightarrow>
   kc_staging_error + member_view" where
  "view source segments base arena address memory_size64 file_offset64 file_size64 is_header =
     and_then (relative_range address memory_size64 base arena) (\<lambda>destination_offset.
     and_then (source_range source file_offset64 file_size64) (\<lambda>file_offset.
     let memory_size = unat memory_size64; file_size = unat file_size64 in
     if memory_size < file_size \<or>
        \<not> list_ex (\<lambda>outer.
            ss_destination_offset outer \<le> destination_offset \<and>
            destination_offset + memory_size \<le> ss_destination_offset outer + ss_memory_size outer \<and>
            (file_size = 0 \<or>
             (ss_file_offset outer \<le> file_offset \<and>
              file_offset + file_size \<le> ss_file_offset outer + ss_file_size outer \<and>
              destination_offset - ss_destination_offset outer = file_offset - ss_file_offset outer)))
          segments
     then Inl KS_InvalidMapping
     else Inr \<lparr> mv_destination_offset = destination_offset, mv_memory_size = memory_size,
                mv_file_offset = file_offset, mv_file_size = file_size, mv_is_header = is_header \<rparr>))"

text \<open>The lowest address and the highest end of the segments that take memory.\<close>

definition widen ::
  "u64 \<times> u64 \<Rightarrow> segment_metadata \<Rightarrow> kc_staging_error + u64 \<times> u64" where
  "widen bounds segm =
     (case bounds of (first, last_end) \<Rightarrow>
      and_then (ok_or (checked_add (seg_address segm) (seg_memory_size segm)) KS_AddressOverflow) (\<lambda>stop.
      Inr (min first (seg_address segm), max last_end stop)))"

definition plan_segment ::
  "byte_string \<Rightarrow> u64 \<Rightarrow> nat \<Rightarrow> nat \<times> segment_metadata \<Rightarrow> kc_staging_error + staging_segment" where
  "plan_segment source minimum_virtual_address arena_size = (\<lambda>(index, segm).
     and_then (relative_range (seg_address segm) (seg_memory_size segm) minimum_virtual_address arena_size)
       (\<lambda>destination_offset.
     and_then (source_range source (fr_offset (seg_file segm)) (fr_size (seg_file segm))) (\<lambda>file_offset.
     Inr \<lparr> ss_collection_segment_index = index, ss_virtual_address = seg_address segm,
            ss_destination_offset = destination_offset, ss_memory_size = unat (seg_memory_size segm),
            ss_file_offset = file_offset, ss_file_size = unat (fr_size (seg_file segm)),
            ss_initial_protection = seg_initial_protection segm,
            ss_maximum_protection = seg_maximum_protection segm \<rparr>)))"

definition check_staging_pair :: "staging_segment \<Rightarrow> staging_segment \<Rightarrow> kc_staging_error + unit" where
  "check_staging_pair a b =
     (if ss_destination_offset b < ss_destination_offset a + ss_memory_size a
      then Inl KS_InvalidMapping else Inr ())"

definition plan_entry :: "entry_metadata option \<Rightarrow> kc_staging_error + u64" where
  "plan_entry entry =
     (case entry of
        Some (UnixThread64 ip) \<Rightarrow> Inr ip
      | Some (ArmThread64 ip _ _ _) \<Rightarrow> Inr ip
      | _ \<Rightarrow> Inl KS_InvalidMapping)"

definition count_views :: "nat \<Rightarrow> fileset_member \<Rightarrow> kc_staging_error + nat" where
  "count_views total_views member =
     (case usize_add total_views 1 of
        None \<Rightarrow> Inl KS_AddressOverflow
      | Some n \<Rightarrow> ok_or (usize_add n (length (im_segments (fm_image member)))) KS_AddressOverflow)"

definition member_views ::
  "byte_string \<Rightarrow> staging_segment list \<Rightarrow> u64 \<Rightarrow> nat \<Rightarrow> fileset_member \<Rightarrow>
   kc_staging_error + member_view list" where
  "member_views source segments base arena member =
     (let img = fm_image member;
          header_size = 32 + ucast (im_command_bytes img)
      in
      and_then (view source segments base arena (im_header_address img) header_size
         (im_header_file_offset img) header_size True) (\<lambda>header.
      and_then (try_map (\<lambda>segm. view source segments base arena (seg_address segm) (seg_memory_size segm)
           (fr_offset (seg_file segm)) (fr_size (seg_file segm)) False)
         (filter (\<lambda>segm. seg_memory_size segm \<noteq> 0) (im_segments img))) (\<lambda>views.
      Inr (header # views))))"

definition from_inspection ::
  "(staging_reservation \<Rightarrow> bool) \<Rightarrow> byte_string \<Rightarrow> kc_metadata_inspection \<Rightarrow> u64 \<Rightarrow>
   kc_staging_error + kc_staging_plan" where
  "from_inspection R source inspection page_size =
     (let collection = ki_collection inspection in
      and_then (try_fold widen (0xffffffffffffffff, 0)
         (filter (\<lambda>s. seg_memory_size s \<noteq> 0) (im_segments collection))) (\<lambda>(first, last_end).
      if first = 0xffffffffffffffff \<or> last_end \<le> first then Inl KS_EmptyImage
      else
      let minimum_virtual_address = first AND NOT (page_size - 1) in
      and_then (ok_or (checked_add last_end (page_size - 1)) KS_AddressOverflow) (\<lambda>padded.
      let rounded_end = padded AND NOT (page_size - 1) in
      and_then (ok_or (checked_sub rounded_end minimum_virtual_address) KS_AddressOverflow) (\<lambda>span.
      if span = 0 \<or> MAX_STAGING_SIZE < unat span \<or> 2 ^ 63 - 1 < unat span then Inl KS_ArenaTooLarge
      else
      let arena_size = unat span in
      if \<not> R (Reserve_Segments (length (im_segments collection))) then Inl KS_AllocationFailed
      else
      and_then (try_map (plan_segment source minimum_virtual_address arena_size)
         (filter (\<lambda>(_, segm). seg_memory_size segm \<noteq> 0) (enumerate 0 (im_segments collection)))) (\<lambda>unsorted.
      let segments = sort_key ss_destination_offset unsorted in
      and_then (for_windows check_staging_pair segments) (\<lambda>_.
      let header_size = 32 + ucast (im_command_bytes collection) in
      and_then (relative_range (im_header_address collection) header_size minimum_virtual_address arena_size)
        (\<lambda>collection_header_offset.
      and_then (plan_entry (im_entry collection)) (\<lambda>entry.
      and_then (relative_range entry 1 minimum_virtual_address arena_size) (\<lambda>outer_entry_offset.
      and_then (try_fold count_views 0 (ki_members inspection)) (\<lambda>view_count.
      if \<not> R (Reserve_Views view_count) then Inl KS_AllocationFailed
      else
      and_then (try_map (member_views source segments minimum_virtual_address arena_size)
         (ki_members inspection)) (\<lambda>views.
      Inr \<lparr> sp_source = source, sp_inspection = inspection, sp_segments = segments,
             sp_member_views = sort_key mv_destination_offset (concat views),
             sp_minimum_virtual_address = minimum_virtual_address, sp_arena_size = arena_size,
             sp_collection_header_offset = collection_header_offset,
             sp_outer_entry_offset = outer_entry_offset, sp_page_size = page_size \<rparr>)))))))))))"

definition staging_new :: "(staging_reservation \<Rightarrow> bool) \<Rightarrow> byte_string \<Rightarrow> kc_staging_error + kc_staging_plan" where
  "staging_new R source =
     and_then (map_err KS_Metadata (inspect_kernel_collection source)) (\<lambda>inspection.
     from_inspection R source inspection STAGING_PAGE_SIZE)"

definition staging_new_arm64 :: "(staging_reservation \<Rightarrow> bool) \<Rightarrow> byte_string \<Rightarrow> kc_staging_error + kc_staging_plan" where
  "staging_new_arm64 R source =
     and_then (map_err KS_Metadata (inspect_arm64_kernel_collection source)) (\<lambda>inspection.
     from_inspection R source inspection ARM64_STAGING_PAGE_SIZE)"

section \<open>Readback\<close>

text \<open>The byte expected at an offset; without a source, zero.\<close>

definition expected_byte :: "byte_string option \<Rightarrow> nat \<Rightarrow> 8 word" where
  "expected_byte expected offset = (case expected of None \<Rightarrow> 0 | Some bytes \<Rightarrow> bytes ! offset)"

definition expected_word :: "byte_string option \<Rightarrow> nat \<Rightarrow> u64" where
  "expected_word expected offset =
     (case expected of None \<Rightarrow> 0 | Some bytes \<Rightarrow> from_le_bytes (take 8 (drop offset bytes)))"

fun readback_bytes :: "byte_string \<Rightarrow> nat \<Rightarrow> byte_string option \<Rightarrow> bool" where
  "readback_bytes [] offset expected = True"
| "readback_bytes (byte # bytes) offset expected =
     (if byte \<noteq> expected_byte expected offset then False
      else readback_bytes bytes (offset + 1) expected)"

fun readback_words :: "byte_string list \<Rightarrow> nat \<Rightarrow> byte_string option \<Rightarrow> bool" where
  "readback_words [] offset expected = True"
| "readback_words (w # words) offset expected =
     (if from_le_bytes w \<noteq> expected_word expected offset then False
      else readback_words words (offset + 8) expected)"

definition readback :: "nat \<Rightarrow> byte_string \<Rightarrow> byte_string option \<Rightarrow> bool" where
  "readback unaligned actual expected =
     (if (case expected of None \<Rightarrow> False | Some bytes \<Rightarrow> length bytes \<noteq> length actual) then False
      else
      let prefix = take unaligned actual;
          aligned = drop unaligned actual;
          words = chunks_exact 8 aligned (length aligned div 8);
          suffix = drop (length aligned div 8 * 8) aligned
      in readback_bytes prefix 0 expected \<and>
         readback_words words (length prefix) expected \<and>
         readback_bytes suffix (length prefix + length words * 8) expected)"

text \<open>The readback of \<^verbatim>\<open>destination[a..b]\<close> against \<^verbatim>\<open>source[c..d]\<close> or zeros; \<open>None\<close> is a panic.\<close>

definition readback_range ::
  "(nat \<Rightarrow> nat \<Rightarrow> nat) \<Rightarrow> byte_string \<Rightarrow> nat \<Rightarrow> nat \<Rightarrow> byte_string option \<Rightarrow> bool option" where
  "readback_range al destination a b expected =
     map_option (\<lambda>actual. readback (al a b) actual expected) (get_range destination a b)"

section \<open>Verification\<close>

record verify_state =
  vs_result :: staging_verification
  vs_previous_end :: nat

definition verify_segment ::
  "(nat \<Rightarrow> nat \<Rightarrow> nat) \<Rightarrow> byte_string \<Rightarrow> byte_string \<Rightarrow> verify_state \<Rightarrow> staging_segment \<Rightarrow>
   kc_staging_error + verify_state" where
  "verify_segment al source destination st segm =
     (let start = ss_destination_offset segm;
          copied_end = start + ss_file_size segm;
          memory_end = start + ss_memory_size segm
      in
      and_then (ok_or (readback_range al destination (vs_previous_end st) start None) KS_Panic) (\<lambda>hole_ok.
      if \<not> hole_ok then Inl KS_ReadbackMismatch
      else
      and_then (ok_or (get_range source (ss_file_offset segm) (ss_file_offset segm + ss_file_size segm)) KS_Panic)
        (\<lambda>file.
      and_then (ok_or (readback_range al destination start copied_end (Some file)) KS_Panic) (\<lambda>copied_ok.
      if \<not> copied_ok then Inl KS_ReadbackMismatch
      else
      and_then (ok_or (readback_range al destination copied_end memory_end None) KS_Panic) (\<lambda>tail_ok.
      if \<not> tail_ok then Inl KS_ReadbackMismatch
      else
      let result = vs_result st in
      Inr \<lparr> vs_result = result\<lparr>
              sv_copied_bytes := sv_copied_bytes result + ss_file_size segm,
              sv_zero_tail_bytes := sv_zero_tail_bytes result + (ss_memory_size segm - ss_file_size segm),
              sv_hole_bytes := sv_hole_bytes result + (start - vs_previous_end st) \<rparr>,
             vs_previous_end = memory_end \<rparr>)))))"

record view_state =
  ws_result :: staging_verification
  ws_covered_end :: nat

definition verify_view ::
  "(nat \<Rightarrow> nat \<Rightarrow> nat) \<Rightarrow> byte_string \<Rightarrow> byte_string \<Rightarrow> view_state \<Rightarrow> member_view \<Rightarrow>
   kc_staging_error + view_state" where
  "verify_view al source destination st v =
     (if length destination < mv_destination_offset v + mv_memory_size v then Inl KS_ReadbackMismatch
      else
      let view_file_end = mv_destination_offset v + mv_file_size v;
          compare_start = max (ws_covered_end st) (mv_destination_offset v);
          result = ws_result st
      in
      and_then
        (if compare_start < view_file_end then
           let skipped = compare_start - mv_destination_offset v in
           and_then (ok_or (get_range source (mv_file_offset v + skipped) (mv_file_offset v + mv_file_size v))
             KS_Panic) (\<lambda>file.
           and_then (ok_or (readback_range al destination compare_start view_file_end (Some file)) KS_Panic)
             (\<lambda>ok.
           if \<not> ok then Inl KS_ReadbackMismatch
           else
           and_then (ok_or (usize_add (sv_member_file_bytes_compared result) (view_file_end - compare_start))
             KS_AddressOverflow) (\<lambda>compared.
           Inr (result\<lparr> sv_member_file_bytes_compared := compared \<rparr>))))
         else Inr result) (\<lambda>result.
      Inr \<lparr> ws_result =
              (if mv_is_header v
               then result\<lparr> sv_member_headers_checked := sv_member_headers_checked result + 1 \<rparr>
               else result\<lparr> sv_member_segment_views_checked := sv_member_segment_views_checked result + 1 \<rparr>),
             ws_covered_end = max (ws_covered_end st) view_file_end \<rparr>))"

definition verify_segments ::
  "(nat \<Rightarrow> nat \<Rightarrow> nat) \<Rightarrow> kc_staging_plan \<Rightarrow> byte_string \<Rightarrow> kc_staging_error + staging_verification" where
  "verify_segments al plan destination =
     (let initial = \<lparr> sv_arena_bytes = sp_arena_size plan, sv_copied_bytes = 0, sv_zero_tail_bytes = 0,
            sv_hole_bytes = 0, sv_member_headers_checked = 0, sv_member_segment_views_checked = 0,
            sv_member_file_bytes_compared = 0 \<rparr> in
      and_then (try_fold (verify_segment al (sp_source plan) destination)
         \<lparr> vs_result = initial, vs_previous_end = 0 \<rparr> (sp_segments plan)) (\<lambda>st.
      and_then (ok_or (readback_range al destination (vs_previous_end st) (length destination) None) KS_Panic)
        (\<lambda>ok.
      if \<not> ok then Inl KS_ReadbackMismatch
      else Inr ((vs_result st)\<lparr> sv_hole_bytes :=
        sv_hole_bytes (vs_result st) + (length destination - vs_previous_end st) \<rparr>))))"

definition verify_observed ::
  "(nat \<Rightarrow> nat \<Rightarrow> nat) \<Rightarrow> kc_staging_plan \<Rightarrow> byte_string \<Rightarrow>
   (kc_staging_error + staging_verification) \<times> kc_staging_phase list" where
  "verify_observed al plan destination =
     (if length destination \<noteq> sp_arena_size plan then (Inl KS_DestinationSize, [])
      else
      or_return (verify_segments al plan destination) [] (\<lambda>result.
      or_return (try_fold (verify_view al (sp_source plan) destination)
         \<lparr> ws_result = result, ws_covered_end = 0 \<rparr> (sp_member_views plan)) [ArenaVerified] (\<lambda>st.
      (Inr (ws_result st), [ArenaVerified, MemberViewsVerified]))))"

definition verify_arena ::
  "(nat \<Rightarrow> nat \<Rightarrow> nat) \<Rightarrow> kc_staging_plan \<Rightarrow> byte_string \<Rightarrow> kc_staging_error + staging_verification" where
  "verify_arena al plan destination = fst (verify_observed al plan destination)"

section \<open>Staging\<close>

text \<open>\<^verbatim>\<open>destination[..].copy_from_slice(&self.source[..])\<close> for one segment.\<close>

definition copy_segment :: "byte_string \<Rightarrow> byte_string option \<Rightarrow> staging_segment \<Rightarrow> byte_string option" where
  "copy_segment source destination segm =
     (case destination of
        None \<Rightarrow> None
      | Some bytes \<Rightarrow>
          (case get_range source (ss_file_offset segm) (ss_file_offset segm + ss_file_size segm) of
             None \<Rightarrow> None
           | Some file \<Rightarrow>
               copy_from_slice bytes
                 (ss_destination_offset segm, ss_destination_offset segm + ss_file_size segm) file))"

definition stage_into_observed ::
  "(nat \<Rightarrow> nat \<Rightarrow> nat) \<Rightarrow> kc_staging_plan \<Rightarrow> byte_string \<Rightarrow>
   (kc_staging_error + staging_verification) \<times> byte_string \<times> kc_staging_phase list" where
  "stage_into_observed al plan destination =
     (if length destination \<noteq> sp_arena_size plan then (Inl KS_DestinationSize, destination, [])
      else
      let zeroed = replicate (length destination) 0 in
      case foldl (copy_segment (sp_source plan)) (Some zeroed) (sp_segments plan) of
        None \<Rightarrow> (Inl KS_Panic, zeroed, [DestinationInitialized])
      | Some staged \<Rightarrow>
          (case verify_observed al plan staged of (r, phases) \<Rightarrow>
             (r, staged, DestinationInitialized # SegmentsCopied # phases)))"

definition stage_into ::
  "(nat \<Rightarrow> nat \<Rightarrow> nat) \<Rightarrow> kc_staging_plan \<Rightarrow> byte_string \<Rightarrow>
   (kc_staging_error + staging_verification) \<times> byte_string" where
  "stage_into al plan destination =
     (case stage_into_observed al plan destination of (r, bytes, _) \<Rightarrow> (r, bytes))"

definition stage ::
  "(staging_reservation \<Rightarrow> bool) \<Rightarrow> (nat \<Rightarrow> nat \<Rightarrow> nat) \<Rightarrow> kc_staging_plan \<Rightarrow> kc_staging_error + staged_kc" where
  "stage R al plan =
     (if \<not> R (Reserve_Arena (sp_arena_size plan)) then Inl KS_AllocationFailed
      else
      case stage_into al plan (replicate (sp_arena_size plan) 0) of (r, bytes) \<Rightarrow>
      and_then r (\<lambda>verification.
      Inr \<lparr> sk_plan = plan, sk_bytes = bytes, sk_verification = verification \<rparr>))"

end
