(* ===== verification/Kc_Staging_Proofs.thy ===== *)
theory Kc_Staging_Proofs
  imports Kc_Staging Kc_Sample
begin

text \<open>
  The staged arena against its specification: a byte of the arena is the file byte of the
  segment that owns it, and zero elsewhere. Staging always produces that arena, the readback
  accepts that arena and no other, and the plan puts every segment of the collection and of its
  members where its addresses say.
\<close>

section \<open>Readback\<close>

text \<open>The bytes a readback compares with.\<close>

definition expected_list :: "nat \<Rightarrow> byte_string option \<Rightarrow> byte_string" where
  "expected_list n expected = (case expected of None \<Rightarrow> replicate n 0 | Some bytes \<Rightarrow> bytes)"

lemma expected_byte_list:
  "length (expected_list n e) = n \<Longrightarrow> i < n \<Longrightarrow> expected_byte e i = expected_list n e ! i"
  by (auto simp: expected_byte_def expected_list_def split: option.splits)

lemma from_le_bytes_zeros: "from_le_bytes (replicate 8 0) = (0 :: u64)"
  by (simp add: from_le_bytes_def numeral_eq_Suc)

lemma expected_word_list:
  assumes "length (expected_list n e) = n" and "i + 8 \<le> n"
  shows "expected_word e i = from_le_bytes (take 8 (drop i (expected_list n e)))"
proof (cases e)
  case None
  then have "take 8 (drop i (expected_list n e)) = replicate 8 0"
    using assms(2) by (simp add: expected_list_def min_def)
  then show ?thesis using None by (simp only: expected_word_def option.case from_le_bytes_zeros)
qed (simp add: expected_word_def expected_list_def)

lemma from_le_bytes_inj:
  assumes "length xs = 8" and "length ys = 8" and "(from_le_bytes xs :: u64) = from_le_bytes ys"
  shows "xs = ys"
proof -
  have "to_le_bytes (from_le_bytes xs :: u64) = xs" "to_le_bytes (from_le_bytes ys :: u64) = ys"
    using assms(1,2) by (auto intro!: to_from_le_bytes)
  then show ?thesis using assms(3) by metis
qed

lemma readback_bytes_iff:
  assumes "length (expected_list n e) = n" and "off + length bs \<le> n"
  shows "readback_bytes bs off e \<longleftrightarrow> bs = take (length bs) (drop off (expected_list n e))"
  using assms(2)
proof (induction bs arbitrary: off)
  case (Cons b bs)
  then have "drop off (expected_list n e) = expected_list n e ! off # drop (Suc off) (expected_list n e)"
    using assms(1) by (intro Cons_nth_drop_Suc [symmetric]) simp
  then show ?case using Cons expected_byte_list [OF assms(1), of off] by auto
qed simp

lemma readback_words_iff:
  assumes "length (expected_list n e) = n" and "off + 8 * k \<le> n" and "8 * k \<le> length xs"
  shows "readback_words (chunks_exact 8 xs k) off e \<longleftrightarrow>
    take (8 * k) xs = take (8 * k) (drop off (expected_list n e))"
  using assms(2,3)
proof (induction k arbitrary: off xs)
  case (Suc k)
  let ?E = "drop off (expected_list n e)"
  have word: "from_le_bytes (take 8 xs) = expected_word e off \<longleftrightarrow> take 8 xs = take 8 ?E"
    using expected_word_list [OF assms(1), of off] Suc.prems assms(1)
      from_le_bytes_inj [of "take 8 xs" "take 8 ?E"] by auto
  have split: "take (8 * Suc k) ys = take 8 ys @ take (8 * k) (drop 8 ys)" for ys :: byte_string
    by (simp flip: take_add)
  have IH: "readback_words (chunks_exact 8 (drop 8 xs) k) (off + 8) e \<longleftrightarrow>
      take (8 * k) (drop 8 xs) = take (8 * k) (drop 8 ?E)"
    using Suc.IH [of "off + 8" "drop 8 xs"] Suc.prems by (simp add: add.commute)
  have "length (take 8 xs) = length (take 8 ?E)" using Suc.prems assms(1) by simp
  then show ?case
    unfolding split using word IH Suc.prems by (auto simp: append_eq_append_conv)
qed simp

lemma length_chunks_8: "8 * k \<le> length xs \<Longrightarrow> length (chunks_exact 8 xs k) = k"
  by (induction "8 :: nat" xs k rule: chunks_exact.induct) auto

text \<open>Whatever the alignment, a readback compares every byte.\<close>

lemma readback_iff:
  "readback u actual expected \<longleftrightarrow> expected_list (length actual) expected = actual"
proof (cases "length (expected_list (length actual) expected) = length actual")
  case False
  then show ?thesis by (auto simp: readback_def expected_list_def split: option.splits)
next
  case True
  let ?n = "length actual" let ?E = "expected_list ?n expected"
  let ?aligned = "drop u actual" let ?k = "length ?aligned div 8"
  let ?p = "length (take u actual)"
  have k: "8 * ?k \<le> length ?aligned" by simp
  have b1: "readback_bytes (take u actual) 0 expected \<longleftrightarrow> take u actual = take ?p ?E"
    by (subst readback_bytes_iff [OF True]) auto
  have b2: "readback_words (chunks_exact 8 ?aligned ?k) ?p expected \<longleftrightarrow>
      take (8 * ?k) ?aligned = take (8 * ?k) (drop ?p ?E)"
    by (rule readback_words_iff [OF True _ k]) auto
  have len: "length (chunks_exact 8 ?aligned ?k) = ?k" by (rule length_chunks_8 [OF k])
  have b3: "readback_bytes (drop (?k * 8) ?aligned) (?p + ?k * 8) expected \<longleftrightarrow>
      drop (8 * ?k) ?aligned = take (length (drop (8 * ?k) ?aligned)) (drop (8 * ?k) (drop ?p ?E))"
    by (subst readback_bytes_iff [OF True]) (auto simp: mult.commute add.commute)
  have t3: "take (length (drop (8 * ?k) ?aligned)) (drop (8 * ?k) (drop ?p ?E)) = drop (8 * ?k) (drop ?p ?E)"
    using True by simp
  have "readback u actual expected \<longleftrightarrow> take u actual = take ?p ?E \<and>
      take (8 * ?k) ?aligned = take (8 * ?k) (drop ?p ?E) \<and>
      drop (8 * ?k) ?aligned = drop (8 * ?k) (drop ?p ?E)"
    using True unfolding readback_def Let_def b1 b2 b3 len t3
    by (auto simp: expected_list_def split: option.splits)
  also have "\<dots> \<longleftrightarrow> take u actual = take ?p ?E \<and> ?aligned = drop ?p ?E"
    by (metis append_take_drop_id)
  also have "\<dots> \<longleftrightarrow> actual = ?E"
    by (metis append_take_drop_id drop_all drop_take linear take_all length_take min_def)
  finally show ?thesis by auto
qed

lemma readback_range_Some:
  "readback_range al bs a b expected = Some ok \<longleftrightarrow>
   a \<le> b \<and> b \<le> length bs \<and> (ok \<longleftrightarrow> expected_list (b - a) expected = segment bs a b)"
  by (auto simp: readback_range_def get_range_def readback_iff segment_def split: if_splits)

lemma readback_range_inside:
  "a \<le> b \<Longrightarrow> b \<le> length bs \<Longrightarrow>
   readback_range al bs a b expected = Some (expected_list (b - a) expected = segment bs a b)"
  by (simp add: readback_range_Some)

section \<open>The specified arena\<close>

definition owns_file_byte :: "nat \<Rightarrow> staging_segment \<Rightarrow> bool" where
  "owns_file_byte i s \<longleftrightarrow> ss_destination_offset s \<le> i \<and> i < ss_destination_offset s + ss_file_size s"

definition staged_byte :: "byte_string \<Rightarrow> staging_segment list \<Rightarrow> nat \<Rightarrow> 8 word" where
  "staged_byte source segs i =
     (case find (owns_file_byte i) segs of
        None \<Rightarrow> 0
      | Some s \<Rightarrow> source ! (ss_file_offset s + (i - ss_destination_offset s)))"

definition staged_arena :: "kc_staging_plan \<Rightarrow> byte_string" where
  "staged_arena plan = map (staged_byte (sp_source plan) (sp_segments plan)) [0 ..< sp_arena_size plan]"

text \<open>Segments one behind the other, from \<open>p\<close> on, each with its file bytes in the source.\<close>

fun chain :: "nat \<Rightarrow> nat \<Rightarrow> staging_segment list \<Rightarrow> bool" where
  "chain n p [] = True"
| "chain n p (s # segs) \<longleftrightarrow>
     p \<le> ss_destination_offset s \<and> ss_file_size s \<le> ss_memory_size s \<and>
     ss_file_offset s + ss_file_size s \<le> n \<and>
     chain n (ss_destination_offset s + ss_memory_size s) segs"

fun chain_end :: "nat \<Rightarrow> staging_segment list \<Rightarrow> nat" where
  "chain_end p [] = p"
| "chain_end p (s # segs) = chain_end (ss_destination_offset s + ss_memory_size s) segs"

lemma chain_end_ge: "chain n p segs \<Longrightarrow> p \<le> chain_end p segs"
proof (induction segs arbitrary: p)
  case (Cons s segs)
  from Cons.IH [of "ss_destination_offset s + ss_memory_size s"] Cons.prems show ?case by simp
qed simp

lemma chain_mem:
  assumes "chain n p segs" and "s \<in> set segs"
  shows "p \<le> ss_destination_offset s" and "ss_destination_offset s + ss_memory_size s \<le> chain_end p segs"
    and "ss_file_size s \<le> ss_memory_size s" and "ss_file_offset s + ss_file_size s \<le> n"
proof -
  have "p \<le> ss_destination_offset s \<and> ss_destination_offset s + ss_memory_size s \<le> chain_end p segs \<and>
    ss_file_size s \<le> ss_memory_size s \<and> ss_file_offset s + ss_file_size s \<le> n"
    using assms
  proof (induction segs arbitrary: p)
    case (Cons t segs)
    let ?q = "ss_destination_offset t + ss_memory_size t"
    show ?case
    proof (cases "s = t")
      case True
      then show ?thesis using Cons.prems chain_end_ge [of n ?q segs] by simp
    next
      case False
      then show ?thesis using Cons.IH [of ?q] Cons.prems by auto
    qed
  qed simp
  then show "p \<le> ss_destination_offset s" "ss_destination_offset s + ss_memory_size s \<le> chain_end p segs"
    "ss_file_size s \<le> ss_memory_size s" "ss_file_offset s + ss_file_size s \<le> n" by blast+
qed

lemma staged_byte_before:
  assumes "chain n p segs" and "i < p"
  shows "find (owns_file_byte i) segs = None"
  using chain_mem(1) [OF assms(1)] assms(2) by (fastforce simp: find_None_iff owns_file_byte_def)

text \<open>The byte of an address a segment owns.\<close>

lemma staged_byte_owned:
  assumes "chain n p segs" and "s \<in> set segs" and "ss_destination_offset s \<le> i"
    and "i < ss_destination_offset s + ss_memory_size s"
  shows "staged_byte source segs i =
    (if i < ss_destination_offset s + ss_file_size s
     then source ! (ss_file_offset s + (i - ss_destination_offset s)) else 0)"
  using assms
proof (induction segs arbitrary: p)
  case (Cons t segs)
  let ?q = "ss_destination_offset t + ss_memory_size t"
  show ?case
  proof (cases "s = t")
    case True
    have "find (owns_file_byte i) segs = None"
      using staged_byte_before [of n ?q segs i] Cons.prems True by simp
    then show ?thesis using Cons.prems True by (simp add: staged_byte_def owns_file_byte_def)
  next
    case False
    then have s: "s \<in> set segs" using Cons.prems by simp
    have "?q \<le> i" using chain_mem(1) [of n ?q segs s] Cons.prems s by simp
    then have "\<not> owns_file_byte i t" using Cons.prems(1) by (simp add: owns_file_byte_def)
    moreover have "staged_byte source segs i =
      (if i < ss_destination_offset s + ss_file_size s
       then source ! (ss_file_offset s + (i - ss_destination_offset s)) else 0)"
      using Cons.IH [of ?q] Cons.prems s by simp
    ultimately show ?thesis by (simp add: staged_byte_def)
  qed
qed simp

lemma staged_byte_hole:
  assumes "\<And>s. s \<in> set segs \<Longrightarrow> i < ss_destination_offset s \<or> ss_destination_offset s + ss_memory_size s \<le> i"
    and "\<And>s. s \<in> set segs \<Longrightarrow> ss_file_size s \<le> ss_memory_size s"
  shows "staged_byte source segs i = 0"
proof -
  have "find (owns_file_byte i) segs = None"
    using assms by (fastforce simp: find_None_iff owns_file_byte_def)
  then show ?thesis by (simp add: staged_byte_def)
qed

section \<open>Readback of the segments\<close>

definition agrees :: "byte_string \<Rightarrow> (nat \<Rightarrow> 8 word) \<Rightarrow> nat \<Rightarrow> nat \<Rightarrow> bool" where
  "agrees bs f a b \<longleftrightarrow> (\<forall>i. a \<le> i \<longrightarrow> i < b \<longrightarrow> bs ! i = f i)"

lemma agrees_join: "a \<le> b \<Longrightarrow> b \<le> c \<Longrightarrow> agrees bs f a c \<longleftrightarrow> agrees bs f a b \<and> agrees bs f b c"
  unfolding agrees_def by (meson le_trans less_le_trans not_le)

lemma agrees_cong: "(\<And>i. a \<le> i \<Longrightarrow> i < b \<Longrightarrow> f i = g i) \<Longrightarrow> agrees bs f a b \<longleftrightarrow> agrees bs g a b"
  by (auto simp: agrees_def)

lemma segment_agrees:
  assumes "a \<le> b" and "b \<le> length bs" and "length e = b - a"
  shows "e = segment bs a b \<longleftrightarrow> agrees bs (\<lambda>i. e ! (i - a)) a b"
proof
  assume "e = segment bs a b"
  then show "agrees bs (\<lambda>i. e ! (i - a)) a b" using assms by (auto simp: agrees_def segment_def)
next
  assume f: "agrees bs (\<lambda>i. e ! (i - a)) a b"
  show "e = segment bs a b"
  proof (rule nth_equalityI)
    fix i assume "i < length e"
    then have "a \<le> a + i" "a + i < b" using assms by auto
    then have "bs ! (a + i) = e ! (a + i - a)" using f unfolding agrees_def by blast
    then show "e ! i = segment bs a b ! i" using assms \<open>i < length e\<close> by (simp add: segment_def)
  qed (use assms in \<open>simp add: segment_def\<close>)
qed

lemma readback_zeros:
  assumes "a \<le> b" and "b \<le> length bs"
  shows "readback_range al bs a b None = Some (agrees bs (\<lambda>_. 0) a b)"
  using assms segment_agrees [OF assms, of "replicate (b - a) 0"]
  by (auto simp: readback_range_inside expected_list_def agrees_def)

lemma readback_file:
  assumes "a \<le> b" and "b \<le> length bs" and "c + (b - a) \<le> length source"
  shows "readback_range al bs a b (Some (take (b - a) (drop c source))) =
    Some (agrees bs (\<lambda>i. source ! (c + (i - a))) a b)"
proof -
  have "agrees bs (\<lambda>i. take (b - a) (drop c source) ! (i - a)) a b \<longleftrightarrow>
    agrees bs (\<lambda>i. source ! (c + (i - a))) a b"
    using assms by (intro agrees_cong) auto
  then show ?thesis
    using assms segment_agrees [OF assms(1,2), of "take (b - a) (drop c source)"]
    by (auto simp: readback_range_inside expected_list_def)
qed

text \<open>What the verification counts, in a run without an error.\<close>

definition count_segment :: "verify_state \<Rightarrow> staging_segment \<Rightarrow> verify_state" where
  "count_segment st s =
     \<lparr> vs_result = (vs_result st)\<lparr>
         sv_copied_bytes := sv_copied_bytes (vs_result st) + ss_file_size s,
         sv_zero_tail_bytes := sv_zero_tail_bytes (vs_result st) + (ss_memory_size s - ss_file_size s),
         sv_hole_bytes := sv_hole_bytes (vs_result st) + (ss_destination_offset s - vs_previous_end st) \<rparr>,
       vs_previous_end = ss_destination_offset s + ss_memory_size s \<rparr>"

lemma verify_segment_step:
  assumes "chain (length source) (vs_previous_end st) (s # segs)"
    and "ss_destination_offset s + ss_memory_size s \<le> length bs"
  shows "verify_segment al source bs st s =
    (if agrees bs (staged_byte source (s # segs)) (vs_previous_end st) (ss_destination_offset s + ss_memory_size s)
     then Inr (count_segment st s) else Inl KS_ReadbackMismatch)"
proof -
  let ?p = "vs_previous_end st" let ?a = "ss_destination_offset s"
  let ?c = "?a + ss_file_size s" let ?b = "?a + ss_memory_size s"
  let ?f = "staged_byte source (s # segs)"
  have le: "?p \<le> ?a" "?a \<le> ?c" "?c \<le> ?b" "ss_file_offset s + ss_file_size s \<le> length source"
    using assms(1) by auto
  have zero: "?f i = 0" if "?p \<le> i" "i < ?a \<or> (?c \<le> i \<and> i < ?b)" for i
  proof -
    have "find (owns_file_byte i) segs = None"
      by (rule staged_byte_before [of "length source" ?b]) (use assms(1) that le in auto)
    then show ?thesis using that by (auto simp: staged_byte_def owns_file_byte_def)
  qed
  have own: "?f i = source ! (ss_file_offset s + (i - ?a))" if "?a \<le> i" "i < ?c" for i
    using that by (simp add: staged_byte_def owns_file_byte_def)
  have "agrees bs (\<lambda>_. 0) ?p ?a \<longleftrightarrow> agrees bs ?f ?p ?a"
    by (rule agrees_cong) (use zero in auto)
  moreover have "agrees bs (\<lambda>_. 0) ?c ?b \<longleftrightarrow> agrees bs ?f ?c ?b"
    by (rule agrees_cong) (use zero le in auto)
  moreover have "agrees bs (\<lambda>i. source ! (ss_file_offset s + (i - ?a))) ?a ?c \<longleftrightarrow> agrees bs ?f ?a ?c"
    by (rule agrees_cong) (use own in auto)
  ultimately have three: "readback_range al bs ?p ?a None = Some (agrees bs ?f ?p ?a)"
    "readback_range al bs ?a ?c (Some (take (ss_file_size s) (drop (ss_file_offset s) source))) = Some (agrees bs ?f ?a ?c)"
    "readback_range al bs ?c ?b None = Some (agrees bs ?f ?c ?b)"
    using readback_zeros [of ?p ?a bs al] readback_zeros [of ?c ?b bs al]
      readback_file [of ?a ?c bs "ss_file_offset s" source al] le assms(2) by simp_all
  have "agrees bs ?f ?p ?b \<longleftrightarrow> agrees bs ?f ?p ?a \<and> agrees bs ?f ?a ?c \<and> agrees bs ?f ?c ?b"
    using agrees_join [of ?p ?a ?b bs ?f] agrees_join [of ?a ?c ?b bs ?f] le by auto
  moreover have "get_range source (ss_file_offset s) (ss_file_offset s + ss_file_size s) =
    Some (take (ss_file_size s) (drop (ss_file_offset s) source))"
    using le(4) by (simp add: get_range_def)
  ultimately show ?thesis
    by (simp add: verify_segment_def Let_def three count_segment_def)
qed

lemma verify_segments_loop:
  assumes "chain (length source) (vs_previous_end st) segs"
    and "chain_end (vs_previous_end st) segs \<le> length bs"
  shows "try_fold (verify_segment al source bs) st segs =
    (if agrees bs (staged_byte source segs) (vs_previous_end st) (chain_end (vs_previous_end st) segs)
     then Inr (foldl count_segment st segs) else Inl KS_ReadbackMismatch)"
  using assms
proof (induction segs arbitrary: st)
  case (Cons s segs)
  let ?p = "vs_previous_end st" let ?q = "ss_destination_offset s + ss_memory_size s"
  have ch: "chain (length source) ?q segs" using Cons.prems(1) by simp
  note ge = chain_end_ge [OF ch]
  have st1: "vs_previous_end (count_segment st s) = ?q" by (simp add: count_segment_def)
  have q: "?q \<le> length bs" using ge Cons.prems(2) by simp
  have "agrees bs (staged_byte source (s # segs)) ?q (chain_end ?q segs) \<longleftrightarrow>
    agrees bs (staged_byte source segs) ?q (chain_end ?q segs)"
    by (rule agrees_cong) (use Cons.prems(1) in \<open>auto simp: staged_byte_def owns_file_byte_def\<close>)
  moreover have "?p \<le> ?q" using Cons.prems(1) by simp
  ultimately have split: "agrees bs (staged_byte source (s # segs)) ?p (chain_end ?q segs) \<longleftrightarrow>
    agrees bs (staged_byte source (s # segs)) ?p ?q \<and> agrees bs (staged_byte source segs) ?q (chain_end ?q segs)"
    using agrees_join [of ?p ?q "chain_end ?q segs"] ge by blast
  have IH: "try_fold (verify_segment al source bs) (count_segment st s) segs =
    (if agrees bs (staged_byte source segs) ?q (chain_end ?q segs)
     then Inr (foldl count_segment (count_segment st s) segs) else Inl KS_ReadbackMismatch)"
    using Cons.IH [of "count_segment st s"] ch Cons.prems(2) by (simp add: st1)
  show ?case
    using split IH verify_segment_step [OF Cons.prems(1) q, of al] by simp
qed (simp add: agrees_def)

section \<open>Sound plans\<close>

definition view_ok :: "staging_segment list \<Rightarrow> member_view \<Rightarrow> bool" where
  "view_ok segs v \<longleftrightarrow> mv_file_size v \<le> mv_memory_size v \<and>
     (\<exists>s \<in> set segs. ss_destination_offset s \<le> mv_destination_offset v \<and>
        mv_destination_offset v + mv_memory_size v \<le> ss_destination_offset s + ss_memory_size s \<and>
        (mv_file_size v = 0 \<or>
         (ss_file_offset s \<le> mv_file_offset v \<and>
          mv_file_offset v + mv_file_size v \<le> ss_file_offset s + ss_file_size s \<and>
          mv_destination_offset v - ss_destination_offset s = mv_file_offset v - ss_file_offset s)))"

definition plan_ok :: "kc_staging_plan \<Rightarrow> bool" where
  "plan_ok plan \<longleftrightarrow>
     chain (length (sp_source plan)) 0 (sp_segments plan) \<and>
     chain_end 0 (sp_segments plan) \<le> sp_arena_size plan \<and> sp_arena_size plan < 2 ^ 63 \<and>
     (\<forall>v \<in> set (sp_member_views plan). view_ok (sp_segments plan) v)"

lemma length_staged_arena [simp]: "length (staged_arena plan) = sp_arena_size plan"
  by (simp add: staged_arena_def)

lemma staged_arena_agrees:
  assumes "length bs = sp_arena_size plan"
  shows "bs = staged_arena plan \<longleftrightarrow>
    agrees bs (staged_byte (sp_source plan) (sp_segments plan)) 0 (length bs)"
  using assms by (auto simp: staged_arena_def agrees_def list_eq_iff_nth_eq)

lemma foldl_count_end:
  "vs_previous_end (foldl count_segment st segs) = chain_end (vs_previous_end st) segs"
  by (induction segs arbitrary: st) (simp_all add: count_segment_def)

definition initial_verification :: "kc_staging_plan \<Rightarrow> staging_verification" where
  "initial_verification plan =
     \<lparr> sv_arena_bytes = sp_arena_size plan, sv_copied_bytes = 0, sv_zero_tail_bytes = 0,
       sv_hole_bytes = 0, sv_member_headers_checked = 0, sv_member_segment_views_checked = 0,
       sv_member_file_bytes_compared = 0 \<rparr>"

definition segments_counted :: "kc_staging_plan \<Rightarrow> staging_verification" where
  "segments_counted plan =
     (let st = foldl count_segment \<lparr> vs_result = initial_verification plan, vs_previous_end = 0 \<rparr> (sp_segments plan)
      in (vs_result st)\<lparr> sv_hole_bytes := sv_hole_bytes (vs_result st) + (sp_arena_size plan - vs_previous_end st) \<rparr>)"

lemma verify_segments_eq:
  assumes ok: "plan_ok plan" and len: "length bs = sp_arena_size plan"
  shows "verify_segments al plan bs =
    (if bs = staged_arena plan then Inr (segments_counted plan) else Inl KS_ReadbackMismatch)"
proof -
  let ?f = "staged_byte (sp_source plan) (sp_segments plan)"
  let ?st = "\<lparr> vs_result = initial_verification plan, vs_previous_end = 0 \<rparr>"
  let ?e = "chain_end 0 (sp_segments plan)"
  have ch: "chain (length (sp_source plan)) 0 (sp_segments plan)" and e: "?e \<le> length bs"
    using ok len by (simp_all add: plan_ok_def)
  have loop: "try_fold (verify_segment al (sp_source plan) bs) ?st (sp_segments plan) =
    (if agrees bs ?f 0 ?e then Inr (foldl count_segment ?st (sp_segments plan)) else Inl KS_ReadbackMismatch)"
    using verify_segments_loop [of "sp_source plan" ?st "sp_segments plan" bs al] ch e by simp
  have last: "vs_previous_end (foldl count_segment ?st (sp_segments plan)) = ?e"
    by (simp add: foldl_count_end)
  have "?f i = 0" if "?e \<le> i" for i
    by (rule staged_byte_hole) (use chain_mem [OF ch] that in \<open>fastforce\<close>)+
  then have "agrees bs (\<lambda>_. 0) ?e (length bs) \<longleftrightarrow> agrees bs ?f ?e (length bs)"
    by (intro agrees_cong) simp
  then have tail: "readback_range al bs ?e (length bs) None = Some (agrees bs ?f ?e (length bs))"
    using readback_zeros [of ?e "length bs" bs al] e by simp
  have "bs = staged_arena plan \<longleftrightarrow> agrees bs ?f 0 ?e \<and> agrees bs ?f ?e (length bs)"
    using staged_arena_agrees [OF len] agrees_join [of 0 ?e "length bs" bs ?f] e by simp
  then show ?thesis
    unfolding verify_segments_def Let_def initial_verification_def [symmetric] loop
    by (simp add: last tail [unfolded len] segments_counted_def len Let_def)
qed

text \<open>A view shows the file bytes it names.\<close>

lemma view_bytes:
  assumes ok: "plan_ok plan" and v: "view_ok (sp_segments plan) v" and k: "k < mv_file_size v"
  shows "staged_byte (sp_source plan) (sp_segments plan) (mv_destination_offset v + k) =
      sp_source plan ! (mv_file_offset v + k)"
    and "mv_file_offset v + k < length (sp_source plan)"
proof -
  have ch: "chain (length (sp_source plan)) 0 (sp_segments plan)" using ok by (simp add: plan_ok_def)
  obtain s where s: "s \<in> set (sp_segments plan)" "ss_destination_offset s \<le> mv_destination_offset v"
    "mv_destination_offset v + mv_memory_size v \<le> ss_destination_offset s + ss_memory_size s"
    "ss_file_offset s \<le> mv_file_offset v"
    "mv_file_offset v + mv_file_size v \<le> ss_file_offset s + ss_file_size s"
    "mv_destination_offset v - ss_destination_offset s = mv_file_offset v - ss_file_offset s"
    using v k by (auto simp: view_ok_def)
  have f: "mv_file_size v \<le> mv_memory_size v" using v by (simp add: view_ok_def)
  note m = chain_mem [OF ch s(1)]
  show "mv_file_offset v + k < length (sp_source plan)" using m(4) s(5) k by linarith
  have "staged_byte (sp_source plan) (sp_segments plan) (mv_destination_offset v + k) =
    (if mv_destination_offset v + k < ss_destination_offset s + ss_file_size s
     then sp_source plan ! (ss_file_offset s + (mv_destination_offset v + k - ss_destination_offset s)) else 0)"
    by (rule staged_byte_owned [OF ch s(1)]) (use s f k in auto)
  moreover have "mv_destination_offset v + k < ss_destination_offset s + ss_file_size s"
    using s(2,4,5,6) k by linarith
  moreover have "ss_file_offset s + (mv_destination_offset v + k - ss_destination_offset s) = mv_file_offset v + k"
    using s(2,4,6) by linarith
  ultimately show "staged_byte (sp_source plan) (sp_segments plan) (mv_destination_offset v + k) =
      sp_source plan ! (mv_file_offset v + k)" by simp
qed

definition view_bounded :: "kc_staging_plan \<Rightarrow> view_state \<Rightarrow> bool" where
  "view_bounded plan st \<longleftrightarrow>
     sv_member_file_bytes_compared (ws_result st) \<le> ws_covered_end st \<and> ws_covered_end st \<le> sp_arena_size plan"

lemma verify_view_step:
  assumes ok: "plan_ok plan" and v: "view_ok (sp_segments plan) v" and st: "view_bounded plan st"
  shows "\<exists>st'. verify_view al (sp_source plan) (staged_arena plan) st v = Inr st' \<and> view_bounded plan st'"
proof -
  let ?bs = "staged_arena plan" let ?n = "sp_arena_size plan"
  define e where "e = mv_destination_offset v + mv_file_size v"
  define c where "c = max (ws_covered_end st) (mv_destination_offset v)"
  define d where "d = mv_file_offset v + (c - mv_destination_offset v)"
  have ch: "chain (length (sp_source plan)) 0 (sp_segments plan)" using ok by (simp add: plan_ok_def)
  have fit: "mv_destination_offset v + mv_memory_size v \<le> ?n"
  proof -
    obtain s where "s \<in> set (sp_segments plan)"
      "mv_destination_offset v + mv_memory_size v \<le> ss_destination_offset s + ss_memory_size s"
      using v by (auto simp: view_ok_def)
    then show ?thesis using chain_mem(2) [OF ch] ok unfolding plan_ok_def by (meson le_trans)
  qed
  have e: "e \<le> ?n" using fit v by (auto simp: view_ok_def e_def)
  show ?thesis
  proof (cases "c < e")
    case False
    then show ?thesis
      using st fit e by (auto simp: verify_view_def Let_def view_bounded_def c_def e_def)
  next
    case True
    have size: "mv_file_offset v + mv_file_size v - d = e - c" using True by (auto simp: c_def d_def e_def)
    have "0 < mv_file_size v" using True by (simp add: c_def e_def)
    then have src: "mv_file_offset v + mv_file_size v \<le> length (sp_source plan)"
      using view_bytes(2) [OF ok v, of "mv_file_size v - 1"] by simp
    have get: "get_range (sp_source plan) d (mv_file_offset v + mv_file_size v) =
      Some (take (e - c) (drop d (sp_source plan)))"
      using True src size by (auto simp: get_range_def c_def d_def e_def)
    have same: "?bs ! i = sp_source plan ! (d + (i - c))" if "c \<le> i" "i < e" for i
    proof -
      have k: "i - mv_destination_offset v < mv_file_size v" "mv_destination_offset v \<le> i" using that by (auto simp: c_def e_def)
      have "?bs ! i = staged_byte (sp_source plan) (sp_segments plan) i"
        using that e by (simp add: staged_arena_def)
      also have "\<dots> = sp_source plan ! (mv_file_offset v + (i - mv_destination_offset v))"
        using view_bytes(1) [OF ok v k(1)] k(2) by simp
      also have "mv_file_offset v + (i - mv_destination_offset v) = d + (i - c)" using that by (auto simp: c_def d_def)
      finally show ?thesis .
    qed
    then have "agrees ?bs (\<lambda>i. sp_source plan ! (d + (i - c))) c e" by (simp add: agrees_def)
    moreover have "d + (e - c) \<le> length (sp_source plan)" using src True by (auto simp: c_def d_def e_def)
    ultimately have rb: "readback_range al ?bs c e (Some (take (e - c) (drop d (sp_source plan)))) = Some True"
      using readback_file [of c e ?bs d "sp_source plan" al] True e by simp
    have sum: "sv_member_file_bytes_compared (ws_result st) + (e - c) \<le> e"
      using st True by (auto simp: view_bounded_def c_def)
    moreover have "?n < 2 ^ 63" using ok by (simp add: plan_ok_def)
    ultimately have add: "usize_add (sv_member_file_bytes_compared (ws_result st)) (e - c) =
      Some (sv_member_file_bytes_compared (ws_result st) + (e - c))"
      using e by (simp add: usize_add_def)
    have "verify_view al (sp_source plan) ?bs st v =
      and_then (Inr ((ws_result st)\<lparr> sv_member_file_bytes_compared :=
          sv_member_file_bytes_compared (ws_result st) + (e - c) \<rparr>)) (\<lambda>result.
      Inr \<lparr> ws_result =
              (if mv_is_header v
               then result\<lparr> sv_member_headers_checked := sv_member_headers_checked result + 1 \<rparr>
               else result\<lparr> sv_member_segment_views_checked := sv_member_segment_views_checked result + 1 \<rparr>),
             ws_covered_end = max (ws_covered_end st) e \<rparr>)"
      using fit
      unfolding verify_view_def Let_def e_def [symmetric] c_def [symmetric] d_def [symmetric] if_P [OF True] get
        ok_or_simps and_then_simps rb add
      by simp
    then show ?thesis using sum e st by (auto simp: view_bounded_def)
  qed
qed

lemma verify_views_ok:
  assumes "plan_ok plan" and "\<forall>v \<in> set vs. view_ok (sp_segments plan) v" and "view_bounded plan st"
  shows "\<exists>st'. try_fold (verify_view al (sp_source plan) (staged_arena plan)) st vs = Inr st'"
  using assms(2,3)
proof (induction vs arbitrary: st)
  case (Cons v vs)
  obtain st1 where "verify_view al (sp_source plan) (staged_arena plan) st v = Inr st1" "view_bounded plan st1"
    using verify_view_step [OF assms(1), of v st al] Cons.prems by auto
  then show ?case using Cons.IH Cons.prems(1) by simp
qed simp

lemma foldl_count_compared:
  "sv_member_file_bytes_compared (vs_result (foldl count_segment st segs)) =
   sv_member_file_bytes_compared (vs_result st)"
  by (induction segs arbitrary: st) (simp_all add: count_segment_def)

lemma verify_arena_eq:
  assumes ok: "plan_ok plan"
  shows "(\<exists>v. verify_arena al plan bs = Inr v) \<longleftrightarrow> bs = staged_arena plan"
    and "length bs = sp_arena_size plan \<Longrightarrow> bs \<noteq> staged_arena plan \<Longrightarrow>
      verify_observed al plan bs = (Inl KS_ReadbackMismatch, [])"
    and "\<exists>v. verify_observed al plan (staged_arena plan) = (Inr v, [ArenaVerified, MemberViewsVerified])"
proof -
  show mis: "verify_observed al plan bs = (Inl KS_ReadbackMismatch, [])"
    if "length bs = sp_arena_size plan" "bs \<noteq> staged_arena plan"
    using verify_segments_eq [OF ok that(1)] that by (simp add: verify_observed_def)
  have "view_bounded plan \<lparr> ws_result = segments_counted plan, ws_covered_end = 0 \<rparr>"
    by (simp add: view_bounded_def segments_counted_def Let_def foldl_count_compared initial_verification_def)
  moreover have "\<forall>v \<in> set (sp_member_views plan). view_ok (sp_segments plan) v" using ok by (simp add: plan_ok_def)
  ultimately obtain st where "try_fold (verify_view al (sp_source plan) (staged_arena plan))
      \<lparr> ws_result = segments_counted plan, ws_covered_end = 0 \<rparr> (sp_member_views plan) = Inr st"
    using verify_views_ok [OF ok] by blast
  then show good: "\<exists>v. verify_observed al plan (staged_arena plan) = (Inr v, [ArenaVerified, MemberViewsVerified])"
    using verify_segments_eq [OF ok, of "staged_arena plan" al] by (simp add: verify_observed_def)
  show "(\<exists>v. verify_arena al plan bs = Inr v) \<longleftrightarrow> bs = staged_arena plan"
  proof
    assume v: "\<exists>v. verify_arena al plan bs = Inr v"
    show "bs = staged_arena plan"
    proof (rule ccontr)
      assume ne: "bs \<noteq> staged_arena plan"
      show False
      proof (cases "length bs = sp_arena_size plan")
        case True
        then show False using v mis [OF True ne] by (simp add: verify_arena_def)
      next
        case False
        then show False using v by (simp add: verify_arena_def verify_observed_def)
      qed
    qed
  qed (use good in \<open>auto simp: verify_arena_def\<close>)
qed

section \<open>The copy\<close>

lemma copy_segments:
  assumes "chain (length source) p segs" and "chain_end p segs \<le> length buf"
  shows "\<exists>buf'. foldl (copy_segment source) (Some buf) segs = Some buf' \<and> length buf' = length buf \<and>
    (\<forall>i < length buf. buf' ! i = (case find (owns_file_byte i) segs of
        None \<Rightarrow> buf ! i
      | Some s \<Rightarrow> source ! (ss_file_offset s + (i - ss_destination_offset s))))"
  using assms
proof (induction segs arbitrary: buf p)
  case (Cons s segs)
  let ?a = "ss_destination_offset s" let ?q = "?a + ss_memory_size s"
  let ?src = "take (ss_file_size s) (drop (ss_file_offset s) source)"
  define buf1 where "buf1 = put_bytes buf ?a ?src"
  have ch: "chain (length source) ?q segs" using Cons.prems(1) by simp
  have le: "ss_file_size s \<le> ss_memory_size s" "ss_file_offset s + ss_file_size s \<le> length source" "?q \<le> length buf"
    using Cons.prems chain_end_ge [OF ch] by simp_all
  have src: "length ?src = ss_file_size s" using le by simp
  have copy: "copy_segment source (Some buf) s = Some buf1"
    using le by (simp add: copy_segment_def get_range_def copy_from_slice_def buf1_def)
  have len1: "length buf1 = length buf" using le src by (simp add: buf1_def)
  from Cons.IH [OF ch, of buf1] obtain buf' where
    buf': "foldl (copy_segment source) (Some buf1) segs = Some buf'" "length buf' = length buf"
    "\<forall>i < length buf. buf' ! i = (case find (owns_file_byte i) segs of
        None \<Rightarrow> buf1 ! i
      | Some s \<Rightarrow> source ! (ss_file_offset s + (i - ss_destination_offset s)))"
    using Cons.prems(2) len1 by auto
  have "buf' ! i = (case find (owns_file_byte i) (s # segs) of
        None \<Rightarrow> buf ! i
      | Some s \<Rightarrow> source ! (ss_file_offset s + (i - ss_destination_offset s)))" if i: "i < length buf" for i
  proof -
    have at: "buf1 ! i = (if ?a \<le> i \<and> i < ?a + length ?src then ?src ! (i - ?a) else buf ! i)"
      unfolding buf1_def by (rule nth_put_bytes) (use le src i in auto)
    show ?thesis
    proof (cases "owns_file_byte i s")
      case True
      then have "find (owns_file_byte i) segs = None"
        by (intro staged_byte_before [OF ch]) (use le in \<open>auto simp: owns_file_byte_def\<close>)
      then show ?thesis using buf'(3) i at True le by (auto simp: owns_file_byte_def src)
    next
      case False
      then have "buf1 ! i = buf ! i" using at src by (auto simp: owns_file_byte_def)
      then show ?thesis using buf'(3) i False by (simp split: option.splits)
    qed
  qed
  then show ?case using copy buf' by (intro exI [of _ buf']) simp
qed simp

lemma stage_into_observed_eq:
  assumes ok: "plan_ok plan" and len: "length destination = sp_arena_size plan"
  shows "\<exists>v. stage_into_observed al plan destination = (Inr v, staged_arena plan,
    [DestinationInitialized, SegmentsCopied, ArenaVerified, MemberViewsVerified])"
proof -
  let ?zeroed = "replicate (length destination) (0 :: 8 word)"
  have ch: "chain (length (sp_source plan)) 0 (sp_segments plan)"
    "chain_end 0 (sp_segments plan) \<le> length ?zeroed" using ok len by (simp_all add: plan_ok_def)
  from copy_segments [OF ch] obtain staged where
    staged: "foldl (copy_segment (sp_source plan)) (Some ?zeroed) (sp_segments plan) = Some staged"
    "length staged = sp_arena_size plan"
    "\<forall>i < sp_arena_size plan. staged ! i = staged_byte (sp_source plan) (sp_segments plan) i"
    using len by (auto simp: staged_byte_def cong: option.case_cong)
  then have "staged = staged_arena plan" by (simp add: staged_arena_agrees agrees_def)
  moreover obtain v where "verify_observed al plan (staged_arena plan) = (Inr v, [ArenaVerified, MemberViewsVerified])"
    using verify_arena_eq(3) [OF ok] by blast
  ultimately show ?thesis using staged(1) len by (simp add: stage_into_observed_def)
qed

section \<open>The plan of an inspected collection\<close>

lemma relative_range_Inr:
  "relative_range address n base arena = Inr start \<longleftrightarrow>
   unat address = unat base + start \<and> start + unat n \<le> arena \<and> start + unat n < 2 ^ 64"
proof -
  have "relative_range address n base arena = Inr start \<longleftrightarrow>
    (\<exists>(s :: u64) (stop :: u64). unat address = unat base + unat s \<and> unat s + unat n = unat stop \<and>
       unat stop \<le> arena \<and> start = unat s)"
    unfolding relative_range_def and_then_Inr ok_or_Inr checked_sub_Some checked_add_Some if_Inl_Inr sum.inject not_less
    by blast
  also have "\<dots> \<longleftrightarrow> unat address = unat base + start \<and> start + unat n \<le> arena \<and> start + unat n < 2 ^ 64"
  proof
    assume "\<exists>s stop. unat address = unat base + unat s \<and> unat s + unat n = unat (stop :: u64) \<and>
      unat stop \<le> arena \<and> start = unat (s :: u64)"
    then show "unat address = unat base + start \<and> start + unat n \<le> arena \<and> start + unat n < 2 ^ 64"
      by (metis unat_u64_bound)
  next
    assume a: "unat address = unat base + start \<and> start + unat n \<le> arena \<and> start + unat n < 2 ^ 64"
    then have "unat (of_nat start :: u64) = start" "unat (of_nat (start + unat n) :: u64) = start + unat n"
      unfolding unat_of_nat by simp_all
    then show "\<exists>s stop. unat address = unat base + unat s \<and> unat s + unat n = unat (stop :: u64) \<and>
      unat stop \<le> arena \<and> start = unat (s :: u64)"
      using a by metis
  qed
  finally show ?thesis .
qed

lemma source_range_Inr:
  assumes "source_range source offset n = Inr start"
  shows "start = unat offset" and "start + unat n \<le> length source"
  using assms by (auto simp: source_range_def result_iff checked_add_Some split: if_splits)

lemma view_Inr:
  assumes "view source segs base arena address m f n h = Inr v"
  shows "view_ok segs v" and "mv_is_header v = h"
    and "unat address = unat base + mv_destination_offset v" and "mv_memory_size v = unat m"
    and "mv_file_offset v = unat f" and "mv_file_size v = unat n"
  using assms source_range_Inr
  by (fastforce simp: view_def result_iff Let_def relative_range_Inr view_ok_def list_ex_iff not_less split: if_splits)+

lemma plan_segment_Inr:
  assumes "plan_segment source base arena (i, s) = Inr ss"
  shows "unat (seg_address s) = unat base + ss_destination_offset ss"
    and "ss_destination_offset ss + ss_memory_size ss \<le> arena"
    and "ss_memory_size ss = unat (seg_memory_size s)" and "ss_file_size ss = unat (fr_size (seg_file s))"
    and "ss_file_offset ss = fr_first (seg_file s)" and "ss_collection_segment_index ss = i"
    and "ss_virtual_address ss = seg_address s"
  using assms source_range_Inr
  by (fastforce simp: plan_segment_def result_iff relative_range_Inr fr_first_def)+

lemma sorted_chain:
  assumes "sorted_wrt (\<lambda>a b. ss_destination_offset a + ss_memory_size a \<le> ss_destination_offset b) segs"
    and "\<And>s. s \<in> set segs \<Longrightarrow> p \<le> ss_destination_offset s \<and>
       ss_destination_offset s + ss_memory_size s \<le> arena \<and>
       ss_file_size s \<le> ss_memory_size s \<and> ss_file_offset s + ss_file_size s \<le> n"
    and "p \<le> arena"
  shows "chain n p segs \<and> chain_end p segs \<le> arena"
  using assms
proof (induction segs arbitrary: p)
  case (Cons s segs)
  have s: "p \<le> ss_destination_offset s \<and> ss_destination_offset s + ss_memory_size s \<le> arena \<and>
       ss_file_size s \<le> ss_memory_size s \<and> ss_file_offset s + ss_file_size s \<le> n"
    by (rule Cons.prems(2)) simp
  have "chain n (ss_destination_offset s + ss_memory_size s) segs \<and>
    chain_end (ss_destination_offset s + ss_memory_size s) segs \<le> arena"
    by (rule Cons.IH) (use Cons.prems s in auto)
  then show ?case using s by simp
qed simp

text \<open>What planning establishes, for an inspection whose segments are sound.\<close>

definition planned_segment :: "u64 \<Rightarrow> segment_metadata \<Rightarrow> staging_segment \<Rightarrow> bool" where
  "planned_segment base s ss \<longleftrightarrow>
     unat (seg_address s) = unat base + ss_destination_offset ss \<and>
     ss_memory_size ss = unat (seg_memory_size s) \<and> ss_file_size ss = unat (fr_size (seg_file s)) \<and>
     ss_file_offset ss = fr_first (seg_file s)"

definition planned_view :: "u64 \<Rightarrow> segment_metadata \<Rightarrow> member_view \<Rightarrow> bool" where
  "planned_view base s v \<longleftrightarrow>
     unat (seg_address s) = unat base + mv_destination_offset v \<and>
     mv_file_size v = unat (fr_size (seg_file s)) \<and> mv_file_offset v = fr_first (seg_file s)"

lemma filter_enumerate_mem:
  "s \<in> set xs \<Longrightarrow> P s \<Longrightarrow> \<exists>i. (i, s) \<in> set (filter (\<lambda>(_, s). P s) (enumerate n xs))"
  by (auto simp: in_set_conv_nth) (metis (no_types, lifting) add.commute in_set_conv_nth nth_enumerate_eq length_enumerate)

lemma list_all2_set2: "list_all2 P xs ys \<Longrightarrow> x \<in> set xs \<Longrightarrow> \<exists>y \<in> set ys. P x y"
  by (induction rule: list_all2_induct) auto

lemma member_views_Inr:
  assumes "member_views source segs base arena m = Inr vs"
  shows "\<forall>v \<in> set vs. view_ok segs v"
    and "s \<in> set (im_segments (fm_image m)) \<Longrightarrow> seg_memory_size s \<noteq> 0 \<Longrightarrow> \<exists>v \<in> set vs. planned_view base s v"
proof -
  let ?f = "\<lambda>s. view source segs base arena (seg_address s) (seg_memory_size s)
      (fr_offset (seg_file s)) (fr_size (seg_file s)) False"
  let ?segs = "filter (\<lambda>s. seg_memory_size s \<noteq> 0) (im_segments (fm_image m))"
  from assms obtain header views a n f where vs: "vs = header # views"
    and h: "view source segs base arena a n f n True = Inr header"
    and all: "list_all2 (\<lambda>s v. ?f s = Inr v) ?segs views"
    by (auto simp: member_views_def Let_def result_iff)
  have "view_ok segs v" if "v \<in> set views" for v
    using list_all2_set1 [OF all that] view_Inr(1) by blast
  then show "\<forall>v \<in> set vs. view_ok segs v" using vs view_Inr(1) [OF h] by auto
  assume "s \<in> set (im_segments (fm_image m))" and "seg_memory_size s \<noteq> 0"
  then have "s \<in> set ?segs" by simp
  from list_all2_set2 [OF all this] obtain v where "v \<in> set views" "?f s = Inr v" by blast
  then show "\<exists>v \<in> set vs. planned_view base s v"
    using view_Inr [of source segs base arena "seg_address s"] vs
    by (intro bexI [of _ v]) (auto simp: planned_view_def fr_first_def)
qed

lemma from_inspection_Inr:
  assumes plan: "from_inspection R source insp page_size = Inr plan"
    and segs_ok: "\<forall>s \<in> set (im_segments (ki_collection insp)). segment_ok (length source) s"
  shows "plan_ok plan" and "sp_source plan = source" and "sp_inspection plan = insp"
    and "s \<in> set (im_segments (ki_collection insp)) \<Longrightarrow> seg_memory_size s \<noteq> 0 \<Longrightarrow>
      \<exists>ss \<in> set (sp_segments plan). planned_segment (sp_minimum_virtual_address plan) s ss"
    and "m \<in> set (ki_members insp) \<Longrightarrow> s \<in> set (im_segments (fm_image m)) \<Longrightarrow> seg_memory_size s \<noteq> 0 \<Longrightarrow>
      \<exists>v \<in> set (sp_member_views plan). planned_view (sp_minimum_virtual_address plan) s v"
    and "ss \<in> set (sp_segments plan) \<Longrightarrow> \<exists>s \<in> set (im_segments (ki_collection insp)).
      seg_memory_size s \<noteq> 0 \<and> planned_segment (sp_minimum_virtual_address plan) s ss"
    and "\<exists>ip. plan_entry (im_entry (ki_collection insp)) = Inr ip \<and>
      unat ip = unat (sp_minimum_virtual_address plan) + sp_outer_entry_offset plan \<and>
      sp_outer_entry_offset plan < sp_arena_size plan"
    and "unat (im_header_address (ki_collection insp)) =
      unat (sp_minimum_virtual_address plan) + sp_collection_header_offset plan"
    and "sp_page_size plan = page_size"
    and "\<exists>first padded. sp_minimum_virtual_address plan = first AND NOT (page_size - 1) \<and>
      sp_arena_size plan = unat (padded AND NOT (page_size - 1)) - unat (sp_minimum_virtual_address plan) \<and>
      sp_minimum_virtual_address plan \<le> padded AND NOT (page_size - 1)"
proof -
  let ?c = "ki_collection insp"
  let ?idx = "filter (\<lambda>(_, s). seg_memory_size s \<noteq> 0) (enumerate 0 (im_segments ?c))"
  from plan obtain first padded span :: u64 and unsorted u header entry_ip entry_offset view_count views where
    span: "checked_sub (padded AND NOT (page_size - 1)) (first AND NOT (page_size - 1)) = Some span"
    and size: "\<not> (span = 0 \<or> MAX_STAGING_SIZE < unat span \<or> 2 ^ 63 - 1 < unat span)"
    and segs: "list_all2 (\<lambda>x y. plan_segment source (first AND NOT (page_size - 1)) (unat span) x = Inr y) ?idx unsorted"
    and apart: "for_windows check_staging_pair (sort_key ss_destination_offset unsorted) = Inr u"
    and header: "relative_range (im_header_address ?c) (32 + ucast (im_command_bytes ?c))
        (first AND NOT (page_size - 1)) (unat span) = Inr header"
    and entry: "plan_entry (im_entry ?c) = Inr entry_ip"
    and entry_at: "relative_range entry_ip 1 (first AND NOT (page_size - 1)) (unat span) = Inr entry_offset"
    and views: "list_all2 (\<lambda>m vs. member_views source (sort_key ss_destination_offset unsorted)
        (first AND NOT (page_size - 1)) (unat span) m = Inr vs) (ki_members insp) views"
    and p: "\<lparr> sp_source = source, sp_inspection = insp, sp_segments = sort_key ss_destination_offset unsorted,
             sp_member_views = sort_key mv_destination_offset (concat views),
             sp_minimum_virtual_address = first AND NOT (page_size - 1), sp_arena_size = unat span,
             sp_collection_header_offset = header,
             sp_outer_entry_offset = entry_offset, sp_page_size = page_size \<rparr> = plan"
    unfolding from_inspection_def Let_def split_paired_Ex and_then_Inr if_Inl_Inr prod.case sum.inject
      try_map_Inr ok_or_Inr
    by (elim exE conjE) (rule that, assumption+)
  define base where "base = first AND NOT (page_size - 1)"
  have set: "set (sp_segments plan) = set unsorted" by (simp flip: p)
  have "span \<le> span" and small: "unat span \<le> MAX_STAGING_SIZE" using size by simp_all
  have each: "\<exists>s \<in> set (im_segments ?c). seg_memory_size s \<noteq> 0 \<and> planned_segment base s ss \<and>
      ss_destination_offset ss + ss_memory_size ss \<le> unat span" if ss: "ss \<in> set unsorted" for ss
  proof -
    obtain x where x: "x \<in> set ?idx" "plan_segment source base (unat span) x = Inr ss"
      using list_all2_set1 [OF segs ss] by (auto simp: base_def)
    obtain i s where xs: "x = (i, s)" by (cases x)
    have "s \<in> set (im_segments ?c)" "seg_memory_size s \<noteq> 0"
      using x(1) xs by (auto simp: in_set_enumerate_eq)
    then show ?thesis
      using plan_segment_Inr [OF x(2) [unfolded xs]] by (intro bexI [of _ s]) (auto simp: planned_segment_def)
  qed
  have bounds: "0 \<le> ss_destination_offset ss \<and> ss_destination_offset ss + ss_memory_size ss \<le> unat span \<and>
       ss_file_size ss \<le> ss_memory_size ss \<and> ss_file_offset ss + ss_file_size ss \<le> length source"
    if ss: "ss \<in> set (sort_key ss_destination_offset unsorted)" for ss
  proof -
    obtain s where s: "s \<in> set (im_segments ?c)" "planned_segment base s ss"
      "ss_destination_offset ss + ss_memory_size ss \<le> unat span"
      using each [of ss] ss by auto
    then show ?thesis
      using segs_ok by (auto simp: planned_segment_def segment_ok_def fr_last_def fr_first_def)
  qed
  have "sorted_wrt (\<lambda>a b. ss_destination_offset a + ss_memory_size a \<le> ss_destination_offset b)
      (sort_key ss_destination_offset unsorted)"
    by (rule for_windows_ordered [OF apart sorted_sort_key])
      (auto simp: check_staging_pair_def split: if_splits)
  then have "chain (length source) 0 (sp_segments plan) \<and> chain_end 0 (sp_segments plan) \<le> unat span"
    unfolding p [symmetric] kc_staging_plan.simps by (rule sorted_chain) (use bounds in auto)
  moreover have "\<forall>v \<in> set (sp_member_views plan). view_ok (sp_segments plan) v"
  proof
    fix v assume "v \<in> set (sp_member_views plan)"
    then obtain vs where vs: "vs \<in> set views" "v \<in> set vs" by (auto simp flip: p)
    from list_all2_set1 [OF views vs(1)] show "view_ok (sp_segments plan) v"
      using member_views_Inr(1) vs(2) by (auto simp flip: p)
  qed
  moreover have "MAX_STAGING_SIZE < 2 ^ 63" by (simp add: MAX_STAGING_SIZE_def)
  ultimately show "plan_ok plan" using small by (auto simp: plan_ok_def simp flip: p)
  show "sp_source plan = source" "sp_inspection plan = insp" "sp_page_size plan = page_size"
    by (simp_all flip: p)
  show "\<exists>ss \<in> set (sp_segments plan). planned_segment (sp_minimum_virtual_address plan) s ss"
    if s: "s \<in> set (im_segments ?c)" "seg_memory_size s \<noteq> 0"
  proof -
    obtain i where "(i, s) \<in> set ?idx" using filter_enumerate_mem [OF s(1), of "\<lambda>s. seg_memory_size s \<noteq> 0"] s(2) by blast
    from list_all2_set2 [OF segs this] obtain ss where "ss \<in> set unsorted"
      "plan_segment source base (unat span) (i, s) = Inr ss" by (auto simp: base_def)
    then show ?thesis using plan_segment_Inr [of source base "unat span" i s ss] set
      by (intro bexI [of _ ss]) (auto simp: planned_segment_def base_def simp flip: p)
  qed
  show "\<exists>v \<in> set (sp_member_views plan). planned_view (sp_minimum_virtual_address plan) s v"
    if m: "m \<in> set (ki_members insp)" and s: "s \<in> set (im_segments (fm_image m))" "seg_memory_size s \<noteq> 0"
  proof -
    from list_all2_set2 [OF views m] obtain vs where "vs \<in> set views"
      "member_views source (sort_key ss_destination_offset unsorted) base (unat span) m = Inr vs"
      by (auto simp: base_def)
    then show ?thesis using member_views_Inr(2) [OF _ s] by (fastforce simp: base_def simp flip: p)
  qed
  show "\<exists>s \<in> set (im_segments ?c). seg_memory_size s \<noteq> 0 \<and> planned_segment (sp_minimum_virtual_address plan) s ss"
    if "ss \<in> set (sp_segments plan)"
    using each [of ss] that set by (auto simp: base_def simp flip: p)
  show "\<exists>ip. plan_entry (im_entry ?c) = Inr ip \<and>
      unat ip = unat (sp_minimum_virtual_address plan) + sp_outer_entry_offset plan \<and>
      sp_outer_entry_offset plan < sp_arena_size plan"
    using entry entry_at by (auto simp: relative_range_Inr simp flip: p)
  show "unat (im_header_address ?c) = unat (sp_minimum_virtual_address plan) + sp_collection_header_offset plan"
    using header by (simp add: relative_range_Inr flip: p)
  have "unat (padded AND NOT (page_size - 1)) = unat base + unat span"
    using span by (simp only: checked_sub_Some base_def)
  then show "\<exists>first padded. sp_minimum_virtual_address plan = first AND NOT (page_size - 1) \<and>
      sp_arena_size plan = unat (padded AND NOT (page_size - 1)) - unat (sp_minimum_virtual_address plan) \<and>
      sp_minimum_virtual_address plan \<le> padded AND NOT (page_size - 1)"
    by (intro exI [of _ first] exI [of _ padded]) (simp add: base_def word_le_nat_alt flip: p)
qed

end
