(* ===== verification/Kc_Staging_Theorems.thy ===== *)
theory Kc_Staging_Theorems
  imports Kc_Staging_Proofs
begin

text \<open>
  What the staging of a collection guarantees: a plan that was built is always carried out, the
  arena it leaves is the one specified byte by byte by \<open>staged_arena\<close>, the readback accepts that
  arena and no other, and the accounting of the verification adds up to the arena. At the end
  the sample collection is planned, as the witness of the hypotheses.
\<close>

definition planned_by_new :: "(staging_reservation \<Rightarrow> bool) \<Rightarrow> byte_string \<Rightarrow> kc_staging_plan \<Rightarrow> bool" where
  "planned_by_new R source plan \<longleftrightarrow> staging_new R source = Inr plan \<or> staging_new_arm64 R source = Inr plan"

lemma planned_by_new_Inr:
  assumes "planned_by_new R source plan"
  obtains insp page_size profile where "inspect_profile source profile = Inr insp"
    and "from_inspection R source insp page_size = Inr plan"
    and "page_size = STAGING_PAGE_SIZE \<or> page_size = ARM64_STAGING_PAGE_SIZE"
    and "\<forall>s \<in> set (im_segments (ki_collection insp)). segment_ok (length source) s"
proof -
  obtain insp page_size profile where i: "inspect_profile source profile = Inr insp"
    "from_inspection R source insp page_size = Inr plan"
    "page_size = STAGING_PAGE_SIZE \<or> page_size = ARM64_STAGING_PAGE_SIZE"
    using assms
    by (auto simp: planned_by_new_def staging_new_def staging_new_arm64_def result_iff
        inspect_kernel_collection_def inspect_arm64_kernel_collection_def)
  moreover have "\<forall>s \<in> set (im_segments (ki_collection insp)). segment_ok (length source) s"
    using inspect_profile_Inr(2) [OF i(1)] by (simp add: image_ok_def)
  ultimately show thesis by (rule that)
qed

lemma planned_ok: "planned_by_new R source plan \<Longrightarrow> plan_ok plan"
  by (elim planned_by_new_Inr) (rule from_inspection_Inr(1))

section \<open>The accounting of the verification\<close>

definition accounted :: "staging_verification \<Rightarrow> nat" where
  "accounted v = sv_copied_bytes v + sv_zero_tail_bytes v + sv_hole_bytes v"

lemma count_segments_accounted:
  assumes "chain n (vs_previous_end st) segs"
  shows "accounted (vs_result (foldl count_segment st segs)) + vs_previous_end st =
    accounted (vs_result st) + chain_end (vs_previous_end st) segs"
  using assms
proof (induction segs arbitrary: st)
  case (Cons s segs)
  have "accounted (vs_result (count_segment st s)) + vs_previous_end st =
    accounted (vs_result st) + vs_previous_end (count_segment st s)"
    using Cons.prems by (simp add: accounted_def count_segment_def)
  moreover have "vs_previous_end (count_segment st s) = ss_destination_offset s + ss_memory_size s"
    by (simp add: count_segment_def)
  ultimately show ?case using Cons.IH [of "count_segment st s"] Cons.prems by simp
qed simp

lemma segments_counted_accounted:
  assumes "plan_ok plan"
  shows "accounted (segments_counted plan) = sp_arena_size plan"
proof -
  let ?st = "\<lparr> vs_result = initial_verification plan, vs_previous_end = 0 \<rparr>"
  have "chain_end 0 (sp_segments plan) \<le> sp_arena_size plan" using assms by (simp add: plan_ok_def)
  moreover have "accounted (vs_result (foldl count_segment ?st (sp_segments plan))) = chain_end 0 (sp_segments plan)"
    using count_segments_accounted [of "length (sp_source plan)" ?st "sp_segments plan"] assms
    by (simp add: plan_ok_def accounted_def initial_verification_def)
  ultimately show ?thesis
    by (simp add: segments_counted_def Let_def accounted_def foldl_count_end)
qed

lemma verify_view_keeps:
  assumes "verify_view al source bs st v = Inr st'"
  shows "accounted (ws_result st') = accounted (ws_result st)"
  using assms by (auto simp: verify_view_def Let_def result_iff accounted_def split: if_splits)

lemma verify_views_keep:
  assumes "try_fold (verify_view al source bs) st vs = Inr st'"
  shows "accounted (ws_result st') = accounted (ws_result st)"
  using assms by (induction vs arbitrary: st) (auto simp: result_iff dest: verify_view_keeps)

lemma verify_observed_accounted:
  assumes ok: "plan_ok plan" and v: "verify_observed al plan bs = (Inr v, ph)"
  shows "accounted v = sp_arena_size plan"
proof -
  have len: "length bs = sp_arena_size plan" and r: "\<exists>r. verify_segments al plan bs = Inr r"
    using v by (auto simp: verify_observed_def result_iff split: if_splits)
  have seg: "verify_segments al plan bs = Inr (segments_counted plan)"
    using r verify_segments_eq [OF ok len, of al] by (auto split: if_splits)
  obtain st where "try_fold (verify_view al (sp_source plan) bs)
      \<lparr> ws_result = segments_counted plan, ws_covered_end = 0 \<rparr> (sp_member_views plan) = Inr st" "v = ws_result st"
    using v len by (auto simp: verify_observed_def seg result_iff)
  then show ?thesis using verify_views_keep segments_counted_accounted [OF ok] by fastforce
qed

section \<open>Theorems\<close>

text \<open>
  C3. A plan that was built is always carried out: into any destination of the size of the arena,
  whatever it held before and however it is aligned, staging ends without an error and without a
  panic, reports its four phases in their order, and leaves exactly the specified arena, the file
  bytes of every segment at its offset and zeros everywhere else.
\<close>

theorem stage_into_refines:
  assumes "planned_by_new R source plan" and "length destination = sp_arena_size plan"
  shows "\<exists>v. stage_into_observed al plan destination = (Inr v, staged_arena plan,
    [DestinationInitialized, SegmentsCopied, ArenaVerified, MemberViewsVerified])"
  by (rule stage_into_observed_eq [OF planned_ok]) (fact assms)+

text \<open>
  C15. The readback is exact: it accepts the specified arena and rejects every other destination,
  one that differs in a single file byte, zero tail or hole included; a destination of the right
  size that differs is reported as a readback mismatch before any phase is reported.
\<close>

theorem verify_detects:
  assumes "planned_by_new R source plan"
  shows "((\<exists>v. verify_arena al plan bs = Inr v) \<longleftrightarrow> bs = staged_arena plan) \<and>
    (length bs = sp_arena_size plan \<and> bs \<noteq> staged_arena plan \<longrightarrow>
      verify_observed al plan bs = (Inl KS_ReadbackMismatch, []))"
  using verify_arena_eq(1,2) [OF planned_ok [OF assms]] by blast

text \<open>
  The accounting of a successful verification is a partition of the arena: the bytes copied,
  the zero tails of the segments and the holes between them add up to the size of the arena.
\<close>

theorem verification_partitions_arena:
  assumes "planned_by_new R source plan" and "verify_arena al plan bs = Inr v"
  shows "sv_copied_bytes v + sv_zero_tail_bytes v + sv_hole_bytes v = sp_arena_size plan"
  using verify_observed_accounted [OF planned_ok [OF assms(1)], of al bs v] assms(2)
  by (cases "verify_observed al plan bs") (simp add: verify_arena_def accounted_def)

text \<open>The byte of the staged arena where a segment of the collection or of a member is loaded.\<close>

lemma arena_segment_byte:
  assumes ok: "plan_ok plan" and ss: "ss \<in> set (sp_segments plan)"
    and k: "k < ss_memory_size ss"
  shows "ss_destination_offset ss + k < sp_arena_size plan \<and>
    staged_arena plan ! (ss_destination_offset ss + k) =
      (if k < ss_file_size ss then sp_source plan ! (ss_file_offset ss + k) else 0)"
proof -
  have ch: "chain (length (sp_source plan)) 0 (sp_segments plan)"
    "chain_end 0 (sp_segments plan) \<le> sp_arena_size plan" using ok by (simp_all add: plan_ok_def)
  have "ss_destination_offset ss + k < sp_arena_size plan" using chain_mem(2) [OF ch(1) ss] ch(2) k by simp
  moreover have "staged_byte (sp_source plan) (sp_segments plan) (ss_destination_offset ss + k) =
      (if k < ss_file_size ss then sp_source plan ! (ss_file_offset ss + k) else 0)"
    using staged_byte_owned [OF ch(1) ss, of "ss_destination_offset ss + k"] k by simp
  ultimately show ?thesis by (simp add: staged_arena_def)
qed

lemma arena_view_byte:
  assumes ok: "plan_ok plan" and v: "v \<in> set (sp_member_views plan)" and k: "k < mv_file_size v"
  shows "mv_destination_offset v + k < sp_arena_size plan \<and>
    staged_arena plan ! (mv_destination_offset v + k) = sp_source plan ! (mv_file_offset v + k)"
proof -
  obtain ss where ss: "ss \<in> set (sp_segments plan)" "mv_file_size v \<le> mv_memory_size v"
    "ss_destination_offset ss \<le> mv_destination_offset v"
    "mv_destination_offset v + mv_memory_size v \<le> ss_destination_offset ss + ss_memory_size ss"
    "ss_file_offset ss \<le> mv_file_offset v" "mv_file_offset v + mv_file_size v \<le> ss_file_offset ss + ss_file_size ss"
    "mv_destination_offset v - ss_destination_offset ss = mv_file_offset v - ss_file_offset ss"
    using ok v k by (auto simp: plan_ok_def view_ok_def)
  define j where "j = mv_destination_offset v - ss_destination_offset ss + k"
  have "ss_destination_offset ss + j = mv_destination_offset v + k" "ss_file_offset ss + j = mv_file_offset v + k"
    "j < ss_memory_size ss" "j < ss_file_size ss"
    using ss k by (auto simp: j_def)
  then show ?thesis using arena_segment_byte [OF ok ss(1), of j] by simp
qed

text \<open>
  The staged arena is the memory image of the collection: at the address of every segment of
  the collection, counted from the lowest page the plan covers, stand the file bytes of the
  segment and then zeros up to its memory size; at the address of every segment of a member, its
  file bytes; and the entry point of the kernel lies in the arena.
\<close>

theorem staged_arena_layout:
  assumes "planned_by_new R source plan"
  shows "(\<forall>s k. s \<in> set (im_segments (ki_collection (sp_inspection plan))) \<and> k < unat (seg_memory_size s) \<longrightarrow>
      unat (sp_minimum_virtual_address plan) \<le> unat (seg_address s) + k \<and>
      unat (seg_address s) + k - unat (sp_minimum_virtual_address plan) < sp_arena_size plan \<and>
      staged_arena plan ! (unat (seg_address s) + k - unat (sp_minimum_virtual_address plan)) =
        (if k < unat (fr_size (seg_file s)) then source ! (fr_first (seg_file s) + k) else 0)) \<and>
    (\<forall>m s k. m \<in> set (ki_members (sp_inspection plan)) \<and> s \<in> set (im_segments (fm_image m)) \<and>
        k < unat (fr_size (seg_file s)) \<and> seg_memory_size s \<noteq> 0 \<longrightarrow>
      unat (sp_minimum_virtual_address plan) \<le> unat (seg_address s) + k \<and>
      staged_arena plan ! (unat (seg_address s) + k - unat (sp_minimum_virtual_address plan)) =
        source ! (fr_first (seg_file s) + k)) \<and>
    (\<exists>ip. plan_entry (im_entry (ki_collection (sp_inspection plan))) = Inr ip \<and>
      unat ip = unat (sp_minimum_virtual_address plan) + sp_outer_entry_offset plan \<and>
      sp_outer_entry_offset plan < sp_arena_size plan)"
proof -
  obtain insp page_size profile where "from_inspection R source insp page_size = Inr plan"
    and "\<forall>s \<in> set (im_segments (ki_collection insp)). segment_ok (length source) s"
    using planned_by_new_Inr [OF assms] by blast
  note I = from_inspection_Inr [OF this]
  have seg: "unat (sp_minimum_virtual_address plan) \<le> unat (seg_address s) + k \<and>
      unat (seg_address s) + k - unat (sp_minimum_virtual_address plan) < sp_arena_size plan \<and>
      staged_arena plan ! (unat (seg_address s) + k - unat (sp_minimum_virtual_address plan)) =
        (if k < unat (fr_size (seg_file s)) then source ! (fr_first (seg_file s) + k) else 0)"
    if s: "s \<in> set (im_segments (ki_collection insp))" and k: "k < unat (seg_memory_size s)" for s k
  proof -
    have "seg_memory_size s \<noteq> 0" using k by auto
    from I(4) [OF s this] obtain ss where "ss \<in> set (sp_segments plan)"
      "planned_segment (sp_minimum_virtual_address plan) s ss" by blast
    then show ?thesis using arena_segment_byte [OF I(1), of ss k] k I(2) by (simp add: planned_segment_def)
  qed
  have mem: "unat (sp_minimum_virtual_address plan) \<le> unat (seg_address s) + k \<and>
      staged_arena plan ! (unat (seg_address s) + k - unat (sp_minimum_virtual_address plan)) =
        source ! (fr_first (seg_file s) + k)"
    if m: "m \<in> set (ki_members insp)" and s: "s \<in> set (im_segments (fm_image m))"
      and k: "k < unat (fr_size (seg_file s))" and "seg_memory_size s \<noteq> 0" for m s k
  proof -
    from I(5) [OF m s that(4)] obtain v where "v \<in> set (sp_member_views plan)"
      "planned_view (sp_minimum_virtual_address plan) s v" by blast
    then show ?thesis using arena_view_byte [OF I(1), of v k] k I(2) by (simp add: planned_view_def)
  qed
  show ?thesis unfolding I(3) using seg mem I(7) by blast
qed

section \<open>The sample collection, planned\<close>

definition sample_plan :: kc_staging_plan where
  "sample_plan = \<lparr> sp_source = sample_collection, sp_inspection = sample_inspection,
     sp_segments = [\<lparr> ss_collection_segment_index = 0, ss_virtual_address = SAMPLE_BASE, ss_destination_offset = 0,
       ss_memory_size = 0x4000, ss_file_offset = 0, ss_file_size = 536, ss_initial_protection = 5, ss_maximum_protection = 7 \<rparr>],
     sp_member_views =
       [\<lparr> mv_destination_offset = 432, mv_memory_size = 104, mv_file_offset = 432, mv_file_size = 104, mv_is_header = True \<rparr>,
        \<lparr> mv_destination_offset = 432, mv_memory_size = 0x100, mv_file_offset = 432, mv_file_size = 104, mv_is_header = False \<rparr>],
     sp_minimum_virtual_address = SAMPLE_BASE, sp_arena_size = 0x4000, sp_collection_header_offset = 0,
     sp_outer_entry_offset = 16, sp_page_size = ARM64_STAGING_PAGE_SIZE \<rparr>"

lemma sample_planned_arm64: "staging_new_arm64 (\<lambda>_. True) sample_collection = Inr sample_plan"
proof -
  have "from_inspection (\<lambda>_. True) sample_collection sample_inspection ARM64_STAGING_PAGE_SIZE = Inr sample_plan"
    by (simp add: from_inspection_def sample_inspection_def sample_outer_def sample_member_def sample_segment_def
        Let_def widen_def checked_add_def checked_sub_def SAMPLE_BASE_def ARM64_STAGING_PAGE_SIZE_def
        MAX_STAGING_SIZE_def plan_segment_def relative_range_def source_range_def plan_entry_def count_views_def
        usize_add_def member_views_def view_def sample_plan_def)
  then show ?thesis
    by (simp add: staging_new_arm64_def inspect_arm64_kernel_collection_def sample_inspected)
qed

lemma sample_planned: "planned_by_new (\<lambda>_. True) sample_collection sample_plan"
  by (simp add: planned_by_new_def sample_planned_arm64)

lemma stage_into_refines_witness:
  "length (replicate 0x4000 (0xff :: 8 word)) = sp_arena_size sample_plan \<and>
   (\<exists>v. stage_into_observed (\<lambda>_ _. 3) sample_plan (replicate 0x4000 0xff) = (Inr v, staged_arena sample_plan,
    [DestinationInitialized, SegmentsCopied, ArenaVerified, MemberViewsVerified]))"
  using stage_into_refines [OF sample_planned, of "replicate 0x4000 0xff"] by (simp add: sample_plan_def)

lemma sample_plan_verified: "\<exists>v. verify_arena (\<lambda>_ _. 0) sample_plan (staged_arena sample_plan) = Inr v"
  using verify_arena_eq(1) [OF planned_ok [OF sample_planned]] by blast

lemma verify_detects_witness:
  "planned_by_new (\<lambda>_. True) sample_collection sample_plan \<and>
   (\<exists>v. verify_arena (\<lambda>_ _. 0) sample_plan (staged_arena sample_plan) = Inr v)"
  using verify_detects [OF sample_planned, of "\<lambda>_ _. 0" "staged_arena sample_plan"] sample_planned by simp

lemma verification_partitions_arena_witness:
  "\<exists>v. verify_arena (\<lambda>_ _. 0) sample_plan (staged_arena sample_plan) = Inr v \<and>
    sv_copied_bytes v + sv_zero_tail_bytes v + sv_hole_bytes v = 0x4000"
proof -
  obtain v where v: "verify_arena (\<lambda>_ _. 0) sample_plan (staged_arena sample_plan) = Inr v"
    using sample_plan_verified by blast
  from verification_partitions_arena [OF sample_planned v] v show ?thesis by (simp add: sample_plan_def)
qed

lemma staged_arena_layout_witness:
  "sample_segment SAMPLE_BASE 0x4000 0 536 \<in> set (im_segments (ki_collection (sp_inspection sample_plan))) \<and>
   staged_arena sample_plan ! 12 = sample_collection ! 12 \<and> staged_arena sample_plan ! 0x1000 = 0"
proof -
  let ?s = "sample_segment SAMPLE_BASE 0x4000 0 536"
  have s: "?s \<in> set (im_segments (ki_collection (sp_inspection sample_plan)))"
    by (simp add: sample_plan_def sample_inspection_def sample_outer_def)
  have base: "sp_minimum_virtual_address sample_plan = SAMPLE_BASE" by (simp add: sample_plan_def)
  have at: "seg_address ?s = SAMPLE_BASE" by (simp add: sample_segment_def)
  have byte: "staged_arena sample_plan ! k =
      (if k < unat (fr_size (seg_file ?s)) then sample_collection ! (fr_first (seg_file ?s) + k) else 0)"
    if "k < unat (seg_memory_size ?s)" for k
    using conjunct1 [OF staged_arena_layout [OF sample_planned], rule_format, of ?s k] that s
    unfolding base at by simp
  from byte [of 12] byte [of "0x1000"] s show ?thesis by (simp add: sample_segment_def fr_first_def)
qed

section \<open>The sample, inspected\<close>

lemma inspect_images_wellformed_witness:
  "inspect_profile sample_collection Arm64 = Inr sample_inspection \<and>
   image_ok 536 sample_outer \<and> image_ok 536 sample_member"
  using inspect_images_wellformed [OF sample_inspected] sample_inspected
  by (simp add: collection_images_def sample_inspection_def)

lemma inspect_members_contained_witness:
  "inspect_profile sample_collection Arm64 = Inr sample_inspection \<and>
   member_in_collection (ki_collection sample_inspection) sample_member"
  using inspect_members_contained [OF sample_inspected] sample_inspected
  by (simp add: sample_inspection_def)

lemma inspect_counts_bounded_witness:
  "inspect_profile sample_collection Arm64 = Inr sample_inspection \<and>
   within_limits (total_counts (collection_images sample_inspection))"
  using inspect_counts_bounded [OF sample_inspected] sample_inspected by simp

end
