(* ===== verification/Arm64_Handoff.thy ===== *)
theory Arm64_Handoff
  imports Kc_Staging Arm64_Boot_Args
begin

text \<open>
  Models of \<^verbatim>\<open>src/xnu_arm64_handoff.rs\<close> (placement of the staged collection, the boot
  arguments, the device tree, the stack and an optional framebuffer, and the staging of all of
  them into one allocation) and of \<^verbatim>\<open>src/xnu_arm64_backing.rs\<close> (the check of the borrowed RAM
  and page tables the allocation is to live in). A slice index or a subtraction that fails would
  panic: \<open>Ah_Panic\<close>. The host addresses of the two borrowed slices are arguments.
\<close>

section \<open>Data\<close>

definition MAX_DEVICE_TREE_BYTES :: nat where "MAX_DEVICE_TREE_BYTES = 1024 * 1024"
definition ARM_BOOT_STACK_BYTES :: u64 where "ARM_BOOT_STACK_BYTES = 64 * 1024"
definition ARM_BOOTSTRAP_BLOCK_BYTES :: u64 where "ARM_BOOTSTRAP_BLOCK_BYTES = 32 * 1024 * 1024"

record framebuffer_geometry =
  fg_width :: u32
  fg_height :: u32
  fg_row_bytes :: u32

record framebuffer_layout =
  fl_base_phys :: u64
  fl_byte_len :: u64
  fl_reserved_bytes :: u64
  fl_geometry :: framebuffer_geometry

record placement_input =
  pl_physical_base :: u64
  pl_virtual_base :: u64
  pl_memory_size :: u64
  pl_actual_memory_size :: u64
  pl_kernel_phys :: u64
  pl_device_tree :: byte_string
  pl_command_line :: byte_string
  pl_machine_type :: u32
  pl_boot_flags :: u64
  pl_video :: arm64_boot_video

record handoff_layout =
  hl_kernel_phys :: u64
  hl_kernel_bytes :: nat
  hl_collection_header_phys :: u64
  hl_entry_phys :: u64
  hl_boot_args_phys :: u64
  hl_device_tree_phys :: u64
  hl_stack_top_phys :: u64
  hl_occupied_end :: u64
  hl_allocation_bytes :: nat

datatype handoff_phase =
    HP_DestinationInitialized
  | HP_CollectionInitialized
  | HP_CollectionSegmentsCopied
  | HP_CollectionArenaVerified
  | HP_CollectionMemberViewsVerified
  | HP_CollectionVerified
  | HP_TailVerified

datatype handoff_error =
    Ah_Staging kc_staging_error
  | Ah_BootArgs arm64_boot_args_error
  | Ah_InvalidPlacement
  | Ah_BootstrapCorrespondence
  | Ah_DeviceTreeTooLarge
  | Ah_AddressOverflow
  | Ah_DestinationSize
  | Ah_ReadbackMismatch
  | Ah_InvalidFramebufferGeometry
  | Ah_ConflictingVideo
  | Ah_Panic \<comment> \<open>a slice index or a subtraction that fails; not a value of the source's enum\<close>

record handoff_plan =
  hp_staging :: kc_staging_plan
  hp_layout :: handoff_layout
  hp_boot_args :: arm64_boot_args_encoding
  hp_device_tree :: byte_string
  hp_framebuffer :: "framebuffer_layout option"

definition hp_execution_ready :: "handoff_plan \<Rightarrow> bool" where
  "hp_execution_ready plan \<longleftrightarrow> False"

section \<open>Placement\<close>

definition handoff_align_up :: "u64 \<Rightarrow> handoff_error + u64" where
  "handoff_align_up v =
     and_then (ok_or (checked_add v (VMAPPLE_PAGE_SIZE - 1)) Ah_AddressOverflow) (\<lambda>padded.
     Inr (padded AND NOT (VMAPPLE_PAGE_SIZE - 1)))"

definition place_framebuffer ::
  "u64 \<Rightarrow> framebuffer_geometry option \<Rightarrow> handoff_error + framebuffer_layout option" where
  "place_framebuffer stack_top_phys geometry =
     (case geometry of
        None \<Rightarrow> Inr None
      | Some g \<Rightarrow>
          and_then (ok_or (checked_mul (ucast (fg_row_bytes g)) (ucast (fg_height g))) Ah_AddressOverflow)
            (\<lambda>byte_len.
          and_then (handoff_align_up byte_len) (\<lambda>reserved_bytes.
          Inr (Some \<lparr> fl_base_phys = stack_top_phys, fl_byte_len = byte_len,
                      fl_reserved_bytes = reserved_bytes, fl_geometry = g \<rparr>))))"

definition framebuffer_video :: "framebuffer_layout \<Rightarrow> arm64_boot_video" where
  "framebuffer_video f =
     \<lparr> av_base_address = fl_base_phys f, av_display = 1,
       av_row_bytes = ucast (fg_row_bytes (fl_geometry f)),
       av_width = ucast (fg_width (fl_geometry f)),
       av_height = ucast (fg_height (fl_geometry f)), av_depth = 32 \<rparr>"

definition build_handoff ::
  "(staging_reservation \<Rightarrow> bool) \<Rightarrow> byte_string \<Rightarrow> placement_input \<Rightarrow> framebuffer_geometry option \<Rightarrow>
   handoff_error + handoff_plan" where
  "build_handoff R source input geometry =
     (if pl_device_tree input = [] \<or> MAX_DEVICE_TREE_BYTES < length (pl_device_tree input)
      then Inl Ah_DeviceTreeTooLarge
      else
      and_then (map_err Ah_Staging (staging_new_arm64 R source)) (\<lambda>staging.
      if pl_kernel_phys input mod VMAPPLE_PAGE_SIZE \<noteq> 0 \<or> pl_kernel_phys input < pl_physical_base input
      then Inl Ah_InvalidPlacement
      else
      and_then (ok_or (checked_sub (pl_kernel_phys input) (pl_physical_base input)) Ah_AddressOverflow)
        (\<lambda>physical_offset.
      and_then (ok_or (checked_add (pl_virtual_base input) physical_offset) Ah_AddressOverflow)
        (\<lambda>expected_virtual.
      if expected_virtual \<noteq> sp_minimum_virtual_address staging \<or>
         pl_virtual_base input mod ARM_BOOTSTRAP_BLOCK_BYTES \<noteq> pl_physical_base input mod ARM_BOOTSTRAP_BLOCK_BYTES
      then Inl Ah_BootstrapCorrespondence
      else
      let kernel_bytes = sp_arena_size staging in
      and_then (ok_or (checked_add (pl_kernel_phys input) (of_nat kernel_bytes)) Ah_AddressOverflow)
        (\<lambda>boot_args_phys.
      and_then (ok_or (checked_add boot_args_phys VMAPPLE_PAGE_SIZE) Ah_AddressOverflow) (\<lambda>device_tree_phys.
      and_then (ok_or (checked_add device_tree_phys (of_nat (length (pl_device_tree input)))) Ah_AddressOverflow)
        (\<lambda>device_tree_end.
      and_then (handoff_align_up device_tree_end) (\<lambda>stack_base.
      and_then (ok_or (checked_add stack_base ARM_BOOT_STACK_BYTES) Ah_AddressOverflow) (\<lambda>stack_top_phys.
      and_then (place_framebuffer stack_top_phys geometry) (\<lambda>framebuffer.
      let video = (case framebuffer of None \<Rightarrow> pl_video input | Some f \<Rightarrow> framebuffer_video f) in
      and_then (case framebuffer of
           None \<Rightarrow> Inr stack_top_phys
         | Some f \<Rightarrow> ok_or (checked_add (fl_base_phys f) (fl_reserved_bytes f)) Ah_AddressOverflow) (\<lambda>occupied_end.
      and_then (ok_or (checked_sub occupied_end (pl_kernel_phys input)) Ah_AddressOverflow) (\<lambda>allocation.
      let allocation_bytes = unat allocation in
      if 2 ^ 63 - 1 < allocation_bytes then Inl Ah_AddressOverflow
      else
      and_then (ok_or (checked_add (pl_kernel_phys input) (of_nat (sp_collection_header_offset staging)))
        Ah_AddressOverflow) (\<lambda>collection_header_phys.
      and_then (ok_or (checked_add (pl_kernel_phys input) (of_nat (sp_outer_entry_offset staging)))
        Ah_AddressOverflow) (\<lambda>entry_phys.
      let layout = \<lparr> hl_kernel_phys = pl_kernel_phys input, hl_kernel_bytes = kernel_bytes,
            hl_collection_header_phys = collection_header_phys, hl_entry_phys = entry_phys,
            hl_boot_args_phys = boot_args_phys, hl_device_tree_phys = device_tree_phys,
            hl_stack_top_phys = stack_top_phys, hl_occupied_end = occupied_end,
            hl_allocation_bytes = allocation_bytes \<rparr> in
      and_then (map_err Ah_BootArgs (encode_arm64_boot_args
          \<lparr> ai_physical_base = pl_physical_base input, ai_virtual_base = pl_virtual_base input,
            ai_memory_size = pl_memory_size input, ai_actual_memory_size = pl_actual_memory_size input,
            ai_top_of_kernel_data = occupied_end, ai_kernel_phys = pl_kernel_phys input,
            ai_kernel_size = of_nat kernel_bytes, ai_boot_args_phys = boot_args_phys,
            ai_device_tree_phys = device_tree_phys, ai_device_tree = pl_device_tree input,
            ai_command_line = pl_command_line input, ai_machine_type = pl_machine_type input,
            ai_boot_flags = pl_boot_flags input, ai_video = video \<rparr>)) (\<lambda>boot_args.
      Inr \<lparr> hp_staging = staging, hp_layout = layout, hp_boot_args = boot_args,
             hp_device_tree = pl_device_tree input, hp_framebuffer = framebuffer \<rparr>)))))))))))))))"

definition handoff_new ::
  "(staging_reservation \<Rightarrow> bool) \<Rightarrow> byte_string \<Rightarrow> placement_input \<Rightarrow> handoff_error + handoff_plan" where
  "handoff_new R source input = build_handoff R source input None"

definition handoff_new_with_framebuffer ::
  "(staging_reservation \<Rightarrow> bool) \<Rightarrow> byte_string \<Rightarrow> placement_input \<Rightarrow> framebuffer_geometry \<Rightarrow>
   handoff_error + handoff_plan" where
  "handoff_new_with_framebuffer R source input geometry =
     (if pl_video input \<noteq> boot_video_default then Inl Ah_ConflictingVideo
      else
      and_then (ok_or (checked_mul (fg_width geometry) 4) Ah_InvalidFramebufferGeometry) (\<lambda>minimum_row.
      if fg_width geometry = 0 \<or> fg_height geometry = 0 \<or> fg_row_bytes geometry < minimum_row \<or>
         fg_row_bytes geometry mod 4 \<noteq> 0
      then Inl Ah_InvalidFramebufferGeometry
      else build_handoff R source input (Some geometry)))"

section \<open>Staging\<close>

definition handoff_phase_of :: "kc_staging_phase \<Rightarrow> handoff_phase" where
  "handoff_phase_of phase =
     (case phase of
        DestinationInitialized \<Rightarrow> HP_CollectionInitialized
      | SegmentsCopied \<Rightarrow> HP_CollectionSegmentsCopied
      | ArenaVerified \<Rightarrow> HP_CollectionArenaVerified
      | MemberViewsVerified \<Rightarrow> HP_CollectionMemberViewsVerified)"

text \<open>The offsets of the arguments and of the tree in the allocation.\<close>

definition tail_offset :: "handoff_layout \<Rightarrow> u64 \<Rightarrow> handoff_error + nat" where
  "tail_offset layout phys =
     ok_or (map_option unat (checked_sub phys (hl_kernel_phys layout))) Ah_Panic"

definition tail_byte :: "handoff_plan \<Rightarrow> nat \<Rightarrow> nat \<Rightarrow> nat \<Rightarrow> 8 word" where
  "tail_byte plan args dt offset =
     (if args \<le> offset \<and> offset - args < length (ae_bytes (hp_boot_args plan))
      then ae_bytes (hp_boot_args plan) ! (offset - args)
      else if dt \<le> offset \<and> offset - dt < length (hp_device_tree plan)
      then hp_device_tree plan ! (offset - dt)
      else 0)"

definition verify_tail :: "handoff_plan \<Rightarrow> byte_string \<Rightarrow> handoff_error + unit" where
  "verify_tail plan destination =
     and_then (tail_offset (hp_layout plan) (hl_boot_args_phys (hp_layout plan))) (\<lambda>args.
     and_then (tail_offset (hp_layout plan) (hl_device_tree_phys (hp_layout plan))) (\<lambda>dt.
     for_each (\<lambda>(offset, byte).
        if byte \<noteq> tail_byte plan args dt offset then Inl Ah_ReadbackMismatch else Inr ())
       (drop (hl_kernel_bytes (hp_layout plan)) (enumerate 0 destination))))"

definition handoff_stage_into_observed ::
  "(nat \<Rightarrow> nat \<Rightarrow> nat) \<Rightarrow> handoff_plan \<Rightarrow> byte_string \<Rightarrow>
   (handoff_error + staging_verification) \<times> byte_string \<times> handoff_phase list" where
  "handoff_stage_into_observed al plan destination =
     (let layout = hp_layout plan in
      if length destination \<noteq> hl_allocation_bytes layout
      then (Inl Ah_DestinationSize, destination, [])
      else
      let destination = replicate (length destination) 0; phases = [HP_DestinationInitialized] in
      or_return (ok_or (get_range destination 0 (hl_kernel_bytes layout)) Ah_Panic) (destination, phases) (\<lambda>arena.
      case stage_into_observed al (hp_staging plan) arena of (r, arena, collection_phases) \<Rightarrow>
      let destination = put_bytes destination 0 arena;
          phases = phases @ map handoff_phase_of collection_phases in
      or_return (map_err Ah_Staging r) (destination, phases) (\<lambda>verification.
      let phases = phases @ [HP_CollectionVerified] in
      or_return (tail_offset layout (hl_boot_args_phys layout)) (destination, phases) (\<lambda>args.
      or_return (tail_offset layout (hl_device_tree_phys layout)) (destination, phases) (\<lambda>dt.
      or_return (ok_or (copy_from_slice destination (args, args + length (ae_bytes (hp_boot_args plan)))
         (ae_bytes (hp_boot_args plan))) Ah_Panic) (destination, phases) (\<lambda>destination.
      or_return (ok_or (copy_from_slice destination (dt, dt + length (hp_device_tree plan))
         (hp_device_tree plan)) Ah_Panic) (destination, phases) (\<lambda>destination.
      or_return (verify_tail plan destination) (destination, phases) (\<lambda>_.
      (Inr verification, destination, phases @ [HP_TailVerified])))))))))"

definition handoff_stage_into ::
  "(nat \<Rightarrow> nat \<Rightarrow> nat) \<Rightarrow> handoff_plan \<Rightarrow> byte_string \<Rightarrow>
   (handoff_error + staging_verification) \<times> byte_string" where
  "handoff_stage_into al plan destination =
     (case handoff_stage_into_observed al plan destination of (r, bytes, _) \<Rightarrow> (r, bytes))"

definition handoff_verify :: "(nat \<Rightarrow> nat \<Rightarrow> nat) \<Rightarrow> handoff_plan \<Rightarrow> byte_string \<Rightarrow> handoff_error + unit" where
  "handoff_verify al plan destination =
     (if length destination \<noteq> hl_allocation_bytes (hp_layout plan) then Inl Ah_DestinationSize
      else
      and_then (ok_or (get_range destination 0 (hl_kernel_bytes (hp_layout plan))) Ah_Panic) (\<lambda>arena.
      and_then (map_err Ah_Staging (verify_arena al (hp_staging plan) arena)) (\<lambda>_.
      verify_tail plan destination)))"

section \<open>The borrowed backing\<close>

definition BACKING_PAGE :: u64 where "BACKING_PAGE = 16 * 1024"
definition PA_LIMIT :: u64 where "PA_LIMIT = push_bit 48 1"

datatype backing_error =
    Ab_InvalidLayout
  | Ab_InvalidRange
  | Ab_InsufficientRam
  | Ab_OverlappingGuestRanges
  | Ab_OverlappingHostRanges

record handoff_backing =
  hb_ram :: byte_string
  hb_ram_base :: u64
  hb_tables :: byte_string
  hb_table_base :: u64
  hb_handoff_offset :: nat
  hb_handoff_bytes :: nat

definition valid_layout :: "handoff_layout \<Rightarrow> bool" where
  "valid_layout layout \<longleftrightarrow> \<not>
     (hl_kernel_bytes layout = 0 \<or>
      hl_kernel_phys layout mod BACKING_PAGE \<noteq> 0 \<or>
      hl_kernel_bytes layout mod unat BACKING_PAGE \<noteq> 0 \<or>
      hl_allocation_bytes layout mod unat BACKING_PAGE \<noteq> 0 \<or>
      hl_occupied_end layout mod BACKING_PAGE \<noteq> 0 \<or>
      hl_allocation_bytes layout \<le> hl_kernel_bytes layout \<or>
      checked_add (hl_kernel_phys layout) (of_nat (hl_kernel_bytes layout)) \<noteq> Some (hl_boot_args_phys layout) \<or>
      checked_add (hl_boot_args_phys layout) BACKING_PAGE \<noteq> Some (hl_device_tree_phys layout) \<or>
      hl_stack_top_phys layout mod BACKING_PAGE \<noteq> 0 \<or>
      (case checked_add (hl_device_tree_phys layout) (BACKING_PAGE + ARM_BOOT_STACK_BYTES) of
         None \<Rightarrow> True | Some minimum \<Rightarrow> hl_stack_top_phys layout < minimum) \<or>
      hl_occupied_end layout < hl_stack_top_phys layout \<or>
      checked_add (hl_kernel_phys layout) (of_nat (hl_allocation_bytes layout)) \<noteq> Some (hl_occupied_end layout))"

definition backing_new ::
  "handoff_layout \<Rightarrow> byte_string \<Rightarrow> nat \<Rightarrow> u64 \<Rightarrow> byte_string \<Rightarrow> nat \<Rightarrow> u64 \<Rightarrow>
   backing_error + handoff_backing" where
  "backing_new layout ram ram_start ram_base tables table_start table_base =
     (if \<not> valid_layout layout then Inl Ab_InvalidLayout
      else
      and_then (ok_or (u64_of_usize (length ram)) Ab_InvalidRange) (\<lambda>ram_len.
      and_then (ok_or (u64_of_usize (length tables)) Ab_InvalidRange) (\<lambda>table_len.
      if ram_base mod BACKING_PAGE \<noteq> 0 \<or> table_base mod BACKING_PAGE \<noteq> 0 \<or>
         ram_len < BACKING_PAGE \<or> table_len < BACKING_PAGE \<or>
         ram_len mod BACKING_PAGE \<noteq> 0 \<or> table_len mod BACKING_PAGE \<noteq> 0 \<or>
         PA_LIMIT \<le> ram_base \<or> PA_LIMIT \<le> table_base \<or>
         PA_LIMIT - ram_base < ram_len \<or> PA_LIMIT - table_base < table_len
      then Inl Ab_InvalidRange
      else if ram_base < table_base + table_len \<and> table_base < ram_base + ram_len
      then Inl Ab_OverlappingGuestRanges
      else
      and_then (ok_or (map_option unat (checked_sub (hl_kernel_phys layout) ram_base)) Ab_InsufficientRam)
        (\<lambda>offset.
      if offset mod unat BACKING_PAGE \<noteq> 0 \<or>
         (case usize_add offset (hl_allocation_bytes layout) of
            None \<Rightarrow> True | Some stop \<Rightarrow> length ram < stop)
      then Inl Ab_InsufficientRam
      else
      and_then (ok_or (usize_add ram_start (length ram)) Ab_InvalidRange) (\<lambda>ram_end.
      and_then (ok_or (usize_add table_start (length tables)) Ab_InvalidRange) (\<lambda>table_end.
      if ram_start < table_end \<and> table_start < ram_end then Inl Ab_OverlappingHostRanges
      else
      Inr \<lparr> hb_ram = ram, hb_ram_base = ram_base, hb_tables = tables, hb_table_base = table_base,
             hb_handoff_offset = offset, hb_handoff_bytes = hl_allocation_bytes layout \<rparr>))))))"

text \<open>
  The mutable view \<^verbatim>\<open>handoff_mut\<close> gives out: what it shows (\<open>None\<close>, a panic, where the range
  leaves the RAM), and the backing once the view has been written.
\<close>

definition handoff_mut :: "handoff_backing \<Rightarrow> byte_string option" where
  "handoff_mut b = get_range (hb_ram b) (hb_handoff_offset b) (hb_handoff_offset b + hb_handoff_bytes b)"

definition handoff_write :: "handoff_backing \<Rightarrow> byte_string \<Rightarrow> handoff_backing" where
  "handoff_write b bytes = b\<lparr> hb_ram := put_bytes (hb_ram b) (hb_handoff_offset b) bytes \<rparr>"

definition service_parts :: "handoff_backing \<Rightarrow> byte_string \<times> u64 \<times> byte_string \<times> u64" where
  "service_parts b = (hb_ram b, hb_ram_base b, hb_tables b, hb_table_base b)"

end
