(* ===== verification/Arm64_Handoff_Proofs.thy ===== *)
theory Arm64_Handoff_Proofs
  imports Arm64_Handoff Arm64_Boot_Args_Proofs Kc_Staging_Theorems Guest_Memory
begin

text \<open>
  What the handoff placement establishes, \<open>placed\<close>, and what staging leaves in the allocation,
  \<open>handoff_image\<close>: the staged arena, the boot arguments in a page of their own, the device tree,
  and zeros (the stack and the framebuffer).
\<close>

section \<open>Placement\<close>

text \<open>The rounding is the one of the ledger, at the page size of the platform.\<close>

lemma handoff_align_up_ledger:
  "handoff_align_up v = map_err (\<lambda>_. Ah_AddressOverflow) (align_up v VMAPPLE_PAGE_SIZE)"
  by (simp add: handoff_align_up_def align_up_def ok_or_def map_err_def and_then_def split: option.splits)

lemma vmapple_power: "is_power_of_two VMAPPLE_PAGE_SIZE" "unat VMAPPLE_PAGE_SIZE = 16384"
  by (auto simp: is_power_of_two_def VMAPPLE_PAGE_SIZE_def intro!: bexI [of _ 14])

lemma handoff_align_up_Inr:
  assumes "handoff_align_up v = Inr w"
  shows "unat v \<le> unat w" and "unat w < unat v + 16384" and "unat w mod 16384 = 0"
proof -
  have "align_up v VMAPPLE_PAGE_SIZE = Inr w"
    using assms by (cases "align_up v VMAPPLE_PAGE_SIZE") (auto simp: handoff_align_up_ledger map_err_def)
  then show "unat v \<le> unat w" "unat w < unat v + 16384" "unat w mod 16384 = 0"
    using gm_rounding.round_up_Inr [OF vmapple_power(1)] unfolding vmapple_power(2) by blast+
qed

text \<open>What a plan that was built satisfies.\<close>

definition placed :: "handoff_plan \<Rightarrow> bool" where
  "placed plan \<longleftrightarrow> (let l = hp_layout plan; staging = hp_staging plan in
     plan_ok staging \<and> sp_arena_size staging mod 16384 = 0 \<and>
     hl_kernel_bytes l = sp_arena_size staging \<and> 0 < hl_kernel_bytes l \<and>
     unat (hl_kernel_phys l) mod 16384 = 0 \<and>
     unat (hl_boot_args_phys l) = unat (hl_kernel_phys l) + hl_kernel_bytes l \<and>
     unat (hl_device_tree_phys l) = unat (hl_boot_args_phys l) + 16384 \<and>
     unat (hl_device_tree_phys l) + length (hp_device_tree plan) + 65536 \<le> unat (hl_stack_top_phys l) \<and>
     unat (hl_stack_top_phys l) < unat (hl_device_tree_phys l) + length (hp_device_tree plan) + 65536 + 16384 \<and>
     unat (hl_stack_top_phys l) mod 16384 = 0 \<and>
     hp_device_tree plan \<noteq> [] \<and> length (hp_device_tree plan) \<le> MAX_DEVICE_TREE_BYTES \<and>
     unat (hl_stack_top_phys l) \<le> unat (hl_occupied_end l) \<and> unat (hl_occupied_end l) mod 16384 = 0 \<and>
     unat (hl_occupied_end l) = unat (hl_kernel_phys l) + hl_allocation_bytes l \<and>
     hl_allocation_bytes l < 2 ^ 63 \<and>
     length (ae_bytes (hp_boot_args plan)) = 1152)"

lemma encoded_boot_args:
  assumes "encode_arm64_boot_args i = Inr e"
  shows "length (ae_bytes e) = 1152" and "ae_physical_address e = ai_boot_args_phys i"
    and "unat (ai_top_of_kernel_data i) < unat (ai_physical_base i) + unat (ai_memory_size i)"
    and "map (word64_at (ae_bytes e)) [40, 48, 56, 64, 72, 80] =
      [av_base_address (ai_video i), av_display (ai_video i), av_row_bytes (ai_video i),
       av_width (ai_video i), av_height (ai_video i), av_depth (ai_video i)]"
proof -
  obtain ram_end d v where e: "ae_bytes e = boot_args_bytes i d v" "ae_physical_address e = ai_boot_args_phys i"
    and len: "length (ai_command_line i) \<le> ARM64_COMMAND_LINE_MAX"
    and ram: "checked_add (ai_physical_base i) (ai_memory_size i) = Some ram_end"
    "ai_top_of_kernel_data i < ram_end"
    using encode_arm64_Inr [OF assms] by force
  have "length (ai_command_line i) \<le> 1023" using len by (simp add: ARM64_COMMAND_LINE_MAX_def)
  note reads = boot_args_bytes_reads [OF this, where d = d and v = v]
  show "length (ae_bytes e) = 1152" unfolding e(1) by (rule reads(1))
  show "map (word64_at (ae_bytes e)) [40, 48, 56, 64, 72, 80] =
      [av_base_address (ai_video i), av_display (ai_video i), av_row_bytes (ai_video i),
       av_width (ai_video i), av_height (ai_video i), av_depth (ai_video i)]"
    unfolding e(1) using reads(4) by (simp add: boot_args_fields_def)
  show "ae_physical_address e = ai_boot_args_phys i" by (rule e(2))
  show "unat (ai_top_of_kernel_data i) < unat (ai_physical_base i) + unat (ai_memory_size i)"
    using ram by (simp add: checked_add_Some word_less_nat_alt)
qed

text \<open>The arena of an ARM64 plan is a whole number of pages, and the base address too.\<close>

lemma arm64_plan_pages:
  assumes "staging_new_arm64 R source = Inr staging"
  shows "planned_by_new R source staging"
    and "unat (sp_minimum_virtual_address staging) mod 16384 = 0" and "sp_arena_size staging mod 16384 = 0"
proof -
  show planned: "planned_by_new R source staging" using assms by (simp add: planned_by_new_def)
  obtain insp where i: "inspect_profile source Arm64 = Inr insp"
    "from_inspection R source insp ARM64_STAGING_PAGE_SIZE = Inr staging"
    using assms by (auto simp: staging_new_arm64_def result_iff inspect_arm64_kernel_collection_def)
  have "\<forall>s \<in> set (im_segments (ki_collection insp)). segment_ok (length source) s"
    using inspect_profile_Inr(2) [OF i(1)] by (simp add: image_ok_def)
  note P = from_inspection_Inr [OF i(2) this]
  have page: "ARM64_STAGING_PAGE_SIZE = VMAPPLE_PAGE_SIZE"
    by (simp add: ARM64_STAGING_PAGE_SIZE_def VMAPPLE_PAGE_SIZE_def)
  obtain first padded where base: "sp_minimum_virtual_address staging = align_down first VMAPPLE_PAGE_SIZE"
    "sp_arena_size staging = unat (align_down padded VMAPPLE_PAGE_SIZE) - unat (align_down first VMAPPLE_PAGE_SIZE)"
    "align_down first VMAPPLE_PAGE_SIZE \<le> align_down padded VMAPPLE_PAGE_SIZE"
    using P(10) unfolding page by (auto simp: align_down_def)
  have m: "unat (align_down x VMAPPLE_PAGE_SIZE) mod 16384 = 0" for x
    using align_down_props(3) [OF vmapple_power(1), of x] vmapple_power(2) by simp
  show "unat (sp_minimum_virtual_address staging) mod 16384 = 0" unfolding base(1) by (rule m)
  show "sp_arena_size staging mod 16384 = 0"
    unfolding base(2) using m [of padded] m [of first] by (metis dvd_diff_nat mod_eq_0_iff_dvd)
qed

text \<open>The values of a successful placement.\<close>

lemma place_framebuffer_Inr:
  assumes "place_framebuffer stk geometry = Inr fb"
    and "(case fb of None \<Rightarrow> Inr stk
      | Some f \<Rightarrow> ok_or (checked_add (fl_base_phys f) (fl_reserved_bytes f)) Ah_AddressOverflow) = Inr occupied_end"
    and "unat stk mod 16384 = 0"
  shows "unat stk \<le> unat occupied_end" and "unat occupied_end mod 16384 = 0"
proof -
  have "unat stk \<le> unat occupied_end \<and> unat occupied_end mod 16384 = 0"
  proof (cases fb)
    case None
    then have "occupied_end = stk" using assms(2) by simp
    then show ?thesis using assms(3) by (metis le_refl)
  next
    case (Some f)
    then obtain bytes where f: "fl_base_phys f = stk" "handoff_align_up bytes = Inr (fl_reserved_bytes f)"
      using assms(1) by (auto simp: place_framebuffer_def result_iff split: option.splits)
    have "unat stk + unat (fl_reserved_bytes f) = unat occupied_end"
      using assms(2) Some f(1) by (simp add: result_iff checked_add_Some)
    then show ?thesis using handoff_align_up_Inr(3) [OF f(2)] assms(3) by (metis le_add1 mod_add_eq mod_0 add_0)
  qed
  then show "unat stk \<le> unat occupied_end" "unat occupied_end mod 16384 = 0" by blast+
qed

lemma build_handoff_Inr:
  assumes "build_handoff R source input geometry = Inr plan"
  shows "placed plan" and "staging_new_arm64 R source = Inr (hp_staging plan)"
    and "hp_device_tree plan = pl_device_tree input" and "hl_kernel_phys (hp_layout plan) = pl_kernel_phys input"
    and "unat (hl_entry_phys (hp_layout plan)) =
      unat (pl_kernel_phys input) + sp_outer_entry_offset (hp_staging plan)"
    and "unat (hl_collection_header_phys (hp_layout plan)) =
      unat (pl_kernel_phys input) + sp_collection_header_offset (hp_staging plan)"
    and "unat (pl_physical_base input) + unat (sp_minimum_virtual_address (hp_staging plan)) =
      unat (pl_kernel_phys input) + unat (pl_virtual_base input)"
    and "unat (pl_physical_base input) \<le> unat (pl_kernel_phys input)"
    and "unat (hl_occupied_end (hp_layout plan)) < unat (pl_physical_base input) + unat (pl_memory_size input)"
    and "ae_physical_address (hp_boot_args plan) = hl_boot_args_phys (hp_layout plan)"
    and "place_framebuffer (hl_stack_top_phys (hp_layout plan)) geometry = Inr (hp_framebuffer plan)"
    and "(case hp_framebuffer plan of None \<Rightarrow> Inr (hl_stack_top_phys (hp_layout plan))
      | Some f \<Rightarrow> ok_or (checked_add (fl_base_phys f) (fl_reserved_bytes f)) Ah_AddressOverflow) =
      Inr (hl_occupied_end (hp_layout plan))"
    and "\<exists>i. encode_arm64_boot_args i = Inr (hp_boot_args plan) \<and> ai_video i =
      (case hp_framebuffer plan of None \<Rightarrow> pl_video input | Some f \<Rightarrow> framebuffer_video f)"
proof -
  from assms obtain staging and off expected args dt dt_end stack_base stk occupied_end allocation header entry :: u64
      and fb and v :: arm64_boot_video and boot_args where
    tree: "\<not> (pl_device_tree input = [] \<or> MAX_DEVICE_TREE_BYTES < length (pl_device_tree input))"
    and staging: "map_err Ah_Staging (staging_new_arm64 R source) = Inr staging"
    and kernel_phys: "\<not> (pl_kernel_phys input mod VMAPPLE_PAGE_SIZE \<noteq> 0 \<or> pl_kernel_phys input < pl_physical_base input)"
    and off: "checked_sub (pl_kernel_phys input) (pl_physical_base input) = Some off"
    and expected: "checked_add (pl_virtual_base input) off = Some expected"
    and same: "\<not> (expected \<noteq> sp_minimum_virtual_address staging \<or>
         pl_virtual_base input mod ARM_BOOTSTRAP_BLOCK_BYTES \<noteq> pl_physical_base input mod ARM_BOOTSTRAP_BLOCK_BYTES)"
    and args: "checked_add (pl_kernel_phys input) (of_nat (sp_arena_size staging)) = Some args"
    and dt: "checked_add args VMAPPLE_PAGE_SIZE = Some dt"
    and dt_end: "checked_add dt (of_nat (length (pl_device_tree input))) = Some dt_end"
    and stack: "handoff_align_up dt_end = Inr stack_base"
    and stk: "checked_add stack_base ARM_BOOT_STACK_BYTES = Some stk"
    and fb: "place_framebuffer stk geometry = Inr fb"
    and occ: "(case fb of None \<Rightarrow> Inr stk
         | Some f \<Rightarrow> ok_or (checked_add (fl_base_phys f) (fl_reserved_bytes f)) Ah_AddressOverflow) = Inr occupied_end"
    and allocation: "checked_sub occupied_end (pl_kernel_phys input) = Some allocation"
    and small: "\<not> 2 ^ 63 - 1 < unat allocation"
    and header: "checked_add (pl_kernel_phys input) (of_nat (sp_collection_header_offset staging)) = Some header"
    and entry: "checked_add (pl_kernel_phys input) (of_nat (sp_outer_entry_offset staging)) = Some entry"
    and enc: "map_err Ah_BootArgs (encode_arm64_boot_args
          \<lparr> ai_physical_base = pl_physical_base input, ai_virtual_base = pl_virtual_base input,
            ai_memory_size = pl_memory_size input, ai_actual_memory_size = pl_actual_memory_size input,
            ai_top_of_kernel_data = occupied_end, ai_kernel_phys = pl_kernel_phys input,
            ai_kernel_size = of_nat (sp_arena_size staging), ai_boot_args_phys = args,
            ai_device_tree_phys = dt, ai_device_tree = pl_device_tree input,
            ai_command_line = pl_command_line input, ai_machine_type = pl_machine_type input,
            ai_boot_flags = pl_boot_flags input,
            ai_video = (case fb of None \<Rightarrow> pl_video input | Some f \<Rightarrow> framebuffer_video f) \<rparr>) = Inr boot_args"
    and plan: "\<lparr> hp_staging = staging, hp_layout =
          \<lparr> hl_kernel_phys = pl_kernel_phys input, hl_kernel_bytes = sp_arena_size staging,
            hl_collection_header_phys = header, hl_entry_phys = entry,
            hl_boot_args_phys = args, hl_device_tree_phys = dt,
            hl_stack_top_phys = stk, hl_occupied_end = occupied_end,
            hl_allocation_bytes = unat allocation \<rparr>, hp_boot_args = boot_args,
             hp_device_tree = pl_device_tree input, hp_framebuffer = fb \<rparr> = plan"
    unfolding build_handoff_def Let_def split_paired_Ex and_then_Inr if_Inl_Inr prod.case sum.inject ok_or_Inr
    by (elim exE conjE) (rule that, assumption+)
  show new: "staging_new_arm64 R source = Inr (hp_staging plan)"
    using staging by (auto simp: result_iff simp flip: plan)
  note pages = arm64_plan_pages [OF new]
  have ok: "plan_ok (hp_staging plan)" by (rule planned_ok [OF pages(1)])
  then have size: "unat (of_nat (sp_arena_size staging) :: u64) = sp_arena_size staging"
    by (simp add: plan_ok_def unat_of_nat flip: plan)
  have tree_size: "unat (of_nat (length (pl_device_tree input)) :: u64) = length (pl_device_tree input)"
    using tree by (simp add: unat_of_nat MAX_DEVICE_TREE_BYTES_def)
  obtain insp page_size where insp: "from_inspection R source insp page_size = Inr (hp_staging plan)"
    "\<forall>s \<in> set (im_segments (ki_collection insp)). segment_ok (length source) s"
    using planned_by_new_Inr [OF pages(1)] by blast
  note P = from_inspection_Inr [OF insp]
  have "sp_outer_entry_offset staging < sp_arena_size staging" using P(7) by (auto simp flip: plan)
  then have entry_size: "unat (of_nat (sp_outer_entry_offset staging) :: u64) = sp_outer_entry_offset staging"
    using ok by (simp add: plan_ok_def unat_of_nat flip: plan)
  have "unat (im_header_address (ki_collection insp)) =
      unat (sp_minimum_virtual_address staging) + sp_collection_header_offset staging"
    using P(8) by (simp flip: plan)
  then have "sp_collection_header_offset staging < 2 ^ 64"
    by (metis add_lessD1 add.commute unat_u64_bound)
  then have header_size: "unat (of_nat (sp_collection_header_offset staging) :: u64) = sp_collection_header_offset staging"
    by (simp add: unat_of_nat)
  have encoded: "encode_arm64_boot_args
          \<lparr> ai_physical_base = pl_physical_base input, ai_virtual_base = pl_virtual_base input,
            ai_memory_size = pl_memory_size input, ai_actual_memory_size = pl_actual_memory_size input,
            ai_top_of_kernel_data = occupied_end, ai_kernel_phys = pl_kernel_phys input,
            ai_kernel_size = of_nat (sp_arena_size staging), ai_boot_args_phys = args,
            ai_device_tree_phys = dt, ai_device_tree = pl_device_tree input,
            ai_command_line = pl_command_line input, ai_machine_type = pl_machine_type input,
            ai_boot_flags = pl_boot_flags input,
            ai_video = (case fb of None \<Rightarrow> pl_video input | Some f \<Rightarrow> framebuffer_video f) \<rparr> = Inr boot_args"
    using enc by (auto simp: result_iff)
  note E = encoded_boot_args [OF encoded, unfolded arm64_boot_args_input.simps]
  have args': "unat args = unat (pl_kernel_phys input) + sp_arena_size staging"
    using args unfolding checked_add_Some size by simp
  have dt': "unat dt = unat args + 16384"
    using dt unfolding checked_add_Some vmapple_power(2) by simp
  have dt_end': "unat dt_end = unat dt + length (pl_device_tree input)"
    using dt_end unfolding checked_add_Some tree_size by simp
  note stack' = handoff_align_up_Inr [OF stack]
  have "unat ARM_BOOT_STACK_BYTES = 65536" by (simp add: ARM_BOOT_STACK_BYTES_def)
  then have stk': "unat stk = unat stack_base + 65536"
    using stk unfolding checked_add_Some by simp
  have "(unat stack_base + 4 * 16384) mod 16384 = unat stack_base mod 16384" by (rule mod_mult_self1)
  then have top_page: "unat stk mod 16384 = 0" using stack'(3) stk' by simp
  note occ' = place_framebuffer_Inr [OF fb occ top_page]
  have allocation': "unat occupied_end = unat (pl_kernel_phys input) + unat allocation"
    using allocation unfolding checked_sub_Some by simp
  have kernel_page: "unat (pl_kernel_phys input) mod 16384 = 0"
  proof -
    have "unat (pl_kernel_phys input mod VMAPPLE_PAGE_SIZE) = 0" using kernel_phys by simp
    then show ?thesis unfolding unat_mod vmapple_power(2) .
  qed
  have arena: "sp_arena_size staging mod 16384 = 0" "0 < sp_arena_size staging"
    using pages(3) \<open>sp_outer_entry_offset staging < sp_arena_size staging\<close> by (simp_all flip: plan)
  have proj: "hp_staging plan = staging" "hp_device_tree plan = pl_device_tree input" "hp_boot_args plan = boot_args"
    "hl_kernel_bytes (hp_layout plan) = sp_arena_size staging"
    "hl_kernel_phys (hp_layout plan) = pl_kernel_phys input" "hl_boot_args_phys (hp_layout plan) = args"
    "hl_device_tree_phys (hp_layout plan) = dt" "hl_stack_top_phys (hp_layout plan) = stk"
    "hl_occupied_end (hp_layout plan) = occupied_end" "hl_allocation_bytes (hp_layout plan) = unat allocation"
    by (simp_all flip: plan)
  have stack_room: "unat dt + length (pl_device_tree input) + 65536 \<le> unat stk"
    "unat stk < unat dt + length (pl_device_tree input) + 65536 + 16384"
    using dt_end' stack'(1,2) stk' by linarith+
  have tree': "pl_device_tree input \<noteq> []" "length (pl_device_tree input) \<le> MAX_DEVICE_TREE_BYTES"
    using tree by simp_all
  have small': "unat allocation < 2 ^ 63" using small by simp
  show "placed plan"
    unfolding placed_def Let_def proj
    by (intro conjI) (rule refl ok [unfolded proj] arena kernel_page args' dt' stack_room top_page tree' occ' allocation' small' E(1))+
  show "hp_device_tree plan = pl_device_tree input" "hl_kernel_phys (hp_layout plan) = pl_kernel_phys input"
    by (simp_all flip: plan)
  show "unat (hl_entry_phys (hp_layout plan)) =
      unat (pl_kernel_phys input) + sp_outer_entry_offset (hp_staging plan)"
    using entry unfolding checked_add_Some entry_size by (simp flip: plan)
  show "unat (hl_collection_header_phys (hp_layout plan)) =
      unat (pl_kernel_phys input) + sp_collection_header_offset (hp_staging plan)"
    using header unfolding checked_add_Some header_size by (simp flip: plan)
  show "unat (pl_physical_base input) + unat (sp_minimum_virtual_address (hp_staging plan)) =
      unat (pl_kernel_phys input) + unat (pl_virtual_base input)"
    using off expected same unfolding checked_add_Some checked_sub_Some by (simp flip: plan)
  show "unat (pl_physical_base input) \<le> unat (pl_kernel_phys input)"
    using kernel_phys by (simp add: not_less word_le_nat_alt)
  show "unat (hl_occupied_end (hp_layout plan)) < unat (pl_physical_base input) + unat (pl_memory_size input)"
    using E(3) by (simp flip: plan)
  show "ae_physical_address (hp_boot_args plan) = hl_boot_args_phys (hp_layout plan)"
    using E(2) by (simp flip: plan)
  have "hp_framebuffer plan = fb" by (simp flip: plan)
  note P = proj this
  show "place_framebuffer (hl_stack_top_phys (hp_layout plan)) geometry = Inr (hp_framebuffer plan)"
    unfolding P by (rule fb)
  show "(case hp_framebuffer plan of None \<Rightarrow> Inr (hl_stack_top_phys (hp_layout plan))
      | Some f \<Rightarrow> ok_or (checked_add (fl_base_phys f) (fl_reserved_bytes f)) Ah_AddressOverflow) =
      Inr (hl_occupied_end (hp_layout plan))"
    unfolding P by (rule occ)
  show "\<exists>i. encode_arm64_boot_args i = Inr (hp_boot_args plan) \<and> ai_video i =
      (case hp_framebuffer plan of None \<Rightarrow> pl_video input | Some f \<Rightarrow> framebuffer_video f)"
    unfolding P using encoded by (metis arm64_boot_args_input.select_convs(14))
qed

section \<open>The image\<close>

text \<open>
  What the allocation holds when it is staged: the arena of the collection, the argument block
  with zeros up to its page, the device tree, and zeros.
\<close>

definition handoff_image :: "handoff_plan \<Rightarrow> byte_string" where
  "handoff_image plan =
     (let front = staged_arena (hp_staging plan) @
            ae_bytes (hp_boot_args plan) @ replicate (16384 - length (ae_bytes (hp_boot_args plan))) 0 @
            hp_device_tree plan
      in front @ replicate (hl_allocation_bytes (hp_layout plan) - length front) 0)"

lemma placed_tail:
  assumes "placed plan"
  shows "length (handoff_image plan) = hl_allocation_bytes (hp_layout plan)"
    and "take (hl_kernel_bytes (hp_layout plan)) (handoff_image plan) = staged_arena (hp_staging plan)"
    and "tail_offset (hp_layout plan) (hl_boot_args_phys (hp_layout plan)) = Inr (hl_kernel_bytes (hp_layout plan))"
    and "tail_offset (hp_layout plan) (hl_device_tree_phys (hp_layout plan)) =
      Inr (hl_kernel_bytes (hp_layout plan) + 16384)"
    and "hl_kernel_bytes (hp_layout plan) + 16384 + length (hp_device_tree plan) + 65536 \<le>
      hl_allocation_bytes (hp_layout plan)"
proof -
  let ?l = "hp_layout plan"
  have p: "hl_kernel_bytes ?l = sp_arena_size (hp_staging plan)"
    "unat (hl_boot_args_phys ?l) = unat (hl_kernel_phys ?l) + hl_kernel_bytes ?l"
    "unat (hl_device_tree_phys ?l) = unat (hl_boot_args_phys ?l) + 16384"
    "unat (hl_device_tree_phys ?l) + length (hp_device_tree plan) + 65536 \<le> unat (hl_stack_top_phys ?l)"
    "unat (hl_stack_top_phys ?l) \<le> unat (hl_occupied_end ?l)"
    "unat (hl_occupied_end ?l) = unat (hl_kernel_phys ?l) + hl_allocation_bytes ?l"
    "length (ae_bytes (hp_boot_args plan)) = 1152"
    using assms unfolding placed_def Let_def by blast+
  show room: "hl_kernel_bytes ?l + 16384 + length (hp_device_tree plan) + 65536 \<le> hl_allocation_bytes ?l"
    using p(2-6) by linarith
  show "length (handoff_image plan) = hl_allocation_bytes ?l"
    using room p(1,7) by (simp add: handoff_image_def Let_def)
  show "take (hl_kernel_bytes ?l) (handoff_image plan) = staged_arena (hp_staging plan)"
    using p(1) by (simp add: handoff_image_def Let_def)
  have off: "tail_offset ?l phys = Inr n" if "unat phys = unat (hl_kernel_phys ?l) + n" for phys n
  proof -
    have "n < 2 ^ 64" using that unat_u64_bound [of phys] by linarith
    then have "unat (of_nat n :: u64) = n" by (simp add: unat_of_nat)
    then have "checked_sub phys (hl_kernel_phys ?l) = Some (of_nat n)"
      using that unfolding checked_sub_Some by simp
    then show ?thesis using \<open>unat (of_nat n :: u64) = n\<close> by (simp add: tail_offset_def ok_or_def)
  qed
  show "tail_offset ?l (hl_boot_args_phys ?l) = Inr (hl_kernel_bytes ?l)" by (rule off) (rule p(2))
  show "tail_offset ?l (hl_device_tree_phys ?l) = Inr (hl_kernel_bytes ?l + 16384)"
    by (rule off) (use p(2,3) in simp)
qed

lemma handoff_image_tail:
  assumes "placed plan" and "hl_kernel_bytes (hp_layout plan) \<le> i" and "i < hl_allocation_bytes (hp_layout plan)"
  shows "handoff_image plan ! i =
    tail_byte plan (hl_kernel_bytes (hp_layout plan)) (hl_kernel_bytes (hp_layout plan) + 16384) i"
proof -
  have p: "hl_kernel_bytes (hp_layout plan) = sp_arena_size (hp_staging plan)"
    "length (ae_bytes (hp_boot_args plan)) = 1152"
    using assms(1) unfolding placed_def Let_def by blast+
  have "i < length (handoff_image plan)" using placed_tail(1) assms by simp
  then show ?thesis
    using assms(2,3) p placed_tail(5) [OF assms(1)]
    by (auto simp: handoff_image_def tail_byte_def Let_def nth_append add.commute)
qed

lemma set_drop_enumerate:
  "set (drop k (enumerate 0 xs)) = {(i, xs ! i) |i. k \<le> i \<and> i < length xs}"
proof -
  have "drop k (enumerate 0 xs) = map (\<lambda>i. (i, xs ! i)) [k ..< length xs]"
    by (rule nth_equalityI) (simp_all add: nth_enumerate_eq)
  then show ?thesis by auto
qed

lemma verify_tail_iff:
  assumes ok: "placed plan" and len: "length bs = hl_allocation_bytes (hp_layout plan)"
  shows "verify_tail plan bs =
    (if drop (hl_kernel_bytes (hp_layout plan)) bs = drop (hl_kernel_bytes (hp_layout plan)) (handoff_image plan)
     then Inr () else Inl Ah_ReadbackMismatch)"
proof -
  let ?k = "hl_kernel_bytes (hp_layout plan)" let ?E = "handoff_image plan"
  let ?f = "\<lambda>(offset, byte). if byte \<noteq> tail_byte plan ?k (?k + 16384) offset then Inl Ah_ReadbackMismatch else Inr ()"
  note T = placed_tail [OF ok]
  have v: "verify_tail plan bs = for_each ?f (drop ?k (enumerate 0 bs))"
    by (simp add: verify_tail_def T(3,4))
  note set_drop_enumerate [of ?k bs]
  then have mem: "(i, b) \<in> set (drop ?k (enumerate 0 bs)) \<longleftrightarrow> ?k \<le> i \<and> i < length bs \<and> b = bs ! i" for i b
    by auto
  have "?f (i, b) = Inr () \<longleftrightarrow> b = ?E ! i" if "?k \<le> i" "i < length bs" for i b
    using handoff_image_tail [OF ok] len that by simp
  then have all: "verify_tail plan bs = Inr () \<longleftrightarrow> (\<forall>i. ?k \<le> i \<and> i < length bs \<longrightarrow> bs ! i = ?E ! i)"
    unfolding v for_each_Inr using mem by (metis (no_types, lifting) surj_pair)
  have "verify_tail plan bs = Inr () \<or> verify_tail plan bs = Inl Ah_ReadbackMismatch"
    unfolding v by (cases "for_each ?f (drop ?k (enumerate 0 bs))") (auto dest!: for_each_Inl split: if_splits)
  moreover have "drop ?k bs = drop ?k ?E \<longleftrightarrow> (\<forall>i. ?k \<le> i \<and> i < length bs \<longrightarrow> bs ! i = ?E ! i)"
    using T(1) len by (auto simp: list_eq_iff_nth_eq) (metis add.commute le_Suc_ex nat_add_left_cancel_less less_diff_conv)
  ultimately show ?thesis using all by auto
qed

end
