(* ===== verification/Arm64_Handoff_Theorems.thy ===== *)
theory Arm64_Handoff_Theorems
  imports Arm64_Handoff_Proofs
begin

text \<open>
  What the handoff guarantees: the geometry of the allocation, the image that staging leaves in
  it, the exactness of the readback, the storage of the framebuffer, and the isolation of the
  backing the image is staged into. At the end a handoff is built from the sample collection and
  the sample device tree.
\<close>

definition handoff_built ::
  "(staging_reservation \<Rightarrow> bool) \<Rightarrow> byte_string \<Rightarrow> placement_input \<Rightarrow> framebuffer_geometry option \<Rightarrow>
   handoff_plan \<Rightarrow> bool" where
  "handoff_built R source input geometry plan \<longleftrightarrow>
     (case geometry of
        None \<Rightarrow> handoff_new R source input = Inr plan
      | Some g \<Rightarrow> handoff_new_with_framebuffer R source input g = Inr plan)"

lemma handoff_built_Inr:
  assumes "handoff_built R source input geometry plan"
  shows "build_handoff R source input geometry = Inr plan"
  using assms
  by (auto simp: handoff_built_def handoff_new_def handoff_new_with_framebuffer_def result_iff
      split: option.splits if_splits)

lemma built_placed: "handoff_built R source input geometry plan \<Longrightarrow> placed plan"
  by (rule build_handoff_Inr(1)) (rule handoff_built_Inr)

section \<open>Staging\<close>

lemma placed_kernel:
  assumes "placed plan"
  shows "plan_ok (hp_staging plan)" and "hl_kernel_bytes (hp_layout plan) = sp_arena_size (hp_staging plan)"
    and "length (ae_bytes (hp_boot_args plan)) = 1152"
  using assms unfolding placed_def Let_def by blast+

lemma handoff_stage_eq:
  assumes ok: "placed plan" and len: "length destination = hl_allocation_bytes (hp_layout plan)"
  shows "\<exists>v. handoff_stage_into_observed al plan destination = (Inr v, handoff_image plan,
    [HP_DestinationInitialized, HP_CollectionInitialized, HP_CollectionSegmentsCopied,
     HP_CollectionArenaVerified, HP_CollectionMemberViewsVerified, HP_CollectionVerified, HP_TailVerified])"
proof -
  let ?l = "hp_layout plan" let ?k = "hl_kernel_bytes ?l" let ?n = "hl_allocation_bytes ?l"
  let ?a = "staged_arena (hp_staging plan)" let ?args = "ae_bytes (hp_boot_args plan)"
  let ?tree = "hp_device_tree plan"
  note T = placed_tail [OF ok] note K = placed_kernel [OF ok]
  have arena: "get_range (replicate ?n (0 :: u8)) 0 ?k = Some (replicate ?k 0)"
    using T(5) by (simp add: get_range_def)
  obtain v where stage: "stage_into_observed al (hp_staging plan) (replicate ?k 0) =
      (Inr v, ?a, [DestinationInitialized, SegmentsCopied, ArenaVerified, MemberViewsVerified])"
    using stage_into_observed_eq [OF K(1), of "replicate ?k 0" al] K(2) by auto
  have d1: "put_bytes (replicate ?n 0) 0 ?a = ?a @ replicate (?n - ?k) 0"
    using K(2) by (simp add: put_bytes_def)
  have d2: "copy_from_slice (?a @ replicate (?n - ?k) 0) (?k, ?k + length ?args) ?args =
      Some (?a @ ?args @ replicate (?n - ?k - 1152) 0)"
    using K(2,3) T(5) by (simp add: copy_from_slice_def put_bytes_def)
  have d3: "copy_from_slice (?a @ ?args @ replicate (?n - ?k - 1152) 0)
      (?k + 16384, ?k + 16384 + length ?tree) ?tree = Some (handoff_image plan)"
    using K(2,3) T(5) by (simp add: copy_from_slice_def put_bytes_def handoff_image_def Let_def)
  have v_tail: "verify_tail plan (handoff_image plan) = Inr ()"
    using verify_tail_iff [OF ok T(1)] by simp
  show ?thesis
    unfolding handoff_stage_into_observed_def Let_def len
    by (simp add: arena stage d1 T(3,4) d2 d3 [simplified] v_tail handoff_phase_of_def)
qed

lemma handoff_verify_eq:
  assumes ok: "placed plan"
  shows "handoff_verify al plan bs = Inr () \<longleftrightarrow> bs = handoff_image plan"
    and "handoff_verify al plan bs \<noteq> Inl Ah_Panic"
proof -
  let ?k = "hl_kernel_bytes (hp_layout plan)"
  note T = placed_tail [OF ok] note K = placed_kernel [OF ok]
  have "(handoff_verify al plan bs = Inr () \<longleftrightarrow> bs = handoff_image plan) \<and> handoff_verify al plan bs \<noteq> Inl Ah_Panic"
  proof (cases "length bs = hl_allocation_bytes (hp_layout plan)")
    case False
    then show ?thesis using T(1) by (auto simp: handoff_verify_def)
  next
    case True
    then have r: "get_range bs 0 ?k = Some (take ?k bs)" using T(5) by (simp add: get_range_def)
    have split: "bs = handoff_image plan \<longleftrightarrow>
        take ?k bs = staged_arena (hp_staging plan) \<and> drop ?k bs = drop ?k (handoff_image plan)"
      using T(2) by (metis append_take_drop_id)
    have v: "(\<exists>v. verify_arena al (hp_staging plan) (take ?k bs) = Inr v) \<longleftrightarrow>
        take ?k bs = staged_arena (hp_staging plan)"
      by (rule verify_arena_eq(1) [OF K(1)])
    show ?thesis
      using v verify_tail_iff [OF ok True] split True
      by (cases "verify_arena al (hp_staging plan) (take ?k bs)") (auto simp: handoff_verify_def r map_err_def)
  qed
  then show "handoff_verify al plan bs = Inr () \<longleftrightarrow> bs = handoff_image plan"
    "handoff_verify al plan bs \<noteq> Inl Ah_Panic" by blast+
qed

lemma placed_facts:
  assumes "placed plan"
  defines "l \<equiv> hp_layout plan"
  shows "hl_kernel_bytes l = sp_arena_size (hp_staging plan)"
    and "0 < hl_kernel_bytes l"
    and "hl_kernel_bytes l mod 16384 = 0"
    and "unat (hl_kernel_phys l) mod 16384 = 0"
    and "unat (hl_boot_args_phys l) = unat (hl_kernel_phys l) + hl_kernel_bytes l"
    and "unat (hl_device_tree_phys l) = unat (hl_boot_args_phys l) + 16384"
    and "unat (hl_device_tree_phys l) + length (hp_device_tree plan) + 65536 \<le> unat (hl_stack_top_phys l)"
    and "unat (hl_stack_top_phys l) mod 16384 = 0"
    and "unat (hl_stack_top_phys l) \<le> unat (hl_occupied_end l)"
    and "unat (hl_occupied_end l) mod 16384 = 0"
    and "unat (hl_occupied_end l) = unat (hl_kernel_phys l) + hl_allocation_bytes l"
    and "hl_allocation_bytes l < 2 ^ 63"
    and "length (ae_bytes (hp_boot_args plan)) = 1152"
    and "hp_device_tree plan \<noteq> []"
  using assms(1) unfolding placed_def Let_def l_def [symmetric] by metis+

lemma placed_valid_layout:
  assumes "placed plan"
  shows "valid_layout (hp_layout plan)"
proof -
  define l where "l = hp_layout plan"
  note P = placed_facts [OF assms, folded l_def]
  have alloc_page: "hl_allocation_bytes l mod 16384 = 0"
  proof -
    have "16384 dvd unat (hl_kernel_phys l) + hl_allocation_bytes l" using P(10,11) by (simp add: dvd_eq_mod_eq_0)
    moreover have "16384 dvd unat (hl_kernel_phys l)" using P(4) by (simp add: dvd_eq_mod_eq_0)
    ultimately show ?thesis by (simp add: dvd_add_right_iff flip: dvd_eq_mod_eq_0)
  qed
  have page: "unat BACKING_PAGE = 16384" "unat (BACKING_PAGE + ARM_BOOT_STACK_BYTES) = 16384 + 65536"
    by (simp_all add: BACKING_PAGE_def ARM_BOOT_STACK_BYTES_def)
  have mods: "w mod BACKING_PAGE = 0 \<longleftrightarrow> unat w mod 16384 = 0" for w
    by (simp add: unat_mod page flip: unat_eq_zero)
  have sizes: "unat (of_nat (hl_kernel_bytes l) :: u64) = hl_kernel_bytes l"
    "unat (of_nat (hl_allocation_bytes l) :: u64) = hl_allocation_bytes l"
    using P(5-12) by (simp_all add: unat_of_nat)
  have sums: "checked_add (hl_kernel_phys l) (of_nat (hl_kernel_bytes l)) = Some (hl_boot_args_phys l)"
    "checked_add (hl_boot_args_phys l) BACKING_PAGE = Some (hl_device_tree_phys l)"
    "checked_add (hl_kernel_phys l) (of_nat (hl_allocation_bytes l)) = Some (hl_occupied_end l)"
    unfolding checked_add_Some sizes page using P(5,6,11) by simp_all
  have tree_pos: "16384 \<le> length (hp_device_tree plan) + 65536 + (unat (hl_stack_top_phys l) -
      (unat (hl_device_tree_phys l) + length (hp_device_tree plan) + 65536))" by simp
  have room: "unat (hl_device_tree_phys l) + (16384 + 65536) \<le> unat (hl_stack_top_phys l)"
  proof -
    have "16384 dvd unat (hl_device_tree_phys l)"
      using P(3-6) by (metis dvd_add dvd_eq_mod_eq_0 dvd_refl)
    moreover have "16384 dvd unat (hl_stack_top_phys l)" using P(8) by (simp add: dvd_eq_mod_eq_0)
    ultimately obtain i j where ij: "unat (hl_device_tree_phys l) = 16384 * i" "unat (hl_stack_top_phys l) = 16384 * j"
      by (auto simp: dvd_def)
    have "0 < length (hp_device_tree plan)" using P(14) by simp
    then have "16384 * i + 65536 < 16384 * j" using P(7) unfolding ij by linarith
    then have "i + 4 < j" by simp
    then show ?thesis unfolding ij by simp
  qed
  have minimum: "\<not> (case checked_add (hl_device_tree_phys l) (BACKING_PAGE + ARM_BOOT_STACK_BYTES) of
         None \<Rightarrow> True | Some minimum \<Rightarrow> hl_stack_top_phys l < minimum)"
  proof (cases "checked_add (hl_device_tree_phys l) (BACKING_PAGE + ARM_BOOT_STACK_BYTES)")
    case None
    then show ?thesis
      using room unat_u64_bound [of "hl_stack_top_phys l"] unfolding checked_add_None page by simp
  next
    case (Some m)
    have "unat (hl_device_tree_phys l) + (16384 + 65536) = unat m"
      using Some unfolding checked_add_Some page .
    then have "\<not> hl_stack_top_phys l < m" using room by (simp add: word_less_nat_alt)
    then show ?thesis by (simp add: Some)
  qed
  show "valid_layout (hp_layout plan)"
    unfolding l_def [symmetric] valid_layout_def mods page(1) sums
    using P(2-4,8,10) alloc_page minimum P(5-7,9,11) by (simp add: word_less_nat_alt)
qed

section \<open>Theorems on the placement\<close>


text \<open>
  A handoff that was built is always staged: whatever the allocation held, staging ends
  without an error or a panic, reports its seven phases in their order, and leaves the image, the
  collection as staged, the argument block in its page, the device tree, and zeros to the end.
\<close>

theorem handoff_stage_refines:
  assumes "handoff_built R source input geometry plan"
    and "length destination = hl_allocation_bytes (hp_layout plan)"
  shows "\<exists>v. handoff_stage_into_observed al plan destination = (Inr v, handoff_image plan,
    [HP_DestinationInitialized, HP_CollectionInitialized, HP_CollectionSegmentsCopied,
     HP_CollectionArenaVerified, HP_CollectionMemberViewsVerified, HP_CollectionVerified, HP_TailVerified])"
  by (rule handoff_stage_eq [OF built_placed]) (fact assms)+

text \<open>
  The readback of a handoff accepts exactly its image: a single byte that differs in the
  collection, the arguments, the tree, the padding, the stack or the framebuffer is refused, and
  no destination of any size makes it panic.
\<close>

theorem handoff_verify_exact:
  assumes "handoff_built R source input geometry plan"
  shows "(handoff_verify al plan bs = Inr () \<longleftrightarrow> bs = handoff_image plan) \<and>
    handoff_verify al plan bs \<noteq> Inl Ah_Panic"
  using handoff_verify_eq [OF built_placed [OF assms]] by blast

text \<open>
  The framebuffer belongs to the handoff: it begins where the stack ends, its rows fit the
  width at four bytes a pixel, all its rows fit the reservation, which is page-rounded and ends
  where the occupied memory ends, and it is the video the boot arguments announce.
\<close>

theorem framebuffer_owned:
  assumes "handoff_new_with_framebuffer R source input g = Inr plan"
  shows "\<exists>f. hp_framebuffer plan = Some f \<and> fl_geometry f = g \<and>
    fl_base_phys f = hl_stack_top_phys (hp_layout plan) \<and>
    unat (fl_byte_len f) = unat (fg_row_bytes g) * unat (fg_height g) \<and>
    4 * unat (fg_width g) \<le> unat (fg_row_bytes g) \<and> 0 < unat (fl_byte_len f) \<and>
    unat (fl_byte_len f) \<le> unat (fl_reserved_bytes f) \<and> unat (fl_reserved_bytes f) mod 16384 = 0 \<and>
    unat (fl_base_phys f) + unat (fl_reserved_bytes f) = unat (hl_occupied_end (hp_layout plan)) \<and>
    map (word64_at (ae_bytes (hp_boot_args plan))) [40, 48, 56, 64, 72, 80] =
      [fl_base_phys f, 1, ucast (fg_row_bytes g), ucast (fg_width g), ucast (fg_height g), 32]"
proof -
  from assms obtain minimum where g: "checked_mul (fg_width g) 4 = Some minimum" "fg_width g \<noteq> 0"
      "fg_height g \<noteq> 0" "minimum \<le> fg_row_bytes g"
    and b: "build_handoff R source input (Some g) = Inr plan"
    by (auto simp: handoff_new_with_framebuffer_def result_iff not_less split: if_splits)
  note B = build_handoff_Inr(11-13) [OF b]
  obtain bytes reserved where r: "checked_mul (ucast (fg_row_bytes g)) (ucast (fg_height g)) = Some bytes"
      "handoff_align_up bytes = Inr reserved"
      "Some \<lparr> fl_base_phys = hl_stack_top_phys (hp_layout plan), fl_byte_len = bytes,
         fl_reserved_bytes = reserved, fl_geometry = g \<rparr> = hp_framebuffer plan"
    using B(1) by (auto simp: place_framebuffer_def result_iff)
  then obtain f where f: "hp_framebuffer plan = Some f" and place: "fl_geometry f = g"
      "fl_base_phys f = hl_stack_top_phys (hp_layout plan)"
      "checked_mul (ucast (fg_row_bytes g)) (ucast (fg_height g)) = Some (fl_byte_len f)"
      "handoff_align_up (fl_byte_len f) = Inr (fl_reserved_bytes f)"
    by (metis framebuffer_layout.select_convs(1-4))
  have last: "unat (fl_base_phys f) + unat (fl_reserved_bytes f) = unat (hl_occupied_end (hp_layout plan))"
    using B(2) by (simp add: f result_iff checked_add_Some)
  have video: "map (word64_at (ae_bytes (hp_boot_args plan))) [40, 48, 56, 64, 72, 80] =
      [fl_base_phys f, 1, ucast (fg_row_bytes g), ucast (fg_width g), ucast (fg_height g), 32]"
    using B(3) encoded_boot_args(4) by (force simp: f framebuffer_video_def place(1))
  have row: "unat (fg_width g) * 4 \<le> unat (fg_row_bytes g)"
    using g(1,4) by (simp add: checked_mul_Some word_le_nat_alt)
  have bytes: "unat (fl_byte_len f) = unat (fg_row_bytes g) * unat (fg_height g)"
    using place(3) by (simp add: checked_mul_Some unat_ucast_u32)
  have "0 < unat (fg_width g)" "0 < unat (fg_height g)" using g(2,3) by (simp_all add: unat_gt_0)
  then have "0 < unat (fl_byte_len f)" using row bytes by (metis gr0I le_zero_eq mult_is_0 zero_neq_numeral)
  then show ?thesis
    using f place(1,2) bytes row last video handoff_align_up_Inr [OF place(4)]
    by (intro exI [of _ f]) (simp add: mult.commute)
qed

text \<open>The guest RAM after the view has been written, byte by byte.\<close>

lemma backing_new_Inr:
  assumes "backing_new layout ram ram_start guest_base tables table_start table_base = Inr b"
  shows "valid_layout layout" and "hb_ram b = ram" and "hb_tables b = tables" and "hb_ram_base b = guest_base"
    and "hb_table_base b = table_base" and "hb_handoff_bytes b = hl_allocation_bytes layout"
    and "unat (hl_kernel_phys layout) = unat guest_base + hb_handoff_offset b"
    and "hb_handoff_offset b + hl_allocation_bytes layout \<le> length ram"
    and "unat guest_base + length ram \<le> 2 ^ 48" and "unat table_base + length tables \<le> 2 ^ 48"
    and "unat guest_base + length ram \<le> unat table_base \<or> unat table_base + length tables \<le> unat guest_base"
    and "ram_start + length ram \<le> table_start \<or> table_start + length tables \<le> ram_start"
proof -
  have lim: "unat PA_LIMIT = 2 ^ 48" by (simp add: PA_LIMIT_def)
  from assms obtain ram_len table_len :: u64 and kernel_off :: u64 where
    layout: "valid_layout layout"
    and lens: "unat ram_len = length ram" "unat table_len = length tables"
    and range': "guest_base < PA_LIMIT" "table_base < PA_LIMIT"
      "ram_len \<le> PA_LIMIT - guest_base" "table_len \<le> PA_LIMIT - table_base"
    and guest: "\<not> (guest_base < table_base + table_len \<and> table_base < guest_base + ram_len)"
    and off: "checked_sub (hl_kernel_phys layout) guest_base = Some kernel_off"
    and room: "unat kernel_off + hl_allocation_bytes layout \<le> length ram"
    and host: "\<not> (ram_start < table_start + length tables \<and> table_start < ram_start + length ram)"
    and b: "b = \<lparr> hb_ram = ram, hb_ram_base = guest_base, hb_tables = tables, hb_table_base = table_base,
             hb_handoff_offset = unat kernel_off, hb_handoff_bytes = hl_allocation_bytes layout \<rparr>"
    by (auto simp: backing_new_def result_iff u64_of_usize_Some usize_add_def not_less not_le
        split: if_splits option.splits)
  have fits: "unat guest_base + length ram \<le> 2 ^ 48" "unat table_base + length tables \<le> 2 ^ 48"
    using range' lens lim unat_sub_exact [of guest_base PA_LIMIT] unat_sub_exact [of table_base PA_LIMIT]
    by (auto simp: word_le_nat_alt word_less_nat_alt)
  then have ends: "unat (guest_base + ram_len) = unat guest_base + length ram"
    "unat (table_base + table_len) = unat table_base + length tables"
    using lens unat_add_exact [of guest_base ram_len] unat_add_exact [of table_base table_len] by simp_all
  show "valid_layout layout" by (rule layout)
  show "hb_ram b = ram" "hb_tables b = tables" "hb_ram_base b = guest_base" "hb_table_base b = table_base"
    "hb_handoff_bytes b = hl_allocation_bytes layout" by (simp_all add: b)
  show "unat (hl_kernel_phys layout) = unat guest_base + hb_handoff_offset b"
    using off unfolding checked_sub_Some by (simp add: b)
  show "hb_handoff_offset b + hl_allocation_bytes layout \<le> length ram" using room by (simp add: b)
  show "unat guest_base + length ram \<le> 2 ^ 48" "unat table_base + length tables \<le> 2 ^ 48" by (fact fits)+
  show "unat guest_base + length ram \<le> unat table_base \<or> unat table_base + length tables \<le> unat guest_base"
    using guest ends by (auto simp: word_less_nat_alt not_less)
  show "ram_start + length ram \<le> table_start \<or> table_start + length tables \<le> ram_start"
    using host by auto
qed

text \<open>
  The backing isolates the handoff: the view it gives out is the part of the guest RAM at
  the physical addresses of the layout, exactly as long as the allocation; a write through it
  changes those bytes and no other byte of the RAM, nor the page tables; and RAM and page tables
  share no guest address, no host address, and lie below the physical address limit.
\<close>

theorem backing_isolates:
  assumes "backing_new layout ram ram_start guest_base tables table_start table_base = Inr b"
    and "length bytes = hb_handoff_bytes b"
  shows "(\<exists>shown. handoff_mut b = Some shown \<and> length shown = hl_allocation_bytes layout) \<and>
    handoff_mut (handoff_write b bytes) = Some bytes \<and>
    (\<forall>i. i < length ram \<and> (unat guest_base + i < unat (hl_kernel_phys layout) \<or>
          unat (hl_kernel_phys layout) + hl_allocation_bytes layout \<le> unat guest_base + i) \<longrightarrow>
       hb_ram (handoff_write b bytes) ! i = ram ! i) \<and>
    length (hb_ram (handoff_write b bytes)) = length ram \<and>
    hb_tables (handoff_write b bytes) = tables \<and>
    {unat guest_base ..< unat guest_base + length ram} \<inter> {unat table_base ..< unat table_base + length tables} = {} \<and>
    {ram_start ..< ram_start + length ram} \<inter> {table_start ..< table_start + length tables} = {} \<and>
    unat guest_base + length ram \<le> unat PA_LIMIT \<and> unat table_base + length tables \<le> unat PA_LIMIT"
proof -
  note N = backing_new_Inr [OF assms(1)]
  have len: "length bytes = hl_allocation_bytes layout" using assms(2) N(6) by simp
  have shown: "handoff_mut b = Some (take (hl_allocation_bytes layout) (drop (hb_handoff_offset b) ram))"
    using N(8) by (simp add: handoff_mut_def get_range_def N(2,6))
  have reread: "handoff_mut (handoff_write b bytes) = Some bytes"
    using N(8) len take_drop_put_bytes_same [of "hb_handoff_offset b" bytes ram]
    by (simp add: handoff_mut_def handoff_write_def get_range_def N(2,6))
  have other: "hb_ram (handoff_write b bytes) ! i = ram ! i"
    if "i < length ram" "unat guest_base + i < unat (hl_kernel_phys layout) \<or>
          unat (hl_kernel_phys layout) + hl_allocation_bytes layout \<le> unat guest_base + i" for i
    using that N(7,8) len by (auto simp: handoff_write_def N(2) nth_put_bytes)
  have apart: "{unat guest_base ..< unat guest_base + length ram} \<inter> {unat table_base ..< unat table_base + length tables} = {}"
    "{ram_start ..< ram_start + length ram} \<inter> {table_start ..< table_start + length tables} = {}"
    using N(11,12) by auto
  have limit: "unat PA_LIMIT = 2 ^ 48" by (simp add: PA_LIMIT_def)
  have size: "length (hb_ram (handoff_write b bytes)) = length ram" "hb_tables (handoff_write b bytes) = tables"
    using N(8) len by (simp_all add: handoff_write_def N(2,3))
  show ?thesis using shown reread other apart size N(8-10) limit by auto
qed

text \<open>
  C8. Placement, staging and backing together: a backing made for the layout of a handoff gives
  out a view into which the handoff is staged without an error, after which the guest RAM holds
  the image at the physical address of the kernel, and the readback of the view accepts it.
\<close>

theorem handoff_into_backing:
  assumes "handoff_built R source input geometry plan"
    and "backing_new (hp_layout plan) ram ram_start guest_base tables table_start table_base = Inr b"
  shows "\<exists>shown v bytes. handoff_mut b = Some shown \<and> handoff_stage_into al plan shown = (Inr v, bytes) \<and>
    handoff_mut (handoff_write b bytes) = Some (handoff_image plan) \<and>
    handoff_verify al plan bytes = Inr () \<and>
    take (hl_allocation_bytes (hp_layout plan))
      (drop (unat (hl_kernel_phys (hp_layout plan)) - unat guest_base) (fst (service_parts (handoff_write b bytes)))) =
      handoff_image plan"
proof -
  note N = backing_new_Inr [OF assms(2)] note P = built_placed [OF assms(1)]
  let ?n = "hl_allocation_bytes (hp_layout plan)"
  define shown where "shown = take ?n (drop (hb_handoff_offset b) ram)"
  have len: "length shown = ?n" using N(8) by (simp add: shown_def)
  have img: "length (handoff_image plan) = ?n" by (rule placed_tail(1) [OF P])
  have view: "handoff_mut b = Some shown"
    using N(8) by (simp add: handoff_mut_def get_range_def N(2,6) shown_def)
  obtain v where "handoff_stage_into al plan shown = (Inr v, handoff_image plan)"
    using handoff_stage_eq [OF P len, of al] by (auto simp: handoff_stage_into_def)
  moreover have "handoff_verify al plan (handoff_image plan) = Inr ()" using handoff_verify_eq(1) [OF P] by simp
  moreover have "take ?n (drop (hb_handoff_offset b) (put_bytes ram (hb_handoff_offset b) (handoff_image plan))) =
      handoff_image plan"
    using take_drop_put_bytes_same [of "hb_handoff_offset b" "handoff_image plan" ram] N(8) img by simp
  ultimately show ?thesis
    using view N(7,8) img
    by (intro exI [of _ shown] exI [of _ v] exI [of _ "handoff_image plan"])
      (simp add: handoff_write_def service_parts_def N(2,6) handoff_mut_def get_range_def)
qed

section \<open>A handoff of the sample collection\<close>

definition sample_placement :: placement_input where
  "sample_placement = \<lparr> pl_physical_base = 0x80000000, pl_virtual_base = SAMPLE_BASE,
     pl_memory_size = 0x10000000, pl_actual_memory_size = 0x10000000, pl_kernel_phys = 0x80000000,
     pl_device_tree = sample_dram_tree, pl_command_line = [0x2d, 0x76], pl_machine_type = 1,
     pl_boot_flags = 0, pl_video = boot_video_default \<rparr>"

definition sample_geometry :: framebuffer_geometry where
  "sample_geometry = \<lparr> fg_width = 640, fg_height = 480, fg_row_bytes = 2560 \<rparr>"

lemma sample_tree_nonempty: "sample_dram_tree \<noteq> []"
  using sample_tree_length by auto

lemma sample_handoff_built:
  "\<exists>plan. handoff_new_with_framebuffer (\<lambda>_. True) sample_collection sample_placement sample_geometry = Inr plan \<and>
     hl_allocation_bytes (hp_layout plan) = 0x148000 \<and> hl_kernel_phys (hp_layout plan) = 0x80000000"
  by (simp add: handoff_new_with_framebuffer_def build_handoff_def sample_planned_arm64 sample_geometry_def
      sample_placement_def checked_mul_def checked_add_def checked_sub_def sample_tree_length sample_tree_nonempty
      MAX_DEVICE_TREE_BYTES_def VMAPPLE_PAGE_SIZE_def sample_plan_def ARM_BOOTSTRAP_BLOCK_BYTES_def
      SAMPLE_BASE_def handoff_align_up_def ARM_BOOT_STACK_BYTES_def place_framebuffer_def framebuffer_video_def
      encode_arm64_boot_args_def ARM64_COMMAND_LINE_MAX_def is_ascii_def range_new_def ok_or_def
      range_contains_def range_overlaps_def ARM64_BOOT_ARGS_SIZE_def u32_of_usize_def
      sample_tree_valid sample_tree_range Let_def)

lemma sample_handoff:
  obtains plan where
    "handoff_new_with_framebuffer (\<lambda>_. True) sample_collection sample_placement sample_geometry = Inr plan"
    and "handoff_built (\<lambda>_. True) sample_collection sample_placement (Some sample_geometry) plan"
    and "hl_allocation_bytes (hp_layout plan) = 0x148000" and "hl_kernel_phys (hp_layout plan) = 0x80000000"
  using sample_handoff_built by (auto simp: handoff_built_def)


lemma handoff_stage_refines_witness:
  "\<exists>plan v. handoff_built (\<lambda>_. True) sample_collection sample_placement (Some sample_geometry) plan \<and>
     fst (handoff_stage_into_observed (\<lambda>_ _. 0) plan (replicate 0x148000 0xff)) = Inr v"
proof -
  obtain plan where p: "handoff_built (\<lambda>_. True) sample_collection sample_placement (Some sample_geometry) plan"
    "hl_allocation_bytes (hp_layout plan) = 0x148000" by (rule sample_handoff)
  then show ?thesis using handoff_stage_refines [OF p(1), of "replicate 0x148000 0xff" "\<lambda>_ _. 0"]
    by fastforce
qed

lemma handoff_verify_exact_witness:
  "\<exists>plan. handoff_built (\<lambda>_. True) sample_collection sample_placement (Some sample_geometry) plan \<and>
     handoff_verify (\<lambda>_ _. 0) plan (handoff_image plan) = Inr ()"
proof -
  obtain plan where p: "handoff_built (\<lambda>_. True) sample_collection sample_placement (Some sample_geometry) plan"
    by (rule sample_handoff)
  then show ?thesis using handoff_verify_exact [OF p, of "\<lambda>_ _. 0" "handoff_image plan"] by blast
qed

lemma framebuffer_owned_witness:
  "\<exists>plan f. handoff_new_with_framebuffer (\<lambda>_. True) sample_collection sample_placement sample_geometry = Inr plan \<and>
     hp_framebuffer plan = Some f \<and> unat (fl_byte_len f) = 1228800"
proof -
  obtain plan where p:
    "handoff_new_with_framebuffer (\<lambda>_. True) sample_collection sample_placement sample_geometry = Inr plan"
    by (rule sample_handoff)
  then show ?thesis using framebuffer_owned [OF p] by (auto simp: sample_geometry_def)
qed

lemma sample_backing:
  assumes "handoff_built (\<lambda>_. True) sample_collection sample_placement (Some sample_geometry) plan"
    and "valid_layout (hp_layout plan)"
    and "hl_allocation_bytes (hp_layout plan) = 0x148000" and "hl_kernel_phys (hp_layout plan) = 0x80000000"
  shows "\<exists>b. backing_new (hp_layout plan) (replicate 0x148000 0) 0x10000000 0x80000000
      (replicate 0x4000 0) 0x20000000 0x90000000 = Inr b \<and> hb_handoff_bytes b = 0x148000"
  using assms(2-4)
  by (simp add: backing_new_def u64_of_usize_def BACKING_PAGE_def PA_LIMIT_def checked_sub_def usize_add_def)

lemma sample_backed:
  obtains plan b where
    "handoff_built (\<lambda>_. True) sample_collection sample_placement (Some sample_geometry) plan"
    and "backing_new (hp_layout plan) (replicate 0x148000 0) 0x10000000 0x80000000
      (replicate 0x4000 0) 0x20000000 0x90000000 = Inr b" and "hb_handoff_bytes b = 0x148000"
proof -
  obtain plan where p: "handoff_built (\<lambda>_. True) sample_collection sample_placement (Some sample_geometry) plan"
    "hl_allocation_bytes (hp_layout plan) = 0x148000" "hl_kernel_phys (hp_layout plan) = 0x80000000"
    by (rule sample_handoff)
  then show ?thesis
    using that sample_backing [OF p(1) placed_valid_layout [OF built_placed [OF p(1)]] p(2,3)] by blast
qed

lemma backing_isolates_witness:
  "\<exists>(plan :: handoff_plan) b. backing_new (hp_layout plan) (replicate 0x148000 0) 0x10000000 0x80000000
      (replicate 0x4000 0) 0x20000000 0x90000000 = Inr b \<and>
     handoff_mut (handoff_write b (replicate 0x148000 0xff)) = Some (replicate 0x148000 0xff)"
proof -
  obtain plan b where b: "handoff_built (\<lambda>_. True) sample_collection sample_placement (Some sample_geometry) plan"
    "backing_new (hp_layout plan) (replicate 0x148000 0) 0x10000000 0x80000000
      (replicate 0x4000 0) 0x20000000 0x90000000 = Inr b" "hb_handoff_bytes b = 0x148000"
    by (rule sample_backed)
  have "length (replicate 0x148000 (0xff :: u8)) = hb_handoff_bytes b" using b(3) by simp
  note b(2) conjunct1 [OF conjunct2 [OF backing_isolates [OF b(2) this]]]
  then show ?thesis by blast
qed

lemma handoff_into_backing_witness:
  "\<exists>plan b shown v bytes. handoff_built (\<lambda>_. True) sample_collection sample_placement (Some sample_geometry) plan \<and>
     backing_new (hp_layout plan) (replicate 0x148000 0) 0x10000000 0x80000000
      (replicate 0x4000 0) 0x20000000 0x90000000 = Inr b \<and>
     handoff_mut b = Some shown \<and> handoff_stage_into (\<lambda>_ _. 0) plan shown = (Inr v, bytes)"
proof -
  obtain plan b where b: "handoff_built (\<lambda>_. True) sample_collection sample_placement (Some sample_geometry) plan"
    "backing_new (hp_layout plan) (replicate 0x148000 0) 0x10000000 0x80000000
      (replicate 0x4000 0) 0x20000000 0x90000000 = Inr b"
    "hb_handoff_bytes b = 0x148000" by (rule sample_backed)
  from handoff_into_backing [OF b(1,2), of "\<lambda>_ _. 0"] b show ?thesis by blast
qed

end
