(* ===== verification/Apfs_Jumpstart.thy ===== *)
theory Apfs_Jumpstart
  imports Slices
begin

text \<open>
  Model of \<^verbatim>\<open>src/apfs_jumpstart.rs\<close>: the extraction of the EFI driver an APFS container embeds.
  The byte source, \<^verbatim>\<open>ReadAt\<close>, is the argument \<open>read\<close>: from its state, an offset and the number of
  bytes wanted it gives the bytes or its error, and its next state. The allocator is the argument
  \<open>R\<close>. A slice index that fails would panic: \<open>Js_Panic\<close>.
\<close>

section \<open>Data\<close>

definition NX_MAGIC :: u32 where "NX_MAGIC = 0x4253584e"
definition JSDR_MAGIC :: u32 where "JSDR_MAGIC = 0x5244534a"
definition MIN_BLOCK_SIZE :: u32 where "MIN_BLOCK_SIZE = 4096"
definition MAX_BLOCK_SIZE :: u32 where "MAX_BLOCK_SIZE = 65536"
definition MIN_CONTAINER_BYTES :: u64 where "MIN_CONTAINER_BYTES = 1024 * 1024"
definition NX_JUMPSTART :: nat where "NX_JUMPSTART = 1272"
definition NX_FUSION_UUID :: nat where "NX_FUSION_UUID = 1280"
definition JSDR_EXTENTS :: nat where "JSDR_EXTENTS = 176"
definition EXTENT_SIZE :: nat where "EXTENT_SIZE = 16"

type_synonym ('s, 'e) read_at = "'s \<Rightarrow> u64 \<Rightarrow> nat \<Rightarrow> ('e + byte_string) \<times> 's"

record jumpstart_limits =
  jl_max_driver_bytes :: nat
  jl_max_extents :: nat

definition jumpstart_limits_default :: jumpstart_limits where
  "jumpstart_limits_default = \<lparr> jl_max_driver_bytes = 16 * 1024 * 1024, jl_max_extents = 1024 \<rparr>"

record jumpstart_extent =
  je_start_block :: u64
  je_block_count :: u64

record jumpstart_driver =
  jd_bytes :: byte_string
  jd_block_size :: u32
  jd_container_block_count :: u64
  jd_jumpstart_block :: u64
  jd_container_uuid :: byte_string
  jd_extents :: "jumpstart_extent list"

datatype 'e jumpstart_error =
    Js_Io 'e
  | Js_OutOfBounds
  | Js_ArithmeticOverflow
  | Js_Allocation
  | Js_InvalidLimits
  | Js_InvalidBlockSize u32
  | Js_InvalidContainerSize
  | Js_SourceChanged
  | Js_BadMagic bool
  | Js_BadChecksum bool
  | Js_InvalidObject bool
  | Js_UnsupportedFusion
  | Js_UnsupportedFeatures u64
  | Js_NoJumpstart
  | Js_NegativeAddress
  | Js_UnsupportedVersion u32
  | Js_InvalidFileLength
  | Js_DriverTooLarge
  | Js_InvalidExtentCount
  | Js_TooManyExtents
  | Js_ExtentTableOutOfBounds
  | Js_EmptyExtent
  | Js_InsufficientExtentCapacity
  | Js_Panic \<comment> \<open>a slice index or a debug assertion that fails; not a value of the source's enum\<close>

section \<open>The checksum\<close>

definition FLETCHER_MODULUS :: u64 where "FLETCHER_MODULUS = 0xffffffff"

fun fletcher_sums :: "byte_string list \<Rightarrow> u64 \<Rightarrow> u64 \<Rightarrow> u64 \<times> u64" where
  "fletcher_sums [] acc prefixes = (acc, prefixes)"
| "fletcher_sums (w # ws) acc prefixes =
     (let word32 = from_le_bytes w :: u32;
          acc = (acc + ucast word32) mod FLETCHER_MODULUS
      in fletcher_sums ws acc ((prefixes + acc) mod FLETCHER_MODULUS))"

definition fletcher64_checksum :: "byte_string \<Rightarrow> u64 option" where
  "fletcher64_checksum object =
     (if length object < 8 \<or> length object mod 4 \<noteq> 0 then None
      else
      let (acc, prefixes) = fletcher_sums (chunks_exact 4 (drop 8 object) ((length object - 8) div 4)) 0 0;
          low = FLETCHER_MODULUS - (acc + prefixes) mod FLETCHER_MODULUS;
          high = FLETCHER_MODULUS - (acc + low) mod FLETCHER_MODULUS
      in Some (push_bit 32 high OR low))"

section \<open>Reading\<close>

definition js_le32 :: "byte_string \<Rightarrow> nat \<Rightarrow> 'e jumpstart_error + u32" where
  "js_le32 bytes offset = ok_or (map_option from_le_bytes (get_range bytes offset (offset + 4))) Js_Panic"

definition js_le64 :: "byte_string \<Rightarrow> nat \<Rightarrow> 'e jumpstart_error + u64" where
  "js_le64 bytes offset = ok_or (map_option from_le_bytes (get_range bytes offset (offset + 8))) Js_Panic"

definition zeroed_bytes :: "(nat \<Rightarrow> bool) \<Rightarrow> nat \<Rightarrow> 'e jumpstart_error + byte_string" where
  "zeroed_bytes R n = (if R n then Inr (replicate n 0) else Inl Js_Allocation)"

definition read_bounded ::
  "('s, 'e) read_at \<Rightarrow> 's \<Rightarrow> u64 \<Rightarrow> u64 \<Rightarrow> nat \<Rightarrow> ('e jumpstart_error + byte_string) \<times> 's" where
  "read_bounded read s limit offset n =
     or_return (ok_or (checked_add offset (of_nat n)) Js_ArithmeticOverflow) s (\<lambda>stop.
     if limit < stop then (Inl Js_OutOfBounds, s)
     else case read s offset n of (r, s) \<Rightarrow> (map_err Js_Io r, s))"

definition js_block_range :: "u64 \<Rightarrow> u64 \<Rightarrow> u64 \<Rightarrow> u32 \<Rightarrow> 'e jumpstart_error + u64" where
  "js_block_range start number block_count block_size =
     and_then (ok_or (checked_add start number) Js_ArithmeticOverflow) (\<lambda>stop.
     if block_count < stop then Inl Js_OutOfBounds
     else ok_or (checked_mul start (ucast block_size)) Js_ArithmeticOverflow)"

definition positive_paddr :: "u64 \<Rightarrow> 'e jumpstart_error + u64" where
  "positive_paddr raw = (if 0x7fffffffffffffff < raw then Inl Js_NegativeAddress else Inr raw)"

definition check_object ::
  "byte_string \<Rightarrow> u32 \<Rightarrow> u32 \<Rightarrow> bool \<Rightarrow> u64 option \<Rightarrow> 'e jumpstart_error + unit" where
  "check_object block magic object_type jumpstart physical_oid =
     and_then (js_le64 block 0) (\<lambda>stored.
     if fletcher64_checksum block \<noteq> Some stored then Inl (Js_BadChecksum jumpstart)
     else
     and_then (js_le32 block 32) (\<lambda>block_magic.
     if block_magic \<noteq> magic then Inl (Js_BadMagic jumpstart)
     else
     and_then (js_le32 block 24) (\<lambda>kind.
     and_then (js_le32 block 28) (\<lambda>subtype.
     and_then (js_le64 block 16) (\<lambda>xid.
     and_then (js_le64 block 8) (\<lambda>oid.
     let storage = kind AND 0xc0000000 in
     if kind AND 0xffff \<noteq> object_type \<or> kind AND 0x3fff0000 \<noteq> 0 \<or> storage = 0xc0000000 \<or>
        subtype \<noteq> 0 \<or> xid = 0 \<or>
        (case physical_oid of None \<Rightarrow> False | Some expected \<Rightarrow> storage \<noteq> 0x40000000 \<or> oid \<noteq> expected)
     then Inl (Js_InvalidObject jumpstart) else Inr ()))))))"

section \<open>The container superblock\<close>

text \<open>What the superblock tells: the number of blocks, the bytes of the container, its UUID, the
  block of the jumpstart record and its offset.\<close>

record container_info =
  ci_block_count :: u64
  ci_container_bytes :: u64
  ci_uuid :: byte_string
  ci_jumpstart_block :: u64
  ci_jumpstart_offset :: u64

definition read_container ::
  "byte_string \<Rightarrow> u32 \<Rightarrow> u64 \<Rightarrow> 'e jumpstart_error + container_info" where
  "read_container block block_size partition_len =
     and_then (check_object block NX_MAGIC 1 False None) (\<lambda>_.
     and_then (js_le64 block 40) (\<lambda>block_count.
     and_then (ok_or (checked_mul block_count (ucast block_size)) Js_ArithmeticOverflow) (\<lambda>container_bytes.
     if container_bytes < MIN_CONTAINER_BYTES then Inl Js_InvalidContainerSize
     else if partition_len < container_bytes then Inl Js_OutOfBounds
     else
     and_then (js_le64 block 64) (\<lambda>incompatible.
     and_then (js_le64 block 48) (\<lambda>features.
     and_then (ok_or (get_range block NX_FUSION_UUID (NX_FUSION_UUID + 16)) Js_Panic) (\<lambda>fusion_uuid.
     and_then (ok_or (get_range block 1352 1384) Js_Panic) (\<lambda>fusion_tail.
     if incompatible AND 0x100 \<noteq> 0 \<or> features AND 2 \<noteq> 0 \<or>
        list_ex (\<lambda>byte. byte \<noteq> 0) fusion_uuid \<or> list_ex (\<lambda>byte. byte \<noteq> 0) fusion_tail
     then Inl Js_UnsupportedFusion
     else if incompatible \<noteq> 2 then Inl (Js_UnsupportedFeatures incompatible)
     else
     and_then (ok_or (get_range block 72 88) Js_Panic) (\<lambda>uuid.
     and_then (js_le64 block NX_JUMPSTART) (\<lambda>raw.
     and_then (positive_paddr raw) (\<lambda>jumpstart_block.
     if jumpstart_block = 0 then Inl Js_NoJumpstart
     else
     and_then (js_block_range jumpstart_block 1 block_count block_size) (\<lambda>jumpstart_offset.
     Inr \<lparr> ci_block_count = block_count, ci_container_bytes = container_bytes, ci_uuid = uuid,
            ci_jumpstart_block = jumpstart_block, ci_jumpstart_offset = jumpstart_offset \<rparr>)))))))))))"

section \<open>The jumpstart record\<close>

text \<open>One entry of the extent table, after the capacity so far and the extents so far.\<close>

definition read_extent ::
  "u64 \<Rightarrow> u32 \<Rightarrow> u64 \<times> jumpstart_extent list \<Rightarrow> byte_string \<Rightarrow>
   'e jumpstart_error + u64 \<times> jumpstart_extent list" where
  "read_extent block_count block_size st entry =
     (case st of (capacity, extents) \<Rightarrow>
      and_then (js_le64 entry 0) (\<lambda>raw.
      and_then (positive_paddr raw) (\<lambda>start_block.
      and_then (js_le64 entry 8) (\<lambda>number.
      if number = 0 then Inl Js_EmptyExtent
      else
      and_then (js_block_range start_block number block_count block_size) (\<lambda>_.
      and_then (ok_or (checked_mul number (ucast block_size)) Js_ArithmeticOverflow) (\<lambda>bytes.
      and_then (ok_or (checked_add capacity bytes) Js_ArithmeticOverflow) (\<lambda>capacity.
      Inr (capacity, extents @ [\<lparr> je_start_block = start_block, je_block_count = number \<rparr>]))))))))"

definition read_jumpstart ::
  "(nat \<Rightarrow> bool) \<Rightarrow> jumpstart_limits \<Rightarrow> byte_string \<Rightarrow> container_info \<Rightarrow> u32 \<Rightarrow>
   'e jumpstart_error + nat \<times> jumpstart_extent list" where
  "read_jumpstart R limits block info block_size =
     and_then (check_object block JSDR_MAGIC 0x14 True (Some (ci_jumpstart_block info))) (\<lambda>_.
     and_then (js_le32 block 36) (\<lambda>version.
     if version \<noteq> 1 then Inl (Js_UnsupportedVersion version)
     else
     and_then (js_le32 block 40) (\<lambda>file_len32.
     let file_len = unat file_len32 in
     if file_len = 0 then Inl Js_InvalidFileLength
     else if jl_max_driver_bytes limits < file_len then Inl Js_DriverTooLarge
     else
     and_then (js_le32 block 44) (\<lambda>number32.
     let number = unat number32 in
     if number = 0 then Inl Js_InvalidExtentCount
     else if jl_max_extents limits < number then Inl Js_TooManyExtents
     else
     and_then (ok_or (Option.bind (usize_mul number EXTENT_SIZE) (usize_add JSDR_EXTENTS))
        Js_ArithmeticOverflow) (\<lambda>table_end.
     if length block < table_end then Inl Js_ExtentTableOutOfBounds
     else if \<not> R number then Inl Js_Allocation
     else
     and_then (ok_or (get_range block JSDR_EXTENTS table_end) Js_Panic) (\<lambda>table.
     and_then (try_fold (read_extent (ci_block_count info) block_size) (0, [])
        (chunks_exact EXTENT_SIZE table (length table div EXTENT_SIZE))) (\<lambda>(capacity, extents).
     if capacity < of_nat file_len then Inl Js_InsufficientExtentCapacity
     else Inr (file_len, extents))))))))"

section \<open>The data\<close>

text \<open>The loop over the blocks of one extent, over the bytes of the driver and how many are written.\<close>

fun read_blocks ::
  "('s, 'e) read_at \<Rightarrow> container_info \<Rightarrow> u32 \<Rightarrow> nat \<Rightarrow> u64 \<Rightarrow> nat list \<Rightarrow> byte_string \<times> nat \<Rightarrow> 's \<Rightarrow>
   ('e jumpstart_error + byte_string \<times> nat) \<times> 's" where
  "read_blocks read info block_size file_len start_block [] progress s = (Inr progress, s)"
| "read_blocks read info block_size file_len start_block (index # indices) progress s =
     (case progress of (bytes, written) \<Rightarrow>
      or_return (ok_or (checked_add start_block (of_nat index)) Js_ArithmeticOverflow) s (\<lambda>address.
      or_return (js_block_range address 1 (ci_block_count info) block_size) s (\<lambda>offset.
      and_run (read_bounded read s (ci_container_bytes info) offset (unat block_size)) (\<lambda>block s.
      if file_len < written then (Inl Js_Panic, s)
      else
      let number = min (file_len - written) (length block) in
      or_return (ok_or (copy_from_slice bytes (written, written + number) (take number block)) Js_Panic) s
        (\<lambda>bytes.
      read_blocks read info block_size file_len start_block indices (bytes, written + number) s)))))"

definition div_ceil :: "nat \<Rightarrow> nat \<Rightarrow> nat" where
  "div_ceil a b = (a + (b - 1)) div b"

fun read_extents ::
  "('s, 'e) read_at \<Rightarrow> container_info \<Rightarrow> u32 \<Rightarrow> nat \<Rightarrow> jumpstart_extent list \<Rightarrow> byte_string \<times> nat \<Rightarrow> 's \<Rightarrow>
   ('e jumpstart_error + byte_string \<times> nat) \<times> 's" where
  "read_extents read info block_size file_len [] progress s = (Inr progress, s)"
| "read_extents read info block_size file_len (extent # extents) progress s =
     (case progress of (bytes, written) \<Rightarrow>
      if file_len < written then (Inl Js_Panic, s)
      else
      let remaining = file_len - written in
      if remaining = 0 then (Inr progress, s)
      else
      let needed = div_ceil remaining (unat block_size) in
      and_run (read_blocks read info block_size file_len (je_start_block extent)
         [0 ..< min (unat (je_block_count extent)) needed] progress s) (\<lambda>progress s.
      read_extents read info block_size file_len extents progress s))"

section \<open>Extraction\<close>

definition extract_jumpstart ::
  "('s, 'e) read_at \<Rightarrow> (nat \<Rightarrow> bool) \<Rightarrow> 's \<Rightarrow> u64 \<Rightarrow> jumpstart_limits \<Rightarrow>
   ('e jumpstart_error + jumpstart_driver) \<times> 's" where
  "extract_jumpstart read R s partition_len limits =
     (if jl_max_driver_bytes limits = 0 \<or> jl_max_extents limits = 0 then (Inl Js_InvalidLimits, s)
      else
      and_run (read_bounded read s partition_len 0 40) (\<lambda>prefix s.
      or_return (js_le32 prefix 36) s (\<lambda>block_size.
      if \<not> (MIN_BLOCK_SIZE \<le> block_size \<and> block_size \<le> MAX_BLOCK_SIZE) \<or>
         \<not> is_power_of_two (ucast block_size)
      then (Inl (Js_InvalidBlockSize block_size), s)
      else
      or_return (zeroed_bytes R (unat block_size)) s (\<lambda>zeroed.
      and_run (read_bounded read s partition_len 0 (length zeroed)) (\<lambda>block s.
      or_return (ok_or (get_range block 0 (length prefix)) Js_Panic) s (\<lambda>front.
      if front \<noteq> prefix then (Inl Js_SourceChanged, s)
      else
      or_return (read_container block block_size partition_len) s (\<lambda>info.
      and_run (read_bounded read s (ci_container_bytes info) (ci_jumpstart_offset info) (length zeroed))
        (\<lambda>block s.
      or_return (read_jumpstart R limits block info block_size) s (\<lambda>(file_len, extents).
      or_return (zeroed_bytes R file_len) s (\<lambda>bytes.
      and_run (read_extents read info block_size file_len extents (bytes, 0) s) (\<lambda>(bytes, written) s.
      if written \<noteq> file_len then (Inl Js_Panic, s)
      else
      (Inr \<lparr> jd_bytes = bytes, jd_block_size = block_size,
              jd_container_block_count = ci_block_count info,
              jd_jumpstart_block = ci_jumpstart_block info, jd_container_uuid = ci_uuid info,
              jd_extents = extents \<rparr>, s))))))))))))"

end
