(* ===== verification/Apfs_Jumpstart_Proofs.thy ===== *)
theory Apfs_Jumpstart_Proofs
  imports Apfs_Jumpstart
begin

text \<open>
  The extraction of the driver: the checksum it relies on, the reads it makes, the bytes it
  returns, and that no slice index fails.
\<close>

section \<open>The checksum\<close>

abbreviation word_of :: "byte_string \<Rightarrow> nat" where
  "word_of w \<equiv> unat (from_le_bytes w :: u32)"

lemma modulus_nat: "unat FLETCHER_MODULUS = 2 ^ 32 - 1"
  by (simp add: FLETCHER_MODULUS_def)

lemma unat_mod_add:
  fixes a b :: u64
  assumes "unat a < 2 ^ 33" and "unat b < 2 ^ 33"
  shows "unat ((a + b) mod FLETCHER_MODULUS) = (unat a + unat b) mod (2 ^ 32 - 1)"
  using assms by (simp add: unat_mod modulus_nat unat_add_exact)

lemma unat_ucast_word: "unat (ucast (w :: u32) :: u64) = unat w"
  by (simp add: unsigned_ucast_eq take_bit_nat_eq_self_iff less_le_trans [OF unat_u32_bound])

lemma unat_mod_modulus: "unat (a mod FLETCHER_MODULUS) < 2 ^ 32 - 1"
  by (simp add: unat_mod modulus_nat)

text \<open>One step of the sums, and what they add up to.\<close>

lemma fletcher_sums_bounds:
  assumes "unat a < 2 ^ 32 - 1" and "unat p < 2 ^ 32 - 1"
  shows "unat (fst (fletcher_sums ws a p)) < 2 ^ 32 - 1" and "unat (snd (fletcher_sums ws a p)) < 2 ^ 32 - 1"
  using assms unat_mod_modulus by (induction ws arbitrary: a p) (simp_all add: Let_def)

lemma fletcher_sums_append:
  "fletcher_sums (xs @ ys) a p = (case fletcher_sums xs a p of (a', p') \<Rightarrow> fletcher_sums ys a' p')"
  by (induction xs arbitrary: a p) (simp_all add: Let_def)

lemma fletcher_sums_total:
  assumes "unat a < 2 ^ 32 - 1"
  shows "unat (fst (fletcher_sums ws a p)) = (unat a + sum_list (map word_of ws)) mod (2 ^ 32 - 1)"
  using assms
proof (induction ws arbitrary: a p)
  case (Cons w ws)
  let ?a = "(a + ucast (from_le_bytes w :: u32)) mod FLETCHER_MODULUS"
  have a: "unat ?a = (unat a + word_of w) mod (2 ^ 32 - 1)"
    using unat_mod_add [of a "ucast (from_le_bytes w :: u32)"] Cons.prems unat_u32_bound [of "from_le_bytes w"]
    by (simp add: unat_ucast_word)
  have "unat (fst (fletcher_sums (w # ws) a p)) = (unat ?a + sum_list (map word_of ws)) mod (2 ^ 32 - 1)"
    using Cons.IH [OF unat_mod_modulus] by (simp add: Let_def)
  then show ?case unfolding a by (simp add: mod_add_left_eq add.assoc)
qed simp

text \<open>The two check words of a block.\<close>

definition check_low :: "u64 \<Rightarrow> u64 \<Rightarrow> nat" where
  "check_low a p = (2 ^ 32 - 1) - (unat a + unat p) mod (2 ^ 32 - 1)"

definition check_high :: "u64 \<Rightarrow> u64 \<Rightarrow> nat" where
  "check_high a p = (2 ^ 32 - 1) - (unat a + check_low a p) mod (2 ^ 32 - 1)"

definition object_words :: "byte_string \<Rightarrow> byte_string list" where
  "object_words object = chunks_exact 4 (drop 8 object) ((length object - 8) div 4)"

lemma fletcher64_checksum_nat:
  assumes "fletcher64_checksum object = Some c"
    and "fletcher_sums (object_words object) 0 0 = (a, p)"
  shows "unat c = check_high a p * 2 ^ 32 + check_low a p"
    and "0 < check_low a p" and "check_low a p < 2 ^ 32" and "check_high a p < 2 ^ 32"
proof -
  have b: "unat a < 2 ^ 32 - 1" "unat p < 2 ^ 32 - 1"
    using fletcher_sums_bounds [of 0 0 "object_words object"] assms(2) by simp_all
  define low where "low = FLETCHER_MODULUS - (a + p) mod FLETCHER_MODULUS"
  define high where "high = FLETCHER_MODULUS - (a + low) mod FLETCHER_MODULUS"
  have le: "x mod FLETCHER_MODULUS \<le> FLETCHER_MODULUS" for x
    using unat_mod_modulus [of x] by (simp add: word_le_nat_alt modulus_nat)
  have low: "unat low = check_low a p"
    using b unat_mod_add [of a p] unfolding low_def check_low_def
    by (simp add: unat_sub_exact [OF le] modulus_nat)
  then have "unat low < 2 ^ 33" by (simp add: check_low_def)
  then have high: "unat high = check_high a p"
    using b unat_mod_add [of a low] unfolding high_def check_high_def low [symmetric]
    by (simp add: unat_sub_exact [OF le] modulus_nat)
  show pos: "0 < check_low a p" by (simp add: check_low_def)
  show bound: "check_low a p < 2 ^ 32" "check_high a p < 2 ^ 32"
    by (simp_all add: check_low_def check_high_def)
  have c: "c = push_bit 32 high OR low"
    using assms unfolding fletcher64_checksum_def object_words_def [symmetric]
    by (simp add: low_def high_def Let_def split: if_splits)
  have "push_bit 32 high AND low = 0"
  proof (rule bit_word_eqI)
    fix n assume n: "n < LENGTH(64)"
    have "unat low < 2 ^ 32" unfolding low by (rule bound(1))
    then have "low = take_bit 32 low"
      by (simp add: word_unat_eq_iff unsigned_take_bit_eq take_bit_nat_eq_self)
    then have "bit low n \<Longrightarrow> n < 32" by (metis bit_take_bit_iff)
    then show "bit (push_bit 32 high AND low) n = bit 0 n" by (auto simp: bit_simps)
  qed
  then have sum: "push_bit 32 high OR low = push_bit 32 high + low" by (simp add: disjunctive_add_eq_or)
  have "unat high * 2 ^ 32 < 2 ^ 64" unfolding high using bound(2) by simp
  then have push: "unat (push_bit 32 high) = unat high * 2 ^ 32"
    by (simp add: push_bit_eq_mult unat_word_ariths)
  have "unat (push_bit 32 high + low) = unat (push_bit 32 high) + unat low"
    by (rule unat_add_exact) (use push low high bound in simp)
  then show "unat c = check_high a p * 2 ^ 32 + check_low a p"
    unfolding c sum push low high .
qed

lemma complement_mod:
  fixes x m :: nat
  assumes "0 < m"
  shows "(x + (m - x mod m)) mod m = 0"
proof -
  have "(x + (m - x mod m)) mod m = (x mod m + (m - x mod m)) mod m" by (simp only: mod_add_left_eq)
  also have "x mod m + (m - x mod m) = m" using mod_less_divisor [OF assms, of x] by simp
  finally show ?thesis by simp
qed

lemma mod_add_cancel:
  fixes a b c m :: nat
  shows "(a + c) mod m = (b + c) mod m \<Longrightarrow> a mod m = b mod m"
  unfolding nat_mod_eq_iff by auto

lemma two_digits_eq:
  fixes h h' l l' k :: nat
  assumes "h * k + l = h' * k + l'" and "l < k" and "l' < k"
  shows "h = h'" and "l = l'"
proof -
  have "(h * k + l) div k = h" "(h' * k + l') div k = h'" using assms(2,3) by simp_all
  then show "h = h'" using assms(1) by simp
  then show "l = l'" using assms(1) by simp
qed

lemma fletcher_step_zero:
  assumes b: "unat a < 2 ^ 32 - 1" "unat p < 2 ^ 32 - 1"
  shows "fletcher_sums [to_le_bytes (of_nat (check_low a p) :: u32), to_le_bytes (of_nat (check_high a p) :: u32)] a p
    = (0, 0)"
proof -
  let ?M = "2 ^ 32 - 1 :: nat" and ?F = "FLETCHER_MODULUS"
  define l where "l = check_low a p" define h where "h = check_high a p"
  have lh: "l \<le> ?M" "h \<le> ?M" by (simp_all add: l_def h_def check_low_def check_high_def)
  then have w: "unat (of_nat l :: u32) = l" "unat (of_nat h :: u32) = h" by (simp_all add: unat_of_nat)
  have zero: "(x + (?M - x mod ?M)) mod ?M = 0" for x :: nat by (rule complement_mod) simp
  let ?a1 = "(a + ucast (of_nat l :: u32)) mod ?F" let ?p1 = "(p + ?a1) mod ?F"
  let ?a2 = "(?a1 + ucast (of_nat h :: u32)) mod ?F" let ?p2 = "(?p1 + ?a2) mod ?F"
  have a1: "unat ?a1 = (unat a + l) mod ?M"
    using unat_mod_add [of a "ucast (of_nat l :: u32)"] b lh by (simp add: unat_ucast_word w)
  have "unat ?p1 = (unat p + (unat a + l) mod ?M) mod ?M"
    using unat_mod_add [of p ?a1] b unat_mod_modulus [of "a + ucast (of_nat l :: u32)"] by (simp add: a1)
  also have "\<dots> = ((unat a + unat p) + l) mod ?M" by (simp add: mod_add_right_eq ac_simps)
  also have "\<dots> = 0" unfolding l_def check_low_def by (rule zero)
  finally have p1: "?p1 = 0" by (simp add: unat_eq_zero)
  have "unat ?a2 = ((unat a + l) mod ?M + h) mod ?M"
    using unat_mod_add [of ?a1 "ucast (of_nat h :: u32)"] unat_mod_modulus [of "a + ucast (of_nat l :: u32)"] lh
    by (simp add: unat_ucast_word w a1)
  also have "\<dots> = ((unat a + l) + h) mod ?M" by (simp add: mod_add_left_eq)
  also have "\<dots> = 0" unfolding h_def check_high_def l_def by (rule zero)
  finally have a2: "?a2 = 0" by (simp add: unat_eq_zero)
  show ?thesis using p1 a2 by (simp add: Let_def flip: l_def h_def)
qed

definition checksum_words :: "u64 \<Rightarrow> byte_string list" where
  "checksum_words c = [to_le_bytes (ucast c :: u32), to_le_bytes (ucast (drop_bit 32 c) :: u32)]"

lemma checksum_words_nat:
  assumes "unat c = h * 2 ^ 32 + l" and "l < 2 ^ 32" and "h < 2 ^ 32"
  shows "checksum_words c = [to_le_bytes (of_nat l :: u32), to_le_bytes (of_nat h :: u32)]"
proof -
  have "unat (ucast c :: u32) = l" using assms by (simp add: unsigned_ucast_eq take_bit_eq_mod)
  moreover have "unat (ucast (drop_bit 32 c) :: u32) = h"
  proof -
    have "unat (drop_bit 32 c) = unat c div 2 ^ 32"
      unfolding unat_drop_bit_eq by (simp only: drop_bit_eq_div [of 32 "unat c"])
    also have "\<dots> = h" using assms(1,2) by simp
    finally show ?thesis
      using assms(3) by (simp add: unsigned_ucast_eq take_bit_eq_mod del: drop_bit_eq_div)
  qed
  ultimately have "ucast c = (of_nat l :: u32)" "ucast (drop_bit 32 c) = (of_nat h :: u32)"
    using assms(2,3) by (simp_all add: word_unat_eq_iff unat_of_nat)
  then show ?thesis by (simp add: checksum_words_def)
qed

lemma single_word_detected:
  assumes "fletcher64_checksum object = Some c" and "fletcher64_checksum object' = Some c"
    and "object_words object = xs @ [w] @ ys" and "object_words object' = xs @ [w'] @ ys"
  shows "word_of w = word_of w' \<or> {word_of w, word_of w'} = {0, 2 ^ 32 - 1}"
proof -
  obtain a p where s: "fletcher_sums (object_words object) 0 0 = (a, p)" by (cases "fletcher_sums (object_words object) 0 0")
  obtain a' p' where s': "fletcher_sums (object_words object') 0 0 = (a', p')"
    by (cases "fletcher_sums (object_words object') 0 0")
  let ?M = "2 ^ 32 - 1 :: nat"
  note N = fletcher64_checksum_nat [OF assms(1) s] note N' = fletcher64_checksum_nat [OF assms(2) s']
  have "check_high a p * 2 ^ 32 + check_low a p = check_high a' p' * 2 ^ 32 + check_low a' p'" using N(1) N'(1) by simp
  then have eq: "check_high a p = check_high a' p'" "check_low a p = check_low a' p'"
    using two_digits_eq [OF _ N(3) N'(3)] by blast+
  have b: "unat a < ?M" "unat a' < ?M"
    using fletcher_sums_bounds(1) [of 0 0 "object_words object"] fletcher_sums_bounds(1) [of 0 0 "object_words object'"]
      s s' by simp_all
  have "(unat a + check_low a p) mod ?M = (unat a' + check_low a p) mod ?M"
    using eq mod_less_divisor [of ?M "unat a + check_low a p"] mod_less_divisor [of ?M "unat a' + check_low a' p'"]
    by (simp add: check_high_def)
  then have "unat a mod ?M = unat a' mod ?M"
    by (rule mod_add_cancel)
  then have "unat a = unat a'" using b by simp
  then have "(word_of w + sum_list (map word_of xs) + sum_list (map word_of ys)) mod ?M =
      (word_of w' + sum_list (map word_of xs) + sum_list (map word_of ys)) mod ?M"
    using fletcher_sums_total [of 0 "object_words object" 0] fletcher_sums_total [of 0 "object_words object'" 0]
      s s' assms(3,4) by (simp add: ac_simps)
  then have "word_of w mod ?M = word_of w' mod ?M"
    unfolding add.assoc by (rule mod_add_cancel)
  moreover have "word_of w \<le> ?M" "word_of w' \<le> ?M"
    using unat_u32_bound [of "from_le_bytes w"] unat_u32_bound [of "from_le_bytes w'"] by simp_all
  ultimately show ?thesis
    by (cases "word_of w = ?M"; cases "word_of w' = ?M") auto
qed

text \<open>
  The checksum is a Fletcher checksum: with its two words put behind the words of the object
  both running sums are zero, and two objects that differ in one 32-bit word only have different
  checksums, unless the word is zero in one and all ones in the other.
\<close>

theorem fletcher_detects:
  assumes "fletcher64_checksum object = Some c"
  shows "fletcher_sums (object_words object @ checksum_words c) 0 0 = (0, 0) \<and>
    (\<forall>object' xs w w' ys. fletcher64_checksum object' = Some c \<and>
       object_words object = xs @ [w] @ ys \<and> object_words object' = xs @ [w'] @ ys \<longrightarrow>
       word_of w = word_of w' \<or> {word_of w, word_of w'} = {0, 2 ^ 32 - 1})"
proof -
  obtain a p where s: "fletcher_sums (object_words object) 0 0 = (a, p)" by (cases "fletcher_sums (object_words object) 0 0")
  have b: "unat a < 2 ^ 32 - 1" "unat p < 2 ^ 32 - 1"
    using fletcher_sums_bounds [of 0 0 "object_words object"] s by simp_all
  have "fletcher_sums (object_words object @ checksum_words c) 0 0 = (0, 0)"
    by (simp only: checksum_words_nat [OF fletcher64_checksum_nat(1,3,4) [OF assms s]] fletcher_sums_append s
        prod.case fletcher_step_zero [OF b])
  then show ?thesis using single_word_detected [OF assms] by (intro conjI allI impI) (assumption, elim conjE)
qed

lemma sample_checksum: "fletcher64_checksum (replicate 12 0) = Some 0xffffffffffffffff"
  by code_simp

section \<open>Only the container is read\<close>

text \<open>Two sources that agree on what lies below the end of the partition.\<close>

definition agree_below :: "u64 \<Rightarrow> ('s, 'e) read_at \<Rightarrow> ('s, 'e) read_at \<Rightarrow> bool" where
  "agree_below limit read read' \<longleftrightarrow>
     (\<forall>s offset n. unat offset + n \<le> unat limit \<and> n \<le> 65536 \<longrightarrow> read s offset n = read' s offset n)"

lemma and_run_cong:
  assumes "r = r'" and "\<And>a s. r' = (Inr a, s) \<Longrightarrow> f a s = g a s"
  shows "and_run r f = and_run r' g"
  using assms by (cases r'; cases "fst r'") (auto simp: and_run_def)

lemma or_return_cong:
  assumes "r = r'" and "s = s'" and "\<And>a. r' = Inr a \<Longrightarrow> f a = g a"
  shows "or_return r s f = or_return r' s' g"
  using assms by (cases r') auto

lemma read_bounded_agree:
  assumes "agree_below limit read read'" and "unat limit' \<le> unat limit" and "n \<le> 65536"
  shows "read_bounded read s limit' offset n = read_bounded read' s limit' offset n"
proof (cases "checked_add offset (of_nat n)")
  case None
  then show ?thesis by (simp add: read_bounded_def)
next
  case (Some stop)
  have "unat (of_nat n :: u64) = n" using assms(3) by (simp add: unat_of_nat)
  then have "unat offset + n = unat stop" using Some unfolding checked_add_Some by simp
  then have "\<not> limit' < stop \<Longrightarrow> read s offset n = read' s offset n"
    using assms by (simp add: agree_below_def word_less_nat_alt)
  then show ?thesis by (simp add: read_bounded_def Some)
qed

lemma read_blocks_agree:
  assumes "agree_below limit read read'" and "unat (ci_container_bytes info) \<le> unat limit" and "unat block_size \<le> 65536"
  shows "read_blocks read info block_size n start indices progress s =
    read_blocks read' info block_size n start indices progress s"
proof (induction indices arbitrary: progress s)
  case (Cons i indices)
  obtain bytes written where p: "progress = (bytes, written)" by (cases progress)
  show ?case
    unfolding p read_blocks.simps prod.case read_bounded_agree [OF assms] Cons.IH ..
qed simp

lemma read_extents_agree:
  assumes "agree_below limit read read'" and "unat (ci_container_bytes info) \<le> unat limit" and "unat block_size \<le> 65536"
  shows "read_extents read info block_size n extents progress s =
    read_extents read' info block_size n extents progress s"
proof (induction extents arbitrary: progress s)
  case (Cons e extents)
  obtain bytes written where p: "progress = (bytes, written)" by (cases progress)
  show ?case
    unfolding p read_extents.simps prod.case read_blocks_agree [OF assms] Cons.IH ..
qed simp

lemma read_container_Inr:
  assumes "(read_container block block_size partition_len :: 'e jumpstart_error + container_info) = Inr info"
  shows "unat (ci_container_bytes info) \<le> unat partition_len"
    and "unat (ci_container_bytes info) = unat (ci_block_count info) * unat block_size"
    and "(check_object block NX_MAGIC 1 False None :: 'e jumpstart_error + unit) = Inr ()"
    and "unat MIN_CONTAINER_BYTES \<le> unat (ci_container_bytes info)"
    and "(js_block_range (ci_jumpstart_block info) 1 (ci_block_count info) block_size :: 'e jumpstart_error + u64) =
      Inr (ci_jumpstart_offset info)"
    and "ci_jumpstart_block info \<noteq> 0"
  using assms
  by (auto simp: read_container_def result_iff Let_def checked_mul_Some not_less word_le_nat_alt word_less_nat_alt
      unat_ucast_word split: if_splits)

text \<open>
  The extraction never asks for a byte beyond the end of the partition, nor for more than the
  largest block at once: on two sources that agree on such requests it returns the same result
  and leaves the same state of the source.
\<close>

theorem extract_reads_partition_only:
  assumes "agree_below partition_len read read'"
  shows "extract_jumpstart read R s partition_len limits = extract_jumpstart read' R s partition_len limits"
proof -
  have small: "unat block_size \<le> 65536"
    if "block_size \<le> MAX_BLOCK_SIZE" for block_size :: u32
    using that by (simp add: MAX_BLOCK_SIZE_def word_le_nat_alt)
  have zeroed: "length zs = unat block_size"
    if "zeroed_bytes R (unat block_size) = Inr zs" for zs :: byte_string and block_size :: u32
    using that by (auto simp: zeroed_bytes_def split: if_splits)
  show ?thesis
    unfolding extract_jumpstart_def
  proof (intro if_cong and_run_cong or_return_cong refl read_bounded_agree [OF assms])
  qed (auto simp: small zeroed read_container_Inr(1) split_beta intro!: or_return_cong and_run_cong read_extents_agree [OF assms])
qed

section \<open>The driver\<close>

text \<open>The bytes the extents of a container name, in their order.\<close>

definition extent_data :: "byte_string \<Rightarrow> nat \<Rightarrow> jumpstart_extent \<Rightarrow> byte_string" where
  "extent_data disk block_bytes extent =
     take (unat (je_block_count extent) * block_bytes) (drop (unat (je_start_block extent) * block_bytes) disk)"

text \<open>
  A source that shows one fixed content wherever a read succeeds, and one that at least fills the
  buffer it is given. Both may fail at any read.
\<close>

definition serves :: "byte_string \<Rightarrow> ('s, 'e) read_at \<Rightarrow> bool" where
  "serves disk read \<longleftrightarrow>
     (\<forall>s offset n bytes. unat offset + n \<le> length disk \<and> fst (read s offset n) = Inr bytes \<longrightarrow>
        bytes = take n (drop (unat offset) disk))"

definition fills :: "('s, 'e) read_at \<Rightarrow> bool" where
  "fills read \<longleftrightarrow> (\<forall>s offset n bytes. fst (read s offset n) = Inr bytes \<longrightarrow> length bytes = n)"

lemma read_bounded_Inr:
  assumes "read_bounded read s limit offset n = (Inr bytes, s')" and "n \<le> 65536"
  shows "unat offset + n \<le> unat limit" and "fst (read s offset n) = Inr bytes"
proof -
  have n: "unat (of_nat n :: u64) = n" using assms(2) by (simp add: unat_of_nat)
  obtain stop where "checked_add offset (of_nat n) = Some stop" "\<not> limit < stop"
    and r: "(map_err Js_Io (fst (read s offset n)), snd (read s offset n)) = (Inr bytes, s')"
    using assms(1) by (auto simp: read_bounded_def result_iff split_beta split: if_splits)
  then show "unat offset + n \<le> unat limit"
    unfolding checked_add_Some by (simp add: n word_less_nat_alt)
  show "fst (read s offset n) = Inr bytes" using r by (simp add: result_iff)
qed

text \<open>The buffer of the driver while \<open>data\<close> was delivered.\<close>

definition filled :: "nat \<Rightarrow> byte_string \<Rightarrow> byte_string \<times> nat \<Rightarrow> bool" where
  "filled n data progress \<longleftrightarrow>
     snd progress = min n (length data) \<and> fst progress = take n data @ replicate (n - length data) 0"

lemma filled_cong:
  assumes "n \<le> length data" and "take n data = take n data'"
  shows "filled n data progress \<longleftrightarrow> filled n data' progress"
proof -
  have "n \<le> length data'" using arg_cong [OF assms(2), of length] assms(1) by (simp add: min_def split: if_splits)
  then show ?thesis using assms by (simp add: filled_def)
qed

lemma filled_step:
  fixes block :: byte_string
  assumes "filled n data (bytes, written)"
  defines "number \<equiv> min (n - written) (length block)"
  shows "\<exists>bytes'. copy_from_slice bytes (written, written + number) (take number block) = Some bytes' \<and>
    filled n (data @ block) (bytes', written + number) \<and> written \<le> n"
proof -
  have w: "written = min n (length data)" and b: "bytes = take n data @ replicate (n - length data) 0"
    using assms(1) by (simp_all add: filled_def)
  have len: "length bytes = n" by (simp add: b)
  have copy: "copy_from_slice bytes (written, written + number) (take number block) =
      Some (put_bytes bytes written (take number block))"
    using len w by (auto simp: copy_from_slice_def number_def)
  have "put_bytes bytes written (take number block) = take n (data @ block) @ replicate (n - length (data @ block)) 0"
  proof (cases "length data < n")
    case True
    then show ?thesis by (auto simp: put_bytes_def b w number_def min_def)
  next
    case False
    then show ?thesis by (simp add: put_bytes_def b w number_def)
  qed
  moreover have "written + number = min n (length (data @ block))" using w by (auto simp: number_def)
  ultimately show ?thesis using copy w by (auto simp: filled_def)
qed

lemma js_block_range_Inr:
  "js_block_range start number block_count block_size = Inr offset \<longleftrightarrow>
   unat start + unat number \<le> unat block_count \<and> unat offset = unat start * unat block_size"
proof -
  have "js_block_range start number block_count block_size = Inr offset \<longleftrightarrow>
    (\<exists>stop :: u64. unat start + unat number = unat stop \<and> unat stop \<le> unat block_count \<and>
       unat start * unat block_size = unat offset)"
    by (auto simp: js_block_range_def result_iff checked_add_Some checked_mul_Some not_less word_le_nat_alt
        unat_ucast_word)
  moreover have "\<exists>stop :: u64. unat start + unat number = unat stop" if "unat start + unat number \<le> unat block_count"
  proof -
    have "unat (of_nat (unat start + unat number) :: u64) = unat start + unat number"
      using that unat_u64_bound [of block_count] by (simp add: unat_of_nat del: of_nat_add)
    then show ?thesis by metis
  qed
  ultimately show ?thesis by (metis (no_types))
qed

text \<open>One block.\<close>

lemma read_blocks_Cons:
  fixes read :: "('s, 'e) read_at"
  assumes "read_blocks read info block_size n start (i # indices) (bytes, written) s = (Inr progress', s')"
    and "i < 2 ^ 64" and "unat block_size \<le> 65536"
  obtains offset block bytes' s1 where "unat offset = (unat start + i) * unat block_size"
    and "unat offset + unat block_size \<le> unat (ci_container_bytes info)"
    and "fst (read s offset (unat block_size)) = Inr block"
    and "copy_from_slice bytes (written, written + min (n - written) (length block))
      (take (min (n - written) (length block)) block) = Some bytes'"
    and "read_blocks read info block_size n start indices (bytes', written + min (n - written) (length block)) s1 =
      (Inr progress', s')"
proof -
  obtain address offset block s1 bytes' where
    address: "checked_add start (of_nat i) = Some address"
    and offset: "(js_block_range address 1 (ci_block_count info) block_size :: 'e jumpstart_error + u64) = Inr offset"
    and block: "read_bounded read s (ci_container_bytes info) offset (unat block_size) = (Inr block, s1)"
    and copy: "copy_from_slice bytes (written, written + min (n - written) (length block))
      (take (min (n - written) (length block)) block) = Some bytes'"
    and rest: "read_blocks read info block_size n start indices (bytes', written + min (n - written) (length block)) s1 =
      (Inr progress', s')"
    using assms(1) by (auto simp: result_iff Let_def split: if_splits)
  have "unat (of_nat i :: u64) = i" using assms(2) by (simp add: unat_of_nat)
  then have "unat address = unat start + i" using address unfolding checked_add_Some by simp
  then have "unat offset = (unat start + i) * unat block_size" using offset by (simp add: js_block_range_Inr)
  then show thesis using that read_bounded_Inr [OF block assms(3)] copy rest by blast
qed

lemma read_blocks_data:
  assumes "serves disk read" and "unat (ci_container_bytes info) \<le> length disk" and "unat block_size \<le> 65536"
    and "filled n data progress" and "i \<le> j" and "j \<le> 2 ^ 64"
    and "read_blocks read info block_size n start [i ..< j] progress s = (Inr progress', s')"
  shows "filled n (data @ take ((j - i) * unat block_size) (drop ((unat start + i) * unat block_size) disk)) progress'"
  using assms(4,5,7)
proof (induction "j - i" arbitrary: i data progress s)
  case (Suc k)
  let ?b = "unat block_size" let ?x = "(unat start + i) * ?b"
  obtain bytes written where p: "progress = (bytes, written)" by (cases progress)
  have ij: "[i ..< j] = i # [Suc i ..< j]" "i < 2 ^ 64" "j - i = Suc (j - Suc i)"
    using Suc.hyps(2) assms(6) by (simp_all add: upt_conv_Cons)
  obtain offset block bytes' s1 where o: "unat offset = ?x" "unat offset + ?b \<le> unat (ci_container_bytes info)"
      "fst (read s offset ?b) = Inr block"
      "copy_from_slice bytes (written, written + min (n - written) (length block))
        (take (min (n - written) (length block)) block) = Some bytes'"
      "read_blocks read info block_size n start [Suc i ..< j] (bytes', written + min (n - written) (length block)) s1 =
        (Inr progress', s')"
    using read_blocks_Cons [OF Suc.prems(3) [unfolded ij(1) p] ij(2) assms(3)] by metis
  have block: "block = take ?b (drop ?x disk)"
    using assms(1,2) o(1-3) unfolding serves_def by (metis le_trans sum.inject(2))
  have "filled n (data @ block) (bytes', written + min (n - written) (length block))"
    using filled_step [of n data bytes written block] Suc.prems(1) o(4) p by auto
  moreover have "k = j - Suc i" "Suc i \<le> j" using Suc.hyps(2) by simp_all
  ultimately have "filled n ((data @ block) @ take ((j - Suc i) * ?b) (drop ((unat start + Suc i) * ?b) disk)) progress'"
    using Suc.hyps(1) o(5) by blast
  moreover have "take ((j - i) * ?b) (drop ?x disk) =
      block @ take ((j - Suc i) * ?b) (drop ((unat start + Suc i) * ?b) disk)"
    unfolding block ij(3) mult_Suc take_add by (simp add: algebra_simps)
  ultimately show ?case by simp
qed simp

lemma div_ceil_ge: "0 < b \<Longrightarrow> a \<le> div_ceil a b * b"
  using div_mult_mod_eq [of "a + (b - 1)" b] mod_less_divisor [of b "a + (b - 1)"]
  unfolding div_ceil_def by linarith

lemma extent_data_prefix:
  assumes "m \<le> unat (je_block_count e)"
  shows "\<exists>rest. extent_data disk b e = take (m * b) (drop (unat (je_start_block e) * b) disk) @ rest"
proof -
  have "unat (je_block_count e) * b = m * b + (unat (je_block_count e) - m) * b"
    using assms by (simp flip: add_mult_distrib)
  then show ?thesis unfolding extent_data_def by (simp only: take_add) (rule exI, rule refl)
qed

lemma read_extents_data:
  assumes "serves disk read" and "unat (ci_container_bytes info) \<le> length disk"
    and "unat (ci_container_bytes info) = unat (ci_block_count info) * unat block_size"
    and "0 < unat block_size" and "unat block_size \<le> 65536"
    and "\<forall>e \<in> set extents. unat (je_start_block e) + unat (je_block_count e) \<le> unat (ci_block_count info)"
    and "filled n data progress" and "read_extents read info block_size n extents progress s = (Inr progress', s')"
  shows "filled n (data @ concat (map (extent_data disk (unat block_size)) extents)) progress'"
  using assms(6-8)
proof (induction extents arbitrary: data progress s)
  case (Cons e extents)
  let ?b = "unat block_size"
  obtain bytes written where p: "progress = (bytes, written)" by (cases progress)
  have w: "written = min n (length data)" using Cons.prems(2) p by (simp add: filled_def)
  show ?case
  proof (cases "n - written = 0")
    case True
    then have "n \<le> length data" "progress' = progress" using w Cons.prems(3) p by auto
    then show ?thesis
      using filled_cong [of n data "data @ concat (map (extent_data disk ?b) (e # extents))"] Cons.prems(2) by simp
  next
    case False
    let ?m = "min (unat (je_block_count e)) (div_ceil (n - written) ?b)"
    let ?part = "take (?m * ?b) (drop (unat (je_start_block e) * ?b) disk)"
    obtain mid s1 where mid: "read_blocks read info block_size n (je_start_block e) [0 ..< ?m] progress s = (Inr mid, s1)"
      and rest: "read_extents read info block_size n extents mid s1 = (Inr progress', s')"
      using Cons.prems(3) False by (auto simp: p result_iff Let_def split: if_splits)
    have "?m \<le> 2 ^ 64" using unat_u64_bound [of "je_block_count e"] by simp
    from read_blocks_data [OF assms(1,2,5) Cons.prems(2) _ this mid]
    have part: "filled n (data @ ?part) mid" by simp
    obtain tail where tail: "extent_data disk ?b e = ?part @ tail" using extent_data_prefix [of ?m e disk ?b] by auto
    have "filled n (data @ extent_data disk ?b e) mid"
    proof (cases "unat (je_block_count e) \<le> div_ceil (n - written) ?b")
      case True
      then show ?thesis using part by (simp add: extent_data_def min_def)
    next
      case few: False
      have "(unat (je_start_block e) + unat (je_block_count e)) * ?b \<le> length disk"
        using Cons.prems(1) assms(2,3) by (metis le_trans list.set_intros(1) mult_le_mono1)
      moreover have "?m * ?b \<le> unat (je_block_count e) * ?b" by (rule mult_le_mono1) simp
      ultimately have "?m * ?b \<le> length disk - unat (je_start_block e) * ?b"
        unfolding add_mult_distrib by linarith
      then have "length ?part = ?m * ?b" by (simp only: length_take length_drop min_absorb2)
      also have "\<dots> \<ge> n - written" using few div_ceil_ge [OF assms(4), of "n - written"] by simp
      finally have "n - written \<le> length ?part" .
      moreover have "n \<le> length data + (n - written)" using w by (auto simp: min_def)
      ultimately have "n \<le> length (data @ ?part)" unfolding length_append by linarith
      moreover from this have "take n (data @ ?part) = take n (data @ extent_data disk ?b e)" unfolding tail by simp
      ultimately show ?thesis using part filled_cong [of n "data @ ?part"] by blast
    qed
    from Cons.IH [OF _ this rest] Cons.prems(1) show ?thesis by simp
  qed
qed simp

section \<open>The jumpstart record\<close>

lemma js_le_inside:
  "offset + 4 \<le> length bytes \<Longrightarrow> js_le32 bytes offset = Inr (from_le_bytes (take 4 (drop offset bytes)))"
  "offset + 8 \<le> length bytes \<Longrightarrow> js_le64 bytes offset = Inr (from_le_bytes (take 8 (drop offset bytes)))"
  by (simp_all add: js_le32_def js_le64_def get_range_def)

lemma check_object_Inr:
  assumes "check_object block magic object_type jumpstart oid = Inr ()"
  shows "fletcher64_checksum block = Some (from_le_bytes (take 8 block))"
  using assms by (auto simp: check_object_def result_iff js_le64_def get_range_def Let_def split: if_splits)

lemma check_object_no_panic:
  "4096 \<le> length block \<Longrightarrow> check_object block magic object_type jumpstart oid \<noteq> Inl Js_Panic"
  by (auto simp: check_object_def js_le_inside Let_def)

text \<open>The extents of a table, in the container, and their capacity.\<close>

definition extents_ok :: "u64 \<Rightarrow> u32 \<Rightarrow> u64 \<times> jumpstart_extent list \<Rightarrow> bool" where
  "extents_ok block_count block_size st \<longleftrightarrow>
     unat (fst st) = sum_list (map (\<lambda>e. unat (je_block_count e) * unat block_size) (snd st)) \<and>
     (\<forall>e \<in> set (snd st). 0 < unat (je_block_count e) \<and>
        unat (je_start_block e) + unat (je_block_count e) \<le> unat block_count)"

lemma read_extent_ok:
  fixes st :: "u64 \<times> jumpstart_extent list"
  assumes "extents_ok block_count block_size st"
    and "(read_extent block_count block_size st entry :: 'e jumpstart_error + _) = Inr st'"
  shows "extents_ok block_count block_size st'" and "length (snd st') = Suc (length (snd st))"
proof -
  obtain capacity extents where st: "st = (capacity, extents)" by (cases st)
  obtain start_block number bytes capacity' offset where
    "number \<noteq> 0" "(js_block_range start_block number block_count block_size :: 'e jumpstart_error + u64) = Inr offset"
    "checked_mul number (ucast block_size) = Some bytes" "checked_add capacity bytes = Some capacity'"
    and st': "st' = (capacity', extents @ [\<lparr> je_start_block = start_block, je_block_count = number \<rparr>])"
    using assms(2) by (auto simp: st read_extent_def result_iff split: if_splits)
  then have "0 < unat number" "unat start_block + unat number \<le> unat block_count"
    "unat number * unat block_size = unat bytes" "unat capacity + unat bytes = unat capacity'"
    by (auto simp: js_block_range_Inr checked_mul_Some checked_add_Some unat_ucast_word unat_gt_0)
  then show "extents_ok block_count block_size st'" "length (snd st') = Suc (length (snd st))"
    using assms(1) by (auto simp: extents_ok_def st st')
qed

lemma read_table_ok:
  fixes st :: "u64 \<times> jumpstart_extent list"
  assumes "extents_ok block_count block_size st"
    and "(try_fold (read_extent block_count block_size) st entries :: 'e jumpstart_error + _) = Inr st'"
  shows "extents_ok block_count block_size st' \<and> length (snd st') = length (snd st) + length entries"
  using assms
proof (induction entries arbitrary: st)
  case (Cons entry entries)
  then obtain st1 where st1: "(read_extent block_count block_size st entry :: 'e jumpstart_error + _) = Inr st1"
    "(try_fold (read_extent block_count block_size) st1 entries :: 'e jumpstart_error + _) = Inr st'"
    by (auto simp: result_iff)
  from Cons.IH [OF read_extent_ok(1) [OF Cons.prems(1) st1(1)] st1(2)] read_extent_ok(2) [OF Cons.prems(1) st1(1)]
  show ?case by simp
qed simp

lemma length_chunks_le: "length (chunks_exact m xs k) \<le> k"
  by (induction m xs k rule: chunks_exact.induct) auto

lemma chunks_exact_lengths: "\<forall>c \<in> set (chunks_exact m xs k). length c = m"
proof (induction k arbitrary: xs)
  case (Suc k)
  show ?case
  proof (cases "length xs < m")
    case False
    then have "chunks_exact m xs (Suc k) = take m xs # chunks_exact m (drop m xs) k" "length (take m xs) = m" by simp_all
    then show ?thesis using Suc [of "drop m xs"] by (metis set_ConsD)
  qed simp
qed simp

lemma read_jumpstart_Inr:
  assumes "(read_jumpstart R limits block info block_size :: 'e jumpstart_error + nat \<times> jumpstart_extent list) =
    Inr (file_len, extents)"
  shows "fletcher64_checksum block = Some (from_le_bytes (take 8 block))"
    and "file_len = unat (from_le_bytes (take 4 (drop 40 block)) :: u32)"
    and "0 < file_len" and "file_len \<le> jl_max_driver_bytes limits" and "length extents \<le> jl_max_extents limits"
    and "\<exists>capacity. extents_ok (ci_block_count info) block_size (capacity, extents) \<and> file_len \<le> unat capacity"
proof -
  obtain file_len32 number32 :: u32 and table and capacity where
    checked: "(check_object block JSDR_MAGIC 0x14 True (Some (ci_jumpstart_block info)) :: 'e jumpstart_error + unit) = Inr ()"
    and len32: "(js_le32 block 40 :: 'e jumpstart_error + u32) = Inr file_len32" and len: "file_len = unat file_len32"
    and pos: "unat file_len32 \<noteq> 0" "\<not> jl_max_driver_bytes limits < unat file_len32"
    and number: "\<not> jl_max_extents limits < unat number32"
    and table: "get_range block JSDR_EXTENTS (JSDR_EXTENTS + unat number32 * EXTENT_SIZE) = Some table"
    and fold: "(try_fold (read_extent (ci_block_count info) block_size) (0, [])
        (chunks_exact EXTENT_SIZE table (length table div EXTENT_SIZE)) :: 'e jumpstart_error + _) = Inr (capacity, extents)"
    and enough: "\<not> capacity < of_nat (unat file_len32)"
    using assms unfolding read_jumpstart_def
    by (auto simp: result_iff Let_def usize_mul_def usize_add_def split: if_splits prod.splits)
  show "fletcher64_checksum block = Some (from_le_bytes (take 8 block))" by (rule check_object_Inr [OF checked])
  show "file_len = unat (from_le_bytes (take 4 (drop 40 block)) :: u32)"
    using len32 len by (auto simp: js_le32_def result_iff get_range_def split: if_splits)
  show "0 < file_len" "file_len \<le> jl_max_driver_bytes limits" using pos len by simp_all
  have ok: "extents_ok (ci_block_count info) block_size (0, [])" by (simp add: extents_ok_def)
  have "length extents = length (chunks_exact EXTENT_SIZE table (length table div EXTENT_SIZE))"
    using read_table_ok [OF ok fold] by simp
  also have "\<dots> \<le> length table div EXTENT_SIZE" by (rule length_chunks_le)
  also have "\<dots> = unat number32" using get_range_length [OF table] by (simp add: EXTENT_SIZE_def)
  finally show "length extents \<le> jl_max_extents limits" using number by simp
  have "unat (of_nat (unat file_len32) :: u64) = unat file_len32"
    by (simp add: unat_ucast_word)
  then have "file_len \<le> unat capacity" using enough len by (simp add: word_less_nat_alt)
  then show "\<exists>capacity. extents_ok (ci_block_count info) block_size (capacity, extents) \<and> file_len \<le> unat capacity"
    using read_table_ok [OF ok fold] by blast
qed

section \<open>Extraction\<close>

lemma fst_and_run_Inr: "fst (and_run r f) = Inr b \<longleftrightarrow> (\<exists>a s. r = (Inr a, s) \<and> fst (f a s) = Inr b)"
  by (cases r; cases "fst r") auto

lemma fst_or_return_Inr: "fst (or_return r s f) = Inr b \<longleftrightarrow> (\<exists>a. r = Inr a \<and> fst (f a) = Inr b)"
  by (cases r) auto

lemma fst_if_Inl_Inr: "fst (if c then (Inl e, s) else r) = Inr b \<longleftrightarrow> \<not> c \<and> fst r = Inr b"
  by simp

text \<open>The steps of a successful extraction.\<close>

lemma extract_jumpstart_steps:
  fixes read :: "('s, 'e) read_at"
  assumes "fst (extract_jumpstart read R s partition_len limits) = Inr d"
  obtains prefix s1 block s2 info record_block s3 file_len s4 where
    "read_bounded read s partition_len 0 40 = (Inr prefix, s1)"
    and "js_le32 prefix 36 = (Inr (jd_block_size d) :: 'e jumpstart_error + u32)"
    and "MIN_BLOCK_SIZE \<le> jd_block_size d" and "jd_block_size d \<le> MAX_BLOCK_SIZE"
    and "read_bounded read s1 partition_len 0 (unat (jd_block_size d)) = (Inr block, s2)"
    and "(read_container block (jd_block_size d) partition_len :: 'e jumpstart_error + container_info) = Inr info"
    and "read_bounded read s2 (ci_container_bytes info) (ci_jumpstart_offset info) (unat (jd_block_size d)) =
      (Inr record_block, s3)"
    and "(read_jumpstart R limits record_block info (jd_block_size d) ::
      'e jumpstart_error + nat \<times> jumpstart_extent list) = Inr (file_len, jd_extents d)"
    and "read_extents read info (jd_block_size d) file_len (jd_extents d) (replicate file_len 0, 0) s3 =
      (Inr (jd_bytes d, file_len), s4)"
    and "jd_container_block_count d = ci_block_count info" and "jd_jumpstart_block d = ci_jumpstart_block info"
    and "is_power_of_two (ucast (jd_block_size d))" and "jd_container_uuid d = ci_uuid info"
proof -
  have zeroed: "zs = replicate n 0" if "(zeroed_bytes R n :: 'e jumpstart_error + byte_string) = Inr zs" for n zs
    using that by (auto simp: zeroed_bytes_def split: if_splits)
  obtain prefix s1 block_size zeroed block s2 info record_block s3 file_len extents bytes out written s4 where
    r: "read_bounded read s partition_len 0 40 = (Inr prefix, s1)"
      "js_le32 prefix 36 = (Inr block_size :: 'e jumpstart_error + u32)"
      "MIN_BLOCK_SIZE \<le> block_size" "block_size \<le> MAX_BLOCK_SIZE" "is_power_of_two (ucast block_size)"
      "(zeroed_bytes R (unat block_size) :: 'e jumpstart_error + byte_string) = Inr zeroed"
      "read_bounded read s1 partition_len 0 (length zeroed) = (Inr block, s2)"
      "(read_container block block_size partition_len :: 'e jumpstart_error + container_info) = Inr info"
      "read_bounded read s2 (ci_container_bytes info) (ci_jumpstart_offset info) (length zeroed) =
        (Inr record_block, s3)"
      "(read_jumpstart R limits record_block info block_size ::
        'e jumpstart_error + nat \<times> jumpstart_extent list) = Inr (file_len, extents)"
      "(zeroed_bytes R file_len :: 'e jumpstart_error + byte_string) = Inr bytes"
      "read_extents read info block_size file_len extents (bytes, 0) s3 = (Inr (out, written), s4)"
      "written = file_len"
      "\<lparr> jd_bytes = out, jd_block_size = block_size, jd_container_block_count = ci_block_count info,
         jd_jumpstart_block = ci_jumpstart_block info, jd_container_uuid = ci_uuid info,
         jd_extents = extents \<rparr> = d"
    using assms unfolding extract_jumpstart_def fst_and_run_Inr fst_or_return_Inr fst_if_Inl_Inr
      split_paired_Ex prod.case fst_conv de_Morgan_disj not_not sum.inject
    by (elim exE conjE) (rule that, assumption+)
  show thesis
    by (rule that [of prefix s1 block s2 info record_block s3 file_len s4])
      (use r zeroed [OF r(6)] zeroed [OF r(11)] in auto)
qed

definition record_of :: "byte_string \<Rightarrow> jumpstart_driver \<Rightarrow> byte_string" where
  "record_of disk d = take (unat (jd_block_size d)) (drop (unat (jd_jumpstart_block d) * unat (jd_block_size d)) disk)"

section \<open>The format\<close>

text \<open>
  What the format says of a partition, at the offsets of the format: the container superblock at
  its start, and the jumpstart record at the beginning of its block. An extent is the block it
  starts at and the number of its blocks.
\<close>

definition word32_at :: "byte_string \<Rightarrow> nat \<Rightarrow> u32" where
  "word32_at disk offset = from_le_bytes (take 4 (drop offset disk))"

definition word64_at :: "byte_string \<Rightarrow> nat \<Rightarrow> u64" where
  "word64_at disk offset = from_le_bytes (take 8 (drop offset disk))"

text \<open>The common header of both objects: magic, type and storage, subtype, object and transaction.\<close>

definition object_header :: "byte_string \<Rightarrow> nat \<Rightarrow> u32 \<Rightarrow> u32 \<Rightarrow> bool" where
  "object_header disk offset magic object_type \<longleftrightarrow>
     word32_at disk (offset + 32) = magic \<and> word32_at disk (offset + 24) AND 0xffff = object_type \<and>
     word32_at disk (offset + 24) AND 0x3fff0000 = 0 \<and> word32_at disk (offset + 28) = 0 \<and>
     word64_at disk (offset + 16) \<noteq> 0"

definition superblock_of :: "byte_string \<Rightarrow> jumpstart_driver \<Rightarrow> bool" where
  "superblock_of disk d \<longleftrightarrow>
     object_header disk 0 0x4253584e 1 \<and> word32_at disk 36 = jd_block_size d \<and>
     4096 \<le> unat (jd_block_size d) \<and> unat (jd_block_size d) \<le> 65536 \<and> is_power_of_two (ucast (jd_block_size d)) \<and>
     word64_at disk 40 = jd_container_block_count d \<and> 0x100000 \<le> unat (jd_container_block_count d) * unat (jd_block_size d) \<and>
     word64_at disk 48 AND 2 = 0 \<and> word64_at disk 64 = 2 \<and> take 16 (drop 72 disk) = jd_container_uuid d \<and>
     take 16 (drop 1280 disk) = replicate 16 0 \<and> take 32 (drop 1352 disk) = replicate 32 0 \<and>
     word64_at disk 1272 = jd_jumpstart_block d \<and> 0 < unat (jd_jumpstart_block d) \<and>
     unat (jd_jumpstart_block d) < unat (jd_container_block_count d)"

definition extent_at :: "byte_string \<Rightarrow> nat \<Rightarrow> jumpstart_extent" where
  "extent_at disk offset = \<lparr> je_start_block = word64_at disk offset, je_block_count = word64_at disk (offset + 8) \<rparr>"

definition jumpstart_record_of :: "byte_string \<Rightarrow> jumpstart_driver \<Rightarrow> bool" where
  "jumpstart_record_of disk d \<longleftrightarrow>
     (let start = unat (jd_jumpstart_block d) * unat (jd_block_size d);
          number = unat (word32_at disk (start + 44)) in
      object_header disk start 0x5244534a 0x14 \<and>
      word32_at disk (start + 24) AND 0xc0000000 = 0x40000000 \<and> word64_at disk (start + 8) = jd_jumpstart_block d \<and>
      word32_at disk (start + 36) = 1 \<and> length (jd_bytes d) = unat (word32_at disk (start + 40)) \<and>
      0 < number \<and> 176 + number * 16 \<le> unat (jd_block_size d) \<and>
      jd_extents d = map (\<lambda>i. extent_at disk (start + 176 + 16 * i)) [0 ..< number])"

text \<open>The fields of a block that was read from the partition.\<close>

lemma take_take_drop: "k + n \<le> m \<Longrightarrow> take n (drop k (take m (drop start disk))) = take n (drop (start + k) disk)"
  by (simp add: take_drop min_def add.commute)

lemma js_le32_block:
  "js_le32 (take m (drop start disk)) k = Inr v \<Longrightarrow> word32_at disk (start + k) = v"
  by (auto simp: js_le32_def result_iff get_range_def word32_at_def take_take_drop split: if_splits)

lemma js_le64_block:
  "js_le64 (take m (drop start disk)) k = Inr v \<Longrightarrow> word64_at disk (start + k) = v"
  by (auto simp: js_le64_def result_iff get_range_def word64_at_def take_take_drop split: if_splits)

lemma get_range_block:
  "get_range (take m (drop start disk)) i j = Some bytes \<Longrightarrow> bytes = take (j - i) (drop (start + i) disk)"
  by (auto simp: get_range_def take_take_drop split: if_splits)

lemma check_object_header:
  assumes "check_object (take m (drop start disk)) magic object_type jumpstart oid = Inr ()"
  shows "object_header disk start magic object_type"
    and "oid = Some k \<Longrightarrow> word32_at disk (start + 24) AND 0xc0000000 = 0x40000000 \<and> word64_at disk (start + 8) = k"
  using assms unfolding object_header_def
  by (auto simp: check_object_def result_iff Let_def dest!: js_le32_block js_le64_block split: if_splits)

text \<open>The superblock.\<close>

lemma replicate_zeros: "\<not> list_ex (\<lambda>byte. byte \<noteq> 0) bytes \<Longrightarrow> bytes = replicate (length bytes) (0 :: u8)"
  by (induction bytes) auto

lemma positive_paddr_Inr [simp]: "positive_paddr raw = Inr v \<longleftrightarrow> raw \<le> 0x7fffffffffffffff \<and> v = raw"
  by (auto simp: positive_paddr_def)

lemma read_container_fields:
  fixes disk :: byte_string
  assumes "(read_container (take m disk) block_size partition_len :: 'e jumpstart_error + container_info) = Inr info"
  shows "word64_at disk 40 = ci_block_count info \<and> word64_at disk 48 AND 2 = 0 \<and> word64_at disk 64 = 2 \<and>
    take 16 (drop 72 disk) = ci_uuid info \<and> word64_at disk 1272 = ci_jumpstart_block info \<and>
    take 16 (drop 1280 disk) = replicate 16 0 \<and> take 32 (drop 1352 disk) = replicate 32 0"
proof -
  let ?block = "take m (drop 0 disk)"
  obtain fusion_uuid fusion_tail where
    words: "(js_le64 ?block 40 :: 'e jumpstart_error + u64) = Inr (ci_block_count info)"
      "\<exists>features. (js_le64 ?block 48 :: 'e jumpstart_error + u64) = Inr features \<and> features AND 2 = 0"
      "(js_le64 ?block 64 :: 'e jumpstart_error + u64) = Inr 2"
      "(js_le64 ?block 1272 :: 'e jumpstart_error + u64) = Inr (ci_jumpstart_block info)"
    and ranges: "get_range ?block 72 88 = Some (ci_uuid info)" "get_range ?block 1280 1296 = Some fusion_uuid"
      "get_range ?block 1352 1384 = Some fusion_tail"
    and zeros: "\<not> list_ex (\<lambda>byte. byte \<noteq> 0) fusion_uuid" "\<not> list_ex (\<lambda>byte. byte \<noteq> 0) fusion_tail"
    using assms
    by (auto simp: read_container_def result_iff NX_FUSION_UUID_def NX_JUMPSTART_def split: if_splits)
  have "length fusion_uuid = 16" "length fusion_tail = 32"
    using get_range_length [OF ranges(2)] get_range_length [OF ranges(3)] by simp_all
  then have "fusion_uuid = replicate 16 0" "fusion_tail = replicate 32 0"
    using replicate_zeros [OF zeros(1)] replicate_zeros [OF zeros(2)] by simp_all
  then show ?thesis
    using words js_le64_block [of m 0 disk] get_range_block [OF ranges(1)] get_range_block [OF ranges(2)]
      get_range_block [OF ranges(3)]
    by fastforce
qed

text \<open>The table of the record.\<close>

lemma read_extent_entry:
  assumes "(read_extent block_count block_size st entry :: 'e jumpstart_error + _) = Inr st'" and "length entry = 16"
  shows "snd st' = snd st @ [extent_at entry 0]"
  using assms
  by (auto simp: read_extent_def result_iff extent_at_def word64_at_def js_le_inside split: prod.splits if_splits)

lemma read_table_entries:
  assumes "(try_fold (read_extent block_count block_size) st entries :: 'e jumpstart_error + _) = Inr st'"
    and "\<forall>entry \<in> set entries. length entry = 16"
  shows "snd st' = snd st @ map (\<lambda>entry. extent_at entry 0) entries"
  using assms
proof (induction entries arbitrary: st)
  case (Cons entry entries)
  then obtain st1 where "(read_extent block_count block_size st entry :: 'e jumpstart_error + _) = Inr st1"
    and "(try_fold (read_extent block_count block_size) st1 entries :: 'e jumpstart_error + _) = Inr st'"
    by (auto simp: result_iff)
  then show ?case using Cons read_extent_entry by fastforce
qed simp

lemma chunks_exact_nth:
  "n * k \<le> length xs \<Longrightarrow> chunks_exact n xs k = map (\<lambda>i. take n (drop (n * i) xs)) [0 ..< k]"
proof (induction k arbitrary: xs)
  case (Suc k)
  have "map (\<lambda>i. take n (drop (n * i) xs)) [0 ..< Suc k] =
      take n xs # map (\<lambda>i. take n (drop (n * i) (drop n xs))) [0 ..< k]"
    unfolding upt_conv_Cons [OF zero_less_Suc] map_Suc_upt [symmetric] by (simp add: algebra_simps)
  then show ?case using Suc.prems Suc.IH [of "drop n xs"] by simp
qed simp

lemma extent_at_part: "k + 16 \<le> m \<Longrightarrow> extent_at (take 16 (drop k (take m (drop start disk)))) 0 = extent_at disk (start + k)"
  by (simp add: extent_at_def word64_at_def take_take_drop min_def drop_take ac_simps)

lemma read_jumpstart_fields:
  assumes "(read_jumpstart R limits (take m (drop start disk)) info block_size ::
      'e jumpstart_error + nat \<times> jumpstart_extent list) = Inr (file_len, extents)"
    and "number = unat (word32_at disk (start + 44))"
  shows "object_header disk start 0x5244534a 0x14 \<and>
    word32_at disk (start + 24) AND 0xc0000000 = 0x40000000 \<and> word64_at disk (start + 8) = ci_jumpstart_block info \<and>
    word32_at disk (start + 36) = 1 \<and> file_len = unat (word32_at disk (start + 40)) \<and>
    0 < number \<and> 176 + number * 16 \<le> m \<and>
    extents = map (\<lambda>i. extent_at disk (start + 176 + 16 * i)) [0 ..< number]"
proof -
  let ?block = "take m (drop start disk)"
  obtain file_len32 number32 :: u32 and table and capacity where
    checked: "(check_object ?block JSDR_MAGIC 0x14 True (Some (ci_jumpstart_block info)) :: 'e jumpstart_error + unit) = Inr ()"
    and version: "(js_le32 ?block 36 :: 'e jumpstart_error + u32) = Inr 1"
    and len: "(js_le32 ?block 40 :: 'e jumpstart_error + u32) = Inr file_len32" "file_len = unat file_len32"
    and num: "(js_le32 ?block 44 :: 'e jumpstart_error + u32) = Inr number32" "unat number32 \<noteq> 0"
    and fit: "\<not> length ?block < 176 + unat number32 * 16"
    and table: "get_range ?block 176 (176 + unat number32 * 16) = Some table"
    and fold: "(try_fold (read_extent (ci_block_count info) block_size) (0, [])
        (chunks_exact 16 table (length table div 16)) :: 'e jumpstart_error + _) = Inr (capacity, extents)"
    using assms(1) unfolding read_jumpstart_def JSDR_EXTENTS_def EXTENT_SIZE_def
    by (auto simp: result_iff Let_def usize_mul_def usize_add_def split: if_splits prod.splits)
  have n: "number = unat number32" using js_le32_block [OF num(1)] assms(2) by simp
  have size: "176 + number * 16 \<le> m" using fit by (simp add: n)
  have length: "length table = number * 16" using get_range_length [OF table] by (simp add: n)
  have t: "table = take (number * 16) (drop 176 ?block)" using table by (auto simp: get_range_def n split: if_splits)
  have "extents = map (\<lambda>entry. extent_at entry 0) (chunks_exact 16 table number)"
    using read_table_entries [OF fold chunks_exact_lengths] length by simp
  also have "\<dots> = map (\<lambda>i. extent_at disk (start + 176 + 16 * i)) [0 ..< number]"
  proof -
    have "extent_at (take 16 (drop (16 * i) table)) 0 = extent_at disk (start + 176 + 16 * i)" if "i < number" for i
    proof -
      have "take 16 (drop (16 * i) table) = take 16 (drop (176 + 16 * i) ?block)"
        using that by (simp add: t take_take_drop)
      then show ?thesis using extent_at_part [of "176 + 16 * i" m start disk] size that by (simp add: add.assoc)
    qed
    then show ?thesis by (simp add: chunks_exact_nth length mult.commute)
  qed
  finally have "extents = \<dots>" .
  then show ?thesis
    using check_object_header [OF checked] js_le32_block [OF version] js_le32_block [OF len(1)] len(2) num(2) size
    by (simp add: n JSDR_MAGIC_def)
qed

section \<open>What was extracted\<close>

text \<open>The two metadata blocks of a successful extraction are those of the partition.\<close>

lemma extract_jumpstart_blocks:
  fixes read :: "('s, 'e) read_at"
  assumes serves: "serves disk read" and "length disk = unat partition_len"
    and d: "fst (extract_jumpstart read R s partition_len limits) = Inr d"
  obtains info file_len s3 s4 where
    "4096 \<le> unat (jd_block_size d)" and "unat (jd_block_size d) \<le> 65536"
    and "is_power_of_two (ucast (jd_block_size d))" and "word32_at disk 36 = jd_block_size d"
    and "(read_container (take (unat (jd_block_size d)) disk) (jd_block_size d) partition_len ::
      'e jumpstart_error + container_info) = Inr info"
    and "(read_jumpstart R limits (record_of disk d) info (jd_block_size d) ::
      'e jumpstart_error + nat \<times> jumpstart_extent list) = Inr (file_len, jd_extents d)"
    and "read_extents read info (jd_block_size d) file_len (jd_extents d) (replicate file_len 0, 0) s3 =
      (Inr (jd_bytes d, file_len), s4)"
    and "unat (ci_container_bytes info) \<le> length disk"
    and "jd_container_block_count d = ci_block_count info" and "jd_jumpstart_block d = ci_jumpstart_block info"
    and "jd_container_uuid d = ci_uuid info"
proof -
  let ?b = "unat (jd_block_size d)"
  have shown: "bytes = take n (drop (unat offset) disk)"
    if "read_bounded read s limit offset n = (Inr bytes, s')" "n \<le> 65536" "unat limit \<le> length disk"
    for s limit offset n bytes s'
    using read_bounded_Inr [OF that(1,2)] that(3) serves unfolding serves_def by (meson le_trans)
  obtain prefix s1 block s2 info record_block s3 file_len s4 where
    prefix: "read_bounded read s partition_len 0 40 = (Inr prefix, s1)"
      "js_le32 prefix 36 = (Inr (jd_block_size d) :: 'e jumpstart_error + u32)"
    and sizes: "MIN_BLOCK_SIZE \<le> jd_block_size d" "jd_block_size d \<le> MAX_BLOCK_SIZE"
    and block: "read_bounded read s1 partition_len 0 ?b = (Inr block, s2)"
    and info: "(read_container block (jd_block_size d) partition_len :: 'e jumpstart_error + container_info) = Inr info"
    and rec: "read_bounded read s2 (ci_container_bytes info) (ci_jumpstart_offset info) ?b = (Inr record_block, s3)"
    and js: "(read_jumpstart R limits record_block info (jd_block_size d) ::
      'e jumpstart_error + nat \<times> jumpstart_extent list) = Inr (file_len, jd_extents d)"
    and ext: "read_extents read info (jd_block_size d) file_len (jd_extents d) (replicate file_len 0, 0) s3 =
      (Inr (jd_bytes d, file_len), s4)"
    and copied: "jd_container_block_count d = ci_block_count info" "jd_jumpstart_block d = ci_jumpstart_block info"
      "is_power_of_two (ucast (jd_block_size d))" "jd_container_uuid d = ci_uuid info"
    using extract_jumpstart_steps [OF d] by metis
  have b: "4096 \<le> ?b" "?b \<le> 65536"
    using sizes by (auto simp: MIN_BLOCK_SIZE_def MAX_BLOCK_SIZE_def word_le_nat_alt)
  note C = read_container_Inr [OF info]
  have inside: "unat (ci_container_bytes info) \<le> length disk" using C(1) assms(2) by simp
  have "prefix = take 40 (drop 0 disk)" using shown [OF prefix(1)] assms(2) by simp
  then have "word32_at disk 36 = jd_block_size d" using js_le32_block [of 40 0 disk 36] prefix(2) by simp
  moreover have "block = take ?b disk" using shown [OF block b(2)] assms(2) by simp
  moreover have "record_block = record_of disk d"
    using shown [OF rec b(2) inside] C(5) by (simp add: record_of_def js_block_range_Inr copied(2))
  ultimately show thesis using that b copied info js ext inside by simp
qed

text \<open>
  C22. The source may fail at any read; where the extraction succeeds, what it returns is what the
  format says of the partition. The superblock gives the block size, the number of blocks, the UUID
  and the block of the jumpstart record; the record gives the length and the table of the extents;
  the driver is the contents of the extents of that table one after the other, cut to that length.
  Both metadata blocks match their checksums, every extent lies in the container and the container
  in the partition, and the limits hold.
\<close>

theorem extract_jumpstart_driver:
  fixes read :: "('s, 'e) read_at"
  assumes "serves disk read" and "length disk = unat partition_len"
    and "fst (extract_jumpstart read R s partition_len limits) = Inr d"
  shows "superblock_of disk d \<and> jumpstart_record_of disk d \<and>
    jd_bytes d = take (length (jd_bytes d))
      (concat (map (extent_data disk (unat (jd_block_size d))) (jd_extents d))) \<and>
    length (jd_bytes d) = unat (from_le_bytes (take 4 (drop 40 (record_of disk d))) :: u32) \<and>
    0 < length (jd_bytes d) \<and> length (jd_bytes d) \<le> jl_max_driver_bytes limits \<and>
    length (jd_extents d) \<le> jl_max_extents limits \<and>
    (\<forall>e \<in> set (jd_extents d). 0 < unat (je_block_count e) \<and>
       unat (je_start_block e) + unat (je_block_count e) \<le> unat (jd_container_block_count d)) \<and>
    unat (jd_container_block_count d) * unat (jd_block_size d) \<le> length disk \<and>
    fletcher64_checksum (take (unat (jd_block_size d)) disk) = Some (from_le_bytes (take 8 disk)) \<and>
    fletcher64_checksum (record_of disk d) = Some (from_le_bytes (take 8 (record_of disk d)))"
proof -
  let ?b = "unat (jd_block_size d)"
  obtain info file_len s3 s4 where b: "4096 \<le> ?b" "?b \<le> 65536"
    and size: "is_power_of_two (ucast (jd_block_size d))" "word32_at disk 36 = jd_block_size d"
    and info: "(read_container (take ?b disk) (jd_block_size d) partition_len :: 'e jumpstart_error + container_info) = Inr info"
    and js: "(read_jumpstart R limits (record_of disk d) info (jd_block_size d) ::
      'e jumpstart_error + nat \<times> jumpstart_extent list) = Inr (file_len, jd_extents d)"
    and ext: "read_extents read info (jd_block_size d) file_len (jd_extents d) (replicate file_len 0, 0) s3 =
      (Inr (jd_bytes d, file_len), s4)"
    and inside: "unat (ci_container_bytes info) \<le> length disk"
    and d: "jd_container_block_count d = ci_block_count info" "jd_jumpstart_block d = ci_jumpstart_block info"
      "jd_container_uuid d = ci_uuid info"
    by (rule extract_jumpstart_blocks [OF assms])
  note C = read_container_Inr [OF info] and J = read_jumpstart_Inr [OF js]
  have extents: "\<forall>e \<in> set (jd_extents d). 0 < unat (je_block_count e) \<and>
       unat (je_start_block e) + unat (je_block_count e) \<le> unat (ci_block_count info)"
    using J(6) by (auto simp: extents_ok_def)
  have "filled file_len [] (replicate file_len 0, 0)" by (simp add: filled_def)
  from read_extents_data [OF assms(1) inside C(2) _ b(2) _ this ext] extents b
  have "filled file_len (concat (map (extent_data disk ?b) (jd_extents d))) (jd_bytes d, file_len)" by simp
  then have bytes: "jd_bytes d = take file_len (concat (map (extent_data disk ?b) (jd_extents d)))"
    "length (jd_bytes d) = file_len"
    by (auto simp: filled_def min_def split: if_splits)
  have "superblock_of disk d"
    using read_container_fields [OF info] check_object_header(1) [of ?b 0 disk NX_MAGIC] C(3,4,5,6) C(2) b size d
    by (simp add: superblock_of_def NX_MAGIC_def MIN_CONTAINER_BYTES_def js_block_range_Inr unat_gt_0)
  moreover have "jumpstart_record_of disk d"
    using read_jumpstart_fields [OF js [unfolded record_of_def] refl] bytes(2) d(2)
    by (simp add: jumpstart_record_of_def Let_def)
  moreover have "fletcher64_checksum (take ?b disk) = Some (from_le_bytes (take 8 disk))"
    using check_object_Inr [OF C(3)] b(1) by (simp add: min_def)
  moreover have "unat (jd_container_block_count d) * ?b \<le> length disk" using C(2) inside d(1) by simp
  ultimately show ?thesis using bytes J(1-5) extents d(1) by simp
qed

end
