(* ===== verification/Apfs_Jumpstart_Safety.thy ===== *)
theory Apfs_Jumpstart_Safety
  imports Apfs_Jumpstart_Proofs
begin

text \<open>
  The extraction of \<^verbatim>\<open>src/apfs_jumpstart.rs\<close> never panics, whatever the bytes of the partition
  are; and a partition it accepts, as the witness of the theorems.
\<close>

section \<open>No panic\<close>

lemma or_return_no_panic:
  assumes "r \<noteq> Inl e" and "\<And>a. r = Inr a \<Longrightarrow> fst (f a) \<noteq> Inl e"
  shows "fst (or_return r s f) \<noteq> Inl e"
  using assms by (cases r) auto

lemma and_run_no_panic:
  assumes "fst r \<noteq> Inl e" and "\<And>a s. r = (Inr a, s) \<Longrightarrow> fst (f a s) \<noteq> Inl e"
  shows "fst (and_run r f) \<noteq> Inl e"
  using assms by (cases r; cases "fst r") auto

lemma ok_or_no_panic: "opt \<noteq> None \<or> e' \<noteq> e \<Longrightarrow> ok_or opt e' \<noteq> Inl e"
  by (cases opt) auto

lemma if_no_panic:
  "(c \<Longrightarrow> fst a \<noteq> Inl e) \<Longrightarrow> (\<not> c \<Longrightarrow> fst b \<noteq> Inl e) \<Longrightarrow> fst (if c then a else b) \<noteq> Inl e"
  by simp

lemma pair_no_panic: "r \<noteq> Inl e \<Longrightarrow> fst (r, s) \<noteq> Inl e"
  by simp

lemmas no_panic_rules = or_return_no_panic and_run_no_panic if_no_panic pair_no_panic

lemma read_bounded_no_panic: "fst (read_bounded read s limit offset n) \<noteq> Inl Js_Panic"
  unfolding read_bounded_def
  by (rule or_return_no_panic) (auto simp: result_iff split: prod.splits)

lemma js_block_range_no_panic: "js_block_range start number block_count block_size \<noteq> Inl Js_Panic"
  by (auto simp: js_block_range_def result_iff)

lemma read_container_no_panic:
  "4096 \<le> length block \<Longrightarrow> read_container block block_size partition_len \<noteq> Inl Js_Panic"
  unfolding read_container_def
  by (auto simp: result_iff js_le_inside js_block_range_no_panic check_object_no_panic get_range_def
      NX_FUSION_UUID_def NX_JUMPSTART_def positive_paddr_def)

lemma read_extent_no_panic: "length entry = 16 \<Longrightarrow> read_extent block_count block_size st entry \<noteq> Inl Js_Panic"
  by (auto simp: read_extent_def result_iff js_le_inside js_block_range_no_panic positive_paddr_def
      split: prod.splits if_splits)

lemma read_table_no_panic:
  assumes "\<forall>c \<in> set entries. length c = 16"
  shows "try_fold (read_extent block_count block_size) st entries \<noteq> Inl Js_Panic"
  using assms by (induction entries arbitrary: st) (auto simp: result_iff read_extent_no_panic)

lemma read_jumpstart_no_panic:
  assumes "4096 \<le> length block"
  shows "read_jumpstart R limits block info block_size \<noteq> Inl Js_Panic"
  unfolding read_jumpstart_def
  using assms
  by (auto simp: read_table_no_panic [OF chunks_exact_lengths] result_iff js_le_inside check_object_no_panic get_range_def Let_def EXTENT_SIZE_def
      usize_add_def usize_mul_def split: if_splits prod.splits)

text \<open>The buffer always has the length of the driver, and no more is written than fits.\<close>

lemma read_blocks_progress:
  fixes read :: "('s, 'e) read_at"
  assumes "fills read" and "length bytes = n" and "written \<le> n"
  shows "fst (read_blocks read info block_size n start indices (bytes, written) s) \<noteq> Inl Js_Panic"
    and "fst (read_blocks read info block_size n start indices (bytes, written) s) = Inr (bytes', written') \<Longrightarrow>
      length bytes' = n \<and> written' = min n (written + length indices * unat block_size)"
proof -
  have "fst (read_blocks read info block_size n start indices (bytes, written) s) \<noteq> Inl Js_Panic \<and>
    (\<forall>bytes' written'. fst (read_blocks read info block_size n start indices (bytes, written) s) =
      Inr (bytes', written') \<longrightarrow> length bytes' = n \<and> written' = min n (written + length indices * unat block_size))"
    using assms(2,3)
  proof (induction indices arbitrary: bytes written s)
    case (Cons i indices)
    have block: "length block = unat block_size"
      if "read_bounded read s limit offset (unat block_size) = (Inr block, s1)" for limit offset block s1
      using that assms(1)
      by (auto simp: read_bounded_def fills_def result_iff split_beta split: if_splits)
    show ?case
    proof (rule conjI)
      show "fst (read_blocks read info block_size n start (i # indices) (bytes, written) s) \<noteq> Inl Js_Panic"
        unfolding read_blocks.simps prod.case Let_def
        using Cons.prems
        by (intro no_panic_rules read_bounded_no_panic js_block_range_no_panic Cons.IH [THEN conjunct1])
          (auto simp: result_iff copy_from_slice_def split: if_splits)
    next
      show "\<forall>bytes' written'. fst (read_blocks read info block_size n start (i # indices) (bytes, written) s) =
        Inr (bytes', written') \<longrightarrow>
        length bytes' = n \<and> written' = min n (written + length (i # indices) * unat block_size)"
      proof (intro allI impI)
        fix bytes' written'
        assume "fst (read_blocks read info block_size n start (i # indices) (bytes, written) s) = Inr (bytes', written')"
        then obtain limit offset block s1 bytes1 where
          b: "read_bounded read s limit offset (unat block_size) = (Inr block, s1)"
          and c: "copy_from_slice bytes (written, written + min (n - written) (length block))
            (take (min (n - written) (length block)) block) = Some bytes1"
          and r: "fst (read_blocks read info block_size n start indices
            (bytes1, written + min (n - written) (length block)) s1) = Inr (bytes', written')"
          by (auto simp: fst_and_run_Inr fst_or_return_Inr ok_or_Inr Let_def split: if_splits)
        have "length bytes1 = n" using c Cons.prems by (auto simp: result_iff)
        with Cons.IH [THEN conjunct2, rule_format, OF this _ r] Cons.prems block [OF b]
        show "length bytes' = n \<and> written' = min n (written + length (i # indices) * unat block_size)"
          by (auto simp: min_def algebra_simps)
      qed
    qed
  qed simp
  then show "fst (read_blocks read info block_size n start indices (bytes, written) s) \<noteq> Inl Js_Panic"
    and "fst (read_blocks read info block_size n start indices (bytes, written) s) = Inr (bytes', written') \<Longrightarrow>
      length bytes' = n \<and> written' = min n (written + length indices * unat block_size)"
    by blast+
qed

text \<open>All the extents are enough for the driver.\<close>

lemma read_extents_progress:
  fixes read :: "('s, 'e) read_at"
  assumes "fills read" and "0 < unat block_size" and "length bytes = n" and "written \<le> n"
    and "n \<le> written + sum_list (map (\<lambda>e. unat (je_block_count e) * unat block_size) extents)"
  shows "fst (read_extents read info block_size n extents (bytes, written) s) \<noteq> Inl Js_Panic \<and>
    (\<forall>bytes' written'. fst (read_extents read info block_size n extents (bytes, written) s) = Inr (bytes', written') \<longrightarrow>
      written' = n)"
  using assms(3-5)
proof (induction extents arbitrary: bytes written s)
  case (Cons e extents)
  let ?k = "min (unat (je_block_count e)) (div_ceil (n - written) (unat block_size))"
  let ?r = "read_blocks read info block_size n (je_start_block e) [0 ..< ?k] (bytes, written) s"
  note P = read_blocks_progress [OF assms(1) Cons.prems(1,2)]
  show ?case
  proof (cases "n = written")
    case True
    then show ?thesis by simp
  next
    case False
    then have unfolded: "read_extents read info block_size n (e # extents) (bytes, written) s =
      and_run ?r (\<lambda>progress s. read_extents read info block_size n extents progress s)"
      using Cons.prems(2) by (simp add: Let_def)
    have tail: "fst (read_extents read info block_size n extents (bytes', written') s') \<noteq> Inl Js_Panic \<and>
      (\<forall>bytes'' written''. fst (read_extents read info block_size n extents (bytes', written') s') =
        Inr (bytes'', written'') \<longrightarrow> written'' = n)"
      if "fst ?r = Inr (bytes', written')" for bytes' written' s'
    proof -
      from P(2) [OF that] have p: "length bytes' = n" "written' = min n (written + ?k * unat block_size)" by simp_all
      have "n - written \<le> div_ceil (n - written) (unat block_size) * unat block_size"
        using assms(2) by (rule div_ceil_ge)
      then have "n \<le> written' + sum_list (map (\<lambda>e. unat (je_block_count e) * unat block_size) extents)"
        using Cons.prems(3) p(2)
        by (cases "unat (je_block_count e) \<le> div_ceil (n - written) (unat block_size)") (auto simp: min_def)
      then show ?thesis using Cons.IH [of bytes' written' s'] p by simp
    qed
    show ?thesis
      unfolding unfolded
    proof (rule conjI)
      show "fst (and_run ?r (\<lambda>progress s. read_extents read info block_size n extents progress s)) \<noteq> Inl Js_Panic"
        using P(1) tail by (intro and_run_no_panic) auto
      show "\<forall>bytes' written'. fst (and_run ?r (\<lambda>progress s. read_extents read info block_size n extents progress s)) =
        Inr (bytes', written') \<longrightarrow> written' = n"
        using tail by (fastforce simp: fst_and_run_Inr)
    qed
  qed
qed simp

text \<open>
  C23. Whatever the partition holds, the extraction returns the driver or one of its errors: with a
  source that fills the buffers it is given, no slice index and no assertion of it fails.
\<close>

theorem extract_never_panics:
  fixes read :: "('s, 'e) read_at"
  assumes "fills read"
  shows "fst (extract_jumpstart read R s partition_len limits) \<noteq> Inl Js_Panic"
proof -
  have fill: "length bytes = n" if "read_bounded read s limit offset n = (Inr bytes, s')" for s limit offset n bytes s'
    using that assms
    by (auto simp: read_bounded_def fills_def result_iff split_beta split: if_splits)
  have small: "4096 \<le> unat b" if "MIN_BLOCK_SIZE \<le> b" for b :: u32
    using that by (simp add: MIN_BLOCK_SIZE_def word_le_nat_alt)
  have small': "40 \<le> unat b" if "MIN_BLOCK_SIZE \<le> b" for b :: u32
    using small [OF that] by simp
  have zeroed: "zs = replicate n 0" if "(zeroed_bytes R n :: 'e jumpstart_error + byte_string) = Inr zs" for zs n
    using that by (auto simp: zeroed_bytes_def split: if_splits)
  have zeroed_ok: "(zeroed_bytes R n :: 'e jumpstart_error + byte_string) \<noteq> Inl Js_Panic" for n
    by (simp add: zeroed_bytes_def)
  have extents: "fst (read_extents read info block_size n extents (replicate n 0, 0) s) \<noteq> Inl Js_Panic"
      "read_extents read info block_size n extents (replicate n 0, 0) s = (Inr (bytes, written), s') \<Longrightarrow> written = n"
    if js: "(read_jumpstart R limits block info block_size :: 'e jumpstart_error + nat \<times> jumpstart_extent list) =
      Inr (n, extents)" and "MIN_BLOCK_SIZE \<le> block_size"
    for block info block_size n extents s bytes written s'
  proof -
    obtain capacity where "extents_ok (ci_block_count info) block_size (capacity, extents)" "n \<le> unat capacity"
      using read_jumpstart_Inr(6) [OF js] by blast
    then have "n \<le> 0 + sum_list (map (\<lambda>e. unat (je_block_count e) * unat block_size) extents)"
      by (simp add: extents_ok_def)
    from read_extents_progress [OF assms _ _ _ this, of "replicate n 0" info s] small [OF that(2)]
    show "fst (read_extents read info block_size n extents (replicate n 0, 0) s) \<noteq> Inl Js_Panic"
      and "read_extents read info block_size n extents (replicate n 0, 0) s = (Inr (bytes, written), s') \<Longrightarrow> written = n"
      by simp_all
  qed
  show ?thesis
    unfolding extract_jumpstart_def split_beta
    apply (intro no_panic_rules read_bounded_no_panic zeroed_ok ok_or_no_panic)
    apply (simp_all)
    apply (auto dest!: fill zeroed simp: js_le_inside get_range_def small read_container_no_panic
        read_jumpstart_no_panic)
    apply (simp add: small')
    apply (erule notE [rotated], rule extents(1), assumption, assumption)
    apply (frule extents(2), assumption, assumption, simp)
    done
qed

end
