(* ===== verification/Le_Image.thy ===== *)
theory Le_Image
  imports Rust_Prelude
begin

text \<open>
  Byte images given as lists of 32-bit little-endian words: how their parts and fields read. The
  concrete inputs of several readers are written that way.
\<close>

definition le_image :: "u32 list \<Rightarrow> byte_string" where
  "le_image ws = concat (map to_le_bytes ws)"

lemma le_image_simps [simp]: "le_image [] = []" "le_image (w # ws) = to_le_bytes w @ le_image ws"
  "le_image (us @ ws) = le_image us @ le_image ws"
  by (simp_all add: le_image_def)

lemma length_le_image [simp]: "length (le_image ws) = 4 * length ws"
  by (induction ws) simp_all

lemma drop_le_image: "drop (4 * i) (le_image ws) = le_image (drop i ws)"
proof (induction i arbitrary: ws)
  case (Suc i)
  then show ?case by (cases ws) simp_all
qed simp

lemma take_le_image: "take (4 * i) (le_image ws) = le_image (take i ws)"
proof (induction i arbitrary: ws)
  case (Suc i)
  then show ?case by (cases ws) simp_all
qed simp

lemma drop_le_image_Cons:
  assumes "i < length ws"
  shows "drop (4 * i) (le_image ws) = to_le_bytes (ws ! i) @ le_image (drop (Suc i) ws)"
  unfolding drop_le_image using Cons_nth_drop_Suc [OF assms] by (metis le_image_simps(2))

lemma le_value_append: "le_value (xs @ ys) = le_value xs + 256 ^ length xs * le_value ys"
  by (induction xs) (simp_all add: algebra_simps)

lemma from_le_two_words: "from_le_bytes (le_image [a, b]) = (of_nat (unat a + 2 ^ 32 * unat b) :: u64)"
proof -
  have "le_value (to_le_bytes w) = unat w" for w :: u32
    using unat_from_le_bytes [of "to_le_bytes w", where ?'a = 32] by simp
  then show ?thesis by (simp add: from_le_bytes_def le_value_append)
qed

lemma get_range_le_image:
  "i \<le> j \<Longrightarrow> j \<le> length ws \<Longrightarrow>
   get_range (le_image ws) (4 * i) (4 * j) = Some (le_image (take (j - i) (drop i ws)))"
  by (simp add: get_range_def drop_le_image diff_mult_distrib2 [symmetric] take_le_image)

lemma le_word_at:
  assumes "k mod 4 = 0" and "k div 4 < length ws"
  shows "take 4 (drop k (le_image ws)) = to_le_bytes (ws ! (k div 4))" and "k + 4 \<le> length (le_image ws)"
proof -
  have k: "k = 4 * (k div 4)" using assms(1) by presburger
  then show "take 4 (drop k (le_image ws)) = to_le_bytes (ws ! (k div 4))"
    using drop_le_image_Cons [OF assms(2)] by simp
  show "k + 4 \<le> length (le_image ws)" using k assms(2) by simp
qed

lemma le_words_at:
  assumes "k mod 4 = 0" and "Suc (k div 4) < length ws"
  shows "take 8 (drop k (le_image ws)) = le_image [ws ! (k div 4), ws ! Suc (k div 4)]"
    and "k + 8 \<le> length (le_image ws)"
proof -
  have k: "k = 4 * (k div 4)" using assms(1) by presburger
  have "drop (4 * (k div 4)) (le_image ws) =
    to_le_bytes (ws ! (k div 4)) @ to_le_bytes (ws ! Suc (k div 4)) @ le_image (drop (Suc (Suc (k div 4))) ws)"
    using assms(2) drop_le_image_Cons [of "Suc (k div 4)" ws] drop_le_image [of "Suc (k div 4)" ws]
    by (simp add: drop_le_image_Cons)
  then show "take 8 (drop k (le_image ws)) = le_image [ws ! (k div 4), ws ! Suc (k div 4)]"
    using k by simp
  show "k + 8 \<le> length (le_image ws)" using k assms(2) by simp
qed

lemma le_slice_at:
  assumes "k mod 4 = 0" and "n mod 4 = 0" and "k + n \<le> 4 * length ws"
  shows "take n (drop k (le_image ws)) = le_image (take (n div 4) (drop (k div 4) ws))"
proof -
  have "k = 4 * (k div 4)" "n = 4 * (n div 4)" using assms(1,2) by presburger+
  then show ?thesis using drop_le_image [of "k div 4" ws] take_le_image [of "n div 4"] by metis
qed

end
