(* ===== verification/Apfs_Sample.thy ===== *)
theory Apfs_Sample
  imports Apfs_Jumpstart_Safety Le_Image
begin

section \<open>A partition\<close>

text \<open>
  A container of 256 blocks of 4096 bytes, as 32-bit words: the superblock, the jumpstart record
  with one extent of one block, and that block, which holds the driver of four bytes.
\<close>

definition sample_super :: "u32 list" where
  "sample_super = [2191696766, 990507821, 1, 0, 1, 0, 1, 0, 1112758350, 4096, 256, 0, 0, 0, 0, 0, 2] @ replicate 301 0 @ [1] @ replicate 705 0"

definition sample_record :: "u32 list" where
  "sample_record = [1854972385, 4281010868, 1, 0, 1, 0, 1073741844, 0, 1380209482, 1, 4, 1] @ replicate 32 0 @ [2, 0, 1] @ replicate 977 0"

definition sample_disk :: byte_string where
  "sample_disk = le_image (sample_super @ sample_record @ [0x04030201] @ replicate 260095 0)"

definition disk_reader :: "(unit, unit) read_at" where
  "disk_reader s offset n = (Inr (take n (drop (unat offset) sample_disk)), s)"

lemma chunks_le_image: "chunks_exact 4 (le_image ws) (length ws) = map to_le_bytes ws"
  by (induction ws) simp_all

lemma js_le32_image: "i < length ws \<Longrightarrow> js_le32 (le_image ws) (4 * i) = Inr (ws ! i)"
  by (simp add: js_le_inside(1) drop_le_image_Cons)

lemma js_le64_image:
  assumes "Suc i < length ws"
  shows "js_le64 (le_image ws) (4 * i) = Inr (from_le_bytes (le_image [ws ! i, ws ! Suc i]))"
proof -
  have "drop (4 * i) (le_image ws) = to_le_bytes (ws ! i) @ to_le_bytes (ws ! Suc i) @ le_image (drop (Suc (Suc i)) ws)"
    using assms drop_le_image_Cons [of "Suc i" ws] drop_le_image [of "Suc i" ws] by (simp add: drop_le_image_Cons)
  then show ?thesis using assms by (simp add: js_le_inside(2))
qed

text \<open>A run of zero words in the checksum.\<close>

lemma fletcher_sums_zeros:
  assumes "unat a < 2 ^ 32 - 1" and "unat p < 2 ^ 32 - 1"
  shows "fletcher_sums (map to_le_bytes (replicate n (0 :: u32) @ ws)) a p =
    fletcher_sums (map to_le_bytes ws) a (of_nat ((unat p + n * unat a) mod (2 ^ 32 - 1)))"
  using assms(2)
proof (induction n arbitrary: p)
  case (Suc n)
  have a: "(a + ucast (0 :: u32)) mod FLETCHER_MODULUS = a"
    using assms(1) by (simp add: word_unat_eq_iff unat_mod modulus_nat)
  have p: "unat ((p + a) mod FLETCHER_MODULUS) = (unat p + unat a) mod (2 ^ 32 - 1)"
    using assms(1) Suc.prems by (intro unat_mod_add) simp_all
  have "fletcher_sums (map to_le_bytes (replicate (Suc n) (0 :: u32) @ ws)) a p =
    fletcher_sums (map to_le_bytes (replicate n (0 :: u32) @ ws)) a ((p + a) mod FLETCHER_MODULUS)"
    using a by (simp add: Let_def)
  also have "\<dots> = fletcher_sums (map to_le_bytes ws) a
      (of_nat ((unat ((p + a) mod FLETCHER_MODULUS) + n * unat a) mod (2 ^ 32 - 1)))"
    using Suc.IH [OF unat_mod_modulus] .
  finally show ?case unfolding p by (simp add: mod_add_left_eq add.assoc)
qed simp

lemma checksum_le_image:
  assumes "2 \<le> length ws"
  shows "fletcher64_checksum (le_image ws) =
    (let (acc, prefixes) = fletcher_sums (map to_le_bytes (drop 2 ws)) 0 0;
         low = FLETCHER_MODULUS - (acc + prefixes) mod FLETCHER_MODULUS;
         high = FLETCHER_MODULUS - (acc + low) mod FLETCHER_MODULUS
     in Some (push_bit 32 high OR low))"
proof -
  have "(4 * length ws - 8) div 4 = length (drop 2 ws)" by simp
  moreover have "drop 8 (le_image ws) = le_image (drop 2 ws)" using drop_le_image [of 2 ws] by simp
  ultimately show ?thesis
    using assms by (simp add: fletcher64_checksum_def chunks_le_image del: length_drop)
qed

lemma sample_super_checksum:
  "fletcher64_checksum (le_image sample_super) = Some (from_le_bytes (le_image [sample_super ! 0, sample_super ! 1]))"
proof -
  have s0: "fletcher_sums (map to_le_bytes [1, 0, 1, 0, 1, 0, 1112758350, 4096, 256, 0, 0, 0, 0, 0, 2 :: u32]) 0 0 = (1112762707, 1424925161)"
    by (simp add: FLETCHER_MODULUS_def Let_def)
  have s1: "fletcher_sums (map to_le_bytes (replicate 301 (0 :: u32))) 1112762707 1424925161 = (1112762707, 1359050958)"
    using fletcher_sums_zeros [of 1112762707 1424925161 301 "[]"] by simp
  have s2: "fletcher_sums (map to_le_bytes [1 :: u32]) 1112762707 1359050958 = (1112762708, 2471813666)"
    by (simp add: FLETCHER_MODULUS_def Let_def)
  have s3: "fletcher_sums (map to_le_bytes (replicate 705 (0 :: u32))) 1112762708 2471813666 = (1112762708, 990507821)"
    using fletcher_sums_zeros [of 1112762708 2471813666 705 "[]"] by simp
  have d: "drop 2 sample_super = [1, 0, 1, 0, 1, 0, 1112758350, 4096, 256, 0, 0, 0, 0, 0, 2] @ replicate 301 0 @ [1] @ replicate 705 0"
    by (simp add: sample_super_def)
  have sums: "fletcher_sums (map to_le_bytes (drop 2 sample_super)) 0 0 = (1112762708, 990507821)"
    unfolding d map_append fletcher_sums_append s0 s1 s2 s3 prod.case ..
  have len: "2 \<le> length sample_super" and words: "sample_super ! 0 = 2191696766" "sample_super ! 1 = 990507821"
    by (simp_all add: sample_super_def)
  show ?thesis
    unfolding checksum_le_image [OF len] sums from_le_two_words words
    by (simp add: FLETCHER_MODULUS_def Let_def)
qed

lemma sample_record_checksum:
  "fletcher64_checksum (le_image sample_record) = Some (from_le_bytes (le_image [sample_record ! 0, sample_record ! 1]))"
proof -
  have s0: "fletcher_sums (map to_le_bytes [1, 0, 1, 0, 1073741844, 0, 1380209482, 1, 4, 1 :: u32]) 0 0 = (2453951334, 3373354432)"
    by (simp add: FLETCHER_MODULUS_def Let_def)
  have s1: "fletcher_sums (map to_le_bytes (replicate 32 (0 :: u32))) 2453951334 3373354432 = (2453951334, 295418515)"
    using fletcher_sums_zeros [of 2453951334 3373354432 32 "[]"] by simp
  have s2: "fletcher_sums (map to_le_bytes [2, 0, 1 :: u32]) 2453951334 295418515 = (2453951337, 3362305229)"
    by (simp add: FLETCHER_MODULUS_def Let_def)
  have s3: "fletcher_sums (map to_le_bytes (replicate 977 (0 :: u32))) 2453951337 3362305229 = (2453951337, 4281010868)"
    using fletcher_sums_zeros [of 2453951337 3362305229 977 "[]"] by simp
  have d: "drop 2 sample_record = [1, 0, 1, 0, 1073741844, 0, 1380209482, 1, 4, 1] @ replicate 32 0 @ [2, 0, 1] @ replicate 977 0"
    by (simp add: sample_record_def)
  have sums: "fletcher_sums (map to_le_bytes (drop 2 sample_record)) 0 0 = (2453951337, 4281010868)"
    unfolding d map_append fletcher_sums_append s0 s1 s2 s3 prod.case ..
  have len: "2 \<le> length sample_record" and words: "sample_record ! 0 = 1854972385" "sample_record ! 1 = 4281010868"
    by (simp_all add: sample_record_def)
  show ?thesis
    unfolding checksum_le_image [OF len] sums from_le_two_words words
    by (simp add: FLETCHER_MODULUS_def Let_def)
qed


text \<open>The steps of the extraction on it.\<close>

definition sample_limits :: jumpstart_limits where
  "sample_limits = \<lparr> jl_max_driver_bytes = 64, jl_max_extents = 2 \<rparr>"

definition sample_info :: container_info where
  "sample_info = \<lparr> ci_block_count = 256, ci_container_bytes = 0x100000, ci_uuid = replicate 16 0,
     ci_jumpstart_block = 1, ci_jumpstart_offset = 4096 \<rparr>"

definition sample_driver :: jumpstart_driver where
  "sample_driver = \<lparr> jd_bytes = [1, 2, 3, 4], jd_block_size = 4096, jd_container_block_count = 256,
     jd_jumpstart_block = 1, jd_container_uuid = replicate 16 0,
     jd_extents = [\<lparr> je_start_block = 2, je_block_count = 1 \<rparr>] \<rparr>"

lemma sample_lengths [simp]: "length sample_super = 1024" "length sample_record = 1024" "length sample_disk = 0x100000"
  by (simp_all add: sample_super_def sample_record_def sample_disk_def)

lemma sample_reads:
  "disk_reader s 0 40 = (Inr (le_image (take 10 sample_super)), s)"
  "disk_reader s 0 4096 = (Inr (le_image sample_super), s)"
  "disk_reader s 4096 4096 = (Inr (le_image sample_record), s)"
  "disk_reader s 8192 4096 = (Inr (le_image ([0x04030201] @ replicate 1023 0)), s)"
proof -
  have t: "take (4 * k) (drop (4 * i) sample_disk) =
      le_image (take k (drop i (sample_super @ sample_record @ [0x04030201] @ replicate 260095 0)))" for k i
    unfolding sample_disk_def drop_le_image take_le_image ..
  show "disk_reader s 0 40 = (Inr (le_image (take 10 sample_super)), s)"
    using t [of 10 0] by (simp add: disk_reader_def)
  show "disk_reader s 0 4096 = (Inr (le_image sample_super), s)"
    using t [of 1024 0] by (simp add: disk_reader_def)
  show "disk_reader s 4096 4096 = (Inr (le_image sample_record), s)"
    using t [of 1024 1024] by (simp add: disk_reader_def)
  show "disk_reader s 8192 4096 = (Inr (le_image ([0x04030201] @ replicate 1023 0)), s)"
    using t [of 1024 2048] by (simp add: disk_reader_def del: le_image_simps)
qed

lemma sample_super_words:
  "sample_super ! 2 = 1"
  "sample_super ! 3 = 0"
  "sample_super ! 4 = 1"
  "sample_super ! 5 = 0"
  "sample_super ! 6 = 1"
  "sample_super ! 7 = 0"
  "sample_super ! 8 = 1112758350"
  "sample_super ! 9 = 4096"
  "sample_super ! 10 = 256"
  "sample_super ! 11 = 0"
  "sample_super ! 12 = 0"
  "sample_super ! 13 = 0"
  "sample_super ! 16 = 2"
  "sample_super ! 17 = 0"
  "sample_super ! 318 = 1"
  "sample_super ! 319 = 0"
  by (simp_all add: sample_super_def nth_append)

lemma sample_record_words:
  "sample_record ! 2 = 1"
  "sample_record ! 3 = 0"
  "sample_record ! 4 = 1"
  "sample_record ! 5 = 0"
  "sample_record ! 6 = 1073741844"
  "sample_record ! 7 = 0"
  "sample_record ! 8 = 1380209482"
  "sample_record ! 9 = 1"
  "sample_record ! 10 = 4"
  "sample_record ! 11 = 1"
  by (simp_all add: sample_record_def nth_append)

lemma zero_image: "le_image (replicate 4 0) = replicate 16 0" "le_image (replicate 8 0) = replicate 32 0"
  by code_simp+

lemma sample_super_fields:
  "js_le32 (le_image sample_super) 32 = Inr 0x4253584e"
  "js_le32 (le_image sample_super) 24 = Inr 1"
  "js_le32 (le_image sample_super) 28 = Inr 0"
  "js_le64 (le_image sample_super) 8 = Inr 1"
  "js_le64 (le_image sample_super) 16 = Inr 1"
  "js_le64 (le_image sample_super) 40 = Inr 256"
  "js_le64 (le_image sample_super) 64 = Inr 2"
  "js_le64 (le_image sample_super) 48 = Inr 0"
  "js_le64 (le_image sample_super) 1272 = Inr 1"
  using js_le32_image [of 8 sample_super] js_le32_image [of 6 sample_super] js_le32_image [of 7 sample_super] js_le64_image [of 2 sample_super] js_le64_image [of 4 sample_super] js_le64_image [of 10 sample_super] js_le64_image [of 16 sample_super] js_le64_image [of 12 sample_super] js_le64_image [of 318 sample_super]
  by (simp_all add: sample_super_words from_le_two_words del: le_image_simps)

lemma sample_record_fields:
  "js_le32 (le_image sample_record) 32 = Inr 0x5244534a"
  "js_le32 (le_image sample_record) 24 = Inr 0x40000014"
  "js_le32 (le_image sample_record) 28 = Inr 0"
  "js_le64 (le_image sample_record) 8 = Inr 1"
  "js_le64 (le_image sample_record) 16 = Inr 1"
  "js_le32 (le_image sample_record) 36 = Inr 1"
  "js_le32 (le_image sample_record) 40 = Inr 4"
  "js_le32 (le_image sample_record) 44 = Inr 1"
  using js_le32_image [of 8 sample_record] js_le32_image [of 6 sample_record] js_le32_image [of 7 sample_record] js_le64_image [of 2 sample_record] js_le64_image [of 4 sample_record] js_le32_image [of 9 sample_record] js_le32_image [of 10 sample_record] js_le32_image [of 11 sample_record]
  by (simp_all add: sample_record_words from_le_two_words del: le_image_simps)

lemma sample_stored:
  "js_le64 (le_image sample_super) 0 = Inr (from_le_bytes (le_image [sample_super ! 0, sample_super ! 1]))"
  "js_le64 (le_image sample_record) 0 = Inr (from_le_bytes (le_image [sample_record ! 0, sample_record ! 1]))"
  using js_le64_image [of 0 sample_super] js_le64_image [of 0 sample_record] by simp_all

lemma sample_entry_fields: "js_le64 (le_image [2, 0, 1, 0]) 0 = Inr 2" "js_le64 (le_image [2, 0, 1, 0]) 8 = Inr 1"
  using js_le64_image [of 0 "[2, 0, 1, 0]"] js_le64_image [of 2 "[2, 0, 1, 0]"]
  by (simp_all add: from_le_two_words del: le_image_simps)

lemma sample_container:
  "(read_container (le_image sample_super) 4096 0x100000 :: unit jumpstart_error + container_info) = Inr sample_info"
proof -
  let ?b = "le_image sample_super"
  have checked: "(check_object ?b NX_MAGIC 1 False None :: unit jumpstart_error + unit) = Inr ()"
    by (simp add: check_object_def sample_super_checksum sample_super_fields sample_stored NX_MAGIC_def del: le_image_simps)
  have zeros: "take 4 (drop 320 sample_super) = replicate 4 0" "take 8 (drop 338 sample_super) = replicate 8 0"
    "take 4 (drop 18 sample_super) = replicate 4 0"
    by (simp_all add: sample_super_def)
  have ranges: "get_range ?b 1280 1296 = Some (replicate 16 0)" "get_range ?b 1352 1384 = Some (replicate 32 0)"
    "get_range ?b 72 88 = Some (replicate 16 0)"
    using get_range_le_image [of 320 324 sample_super] get_range_le_image [of 338 346 sample_super]
      get_range_le_image [of 18 22 sample_super]
    by (simp_all add: zeros zero_image del: le_image_simps)
  show ?thesis
    unfolding read_container_def checked and_then_simps
    by (simp add: ranges sample_super_fields list_ex_iff checked_mul_def MIN_CONTAINER_BYTES_def NX_FUSION_UUID_def NX_JUMPSTART_def
        positive_paddr_def js_block_range_def checked_add_def sample_info_def)
qed

lemma sample_jumpstart:
  "(read_jumpstart (\<lambda>_. True) sample_limits (le_image sample_record) sample_info 4096 ::
    unit jumpstart_error + nat \<times> jumpstart_extent list) = Inr (4, [\<lparr> je_start_block = 2, je_block_count = 1 \<rparr>])"
proof -
  let ?b = "le_image sample_record"
  have checked: "(check_object ?b JSDR_MAGIC 0x14 True (Some 1) :: unit jumpstart_error + unit) = Inr ()"
    by (simp add: check_object_def sample_record_checksum sample_record_fields sample_stored JSDR_MAGIC_def del: le_image_simps)
  have entry: "get_range ?b 176 192 = Some (le_image [2, 0, 1, 0])"
    using get_range_le_image [of 44 48 sample_record] by (simp add: sample_record_def del: le_image_simps)
  have extent: "(read_extent 256 4096 (0, []) (le_image [2, 0, 1, 0]) :: unit jumpstart_error + _) =
    Inr (4096, [\<lparr> je_start_block = 2, je_block_count = 1 \<rparr>])"
    by (simp add: read_extent_def sample_entry_fields positive_paddr_def js_block_range_def checked_add_def checked_mul_def
        del: le_image_simps)
  show ?thesis
    by (simp add: read_jumpstart_def sample_info_def sample_limits_def checked sample_record_fields entry extent usize_add_def
        usize_mul_def JSDR_EXTENTS_def EXTENT_SIZE_def Let_def del: le_image_simps)
qed

lemma sample_extraction:
  "extract_jumpstart disk_reader (\<lambda>_. True) s 0x100000 sample_limits = (Inr sample_driver, s)"
proof -
  have two: "is_power_of_two 4096" unfolding is_power_of_two_def by (rule bexI [of _ 12]) simp_all
  have bounded: "read_bounded disk_reader s limit offset n = (map_err Js_Io (fst (disk_reader s offset n)), s)"
    if "unat offset + n \<le> unat limit" for s limit offset n
  proof -
    have "unat (of_nat n :: u64) = n" "unat offset + n < 2 ^ 64"
      using that unat_u64_bound [of limit] by (simp_all add: unat_of_nat)
    then have "checked_add offset (of_nat n) = Some (offset + of_nat n)" "unat (offset + of_nat n) = unat offset + n"
      by (simp_all add: checked_add_def unat_add_exact)
    then show ?thesis
      using that by (simp add: read_bounded_def disk_reader_def word_less_nat_alt)
  qed
  have size: "js_le32 (le_image (take 10 sample_super)) 36 = Inr 4096"
    using js_le32_image [of 9 "take 10 sample_super"] by (simp add: sample_super_words del: le_image_simps)
  have front: "get_range (le_image sample_super) 0 40 = Some (le_image (take 10 sample_super))"
    using get_range_le_image [of 0 10 sample_super] by simp
  define block where "block = le_image ([0x04030201] @ replicate 1023 0)"
  have block: "length block = 4096" by (simp add: block_def)
  have "take 4 block = le_image [0x04030201]"
    using take_le_image [of 1 "[0x04030201] @ replicate 1023 0"] by (simp add: block_def)
  also have "\<dots> = [1, 2, 3, 4]"
  proof -
    have "(4 :: nat) = Suc (Suc (Suc (Suc 0)))" by simp
    then have "le_digits 4 67305985 = [1, 2, 3, 4]" by (simp only: le_digits.simps) simp
    then show ?thesis by (simp add: to_le_bytes_def)
  qed
  finally have bytes: "take 4 block = [1, 2, 3, 4]" .
  have read: "disk_reader s 8192 4096 = (Inr block, s)" for s
    using sample_reads(4) by (simp only: block_def)
  have bound: "read_bounded disk_reader s 0x100000 8192 4096 = (Inr block, s)" for s
    by (simp add: read bounded)
  have range: "(js_block_range 2 1 256 4096 :: unit jumpstart_error + u64) = Inr 8192"
    by (simp add: js_block_range_def checked_add_def checked_mul_def)
  have copied: "copy_from_slice (replicate 4 0) (0, 4) (take 4 block) = Some [1, 2, 3, 4]"
    unfolding bytes by (simp add: copy_from_slice_def put_bytes_def)
  have "read_blocks disk_reader sample_info 4096 4 2 [0] (replicate 4 0, 0) s = (Inr ([1, 2, 3, 4], 4), s)" for s
    unfolding read_blocks.simps prod.case
    by (simp only: sample_info_def container_info.select_convs) (simp add: bound range copied block checked_add_def)
  then have data: "read_extents disk_reader sample_info 4096 4 [\<lparr> je_start_block = 2, je_block_count = 1 \<rparr>]
      (replicate 4 0, 0) s = (Inr ([1, 2, 3, 4], 4), s)" for s
    by (simp add: div_ceil_def)
  have selected: "ci_block_count sample_info = 256" "ci_container_bytes sample_info = 0x100000"
    "ci_uuid sample_info = replicate 16 0" "ci_jumpstart_block sample_info = 1" "ci_jumpstart_offset sample_info = 4096"
    "jl_max_driver_bytes sample_limits \<noteq> 0" "jl_max_extents sample_limits \<noteq> 0"
    by (simp_all add: sample_info_def sample_limits_def)
  show ?thesis
    by (simp add: extract_jumpstart_def bounded sample_reads size front two zeroed_bytes_def MIN_BLOCK_SIZE_def
        MAX_BLOCK_SIZE_def sample_container sample_jumpstart data sample_driver_def selected del: le_image_simps read_extents.simps)
qed

section \<open>The theorems at this partition\<close>

lemma fletcher_detects_witness:
  "fletcher_sums (object_words (replicate 12 0) @ checksum_words 0xffffffffffffffff) 0 0 = (0, 0)"
  using fletcher_detects [OF sample_checksum] by (rule conjunct1)

text \<open>A source that is cut off at the end of the partition, and one that is not.\<close>

definition endless_reader :: "(unit, unit) read_at" where
  "endless_reader s offset n = (Inr (take n (drop (unat offset) (sample_disk @ replicate (unat offset + n) 7))), s)"

lemma sample_agree: "agree_below 0x100000 disk_reader endless_reader"
  by (auto simp: agree_below_def disk_reader_def endless_reader_def)

lemma extract_reads_partition_only_witness:
  "extract_jumpstart endless_reader (\<lambda>_. True) () 0x100000 sample_limits = (Inr sample_driver, ())"
  using extract_reads_partition_only [OF sample_agree] sample_extraction by simp

lemma sample_serves: "serves sample_disk disk_reader"
  by (simp add: serves_def disk_reader_def)

lemma extract_jumpstart_driver_witness:
  "superblock_of sample_disk sample_driver \<and> jumpstart_record_of sample_disk sample_driver \<and>
   jd_bytes sample_driver = take 4 (extent_data sample_disk 4096 \<lparr> je_start_block = 2, je_block_count = 1 \<rparr>)"
proof -
  have ok: "fst (extract_jumpstart disk_reader (\<lambda>_. True) () 0x100000 sample_limits) = Inr sample_driver"
    by (simp add: sample_extraction)
  have parts: "length (jd_bytes sample_driver) = 4" "unat (jd_block_size sample_driver) = 4096"
    "jd_extents sample_driver = [\<lparr> je_start_block = 2, je_block_count = 1 \<rparr>]"
    by (simp_all add: sample_driver_def)
  have "length sample_disk = unat (0x100000 :: u64)" by simp
  from extract_jumpstart_driver [OF sample_serves this ok] show ?thesis by (simp add: parts)
qed

definition exact_reader :: "(unit, unit) read_at" where
  "exact_reader s offset n = (Inr (replicate n 0), s)"

lemma extract_never_panics_witness:
  "fst (extract_jumpstart exact_reader (\<lambda>_. True) () 0x100000 sample_limits) \<noteq> Inl Js_Panic"
  by (rule extract_never_panics) (simp add: fills_def exact_reader_def)

end
