(* ===== verification/Macho_Image.thy ===== *)
theory Macho_Image
  imports Slices
begin

text \<open>
  Model of \<^verbatim>\<open>src/macho_image.rs\<close>: the plan of a small static x86_64 Mach-O executable. The counters
  and variables of the loop over the load commands are a record that is passed on; what they hold
  after an error is not observable. \<^verbatim>\<open>sort_unstable_by_key\<close> is \<open>sort_key\<close>: where two keys are equal
  the test of neighbours that follows fails with the same error in every order.
\<close>

section \<open>Data\<close>

definition MI_MAX_FILE_SIZE :: nat where "MI_MAX_FILE_SIZE = 64 * 1024 * 1024"
definition MI_MAX_IMAGE_SIZE :: u64 where "MI_MAX_IMAGE_SIZE = 256 * 1024 * 1024"
definition MI_MAX_COMMANDS :: nat where "MI_MAX_COMMANDS = 1024"
definition MI_MAX_SEGMENTS :: nat where "MI_MAX_SEGMENTS = 64"
definition MI_MAX_SECTIONS :: nat where "MI_MAX_SECTIONS = 1024"
definition MI_PAGE_SIZE :: u64 where "MI_PAGE_SIZE = 4096"
definition VM_PROT_READ :: u32 where "VM_PROT_READ = 1"
definition VM_PROT_WRITE :: u32 where "VM_PROT_WRITE = 2"
definition VM_PROT_EXECUTE :: u32 where "VM_PROT_EXECUTE = 4"

datatype entry_kind = EK_Main | EK_UnixThread64

record segment_plan =
  sp_name :: byte_string
  sp_vmaddr :: u64
  sp_memory_offset :: u64
  sp_memory_size :: u64
  sp_file_offset :: nat
  sp_file_size :: nat
  sp_init_prot :: u32
  sp_max_prot :: u32

record macho_image_plan =
  ip_preferred_base :: u64
  ip_image_size :: u64
  ip_header_vaddr :: u64
  ip_entry_vaddr :: u64
  ip_entry_kind :: entry_kind
  ip_entry_offset :: u64
  ip_segments :: "segment_plan list"

datatype macho_image_error =
    MI_InputTooLarge
  | MI_Truncated
  | MI_UnsupportedFormat
  | MI_UnsupportedCpu
  | MI_UnsupportedFileType
  | MI_UnsupportedFlags
  | MI_UnsupportedCommand
  | MI_UnsupportedThreadState
  | MI_UnsupportedStack
  | MI_UnsupportedRelocations
  | MI_UnsupportedSection
  | MI_LimitExceeded
  | MI_InvalidHeader
  | MI_InvalidCommand
  | MI_InvalidSegment
  | MI_InvalidSection
  | MI_InvalidMetadata
  | MI_Overflow
  | MI_SegmentOverlap
  | MI_SectionOverlap
  | MI_MissingSegments
  | MI_MissingEntry
  | MI_DuplicateEntry
  | MI_EntryOutsideExecutable

datatype image_entry = FileOffset u64 | VirtualAddress u64

section \<open>Bounded reading\<close>

definition mi_end :: "u64 \<Rightarrow> u64 \<Rightarrow> macho_image_error + u64" where
  "mi_end start n = ok_or (checked_add start n) MI_Overflow"

definition mi_slice :: "byte_string \<Rightarrow> nat \<Rightarrow> nat \<Rightarrow> macho_image_error + byte_string" where
  "mi_slice bytes offset n =
     and_then (ok_or (usize_add offset n) MI_Overflow) (\<lambda>stop.
     ok_or (get_range bytes offset stop) MI_Truncated)"

definition mi_read32 :: "byte_string \<Rightarrow> nat \<Rightarrow> macho_image_error + u32" where
  "mi_read32 bytes offset = and_then (mi_slice bytes offset 4) (\<lambda>b. Inr (from_le_bytes b))"

definition mi_read64 :: "byte_string \<Rightarrow> nat \<Rightarrow> macho_image_error + u64" where
  "mi_read64 bytes offset = and_then (mi_slice bytes offset 8) (\<lambda>b. Inr (from_le_bytes b))"

definition mi_file_range :: "byte_string \<Rightarrow> u64 \<Rightarrow> u64 \<Rightarrow> macho_image_error + unit" where
  "mi_file_range bytes start n =
     and_then (mi_end start n) (\<lambda>stop. if length bytes < unat stop then Inl MI_Truncated else Inr ())"

definition mi_overlap :: "u64 \<Rightarrow> u64 \<Rightarrow> u64 \<Rightarrow> u64 \<Rightarrow> bool" where
  "mi_overlap start n other_start other_size \<longleftrightarrow>
     n \<noteq> 0 \<and> other_size \<noteq> 0 \<and> start < other_start + other_size \<and> other_start < start + n"

definition mi_exact :: "byte_string \<Rightarrow> nat \<Rightarrow> macho_image_error + unit" where
  "mi_exact cmd expected = (if length cmd \<noteq> expected then Inl MI_InvalidCommand else Inr ())"

definition mi_set_entry :: "image_entry option \<Rightarrow> image_entry \<Rightarrow> macho_image_error + image_entry option" where
  "mi_set_entry entry value = (if entry \<noteq> None then Inl MI_DuplicateEntry else Inr (Some value))"

section \<open>Segments\<close>

text \<open>One round of the loop over the section headers: the ranges of the sections that are not empty.\<close>

definition mi_section ::
  "byte_string \<Rightarrow> byte_string \<Rightarrow> u64 \<Rightarrow> u64 \<Rightarrow> u64 \<Rightarrow> u64 \<Rightarrow> (u64 \<times> u64) list \<Rightarrow> byte_string \<Rightarrow>
   macho_image_error + (u64 \<times> u64) list" where
  "mi_section bytes cmd vmaddr memory_end file_offset file_memory_end ranges s =
     (if take 16 (drop 16 s) \<noteq> take 16 (drop 8 cmd) then Inl MI_InvalidSection
      else
      and_then (mi_read64 s 32) (\<lambda>addr.
      and_then (mi_read64 s 40) (\<lambda>n.
      and_then (mi_end addr n) (\<lambda>stop.
      and_then (mi_read32 s 52) (\<lambda>align.
      and_then (mi_read32 s 64) (\<lambda>flags.
      if addr < vmaddr \<or> memory_end < stop \<or> 64 \<le> align \<or> addr AND (push_bit (unat align) 1 - 1) \<noteq> 0
      then Inl MI_InvalidSection
      else
      and_then (mi_read32 s 60) (\<lambda>relocations.
      if relocations \<noteq> 0 \<or> flags AND 0x300 \<noteq> 0 then Inl MI_UnsupportedRelocations
      else
      and_then
        (if flags AND 0xff \<in> {1, 0xc} then
           (if addr < file_memory_end then Inl MI_InvalidSection else Inr ())
         else if flags AND 0xff \<in> {0, 2, 3, 4, 0xe} then
           and_then (mi_read32 s 48) (\<lambda>section_offset32.
           let section_offset = ucast section_offset32 :: u64 in
           if file_memory_end < stop then Inl MI_InvalidSection
           else
           and_then (mi_end file_offset (addr - vmaddr)) (\<lambda>expected.
           if section_offset \<noteq> expected then Inl MI_InvalidSection
           else mi_file_range bytes section_offset n))
         else Inl MI_UnsupportedSection) (\<lambda>_.
      Inr (if n \<noteq> 0 then ranges @ [(addr, stop)] else ranges)))))))))"

definition mi_section_pair :: "u64 \<times> u64 \<Rightarrow> u64 \<times> u64 \<Rightarrow> macho_image_error + unit" where
  "mi_section_pair a b = (if fst b < snd a then Inl MI_SectionOverlap else Inr ())"

definition mi_parse_segment ::
  "byte_string \<Rightarrow> byte_string \<Rightarrow> nat \<Rightarrow> macho_image_error + segment_plan \<times> nat" where
  "mi_parse_segment bytes cmd total_sections =
     and_then (mi_slice cmd 0 72) (\<lambda>_.
     and_then (mi_read32 cmd 64) (\<lambda>count32.
     let sections = unat count32 in
     and_then (ok_or (usize_add total_sections sections) MI_Overflow) (\<lambda>total_sections.
     if MI_MAX_SECTIONS < total_sections then Inl MI_LimitExceeded
     else
     and_then (mi_exact cmd (72 + sections * 80)) (\<lambda>_.
     and_then (mi_read64 cmd 24) (\<lambda>vmaddr.
     and_then (mi_read64 cmd 32) (\<lambda>memory_size.
     and_then (mi_read64 cmd 40) (\<lambda>file_offset.
     and_then (mi_read64 cmd 48) (\<lambda>file_size.
     and_then (mi_read32 cmd 56) (\<lambda>max_prot.
     and_then (mi_read32 cmd 60) (\<lambda>init_prot.
     if memory_size = 0 \<or> memory_size < file_size \<or> max_prot AND NOT 7 \<noteq> 0 \<or>
        init_prot AND NOT max_prot \<noteq> 0
     then Inl MI_InvalidSegment
     else
     and_then (mi_read32 cmd 68) (\<lambda>flags.
     if flags AND NOT 4 \<noteq> 0 then Inl MI_UnsupportedFlags
     else
     and_then (mi_end vmaddr memory_size) (\<lambda>memory_end.
     and_then (mi_file_range bytes file_offset file_size) (\<lambda>_.
     and_then (mi_end vmaddr file_size) (\<lambda>file_memory_end.
     and_then (try_fold (mi_section bytes cmd vmaddr memory_end file_offset file_memory_end) []
        (chunks_exact 80 (drop 72 cmd) (length (drop 72 cmd)))) (\<lambda>ranges.
     and_then (for_windows mi_section_pair (sort_key fst ranges)) (\<lambda>_.
     Inr (\<lparr> sp_name = take 16 (drop 8 cmd), sp_vmaddr = vmaddr, sp_memory_offset = 0,
             sp_memory_size = memory_size, sp_file_offset = unat file_offset, sp_file_size = unat file_size,
             sp_init_prot = init_prot, sp_max_prot = max_prot \<rparr>, total_sections)))))))))))))))))"

section \<open>Metadata commands\<close>

definition validate_metadata :: "byte_string \<Rightarrow> byte_string \<Rightarrow> u32 \<Rightarrow> macho_image_error + unit" where
  "validate_metadata bytes cmd kind =
     (if kind = 0x2 then
        and_then (mi_exact cmd 24) (\<lambda>_.
        and_then (mi_read32 cmd 8) (\<lambda>symbols.
        and_then (mi_read32 cmd 12) (\<lambda>symbol_count.
        and_then (mi_file_range bytes (ucast symbols) (ucast symbol_count * 16)) (\<lambda>_.
        and_then (mi_read32 cmd 16) (\<lambda>strings.
        and_then (mi_read32 cmd 20) (\<lambda>string_bytes.
        mi_file_range bytes (ucast strings) (ucast string_bytes)))))))
      else if kind = 0x1b then mi_exact cmd 24
      else if kind \<in> {0x24, 0x2a} then mi_exact cmd 16
      else if kind = 0x32 then
        and_then (mi_slice cmd 0 24) (\<lambda>_.
        and_then (mi_read32 cmd 20) (\<lambda>tools.
        if 24 + unat tools * 8 \<noteq> length cmd then Inl MI_InvalidCommand else Inr ()))
      else if kind \<in> {0x1d, 0x26, 0x29} then
        and_then (mi_exact cmd 16) (\<lambda>_.
        and_then (mi_read32 cmd 12) (\<lambda>n.
        if kind = 0x29 \<and> n mod 8 \<noteq> 0 then Inl MI_InvalidMetadata
        else
        and_then (mi_read32 cmd 8) (\<lambda>start. mi_file_range bytes (ucast start) (ucast n))))
      else Inl MI_UnsupportedCommand)"

section \<open>Load commands\<close>

record mi_state =
  ms_segments :: "segment_plan list"
  ms_guard :: "u64 option"
  ms_segment_count :: nat
  ms_section_count :: nat
  ms_entry :: "image_entry option"

definition PAGEZERO :: byte_string where
  "PAGEZERO = [0x5f, 0x5f, 0x50, 0x41, 0x47, 0x45, 0x5a, 0x45, 0x52, 0x4f, 0, 0, 0, 0, 0, 0]"

definition mi_segment_command :: "byte_string \<Rightarrow> byte_string \<Rightarrow> mi_state \<Rightarrow> macho_image_error + mi_state" where
  "mi_segment_command bytes cmd st =
     (let segment_count = ms_segment_count st + 1 in
      if MI_MAX_SEGMENTS < segment_count then Inl MI_LimitExceeded
      else
      and_then (mi_parse_segment bytes cmd (ms_section_count st)) (\<lambda>(segm, section_count).
      let st = st\<lparr> ms_segment_count := segment_count, ms_section_count := section_count \<rparr> in
      if take 16 (drop 8 cmd) = PAGEZERO then
        and_then
          (if ms_guard st \<noteq> None \<or> sp_vmaddr segm \<noteq> 0 \<or> sp_file_offset segm \<noteq> 0 \<or>
              sp_file_size segm \<noteq> 0 \<or> sp_init_prot segm \<noteq> 0 \<or> sp_max_prot segm \<noteq> 0
           then Inr True
           else and_then (mi_read32 cmd 64) (\<lambda>sections. Inr (sections \<noteq> 0))) (\<lambda>invalid.
        if invalid then Inl MI_InvalidSegment
        else Inr (st\<lparr> ms_guard := Some (sp_memory_size segm) \<rparr>))
      else Inr (st\<lparr> ms_segments := ms_segments st @ [segm] \<rparr>)))"

definition mi_command :: "byte_string \<Rightarrow> byte_string \<Rightarrow> u32 \<Rightarrow> mi_state \<Rightarrow> macho_image_error + mi_state" where
  "mi_command bytes cmd kind st =
     (if kind = 0x19 then mi_segment_command bytes cmd st
      else if kind = 0x80000028 then
        and_then (mi_exact cmd 24) (\<lambda>_.
        and_then (mi_read64 cmd 16) (\<lambda>stack.
        if stack \<noteq> 0 then Inl MI_UnsupportedStack
        else
        and_then (mi_read64 cmd 8) (\<lambda>entry_offset.
        and_then (mi_set_entry (ms_entry st) (FileOffset entry_offset)) (\<lambda>entry.
        Inr (st\<lparr> ms_entry := entry \<rparr>)))))
      else if kind = 0x5 then
        and_then (mi_read32 cmd 8) (\<lambda>flavor.
        and_then (if flavor \<noteq> 4 then Inr True
                  else and_then (mi_read32 cmd 12) (\<lambda>words. Inr (words \<noteq> 42))) (\<lambda>invalid.
        if invalid then Inl MI_UnsupportedThreadState
        else
        and_then (mi_exact cmd 184) (\<lambda>_.
        and_then (mi_read64 cmd 144) (\<lambda>rip.
        and_then (mi_set_entry (ms_entry st) (VirtualAddress rip)) (\<lambda>entry.
        Inr (st\<lparr> ms_entry := entry \<rparr>))))))
      else and_then (validate_metadata bytes cmd kind) (\<lambda>_. Inr st))"

fun mi_commands ::
  "nat \<Rightarrow> byte_string \<Rightarrow> byte_string \<Rightarrow> nat \<Rightarrow> mi_state \<Rightarrow> macho_image_error + nat \<times> mi_state" where
  "mi_commands 0 bytes cmds offset st = Inr (offset, st)"
| "mi_commands (Suc k) bytes cmds offset st =
     and_then (mi_read32 cmds offset) (\<lambda>kind.
     and_then (mi_read32 cmds (offset + 4)) (\<lambda>size32.
     let n = unat size32 in
     if n < 8 \<or> n mod 8 \<noteq> 0 then Inl MI_InvalidCommand
     else
     and_then (mi_slice cmds offset n) (\<lambda>cmd.
     and_then (mi_command bytes cmd kind st) (\<lambda>st.
     and_then (ok_or (usize_add offset n) MI_Overflow) (\<lambda>offset.
     mi_commands k bytes cmds offset st)))))"

section \<open>The plan\<close>

text \<open>The loop that keeps the segments apart in memory: the end of the last one.\<close>

definition mi_follow :: "u64 \<Rightarrow> segment_plan \<Rightarrow> macho_image_error + u64" where
  "mi_follow previous_end segm =
     (if sp_vmaddr segm < previous_end then Inl MI_SegmentOverlap
      else mi_end (sp_vmaddr segm) (sp_memory_size segm))"

text \<open>The two loops that keep them apart in the file.\<close>

definition mi_file_overlap :: "segment_plan \<Rightarrow> segment_plan \<Rightarrow> bool" where
  "mi_file_overlap segm other = mi_overlap (of_nat (sp_file_offset segm)) (of_nat (sp_file_size segm))
     (of_nat (sp_file_offset other)) (of_nat (sp_file_size other))"

definition mi_check_file :: "segment_plan list \<Rightarrow> macho_image_error + unit" where
  "mi_check_file segments =
     for_each (\<lambda>(index, segm).
       for_each (\<lambda>other. if mi_file_overlap segm other then Inl MI_SegmentOverlap else Inr ())
         (take index segments)) (enumerate 0 segments)"

text \<open>The loop that places the segments and looks for the entry point.\<close>

definition mi_place ::
  "u64 \<Rightarrow> image_entry \<Rightarrow> u64 option \<times> segment_plan list \<Rightarrow> segment_plan \<Rightarrow>
   macho_image_error + u64 option \<times> segment_plan list" where
  "mi_place base entry st segm =
     (case st of (entry_vaddr, placed) \<Rightarrow>
      let segm = segm\<lparr> sp_memory_offset := sp_vmaddr segm - base \<rparr> in
      if sp_init_prot segm AND VM_PROT_EXECUTE = 0 then Inr (entry_vaddr, placed @ [segm])
      else
      let relative = (case entry of
            FileOffset value \<Rightarrow> checked_sub value (of_nat (sp_file_offset segm))
          | VirtualAddress value \<Rightarrow> checked_sub value (sp_vmaddr segm))
      in
      case relative of
        None \<Rightarrow> Inr (entry_vaddr, placed @ [segm])
      | Some value \<Rightarrow>
          if value < of_nat (sp_file_size segm) then
            and_then (mi_end (sp_vmaddr segm) value) (\<lambda>v. Inr (Some v, placed @ [segm]))
          else Inr (entry_vaddr, placed @ [segm]))"

definition plan_image :: "nat \<Rightarrow> mi_state \<Rightarrow> macho_image_error + macho_image_plan" where
  "plan_image command_size st =
     (let segments = sort_key sp_vmaddr (ms_segments st) in
      and_then (try_fold mi_follow (case ms_guard st of None \<Rightarrow> 0 | Some g \<Rightarrow> g) segments) (\<lambda>previous_end.
      and_then (mi_check_file segments) (\<lambda>_.
      and_then (ok_or (map_option sp_vmaddr
         (find (\<lambda>s. sp_file_offset s = 0 \<and> 32 + command_size \<le> sp_file_size s) segments)) MI_InvalidHeader)
        (\<lambda>header_vaddr.
      let preferred_base = sp_vmaddr (hd segments) AND NOT (MI_PAGE_SIZE - 1) in
      and_then (mi_end previous_end (MI_PAGE_SIZE - 1)) (\<lambda>rounded.
      let image_end = rounded AND NOT (MI_PAGE_SIZE - 1) in
      and_then (ok_or (checked_sub image_end preferred_base) MI_Overflow) (\<lambda>image_size.
      if MI_MAX_IMAGE_SIZE < image_size then Inl MI_LimitExceeded
      else
      and_then (ok_or (ms_entry st) MI_MissingEntry) (\<lambda>entry.
      let entry_kind = (case entry of FileOffset _ \<Rightarrow> EK_Main | VirtualAddress _ \<Rightarrow> EK_UnixThread64) in
      and_then (try_fold (mi_place preferred_base entry) (None, []) segments) (\<lambda>(entry_vaddr, segments).
      and_then (ok_or entry_vaddr MI_EntryOutsideExecutable) (\<lambda>entry_vaddr.
      Inr \<lparr> ip_preferred_base = preferred_base, ip_image_size = image_size,
             ip_header_vaddr = header_vaddr, ip_entry_vaddr = entry_vaddr, ip_entry_kind = entry_kind,
             ip_entry_offset = entry_vaddr - preferred_base, ip_segments = segments \<rparr>)))))))))"

definition parse_macho_image :: "byte_string \<Rightarrow> macho_image_error + macho_image_plan" where
  "parse_macho_image bytes =
     (if MI_MAX_FILE_SIZE < length bytes then Inl MI_InputTooLarge
      else
      and_then (mi_read32 bytes 0) (\<lambda>magic.
      if magic \<noteq> 0xfeedfacf then Inl MI_UnsupportedFormat
      else
      and_then (mi_slice bytes 0 32) (\<lambda>_.
      and_then (mi_read32 bytes 4) (\<lambda>cpu.
      and_then (if cpu \<noteq> 0x01000007 then Inr True
                else and_then (mi_read32 bytes 8) (\<lambda>subtype. Inr (subtype \<noteq> 3))) (\<lambda>invalid.
      if invalid then Inl MI_UnsupportedCpu
      else
      and_then (mi_read32 bytes 12) (\<lambda>file_type.
      if file_type \<noteq> 2 then Inl MI_UnsupportedFileType
      else
      and_then (mi_read32 bytes 24) (\<lambda>flags.
      if flags AND NOT (0x1 OR 0x2000) \<noteq> 0 then Inl MI_UnsupportedFlags
      else
      and_then (mi_read32 bytes 28) (\<lambda>reserved.
      if reserved \<noteq> 0 then Inl MI_InvalidHeader
      else
      and_then (mi_read32 bytes 16) (\<lambda>count32.
      and_then (mi_read32 bytes 20) (\<lambda>command_size32.
      let commands = unat count32; command_size = unat command_size32 in
      if MI_MAX_COMMANDS < commands then Inl MI_LimitExceeded
      else if command_size mod 8 \<noteq> 0 \<or> command_size div 8 < commands then Inl MI_InvalidHeader
      else
      and_then (mi_slice bytes 32 command_size) (\<lambda>cmds.
      and_then (mi_commands commands bytes cmds 0
         \<lparr> ms_segments = [], ms_guard = None, ms_segment_count = 0, ms_section_count = 0,
           ms_entry = None \<rparr>) (\<lambda>(offset, st).
      if offset \<noteq> length cmds then Inl MI_InvalidCommand
      else if ms_segments st = [] then Inl MI_MissingSegments
      else plan_image command_size st))))))))))))"

end
