(* ===== verification/Macho_Image_Proofs.thy ===== *)
theory Macho_Image_Proofs
  imports Macho_Image
begin

text \<open>
  The plans of \<^verbatim>\<open>src/macho_image.rs\<close>: every plan is well formed, its entry point is the one the load
  command names, and copying its file ranges into zeroed memory shows the file at the linked
  addresses.
\<close>

section \<open>Segments\<close>

lemma mi_end_Inr [result_iff]: "mi_end a b = Inr c \<longleftrightarrow> unat a + unat b = unat c"
  by (auto simp: mi_end_def result_iff checked_add_Some)

lemma mi_file_range_Inr [result_iff]:
  "mi_file_range bytes start n = Inr () \<longleftrightarrow> unat start + unat n < 2 ^ 64 \<and> unat start + unat n \<le> length bytes"
proof -
  have "mi_file_range bytes start n = Inr () \<longleftrightarrow>
    (\<exists>stop :: u64. unat start + unat n = unat stop \<and> unat stop \<le> length bytes)"
    by (auto simp: mi_file_range_def result_iff not_less)
  moreover have "\<exists>stop :: u64. unat start + unat n = unat stop" if "unat start + unat n < 2 ^ 64"
  proof -
    have "unat (of_nat (unat start + unat n) :: u64) = unat start + unat n"
      using that by (simp only: unat_of_nat) simp
    then show ?thesis by metis
  qed
  ultimately show ?thesis using unat_u64_bound by metis
qed

text \<open>What the parser checks of a segment.\<close>

definition segment_ok :: "byte_string \<Rightarrow> segment_plan \<Rightarrow> bool" where
  "segment_ok bytes s \<longleftrightarrow>
     0 < unat (sp_memory_size s) \<and> sp_file_size s \<le> unat (sp_memory_size s) \<and>
     unat (sp_vmaddr s) + unat (sp_memory_size s) < 2 ^ 64 \<and>
     sp_file_offset s + sp_file_size s < 2 ^ 64 \<and> sp_file_offset s + sp_file_size s \<le> length bytes \<and>
     sp_max_prot s AND NOT 7 = 0 \<and> sp_init_prot s AND NOT (sp_max_prot s) = 0"

lemma mi_parse_segment_ok:
  assumes "mi_parse_segment bytes cmd sections = Inr (s, sections')"
  shows "segment_ok bytes s" and "sections' \<le> MI_MAX_SECTIONS"
proof -
  obtain memory_end :: u64 where m: "unat (sp_vmaddr s) + unat (sp_memory_size s) = unat memory_end"
    and "mi_file_range bytes (of_nat (sp_file_offset s)) (of_nat (sp_file_size s)) = Inr ()"
      "unat (of_nat (sp_file_offset s) :: u64) = sp_file_offset s" "unat (of_nat (sp_file_size s) :: u64) = sp_file_size s"
    and s: "0 < unat (sp_memory_size s)" "sp_file_size s \<le> unat (sp_memory_size s)"
      "sp_max_prot s AND NOT 7 = 0" "sp_init_prot s AND NOT (sp_max_prot s) = 0" "sections' \<le> MI_MAX_SECTIONS"
    using assms
    by (auto simp: mi_parse_segment_def result_iff Let_def not_less word_le_nat_alt unat_gt_0 split: if_splits)
  then show "segment_ok bytes s" using unat_u64_bound [of memory_end] by (simp add: segment_ok_def result_iff)
  show "sections' \<le> MI_MAX_SECTIONS" by (rule s)
qed

section \<open>Load commands\<close>

definition state_ok :: "byte_string \<Rightarrow> mi_state \<Rightarrow> bool" where
  "state_ok bytes st \<longleftrightarrow>
     (\<forall>s \<in> set (ms_segments st). segment_ok bytes s) \<and> length (ms_segments st) \<le> ms_segment_count st \<and>
     ms_segment_count st \<le> MI_MAX_SEGMENTS"

lemma mi_command_ok:
  assumes "mi_command bytes cmd kind st = Inr st'" and "state_ok bytes st"
  shows "state_ok bytes st'"
  using assms
  by (auto simp: mi_command_def mi_segment_command_def result_iff Let_def state_ok_def mi_parse_segment_ok(1)
      split: if_splits)

lemma mi_commands_ok:
  assumes "mi_commands k bytes cmds offset st = Inr (offset', st')" and "state_ok bytes st"
  shows "state_ok bytes st'"
  using assms
proof (induction k arbitrary: offset st)
  case (Suc k)
  then show ?case by (auto simp: result_iff Let_def split: if_splits dest!: mi_command_ok)
qed simp

section \<open>The plan\<close>

definition linked_before :: "segment_plan \<Rightarrow> segment_plan \<Rightarrow> bool" where
  "linked_before a b \<longleftrightarrow> unat (sp_vmaddr a) + unat (sp_memory_size a) \<le> unat (sp_vmaddr b)"

definition files_apart :: "segment_plan \<Rightarrow> segment_plan \<Rightarrow> bool" where
  "files_apart a b \<longleftrightarrow>
     sp_file_size a = 0 \<or> sp_file_size b = 0 \<or> sp_file_offset a + sp_file_size a \<le> sp_file_offset b \<or>
     sp_file_offset b + sp_file_size b \<le> sp_file_offset a"

lemma files_apart_sym: "files_apart a b \<longleftrightarrow> files_apart b a"
  by (auto simp: files_apart_def)

lemma mi_follow_Inr:
  "mi_follow p s = Inr e \<longleftrightarrow>
   unat p \<le> unat (sp_vmaddr s) \<and> unat (sp_vmaddr s) + unat (sp_memory_size s) = unat e"
  by (simp add: mi_follow_def result_iff not_less word_le_nat_alt)

lemma mi_follow_all:
  assumes "try_fold mi_follow p segments = Inr q"
  shows "unat p \<le> unat q \<and> sorted_wrt linked_before segments \<and>
    (\<forall>s \<in> set segments. unat p \<le> unat (sp_vmaddr s) \<and> unat (sp_vmaddr s) + unat (sp_memory_size s) \<le> unat q)"
  using assms
proof (induction segments arbitrary: p)
  case (Cons s segments)
  then obtain e where e: "unat p \<le> unat (sp_vmaddr s)" "unat (sp_vmaddr s) + unat (sp_memory_size s) = unat e"
    and rest: "try_fold mi_follow e segments = Inr q"
    unfolding try_fold.simps and_then_Inr mi_follow_Inr by blast
  from Cons.IH [OF rest] e show ?case by (auto simp: linked_before_def)
qed simp

lemma segment_file_nat:
  assumes "segment_ok bytes s"
  shows "unat (of_nat (sp_file_offset s) :: u64) = sp_file_offset s"
    and "unat (of_nat (sp_file_size s) :: u64) = sp_file_size s"
    and "unat (of_nat (sp_file_offset s) + of_nat (sp_file_size s) :: u64) = sp_file_offset s + sp_file_size s"
    and "(of_nat (sp_file_size s) :: u64) = 0 \<longleftrightarrow> sp_file_size s = 0"
proof -
  have bound: "sp_file_offset s + sp_file_size s < 2 ^ 64" using assms by (simp only: segment_ok_def)
  then have "sp_file_offset s < 2 ^ 64" "sp_file_size s < 2 ^ 64" by linarith+
  then show off: "unat (of_nat (sp_file_offset s) :: u64) = sp_file_offset s"
    and size: "unat (of_nat (sp_file_size s) :: u64) = sp_file_size s"
    by (simp_all add: unat_of_nat)
  show "unat (of_nat (sp_file_offset s) + of_nat (sp_file_size s) :: u64) = sp_file_offset s + sp_file_size s"
    using bound off size unat_add_exact [of "of_nat (sp_file_offset s) :: u64" "of_nat (sp_file_size s)"] by simp
  show "(of_nat (sp_file_size s) :: u64) = 0 \<longleftrightarrow> sp_file_size s = 0"
    unfolding word_unat_eq_iff size by simp
qed

lemma mi_file_overlap_apart:
  assumes "segment_ok bytes a" and "segment_ok bytes b"
  shows "mi_file_overlap a b \<longleftrightarrow> \<not> files_apart a b"
  unfolding mi_file_overlap_def mi_overlap_def files_apart_def word_less_nat_alt
    segment_file_nat [OF assms(1)] segment_file_nat [OF assms(2)]
  by linarith

lemma mi_check_file_apart:
  assumes "mi_check_file segments = Inr u" and "\<forall>s \<in> set segments. segment_ok bytes s"
  shows "pairwise_list files_apart segments"
proof -
  have before: "files_apart (segments ! j) (segments ! i)" if "i < j" "j < length segments" for i j
  proof -
    have "(j, segments ! j) \<in> set (enumerate 0 segments)"
      using that by (auto simp: in_set_enumerate_eq)
    then have "\<forall>other \<in> set (take j segments). \<not> mi_file_overlap (segments ! j) other"
      using assms(1) by (fastforce simp: mi_check_file_def for_each_Inr split: if_splits)
    moreover have "segments ! i \<in> set (take j segments)" using that by (auto simp: in_set_conv_nth)
    ultimately show ?thesis using that assms(2) mi_file_overlap_apart by (metis less_trans nth_mem)
  qed
  show ?thesis
    unfolding pairwise_list_def using before files_apart_sym by (metis linorder_neqE_nat)
qed

text \<open>What a load command says about the address of its entry point.\<close>

definition entry_at :: "image_entry \<Rightarrow> segment_plan \<Rightarrow> u64 \<Rightarrow> bool" where
  "entry_at entry s v \<longleftrightarrow>
     sp_init_prot s AND VM_PROT_EXECUTE \<noteq> 0 \<and> unat (sp_vmaddr s) \<le> unat v \<and>
     unat v < unat (sp_vmaddr s) + sp_file_size s \<and>
     (case entry of
        FileOffset e \<Rightarrow> unat e = sp_file_offset s + (unat v - unat (sp_vmaddr s))
      | VirtualAddress e \<Rightarrow> e = v)"

lemma mi_place_step:
  assumes "mi_place base entry (v, placed) s = Inr (v', placed')" and "segment_ok bytes s"
  shows "placed' = placed @ [s\<lparr> sp_memory_offset := sp_vmaddr s - base \<rparr>] \<and>
    (v' = v \<or> (\<exists>w. v' = Some w \<and> entry_at entry s w))"
proof -
  note n = segment_file_nat(1,2) [OF assms(2)]
  have hit: "entry_at entry s w"
    if "(case entry of FileOffset value \<Rightarrow> checked_sub value (of_nat (sp_file_offset s))
        | VirtualAddress value \<Rightarrow> checked_sub value (sp_vmaddr s)) = Some relative"
      "relative < of_nat (sp_file_size s)" "unat (sp_vmaddr s) + unat relative = unat w"
      "sp_init_prot s AND VM_PROT_EXECUTE \<noteq> 0" for relative w
  proof -
    have "unat relative < sp_file_size s" using that(2) n by (simp add: word_less_nat_alt)
    then show ?thesis
      using that(1,3,4) n by (auto simp: entry_at_def checked_sub_Some word_unat_eq_iff split: image_entry.splits)
  qed
  show ?thesis
    using assms(1) hit
    by (cases entry) (auto simp: mi_place_def result_iff Let_def split: if_splits option.splits)
qed

lemma mi_place_all:
  assumes "try_fold (mi_place base entry) (v, placed) segments = Inr (v', placed')"
    and "\<forall>s \<in> set segments. segment_ok bytes s"
  shows "placed' = placed @ map (\<lambda>s. s\<lparr> sp_memory_offset := sp_vmaddr s - base \<rparr>) segments \<and>
    (v' = v \<or> (\<exists>w. v' = Some w \<and> (\<exists>s \<in> set segments. entry_at entry s w)))"
  using assms
proof (induction segments arbitrary: v placed)
  case (Cons s segments)
  then obtain v1 placed1 where s: "mi_place base entry (v, placed) s = Inr (v1, placed1)"
    and rest: "try_fold (mi_place base entry) (v1, placed1) segments = Inr (v', placed')"
    by (auto simp: result_iff)
  from mi_place_step [OF s, of bytes] Cons.IH [OF rest] Cons.prems(2) show ?case by auto
qed simp

text \<open>A segment of a plan.\<close>

definition placed_ok :: "byte_string \<Rightarrow> macho_image_plan \<Rightarrow> segment_plan \<Rightarrow> bool" where
  "placed_ok bytes plan s \<longleftrightarrow>
     segment_ok bytes s \<and> unat (sp_memory_offset s) + unat (ip_preferred_base plan) = unat (sp_vmaddr s) \<and>
     unat (sp_memory_offset s) + unat (sp_memory_size s) \<le> unat (ip_image_size plan)"

lemma plan_image_Inr:
  assumes "plan_image command_size st = Inr plan"
  obtains previous_end header rounded entry segments where
    "try_fold mi_follow (case ms_guard st of None \<Rightarrow> 0 | Some g \<Rightarrow> g) (sort_key sp_vmaddr (ms_segments st)) =
      Inr previous_end"
    and "mi_check_file (sort_key sp_vmaddr (ms_segments st)) = Inr ()"
    and "find (\<lambda>s. sp_file_offset s = 0 \<and> 32 + command_size \<le> sp_file_size s)
      (sort_key sp_vmaddr (ms_segments st)) = Some header"
    and "ip_header_vaddr plan = sp_vmaddr header"
    and "ip_preferred_base plan = align_down (sp_vmaddr (hd (sort_key sp_vmaddr (ms_segments st)))) 4096"
    and "unat previous_end + 4095 = unat rounded"
    and "unat (align_down rounded 4096) = unat (ip_preferred_base plan) + unat (ip_image_size plan)"
    and "ip_image_size plan \<le> MI_MAX_IMAGE_SIZE"
    and "ms_entry st = Some entry"
    and "ip_entry_kind plan = (case entry of FileOffset _ \<Rightarrow> EK_Main | VirtualAddress _ \<Rightarrow> EK_UnixThread64)"
    and "try_fold (mi_place (ip_preferred_base plan) entry) (None, []) (sort_key sp_vmaddr (ms_segments st)) =
      Inr (Some (ip_entry_vaddr plan), ip_segments plan)"
    and "ip_entry_offset plan = ip_entry_vaddr plan - ip_preferred_base plan"
proof -
  have page: "x AND NOT (MI_PAGE_SIZE - 1) = align_down x 4096" for x
    by (simp add: align_down_def MI_PAGE_SIZE_def)
  have rest: "unat (MI_PAGE_SIZE - 1) = 4095" by (simp add: MI_PAGE_SIZE_def)
  show thesis
    using assms that
    by (auto simp: plan_image_def Let_def page and_then_Inr ok_or_Inr if_Inl_Inr mi_end_Inr rest checked_sub_Some not_less
        split_paired_Ex)
qed

definition placed :: "u64 \<Rightarrow> segment_plan \<Rightarrow> segment_plan" where
  "placed base s = s\<lparr> sp_memory_offset := sp_vmaddr s - base \<rparr>"

lemma placed_simps [simp]:
  "sp_vmaddr (placed base s) = sp_vmaddr s" "sp_memory_size (placed base s) = sp_memory_size s"
  "sp_file_offset (placed base s) = sp_file_offset s" "sp_file_size (placed base s) = sp_file_size s"
  "sp_init_prot (placed base s) = sp_init_prot s" "sp_max_prot (placed base s) = sp_max_prot s"
  "sp_memory_offset (placed base s) = sp_vmaddr s - base"
  "segment_ok bytes (placed base s) = segment_ok bytes s"
  "linked_before (placed base s) (placed base t) = linked_before s t"
  "files_apart (placed base s) (placed base t) = files_apart s t"
  "entry_at entry (placed base s) v = entry_at entry s v"
  by (simp_all add: placed_def segment_ok_def linked_before_def files_apart_def entry_at_def split: image_entry.splits)

lemma plan_image_ok:
  assumes "plan_image command_size st = Inr plan" and "state_ok bytes st"
  shows "\<forall>s \<in> set (ip_segments plan). placed_ok bytes plan s"
    and "sorted_wrt linked_before (ip_segments plan)" and "pairwise_list files_apart (ip_segments plan)"
    and "length (ip_segments plan) \<le> MI_MAX_SEGMENTS"
    and "unat (ip_preferred_base plan) mod 4096 = 0" and "unat (ip_image_size plan) mod 4096 = 0"
    and "unat (ip_image_size plan) \<le> 256 * 1024 * 1024"
    and "\<exists>s \<in> set (ip_segments plan). sp_vmaddr s = ip_header_vaddr plan \<and> sp_file_offset s = 0 \<and>
      32 + command_size \<le> sp_file_size s"
    and "\<exists>entry. ms_entry st = Some entry \<and>
      ip_entry_kind plan = (case entry of FileOffset _ \<Rightarrow> EK_Main | VirtualAddress _ \<Rightarrow> EK_UnixThread64) \<and>
      (\<exists>s \<in> set (ip_segments plan). entry_at entry s (ip_entry_vaddr plan))"
    and "ip_entry_offset plan = ip_entry_vaddr plan - ip_preferred_base plan"
proof -
  let ?segments = "sort_key sp_vmaddr (ms_segments st)" and ?base = "ip_preferred_base plan"
  have ok: "\<forall>s \<in> set ?segments. segment_ok bytes s" and few: "length ?segments \<le> MI_MAX_SEGMENTS"
    using assms(2) by (auto simp: state_ok_def)
  obtain previous_end header rounded entry where
    follow: "try_fold mi_follow (case ms_guard st of None \<Rightarrow> 0 | Some g \<Rightarrow> g) ?segments = Inr previous_end"
    and files: "mi_check_file ?segments = Inr ()"
    and header: "find (\<lambda>s. sp_file_offset s = 0 \<and> 32 + command_size \<le> sp_file_size s) ?segments = Some header"
      "ip_header_vaddr plan = sp_vmaddr header"
    and base: "?base = align_down (sp_vmaddr (hd ?segments)) 4096"
    and rounded: "unat previous_end + 4095 = unat rounded"
      "unat (align_down rounded 4096) = unat ?base + unat (ip_image_size plan)"
    and limit: "ip_image_size plan \<le> MI_MAX_IMAGE_SIZE"
    and entry: "ms_entry st = Some entry"
      "ip_entry_kind plan = (case entry of FileOffset _ \<Rightarrow> EK_Main | VirtualAddress _ \<Rightarrow> EK_UnixThread64)"
    and place: "try_fold (mi_place ?base entry) (None, []) ?segments = Inr (Some (ip_entry_vaddr plan), ip_segments plan)"
    and offset: "ip_entry_offset plan = ip_entry_vaddr plan - ip_preferred_base plan"
    by (rule plan_image_Inr [OF assms(1)])
  have page: "is_power_of_two 4096" unfolding is_power_of_two_def by (rule bexI [of _ 12]) simp_all
  note down = align_down_props [OF page, simplified]
  note F = mi_follow_all [OF follow]
  have P: "ip_segments plan = map (placed ?base) ?segments"
    "\<exists>s \<in> set ?segments. entry_at entry s (ip_entry_vaddr plan)"
    using mi_place_all [OF place ok] by (auto simp: placed_def)
  have nonempty: "?segments \<noteq> []" using header(1) by auto
  have above: "unat ?base \<le> unat (sp_vmaddr s)" if "s \<in> set ?segments" for s
  proof -
    have "unat (sp_vmaddr (hd ?segments)) \<le> unat (sp_vmaddr s)"
    proof (cases "s = hd ?segments")
      case False
      then have "s \<in> set (tl ?segments)" using that nonempty by (metis list.collapse set_ConsD)
      then have "linked_before (hd ?segments) s"
        using F nonempty by (metis list.collapse sorted_wrt.simps(2))
      then show ?thesis by (simp add: linked_before_def)
    qed simp
    then show ?thesis using down(1) [of "sp_vmaddr (hd ?segments)"] base by simp
  qed
  have below: "unat (sp_vmaddr s) + unat (sp_memory_size s) \<le> unat ?base + unat (ip_image_size plan)"
    if "s \<in> set ?segments" for s
    using F that rounded down(2) [of rounded] by fastforce
  show "\<forall>s \<in> set (ip_segments plan). placed_ok bytes plan s"
    using ok above below by (fastforce simp: P(1) placed_ok_def unat_sub_exact word_le_nat_alt)
  show "sorted_wrt linked_before (ip_segments plan)" using F by (simp add: P(1) sorted_wrt_map)
  show "pairwise_list files_apart (ip_segments plan)"
    using mi_check_file_apart [OF files ok] by (simp add: P(1) pairwise_list_def)
  show "length (ip_segments plan) \<le> MI_MAX_SEGMENTS" using few by (simp add: P(1))
  show "unat ?base mod 4096 = 0" using down(3) base by simp
  then show "unat (ip_image_size plan) mod 4096 = 0"
    using down(3) [of rounded] unfolding rounded(2) by (metis add.right_neutral mod_add_left_eq add.commute)
  show "unat (ip_image_size plan) \<le> 256 * 1024 * 1024"
    using limit by (simp add: MI_MAX_IMAGE_SIZE_def word_le_nat_alt)
  show "\<exists>s \<in> set (ip_segments plan). sp_vmaddr s = ip_header_vaddr plan \<and> sp_file_offset s = 0 \<and>
      32 + command_size \<le> sp_file_size s"
  proof -
    have "header \<in> set ?segments" "sp_file_offset header = 0" "32 + command_size \<le> sp_file_size header"
      using header(1) by (auto simp: find_Some_iff simp del: set_sort)
    then show ?thesis using header(2) by (auto simp: P(1))
  qed
  show "\<exists>entry. ms_entry st = Some entry \<and>
      ip_entry_kind plan = (case entry of FileOffset _ \<Rightarrow> EK_Main | VirtualAddress _ \<Rightarrow> EK_UnixThread64) \<and>
      (\<exists>s \<in> set (ip_segments plan). entry_at entry s (ip_entry_vaddr plan))"
    using entry P by auto
  show "ip_entry_offset plan = ip_entry_vaddr plan - ip_preferred_base plan" by (rule offset)
qed

lemma parse_macho_image_Inr:
  assumes "parse_macho_image bytes = Inr plan"
  obtains st where "state_ok bytes st"
    and "plan_image (unat (from_le_bytes (take 4 (drop 20 bytes)) :: u32)) st = Inr plan"
proof -
  obtain cmds k offset st where
    commands: "mi_commands k bytes cmds 0 \<lparr> ms_segments = [], ms_guard = None, ms_segment_count = 0,
      ms_section_count = 0, ms_entry = None \<rparr> = Inr (offset, st)"
    and p: "plan_image (unat (from_le_bytes (take 4 (drop 20 bytes)) :: u32)) st = Inr plan"
    using assms
    by (auto simp: parse_macho_image_def result_iff Let_def mi_read32_def [of bytes 20] mi_slice_def usize_add_def
        split: if_splits)
  have "state_ok bytes st"
    by (rule mi_commands_ok [OF commands]) (simp add: state_ok_def)
  then show thesis using that p by blast
qed

text \<open>
  C24. Every plan is well formed: its segments lie in the input file and in the image, in the order
  of their addresses, disjoint in memory and in the file, with an initial protection within the
  maximal one; base and size are page aligned and the size is bounded; the header with all load
  commands is in a segment, and the entry point in the file-backed part of an executable one.
\<close>

theorem macho_plan_wellformed:
  assumes "parse_macho_image bytes = Inr plan"
  shows "(\<forall>s \<in> set (ip_segments plan). placed_ok bytes plan s) \<and>
    sorted_wrt linked_before (ip_segments plan) \<and> pairwise_list files_apart (ip_segments plan) \<and>
    length (ip_segments plan) \<le> MI_MAX_SEGMENTS \<and>
    unat (ip_preferred_base plan) mod 4096 = 0 \<and> unat (ip_image_size plan) mod 4096 = 0 \<and>
    unat (ip_image_size plan) \<le> 256 * 1024 * 1024 \<and>
    (\<exists>s \<in> set (ip_segments plan). sp_vmaddr s = ip_header_vaddr plan \<and> sp_file_offset s = 0 \<and>
       32 + unat (from_le_bytes (take 4 (drop 20 bytes)) :: u32) \<le> sp_file_size s) \<and>
    (\<exists>s \<in> set (ip_segments plan). sp_init_prot s AND VM_PROT_EXECUTE \<noteq> 0 \<and>
       unat (sp_vmaddr s) \<le> unat (ip_entry_vaddr plan) \<and>
       unat (ip_entry_vaddr plan) < unat (sp_vmaddr s) + sp_file_size s)"
proof -
  obtain st where ok: "state_ok bytes st"
    and p: "plan_image (unat (from_le_bytes (take 4 (drop 20 bytes)) :: u32)) st = Inr plan"
    by (rule parse_macho_image_Inr [OF assms])
  note P = plan_image_ok [OF p ok]
  have "\<exists>s \<in> set (ip_segments plan). sp_init_prot s AND VM_PROT_EXECUTE \<noteq> 0 \<and>
       unat (sp_vmaddr s) \<le> unat (ip_entry_vaddr plan) \<and>
       unat (ip_entry_vaddr plan) < unat (sp_vmaddr s) + sp_file_size s"
    using P(9) by (auto simp: entry_at_def)
  then show ?thesis using P(1-8) by (intro conjI)
qed


text \<open>
  The entry point of a plan is the one the load command names: with \<^verbatim>\<open>LC_MAIN\<close> the file offset
  that is shown there, with \<^verbatim>\<open>LC_UNIXTHREAD\<close> the address itself, in the file-backed part of an
  executable segment; the offset given is relative to the preferred base.
\<close>

theorem macho_plan_entry:
  assumes "plan_image command_size st = Inr plan" and "state_ok bytes st"
  shows "(case ms_entry st of
      None \<Rightarrow> False
    | Some (FileOffset e) \<Rightarrow> ip_entry_kind plan = EK_Main \<and>
        (\<exists>s \<in> set (ip_segments plan). sp_init_prot s AND VM_PROT_EXECUTE \<noteq> 0 \<and>
           sp_file_offset s \<le> unat e \<and> unat e < sp_file_offset s + sp_file_size s \<and>
           unat (ip_entry_vaddr plan) = unat (sp_vmaddr s) + (unat e - sp_file_offset s))
    | Some (VirtualAddress e) \<Rightarrow> ip_entry_kind plan = EK_UnixThread64 \<and> ip_entry_vaddr plan = e) \<and>
    unat (ip_entry_offset plan) + unat (ip_preferred_base plan) = unat (ip_entry_vaddr plan)"
proof -
  note P = plan_image_ok [OF assms]
  obtain entry s where entry: "ms_entry st = Some entry"
    "ip_entry_kind plan = (case entry of FileOffset _ \<Rightarrow> EK_Main | VirtualAddress _ \<Rightarrow> EK_UnixThread64)"
    and s: "s \<in> set (ip_segments plan)" "entry_at entry s (ip_entry_vaddr plan)"
    using P(9) by blast
  have "unat (ip_preferred_base plan) \<le> unat (sp_vmaddr s)" using P(1) s(1) by (fastforce simp: placed_ok_def)
  then have "ip_preferred_base plan \<le> ip_entry_vaddr plan" using s(2) by (simp add: entry_at_def word_le_nat_alt)
  then have "unat (ip_entry_offset plan) + unat (ip_preferred_base plan) = unat (ip_entry_vaddr plan)"
    by (simp add: P(10) unat_sub_exact word_le_nat_alt)
  then show ?thesis
    using entry s by (cases entry) (fastforce simp: entry_at_def)+
qed

section \<open>Loading\<close>

text \<open>
  What the module asks of its caller: copy each file range to its place in a zeroed allocation of
  the size of the image.
\<close>

definition load_plan :: "byte_string \<Rightarrow> macho_image_plan \<Rightarrow> byte_string" where
  "load_plan bytes plan = put_chunks
     (map (\<lambda>s. (unat (sp_memory_offset s), take (sp_file_size s) (drop (sp_file_offset s) bytes))) (ip_segments plan))
     (replicate (unat (ip_image_size plan)) 0)"

lemma put_chunks_nth:
  assumes "chunks_fit (length buf) cs" and "sorted_wrt chunk_apart cs" and "(off, src) \<in> set cs" and "i < length src"
  shows "put_chunks cs buf ! (off + i) = src ! i"
proof -
  have "off + length src \<le> length buf" using assms(1,3) by (auto simp: chunks_fit_def)
  then have "put_chunks cs buf ! (off + i) = take (length src) (drop off (put_chunks cs buf)) ! i"
    using assms(4) length_put_chunks [OF assms(1)] by simp
  then show ?thesis by (simp only: put_chunks_read [OF assms(1-3)])
qed

lemma load_chunks:
  assumes "\<forall>s \<in> set segments. placed_ok bytes plan s" and "sorted_wrt linked_before segments"
  defines "chunks \<equiv> map (\<lambda>s. (unat (sp_memory_offset s), take (sp_file_size s) (drop (sp_file_offset s) bytes))) segments"
  shows "chunks_fit (unat (ip_image_size plan)) chunks" and "sorted_wrt chunk_apart chunks"
proof -
  have fits: "sp_file_size s \<le> unat (sp_memory_size s)"
    "unat (sp_memory_offset s) + unat (sp_memory_size s) \<le> unat (ip_image_size plan)"
    "length (take (sp_file_size s) (drop (sp_file_offset s) bytes)) = sp_file_size s"
    "unat (sp_memory_offset s) + unat (ip_preferred_base plan) = unat (sp_vmaddr s)"
    if "s \<in> set segments" for s
    using assms(1) that by (auto simp: placed_ok_def segment_ok_def)
  then show "chunks_fit (unat (ip_image_size plan)) chunks"
    by (fastforce simp: chunks_fit_def chunks_def)
  have "sorted_wrt (\<lambda>a b. chunk_apart (unat (sp_memory_offset a), take (sp_file_size a) (drop (sp_file_offset a) bytes))
      (unat (sp_memory_offset b), take (sp_file_size b) (drop (sp_file_offset b) bytes))) segments"
    using assms(2)
  proof (rule sorted_wrt_mono_rel [rotated])
    fix a b assume "a \<in> set segments" "b \<in> set segments" "linked_before a b"
    then show "chunk_apart (unat (sp_memory_offset a), take (sp_file_size a) (drop (sp_file_offset a) bytes))
      (unat (sp_memory_offset b), take (sp_file_size b) (drop (sp_file_offset b) bytes))"
      using fits [of a] fits [of b] unfolding chunk_apart_def linked_before_def fst_conv snd_conv by linarith
  qed
  then show "sorted_wrt chunk_apart chunks" by (simp add: chunks_def sorted_wrt_map)
qed

text \<open>
  C25. Loading a plan at its base shows the file: at the memory offset of a segment, which in a plan
  of the parser is its linked address less the base, stand its bytes of the file
  up to the file size and zeros from there to the memory size, and every byte outside the segments
  is zero.
\<close>

theorem macho_plan_loads:
  assumes "parse_macho_image bytes = Inr plan"
  shows "length (load_plan bytes plan) = unat (ip_image_size plan) \<and>
    (\<forall>s \<in> set (ip_segments plan). \<forall>i < unat (sp_memory_size s).
       load_plan bytes plan ! (unat (sp_memory_offset s) + i) =
         (if i < sp_file_size s then bytes ! (sp_file_offset s + i) else 0)) \<and>
    (\<forall>i < unat (ip_image_size plan).
       (\<forall>s \<in> set (ip_segments plan). i < unat (sp_memory_offset s) \<or>
          unat (sp_memory_offset s) + unat (sp_memory_size s) \<le> i) \<longrightarrow>
       load_plan bytes plan ! i = 0)"
proof -
  obtain st where ok: "state_ok bytes st"
    and p: "plan_image (unat (from_le_bytes (take 4 (drop 20 bytes)) :: u32)) st = Inr plan"
    by (rule parse_macho_image_Inr [OF assms])
  note P = plan_image_ok [OF p ok]
  let ?chunk = "\<lambda>s. (unat (sp_memory_offset s), take (sp_file_size s) (drop (sp_file_offset s) bytes))"
  let ?zero = "replicate (unat (ip_image_size plan)) (0 :: u8)"
  note C = load_chunks [OF P(1,2)]
  have fits: "chunks_fit (length ?zero) (map ?chunk (ip_segments plan))" using C(1) by simp
  have seg: "sp_file_size s \<le> unat (sp_memory_size s)" "sp_file_offset s + sp_file_size s \<le> length bytes"
    "unat (sp_memory_offset s) + unat (sp_memory_size s) \<le> unat (ip_image_size plan)"
    "unat (sp_memory_offset s) + unat (ip_preferred_base plan) = unat (sp_vmaddr s)"
    if "s \<in> set (ip_segments plan)" for s
    using P(1) that by (auto simp: placed_ok_def segment_ok_def)
  have outside: "load_plan bytes plan ! i = 0"
    if "i < unat (ip_image_size plan)"
      and "\<forall>s \<in> set (ip_segments plan). i < unat (sp_memory_offset s) \<or> unat (sp_memory_offset s) + sp_file_size s \<le> i" for i
  proof -
    have "load_plan bytes plan ! i = ?zero ! i"
      unfolding load_plan_def using fits
    proof (rule put_chunks_nth_elsewhere)
      show "\<forall>c \<in> set (map ?chunk (ip_segments plan)). i < fst c \<or> fst c + length (snd c) \<le> i"
      proof
        fix c assume "c \<in> set (map ?chunk (ip_segments plan))"
        then obtain s where "s \<in> set (ip_segments plan)" "c = ?chunk s" by auto
        then show "i < fst c \<or> fst c + length (snd c) \<le> i" using that(2) by auto
      qed
    qed (use that(1) in simp)
    then show ?thesis using that(1) by simp
  qed
  have inside: "load_plan bytes plan ! (unat (sp_memory_offset s) + i) = bytes ! (sp_file_offset s + i)"
    if "s \<in> set (ip_segments plan)" "i < sp_file_size s" for s i
    unfolding load_plan_def
    using put_chunks_nth [OF fits C(2), of "unat (sp_memory_offset s)" "snd (?chunk s)" i] that seg(2) [OF that(1)]
    by auto
  have apart: "i < unat (sp_memory_offset t) \<or> unat (sp_memory_offset t) + unat (sp_memory_size t) \<le> i"
    if "s \<in> set (ip_segments plan)" "t \<in> set (ip_segments plan)" "s \<noteq> t"
      "unat (sp_memory_offset s) \<le> i" "i < unat (sp_memory_offset s) + unat (sp_memory_size s)" for s t i
  proof -
    note members = that(1,2)
    obtain m n where mn: "m < length (ip_segments plan)" "ip_segments plan ! m = s"
      "n < length (ip_segments plan)" "ip_segments plan ! n = t"
      using members by (metis in_set_conv_nth)
    then have "linked_before s t \<or> linked_before t s"
      using that(3) P(2) by (metis linorder_neqE_nat sorted_wrt_iff_nth_less)
    then show ?thesis
      using seg(4) [OF that(1)] seg(4) [OF that(2)] that(4,5) unfolding linked_before_def by linarith
  qed
  have tail: "load_plan bytes plan ! (unat (sp_memory_offset s) + i) = 0"
    if "s \<in> set (ip_segments plan)" "sp_file_size s \<le> i" "i < unat (sp_memory_size s)" for s i
  proof (rule outside)
    show "unat (sp_memory_offset s) + i < unat (ip_image_size plan)" using that seg(3) by fastforce
    show "\<forall>t \<in> set (ip_segments plan). unat (sp_memory_offset s) + i < unat (sp_memory_offset t) \<or>
        unat (sp_memory_offset t) + sp_file_size t \<le> unat (sp_memory_offset s) + i"
    proof
      fix t assume t: "t \<in> set (ip_segments plan)"
      show "unat (sp_memory_offset s) + i < unat (sp_memory_offset t) \<or>
        unat (sp_memory_offset t) + sp_file_size t \<le> unat (sp_memory_offset s) + i"
        using apart [OF that(1) t, of "unat (sp_memory_offset s) + i"] that(2,3) seg(1) [OF t]
        by (cases "s = t") auto
    qed
  qed
  have "length (load_plan bytes plan) = unat (ip_image_size plan)"
    using length_put_chunks [OF fits] by (simp add: load_plan_def)
  moreover have "\<forall>s \<in> set (ip_segments plan). \<forall>i < unat (sp_memory_size s).
       load_plan bytes plan ! (unat (sp_memory_offset s) + i) =
         (if i < sp_file_size s then bytes ! (sp_file_offset s + i) else 0)"
    using inside tail by auto
  moreover have "\<forall>i < unat (ip_image_size plan).
       (\<forall>s \<in> set (ip_segments plan). i < unat (sp_memory_offset s) \<or>
          unat (sp_memory_offset s) + unat (sp_memory_size s) \<le> i) \<longrightarrow> load_plan bytes plan ! i = 0"
    using outside seg(1) by (meson add_left_mono order_trans)
  ultimately show ?thesis by blast
qed

end
