(* ===== verification/Macho_Sample.thy ===== *)
theory Macho_Sample
  imports Macho_Image_Proofs Le_Image
begin

text \<open>A small executable, as the witness of the theorems on image plans.\<close>

definition sample_header :: "u32 list" where
  "sample_header = [4277009103, 16777223, 3, 2, 2, 256, 1, 0]"

definition sample_segment :: "u32 list" where
  "sample_segment = [25, 72, 1163157343, 21592, 0, 0, 1048576, 0, 8192, 0, 0, 0, 288, 0, 5, 5, 0, 0]"

definition sample_thread :: "u32 list" where
  "sample_thread = [5, 184, 4, 42, 0, 0, 0, 0, 0, 0, 0, 0, 0, 0, 0, 0, 0, 0, 0, 0, 0, 0, 0, 0, 0, 0, 0, 0, 0, 0, 0, 0, 0, 0, 0, 0, 1048832, 0, 0, 0, 0, 0, 0, 0, 0, 0]"

definition sample_macho :: byte_string where
  "sample_macho = le_image (sample_header @ sample_segment @ sample_thread)"

definition sample_plan :: macho_image_plan where
  "sample_plan = \<lparr> ip_preferred_base = 0x100000, ip_image_size = 0x2000, ip_header_vaddr = 0x100000,
     ip_entry_vaddr = 0x100100, ip_entry_kind = EK_UnixThread64, ip_entry_offset = 0x100,
     ip_segments = [\<lparr> sp_name = le_image [0x45545f5f, 0x5458, 0, 0], sp_vmaddr = 0x100000, sp_memory_offset = 0,
       sp_memory_size = 0x2000, sp_file_offset = 0, sp_file_size = 288, sp_init_prot = 5, sp_max_prot = 5 \<rparr>] \<rparr>"

lemma mi_read_image:
  "k mod 4 = 0 \<Longrightarrow> k div 4 < length ws \<Longrightarrow> k < 2 ^ 63 \<Longrightarrow> mi_read32 (le_image ws) k = Inr (ws ! (k div 4))"
  "k mod 4 = 0 \<Longrightarrow> Suc (k div 4) < length ws \<Longrightarrow> k < 2 ^ 63 \<Longrightarrow>
    mi_read64 (le_image ws) k = Inr (from_le_bytes (le_image [ws ! (k div 4), ws ! Suc (k div 4)]))"
  "k mod 4 = 0 \<Longrightarrow> n mod 4 = 0 \<Longrightarrow> k + n \<le> 4 * length ws \<Longrightarrow> k + n < 2 ^ 63 \<Longrightarrow>
    mi_slice (le_image ws) k n = Inr (le_image (take (n div 4) (drop (k div 4) ws)))"
  using le_word_at [of k ws] le_words_at [of k ws] le_slice_at [of k n ws]
  by (simp_all add: mi_read32_def mi_read64_def mi_slice_def usize_add_def get_range_def del: le_image_simps)

lemma sample_segment_command:
  "mi_parse_segment sample_macho (le_image sample_segment) 0 =
    Inr (hd (ip_segments sample_plan), 0)"
  by (simp add: mi_parse_segment_def mi_read_image sample_segment_def mi_exact_def sample_macho_def sample_header_def
      sample_thread_def sample_plan_def mi_file_range_def mi_end_def checked_add_def from_le_two_words
      usize_add_def MI_MAX_SECTIONS_def Let_def le_slice_at del: le_image_simps)

lemma sample_command_words:
  "take 18 (sample_segment @ sample_thread) = sample_segment"
  "take 46 (drop 18 (sample_segment @ sample_thread)) = sample_thread"
  "length sample_header = 8" "length sample_segment = 18" "length sample_thread = 46"
  by (simp_all add: sample_header_def sample_segment_def sample_thread_def)

lemma sample_thread_command:
  "mi_command sample_macho (le_image sample_thread) 5 st =
     and_then (mi_set_entry (ms_entry st) (VirtualAddress 0x100100)) (\<lambda>entry. Inr (st\<lparr> ms_entry := entry \<rparr>))"
  by (simp add: mi_command_def mi_read_image sample_thread_def mi_exact_def from_le_two_words del: le_image_simps)

definition sample_state :: mi_state where
  "sample_state = \<lparr> ms_segments = ip_segments sample_plan, ms_guard = None, ms_segment_count = 1,
     ms_section_count = 0, ms_entry = Some (VirtualAddress 0x100100) \<rparr>"

lemma sample_commands:
  "mi_commands 2 sample_macho (le_image (sample_segment @ sample_thread)) 0
     \<lparr> ms_segments = [], ms_guard = None, ms_segment_count = 0, ms_section_count = 0, ms_entry = None \<rparr> =
   Inr (256, sample_state)"
proof -
  let ?cmds = "le_image (sample_segment @ sample_thread)"
  have fields: "mi_read32 ?cmds 0 = Inr 0x19" "mi_read32 ?cmds 4 = Inr 72" "mi_read32 ?cmds 72 = Inr 5"
    "mi_read32 ?cmds 76 = Inr 184"
    by (simp_all add: mi_read_image sample_segment_def sample_thread_def del: le_image_simps)
  have slices: "mi_slice ?cmds 0 72 = Inr (le_image sample_segment)" "mi_slice ?cmds 72 184 = Inr (le_image sample_thread)"
    by (simp_all add: mi_read_image sample_command_words del: le_image_simps)
  have name: "take 16 (drop 8 (le_image sample_segment)) \<noteq> PAGEZERO"
  proof
    assume eq: "take 16 (drop 8 (le_image sample_segment)) = PAGEZERO"
    have "take 16 (drop 8 (le_image sample_segment)) = le_image [0x45545f5f, 0x5458, 0, 0]"
      by (simp add: le_slice_at sample_segment_def del: le_image_simps)
    then have "from_le_bytes (take 4 (take 16 (drop 8 (le_image sample_segment)))) = (0x45545f5f :: u32)" by simp
    moreover have "from_le_bytes (take 4 PAGEZERO) = (0x41505f5f :: u32)"
      by (simp add: PAGEZERO_def from_le_bytes_def)
    ultimately show False unfolding eq by simp
  qed
  have "mi_segment_command sample_macho (le_image sample_segment)
      \<lparr> ms_segments = [], ms_guard = None, ms_segment_count = 0, ms_section_count = 0, ms_entry = None \<rparr> =
    Inr \<lparr> ms_segments = ip_segments sample_plan, ms_guard = None, ms_segment_count = 1, ms_section_count = 0,
      ms_entry = None \<rparr>"
    by (simp add: mi_segment_command_def sample_segment_command name MI_MAX_SEGMENTS_def sample_plan_def Let_def)
  moreover have first: "mi_command bytes cmd 0x19 st = mi_segment_command bytes cmd st" for bytes cmd st
    by (simp add: mi_command_def)
  moreover have "(2 :: nat) = Suc (Suc 0)" by simp
  ultimately show ?thesis
    by (simp only: mi_commands.simps) (simp add: fields slices first sample_thread_command
        mi_set_entry_def usize_add_def sample_state_def Let_def del: le_image_simps)
qed

lemma sample_macho_planned: "plan_image 256 sample_state = Inr sample_plan"
  by (simp add: plan_image_def sample_state_def sample_plan_def mi_follow_def mi_end_def checked_add_def checked_sub_def
      mi_check_file_def mi_place_def VM_PROT_EXECUTE_def MI_PAGE_SIZE_def MI_MAX_IMAGE_SIZE_def Let_def)

lemma sample_macho_parsed: "parse_macho_image sample_macho = Inr sample_plan"
proof -
  have len: "length sample_macho = 288" by (simp add: sample_macho_def sample_command_words)
  have header: "mi_read32 sample_macho 0 = Inr 0xfeedfacf" "mi_read32 sample_macho 4 = Inr 0x01000007"
    "mi_read32 sample_macho 8 = Inr 3" "mi_read32 sample_macho 12 = Inr 2" "mi_read32 sample_macho 16 = Inr 2"
    "mi_read32 sample_macho 20 = Inr 256" "mi_read32 sample_macho 24 = Inr 1" "mi_read32 sample_macho 28 = Inr 0"
    by (simp_all add: sample_macho_def mi_read_image sample_header_def sample_command_words del: le_image_simps)
  have slices: "mi_slice sample_macho 0 32 = Inr (le_image sample_header)"
    "mi_slice sample_macho 32 256 = Inr (le_image (sample_segment @ sample_thread))"
    by (simp_all add: sample_macho_def mi_read_image sample_command_words del: le_image_simps)
  show ?thesis
    using sample_commands sample_macho_planned
    by (simp add: parse_macho_image_def len header slices MI_MAX_FILE_SIZE_def MI_MAX_COMMANDS_def sample_command_words
        sample_state_def sample_plan_def Let_def del: mi_commands.simps le_image_simps)
qed

lemma macho_plan_wellformed_witness: "sorted_wrt linked_before (ip_segments sample_plan)"
  using macho_plan_wellformed [OF sample_macho_parsed] by blast

lemma macho_plan_loads_witness: "length (load_plan sample_macho sample_plan) = 0x2000"
  using macho_plan_loads [OF sample_macho_parsed] by (simp add: sample_plan_def)

lemma macho_plan_entry_witness: "ip_entry_vaddr sample_plan = 0x100100"
proof -
  have "state_ok sample_macho sample_state"
    by (simp add: state_ok_def sample_state_def sample_plan_def segment_ok_def sample_macho_def sample_command_words
        MI_MAX_SEGMENTS_def)
  from macho_plan_entry [OF sample_macho_planned this] show ?thesis by (simp add: sample_state_def)
qed

end
