(* ===== verification/Xnu_Boot_Args.thy ===== *)
theory Xnu_Boot_Args
  imports Arm64_Boot_Args
begin

text \<open>
  Model of \<^verbatim>\<open>src/xnu_boot_args.rs\<close>: the 4096-byte i386 boot argument block, revision 0 and the
  revision 1 extension for a kernel collection. A \<^verbatim>\<open>&str\<close> is its bytes. The writes into the block
  are a list of positions and bytes, in the order of the code.
\<close>

definition BOOT_ARGS_SIZE :: nat where "BOOT_ARGS_SIZE = 4096"
definition MAX_COMMAND_LINE :: nat where "MAX_COMMAND_LINE = 1023"
definition XB_PAGE_SIZE :: u64 where "XB_PAGE_SIZE = 4096"
definition LOW_ADDRESS_LIMIT :: u64 where "LOW_ADDRESS_LIMIT = push_bit 32 1"

record xnu_boot_args_input =
  xb_memory_map_phys :: u64
  xb_memory_map_size :: u64
  xb_memory_map_descriptor_size :: u32
  xb_memory_map_descriptor_version :: u32
  xb_device_tree_phys :: u64
  xb_device_tree_size :: u64
  xb_kernel_phys :: u64
  xb_kernel_size :: u64
  xb_physical_memory_size :: u64
  xb_efi_system_table_phys :: u64
  xb_command_line :: byte_string

record xnu_fileset_boot_args_input =
  xf_common :: xnu_boot_args_input
  xf_collection_header_phys :: u64
  xf_collection_header_size :: u64
  xf_kernel_slide :: u32

datatype boot_args_error =
    XB_InvalidCommandLine
  | XB_InvalidMemoryMap
  | XB_InvalidDeviceTree
  | XB_InvalidKernelRange
  | XB_InvalidPhysicalMemory
  | XB_InvalidEfiSystemTable
  | XB_HandoffOutsideKernel
  | XB_OverlappingHandoff
  | XB_InvalidCollectionHeader

text \<open>\<^verbatim>\<open>u32::try_from(u64)\<close>.\<close>

definition u32_of_u64 :: "u64 \<Rightarrow> u32 option" where
  "u32_of_u64 v = (if v < push_bit 32 1 then Some (ucast v) else None)"

definition low_range :: "u64 \<Rightarrow> u64 \<Rightarrow> boot_args_error \<Rightarrow> boot_args_error + u32 \<times> u32 \<times> u64" where
  "low_range phys n error =
     and_then (ok_or (checked_add phys n) error) (\<lambda>stop.
     if phys = 0 \<or> n = 0 \<or> LOW_ADDRESS_LIMIT < stop then Inl error
     else
     and_then (ok_or (u32_of_u64 phys) error) (\<lambda>phys32.
     and_then (ok_or (u32_of_u64 n) error) (\<lambda>n32.
     Inr (phys32, n32, stop))))"

definition boot_args_block :: "xnu_boot_args_input \<Rightarrow> u32 \<Rightarrow> u32 \<Rightarrow> u32 \<Rightarrow> u32 \<Rightarrow> u32 \<Rightarrow> u32 \<Rightarrow> u32 \<Rightarrow> byte_string" where
  "boot_args_block i map_phys map_size dt_phys dt_size kernel_phys kernel_size system_table =
     put_chunks
       [(2, to_le_bytes (2 :: u16)), (4, [64]), (8, xb_command_line i),
        (0x408, to_le_bytes map_phys), (0x40c, to_le_bytes map_size),
        (0x410, to_le_bytes (xb_memory_map_descriptor_size i)),
        (0x414, to_le_bytes (xb_memory_map_descriptor_version i)),
        (0x430, to_le_bytes dt_phys), (0x434, to_le_bytes dt_size),
        (0x438, to_le_bytes kernel_phys), (0x43c, to_le_bytes kernel_size),
        (0x450, to_le_bytes system_table), (0x478, to_le_bytes (xb_physical_memory_size i))]
       (replicate BOOT_ARGS_SIZE 0)"

definition encode_boot_args :: "xnu_boot_args_input \<Rightarrow> boot_args_error + byte_string" where
  "encode_boot_args i =
     (if MAX_COMMAND_LINE < length (xb_command_line i) \<or> \<not> is_ascii (xb_command_line i) \<or>
         0 \<in> set (xb_command_line i)
      then Inl XB_InvalidCommandLine
      else
      let stride = xb_memory_map_descriptor_size i in
      if stride < 40 \<or> stride mod 8 \<noteq> 0 \<or> xb_memory_map_descriptor_version i \<noteq> 1 \<or>
         xb_memory_map_phys i mod 8 \<noteq> 0 \<or> xb_memory_map_size i mod ucast stride \<noteq> 0
      then Inl XB_InvalidMemoryMap
      else
      and_then (low_range (xb_memory_map_phys i) (xb_memory_map_size i) XB_InvalidMemoryMap)
        (\<lambda>(map_phys, map_size, map_end).
      if xb_device_tree_phys i mod 4 \<noteq> 0 \<or> xb_device_tree_size i < 8 \<or> xb_device_tree_size i mod 4 \<noteq> 0
      then Inl XB_InvalidDeviceTree
      else
      and_then (low_range (xb_device_tree_phys i) (xb_device_tree_size i) XB_InvalidDeviceTree)
        (\<lambda>(dt_phys, dt_size, dt_end).
      and_then (low_range (xb_kernel_phys i) (xb_kernel_size i) XB_InvalidKernelRange)
        (\<lambda>(kernel_phys, kernel_size, kernel_end).
      if xb_kernel_phys i mod XB_PAGE_SIZE \<noteq> 0 \<or>
         (case checked_add kernel_end (XB_PAGE_SIZE - 1) of
            None \<Rightarrow> True
          | Some stop \<Rightarrow> LOW_ADDRESS_LIMIT \<le> stop AND NOT (XB_PAGE_SIZE - 1))
      then Inl XB_InvalidKernelRange
      else if xb_memory_map_phys i < xb_kernel_phys i \<or> kernel_end < map_end \<or>
         xb_device_tree_phys i < xb_kernel_phys i \<or> kernel_end < dt_end
      then Inl XB_HandoffOutsideKernel
      else if xb_memory_map_phys i < dt_end \<and> xb_device_tree_phys i < map_end
      then Inl XB_OverlappingHandoff
      else if xb_physical_memory_size i = 0 \<or>
         checked_add (xb_physical_memory_size i) LOW_ADDRESS_LIMIT = None
      then Inl XB_InvalidPhysicalMemory
      else if xb_efi_system_table_phys i = 0 \<or> xb_efi_system_table_phys i mod 8 \<noteq> 0
      then Inl XB_InvalidEfiSystemTable
      else
      and_then (ok_or (u32_of_u64 (xb_efi_system_table_phys i)) XB_InvalidEfiSystemTable) (\<lambda>system_table.
      Inr (boot_args_block i map_phys map_size dt_phys dt_size kernel_phys kernel_size system_table))))))"

definition fileset_block :: "xnu_fileset_boot_args_input \<Rightarrow> byte_string \<Rightarrow> byte_string" where
  "fileset_block i bytes = put_chunks
     [(0, to_le_bytes (1 :: u16)), (1108, to_le_bytes (xf_kernel_slide i)),
      (1256, to_le_bytes (xf_collection_header_phys i))] bytes"

definition encode_fileset_boot_args :: "xnu_fileset_boot_args_input \<Rightarrow> boot_args_error + byte_string" where
  "encode_fileset_boot_args i =
     and_then (encode_boot_args (xf_common i)) (\<lambda>bytes.
     if xf_collection_header_phys i mod 8 \<noteq> 0 \<or> xf_collection_header_size i < 32
     then Inl XB_InvalidCollectionHeader
     else
     and_then (low_range (xf_collection_header_phys i) (xf_collection_header_size i) XB_InvalidCollectionHeader)
       (\<lambda>(_, _, header_end).
     let common = xf_common i;
         kernel_end = xb_kernel_phys common + xb_kernel_size common;
         map_end = xb_memory_map_phys common + xb_memory_map_size common;
         dt_end = xb_device_tree_phys common + xb_device_tree_size common
     in
     if xf_collection_header_phys i < xb_kernel_phys common \<or> kernel_end < header_end
     then Inl XB_InvalidCollectionHeader
     else if (xf_collection_header_phys i < map_end \<and> xb_memory_map_phys common < header_end) \<or>
        (xf_collection_header_phys i < dt_end \<and> xb_device_tree_phys common < header_end)
     then Inl XB_OverlappingHandoff
     else Inr (fileset_block i bytes)))"

end
