(* ===== verification/Xnu_Boot_Args_Proofs.thy ===== *)
theory Xnu_Boot_Args_Proofs
  imports Xnu_Boot_Args Arm64_Boot_Args_Proofs
begin

text \<open>
  The i386 boot arguments of \<^verbatim>\<open>src/xnu_boot_args.rs\<close>: which inputs are encoded, stated in \<open>nat\<close>
  without the order of the checks, and what the block holds.
\<close>

section \<open>Which inputs are encoded\<close>

lemma unat_low_limit: "unat LOW_ADDRESS_LIMIT = 2 ^ 32"
  by (simp add: LOW_ADDRESS_LIMIT_def)

lemma u32_of_u64_Some: "u32_of_u64 v = Some w \<longleftrightarrow> unat w = unat v"
proof -
  have "unat (ucast v :: u32) = unat v" if "v < push_bit 32 1"
    using that by (simp add: unsigned_ucast_eq take_bit_nat_eq_self_iff word_less_nat_alt)
  moreover have "v < push_bit 32 1" if "unat w = unat v"
    using that unat_u32_bound [of w] by (simp add: word_less_nat_alt)
  ultimately show ?thesis by (auto simp: u32_of_u64_def word_unat_eq_iff)
qed

lemma u32_of_u64_fits: "unat v < 2 ^ 32 \<Longrightarrow> u32_of_u64 v = Some (ucast v)"
  by (simp add: u32_of_u64_def word_less_nat_alt)

definition low :: "u64 \<Rightarrow> u64 \<Rightarrow> bool" where
  "low phys n \<longleftrightarrow> 0 < unat phys \<and> 0 < unat n \<and> unat phys + unat n \<le> 2 ^ 32"

lemma low_range_Inr:
  "low_range phys n e = Inr (p, m, stop) \<longleftrightarrow>
   low phys n \<and> p = ucast phys \<and> m = ucast n \<and> unat stop = unat phys + unat n"
proof -
  have "low_range phys n e = Inr (p, m, stop) \<longleftrightarrow>
    unat phys + unat n = unat stop \<and> phys \<noteq> 0 \<and> n \<noteq> 0 \<and> unat stop \<le> 2 ^ 32 \<and>
    u32_of_u64 phys = Some p \<and> u32_of_u64 n = Some m"
    by (auto simp: low_range_def result_iff checked_add_Some word_le_nat_alt not_less unat_low_limit)
  also have "\<dots> \<longleftrightarrow> low phys n \<and> p = ucast phys \<and> m = ucast n \<and> unat stop = unat phys + unat n"
  proof -
    have "u32_of_u64 phys = Some (ucast phys) \<and> u32_of_u64 n = Some (ucast n)" if "low phys n"
      using that by (intro conjI u32_of_u64_fits) (simp_all add: low_def)
    then show ?thesis by (auto simp: low_def unat_gt_0)
  qed
  finally show ?thesis .
qed

lemma low_range_ok: "low phys n \<Longrightarrow> low_range phys n e = Inr (ucast phys, ucast n, phys + n)"
  unfolding low_range_Inr by (simp add: low_def unat_add_exact)

lemma low_range_Inl: "\<not> low phys n \<Longrightarrow> low_range phys n e = Inl e"
proof -
  assume no: "\<not> low phys n"
  show ?thesis
  proof (cases "low_range phys n e")
    case (Inl e')
    then show ?thesis by (auto simp: low_range_def result_iff split: if_splits)
  next
    case (Inr r)
    then show ?thesis using no by (cases r) (simp add: low_range_Inr)
  qed
qed

definition command_line_ok :: "byte_string \<Rightarrow> bool" where
  "command_line_ok cmd \<longleftrightarrow> length cmd \<le> 1023 \<and> (\<forall>c \<in> set cmd. 0 < unat c \<and> unat c < 128)"

definition boot_args_valid :: "xnu_boot_args_input \<Rightarrow> bool" where
  "boot_args_valid i \<longleftrightarrow>
     (let map = unat (xb_memory_map_phys i); map_end = map + unat (xb_memory_map_size i);
          dt = unat (xb_device_tree_phys i); dt_end = dt + unat (xb_device_tree_size i);
          kern = unat (xb_kernel_phys i); kern_end = kern + unat (xb_kernel_size i);
          stride = unat (xb_memory_map_descriptor_size i)
      in
      command_line_ok (xb_command_line i) \<and>
      40 \<le> stride \<and> stride mod 8 = 0 \<and> xb_memory_map_descriptor_version i = 1 \<and>
      map mod 8 = 0 \<and> unat (xb_memory_map_size i) mod stride = 0 \<and> low (xb_memory_map_phys i) (xb_memory_map_size i) \<and>
      dt mod 4 = 0 \<and> 8 \<le> unat (xb_device_tree_size i) \<and> unat (xb_device_tree_size i) mod 4 = 0 \<and>
      low (xb_device_tree_phys i) (xb_device_tree_size i) \<and>
      low (xb_kernel_phys i) (xb_kernel_size i) \<and> kern mod 4096 = 0 \<and> kern_end + 4096 \<le> 2 ^ 32 \<and>
      kern \<le> map \<and> map_end \<le> kern_end \<and> kern \<le> dt \<and> dt_end \<le> kern_end \<and>
      (map_end \<le> dt \<or> dt_end \<le> map) \<and>
      0 < unat (xb_physical_memory_size i) \<and> unat (xb_physical_memory_size i) + 2 ^ 32 < 2 ^ 64 \<and>
      0 < unat (xb_efi_system_table_phys i) \<and> unat (xb_efi_system_table_phys i) mod 8 = 0 \<and>
      unat (xb_efi_system_table_phys i) < 2 ^ 32)"

lemma command_line_ok_iff:
  "command_line_ok cmd \<longleftrightarrow> \<not> (MAX_COMMAND_LINE < length cmd \<or> \<not> is_ascii cmd \<or> 0 \<in> set cmd)"
  by (auto simp: command_line_ok_def MAX_COMMAND_LINE_def is_ascii_def list_all_iff word_less_nat_alt unat_gt_0)

text \<open>The kernel's allocation cursor, rounded up to a page, still fits 32 bits.\<close>

lemma cursor_fits:
  fixes stop :: u64
  assumes "unat stop \<le> 2 ^ 32"
  shows "(case checked_add stop (XB_PAGE_SIZE - 1) of None \<Rightarrow> True
      | Some r \<Rightarrow> LOW_ADDRESS_LIMIT \<le> r AND NOT (XB_PAGE_SIZE - 1)) \<longleftrightarrow> 2 ^ 32 < unat stop + 4096"
proof -
  have page: "is_power_of_two 4096" unfolding is_power_of_two_def by (rule bexI [of _ 12]) simp_all
  have sum: "checked_add stop (XB_PAGE_SIZE - 1) = Some (stop + 4095)" "unat (stop + 4095) = unat stop + 4095"
    using assms by (simp_all add: checked_add_def XB_PAGE_SIZE_def unat_add_exact)
  have down: "(stop + 4095) AND NOT (XB_PAGE_SIZE - 1) = align_down (stop + 4095) 4096"
    by (simp add: align_down_def XB_PAGE_SIZE_def)
  have "unat (align_down (stop + 4095) 4096) = unat stop + 4095 - (unat stop + 4095) mod 4096"
    by (simp add: unat_align_down [OF page] sum)
  moreover have "2 ^ 32 \<le> x - x mod 4096 \<longleftrightarrow> 2 ^ 32 \<le> x" for x :: nat
  proof -
    have "x - x mod 4096 = x div 4096 * 4096" by (rule minus_mod_eq_div_mult)
    moreover have "(2 :: nat) ^ 32 = 1048576 * 4096" by simp
    moreover have "1048576 \<le> x div 4096 \<longleftrightarrow> 1048576 * 4096 \<le> x" by (rule less_eq_div_iff_mult_less_eq) simp
    ultimately show ?thesis by (simp only: mult_le_cancel2) simp
  qed
  ultimately show ?thesis
    unfolding sum option.case down word_le_nat_alt unat_low_limit by (simp only:) linarith
qed

lemma encode_boot_args_eq:
  assumes "boot_args_valid i"
  shows "encode_boot_args i = Inr (boot_args_block i (ucast (xb_memory_map_phys i)) (ucast (xb_memory_map_size i))
    (ucast (xb_device_tree_phys i)) (ucast (xb_device_tree_size i)) (ucast (xb_kernel_phys i))
    (ucast (xb_kernel_size i)) (ucast (xb_efi_system_table_phys i)))"
proof -
  note V = assms [unfolded boot_args_valid_def Let_def]
  have ends: "unat (xb_memory_map_phys i + xb_memory_map_size i) = unat (xb_memory_map_phys i) + unat (xb_memory_map_size i)"
    "unat (xb_device_tree_phys i + xb_device_tree_size i) = unat (xb_device_tree_phys i) + unat (xb_device_tree_size i)"
    "unat (xb_kernel_phys i + xb_kernel_size i) = unat (xb_kernel_phys i) + unat (xb_kernel_size i)"
    using V by (simp_all add: low_def unat_add_exact)
  have cursor: "\<not> (case checked_add (xb_kernel_phys i + xb_kernel_size i) (XB_PAGE_SIZE - 1) of None \<Rightarrow> True
      | Some r \<Rightarrow> LOW_ADDRESS_LIMIT \<le> r AND NOT (XB_PAGE_SIZE - 1))"
    using V by (subst cursor_fits) (simp_all add: ends low_def)
  have stride: "unat (ucast (xb_memory_map_descriptor_size i) :: u64) = unat (xb_memory_map_descriptor_size i)"
    by (rule unat_ucast_u32)
  have lows: "low_range (xb_memory_map_phys i) (xb_memory_map_size i) e =
      Inr (ucast (xb_memory_map_phys i), ucast (xb_memory_map_size i), xb_memory_map_phys i + xb_memory_map_size i)"
    "low_range (xb_device_tree_phys i) (xb_device_tree_size i) e =
      Inr (ucast (xb_device_tree_phys i), ucast (xb_device_tree_size i), xb_device_tree_phys i + xb_device_tree_size i)"
    "low_range (xb_kernel_phys i) (xb_kernel_size i) e =
      Inr (ucast (xb_kernel_phys i), ucast (xb_kernel_size i), xb_kernel_phys i + xb_kernel_size i)" for e
    using V by (simp_all add: low_range_ok)
  have tests: "\<not> (MAX_COMMAND_LINE < length (xb_command_line i) \<or> \<not> is_ascii (xb_command_line i) \<or>
        0 \<in> set (xb_command_line i))"
    "\<not> (xb_memory_map_descriptor_size i < 40 \<or> xb_memory_map_descriptor_size i mod 8 \<noteq> 0 \<or>
        xb_memory_map_descriptor_version i \<noteq> 1 \<or> xb_memory_map_phys i mod 8 \<noteq> 0 \<or>
        xb_memory_map_size i mod ucast (xb_memory_map_descriptor_size i) \<noteq> 0)"
    "\<not> (xb_device_tree_phys i mod 4 \<noteq> 0 \<or> xb_device_tree_size i < 8 \<or> xb_device_tree_size i mod 4 \<noteq> 0)"
    "\<not> (xb_physical_memory_size i = 0 \<or> checked_add (xb_physical_memory_size i) LOW_ADDRESS_LIMIT = None)"
    "\<not> (xb_efi_system_table_phys i = 0 \<or> xb_efi_system_table_phys i mod 8 \<noteq> 0)"
    using V
    by (simp_all add: command_line_ok_iff word_less_nat_alt word_unat_eq_iff unat_mod stride checked_add_None unat_low_limit)
  have places: "\<not> (xb_kernel_phys i mod XB_PAGE_SIZE \<noteq> 0 \<or>
        (case checked_add (xb_kernel_phys i + xb_kernel_size i) (XB_PAGE_SIZE - 1) of None \<Rightarrow> True
          | Some stop \<Rightarrow> LOW_ADDRESS_LIMIT \<le> stop AND NOT (XB_PAGE_SIZE - 1)))"
    "\<not> (xb_memory_map_phys i < xb_kernel_phys i \<or>
        xb_kernel_phys i + xb_kernel_size i < xb_memory_map_phys i + xb_memory_map_size i \<or>
        xb_device_tree_phys i < xb_kernel_phys i \<or>
        xb_kernel_phys i + xb_kernel_size i < xb_device_tree_phys i + xb_device_tree_size i)"
    "\<not> (xb_memory_map_phys i < xb_device_tree_phys i + xb_device_tree_size i \<and>
        xb_device_tree_phys i < xb_memory_map_phys i + xb_memory_map_size i)"
    using V cursor by (simp_all add: word_less_nat_alt word_unat_eq_iff unat_mod XB_PAGE_SIZE_def ends) linarith?
  have table: "u32_of_u64 (xb_efi_system_table_phys i) = Some (ucast (xb_efi_system_table_phys i))"
    using V by (simp add: u32_of_u64_fits)
  show ?thesis
    unfolding encode_boot_args_def Let_def
    by (simp only: if_not_P [OF tests(1)] if_not_P [OF tests(2)] if_not_P [OF tests(3)] if_not_P [OF tests(4)]
        if_not_P [OF tests(5)] if_not_P [OF places(1)] if_not_P [OF places(2)] if_not_P [OF places(3)]
        lows and_then_simps prod.case table ok_or_simps)
qed

lemma encode_boot_args_valid:
  assumes "encode_boot_args i = Inr bytes"
  shows "boot_args_valid i"
proof -
  have stride: "unat (ucast (xb_memory_map_descriptor_size i) :: u64) = unat (xb_memory_map_descriptor_size i)"
    by (rule unat_ucast_u32)
  obtain map_end dt_end kernel_end :: u64 and table where
    cmd: "\<not> (MAX_COMMAND_LINE < length (xb_command_line i) \<or> \<not> is_ascii (xb_command_line i) \<or>
        0 \<in> set (xb_command_line i))"
    and stride_ok: "\<not> (xb_memory_map_descriptor_size i < 40 \<or> xb_memory_map_descriptor_size i mod 8 \<noteq> 0 \<or>
        xb_memory_map_descriptor_version i \<noteq> 1 \<or> xb_memory_map_phys i mod 8 \<noteq> 0 \<or>
        xb_memory_map_size i mod ucast (xb_memory_map_descriptor_size i) \<noteq> 0)"
    and lows: "low (xb_memory_map_phys i) (xb_memory_map_size i)"
      "unat map_end = unat (xb_memory_map_phys i) + unat (xb_memory_map_size i)"
      "low (xb_device_tree_phys i) (xb_device_tree_size i)"
      "unat dt_end = unat (xb_device_tree_phys i) + unat (xb_device_tree_size i)"
      "low (xb_kernel_phys i) (xb_kernel_size i)"
      "unat kernel_end = unat (xb_kernel_phys i) + unat (xb_kernel_size i)"
    and tree: "\<not> (xb_device_tree_phys i mod 4 \<noteq> 0 \<or> xb_device_tree_size i < 8 \<or> xb_device_tree_size i mod 4 \<noteq> 0)"
    and kernel: "\<not> (xb_kernel_phys i mod XB_PAGE_SIZE \<noteq> 0 \<or>
       (case checked_add kernel_end (XB_PAGE_SIZE - 1) of None \<Rightarrow> True
          | Some stop \<Rightarrow> LOW_ADDRESS_LIMIT \<le> stop AND NOT (XB_PAGE_SIZE - 1)))"
    and inside: "\<not> (xb_memory_map_phys i < xb_kernel_phys i \<or> kernel_end < map_end \<or>
         xb_device_tree_phys i < xb_kernel_phys i \<or> kernel_end < dt_end)"
    and apart: "\<not> (xb_memory_map_phys i < dt_end \<and> xb_device_tree_phys i < map_end)"
    and memory: "\<not> (xb_physical_memory_size i = 0 \<or> checked_add (xb_physical_memory_size i) LOW_ADDRESS_LIMIT = None)"
    and efi: "\<not> (xb_efi_system_table_phys i = 0 \<or> xb_efi_system_table_phys i mod 8 \<noteq> 0)"
      "u32_of_u64 (xb_efi_system_table_phys i) = Some table"
    using assms
    unfolding encode_boot_args_def Let_def and_then_Inr if_Inl_Inr split_paired_Ex prod.case low_range_Inr ok_or_Inr
    by (elim exE conjE) (rule that, assumption+)
  have small: "unat kernel_end \<le> 2 ^ 32" using lows(5,6) by (simp add: low_def)
  have words: "40 \<le> unat (xb_memory_map_descriptor_size i)" "unat (xb_memory_map_descriptor_size i) mod 8 = 0"
    "xb_memory_map_descriptor_version i = 1" "unat (xb_memory_map_phys i) mod 8 = 0"
    "unat (xb_memory_map_size i) mod unat (xb_memory_map_descriptor_size i) = 0"
    "unat (xb_device_tree_phys i) mod 4 = 0" "8 \<le> unat (xb_device_tree_size i)" "unat (xb_device_tree_size i) mod 4 = 0"
    "0 < unat (xb_physical_memory_size i)" "unat (xb_physical_memory_size i) + 2 ^ 32 < 2 ^ 64"
    "0 < unat (xb_efi_system_table_phys i)" "unat (xb_efi_system_table_phys i) mod 8 = 0"
    using stride_ok tree memory efi(1)
    by (simp_all add: word_less_nat_alt word_unat_eq_iff unat_mod stride checked_add_None unat_low_limit)
  have table: "unat (xb_efi_system_table_phys i) < 2 ^ 32"
    using efi(2) unat_u32_bound [of table] by (simp add: u32_of_u64_Some)
  have places: "unat (xb_kernel_phys i) mod 4096 = 0" "unat kernel_end + 4096 \<le> 2 ^ 32"
    using kernel cursor_fits [OF small] by (simp_all add: word_unat_eq_iff unat_mod XB_PAGE_SIZE_def)
  have order: "unat (xb_kernel_phys i) \<le> unat (xb_memory_map_phys i)" "unat map_end \<le> unat kernel_end"
    "unat (xb_kernel_phys i) \<le> unat (xb_device_tree_phys i)" "unat dt_end \<le> unat kernel_end"
    "unat map_end \<le> unat (xb_device_tree_phys i) \<or> unat dt_end \<le> unat (xb_memory_map_phys i)"
    using inside apart by (auto simp: word_less_nat_alt)
  show ?thesis
    unfolding boot_args_valid_def Let_def
    using cmd words table places order lows by (simp add: command_line_ok_iff)
qed

definition fileset_valid :: "xnu_fileset_boot_args_input \<Rightarrow> bool" where
  "fileset_valid i \<longleftrightarrow>
     (let c = xf_common i; hdr = unat (xf_collection_header_phys i); hdr_end = hdr + unat (xf_collection_header_size i) in
      boot_args_valid c \<and> hdr mod 8 = 0 \<and> 32 \<le> unat (xf_collection_header_size i) \<and>
      unat (xb_kernel_phys c) \<le> hdr \<and> hdr_end \<le> unat (xb_kernel_phys c) + unat (xb_kernel_size c) \<and>
      (hdr_end \<le> unat (xb_memory_map_phys c) \<or> unat (xb_memory_map_phys c) + unat (xb_memory_map_size c) \<le> hdr) \<and>
      (hdr_end \<le> unat (xb_device_tree_phys c) \<or> unat (xb_device_tree_phys c) + unat (xb_device_tree_size c) \<le> hdr))"

definition common_block :: "xnu_boot_args_input \<Rightarrow> byte_string" where
  "common_block i = boot_args_block i (ucast (xb_memory_map_phys i)) (ucast (xb_memory_map_size i))
    (ucast (xb_device_tree_phys i)) (ucast (xb_device_tree_size i)) (ucast (xb_kernel_phys i))
    (ucast (xb_kernel_size i)) (ucast (xb_efi_system_table_phys i))"

text \<open>The sums that the encoder of the extension leaves unchecked are exact.\<close>

lemma common_ends:
  assumes "boot_args_valid i"
  shows "unat (xb_kernel_phys i + xb_kernel_size i) = unat (xb_kernel_phys i) + unat (xb_kernel_size i)"
    and "unat (xb_memory_map_phys i + xb_memory_map_size i) = unat (xb_memory_map_phys i) + unat (xb_memory_map_size i)"
    and "unat (xb_device_tree_phys i + xb_device_tree_size i) = unat (xb_device_tree_phys i) + unat (xb_device_tree_size i)"
  using assms by (simp_all add: boot_args_valid_def Let_def low_def unat_add_exact)

lemma encode_fileset_eq:
  "encode_fileset_boot_args i = Inr bytes \<longleftrightarrow>
   fileset_valid i \<and> bytes = fileset_block i (common_block (xf_common i))"
proof (cases "boot_args_valid (xf_common i)")
  case False
  then have "encode_boot_args (xf_common i) \<noteq> Inr bytes'" for bytes' using encode_boot_args_valid by blast
  then show ?thesis using False by (auto simp: encode_fileset_boot_args_def fileset_valid_def Let_def and_then_Inr)
next
  case True
  let ?c = "xf_common i" and ?hdr = "xf_collection_header_phys i" and ?size = "xf_collection_header_size i"
  note E = common_ends [OF True]
  have bound: "unat (xb_kernel_phys ?c) + unat (xb_kernel_size ?c) + 4096 \<le> 2 ^ 32" "0 < unat (xb_kernel_phys ?c)"
    using True by (simp_all add: boot_args_valid_def Let_def low_def)
  have c: "encode_boot_args ?c = Inr (common_block ?c)"
    using encode_boot_args_eq [OF True] by (simp add: common_block_def)
  show ?thesis
  proof (cases "low ?hdr ?size")
    case False
    then have "\<not> fileset_valid i" using bound by (auto simp: fileset_valid_def Let_def low_def)
    then show ?thesis using False by (auto simp: encode_fileset_boot_args_def c low_range_Inl)
  next
    case low: True
    have hdr: "unat (?hdr + ?size) = unat ?hdr + unat ?size" using low by (simp add: low_def unat_add_exact)
    have "encode_fileset_boot_args i = Inr bytes \<longleftrightarrow>
      \<not> (?hdr mod 8 \<noteq> 0 \<or> ?size < 32) \<and>
      \<not> (?hdr < xb_kernel_phys ?c \<or> xb_kernel_phys ?c + xb_kernel_size ?c < ?hdr + ?size) \<and>
      \<not> (?hdr < xb_memory_map_phys ?c + xb_memory_map_size ?c \<and> xb_memory_map_phys ?c < ?hdr + ?size \<or>
         ?hdr < xb_device_tree_phys ?c + xb_device_tree_size ?c \<and> xb_device_tree_phys ?c < ?hdr + ?size) \<and>
      fileset_block i (common_block ?c) = bytes"
      unfolding encode_fileset_boot_args_def Let_def c and_then_simps low_range_ok [OF low] prod.case if_Inl_Inr
        sum.inject ..
    also have "\<dots> \<longleftrightarrow> fileset_valid i \<and> bytes = fileset_block i (common_block ?c)"
      unfolding fileset_valid_def Let_def word_less_nat_alt E hdr
      using True by (auto simp: word_unat_eq_iff unat_mod)
    finally show ?thesis .
  qed
qed

text \<open>
  The encoder of collection boot arguments accepts exactly the inputs whose memory map, device
  tree, and collection header are aligned, lie in the kernel range below four gigabytes, and do
  not overlap, with consistent sizes and an ASCII command line of at most 1023 bytes without a zero.
\<close>

theorem encode_fileset_accepts: "(\<exists>bytes. encode_fileset_boot_args i = Inr bytes) \<longleftrightarrow> fileset_valid i"
  by (auto simp: encode_fileset_eq)

section \<open>What the block holds\<close>

definition fileset_chunks :: "xnu_fileset_boot_args_input \<Rightarrow> (nat \<times> byte_string) list" where
  "fileset_chunks i =
     (let c = xf_common i in
      [(2, to_le_bytes (2 :: u16)), (4, [64]), (8, xb_command_line c),
       (0x408, to_le_bytes (ucast (xb_memory_map_phys c) :: u32)), (0x40c, to_le_bytes (ucast (xb_memory_map_size c) :: u32)),
       (0x410, to_le_bytes (xb_memory_map_descriptor_size c)),
       (0x414, to_le_bytes (xb_memory_map_descriptor_version c)),
       (0x430, to_le_bytes (ucast (xb_device_tree_phys c) :: u32)), (0x434, to_le_bytes (ucast (xb_device_tree_size c) :: u32)),
       (0x438, to_le_bytes (ucast (xb_kernel_phys c) :: u32)), (0x43c, to_le_bytes (ucast (xb_kernel_size c) :: u32)),
       (0x450, to_le_bytes (ucast (xb_efi_system_table_phys c) :: u32)), (0x478, to_le_bytes (xb_physical_memory_size c)),
       (0, to_le_bytes (1 :: u16)), (1108, to_le_bytes (xf_kernel_slide i)),
       (1256, to_le_bytes (xf_collection_header_phys i))])"

lemma fileset_block_chunks:
  "fileset_block i (common_block (xf_common i)) = put_chunks (fileset_chunks i) (replicate 4096 0)"
  by (simp add: fileset_block_def common_block_def boot_args_block_def fileset_chunks_def Let_def BOOT_ARGS_SIZE_def)

lemma fileset_chunks_ok:
  assumes "length (xb_command_line (xf_common i)) \<le> 1023"
  shows "chunks_fit (length (replicate 4096 (0 :: u8))) (fileset_chunks i)" and "sorted_wrt chunk_apart (fileset_chunks i)"
  using assms by (simp_all add: fileset_chunks_def Let_def chunk_apart_def)

lemma fileset_block_reads:
  assumes "length (xb_command_line (xf_common i)) \<le> 1023" and "(off, src) \<in> set (fileset_chunks i)"
  shows "take (length src) (drop off (fileset_block i (common_block (xf_common i)))) = src"
  unfolding fileset_block_chunks using assms(2)
  by (rule put_chunks_read [OF fileset_chunks_ok [OF assms(1)]])

text \<open>
  C26. The block is 4096 bytes, and every field of the input reads back at its offset of the public
  layout, the addresses and sizes in 32 bits without loss; every other byte is zero.
\<close>

theorem encode_fileset_layout:
  assumes "encode_fileset_boot_args i = Inr bytes"
  shows "length bytes = 4096 \<and> word16_at bytes 0 = 1 \<and> word16_at bytes 2 = 2 \<and> bytes ! 4 = 64 \<and>
    take (length (xb_command_line (xf_common i))) (drop 8 bytes) = xb_command_line (xf_common i) \<and>
    map (\<lambda>off. unat (word32_at bytes off)) [0x408, 0x40c, 0x430, 0x434, 0x438, 0x43c, 0x450] =
      map unat [xb_memory_map_phys (xf_common i), xb_memory_map_size (xf_common i), xb_device_tree_phys (xf_common i),
        xb_device_tree_size (xf_common i), xb_kernel_phys (xf_common i), xb_kernel_size (xf_common i),
        xb_efi_system_table_phys (xf_common i)] \<and>
    map (word32_at bytes) [0x410, 0x414, 1108] =
      [xb_memory_map_descriptor_size (xf_common i), xb_memory_map_descriptor_version (xf_common i), xf_kernel_slide i] \<and>
    map (word64_at bytes) [0x478, 1256] = [xb_physical_memory_size (xf_common i), xf_collection_header_phys i] \<and>
    (\<forall>n < 4096. (\<forall>(off, src) \<in> set (fileset_chunks i). n < off \<or> off + length src \<le> n) \<longrightarrow> bytes ! n = 0)"
proof -
  let ?c = "xf_common i"
  have valid: "fileset_valid i" and bytes: "bytes = fileset_block i (common_block ?c)"
    using assms by (simp_all add: encode_fileset_eq)
  have V: "boot_args_valid ?c" using valid by (simp add: fileset_valid_def Let_def)
  have cmd: "length (xb_command_line ?c) \<le> 1023" using V by (simp add: boot_args_valid_def Let_def command_line_ok_def)
  have small: "unat (xb_memory_map_phys ?c) < 2 ^ 32" "unat (xb_memory_map_size ?c) < 2 ^ 32"
    "unat (xb_device_tree_phys ?c) < 2 ^ 32" "unat (xb_device_tree_size ?c) < 2 ^ 32"
    "unat (xb_kernel_phys ?c) < 2 ^ 32" "unat (xb_kernel_size ?c) < 2 ^ 32" "unat (xb_efi_system_table_phys ?c) < 2 ^ 32"
    using V by (simp_all add: boot_args_valid_def Let_def low_def)
  have narrow: "unat (ucast v :: u32) = unat v" if "unat v < 2 ^ 32" for v :: u64
    using u32_of_u64_fits [OF that] by (simp add: u32_of_u64_Some)
  note F = fileset_chunks_ok [OF cmd]
  note R = fileset_block_reads [OF cmd, folded bytes, unfolded fileset_chunks_def Let_def]
  have len: "length bytes = 4096" using length_put_chunks [OF F(1)] by (simp add: bytes fileset_block_chunks)
  have byte: "bytes ! 4 = 64" using R [of 4 "[64]"] len by (simp add: take_Suc hd_drop_conv_nth)
  have zero: "bytes ! n = 0" if "n < 4096" "\<forall>(off, src) \<in> set (fileset_chunks i). n < off \<or> off + length src \<le> n" for n
  proof -
    have "bytes ! n = replicate 4096 0 ! n"
      unfolding bytes fileset_block_chunks
      by (rule put_chunks_nth_elsewhere [OF F(1)]) (use that in auto)
    then show ?thesis using that(1) by simp
  qed
  have w16: "word16_at bytes 0 = 1" "word16_at bytes 2 = 2"
    using R [of 0 "to_le_bytes (1 :: u16)"] R [of 2 "to_le_bytes (2 :: u16)"] by (simp_all add: word16_at_def)
  have w32: "word32_at bytes off = w" if "(off, to_le_bytes w) \<in> set (fileset_chunks i)" for off w
    using fileset_block_reads [OF cmd that, folded bytes] by (simp add: word32_at_def)
  have w64: "word64_at bytes off = w" if "(off, to_le_bytes w) \<in> set (fileset_chunks i)" for off w
    using fileset_block_reads [OF cmd that, folded bytes] by (simp add: word64_at_def)
  have words: "word32_at bytes 0x408 = ucast (xb_memory_map_phys ?c)" "word32_at bytes 0x40c = ucast (xb_memory_map_size ?c)"
    "word32_at bytes 0x430 = ucast (xb_device_tree_phys ?c)" "word32_at bytes 0x434 = ucast (xb_device_tree_size ?c)"
    "word32_at bytes 0x438 = ucast (xb_kernel_phys ?c)" "word32_at bytes 0x43c = ucast (xb_kernel_size ?c)"
    "word32_at bytes 0x450 = ucast (xb_efi_system_table_phys ?c)" "word32_at bytes 0x410 = xb_memory_map_descriptor_size ?c"
    "word32_at bytes 0x414 = xb_memory_map_descriptor_version ?c" "word32_at bytes 1108 = xf_kernel_slide i"
    "word64_at bytes 0x478 = xb_physical_memory_size ?c" "word64_at bytes 1256 = xf_collection_header_phys i"
    by (rule w32 w64; simp add: fileset_chunks_def Let_def)+
  show ?thesis
    using len w16 byte words zero small R [of 8 "xb_command_line ?c"] by (simp add: narrow)
qed

section \<open>An input\<close>

definition sample_fileset :: xnu_fileset_boot_args_input where
  "sample_fileset = \<lparr> xf_common = \<lparr> xb_memory_map_phys = 0x120000, xb_memory_map_size = 480,
     xb_memory_map_descriptor_size = 48, xb_memory_map_descriptor_version = 1, xb_device_tree_phys = 0x130000,
     xb_device_tree_size = 64, xb_kernel_phys = 0x100000, xb_kernel_size = 0x100000,
     xb_physical_memory_size = 0x100000000, xb_efi_system_table_phys = 0x70000000, xb_command_line = [0x2d, 0x76] \<rparr>,
     xf_collection_header_phys = 0x100000, xf_collection_header_size = 4096, xf_kernel_slide = 0 \<rparr>"

lemma encode_fileset_layout_witness:
  "\<exists>bytes. encode_fileset_boot_args sample_fileset = Inr bytes \<and> word64_at bytes 1256 = 0x100000 \<and> length bytes = 4096"
proof -
  have "fileset_valid sample_fileset"
    by (simp add: fileset_valid_def boot_args_valid_def sample_fileset_def command_line_ok_def low_def)
  then obtain bytes where b: "encode_fileset_boot_args sample_fileset = Inr bytes" by (simp add: encode_fileset_eq)
  show ?thesis using encode_fileset_layout [OF b] b by (simp add: sample_fileset_def)
qed

end
