(* ===== verification/Utf8.thy ===== *)
theory Utf8
  imports Rust_Prelude
begin

text \<open>
  \<^verbatim>\<open>String::from_utf8_lossy\<close> of the standard library on byte strings: well-formed characters are
  kept, and every maximal ill-formed prefix becomes the replacement character. A \<^verbatim>\<open>String\<close> is a
  byte string for which \<open>utf8_valid\<close> holds.
\<close>

definition continuation :: "u8 \<Rightarrow> bool" where
  "continuation b \<longleftrightarrow> b AND 0xc0 = 0x80"

text \<open>The second byte of a character of three and of four bytes.\<close>

definition second_of_three :: "u8 \<Rightarrow> u8 \<Rightarrow> bool" where
  "second_of_three a b \<longleftrightarrow>
     (if a = 0xe0 then 0xa0 \<le> b \<and> b \<le> 0xbf else if a = 0xed then 0x80 \<le> b \<and> b \<le> 0x9f
      else 0x80 \<le> b \<and> b \<le> 0xbf)"

definition second_of_four :: "u8 \<Rightarrow> u8 \<Rightarrow> bool" where
  "second_of_four a b \<longleftrightarrow>
     (if a = 0xf0 then 0x90 \<le> b \<and> b \<le> 0xbf else if a = 0xf4 then 0x80 \<le> b \<and> b \<le> 0x8f
      else 0x80 \<le> b \<and> b \<le> 0xbf)"

text \<open>\<^verbatim>\<open>utf8_char_width\<close>: the length a first byte announces, 0 where it cannot be one.\<close>

definition utf8_width :: "u8 \<Rightarrow> nat" where
  "utf8_width a =
     (if a < 0x80 then 1 else if 0xc2 \<le> a \<and> a \<le> 0xdf then 2 else if 0xe0 \<le> a \<and> a \<le> 0xef then 3
      else if 0xf0 \<le> a \<and> a \<le> 0xf4 then 4 else 0)"

text \<open>The length of the first character, or of the first ill-formed part.\<close>

fun utf8_head :: "byte_string \<Rightarrow> nat \<times> bool" where
  "utf8_head [] = (0, True)"
| "utf8_head (a # rest) =
     (if utf8_width a = 1 then (1, True)
      else if utf8_width a = 2 then
        (case rest of b # _ \<Rightarrow> if continuation b then (2, True) else (1, False) | [] \<Rightarrow> (1, False))
      else if utf8_width a = 3 then
        (case rest of
           b # rest \<Rightarrow>
             if second_of_three a b then
               (case rest of c # _ \<Rightarrow> if continuation c then (3, True) else (2, False) | [] \<Rightarrow> (2, False))
             else (1, False)
         | [] \<Rightarrow> (1, False))
      else if utf8_width a = 4 then
        (case rest of
           b # rest \<Rightarrow>
             if second_of_four a b then
               (case rest of
                  c # rest \<Rightarrow>
                    if continuation c then
                      (case rest of d # _ \<Rightarrow> if continuation d then (4, True) else (3, False) | [] \<Rightarrow> (3, False))
                    else (2, False)
                | [] \<Rightarrow> (2, False))
             else (1, False)
         | [] \<Rightarrow> (1, False))
      else (1, False))"

lemma utf8_head_length: "bs \<noteq> [] \<Longrightarrow> 0 < fst (utf8_head bs) \<and> fst (utf8_head bs) \<le> length bs"
  by (cases bs) (auto split: list.splits)

definition replacement :: byte_string where
  "replacement = [0xef, 0xbf, 0xbd]"

function utf8_lossy :: "byte_string \<Rightarrow> byte_string" where
  "utf8_lossy bs =
     (if bs = [] then []
      else (if snd (utf8_head bs) then take (fst (utf8_head bs)) bs else replacement) @
        utf8_lossy (drop (fst (utf8_head bs)) bs))"
  by pat_completeness auto
termination
  using utf8_head_length by (relation "measure length") auto

function utf8_valid :: "byte_string \<Rightarrow> bool" where
  "utf8_valid bs =
     (if bs = [] then True else snd (utf8_head bs) \<and> utf8_valid (drop (fst (utf8_head bs)) bs))"
  by pat_completeness auto
termination
  using utf8_head_length by (relation "measure length") auto

declare utf8_lossy.simps [simp del] utf8_valid.simps [simp del]

lemma utf8_Nil [simp]: "utf8_lossy [] = []" "utf8_valid []"
  by (simp_all add: utf8_lossy.simps [of "[]"] utf8_valid.simps [of "[]"])

lemma utf8_lossy_valid: "utf8_valid bs \<Longrightarrow> utf8_lossy bs = bs"
proof (induction bs rule: utf8_lossy.induct)
  case (1 bs)
  show ?case
  proof (cases "bs = []")
    case False
    then have "snd (utf8_head bs)" "utf8_valid (drop (fst (utf8_head bs)) bs)"
      using 1(2) by (simp_all add: utf8_valid.simps [of bs])
    then show ?thesis using 1(1) [OF False] False by (simp add: utf8_lossy.simps [of bs])
  qed simp
qed

text \<open>What comes out is always well formed.\<close>

lemma utf8_head_append:
  assumes "utf8_head bs = (n, True)" and "bs \<noteq> []"
  shows "utf8_head (take n bs @ ys) = (n, True)"
proof (cases bs)
  case (Cons a rest)
  then show ?thesis
    using assms by (cases "utf8_width a = 1") (auto split: list.split_asm if_split_asm)
qed (use assms in simp)

lemma utf8_valid_char:
  assumes "utf8_head bs = (n, True)" and "bs \<noteq> []"
  shows "utf8_valid (take n bs @ ys) \<longleftrightarrow> utf8_valid ys"
proof -
  have "n \<le> length bs" "0 < n" using utf8_head_length [OF assms(2)] assms(1) by simp_all
  then show ?thesis
    using utf8_head_append [OF assms] assms(2) by (subst utf8_valid.simps) simp
qed

lemma utf8_replacement: "utf8_valid (replacement @ ys) \<longleftrightarrow> utf8_valid ys"
proof -
  have "utf8_head replacement = (3, True)"
    by (simp add: replacement_def utf8_width_def second_of_three_def continuation_def)
  from utf8_valid_char [OF this, of ys] show ?thesis by (simp add: replacement_def)
qed

lemma utf8_valid_lossy: "utf8_valid (utf8_lossy bs)"
proof (induction bs rule: utf8_lossy.induct)
  case (1 bs)
  show ?case
  proof (cases "bs = []")
    case False
    then have rest: "utf8_valid (utf8_lossy (drop (fst (utf8_head bs)) bs))" using 1 by simp
    then show ?thesis
      using False utf8_valid_char [of bs "fst (utf8_head bs)"]
      by (cases "snd (utf8_head bs)") (simp_all add: utf8_lossy.simps [of bs] utf8_replacement prod_eq_iff)
  qed simp
qed

lemma utf8_valid_ascii: "(\<And>b. b \<in> set bs \<Longrightarrow> b < 0x80) \<Longrightarrow> utf8_valid bs"
proof (induction bs)
  case (Cons b bs)
  then have "utf8_width b = 1" by (simp add: utf8_width_def)
  then show ?case using Cons by (subst utf8_valid.simps) simp
qed simp

end
