(* ===== verification/Boot_Handoff.thy ===== *)
theory Boot_Handoff
  imports Slices Utf8
begin

text \<open>
  Model of \<^verbatim>\<open>src/handoff.rs\<close>: the serialised boot arguments. A \<^verbatim>\<open>String\<close> is its bytes, the message of
  an error is its constructor. A sum of machine integers that does not fit is a panic of the
  checked build: \<open>HC_Panic\<close>.
\<close>

definition BOOT_ARGS_MAGIC :: u32 where "BOOT_ARGS_MAGIC = 0x4D656D41"

datatype memory_kind =
    EfiReserved | EfiLoaderCode | EfiLoaderData | EfiBootServicesCode | EfiBootServicesData
  | EfiRuntimeServicesCode | EfiRuntimeServicesData | EfiConventional | EfiUnusable | EfiACPIReclaim
  | EfiACPINVS | EfiMemoryMap | EfiPersistent

record memory_entry =
  me_base :: u64
  me_size :: u64
  me_kind :: memory_kind

record memory_map =
  mm_entries :: "memory_entry list"
  mm_total_size :: u64

record device_tree_buf =
  dtb_data :: byte_string

record boot_args =
  ba_magic :: u32
  ba_version :: u32
  ba_flags :: u64
  ba_memory_map :: memory_map
  ba_kernel_base :: u64
  ba_kernel_size :: u64
  ba_command_line :: byte_string
  ba_device_tree :: "device_tree_buf option"

datatype handoff_codec_error =
    HC_BufferTooShort nat nat
  | HC_InvalidMagic u32 u32
  | HC_TruncatedU32
  | HC_TruncatedU64
  | HC_UnknownMemoryKind u32
  | HC_CommandLineBeyondData
  | HC_DeviceTreeBeyondData
  | HC_Panic \<comment> \<open>overflow in the checked build; not a value of the source's enum\<close>

text \<open>The discriminants of \<^verbatim>\<open>MemoryKind\<close>.\<close>

fun memory_kind_code :: "memory_kind \<Rightarrow> u32" where
  "memory_kind_code EfiReserved = 0"
| "memory_kind_code EfiLoaderCode = 1"
| "memory_kind_code EfiLoaderData = 2"
| "memory_kind_code EfiBootServicesCode = 3"
| "memory_kind_code EfiBootServicesData = 4"
| "memory_kind_code EfiRuntimeServicesCode = 5"
| "memory_kind_code EfiRuntimeServicesData = 6"
| "memory_kind_code EfiConventional = 7"
| "memory_kind_code EfiUnusable = 8"
| "memory_kind_code EfiACPIReclaim = 9"
| "memory_kind_code EfiACPINVS = 10"
| "memory_kind_code EfiMemoryMap = 11"
| "memory_kind_code EfiPersistent = 12"

definition memory_kind_from_u32 :: "u32 \<Rightarrow> memory_kind option" where
  "memory_kind_from_u32 v =
     (if v = 0 then Some EfiReserved else if v = 1 then Some EfiLoaderCode
      else if v = 2 then Some EfiLoaderData else if v = 3 then Some EfiBootServicesCode
      else if v = 4 then Some EfiBootServicesData else if v = 5 then Some EfiRuntimeServicesCode
      else if v = 6 then Some EfiRuntimeServicesData else if v = 7 then Some EfiConventional
      else if v = 8 then Some EfiUnusable else if v = 9 then Some EfiACPIReclaim
      else if v = 10 then Some EfiACPINVS else if v = 11 then Some EfiMemoryMap
      else if v = 12 then Some EfiPersistent else None)"

definition HEADER_SIZE :: nat where "HEADER_SIZE = 56"

definition ho_read_u32 :: "byte_string \<Rightarrow> nat \<Rightarrow> handoff_codec_error + u32" where
  "ho_read_u32 data offset =
     (if length data < offset + 4 then Inl HC_TruncatedU32 else Inr (from_le_bytes (take 4 (drop offset data))))"

definition ho_read_u64 :: "byte_string \<Rightarrow> nat \<Rightarrow> handoff_codec_error + u64" where
  "ho_read_u64 data offset =
     (if length data < offset + 8 then Inl HC_TruncatedU64 else Inr (from_le_bytes (take 8 (drop offset data))))"

section \<open>Writing\<close>

definition entry_bytes :: "memory_entry \<Rightarrow> byte_string" where
  "entry_bytes e = to_le_bytes (me_base e) @ to_le_bytes (me_size e) @ to_le_bytes (memory_kind_code (me_kind e))"

definition serialize_boot_args :: "boot_args \<Rightarrow> handoff_codec_error + byte_string" where
  "serialize_boot_args args =
     (let memory_map_entries = concat (map entry_bytes (mm_entries (ba_memory_map args)));
          cmd_bytes = ba_command_line args;
          dt_bytes = (case ba_device_tree args of None \<Rightarrow> [] | Some dt \<Rightarrow> dtb_data dt);
          memory_map_offset = of_nat HEADER_SIZE :: u32;
          memory_map_size = of_nat (length memory_map_entries) :: u32
      in
      and_then (ok_or (checked_add memory_map_offset memory_map_size) HC_Panic) (\<lambda>command_line_offset.
      let command_line_size = of_nat (length cmd_bytes) :: u32 in
      and_then (ok_or (checked_add command_line_offset command_line_size) HC_Panic) (\<lambda>device_tree_offset.
      let device_tree_size = of_nat (length dt_bytes) :: u32 in
      Inr (to_le_bytes (ba_magic args) @ to_le_bytes (ba_version args) @ to_le_bytes (ba_flags args) @
           to_le_bytes memory_map_offset @ to_le_bytes memory_map_size @
           to_le_bytes (ba_kernel_base args) @ to_le_bytes (ba_kernel_size args) @
           to_le_bytes command_line_offset @ to_le_bytes command_line_size @
           to_le_bytes device_tree_offset @ to_le_bytes device_tree_size @
           memory_map_entries @ cmd_bytes @ dt_bytes))))"

section \<open>Reading\<close>

text \<open>The loop over the entries of the memory map, which ends at the first that is not in the data.\<close>

fun read_entries ::
  "byte_string \<Rightarrow> nat \<Rightarrow> nat list \<Rightarrow> memory_entry list \<Rightarrow> handoff_codec_error + memory_entry list" where
  "read_entries data memory_map_offset [] entries = Inr entries"
| "read_entries data memory_map_offset (i # is) entries =
     (let base_off = memory_map_offset + i * 20 in
      if length data < base_off + 20 then Inr entries
      else
      and_then (ho_read_u64 data base_off) (\<lambda>base.
      and_then (ho_read_u64 data (base_off + 8)) (\<lambda>n.
      and_then (ho_read_u32 data (base_off + 16)) (\<lambda>kind_raw.
      and_then (ok_or (memory_kind_from_u32 kind_raw) (HC_UnknownMemoryKind kind_raw)) (\<lambda>kind.
      read_entries data memory_map_offset is
        (entries @ [\<lparr> me_base = base, me_size = n, me_kind = kind \<rparr>]))))))"

definition sum_sizes :: "memory_entry list \<Rightarrow> handoff_codec_error + u64" where
  "sum_sizes entries =
     try_fold (\<lambda>total e. ok_or (checked_add total (me_size e)) HC_Panic) 0 entries"

definition deserialize_boot_args :: "byte_string \<Rightarrow> handoff_codec_error + boot_args" where
  "deserialize_boot_args data =
     (if length data < HEADER_SIZE then Inl (HC_BufferTooShort HEADER_SIZE (length data))
      else
      and_then (ho_read_u32 data 0) (\<lambda>magic.
      if magic \<noteq> BOOT_ARGS_MAGIC then Inl (HC_InvalidMagic BOOT_ARGS_MAGIC magic)
      else
      and_then (ho_read_u32 data 4) (\<lambda>version.
      and_then (ho_read_u64 data 8) (\<lambda>flags.
      and_then (ho_read_u32 data 16) (\<lambda>memory_map_offset.
      and_then (ho_read_u32 data 20) (\<lambda>memory_map_size.
      and_then (ho_read_u64 data 24) (\<lambda>kernel_base.
      and_then (ho_read_u64 data 32) (\<lambda>kernel_size.
      and_then (ho_read_u32 data 40) (\<lambda>command_line_offset.
      and_then (ho_read_u32 data 44) (\<lambda>command_line_size.
      and_then (ho_read_u32 data 48) (\<lambda>device_tree_offset.
      and_then (ho_read_u32 data 52) (\<lambda>device_tree_size.
      and_then (read_entries data (unat memory_map_offset) [0 ..< unat memory_map_size div 20] []) (\<lambda>entries.
      and_then (sum_sizes entries) (\<lambda>total_size.
      let command_line_end = unat command_line_offset + unat command_line_size in
      if length data < command_line_end then Inl HC_CommandLineBeyondData
      else
      and_then (ok_or (get_range data (unat command_line_offset) command_line_end) HC_Panic) (\<lambda>text.
      let command_line = utf8_lossy text in
      and_then
        (if 0 < unat device_tree_size then
           let dt_end = unat device_tree_offset + unat device_tree_size in
           if length data < dt_end then Inl HC_DeviceTreeBeyondData
           else and_then (ok_or (get_range data (unat device_tree_offset) dt_end) HC_Panic)
             (\<lambda>tree. Inr (Some \<lparr> dtb_data = tree \<rparr>))
         else Inr None) (\<lambda>device_tree.
      Inr \<lparr> ba_magic = magic, ba_version = version, ba_flags = flags,
             ba_memory_map = \<lparr> mm_entries = entries, mm_total_size = total_size \<rparr>,
             ba_kernel_base = kernel_base, ba_kernel_size = kernel_size,
             ba_command_line = command_line, ba_device_tree = device_tree \<rparr>))))))))))))))))"

end
