(* ===== verification/Boot_Handoff_Proofs.thy ===== *)
theory Boot_Handoff_Proofs
  imports Boot_Handoff
begin

text \<open>
  The serialised boot arguments of \<^verbatim>\<open>src/handoff.rs\<close>: they read back as they were written, and the
  only panic of the reader is a memory map whose sizes do not add up in 64 bits.
\<close>

section \<open>Entries\<close>

lemma memory_kind_roundtrip: "memory_kind_from_u32 (memory_kind_code kind) = Some kind"
  by (cases kind) (simp_all add: memory_kind_from_u32_def)

lemma memory_kind_from_u32_Some: "memory_kind_from_u32 v = Some kind \<Longrightarrow> memory_kind_code kind = v"
  by (auto simp: memory_kind_from_u32_def split: if_splits)

lemma length_entry_bytes [simp]: "length (entry_bytes e) = 20"
  by (simp add: entry_bytes_def)

lemma length_entries [simp]: "length (concat (map entry_bytes es)) = 20 * length es"
  by (induction es) simp_all

lemma ho_read_drop:
  assumes "drop p data = to_le_bytes (w :: u64) @ rest"
  shows "ho_read_u64 data p = Inr w"
proof -
  have "length data - p = 8 + length rest" using arg_cong [OF assms, of length] by simp
  then show ?thesis using assms by (simp add: ho_read_u64_def)
qed

lemma ho_read32_drop:
  assumes "drop p data = to_le_bytes (w :: u32) @ rest"
  shows "ho_read_u32 data p = Inr w"
proof -
  have "length data - p = 4 + length rest" using arg_cong [OF assms, of length] by simp
  then show ?thesis using assms by (simp add: ho_read_u32_def)
qed

lemma drop_further: "drop p data = xs @ ys \<Longrightarrow> drop (p + length xs) data = ys"
  by (metis add.commute append_eq_conv_conj drop_drop)

lemma read_entries_written:
  assumes "drop (off + k * 20) data = concat (map entry_bytes es) @ rest"
  shows "read_entries data off [k ..< k + length es] acc = Inr (acc @ es)"
  using assms
proof (induction es arbitrary: k acc)
  case (Cons e es)
  let ?p = "off + k * 20"
  have d0: "drop ?p data = to_le_bytes (me_base e) @ to_le_bytes (me_size e) @
      to_le_bytes (memory_kind_code (me_kind e)) @ concat (map entry_bytes es) @ rest"
    using Cons.prems by (simp add: entry_bytes_def [of e])
  have d8: "drop (?p + 8) data = to_le_bytes (me_size e) @
      to_le_bytes (memory_kind_code (me_kind e)) @ concat (map entry_bytes es) @ rest"
    using drop_further [OF d0] by simp
  have d16: "drop (?p + 16) data = to_le_bytes (memory_kind_code (me_kind e)) @ concat (map entry_bytes es) @ rest"
    using drop_further [OF d8] by (simp add: add.assoc)
  have d20: "drop (off + Suc k * 20) data = concat (map entry_bytes es) @ rest"
    using drop_further [OF d16] by (simp add: algebra_simps)
  have inside: "\<not> length data < ?p + 20" using arg_cong [OF d0, of length] by simp
  have entry: "\<lparr> me_base = me_base e, me_size = me_size e, me_kind = me_kind e \<rparr> = e" by simp
  have "[k ..< k + length (e # es)] = k # [Suc k ..< Suc k + length es]"
    using upt_conv_Cons [of k "k + Suc (length es)"] by simp
  then show ?case
    using Cons.IH [OF d20, of "acc @ [e]"] inside
    by (simp only: read_entries.simps Let_def if_False ho_read_drop [OF d0] ho_read_drop [OF d8] ho_read32_drop [OF d16]
        memory_kind_roundtrip ok_or_simps and_then_simps entry append_assoc append.simps)
qed simp

definition sizes :: "memory_entry list \<Rightarrow> nat" where
  "sizes es = sum_list (map (\<lambda>e. unat (me_size e)) es)"

lemma sum_sizes_from:
  "try_fold (\<lambda>total e. ok_or (checked_add total (me_size e)) HC_Panic) acc es =
   (if unat acc + sizes es < 2 ^ 64 then Inr (of_nat (unat acc + sizes es)) else Inl HC_Panic)"
proof (induction es arbitrary: acc)
  case Nil
  then show ?case using unat_u64_bound [of acc] by (simp add: sizes_def)
next
  case (Cons e es)
  show ?case
  proof (cases "checked_add acc (me_size e)")
    case None
    then have "2 ^ 64 \<le> unat acc + unat (me_size e)" by (simp add: checked_add_None)
    then show ?thesis by (simp add: None sizes_def)
  next
    case (Some t)
    then show ?thesis using Cons.IH [of t] unfolding checked_add_Some by (simp add: sizes_def Some add.assoc [symmetric])
  qed
qed

lemma sum_sizes_eq:
  "sum_sizes es = (if sizes es < 2 ^ 64 then Inr (of_nat (sizes es)) else Inl HC_Panic)"
  unfolding sum_sizes_def sum_sizes_from by simp

lemma sum_sizes_unat:
  assumes "sum_sizes es = Inr w"
  shows "unat w = sizes es"
proof -
  have "sizes es < 2 ^ 64" and w: "w = of_nat (sizes es)" using assms by (auto simp: sum_sizes_eq split: if_splits)
  then show ?thesis by (simp add: w unat_of_nat)
qed

section \<open>Round trip\<close>

definition tree_bytes :: "boot_args \<Rightarrow> byte_string" where
  "tree_bytes args = (case ba_device_tree args of None \<Rightarrow> [] | Some dt \<Rightarrow> dtb_data dt)"

lemma written_reads_back:
  assumes "ba_magic args = BOOT_ARGS_MAGIC" and "utf8_valid (ba_command_line args)"
    and "ba_device_tree args \<noteq> Some \<lparr> dtb_data = [] \<rparr>"
    and "56 + 20 * length (mm_entries (ba_memory_map args)) + length (ba_command_line args) +
      length (tree_bytes args) < 2 ^ 32"
    and "sizes (mm_entries (ba_memory_map args)) < 2 ^ 64"
  shows "\<exists>bytes. serialize_boot_args args = Inr bytes \<and>
    deserialize_boot_args bytes = Inr (args\<lparr> ba_memory_map := \<lparr> mm_entries = mm_entries (ba_memory_map args),
      mm_total_size = of_nat (sizes (mm_entries (ba_memory_map args))) \<rparr> \<rparr>)"
proof -
  let ?es = "mm_entries (ba_memory_map args)" and ?cmd = "ba_command_line args" and ?dt = "tree_bytes args"
  define n where "n = 20 * length ?es"
  define c where "c = length ?cmd"
  define t where "t = length ?dt"
  have fits: "56 + n + c + t < 2 ^ 32" using assms(4) by (simp add: n_def c_def t_def)
  have nat32: "unat (of_nat k :: u32) = k" if "k < 2 ^ 32" for k using that by (simp add: unat_of_nat)
  have nums: "unat (of_nat n :: u32) = n" "unat (of_nat (56 + n) :: u32) = 56 + n" "unat (of_nat c :: u32) = c"
    "unat (of_nat (56 + n + c) :: u32) = 56 + n + c" "unat (of_nat t :: u32) = t"
    by (rule nat32; use fits in linarith)+
  have sums: "checked_add (of_nat HEADER_SIZE :: u32) (of_nat n) = Some (of_nat (56 + n))"
    "checked_add (of_nat (56 + n) :: u32) (of_nat c) = Some (of_nat (56 + n + c))"
    using fits by (simp_all add: checked_add_Some nat32 HEADER_SIZE_def del: of_nat_add)
  define bytes where "bytes =
    to_le_bytes (ba_magic args) @ to_le_bytes (ba_version args) @ to_le_bytes (ba_flags args) @
    to_le_bytes (of_nat HEADER_SIZE :: u32) @ to_le_bytes (of_nat n :: u32) @
    to_le_bytes (ba_kernel_base args) @ to_le_bytes (ba_kernel_size args) @
    to_le_bytes (of_nat (56 + n) :: u32) @ to_le_bytes (of_nat c :: u32) @
    to_le_bytes (of_nat (56 + n + c) :: u32) @ to_le_bytes (of_nat t :: u32) @
    concat (map entry_bytes ?es) @ ?cmd @ ?dt"
  have written: "serialize_boot_args args = Inr bytes"
    unfolding serialize_boot_args_def Let_def length_entries tree_bytes_def [symmetric] n_def [symmetric] c_def [symmetric]
      t_def [symmetric] sums ok_or_simps and_then_simps bytes_def ..
  have len: "length bytes = 56 + n + c + t" by (simp add: bytes_def n_def c_def t_def)
  have fields: "ho_read_u32 bytes 0 = Inr (ba_magic args)" "ho_read_u32 bytes 4 = Inr (ba_version args)"
    "ho_read_u64 bytes 8 = Inr (ba_flags args)" "ho_read_u32 bytes 16 = Inr (of_nat HEADER_SIZE)"
    "ho_read_u32 bytes 20 = Inr (of_nat n)" "ho_read_u64 bytes 24 = Inr (ba_kernel_base args)"
    "ho_read_u64 bytes 32 = Inr (ba_kernel_size args)" "ho_read_u32 bytes 40 = Inr (of_nat (56 + n))"
    "ho_read_u32 bytes 44 = Inr (of_nat c)" "ho_read_u32 bytes 48 = Inr (of_nat (56 + n + c))"
    "ho_read_u32 bytes 52 = Inr (of_nat t)"
    by (rule ho_read_drop ho_read32_drop; simp add: bytes_def)+
  have "drop (56 + 0 * 20) bytes = concat (map entry_bytes ?es) @ (?cmd @ ?dt)" by (simp add: bytes_def)
  from read_entries_written [OF this, of "[]"] have entries: "read_entries bytes 56 [0 ..< n div 20] [] = Inr ?es"
    by (simp add: n_def)
  have line: "get_range bytes (56 + n) (56 + n + c) = Some ?cmd"
    by (simp add: get_range_def len) (simp add: bytes_def n_def c_def)
  have tree: "get_range bytes (56 + n + c) (56 + n + c + t) = Some ?dt"
    by (simp add: get_range_def len) (simp add: bytes_def n_def c_def t_def)
  have device: "(if 0 < t then Some \<lparr> dtb_data = ?dt \<rparr> else None) = ba_device_tree args"
    using assms(3) by (auto simp: t_def tree_bytes_def split: option.splits)
  have "deserialize_boot_args bytes = Inr (args\<lparr> ba_memory_map := \<lparr> mm_entries = ?es,
      mm_total_size = of_nat (sizes ?es) \<rparr> \<rparr>)"
    using device assms(1) assms(5) [simplified]
    by (simp add: deserialize_boot_args_def len HEADER_SIZE_def fields [unfolded HEADER_SIZE_def] nums entries
        sum_sizes_eq assms(5) line tree utf8_lossy_valid [OF assms(2)] Let_def del: of_nat_add split: if_splits)
  then show ?thesis using written by blast
qed

text \<open>
  Arguments that are serialised read back unchanged, but for the total size, which becomes the
  sum of the sizes of the entries: for a command line that is a string, a device tree that is not
  empty where there is one, and a block below four gigabytes.
\<close>

theorem handoff_roundtrip:
  assumes "ba_magic args = BOOT_ARGS_MAGIC" and "utf8_valid (ba_command_line args)"
    and "ba_device_tree args \<noteq> Some \<lparr> dtb_data = [] \<rparr>"
    and "56 + 20 * length (mm_entries (ba_memory_map args)) + length (ba_command_line args) +
      length (tree_bytes args) < 2 ^ 32"
    and "sizes (mm_entries (ba_memory_map args)) < 2 ^ 64"
  shows "\<exists>bytes. serialize_boot_args args = Inr bytes \<and>
    deserialize_boot_args bytes = Inr (args\<lparr> ba_memory_map := \<lparr> mm_entries = mm_entries (ba_memory_map args),
      mm_total_size = of_nat (sizes (mm_entries (ba_memory_map args))) \<rparr> \<rparr>)"
  using assms by (rule written_reads_back)

section \<open>Panics\<close>

lemma ho_read_no_panic: "ho_read_u32 data p \<noteq> Inl HC_Panic" "ho_read_u64 data p \<noteq> Inl HC_Panic"
  by (simp_all add: ho_read_u32_def ho_read_u64_def)

lemma read_entries_no_panic: "read_entries data off is acc \<noteq> Inl HC_Panic"
  by (induction "is" arbitrary: acc) (auto simp: Let_def result_iff ho_read_no_panic)

lemma read_entries_length:
  assumes "read_entries data off [k ..< m] acc = Inr es" and "k = length acc" and "20 * k \<le> length data"
  shows "20 * length es \<le> length data"
  using assms
proof (induction "m - k" arbitrary: k acc)
  case (Suc d)
  then have "[k ..< m] = k # [Suc k ..< m]" by (intro upt_conv_Cons) simp
  then consider "es = acc" | e where "length data \<ge> off + k * 20 + 20" "read_entries data off [Suc k ..< m] (acc @ [e]) = Inr es"
    using Suc.prems(1) by (auto simp: Let_def result_iff not_less split: if_splits)
  then show ?case
  proof cases
    case 2
    have "d = m - Suc k" "Suc k = length (acc @ [e])" "20 * Suc k \<le> length data" using Suc 2(1) by simp_all
    from Suc.hyps(1) [OF this(1) 2(2) this(2,3)] show ?thesis .
  qed (use Suc.prems in simp)
qed simp

lemma get_range_part: "get_range data a b = Some ys \<Longrightarrow> \<exists>xs zs. data = xs @ ys @ zs"
  by (metis append_take_drop_id get_range_Some)

text \<open>
  C27. On any bytes the reader returns arguments or an error, and its only panic is the total of a
  memory map whose sizes do not add up in 64 bits. What it returns is in the bytes: the command
  line is well formed, the device tree is a part of the input.
\<close>

theorem handoff_reader_safe:
  "(deserialize_boot_args data = Inl HC_Panic \<longrightarrow>
      (\<exists>entries. read_entries data (unat (from_le_bytes (take 4 (drop 16 data)) :: u32))
         [0 ..< unat (from_le_bytes (take 4 (drop 20 data)) :: u32) div 20] [] = Inr entries \<and>
         2 ^ 64 \<le> sizes entries)) \<and>
   (\<forall>args. deserialize_boot_args data = Inr args \<longrightarrow>
      utf8_valid (ba_command_line args) \<and>
      unat (mm_total_size (ba_memory_map args)) = sizes (mm_entries (ba_memory_map args)) \<and>
      20 * length (mm_entries (ba_memory_map args)) \<le> length data \<and>
      (\<forall>dt. ba_device_tree args = Some dt \<longrightarrow> dtb_data dt \<noteq> [] \<and> (\<exists>xs ys. data = xs @ dtb_data dt @ ys)))"
proof (intro conjI impI allI)
  let ?off = "unat (from_le_bytes (take 4 (drop 16 data)) :: u32)" and ?n = "unat (from_le_bytes (take 4 (drop 20 data)) :: u32)"
  {
    assume "deserialize_boot_args data = Inl HC_Panic"
    then have "\<exists>entries. read_entries data ?off [0 ..< ?n div 20] [] = Inr entries \<and> sum_sizes entries = Inl HC_Panic"
      unfolding deserialize_boot_args_def Let_def
      by (auto simp: result_iff ho_read_no_panic read_entries_no_panic get_range_def
          ho_read_u32_def [of data 16] ho_read_u32_def [of data 20] split: if_splits)
    then show "\<exists>entries. read_entries data ?off [0 ..< ?n div 20] [] = Inr entries \<and> 2 ^ 64 \<le> sizes entries"
      by (auto simp: sum_sizes_eq split: if_splits)
  }
  fix args assume ok: "deserialize_boot_args data = Inr args"
  have entries: "\<exists>off n. read_entries data off [0 ..< n div 20] [] = Inr (mm_entries (ba_memory_map args)) \<and>
      sum_sizes (mm_entries (ba_memory_map args)) = Inr (mm_total_size (ba_memory_map args))"
    using ok unfolding deserialize_boot_args_def Let_def
    by (auto simp: and_then_Inr ok_or_Inr if_Inl_Inr split: if_splits; blast)
  have line: "\<exists>line. ba_command_line args = utf8_lossy line"
    using ok unfolding deserialize_boot_args_def Let_def
    by (auto simp: and_then_Inr ok_or_Inr if_Inl_Inr split: if_splits)
  have tree: "ba_device_tree args = None \<or> (\<exists>a b tree. get_range data a (a + b) = Some tree \<and> 0 < b \<and>
      ba_device_tree args = Some \<lparr> dtb_data = tree \<rparr>)"
    using ok unfolding deserialize_boot_args_def Let_def
    by (auto simp: and_then_Inr ok_or_Inr if_Inl_Inr split: if_splits) (metis less_irrefl)
  show "utf8_valid (ba_command_line args)" using line utf8_valid_lossy by metis
  show "unat (mm_total_size (ba_memory_map args)) = sizes (mm_entries (ba_memory_map args))"
    using entries sum_sizes_unat by blast
  show "20 * length (mm_entries (ba_memory_map args)) \<le> length data"
    using entries by (auto dest: read_entries_length)
  fix dt assume "ba_device_tree args = Some dt"
  then obtain a b where "0 < b" "get_range data a (a + b) = Some (dtb_data dt)" using tree by auto
  then show "dtb_data dt \<noteq> []" and "\<exists>xs ys. data = xs @ dtb_data dt @ ys"
    using get_range_length [of data a "a + b"] get_range_part by auto
qed

section \<open>Examples\<close>

definition sample_handoff :: boot_args where
  "sample_handoff = \<lparr> ba_magic = BOOT_ARGS_MAGIC, ba_version = 12, ba_flags = 0x100,
     ba_memory_map = \<lparr> mm_entries = [\<lparr> me_base = 0x1000, me_size = 0x9000, me_kind = EfiConventional \<rparr>,
        \<lparr> me_base = 0x10000000, me_size = 0x200000, me_kind = EfiRuntimeServicesData \<rparr>], mm_total_size = 0x209000 \<rparr>,
     ba_kernel_base = 0xffffff8000200000, ba_kernel_size = 0x1000000, ba_command_line = [0x2d, 0x76],
     ba_device_tree = Some \<lparr> dtb_data = [0xde, 0xad] \<rparr> \<rparr>"

lemma handoff_roundtrip_witness:
  "\<exists>bytes. serialize_boot_args sample_handoff = Inr bytes \<and> deserialize_boot_args bytes = Inr sample_handoff"
proof -
  have valid: "utf8_valid [0x2d, 0x76]" by (rule utf8_valid_ascii) auto
  have s: "sizes (mm_entries (ba_memory_map sample_handoff)) = 0x209000"
    by (simp add: sizes_def sample_handoff_def)
  have "\<exists>bytes. serialize_boot_args sample_handoff = Inr bytes \<and>
    deserialize_boot_args bytes = Inr (sample_handoff\<lparr> ba_memory_map := \<lparr> mm_entries = mm_entries (ba_memory_map sample_handoff),
      mm_total_size = of_nat (sizes (mm_entries (ba_memory_map sample_handoff))) \<rparr> \<rparr>)"
    by (rule handoff_roundtrip) (use valid s in \<open>simp_all add: sample_handoff_def tree_bytes_def\<close>)
  then show ?thesis unfolding s by (simp add: sample_handoff_def)
qed

lemma handoff_reader_safe_witness:
  "\<exists>bytes args. deserialize_boot_args bytes = Inr args \<and> utf8_valid (ba_command_line args) \<and>
     unat (mm_total_size (ba_memory_map args)) = sizes (mm_entries (ba_memory_map args))"
proof -
  have valid: "utf8_valid [0x2d, 0x76]" by (rule utf8_valid_ascii) auto
  have "\<exists>bytes args. deserialize_boot_args bytes = Inr args"
    using written_reads_back [of sample_handoff] valid
    by (fastforce simp: sample_handoff_def tree_bytes_def sizes_def)
  then show ?thesis using handoff_reader_safe by blast
qed

text \<open>Two sizes of half the range make the reader overflow.\<close>

lemma sizes_overflow:
  "sum_sizes [\<lparr> me_base = 0, me_size = 0x8000000000000000, me_kind = EfiConventional \<rparr>,
     \<lparr> me_base = 0, me_size = 0x8000000000000000, me_kind = EfiConventional \<rparr>] = Inl HC_Panic"
  by (simp add: sum_sizes_eq sizes_def)

end
