(* ===== verification/Device_Props.thy ===== *)
theory Device_Props
  imports Slices Utf8
begin

text \<open>
  Model of \<^verbatim>\<open>src/device_props.rs\<close>. A \<^verbatim>\<open>HashMap\<close> that is iterated over is the list of its entries in
  the order of the iteration, which the standard library leaves open: the definitions take any
  such list. A \<^verbatim>\<open>HashMap\<close> that is built is a map, and \<^verbatim>\<open>insert\<close> updates it.
\<close>

datatype device_prop_value =
    DP_Data byte_string
  | DP_Integer u64 \<comment> \<open>the bits of an \<^verbatim>\<open>i64\<close>\<close>
  | DP_String byte_string
  | DP_Bool bool

record property_data =
  pd_bytes :: byte_string

record device_property_entry =
  dpe_path :: byte_string
  dpe_properties :: "byte_string \<rightharpoonup> property_data"

datatype device_props_error =
    DP_TooShort
  | DP_TruncatedKeyLength
  | DP_TruncatedKeyData
  | DP_TruncatedValueLength
  | DP_TruncatedValueData

definition from_config_value :: "device_prop_value \<Rightarrow> property_data" where
  "from_config_value val =
     (case val of
        DP_Data bytes \<Rightarrow> \<lparr> pd_bytes = bytes \<rparr>
      | DP_Integer v \<Rightarrow> \<lparr> pd_bytes = to_le_bytes v \<rparr>
      | DP_String s \<Rightarrow> \<lparr> pd_bytes = s \<rparr>
      | DP_Bool b \<Rightarrow> \<lparr> pd_bytes = [if b then 1 else 0] \<rparr>)"

definition insert_properties ::
  "(byte_string \<times> device_prop_value) list \<Rightarrow> (byte_string \<rightharpoonup> property_data) \<Rightarrow> byte_string \<rightharpoonup> property_data" where
  "insert_properties props properties =
     foldl (\<lambda>properties (key, val). properties(key \<mapsto> from_config_value val)) properties props"

definition apply_properties ::
  "(byte_string \<times> (byte_string \<times> device_prop_value) list) list \<Rightarrow> device_property_entry list" where
  "apply_properties add =
     map (\<lambda>(path_str, props). \<lparr> dpe_path = path_str, dpe_properties = insert_properties props Map.empty \<rparr>) add"

definition encode_property :: "byte_string \<times> property_data \<Rightarrow> byte_string" where
  "encode_property = (\<lambda>(key, data).
     to_le_bytes (of_nat (length key) :: u32) @ key @
     to_le_bytes (of_nat (length (pd_bytes data)) :: u32) @ pd_bytes data)"

definition encode_properties :: "(byte_string \<times> property_data) list \<Rightarrow> byte_string" where
  "encode_properties entries =
     to_le_bytes (of_nat (length entries) :: u32) @ concat (map encode_property entries)"

definition dp_u32 :: "byte_string \<Rightarrow> nat \<Rightarrow> nat" where
  "dp_u32 data pos = unat (from_le_bytes (take 4 (drop pos data)) :: u32)"

text \<open>One round of the loop: the position behind the entry, and the map with it.\<close>

definition decode_entry ::
  "byte_string \<Rightarrow> nat \<Rightarrow> (byte_string \<rightharpoonup> property_data) \<Rightarrow>
   device_props_error + nat \<times> (byte_string \<rightharpoonup> property_data)" where
  "decode_entry data pos props =
     (if length data < pos + 4 then Inl DP_TruncatedKeyLength
      else
      let key_len = dp_u32 data pos; pos = pos + 4 in
      if length data < pos + key_len then Inl DP_TruncatedKeyData
      else
      let key = utf8_lossy (take key_len (drop pos data)); pos = pos + key_len in
      if length data < pos + 4 then Inl DP_TruncatedValueLength
      else
      let val_len = dp_u32 data pos; pos = pos + 4 in
      if length data < pos + val_len then Inl DP_TruncatedValueData
      else
      let bytes = take val_len (drop pos data); pos = pos + val_len in
      Inr (pos, props(key \<mapsto> \<lparr> pd_bytes = bytes \<rparr>)))"

fun decode_entries ::
  "nat \<Rightarrow> byte_string \<Rightarrow> nat \<Rightarrow> (byte_string \<rightharpoonup> property_data) \<Rightarrow>
   device_props_error + (byte_string \<rightharpoonup> property_data)" where
  "decode_entries 0 data pos props = Inr props"
| "decode_entries (Suc k) data pos props =
     and_then (decode_entry data pos props) (\<lambda>(pos, props). decode_entries k data pos props)"

definition decode_properties :: "byte_string \<Rightarrow> device_props_error + (byte_string \<rightharpoonup> property_data)" where
  "decode_properties data =
     (if length data < 4 then Inl DP_TooShort
      else decode_entries (dp_u32 data 0) data 4 Map.empty)"

section \<open>Round trip\<close>

lemma encode_property_pair:
  "encode_property (key, data) = to_le_bytes (of_nat (length key) :: u32) @ key @
     to_le_bytes (of_nat (length (pd_bytes data)) :: u32) @ pd_bytes data"
  by (simp add: encode_property_def)

definition entry_fits :: "byte_string \<times> property_data \<Rightarrow> bool" where
  "entry_fits e \<longleftrightarrow> utf8_valid (fst e) \<and> length (fst e) < 2 ^ 32 \<and> length (pd_bytes (snd e)) < 2 ^ 32"

lemma dp_u32_at:
  assumes "drop pos data = to_le_bytes (of_nat n :: u32) @ rest" and "n < 2 ^ 32"
  shows "dp_u32 data pos = n" and "pos + 4 \<le> length data"
proof -
  show "dp_u32 data pos = n" using assms by (simp add: dp_u32_def unat_of_nat)
  have "length data - pos = 4 + length rest" using arg_cong [OF assms(1), of length] by simp
  then show "pos + 4 \<le> length data" by simp
qed

lemma drop_behind: "drop pos data = xs @ ys \<Longrightarrow> drop (pos + length xs) data = ys"
  by (metis add.commute append_eq_conv_conj drop_drop)

lemma take_of_drop: "drop pos data = xs @ ys \<Longrightarrow> take (length xs) (drop pos data) = xs"
  by simp

lemma decode_entries_encoded:
  assumes "drop pos data = concat (map encode_property entries) @ rest" and "\<forall>e \<in> set entries. entry_fits e"
  shows "decode_entries (length entries) data pos props =
    Inr (foldl (\<lambda>m e. m(fst e \<mapsto> snd e)) props entries)"
  using assms
proof (induction entries arbitrary: pos props)
  case (Cons e entries)
  obtain key d where e: "e = (key, d)" by (cases e)
  have fits: "utf8_valid key" "length key < 2 ^ 32" "length (pd_bytes d) < 2 ^ 32"
    using Cons.prems(2) by (simp_all add: e entry_fits_def)
  let ?n = "length key" and ?m = "length (pd_bytes d)" and ?tail = "concat (map encode_property entries) @ rest"
  have d0: "drop pos data = to_le_bytes (of_nat ?n :: u32) @ key @ to_le_bytes (of_nat ?m :: u32) @ pd_bytes d @ ?tail"
    using Cons.prems(1) by (simp add: e encode_property_pair)
  have d1: "drop (pos + 4) data = key @ to_le_bytes (of_nat ?m :: u32) @ pd_bytes d @ ?tail"
    using drop_behind [OF d0] by simp
  have d2: "drop (pos + 4 + ?n) data = to_le_bytes (of_nat ?m :: u32) @ pd_bytes d @ ?tail"
    using drop_behind [OF d1] by simp
  have d3: "drop (pos + 4 + ?n + 4) data = pd_bytes d @ ?tail"
    using drop_behind [OF d2] by simp
  have d4: "drop (pos + 4 + ?n + 4 + ?m) data = ?tail"
    using drop_behind [OF d3] by simp
  have inside: "pos + 4 + ?n \<le> length data" "pos + 4 + ?n + 4 + ?m \<le> length data"
    using dp_u32_at(2) [OF d2 fits(3)] arg_cong [OF d3, of length] by simp_all
  note w0 = dp_u32_at [OF d0 fits(2)] and w2 = dp_u32_at [OF d2 fits(3)]
  have outside: "\<not> length data < pos + 4" "\<not> length data < pos + 4 + ?n" "\<not> length data < pos + 4 + ?n + 4"
    "\<not> length data < pos + 4 + ?n + 4 + ?m"
    using inside w0(2) w2(2) by simp_all
  have "decode_entry data pos props = Inr (pos + 4 + ?n + 4 + ?m, props(key \<mapsto> d))"
    unfolding decode_entry_def Let_def w0(1) if_not_P [OF outside(1)] if_not_P [OF outside(2)] if_not_P [OF outside(3)]
      w2(1) if_not_P [OF outside(4)] take_of_drop [OF d1] take_of_drop [OF d3] utf8_lossy_valid [OF fits(1)]
    by (cases d) simp
  then have step: "decode_entries (length (e # entries)) data pos props =
    decode_entries (length entries) data (pos + 4 + ?n + 4 + ?m) (props(key \<mapsto> d))"
    by simp
  have rest: "\<forall>e \<in> set entries. entry_fits e" using Cons.prems(2) by simp
  show ?case
    unfolding step Cons.IH [OF d4 rest] unfolding e foldl.simps fst_conv snd_conv ..
qed simp

text \<open>
  C28. Properties that are encoded decode to the same map, in whatever order the iteration gives
  the entries: for keys that are strings, and lengths and a number of entries that fit 32 bits.
\<close>

theorem device_props_roundtrip:
  assumes "distinct (map fst entries)" and "\<forall>e \<in> set entries. entry_fits e" and "length entries < 2 ^ 32"
  shows "decode_properties (encode_properties entries) = Inr (map_of entries)"
proof -
  let ?data = "encode_properties entries"
  have d0: "drop 0 ?data = to_le_bytes (of_nat (length entries) :: u32) @ concat (map encode_property entries)"
    by (simp add: encode_properties_def)
  have d4: "drop 4 ?data = concat (map encode_property entries) @ []"
    by (simp add: encode_properties_def)
  have collected: "foldl (\<lambda>m e. m(fst e \<mapsto> snd e)) props es = props ++ map_of es"
    if "distinct (map fst es)" for props and es :: "(byte_string \<times> property_data) list"
    using that
  proof (induction es arbitrary: props)
    case (Cons e es)
    obtain key d where e: "e = (key, d)" by (cases e)
    have "key \<notin> dom (map_of es)" using Cons.prems by (simp add: e dom_map_of_conv_image_fst)
    then have "props(key \<mapsto> d) ++ map_of es = props ++ (map_of es)(key \<mapsto> d)"
      by (auto simp: map_add_def dom_def fun_eq_iff split: option.splits)
    moreover have "distinct (map fst es)" using Cons.prems by simp
    ultimately show ?case unfolding e using Cons.IH [of "props(key \<mapsto> d)"] by (simp only: foldl.simps map_of.simps fst_conv snd_conv)
  qed simp
  show ?thesis
    using dp_u32_at [OF d0 assms(3)] decode_entries_encoded [OF d4 assms(2)] collected [OF assms(1)]
    by (simp add: decode_properties_def)
qed

lemma device_props_roundtrip_witness:
  "decode_properties (encode_properties [([0x61], \<lparr> pd_bytes = [1] \<rparr>), ([0x62], \<lparr> pd_bytes = [] \<rparr>)]) =
    Inr [[0x61] \<mapsto> \<lparr> pd_bytes = [1] \<rparr>, [0x62] \<mapsto> \<lparr> pd_bytes = [] \<rparr>]"
proof -
  have "utf8_valid [0x61]" "utf8_valid [0x62]" by (rule utf8_valid_ascii; auto)+
  then show ?thesis
    using device_props_roundtrip [of "[([0x61], \<lparr> pd_bytes = [1] \<rparr>), ([0x62], \<lparr> pd_bytes = [] \<rparr>)]"]
    by (simp add: entry_fits_def fun_upd_twist)
qed

end
