(* ===== verification/Acpi.thy ===== *)
theory Acpi
  imports Slices
begin

text \<open>
  Model of \<^verbatim>\<open>src/acpi.rs\<close>: the search for the root pointer, the root table, and the search of a
  table by signature. An unchecked \<^verbatim>\<open>usize\<close> sum or difference that does not fit is a panic of the
  checked build: \<open>AC_Panic\<close>; in the other build the lengths it leads to panic at the allocation.
\<close>

section \<open>Data\<close>

definition RSDP_SIGNATURE :: byte_string where
  "RSDP_SIGNATURE = [0x52, 0x53, 0x44, 0x20, 0x50, 0x54, 0x52, 0x20]"

definition XSDT_SIGNATURE :: byte_string where "XSDT_SIGNATURE = [0x58, 0x53, 0x44, 0x54]"
definition RSDT_SIGNATURE :: byte_string where "RSDT_SIGNATURE = [0x52, 0x53, 0x44, 0x54]"
definition RSDP_LENGTH :: nat where "RSDP_LENGTH = 36"
definition XSDT_HEADER_SIZE :: nat where "XSDT_HEADER_SIZE = 36"

record acpi_table_header =
  th_length :: u32
  th_revision :: u8
  th_checksum :: u8
  th_oem_id :: byte_string
  th_oem_table_id :: byte_string

record rsdp =
  rp_signature :: byte_string
  rp_checksum :: u8
  rp_rsdt_address :: u32
  rp_length :: u32
  rp_xsdt_address :: u64
  rp_extended_checksum :: u8

record xsdt =
  xs_header :: acpi_table_header
  xs_table_addresses :: "u64 list"

record acpi_tables =
  at_data :: byte_string
  at_xsdt :: xsdt

datatype acpi_error =
    AC_NotFoundTooShort
  | AC_NotFoundRsdp
  | AC_XsdtBeyondData
  | AC_RsdtBeyondData
  | AC_XsdtAddressUnreadable
  | AC_XsdtHeaderTruncated
  | AC_XsdtSignatureMismatch
  | AC_XsdtEntryUnreadable
  | AC_RsdtHeaderTruncated
  | AC_RsdtSignatureMismatch
  | AC_RsdtEntryUnreadable
  | AC_HeaderBeyondData
  | AC_Panic \<comment> \<open>overflow in the checked build; not a value of the source's enum\<close>

section \<open>Reading\<close>

definition checksum :: "byte_string \<Rightarrow> u8" where
  "checksum data = foldl (\<lambda>acc b. acc + b) 0 data"

text \<open>\<^verbatim>\<open>a + b\<close> on \<^verbatim>\<open>usize\<close>.\<close>

definition plus_usize :: "nat \<Rightarrow> nat \<Rightarrow> acpi_error + nat" where
  "plus_usize a b = ok_or (usize_add a b) AC_Panic"

definition ac_read_u32 :: "byte_string \<Rightarrow> nat \<Rightarrow> u32 option" where
  "ac_read_u32 data offset =
     (if length data < offset + 4 then None else Some (from_le_bytes (take 4 (drop offset data))))"

definition ac_read_u64 :: "byte_string \<Rightarrow> nat \<Rightarrow> u64 option" where
  "ac_read_u64 data offset =
     (if length data < offset + 8 then None else Some (from_le_bytes (take 8 (drop offset data))))"

definition unwrap_or :: "'a option \<Rightarrow> 'a \<Rightarrow> 'a" where
  "unwrap_or opt d = (case opt of None \<Rightarrow> d | Some a \<Rightarrow> a)"

section \<open>The root pointer\<close>

definition rsdp_at :: "byte_string \<Rightarrow> nat \<Rightarrow> acpi_error + rsdp option" where
  "rsdp_at data i =
     and_then (ok_or (get_range data i (i + 8)) AC_Panic) (\<lambda>signature.
     if signature \<noteq> RSDP_SIGNATURE then Inr None
     else
     and_then (ok_or (get_range data i (i + 20)) AC_Panic) (\<lambda>first_part.
     let rsdp_checksum = checksum first_part in
     if rsdp_checksum \<noteq> 0 then Inr None
     else
     and_then (ok_or (ac_read_u64 data (i + 24)) AC_XsdtAddressUnreadable) (\<lambda>xsdt_address.
     let len = (if xsdt_address \<noteq> 0 then unwrap_or (ac_read_u32 data (i + 20)) 36 else 36) in
     and_then (if 36 \<le> len \<and> i + unat len \<le> length data
         then map_sum id checksum (ok_or (get_range data i (i + unat len)) AC_Panic) else Inr 0) (\<lambda>ext_checksum.
     Inr (Some \<lparr> rp_signature = signature, rp_checksum = rsdp_checksum,
       rp_rsdt_address = unwrap_or (ac_read_u32 data (i + 16)) 0, rp_length = len,
       rp_xsdt_address = xsdt_address, rp_extended_checksum = ext_checksum \<rparr>)))))"

fun first_rsdp :: "byte_string \<Rightarrow> nat list \<Rightarrow> acpi_error + rsdp" where
  "first_rsdp data [] = Inl AC_NotFoundRsdp"
| "first_rsdp data (i # is) =
     and_then (rsdp_at data i) (\<lambda>found. case found of Some r \<Rightarrow> Inr r | None \<Rightarrow> first_rsdp data is)"

definition find_rsdp :: "byte_string \<Rightarrow> acpi_error + rsdp" where
  "find_rsdp data =
     (if length data < RSDP_LENGTH then Inl AC_NotFoundTooShort
      else first_rsdp data [0 ..< length data - RSDP_LENGTH])"

section \<open>The root table\<close>

definition parse_table_header :: "byte_string \<Rightarrow> nat \<Rightarrow> acpi_error + acpi_table_header" where
  "parse_table_header data offset =
     and_then (plus_usize offset 36) (\<lambda>stop.
     if length data < stop then Inl AC_HeaderBeyondData
     else Inr \<lparr> th_length = unwrap_or (ac_read_u32 data (offset + 4)) 0,
       th_revision = data ! (offset + 8), th_checksum = data ! (offset + 9),
       th_oem_id = take 6 (drop (offset + 10) data), th_oem_table_id = take 8 (drop (offset + 16) data) \<rparr>)"

text \<open>The loop over the entries, which ends at the first that is not in the data.\<close>

fun xsdt_entries :: "byte_string \<Rightarrow> nat \<Rightarrow> nat list \<Rightarrow> u64 list \<Rightarrow> acpi_error + u64 list" where
  "xsdt_entries data offset [] found = Inr found"
| "xsdt_entries data offset (i # is) found =
     (let addr_offset = offset + XSDT_HEADER_SIZE + i * 8 in
      if length data < addr_offset + 8 then Inr found
      else and_then (ok_or (ac_read_u64 data addr_offset) AC_XsdtEntryUnreadable) (\<lambda>addr.
        xsdt_entries data offset is (found @ [addr])))"

fun rsdt_entries :: "byte_string \<Rightarrow> nat \<Rightarrow> nat list \<Rightarrow> u64 list \<Rightarrow> acpi_error + u64 list" where
  "rsdt_entries data offset [] found = Inr found"
| "rsdt_entries data offset (i # is) found =
     (let addr_offset = offset + XSDT_HEADER_SIZE + i * 4 in
      if length data < addr_offset + 4 then Inr found
      else and_then (ok_or (map_option ucast (ac_read_u32 data addr_offset)) AC_RsdtEntryUnreadable) (\<lambda>addr.
        rsdt_entries data offset is (found @ [addr])))"

text \<open>\<^verbatim>\<open>header.length as usize - XSDT_HEADER_SIZE\<close>.\<close>

definition entries_length :: "acpi_table_header \<Rightarrow> acpi_error + nat" where
  "entries_length header =
     (if unat (th_length header) < XSDT_HEADER_SIZE then Inl AC_Panic
      else Inr (unat (th_length header) - XSDT_HEADER_SIZE))"

definition parse_xsdt_table :: "byte_string \<Rightarrow> nat \<Rightarrow> acpi_error + xsdt" where
  "parse_xsdt_table data offset =
     and_then (plus_usize offset XSDT_HEADER_SIZE) (\<lambda>stop.
     if length data < stop then Inl AC_XsdtHeaderTruncated
     else if take 4 (drop offset data) \<noteq> XSDT_SIGNATURE then Inl AC_XsdtSignatureMismatch
     else
     and_then (parse_table_header data offset) (\<lambda>header.
     and_then (entries_length header) (\<lambda>n.
     and_then (xsdt_entries data offset [0 ..< n div 8] []) (\<lambda>table_addresses.
     Inr \<lparr> xs_header = header, xs_table_addresses = table_addresses \<rparr>))))"

definition parse_rsdt_table :: "byte_string \<Rightarrow> nat \<Rightarrow> acpi_error + xsdt" where
  "parse_rsdt_table data offset =
     and_then (plus_usize offset XSDT_HEADER_SIZE) (\<lambda>stop.
     if length data < stop then Inl AC_RsdtHeaderTruncated
     else if take 4 (drop offset data) \<noteq> RSDT_SIGNATURE then Inl AC_RsdtSignatureMismatch
     else
     and_then (parse_table_header data offset) (\<lambda>header.
     and_then (entries_length header) (\<lambda>n.
     and_then (rsdt_entries data offset [0 ..< n div 4] []) (\<lambda>table_addresses.
     Inr \<lparr> xs_header = header, xs_table_addresses = table_addresses \<rparr>))))"

definition parse_acpi :: "byte_string \<Rightarrow> acpi_error + acpi_tables" where
  "parse_acpi data =
     and_then (find_rsdp data) (\<lambda>rsdp.
     if rp_xsdt_address rsdp \<noteq> 0 then
       let xsdt_offset = unat (rp_xsdt_address rsdp) in
       and_then (plus_usize xsdt_offset XSDT_HEADER_SIZE) (\<lambda>stop.
       if length data < stop then Inl AC_XsdtBeyondData
       else and_then (parse_xsdt_table data xsdt_offset) (\<lambda>xsdt. Inr \<lparr> at_data = data, at_xsdt = xsdt \<rparr>))
     else
       let rsdt_offset = unat (rp_rsdt_address rsdp) in
       and_then (plus_usize rsdt_offset XSDT_HEADER_SIZE) (\<lambda>stop.
       if length data < stop then Inl AC_RsdtBeyondData
       else and_then (parse_rsdt_table data rsdt_offset) (\<lambda>xsdt. Inr \<lparr> at_data = data, at_xsdt = xsdt \<rparr>)))"

section \<open>Tables\<close>

text \<open>One round of the search: \<^verbatim>\<open>None\<close> where the function returns \<^verbatim>\<open>None\<close> at once, \<^verbatim>\<open>continue\<close> otherwise.\<close>

datatype search = Continue | Return "byte_string option"

definition table_at :: "acpi_tables \<Rightarrow> byte_string \<Rightarrow> u64 \<Rightarrow> acpi_error + search" where
  "table_at tables signature addr =
     (let data = at_data tables; offset = unat addr in
      and_then (plus_usize offset 4) (\<lambda>stop.
      if length data < stop then Inr Continue
      else if take 4 (drop offset data) = signature then
        (case ac_read_u32 data (offset + 4) of
           None \<Rightarrow> Inr (Return None)
         | Some len \<Rightarrow>
             let stop = offset + unat len in
             if stop \<le> length data then Inr (Return (get_range data offset stop)) else Inr Continue)
      else Inr Continue))"

fun search_tables :: "acpi_tables \<Rightarrow> byte_string \<Rightarrow> u64 list \<Rightarrow> acpi_error + byte_string option" where
  "search_tables tables signature [] = Inr None"
| "search_tables tables signature (addr # addrs) =
     and_then (table_at tables signature addr) (\<lambda>r.
     case r of Continue \<Rightarrow> search_tables tables signature addrs | Return t \<Rightarrow> Inr t)"

definition find_table :: "acpi_tables \<Rightarrow> byte_string \<Rightarrow> acpi_error + byte_string option" where
  "find_table tables signature = search_tables tables signature (xs_table_addresses (at_xsdt tables))"

fun signatures_of :: "byte_string \<Rightarrow> u64 list \<Rightarrow> acpi_error + byte_string list" where
  "signatures_of data [] = Inr []"
| "signatures_of data (addr # addrs) =
     and_then (plus_usize (unat addr) 4) (\<lambda>stop.
     and_then (signatures_of data addrs) (\<lambda>rest.
     Inr (if stop \<le> length data then take 4 (drop (unat addr) data) # rest else rest)))"

definition table_signatures :: "acpi_tables \<Rightarrow> acpi_error + byte_string list" where
  "table_signatures tables = signatures_of (at_data tables) (xs_table_addresses (at_xsdt tables))"

end
