(* ===== verification/Acpi_Proofs.thy ===== *)
theory Acpi_Proofs
  imports Acpi
begin

text \<open>
  The ACPI reader of \<^verbatim>\<open>src/acpi.rs\<close>: what it finds is in the data and carries the right signature and
  checksum, which root pointers it misses, and exactly when it panics.
\<close>

section \<open>The root pointer\<close>

lemma checksum_sum: "checksum data = sum_list data"
proof -
  have "foldl (\<lambda>acc b. acc + b) a data = a + sum_list data" for a :: u8
    by (induction data arbitrary: a) (simp_all add: add.assoc)
  then show ?thesis by (simp add: checksum_def)
qed

text \<open>A valid first part of a root pointer.\<close>

definition rsdp_valid_at :: "byte_string \<Rightarrow> nat \<Rightarrow> bool" where
  "rsdp_valid_at data i \<longleftrightarrow> take 8 (drop i data) = RSDP_SIGNATURE \<and> sum_list (take 20 (drop i data)) = 0"

lemma rsdp_at_cases:
  assumes "i + 36 \<le> length data"
  shows "rsdp_at data i = (if rsdp_valid_at data i then rsdp_at data i else Inr None)"
    and "rsdp_valid_at data i \<Longrightarrow> \<exists>r. rsdp_at data i = Inr (Some r) \<and> rp_signature r = RSDP_SIGNATURE \<and>
      rp_checksum r = 0 \<and> rp_xsdt_address r = from_le_bytes (take 8 (drop (i + 24) data)) \<and>
      rp_rsdt_address r = from_le_bytes (take 4 (drop (i + 16) data))"
  using assms
  by (auto simp: rsdp_at_def rsdp_valid_at_def get_range_def checksum_sum ac_read_u64_def ac_read_u32_def unwrap_or_def Let_def)

lemma first_rsdp_first:
  assumes "\<forall>i \<in> set is. i + 36 \<le> length data"
  shows "first_rsdp data is =
    (case find (rsdp_valid_at data) is of None \<Rightarrow> Inl AC_NotFoundRsdp
     | Some i \<Rightarrow> map_err (\<lambda>e. e) (and_then (rsdp_at data i) (\<lambda>r. ok_or r AC_NotFoundRsdp)))"
  using assms
proof (induction "is")
  case (Cons i "is")
  show ?case
  proof (cases "rsdp_valid_at data i")
    case True
    then obtain r where "rsdp_at data i = Inr (Some r)" using rsdp_at_cases(2) [of i data] Cons.prems by auto
    then show ?thesis using True by simp
  next
    case False
    then have "rsdp_at data i = Inr None" using rsdp_at_cases(1) [of i data] Cons.prems by simp
    then show ?thesis using False Cons by simp
  qed
qed simp

text \<open>
  The search returns the first valid root pointer that starts more than 36 bytes before the end
  of the data, with its addresses, and nothing else; a root pointer that ends exactly at the end of
  the data is not found.
\<close>

theorem find_rsdp_first:
  "(\<forall>r. find_rsdp data = Inr r \<longrightarrow>
      (\<exists>i. i + 36 < length data \<and> rsdp_valid_at data i \<and> (\<forall>j < i. \<not> rsdp_valid_at data j) \<and>
         rp_xsdt_address r = from_le_bytes (take 8 (drop (i + 24) data)) \<and>
         rp_rsdt_address r = from_le_bytes (take 4 (drop (i + 16) data)))) \<and>
   ((\<exists>e. find_rsdp data = Inl e) \<longleftrightarrow> (\<forall>i. i + 36 < length data \<longrightarrow> \<not> rsdp_valid_at data i))"
proof (cases "length data < 36")
  case True
  then show ?thesis by (auto simp: find_rsdp_def RSDP_LENGTH_def)
next
  case False
  let ?is = "[0 ..< length data - 36]"
  have inside: "\<forall>i \<in> set ?is. i + 36 \<le> length data" by auto
  have found: "find_rsdp data = (case find (rsdp_valid_at data) ?is of None \<Rightarrow> Inl AC_NotFoundRsdp
     | Some i \<Rightarrow> map_err (\<lambda>e. e) (and_then (rsdp_at data i) (\<lambda>r. ok_or r AC_NotFoundRsdp)))"
    using False by (simp add: find_rsdp_def RSDP_LENGTH_def first_rsdp_first [OF inside])
  show ?thesis
  proof (cases "find (rsdp_valid_at data) ?is")
    case None
    then have "\<forall>i. i + 36 < length data \<longrightarrow> \<not> rsdp_valid_at data i"
      using False by (auto simp: find_None_iff)
    then show ?thesis using found None by simp
  next
    case (Some i)
    then obtain n where "n < length ?is" "rsdp_valid_at data (?is ! n)" "i = ?is ! n"
      "\<forall>j < n. \<not> rsdp_valid_at data (?is ! j)"
      by (auto simp: find_Some_iff)
    then have i: "i + 36 < length data" "rsdp_valid_at data i" "\<forall>j < i. \<not> rsdp_valid_at data j" by auto
    then obtain r where r: "rsdp_at data i = Inr (Some r)"
      "rp_xsdt_address r = from_le_bytes (take 8 (drop (i + 24) data))"
      "rp_rsdt_address r = from_le_bytes (take 4 (drop (i + 16) data))"
      using rsdp_at_cases(2) [of i data] by auto
    have "find_rsdp data = Inr r" using found Some r(1) by simp
    then show ?thesis using i r by auto
  qed
qed

text \<open>Data that is a root pointer and nothing else has none.\<close>

lemma lone_rsdp_missed: "length data = 36 \<Longrightarrow> find_rsdp data = Inl AC_NotFoundRsdp"
  by (simp add: find_rsdp_def RSDP_LENGTH_def)

section \<open>Tables\<close>

lemma plus_usize_Inr: "plus_usize a b = Inr c \<longleftrightarrow> c = a + b \<and> a + b < 2 ^ 64"
  by (auto simp: plus_usize_def ok_or_Inr usize_add_def split: if_splits)

lemma table_at_Return:
  assumes "table_at tables signature addr = Inr (Return (Some t))" and "length signature = 4"
  shows "\<exists>xs ys. at_data tables = xs @ t @ ys \<and> length xs = unat addr \<and> take 4 (t @ ys) = signature \<and>
    length t = unat (from_le_bytes (take 4 (drop (unat addr + 4) (at_data tables))) :: u32)"
proof -
  let ?data = "at_data tables" and ?a = "unat addr"
  obtain len :: u32 where sig: "take 4 (drop ?a ?data) = signature" and len: "ac_read_u32 ?data (?a + 4) = Some len"
    and inside: "?a + unat len \<le> length ?data" and t: "get_range ?data ?a (?a + unat len) = Some t"
    using assms(1) by (auto simp: table_at_def Let_def result_iff split: if_splits option.splits)
  have "t = take (unat len) (drop ?a ?data)" using t by (simp add: get_range_Some)
  then have "?data = take ?a ?data @ t @ drop (?a + unat len) ?data" "drop ?a ?data = t @ drop (?a + unat len) ?data"
    using append_take_drop_id [of ?a ?data] append_take_drop_id [of "unat len" "drop ?a ?data"]
    by (simp_all add: add.commute)
  moreover have "length t = unat len" using get_range_length [OF t] by simp
  moreover have "len = from_le_bytes (take 4 (drop (?a + 4) ?data))"
    using len by (auto simp: ac_read_u32_def split: if_splits)
  moreover have "length (take ?a ?data) = ?a" using inside by simp
  ultimately show ?thesis using sig by metis
qed

lemma search_tables_found:
  assumes "search_tables tables signature addrs = Inr (Some t)"
  shows "\<exists>addr \<in> set addrs. table_at tables signature addr = Inr (Return (Some t))"
  using assms
proof (induction addrs)
  case (Cons a addrs)
  then obtain x where x: "table_at tables signature a = Inr x"
    "(case x of Continue \<Rightarrow> search_tables tables signature addrs | Return t \<Rightarrow> Inr t) = Inr (Some t)"
    by (auto simp: result_iff)
  then show ?case using Cons.IH by (cases x) auto
qed simp

text \<open>
  A table that is found lies in the data at one of the addresses of the root table, starts
  with the signature, and has the length its header announces.
\<close>

theorem find_table_sound:
  assumes "find_table tables signature = Inr (Some t)" and "length signature = 4"
  shows "\<exists>addr \<in> set (xs_table_addresses (at_xsdt tables)). \<exists>xs ys.
    at_data tables = xs @ t @ ys \<and> length xs = unat addr \<and> take 4 (t @ ys) = signature \<and>
    length t = unat (from_le_bytes (take 4 (drop (unat addr + 4) (at_data tables))) :: u32)"
proof -
  obtain addr where "addr \<in> set (xs_table_addresses (at_xsdt tables))"
    "table_at tables signature addr = Inr (Return (Some t))"
    using search_tables_found assms(1) unfolding find_table_def by blast
  then show ?thesis using table_at_Return [OF _ assms(2)] by blast
qed

section \<open>Panics\<close>

lemma entries_no_panic:
  "xsdt_entries data offset is found \<noteq> Inl AC_Panic" "rsdt_entries data offset is found \<noteq> Inl AC_Panic"
proof -
  show "xsdt_entries data offset is found \<noteq> Inl AC_Panic"
    by (induction data offset "is" found rule: xsdt_entries.induct) (auto simp: Let_def result_iff)
  show "rsdt_entries data offset is found \<noteq> Inl AC_Panic"
    by (induction data offset "is" found rule: rsdt_entries.induct) (auto simp: Let_def result_iff)
qed

lemma find_rsdp_no_panic: "find_rsdp data \<noteq> Inl AC_Panic"
proof -
  have scan: "first_rsdp data is \<noteq> Inl AC_Panic" if "\<forall>i \<in> set is. i + 36 \<le> length data" for "is"
    unfolding first_rsdp_first [OF that]
  proof (cases "find (rsdp_valid_at data) is")
    case (Some i)
    then have "i \<in> set is" "rsdp_valid_at data i" by (auto simp: find_Some_iff)
    then show "(case find (rsdp_valid_at data) is of None \<Rightarrow> Inl AC_NotFoundRsdp
     | Some i \<Rightarrow> map_err (\<lambda>e. e) (and_then (rsdp_at data i) (\<lambda>r. ok_or r AC_NotFoundRsdp))) \<noteq> Inl AC_Panic"
      using rsdp_at_cases(2) [of i data] that Some by auto
  qed simp
  have "first_rsdp data [0 ..< length data - 36] \<noteq> Inl AC_Panic"
    by (rule scan) (simp add: less_diff_conv)
  then show ?thesis by (simp add: find_rsdp_def RSDP_LENGTH_def)
qed

lemma plus_usize_Inl: "plus_usize a b = Inl e \<longleftrightarrow> 2 ^ 64 \<le> a + b \<and> e = AC_Panic"
  by (auto simp: plus_usize_def ok_or_Inl usize_add_def)

lemma header_length:
  assumes "offset + 36 \<le> length data" and "offset + 36 < 2 ^ 64"
  obtains header where "parse_table_header data offset = Inr header"
    and "th_length header = from_le_bytes (take 4 (drop (offset + 4) data))"
proof -
  have "plus_usize offset 36 = Inr (offset + 36)" using assms(2) by (simp only: plus_usize_Inr)
  moreover have "\<not> length data < offset + 36" using assms(1) by simp
  moreover have "ac_read_u32 data (offset + 4) = Some (from_le_bytes (take 4 (drop (offset + 4) data)))"
    using assms(1) by (simp add: ac_read_u32_def)
  ultimately show thesis by (intro that, simp add: parse_table_header_def unwrap_or_def) simp
qed

lemma parse_table_panics:
  "parse_xsdt_table data offset = Inl AC_Panic \<longleftrightarrow>
     2 ^ 64 \<le> offset + 36 \<or> (offset + 36 \<le> length data \<and> take 4 (drop offset data) = XSDT_SIGNATURE \<and>
       unat (from_le_bytes (take 4 (drop (offset + 4) data)) :: u32) < 36)"
  "parse_rsdt_table data offset = Inl AC_Panic \<longleftrightarrow>
     2 ^ 64 \<le> offset + 36 \<or> (offset + 36 \<le> length data \<and> take 4 (drop offset data) = RSDT_SIGNATURE \<and>
       unat (from_le_bytes (take 4 (drop (offset + 4) data)) :: u32) < 36)"
proof (atomize (full), cases "offset + 36 < 2 ^ 64 \<and> offset + 36 \<le> length data")
  case True
  then obtain header where "parse_table_header data offset = Inr header"
    "th_length header = from_le_bytes (take 4 (drop (offset + 4) data))"
    using header_length by blast
  then show "(parse_xsdt_table data offset = Inl AC_Panic) = (2 ^ 64 \<le> offset + 36 \<or>
      offset + 36 \<le> length data \<and> take 4 (drop offset data) = XSDT_SIGNATURE \<and>
      unat (from_le_bytes (take 4 (drop (offset + 4) data)) :: u32) < 36) \<and>
    (parse_rsdt_table data offset = Inl AC_Panic) = (2 ^ 64 \<le> offset + 36 \<or>
      offset + 36 \<le> length data \<and> take 4 (drop offset data) = RSDT_SIGNATURE \<and>
      unat (from_le_bytes (take 4 (drop (offset + 4) data)) :: u32) < 36)"
    using True
    by (auto simp: parse_xsdt_table_def parse_rsdt_table_def plus_usize_def usize_add_def XSDT_HEADER_SIZE_def
        entries_length_def and_then_Inl entries_no_panic)
next
  case False
  then show "(parse_xsdt_table data offset = Inl AC_Panic) = (2 ^ 64 \<le> offset + 36 \<or>
      offset + 36 \<le> length data \<and> take 4 (drop offset data) = XSDT_SIGNATURE \<and>
      unat (from_le_bytes (take 4 (drop (offset + 4) data)) :: u32) < 36) \<and>
    (parse_rsdt_table data offset = Inl AC_Panic) = (2 ^ 64 \<le> offset + 36 \<or>
      offset + 36 \<le> length data \<and> take 4 (drop offset data) = RSDT_SIGNATURE \<and>
      unat (from_le_bytes (take 4 (drop (offset + 4) data)) :: u32) < 36)"
    by (auto simp: parse_xsdt_table_def parse_rsdt_table_def plus_usize_def usize_add_def XSDT_HEADER_SIZE_def)
qed

text \<open>The tables whose root pointer makes the reader panic.\<close>

definition root_panics :: "byte_string \<Rightarrow> rsdp \<Rightarrow> bool" where
  "root_panics data r \<longleftrightarrow>
     (let offset = (if rp_xsdt_address r \<noteq> 0 then unat (rp_xsdt_address r) else unat (rp_rsdt_address r));
          signature = (if rp_xsdt_address r \<noteq> 0 then XSDT_SIGNATURE else RSDT_SIGNATURE) in
      2 ^ 64 \<le> offset + 36 \<or>
      (offset + 36 \<le> length data \<and> take 4 (drop offset data) = signature \<and>
       unat (from_le_bytes (take 4 (drop (offset + 4) data)) :: u32) < 36))"

text \<open>
  C29. On any data, parsing panics exactly when a root pointer is found and the address of its root
  table is within 36 bytes of the end of the address space, or that root table is in the data, has
  the right signature and announces a length below the 36 bytes of its header. The search for the
  root pointer never panics.
\<close>

theorem parse_acpi_panics:
  "parse_acpi data = Inl AC_Panic \<longleftrightarrow> (\<exists>r. find_rsdp data = Inr r \<and> root_panics data r)"
proof (cases "find_rsdp data")
  case (Inl e)
  then show ?thesis using find_rsdp_no_panic [of data] by (simp add: parse_acpi_def)
next
  case (Inr r)
  then show ?thesis
    using parse_table_panics
    by (auto simp: parse_acpi_def root_panics_def Let_def and_then_Inl plus_usize_Inl plus_usize_Inr
        XSDT_HEADER_SIZE_def not_less)
qed

section \<open>Examples\<close>

definition short_table :: byte_string where
  "short_table = RSDP_SIGNATURE @ [0xbd, 0, 0, 0, 0, 0, 0, 0, 36, 0, 0, 0] @ replicate 16 0 @
     RSDT_SIGNATURE @ replicate 32 0"

lemma replicate_8: "replicate 8 x = [x, x, x, x, x, x, x, x]" "replicate 4 x = [x, x, x, x]"
  by (simp_all add: numeral_eq_Suc)

lemma short_table_parts:
  "length short_table = 72" "take 8 short_table = RSDP_SIGNATURE" "sum_list (take 20 short_table) = 0"
  "take 8 (drop 24 short_table) = replicate 8 0" "take 4 (drop 16 short_table) = [36, 0, 0, 0]"
  "take 4 (drop 36 short_table) = RSDT_SIGNATURE" "take 4 (drop 40 short_table) = [0, 0, 0, 0]"
  by (simp_all add: short_table_def RSDP_SIGNATURE_def RSDT_SIGNATURE_def replicate_8(2))

text \<open>A root table that announces no length makes the reader panic.\<close>

lemma short_table_rsdp:
  obtains r where "find_rsdp short_table = Inr r" and "rp_xsdt_address r = 0" and "rp_rsdt_address r = 36"
proof -
  have "rsdp_valid_at short_table 0" by (simp add: rsdp_valid_at_def short_table_parts)
  from rsdp_at_cases(2) [OF _ this] obtain r where r: "rsdp_at short_table 0 = Inr (Some r)"
    "rp_xsdt_address r = from_le_bytes (take 8 (drop 24 short_table))"
    "rp_rsdt_address r = from_le_bytes (take 4 (drop 16 short_table))"
    by (auto simp: short_table_parts)
  have "[0 ..< length short_table - RSDP_LENGTH] = 0 # [1 ..< 36]"
    by (simp add: short_table_parts RSDP_LENGTH_def upt_conv_Cons)
  then have "find_rsdp short_table = Inr r"
    using r(1) by (simp add: find_rsdp_def short_table_parts RSDP_LENGTH_def)
  moreover have "rp_xsdt_address r = 0" "rp_rsdt_address r = 36"
    using r(2,3) by (simp_all add: short_table_parts from_le_bytes_def replicate_8)
  ultimately show thesis by (rule that)
qed

lemma parse_acpi_panics_witness: "parse_acpi short_table = Inl AC_Panic"
proof -
  obtain r where r: "find_rsdp short_table = Inr r" "rp_xsdt_address r = 0" "rp_rsdt_address r = 36"
    by (rule short_table_rsdp)
  then show ?thesis
    using parse_acpi_panics [of short_table] by (simp add: root_panics_def short_table_parts from_le_bytes_def)
qed

lemma find_table_sound_witness:
  "\<exists>xs ys. replicate 4 (7 :: u8) @ [0x46, 0x41, 0x43, 0x50, 8, 0, 0, 0] = xs @ [0x46, 0x41, 0x43, 0x50, 8, 0, 0, 0] @ ys \<and>
    length xs = 4"
proof -
  let ?t = "\<lparr> at_data = replicate 4 7 @ [0x46, 0x41, 0x43, 0x50, 8, 0, 0, 0], at_xsdt = \<lparr> xs_header =
    \<lparr> th_length = 44, th_revision = 1, th_checksum = 0, th_oem_id = [], th_oem_table_id = [] \<rparr>,
    xs_table_addresses = [4] \<rparr> \<rparr>"
  have "find_table ?t [0x46, 0x41, 0x43, 0x50] = Inr (Some [0x46, 0x41, 0x43, 0x50, 8, 0, 0, 0])"
    by (simp add: find_table_def table_at_def plus_usize_def usize_add_def ac_read_u32_def get_range_def from_le_bytes_def
        Let_def)
  from find_table_sound [OF this] show ?thesis by (auto simp del: append_eq_append_conv)
qed

lemma find_rsdp_first_witness: "\<exists>i. i + 36 < length short_table \<and> rsdp_valid_at short_table i"
proof -
  obtain r where "find_rsdp short_table = Inr r" by (rule short_table_rsdp)
  then show ?thesis using find_rsdp_first [of short_table] by blast
qed

end
