(* ===== verification/Kc_Fixup_Audit.thy ===== *)
theory Kc_Fixup_Audit
  imports Kernel_Collection "HOL-Library.Product_Lexorder"
begin

text \<open>
  Model of \<^verbatim>\<open>src/kc_fixup_audit.rs\<close>: the audit of the places that classic relocations and chained
  fixups of a collection write to. The source is only read; the state of an audit is what it has
  recorded so far. An error drops that state, so it carries none. An unchecked addition that
  overflows or an index out of range would panic: \<open>AU_Panic\<close>.

  The allocator is the argument \<open>R\<close>, asked with what is to be reserved. A vector that still has
  room does not ask for more when it grows by one element: there \<open>R\<close> answers yes.
  \<^verbatim>\<open>partition_point\<close> searches a sorted vector, so it counts the leading elements that satisfy
  its test.
\<close>

section \<open>Data\<close>

definition MAX_AUDIT_RECORDS :: nat where "MAX_AUDIT_RECORDS = 1000000"
definition MAX_AUDIT_ISSUES :: nat where "MAX_AUDIT_ISSUES = 1000000"
definition MAX_AUDIT_PAGE_STARTS :: nat where "MAX_AUDIT_PAGE_STARTS = 1000000"

record audit_limits =
  al_records :: nat
  al_issues :: nat
  al_page_starts :: nat

definition default_limits :: audit_limits where
  "default_limits = \<lparr> al_records = MAX_AUDIT_RECORDS, al_issues = MAX_AUDIT_ISSUES,
     al_page_starts = MAX_AUDIT_PAGE_STARTS \<rparr>"

datatype audit_error =
    AU_Metadata kc_metadata_error
  | AU_InvalidLimits
  | AU_LimitExceeded
  | AU_AllocationFailed
  | AU_InvalidMetadata
  | AU_Overflow
  | AU_Panic \<comment> \<open>not a value of the source's enum\<close>

datatype issue_code =
    UnsupportedClassicType
  | UnsupportedClassicWidth
  | UnsupportedPcRelative
  | UnsupportedExternal
  | MissingClassicBase
  | NegativeSectionDisplacement
  | WriteOutsideSection
  | WriteOutsideFileMapping
  | WriteAddressOverflow
  | UnsupportedPointerFormat
  | UnsupportedImports
  | UnsupportedCompressedSymbols
  | UnsupportedMultiStartConsumer
  | ChainOutsidePage
  | ChainOutsideFileMapping
  | DuplicateChainVisit
  | MissingCacheBase
  | UnsupportedAuthentication
  | PointerTargetOverflow
  | PointerTargetOutsideMappings
  | SameMechanismWriteOverlap
  | CrossMechanismWriteOverlap

record audit_issue =
  ai_code :: issue_code
  ai_image_index :: nat
  ai_record_index :: "nat option"
  ai_related_record_index :: "nat option"

datatype classic_table = LocalDynamic | ExternalDynamic | SectionTable

datatype member_overlap = ExecutableMember | KextMember | BothMembers | OuterOnly

record classic_detail =
  cd_table :: classic_table
  cd_displacement :: u32 \<comment> \<open>an \<^verbatim>\<open>i32\<close>, read by \<open>sint\<close>\<close>
  cd_symbol_ordinal :: u32
  cd_relocation_type :: u8
  cd_length_exponent :: u8
  cd_pc_relative :: bool
  cd_external :: bool
  cd_stored_value :: "u64 option"

record chain_detail =
  ch_segment_index :: nat
  ch_page_index :: nat
  ch_target_offset :: u32
  ch_cache_level :: u8
  ch_diversity :: u16
  ch_address_diversity :: bool
  ch_key :: u8
  ch_next :: u16
  ch_authenticated :: bool
  ch_resolved_target :: "u64 option"
  ch_target_in_primary_mapping :: bool

datatype record_detail = Classic classic_detail | Chain11 chain_detail

record audit_record =
  ar_image_index :: nat
  ar_source_record_offset :: u64
  ar_write_address :: "u64 option"
  ar_write_file_offset :: "u64 option"
  ar_width :: u8
  ar_member_overlap :: member_overlap
  ar_detail :: record_detail

record issue_count =
  ic_code :: issue_code
  ic_count :: nat

record audit_summary =
  su_classic_records :: nat
  su_classic_negative_displacements :: nat
  su_classic_types :: "nat list"
  su_classic_width_exponents :: "nat list"
  su_classic_pc_relative :: nat
  su_classic_external :: nat
  su_chain_records :: nat
  su_chain_starts :: nat
  su_chains_terminated :: nat
  su_chain_page_straddling_words :: nat
  su_page_starts_visited :: nat
  su_multi_start_pages :: nat
  su_chain_cache_levels :: "nat list"
  su_authenticated_words :: nat
  su_primary_pointer_targets_covered :: nat
  su_file_backed_write_records :: nat
  su_executable_member_write_records :: nat
  su_kext_member_write_records :: nat
  su_both_member_write_records :: nat
  su_outer_only_write_records :: nat
  su_issue_counts :: "issue_count list"

definition default_summary :: audit_summary where
  "default_summary = \<lparr> su_classic_records = 0, su_classic_negative_displacements = 0,
     su_classic_types = replicate 16 0, su_classic_width_exponents = replicate 4 0,
     su_classic_pc_relative = 0, su_classic_external = 0, su_chain_records = 0,
     su_chain_starts = 0, su_chains_terminated = 0, su_chain_page_straddling_words = 0,
     su_page_starts_visited = 0, su_multi_start_pages = 0, su_chain_cache_levels = replicate 4 0,
     su_authenticated_words = 0, su_primary_pointer_targets_covered = 0,
     su_file_backed_write_records = 0, su_executable_member_write_records = 0,
     su_kext_member_write_records = 0, su_both_member_write_records = 0,
     su_outer_only_write_records = 0, su_issue_counts = [] \<rparr>"

record kc_fixup_audit =
  fa_summary :: audit_summary
  fa_records :: "audit_record list"
  fa_issues :: "audit_issue list"
  fa_primary_base :: u64

definition ranges_valid :: "kc_fixup_audit \<Rightarrow> bool" where
  "ranges_valid audit \<longleftrightarrow> fa_issues audit = []"

definition fa_preparation_ready :: "kc_fixup_audit \<Rightarrow> bool" where
  "fa_preparation_ready audit \<longleftrightarrow> False"

definition fa_relocations_applied :: "kc_fixup_audit \<Rightarrow> bool" where
  "fa_relocations_applied audit \<longleftrightarrow> False"

definition fa_ownership_resolved :: "kc_fixup_audit \<Rightarrow> bool" where
  "fa_ownership_resolved audit \<longleftrightarrow> False"

text \<open>What is asked of the allocator, with the number of elements.\<close>

datatype audit_reservation =
    Reserve_Mappings nat
  | Reserve_Issue nat
  | Reserve_Record nat
  | Reserve_Range nat
  | Reserve_Merged nat
  | Reserve_Order nat

section \<open>Mappings\<close>

record mapping_entry =
  mp_start :: u64
  mp_end :: u64
  mp_file_end :: u64
  mp_file_offset :: u64

definition au_add :: "u64 \<Rightarrow> u64 \<Rightarrow> audit_error + u64" where
  "au_add a b = ok_or (checked_add a b) AU_Overflow"

definition plus_checked :: "u64 \<Rightarrow> u64 \<Rightarrow> audit_error + u64" where
  "plus_checked a b = ok_or (checked_add a b) AU_Panic"

definition mapping_of :: "segment_metadata \<Rightarrow> audit_error + mapping_entry" where
  "mapping_of s =
     and_then (au_add (seg_address s) (seg_memory_size s)) (\<lambda>stop.
     and_then (au_add (seg_address s) (fr_size (seg_file s))) (\<lambda>file_end.
     Inr \<lparr> mp_start = seg_address s, mp_end = stop, mp_file_end = file_end,
            mp_file_offset = fr_offset (seg_file s) \<rparr>))"

definition mappings :: "(audit_reservation \<Rightarrow> bool) \<Rightarrow> segment_metadata list \<Rightarrow> audit_error + mapping_entry list" where
  "mappings R segments =
     (if \<not> R (Reserve_Mappings (length segments)) then Inl AU_AllocationFailed
      else
      and_then (try_map mapping_of (filter (\<lambda>s. seg_memory_size s \<noteq> 0) segments)) (\<lambda>result.
      Inr (sort_key mp_start result)))"

definition partition_point :: "('a \<Rightarrow> bool) \<Rightarrow> 'a list \<Rightarrow> nat" where
  "partition_point P xs = length (takeWhile P xs)"

definition containing :: "mapping_entry list \<Rightarrow> u64 \<Rightarrow> u64 \<Rightarrow> mapping_entry option" where
  "containing maps address width =
     (let n = partition_point (\<lambda>m. mp_start m \<le> address) maps in
      if n = 0 then None
      else
      let m = maps ! (n - 1) in
      case checked_add address width of
        None \<Rightarrow> None
      | Some stop \<Rightarrow> if stop \<le> mp_end m then Some m else None)"

definition file_location :: "mapping_entry list \<Rightarrow> u64 \<Rightarrow> u64 \<Rightarrow> audit_error + u64 option" where
  "file_location maps address width =
     (case containing maps address width of
        None \<Rightarrow> Inr None
      | Some m \<Rightarrow>
          (case checked_add address width of
             None \<Rightarrow> Inr None
           | Some stop \<Rightarrow>
               if stop \<le> mp_file_end m
               then and_then (ok_or (checked_sub address (mp_start m)) AU_Panic) (\<lambda>inside.
                    and_then (plus_checked (mp_file_offset m) inside) (\<lambda>offset.
                    Inr (Some offset)))
               else Inr None))"

section \<open>Reading the source\<close>

definition au_raw :: "byte_string \<Rightarrow> u64 \<Rightarrow> nat \<Rightarrow> audit_error + byte_string" where
  "au_raw source at n =
     and_then (au_add at (of_nat n)) (\<lambda>stop.
     if length source < unat stop then Inl AU_InvalidMetadata
     else ok_or (get_range source (unat at) (unat stop)) AU_Panic)"

definition au_u16_at :: "byte_string \<Rightarrow> u64 \<Rightarrow> audit_error + u16" where
  "au_u16_at source at = and_then (au_raw source at 2) (\<lambda>b. Inr (from_le_bytes b))"

definition au_u32_at :: "byte_string \<Rightarrow> u64 \<Rightarrow> audit_error + u32" where
  "au_u32_at source at = and_then (au_raw source at 4) (\<lambda>b. Inr (from_le_bytes b))"

text \<open>The bytes are copied to the front of eight zero bytes.\<close>

definition word_at :: "byte_string \<Rightarrow> u64 \<Rightarrow> u8 \<Rightarrow> audit_error + u64" where
  "word_at source at width =
     and_then (au_raw source at (unat width)) (\<lambda>b.
     if 8 < unat width then Inl AU_Panic
     else Inr (from_le_bytes (put_bytes (replicate 8 0) 0 b)))"

section \<open>Recording\<close>

record audit_state =
  as_summary :: audit_summary
  as_records :: "audit_record list"
  as_issues :: "audit_issue list"

record audit_context =
  ac_source :: byte_string
  ac_limits :: audit_limits
  ac_outer :: "mapping_entry list"
  ac_executable :: "(u64 \<times> u64) list"
  ac_kext :: "(u64 \<times> u64) list"
  ac_primary_base :: u64

definition push_bounded :: "bool \<Rightarrow> 'a list \<Rightarrow> 'a \<Rightarrow> nat \<Rightarrow> audit_error + 'a list" where
  "push_bounded room items value limit =
     (if limit \<le> length items then Inl AU_LimitExceeded
      else if \<not> room then Inl AU_AllocationFailed
      else Inr (items @ [value]))"

definition add_issue ::
  "(audit_reservation \<Rightarrow> bool) \<Rightarrow> audit_context \<Rightarrow> issue_code \<Rightarrow> nat \<Rightarrow> nat option \<Rightarrow> nat option \<Rightarrow>
   audit_state \<Rightarrow> audit_error + audit_state" where
  "add_issue R C code img rec related a =
     and_then (push_bounded (R (Reserve_Issue (length (as_issues a)))) (as_issues a)
        \<lparr> ai_code = code, ai_image_index = img, ai_record_index = rec,
          ai_related_record_index = related \<rparr> (al_issues (ac_limits C))) (\<lambda>issues.
     Inr (a\<lparr> as_issues := issues \<rparr>))"

definition page_start :: "audit_context \<Rightarrow> audit_state \<Rightarrow> audit_error + audit_state" where
  "page_start C a =
     (let s = as_summary a in
      if al_page_starts (ac_limits C) \<le> su_page_starts_visited s then Inl AU_LimitExceeded
      else Inr (a\<lparr> as_summary := s\<lparr> su_page_starts_visited := su_page_starts_visited s + 1 \<rparr> \<rparr>))"

definition intersects :: "(u64 \<times> u64) list \<Rightarrow> u64 \<Rightarrow> u64 \<Rightarrow> bool" where
  "intersects ranges start stop =
     (let n = partition_point (\<lambda>r. fst r < stop) ranges in
      n \<noteq> 0 \<and> start < snd (ranges ! (n - 1)))"

definition find_member_overlap :: "audit_context \<Rightarrow> u64 option \<Rightarrow> u8 \<Rightarrow> member_overlap" where
  "find_member_overlap C address width =
     (case address of
        None \<Rightarrow> OuterOnly
      | Some start \<Rightarrow>
          (case checked_add start (ucast width) of
             None \<Rightarrow> OuterOnly
           | Some stop \<Rightarrow>
               (case (intersects (ac_executable C) start stop, intersects (ac_kext C) start stop) of
                  (True, True) \<Rightarrow> BothMembers
                | (True, False) \<Rightarrow> ExecutableMember
                | (False, True) \<Rightarrow> KextMember
                | _ \<Rightarrow> OuterOnly)))"

definition count_record :: "audit_record \<Rightarrow> audit_summary \<Rightarrow> audit_summary" where
  "count_record record s =
     (let s = (if ar_write_file_offset record \<noteq> None
               then s\<lparr> su_file_backed_write_records := su_file_backed_write_records s + 1 \<rparr> else s) in
      case ar_member_overlap record of
        ExecutableMember \<Rightarrow>
          s\<lparr> su_executable_member_write_records := su_executable_member_write_records s + 1 \<rparr>
      | KextMember \<Rightarrow> s\<lparr> su_kext_member_write_records := su_kext_member_write_records s + 1 \<rparr>
      | BothMembers \<Rightarrow> s\<lparr> su_both_member_write_records := su_both_member_write_records s + 1 \<rparr>
      | OuterOnly \<Rightarrow> s\<lparr> su_outer_only_write_records := su_outer_only_write_records s + 1 \<rparr>)"

definition add_record ::
  "(audit_reservation \<Rightarrow> bool) \<Rightarrow> audit_context \<Rightarrow> audit_record \<Rightarrow> audit_state \<Rightarrow>
   audit_error + nat \<times> audit_state" where
  "add_record R C record a =
     and_then (push_bounded (R (Reserve_Record (length (as_records a)))) (as_records a) record
        (al_records (ac_limits C))) (\<lambda>records.
     Inr (length (as_records a),
          a\<lparr> as_summary := count_record record (as_summary a), as_records := records \<rparr>))"

definition bump :: "nat list \<Rightarrow> nat \<Rightarrow> nat list" where
  "bump counts i = counts[i := counts ! i + 1]"

section \<open>Classic relocations\<close>

definition checked_add_signed :: "u64 \<Rightarrow> u32 \<Rightarrow> u64 option" where
  "checked_add_signed b displacement =
     (let v = uint b + sint displacement in
      if 0 \<le> v \<and> v < 2 ^ 64 then Some (word_of_int v) else None)"

definition classic_codes ::
  "u64 option \<Rightarrow> classic_table \<Rightarrow> u64 option \<Rightarrow> classic_detail \<Rightarrow> u8 \<Rightarrow> u64 option \<Rightarrow> u64 option \<Rightarrow>
   issue_code list" where
  "classic_codes section_size table base d width address file =
     (if cd_relocation_type d \<noteq> 0 then [UnsupportedClassicType] else []) @
     (if cd_length_exponent d < 2 then [UnsupportedClassicWidth] else []) @
     (if cd_pc_relative d then [UnsupportedPcRelative] else []) @
     (if cd_external d \<or> table = ExternalDynamic then [UnsupportedExternal] else []) @
     (if base = None then [MissingClassicBase]
      else if address = None then [WriteAddressOverflow] else []) @
     (if table = SectionTable \<and> sint (cd_displacement d) < 0
      then [NegativeSectionDisplacement] else []) @
     (case section_size of
        None \<Rightarrow> []
      | Some n \<Rightarrow>
          if sint (cd_displacement d) < 0 \<or>
             (case checked_add (ucast (cd_displacement d)) (ucast width) of
                None \<Rightarrow> True | Some stop \<Rightarrow> n < stop)
          then [WriteOutsideSection] else []) @
     (if file = None then [WriteOutsideFileMapping] else [])"

definition count_classic :: "classic_detail \<Rightarrow> audit_summary \<Rightarrow> audit_summary" where
  "count_classic d s =
     s\<lparr> su_classic_records := su_classic_records s + 1,
        su_classic_types := bump (su_classic_types s) (unat (cd_relocation_type d)),
        su_classic_width_exponents := bump (su_classic_width_exponents s) (unat (cd_length_exponent d)),
        su_classic_negative_displacements := su_classic_negative_displacements s +
          (if sint (cd_displacement d) < 0 then 1 else 0),
        su_classic_pc_relative := su_classic_pc_relative s + (if cd_pc_relative d then 1 else 0),
        su_classic_external := su_classic_external s + (if cd_external d then 1 else 0) \<rparr>"

definition classic_file ::
  "audit_context \<Rightarrow> mapping_entry list \<Rightarrow> u64 option \<Rightarrow> u8 \<Rightarrow> audit_error + u64 option" where
  "classic_file C maps address width =
     (case address of
        None \<Rightarrow> Inr None
      | Some a \<Rightarrow>
          and_then (file_location maps a (ucast width)) (\<lambda>file.
          case file of
            None \<Rightarrow> Inr None
          | Some off \<Rightarrow>
              and_then (file_location (ac_outer C) a (ucast width)) (\<lambda>outer.
              Inr (if outer = Some off then Some off else None))))"

definition classic_record ::
  "(audit_reservation \<Rightarrow> bool) \<Rightarrow> audit_context \<Rightarrow> nat \<Rightarrow> u64 option \<Rightarrow> mapping_entry list \<Rightarrow>
   classic_table \<Rightarrow> file_range \<Rightarrow> u64 option \<Rightarrow> audit_state \<Rightarrow> u64 \<Rightarrow> audit_error + audit_state" where
  "classic_record R C image_index section_size maps table r base a at =
     and_then (au_add (fr_offset r) at) (\<lambda>offset.
     and_then (au_u32_at (ac_source C) offset) (\<lambda>displacement.
     and_then (plus_checked offset 4) (\<lambda>info_offset.
     and_then (au_u32_at (ac_source C) info_offset) (\<lambda>info.
     let kind = ucast (drop_bit 28 info) :: u8;
         len = ucast (drop_bit 25 info AND 3) :: u8;
         width = push_bit (unat len) 1 :: u8;
         pc = (info AND push_bit 24 1 \<noteq> 0);
         external = (info AND push_bit 27 1 \<noteq> 0);
         address = (case base of None \<Rightarrow> None | Some b \<Rightarrow> checked_add_signed b displacement)
     in
     and_then (classic_file C maps address width) (\<lambda>file.
     and_then (case file of
                 None \<Rightarrow> Inr None
               | Some off \<Rightarrow> and_then (word_at (ac_source C) off width) (\<lambda>w. Inr (Some w))) (\<lambda>stored_value.
     let d = \<lparr> cd_table = table, cd_displacement = displacement,
               cd_symbol_ordinal = info AND 0xffffff, cd_relocation_type = kind,
               cd_length_exponent = len, cd_pc_relative = pc, cd_external = external,
               cd_stored_value = stored_value \<rparr>
     in
     and_then (add_record R C
        \<lparr> ar_image_index = image_index, ar_source_record_offset = offset,
          ar_write_address = address, ar_write_file_offset = file, ar_width = width,
          ar_member_overlap = find_member_overlap C address width, ar_detail = Classic d \<rparr> a)
        (\<lambda>(index, a).
     try_fold (\<lambda>a code. add_issue R C code image_index (Some index) None a)
       (a\<lparr> as_summary := count_classic d (as_summary a) \<rparr>)
       (classic_codes section_size table base d width address file))))))))"

text \<open>The steps \<^verbatim>\<open>(0..size).step_by(8)\<close>.\<close>

definition steps_of_8 :: "u64 \<Rightarrow> u64 list" where
  "steps_of_8 n = List.map (\<lambda>k. of_nat (8 * k)) [0..<(unat n + 7) div 8]"

definition classic ::
  "(audit_reservation \<Rightarrow> bool) \<Rightarrow> audit_context \<Rightarrow> nat \<Rightarrow> u64 option \<Rightarrow> mapping_entry list \<Rightarrow>
   classic_table \<Rightarrow> file_range \<Rightarrow> u64 option \<Rightarrow> audit_state \<Rightarrow> audit_error + audit_state" where
  "classic R C image_index section_size maps table r base a =
     try_fold (classic_record R C image_index section_size maps table r base) a
       (steps_of_8 (fr_size r))"

section \<open>Chained fixups\<close>

definition count_chain :: "u64 \<Rightarrow> u16 \<Rightarrow> chain_detail \<Rightarrow> audit_summary \<Rightarrow> audit_summary" where
  "count_chain in_page page_size d s =
     s\<lparr> su_chain_records := su_chain_records s + 1,
        su_chain_page_straddling_words := su_chain_page_straddling_words s +
          (if unat page_size < unat in_page + 8 then 1 else 0),
        su_chain_cache_levels := bump (su_chain_cache_levels s) (unat (ch_cache_level d)),
        su_authenticated_words := su_authenticated_words s + (if ch_authenticated d then 1 else 0),
        su_primary_pointer_targets_covered := su_primary_pointer_targets_covered s +
          (if ch_target_in_primary_mapping d then 1 else 0) \<rparr>"

definition chain_codes :: "audit_context \<Rightarrow> chain_detail \<Rightarrow> issue_code list" where
  "chain_codes C d =
     (if ch_cache_level d \<noteq> 0 \<or> ac_primary_base C = 0 then [MissingCacheBase]
      else if ch_resolved_target d = None then [PointerTargetOverflow]
      else if \<not> ch_target_in_primary_mapping d then [PointerTargetOutsideMappings] else []) @
     (if ch_authenticated d then [UnsupportedAuthentication] else [])"

definition chain_word ::
  "audit_context \<Rightarrow> nat \<Rightarrow> nat \<Rightarrow> u64 \<Rightarrow> chain_detail" where
  "chain_word C segment_index page_index w =
     (let target = ucast (w AND 0x3fffffff) :: u32;
          cache = ucast (drop_bit 30 w AND 3) :: u8;
          resolved = (if cache = 0 \<and> ac_primary_base C \<noteq> 0
                      then checked_add (ac_primary_base C) (ucast target) else None)
      in \<lparr> ch_segment_index = segment_index, ch_page_index = page_index,
           ch_target_offset = target, ch_cache_level = cache,
           ch_diversity = ucast (drop_bit 32 w AND 0xffff),
           ch_address_diversity = (w AND push_bit 48 1 \<noteq> 0),
           ch_key = ucast (drop_bit 49 w AND 3), ch_next = ucast (drop_bit 51 w AND 0xfff),
           ch_authenticated = (drop_bit 63 w \<noteq> 0), ch_resolved_target = resolved,
           ch_target_in_primary_mapping =
             (case resolved of None \<Rightarrow> False | Some t \<Rightarrow> containing (ac_outer C) t 1 \<noteq> None) \<rparr>)"

text \<open>One round of the loop along a chain: the next stride, or nothing where the loop is left.\<close>

definition chain_step ::
  "(audit_reservation \<Rightarrow> bool) \<Rightarrow> audit_context \<Rightarrow> nat \<Rightarrow> nat \<Rightarrow> nat \<Rightarrow> segment_metadata \<Rightarrow> u16 \<Rightarrow>
   u64 \<Rightarrow> u64 \<Rightarrow> audit_state \<Rightarrow> audit_error + audit_state \<times> u16 option" where
  "chain_step R C image_index segment_index page_index segm page_size page_offset in_page a =
     (let stop_with = (\<lambda>code. and_then (add_issue R C code image_index None None a) (\<lambda>a. Inr (a, None))) in
      if ucast page_size \<le> in_page then stop_with ChainOutsidePage
      else
      and_then (au_add page_offset in_page) (\<lambda>segment_offset.
      if (case checked_add segment_offset 8 of
            None \<Rightarrow> True
          | Some stop \<Rightarrow> fr_size (seg_file segm) < stop \<or> seg_memory_size segm < stop)
      then stop_with ChainOutsideFileMapping
      else
      and_then (au_add (seg_address segm) segment_offset) (\<lambda>address.
      and_then (au_add (fr_offset (seg_file segm)) segment_offset) (\<lambda>file.
      and_then (file_location (ac_outer C) address 8) (\<lambda>outer.
      if outer \<noteq> Some file then stop_with ChainOutsideFileMapping
      else
      and_then (word_at (ac_source C) file 8) (\<lambda>w.
      let d = chain_word C segment_index page_index w in
      and_then (add_record R C
         \<lparr> ar_image_index = image_index, ar_source_record_offset = file,
           ar_write_address = Some address, ar_write_file_offset = Some file, ar_width = 8,
           ar_member_overlap = find_member_overlap C (Some address) 8, ar_detail = Chain11 d \<rparr> a)
         (\<lambda>(index, a).
      and_then (try_fold (\<lambda>a code. add_issue R C code image_index (Some index) None a)
         (a\<lparr> as_summary := count_chain in_page page_size d (as_summary a) \<rparr>)
         (chain_codes C d)) (\<lambda>a.
      Inr (a, Some (ch_next d))))))))))"

definition end_chain :: "audit_state \<Rightarrow> audit_state" where
  "end_chain a = a\<lparr> as_summary := (as_summary a)\<lparr>
     su_chains_terminated := su_chains_terminated (as_summary a) + 1 \<rparr> \<rparr>"

function chain_loop ::
  "(audit_reservation \<Rightarrow> bool) \<Rightarrow> audit_context \<Rightarrow> nat \<Rightarrow> nat \<Rightarrow> nat \<Rightarrow> segment_metadata \<Rightarrow> u16 \<Rightarrow>
   u64 \<Rightarrow> u64 \<Rightarrow> audit_state \<Rightarrow> audit_error + audit_state" where
  "chain_loop R C image_index segment_index page_index segm page_size page_offset in_page a =
     (case chain_step R C image_index segment_index page_index segm page_size page_offset in_page a of
        Inl e \<Rightarrow> Inl e
      | Inr (a, None) \<Rightarrow> Inr a
      | Inr (a, Some stride) \<Rightarrow>
          if stride = 0 then Inr (end_chain a)
          else
          (case checked_add in_page (ucast stride) of
             None \<Rightarrow> Inl AU_Overflow
           | Some further \<Rightarrow>
               chain_loop R C image_index segment_index page_index segm page_size page_offset further a))"
  by pat_completeness auto

lemma checked_add_further:
  assumes "checked_add x (ucast (stride :: u16)) = Some (further :: u64)" "stride \<noteq> 0"
  shows "unat x < unat further"
proof -
  have "unat further = unat x + unat (ucast stride :: u64)" using assms(1) unfolding checked_add_Some by (auto simp: unat_add_exact)
  moreover have "unat (ucast stride :: u64) = unat stride" by (rule unat_ucast_up) simp
  moreover have "unat stride \<noteq> 0" using assms(2) by (simp add: unat_eq_0)
  ultimately show ?thesis by simp
qed

termination chain_loop
proof (relation "measure (\<lambda>(R, C, i, s, p, segm, n, po, in_page, a). 2 ^ 64 - unat in_page)", goal_cases)
  case 1 show ?case by simp
next
  case 2
  then show ?case using checked_add_further unat_u64_bound by (fastforce intro: diff_less_mono2)
qed

declare chain_loop.simps [simp del]

definition audit_chain ::
  "(audit_reservation \<Rightarrow> bool) \<Rightarrow> audit_context \<Rightarrow> nat \<Rightarrow> nat \<Rightarrow> nat \<Rightarrow> segment_metadata \<Rightarrow> u16 \<Rightarrow>
   u16 \<Rightarrow> audit_state \<Rightarrow> audit_error + audit_state" where
  "audit_chain R C image_index segment_index page_index segm page_size start a =
     (let a = a\<lparr> as_summary := (as_summary a)\<lparr>
        su_chain_starts := su_chain_starts (as_summary a) + 1 \<rparr> \<rparr> in
      and_then (ok_or (checked_mul (of_nat page_index) (ucast page_size)) AU_Overflow) (\<lambda>page_offset.
      chain_loop R C image_index segment_index page_index segm page_size page_offset (ucast start) a))"

section \<open>One image\<close>

text \<open>The starts of a page that has several, up to the one that is marked as the last.\<close>

function multi_starts ::
  "(audit_reservation \<Rightarrow> bool) \<Rightarrow> audit_context \<Rightarrow> nat \<Rightarrow> fixup_segment_metadata \<Rightarrow> nat \<Rightarrow>
   segment_metadata \<Rightarrow> u64 \<Rightarrow> u64 \<Rightarrow> audit_state \<Rightarrow> audit_error + audit_state" where
  "multi_starts R C index seg_info page segm info_end at a =
     and_then (page_start C a) (\<lambda>a.
     case checked_add at 2 of
       None \<Rightarrow> Inl AU_Overflow
     | Some further \<Rightarrow>
         if info_end < further then Inl AU_InvalidMetadata
         else
         and_then (au_u16_at (ac_source C) at) (\<lambda>start.
         and_then (audit_chain R C index (fs_segment_index seg_info) page segm (fs_page_size seg_info)
            (start AND 0x7fff) a) (\<lambda>a.
         if start AND 0x8000 \<noteq> 0 then Inr a
         else multi_starts R C index seg_info page segm info_end further a)))"
  by pat_completeness auto

termination multi_starts
proof (relation "measure (\<lambda>(R, C, i, s, p, segm, info_end, at, a). 2 ^ 64 - unat at)", goal_cases)
  case 1 show ?case by simp
next
  case (2 R C index seg_info page segm info_end at a a' further start b)
  from 2(2) have "unat further = unat at + unat (2 :: u64)"
    unfolding checked_add_Some by (auto simp: unat_add_exact)
  with unat_u64_bound [of further] show ?case by simp
qed

declare multi_starts.simps [simp del]

definition fixup_page ::
  "(audit_reservation \<Rightarrow> bool) \<Rightarrow> audit_context \<Rightarrow> nat \<Rightarrow> fixup_segment_metadata \<Rightarrow>
   segment_metadata \<Rightarrow> u64 \<Rightarrow> u64 \<Rightarrow> audit_state \<Rightarrow> nat \<Rightarrow> audit_error + audit_state" where
  "fixup_page R C index seg_info segm info info_end a page =
     and_then (page_start C a) (\<lambda>a.
     and_then (au_add info (22 + of_nat page * 2)) (\<lambda>at.
     and_then (au_u16_at (ac_source C) at) (\<lambda>first.
     if first = 0xffff then Inr a
     else if first AND 0x8000 = 0
     then audit_chain R C index (fs_segment_index seg_info) page segm (fs_page_size seg_info) first a
     else
     let s = as_summary a;
         a = a\<lparr> as_summary := s\<lparr> su_multi_start_pages := su_multi_start_pages s + 1 \<rparr> \<rparr> in
     and_then (add_issue R C UnsupportedMultiStartConsumer index None None a) (\<lambda>a.
     and_then (au_add info (22 + ucast (first AND 0x7fff) * 2)) (\<lambda>at.
     multi_starts R C index seg_info page segm info_end at a)))))"

definition fixup_segment ::
  "(audit_reservation \<Rightarrow> bool) \<Rightarrow> audit_context \<Rightarrow> nat \<Rightarrow> image_metadata \<Rightarrow> u64 \<Rightarrow> audit_state \<Rightarrow>
   fixup_segment_metadata \<Rightarrow> audit_error + audit_state" where
  "fixup_segment R C index img starts a seg_info =
     (if fs_pointer_format seg_info \<noteq> 11
      then add_issue R C UnsupportedPointerFormat index None None a
      else if length (im_segments img) \<le> fs_segment_index seg_info then Inl AU_Panic
      else
      let segm = im_segments img ! fs_segment_index seg_info in
      if fs_segment_offset seg_info \<noteq> seg_address segm - im_header_address img
      then Inl AU_InvalidMetadata
      else
      and_then (au_add starts (4 + of_nat (fs_segment_index seg_info) * 4)) (\<lambda>at.
      and_then (au_u32_at (ac_source C) at) (\<lambda>offset.
      and_then (au_add starts (ucast offset)) (\<lambda>info.
      and_then (au_u32_at (ac_source C) info) (\<lambda>n.
      and_then (au_add info (ucast n)) (\<lambda>info_end.
      try_fold (fixup_page R C index seg_info segm info info_end) a
        [0..<unat (fs_page_count seg_info)]))))))"

definition image_base :: "image_metadata \<Rightarrow> u64 option" where
  "image_base img =
     (if im_file_type img = 11
      then (case im_segments img of [] \<Rightarrow> None | s # _ \<Rightarrow> Some (seg_address s))
      else map_option seg_address (find (\<lambda>s. seg_initial_protection s AND 2 \<noteq> 0) (im_segments img)))"

definition image_fixups ::
  "(audit_reservation \<Rightarrow> bool) \<Rightarrow> audit_context \<Rightarrow> nat \<Rightarrow> image_metadata \<Rightarrow> chained_fixup_metadata \<Rightarrow>
   audit_state \<Rightarrow> audit_error + audit_state" where
  "image_fixups R C index img fixups a =
     and_then (if cf_imports_count fixups \<noteq> 0
               then add_issue R C UnsupportedImports index None None a else Inr a) (\<lambda>a.
     and_then (if cf_symbols_format fixups \<noteq> 0
               then add_issue R C UnsupportedCompressedSymbols index None None a else Inr a) (\<lambda>a.
     and_then (plus_checked (fr_offset (cf_file fixups)) 4) (\<lambda>at.
     and_then (au_u32_at (ac_source C) at) (\<lambda>offset.
     and_then (au_add (fr_offset (cf_file fixups)) (ucast offset)) (\<lambda>starts.
     try_fold (fixup_segment R C index img starts) a (cf_segments fixups))))))"

text \<open>The relocations of an image: its two dynamic tables, then the table of every section.\<close>

definition image_tables ::
  "image_metadata \<Rightarrow> (u64 option \<times> classic_table \<times> file_range \<times> u64 option) list" where
  "image_tables img =
     (case im_relocations img of
        None \<Rightarrow> []
      | Some reloc \<Rightarrow>
          [(None, LocalDynamic, rel_local reloc, image_base img),
           (None, ExternalDynamic, rel_external reloc, image_base img)]) @
     concat (List.map (\<lambda>segm. List.map (\<lambda>s. (Some (sec_size s), SectionTable, sec_relocations s, Some (sec_address s)))
       (seg_sections segm)) (im_segments img))"

definition audit_image ::
  "(audit_reservation \<Rightarrow> bool) \<Rightarrow> audit_context \<Rightarrow> audit_state \<Rightarrow> nat \<times> image_metadata \<Rightarrow>
   audit_error + audit_state" where
  "audit_image R C a = (\<lambda>(index, img).
     and_then (mappings R (im_segments img)) (\<lambda>maps.
     and_then (try_fold (\<lambda>a (section_size, table, r, base).
           classic R C index section_size maps table r base a) a (image_tables img)) (\<lambda>a.
     case im_chained_fixups img of
       None \<Rightarrow> Inr a
     | Some fixups \<Rightarrow> image_fixups R C index img fixups a)))"

section \<open>Overlapping writes\<close>

text \<open>
  The state of the sweep: the furthest end of each mechanism with its record, and the last word
  of a chain. \<open>sw_classic\<close> and \<open>sw_chained\<close> are the two entries of \<^verbatim>\<open>furthest\<close>.
\<close>

record sweep_state =
  sw_audit :: audit_state
  sw_classic :: "(u64 \<times> nat) option"
  sw_chained :: "(u64 \<times> nat) option"
  sw_last_chain :: "(u64 \<times> nat) option"

definition is_chained :: "audit_record \<Rightarrow> bool" where
  "is_chained r = (case ar_detail r of Classic _ \<Rightarrow> False | Chain11 _ \<Rightarrow> True)"

definition sweep_conflict ::
  "(audit_reservation \<Rightarrow> bool) \<Rightarrow> audit_context \<Rightarrow> bool \<Rightarrow> u64 \<Rightarrow> nat \<Rightarrow> nat \<Rightarrow> bool \<times> (u64 \<times> nat) option \<Rightarrow>
   audit_state \<Rightarrow> audit_error + audit_state" where
  "sweep_conflict R C mechanism address img index = (\<lambda>(kind, prior) a.
     case prior of
       None \<Rightarrow> Inr a
     | Some (prior_end, other) \<Rightarrow>
         if address < prior_end
         then add_issue R C (if kind = mechanism then SameMechanismWriteOverlap
                             else CrossMechanismWriteOverlap) img (Some index) (Some other) a
         else Inr a)"

definition extend_furthest :: "(u64 \<times> nat) option \<Rightarrow> u64 \<Rightarrow> nat \<Rightarrow> (u64 \<times> nat) option" where
  "extend_furthest prior stop index =
     (case prior of
        None \<Rightarrow> Some (stop, index)
      | Some (prior_end, other) \<Rightarrow> if prior_end < stop then Some (stop, index) else prior)"

definition sweep_record ::
  "(audit_reservation \<Rightarrow> bool) \<Rightarrow> audit_context \<Rightarrow> sweep_state \<Rightarrow> nat \<Rightarrow> audit_error + sweep_state" where
  "sweep_record R C w index =
     (let a = sw_audit w in
      if length (as_records a) \<le> index then Inl AU_Panic
      else
      let r = as_records a ! index in
      case ar_write_address r of
        None \<Rightarrow> Inl AU_Panic
      | Some address \<Rightarrow>
      and_then (au_add address (ucast (ar_width r))) (\<lambda>stop.
      let img = ar_image_index r; mechanism = is_chained r in
      and_then (if mechanism then
           (case sw_last_chain w of
              None \<Rightarrow> Inr a
            | Some (prior, other) \<Rightarrow>
                if prior = address
                then add_issue R C DuplicateChainVisit img (Some index) (Some other) a else Inr a)
         else Inr a) (\<lambda>a.
      and_then (sweep_conflict R C mechanism address img index (False, sw_classic w) a) (\<lambda>a.
      and_then (sweep_conflict R C mechanism address img index (True, sw_chained w) a) (\<lambda>a.
      Inr \<lparr> sw_audit = a,
             sw_classic = (if mechanism then sw_classic w else extend_furthest (sw_classic w) stop index),
             sw_chained = (if mechanism then extend_furthest (sw_chained w) stop index else sw_chained w),
             sw_last_chain = (if mechanism then Some (address, index) else sw_last_chain w) \<rparr>)))))"

fun count_issue :: "issue_code \<Rightarrow> issue_count list \<Rightarrow> issue_count list" where
  "count_issue code [] = [\<lparr> ic_code = code, ic_count = 1 \<rparr>]"
| "count_issue code (c # counts) =
     (if ic_code c = code then c\<lparr> ic_count := ic_count c + 1 \<rparr> # counts
      else c # count_issue code counts)"

definition file_backed_indices :: "audit_record list \<Rightarrow> nat list" where
  "file_backed_indices records =
     filter (\<lambda>i. ar_write_file_offset (records ! i) \<noteq> None) [0..<length records]"

definition audit_overlaps ::
  "(audit_reservation \<Rightarrow> bool) \<Rightarrow> audit_context \<Rightarrow> audit_state \<Rightarrow> audit_error + audit_state" where
  "audit_overlaps R C a =
     (if \<not> R (Reserve_Order (length (as_records a))) then Inl AU_AllocationFailed
      else
      let ordered = file_backed_indices (as_records a) in
      if list_ex (\<lambda>i. ar_write_address (as_records a ! i) = None) ordered then Inl AU_Panic
      else
      and_then (try_fold (sweep_record R C)
         \<lparr> sw_audit = a, sw_classic = None, sw_chained = None, sw_last_chain = None \<rparr>
         (sort_key (\<lambda>i. (the (ar_write_address (as_records a ! i)), i)) ordered)) (\<lambda>w.
      let a = sw_audit w; s = as_summary a in
      Inr (a\<lparr> as_summary := s\<lparr> su_issue_counts :=
        foldl (\<lambda>counts issue. count_issue (ai_code issue) counts) (su_issue_counts s) (as_issues a) \<rparr> \<rparr>)))"

section \<open>The audit\<close>

definition push_range ::
  "(audit_reservation \<Rightarrow> bool) \<Rightarrow> (u64 \<times> u64) list \<Rightarrow> segment_metadata \<Rightarrow> audit_error + (u64 \<times> u64) list" where
  "push_range R ranges s =
     and_then (au_add (seg_address s) (seg_memory_size s)) (\<lambda>stop.
     push_bounded (R (Reserve_Range (length ranges))) ranges (seg_address s, stop) 4096)"

text \<open>The ranges are sorted; \<open>merged\<close> is kept with its last element first.\<close>

definition merge_range :: "(u64 \<times> u64) list \<Rightarrow> u64 \<times> u64 \<Rightarrow> (u64 \<times> u64) list" where
  "merge_range merged = (\<lambda>(start, stop).
     case merged of
       [] \<Rightarrow> [(start, stop)]
     | (first, last_end) # earlier \<Rightarrow>
         if start \<le> last_end then (first, max last_end stop) # earlier
         else (start, stop) # merged)"

definition member_ranges ::
  "(audit_reservation \<Rightarrow> bool) \<Rightarrow> kc_metadata_inspection \<Rightarrow> u32 \<Rightarrow> audit_error + (u64 \<times> u64) list" where
  "member_ranges R inspection file_type =
     (let members = filter (\<lambda>m. im_file_type (fm_image m) = file_type) (ki_members inspection);
          segments = concat (List.map (\<lambda>m. filter (\<lambda>s. seg_memory_size s \<noteq> 0) (im_segments (fm_image m))) members)
      in
      and_then (try_fold (push_range R) [] segments) (\<lambda>ranges.
      if \<not> R (Reserve_Merged (length ranges)) then Inl AU_AllocationFailed
      else Inr (rev (foldl merge_range [] (sort ranges)))))"

definition limits_ok :: "audit_limits \<Rightarrow> bool" where
  "limits_ok limits \<longleftrightarrow>
     \<not> (al_records limits = 0 \<or> MAX_AUDIT_RECORDS < al_records limits \<or>
        al_issues limits = 0 \<or> MAX_AUDIT_ISSUES < al_issues limits \<or>
        al_page_starts limits = 0 \<or> MAX_AUDIT_PAGE_STARTS < al_page_starts limits)"

definition primary_base_of :: "segment_metadata list \<Rightarrow> u64 option" where
  "primary_base_of segments =
     (case List.map seg_address segments of [] \<Rightarrow> None | x # xs \<Rightarrow> Some (fold min xs x))"

definition audit_kernel_collection_with_limits ::
  "(audit_reservation \<Rightarrow> bool) \<Rightarrow> byte_string \<Rightarrow> audit_limits \<Rightarrow> audit_error + kc_fixup_audit" where
  "audit_kernel_collection_with_limits R source limits =
     (if \<not> limits_ok limits then Inl AU_InvalidLimits
      else
      and_then (map_err AU_Metadata (inspect_kernel_collection source)) (\<lambda>inspection.
      and_then (ok_or (primary_base_of (im_segments (ki_collection inspection))) AU_InvalidMetadata)
        (\<lambda>primary_base.
      and_then (mappings R (im_segments (ki_collection inspection))) (\<lambda>outer.
      and_then (member_ranges R inspection 2) (\<lambda>executable.
      and_then (member_ranges R inspection 11) (\<lambda>kext.
      let C = \<lparr> ac_source = source, ac_limits = limits, ac_outer = outer, ac_executable = executable,
                ac_kext = kext, ac_primary_base = primary_base \<rparr>;
          empty = \<lparr> as_summary = default_summary, as_records = [], as_issues = [] \<rparr>
      in
      and_then (try_fold (audit_image R C) empty
         (enumerate 0 (ki_collection inspection # List.map fm_image (ki_members inspection)))) (\<lambda>a.
      and_then (audit_overlaps R C a) (\<lambda>a.
      Inr \<lparr> fa_summary = as_summary a, fa_records = as_records a, fa_issues = as_issues a,
             fa_primary_base = primary_base \<rparr>))))))))"

definition audit_kernel_collection ::
  "(audit_reservation \<Rightarrow> bool) \<Rightarrow> byte_string \<Rightarrow> audit_error + kc_fixup_audit" where
  "audit_kernel_collection R source = audit_kernel_collection_with_limits R source default_limits"

end
