(* ===== verification/Kc_Fixup_Audit_Proofs.thy ===== *)
theory Kc_Fixup_Audit_Proofs
  imports Kc_Fixup_Audit Kernel_Collection_Proofs
begin

text \<open>
  What an audit records: every record is true of the source, an audit without issues has only
  records that are within the supported forms, and the sweep over the writes reports an issue
  exactly where two of them overlap. What an operation adds to the state of the audit is the
  relation \<open>audit_extends\<close>, which all loops preserve.
\<close>

section \<open>What an operation adds\<close>

definition stored_word :: "audit_context \<Rightarrow> audit_record \<Rightarrow> u64 \<Rightarrow> bool" where
  "stored_word C r w \<longleftrightarrow>
     (case ar_detail r of
        Classic d \<Rightarrow> cd_stored_value d = Some w
      | Chain11 d \<Rightarrow> d = chain_word C (ch_segment_index d) (ch_page_index d) w)"

definition true_record :: "audit_context \<Rightarrow> audit_record \<Rightarrow> bool" where
  "true_record C r \<longleftrightarrow>
     ar_width r \<in> {1, 2, 4, 8} \<and>
     ar_member_overlap r = find_member_overlap C (ar_write_address r) (ar_width r) \<and>
     (case ar_write_file_offset r of
        None \<Rightarrow> (case ar_detail r of Classic d \<Rightarrow> cd_stored_value d = None | Chain11 _ \<Rightarrow> False)
      | Some off \<Rightarrow>
          \<exists>address w. ar_write_address r = Some address \<and>
            file_location (ac_outer C) address (ucast (ar_width r)) = Inr (Some off) \<and>
            word_at (ac_source C) off (ar_width r) = Inr w \<and> stored_word C r w)"

text \<open>The forms that raise no issue.\<close>

definition clean_record :: "audit_record \<Rightarrow> bool" where
  "clean_record r \<longleftrightarrow>
     ar_write_file_offset r \<noteq> None \<and>
     (case ar_detail r of
        Classic d \<Rightarrow>
          cd_relocation_type d = 0 \<and> cd_length_exponent d \<in> {2, 3} \<and> \<not> cd_pc_relative d \<and>
          \<not> cd_external d \<and> cd_table d \<noteq> ExternalDynamic \<and>
          (cd_table d = SectionTable \<longrightarrow> 0 \<le> sint (cd_displacement d))
      | Chain11 d \<Rightarrow>
          ch_cache_level d = 0 \<and> ch_resolved_target d \<noteq> None \<and> ch_target_in_primary_mapping d \<and>
          \<not> ch_authenticated d)"

definition audit_extends :: "audit_context \<Rightarrow> audit_state \<Rightarrow> audit_state \<Rightarrow> bool" where
  "audit_extends C a b \<longleftrightarrow>
     (\<exists>rs is. as_records b = as_records a @ rs \<and> as_issues b = as_issues a @ is \<and>
        (\<forall>r \<in> set rs. true_record C r) \<and> (is = [] \<longrightarrow> (\<forall>r \<in> set rs. clean_record r)) \<and>
        su_classic_records (as_summary b) =
          su_classic_records (as_summary a) + length (filter (\<lambda>r. \<not> is_chained r) rs) \<and>
        su_chain_records (as_summary b) =
          su_chain_records (as_summary a) + length (filter is_chained rs) \<and>
        su_issue_counts (as_summary b) = su_issue_counts (as_summary a))"

lemma audit_extends_refl [simp, intro]: "audit_extends C a a"
  unfolding audit_extends_def by (rule exI [of _ "[]"], rule exI [of _ "[]"]) simp

lemma audit_extends_trans [trans]:
  assumes "audit_extends C a b" and "audit_extends C b c"
  shows "audit_extends C a c"
proof -
  obtain rs1 is1 where 1: "as_records b = as_records a @ rs1" "as_issues b = as_issues a @ is1"
    "\<forall>r \<in> set rs1. true_record C r" "is1 = [] \<longrightarrow> (\<forall>r \<in> set rs1. clean_record r)"
    "su_classic_records (as_summary b) =
       su_classic_records (as_summary a) + length (filter (\<lambda>r. \<not> is_chained r) rs1)"
    "su_chain_records (as_summary b) = su_chain_records (as_summary a) + length (filter is_chained rs1)"
    "su_issue_counts (as_summary b) = su_issue_counts (as_summary a)"
    using assms(1) unfolding audit_extends_def by blast
  obtain rs2 is2 where 2: "as_records c = as_records b @ rs2" "as_issues c = as_issues b @ is2"
    "\<forall>r \<in> set rs2. true_record C r" "is2 = [] \<longrightarrow> (\<forall>r \<in> set rs2. clean_record r)"
    "su_classic_records (as_summary c) =
       su_classic_records (as_summary b) + length (filter (\<lambda>r. \<not> is_chained r) rs2)"
    "su_chain_records (as_summary c) = su_chain_records (as_summary b) + length (filter is_chained rs2)"
    "su_issue_counts (as_summary c) = su_issue_counts (as_summary b)"
    using assms(2) unfolding audit_extends_def by blast
  show ?thesis
    unfolding audit_extends_def
    by (rule exI [of _ "rs1 @ rs2"], rule exI [of _ "is1 @ is2"]) (use 1 2 in auto)
qed

lemma try_fold_extends:
  assumes "try_fold f a xs = Inr b" and "\<And>a b x. f a x = Inr b \<Longrightarrow> audit_extends C a b"
  shows "audit_extends C a b"
  by (rule try_fold_invariant [OF assms(1)]) (auto intro: audit_extends_trans assms(2))

lemma add_issue_Inr [result_iff]:
  "add_issue R C code img rec related a = Inr b \<longleftrightarrow>
     length (as_issues a) < al_issues (ac_limits C) \<and> R (Reserve_Issue (length (as_issues a))) \<and>
     b = a\<lparr> as_issues := as_issues a @ [\<lparr> ai_code = code, ai_image_index = img,
        ai_record_index = rec, ai_related_record_index = related \<rparr>] \<rparr>"
  by (auto simp: add_issue_def push_bounded_def result_iff split: if_splits)

lemma add_issue_extends: "add_issue R C code img rec related a = Inr b \<Longrightarrow> audit_extends C a b"
  by (auto simp: result_iff audit_extends_def)

lemma page_start_extends: "page_start C a = Inr b \<Longrightarrow> audit_extends C a b"
  by (auto simp: page_start_def audit_extends_def Let_def split: if_splits)

lemma add_codes_Inr:
  assumes "try_fold (\<lambda>a code. add_issue R C code img rec None a) a codes = Inr b"
  shows "as_records b = as_records a \<and> as_summary b = as_summary a \<and>
    as_issues b = as_issues a @ map (\<lambda>code. \<lparr> ai_code = code, ai_image_index = img,
        ai_record_index = rec, ai_related_record_index = None \<rparr>) codes"
  using assms
proof (induction codes arbitrary: a)
  case (Cons code codes)
  from Cons.prems obtain a1 where 1: "add_issue R C code img rec None a = Inr a1"
    and 2: "try_fold (\<lambda>a code. add_issue R C code img rec None a) a1 codes = Inr b"
    by (auto simp only: try_fold.simps and_then_Inr)
  show ?case using 1 Cons.IH [OF 2] by (auto simp: result_iff)
qed simp

lemma add_record_Inr [result_iff]:
  "add_record R C r a = Inr (index, b) \<longleftrightarrow>
     length (as_records a) < al_records (ac_limits C) \<and> R (Reserve_Record (length (as_records a))) \<and>
     index = length (as_records a) \<and>
     b = a\<lparr> as_summary := count_record r (as_summary a), as_records := as_records a @ [r] \<rparr>"
  by (auto simp: add_record_def push_bounded_def result_iff split: if_splits)

lemma count_record_keeps [simp]:
  "su_classic_records (count_record r s) = su_classic_records s"
  "su_chain_records (count_record r s) = su_chain_records s"
  "su_issue_counts (count_record r s) = su_issue_counts s"
  by (auto simp: count_record_def Let_def split: member_overlap.splits)

text \<open>A record with the issues of its codes.\<close>

lemma record_with_codes:
  assumes "add_record R C r a = Inr (index, a1)"
    and "try_fold (\<lambda>a code. add_issue R C code img (Some index) None a)
           (a1\<lparr> as_summary := s \<rparr>) codes = Inr b"
    and "true_record C r" and "codes = [] \<Longrightarrow> clean_record r"
    and "su_classic_records s = su_classic_records (as_summary a1) + (if is_chained r then 0 else 1)"
    and "su_chain_records s = su_chain_records (as_summary a1) + (if is_chained r then 1 else 0)"
    and "su_issue_counts s = su_issue_counts (as_summary a1)"
  shows "audit_extends C a b"
proof -
  have a1: "a1 = a\<lparr> as_summary := count_record r (as_summary a), as_records := as_records a @ [r] \<rparr>"
    using assms(1) by (simp add: result_iff)
  show ?thesis
    unfolding audit_extends_def
    by (rule exI [of _ "[r]"],
        rule exI [of _ "map (\<lambda>code. \<lparr> ai_code = code, ai_image_index = img,
          ai_record_index = Some index, ai_related_record_index = None \<rparr>) codes"])
      (use add_codes_Inr [OF assms(2)] assms(3-7) a1 in auto)
qed

section \<open>Classic relocations\<close>

lemma length_field: "ucast (drop_bit 25 (info :: u32) AND 3) < (4 :: u8)"
proof -
  have "drop_bit 25 info AND 3 \<le> (3 :: u32)" by (rule word_and_le1)
  then have "unat (drop_bit 25 info AND 3) < 4" by (simp add: word_le_nat_alt)
  then show ?thesis
    by (simp add: word_less_nat_alt unsigned_ucast_eq)
       (metis take_bit_nat_less_eq_self le_less_trans)
qed

lemma width_of_exponent:
  assumes "l < (4 :: u8)"
  shows "(push_bit (unat l) 1 :: u8) \<in> {1, 2, 4, 8}"
proof -
  have "unat l < 4" using assms by (simp add: word_less_nat_alt)
  then have "unat l = 0 \<or> unat l = 1 \<or> unat l = 2 \<or> unat l = 3" by linarith
  then show ?thesis by (auto simp: push_bit_eq_mult)
qed

lemma exponent_cases:
  assumes "l < (4 :: u8)" "\<not> l < 2"
  shows "l = 2 \<or> l = 3"
proof -
  have "unat l < 4" "\<not> unat l < 2" using assms by (simp_all add: word_less_nat_alt)
  then have "unat l = unat (2 :: u8) \<or> unat l = unat (3 :: u8)" by simp linarith
  then show ?thesis by (simp only: word_unat_eq_iff)
qed

lemma classic_file_Inr:
  assumes "classic_file C maps address width = Inr (Some off)"
  shows "\<exists>a. address = Some a \<and> file_location maps a (ucast width) = Inr (Some off) \<and>
    file_location (ac_outer C) a (ucast width) = Inr (Some off)"
  using assms by (auto simp: classic_file_def result_iff split: option.splits if_splits)

lemma classic_true_record:
  assumes "width \<in> {1, 2, 4, 8}" and "classic_file C maps address width = Inr fl"
    and "(case fl of None \<Rightarrow> Inr None
          | Some off \<Rightarrow> and_then (word_at (ac_source C) off width) (\<lambda>w. Inr (Some w))) = Inr (cd_stored_value d)"
    and "r = \<lparr> ar_image_index = i, ar_source_record_offset = offset, ar_write_address = address,
        ar_write_file_offset = fl, ar_width = width,
        ar_member_overlap = find_member_overlap C address width, ar_detail = Classic d \<rparr>"
  shows "true_record C r"
proof (cases fl)
  case None
  then show ?thesis using assms by (auto simp: true_record_def)
next
  case (Some off)
  then obtain a where a: "address = Some a" "file_location (ac_outer C) a (ucast width) = Inr (Some off)"
    using classic_file_Inr assms(2) by blast
  from assms(3) obtain w where w: "word_at (ac_source C) off width = Inr w" "cd_stored_value d = Some w"
    unfolding Some by (auto simp: result_iff)
  show ?thesis unfolding true_record_def stored_word_def using assms(1) a w by (simp add: assms(4) Some)
qed

lemma classic_record_extends:
  assumes "classic_record R C image_index section_size maps table r base a at = Inr b"
  shows "audit_extends C a b"
proof -
  obtain offset displacement info_offset info fl stored index a1 where
    in_file: "classic_file C maps (case base of None \<Rightarrow> None | Some b \<Rightarrow> checked_add_signed b displacement)
       (push_bit (unat (ucast (drop_bit 25 info AND 3) :: u8)) 1) = Inr fl"
    and stored: "(case fl of None \<Rightarrow> Inr None
        | Some off \<Rightarrow> and_then (word_at (ac_source C) off
             (push_bit (unat (ucast (drop_bit 25 info AND 3) :: u8)) 1)) (\<lambda>w. Inr (Some w))) = Inr stored"
    and rest: "add_record R C
        \<lparr> ar_image_index = image_index, ar_source_record_offset = offset,
          ar_write_address = (case base of None \<Rightarrow> None | Some b \<Rightarrow> checked_add_signed b displacement),
          ar_write_file_offset = fl,
          ar_width = push_bit (unat (ucast (drop_bit 25 info AND 3) :: u8)) 1,
          ar_member_overlap = find_member_overlap C
             (case base of None \<Rightarrow> None | Some b \<Rightarrow> checked_add_signed b displacement)
             (push_bit (unat (ucast (drop_bit 25 info AND 3) :: u8)) 1),
          ar_detail = Classic \<lparr> cd_table = table, cd_displacement = displacement,
               cd_symbol_ordinal = info AND 0xffffff, cd_relocation_type = ucast (drop_bit 28 info),
               cd_length_exponent = ucast (drop_bit 25 info AND 3),
               cd_pc_relative = (info AND push_bit 24 1 \<noteq> 0),
               cd_external = (info AND push_bit 27 1 \<noteq> 0),
               cd_stored_value = stored \<rparr> \<rparr> a = Inr (index, a1)"
    and codes: "try_fold (\<lambda>a code. add_issue R C code image_index (Some index) None a)
       (a1\<lparr> as_summary := count_classic \<lparr> cd_table = table, cd_displacement = displacement,
               cd_symbol_ordinal = info AND 0xffffff, cd_relocation_type = ucast (drop_bit 28 info),
               cd_length_exponent = ucast (drop_bit 25 info AND 3),
               cd_pc_relative = (info AND push_bit 24 1 \<noteq> 0),
               cd_external = (info AND push_bit 27 1 \<noteq> 0),
               cd_stored_value = stored \<rparr> (as_summary a1) \<rparr>)
       (classic_codes section_size table base \<lparr> cd_table = table, cd_displacement = displacement,
               cd_symbol_ordinal = info AND 0xffffff, cd_relocation_type = ucast (drop_bit 28 info),
               cd_length_exponent = ucast (drop_bit 25 info AND 3),
               cd_pc_relative = (info AND push_bit 24 1 \<noteq> 0),
               cd_external = (info AND push_bit 27 1 \<noteq> 0),
               cd_stored_value = stored \<rparr>
           (push_bit (unat (ucast (drop_bit 25 info AND 3) :: u8)) 1)
           (case base of None \<Rightarrow> None | Some b \<Rightarrow> checked_add_signed b displacement) fl) = Inr b"
    using assms unfolding classic_record_def Let_def and_then_Inr split_paired_Ex prod.case
    by (elim exE conjE) (rule that, assumption+)
  let ?l = "ucast (drop_bit 25 info AND 3) :: u8"
  note l = length_field [of info]
  show ?thesis
  proof (rule record_with_codes [OF rest codes])
    show "true_record C \<lparr> ar_image_index = image_index, ar_source_record_offset = offset,
          ar_write_address = (case base of None \<Rightarrow> None | Some b \<Rightarrow> checked_add_signed b displacement),
          ar_write_file_offset = fl, ar_width = push_bit (unat ?l) 1,
          ar_member_overlap = find_member_overlap C
             (case base of None \<Rightarrow> None | Some b \<Rightarrow> checked_add_signed b displacement) (push_bit (unat ?l) 1),
          ar_detail = Classic \<lparr> cd_table = table, cd_displacement = displacement,
               cd_symbol_ordinal = info AND 0xffffff, cd_relocation_type = ucast (drop_bit 28 info),
               cd_length_exponent = ?l, cd_pc_relative = (info AND push_bit 24 1 \<noteq> 0),
               cd_external = (info AND push_bit 27 1 \<noteq> 0), cd_stored_value = stored \<rparr> \<rparr>"
      by (rule classic_true_record [OF width_of_exponent [OF l] in_file _ refl]) (simp add: stored)
  qed (use exponent_cases [OF l] in
      \<open>auto simp: classic_codes_def clean_record_def count_classic_def is_chained_def
        split: if_splits option.splits\<close>)
qed

lemma classic_extends:
  assumes "classic R C image_index section_size maps table r base a = Inr b"
  shows "audit_extends C a b"
  using assms unfolding classic_def by (rule try_fold_extends) (rule classic_record_extends)

section \<open>Chained fixups\<close>

lemma chain_step_extends:
  assumes "chain_step R C image_index si pi segm page_size page_offset in_page a = Inr (b, stride)"
  shows "audit_extends C a b"
proof (cases stride)
  case None
  then show ?thesis
    using assms by (auto simp: chain_step_def Let_def audit_extends_def result_iff split: if_splits)
next
  case (Some further)
  obtain segment_offset address fl outer w index a1 where
    outer: "file_location (ac_outer C) address 8 = Inr outer" "\<not> outer \<noteq> Some fl"
    and w: "word_at (ac_source C) fl 8 = Inr w"
    and rest: "add_record R C
         \<lparr> ar_image_index = image_index, ar_source_record_offset = fl,
           ar_write_address = Some address, ar_write_file_offset = Some fl, ar_width = 8,
           ar_member_overlap = find_member_overlap C (Some address) 8,
           ar_detail = Chain11 (chain_word C si pi w) \<rparr> a = Inr (index, a1)"
    and codes: "try_fold (\<lambda>a code. add_issue R C code image_index (Some index) None a)
         (a1\<lparr> as_summary := count_chain in_page page_size (chain_word C si pi w) (as_summary a1) \<rparr>)
         (chain_codes C (chain_word C si pi w)) = Inr b"
    using assms unfolding Some chain_step_def Let_def and_then_Inr split_paired_Ex prod.case
    by (auto simp: result_iff split: if_splits)
  show ?thesis
  proof (rule record_with_codes [OF rest codes])
    show "true_record C \<lparr> ar_image_index = image_index, ar_source_record_offset = fl,
        ar_write_address = Some address, ar_write_file_offset = Some fl, ar_width = 8,
        ar_member_overlap = find_member_overlap C (Some address) 8,
        ar_detail = Chain11 (chain_word C si pi w) \<rparr>"
      using outer w by (auto simp: true_record_def stored_word_def chain_word_def Let_def)
  qed (auto simp: chain_codes_def clean_record_def count_chain_def is_chained_def split: if_splits)
qed

lemma end_chain_extends: "audit_extends C a (end_chain a)"
  by (auto simp: audit_extends_def end_chain_def)

lemma chain_loop_extends:
  "chain_loop R C i si pi segm page_size page_offset in_page a = Inr b \<Longrightarrow> audit_extends C a b"
proof (induction R C i si pi segm page_size page_offset in_page a rule: chain_loop.induct)
  case (1 R C i si pi segm page_size page_offset in_page a)
  show ?case
  proof (cases "chain_step R C i si pi segm page_size page_offset in_page a")
    case (Inl e)
    then show ?thesis using 1(2) by (subst (asm) chain_loop.simps) simp
  next
    case (Inr r)
    obtain a1 stride where r: "r = (a1, stride)" by (cases r)
    note step = chain_step_extends [OF Inr [unfolded r]]
    show ?thesis
    proof (cases stride)
      case None
      then show ?thesis using 1(2) Inr r step by (subst (asm) chain_loop.simps) simp
    next
      case (Some n)
      consider "n = 0" "b = end_chain a1"
        | further where "n \<noteq> 0" "checked_add in_page (ucast n) = Some further"
          "chain_loop R C i si pi segm page_size page_offset further a1 = Inr b"
        using 1(2) Inr r Some by (subst (asm) chain_loop.simps) (auto split: if_splits option.splits)
      then show ?thesis
      proof cases
        case 1
        then show ?thesis using audit_extends_trans [OF step end_chain_extends] by simp
      next
        case 2
        show ?thesis by (rule audit_extends_trans [OF step 1(1) [OF Inr r [symmetric] Some 2]])
      qed
    qed
  qed
qed

lemma chain_extends:
  assumes "audit_chain R C i si pi segm page_size start a = Inr b"
  shows "audit_extends C a b"
proof -
  let ?a = "a\<lparr> as_summary := (as_summary a)\<lparr> su_chain_starts := su_chain_starts (as_summary a) + 1 \<rparr> \<rparr>"
  have "audit_extends C a ?a" by (simp add: audit_extends_def)
  moreover have "audit_extends C ?a b"
    using assms by (auto simp: audit_chain_def Let_def result_iff intro: chain_loop_extends)
  ultimately show ?thesis by (rule audit_extends_trans)
qed

section \<open>Images\<close>

lemma multi_starts_extends:
  "multi_starts R C index seg_info page segm info_end at a = Inr b \<Longrightarrow> audit_extends C a b"
proof (induction R C index seg_info page segm info_end at a rule: multi_starts.induct)
  case (1 R C index seg_info page segm info_end at a)
  note unfolded = 1(2) [unfolded multi_starts.simps [of R C index seg_info page segm info_end at a]]
  from unfolded obtain a1 further start a2 where
    p: "page_start C a = Inr a1" and f: "checked_add at 2 = Some further" "\<not> info_end < further"
    and s: "au_u16_at (ac_source C) at = Inr start"
    and c: "audit_chain R C index (fs_segment_index seg_info) page segm (fs_page_size seg_info)
        (start AND 0x7fff) a1 = Inr a2"
    and rest: "(if start AND 0x8000 \<noteq> 0 then Inr a2
        else multi_starts R C index seg_info page segm info_end further a2) = Inr b"
    unfolding and_then_Inr by (auto simp: result_iff split: option.split_asm if_split_asm)
  have ext: "audit_extends C a a2"
    by (rule audit_extends_trans [OF page_start_extends [OF p] chain_extends [OF c]])
  show ?case
  proof (cases "start AND 0x8000 \<noteq> 0")
    case True
    then show ?thesis using rest ext by simp
  next
    case False
    then have "audit_extends C a2 b" using rest 1(1) [OF p f s c False] by simp
    then show ?thesis by (rule audit_extends_trans [OF ext])
  qed
qed

lemma fixup_page_extends:
  assumes "fixup_page R C index seg_info segm info info_end a page = Inr b"
  shows "audit_extends C a b"
proof -
  obtain a1 at first where p: "page_start C a = Inr a1"
    and rest: "(if first = 0xffff then Inr a1
      else if first AND 0x8000 = 0
      then audit_chain R C index (fs_segment_index seg_info) page segm (fs_page_size seg_info) first a1
      else and_then (add_issue R C UnsupportedMultiStartConsumer index None None
        (a1\<lparr> as_summary := (as_summary a1)\<lparr> su_multi_start_pages := su_multi_start_pages (as_summary a1) + 1 \<rparr> \<rparr>))
        (\<lambda>a. and_then (au_add info (22 + ucast (first AND 0x7fff) * 2)) (\<lambda>at.
          multi_starts R C index seg_info page segm info_end at a))) = Inr b"
    using assms unfolding fixup_page_def Let_def and_then_Inr by (elim exE conjE) (rule that)
  have "audit_extends C a1 b"
  proof (cases "first = 0xffff")
    case True
    then show ?thesis using rest by simp
  next
    case no_start: False
    show ?thesis
    proof (cases "first AND 0x8000 = 0")
      case True
      then show ?thesis using rest no_start by (auto intro: chain_extends)
    next
      case False
      let ?a = "a1\<lparr> as_summary := (as_summary a1)\<lparr> su_multi_start_pages := su_multi_start_pages (as_summary a1) + 1 \<rparr> \<rparr>"
      have "audit_extends C a1 ?a" by (simp add: audit_extends_def)
      moreover obtain a2 at2 where
        2: "add_issue R C UnsupportedMultiStartConsumer index None None ?a = Inr a2"
        "multi_starts R C index seg_info page segm info_end at2 a2 = Inr b"
        using rest no_start False by (auto simp only: if_False and_then_Inr)
      ultimately show ?thesis
        by (blast intro: audit_extends_trans add_issue_extends multi_starts_extends)
    qed
  qed
  then show ?thesis by (rule audit_extends_trans [OF page_start_extends [OF p]])
qed

lemma fixup_segment_extends:
  "fixup_segment R C index img starts a seg_info = Inr b \<Longrightarrow> audit_extends C a b"
  unfolding fixup_segment_def Let_def
  by (auto simp only: and_then_Inr if_Inl_Inr split: if_splits
      intro: add_issue_extends try_fold_extends [OF _ fixup_page_extends])

lemma image_fixups_extends:
  assumes "image_fixups R C index img fixups a = Inr b"
  shows "audit_extends C a b"
proof -
  obtain a1 a2 starts where
    1: "(if cf_imports_count fixups \<noteq> 0 then add_issue R C UnsupportedImports index None None a else Inr a) = Inr a1"
    and 2: "(if cf_symbols_format fixups \<noteq> 0
         then add_issue R C UnsupportedCompressedSymbols index None None a1 else Inr a1) = Inr a2"
    and 3: "try_fold (fixup_segment R C index img starts) a2 (cf_segments fixups) = Inr b"
    using assms unfolding image_fixups_def and_then_Inr by (elim exE conjE) (rule that)
  have "audit_extends C a a1" using 1 by (auto split: if_splits intro: add_issue_extends simp del: add_issue_Inr)
  moreover have "audit_extends C a1 a2" using 2 by (auto split: if_splits intro: add_issue_extends)
  moreover have "audit_extends C a2 b" by (rule try_fold_extends [OF 3 fixup_segment_extends])
  ultimately show ?thesis by (blast intro: audit_extends_trans)
qed

lemma audit_image_extends:
  assumes "audit_image R C a x = Inr b"
  shows "audit_extends C a b"
proof -
  obtain index img where x: "x = (index, img)" by (cases x)
  obtain maps a1 where
    1: "try_fold (\<lambda>a (section_size, table, r, base).
         classic R C index section_size maps table r base a) a (image_tables img) = Inr a1"
    and 2: "(case im_chained_fixups img of None \<Rightarrow> Inr a1
         | Some fixups \<Rightarrow> image_fixups R C index img fixups a1) = Inr b"
    using assms unfolding x audit_image_def prod.case and_then_Inr by (elim exE conjE) (rule that)
  have "audit_extends C a a1"
    by (rule try_fold_extends [OF 1]) (auto split: prod.splits intro: classic_extends)
  moreover have "audit_extends C a1 b"
    using 2 by (auto split: option.splits intro: image_fixups_extends)
  ultimately show ?thesis by (rule audit_extends_trans)
qed

end
