(* ===== verification/Kc_Fixup_Audit_Sweep.thy ===== *)
theory Kc_Fixup_Audit_Sweep
  imports Kc_Fixup_Audit_Proofs
begin

text \<open>
  The sweep over the writes of an audit: with the records in the order of their addresses, it
  compares each with the furthest end of either mechanism, and so reports an issue exactly when
  two writes overlap.
\<close>

section \<open>Writes\<close>

definition write_first :: "audit_record \<Rightarrow> nat" where
  "write_first r = unat (the (ar_write_address r))"

definition write_last :: "audit_record \<Rightarrow> nat" where
  "write_last r = write_first r + unat (ar_width r)"

definition writes_apart :: "audit_record \<Rightarrow> audit_record \<Rightarrow> bool" where
  "writes_apart r s \<longleftrightarrow> write_last r \<le> write_first s \<or> write_last s \<le> write_first r"

definition apart_at :: "audit_record list \<Rightarrow> nat set \<Rightarrow> bool" where
  "apart_at recs I \<longleftrightarrow> (\<forall>i \<in> I. \<forall>j \<in> I. i \<noteq> j \<longrightarrow> writes_apart (recs ! i) (recs ! j))"

lemma apart_at_insert:
  assumes "i \<notin> I" and "\<And>j. j \<in> I \<Longrightarrow> write_first (recs ! j) \<le> write_first (recs ! i)"
    and "ar_width (recs ! i) \<noteq> 0"
  shows "apart_at recs (insert i I) \<longleftrightarrow>
    apart_at recs I \<and> (\<forall>j \<in> I. write_last (recs ! j) \<le> write_first (recs ! i))"
proof -
  have pos: "write_first (recs ! i) < write_last (recs ! i)"
    using assms(3) by (simp add: write_last_def unat_gt_0)
  have one: "writes_apart (recs ! i) (recs ! j) \<longleftrightarrow> write_last (recs ! j) \<le> write_first (recs ! i)"
    if "j \<in> I" for j
    using assms(2) [OF that] pos by (auto simp: writes_apart_def)
  have sym: "writes_apart r s \<longleftrightarrow> writes_apart s r" for r s by (auto simp: writes_apart_def)
  show ?thesis
    unfolding apart_at_def using assms(1) one sym by (metis insert_iff)
qed

section \<open>The state of the sweep\<close>

definition furthest_ok :: "audit_record list \<Rightarrow> (nat \<Rightarrow> bool) \<Rightarrow> nat set \<Rightarrow> (u64 \<times> nat) option \<Rightarrow> bool" where
  "furthest_ok recs P I f \<longleftrightarrow>
     (case f of
        None \<Rightarrow> \<forall>i \<in> I. \<not> P i
      | Some (stop, k) \<Rightarrow> k \<in> I \<and> P k \<and> unat stop = write_last (recs ! k) \<and>
          (\<forall>i \<in> I. P i \<longrightarrow> write_last (recs ! i) \<le> unat stop))"

definition last_ok :: "audit_record list \<Rightarrow> nat set \<Rightarrow> (u64 \<times> nat) option \<Rightarrow> bool" where
  "last_ok recs I l \<longleftrightarrow>
     (case l of
        None \<Rightarrow> True
      | Some (address, k) \<Rightarrow> k \<in> I \<and> is_chained (recs ! k) \<and> unat address = write_first (recs ! k))"

definition sweep_ok :: "audit_record list \<Rightarrow> audit_issue list \<Rightarrow> nat set \<Rightarrow> sweep_state \<Rightarrow> bool" where
  "sweep_ok recs issues I w \<longleftrightarrow>
     as_records (sw_audit w) = recs \<and>
     (\<exists>is. as_issues (sw_audit w) = issues @ is \<and> (is = [] \<longleftrightarrow> apart_at recs I)) \<and>
     furthest_ok recs (\<lambda>i. \<not> is_chained (recs ! i)) I (sw_classic w) \<and>
     furthest_ok recs (\<lambda>i. is_chained (recs ! i)) I (sw_chained w) \<and>
     last_ok recs I (sw_last_chain w)"

lemma furthest_ok_extend:
  assumes "furthest_ok recs P I f" and "P i" and "unat stop = write_last (recs ! i)"
  shows "furthest_ok recs P (insert i I) (extend_furthest f stop i)"
  using assms by (fastforce simp: furthest_ok_def extend_furthest_def word_less_nat_alt split: option.splits)

lemma furthest_ok_keep: "furthest_ok recs P I f \<Longrightarrow> \<not> P i \<Longrightarrow> furthest_ok recs P (insert i I) f"
  by (auto simp: furthest_ok_def split: option.splits)

text \<open>What the comparison with one mechanism adds.\<close>

lemma sweep_conflict_Inr:
  assumes "sweep_conflict R C mechanism address img i (kind, f) a = Inr b"
    and "furthest_ok recs P I f"
  shows "as_records b = as_records a \<and> as_summary b = as_summary a \<and>
    (\<exists>is. as_issues b = as_issues a @ is \<and>
       (is = [] \<longleftrightarrow> (\<forall>j \<in> I. P j \<longrightarrow> write_last (recs ! j) \<le> unat address)))"
proof (cases f)
  case None
  then show ?thesis using assms by (auto simp: sweep_conflict_def furthest_ok_def)
next
  case (Some p)
  obtain stop k where p: "p = (stop, k)" by (cases p)
  have k: "k \<in> I" "P k" "unat stop = write_last (recs ! k)"
    "\<And>j. j \<in> I \<Longrightarrow> P j \<Longrightarrow> write_last (recs ! j) \<le> unat stop"
    using assms(2) by (auto simp: furthest_ok_def Some p)
  have "address < stop \<longleftrightarrow> \<not> (\<forall>j \<in> I. P j \<longrightarrow> write_last (recs ! j) \<le> unat address)"
    using k by (auto simp: word_less_nat_alt not_le intro: le_less_trans) (meson leD le_trans not_le)+
  then show ?thesis
    using assms(1) by (auto simp: sweep_conflict_def Some p result_iff split: if_splits)
qed

lemma sweep_record_Inr:
  assumes "sweep_record R C w i = Inr w'"
  obtains address stop a1 a2 a3 where
    "ar_write_address (as_records (sw_audit w) ! i) = Some address"
    "au_add address (ucast (ar_width (as_records (sw_audit w) ! i))) = Inr stop"
    "(if is_chained (as_records (sw_audit w) ! i) then (case sw_last_chain w of None \<Rightarrow> Inr (sw_audit w)
         | Some (prior, other) \<Rightarrow> if prior = address
             then add_issue R C DuplicateChainVisit (ar_image_index (as_records (sw_audit w) ! i))
               (Some i) (Some other) (sw_audit w)
             else Inr (sw_audit w)) else Inr (sw_audit w)) = Inr a1"
    "sweep_conflict R C (is_chained (as_records (sw_audit w) ! i)) address
       (ar_image_index (as_records (sw_audit w) ! i)) i (False, sw_classic w) a1 = Inr a2"
    "sweep_conflict R C (is_chained (as_records (sw_audit w) ! i)) address
       (ar_image_index (as_records (sw_audit w) ! i)) i (True, sw_chained w) a2 = Inr a3"
    "w' = \<lparr> sw_audit = a3,
         sw_classic = (if is_chained (as_records (sw_audit w) ! i) then sw_classic w
           else extend_furthest (sw_classic w) stop i),
         sw_chained = (if is_chained (as_records (sw_audit w) ! i)
           then extend_furthest (sw_chained w) stop i else sw_chained w),
         sw_last_chain = (if is_chained (as_records (sw_audit w) ! i) then Some (address, i)
           else sw_last_chain w) \<rparr>"
proof -
  obtain address where address: "ar_write_address (as_records (sw_audit w) ! i) = Some address"
    using assms by (auto simp: sweep_record_def Let_def split: option.splits if_splits)
  show thesis
    using assms unfolding sweep_record_def Let_def address option.case if_Inl_Inr and_then_Inr
    by (elim exE conjE) (rule that [OF address], assumption+, simp)
qed

lemma sweep_record_ok:
  assumes step: "sweep_record R C w i = Inr w'" and ok: "sweep_ok recs issues I w"
    and new: "i \<notin> I" and order: "\<And>j. j \<in> I \<Longrightarrow> write_first (recs ! j) \<le> write_first (recs ! i)"
    and pos: "\<And>j. j \<in> insert i I \<Longrightarrow> ar_width (recs ! j) \<noteq> 0"
  shows "sweep_ok recs issues (insert i I) w' \<and> as_summary (sw_audit w') = as_summary (sw_audit w)"
proof -
  have recs: "as_records (sw_audit w) = recs" using ok by (simp add: sweep_ok_def)
  obtain "is" where old: "as_issues (sw_audit w) = issues @ is" "is = [] \<longleftrightarrow> apart_at recs I"
    using ok unfolding sweep_ok_def by blast
  have fc: "furthest_ok recs (\<lambda>i. \<not> is_chained (recs ! i)) I (sw_classic w)"
    and fh: "furthest_ok recs (\<lambda>i. is_chained (recs ! i)) I (sw_chained w)"
    and fl: "last_ok recs I (sw_last_chain w)"
    using ok by (simp_all add: sweep_ok_def)
  let ?m = "is_chained (recs ! i)" and ?img = "ar_image_index (recs ! i)"
  obtain address stop a1 a2 a3 where
    address: "ar_write_address (recs ! i) = Some address"
    and stop: "au_add address (ucast (ar_width (recs ! i))) = Inr stop"
    and dup: "(if ?m then (case sw_last_chain w of None \<Rightarrow> Inr (sw_audit w)
         | Some (prior, other) \<Rightarrow> if prior = address
             then add_issue R C DuplicateChainVisit ?img (Some i) (Some other) (sw_audit w)
             else Inr (sw_audit w)) else Inr (sw_audit w)) = Inr a1"
    and c: "sweep_conflict R C ?m address ?img i (False, sw_classic w) a1 = Inr a2"
    and h: "sweep_conflict R C ?m address ?img i (True, sw_chained w) a2 = Inr a3"
    and w': "w' = \<lparr> sw_audit = a3,
         sw_classic = (if ?m then sw_classic w else extend_furthest (sw_classic w) stop i),
         sw_chained = (if ?m then extend_furthest (sw_chained w) stop i else sw_chained w),
         sw_last_chain = (if ?m then Some (address, i) else sw_last_chain w) \<rparr>"
    by (rule sweep_record_Inr [OF step, unfolded recs]) (rule that, assumption+)
  have first: "write_first (recs ! i) = unat address" by (simp add: write_first_def address)
  have stop_nat: "unat stop = write_last (recs ! i)"
    using stop by (simp add: au_add_def result_iff word_nat write_last_def first unat_ucast_up)
  obtain is1 where 1: "as_records a1 = recs" "as_summary a1 = as_summary (sw_audit w)"
    "as_issues a1 = as_issues (sw_audit w) @ is1"
    "is1 \<noteq> [] \<longrightarrow> \<not> (\<forall>j \<in> I. is_chained (recs ! j) \<longrightarrow> write_last (recs ! j) \<le> unat address)"
  proof (cases "\<exists>k. ?m \<and> sw_last_chain w = Some (address, k)")
    case True
    then obtain k where k: "?m" "sw_last_chain w = Some (address, k)" by blast
    then have "k \<in> I" "is_chained (recs ! k)" "write_first (recs ! k) = unat address"
      using fl by (auto simp: last_ok_def)
    moreover have "write_first (recs ! k) < write_last (recs ! k)"
      using pos \<open>k \<in> I\<close> by (simp add: write_last_def unat_gt_0)
    ultimately have "\<not> (\<forall>j \<in> I. is_chained (recs ! j) \<longrightarrow> write_last (recs ! j) \<le> unat address)" by auto
    then show ?thesis using dup k that by (auto simp: result_iff recs)
  next
    case False
    then have "a1 = sw_audit w" using dup by (auto split: option.splits if_splits)
    then show ?thesis using that [of "[]"] recs by simp
  qed
  obtain is2 where 2: "as_records a2 = as_records a1" "as_summary a2 = as_summary a1"
    "as_issues a2 = as_issues a1 @ is2"
    "is2 = [] \<longleftrightarrow> (\<forall>j \<in> I. \<not> is_chained (recs ! j) \<longrightarrow> write_last (recs ! j) \<le> unat address)"
    using sweep_conflict_Inr [OF c fc] by blast
  obtain is3 where 3: "as_records a3 = as_records a2" "as_summary a3 = as_summary a2"
    "as_issues a3 = as_issues a2 @ is3"
    "is3 = [] \<longleftrightarrow> (\<forall>j \<in> I. is_chained (recs ! j) \<longrightarrow> write_last (recs ! j) \<le> unat address)"
    using sweep_conflict_Inr [OF h fh] by blast
  have "ar_width (recs ! i) \<noteq> 0" by (rule pos) simp
  note inserted = apart_at_insert [of i I recs, OF new order this, unfolded first]
  have "(is1 @ is2 @ is3 = []) \<longleftrightarrow> (\<forall>j \<in> I. write_last (recs ! j) \<le> unat address)"
    using 1(4) 2(4) 3(4) by (cases "is1 = []") auto
  then have "is @ is1 @ is2 @ is3 = [] \<longleftrightarrow> apart_at recs (insert i I)"
    using old(2) inserted by simp
  moreover have "as_issues a3 = issues @ is @ is1 @ is2 @ is3" using old(1) 1(3) 2(3) 3(3) by simp
  moreover have "furthest_ok recs (\<lambda>i. \<not> is_chained (recs ! i)) (insert i I) (sw_classic w')"
    using furthest_ok_extend [OF fc _ stop_nat] furthest_ok_keep [OF fc] by (simp add: w')
  moreover have "furthest_ok recs (\<lambda>i. is_chained (recs ! i)) (insert i I) (sw_chained w')"
    using furthest_ok_extend [OF fh _ stop_nat] furthest_ok_keep [OF fh] by (simp add: w')
  moreover have "last_ok recs (insert i I) (sw_last_chain w')"
    using fl first by (auto simp: w' last_ok_def split: option.splits)
  ultimately show ?thesis
    using 1(1,2) 2(1,2) 3(1,2) by (auto simp: sweep_ok_def w')
qed

lemma sweep_all:
  assumes "try_fold (sweep_record R C) w is = Inr w'" and "sweep_ok recs issues I w"
    and "distinct is" and "set is \<inter> I = {}"
    and "sorted_wrt (\<lambda>i j. write_first (recs ! i) \<le> write_first (recs ! j)) is"
    and "\<And>i j. i \<in> I \<Longrightarrow> j \<in> set is \<Longrightarrow> write_first (recs ! i) \<le> write_first (recs ! j)"
    and "\<And>j. j \<in> I \<union> set is \<Longrightarrow> ar_width (recs ! j) \<noteq> 0"
  shows "sweep_ok recs issues (I \<union> set is) w' \<and> as_summary (sw_audit w') = as_summary (sw_audit w)"
  using assms
proof (induction "is" arbitrary: w I)
  case (Cons i "is")
  from Cons.prems(1) obtain w1 where w1: "sweep_record R C w i = Inr w1"
    and rest: "try_fold (sweep_record R C) w1 is = Inr w'"
    by (auto simp: result_iff)
  have step: "sweep_ok recs issues (insert i I) w1 \<and> as_summary (sw_audit w1) = as_summary (sw_audit w)"
    by (rule sweep_record_ok [OF w1 Cons.prems(2)]) (use Cons.prems(4,6,7) in auto)
  have "sweep_ok recs issues (insert i I \<union> set is) w' \<and> as_summary (sw_audit w') = as_summary (sw_audit w1)"
    by (rule Cons.IH [OF rest conjunct1 [OF step]]) (use Cons.prems(3-7) in auto)
  then show ?case using step by simp
qed auto

lemma sorted_by_address:
  assumes "\<And>i. i \<in> set xs \<Longrightarrow> ar_write_address (recs ! i) \<noteq> None"
  shows "sorted_wrt (\<lambda>i j. write_first (recs ! i) \<le> write_first (recs ! j))
    (sort_key (\<lambda>i. (the (ar_write_address (recs ! i)), i)) xs)"
proof -
  have "sorted (map (\<lambda>i. (the (ar_write_address (recs ! i)), i))
      (sort_key (\<lambda>i. (the (ar_write_address (recs ! i)), i)) xs))"
    by (rule sorted_sort_key)
  then show ?thesis
    by (auto simp: sorted_map write_first_def word_le_nat_alt less_eq_prod_def word_less_nat_alt
        elim!: sorted_wrt_mono_rel [rotated])
qed

definition file_backed :: "audit_record list \<Rightarrow> nat set" where
  "file_backed recs = {i. i < length recs \<and> ar_write_file_offset (recs ! i) \<noteq> None}"

lemma audit_overlaps_Inr:
  assumes "audit_overlaps R C a = Inr b" and "\<forall>r \<in> set (as_records a). true_record C r"
  shows "as_records b = as_records a \<and>
    (\<exists>is. as_issues b = as_issues a @ is \<and> (is = [] \<longleftrightarrow> apart_at (as_records a) (file_backed (as_records a)))) \<and>
    as_summary b = (as_summary a)\<lparr> su_issue_counts :=
      foldl (\<lambda>counts issue. count_issue (ai_code issue) counts) (su_issue_counts (as_summary a)) (as_issues b) \<rparr>"
proof -
  let ?recs = "as_records a"
  let ?xs = "sort_key (\<lambda>i. (the (ar_write_address (?recs ! i)), i)) (file_backed_indices ?recs)"
  obtain w where w: "try_fold (sweep_record R C)
        \<lparr> sw_audit = a, sw_classic = None, sw_chained = None, sw_last_chain = None \<rparr> ?xs = Inr w"
    and b: "b = (sw_audit w)\<lparr> as_summary := (as_summary (sw_audit w))\<lparr> su_issue_counts :=
        foldl (\<lambda>counts issue. count_issue (ai_code issue) counts)
          (su_issue_counts (as_summary (sw_audit w))) (as_issues (sw_audit w)) \<rparr> \<rparr>"
    and addr: "\<And>i. i \<in> set (file_backed_indices ?recs) \<Longrightarrow> ar_write_address (?recs ! i) \<noteq> None"
    using assms(1) by (auto simp: audit_overlaps_def Let_def result_iff list_ex_iff split: if_splits)
  have xs: "set ?xs = file_backed ?recs" by (auto simp: file_backed_indices_def file_backed_def)
  have "sweep_ok ?recs (as_issues a) ({} \<union> set ?xs) w \<and> as_summary (sw_audit w) =
      as_summary (sw_audit \<lparr> sw_audit = a, sw_classic = None, sw_chained = None, sw_last_chain = None \<rparr>)"
  proof (rule sweep_all [OF w])
    show "sweep_ok ?recs (as_issues a) {}
        \<lparr> sw_audit = a, sw_classic = None, sw_chained = None, sw_last_chain = None \<rparr>"
      by (simp add: sweep_ok_def furthest_ok_def last_ok_def apart_at_def)
    show "sorted_wrt (\<lambda>i j. write_first (?recs ! i) \<le> write_first (?recs ! j)) ?xs"
      by (rule sorted_by_address [OF addr])
    show "distinct ?xs" by (simp add: file_backed_indices_def)
    show "ar_width (?recs ! j) \<noteq> 0" if "j \<in> {} \<union> set ?xs" for j
    proof -
      have "?recs ! j \<in> set ?recs" using that xs by (auto simp: file_backed_def)
      then show ?thesis using assms(2) by (auto simp: true_record_def)
    qed
  qed auto
  then show ?thesis unfolding xs by (auto simp: sweep_ok_def b)
qed

end
