(* ===== verification/Kc_Fixup_Audit_Theorems.thy ===== *)
theory Kc_Fixup_Audit_Theorems
  imports Kc_Fixup_Audit_Sweep Kc_Staging_Proofs
begin

text \<open>
  The theorems on the audit of a collection: where its records write, which members they touch,
  and that an audit without issues has disjoint writes of the supported forms.
\<close>

section \<open>Mappings\<close>

lemma partition_point_less:
  assumes "i < partition_point P xs"
  shows "xs ! i \<in> set xs" and "P (xs ! i)"
proof -
  have i: "i < length (takeWhile P xs)" using assms by (simp add: partition_point_def)
  then have "takeWhile P xs ! i \<in> set (takeWhile P xs)" by simp
  moreover have "takeWhile P xs ! i = xs ! i" using i by (rule takeWhile_nth)
  ultimately show "xs ! i \<in> set xs" "P (xs ! i)" by (auto dest: set_takeWhileD)
qed

lemma containing_Some:
  assumes "containing maps address width = Some m"
  shows "m \<in> set maps \<and> unat (mp_start m) \<le> unat address \<and>
    unat address + unat width \<le> unat (mp_end m)"
proof -
  let ?n = "partition_point (\<lambda>m. mp_start m \<le> address) maps"
  have n: "?n - 1 < ?n" and m: "m = maps ! (?n - 1)" and stop: "unat address + unat width \<le> unat (mp_end m)"
    using assms by (auto simp: containing_def Let_def word_nat word_le_nat_alt split: if_splits option.splits)
  show ?thesis using partition_point_less [OF n] m stop by (simp add: word_le_nat_alt)
qed

lemma mappings_Inr:
  assumes "mappings R segments = Inr maps" and "m \<in> set maps"
  shows "\<exists>s \<in> set segments. mapping_of s = Inr m \<and> seg_memory_size s \<noteq> 0"
proof -
  obtain ms where ms: "list_all2 (\<lambda>x y. mapping_of x = Inr y) (filter (\<lambda>s. seg_memory_size s \<noteq> 0) segments) ms"
    and "maps = sort_key mp_start ms"
    using assms(1) by (auto simp: mappings_def result_iff split: if_splits)
  then have "m \<in> set ms" using assms(2) by simp
  from list_all2_set1 [OF ms this] show ?thesis by auto
qed

lemma mapping_of_nat:
  assumes "mapping_of s = Inr m"
  shows "mp_start m = seg_address s" and "mp_file_offset m = fr_offset (seg_file s)"
    and "unat (mp_end m) = unat (seg_address s) + unat (seg_memory_size s)"
    and "unat (mp_file_end m) = unat (seg_address s) + unat (fr_size (seg_file s))"
  using assms by (auto simp: mapping_of_def au_add_def result_iff word_nat)

text \<open>The place in the file of a range of addresses.\<close>

definition file_view :: "segment_metadata \<Rightarrow> nat \<Rightarrow> nat \<Rightarrow> nat \<Rightarrow> bool" where
  "file_view s address width off \<longleftrightarrow>
     unat (seg_address s) \<le> address \<and>
     address + width \<le> unat (seg_address s) + unat (fr_size (seg_file s)) \<and>
     off = unat (fr_offset (seg_file s)) + (address - unat (seg_address s))"

lemma file_location_Some:
  assumes "mappings R segments = Inr maps" and "file_location maps address width = Inr (Some off)"
  shows "\<exists>s \<in> set segments. file_view s (unat address) (unat width) (unat off)"
proof -
  obtain m inside where m: "containing maps address width = Some m"
    and stop: "unat address + unat width \<le> unat (mp_file_end m)"
    and inside: "checked_sub address (mp_start m) = Some inside"
    and off: "checked_add (mp_file_offset m) inside = Some off"
    using assms(2) unfolding file_location_def plus_checked_def
    by (auto simp: result_iff checked_add_Some word_le_nat_alt split: option.splits if_splits)
  obtain s where "s \<in> set segments" and s: "mapping_of s = Inr m"
    using mappings_Inr [OF assms(1)] containing_Some [OF m] by blast
  then show ?thesis
    using containing_Some [OF m] stop inside off mapping_of_nat [OF s]
    by (intro bexI [of _ s]) (auto simp: file_view_def word_nat)
qed

lemma le_value_pad: "le_value (b @ replicate n 0) = le_value b"
proof (induction b)
  case Nil
  have "le_value (replicate n 0) = 0" by (induction n) simp_all
  then show ?case by simp
qed simp

lemma au_raw_Inr:
  assumes "au_raw source at n = Inr b" and "n < 2 ^ 64"
  shows "unat at + n \<le> length source \<and> b = take n (drop (unat at) source)"
proof -
  obtain stop where stop: "checked_add at (of_nat n) = Some stop"
    and fits: "unat stop \<le> length source" and b: "get_range source (unat at) (unat stop) = Some b"
    using assms(1) by (auto simp: au_raw_def au_add_def result_iff not_less split: if_splits)
  have "unat (of_nat n :: u64) = n" using assms(2) by (simp add: unat_of_nat)
  then have "unat stop = unat at + n" using stop by (simp add: checked_add_Some)
  then show ?thesis using fits b by (auto simp: get_range_def split: if_splits)
qed

lemma word_at_Inr:
  assumes "word_at source off width = Inr w" and "length source < 2 ^ 64" and "width \<in> {1, 2, 4, 8}"
  shows "unat off + unat width \<le> length source \<and>
    unat w = le_value (take (unat width) (drop (unat off) source))"
proof -
  have small: "unat width \<le> 8" "unat (of_nat (unat width) :: u64) = unat width"
    using assms(3) by (auto simp: unat_of_nat)
  obtain b where raw: "au_raw source off (unat width) = Inr b"
    and w: "w = from_le_bytes (put_bytes (replicate 8 0) 0 b)"
    using assms(1) by (auto simp: word_at_def result_iff split: if_splits)
  have fits: "unat off + unat width \<le> length source"
    and b: "b = take (unat width) (drop (unat off) source)"
    using au_raw_Inr [OF raw] small by auto
  have len: "length b = unat width" using fits b by simp
  have "put_bytes (replicate 8 0) 0 b = b @ replicate (8 - unat width) 0"
    using len small(1) by (simp add: put_bytes_def)
  then have "unat w = le_value (b @ replicate (8 - unat width) 0)"
    using w len small(1) by (simp add: unat_from_le_bytes)
  also have "\<dots> = le_value b" by (rule le_value_pad)
  finally show ?thesis using fits b by simp
qed

section \<open>The members a write touches\<close>

definition covers :: "(u64 \<times> u64) list \<Rightarrow> nat \<Rightarrow> bool" where
  "covers rs p \<longleftrightarrow> (\<exists>(a, b) \<in> set rs. unat a \<le> p \<and> p < unat b)"

text \<open>Separated ranges, the last first.\<close>

definition separated :: "(u64 \<times> u64) list \<Rightarrow> bool" where
  "separated rs \<longleftrightarrow> sorted_wrt (\<lambda>r q. snd q < fst r) rs \<and> (\<forall>r \<in> set rs. fst r < snd r)"

lemma covers_simps [simp]:
  "\<not> covers [] p"
  "covers ((a, b) # rs) p \<longleftrightarrow> (unat a \<le> p \<and> p < unat b) \<or> covers rs p"
  by (auto simp: covers_def)

lemma merge_range_step:
  assumes "separated merged" and "start < stop" and "\<forall>r \<in> set merged. fst r \<le> start"
  shows "separated (merge_range merged (start, stop)) \<and>
    (\<forall>r \<in> set (merge_range merged (start, stop)). fst r \<le> start) \<and>
    (covers (merge_range merged (start, stop)) p \<longleftrightarrow>
       covers merged p \<or> (unat start \<le> p \<and> p < unat stop))"
proof (cases merged)
  case Nil
  then show ?thesis using assms(2) by (auto simp: merge_range_def separated_def)
next
  case (Cons r earlier)
  obtain first last_end where r: "r = (first, last_end)" by (cases r)
  have f: "first \<le> start" "first < last_end" "\<forall>q \<in> set earlier. snd q < first \<and> fst q < snd q"
    using assms(1,3) by (auto simp: Cons r separated_def)
  show ?thesis
  proof (cases "start \<le> last_end")
    case True
    have "first < max last_end stop" using f(2) by (simp add: less_max_iff_disj)
    moreover have "(unat first \<le> p \<and> p < unat (max last_end stop)) \<longleftrightarrow>
        (unat first \<le> p \<and> p < unat last_end) \<or> (unat start \<le> p \<and> p < unat stop)"
      using True f(1) assms(2) by (auto simp: word_le_nat_alt word_less_nat_alt max_def)
    ultimately show ?thesis
      using True f assms by (auto simp: Cons r merge_range_def separated_def)
  next
    case False
    then show ?thesis using f assms by (fastforce simp: Cons r merge_range_def separated_def)
  qed
qed

lemma merge_all:
  assumes "separated merged" and "\<forall>(a, b) \<in> set rs. a < b" and "sorted (map fst rs)"
    and "\<forall>r \<in> set merged. \<forall>q \<in> set rs. fst r \<le> fst q"
  shows "separated (foldl merge_range merged rs) \<and>
    (covers (foldl merge_range merged rs) p \<longleftrightarrow> covers merged p \<or> covers rs p)"
  using assms
proof (induction rs arbitrary: merged)
  case (Cons r rs)
  obtain start stop where r: "r = (start, stop)" by (cases r)
  have step: "separated (merge_range merged (start, stop))"
    "\<forall>q \<in> set (merge_range merged (start, stop)). fst q \<le> start"
    "covers (merge_range merged (start, stop)) p \<longleftrightarrow> covers merged p \<or> (unat start \<le> p \<and> p < unat stop)"
    using merge_range_step [of merged start stop p] Cons.prems r by auto
  have "separated (foldl merge_range (merge_range merged (start, stop)) rs) \<and>
    (covers (foldl merge_range (merge_range merged (start, stop)) rs) p \<longleftrightarrow>
       covers (merge_range merged (start, stop)) p \<or> covers rs p)"
  proof (rule Cons.IH [OF step(1)])
    show "\<forall>q \<in> set (merge_range merged (start, stop)). \<forall>s \<in> set rs. fst q \<le> fst s"
      using step(2) Cons.prems(3) by (fastforce simp: r)
  qed (use Cons.prems in auto)
  then show ?case using step(3) by (auto simp: r)
qed auto

text \<open>On separated ranges the last one that starts before the end decides.\<close>

lemma takeWhile_separated:
  assumes "sorted_wrt (\<lambda>q r. snd q < fst r) rs" and "\<forall>r \<in> set rs. fst r < (snd r :: u64)"
  shows "intersects rs start stop \<longleftrightarrow> (\<exists>r \<in> set rs. fst r < stop \<and> start < snd r)"
proof -
  let ?n = "partition_point (\<lambda>r. fst r < stop) rs"
  show ?thesis
  proof
    assume "intersects rs start stop"
    then have n: "?n - 1 < ?n" and "start < snd (rs ! (?n - 1))"
      by (auto simp: intersects_def Let_def)
    then show "\<exists>r \<in> set rs. fst r < stop \<and> start < snd r"
      using partition_point_less [OF n] by blast
  next
    assume "\<exists>r \<in> set rs. fst r < stop \<and> start < snd r"
    then obtain i where i: "i < length rs" "fst (rs ! i) < stop" "start < snd (rs ! i)"
      by (auto simp: in_set_conv_nth)
    have mono: "fst (rs ! j) < fst (rs ! k)" if "j < k" "k < length rs" for j k
    proof -
      have "snd (rs ! j) < fst (rs ! k)" using assms(1) that by (simp add: sorted_wrt_iff_nth_less)
      moreover have "fst (rs ! j) < snd (rs ! j)" using assms(2) that by simp
      ultimately show ?thesis by simp
    qed
    have "i < ?n"
    proof (rule ccontr)
      assume "\<not> i < ?n"
      then have "?n < length rs" "\<not> fst (rs ! ?n) < stop" "?n \<le> i"
        using i(1) nth_length_takeWhile [of "\<lambda>r. fst r < stop" rs] by (auto simp: partition_point_def)
      then show False using i mono [of ?n i] by (cases "?n = i") auto
    qed
    then have n: "?n - 1 < length rs" "i \<le> ?n - 1" "?n \<noteq> 0"
      using length_takeWhile_le [of "\<lambda>r. fst r < stop" rs] by (auto simp: partition_point_def)
    have "snd (rs ! i) \<le> snd (rs ! (?n - 1))"
    proof (cases "i = ?n - 1")
      case False
      then have "snd (rs ! i) < fst (rs ! (?n - 1))"
        using assms(1) n by (simp add: sorted_wrt_iff_nth_less)
      moreover have "fst (rs ! (?n - 1)) < snd (rs ! (?n - 1))" using assms(2) n by simp
      ultimately show ?thesis by simp
    qed simp
    then show "intersects rs start stop" using i(3) n(3) by (simp add: intersects_def Let_def)
  qed
qed

definition member_touched :: "kc_metadata_inspection \<Rightarrow> u32 \<Rightarrow> nat \<Rightarrow> nat \<Rightarrow> bool" where
  "member_touched insp file_type first stop \<longleftrightarrow>
     (\<exists>m \<in> set (ki_members insp). im_file_type (fm_image m) = file_type \<and>
        (\<exists>s \<in> set (im_segments (fm_image m)).
           \<exists>p. first \<le> p \<and> p < stop \<and> unat (seg_address s) \<le> p \<and>
             p < unat (seg_address s) + unat (seg_memory_size s)))"

lemma push_ranges_Inr:
  "try_fold (push_range R) rs segments = Inr out \<Longrightarrow>
   \<exists>new. out = rs @ new \<and> list_all2 (\<lambda>s r. fst r = seg_address s \<and>
     unat (snd r) = unat (seg_address s) + unat (seg_memory_size s)) segments new"
proof (induction segments arbitrary: rs)
  case (Cons s segments)
  from Cons.prems obtain rs1 where 1: "push_range R rs s = Inr rs1"
    and 2: "try_fold (push_range R) rs1 segments = Inr out" by (auto simp: result_iff)
  from 1 obtain stop where stop: "rs1 = rs @ [(seg_address s, stop)]"
    "unat stop = unat (seg_address s) + unat (seg_memory_size s)"
    by (auto simp: push_range_def push_bounded_def au_add_def result_iff word_nat split: if_splits)
  from Cons.IH [OF 2] obtain new where "out = rs1 @ new" "list_all2 (\<lambda>s r. fst r = seg_address s \<and>
     unat (snd r) = unat (seg_address s) + unat (seg_memory_size s)) segments new" by blast
  then show ?case using stop by (intro exI [of _ "(seg_address s, stop) # new"]) simp
qed simp

lemma covers_between:
  assumes "start < stop" and "\<forall>r \<in> set rs. fst r < snd r"
  shows "(\<exists>r \<in> set rs. fst r < stop \<and> start < snd r) \<longleftrightarrow>
    (\<exists>p. unat start \<le> p \<and> p < unat stop \<and> covers rs p)"
proof
  assume "\<exists>r \<in> set rs. fst r < stop \<and> start < snd r"
  then obtain r where r: "r \<in> set rs" "unat (fst r) < unat stop" "unat start < unat (snd r)"
    by (auto simp: word_less_nat_alt)
  let ?p = "max (unat start) (unat (fst r))"
  have "unat (fst r) < unat (snd r)" using assms(2) r(1) by (simp add: word_less_nat_alt)
  then have "?p < unat (snd r)" using r by simp
  then have "covers rs ?p" using r(1) unfolding covers_def by (intro bexI [of _ r]) auto
  moreover have "?p < unat stop" using assms(1) r(2) by (simp add: word_less_nat_alt)
  ultimately show "\<exists>p. unat start \<le> p \<and> p < unat stop \<and> covers rs p" by (intro exI [of _ ?p]) simp
next
  assume "\<exists>p. unat start \<le> p \<and> p < unat stop \<and> covers rs p"
  then obtain p a b where p: "unat start \<le> p" "p < unat stop" "(a, b) \<in> set rs" "unat a \<le> p" "p < unat b"
    by (auto simp: covers_def)
  then show "\<exists>r \<in> set rs. fst r < stop \<and> start < snd r"
    by (intro bexI [of _ "(a, b)"]) (auto simp: word_less_nat_alt)
qed

lemma touched_segments:
  "(\<exists>p. first \<le> p \<and> p < stop \<and>
      (\<exists>s \<in> set (concat (map (\<lambda>m. filter (\<lambda>s. seg_memory_size s \<noteq> 0) (im_segments (fm_image m)))
          (filter (\<lambda>m. im_file_type (fm_image m) = file_type) (ki_members insp)))).
         unat (seg_address s) \<le> p \<and> p < unat (seg_address s) + unat (seg_memory_size s))) \<longleftrightarrow>
   member_touched insp file_type first stop"
proof -
  have "seg_memory_size s \<noteq> 0" if "unat (seg_address s) \<le> p"
    "p < unat (seg_address s) + unat (seg_memory_size s)" for s :: segment_metadata and p
    using that by auto
  then show ?thesis by (auto simp: member_touched_def) blast
qed

lemma member_ranges_intersect:
  assumes "member_ranges R insp file_type = Inr ranges" and "start < stop"
  shows "intersects ranges start stop \<longleftrightarrow> member_touched insp file_type (unat start) (unat stop)"
proof -
  let ?segs = "concat (map (\<lambda>m. filter (\<lambda>s. seg_memory_size s \<noteq> 0) (im_segments (fm_image m)))
     (filter (\<lambda>m. im_file_type (fm_image m) = file_type) (ki_members insp)))"
  obtain rs where rs: "try_fold (push_range R) [] ?segs = Inr rs"
    and ranges: "ranges = rev (foldl merge_range [] (sort rs))"
    using assms(1) by (auto simp: member_ranges_def Let_def result_iff split: if_splits)
  have all: "list_all2 (\<lambda>s r. fst r = seg_address s \<and>
     unat (snd r) = unat (seg_address s) + unat (seg_memory_size s)) ?segs rs"
    using push_ranges_Inr [OF rs] by simp
  have nonempty: "\<forall>(a, b) \<in> set (sort rs). a < b"
  proof clarify
    fix a b assume "(a, b) \<in> set (sort rs)"
    then have "(a, b) \<in> set rs" by simp
    from list_all2_set1 [OF all this] show "a < b"
      by (auto simp: word_less_nat_alt unat_gt_0)
  qed
  have ordered: "sorted (map fst (sort rs))"
    unfolding sorted_map
    by (rule sorted_wrt_mono_rel [OF _ sorted_sort]) (auto simp: less_eq_prod_def less_imp_le)
  have merged: "separated (foldl merge_range [] (sort rs)) \<and>
      (covers (foldl merge_range [] (sort rs)) p \<longleftrightarrow> covers rs p)" for p
    using merge_all [of "[]" "sort rs" p] nonempty ordered by (simp add: separated_def) (simp add: covers_def)
  have sep: "sorted_wrt (\<lambda>q r. snd q < fst r) ranges" "\<forall>r \<in> set ranges. fst r < snd r"
    using merged by (auto simp: separated_def ranges sorted_wrt_rev)
  have cov: "covers ranges p \<longleftrightarrow> covers rs p" for p
    using merged [of p] by (simp add: ranges covers_def)
  have owned: "covers rs p \<longleftrightarrow> (\<exists>s \<in> set ?segs. unat (seg_address s) \<le> p \<and>
      p < unat (seg_address s) + unat (seg_memory_size s))" for p
  proof
    assume "covers rs p"
    then obtain r where r: "r \<in> set rs" "unat (fst r) \<le> p" "p < unat (snd r)" by (auto simp: covers_def)
    then show "\<exists>s \<in> set ?segs. unat (seg_address s) \<le> p \<and>
        p < unat (seg_address s) + unat (seg_memory_size s)"
      using list_all2_set1 [OF all r(1)] by (auto simp del: set_concat)
  next
    assume "\<exists>s \<in> set ?segs. unat (seg_address s) \<le> p \<and>
        p < unat (seg_address s) + unat (seg_memory_size s)"
    then obtain s where s: "s \<in> set ?segs" "unat (seg_address s) \<le> p"
      "p < unat (seg_address s) + unat (seg_memory_size s)" by blast
    from list_all2_set2 [OF all s(1)] show "covers rs p" using s(2,3) by (force simp: covers_def)
  qed
  have "intersects ranges start stop \<longleftrightarrow> (\<exists>r \<in> set ranges. fst r < stop \<and> start < snd r)"
    by (rule takeWhile_separated [OF sep])
  also have "\<dots> \<longleftrightarrow> (\<exists>p. unat start \<le> p \<and> p < unat stop \<and> covers ranges p)"
    by (rule covers_between [OF assms(2) sep(2)])
  also have "\<dots> \<longleftrightarrow> (\<exists>p. unat start \<le> p \<and> p < unat stop \<and> covers rs p)" by (simp add: cov)
  also have "\<dots> \<longleftrightarrow> (\<exists>p. unat start \<le> p \<and> p < unat stop \<and>
      (\<exists>s \<in> set ?segs. unat (seg_address s) \<le> p \<and> p < unat (seg_address s) + unat (seg_memory_size s)))"
    by (simp only: owned)
  also have "\<dots> \<longleftrightarrow> member_touched insp file_type (unat start) (unat stop)"
    by (rule touched_segments)
  finally show ?thesis .
qed

section \<open>The words of a chain\<close>

definition chain_bits :: "chain_detail \<Rightarrow> nat \<Rightarrow> bool" where
  "chain_bits d n \<longleftrightarrow>
     unat (ch_target_offset d) = n mod 2 ^ 30 \<and>
     unat (ch_cache_level d) = n div 2 ^ 30 mod 2 ^ 2 \<and>
     unat (ch_diversity d) = n div 2 ^ 32 mod 2 ^ 16 \<and>
     unat (ch_key d) = n div 2 ^ 49 mod 2 ^ 2 \<and>
     unat (ch_next d) = n div 2 ^ 51 mod 2 ^ 12 \<and>
     (ch_authenticated d \<longleftrightarrow> 2 ^ 63 \<le> n)"

lemma chain_word_bits: "chain_bits (chain_word C si pi w) (unat w)"
proof -
  have m: "(0x3fffffff :: u64) = mask 30" "(3 :: u64) = mask 2" "(0xffff :: u64) = mask 16"
    "(0xfff :: u64) = mask 12"
    by (simp_all add: mask_eq_exp_minus_1)
  have low: "unat (w AND mask 30) = unat w mod 2 ^ 30" using unat_field [of 0 w 30] by simp
  have small: "n mod 2 ^ 30 < 2 ^ 32" "n mod 2 ^ 2 < 2 ^ 8" "n mod 2 ^ 16 < 2 ^ 16" "n mod 2 ^ 12 < 2 ^ 16"
    for n :: nat
    using mod_less_divisor [of "2 ^ 30" n] mod_less_divisor [of "2 ^ 2" n]
      mod_less_divisor [of "2 ^ 16" n] mod_less_divisor [of "2 ^ 12" n] by simp_all
  have "drop_bit 63 w \<noteq> 0 \<longleftrightarrow> 2 ^ 63 \<le> unat w"
    unfolding word_unat_eq_iff unat_drop_bit_div by (simp add: div_eq_0_iff not_less)
  then show ?thesis
    unfolding chain_bits_def chain_word_def Let_def m
    using small by (simp add: unsigned_ucast_eq take_bit_nat_eq_self_iff unat_field low)
qed

section \<open>The audit of a collection\<close>

lemma audit_Inr:
  assumes "audit_kernel_collection_with_limits R source limits = Inr audit"
  obtains insp outer executable kext a b C where
    "inspect_kernel_collection source = Inr insp"
    "mappings R (im_segments (ki_collection insp)) = Inr outer"
    "member_ranges R insp 2 = Inr executable" "member_ranges R insp 11 = Inr kext"
    "ac_source C = source" "ac_limits C = limits" "ac_outer C = outer"
    "ac_executable C = executable" "ac_kext C = kext" "limits_ok limits"
    "audit_extends C \<lparr> as_summary = default_summary, as_records = [], as_issues = [] \<rparr> a"
    "audit_overlaps R C a = Inr b"
    "fa_records audit = as_records b" "fa_issues audit = as_issues b" "fa_summary audit = as_summary b"
proof -
  have ok: "limits_ok limits"
    using assms by (auto simp: audit_kernel_collection_with_limits_def split: if_splits)
  obtain insp primary_base outer executable kext a b where
    1: "map_err AU_Metadata (inspect_kernel_collection source) = Inr insp"
    and 2: "mappings R (im_segments (ki_collection insp)) = Inr outer"
    and 3: "member_ranges R insp 2 = Inr executable" "member_ranges R insp 11 = Inr kext"
    and 4: "try_fold (audit_image R \<lparr> ac_source = source, ac_limits = limits, ac_outer = outer,
        ac_executable = executable, ac_kext = kext, ac_primary_base = primary_base \<rparr>)
        \<lparr> as_summary = default_summary, as_records = [], as_issues = [] \<rparr>
        (enumerate 0 (ki_collection insp # map fm_image (ki_members insp))) = Inr a"
    and 5: "audit_overlaps R \<lparr> ac_source = source, ac_limits = limits, ac_outer = outer,
        ac_executable = executable, ac_kext = kext, ac_primary_base = primary_base \<rparr> a = Inr b"
    and 6: "Inr \<lparr> fa_summary = as_summary b, fa_records = as_records b, fa_issues = as_issues b,
        fa_primary_base = primary_base \<rparr> = (Inr audit :: audit_error + kc_fixup_audit)"
    using assms unfolding audit_kernel_collection_with_limits_def Let_def if_Inl_Inr and_then_Inr
    by (elim exE conjE) (rule that, assumption+)
  have ext: "audit_extends \<lparr> ac_source = source, ac_limits = limits, ac_outer = outer,
        ac_executable = executable, ac_kext = kext, ac_primary_base = primary_base \<rparr>
        \<lparr> as_summary = default_summary, as_records = [], as_issues = [] \<rparr> a"
    by (rule try_fold_extends [OF 4 audit_image_extends])
  have 7: "fa_records audit = as_records b" "fa_issues audit = as_issues b" "fa_summary audit = as_summary b"
    using 6 by auto
  show thesis
    by (rule that [OF _ 2 3 _ _ _ _ _ ok ext 5 7]) (use 1 in \<open>simp_all add: result_iff\<close>)
qed

text \<open>The kind of members that a write touches, from the segments of the members.\<close>

definition touched_members :: "kc_metadata_inspection \<Rightarrow> nat \<Rightarrow> nat \<Rightarrow> member_overlap" where
  "touched_members insp first stop =
     (if member_touched insp 2 first stop
      then (if member_touched insp 11 first stop then BothMembers else ExecutableMember)
      else (if member_touched insp 11 first stop then KextMember else OuterOnly))"

definition recorded_word :: "audit_record \<Rightarrow> nat \<Rightarrow> bool" where
  "recorded_word r n \<longleftrightarrow>
     (case ar_detail r of
        Classic d \<Rightarrow> map_option unat (cd_stored_value d) = Some n
      | Chain11 d \<Rightarrow> chain_bits d n)"

definition record_sound :: "byte_string \<Rightarrow> kc_metadata_inspection \<Rightarrow> audit_record \<Rightarrow> bool" where
  "record_sound source insp r \<longleftrightarrow>
     unat (ar_width r) \<in> {1, 2, 4, 8} \<and>
     (case (ar_write_file_offset r, ar_write_address r) of
        (Some off, Some address) \<Rightarrow>
          (\<exists>s \<in> set (im_segments (ki_collection insp)).
             file_view s (unat address) (unat (ar_width r)) (unat off)) \<and>
          unat off + unat (ar_width r) \<le> length source \<and>
          recorded_word r (le_value (take (unat (ar_width r)) (drop (unat off) source))) \<and>
          ar_member_overlap r = touched_members insp (unat address) (unat address + unat (ar_width r))
      | (None, _) \<Rightarrow> \<not> is_chained r
      | _ \<Rightarrow> False)"

lemma find_member_overlap_touched:
  assumes "member_ranges R insp 2 = Inr (ac_executable C)" and "member_ranges R insp 11 = Inr (ac_kext C)"
    and "unat address + unat (width :: u8) < 2 ^ 64" and "width \<noteq> 0"
  shows "find_member_overlap C (Some address) width =
    touched_members insp (unat address) (unat address + unat width)"
proof -
  have w: "unat (ucast width :: u64) = unat width" by (rule unat_ucast_up) simp
  obtain stop where stop: "checked_add address (ucast width) = Some stop"
    "unat stop = unat address + unat width"
    using assms(3) w by (auto simp: checked_add_def unat_add_exact)
  have "address < stop" using stop(2) assms(4) by (simp add: word_less_nat_alt unat_gt_0)
  then show ?thesis
    using member_ranges_intersect [OF assms(1), of address stop]
      member_ranges_intersect [OF assms(2), of address stop] stop
    by (simp add: find_member_overlap_def touched_members_def)
qed

lemma true_record_sound:
  assumes "true_record C r" and "length (ac_source C) < 2 ^ 64"
    and "mappings R (im_segments (ki_collection insp)) = Inr (ac_outer C)"
    and "member_ranges R insp 2 = Inr (ac_executable C)" and "member_ranges R insp 11 = Inr (ac_kext C)"
    and "\<forall>s \<in> set (im_segments (ki_collection insp)).
      unat (seg_address s) + unat (fr_size (seg_file s)) < 2 ^ 64"
  shows "record_sound (ac_source C) insp r"
proof (cases "ar_write_file_offset r")
  case None
  then show ?thesis using assms(1)
    by (auto simp: record_sound_def true_record_def is_chained_def split: record_detail.splits)
next
  case (Some off)
  then obtain address w where a: "ar_write_address r = Some address"
    and f: "file_location (ac_outer C) address (ucast (ar_width r)) = Inr (Some off)"
    and w: "word_at (ac_source C) off (ar_width r) = Inr w" "stored_word C r w"
    and width: "ar_width r \<in> {1, 2, 4, 8}"
    and o: "ar_member_overlap r = find_member_overlap C (Some address) (ar_width r)"
    using assms(1) unfolding true_record_def by auto
  have u: "unat (ucast (ar_width r) :: u64) = unat (ar_width r)" by (rule unat_ucast_up) simp
  obtain s where s: "s \<in> set (im_segments (ki_collection insp))"
    "file_view s (unat address) (unat (ar_width r)) (unat off)"
    using file_location_Some [OF assms(3) f] u by auto
  have "unat address + unat (ar_width r) < 2 ^ 64"
    using s assms(6) by (fastforce simp: file_view_def)
  then have "ar_member_overlap r = touched_members insp (unat address) (unat address + unat (ar_width r))"
    unfolding o by (rule find_member_overlap_touched [OF assms(4,5)]) (use width in auto)
  moreover have "recorded_word r (unat w)"
    using w(2) chain_word_bits
    by (auto simp: recorded_word_def stored_word_def split: record_detail.splits) metis
  ultimately show ?thesis
    using s word_at_Inr [OF w(1) assms(2) width] width Some a by (auto simp: record_sound_def)
qed

lemma inspected_bounds:
  assumes "inspect_kernel_collection source = Inr insp"
  shows "length source < 2 ^ 64"
    and "\<And>img. img \<in> set (collection_images insp) \<Longrightarrow> image_ok (length source) img"
proof -
  have "length source \<le> MAX_INPUT_SIZE"
    using assms by (auto simp: inspect_kernel_collection_def inspect_profile_def not_less split: if_splits)
  then show "length source < 2 ^ 64" by (simp add: MAX_INPUT_SIZE_def)
  show "image_ok (length source) img" if "img \<in> set (collection_images insp)" for img
    using inspect_profile_Inr(2,6) [OF assms [unfolded inspect_kernel_collection_def]] that
    by (auto simp: collection_images_def members_done_def)
qed

lemma collection_segments_exact:
  assumes "inspect_kernel_collection source = Inr insp"
  shows "\<forall>s \<in> set (im_segments (ki_collection insp)).
    unat (seg_address s) + unat (fr_size (seg_file s)) < 2 ^ 64"
proof
  fix s assume s: "s \<in> set (im_segments (ki_collection insp))"
  have "image_ok (length source) (ki_collection insp)"
    using inspected_bounds(2) [OF assms] by (simp add: collection_images_def)
  then have "segment_ok (length source) s" using s by (simp add: image_ok_def)
  then show "unat (seg_address s) + unat (fr_size (seg_file s)) < 2 ^ 64"
    by (simp add: segment_ok_def fr_exact_def fr_last_def memory_range_def)
qed

lemma recorded_sound:
  assumes "audit_kernel_collection_with_limits R source limits = Inr audit"
  shows "\<exists>insp. inspect_kernel_collection source = Inr insp \<and>
    (\<forall>r \<in> set (fa_records audit). record_sound source insp r)"
proof -
  obtain insp a b C where insp: "inspect_kernel_collection source = Inr insp"
    and C: "mappings R (im_segments (ki_collection insp)) = Inr (ac_outer C)"
      "member_ranges R insp 2 = Inr (ac_executable C)" "member_ranges R insp 11 = Inr (ac_kext C)"
      "ac_source C = source"
    and ext: "audit_extends C \<lparr> as_summary = default_summary, as_records = [], as_issues = [] \<rparr> a"
    and over: "audit_overlaps R C a = Inr b" and "fa_records audit = as_records b"
    by (rule audit_Inr [OF assms]) metis
  have all: "\<forall>r \<in> set (as_records a). true_record C r" using ext by (auto simp: audit_extends_def)
  have "fa_records audit = as_records a"
    using audit_overlaps_Inr [OF over all] \<open>fa_records audit = as_records b\<close> by simp
  moreover have "record_sound source insp r" if "r \<in> set (as_records a)" for r
    using true_record_sound [of C r R insp] all that C inspected_bounds(1) [OF insp]
      collection_segments_exact [OF insp] by simp
  ultimately show ?thesis using insp by auto
qed

lemma valid_writes:
  assumes "audit_kernel_collection_with_limits R source limits = Inr audit" and "ranges_valid audit"
  shows "(\<forall>r \<in> set (fa_records audit). clean_record r) \<and> pairwise_list writes_apart (fa_records audit)"
proof -
  obtain a b C where
    ext: "audit_extends C \<lparr> as_summary = default_summary, as_records = [], as_issues = [] \<rparr> a"
    and over: "audit_overlaps R C a = Inr b"
    and out: "fa_records audit = as_records b" "fa_issues audit = as_issues b"
    by (rule audit_Inr [OF assms(1)])
  have all: "\<forall>r \<in> set (as_records a). true_record C r" using ext by (auto simp: audit_extends_def)
  note b = audit_overlaps_Inr [OF over all]
  have none: "as_issues b = []" using assms(2) out by (simp add: ranges_valid_def)
  then have "as_issues a = []" and apart: "apart_at (as_records a) (file_backed (as_records a))"
    using b by auto
  then have clean: "\<forall>r \<in> set (as_records a). clean_record r"
    using ext by (auto simp: audit_extends_def)
  then have "file_backed (as_records a) = {..<length (as_records a)}"
    by (auto simp: file_backed_def clean_record_def dest: nth_mem)
  then have "pairwise_list writes_apart (as_records a)"
    using apart by (auto simp: apart_at_def pairwise_list_def)
  then show ?thesis using clean b out by simp
qed


text \<open>
  C11. An audit without issues promises this: every record is of a supported form and has its place
  in the file, and no two of the recorded writes overlap, whatever table or chain they come from.
\<close>

theorem audit_valid_writes:
  assumes "audit_kernel_collection_with_limits R source limits = Inr audit" and "ranges_valid audit"
  shows "(\<forall>r \<in> set (fa_records audit). clean_record r) \<and> pairwise_list writes_apart (fa_records audit)"
  by (rule valid_writes [OF assms])

section \<open>Counts\<close>

definition count_for :: "issue_code \<Rightarrow> issue_count list \<Rightarrow> nat" where
  "count_for code counts = sum_list (map ic_count (filter (\<lambda>c. ic_code c = code) counts))"

lemma count_issue_for:
  "count_for code (count_issue c counts) = count_for code counts + (if c = code then 1 else 0)"
  by (induction counts) (auto simp: count_for_def)

lemma count_issue_codes:
  "map ic_code (count_issue c counts) =
     (if c \<in> ic_code ` set counts then map ic_code counts else map ic_code counts @ [c])"
  by (induction counts) auto

lemma count_issues_for:
  "count_for code (foldl (\<lambda>counts issue. count_issue (ai_code issue) counts) counts issues) =
     count_for code counts + length (filter (\<lambda>i. ai_code i = code) issues)"
  by (induction issues arbitrary: counts) (auto simp: count_issue_for)

lemma count_issues_distinct:
  "distinct (map ic_code counts) \<Longrightarrow>
   distinct (map ic_code (foldl (\<lambda>counts issue. count_issue (ai_code issue) counts) counts issues))"
  by (induction issues arbitrary: counts) (auto simp: count_issue_codes)

text \<open>
  C. The summary of an audit counts what the audit holds: the classic and the chained records are
  together all records, and for every code the summary has one entry at most, whose count is the
  number of issues with that code.
\<close>

theorem audit_summary_counts:
  assumes "audit_kernel_collection_with_limits R source limits = Inr audit"
  shows "su_classic_records (fa_summary audit) = length (filter (\<lambda>r. \<not> is_chained r) (fa_records audit)) \<and>
    su_chain_records (fa_summary audit) = length (filter is_chained (fa_records audit)) \<and>
    distinct (map ic_code (su_issue_counts (fa_summary audit))) \<and>
    count_for code (su_issue_counts (fa_summary audit)) =
      length (filter (\<lambda>i. ai_code i = code) (fa_issues audit))"
proof -
  obtain a b C where
    ext: "audit_extends C \<lparr> as_summary = default_summary, as_records = [], as_issues = [] \<rparr> a"
    and over: "audit_overlaps R C a = Inr b"
    and out: "fa_records audit = as_records b" "fa_issues audit = as_issues b" "fa_summary audit = as_summary b"
    by (rule audit_Inr [OF assms(1)])
  have all: "\<forall>r \<in> set (as_records a). true_record C r" using ext by (auto simp: audit_extends_def)
  note b = audit_overlaps_Inr [OF over all]
  have "su_issue_counts (as_summary a) = []" "su_classic_records (as_summary a) =
      length (filter (\<lambda>r. \<not> is_chained r) (as_records a))"
    "su_chain_records (as_summary a) = length (filter is_chained (as_records a))"
    using ext by (auto simp: audit_extends_def default_summary_def)
  then show ?thesis using b out
    by (simp add: count_issues_for count_issues_distinct) (simp add: count_for_def)
qed

end
