(* ===== verification/Kc_Fixup_Audit_Safety.thy ===== *)
theory Kc_Fixup_Audit_Safety
  imports Kc_Fixup_Audit_Theorems
begin

text \<open>
  The audit of a collection never panics, whatever its bytes are: no unchecked addition overflows
  and no index is out of range, because of what the inspection has established before.
\<close>

section \<open>What the inspection establishes about fixups\<close>

definition fixups_ok :: "nat \<Rightarrow> image_metadata \<Rightarrow> bool" where
  "fixups_ok n img \<longleftrightarrow>
     (case im_chained_fixups img of
        None \<Rightarrow> True
      | Some f \<Rightarrow> unat (fr_offset (cf_file f)) + 28 \<le> n \<and>
          (\<forall>s \<in> set (cf_segments f). fs_segment_index s < length (im_segments img)))"

lemma parse_fixup_segment_indices:
  assumes "parse_fixup_segment data starts table_size import_range symbol_range header_address st x = Inr st'"
    and "fst x < n" and "\<forall>s \<in> set (fx_result st). fs_segment_index s < n"
  shows "\<forall>s \<in> set (fx_result st'). fs_segment_index s < n"
  using assms unfolding parse_fixup_segment_def
  by (auto simp: result_iff Let_def split: prod.splits if_splits)

lemma parse_fixups_ok:
  assumes "parse_fixups bytes r segments header_address = Inr f" and "length bytes < 2 ^ 64"
  shows "unat (fr_offset (cf_file f)) + 28 \<le> length bytes \<and>
    (\<forall>s \<in> set (cf_segments f). fs_segment_index s < length segments)"
proof -
  obtain data d st starts table_size import_range symbol_range where
    data: "kc_range bytes (fr_offset r) (fr_size r) = Inr data" and d: "kc_slice data 0 28 = Inr d"
    and st: "try_fold (parse_fixup_segment data starts table_size import_range symbol_range header_address)
         \<lparr> fx_info_ranges = [], fx_result = [], fx_visits = 0 \<rparr> (enumerate 0 segments) = Inr st"
    and f: "cf_segments f = fx_result st" "cf_file f = r"
    using assms(1) unfolding parse_fixups_def Let_def by (auto simp: result_iff split: if_splits)
  have "\<forall>s \<in> set (fx_result st). fs_segment_index s < length segments"
    by (rule try_fold_invariant [OF st, where P = "\<lambda>st. \<forall>s \<in> set (fx_result st). fs_segment_index s < length segments"])
      (auto simp: in_set_enumerate_eq dest!: parse_fixup_segment_indices)
  moreover have "28 \<le> length data" using d by (auto simp: kc_slice_def get_range_def result_iff usize_add_def split: if_splits)
  moreover have "unat (fr_offset r) + length data \<le> length bytes"
    using data kc_range_Inr [OF assms(2)] by auto
  ultimately show ?thesis using f by simp
qed

lemma parse_image_fixups_ok:
  assumes "parse_image bytes base outer profile budget = Inr (parsed, budget')" and "length bytes < 2 ^ 64"
  shows "fixups_ok (length bytes) (pi_image parsed)"
proof -
  obtain h ct cs ft n cb st where
    fin: "finish_image bytes base h ct cs ft n cb st = Inr parsed"
    using assms(1) unfolding parse_image_def Let_def by (auto simp: result_iff split: if_splits prod.splits)
  show ?thesis
    using fin parse_fixups_ok [OF _ assms(2)] unfolding finish_image_def Let_def
    by (auto simp: result_iff fixups_ok_def split: option.splits)
qed

lemma inspected_fixups_ok:
  assumes "inspect_profile bytes profile = Inr insp" and "img \<in> set (collection_images insp)"
  shows "fixups_ok (length bytes) img"
proof -
  have len: "length bytes < 2 ^ 64"
    using assms(1) by (auto simp: inspect_profile_def MAX_INPUT_SIZE_def split: if_splits)
  obtain outer budget members b where
    outer: "parse_image bytes 0 True profile empty_budget = Inr (outer, budget)"
    and members: "try_fold (inspect_member bytes profile (pi_image outer)) ([], budget) (pi_members outer)
        = Inr (members, b)"
    and insp: "ki_collection insp = pi_image outer" "ki_members insp = members"
    using assms(1) unfolding inspect_profile_def by (auto simp: result_iff split: if_splits prod.splits)
  have "case (members, b) of (ms, _) \<Rightarrow> \<forall>m \<in> set ms. fixups_ok (length bytes) (fm_image m)"
    by (rule try_fold_invariant [OF members, where P = "\<lambda>(ms, _). \<forall>m \<in> set ms. fixups_ok (length bytes) (fm_image m)"])
      (auto simp: inspect_member_def result_iff Let_def split: if_splits prod.splits
        dest!: parse_image_fixups_ok [OF _ len])
  then show ?thesis
    using assms(2) insp parse_image_fixups_ok [OF outer len] by (auto simp: collection_images_def)
qed

section \<open>Reading\<close>

definition mapping_exact :: "mapping_entry \<Rightarrow> bool" where
  "mapping_exact m \<longleftrightarrow>
     unat (mp_file_offset m) + (unat (mp_file_end m) - unat (mp_start m)) < 2 ^ 64"

lemma mappings_exact:
  assumes "mappings R segments = Inr maps" and "n < 2 ^ 64"
    and "\<forall>s \<in> set segments. fr_last (seg_file s) \<le> n" and "m \<in> set maps"
  shows "mapping_exact m"
proof -
  obtain s where "s \<in> set segments" and s: "mapping_of s = Inr m"
    using mappings_Inr [OF assms(1,4)] by blast
  then show ?thesis using assms(2,3) mapping_of_nat [OF s] by (force simp: mapping_exact_def fr_last_def)
qed

lemma au_add_no_panic [simp]: "au_add a b \<noteq> Inl AU_Panic"
  by (simp add: au_add_def result_iff)

lemma mapping_of_no_panic: "mapping_of s \<noteq> Inl AU_Panic"
  by (simp add: mapping_of_def result_iff)

lemma mappings_no_panic: "mappings R segments \<noteq> Inl AU_Panic"
proof -
  have "try_map mapping_of xs \<noteq> Inl AU_Panic" for xs
    using try_map_Inl [of mapping_of xs AU_Panic] mapping_of_no_panic by blast
  then show ?thesis by (simp add: mappings_def result_iff)
qed

lemma containing_file_location_no_panic:
  assumes "\<forall>m \<in> set maps. mapping_exact m"
  shows "file_location maps address width \<noteq> Inl AU_Panic"
proof
  assume panic: "file_location maps address width = Inl AU_Panic"
  then obtain m where m: "containing maps address width = Some m"
    by (auto simp: file_location_def split: option.splits)
  note inside = containing_Some [OF m]
  from panic obtain stop where stop: "checked_add address width = Some stop" "stop \<le> mp_file_end m"
    and p: "and_then (ok_or (checked_sub address (mp_start m)) AU_Panic) (\<lambda>inside.
        and_then (plus_checked (mp_file_offset m) inside) (\<lambda>offset. Inr (Some offset))) = Inl AU_Panic"
    by (auto simp: file_location_def m split: option.splits if_splits)
  have "unat (mp_file_offset m) + (unat (mp_file_end m) - unat (mp_start m)) < 2 ^ 64"
    using assms inside by (simp add: mapping_exact_def)
  moreover have "unat address \<le> unat (mp_file_end m)"
    using stop by (simp add: word_le_nat_alt checked_add_Some)
  ultimately show False
    using p inside by (auto simp: result_iff plus_checked_def word_nat checked_sub_None checked_add_None)
qed

lemma au_raw_no_panic: "au_raw source at n \<noteq> Inl AU_Panic"
proof -
  have "unat at \<le> unat stop" if "checked_add at (of_nat n) = Some stop" for stop
    using that by (simp add: checked_add_Some)
  then show ?thesis by (auto simp: au_raw_def au_add_def result_iff get_range_def)
qed

lemma au_reads_no_panic [simp]: "au_u16_at source at \<noteq> Inl AU_Panic" "au_u32_at source at \<noteq> Inl AU_Panic"
  by (simp_all add: au_u16_at_def au_u32_at_def result_iff au_raw_no_panic)

lemma word_at_no_panic: "unat width \<le> 8 \<Longrightarrow> word_at source at width \<noteq> Inl AU_Panic"
  by (simp add: word_at_def result_iff au_raw_no_panic)

lemma plus_checked_after_u32:
  assumes "au_u32_at source at = Inr w" and "length source < 2 ^ 64"
  shows "plus_checked at 4 \<noteq> Inl AU_Panic"
proof -
  have "unat at + 4 \<le> length source" using assms(1) au_raw_Inr [of source at 4] by (auto simp: au_u32_at_def result_iff)
  then show ?thesis using assms(2) by (simp add: plus_checked_def result_iff checked_add_None)
qed

section \<open>Recording\<close>

lemma add_issue_no_panic [simp]: "add_issue R C code img rec related a \<noteq> Inl AU_Panic"
  by (simp add: add_issue_def push_bounded_def result_iff)

lemma add_codes_no_panic [simp]:
  "try_fold (\<lambda>a code. add_issue R C code img rec None a) a codes \<noteq> Inl AU_Panic"
  by (induction codes arbitrary: a) (auto simp: and_then_Inl)

lemma add_record_no_panic [simp]: "add_record R C r a \<noteq> Inl AU_Panic"
  by (simp add: add_record_def push_bounded_def result_iff)

lemma page_start_no_panic [simp]: "page_start C a \<noteq> Inl AU_Panic"
  by (simp add: page_start_def Let_def)

definition context_ok :: "audit_context \<Rightarrow> bool" where
  "context_ok C \<longleftrightarrow> length (ac_source C) < 2 ^ 64 \<and> (\<forall>m \<in> set (ac_outer C). mapping_exact m)"

lemma try_fold_no_panic:
  assumes "\<And>s x. x \<in> set xs \<Longrightarrow> f s x \<noteq> Inl e"
  shows "try_fold f s xs \<noteq> Inl e"
  using assms by (induction xs arbitrary: s) (auto simp: and_then_Inl)

lemma classic_file_no_panic:
  assumes "context_ok C" and "\<forall>m \<in> set maps. mapping_exact m"
  shows "classic_file C maps address width \<noteq> Inl AU_Panic"
  using containing_file_location_no_panic [of maps] containing_file_location_no_panic [of "ac_outer C"] assms
  by (auto simp: classic_file_def context_ok_def result_iff split: option.splits)

lemma classic_record_no_panic:
  assumes "context_ok C" and "\<forall>m \<in> set maps. mapping_exact m"
  shows "classic_record R C image_index section_size maps table r base a at \<noteq> Inl AU_Panic"
proof -
  have width: "unat (push_bit (unat (ucast (drop_bit 25 info AND 3) :: u8)) 1 :: u8) \<le> 8" for info :: u32
    using width_of_exponent [OF length_field [of info]] by auto
  show ?thesis
    using classic_file_no_panic [OF assms] plus_checked_after_u32 word_at_no_panic [OF width] assms(1)
    by (auto simp: classic_record_def Let_def and_then_Inl context_ok_def
        split: option.splits prod.splits)
qed

lemma chain_step_no_panic:
  assumes "context_ok C"
  shows "chain_step R C i si pi segm page_size page_offset in_page a \<noteq> Inl AU_Panic"
  using containing_file_location_no_panic [of "ac_outer C"] assms
  by (auto simp: chain_step_def Let_def and_then_Inl context_ok_def word_at_no_panic
      split: option.splits prod.splits)

lemma chain_loop_no_panic:
  assumes "context_ok C"
  shows "chain_loop R C i si pi segm page_size page_offset in_page a \<noteq> Inl AU_Panic"
  using assms
proof (induction R C i si pi segm page_size page_offset in_page a rule: chain_loop.induct)
  case (1 R C i si pi segm page_size page_offset in_page a)
  show ?case
    by (subst chain_loop.simps)
      (use 1 chain_step_no_panic [OF 1(2)] in \<open>auto split: sum.splits option.splits\<close>)
qed

lemma chain_no_panic: "context_ok C \<Longrightarrow> audit_chain R C i si pi segm page_size start a \<noteq> Inl AU_Panic"
  by (simp add: audit_chain_def Let_def and_then_Inl chain_loop_no_panic ok_or_Inl)

lemma multi_starts_no_panic:
  assumes "context_ok C"
  shows "multi_starts R C index seg_info page segm info_end at a \<noteq> Inl AU_Panic"
  using assms
proof (induction R C index seg_info page segm info_end at a rule: multi_starts.induct)
  case (1 R C index seg_info page segm info_end at a)
  show ?case
    by (subst multi_starts.simps)
      (use 1 chain_no_panic [OF 1(2)] in \<open>auto simp: and_then_Inl split: option.splits\<close>)
qed

lemma fixup_page_no_panic:
  "context_ok C \<Longrightarrow> fixup_page R C index seg_info segm info info_end a page \<noteq> Inl AU_Panic"
  by (auto simp: fixup_page_def Let_def and_then_Inl chain_no_panic multi_starts_no_panic)

lemma fixup_segment_no_panic:
  assumes "context_ok C" and "fs_segment_index seg_info < length (im_segments img)"
  shows "fixup_segment R C index img starts a seg_info \<noteq> Inl AU_Panic"
proof -
  have "try_fold (fixup_page R C index seg_info segm info info_end) a pages \<noteq> Inl AU_Panic"
    for segm info info_end pages
    by (rule try_fold_no_panic) (rule fixup_page_no_panic [OF assms(1)])
  then show ?thesis using assms(2) by (auto simp: fixup_segment_def Let_def and_then_Inl)
qed

lemma image_fixups_no_panic:
  assumes "context_ok C" and "unat (fr_offset (cf_file fixups)) + 4 < 2 ^ 64"
    and "\<forall>s \<in> set (cf_segments fixups). fs_segment_index s < length (im_segments img)"
  shows "image_fixups R C index img fixups a \<noteq> Inl AU_Panic"
proof -
  have "try_fold (fixup_segment R C index img starts) a (cf_segments fixups) \<noteq> Inl AU_Panic" for starts a
    by (rule try_fold_no_panic) (use fixup_segment_no_panic [OF assms(1)] assms(3) in auto)
  moreover have "plus_checked (fr_offset (cf_file fixups)) 4 \<noteq> Inl AU_Panic"
    using assms(2) by (simp add: plus_checked_def ok_or_Inl checked_add_None)
  ultimately show ?thesis by (auto simp: image_fixups_def and_then_Inl)
qed

lemma audit_image_no_panic:
  assumes "context_ok C" and "image_ok n img" and "fixups_ok n img" and "n < 2 ^ 64 - 28"
  shows "audit_image R C a (index, img) \<noteq> Inl AU_Panic"
proof -
  have "try_fold (\<lambda>a (section_size, table, r, base).
      classic R C index section_size maps table r base a) a (image_tables img) \<noteq> Inl AU_Panic"
    if "mappings R (im_segments img) = Inr maps" for maps a
  proof -
    have "\<forall>m \<in> set maps. mapping_exact m"
      using mappings_exact [OF that, of n] assms(2,4) by (auto simp: image_ok_def segment_ok_def)
    then have one: "classic R C index section_size maps table r base a \<noteq> Inl AU_Panic"
      for section_size table r base a
      unfolding classic_def by (intro try_fold_no_panic classic_record_no_panic [OF assms(1)])
    show ?thesis by (rule try_fold_no_panic) (use one in \<open>auto split: prod.splits\<close>)
  qed
  moreover have "image_fixups R C index img f a \<noteq> Inl AU_Panic" if "im_chained_fixups img = Some f" for f a
    using assms(3,4) that by (intro image_fixups_no_panic [OF assms(1)]) (auto simp: fixups_ok_def)
  ultimately show ?thesis
    by (auto simp: audit_image_def and_then_Inl mappings_no_panic split: option.splits)
qed

section \<open>The sweep\<close>

lemma sweep_conflict_keeps:
  assumes "sweep_conflict R C m address img index x a = Inr b"
  shows "as_records b = as_records a"
  using assms by (auto simp: sweep_conflict_def result_iff split: prod.splits option.splits if_splits)

lemma sweep_conflict_no_panic [simp]: "sweep_conflict R C m address img index x a \<noteq> Inl AU_Panic"
  by (auto simp: sweep_conflict_def split: prod.splits option.splits)

lemma sweep_record_keeps:
  assumes "sweep_record R C w i = Inr w'"
  shows "as_records (sw_audit w') = as_records (sw_audit w)"
proof -
  obtain address l a1 a2 a3 kc kh where
    "(if is_chained (as_records (sw_audit w) ! i) then
        (case l of None \<Rightarrow> Inr (sw_audit w)
         | Some (prior, other) \<Rightarrow> if prior = address
             then add_issue R C DuplicateChainVisit (ar_image_index (as_records (sw_audit w) ! i)) (Some i) (Some other) (sw_audit w)
             else Inr (sw_audit w)) else Inr (sw_audit w)) = Inr a1"
    "sweep_conflict R C (is_chained (as_records (sw_audit w) ! i)) address
       (ar_image_index (as_records (sw_audit w) ! i)) i kc a1 = Inr a2"
    "sweep_conflict R C (is_chained (as_records (sw_audit w) ! i)) address
       (ar_image_index (as_records (sw_audit w) ! i)) i kh a2 = Inr a3"
    "sw_audit w' = a3"
    by (rule sweep_record_Inr [OF assms]) (rule that, assumption+, simp)
  moreover from this(1) have "as_records a1 = as_records (sw_audit w)"
    by (auto simp: add_issue_Inr split: option.splits if_splits)
  ultimately show ?thesis using sweep_conflict_keeps by metis
qed

lemma sweep_no_panic:
  assumes "\<forall>i \<in> set is. i < length recs \<and> ar_write_address (recs ! i) \<noteq> None"
    and "as_records (sw_audit w) = recs"
  shows "try_fold (sweep_record R C) w is \<noteq> Inl AU_Panic"
proof
  assume "try_fold (sweep_record R C) w is = Inl AU_Panic"
  from try_fold_error [OF this, where P = "\<lambda>w. as_records (sw_audit w) = recs"]
  obtain v i where v: "as_records (sw_audit v) = recs" "i \<in> set is" "sweep_record R C v i = Inl AU_Panic"
    using assms(2) sweep_record_keeps by metis
  then obtain address where address: "ar_write_address (recs ! i) = Some address" "i < length recs"
    using assms(1) by blast
  show False
    using v(3) address unfolding sweep_record_def v(1) Let_def
    by (auto simp: and_then_Inl split: option.splits if_splits prod.splits)
qed

lemma audit_overlaps_no_panic:
  assumes "\<forall>r \<in> set (as_records a). true_record C r"
  shows "audit_overlaps R C a \<noteq> Inl AU_Panic"
proof -
  have addr: "ar_write_address (as_records a ! i) \<noteq> None" if "i \<in> set (file_backed_indices (as_records a))" for i
  proof -
    have "as_records a ! i \<in> set (as_records a)" "ar_write_file_offset (as_records a ! i) \<noteq> None"
      using that by (auto simp: file_backed_indices_def)
    then show ?thesis using assms unfolding true_record_def by force
  qed
  have "try_fold (sweep_record R C)
         \<lparr> sw_audit = a, sw_classic = None, sw_chained = None, sw_last_chain = None \<rparr>
         (sort_key (\<lambda>i. (the (ar_write_address (as_records a ! i)), i)) (file_backed_indices (as_records a)))
       \<noteq> Inl AU_Panic"
    by (rule sweep_no_panic [of _ "as_records a"]) (use addr in \<open>auto simp: file_backed_indices_def\<close>)
  moreover have "\<not> list_ex (\<lambda>i. ar_write_address (as_records a ! i) = None) (file_backed_indices (as_records a))"
    unfolding list_ex_iff using addr by blast
  ultimately show ?thesis by (auto simp: audit_overlaps_def Let_def and_then_Inl)
qed

section \<open>The audit\<close>

lemma member_ranges_no_panic: "member_ranges R insp file_type \<noteq> Inl AU_Panic"
proof -
  have "try_fold (push_range R) rs segments \<noteq> Inl AU_Panic" for rs segments
    by (rule try_fold_no_panic) (simp add: push_range_def push_bounded_def and_then_Inl)
  then show ?thesis by (simp add: member_ranges_def Let_def and_then_Inl)
qed

text \<open>
  C30. The audit returns a result or an error for every input, with whatever limits and whatever the
  allocator refuses: none of its unchecked additions overflows and none of its indices is out of
  range.
\<close>

theorem audit_never_panics:
  "audit_kernel_collection_with_limits R source limits \<noteq> Inl AU_Panic"
proof
  assume panic: "audit_kernel_collection_with_limits R source limits = Inl AU_Panic"
  then obtain insp where insp: "inspect_kernel_collection source = Inr insp"
    by (cases "inspect_kernel_collection source")
      (auto simp: audit_kernel_collection_with_limits_def split: if_splits)
  have len: "length source < 2 ^ 64 - 28"
    using insp by (auto simp: inspect_kernel_collection_def inspect_profile_def MAX_INPUT_SIZE_def split: if_splits)
  note images = inspected_bounds(2) [OF insp]
    inspected_fixups_ok [OF insp [unfolded inspect_kernel_collection_def]]
  have fold: "try_fold (audit_image R C) empty
      (enumerate 0 (ki_collection insp # map fm_image (ki_members insp))) \<noteq> Inl AU_Panic"
    if "context_ok C" for C empty
  proof (rule try_fold_no_panic)
    fix s x assume x_in: "x \<in> set (enumerate 0 (ki_collection insp # map fm_image (ki_members insp)))"
    obtain i img where x: "x = (i, img)" by (cases x)
    have "snd x \<in> set (map snd (enumerate 0 (ki_collection insp # map fm_image (ki_members insp))))"
      using x_in by (simp only: set_map imageI)
    then have img: "img \<in> set (collection_images insp)"
      unfolding x collection_images_def map_snd_enumerate by simp
    show "audit_image R C s x \<noteq> Inl AU_Panic"
      unfolding x by (rule audit_image_no_panic [OF that images(1) [OF img] images(2) [OF img] len])
  qed
  have outer: "\<forall>m \<in> set outer. mapping_exact m"
    if "mappings R (im_segments (ki_collection insp)) = Inr outer" for outer
    using mappings_exact [OF that, of "length source"] images(1) len
    by (auto simp: collection_images_def image_ok_def segment_ok_def)
  have overlaps: "audit_overlaps R C a \<noteq> Inl AU_Panic"
    if "try_fold (audit_image R C) \<lparr> as_summary = default_summary, as_records = [], as_issues = [] \<rparr>
      (enumerate 0 (ki_collection insp # map fm_image (ki_members insp))) = Inr a" for C a
    using try_fold_extends [OF that audit_image_extends]
    by (intro audit_overlaps_no_panic) (auto simp: audit_extends_def)
  have ok: "context_ok \<lparr> ac_source = source, ac_limits = limits, ac_outer = outer_maps,
        ac_executable = executable, ac_kext = kext, ac_primary_base = primary_base \<rparr>"
    if "mappings R (im_segments (ki_collection insp)) = Inr outer_maps"
    for outer_maps executable kext primary_base
    using outer [OF that] len by (simp add: context_ok_def)
  have "audit_kernel_collection_with_limits R source limits \<noteq> Inl AU_Panic"
    unfolding audit_kernel_collection_with_limits_def Let_def insp map_err_simps and_then_simps
    by (intro branch_no_panic and_then_no_panic;
        (rule mappings_no_panic | rule member_ranges_no_panic
         | rule fold, rule ok, assumption | rule overlaps, assumption | simp add: ok_or_Inl))
  then show False using panic by simp
qed

end
