(* ===== verification/Kc_Classic_Rebase.thy ===== *)
theory Kc_Classic_Rebase
  imports Kc_Fixup_Audit Kc_Staging
begin

text \<open>
  Model of \<^verbatim>\<open>src/kc_classic_rebase.rs\<close>: the plan that slides the classic relocations of the kernel
  in a staged collection, its application to an arena, and the readback of the result. It rests on
  the models of the staging plan and of the audit. The readback of a range is the same code as in
  \<^verbatim>\<open>kc_staging.rs\<close>, modelled there by \<open>readback\<close>. A slice index that fails would panic:
  \<open>CR_Panic\<close>.
\<close>

section \<open>Data\<close>

datatype classic_rebase_error =
    CR_Staging kc_staging_error
  | CR_Audit audit_error
  | CR_AuditIssues
  | CR_ExecutableMemberCount
  | CR_EmptyClassicTable
  | CR_UnsupportedClassicProfile
  | CR_OutsideKernelFileMapping
  | CR_HeaderWrite
  | CR_AddressOverflow
  | CR_ValueOverflow
  | CR_AllocationFailed
  | CR_DestinationSize
  | CR_ReadbackMismatch
  | CR_Panic \<comment> \<open>not a value of the source's enum\<close>

record classic_rebase_verification =
  rv_slide :: u32
  rv_arena_bytes :: nat
  rv_classic_words :: nat
  rv_width4_words :: nat
  rv_width8_words :: nat
  rv_write_bytes_verified :: nat
  rv_non_target_bytes_verified :: nat
  rv_changed_bytes :: nat
  rv_chain_words_preserved :: nat
  rv_header_ranges_preserved :: nat

record rebase_word =
  rw_offset :: nat
  rw_width :: nat
  rw_after :: byte_string \<comment> \<open>eight bytes\<close>

record kc_classic_rebase_plan =
  rp_source :: byte_string
  rp_staging :: kc_staging_plan
  rp_words :: "rebase_word list"
  rp_verification :: classic_rebase_verification

definition rp_preparation_ready :: "kc_classic_rebase_plan \<Rightarrow> bool" where
  "rp_preparation_ready plan \<longleftrightarrow> False"

record rebased_kc =
  rk_plan :: kc_classic_rebase_plan
  rk_bytes :: byte_string
  rk_original_staging :: staging_verification

definition rk_verification :: "rebased_kc \<Rightarrow> classic_rebase_verification" where
  "rk_verification k = rp_verification (rk_plan k)"

definition classic_relocations_applied :: "rebased_kc \<Rightarrow> bool" where
  "classic_relocations_applied k \<longleftrightarrow> True"

definition rk_preparation_ready :: "rebased_kc \<Rightarrow> bool" where
  "rk_preparation_ready k \<longleftrightarrow> False"

text \<open>What is asked of the allocator: by the staging plan, by the audit, and here.\<close>

datatype rebase_reservation =
    For_Staging staging_reservation
  | For_Audit audit_reservation
  | Reserve_Words nat
  | Reserve_Bytes nat

section \<open>Planning\<close>

definition cr_overlaps :: "u64 \<Rightarrow> u64 \<Rightarrow> u64 \<Rightarrow> u64 \<Rightarrow> classic_rebase_error + bool" where
  "cr_overlaps a alen b blen =
     and_then (ok_or (checked_add b blen) CR_AddressOverflow) (\<lambda>b_end.
     if \<not> a < b_end then Inr False
     else
     and_then (ok_or (checked_add a alen) CR_AddressOverflow) (\<lambda>a_end. Inr (b < a_end)))"

fun mapping_in_segments :: "segment_metadata list \<Rightarrow> u64 \<Rightarrow> u64 \<Rightarrow> u64 \<Rightarrow> classic_rebase_error + bool" where
  "mapping_in_segments [] address stop file = Inr False"
| "mapping_in_segments (s # segments) address stop file =
     and_then (ok_or (checked_add (seg_address s) (fr_size (seg_file s))) CR_AddressOverflow) (\<lambda>file_end.
     if seg_address s \<le> address \<and> stop \<le> file_end
     then and_then (ok_or (checked_add (fr_offset (seg_file s)) (address - seg_address s)) CR_AddressOverflow)
            (\<lambda>at. Inr (at = file))
     else mapping_in_segments segments address stop file)"

definition file_mapping_matches ::
  "image_metadata \<Rightarrow> u64 \<Rightarrow> u64 \<Rightarrow> u64 \<Rightarrow> classic_rebase_error + bool" where
  "file_mapping_matches img address file width =
     and_then (ok_or (checked_add address width) CR_AddressOverflow) (\<lambda>stop.
     mapping_in_segments (im_segments img) address stop file)"

definition check_header ::
  "u64 \<Rightarrow> u64 \<Rightarrow> u64 \<Rightarrow> image_metadata \<Rightarrow> classic_rebase_error + unit" where
  "check_header file address width img =
     (let header_size = 32 + ucast (im_command_bytes img) in
      and_then (cr_overlaps file width (im_header_file_offset img) header_size) (\<lambda>in_file.
      and_then (if in_file then Inr True
                else cr_overlaps address width (im_header_address img) header_size) (\<lambda>overlap.
      if overlap then Inl CR_HeaderWrite else Inr ())))"

definition supported_profile :: "audit_record \<Rightarrow> classic_detail \<Rightarrow> bool" where
  "supported_profile record d \<longleftrightarrow>
     \<not> (ar_image_index record \<noteq> 0 \<or>
        cd_table d \<noteq> LocalDynamic \<or>
        cd_symbol_ordinal d \<noteq> 0 \<or>
        cd_relocation_type d \<noteq> 0 \<or>
        cd_pc_relative d \<or>
        cd_external d \<or>
        cd_length_exponent d \<notin> {2, 3} \<or>
        ar_width record \<noteq> push_bit (unat (cd_length_exponent d)) 1 \<or>
        ar_member_overlap record \<noteq> ExecutableMember)"

definition count_changed :: "byte_string \<Rightarrow> byte_string \<Rightarrow> nat" where
  "count_changed xs ys = length (filter (\<lambda>(a, b). a \<noteq> b) (zip xs ys))"

definition count_word ::
  "byte_string \<Rightarrow> byte_string \<Rightarrow> nat \<Rightarrow> classic_rebase_verification \<Rightarrow> classic_rebase_verification" where
  "count_word raw after width v =
     (let v = v\<lparr> rv_changed_bytes := rv_changed_bytes v + count_changed raw (take width after),
                 rv_classic_words := rv_classic_words v + 1,
                 rv_write_bytes_verified := rv_write_bytes_verified v + width \<rparr> in
      if width = 4 then v\<lparr> rv_width4_words := rv_width4_words v + 1 \<rparr>
      else v\<lparr> rv_width8_words := rv_width8_words v + 1 \<rparr>)"

definition plan_word ::
  "byte_string \<Rightarrow> kc_staging_plan \<Rightarrow> image_metadata \<Rightarrow> u32 \<Rightarrow>
   rebase_word list \<times> classic_rebase_verification \<Rightarrow> audit_record \<Rightarrow>
   classic_rebase_error + rebase_word list \<times> classic_rebase_verification" where
  "plan_word source staging kernel_image slide = (\<lambda>(words, verification) record.
     case ar_detail record of
       Chain11 _ \<Rightarrow> Inr (words, verification)
     | Classic d \<Rightarrow>
     if \<not> supported_profile record d then Inl CR_UnsupportedClassicProfile
     else
     and_then (ok_or (ar_write_address record) CR_OutsideKernelFileMapping) (\<lambda>address.
     and_then (ok_or (ar_write_file_offset record) CR_OutsideKernelFileMapping) (\<lambda>file.
     let width = unat (ar_width record); inspection = sp_inspection staging in
     and_then (file_mapping_matches kernel_image address file (ucast (ar_width record))) (\<lambda>matches.
     if \<not> matches then Inl CR_OutsideKernelFileMapping
     else
     and_then (for_each (check_header file address (ucast (ar_width record)))
        (ki_collection inspection # List.map fm_image (ki_members inspection))) (\<lambda>_.
     and_then (ok_or (cd_stored_value d) CR_OutsideKernelFileMapping) (\<lambda>before.
     and_then (ok_or (checked_add before (ucast slide)) CR_ValueOverflow) (\<lambda>after.
     if width = 4 \<and> 0xffffffff < after then Inl CR_ValueOverflow
     else
     and_then (ok_or (checked_sub address (sp_minimum_virtual_address staging)) CR_AddressOverflow) (\<lambda>offset64.
     let offset = unat offset64 in
     and_then (ok_or (usize_add offset width) CR_AddressOverflow) (\<lambda>stop.
     if sp_arena_size staging < stop then Inl CR_OutsideKernelFileMapping
     else
     and_then (ok_or (usize_add (unat file) width) CR_AddressOverflow) (\<lambda>source_end.
     and_then (ok_or (get_range source (unat file) source_end) CR_OutsideKernelFileMapping) (\<lambda>raw.
     if raw \<noteq> take width (to_le_bytes before) then Inl CR_UnsupportedClassicProfile
     else
     Inr (words @ [\<lparr> rw_offset = offset, rw_width = width, rw_after = to_le_bytes after \<rparr>],
          count_word raw (to_le_bytes after) width verification))))))))))))"

definition check_word_pair :: "rebase_word \<Rightarrow> rebase_word \<Rightarrow> classic_rebase_error + unit" where
  "check_word_pair a b =
     (if rw_offset b < rw_offset a + rw_width a then Inl CR_AuditIssues else Inr ())"

definition executable_member :: "kc_metadata_inspection \<Rightarrow> classic_rebase_error + image_metadata" where
  "executable_member inspection =
     (case filter (\<lambda>m. im_file_type (fm_image m) = 2) (ki_members inspection) of
        [m] \<Rightarrow> Inr (fm_image m)
      | _ \<Rightarrow> Inl CR_ExecutableMemberCount)"

definition rebase_new ::
  "(rebase_reservation \<Rightarrow> bool) \<Rightarrow> byte_string \<Rightarrow> u32 \<Rightarrow> classic_rebase_error + kc_classic_rebase_plan" where
  "rebase_new R source slide =
     and_then (map_err CR_Staging (staging_new (R \<circ> For_Staging) source)) (\<lambda>staging.
     let inspection = sp_inspection staging in
     and_then (executable_member inspection) (\<lambda>kernel_image.
     and_then (map_err CR_Audit (audit_kernel_collection (R \<circ> For_Audit) source)) (\<lambda>audit.
     if \<not> ranges_valid audit then Inl CR_AuditIssues
     else if su_classic_records (fa_summary audit) = 0 then Inl CR_EmptyClassicTable
     else if \<not> R (Reserve_Words (su_classic_records (fa_summary audit))) then Inl CR_AllocationFailed
     else
     and_then (try_fold (plan_word source staging kernel_image slide)
        ([], \<lparr> rv_slide = slide, rv_arena_bytes = sp_arena_size staging, rv_classic_words = 0,
               rv_width4_words = 0, rv_width8_words = 0, rv_write_bytes_verified = 0,
               rv_non_target_bytes_verified = 0, rv_changed_bytes = 0,
               rv_chain_words_preserved = su_chain_records (fa_summary audit),
               rv_header_ranges_preserved = length (ki_members inspection) + 1 \<rparr>)
        (fa_records audit)) (\<lambda>(unsorted, verification).
     let words = sort_key rw_offset unsorted in
     and_then (for_windows check_word_pair words) (\<lambda>_.
     if rv_arena_bytes verification < rv_write_bytes_verified verification then Inl CR_AddressOverflow
     else
     Inr \<lparr> rp_source = source, rp_staging = staging, rp_words = words,
            rp_verification = verification\<lparr> rv_non_target_bytes_verified :=
              rv_arena_bytes verification - rv_write_bytes_verified verification \<rparr> \<rparr>)))))"

section \<open>Readback\<close>

text \<open>The comparison of \<^verbatim>\<open>bytes[a..b]\<close> with the expected bytes or with zeros.\<close>

definition compare_range ::
  "(nat \<Rightarrow> nat \<Rightarrow> nat) \<Rightarrow> byte_string \<Rightarrow> nat \<Rightarrow> nat \<Rightarrow> byte_string option \<Rightarrow> classic_rebase_error + unit" where
  "compare_range al bytes a b expected =
     and_then (ok_or (readback_range al bytes a b expected) CR_Panic) (\<lambda>same.
     if \<not> same then Inl CR_ReadbackMismatch else Inr ())"

text \<open>The segments that end at or before the cursor are passed over.\<close>

definition skip_segments :: "staging_segment list \<Rightarrow> nat \<Rightarrow> nat \<Rightarrow> nat" where
  "skip_segments segments si cursor =
     si + length (takeWhile (\<lambda>s. ss_destination_offset s + ss_memory_size s \<le> cursor) (drop si segments))"

text \<open>The end of the next range, and where in the source its bytes start, if it has any.\<close>

definition next_range ::
  "staging_segment list \<Rightarrow> nat \<Rightarrow> nat \<Rightarrow> nat \<Rightarrow> nat \<times> nat option" where
  "next_range segments si cursor next_word =
     (if si < length segments
      then
        let segm = segments ! si in
        if cursor < ss_destination_offset segm
        then (min next_word (ss_destination_offset segm), None)
        else
        let copy_end = ss_destination_offset segm + ss_file_size segm in
        if cursor < copy_end
        then (min next_word copy_end, Some (ss_file_offset segm + cursor - ss_destination_offset segm))
        else (min next_word (ss_destination_offset segm + ss_memory_size segm), None)
      else (next_word, None))"

definition word_at_cursor :: "kc_classic_rebase_plan \<Rightarrow> nat \<Rightarrow> nat \<Rightarrow> rebase_word option" where
  "word_at_cursor plan cursor wi =
     (if wi < length (rp_words plan) \<and> rw_offset (rp_words plan ! wi) = cursor
      then Some (rp_words plan ! wi) else None)"

text \<open>The comparison of the range up to \<open>stop\<close>, whose source bytes are looked up first.\<close>

definition compare_source ::
  "(nat \<Rightarrow> nat \<Rightarrow> nat) \<Rightarrow> byte_string \<Rightarrow> byte_string \<Rightarrow> nat \<Rightarrow> nat \<Rightarrow> nat option \<Rightarrow>
   classic_rebase_error + unit" where
  "compare_source al source bytes cursor stop source_start =
     and_then (case source_start of
                 None \<Rightarrow> Inr None
               | Some at \<Rightarrow>
                   and_then (ok_or (get_range source at (at + stop - cursor)) CR_Panic) (\<lambda>b. Inr (Some b)))
       (\<lambda>expected. compare_range al bytes cursor stop expected)"

function verify_loop ::
  "(nat \<Rightarrow> nat \<Rightarrow> nat) \<Rightarrow> kc_classic_rebase_plan \<Rightarrow> byte_string \<Rightarrow> nat \<Rightarrow> nat \<Rightarrow> nat \<Rightarrow>
   classic_rebase_error + nat" where
  "verify_loop al plan bytes cursor si wi =
     (if length bytes \<le> cursor then Inr wi
      else
      case word_at_cursor plan cursor wi of
        Some w \<Rightarrow>
          and_then (compare_range al bytes cursor (cursor + rw_width w)
             (Some (take (rw_width w) (rw_after w)))) (\<lambda>_.
          verify_loop al plan bytes (cursor + rw_width w) si (wi + 1))
      | None \<Rightarrow>
          let si = skip_segments (sp_segments (rp_staging plan)) si cursor;
              next_word = (if wi < length (rp_words plan) then rw_offset (rp_words plan ! wi)
                           else length bytes)
          in
          case next_range (sp_segments (rp_staging plan)) si cursor next_word of
            (stop, source_start) \<Rightarrow>
              if stop \<le> cursor then Inl CR_ReadbackMismatch
              else
              and_then (compare_source al (rp_source plan) bytes cursor stop source_start) (\<lambda>_.
              verify_loop al plan bytes stop si wi))"
  by pat_completeness auto

termination verify_loop
  by (relation "measure (\<lambda>(al, plan, bytes, cursor, si, wi).
        (length bytes - cursor) + (length (rp_words plan) - wi))")
     (auto simp: word_at_cursor_def split: if_splits)

declare verify_loop.simps [simp del]

definition rebase_verify ::
  "(nat \<Rightarrow> nat \<Rightarrow> nat) \<Rightarrow> kc_classic_rebase_plan \<Rightarrow> byte_string \<Rightarrow>
   classic_rebase_error + classic_rebase_verification" where
  "rebase_verify al plan bytes =
     (if length bytes \<noteq> sp_arena_size (rp_staging plan) then Inl CR_DestinationSize
      else
      and_then (verify_loop al plan bytes 0 0 0) (\<lambda>wi.
      if wi \<noteq> length (rp_words plan) then Inl CR_ReadbackMismatch
      else Inr (rp_verification plan)))"

section \<open>Application\<close>

definition write_word :: "byte_string option \<Rightarrow> rebase_word \<Rightarrow> byte_string option" where
  "write_word bytes w =
     (case bytes of
        None \<Rightarrow> None
      | Some b \<Rightarrow>
          copy_from_slice b (rw_offset w, rw_offset w + rw_width w) (take (rw_width w) (rw_after w)))"

definition rebase_apply ::
  "(rebase_reservation \<Rightarrow> bool) \<Rightarrow> (nat \<Rightarrow> nat \<Rightarrow> nat) \<Rightarrow> kc_classic_rebase_plan \<Rightarrow>
   classic_rebase_error + rebased_kc" where
  "rebase_apply R al plan =
     (let n = sp_arena_size (rp_staging plan) in
      if \<not> R (Reserve_Bytes n) then Inl CR_AllocationFailed
      else
      case stage_into al (rp_staging plan) (replicate n 0) of (staged, bytes) \<Rightarrow>
      and_then (map_err CR_Staging staged) (\<lambda>original_staging.
      and_then (ok_or (foldl write_word (Some bytes) (rp_words plan)) CR_Panic) (\<lambda>bytes.
      and_then (rebase_verify al plan bytes) (\<lambda>_.
      Inr \<lparr> rk_plan = plan, rk_bytes = bytes, rk_original_staging = original_staging \<rparr>))))"

end
