(* ===== verification/Kc_Classic_Rebase_Proofs.thy ===== *)
theory Kc_Classic_Rebase_Proofs
  imports Kc_Classic_Rebase Kc_Fixup_Audit_Theorems Kc_Staging_Theorems
begin

text \<open>
  The rebased arena: the staged arena with the words of the plan written over it. Applying a plan
  gives it, and the readback, which walks over the words, the file parts, the zero tails and the
  holes of the arena, accepts it and nothing else.
\<close>

section \<open>Sound plans\<close>

definition words_ok :: "nat \<Rightarrow> rebase_word list \<Rightarrow> bool" where
  "words_ok n ws \<longleftrightarrow>
     sorted_wrt (\<lambda>a b. rw_offset a + rw_width a \<le> rw_offset b) ws \<and>
     (\<forall>w \<in> set ws. 0 < rw_width w \<and> rw_width w \<le> length (rw_after w) \<and> rw_offset w + rw_width w \<le> n)"

definition rebase_ok :: "kc_classic_rebase_plan \<Rightarrow> bool" where
  "rebase_ok plan \<longleftrightarrow> plan_ok (rp_staging plan) \<and> sp_source (rp_staging plan) = rp_source plan \<and>
     words_ok (sp_arena_size (rp_staging plan)) (rp_words plan)"

definition word_chunk :: "rebase_word \<Rightarrow> nat \<times> byte_string" where
  "word_chunk w = (rw_offset w, take (rw_width w) (rw_after w))"

definition rebased_arena :: "kc_classic_rebase_plan \<Rightarrow> byte_string" where
  "rebased_arena plan = put_chunks (map word_chunk (rp_words plan)) (staged_arena (rp_staging plan))"

lemma words_fit:
  assumes "words_ok n ws"
  shows "chunks_fit n (map word_chunk ws)" and "sorted_wrt chunk_apart (map word_chunk ws)"
proof -
  show "chunks_fit n (map word_chunk ws)"
    using assms by (auto simp: words_ok_def chunks_fit_def word_chunk_def)
  have "sorted_wrt (\<lambda>a b. chunk_apart (word_chunk a) (word_chunk b)) ws"
    by (rule sorted_wrt_mono_rel [of _ "\<lambda>a b. rw_offset a + rw_width a \<le> rw_offset b"])
      (use assms in \<open>auto simp: words_ok_def chunk_apart_def word_chunk_def\<close>)
  then show "sorted_wrt chunk_apart (map word_chunk ws)" by (simp add: sorted_wrt_map)
qed

lemma length_rebased_arena: "rebase_ok plan \<Longrightarrow> length (rebased_arena plan) = sp_arena_size (rp_staging plan)"
  by (simp add: rebased_arena_def length_put_chunks words_fit rebase_ok_def)

lemma rebased_word:
  assumes "rebase_ok plan" and "w \<in> set (rp_words plan)"
  shows "take (rw_width w) (drop (rw_offset w) (rebased_arena plan)) = take (rw_width w) (rw_after w)"
proof -
  have "rw_width w \<le> length (rw_after w)" using assms by (simp add: rebase_ok_def words_ok_def)
  then show ?thesis
    using put_chunks_read [of "staged_arena (rp_staging plan)" "map word_chunk (rp_words plan)"
        "rw_offset w" "take (rw_width w) (rw_after w)"] assms words_fit
    by (auto simp: rebased_arena_def rebase_ok_def word_chunk_def image_iff min_absorb2)
qed

lemma rebased_word_nth:
  assumes "rebase_ok plan" and "w \<in> set (rp_words plan)"
    and "rw_offset w \<le> i" and "i < rw_offset w + rw_width w"
  shows "rebased_arena plan ! i = rw_after w ! (i - rw_offset w)"
proof -
  have "take (rw_width w) (drop (rw_offset w) (rebased_arena plan)) ! (i - rw_offset w) =
      take (rw_width w) (rw_after w) ! (i - rw_offset w)"
    by (simp only: rebased_word [OF assms(1,2)])
  moreover have "rw_offset w + rw_width w \<le> length (rebased_arena plan)"
    using assms(1,2) by (simp add: length_rebased_arena) (simp add: rebase_ok_def words_ok_def)
  ultimately show ?thesis using assms(3,4) by simp
qed

lemma rebased_elsewhere:
  assumes "rebase_ok plan" and "i < sp_arena_size (rp_staging plan)"
    and "\<And>w. w \<in> set (rp_words plan) \<Longrightarrow> i < rw_offset w \<or> rw_offset w + rw_width w \<le> i"
  shows "rebased_arena plan ! i = staged_byte (rp_source plan) (sp_segments (rp_staging plan)) i"
proof -
  have "rebased_arena plan ! i = staged_arena (rp_staging plan) ! i"
    unfolding rebased_arena_def
    by (rule put_chunks_nth_elsewhere)
      (use assms words_fit in \<open>auto simp: rebase_ok_def words_ok_def word_chunk_def\<close>)
  then show ?thesis using assms(1,2) by (simp add: staged_arena_def rebase_ok_def)
qed

section \<open>Application\<close>

lemma write_words:
  assumes "chunks_fit (length bs) (map word_chunk ws)"
    and "\<forall>w \<in> set ws. rw_width w \<le> length (rw_after w)"
  shows "foldl write_word (Some bs) ws = Some (put_chunks (map word_chunk ws) bs)"
  using assms
proof (induction ws arbitrary: bs)
  case (Cons w ws)
  have fit: "rw_offset w + rw_width w \<le> length bs" and len: "length (take (rw_width w) (rw_after w)) = rw_width w"
    using Cons.prems by (simp_all add: word_chunk_def)
  have "write_word (Some bs) w = Some (put_bytes bs (rw_offset w) (take (rw_width w) (rw_after w)))"
    using fit len by (simp add: write_word_def copy_from_slice_def)
  then show ?case using Cons.IH Cons.prems fit len by (simp add: word_chunk_def)
qed simp

section \<open>Readback\<close>

lemma chain_sorted:
  "chain n p segs \<Longrightarrow> sorted_wrt (\<lambda>s t. ss_destination_offset s + ss_memory_size s \<le> ss_destination_offset t) segs"
proof (induction segs arbitrary: p)
  case (Cons s segs)
  then show ?case
    using chain_mem(1) [of n "ss_destination_offset s + ss_memory_size s" segs] by auto
qed simp

lemma skip_segments_props:
  fixes segs :: "staging_segment list" and si cursor :: nat
  defines "k \<equiv> skip_segments segs si cursor"
  assumes "\<forall>j < length segs. j < si \<longrightarrow> ss_destination_offset (segs ! j) + ss_memory_size (segs ! j) \<le> cursor"
  shows "\<forall>j < length segs. j < k \<longrightarrow> ss_destination_offset (segs ! j) + ss_memory_size (segs ! j) \<le> cursor"
    and "k < length segs \<Longrightarrow> cursor < ss_destination_offset (segs ! k) + ss_memory_size (segs ! k)"
proof -
  let ?P = "\<lambda>s. ss_destination_offset s + ss_memory_size s \<le> cursor"
  let ?t = "takeWhile ?P (drop si segs)"
  have k: "k = si + length ?t" by (simp add: k_def skip_segments_def)
  show "\<forall>j < length segs. j < k \<longrightarrow> ?P (segs ! j)"
  proof (intro allI impI)
    fix j assume j: "j < length segs" "j < k"
    show "?P (segs ! j)"
    proof (cases "j < si")
      case False
      then have i: "j - si < length ?t" using j k by simp
      then have "?t ! (j - si) \<in> set ?t" by simp
      moreover have "?t ! (j - si) = segs ! j" using i j False by (simp add: takeWhile_nth)
      ultimately show ?thesis by (auto dest: set_takeWhileD)
    qed (use assms(2) j in simp)
  qed
  show "cursor < ss_destination_offset (segs ! k) + ss_memory_size (segs ! k)" if "k < length segs"
  proof -
    have "length ?t < length (drop si segs)" using that k by simp
    from nth_length_takeWhile [OF this] show ?thesis using that k by simp
  qed
qed

lemma compare_zeros:
  assumes "a \<le> b" and "b \<le> length bytes" and "\<And>i. a \<le> i \<Longrightarrow> i < b \<Longrightarrow> f i = 0"
  shows "compare_source al source bytes a b None =
    (if agrees bytes f a b then Inr () else Inl CR_ReadbackMismatch)"
proof -
  have "agrees bytes (\<lambda>_. 0) a b \<longleftrightarrow> agrees bytes f a b"
    by (rule agrees_cong) (simp add: assms(3))
  then show ?thesis by (simp add: compare_source_def compare_range_def readback_zeros [OF assms(1,2)])
qed

lemma compare_file:
  assumes "a \<le> b" and "b \<le> length bytes" and "c + (b - a) \<le> length source"
    and "\<And>i. a \<le> i \<Longrightarrow> i < b \<Longrightarrow> f i = source ! (c + (i - a))"
  shows "compare_source al source bytes a b (Some c) =
    (if agrees bytes f a b then Inr () else Inl CR_ReadbackMismatch)"
proof -
  have "get_range source c (c + b - a) = Some (take (b - a) (drop c source))"
    using assms(1,3) by (simp add: get_range_def)
  moreover have "agrees bytes (\<lambda>i. source ! (c + (i - a))) a b \<longleftrightarrow> agrees bytes f a b"
    by (rule agrees_cong) (simp add: assms(4))
  ultimately show ?thesis
    by (simp add: compare_source_def compare_range_def readback_file [OF assms(1-3)])
qed

text \<open>The range after the cursor, where no word starts at the cursor.\<close>

lemma next_range_step:
  assumes ch: "chain (length source) 0 segs" and n: "chain_end 0 segs \<le> length bytes"
    and before: "\<forall>j < length segs. j < si \<longrightarrow> ss_destination_offset (segs ! j) + ss_memory_size (segs ! j) \<le> cursor"
    and here: "si < length segs \<Longrightarrow> cursor < ss_destination_offset (segs ! si) + ss_memory_size (segs ! si)"
    and word: "cursor < next_word" "next_word \<le> length bytes"
    and r: "next_range segs si cursor next_word = (stop, source_start)"
  shows "cursor < stop \<and> stop \<le> next_word \<and> compare_source al source bytes cursor stop source_start =
    (if agrees bytes (staged_byte source segs) cursor stop then Inr () else Inl CR_ReadbackMismatch)"
proof -
  have zero: "staged_byte source segs i = 0"
    if "cursor \<le> i" and "\<And>j. si \<le> j \<Longrightarrow> j < length segs \<Longrightarrow> i < ss_destination_offset (segs ! j)" for i
  proof (rule staged_byte_hole)
    fix s assume "s \<in> set segs"
    then obtain j where j: "j < length segs" "s = segs ! j" by (auto simp: in_set_conv_nth)
    show "i < ss_destination_offset s \<or> ss_destination_offset s + ss_memory_size s \<le> i"
      using before that j by (cases "j < si") (auto intro: order_trans)
    show "ss_file_size s \<le> ss_memory_size s" using chain_mem(3) [OF ch \<open>s \<in> set segs\<close>] .
  qed
  show ?thesis
  proof (cases "si < length segs")
    case False
    then have "stop = next_word" "source_start = None" using r by (auto simp: next_range_def)
    moreover have "compare_source al source bytes cursor next_word None =
        (if agrees bytes (staged_byte source segs) cursor next_word then Inr () else Inl CR_ReadbackMismatch)"
      by (rule compare_zeros) (use word zero False in auto)
    ultimately show ?thesis using word by simp
  next
    case True
    let ?s = "segs ! si"
    have s: "?s \<in> set segs" using True by simp
    note m = chain_mem [OF ch s]
    have later: "ss_destination_offset ?s \<le> ss_destination_offset (segs ! j)" if "si \<le> j" "j < length segs" for j
    proof (cases "j = si")
      case False
      then have "ss_destination_offset ?s + ss_memory_size ?s \<le> ss_destination_offset (segs ! j)"
        using chain_sorted [OF ch] that by (simp add: sorted_wrt_iff_nth_less)
      then show ?thesis by simp
    qed simp
    note owned = staged_byte_owned [OF ch s]
    consider "cursor < ss_destination_offset ?s"
      | "ss_destination_offset ?s \<le> cursor" "cursor < ss_destination_offset ?s + ss_file_size ?s"
      | "ss_destination_offset ?s \<le> cursor" "ss_destination_offset ?s + ss_file_size ?s \<le> cursor"
      by linarith
    then show ?thesis
    proof cases
      case 1
      have stop: "stop = min next_word (ss_destination_offset ?s)" "source_start = None"
        using r 1 True by (simp_all add: next_range_def Let_def)
      have "compare_source al source bytes cursor stop None =
          (if agrees bytes (staged_byte source segs) cursor stop then Inr () else Inl CR_ReadbackMismatch)"
        by (rule compare_zeros) (use word 1 stop zero later in \<open>auto intro: less_le_trans\<close>)
      then show ?thesis using word 1 stop by simp
    next
      case 2
      let ?c = "ss_file_offset ?s + cursor - ss_destination_offset ?s"
      have stop: "stop = min next_word (ss_destination_offset ?s + ss_file_size ?s)" "source_start = Some ?c"
        using r 2 True by (simp_all add: next_range_def Let_def)
      have "compare_source al source bytes cursor stop (Some ?c) =
          (if agrees bytes (staged_byte source segs) cursor stop then Inr () else Inl CR_ReadbackMismatch)"
      proof (rule compare_file)
        show "?c + (stop - cursor) \<le> length source" using m 2 stop by simp
        show "staged_byte source segs i = source ! (?c + (i - cursor))" if "cursor \<le> i" "i < stop" for i
        proof -
          have "?c + (i - cursor) = ss_file_offset ?s + (i - ss_destination_offset ?s)" using 2 that by simp
          then show ?thesis using owned [of i source] that 2 stop m by simp
        qed
      qed (use word 2 stop in auto)
      then show ?thesis using word 2 stop by simp
    next
      case 3
      have stop: "stop = min next_word (ss_destination_offset ?s + ss_memory_size ?s)" "source_start = None"
        using r 3 True by (simp_all add: next_range_def Let_def)
      have "compare_source al source bytes cursor stop None =
          (if agrees bytes (staged_byte source segs) cursor stop then Inr () else Inl CR_ReadbackMismatch)"
        by (rule compare_zeros) (use word 3 stop here [OF True] owned in auto)
      then show ?thesis using word 3 stop here [OF True] by simp
    qed
  qed
qed

definition loop_at :: "kc_classic_rebase_plan \<Rightarrow> nat \<Rightarrow> nat \<Rightarrow> nat \<Rightarrow> bool" where
  "loop_at plan cursor si wi \<longleftrightarrow>
     (\<forall>j < length (sp_segments (rp_staging plan)). j < si \<longrightarrow>
        ss_destination_offset (sp_segments (rp_staging plan) ! j) +
        ss_memory_size (sp_segments (rp_staging plan) ! j) \<le> cursor) \<and>
     wi \<le> length (rp_words plan) \<and>
     (\<forall>j < wi. rw_offset (rp_words plan ! j) + rw_width (rp_words plan ! j) \<le> cursor) \<and>
     (wi < length (rp_words plan) \<longrightarrow> cursor \<le> rw_offset (rp_words plan ! wi))"

lemma loop_at_word:
  assumes ok: "rebase_ok plan" and at: "loop_at plan cursor si wi" and w: "word_at_cursor plan cursor wi = Some w"
  shows "w \<in> set (rp_words plan)" and "rw_offset w = cursor" and "wi < length (rp_words plan)"
    and "loop_at plan (cursor + rw_width w) si (wi + 1)"
proof -
  let ?ws = "rp_words plan"
  show wi: "wi < length ?ws" and off: "rw_offset w = cursor"
    using w by (auto simp: word_at_cursor_def split: if_splits)
  have eq: "w = ?ws ! wi" using w by (auto simp: word_at_cursor_def split: if_splits)
  then show "w \<in> set ?ws" using wi by simp
  have "rw_offset w + rw_width w \<le> rw_offset (?ws ! Suc wi)" if "Suc wi < length ?ws"
    using ok that unfolding eq by (auto simp: rebase_ok_def words_ok_def sorted_wrt_iff_nth_less)
  then show "loop_at plan (cursor + rw_width w) si (wi + 1)"
    using at off eq wi by (fastforce simp: loop_at_def less_Suc_eq)
qed

lemma loop_at_range:
  assumes ok: "rebase_ok plan" and at: "loop_at plan cursor si wi" and none: "word_at_cursor plan cursor wi = None"
    and len: "length bytes = sp_arena_size (rp_staging plan)" and inside: "cursor < length bytes"
    and next_word: "next_word = (if wi < length (rp_words plan) then rw_offset (rp_words plan ! wi) else length bytes)"
    and si': "si' = skip_segments (sp_segments (rp_staging plan)) si cursor"
    and r: "next_range (sp_segments (rp_staging plan)) si' cursor next_word = (stop, source_start)"
  shows "cursor < stop" and "stop \<le> length bytes" and "loop_at plan stop si' wi"
    and "compare_source al (rp_source plan) bytes cursor stop source_start =
      (if agrees bytes (\<lambda>i. rebased_arena plan ! i) cursor stop then Inr () else Inl CR_ReadbackMismatch)"
proof -
  let ?ws = "rp_words plan" and ?segs = "sp_segments (rp_staging plan)"
  have plan: "chain (length (rp_source plan)) 0 ?segs" "chain_end 0 ?segs \<le> length bytes"
    "words_ok (length bytes) ?ws"
    using ok len by (auto simp: rebase_ok_def plan_ok_def)
  have word: "cursor < next_word" "next_word \<le> length bytes"
  proof -
    have "rw_offset (?ws ! wi) \<noteq> cursor" if "wi < length ?ws"
      using none that by (auto simp: word_at_cursor_def)
    then show "cursor < next_word"
      using at inside unfolding next_word loop_at_def by (cases "wi < length ?ws") auto
    show "next_word \<le> length bytes"
      using plan(3) unfolding next_word words_ok_def by (auto dest!: bspec [OF _ nth_mem])
  qed
  have skipped: "\<forall>j < length ?segs. j < si' \<longrightarrow> ss_destination_offset (?segs ! j) + ss_memory_size (?segs ! j) \<le> cursor"
    and here: "si' < length ?segs \<Longrightarrow> cursor < ss_destination_offset (?segs ! si') + ss_memory_size (?segs ! si')"
    using skip_segments_props [of ?segs si cursor] at unfolding si' loop_at_def by blast+
  note step = next_range_step [OF plan(1,2) skipped here word r]
  show "cursor < stop" using step by blast
  show stop_len: "stop \<le> length bytes"
  proof -
    have "stop \<le> next_word" using step by blast
    then show ?thesis using word(2) by simp
  qed
  have nw: "stop \<le> rw_offset (?ws ! wi)" if "wi < length ?ws"
  proof -
    have "stop \<le> next_word" using step by blast
    then show ?thesis using next_word that by simp
  qed
  show "loop_at plan stop si' wi"
    using skipped at nw \<open>cursor < stop\<close> by (fastforce simp: loop_at_def)
  have "agrees bytes (staged_byte (rp_source plan) ?segs) cursor stop \<longleftrightarrow>
      agrees bytes (\<lambda>i. rebased_arena plan ! i) cursor stop"
  proof (rule agrees_cong)
    fix i assume i: "cursor \<le> i" "i < stop"
    show "staged_byte (rp_source plan) ?segs i = rebased_arena plan ! i"
    proof (rule rebased_elsewhere [OF ok, symmetric])
      show "i < sp_arena_size (rp_staging plan)" using i stop_len len by simp
      fix w assume "w \<in> set ?ws"
      then obtain j where j: "j < length ?ws" "w = ?ws ! j" by (auto simp: in_set_conv_nth)
      show "i < rw_offset w \<or> rw_offset w + rw_width w \<le> i"
      proof (cases "j < wi")
        case True
        then show ?thesis using at i j by (auto simp: loop_at_def intro: order_trans)
      next
        case False
        have "rw_offset (?ws ! wi) \<le> rw_offset (?ws ! j)"
        proof (cases "j = wi")
          case False
          then have "rw_offset (?ws ! wi) + rw_width (?ws ! wi) \<le> rw_offset (?ws ! j)"
            using plan(3) \<open>\<not> j < wi\<close> j by (auto simp: words_ok_def sorted_wrt_iff_nth_less)
          then show ?thesis by simp
        qed simp
        then show ?thesis using nw False i j by simp
      qed
    qed
  qed
  then show "compare_source al (rp_source plan) bytes cursor stop source_start =
      (if agrees bytes (\<lambda>i. rebased_arena plan ! i) cursor stop then Inr () else Inl CR_ReadbackMismatch)"
    using conjunct2 [OF conjunct2 [OF step [of al]]] by simp
qed

lemma compare_word:
  assumes ok: "rebase_ok plan" and w: "w \<in> set (rp_words plan)"
    and len: "length bytes = sp_arena_size (rp_staging plan)"
  shows "compare_range al bytes (rw_offset w) (rw_offset w + rw_width w) (Some (take (rw_width w) (rw_after w))) =
    (if agrees bytes (\<lambda>i. rebased_arena plan ! i) (rw_offset w) (rw_offset w + rw_width w)
     then Inr () else Inl CR_ReadbackMismatch)"
proof -
  let ?e = "take (rw_width w) (rw_after w)" and ?a = "rw_offset w" and ?b = "rw_offset w + rw_width w"
  have fit: "?a \<le> ?b" "?b \<le> length bytes" "length ?e = ?b - ?a"
    using ok w len by (auto simp: rebase_ok_def words_ok_def)
  have "agrees bytes (\<lambda>i. ?e ! (i - ?a)) ?a ?b \<longleftrightarrow> agrees bytes (\<lambda>i. rebased_arena plan ! i) ?a ?b"
    by (rule agrees_cong) (use rebased_word_nth [OF ok w] in auto)
  then show ?thesis
    using fit segment_agrees [OF fit] by (simp add: compare_range_def readback_range_inside expected_list_def)
qed

lemma verify_loop_exact:
  assumes ok: "rebase_ok plan"
  shows "length bytes = sp_arena_size (rp_staging plan) \<Longrightarrow> cursor \<le> length bytes \<Longrightarrow>
    loop_at plan cursor si wi \<Longrightarrow>
    verify_loop al plan bytes cursor si wi =
      (if agrees bytes (\<lambda>i. rebased_arena plan ! i) cursor (length bytes)
       then Inr (length (rp_words plan)) else Inl CR_ReadbackMismatch)"
  using ok
proof (induction al plan bytes cursor si wi rule: verify_loop.induct)
  case (1 al plan bytes cursor si wi)
  note ok = \<open>rebase_ok plan\<close> and len = 1(3) and at = 1(5)
  let ?f = "\<lambda>i. rebased_arena plan ! i"
  show ?case
  proof (cases "length bytes \<le> cursor")
    case True
    have "wi = length (rp_words plan)"
    proof (rule ccontr)
      assume "wi \<noteq> length (rp_words plan)"
      then have wi: "wi < length (rp_words plan)" using at by (simp add: loop_at_def)
      then have "rp_words plan ! wi \<in> set (rp_words plan)" by simp
      then have "0 < rw_width (rp_words plan ! wi)"
        "rw_offset (rp_words plan ! wi) + rw_width (rp_words plan ! wi) \<le> length bytes"
        using ok len by (auto simp: rebase_ok_def words_ok_def)
      moreover have "cursor \<le> rw_offset (rp_words plan ! wi)" using at wi by (simp add: loop_at_def)
      ultimately show False using True by simp
    qed
    then show ?thesis using True by (subst verify_loop.simps) (simp add: agrees_def)
  next
    case inside: False
    show ?thesis
    proof (cases "word_at_cursor plan cursor wi")
      case (Some w)
      note w = loop_at_word [OF ok at Some]
      have fit: "cursor + rw_width w \<le> length bytes"
        using ok w(1,2) len by (auto simp: rebase_ok_def words_ok_def)
      have cmp: "compare_range al bytes cursor (cursor + rw_width w) (Some (take (rw_width w) (rw_after w))) =
          (if agrees bytes ?f cursor (cursor + rw_width w) then Inr () else Inl CR_ReadbackMismatch)"
        using compare_word [OF ok w(1) len] w(2) by simp
      have join: "agrees bytes ?f cursor (length bytes) \<longleftrightarrow>
          agrees bytes ?f cursor (cursor + rw_width w) \<and> agrees bytes ?f (cursor + rw_width w) (length bytes)"
        by (rule agrees_join) (use fit in auto)
      show ?thesis
      proof (cases "agrees bytes ?f cursor (cursor + rw_width w)")
        case True
        then have c: "compare_range al bytes cursor (cursor + rw_width w)
            (Some (take (rw_width w) (rw_after w))) = Inr ()" using cmp by simp
        have "verify_loop al plan bytes (cursor + rw_width w) si (wi + 1) =
            (if agrees bytes ?f (cursor + rw_width w) (length bytes)
             then Inr (length (rp_words plan)) else Inl CR_ReadbackMismatch)"
          by (rule 1(2) [OF inside Some c len fit w(4) ok])
        then show ?thesis using inside Some c join True by (subst verify_loop.simps) simp
      next
        case False
        then show ?thesis using inside Some cmp join by (subst verify_loop.simps) simp
      qed
    next
      case None
      let ?si = "skip_segments (sp_segments (rp_staging plan)) si cursor"
      let ?nw = "if wi < length (rp_words plan) then rw_offset (rp_words plan ! wi) else length bytes"
      obtain stop source_start where r: "next_range (sp_segments (rp_staging plan)) ?si cursor ?nw = (stop, source_start)"
        by (cases "next_range (sp_segments (rp_staging plan)) ?si cursor ?nw")
      note s = loop_at_range [OF ok at None len _ refl refl r]
      have s1: "cursor < stop" "stop \<le> length bytes" "loop_at plan stop ?si wi"
        using s(1-3) inside by simp_all
      have cmp: "compare_source al (rp_source plan) bytes cursor stop source_start =
          (if agrees bytes ?f cursor stop then Inr () else Inl CR_ReadbackMismatch)"
        using s(4) inside by simp
      have join: "agrees bytes ?f cursor (length bytes) \<longleftrightarrow>
          agrees bytes ?f cursor stop \<and> agrees bytes ?f stop (length bytes)"
        by (rule agrees_join) (use s1 in auto)
      have step: "verify_loop al plan bytes cursor si wi =
          and_then (compare_source al (rp_source plan) bytes cursor stop source_start)
            (\<lambda>_. verify_loop al plan bytes stop ?si wi)"
        using inside None r s1(1) by (subst verify_loop.simps) (simp add: Let_def)
      show ?thesis
      proof (cases "agrees bytes ?f cursor stop")
        case True
        then have c: "compare_source al (rp_source plan) bytes cursor stop source_start = Inr ()" using cmp by simp
        have "verify_loop al plan bytes stop ?si wi =
            (if agrees bytes ?f stop (length bytes) then Inr (length (rp_words plan)) else Inl CR_ReadbackMismatch)"
          by (rule 1(1) [OF inside None refl refl r [symmetric] _ c len s1(2,3) ok]) (use s1(1) in simp)
        then show ?thesis using step c join True by simp
      next
        case False
        then show ?thesis using step cmp join by simp
      qed
    qed
  qed
qed

lemma rebase_verify_exact:
  assumes "rebase_ok plan"
  shows "rebase_verify al plan bytes =
    (if length bytes \<noteq> sp_arena_size (rp_staging plan) then Inl CR_DestinationSize
     else if bytes = rebased_arena plan then Inr (rp_verification plan) else Inl CR_ReadbackMismatch)"
proof (cases "length bytes = sp_arena_size (rp_staging plan)")
  case True
  have start: "loop_at plan 0 0 0" by (simp add: loop_at_def)
  have "agrees bytes (\<lambda>i. rebased_arena plan ! i) 0 (length bytes) \<longleftrightarrow> bytes = rebased_arena plan"
    using True length_rebased_arena [OF assms] by (auto simp: agrees_def list_eq_iff_nth_eq)
  then show ?thesis
    using verify_loop_exact [OF assms True _ start, of al] True by (simp add: rebase_verify_def)
qed (simp add: rebase_verify_def)

lemma rebase_apply_exact:
  assumes ok: "rebase_ok plan" and R: "R (Reserve_Bytes (sp_arena_size (rp_staging plan)))"
  shows "\<exists>v. rebase_apply R al plan = Inr \<lparr> rk_plan = plan, rk_bytes = rebased_arena plan, rk_original_staging = v \<rparr>"
proof -
  let ?n = "sp_arena_size (rp_staging plan)"
  have staging: "plan_ok (rp_staging plan)" using ok by (simp add: rebase_ok_def)
  obtain v where "stage_into al (rp_staging plan) (replicate ?n 0) = (Inr v, staged_arena (rp_staging plan))"
    using stage_into_observed_eq [OF staging, of "replicate ?n 0" al] by (auto simp: stage_into_def)
  moreover have "foldl write_word (Some (staged_arena (rp_staging plan))) (rp_words plan) = Some (rebased_arena plan)"
    unfolding rebased_arena_def
    by (rule write_words) (use ok words_fit in \<open>auto simp: rebase_ok_def words_ok_def\<close>)
  ultimately show ?thesis
    using R rebase_verify_exact [OF ok, of al "rebased_arena plan"] length_rebased_arena [OF ok]
    by (simp add: rebase_apply_def Let_def)
qed

end
