(* ===== verification/Kc_Classic_Rebase_Theorems.thy ===== *)
theory Kc_Classic_Rebase_Theorems
  imports Kc_Classic_Rebase_Proofs
begin

text \<open>
  What a plan for the classic relocations is: sound, with one word for every classic record of an
  audit without issues, which holds the staged value slid; and what applying it does to the arena.
\<close>

section \<open>The words of a plan\<close>

definition planned_word :: "kc_staging_plan \<Rightarrow> u32 \<Rightarrow> audit_record \<Rightarrow> rebase_word \<Rightarrow> bool" where
  "planned_word staging slide r w \<longleftrightarrow>
     (\<exists>d address before after. ar_detail r = Classic d \<and> ar_write_address r = Some address \<and>
        cd_stored_value d = Some before \<and>
        unat address = unat (sp_minimum_virtual_address staging) + rw_offset w \<and>
        rw_width w = unat (ar_width r) \<and> rw_width w \<in> {4, 8} \<and>
        rw_offset w + rw_width w \<le> sp_arena_size staging \<and>
        rw_after w = to_le_bytes (after :: u64) \<and> unat after = unat before + unat slide \<and>
        unat after < 256 ^ rw_width w)"

definition words_counted :: "rebase_word list \<Rightarrow> classic_rebase_verification \<Rightarrow> bool" where
  "words_counted ws v \<longleftrightarrow>
     rv_classic_words v = length ws \<and>
     rv_write_bytes_verified v = sum_list (map rw_width ws) \<and>
     rv_width4_words v = length (filter (\<lambda>w. rw_width w = 4) ws) \<and>
     rv_width8_words v = length (filter (\<lambda>w. rw_width w = 8) ws)"

lemma supported_width:
  assumes "supported_profile r d" and "ar_detail r = Classic d"
  shows "unat (ar_width r) \<in> {4, 8}"
  using assms by (auto simp: supported_profile_def push_bit_eq_mult)

lemma plan_word_chained: "is_chained r \<Longrightarrow> plan_word source staging k slide (ws, v) r = Inr (ws, v)"
  by (auto simp: plan_word_def is_chained_def split: record_detail.splits)

lemma plan_word_Inr:
  assumes "plan_word source staging k slide (ws, v) r = Inr (ws', v')" and "\<not> is_chained r"
  shows "\<exists>w. ws' = ws @ [w] \<and> planned_word staging slide r w \<and>
    (words_counted ws v \<longrightarrow> words_counted ws' v') \<and> rv_arena_bytes v' = rv_arena_bytes v"
proof -
  obtain d where d: "ar_detail r = Classic d"
    using assms(2) by (auto simp: is_chained_def split: record_detail.splits)
  let ?n = "unat (ar_width r)"
  obtain address fl before after offset64 stop raw where
    profile: "\<not> \<not> supported_profile r d"
    and address: "ar_write_address r = Some address"
    and stored: "cd_stored_value d = Some before"
    and after: "checked_add before (ucast slide) = Some after"
    and small: "\<not> (?n = 4 \<and> 0xffffffff < after)"
    and offset: "checked_sub address (sp_minimum_virtual_address staging) = Some offset64"
    and stop: "usize_add (unat offset64) ?n = Some stop" "\<not> sp_arena_size staging < stop"
    and res: "(ws @ [\<lparr> rw_offset = unat offset64, rw_width = ?n, rw_after = to_le_bytes after \<rparr>],
          count_word raw (to_le_bytes after) ?n v) = (ws', v')"
    using assms(1) unfolding plan_word_def prod.case d record_detail.case Let_def if_Inl_Inr and_then_Inr
      ok_or_Inr sum.inject
    by (elim exE conjE) (rule that, assumption+)
  let ?w = "\<lparr> rw_offset = unat offset64, rw_width = ?n, rw_after = to_le_bytes after \<rparr>"
  have n: "?n \<in> {4, 8}" using supported_width profile d by simp
  have sum: "unat after = unat before + unat slide"
    using after by (simp add: checked_add_Some unat_ucast_up)
  have "unat after < 256 ^ ?n"
  proof (cases "?n = 4")
    case True
    then show ?thesis using small by (simp add: word_less_nat_alt)
  next
    case False
    then show ?thesis using n unat_u64_bound [of after] by simp
  qed
  then have "planned_word staging slide r ?w"
    unfolding planned_word_def
    using d address stored offset stop n sum by (auto simp: word_nat usize_add_def split: if_splits)
  moreover have "words_counted ws v \<longrightarrow> words_counted ws' v'" "rv_arena_bytes v' = rv_arena_bytes v"
    using res n by (auto simp: words_counted_def count_word_def Let_def)
  ultimately show ?thesis using res by auto
qed

lemma plan_words_Inr:
  "try_fold (plan_word source staging k slide) (ws, v) recs = Inr (ws', v') \<Longrightarrow>
   \<exists>new. ws' = ws @ new \<and> list_all2 (planned_word staging slide) (filter (\<lambda>r. \<not> is_chained r) recs) new \<and>
     (words_counted ws v \<longrightarrow> words_counted ws' v') \<and> rv_arena_bytes v' = rv_arena_bytes v"
proof (induction recs arbitrary: ws v)
  case (Cons r recs)
  obtain ws1 v1 where 1: "plan_word source staging k slide (ws, v) r = Inr (ws1, v1)"
    and 2: "try_fold (plan_word source staging k slide) (ws1, v1) recs = Inr (ws', v')"
    using Cons.prems by (auto simp: result_iff)
  from Cons.IH [OF 2] obtain new where new: "ws' = ws1 @ new"
    "list_all2 (planned_word staging slide) (filter (\<lambda>r. \<not> is_chained r) recs) new"
    "words_counted ws1 v1 \<longrightarrow> words_counted ws' v'" "rv_arena_bytes v' = rv_arena_bytes v1" by blast
  show ?case
  proof (cases "is_chained r")
    case True
    then show ?thesis using 1 new by (auto simp: plan_word_chained)
  next
    case False
    from plan_word_Inr [OF 1 False] obtain w where w: "ws1 = ws @ [w]" "planned_word staging slide r w"
      "words_counted ws v \<longrightarrow> words_counted ws1 v1" "rv_arena_bytes v1 = rv_arena_bytes v" by blast
    show ?thesis by (rule exI [of _ "w # new"]) (use w new False in auto)
  qed
qed simp

lemma planned_word_fits:
  assumes "planned_word staging slide r w"
  shows "0 < rw_width w" and "rw_width w \<le> length (rw_after w)"
    and "rw_offset w + rw_width w \<le> sp_arena_size staging"
  using assms by (auto simp: planned_word_def)

lemma rebase_new_Inr:
  assumes "rebase_new R source slide = Inr plan"
  obtains audit ws v where
    "staging_new (R \<circ> For_Staging) source = Inr (rp_staging plan)"
    "audit_kernel_collection (R \<circ> For_Audit) source = Inr audit" "ranges_valid audit"
    "rp_source plan = source"
    "list_all2 (planned_word (rp_staging plan) slide) (filter (\<lambda>r. \<not> is_chained r) (fa_records audit)) ws"
    "rp_words plan = sort_key rw_offset ws" "words_counted ws v"
    "for_windows check_word_pair (rp_words plan) = Inr ()"
    "rv_write_bytes_verified v \<le> rv_arena_bytes v" "rv_arena_bytes v = sp_arena_size (rp_staging plan)"
    "rp_verification plan = v\<lparr> rv_non_target_bytes_verified := rv_arena_bytes v - rv_write_bytes_verified v \<rparr>"
proof -
  obtain staging k audit ws v0 v u where
    1: "map_err CR_Staging (staging_new (R \<circ> For_Staging) source) = Inr staging"
    and 2: "map_err CR_Audit (audit_kernel_collection (R \<circ> For_Audit) source) = Inr audit"
    and 3: "\<not> \<not> ranges_valid audit"
    and 4: "try_fold (plan_word source staging k slide)
        ([], \<lparr> rv_slide = slide, rv_arena_bytes = sp_arena_size staging, rv_classic_words = 0,
               rv_width4_words = 0, rv_width8_words = 0, rv_write_bytes_verified = 0,
               rv_non_target_bytes_verified = 0, rv_changed_bytes = 0,
               rv_chain_words_preserved = su_chain_records (fa_summary audit),
               rv_header_ranges_preserved = length (ki_members (sp_inspection staging)) + 1 \<rparr>)
        (fa_records audit) = Inr (ws, v)"
    and 5: "for_windows check_word_pair (sort_key rw_offset ws) = (Inr u :: classic_rebase_error + unit)"
    and 6: "\<not> rv_arena_bytes v < rv_write_bytes_verified v"
    and 7: "\<lparr> rp_source = source, rp_staging = staging, rp_words = sort_key rw_offset ws,
            rp_verification = v\<lparr> rv_non_target_bytes_verified :=
              rv_arena_bytes v - rv_write_bytes_verified v \<rparr> \<rparr> = plan"
    using assms unfolding rebase_new_def Let_def if_Inl_Inr and_then_Inr split_paired_Ex prod.case sum.inject
    by (elim exE conjE) (rule that, assumption+)
  from plan_words_Inr [OF 4] have w: "list_all2 (planned_word staging slide) (filter (\<lambda>r. \<not> is_chained r) (fa_records audit)) ws"
    "words_counted ws v" "rv_arena_bytes v = sp_arena_size staging"
    by (auto simp: words_counted_def)
  have p: "rp_source plan = source" "rp_staging plan = staging" "rp_words plan = sort_key rw_offset ws"
    "rp_verification plan = v\<lparr> rv_non_target_bytes_verified := rv_arena_bytes v - rv_write_bytes_verified v \<rparr>"
    by (simp_all flip: 7)
  show thesis
    by (rule that [of audit ws v]) (use 1 2 3 5 6 w p in \<open>simp_all add: result_iff\<close>)
qed

lemma rebase_new_ok:
  assumes "rebase_new R source slide = Inr plan"
  shows "rebase_ok plan"
proof -
  obtain audit :: kc_fixup_audit and ws where
    staging: "staging_new (R \<circ> For_Staging) source = Inr (rp_staging plan)"
    and source: "rp_source plan = source"
    and all: "list_all2 (planned_word (rp_staging plan) slide) (filter (\<lambda>r. \<not> is_chained r) (fa_records audit)) ws"
    and words: "rp_words plan = sort_key rw_offset ws"
    and apart: "for_windows check_word_pair (rp_words plan) = Inr ()"
    by (rule rebase_new_Inr [OF assms]) (rule that, assumption+)
  have planned: "planned_by_new (R \<circ> For_Staging) source (rp_staging plan)"
    using staging by (simp add: planned_by_new_def)
  have src: "sp_source (rp_staging plan) = source"
    by (rule planned_by_new_Inr [OF planned]) (rule from_inspection_Inr(2))
  have fits: "0 < rw_width w \<and> rw_width w \<le> length (rw_after w) \<and>
      rw_offset w + rw_width w \<le> sp_arena_size (rp_staging plan)" if "w \<in> set ws" for w
    using list_all2_set1 [OF all that] planned_word_fits by blast
  have "sorted_wrt (\<lambda>a b. rw_offset a + rw_width a \<le> rw_offset b) (rp_words plan)"
    by (rule for_windows_ordered [OF apart, of rw_offset])
      (auto simp: words check_word_pair_def split: if_splits)
  then show ?thesis
    using planned_ok [OF planned] src source fits by (auto simp: rebase_ok_def words_ok_def words)
qed

section \<open>The values before and after\<close>

lemma take_le_digits: "k \<le> n \<Longrightarrow> take k (le_digits n v) = le_digits k v"
proof (induction n arbitrary: k v)
  case (Suc n)
  then show ?case by (cases k) auto
qed simp

lemma le_value_take_word:
  fixes w :: u64
  assumes "k \<le> 8" and "unat w < 256 ^ k"
  shows "le_value (take k (to_le_bytes w)) = unat w"
  using assms by (simp add: to_le_bytes_def take_le_digits le_value_digits)

lemma staged_at_record:
  assumes staging: "staging_new R source = Inr plan" and insp: "inspect_kernel_collection source = Inr insp"
    and sound: "record_sound source insp r" and off: "ar_write_file_offset r = Some off"
    and address: "ar_write_address r = Some address"
    and at: "unat address = unat (sp_minimum_virtual_address plan) + p"
  shows "take (unat (ar_width r)) (drop p (staged_arena plan)) =
    take (unat (ar_width r)) (drop (unat off) source)"
proof -
  let ?n = "unat (ar_width r)"
  have planned: "planned_by_new R source plan" using staging by (simp add: planned_by_new_def)
  have from_insp: "from_inspection R source insp STAGING_PAGE_SIZE = Inr plan"
    using staging insp by (auto simp: staging_new_def result_iff)
  have "image_ok (length source) (ki_collection insp)"
    using inspected_bounds(2) [OF insp] by (simp add: collection_images_def)
  then have segs: "\<forall>s \<in> set (im_segments (ki_collection insp)). segment_ok (length source) s"
    by (simp add: image_ok_def)
  note plan = from_inspection_Inr [OF from_insp segs]
  obtain s where s: "s \<in> set (im_segments (ki_collection insp))" "file_view s (unat address) ?n (unat off)"
    and n: "0 < ?n" and fits: "unat off + ?n \<le> length source"
    using sound off address by (auto simp: record_sound_def)
  have file_memory: "unat (fr_size (seg_file s)) \<le> unat (seg_memory_size s)"
    using segs s(1) by (simp add: segment_ok_def)
  then have "seg_memory_size s \<noteq> 0" using s(2) n by (auto simp: file_view_def)
  then obtain ss where ss: "ss \<in> set (sp_segments plan)" "planned_segment (sp_minimum_virtual_address plan) s ss"
    using plan(4) [OF s(1)] by blast
  have arena: "p + j < sp_arena_size plan \<and> staged_arena plan ! (p + j) = source ! (unat off + j)" if "j < ?n" for j
  proof -
    define k where "k = unat address - unat (seg_address s) + j"
    have "k < ss_file_size ss" "k < ss_memory_size ss" "ss_destination_offset ss + k = p + j"
      "ss_file_offset ss + k = unat off + j"
      using s(2) ss(2) that at file_memory
      by (auto simp: k_def file_view_def planned_segment_def fr_first_def)
    then show ?thesis
      using arena_segment_byte [OF planned_ok [OF planned] ss(1), of k] plan(2) by simp
  qed
  have "p + (?n - 1) < sp_arena_size plan" using arena [of "?n - 1"] n by auto
  then have last: "p + ?n \<le> length (staged_arena plan)" using n unfolding length_staged_arena by linarith
  show ?thesis
    by (rule nth_equalityI) (use arena last fits in auto)
qed

lemma rebased_values:
  assumes new: "rebase_new R source slide = Inr plan"
    and audit: "audit_kernel_collection (R \<circ> For_Audit) source = Inr audit"
    and r: "r \<in> set (fa_records audit)" "\<not> is_chained r"
  shows "\<exists>address before p. ar_write_address r = Some address \<and>
    unat address = unat (sp_minimum_virtual_address (rp_staging plan)) + p \<and>
    p + unat (ar_width r) \<le> sp_arena_size (rp_staging plan) \<and>
    recorded_word r before \<and>
    le_value (take (unat (ar_width r)) (drop p (staged_arena (rp_staging plan)))) = before \<and>
    le_value (take (unat (ar_width r)) (drop p (rebased_arena plan))) = before + unat slide"
proof -
  obtain audit' ws where
    staging: "staging_new (R \<circ> For_Staging) source = Inr (rp_staging plan)"
    and audit': "audit_kernel_collection (R \<circ> For_Audit) source = Inr audit'" and valid: "ranges_valid audit'"
    and all: "list_all2 (planned_word (rp_staging plan) slide) (filter (\<lambda>r. \<not> is_chained r) (fa_records audit')) ws"
    and words: "rp_words plan = sort_key rw_offset ws"
    by (rule rebase_new_Inr [OF new]) (rule that, assumption+)
  have same: "audit' = audit" using audit audit' by simp
  have with_limits: "audit_kernel_collection_with_limits (R \<circ> For_Audit) source default_limits = Inr audit"
    using audit by (simp add: audit_kernel_collection_def)
  obtain w where w: "w \<in> set (rp_words plan)" "planned_word (rp_staging plan) slide r w"
    using list_all2_set2 [OF all] r by (auto simp: same words)
  then obtain d address before after where p: "ar_detail r = Classic d" "ar_write_address r = Some address"
    "cd_stored_value d = Some before"
    "unat address = unat (sp_minimum_virtual_address (rp_staging plan)) + rw_offset w"
    "rw_width w = unat (ar_width r)" "rw_width w \<in> {4, 8}" "rw_offset w + rw_width w \<le> sp_arena_size (rp_staging plan)"
    "rw_after w = to_le_bytes (after :: u64)" "unat after = unat before + unat slide"
    "unat after < 256 ^ rw_width w"
    by (auto simp: planned_word_def)
  have "clean_record r" using valid_writes [OF with_limits] valid r same by blast
  then obtain off where off: "ar_write_file_offset r = Some off" by (auto simp: clean_record_def)
  obtain insp where insp: "inspect_kernel_collection source = Inr insp" and sound: "record_sound source insp r"
    using recorded_sound [OF with_limits] r by blast
  have rec: "recorded_word r (unat before)" by (simp add: recorded_word_def p)
  have "recorded_word r (le_value (take (unat (ar_width r)) (drop (unat off) source)))"
    using sound off p(2) by (simp add: record_sound_def)
  then have "le_value (take (unat (ar_width r)) (drop (unat off) source)) = unat before"
    using rec by (simp add: recorded_word_def p)
  then have "le_value (take (unat (ar_width r)) (drop (rw_offset w) (staged_arena (rp_staging plan)))) = unat before"
    using staged_at_record [OF staging insp sound off p(2,4)] by simp
  moreover have "le_value (take (rw_width w) (drop (rw_offset w) (rebased_arena plan))) = unat before + unat slide"
    unfolding rebased_word [OF rebase_new_ok [OF new] w(1)] p(8)
    using le_value_take_word [of "rw_width w" after] p(6,9,10) by auto
  ultimately show ?thesis using p rec by auto
qed

text \<open>
  C10. What a plan promises, for the records of the audit it was built from: at every classic
  relocation the rebased arena holds the staged value plus the slide, without a wrap, at the
  distance of its address from the lowest address; and every byte that no classic relocation
  covers is the byte of the staged arena, chained fixups included.
\<close>

theorem rebase_slides_relocations:
  assumes "rebase_new R source slide = Inr plan"
    and "audit_kernel_collection (R \<circ> For_Audit) source = Inr audit"
  shows "(\<forall>r. r \<in> set (fa_records audit) \<and> \<not> is_chained r \<longrightarrow>
      (\<exists>address before p. ar_write_address r = Some address \<and>
        unat address = unat (sp_minimum_virtual_address (rp_staging plan)) + p \<and>
        p + unat (ar_width r) \<le> sp_arena_size (rp_staging plan) \<and> recorded_word r before \<and>
        le_value (take (unat (ar_width r)) (drop p (staged_arena (rp_staging plan)))) = before \<and>
        le_value (take (unat (ar_width r)) (drop p (rebased_arena plan))) = before + unat slide)) \<and>
    (\<forall>i. i < sp_arena_size (rp_staging plan) \<and>
      (\<forall>r. r \<in> set (fa_records audit) \<and> \<not> is_chained r \<longrightarrow>
        unat (sp_minimum_virtual_address (rp_staging plan)) + i < write_first r \<or>
        write_last r \<le> unat (sp_minimum_virtual_address (rp_staging plan)) + i) \<longrightarrow>
      rebased_arena plan ! i = staged_arena (rp_staging plan) ! i)"
proof (intro conjI allI impI)
  fix r assume "r \<in> set (fa_records audit) \<and> \<not> is_chained r"
  then show "\<exists>address before p. ar_write_address r = Some address \<and>
        unat address = unat (sp_minimum_virtual_address (rp_staging plan)) + p \<and>
        p + unat (ar_width r) \<le> sp_arena_size (rp_staging plan) \<and> recorded_word r before \<and>
        le_value (take (unat (ar_width r)) (drop p (staged_arena (rp_staging plan)))) = before \<and>
        le_value (take (unat (ar_width r)) (drop p (rebased_arena plan))) = before + unat slide"
    using rebased_values [OF assms] by blast
next
  fix i assume i: "i < sp_arena_size (rp_staging plan) \<and>
      (\<forall>r. r \<in> set (fa_records audit) \<and> \<not> is_chained r \<longrightarrow>
        unat (sp_minimum_virtual_address (rp_staging plan)) + i < write_first r \<or>
        write_last r \<le> unat (sp_minimum_virtual_address (rp_staging plan)) + i)"
  note ok = rebase_new_ok [OF assms(1)]
  obtain audit' ws where
    audit': "audit_kernel_collection (R \<circ> For_Audit) source = Inr audit'"
    and all: "list_all2 (planned_word (rp_staging plan) slide) (filter (\<lambda>r. \<not> is_chained r) (fa_records audit')) ws"
    and words: "rp_words plan = sort_key rw_offset ws"
    by (rule rebase_new_Inr [OF assms(1)]) (rule that, assumption+)
  have "i < rw_offset w \<or> rw_offset w + rw_width w \<le> i" if "w \<in> set (rp_words plan)" for w
  proof -
    have "w \<in> set ws" using that words by simp
    from list_all2_set1 [OF all this] obtain r where "r \<in> set (fa_records audit)" "\<not> is_chained r"
      "planned_word (rp_staging plan) slide r w" using assms(2) audit' by auto
    then show ?thesis using i by (auto simp: planned_word_def write_first_def write_last_def)
  qed
  then have "rebased_arena plan ! i = staged_byte (rp_source plan) (sp_segments (rp_staging plan)) i"
    using rebased_elsewhere [OF ok] i by blast
  then show "rebased_arena plan ! i = staged_arena (rp_staging plan) ! i"
    using ok i by (simp add: staged_arena_def rebase_ok_def)
qed

text \<open>
  C13. A plan that was built is always applied, provided there is memory for the arena: the staging,
  the writes and the readback succeed, whatever the alignment of the buffer is, and the result is
  the rebased arena.
\<close>

theorem rebase_apply_refines:
  assumes "rebase_new R source slide = Inr plan"
    and "R' (Reserve_Bytes (sp_arena_size (rp_staging plan)))"
  shows "\<exists>k. rebase_apply R' al plan = Inr k \<and> rk_plan k = plan \<and> rk_bytes k = rebased_arena plan"
  using rebase_apply_exact [OF rebase_new_ok [OF assms(1)], of R', OF assms(2)] by force

text \<open>
  C. The readback of a plan accepts the rebased arena and no other bytes: anything of another
  length is refused as such, any other difference as a mismatch, and it never panics.
\<close>

theorem rebase_verify_detects:
  assumes "rebase_new R source slide = Inr plan"
  shows "rebase_verify al plan bytes =
    (if length bytes \<noteq> sp_arena_size (rp_staging plan) then Inl CR_DestinationSize
     else if bytes = rebased_arena plan then Inr (rp_verification plan) else Inl CR_ReadbackMismatch)"
  by (rule rebase_verify_exact [OF rebase_new_ok [OF assms]])

text \<open>
  C. The figures of a plan add up: one word for every classic record of the audit, each of four or
  of eight bytes, and the bytes written and the bytes left are the arena.
\<close>

theorem rebase_figures:
  assumes "rebase_new R source slide = Inr plan"
    and "audit_kernel_collection (R \<circ> For_Audit) source = Inr audit"
  shows "let v = rp_verification plan in
    rv_classic_words v = length (filter (\<lambda>r. \<not> is_chained r) (fa_records audit)) \<and>
    rv_classic_words v = rv_width4_words v + rv_width8_words v \<and>
    rv_write_bytes_verified v = 4 * rv_width4_words v + 8 * rv_width8_words v \<and>
    rv_write_bytes_verified v + rv_non_target_bytes_verified v = sp_arena_size (rp_staging plan)"
proof -
  obtain audit' ws v where
    audit': "audit_kernel_collection (R \<circ> For_Audit) source = Inr audit'"
    and all: "list_all2 (planned_word (rp_staging plan) slide) (filter (\<lambda>r. \<not> is_chained r) (fa_records audit')) ws"
    and v: "words_counted ws v" "rv_write_bytes_verified v \<le> rv_arena_bytes v"
      "rv_arena_bytes v = sp_arena_size (rp_staging plan)"
      "rp_verification plan = v\<lparr> rv_non_target_bytes_verified := rv_arena_bytes v - rv_write_bytes_verified v \<rparr>"
    by (rule rebase_new_Inr [OF assms(1)]) (rule that, assumption+)
  have widths: "\<forall>w \<in> set ws. rw_width w \<in> {4, 8}"
    using list_all2_set1 [OF all] by (fastforce simp: planned_word_def)
  then have "sum_list (map rw_width ws) = 4 * length (filter (\<lambda>w. rw_width w = 4) ws) +
      8 * length (filter (\<lambda>w. rw_width w = 8) ws) \<and>
      length ws = length (filter (\<lambda>w. rw_width w = 4) ws) + length (filter (\<lambda>w. rw_width w = 8) ws)"
    by (induction ws) auto
  then show ?thesis
    using v list_all2_lengthD [OF all] assms(2) audit' by (simp add: words_counted_def Let_def)
qed

end
