(* ===== verification/Kc_Classic_Sample.thy ===== *)
theory Kc_Classic_Sample
  imports Kc_Classic_Rebase_Theorems Kc_Sample Kc_Fixup_Audit_Safety
begin

text \<open>
  A small x86-64 collection with one executable member and one classic relocation in it, and what
  the inspection, the staging, the audit and the rebase make of it: the input of the witnesses.
\<close>

section \<open>The input\<close>

definition RB :: u64 where "RB = 0xffffff8000200000"

definition x_header :: "u32 \<Rightarrow> u32 \<Rightarrow> u32 \<Rightarrow> byte_string" where
  "x_header file_type number command_bytes =
     w32 0xfeedfacf @ w32 0x01000007 @ w32 3 @ w32 file_type @ w32 number @ w32 command_bytes @ w32 0 @ w32 0"

text \<open>\<open>__LINKEDIT\<close>, or any other name.\<close>

definition x_name :: "bool \<Rightarrow> byte_string" where
  "x_name link = (if link then LINKEDIT_NAME else replicate 16 0x54)"

definition x_segment :: "bool \<Rightarrow> u64 \<Rightarrow> u64 \<Rightarrow> u64 \<Rightarrow> u64 \<Rightarrow> byte_string" where
  "x_segment link address memory_size file_offset file_size =
     w32 0x19 @ w32 72 @ x_name link @ w64 address @ w64 memory_size @ w64 file_offset @ w64 file_size @
     w32 7 @ w32 7 @ w32 0 @ w32 0"

definition x_thread :: "u64 \<Rightarrow> byte_string" where
  "x_thread ip = w32 5 @ w32 184 @ w32 4 @ w32 42 @ replicate 128 0 @ w64 ip @ replicate 32 0"

definition x_symtab :: byte_string where
  "x_symtab = w32 2 @ w32 24 @ w32 0 @ w32 0 @ w32 0 @ w32 0"

definition x_dysymtab :: "u32 \<Rightarrow> u32 \<Rightarrow> byte_string" where
  "x_dysymtab offset number = w32 0xb @ w32 80 @ w32 0 @ w32 0 @ w32 0 @ w32 0 @ w32 0 @ w32 0 @
     w32 0 @ w32 0 @ w32 0 @ w32 0 @ w32 0 @ w32 0 @ w32 0 @ w32 0 @ w32 0 @ w32 0 @ w32 offset @ w32 number"

definition x_text :: byte_string where "x_text = x_segment False RB 0x1000 0 616"
definition x_linkedit :: byte_string where "x_linkedit = x_segment True (RB + 0x1000) 0x1000 616 8"
definition x_member_text :: byte_string where
  "x_member_text = x_segment False (RB + 504) 112 504 112"

definition x_commands :: byte_string where
  "x_commands = x_text @ x_linkedit @ x_thread (RB + 16) @ fileset_bytes (RB + 504) 504 @
     x_symtab @ x_dysymtab 616 1"

definition classic_collection :: byte_string where
  "classic_collection =
     x_header 12 6 472 @ x_commands @ x_header 2 1 72 @ x_member_text @ w64 (RB + 16) @
     w32 608 @ w32 0x06000000"

lemma length_x_name [simp]: "length (x_name link) = 16"
  by (simp add: x_name_def LINKEDIT_NAME_def)

lemma length_x [simp]:
  "length (x_header a b c) = 32" "length (x_segment link d e f g) = 72"
  "length (x_thread d) = 184" "length x_symtab = 24" "length (x_dysymtab i j) = 80"
  "length x_text = 72" "length x_linkedit = 72" "length x_member_text = 72"
  "length x_commands = 472" "length classic_collection = 624"
  by (simp_all add: x_header_def x_segment_def x_thread_def x_symtab_def x_dysymtab_def x_text_def
      x_linkedit_def x_member_text_def x_commands_def classic_collection_def LINKEDIT_NAME_def fileset_bytes_def)

lemma x_header_reads [simp]:
  "kc_u32_at (x_header a b c) 0 = Inr 0xfeedfacf" "kc_u32_at (x_header a b c) 4 = Inr 0x01000007"
  "kc_u32_at (x_header a b c) 8 = Inr 3" "kc_u32_at (x_header a b c) 12 = Inr a"
  "kc_u32_at (x_header a b c) 16 = Inr b" "kc_u32_at (x_header a b c) 20 = Inr c"
  "kc_u32_at (x_header a b c) 24 = Inr 0" "kc_u32_at (x_header a b c) 28 = Inr 0"
  by (simp_all add: x_header_def)

lemma x_segment_reads [simp]:
  "kc_u32_at (x_segment link a m f n) 0 = Inr 0x19" "kc_u32_at (x_segment link a m f n) 4 = Inr 72"
  "kc_u32_at (x_segment link a m f n) 64 = Inr 0" "kc_u64_at (x_segment link a m f n) 24 = Inr a"
  "kc_u64_at (x_segment link a m f n) 32 = Inr m" "kc_u64_at (x_segment link a m f n) 40 = Inr f"
  "kc_u64_at (x_segment link a m f n) 48 = Inr n" "kc_u32_at (x_segment link a m f n) 56 = Inr 7"
  "kc_u32_at (x_segment link a m f n) 60 = Inr 7" "kc_u32_at (x_segment link a m f n) 68 = Inr 0"
  "take 16 (drop 8 (x_segment link a m f n)) = x_name link"
  by (simp_all add: x_segment_def)

lemma x_reads [simp]:
  "kc_u32_at (x_thread ip) 0 = Inr 5" "kc_u32_at (x_thread ip) 4 = Inr 184"
  "kc_u32_at (x_thread ip) 8 = Inr 4" "kc_u32_at (x_thread ip) 12 = Inr 42"
  "kc_u64_at (x_thread ip) 144 = Inr ip"
  "kc_u32_at x_symtab 0 = Inr 2" "kc_u32_at x_symtab 4 = Inr 24" "kc_u32_at x_symtab 8 = Inr 0"
  "kc_u32_at x_symtab 12 = Inr 0" "kc_u32_at x_symtab 16 = Inr 0" "kc_u32_at x_symtab 20 = Inr 0"
  "kc_u32_at (x_dysymtab i j) 0 = Inr 0xb" "kc_u32_at (x_dysymtab i j) 4 = Inr 80"
  "kc_u32_at (x_dysymtab i j) 72 = Inr i" "kc_u32_at (x_dysymtab i j) 76 = Inr j"
  by (simp_all add: x_thread_def x_symtab_def x_dysymtab_def)

lemma x_dysymtab_zeros [simp]:
  "kc_u32_at (x_dysymtab i j) 8 = Inr 0" "kc_u32_at (x_dysymtab i j) 12 = Inr 0"
  "kc_u32_at (x_dysymtab i j) 16 = Inr 0" "kc_u32_at (x_dysymtab i j) 20 = Inr 0"
  "kc_u32_at (x_dysymtab i j) 24 = Inr 0" "kc_u32_at (x_dysymtab i j) 28 = Inr 0"
  "kc_u32_at (x_dysymtab i j) 32 = Inr 0" "kc_u32_at (x_dysymtab i j) 36 = Inr 0"
  "kc_u32_at (x_dysymtab i j) 40 = Inr 0" "kc_u32_at (x_dysymtab i j) 44 = Inr 0"
  "kc_u32_at (x_dysymtab i j) 48 = Inr 0" "kc_u32_at (x_dysymtab i j) 52 = Inr 0"
  "kc_u32_at (x_dysymtab i j) 56 = Inr 0" "kc_u32_at (x_dysymtab i j) 60 = Inr 0"
  "kc_u32_at (x_dysymtab i j) 64 = Inr 0" "kc_u32_at (x_dysymtab i j) 68 = Inr 0"
  by (simp_all add: x_dysymtab_def)

section \<open>Its inspection\<close>

definition x_meta :: "bool \<Rightarrow> u64 \<Rightarrow> u64 \<Rightarrow> u64 \<Rightarrow> u64 \<Rightarrow> segment_metadata" where
  "x_meta link a m f n =
     \<lparr> seg_name = x_name link, seg_address = a, seg_memory_size = m,
       seg_file = \<lparr> fr_offset = f, fr_size = n \<rparr>, seg_maximum_protection = 7,
       seg_initial_protection = 7, seg_flags = 0, seg_sections = [] \<rparr>"

lemma kc_range_x:
  assumes "unat off + unat n \<le> length classic_collection"
  shows "kc_range classic_collection off n = Inr (take (unat n) (drop (unat off) classic_collection))"
  using assms kc_range_Inr [of classic_collection] by simp

lemma kc_file_range_x:
  assumes "unat off + unat n * unat width \<le> length classic_collection"
  shows "kc_file_range classic_collection off n width = Inr \<lparr> fr_offset = off, fr_size = n * width \<rparr>"
proof -
  have "unat n * unat width < 2 ^ 64" using assms by simp
  then have "checked_mul n width = Some (n * width)" "unat (n * width) = unat n * unat width"
    by (simp_all add: checked_mul_def unat_mul_exact)
  then show ?thesis using assms kc_range_x [of off "n * width"] by (simp add: kc_file_range_def)
qed

lemma parse_segment_x:
  assumes "unat f + unat n \<le> 624" and "unat a + unat m < 2 ^ 64" and "n \<le> m"
    and "bu_sections b \<le> MAX_SECTIONS"
  shows "parse_segment classic_collection (x_segment link a m f n) b = Inr (x_meta link a m f n, b)"
proof -
  have "kc_slice (x_segment link a m f n) 0 72 = Inr (x_segment link a m f n)"
    using kc_slice_here [of "x_segment link a m f n" 72 "[]"] by simp
  moreover have "drop 72 (x_segment link a m f n) = []" by simp
  moreover have "kc_end a m = Inr (a + m)" using assms(2) by (simp add: kc_end_def checked_add_def)
  moreover have "add_budget (bu_sections b) 0 MAX_SECTIONS = Inr (bu_sections b)"
    using assms(4) by (simp add: add_budget_def usize_add_def MAX_SECTIONS_def)
  moreover have "kc_file_range classic_collection f n 1 = Inr \<lparr> fr_offset = f, fr_size = n \<rparr>"
    using kc_file_range_x [of f n 1] assms(1) by simp
  ultimately show ?thesis
    using assms(3) by (simp add: parse_segment_def x_meta_def)
qed

text \<open>One load command between others.\<close>

lemma kc_u32_at_mid:
  assumes "n + 4 \<le> length cmd" and "length (pre @ cmd @ post) < 2 ^ 64"
  shows "kc_u32_at (pre @ cmd @ post) (length pre + n) = kc_u32_at cmd n"
  using assms by (auto simp: kc_u32_at_def kc_slice_def usize_add_def get_range_def)

lemma parse_commands_at:
  assumes "kc_u32_at cmd 0 = Inr kind" and "kc_u32_at cmd 4 = Inr n32" and "unat n32 = length cmd"
    and "8 \<le> length cmd" and "length cmd mod 8 = 0"
    and "parse_command bs outer profile kind cmd st = Inr st1" and "length (pre @ cmd @ post) < 2 ^ 64"
  shows "parse_commands bs (pre @ cmd @ post) outer profile (Suc n) (length pre) st =
    parse_commands bs (pre @ cmd @ post) outer profile n (length pre + length cmd) st1"
proof -
  have "kc_slice (pre @ cmd @ post) (length pre) (length cmd) = Inr cmd"
    using assms(7) by (simp add: kc_slice_skip kc_slice_here)
  with parse_commands_step [of "pre @ cmd @ post" "length pre" kind n32 cmd bs outer profile st st1 n]
    kc_u32_at_mid [of 0 cmd pre post] kc_u32_at_mid [of 4 cmd pre post] assms
  show ?thesis by simp
qed

lemma x_parts:
  "kc_range classic_collection 0 32 = Inr (x_header 12 6 472)"
  "kc_range classic_collection 32 472 = Inr x_commands"
  "kc_range classic_collection 504 32 = Inr (x_header 2 1 72)"
  "kc_range classic_collection 536 72 = Inr x_member_text"
  by (simp_all add: kc_range_x) (simp_all add: classic_collection_def)

definition x_outer_segments :: "segment_metadata list" where
  "x_outer_segments = [x_meta False RB 0x1000 0 616, x_meta True (RB + 0x1000) 0x1000 616 8]"

definition x_reference :: member_reference where
  "x_reference = \<lparr> mr_identifier = [0x6b], mr_offset = 504, mr_address = RB + 504 \<rparr>"

definition x_range :: "u64 \<Rightarrow> u64 \<Rightarrow> file_range" where
  "x_range off n = \<lparr> fr_offset = off, fr_size = n \<rparr>"

definition x_state :: "nat \<Rightarrow> command_state" where
  "x_state i =
     \<lparr> cs_segments = take i x_outer_segments, cs_members = (if i < 4 then [] else [x_reference]),
       cs_entry = (if i < 3 then None else Some (UnixThread64 (RB + 16))),
       cs_symtab = (if i < 5 then None else Some 0),
       cs_dysymtab = (if i < 6 then None else Some (x_dysymtab 616 1)), cs_fixup_range = None,
       cs_linkedit_ranges = (if i < 5 then [] else [x_range 0 0, x_range 0 0]) @
         (if i < 6 then [] else [x_range 0 0, x_range 0 0, x_range 0 0, x_range 0 0, x_range 0 0, x_range 616 8]),
       cs_budget = sample_budget 6 (min i 2) \<rparr>"

lemma x_outer_steps:
  "parse_command classic_collection True X86_64 0x19 x_text (x_state 0) = Inr (x_state 1)"
  "parse_command classic_collection True X86_64 0x19 x_linkedit (x_state 1) = Inr (x_state 2)"
  "parse_command classic_collection True X86_64 5 (x_thread (RB + 16)) (x_state 2) = Inr (x_state 3)"
  "parse_command classic_collection True X86_64 0x80000035 (fileset_bytes (RB + 504) 504) (x_state 3) = Inr (x_state 4)"
  "parse_command classic_collection True X86_64 2 x_symtab (x_state 4) = Inr (x_state 5)"
  "parse_command classic_collection True X86_64 0xb (x_dysymtab 616 1) (x_state 5) = Inr (x_state 6)"
proof -
  have p: "parse_segment classic_collection x_text (sample_budget 6 (Suc 0)) =
      Inr (x_meta False RB 0x1000 0 616, sample_budget 6 (Suc 0))"
    "parse_segment classic_collection x_linkedit (sample_budget 6 (Suc (Suc 0))) =
      Inr (x_meta True (RB + 0x1000) 0x1000 616 8, sample_budget 6 (Suc (Suc 0)))"
    unfolding x_text_def x_linkedit_def
    by (rule parse_segment_x; simp add: RB_def sample_budget_def)+
  show "parse_command classic_collection True X86_64 0x19 x_text (x_state 0) = Inr (x_state 1)"
    "parse_command classic_collection True X86_64 0x19 x_linkedit (x_state 1) = Inr (x_state 2)"
    using p by (simp_all add: parse_command_def segment_command_def add_budget_def usize_add_def MAX_SEGMENTS_def
        x_state_def x_outer_segments_def sample_budget_def)
  show "parse_command classic_collection True X86_64 5 (x_thread (RB + 16)) (x_state 2) = Inr (x_state 3)"
    by (simp add: parse_command_def thread_command_def thread_entry_def set_entry_def kc_exact_def
        x_state_def x_outer_segments_def)
  show "parse_command classic_collection True X86_64 0x80000035 (fileset_bytes (RB + 504) 504) (x_state 3) = Inr (x_state 4)"
    by (simp add: parse_command_def fileset_command_def MAX_MEMBERS_def MAX_IDENTIFIER_def Let_def
        x_state_def x_outer_segments_def x_reference_def x_parts)
  show "parse_command classic_collection True X86_64 2 x_symtab (x_state 4) = Inr (x_state 5)"
    by (simp add: parse_command_def symtab_command_def command_file_range_def kc_file_range_x kc_exact_def
        x_state_def x_outer_segments_def x_range_def)
  show "parse_command classic_collection True X86_64 0xb (x_dysymtab 616 1) (x_state 5) = Inr (x_state 6)"
    by (simp add: parse_command_def dysymtab_command_def command_file_range_def kc_file_range_x kc_exact_def
        x_state_def x_outer_segments_def x_range_def)
qed

lemma x_kind [simp]:
  "kc_u32_at x_text 0 = Inr 0x19" "kc_u32_at x_text 4 = Inr 72"
  "kc_u32_at x_linkedit 0 = Inr 0x19" "kc_u32_at x_linkedit 4 = Inr 72"
  "kc_u32_at x_member_text 0 = Inr 0x19" "kc_u32_at x_member_text 4 = Inr 72"
  by (simp_all add: x_text_def x_linkedit_def x_member_text_def)

lemma x_outer_commands:
  "parse_commands classic_collection x_commands True X86_64 6 0 (x_state 0) = Inr (x_state 6, 472)"
proof -
  let ?c1 = x_text and ?c2 = x_linkedit and ?c3 = "x_thread (RB + 16)"
    and ?c4 = "fileset_bytes (RB + 504) 504" and ?c5 = x_symtab and ?c6 = "x_dysymtab 616 1"
  note at = parse_commands_at [of _ _ _ classic_collection True X86_64]
  have "parse_commands classic_collection x_commands True X86_64 (Suc 5) 0 (x_state 0) =
      parse_commands classic_collection x_commands True X86_64 5 72 (x_state 1)"
    using at [OF _ _ _ _ _ x_outer_steps(1), of 72 "[]" "?c2 @ ?c3 @ ?c4 @ ?c5 @ ?c6" 5]
    by (simp add: x_commands_def del: parse_commands.simps)
  also have "\<dots> = parse_commands classic_collection x_commands True X86_64 4 144 (x_state 2)"
    using at [OF _ _ _ _ _ x_outer_steps(2), of 72 "?c1" "?c3 @ ?c4 @ ?c5 @ ?c6" 4]
    by (simp add: x_commands_def del: parse_commands.simps)
  also have "\<dots> = parse_commands classic_collection x_commands True X86_64 3 328 (x_state 3)"
    using at [OF _ _ _ _ _ x_outer_steps(3), of 184 "?c1 @ ?c2" "?c4 @ ?c5 @ ?c6" 3]
    by (simp add: x_commands_def del: parse_commands.simps)
  also have "\<dots> = parse_commands classic_collection x_commands True X86_64 2 368 (x_state 4)"
    using at [OF _ _ _ _ _ x_outer_steps(4), of 40 "?c1 @ ?c2 @ ?c3" "?c5 @ ?c6" 2]
    by (simp add: x_commands_def del: parse_commands.simps)
  also have "\<dots> = parse_commands classic_collection x_commands True X86_64 1 392 (x_state 5)"
    using at [OF _ _ _ _ _ x_outer_steps(5), of 24 "?c1 @ ?c2 @ ?c3 @ ?c4" "?c6" 1]
    by (simp add: x_commands_def del: parse_commands.simps flip: numeral_2_eq_2)
  also have "\<dots> = parse_commands classic_collection x_commands True X86_64 0 472 (x_state 6)"
    using at [OF _ _ _ _ _ x_outer_steps(6), of 80 "?c1 @ ?c2 @ ?c3 @ ?c4 @ ?c5" "[]" 0]
    by (simp add: x_commands_def del: parse_commands.simps)
  finally show ?thesis by simp
qed

definition x_outer :: image_metadata where
  "x_outer = \<lparr> im_cpu_type = 0x01000007, im_cpu_subtype = 3, im_header_file_offset = 0,
     im_header_address = RB, im_file_type = 12, im_flags = 0, im_command_count = 6,
     im_command_bytes = 472, im_segments = x_outer_segments,
     im_entry = Some (UnixThread64 (RB + 16)),
     im_relocations = Some \<lparr> rel_local = x_range 616 8, rel_external = x_range 0 0,
       rel_local_count = 1, rel_external_count = 0 \<rparr>,
     im_chained_fixups = None \<rparr>"

definition x_member :: image_metadata where
  "x_member = \<lparr> im_cpu_type = 0x01000007, im_cpu_subtype = 3, im_header_file_offset = 504,
     im_header_address = RB + 504, im_file_type = 2, im_flags = 0, im_command_count = 1,
     im_command_bytes = 72, im_segments = [x_meta False (RB + 504) 112 504 112],
     im_entry = None, im_relocations = None, im_chained_fixups = None \<rparr>"

lemma x_outer_parsed:
  "parse_image classic_collection 0 True X86_64 empty_budget =
   Inr (\<lparr> pi_image = x_outer, pi_members = [x_reference] \<rparr>, sample_budget 6 2)"
proof -
  have rel: "parse_relocations classic_collection (Some 0) (x_dysymtab 616 1) =
    Inr \<lparr> rel_local = x_range 616 8, rel_external = x_range 0 0, rel_local_count = 1, rel_external_count = 0 \<rparr>"
    by (simp add: parse_relocations_def command_file_range_def kc_file_range_x x_range_def kc_end_def checked_add_def)
  have "validate_nonoverlap x_outer_segments = Inr ()"
    by (simp add: validate_nonoverlap_def x_outer_segments_def x_meta_def RB_def check_address_pair_def
        check_file_pair_def kc_end_def kc_overlaps_def checked_add_def)
  moreover have "find_map (header_address_in 0 504) x_outer_segments = Some RB"
    by (simp add: x_outer_segments_def x_meta_def header_address_in_def kc_contains_sample checked_add_def RB_def)
  moreover have "in_linkedit x_outer_segments (x_range 616 8)"
    by (simp add: in_linkedit_def x_outer_segments_def x_meta_def x_name_def x_range_def kc_contains_sample)
  moreover have sec: "concat (List.map seg_sections x_outer_segments) = []"
    by (simp add: x_outer_segments_def x_meta_def)
  moreover have zero: "fr_size (x_range 0 0) = 0" "take 6 x_outer_segments = x_outer_segments"
    by (simp_all add: x_range_def x_outer_segments_def)
  ultimately have "finish_image classic_collection 0 (x_header 12 6 472) 0x01000007 3 12 6 472 (x_state 6) =
    Inr \<lparr> pi_image = x_outer, pi_members = [x_reference] \<rparr>"
    by (simp add: finish_image_def x_state_def Let_def rel x_outer_def zero sec
        del: concat_eq_Nil_conv)
  moreover have "kc_end 0 32 = Inr 32" by (simp add: kc_end_def checked_add_def)
  moreover have "initial_command_state (empty_budget\<lparr> bu_commands := 6 \<rparr>) = x_state 0"
    by (simp add: empty_budget_def sample_budget_def x_state_def initial_command_state_def)
  moreover have "add_budget (bu_commands empty_budget) 6 MAX_COMMANDS = Inr 6"
    by (simp add: add_budget_def usize_add_def empty_budget_def MAX_COMMANDS_def)
  moreover have "cs_segments (x_state 6) \<noteq> []" "cs_budget (x_state 6) = sample_budget 6 2"
    by (simp_all add: x_state_def x_outer_segments_def)
  ultimately show ?thesis
    by (simp add: parse_image_def x_parts valid_cpu_def Let_def MAX_COMMAND_BYTES_def x_outer_commands
        del: parse_commands.simps)
qed

lemma x_member_parsed:
  "parse_image classic_collection 504 False X86_64 (sample_budget 6 2) =
   Inr (\<lparr> pi_image = x_member, pi_members = [] \<rparr>, sample_budget 7 3)"
proof -
  let ?st = "(initial_command_state (sample_budget 7 2))\<lparr>
      cs_segments := [x_meta False (RB + 504) 112 504 112], cs_budget := sample_budget 7 3 \<rparr>"
  have "parse_segment classic_collection x_member_text (sample_budget 7 3) =
    Inr (x_meta False (RB + 504) 112 504 112, sample_budget 7 3)"
    unfolding x_member_text_def by (rule parse_segment_x) (simp_all add: RB_def sample_budget_def)
  then have step: "parse_command classic_collection False X86_64 0x19 x_member_text
      (initial_command_state (sample_budget 7 2)) = Inr ?st"
    by (simp add: parse_command_def segment_command_def add_budget_def usize_add_def MAX_SEGMENTS_def
        initial_command_state_def sample_budget_def)
  have "parse_commands classic_collection x_member_text False X86_64 1 0
      (initial_command_state (sample_budget 7 2)) = Inr (?st, 72)"
    using parse_commands_at [OF _ _ _ _ _ step, of 72 "[]" "[]" 0] by simp
  moreover have "finish_image classic_collection 504 (x_header 2 1 72) 0x01000007 3 2 1 72 ?st =
    Inr \<lparr> pi_image = x_member, pi_members = [] \<rparr>"
    by (simp add: finish_image_def Let_def validate_nonoverlap_def x_meta_def initial_command_state_def
        header_address_in_def kc_contains_sample checked_add_def RB_def x_member_def)
  moreover have "kc_end 504 32 = Inr 536" by (simp add: kc_end_def checked_add_def)
  moreover have "(sample_budget 6 2)\<lparr> bu_commands := 7 \<rparr> = sample_budget 7 2"
    by (simp add: sample_budget_def)
  moreover have "add_budget (bu_commands (sample_budget 6 2)) 1 MAX_COMMANDS = Inr 7"
    by (simp add: add_budget_def usize_add_def sample_budget_def MAX_COMMANDS_def)
  ultimately show ?thesis
    by (simp add: parse_image_def x_parts valid_cpu_def Let_def MAX_COMMAND_BYTES_def
        del: parse_commands.simps)
qed

definition x_inspection :: kc_metadata_inspection where
  "x_inspection = \<lparr> ki_collection = x_outer,
     ki_members = [\<lparr> fm_identifier = [0x6b], fm_image = x_member \<rparr>],
     ki_requirements = [CollectionPlacement, KernelEntryAbi, PlatformHandoffProviders, ClassicRelocations] \<rparr>"

lemma x_inspected: "inspect_kernel_collection classic_collection = Inr x_inspection"
proof -
  have entry: "validate_collection_entry x_outer = Inr ()"
    by (simp add: validate_collection_entry_def x_outer_def entry_in_segment_def x_outer_segments_def
        x_meta_def RB_def checked_sub_def checked_add_def)
  have view: "is_collection_view x_outer_segments \<lparr> fr_offset = 504, fr_size = n \<rparr> (RB + 504)"
    if "unat n \<le> 112" for n
    using that by (simp add: is_collection_view_def x_outer_segments_def x_meta_def kc_contains_sample
        checked_sub_def RB_def)
  have "check_member_segment x_outer_segments (x_meta False (RB + 504) 112 504 112) = Inr ()"
    using view [of 112]
    by (simp add: check_member_segment_def x_meta_def memory_range_def kc_contains_sample
        RB_def x_outer_segments_def)
  then have "inspect_member classic_collection X86_64 x_outer ([], sample_budget 6 2) x_reference =
    Inr ([\<lparr> fm_identifier = [0x6b], fm_image = x_member \<rparr>], sample_budget 7 3)"
    using view [of 104] x_member_parsed
    by (simp add: inspect_member_def x_reference_def Let_def) (simp add: x_member_def x_outer_def)
  moreover have "foldl require_image [CollectionPlacement, KernelEntryAbi, PlatformHandoffProviders]
      [x_outer, x_member] = [CollectionPlacement, KernelEntryAbi, PlatformHandoffProviders, ClassicRelocations]"
    by (simp add: require_image_def require_value_def x_outer_def x_member_def x_meta_def)
  ultimately show ?thesis
    by (simp add: inspect_kernel_collection_def inspect_profile_def MAX_INPUT_SIZE_def x_outer_parsed entry
        x_inspection_def)
qed

section \<open>Its staging\<close>

definition x_plan :: kc_staging_plan where
  "x_plan = \<lparr> sp_source = classic_collection, sp_inspection = x_inspection,
     sp_segments = [\<lparr> ss_collection_segment_index = 0, ss_virtual_address = RB,
       ss_destination_offset = 0, ss_memory_size = 0x1000, ss_file_offset = 0, ss_file_size = 616,
       ss_initial_protection = 7, ss_maximum_protection = 7 \<rparr>,
       \<lparr> ss_collection_segment_index = 1, ss_virtual_address = RB + 0x1000,
       ss_destination_offset = 0x1000, ss_memory_size = 0x1000, ss_file_offset = 616, ss_file_size = 8,
       ss_initial_protection = 7, ss_maximum_protection = 7 \<rparr>],
     sp_member_views = [\<lparr> mv_destination_offset = 504, mv_memory_size = 104, mv_file_offset = 504,
       mv_file_size = 104, mv_is_header = True \<rparr>, \<lparr> mv_destination_offset = 504, mv_memory_size = 112,
       mv_file_offset = 504, mv_file_size = 112, mv_is_header = False \<rparr>],
     sp_minimum_virtual_address = RB, sp_arena_size = 0x2000, sp_collection_header_offset = 0,
     sp_outer_entry_offset = 16, sp_page_size = 4096 \<rparr>"

lemma x_planned: "staging_new (\<lambda>_. True) classic_collection = Inr x_plan"
proof -
  have "from_inspection (\<lambda>_. True) classic_collection x_inspection STAGING_PAGE_SIZE = Inr x_plan"
    by (simp add: from_inspection_def x_inspection_def x_outer_def x_member_def x_meta_def x_outer_segments_def
        RB_def widen_def checked_add_def checked_sub_def MAX_STAGING_SIZE_def STAGING_PAGE_SIZE_def
        plan_segment_def relative_range_def source_range_def plan_entry_def count_views_def check_staging_pair_def
        usize_add_def member_views_def view_def x_plan_def)
  then show ?thesis
    by (simp add: staging_new_def x_inspected)
qed

section \<open>Its audit\<close>

lemma x_data:
  "get_range classic_collection 608 616 = Some (w64 (RB + 16))"
  "get_range classic_collection 616 620 = Some (w32 608)"
  "get_range classic_collection 620 624 = Some (w32 0x06000000)"
  by (simp_all add: get_range_def) (simp_all add: classic_collection_def)

definition x_detail :: classic_detail where
  "x_detail = \<lparr> cd_table = LocalDynamic, cd_displacement = 608, cd_symbol_ordinal = 0,
     cd_relocation_type = 0, cd_length_exponent = 3, cd_pc_relative = False, cd_external = False,
     cd_stored_value = Some (RB + 16) \<rparr>"

definition x_record :: audit_record where
  "x_record = \<lparr> ar_image_index = 0, ar_source_record_offset = 616, ar_write_address = Some (RB + 608),
     ar_write_file_offset = Some 608, ar_width = 8, ar_member_overlap = ExecutableMember,
     ar_detail = Classic x_detail \<rparr>"

definition x_outer_maps :: "mapping_entry list" where
  "x_outer_maps = [\<lparr> mp_start = RB, mp_end = RB + 0x1000, mp_file_end = RB + 616, mp_file_offset = 0 \<rparr>,
     \<lparr> mp_start = RB + 0x1000, mp_end = RB + 0x2000, mp_file_end = RB + 0x1008, mp_file_offset = 616 \<rparr>]"

definition x_context :: audit_context where
  "x_context = \<lparr> ac_source = classic_collection, ac_limits = default_limits, ac_outer = x_outer_maps,
     ac_executable = [(RB + 504, RB + 616)], ac_kext = [], ac_primary_base = RB \<rparr>"

lemma x_maps: "mappings (\<lambda>_. True) x_outer_segments = Inr x_outer_maps"
  by (simp add: mappings_def mapping_of_def au_add_def checked_add_def x_outer_segments_def x_meta_def
      x_outer_maps_def RB_def)

lemma x_ranges:
  "member_ranges (\<lambda>_. True) x_inspection 2 = Inr [(RB + 504, RB + 616)]"
  "member_ranges (\<lambda>_. True) x_inspection 11 = Inr []"
  by (simp_all add: member_ranges_def x_inspection_def x_member_def x_meta_def push_range_def au_add_def
      checked_add_def RB_def push_bounded_def merge_range_def)

lemma x_location: "file_location x_outer_maps (RB + 608) 8 = Inr (Some 608)"
  by (simp add: file_location_def containing_def partition_point_def x_outer_maps_def RB_def
      checked_add_def checked_sub_def plus_checked_def)

definition x_summary :: audit_summary where
  "x_summary = count_classic x_detail (count_record x_record default_summary)"

definition x_audit :: kc_fixup_audit where
  "x_audit = \<lparr> fa_summary = x_summary, fa_records = [x_record], fa_issues = [], fa_primary_base = RB \<rparr>"

lemma x_reads_data:
  "au_u32_at classic_collection 616 = Inr 608" "au_u32_at classic_collection 620 = Inr 0x06000000"
  "word_at classic_collection 608 8 = Inr (RB + 16)"
  by (simp_all add: au_u32_at_def word_at_def au_raw_def au_add_def checked_add_def x_data w32_def w64_def put_bytes_def)

lemma x_classic:
  "classic_record (\<lambda>_. True) x_context 0 None x_outer_maps LocalDynamic (x_range 616 8) (Some RB)
     \<lparr> as_summary = default_summary, as_records = [], as_issues = [] \<rparr> 0 =
   Inr \<lparr> as_summary = x_summary, as_records = [x_record], as_issues = [] \<rparr>"
proof -
  have addr: "checked_add_signed RB 608 = Some (RB + 608)"
    by (simp add: checked_add_signed_def RB_def)
  have fl: "classic_file x_context x_outer_maps (Some (RB + 608)) 8 = Inr (Some 608)"
    by (simp add: classic_file_def x_location x_context_def)
  have ov: "find_member_overlap x_context (Some (RB + 608)) 8 = ExecutableMember"
    by (simp add: find_member_overlap_def x_context_def RB_def checked_add_def intersects_def partition_point_def)
  have bits: "ucast (drop_bit 28 (0x06000000 :: u32)) = (0 :: u8)"
    "ucast (drop_bit 25 (0x06000000 :: u32) AND 3) = (3 :: u8)"
    "(0x06000000 :: u32) AND 0xffffff = 0" "(0x06000000 :: u32) AND push_bit 24 1 = 0"
    "(0x06000000 :: u32) AND push_bit 27 1 = 0" "push_bit (unat (3 :: u8)) 1 = (8 :: u8)"
    "ucast (8 :: u8) = (8 :: u64)"
    by (simp_all add: drop_bit_eq_div)
  have ctx: "ac_source x_context = classic_collection" "al_records (ac_limits x_context) = 1000000"
    by (simp_all add: x_context_def default_limits_def MAX_AUDIT_RECORDS_def)
  have codes: "classic_codes None LocalDynamic (Some RB) x_detail 8 (Some (RB + 608)) (Some 608) = []"
    by (simp add: classic_codes_def x_detail_def)
  have offs: "au_add (fr_offset (x_range 616 8)) 0 = Inr 616" "plus_checked 616 4 = Inr 620"
    by (simp_all add: au_add_def plus_checked_def checked_add_def x_range_def)
  show ?thesis
    unfolding classic_record_def offs and_then_simps ctx x_reads_data Let_def bits option.case addr fl ov
    by (simp add: add_record_def push_bounded_def ctx codes x_reads_data x_summary_def flip: x_detail_def x_record_def)
qed

lemma x_image:
  "audit_image (\<lambda>_. True) x_context \<lparr> as_summary = default_summary, as_records = [], as_issues = [] \<rparr>
     (0, x_outer) = Inr \<lparr> as_summary = x_summary, as_records = [x_record], as_issues = [] \<rparr>"
proof -
  have base: "image_base x_outer = Some RB"
    by (simp add: image_base_def x_outer_def x_outer_segments_def x_meta_def)
  have tables: "image_tables x_outer =
      [(None, LocalDynamic, x_range 616 8, Some RB), (None, ExternalDynamic, x_range 0 0, Some RB)]"
    unfolding image_tables_def base by (simp add: x_outer_def x_outer_segments_def x_meta_def)
  have steps: "steps_of_8 8 = [0]" "steps_of_8 0 = []" "fr_size (x_range a n) = n" for a n
    by (simp_all add: steps_of_8_def x_range_def)
  have "classic (\<lambda>_. True) x_context 0 None x_outer_maps LocalDynamic (x_range 616 8) (Some RB)
      \<lparr> as_summary = default_summary, as_records = [], as_issues = [] \<rparr> =
     Inr \<lparr> as_summary = x_summary, as_records = [x_record], as_issues = [] \<rparr>"
    by (simp add: classic_def steps x_classic)
  moreover have "classic (\<lambda>_. True) x_context 0 None x_outer_maps ExternalDynamic (x_range 0 0) (Some RB) a = Inr a" for a
    by (simp add: classic_def steps)
  moreover have "im_segments x_outer = x_outer_segments" "im_chained_fixups x_outer = None"
    by (simp_all add: x_outer_def)
  ultimately show ?thesis by (simp add: audit_image_def x_maps tables)
qed

lemma x_member_image: "audit_image (\<lambda>_. True) x_context a (1, x_member) = Inr a"
  by (simp add: audit_image_def mappings_def mapping_of_def au_add_def checked_add_def x_member_def x_meta_def
      RB_def image_tables_def)

lemma x_overlaps:
  "audit_overlaps (\<lambda>_. True) x_context \<lparr> as_summary = x_summary, as_records = [x_record], as_issues = [] \<rparr> =
   Inr \<lparr> as_summary = x_summary, as_records = [x_record], as_issues = [] \<rparr>"
proof -
  have "file_backed_indices [x_record] = [0]" by (simp add: file_backed_indices_def x_record_def)
  moreover have "ar_write_address x_record = Some (RB + 608)" "ar_width x_record = 8" "\<not> is_chained x_record"
    by (simp_all add: x_record_def is_chained_def)
  ultimately show ?thesis
    by (simp add: audit_overlaps_def sweep_record_def sweep_conflict_def au_add_def checked_add_def RB_def)
qed

lemma x_audited: "audit_kernel_collection (\<lambda>_. True) classic_collection = Inr x_audit"
proof -
  have base: "primary_base_of (im_segments (ki_collection x_inspection)) = Some RB"
    by (simp add: primary_base_of_def x_inspection_def x_outer_def x_outer_segments_def x_meta_def RB_def)
  have "ki_collection x_inspection = x_outer" "List.map fm_image (ki_members x_inspection) = [x_member]"
    "im_segments x_outer = x_outer_segments"
    by (simp_all add: x_inspection_def x_outer_def)
  moreover have "limits_ok default_limits"
    by (simp add: limits_ok_def default_limits_def MAX_AUDIT_RECORDS_def MAX_AUDIT_ISSUES_def MAX_AUDIT_PAGE_STARTS_def)
  ultimately show ?thesis
    using x_image x_member_image x_overlaps base
    by (simp add: audit_kernel_collection_def audit_kernel_collection_with_limits_def x_inspected x_maps x_ranges
        x_audit_def flip: x_context_def)
qed

section \<open>Its rebase\<close>

definition x_word :: rebase_word where
  "x_word = \<lparr> rw_offset = 608, rw_width = 8, rw_after = to_le_bytes (RB + 0x1010) \<rparr>"

definition x_verification :: classic_rebase_verification where
  "x_verification = count_word (w64 (RB + 16)) (to_le_bytes (RB + 0x1010)) 8
     \<lparr> rv_slide = 0x1000, rv_arena_bytes = 0x2000, rv_classic_words = 0, rv_width4_words = 0,
       rv_width8_words = 0, rv_write_bytes_verified = 0, rv_non_target_bytes_verified = 0,
       rv_changed_bytes = 0, rv_chain_words_preserved = 0, rv_header_ranges_preserved = 2 \<rparr>"

definition x_rebase :: kc_classic_rebase_plan where
  "x_rebase = \<lparr> rp_source = classic_collection, rp_staging = x_plan, rp_words = [x_word],
     rp_verification = x_verification\<lparr> rv_non_target_bytes_verified := 0x1ff8 \<rparr> \<rparr>"

lemma x_plan_word:
  "plan_word classic_collection x_plan x_member 0x1000
     ([], \<lparr> rv_slide = 0x1000, rv_arena_bytes = 0x2000, rv_classic_words = 0, rv_width4_words = 0,
       rv_width8_words = 0, rv_write_bytes_verified = 0, rv_non_target_bytes_verified = 0,
       rv_changed_bytes = 0, rv_chain_words_preserved = 0, rv_header_ranges_preserved = 2 \<rparr>) x_record =
   Inr ([x_word], x_verification)"
proof -
  have prof: "supported_profile x_record x_detail"
    by (simp add: supported_profile_def x_record_def x_detail_def)
  have fm: "file_mapping_matches x_member (RB + 608) 608 8 = Inr True"
    by (simp add: file_mapping_matches_def x_member_def x_meta_def RB_def checked_add_def)
  have hd: "for_each (check_header 608 (RB + 608) 8) (ki_collection (sp_inspection x_plan) #
      List.map fm_image (ki_members (sp_inspection x_plan))) = Inr ()"
    by (simp add: x_plan_def x_inspection_def x_outer_def x_member_def check_header_def cr_overlaps_def
        checked_add_def RB_def)
  have rec: "ar_detail x_record = Classic x_detail" "ar_write_address x_record = Some (RB + 608)"
    "ar_write_file_offset x_record = Some 608" "ar_width x_record = 8" "cd_stored_value x_detail = Some (RB + 16)"
    by (simp_all add: x_record_def x_detail_def)
  have ar: "checked_add (RB + 16) 0x1000 = Some (RB + 0x1010)"
    "checked_sub (RB + 608) (sp_minimum_virtual_address x_plan) = Some 608"
    "usize_add 608 8 = Some 616" "sp_arena_size x_plan = 0x2000"
    by (simp_all add: checked_add_def checked_sub_def x_plan_def RB_def usize_add_def)
  have w: "unat (8 :: u8) = 8" "ucast (8 :: u8) = (8 :: u64)" "unat (608 :: u64) = 608"
    "take 8 (to_le_bytes (RB + 16)) = w64 (RB + 16)" by (simp_all add: w64_def)
  show ?thesis
    unfolding plan_word_def prod.case rec record_detail.case Let_def w ok_or_Inl
    by (simp add: prof fm hd ar x_data w x_word_def x_verification_def ok_or_def w64_def del: for_each.simps)
qed

lemma x_rebased: "rebase_new (\<lambda>_. True) classic_collection 0x1000 = Inr x_rebase"
proof -
  have ex: "executable_member (sp_inspection x_plan) = Inr x_member"
    by (simp add: executable_member_def x_plan_def x_inspection_def x_member_def)
  have fig: "ranges_valid x_audit" "su_classic_records (fa_summary x_audit) = 1" "su_chain_records (fa_summary x_audit) = 0"
    "fa_records x_audit = [x_record]"
    by (simp_all add: ranges_valid_def x_audit_def x_summary_def count_classic_def count_record_def
        default_summary_def x_record_def)
  have len: "length (ki_members (sp_inspection x_plan)) + 1 = 2" "sp_arena_size x_plan = 0x2000"
    by (simp_all add: x_plan_def x_inspection_def)
  have v: "rv_arena_bytes x_verification = 0x2000" "rv_write_bytes_verified x_verification = 8"
    by (simp_all add: x_verification_def count_word_def)
  show ?thesis
    unfolding rebase_new_def comp_def x_planned map_err_simps and_then_simps Let_def ex x_audited len
    by (simp add: fig x_plan_word v x_rebase_def)
qed

section \<open>The properties on the sample\<close>

lemma x_audited_limits: "audit_kernel_collection_with_limits (\<lambda>_. True) classic_collection default_limits = Inr x_audit"
  using x_audited by (simp add: audit_kernel_collection_def)

lemma x_audited_for: "audit_kernel_collection ((\<lambda>_. True) \<circ> For_Audit) classic_collection = Inr x_audit"
  using x_audited by (simp add: comp_def)

lemma x_audit_record: "x_record \<in> set (fa_records x_audit)" "ranges_valid x_audit" "\<not> is_chained x_record"
  by (simp_all add: x_audit_def ranges_valid_def x_record_def is_chained_def)


lemma audit_valid_writes_witness: "ranges_valid x_audit \<and> clean_record x_record"
  using audit_valid_writes [OF x_audited_limits x_audit_record(2)] x_audit_record by simp

lemma audit_summary_counts_witness:
  "audit_kernel_collection_with_limits (\<lambda>_. True) classic_collection default_limits = Inr x_audit \<and>
   su_classic_records (fa_summary x_audit) = 1"
  using audit_summary_counts [OF x_audited_limits] x_audited_limits x_audit_record(3) by (simp add: x_audit_def)

lemma rebase_slides_relocations_witness:
  "rebase_new (\<lambda>_. True) classic_collection 0x1000 = Inr x_rebase \<and>
   le_value (take 8 (drop 608 (staged_arena x_plan))) = unat (RB + 16) \<and>
   le_value (take 8 (drop 608 (rebased_arena x_rebase))) = unat (RB + 16) + 0x1000 \<and>
   rebased_arena x_rebase ! 600 = staged_arena x_plan ! 600"
proof -
  note R = rebase_slides_relocations [OF x_rebased x_audited_for]
  have p: "rp_staging x_rebase = x_plan" "sp_minimum_virtual_address x_plan = RB" "sp_arena_size x_plan = 0x2000"
    by (simp_all add: x_rebase_def x_plan_def)
  have r: "ar_write_address x_record = Some (RB + 608)" "ar_width x_record = 8"
    "recorded_word x_record b \<longleftrightarrow> b = unat (RB + 16)" for b
    by (auto simp: x_record_def recorded_word_def x_detail_def)
  have a: "unat (RB + 608) = unat RB + 608" "unat (0x1000 :: u32) = 0x1000"
    by (simp_all add: RB_def)
  have "le_value (take 8 (drop 608 (staged_arena x_plan))) = unat (RB + 16)"
    "le_value (take 8 (drop 608 (rebased_arena x_rebase))) = unat (RB + 16) + 0x1000"
    using conjunct1 [OF R, rule_format, of x_record] x_audit_record(1,3) unfolding p r a by (auto simp: a)
  moreover have "rebased_arena x_rebase ! 600 = staged_arena x_plan ! 600"
    using conjunct2 [OF R, rule_format, of 600] unfolding p
    by (simp add: x_audit_def write_first_def r a)
  ultimately show ?thesis using x_rebased by simp
qed

lemma rebase_apply_refines_witness:
  "\<exists>k. rebase_apply (\<lambda>_. True) (\<lambda>_ _. 3) x_rebase = Inr k \<and> rk_bytes k = rebased_arena x_rebase"
  using rebase_apply_refines [OF x_rebased, of "\<lambda>_. True" "\<lambda>_ _. 3"] by auto

lemma rebase_verify_detects_witness:
  "rebase_verify (\<lambda>_ _. 0) x_rebase [0] = Inl CR_DestinationSize"
  using rebase_verify_detects [OF x_rebased, of "\<lambda>_ _. 0" "[0]"] by (simp add: x_rebase_def x_plan_def)

lemma rebase_figures_witness:
  "rebase_new (\<lambda>_. True) classic_collection 0x1000 = Inr x_rebase \<and> rv_classic_words (rp_verification x_rebase) = 1"
  using rebase_figures [OF x_rebased x_audited_for] x_rebased x_audit_record(3) by (simp add: x_audit_def Let_def)

end
