(* ===== verification/Boot_Picker.thy ===== *)
theory Boot_Picker
  imports Slices
begin

text \<open>
  The boot menu: navigation over the entries, and the picture that is drawn of them
  (\<^verbatim>\<open>boot_picker.rs\<close>). A string is the list of its scalar values, and the pixel type is given by
  its function \<open>rgb\<close>. A subtraction that goes below zero and a slice outside the pixels are panics;
  the sums and products are of dimensions of at most 4096, far below the bound of \<^verbatim>\<open>usize\<close>.
\<close>

section \<open>Navigation\<close>

datatype view_error =
    V_Dimensions
  | V_Selection
  | V_Allocation
  | V_Panic \<comment> \<open>a failed subtraction or slice; not a value of the source's enum\<close>

datatype picker_action = Previous | NextEntry | First | Last | Boot | Cancel | NoAction

datatype picker_update = Redraw | BootEntry nat | CancelMenu | Unchanged

text \<open>\<open>selected\<close> is changed in place: it is returned with the update.\<close>

definition navigate :: "nat \<Rightarrow> nat \<Rightarrow> picker_action \<Rightarrow> picker_update \<times> nat" where
  "navigate selected number action =
     (if number = 0 \<or> number \<le> selected then (CancelMenu, selected)
      else
      let moved = (\<lambda>s. (if s = selected then Unchanged else Redraw, s)) in
      case action of
        Previous \<Rightarrow> moved (if selected = 0 then number - 1 else selected - 1)
      | NextEntry \<Rightarrow> moved ((selected + 1) mod number)
      | First \<Rightarrow> moved 0
      | Last \<Rightarrow> moved (number - 1)
      | Boot \<Rightarrow> (BootEntry selected, selected)
      | Cancel \<Rightarrow> (CancelMenu, selected)
      | NoAction \<Rightarrow> moved selected)"

section \<open>The canvas\<close>

definition MAX_PIXELS :: nat where "MAX_PIXELS = 4096 * 2160"

definition BG :: u32 where "BG = 0x08090b"
definition TILE :: u32 where "TILE = 0x16191e"
definition LINE :: u32 where "LINE = 0x313741"
definition WHITE :: u32 where "WHITE = 0xf3f5f7"
definition MUTED :: u32 where "MUTED = 0x969fae"
definition ACCENT :: u32 where "ACCENT = 0xb9edce"

type_synonym 'p pixel_type = "u8 \<Rightarrow> u8 \<Rightarrow> u8 \<Rightarrow> 'p"

record 'p canvas =
  cv_pixels :: "'p list"
  cv_width :: nat
  cv_height :: nat

definition color :: "'p pixel_type \<Rightarrow> u32 \<Rightarrow> 'p" where
  "color rgb v = rgb (ucast (drop_bit 16 v)) (ucast (drop_bit 8 v)) (ucast v)"

text \<open>A checked subtraction, \<^verbatim>\<open>saturating_add\<close>, \<^verbatim>\<open>saturating_mul\<close> and \<^verbatim>\<open>slice[a..b].fill(value)\<close>.\<close>

definition v_sub :: "nat \<Rightarrow> nat \<Rightarrow> view_error + nat" where
  "v_sub a b = (if b \<le> a then Inr (a - b) else Inl V_Panic)"

definition saturating_add :: "nat \<Rightarrow> nat \<Rightarrow> nat" where
  "saturating_add a b = min (a + b) (2 ^ 64 - 1)"

definition saturating_mul :: "nat \<Rightarrow> nat \<Rightarrow> nat" where
  "saturating_mul a b = min (a * b) (2 ^ 64 - 1)"

definition fill_slice :: "'p list \<Rightarrow> nat \<Rightarrow> nat \<Rightarrow> 'p \<Rightarrow> view_error + 'p list" where
  "fill_slice xs a b v =
     (if a \<le> b \<and> b \<le> length xs then Inr (put_bytes xs a (replicate (b - a) v)) else Inl V_Panic)"

definition rect_row ::
  "'p pixel_type \<Rightarrow> nat \<Rightarrow> nat \<Rightarrow> u32 \<Rightarrow> 'p canvas \<Rightarrow> nat \<Rightarrow> view_error + 'p canvas" where
  "rect_row rgb x right value c row =
     and_then (fill_slice (cv_pixels c) (row * cv_width c + x) (row * cv_width c + right) (color rgb value))
       (\<lambda>pixels. Inr (c\<lparr> cv_pixels := pixels \<rparr>))"

definition rect ::
  "'p pixel_type \<Rightarrow> nat \<Rightarrow> nat \<Rightarrow> nat \<Rightarrow> nat \<Rightarrow> u32 \<Rightarrow> 'p canvas \<Rightarrow> view_error + 'p canvas" where
  "rect rgb x y w h value c =
     (let right = min (saturating_add x w) (cv_width c);
          bottom = min (saturating_add y h) (cv_height c)
      in if right \<le> x \<or> bottom \<le> y then Inr c
         else try_fold (rect_row rgb x right value) c [y..<bottom])"

text \<open>The inset of a row of a rounded rectangle.\<close>

function inset_loop :: "nat \<Rightarrow> nat \<Rightarrow> nat \<Rightarrow> nat" where
  "inset_loop r edge inset =
     (if inset < r \<and> r * r < (r - inset) * (r - inset) + edge * edge
      then inset_loop r edge (inset + 1) else inset)"
  by pat_completeness auto

termination inset_loop
  by (relation "measure (\<lambda>(r, edge, inset). r - inset)") auto

declare inset_loop.simps [simp del]

definition rounded_row ::
  "'p pixel_type \<Rightarrow> nat \<Rightarrow> nat \<Rightarrow> nat \<Rightarrow> nat \<Rightarrow> nat \<Rightarrow> u32 \<Rightarrow> 'p canvas \<Rightarrow> nat \<Rightarrow> view_error + 'p canvas" where
  "rounded_row rgb x y w h r value c dy =
     and_then (if dy < r then Inr (r - dy - 1)
               else and_then (v_sub h r) (\<lambda>inner. if inner \<le> dy then Inr (dy - inner) else Inr 0)) (\<lambda>edge.
     let inset = inset_loop r edge 0 in
     rect rgb (x + inset) (y + dy) (w - 2 * inset) 1 value c)"

definition rounded ::
  "'p pixel_type \<Rightarrow> nat \<Rightarrow> nat \<Rightarrow> nat \<Rightarrow> nat \<Rightarrow> nat \<Rightarrow> u32 \<Rightarrow> 'p canvas \<Rightarrow> view_error + 'p canvas" where
  "rounded rgb x y w h r value c = try_fold (rounded_row rgb x y w h r value) c [0..<h]"

section \<open>Text\<close>

definition GLYPHS :: "(char \<times> u8 list) list" where
  "GLYPHS = [
    (CHR ''a'', [0, 0, 14, 1, 15, 17, 15]), (CHR ''b'', [16, 16, 22, 25, 17, 17, 30]),
    (CHR ''c'', [0, 0, 14, 17, 16, 17, 14]), (CHR ''d'', [1, 1, 13, 19, 17, 17, 15]),
    (CHR ''e'', [0, 0, 14, 17, 31, 16, 14]), (CHR ''f'', [6, 9, 8, 28, 8, 8, 8]),
    (CHR ''g'', [0, 0, 15, 17, 15, 1, 14]), (CHR ''h'', [16, 16, 22, 25, 17, 17, 17]),
    (CHR ''i'', [4, 0, 12, 4, 4, 4, 14]), (CHR ''j'', [2, 0, 6, 2, 2, 18, 12]),
    (CHR ''k'', [16, 16, 18, 20, 24, 20, 18]), (CHR ''l'', [12, 4, 4, 4, 4, 4, 14]),
    (CHR ''m'', [0, 0, 26, 21, 21, 17, 17]), (CHR ''n'', [0, 0, 22, 25, 17, 17, 17]),
    (CHR ''o'', [0, 0, 14, 17, 17, 17, 14]), (CHR ''p'', [0, 0, 30, 17, 30, 16, 16]),
    (CHR ''q'', [0, 0, 15, 17, 15, 1, 1]), (CHR ''r'', [0, 0, 22, 25, 16, 16, 16]),
    (CHR ''s'', [0, 0, 15, 16, 14, 1, 30]), (CHR ''t'', [8, 8, 28, 8, 8, 9, 6]),
    (CHR ''u'', [0, 0, 17, 17, 17, 19, 13]), (CHR ''v'', [0, 0, 17, 17, 17, 10, 4]),
    (CHR ''w'', [0, 0, 17, 17, 21, 21, 10]), (CHR ''x'', [0, 0, 17, 10, 4, 10, 17]),
    (CHR ''y'', [0, 0, 17, 17, 15, 1, 14]), (CHR ''z'', [0, 0, 31, 2, 4, 8, 31]),
    (CHR ''A'', [14, 17, 17, 31, 17, 17, 17]), (CHR ''B'', [30, 17, 17, 30, 17, 17, 30]),
    (CHR ''C'', [14, 17, 16, 16, 16, 17, 14]), (CHR ''D'', [30, 17, 17, 17, 17, 17, 30]),
    (CHR ''E'', [31, 16, 16, 30, 16, 16, 31]), (CHR ''F'', [31, 16, 16, 30, 16, 16, 16]),
    (CHR ''G'', [14, 17, 16, 23, 17, 17, 15]), (CHR ''H'', [17, 17, 17, 31, 17, 17, 17]),
    (CHR ''I'', [14, 4, 4, 4, 4, 4, 14]), (CHR ''J'', [7, 2, 2, 2, 2, 18, 12]),
    (CHR ''K'', [17, 18, 20, 24, 20, 18, 17]), (CHR ''L'', [16, 16, 16, 16, 16, 16, 31]),
    (CHR ''M'', [17, 27, 21, 21, 17, 17, 17]), (CHR ''N'', [17, 25, 25, 21, 19, 19, 17]),
    (CHR ''O'', [14, 17, 17, 17, 17, 17, 14]), (CHR ''P'', [30, 17, 17, 30, 16, 16, 16]),
    (CHR ''Q'', [14, 17, 17, 17, 21, 18, 13]), (CHR ''R'', [30, 17, 17, 30, 20, 18, 17]),
    (CHR ''S'', [15, 16, 16, 14, 1, 1, 30]), (CHR ''T'', [31, 4, 4, 4, 4, 4, 4]),
    (CHR ''U'', [17, 17, 17, 17, 17, 17, 14]), (CHR ''V'', [17, 17, 17, 17, 17, 10, 4]),
    (CHR ''W'', [17, 17, 17, 21, 21, 21, 10]), (CHR ''X'', [17, 17, 10, 4, 10, 17, 17]),
    (CHR ''Y'', [17, 17, 10, 4, 4, 4, 4]), (CHR ''Z'', [31, 1, 2, 4, 8, 16, 31]),
    (CHR ''0'', [14, 17, 19, 21, 25, 17, 14]), (CHR ''1'', [4, 12, 4, 4, 4, 4, 14]),
    (CHR ''2'', [14, 17, 1, 2, 4, 8, 31]), (CHR ''3'', [30, 1, 1, 14, 1, 1, 30]),
    (CHR ''4'', [2, 6, 10, 18, 31, 2, 2]), (CHR ''5'', [31, 16, 16, 30, 1, 1, 30]),
    (CHR ''6'', [14, 16, 16, 30, 17, 17, 14]), (CHR ''7'', [31, 1, 2, 4, 8, 8, 8]),
    (CHR ''8'', [14, 17, 17, 14, 17, 17, 14]), (CHR ''9'', [14, 17, 17, 15, 1, 1, 14]),
    (CHR '' '', [0, 0, 0, 0, 0, 0, 0]), (CHR ''.'', [0, 0, 0, 0, 0, 6, 6]),
    (CHR ''-'', [0, 0, 0, 31, 0, 0, 0]), (CHR ''_'', [0, 0, 0, 0, 0, 0, 31]),
    (CHR ''/'', [1, 2, 2, 4, 8, 8, 16]), (CHR ''('', [2, 4, 8, 8, 8, 4, 2]),
    (CHR '')'', [8, 4, 2, 2, 2, 4, 8]), (CHR '':'', [0, 6, 6, 0, 6, 6, 0])]"

text \<open>Anything else is drawn as a question mark.\<close>

definition glyph :: "nat \<Rightarrow> u8 list" where
  "glyph ch =
     (case map_of (List.map (\<lambda>(c, rows). (of_char c, rows)) GLYPHS) ch of
        Some rows \<Rightarrow> rows
      | None \<Rightarrow> [14, 17, 1, 2, 4, 0, 4])"

definition draw_bit ::
  "'p pixel_type \<Rightarrow> nat \<Rightarrow> nat \<Rightarrow> nat \<Rightarrow> u32 \<Rightarrow> u8 \<Rightarrow> 'p canvas \<Rightarrow> nat \<Rightarrow> view_error + 'p canvas" where
  "draw_bit rgb left y scale value bits c col =
     (if bits AND push_bit (4 - col) 1 \<noteq> 0
      then rect rgb (left + col * scale) y scale scale value c else Inr c)"

definition draw_bits ::
  "'p pixel_type \<Rightarrow> nat \<Rightarrow> nat \<Rightarrow> nat \<Rightarrow> u32 \<Rightarrow> 'p canvas \<Rightarrow> nat \<times> u8 \<Rightarrow> view_error + 'p canvas" where
  "draw_bits rgb left y scale value c = (\<lambda>(row, bits).
     try_fold (draw_bit rgb left (y + row * scale) scale value bits) c [0..<5])"

definition draw_char ::
  "'p pixel_type \<Rightarrow> nat \<Rightarrow> nat \<Rightarrow> nat \<Rightarrow> u32 \<Rightarrow> nat \<Rightarrow> bool \<Rightarrow> 'p canvas \<Rightarrow> nat \<times> nat \<Rightarrow> view_error + 'p canvas" where
  "draw_char rgb x y scale value max_chars truncated c = (\<lambda>(index, ch).
     let ch = (if truncated \<and> max_chars - 3 \<le> index then of_char (CHR ''.'') else ch) in
     try_fold (draw_bits rgb (x + index * 6 * scale) y scale value) c (enumerate 0 (glyph ch)))"

definition draw_text ::
  "'p pixel_type \<Rightarrow> nat \<Rightarrow> nat \<Rightarrow> nat list \<Rightarrow> nat \<Rightarrow> u32 \<Rightarrow> nat \<Rightarrow> 'p canvas \<Rightarrow> view_error + 'p canvas" where
  "draw_text rgb x y txt scale value max_chars c =
     (let truncated = max_chars < length txt in
      try_fold (draw_char rgb x y scale value max_chars truncated) c (enumerate 0 (take max_chars txt)))"

definition centered ::
  "'p pixel_type \<Rightarrow> nat \<Rightarrow> nat \<Rightarrow> nat list \<Rightarrow> nat \<Rightarrow> u32 \<Rightarrow> nat \<Rightarrow> 'p canvas \<Rightarrow> view_error + 'p canvas" where
  "centered rgb center y txt scale value max_chars c =
     (let chars = min (length txt) max_chars;
          width = saturating_mul chars (6 * scale) - scale
      in draw_text rgb (center - width div 2) y txt scale value max_chars c)"

section \<open>The picture\<close>

definition chars_of :: "string \<Rightarrow> nat list" where "chars_of s = List.map of_char s"

text \<open>\<^verbatim>\<open>{:02}\<close>: the decimal digits, padded with zeros to two places.\<close>

fun decimal :: "nat \<Rightarrow> nat list" where
  "decimal n = (if n < 10 then [48 + n] else decimal (n div 10) @ [48 + n mod 10])"

declare decimal.simps [simp del]

definition two_digits :: "nat \<Rightarrow> nat list" where
  "two_digits n = replicate (2 - length (decimal n)) 48 @ decimal n"

definition draw_heading ::
  "'p pixel_type \<Rightarrow> nat \<Rightarrow> nat \<Rightarrow> bool \<Rightarrow> nat \<Rightarrow> 'p canvas \<Rightarrow> view_error + 'p canvas" where
  "draw_heading rgb width height starting pad c =
     and_then (rounded rgb pad 32 30 30 8 ACCENT c) (\<lambda>c.
     and_then (draw_text rgb (pad + 8) 40 (chars_of ''N'') 2 BG 1 c) (\<lambda>c.
     and_then (draw_text rgb (pad + 44) 39 (chars_of ''NextCore'') 3 WHITE 8 c) (\<lambda>c.
     and_then (draw_text rgb (pad + 45) 69 (chars_of ''BOOT MANAGER'') 1 MUTED 20 c) (\<lambda>c.
     and_then (v_sub width (pad * 2)) (\<lambda>inner.
     and_then (rect rgb pad 100 inner 1 LINE c) (\<lambda>c.
     let title_y = (if 600 \<le> height then 142 else 123) in
     and_then (centered rgb (width div 2) title_y
        (chars_of (if starting then ''Starting selected system'' else ''Choose your system''))
        (if 900 \<le> width then 3 else 2) WHITE 35 c) (\<lambda>c.
     centered rgb (width div 2) (title_y + 34) (chars_of ''Your next session starts here'') 1 MUTED 40 c)))))))"

text \<open>The tile of one entry: its frame, its icon and its labels.\<close>

definition draw_tile ::
  "'p pixel_type \<Rightarrow> nat list list \<Rightarrow> nat list \<Rightarrow> nat \<Rightarrow> bool \<Rightarrow> nat \<Rightarrow> nat \<Rightarrow> nat \<Rightarrow> nat \<Rightarrow> nat \<Rightarrow> nat \<Rightarrow>
   'p canvas \<Rightarrow> nat \<Rightarrow> view_error + 'p canvas" where
  "draw_tile rgb names volume selected starting tile_w tile_h tile_y start_x first gap c slot =
     (let index = first + slot;
          x = start_x + slot * (tile_w + gap);
          active = (index = selected)
      in
      and_then (rounded rgb x tile_y tile_w tile_h 14 (if active then ACCENT else LINE) c) (\<lambda>c.
      and_then (v_sub tile_w 4) (\<lambda>w4.
      and_then (v_sub tile_h 4) (\<lambda>h4.
      and_then (rounded rgb (x + 2) (tile_y + 2) w4 h4 12 (if active then 0x1c2723 else TILE) c) (\<lambda>c.
      and_then (if active
                then draw_text rgb (x + 18) (tile_y + 18)
                  (chars_of (if starting then ''STARTING'' else ''SELECTED'')) 1 ACCENT 12 c
                else Inr c) (\<lambda>c.
      let center = x + tile_w div 2;
          icon_y = tile_y + (if 180 < tile_h then 61 else 42)
      in
      and_then (v_sub center 30) (\<lambda>icon_x.
      and_then (rounded rgb icon_x icon_y 60 43 7 (if active then 0x476458 else 0x353c46) c) (\<lambda>c.
      and_then (v_sub center 20) (\<lambda>slot_x.
      and_then (rect rgb slot_x (icon_y + 11) 40 2 (if active then ACCENT else MUTED) c) (\<lambda>c.
      and_then (rect rgb (center + 14) (icon_y + 30) 6 3 (if active then ACCENT else MUTED) c) (\<lambda>c.
      let label_y = icon_y + (if 180 < tile_h then 66 else 57) in
      if length names \<le> index then Inl V_Panic
      else
      and_then (v_sub tile_w 28) (\<lambda>inner.
      and_then (centered rgb center label_y (names ! index) 2 WHITE (inner div 12) c) (\<lambda>c.
      and_then (centered rgb center (label_y + 27) volume 1 MUTED (inner div 6) c) (\<lambda>c.
      and_then (v_sub (tile_y + tile_h) 22) (\<lambda>number_y.
      centered rgb center number_y
        (two_digits (index + 1) @ chars_of '' / '' @ two_digits (length names)) 1
        (if active then ACCENT else MUTED) 12 c)))))))))))))))"

definition draw_footer ::
  "'p pixel_type \<Rightarrow> nat \<Rightarrow> nat \<Rightarrow> nat \<Rightarrow> 'p canvas \<Rightarrow> view_error + 'p canvas" where
  "draw_footer rgb width height pad c =
     and_then (v_sub height 46) (\<lambda>footer.
     and_then (v_sub footer 20) (\<lambda>rule_y.
     and_then (v_sub width (pad * 2)) (\<lambda>inner.
     and_then (rect rgb pad rule_y inner 1 LINE c) (\<lambda>c.
     and_then (draw_text rgb pad footer (chars_of ''ARROWS / TAB  Choose'') 1 MUTED 24 c) (\<lambda>c.
     and_then (centered rgb (width div 2) footer (chars_of ''ENTER  Boot'') 1 ACCENT 14 c) (\<lambda>c.
     let esc = chars_of ''ESC  Cancel'' in
     and_then (v_sub width pad) (\<lambda>right.
     and_then (v_sub right (length esc * 6)) (\<lambda>esc_x.
     draw_text rgb esc_x footer esc 1 MUTED 14 c))))))))"

text \<open>How many tiles fit, and the first entry that is shown.\<close>

definition visible_tiles :: "nat \<Rightarrow> nat \<Rightarrow> nat" where
  "visible_tiles width number =
     min (if 1080 \<le> width then 3 else if 740 \<le> width then 2 else 1) number"

definition first_visible :: "nat \<Rightarrow> nat \<Rightarrow> nat \<Rightarrow> view_error + nat" where
  "first_visible selected visible number =
     and_then (v_sub number visible) (\<lambda>last_first. Inr (min (selected - visible div 2) last_first))"

definition tile_width :: "nat \<Rightarrow> nat \<Rightarrow> nat \<Rightarrow> nat \<Rightarrow> view_error + nat" where
  "tile_width width pad gap visible =
     and_then (v_sub width (pad * 2)) (\<lambda>inner.
     and_then (v_sub visible 1) (\<lambda>gaps.
     and_then (v_sub inner (gap * gaps)) (\<lambda>room.
     if visible = 0 then Inl V_Panic else Inr (min (room div visible) 280))))"

definition render ::
  "'p pixel_type \<Rightarrow> (nat \<Rightarrow> bool) \<Rightarrow> nat \<Rightarrow> nat \<Rightarrow> nat list list \<Rightarrow> nat list \<Rightarrow> nat \<Rightarrow> bool \<Rightarrow>
   view_error + 'p list" where
  "render rgb R width height names volume selected starting =
     and_then (ok_or (usize_mul width height) V_Dimensions) (\<lambda>pixel_count.
     if width < 640 \<or> height < 480 \<or> 4096 < width \<or> 2160 < height \<or> MAX_PIXELS < pixel_count
     then Inl V_Dimensions
     else if names = [] \<or> 64 < length names \<or> length names \<le> selected then Inl V_Selection
     else if \<not> R pixel_count then Inl V_Allocation
     else
     let c = \<lparr> cv_pixels = replicate pixel_count (color rgb BG), cv_width = width, cv_height = height \<rparr>;
         pad = (if 900 \<le> width then 56 else 32)
     in
     and_then (draw_heading rgb width height starting pad c) (\<lambda>c.
     let visible = visible_tiles width (length names); gap = 20 in
     and_then (tile_width width pad gap visible) (\<lambda>tile_w.
     let tile_h = (if 600 \<le> height then 236 else 164) in
     and_then (if 600 \<le> height
               then and_then (v_sub height tile_h) (\<lambda>rest. Inr (rest div 2 + 32)) else Inr 185) (\<lambda>tile_y.
     and_then (v_sub visible 1) (\<lambda>gaps.
     let all_w = visible * tile_w + gaps * gap in
     and_then (v_sub width all_w) (\<lambda>rest.
     let start_x = rest div 2 in
     and_then (first_visible selected visible (length names)) (\<lambda>first.
     and_then (try_fold (draw_tile rgb names volume selected starting tile_w tile_h tile_y start_x first gap)
        c [0..<visible]) (\<lambda>c.
     and_then (draw_footer rgb width height pad c) (\<lambda>c.
     Inr (cv_pixels c))))))))))"

end
