(* ===== verification/Boot_Picker_Proofs.thy ===== *)
theory Boot_Picker_Proofs
  imports Boot_Picker
begin

text \<open>
  The menu reaches every entry and never leaves the list; the picture is always drawn, stays in
  its pixels, and text stays in the boxes of its glyphs.
\<close>

section \<open>Navigation\<close>

definition presses :: "nat \<Rightarrow> nat \<Rightarrow> picker_action list \<Rightarrow> nat" where
  "presses number selected actions = foldl (\<lambda>s a. snd (navigate s number a)) selected actions"

lemma navigate_stays: "selected < number \<Longrightarrow> snd (navigate selected number a) < number"
  by (cases a) (auto simp: navigate_def)

lemma presses_stay: "selected < number \<Longrightarrow> presses number selected actions < number"
  by (induction actions arbitrary: selected) (auto simp: presses_def navigate_stays)

lemma presses_next:
  "selected < number \<Longrightarrow> presses number selected (replicate k NextEntry) = (selected + k) mod number"
proof (induction k arbitrary: selected)
  case (Suc k)
  have "presses number selected (replicate (Suc k) NextEntry) =
      presses number ((selected + 1) mod number) (replicate k NextEntry)"
    using Suc.prems by (simp add: presses_def navigate_def)
  also have "\<dots> = ((selected + 1) mod number + k) mod number"
    using Suc.prems by (intro Suc.IH) simp
  finally show ?case by (simp add: mod_add_left_eq)
qed (simp add: presses_def)

text \<open>
  C31. Whatever entry is selected, the next key reaches every entry in fewer presses than there
  are entries, and the boot key there boots that entry; and no keys at all leave the list, so that
  an entry that is booted is one of the list.
\<close>

theorem navigate_reaches:
  assumes "selected < number" and "wanted < number"
  shows "(\<exists>k < number. presses number selected (replicate k NextEntry) = wanted \<and>
      navigate wanted number Boot = (BootEntry wanted, wanted)) \<and>
    (\<forall>actions. \<exists>entry < number.
      navigate (presses number selected actions) number Boot = (BootEntry entry, entry))"
proof
  let ?k = "(wanted + (number - selected)) mod number"
  have "(selected + ?k) mod number = (selected + (wanted + (number - selected))) mod number"
    by (simp add: mod_add_right_eq)
  also have "selected + (wanted + (number - selected)) = wanted + number" using assms by simp
  finally have "(selected + ?k) mod number = wanted" using assms by simp
  moreover have "?k < number" using assms by simp
  ultimately show "\<exists>k < number. presses number selected (replicate k NextEntry) = wanted \<and>
      navigate wanted number Boot = (BootEntry wanted, wanted)"
    using assms by (intro exI [of _ ?k]) (simp add: presses_next navigate_def)
  show "\<forall>actions. \<exists>entry < number.
      navigate (presses number selected actions) number Boot = (BootEntry entry, entry)"
  proof
    fix actions
    have "presses number selected actions < number" by (rule presses_stay [OF assms(1)])
    then show "\<exists>entry < number. navigate (presses number selected actions) number Boot = (BootEntry entry, entry)"
      by (simp add: navigate_def)
  qed
qed

lemma navigate_reaches_witness:
  "\<exists>k. presses 3 1 (replicate k NextEntry) = 0"
  using navigate_reaches [of 1 3 0] by auto

section \<open>Rectangles\<close>

definition canvas_ok :: "'p canvas \<Rightarrow> bool" where
  "canvas_ok c \<longleftrightarrow> length (cv_pixels c) = cv_width c * cv_height c \<and> cv_width c < 2 ^ 64 \<and> cv_height c < 2 ^ 64"

definition pixel :: "'p canvas \<Rightarrow> nat \<Rightarrow> nat \<Rightarrow> 'p" where
  "pixel c px py = cv_pixels c ! (py * cv_width c + px)"

definition same_frame :: "'p canvas \<Rightarrow> 'p canvas \<Rightarrow> bool" where
  "same_frame c c' \<longleftrightarrow> canvas_ok c' \<and> cv_width c' = cv_width c \<and> cv_height c' = cv_height c"

lemma row_major:
  fixes px py row x right W :: nat
  assumes "px < W" and "right \<le> W"
  shows "row * W + x \<le> py * W + px \<and> py * W + px < row * W + right \<longleftrightarrow> py = row \<and> x \<le> px \<and> px < right"
proof -
  have next_row: "a * W + W \<le> b * W" if "a < b" for a b
    using mult_le_mono1 [of "Suc a" b W] that by simp
  show ?thesis
  proof (cases py row rule: linorder_cases)
    case less
    then show ?thesis using next_row [of py row] assms by simp
  next
    case greater
    then show ?thesis using next_row [of row py] assms by simp
  qed auto
qed

lemma pixel_inside:
  "canvas_ok c \<Longrightarrow> px < cv_width c \<Longrightarrow> py < cv_height c \<Longrightarrow>
   py * cv_width c + px < length (cv_pixels c)"
  using mult_le_mono1 [of "Suc py" "cv_height c" "cv_width c"]
  by (simp add: canvas_ok_def mult.commute)

lemma rect_row_exact:
  assumes ok: "canvas_ok c" and r: "row < cv_height c" "x < right" "right \<le> cv_width c"
  shows "\<exists>c'. rect_row rgb x right v c row = Inr c' \<and> same_frame c c' \<and>
    (\<forall>px py. px < cv_width c \<and> py < cv_height c \<longrightarrow>
      pixel c' px py = (if py = row \<and> x \<le> px \<and> px < right then color rgb v else pixel c px py))"
proof -
  let ?a = "row * cv_width c + x" and ?b = "row * cv_width c + right"
  have b: "?b \<le> length (cv_pixels c)"
    using mult_le_mono1 [of "Suc row" "cv_height c" "cv_width c"] ok r
    by (simp add: canvas_ok_def mult.commute)
  let ?c = "c\<lparr> cv_pixels := put_bytes (cv_pixels c) ?a (replicate (?b - ?a) (color rgb v)) \<rparr>"
  have "rect_row rgb x right v c row = Inr ?c"
    using b r by (simp add: rect_row_def fill_slice_def)
  moreover have "same_frame c ?c" using ok b r by (simp add: same_frame_def canvas_ok_def)
  moreover have "pixel ?c px py = (if py = row \<and> x \<le> px \<and> px < right then color rgb v else pixel c px py)"
    if p: "px < cv_width c" "py < cv_height c" for px py
    using nth_put_bytes [of ?a "replicate (?b - ?a) (color rgb v)" "cv_pixels c" "py * cv_width c + px"]
      pixel_inside [OF ok p] row_major [OF p(1) r(3), of row x py] b r
    by (simp add: pixel_def) auto
  ultimately show ?thesis by blast
qed

lemma try_fold_append: "try_fold f s (xs @ ys) = and_then (try_fold f s xs) (\<lambda>s. try_fold f s ys)"
  by (induction xs arbitrary: s) (auto simp: and_then_def split: sum.splits)

lemma rect_rows_exact:
  assumes ok: "canvas_ok c" and r: "x < right" "right \<le> cv_width c" and "y \<le> bottom" and "bottom \<le> cv_height c"
  shows "\<exists>c'. try_fold (rect_row rgb x right v) c [y..<bottom] = Inr c' \<and> same_frame c c' \<and>
    (\<forall>px py. px < cv_width c \<and> py < cv_height c \<longrightarrow>
      pixel c' px py = (if x \<le> px \<and> px < right \<and> y \<le> py \<and> py < bottom then color rgb v else pixel c px py))"
  using assms(4,5)
proof (induction bottom rule: dec_induct)
  case base
  then show ?case using ok by (auto simp: same_frame_def)
next
  case (step n)
  then obtain c1 where 1: "try_fold (rect_row rgb x right v) c [y..<n] = Inr c1" "same_frame c c1"
    "\<forall>px py. px < cv_width c \<and> py < cv_height c \<longrightarrow>
      pixel c1 px py = (if x \<le> px \<and> px < right \<and> y \<le> py \<and> py < n then color rgb v else pixel c px py)"
    by auto
  obtain c2 where 2: "rect_row rgb x right v c1 n = Inr c2" "same_frame c1 c2"
    "\<forall>px py. px < cv_width c1 \<and> py < cv_height c1 \<longrightarrow>
      pixel c2 px py = (if py = n \<and> x \<le> px \<and> px < right then color rgb v else pixel c1 px py)"
    using rect_row_exact [of c1 n x right rgb v] 1(2) r step by (auto simp: same_frame_def)
  have "try_fold (rect_row rgb x right v) c [y..<Suc n] = Inr c2"
    using step 1 2 by (simp add: try_fold_append)
  then show ?case using 1 2 step by (auto simp: same_frame_def less_Suc_eq)
qed

text \<open>A drawing operation that succeeds on every canvas and changes only a box of it.\<close>

definition draws_in :: "nat \<Rightarrow> nat \<Rightarrow> nat \<Rightarrow> nat \<Rightarrow> ('p canvas \<Rightarrow> view_error + 'p canvas) \<Rightarrow> bool" where
  "draws_in x0 y0 x1 y1 f \<longleftrightarrow> (\<forall>c. canvas_ok c \<longrightarrow>
     (\<exists>c'. f c = Inr c' \<and> same_frame c c' \<and>
       (\<forall>px py. px < cv_width c \<and> py < cv_height c \<and> \<not> (x0 \<le> px \<and> px < x1 \<and> y0 \<le> py \<and> py < y1) \<longrightarrow>
         pixel c' px py = pixel c px py)))"

text \<open>
  A rectangle is painted exactly: the pixels of it that the canvas has take the colour, all others
  keep theirs.
\<close>

lemma rect_exact:
  assumes ok: "canvas_ok c"
  shows "\<exists>c'. rect rgb x y w h v c = Inr c' \<and> same_frame c c' \<and>
    (\<forall>px py. px < cv_width c \<and> py < cv_height c \<longrightarrow>
      pixel c' px py = (if x \<le> px \<and> px < x + w \<and> y \<le> py \<and> py < y + h then color rgb v else pixel c px py))"
proof -
  have m: "min (saturating_add a n) W = min (a + n) W" if "W < 2 ^ 64" for a n W
    using that by (simp add: saturating_add_def min_def)
  let ?r = "min (x + w) (cv_width c)" and ?b = "min (y + h) (cv_height c)"
  have e: "rect rgb x y w h v c = (if ?r \<le> x \<or> ?b \<le> y then Inr c
      else try_fold (rect_row rgb x ?r v) c [y..<?b])"
    using ok m by (simp add: rect_def Let_def canvas_ok_def)
  show ?thesis
  proof (cases "?r \<le> x \<or> ?b \<le> y")
    case True
    then show ?thesis using ok by (auto simp: e same_frame_def)
  next
    case False
    then have "x < ?r" "?r \<le> cv_width c" "y \<le> ?b" "?b \<le> cv_height c" by auto
    from rect_rows_exact [OF ok this, of rgb v] False show ?thesis unfolding e by auto
  qed
qed

lemma rect_draws: "draws_in x y (x + w) (y + h) (rect rgb x y w h v)"
  unfolding draws_in_def
proof (intro allI impI)
  fix c :: "'a canvas" assume "canvas_ok c"
  from rect_exact [OF this, of rgb x y w h v]
  show "\<exists>c'. rect rgb x y w h v c = Inr c' \<and> same_frame c c' \<and>
       (\<forall>px py. px < cv_width c \<and> py < cv_height c \<and> \<not> (x \<le> px \<and> px < x + w \<and> y \<le> py \<and> py < y + h) \<longrightarrow>
         pixel c' px py = pixel c px py)" by auto
qed

text \<open>How such operations are put together.\<close>

lemma draws_widen:
  "draws_in x0 y0 x1 y1 f \<Longrightarrow> u0 \<le> x0 \<Longrightarrow> v0 \<le> y0 \<Longrightarrow> x1 \<le> u1 \<Longrightarrow> y1 \<le> v1 \<Longrightarrow> draws_in u0 v0 u1 v1 f"
  unfolding draws_in_def by (meson dual_order.trans order.strict_trans2)

lemma draws_nothing: "draws_in x0 y0 x1 y1 Inr"
  by (auto simp: draws_in_def same_frame_def)

lemma draws_then:
  assumes "draws_in x0 y0 x1 y1 f" and "draws_in x0 y0 x1 y1 g"
  shows "draws_in x0 y0 x1 y1 (\<lambda>c. and_then (f c) g)"
  unfolding draws_in_def
proof (intro allI impI)
  fix c :: "'a canvas" assume ok: "canvas_ok c"
  then obtain c1 where 1: "f c = Inr c1" "same_frame c c1"
    "\<forall>px py. px < cv_width c \<and> py < cv_height c \<and> \<not> (x0 \<le> px \<and> px < x1 \<and> y0 \<le> py \<and> py < y1) \<longrightarrow>
      pixel c1 px py = pixel c px py" using assms(1) unfolding draws_in_def by blast
  then obtain c2 where 2: "g c1 = Inr c2" "same_frame c1 c2"
    "\<forall>px py. px < cv_width c1 \<and> py < cv_height c1 \<and> \<not> (x0 \<le> px \<and> px < x1 \<and> y0 \<le> py \<and> py < y1) \<longrightarrow>
      pixel c2 px py = pixel c1 px py" using assms(2) unfolding draws_in_def same_frame_def by blast
  show "\<exists>c'. and_then (f c) g = Inr c' \<and> same_frame c c' \<and>
       (\<forall>px py. px < cv_width c \<and> py < cv_height c \<and> \<not> (x0 \<le> px \<and> px < x1 \<and> y0 \<le> py \<and> py < y1) \<longrightarrow>
         pixel c' px py = pixel c px py)"
    using 1 2 by (auto simp: same_frame_def)
qed

lemma draws_fold:
  assumes "\<And>a. a \<in> set xs \<Longrightarrow> draws_in x0 y0 x1 y1 (\<lambda>c. f c a)"
  shows "draws_in x0 y0 x1 y1 (\<lambda>c. try_fold f c xs)"
  using assms
proof (induction xs)
  case Nil
  then show ?case using draws_nothing by simp
next
  case (Cons a xs)
  then show ?case using draws_then [of x0 y0 x1 y1 "\<lambda>c. f c a" "\<lambda>c. try_fold f c xs"] by simp
qed

section \<open>Shapes and text\<close>

lemma rounded_draws: "draws_in x y (x + w) (y + h) (rounded rgb x y w h r v)"
  unfolding rounded_def
proof (rule draws_fold)
  fix dy assume "dy \<in> set [0..<h]"
  then have dy: "dy < h" by simp
  have row: "draws_in x y (x + w) (y + h) (rect rgb (x + i) (y + dy) (w - 2 * i) 1 v)" for i
  proof (cases "2 * i \<le> w")
    case True
    then show ?thesis using draws_widen [OF rect_draws [of "x + i" "y + dy" "w - 2 * i" 1 rgb v]] dy by simp
  next
    case False
    then have "rect rgb (x + i) (y + dy) (w - 2 * i) 1 v = Inr"
      by (auto simp: fun_eq_iff rect_def Let_def saturating_add_def)
    then show ?thesis by (simp add: draws_nothing)
  qed
  show "draws_in x y (x + w) (y + h) (\<lambda>c. rounded_row rgb x y w h r v c dy)"
    using dy row by (auto simp: rounded_row_def v_sub_def Let_def)
qed

lemma length_glyph: "length (glyph ch) = 7"
proof -
  have "\<forall>p \<in> set GLYPHS. length (snd p) = 7" by (simp add: GLYPHS_def)
  then show ?thesis
    by (fastforce simp: glyph_def split: option.splits dest!: map_of_SomeD)
qed

lemma draw_bits_draws:
  assumes "row < 7"
  shows "draws_in x y (x + 5 * scale) (y + 7 * scale) (\<lambda>c. draw_bits rgb x y scale v c (row, bits))"
  unfolding draw_bits_def prod.case
proof (rule draws_fold)
  fix col assume "col \<in> set [0..<5 :: nat]"
  then have "col + 1 \<le> 5" by simp
  then have c: "col * scale + scale \<le> 5 * scale"
    using mult_le_mono1 [of "col + 1" 5 scale] by (simp add: algebra_simps)
  have r: "row * scale + scale \<le> 7 * scale"
    using mult_le_mono1 [of "row + 1" 7 scale] assms by (simp add: algebra_simps)
  have "draws_in x y (x + 5 * scale) (y + 7 * scale) (rect rgb (x + col * scale) (y + row * scale) scale scale v)"
    by (rule draws_widen [OF rect_draws]) (use c r in auto)
  then show "draws_in x y (x + 5 * scale) (y + 7 * scale)
      (\<lambda>c. draw_bit rgb x (y + row * scale) scale v bits c col)"
    unfolding draw_bit_def by (cases "bits AND push_bit (4 - col) 1 \<noteq> 0") (simp_all add: draws_nothing)
qed

text \<open>
  No character writes outside its box: a text changes no pixel outside the boxes of the characters
  that are shown of it, whatever the characters are.
\<close>

lemma draw_text_draws:
  "draws_in x y (x + 6 * scale * min (length txt) max_chars) (y + 7 * scale) (draw_text rgb x y txt scale v max_chars)"
  unfolding draw_text_def Let_def
proof (rule draws_fold)
  let ?n = "min (length txt) max_chars"
  fix p assume "p \<in> set (enumerate 0 (take max_chars txt))"
  then have "fst p < ?n" by (simp add: in_set_enumerate_eq)
  then obtain i ch where p: "p = (i, ch)" "i < ?n" using that [of "fst p" "snd p"] by simp
  have "6 * scale * i + 6 * scale \<le> 6 * scale * ?n"
    using mult_le_mono2 [of "i + 1" ?n "6 * scale"] p by (simp add: algebra_simps)
  then have box: "draws_in x y (x + 6 * scale * ?n) (y + 7 * scale)
      (\<lambda>c. draw_bits rgb (x + i * 6 * scale) y scale v c (row, bits))" if "row < 7" for row bits
    by (intro draws_widen [OF draw_bits_draws [OF that]]) (auto simp: algebra_simps)
  show "draws_in x y (x + 6 * scale * ?n) (y + 7 * scale)
      (\<lambda>c. draw_char rgb x y scale v max_chars (max_chars < length txt) c p)"
    unfolding p(1) draw_char_def prod.case Let_def
    by (rule draws_fold) (auto simp: in_set_enumerate_eq length_glyph intro: box)
qed

text \<open>Operations that succeed, wherever they draw.\<close>

definition paints :: "('p canvas \<Rightarrow> view_error + 'p canvas) \<Rightarrow> bool" where
  "paints f \<longleftrightarrow> (\<forall>c. canvas_ok c \<longrightarrow> (\<exists>c'. f c = Inr c' \<and> same_frame c c'))"

lemma draws_paints: "draws_in x0 y0 x1 y1 f \<Longrightarrow> paints f"
  unfolding draws_in_def paints_def by blast

lemma paints_then: "paints f \<Longrightarrow> paints g \<Longrightarrow> paints (\<lambda>c. and_then (f c) g)"
  unfolding paints_def same_frame_def by fastforce

lemma paints_unfold: "(\<And>c. f c = g c) \<Longrightarrow> paints g \<Longrightarrow> paints f"
  by (simp add: paints_def)

lemma paints_if: "paints f \<Longrightarrow> paints g \<Longrightarrow> paints (\<lambda>c. if b then f c else g c)"
  by (cases b) simp_all

lemma paints_fold:
  assumes "\<And>a. a \<in> set xs \<Longrightarrow> paints (\<lambda>c. f c a)"
  shows "paints (\<lambda>c. try_fold f c xs)"
  using assms
proof (induction xs)
  case (Cons a xs)
  then show ?case using paints_then [of "\<lambda>c. f c a" "\<lambda>c. try_fold f c xs"] by simp
qed (auto simp: paints_def same_frame_def)

lemma centered_text:
  "centered rgb x y txt scale v max_chars =
   draw_text rgb (x - (saturating_mul (min (length txt) max_chars) (6 * scale) - scale) div 2) y txt scale v max_chars"
  by (rule ext) (simp add: centered_def Let_def)

lemma paints_basic:
  "paints Inr" "paints (rect rgb x y w h v)" "paints (rounded rgb x y w h r v)"
  "paints (draw_text rgb x y txt scale v max_chars)" "paints (centered rgb x y txt scale v max_chars)"
  using draws_paints [OF draws_nothing] draws_paints [OF rect_draws] draws_paints [OF rounded_draws]
    draws_paints [OF draw_text_draws]
  by (auto simp: centered_text)

lemma v_sub_le: "b \<le> a \<Longrightarrow> v_sub a b = Inr (a - b)"
  by (simp add: v_sub_def)

section \<open>The picture\<close>

lemmas paints_intro = paints_then paints_if paints_basic paints_fold

lemma heading_paints:
  assumes "pad * 2 \<le> width"
  shows "paints (draw_heading rgb width height starting pad)"
proof -
  show ?thesis
    apply (rule paints_unfold, rule draw_heading_def)
    unfolding v_sub_le [OF assms] and_then_simps Let_def
    by (intro paints_intro)
qed

lemma footer_paints:
  assumes "640 \<le> width" and "480 \<le> height" and "pad \<le> 56"
  shows "paints (draw_footer rgb width height pad)"
proof -
  have s: "v_sub height 46 = Inr (height - 46)" "v_sub (height - 46) 20 = Inr (height - 46 - 20)"
    "v_sub width (pad * 2) = Inr (width - pad * 2)" "v_sub width pad = Inr (width - pad)"
    "v_sub (width - pad) (length (chars_of ''ESC  Cancel'') * 6) = Inr (width - pad - 66)"
    using assms by (simp_all add: v_sub_def chars_of_def)
  show ?thesis
    apply (rule paints_unfold, rule draw_footer_def)
    unfolding s and_then_simps Let_def
    by (intro paints_intro)
qed

lemma tile_paints:
  assumes "tile_w = 280" and "164 \<le> tile_h" and "first + slot < length names"
  shows "paints (\<lambda>c. draw_tile rgb names volume selected starting tile_w tile_h tile_y start_x first gap c slot)"
proof -
  have s: "v_sub tile_w 4 = Inr 276" "v_sub tile_h 4 = Inr (tile_h - 4)" "v_sub tile_w 28 = Inr 252"
    "v_sub (x + tile_w div 2) 30 = Inr (x + 110)" "v_sub (x + tile_w div 2) 20 = Inr (x + 120)"
    "v_sub (tile_y + tile_h) 22 = Inr (tile_y + tile_h - 22)" "\<not> length names \<le> first + slot" for x
    using assms by (simp_all add: v_sub_def)
  show ?thesis
    unfolding draw_tile_def Let_def s and_then_simps if_not_P [OF s(7)]
    by (intro paints_intro)
qed

text \<open>Where the entries are: a tile for the selected one is always among those drawn.\<close>

lemma first_visible_Inr:
  assumes "0 < visible" and "visible \<le> number" and "selected < number"
  shows "\<exists>first. first_visible selected visible number = Inr first \<and>
    first \<le> selected \<and> selected < first + visible \<and> first + visible \<le> number"
  using assms by (auto simp: first_visible_def v_sub_def min_def)

lemma tile_width_280:
  assumes "640 \<le> width" and "0 < number"
  shows "tile_width width (if 900 \<le> width then 56 else 32) 20 (visible_tiles width number) = Inr 280"
proof -
  let ?pad = "if 900 \<le> width then 56 else 32 :: nat" and ?v = "visible_tiles width number"
  have v: "0 < ?v" "?v \<le> 3" "740 \<le> width \<or> ?v = 1" "1080 \<le> width \<or> ?v \<le> 2"
    using assms by (auto simp: visible_tiles_def)
  have room: "280 * ?v + 20 * (?v - 1) + ?pad * 2 \<le> width" using v assms by (cases "900 \<le> width") auto
  then have "280 * ?v \<le> width - ?pad * 2 - 20 * (?v - 1)" by simp
  then have "280 * ?v div ?v \<le> (width - ?pad * 2 - 20 * (?v - 1)) div ?v" by (rule div_le_mono)
  then have "280 \<le> (width - ?pad * 2 - 20 * (?v - 1)) div ?v" using v by simp
  moreover have "v_sub width (?pad * 2) = Inr (width - ?pad * 2)" "v_sub ?v 1 = Inr (?v - 1)"
    "v_sub (width - ?pad * 2) (20 * (?v - 1)) = Inr (width - ?pad * 2 - 20 * (?v - 1))"
    using room v by (auto simp: v_sub_def)
  ultimately show ?thesis using v by (simp add: tile_width_def)
qed

lemma render_paints:
  assumes d: "640 \<le> width" "width \<le> 4096" "480 \<le> height" "height \<le> 2160"
    and n: "0 < length names" "selected < length names" and R: "R (width * height)"
    and len: "length names \<le> 64"
  shows "\<exists>pixels. render rgb R width height names volume selected starting = Inr pixels \<and>
    length pixels = width * height"
proof -
  let ?pad = "if 900 \<le> width then 56 else 32 :: nat" and ?n = "length names"
  let ?v = "visible_tiles width ?n" and ?h = "if 600 \<le> height then 236 else 164 :: nat"
  let ?y = "if 600 \<le> height then (height - 236) div 2 + 32 else 185"
  let ?c = "\<lparr> cv_pixels = replicate (width * height) (color rgb BG), cv_width = width, cv_height = height \<rparr>"
  have "width * height \<le> 4096 * 2160" using d by (intro mult_le_mono) auto
  then have m: "usize_mul width height = Some (width * height)" "\<not> MAX_PIXELS < width * height"
    by (auto simp: usize_mul_def MAX_PIXELS_def)
  have v: "0 < ?v" "?v \<le> ?n" using n by (auto simp: visible_tiles_def)
  obtain first where first: "first_visible selected ?v ?n = Inr first" "first + ?v \<le> ?n"
    using first_visible_Inr [OF v n(2)] by blast
  have "740 \<le> width \<or> ?v = 1" "1080 \<le> width \<or> ?v \<le> 2" "?v \<le> 3" using n by (auto simp: visible_tiles_def)
  then have all_w: "?v * 280 + (?v - 1) * 20 \<le> width" using d v by auto
  let ?x = "(width - (?v * 280 + (?v - 1) * 20)) div 2"
  have ty: "(if 600 \<le> height then and_then (v_sub height ?h) (\<lambda>rest. Inr (rest div 2 + 32)) else Inr 185) = Inr ?y"
    using d by (simp add: v_sub_def)
  have ok: "canvas_ok ?c" using d by (simp add: canvas_ok_def)
  have tiles: "paints (\<lambda>c. try_fold (draw_tile rgb names volume selected starting 280 ?h ?y ?x first 20) c [0..<?v])"
    by (rule paints_fold, rule tile_paints) (use first in auto)
  have pad: "?pad * 2 \<le> width" "?pad \<le> 56" using d by auto
  obtain c1 where 1: "draw_heading rgb width height starting ?pad ?c = Inr c1" "same_frame ?c c1"
    using heading_paints [OF pad(1)] ok unfolding paints_def by blast
  obtain c2 where 2: "try_fold (draw_tile rgb names volume selected starting 280 ?h ?y ?x first 20) c1 [0..<?v] = Inr c2"
    "same_frame c1 c2" using tiles 1(2) unfolding paints_def same_frame_def by blast
  obtain c3 where 3: "draw_footer rgb width height ?pad c2 = Inr c3" "same_frame c2 c3"
    using footer_paints [OF d(1,3) pad(2)] 2(2) unfolding paints_def same_frame_def by blast
  have s: "v_sub ?v 1 = Inr (?v - 1)" "v_sub width (?v * 280 + (?v - 1) * 20) = Inr (width - (?v * 280 + (?v - 1) * 20))"
    using v all_w by (auto simp: v_sub_def)
  have guards: "\<not> (width < 640 \<or> height < 480 \<or> 4096 < width \<or> 2160 < height \<or> MAX_PIXELS < width * height)"
    "\<not> (names = [] \<or> 64 < ?n \<or> ?n \<le> selected)" "\<not> \<not> R (width * height)"
    using d n len R m by auto
  have "render rgb R width height names volume selected starting = Inr (cv_pixels c3)"
    unfolding render_def m(1) ok_or_simps and_then_simps if_not_P [OF guards(1)] if_not_P [OF guards(2)]
      if_not_P [OF guards(3)] Let_def 1(1) tile_width_280 [OF d(1) n(1)] ty s first(1) 2(1) 3(1) ..
  moreover have "length (cv_pixels c3) = width * height"
    using 1(2) 2(2) 3(2) by (simp add: same_frame_def canvas_ok_def)
  ultimately show ?thesis by blast
qed

text \<open>
  C32. The picture is drawn exactly when the screen is of a supported size, the list has between one
  and 64 entries with the selected one among them, and there is memory; it then has one pixel
  for every place of the screen. Nothing else ends the drawing: whatever the names and the volume
  are, no subtraction and no access to the pixels fails.
\<close>

theorem render_exact:
  "(case render rgb R width height names volume selected starting of
      Inr pixels \<Rightarrow> length pixels = width * height \<and>
        640 \<le> width \<and> width \<le> 4096 \<and> 480 \<le> height \<and> height \<le> 2160 \<and>
        length names \<le> 64 \<and> selected < length names \<and> R (width * height)
    | Inl V_Dimensions \<Rightarrow> width < 640 \<or> 4096 < width \<or> height < 480 \<or> 2160 < height
    | Inl V_Selection \<Rightarrow> length names \<le> selected \<or> 64 < length names
    | Inl V_Allocation \<Rightarrow> \<not> R (width * height)
    | Inl V_Panic \<Rightarrow> False)"
proof (cases "640 \<le> width \<and> width \<le> 4096 \<and> 480 \<le> height \<and> height \<le> 2160")
  case True
  then have "width * height \<le> 4096 * 2160" by (intro mult_le_mono) auto
  then have m: "usize_mul width height = Some (width * height)" "\<not> MAX_PIXELS < width * height"
    by (auto simp: usize_mul_def MAX_PIXELS_def)
  show ?thesis
  proof (cases "names = [] \<or> 64 < length names \<or> length names \<le> selected \<or> \<not> R (width * height)")
    case bad: True
    then show ?thesis using True m unfolding render_def by auto
  next
    case False
    with True render_paints [of width height names selected R rgb volume starting] show ?thesis by auto
  qed
next
  case False
  then show ?thesis unfolding render_def by (cases "usize_mul width height") (auto simp: usize_mul_def)
qed

end
