(* ===== verification/Arm64_Startup_Image.thy ===== *)
theory Arm64_Startup_Image
  imports Slices
begin

text \<open>
  Model of \<^verbatim>\<open>src/arm64_startup_image.rs\<close>: the two startup companions are parsed, placed one behind
  the other in a memory of the caller, and copied there. The memory is passed in and returned; the
  pieces of it that the code borrows mutably are taken out and put back. A sum that the code leaves
  unchecked and a slice index that fails are the error \<open>SI_Panic\<close>.
\<close>

section \<open>Data\<close>

definition SI_PAGE_SIZE :: u64 where "SI_PAGE_SIZE = 16 * 1024"
definition SI_MAX_FILE_SIZE :: nat where "SI_MAX_FILE_SIZE = 128 * 1024 * 1024"
definition SI_MAX_IMAGE_SIZE :: u64 where "SI_MAX_IMAGE_SIZE = 128 * 1024 * 1024"
definition SI_MAX_COMMANDS :: nat where "SI_MAX_COMMANDS = 4096"
definition SI_MAX_COMMAND_BYTES :: nat where "SI_MAX_COMMAND_BYTES = 1024 * 1024"
definition SI_MAX_SEGMENTS :: nat where "SI_MAX_SEGMENTS = 128"
definition LC_SEGMENT_64 :: u32 where "LC_SEGMENT_64 = 0x19"

datatype startup_image_error =
    SI_Truncated
  | SI_UnsupportedFormat
  | SI_UnsupportedCpu
  | SI_UnsupportedFileType
  | SI_UnsupportedCommand
  | SI_InvalidHeader
  | SI_InvalidCommand
  | SI_InvalidSegment
  | SI_OverlappingRange
  | SI_MissingSegments
  | SI_LimitExceeded
  | SI_AddressOverflow
  | SI_ArenaBounds
  | SI_AllocationFailed
  | SI_ReadbackMismatch
  | SI_Panic \<comment> \<open>a failed slice or sum; not a value of the source's enum\<close>

record image_placement =
  pl_physical_base :: u64
  pl_virtual_base :: u64
  pl_bytes :: nat
  pl_copied_bytes :: nat

record startup_placement =
  su_sptm :: image_placement
  su_txm :: image_placement
  su_occupied_end :: u64

record startup_segment =
  st_vmaddr :: u64
  st_vmsize :: u64
  st_fileoff :: nat
  st_filesize :: nat

record startup_image =
  si_source :: byte_string
  si_segments :: "startup_segment list"
  si_virtual_base :: u64
  si_span :: nat
  si_copied_bytes :: nat

section \<open>Bounded reading\<close>

definition si_bytes :: "byte_string \<Rightarrow> nat \<Rightarrow> nat \<Rightarrow> startup_image_error + byte_string" where
  "si_bytes source offset n =
     and_then (ok_or (usize_add offset n) SI_AddressOverflow) (\<lambda>stop.
     ok_or (get_range source offset stop) SI_Truncated)"

definition si_read32 :: "byte_string \<Rightarrow> nat \<Rightarrow> startup_image_error + u32" where
  "si_read32 source offset = and_then (si_bytes source offset 4) (\<lambda>b. Inr (from_le_bytes b))"

definition si_read64 :: "byte_string \<Rightarrow> nat \<Rightarrow> startup_image_error + u64" where
  "si_read64 source offset = and_then (si_bytes source offset 8) (\<lambda>b. Inr (from_le_bytes b))"

definition si_align_up :: "u64 \<Rightarrow> startup_image_error + u64" where
  "si_align_up value =
     ok_or (map_option (\<lambda>n. n AND NOT (SI_PAGE_SIZE - 1)) (checked_add value (SI_PAGE_SIZE - 1)))
       SI_AddressOverflow"

text \<open>An unchecked sum of 64-bit words.\<close>

definition si_plus :: "u64 \<Rightarrow> u64 \<Rightarrow> startup_image_error + u64" where
  "si_plus a b = ok_or (checked_add a b) SI_Panic"

definition si_overlaps :: "u64 \<Rightarrow> u64 \<Rightarrow> u64 \<Rightarrow> u64 \<Rightarrow> startup_image_error + bool" where
  "si_overlaps a a_len b b_len =
     (if a_len = 0 \<or> b_len = 0 then Inr False
      else
      and_then (si_plus b b_len) (\<lambda>b_end.
      if \<not> a < b_end then Inr False
      else and_then (si_plus a a_len) (\<lambda>a_end. Inr (b < a_end))))"

definition file_table :: "byte_string \<Rightarrow> u32 \<Rightarrow> u32 \<Rightarrow> nat \<Rightarrow> startup_image_error + unit" where
  "file_table source offset number width =
     and_then (ok_or (usize_mul (unat number) width) SI_AddressOverflow) (\<lambda>n.
     and_then (si_bytes source (unat offset) n) (\<lambda>_. Inr ()))"

section \<open>Segments\<close>

definition validate_section ::
  "byte_string \<Rightarrow> startup_segment \<Rightarrow> byte_string \<Rightarrow> startup_image_error + unit" where
  "validate_section source segm section =
     and_then (si_read64 section 32) (\<lambda>address.
     and_then (si_read64 section 40) (\<lambda>n.
     and_then (ok_or (checked_add address n) SI_AddressOverflow) (\<lambda>stop.
     and_then (si_plus (st_vmaddr segm) (st_vmsize segm)) (\<lambda>segment_end.
     and_then (if address < st_vmaddr segm \<or> segment_end < stop then Inr True
               else and_then (si_read32 section 52) (\<lambda>align. Inr (31 < align))) (\<lambda>invalid.
     if invalid then Inl SI_InvalidSegment
     else
     and_then (si_read32 section 64) (\<lambda>flags.
     let section_type = flags AND 0xff in
     and_then (if section_type \<notin> {0x1, 0xc, 0x12} \<and> n \<noteq> 0
               then
                 and_then (si_read32 section 48) (\<lambda>fileoff32.
                 let fileoff = ucast fileoff32 :: u64 in
                 and_then (ok_or (checked_add fileoff n) SI_AddressOverflow) (\<lambda>file_end.
                 and_then (ok_or (usize_add (st_fileoff segm) (st_filesize segm)) SI_Panic) (\<lambda>segment_file_end.
                 if unat fileoff < st_fileoff segm \<or> segment_file_end < unat file_end
                 then Inl SI_InvalidSegment else Inr ())))
               else Inr ()) (\<lambda>_.
     and_then (si_read32 section 56) (\<lambda>offset.
     and_then (si_read32 section 60) (\<lambda>number.
     and_then (file_table source offset number 8) (\<lambda>_. Inr ()))))))))))"

text \<open>The loop over the section headers of a segment command, each 80 bytes.\<close>

definition check_section ::
  "byte_string \<Rightarrow> startup_segment \<Rightarrow> byte_string \<Rightarrow> nat \<Rightarrow> startup_image_error + unit" where
  "check_section source segm cmd index =
     and_then (ok_or (get_range cmd (72 + index * 80) (72 + (index + 1) * 80)) SI_Panic)
       (validate_section source segm)"

text \<open>The variables of the loop over the load commands.\<close>

record startup_state =
  sc_segments :: "startup_segment list"
  sc_symbol_count :: "u32 option"
  sc_dysymtab :: "(u32 \<times> u32) list option"
  sc_saw_thread :: bool
  sc_pagezero_end :: "u64 option"

text \<open>\<^verbatim>\<open>b"__PAGEZERO\0\0\0\0\0\0"\<close>.\<close>

definition PAGEZERO_NAME :: byte_string where
  "PAGEZERO_NAME = [0x5f, 0x5f, 0x50, 0x41, 0x47, 0x45, 0x5a, 0x45, 0x52, 0x4f, 0, 0, 0, 0, 0, 0]"

definition pagezero_command ::
  "byte_string \<Rightarrow> nat \<Rightarrow> startup_segment \<Rightarrow> startup_state \<Rightarrow> startup_image_error + startup_state" where
  "pagezero_command cmd nsects segm st =
     and_then (if sc_pagezero_end st \<noteq> None \<or> st_vmaddr segm \<noteq> 0 \<or> st_vmsize segm = 0 \<or>
                  st_fileoff segm \<noteq> 0 \<or> st_filesize segm \<noteq> 0 then Inr True
               else
               and_then (si_read32 cmd 56) (\<lambda>maxprot. if maxprot \<noteq> 0 then Inr True
               else
               and_then (si_read32 cmd 60) (\<lambda>initprot. if initprot \<noteq> 0 \<or> nsects \<noteq> 0 then Inr True
               else
               and_then (si_read32 cmd 68) (\<lambda>flags. Inr (flags \<noteq> 0))))) (\<lambda>invalid.
     if invalid then Inl SI_InvalidSegment
     else Inr (st\<lparr> sc_pagezero_end := Some (st_vmsize segm) \<rparr>))"

definition si_segment_command ::
  "byte_string \<Rightarrow> byte_string \<Rightarrow> startup_state \<Rightarrow> startup_image_error + startup_state" where
  "si_segment_command source cmd st =
     (if length cmd < 72 then Inl SI_InvalidCommand
      else
      and_then (si_read32 cmd 64) (\<lambda>nsects32.
      let nsects = unat nsects32 in
      and_then (ok_or (case usize_mul nsects 80 of None \<Rightarrow> None | Some n \<Rightarrow> usize_add n 72) SI_AddressOverflow)
        (\<lambda>expected.
      if expected \<noteq> length cmd \<or> 1024 < nsects then Inl SI_InvalidCommand
      else
      and_then (si_read64 cmd 24) (\<lambda>vmaddr.
      and_then (si_read64 cmd 32) (\<lambda>vmsize.
      and_then (si_read64 cmd 40) (\<lambda>fileoff.
      and_then (si_read64 cmd 48) (\<lambda>filesize.
      let segm = \<lparr> st_vmaddr = vmaddr, st_vmsize = vmsize, st_fileoff = unat fileoff,
                   st_filesize = unat filesize \<rparr> in
      and_then (ok_or (get_range cmd 8 24) SI_Panic) (\<lambda>name.
      if name = PAGEZERO_NAME then pagezero_command cmd nsects segm st
      else if SI_MAX_SEGMENTS \<le> length (sc_segments st) \<or> vmsize = 0 \<or> vmsize < filesize \<or>
              checked_add vmaddr vmsize = None
      then Inl SI_InvalidSegment
      else
      and_then (si_bytes source (st_fileoff segm) (st_filesize segm)) (\<lambda>_.
      and_then (for_each (check_section source segm cmd) [0..<nsects]) (\<lambda>_.
      Inr (st\<lparr> sc_segments := sc_segments st @ [segm] \<rparr>)))))))))))"

section \<open>The other commands\<close>

definition si_symtab_command ::
  "byte_string \<Rightarrow> byte_string \<Rightarrow> startup_state \<Rightarrow> startup_image_error + startup_state" where
  "si_symtab_command source cmd st =
     (if length cmd \<noteq> 24 \<or> sc_symbol_count st \<noteq> None then Inl SI_InvalidCommand
      else
      and_then (si_read32 cmd 12) (\<lambda>nsyms.
      and_then (si_read32 cmd 8) (\<lambda>symoff.
      and_then (file_table source symoff nsyms 16) (\<lambda>_.
      and_then (si_read32 cmd 16) (\<lambda>stroff.
      and_then (si_read32 cmd 20) (\<lambda>strsize.
      and_then (file_table source stroff strsize 1) (\<lambda>_.
      Inr (st\<lparr> sc_symbol_count := Some nsyms \<rparr>))))))))"

definition read_pair :: "byte_string \<Rightarrow> nat \<Rightarrow> startup_image_error + u32 \<times> u32" where
  "read_pair cmd at =
     and_then (si_read32 cmd at) (\<lambda>a. and_then (si_read32 cmd (at + 4)) (\<lambda>b. Inr (a, b)))"

definition si_dysymtab_command ::
  "byte_string \<Rightarrow> byte_string \<Rightarrow> startup_state \<Rightarrow> startup_image_error + startup_state" where
  "si_dysymtab_command source cmd st =
     (if length cmd \<noteq> 80 \<or> sc_dysymtab st \<noteq> None then Inl SI_InvalidCommand
      else
      and_then (for_each (\<lambda>(at, width).
          and_then (read_pair cmd at) (\<lambda>(offset, number). file_table source offset number width))
        [(32, 8), (40, 56), (48, 4), (56, 4), (64, 8), (72, 8)]) (\<lambda>_.
      and_then (try_map (read_pair cmd) [8, 16, 24]) (\<lambda>ranges.
      Inr (st\<lparr> sc_dysymtab := Some ranges \<rparr>))))"

definition si_thread_command :: "byte_string \<Rightarrow> startup_state \<Rightarrow> startup_image_error + startup_state" where
  "si_thread_command cmd st =
     (if sc_saw_thread st \<or> length cmd < 16 then Inl SI_InvalidCommand
      else
      and_then (si_read32 cmd 12) (\<lambda>words32.
      let words = unat words32 in
      and_then (if words \<noteq> 68 \<or>
                  (case usize_mul words 4 of None \<Rightarrow> None | Some n \<Rightarrow> usize_add n 16) \<noteq> Some (length cmd)
                then Inr True
                else and_then (si_read32 cmd 8) (\<lambda>flavor. Inr (flavor \<noteq> 6))) (\<lambda>invalid.
      if invalid then Inl SI_InvalidCommand else Inr (st\<lparr> sc_saw_thread := True \<rparr>))))"

definition si_command ::
  "byte_string \<Rightarrow> u32 \<Rightarrow> byte_string \<Rightarrow> startup_state \<Rightarrow> startup_image_error + startup_state" where
  "si_command source kind cmd st =
     (if kind = LC_SEGMENT_64 then si_segment_command source cmd st
      else if kind = 0x2 then si_symtab_command source cmd st
      else if kind = 0xb then si_dysymtab_command source cmd st
      else if kind = 0x1b \<and> length cmd = 24 then Inr st
      else if kind = 0x2a \<and> length cmd = 16 then Inr st
      else if kind = 0x5 then si_thread_command cmd st
      else if kind \<in> {0x1b, 0x2a} then Inl SI_InvalidCommand
      else Inl SI_UnsupportedCommand)"

fun si_commands ::
  "byte_string \<Rightarrow> byte_string \<Rightarrow> nat \<Rightarrow> nat \<Rightarrow> startup_state \<Rightarrow> startup_image_error + startup_state \<times> nat" where
  "si_commands source commands 0 offset st = Inr (st, offset)"
| "si_commands source commands (Suc n) offset st =
     and_then (si_read32 commands offset) (\<lambda>kind.
     and_then (ok_or (usize_add offset 4) SI_AddressOverflow) (\<lambda>at.
     and_then (si_read32 commands at) (\<lambda>size32.
     let cmd_size = unat size32 in
     if cmd_size < 8 \<or> cmd_size mod 8 \<noteq> 0 then Inl SI_InvalidCommand
     else
     and_then (si_bytes commands offset cmd_size) (\<lambda>cmd.
     and_then (si_command source kind cmd st) (\<lambda>st.
     and_then (ok_or (usize_add offset cmd_size) SI_AddressOverflow) (\<lambda>offset.
     si_commands source commands n offset st))))))"

section \<open>The image\<close>

definition check_symbols :: "startup_state \<Rightarrow> startup_image_error + unit" where
  "check_symbols st =
     (case sc_dysymtab st of
        None \<Rightarrow> Inr ()
      | Some ranges \<Rightarrow>
          and_then (ok_or (sc_symbol_count st) SI_InvalidCommand) (\<lambda>symbols.
          for_each (\<lambda>(first, number).
            and_then (ok_or (checked_add first number) SI_AddressOverflow) (\<lambda>stop.
            if symbols < stop then Inl SI_InvalidCommand else Inr ())) ranges))"

definition check_neighbours :: "startup_segment \<Rightarrow> startup_segment \<Rightarrow> startup_image_error + unit" where
  "check_neighbours a b =
     and_then (si_plus (st_vmaddr a) (st_vmsize a)) (\<lambda>stop.
     if st_vmaddr b < stop then Inl SI_OverlappingRange else Inr ())"

definition check_file_overlap :: "startup_segment \<Rightarrow> startup_segment \<Rightarrow> startup_image_error + unit" where
  "check_file_overlap segm other =
     and_then (si_overlaps (of_nat (st_fileoff segm)) (of_nat (st_filesize segm))
        (of_nat (st_fileoff other)) (of_nat (st_filesize other))) (\<lambda>overlap.
     if overlap then Inl SI_OverlappingRange else Inr ())"

text \<open>The checks after the loop, over the sorted segments, and the image.\<close>

definition si_finish ::
  "byte_string \<Rightarrow> nat \<Rightarrow> startup_state \<Rightarrow> startup_image_error + startup_image" where
  "si_finish source command_bytes st =
     and_then (check_symbols st) (\<lambda>_.
     if sc_segments st = [] then Inl SI_MissingSegments
     else
     let segments = sort_key st_vmaddr (sc_segments st) in
     if (case sc_pagezero_end st of None \<Rightarrow> False | Some stop \<Rightarrow> st_vmaddr (hd segments) < stop)
     then Inl SI_OverlappingRange
     else if \<not> list_ex (\<lambda>s. st_fileoff s = 0 \<and> 32 + command_bytes \<le> st_filesize s) segments
     then Inl SI_InvalidHeader
     else
     and_then (for_windows check_neighbours segments) (\<lambda>_.
     and_then (for_each (\<lambda>(index, segm). for_each (check_file_overlap segm) (take index segments))
        (enumerate 0 segments)) (\<lambda>_.
     let virtual_base = st_vmaddr (hd segments) AND NOT (SI_PAGE_SIZE - 1);
         last_segment = last segments
     in
     and_then (si_plus (st_vmaddr last_segment) (st_vmsize last_segment)) (\<lambda>last_end.
     and_then (si_align_up last_end) (\<lambda>virtual_end.
     and_then (ok_or (checked_sub virtual_end virtual_base) SI_AddressOverflow) (\<lambda>span.
     if span = 0 \<or> SI_MAX_IMAGE_SIZE < span \<or> 2 ^ 63 - 1 < unat span then Inl SI_LimitExceeded
     else
     and_then (try_fold (\<lambda>sum s. ok_or (usize_add sum (st_filesize s)) SI_AddressOverflow) 0 segments)
       (\<lambda>copied_bytes.
     Inr \<lparr> si_source = source, si_segments = segments, si_virtual_base = virtual_base,
            si_span = unat span, si_copied_bytes = copied_bytes \<rparr>)))))))"

definition initial_startup_state :: startup_state where
  "initial_startup_state = \<lparr> sc_segments = [], sc_symbol_count = None, sc_dysymtab = None,
     sc_saw_thread = False, sc_pagezero_end = None \<rparr>"

text \<open>\<open>room\<close> answers the one reservation, of \<open>SI_MAX_SEGMENTS\<close> segments.\<close>

definition si_parse_image :: "bool \<Rightarrow> byte_string \<Rightarrow> startup_image_error + startup_image" where
  "si_parse_image room source =
     (if SI_MAX_FILE_SIZE < length source then Inl SI_LimitExceeded
      else
      and_then (si_read32 source 0) (\<lambda>magic.
      if magic \<noteq> 0xfeedfacf then Inl SI_UnsupportedFormat
      else
      and_then (si_bytes source 0 32) (\<lambda>header.
      and_then (si_read32 header 4) (\<lambda>cpu_type.
      and_then (if cpu_type \<noteq> 0x0100000c then Inr True
                else and_then (si_read32 header 8) (\<lambda>subtype. Inr (subtype AND 0x00ffffff \<noteq> 2))) (\<lambda>bad_cpu.
      if bad_cpu then Inl SI_UnsupportedCpu
      else
      and_then (si_read32 header 12) (\<lambda>file_type.
      if file_type \<noteq> 2 then Inl SI_UnsupportedFileType
      else
      and_then (si_read32 header 24) (\<lambda>flags.
      if flags AND NOT (0x1 OR 0x200000) \<noteq> 0 then Inl SI_InvalidHeader
      else
      and_then (si_read32 header 28) (\<lambda>reserved.
      if reserved \<noteq> 0 then Inl SI_InvalidHeader
      else
      and_then (si_read32 header 16) (\<lambda>count32.
      and_then (si_read32 header 20) (\<lambda>command_bytes32.
      let number = unat count32; command_bytes = unat command_bytes32 in
      if SI_MAX_COMMANDS < number \<or> SI_MAX_COMMAND_BYTES < command_bytes then Inl SI_LimitExceeded
      else if command_bytes mod 8 \<noteq> 0 \<or> command_bytes div 8 < number then Inl SI_InvalidHeader
      else
      and_then (si_bytes source 32 command_bytes) (\<lambda>commands.
      if \<not> room then Inl SI_AllocationFailed
      else
      and_then (si_commands source commands number 0 initial_startup_state) (\<lambda>(st, offset).
      if offset \<noteq> length commands then Inl SI_InvalidCommand
      else si_finish source command_bytes st))))))))))))"

section \<open>Staging\<close>

definition verify_zero :: "byte_string \<Rightarrow> nat \<Rightarrow> nat \<Rightarrow> startup_image_error + unit" where
  "verify_zero destination start stop =
     and_then (ok_or (get_range destination start stop) SI_ArenaBounds) (\<lambda>region.
     for_each (\<lambda>index. if region ! index \<noteq> 0 then Inl SI_ReadbackMismatch else Inr ()) [0..<length region])"

definition verify_bytes :: "byte_string \<Rightarrow> nat \<Rightarrow> byte_string \<Rightarrow> startup_image_error + unit" where
  "verify_bytes destination start expected =
     and_then (ok_or (usize_add start (length expected)) SI_ArenaBounds) (\<lambda>stop.
     and_then (ok_or (get_range destination start stop) SI_ArenaBounds) (\<lambda>region.
     for_each (\<lambda>(index, byte). if region ! index \<noteq> byte then Inl SI_ReadbackMismatch else Inr ())
       (enumerate 0 expected)))"

definition segment_offset :: "startup_image \<Rightarrow> startup_segment \<Rightarrow> startup_image_error + nat" where
  "segment_offset img segm =
     and_then (ok_or (checked_sub (st_vmaddr segm) (si_virtual_base img)) SI_Panic) (\<lambda>n. Inr (unat n))"

definition segment_source :: "startup_image \<Rightarrow> startup_segment \<Rightarrow> startup_image_error + byte_string" where
  "segment_source img segm =
     ok_or (get_range (si_source img) (st_fileoff segm) (st_fileoff segm + st_filesize segm)) SI_Panic"

definition si_copy_segment ::
  "startup_image \<Rightarrow> byte_string \<Rightarrow> startup_segment \<Rightarrow> startup_image_error + byte_string" where
  "si_copy_segment img destination segm =
     and_then (segment_offset img segm) (\<lambda>offset.
     and_then (segment_source img segm) (\<lambda>source.
     ok_or (copy_from_slice destination (offset, offset + st_filesize segm) source) SI_Panic))"

definition si_verify_segment ::
  "startup_image \<Rightarrow> byte_string \<Rightarrow> nat \<Rightarrow> startup_segment \<Rightarrow> startup_image_error + nat" where
  "si_verify_segment img destination checked_end segm =
     and_then (segment_offset img segm) (\<lambda>start.
     let file_end = start + st_filesize segm; memory_end = start + unat (st_vmsize segm) in
     and_then (verify_zero destination checked_end start) (\<lambda>_.
     and_then (segment_source img segm) (\<lambda>source.
     and_then (verify_bytes destination start source) (\<lambda>_.
     and_then (verify_zero destination file_end memory_end) (\<lambda>_. Inr memory_end)))))"

text \<open>The result, and the destination as the call leaves it. A panic leaves it as it was before the copy.\<close>

definition stage_image ::
  "startup_image \<Rightarrow> byte_string \<Rightarrow> (startup_image_error + unit) \<times> byte_string" where
  "stage_image img destination =
     (let zeroed = replicate (length destination) 0 in
      or_return (try_fold (si_copy_segment img) zeroed (si_segments img)) zeroed (\<lambda>copied.
      (and_then (try_fold (si_verify_segment img copied) 0 (si_segments img)) (\<lambda>checked_end.
       verify_zero copied checked_end (length copied)), copied)))"

text \<open>A call on the piece \<^verbatim>\<open>&mut memory[a..b]\<close>.\<close>

definition on_slice ::
  "nat \<Rightarrow> nat \<Rightarrow> (byte_string \<Rightarrow> (startup_image_error + unit) \<times> byte_string) \<Rightarrow> byte_string \<Rightarrow>
   (startup_image_error + unit) \<times> byte_string" where
  "on_slice a b f memory =
     (case get_range memory a b of
        None \<Rightarrow> (Inl SI_Panic, memory)
      | Some piece \<Rightarrow> (case f piece of (r, piece') \<Rightarrow> (r, put_bytes memory a piece')))"

text \<open>The plan of both images, before anything is written.\<close>

definition plan_startup ::
  "bool \<Rightarrow> bool \<Rightarrow> byte_string \<Rightarrow> byte_string \<Rightarrow> u64 \<Rightarrow> u64 \<Rightarrow> nat \<Rightarrow>
   startup_image_error + startup_image \<times> startup_image \<times> nat \<times> nat \<times> startup_placement" where
  "plan_startup sptm_room txm_room sptm txm physical_base occupied_end n =
     and_then (si_parse_image sptm_room sptm) (\<lambda>sptm_image.
     and_then (si_parse_image txm_room txm) (\<lambda>txm_image.
     and_then (ok_or (u64_of_usize n) SI_AddressOverflow) (\<lambda>memory_len.
     and_then (ok_or (checked_add physical_base memory_len) SI_AddressOverflow) (\<lambda>arena_end.
     if arena_end < occupied_end then Inl SI_ArenaBounds
     else
     and_then (si_align_up (max occupied_end physical_base)) (\<lambda>sptm_base.
     and_then (ok_or (checked_add sptm_base (of_nat (si_span sptm_image))) SI_AddressOverflow) (\<lambda>sptm_end.
     and_then (si_align_up sptm_end) (\<lambda>txm_base.
     and_then (ok_or (checked_add txm_base (of_nat (si_span txm_image))) SI_AddressOverflow) (\<lambda>txm_end.
     if arena_end < txm_end then Inl SI_ArenaBounds
     else
     and_then (ok_or (checked_sub sptm_base physical_base) SI_Panic) (\<lambda>sptm_off.
     and_then (ok_or (checked_sub txm_base physical_base) SI_Panic) (\<lambda>txm_off.
     let sptm_offset = unat sptm_off; txm_offset = unat txm_off in
     and_then (ok_or (usize_add sptm_offset (si_span sptm_image)) SI_ArenaBounds) (\<lambda>sptm_limit.
     and_then (ok_or (usize_add txm_offset (si_span txm_image)) SI_ArenaBounds) (\<lambda>txm_limit.
     if n < sptm_limit \<or> n < txm_limit then Inl SI_ArenaBounds
     else
     Inr (sptm_image, txm_image, sptm_offset, txm_offset,
       \<lparr> su_sptm = \<lparr> pl_physical_base = sptm_base, pl_virtual_base = si_virtual_base sptm_image,
                      pl_bytes = si_span sptm_image, pl_copied_bytes = si_copied_bytes sptm_image \<rparr>,
         su_txm = \<lparr> pl_physical_base = txm_base, pl_virtual_base = si_virtual_base txm_image,
                     pl_bytes = si_span txm_image, pl_copied_bytes = si_copied_bytes txm_image \<rparr>,
         su_occupied_end = txm_end \<rparr>)))))))))))))"

definition stage_startup_images ::
  "bool \<Rightarrow> bool \<Rightarrow> byte_string \<Rightarrow> byte_string \<Rightarrow> u64 \<Rightarrow> u64 \<Rightarrow> byte_string \<Rightarrow>
   (startup_image_error + startup_placement) \<times> byte_string" where
  "stage_startup_images sptm_room txm_room sptm txm physical_base occupied_end memory =
     or_return (plan_startup sptm_room txm_room sptm txm physical_base occupied_end (length memory)) memory
       (\<lambda>(sptm_image, txm_image, sptm_offset, txm_offset, result).
     and_run (on_slice sptm_offset (sptm_offset + si_span sptm_image) (stage_image sptm_image) memory) (\<lambda>_ memory.
     and_run (on_slice txm_offset (txm_offset + si_span txm_image) (stage_image txm_image) memory) (\<lambda>_ memory.
     (Inr result, memory))))"

end
