(* ===== verification/Arm64_Startup_Image_Proofs.thy ===== *)
theory Arm64_Startup_Image_Proofs
  imports Arm64_Startup_Image Kc_Staging_Proofs
begin

text \<open>
  The staging of the startup companions: what a parsed image promises, that its copy always
  succeeds and is the image, and that nothing is written before both images are planned.
\<close>

section \<open>Reading\<close>

interpretation si: slice_reader si_bytes
  by unfold_locales (auto simp: si_bytes_def usize_add_def get_range_def)

lemma si_bytes_no_panic: "si_bytes source offset n \<noteq> Inl SI_Panic"
  by (auto simp: si_bytes_def usize_add_def get_range_def)

lemma si_reads_no_panic: "si_read32 source offset \<noteq> Inl SI_Panic" "si_read64 source offset \<noteq> Inl SI_Panic"
  using si_bytes_no_panic by (auto simp: si_read32_def si_read64_def and_then_Inl)

lemma si_align_up_Inr:
  assumes "si_align_up value = Inr a"
  shows "unat value \<le> unat a" "unat a < unat value + 16384" "unat a mod 16384 = 0"
proof -
  have p: "is_power_of_two SI_PAGE_SIZE" "unat SI_PAGE_SIZE = 16384" "unat (SI_PAGE_SIZE - 1) = 16383"
    by (auto simp: is_power_of_two_def SI_PAGE_SIZE_def intro: bexI [of _ 14])
  obtain n where n: "checked_add value (SI_PAGE_SIZE - 1) = Some n" "a = align_down n SI_PAGE_SIZE"
    using assms by (auto simp: si_align_up_def ok_or_Inr align_down_def)
  have "unat n = unat value + 16383" using n(1) p by (simp add: checked_add_Some)
  then show "unat value \<le> unat a" "unat a < unat value + 16384" "unat a mod 16384 = 0"
    using align_down_props [OF p(1), of n] p(2) unfolding n(2) by auto
qed

section \<open>Parsed images\<close>

definition startup_segment_ok :: "byte_string \<Rightarrow> startup_segment \<Rightarrow> bool" where
  "startup_segment_ok source s \<longleftrightarrow>
     0 < unat (st_vmsize s) \<and> st_filesize s \<le> unat (st_vmsize s) \<and>
     unat (st_vmaddr s) + unat (st_vmsize s) < 2 ^ 64 \<and> st_fileoff s + st_filesize s \<le> length source"

definition startup_state_ok :: "byte_string \<Rightarrow> startup_state \<Rightarrow> bool" where
  "startup_state_ok source st \<longleftrightarrow> (\<forall>s \<in> set (sc_segments st). startup_segment_ok source s)"

lemma pagezero_keeps: "pagezero_command cmd n segm st = Inr st' \<Longrightarrow> sc_segments st' = sc_segments st"
  by (auto simp: pagezero_command_def result_iff split: if_splits)

lemma si_segment_command_Inr:
  assumes "si_segment_command source cmd st = Inr st'" and len: "length source < 2 ^ 64"
  shows "sc_segments st' = sc_segments st \<or>
    (\<exists>s. sc_segments st' = sc_segments st @ [s] \<and> startup_segment_ok source s)"
proof -
  obtain vmaddr vmsize fileoff filesize :: u64 and name nsects32 where
    "(if name = PAGEZERO_NAME
      then pagezero_command cmd (unat (nsects32 :: u32)) \<lparr> st_vmaddr = vmaddr, st_vmsize = vmsize, st_fileoff = unat fileoff,
                   st_filesize = unat filesize \<rparr> st
      else if SI_MAX_SEGMENTS \<le> length (sc_segments st) \<or> vmsize = 0 \<or> vmsize < filesize \<or>
              checked_add vmaddr vmsize = None
      then Inl SI_InvalidSegment
      else
      and_then (si_bytes source (unat fileoff) (unat filesize)) (\<lambda>_.
      and_then (for_each (check_section source \<lparr> st_vmaddr = vmaddr, st_vmsize = vmsize, st_fileoff = unat fileoff,
                   st_filesize = unat filesize \<rparr> cmd) [0..<unat nsects32]) (\<lambda>_.
      Inr (st\<lparr> sc_segments := sc_segments st @ [\<lparr> st_vmaddr = vmaddr, st_vmsize = vmsize, st_fileoff = unat fileoff,
                   st_filesize = unat filesize \<rparr>] \<rparr>)))) = Inr st'"
    using assms(1) unfolding si_segment_command_def Let_def if_Inl_Inr and_then_Inr ok_or_Inr
      startup_segment.simps
    by (elim exE conjE) (rule that, assumption)
  then show ?thesis
    using pagezero_keeps
    by (cases "name = PAGEZERO_NAME")
      (auto simp: result_iff startup_segment_ok_def si.slice_at_Inr [OF len] checked_add_def not_le
        word_less_nat_alt unat_gt_0 split: if_splits)
qed

lemma si_segment_command_keeps:
  assumes "si_segment_command source cmd st = Inr st'" and "startup_state_ok source st"
    and "length source < 2 ^ 64"
  shows "startup_state_ok source st'"
  using si_segment_command_Inr [OF assms(1,3)] assms(2) by (auto simp: startup_state_ok_def)

lemma si_command_keeps:
  assumes "si_command source kind cmd st = Inr st'" and "startup_state_ok source st"
    and "length source < 2 ^ 64"
  shows "startup_state_ok source st'"
  using assms si_segment_command_keeps
  by (auto simp: si_command_def si_symtab_command_def si_dysymtab_command_def si_thread_command_def
      result_iff Let_def startup_state_ok_def split: if_splits)

lemma si_commands_keep:
  assumes "si_commands source commands n offset st = Inr (st', offset')" and "startup_state_ok source st"
    and "length source < 2 ^ 64"
  shows "startup_state_ok source st'"
  using assms
proof (induction n arbitrary: offset st)
  case (Suc n)
  then show ?case using si_command_keeps by (auto simp: result_iff Let_def split: if_splits)
qed simp

text \<open>The segments of an image as segments of the staging: where they go, and what is copied.\<close>

definition staging_of :: "u64 \<Rightarrow> startup_segment \<Rightarrow> staging_segment" where
  "staging_of base s = \<lparr> ss_collection_segment_index = 0, ss_virtual_address = st_vmaddr s,
     ss_destination_offset = unat (st_vmaddr s) - unat base, ss_memory_size = unat (st_vmsize s),
     ss_file_offset = st_fileoff s, ss_file_size = st_filesize s,
     ss_initial_protection = 0, ss_maximum_protection = 0 \<rparr>"

definition staging_segments :: "startup_image \<Rightarrow> staging_segment list" where
  "staging_segments img = map (staging_of (si_virtual_base img)) (si_segments img)"

definition startup_image_ok :: "startup_image \<Rightarrow> bool" where
  "startup_image_ok img \<longleftrightarrow>
     chain (length (si_source img)) 0 (staging_segments img) \<and>
     chain_end 0 (staging_segments img) \<le> si_span img \<and> si_span img < 2 ^ 63 \<and>
     (\<forall>s \<in> set (si_segments img). unat (si_virtual_base img) \<le> unat (st_vmaddr s)) \<and>
     unat (si_virtual_base img) mod 16384 = 0 \<and> si_span img mod 16384 = 0 \<and> 0 < si_span img \<and>
     si_copied_bytes img = sum_list (map st_filesize (si_segments img))"

lemma try_fold_usize_sum:
  "try_fold (\<lambda>sum s. ok_or (usize_add sum (f s)) e) n xs = Inr m \<Longrightarrow> m = n + sum_list (map f xs)"
proof (induction xs arbitrary: n)
  case (Cons a xs)
  then have "try_fold (\<lambda>sum s. ok_or (usize_add sum (f s)) e) (n + f a) xs = Inr m"
    by (auto simp: result_iff usize_add_Some)
  from Cons.IH [OF this] show ?case by simp
qed simp

lemma check_neighbours_Inr:
  "check_neighbours a b = Inr () \<Longrightarrow> unat (st_vmaddr a) + unat (st_vmsize a) \<le> unat (st_vmaddr b)"
  by (auto simp: check_neighbours_def si_plus_def result_iff word_nat split: if_splits)

lemma si_finish_Inr:
  assumes fin: "si_finish source command_bytes st = Inr img" and ok: "startup_state_ok source st"
  shows "si_source img = source \<and> startup_image_ok img"
proof -
  define segs where "segs = sort_key st_vmaddr (sc_segments st)"
  obtain last_end virtual_end span and copied :: nat where
    ne: "sc_segments st \<noteq> []"
    and nb: "for_windows check_neighbours segs = Inr ()"
    and le: "checked_add (st_vmaddr (last segs)) (st_vmsize (last segs)) = Some last_end"
    and up: "si_align_up last_end = Inr virtual_end"
    and span: "checked_sub virtual_end (st_vmaddr (hd segs) AND NOT (SI_PAGE_SIZE - 1)) = Some span"
      "\<not> (span = 0 \<or> SI_MAX_IMAGE_SIZE < span \<or> 2 ^ 63 - 1 < unat span)"
    and copied: "try_fold (\<lambda>sum s. ok_or (usize_add sum (st_filesize s)) SI_AddressOverflow) 0 segs = Inr copied"
    and img: "\<lparr> si_source = source, si_segments = segs,
      si_virtual_base = st_vmaddr (hd segs) AND NOT (SI_PAGE_SIZE - 1),
      si_span = unat span, si_copied_bytes = copied \<rparr> = img"
    using fin unfolding si_finish_def segs_def [symmetric] Let_def if_Inl_Inr and_then_Inr ok_or_Inr sum.inject si_plus_def
    by (elim exE conjE) (rule that, auto)
  define base where "base = st_vmaddr (hd segs) AND NOT (SI_PAGE_SIZE - 1)"
  have p: "is_power_of_two SI_PAGE_SIZE" "unat SI_PAGE_SIZE = 16384"
    by (auto simp: is_power_of_two_def SI_PAGE_SIZE_def intro: bexI [of _ 14])
  note base_props = align_down_props [OF p(1), of "st_vmaddr (hd segs)", folded base_def [unfolded align_down_def [symmetric]]]
  have segs_ok: "startup_segment_ok source s" if "s \<in> set segs" for s
    using ok that by (simp add: startup_state_ok_def segs_def)
  have ordered: "sorted_wrt (\<lambda>a b. unat (st_vmaddr a) + unat (st_vmsize a) \<le> unat (st_vmaddr b)) segs"
    by (rule for_windows_ordered [OF nb, where key = st_vmaddr]) (auto simp: segs_def dest: check_neighbours_Inr)
  have sorted: "sorted (map st_vmaddr segs)" by (simp add: segs_def)
  have "set segs = set (sc_segments st)" by (simp add: segs_def)
  then have ne': "segs \<noteq> []" using ne by auto
  have low: "unat base \<le> unat (st_vmaddr s)" if s: "s \<in> set segs" for s
  proof -
    have "st_vmaddr (hd segs) \<le> st_vmaddr s"
      using sorted s ne' by (cases segs) auto
    then show ?thesis using base_props(1) by (simp add: word_le_nat_alt)
  qed
  have high: "unat (st_vmaddr s) + unat (st_vmsize s) \<le> unat last_end" if s: "s \<in> set segs" for s
  proof (cases "s = last segs")
    case True
    then show ?thesis using le by (simp add: checked_add_Some)
  next
    case False
    then have "s \<in> set (butlast segs)"
      using s arg_cong [OF append_butlast_last_id [OF ne'], of set] by auto
    moreover have "sorted_wrt (\<lambda>a b. unat (st_vmaddr a) + unat (st_vmsize a) \<le> unat (st_vmaddr b))
        (butlast segs @ [last segs])"
      using ordered unfolding append_butlast_last_id [OF ne'] .
    ultimately have "unat (st_vmaddr s) + unat (st_vmsize s) \<le> unat (st_vmaddr (last segs))"
      by (simp add: sorted_wrt_append)
    then show ?thesis using le by (simp add: checked_add_Some)
  qed
  have v: "unat virtual_end = unat base + unat span" using span(1) by (simp add: base_def checked_sub_Some)
  let ?st = "map (staging_of base) segs"
  have "chain (length source) 0 ?st \<and> chain_end 0 ?st \<le> unat span"
  proof (rule sorted_chain)
    show "sorted_wrt (\<lambda>a b. ss_destination_offset a + ss_memory_size a \<le> ss_destination_offset b) ?st"
      unfolding sorted_wrt_map by (rule sorted_wrt_mono_rel [OF _ ordered]) (auto simp: staging_of_def dest: low)
    show "0 \<le> ss_destination_offset s \<and> ss_destination_offset s + ss_memory_size s \<le> unat span \<and>
        ss_file_size s \<le> ss_memory_size s \<and> ss_file_offset s + ss_file_size s \<le> length source"
      if m: "s \<in> set ?st" for s
    proof -
      obtain t where t: "t \<in> set segs" "s = staging_of base t" using m by auto
      from low [OF t(1)] high [OF t(1)] si_align_up_Inr(1) [OF up] v segs_ok [OF t(1)]
      show ?thesis by (simp add: t(2) staging_of_def startup_segment_ok_def)
    qed
  qed simp
  moreover have "unat virtual_end mod 16384 = 0" by (rule si_align_up_Inr(3) [OF up])
  then have "unat span mod 16384 = 0" using v base_props(3) p(2) by (metis add_diff_cancel_left' dvd_diff_nat mod_0_imp_dvd dvd_imp_mod_0)
  ultimately show ?thesis
    using img [symmetric] low span(2) base_props(3) p(2) try_fold_usize_sum [OF copied]
    by (auto simp: startup_image_ok_def staging_segments_def base_def unat_gt_0)
qed

lemma si_parse_image_Inr:
  assumes "si_parse_image room source = Inr img"
  shows "si_source img = source \<and> startup_image_ok img"
proof -
  obtain commands n st offset command_bytes where len: "\<not> SI_MAX_FILE_SIZE < length source"
    and cmds: "si_commands source commands n 0 initial_startup_state = Inr (st, offset)"
    and fin: "si_finish source command_bytes st = Inr img"
    using assms unfolding si_parse_image_def Let_def if_Inl_Inr and_then_Inr ok_or_Inr split_paired_Ex prod.case
    by (elim exE conjE) (rule that, assumption+)
  have "startup_state_ok source st"
    by (rule si_commands_keep [OF cmds])
      (use len in \<open>auto simp: startup_state_ok_def initial_startup_state_def SI_MAX_FILE_SIZE_def\<close>)
  then show ?thesis by (rule si_finish_Inr [OF fin])
qed

section \<open>Copying an image\<close>

definition loaded :: "startup_image \<Rightarrow> byte_string" where
  "loaded img = map (staged_byte (si_source img) (staging_segments img)) [0..<si_span img]"

lemma length_loaded [simp]: "length (loaded img) = si_span img"
  by (simp add: loaded_def)

lemma si_copy_segment_eq:
  assumes "unat (si_virtual_base img) \<le> unat (st_vmaddr s)"
  shows "si_copy_segment img d s =
    ok_or (copy_segment (si_source img) (Some d) (staging_of (si_virtual_base img) s)) SI_Panic"
proof -
  have "checked_sub (st_vmaddr s) (si_virtual_base img) = Some (st_vmaddr s - si_virtual_base img)"
    "unat (st_vmaddr s - si_virtual_base img) = unat (st_vmaddr s) - unat (si_virtual_base img)"
    using assms by (simp_all add: checked_sub_def word_le_nat_alt unat_sub)
  then show ?thesis
    by (cases "get_range (si_source img) (st_fileoff s) (st_fileoff s + st_filesize s)")
      (simp_all add: si_copy_segment_def segment_offset_def segment_source_def copy_segment_def staging_of_def)
qed

lemma copy_segment_None: "foldl (copy_segment source) None segs = None"
  by (induction segs) (simp_all add: copy_segment_def)

lemma si_copy_segments:
  assumes "\<forall>s \<in> set segs. unat (si_virtual_base img) \<le> unat (st_vmaddr s)"
    and "foldl (copy_segment (si_source img)) (Some d) (map (staging_of (si_virtual_base img)) segs) = Some d'"
  shows "try_fold (si_copy_segment img) d segs = Inr d'"
  using assms
proof (induction segs arbitrary: d)
  case (Cons s segs)
  let ?c = "copy_segment (si_source img) (Some d) (staging_of (si_virtual_base img) s)"
  obtain d1 where d1: "?c = Some d1"
    using Cons.prems(2) copy_segment_None by (cases ?c) auto
  then show ?case using Cons si_copy_segment_eq [of img s d] by simp
qed simp

lemma verify_zero_segment:
  assumes "a \<le> b" and "b \<le> length d" and "agrees d (\<lambda>_. 0) a b"
  shows "verify_zero d a b = Inr ()"
  using assms by (auto simp: verify_zero_def get_range_def result_iff agrees_def)

lemma verify_bytes_segment:
  assumes "a + length e \<le> length d" and "length d < 2 ^ 64" and "agrees d (\<lambda>i. e ! (i - a)) a (a + length e)"
  shows "verify_bytes d a e = Inr ()"
proof -
  have "d ! (a + i) = e ! i" if "i < length e" for i
  proof -
    have "a \<le> a + i" "a + i < a + length e" using that by auto
    then have "d ! (a + i) = e ! (a + i - a)" using assms(3) unfolding agrees_def by blast
    then show ?thesis by simp
  qed
  then show ?thesis
    using assms(1,2) by (auto simp: verify_bytes_def usize_add_def get_range_def result_iff in_set_enumerate_eq)
qed

lemma si_verify_segments:
  assumes "chain (length (si_source img)) p (map (staging_of (si_virtual_base img)) segs)"
    and "chain_end p (map (staging_of (si_virtual_base img)) segs) \<le> length d" and "length d < 2 ^ 64"
    and "agrees d (staged_byte (si_source img) (map (staging_of (si_virtual_base img)) segs)) p (length d)"
    and "\<forall>s \<in> set segs. unat (si_virtual_base img) \<le> unat (st_vmaddr s)"
  shows "try_fold (si_verify_segment img d) p segs =
    Inr (chain_end p (map (staging_of (si_virtual_base img)) segs))"
  using assms
proof (induction segs arbitrary: p)
  case (Cons s segs)
  let ?of = "staging_of (si_virtual_base img)"
  let ?a = "unat (st_vmaddr s) - unat (si_virtual_base img)"
  let ?c = "?a + st_filesize s" and ?b = "?a + unat (st_vmsize s)"
  let ?f = "staged_byte (si_source img) (map ?of (s # segs))"
  let ?e = "take (st_filesize s) (drop (st_fileoff s) (si_source img))"
  have of: "ss_destination_offset (?of s) = ?a" "ss_memory_size (?of s) = unat (st_vmsize s)"
    "ss_file_size (?of s) = st_filesize s" "ss_file_offset (?of s) = st_fileoff s"
    by (simp_all add: staging_of_def)
  have ch: "chain (length (si_source img)) ?b (map ?of segs)" using Cons.prems(1) by (simp add: of)
  have le: "p \<le> ?a" "?a \<le> ?c" "?c \<le> ?b" "st_fileoff s + st_filesize s \<le> length (si_source img)" "?b \<le> length d"
    using Cons.prems(1,2) chain_end_ge [OF ch] by (simp_all add: of)
  have zero: "?f i = 0" if "i < ?a \<or> (?c \<le> i \<and> i < ?b)" for i
  proof -
    have "find (owns_file_byte i) (map ?of segs) = None"
      by (rule staged_byte_before [OF ch]) (use that le in auto)
    then show ?thesis using that by (auto simp: staged_byte_def owns_file_byte_def of)
  qed
  have own: "?f i = ?e ! (i - ?a)" if "?a \<le> i" "i < ?c" for i
    using that le(4) by (simp add: staged_byte_def owns_file_byte_def of)
  have ag: "d ! i = ?f i" if "p \<le> i" "i < length d" for i
    using Cons.prems(4) that unfolding agrees_def by blast
  have e: "length ?e = st_filesize s" using le(4) by simp
  have "agrees d (\<lambda>_. 0) p ?a" "agrees d (\<lambda>_. 0) ?c ?b" "agrees d (\<lambda>i. ?e ! (i - ?a)) ?a (?a + length ?e)"
    using ag zero own le e by (auto simp: agrees_def)
  then have three: "verify_zero d p ?a = Inr ()" "verify_zero d ?c ?b = Inr ()" "verify_bytes d ?a ?e = Inr ()"
    using verify_zero_segment verify_bytes_segment [of ?a ?e d] le e Cons.prems(3) by auto
  have off: "segment_offset img s = Inr ?a"
    using Cons.prems(5) by (simp add: segment_offset_def checked_sub_def word_le_nat_alt unat_sub)
  have src: "segment_source img s = Inr ?e"
    using le(4) by (simp add: segment_source_def get_range_def)
  have step: "si_verify_segment img d p s = Inr ?b"
    by (simp add: si_verify_segment_def off src three Let_def)
  have tail: "staged_byte (si_source img) (map ?of segs) i = ?f i" if "?b \<le> i" for i
    using that le by (simp add: staged_byte_def owns_file_byte_def of)
  have "try_fold (si_verify_segment img d) ?b segs = Inr (chain_end ?b (map ?of segs))"
    by (rule Cons.IH [OF ch])
      (use Cons.prems le ag tail in \<open>auto simp: of agrees_def\<close>)
  then show ?case by (simp add: step of)
qed simp

text \<open>Copying a sound image always succeeds, and leaves the image.\<close>

lemma stage_image_loaded:
  assumes ok: "startup_image_ok img" and len: "length d = si_span img"
  shows "stage_image img d = (Inr (), loaded img)"
proof -
  let ?segs = "staging_segments img" and ?f = "staged_byte (si_source img) (staging_segments img)"
  have ch: "chain (length (si_source img)) 0 ?segs" "chain_end 0 ?segs \<le> length (replicate (length d) (0 :: u8))"
    and low: "\<forall>s \<in> set (si_segments img). unat (si_virtual_base img) \<le> unat (st_vmaddr s)"
    and small: "length d < 2 ^ 64"
    using ok len by (simp_all add: startup_image_ok_def)
  from copy_segments [OF ch] obtain d' where d':
    "foldl (copy_segment (si_source img)) (Some (replicate (length d) 0)) ?segs = Some d'" "length d' = length d"
    "\<forall>i < length d. d' ! i = ?f i"
    by (auto simp: staged_byte_def cong: option.case_cong)
  have eq: "d' = loaded img" using d'(2,3) len by (auto simp: loaded_def list_eq_iff_nth_eq)
  have copy: "try_fold (si_copy_segment img) (replicate (length d) 0) (si_segments img) = Inr (loaded img)"
    using si_copy_segments [OF low] d'(1) unfolding eq staging_segments_def by blast
  have ag: "agrees (loaded img) ?f 0 (length (loaded img))" by (simp add: agrees_def loaded_def)
  have ver: "try_fold (si_verify_segment img (loaded img)) 0 (si_segments img) = Inr (chain_end 0 ?segs)"
    unfolding staging_segments_def
    by (rule si_verify_segments) (use ch small ag len low in \<open>auto simp: staging_segments_def\<close>)
  have "?f i = 0" if "chain_end 0 ?segs \<le> i" for i
    by (rule staged_byte_hole) (use chain_mem [OF ch(1)] that in \<open>fastforce\<close>)+
  then have "agrees (loaded img) (\<lambda>_. 0) (chain_end 0 ?segs) (length (loaded img))"
    by (simp add: agrees_def loaded_def)
  then have "verify_zero (loaded img) (chain_end 0 ?segs) (length (loaded img)) = Inr ()"
    using ch(2) len by (intro verify_zero_segment) auto
  then show ?thesis by (simp add: stage_image_def copy ver)
qed

end
