(* ===== verification/Arm64_Startup_Image_Theorems.thy ===== *)
theory Arm64_Startup_Image_Theorems
  imports Arm64_Startup_Image_Proofs
begin

text \<open>
  The theorems on the startup companions: the whole call is its plan followed by two copies that
  cannot fail; it never panics; and what stands in the memory after a call that succeeds.
\<close>

section \<open>No panic\<close>

lemma for_each_no_panic: "(\<And>x. x \<in> set xs \<Longrightarrow> f x \<noteq> Inl e) \<Longrightarrow> for_each f xs \<noteq> Inl e"
  using for_each_Inl [of f xs e] by blast

lemma try_map_no_panic: "(\<And>x. x \<in> set xs \<Longrightarrow> f x \<noteq> Inl e) \<Longrightarrow> try_map f xs \<noteq> Inl e"
  using try_map_Inl [of f xs e] by blast

lemma file_table_no_panic: "file_table source offset number width \<noteq> Inl SI_Panic"
  unfolding file_table_def by (intro and_then_no_panic) (simp_all add: ok_or_Inl si_bytes_no_panic)

lemma si_align_up_no_panic: "si_align_up v \<noteq> Inl SI_Panic"
  by (simp add: si_align_up_def ok_or_Inl)

lemma si_plus_inside: "unat a + unat b < 2 ^ 64 \<Longrightarrow> si_plus a b = Inr (a + b)"
  by (simp add: si_plus_def checked_add_def)

lemmas no_panics = si_reads_no_panic si_bytes_no_panic file_table_no_panic si_align_up_no_panic

lemma validate_section_no_panic:
  assumes "startup_segment_ok source segm" and "length source < 2 ^ 64"
  shows "validate_section source segm section \<noteq> Inl SI_Panic"
proof -
  have "unat (st_vmaddr segm) + unat (st_vmsize segm) < 2 ^ 64" "st_fileoff segm + st_filesize segm < 2 ^ 64"
    using assms by (auto simp: startup_segment_ok_def)
  then have s: "si_plus (st_vmaddr segm) (st_vmsize segm) = Inr (st_vmaddr segm + st_vmsize segm)"
    "usize_add (st_fileoff segm) (st_filesize segm) = Some (st_fileoff segm + st_filesize segm)"
    by (simp_all add: si_plus_inside usize_add_def)
  show ?thesis
    unfolding validate_section_def Let_def s ok_or_simps and_then_simps
    by (intro branch_no_panic and_then_no_panic; (rule no_panics | simp add: ok_or_Inl))
qed

lemma pagezero_no_panic: "pagezero_command cmd n segm st \<noteq> Inl SI_Panic"
  unfolding pagezero_command_def
  by (intro branch_no_panic and_then_no_panic; (rule no_panics | simp))

lemma si_segment_command_no_panic:
  assumes len: "length source < 2 ^ 64"
  shows "si_segment_command source cmd st \<noteq> Inl SI_Panic"
proof -
  have sec: "for_each (check_section source segm cmd) [0..<unat n32] \<noteq> Inl SI_Panic"
    if "startup_segment_ok source segm" and "72 + unat n32 * 80 = length cmd" for segm and n32 :: u32
  proof (rule for_each_no_panic)
    fix i assume "i \<in> set [0..<unat n32]"
    then have "72 + (i + 1) * 80 \<le> length cmd" using that(2) mult_le_mono1 [of "i + 1" "unat n32" 80] by simp
    then have "get_range cmd (72 + i * 80) (72 + (i + 1) * 80) \<noteq> None" by (simp add: get_range_def)
    then show "check_section source segm cmd i \<noteq> Inl SI_Panic"
      using validate_section_no_panic [OF that(1) len] by (auto simp: check_section_def)
  qed
  have mul: "(case usize_mul n 80 of None \<Rightarrow> None | Some m \<Rightarrow> usize_add m 72) = Some k \<Longrightarrow> k = 72 + n * 80" for n k
    by (auto simp: usize_mul_def usize_add_def split: if_splits)
  show ?thesis
  proof
    assume "si_segment_command source cmd st = Inl SI_Panic"
    then show False
      using sec len
      unfolding si_segment_command_def Let_def
      by (auto simp: and_then_Inl ok_or_Inl ok_or_Inr si_reads_no_panic si_bytes_no_panic pagezero_no_panic
          get_range_def startup_segment_ok_def si.slice_at_Inr checked_add_def not_le word_less_nat_alt
          unat_gt_0 dest!: mul split: if_splits)
  qed
qed

lemma read_pair_no_panic: "read_pair cmd at \<noteq> Inl SI_Panic"
  by (auto simp: read_pair_def and_then_Inl si_reads_no_panic)

lemma si_command_no_panic:
  assumes len: "length source < 2 ^ 64"
  shows "si_command source kind cmd st \<noteq> Inl SI_Panic"
proof -
  have "si_symtab_command source cmd st \<noteq> Inl SI_Panic"
    unfolding si_symtab_command_def
    by (intro branch_no_panic and_then_no_panic; (rule no_panics | simp))
  moreover have "si_dysymtab_command source cmd st \<noteq> Inl SI_Panic"
    unfolding si_dysymtab_command_def
    by (intro branch_no_panic and_then_no_panic for_each_no_panic try_map_no_panic;
        (rule read_pair_no_panic | auto simp: and_then_Inl read_pair_no_panic file_table_no_panic))
  moreover have "si_thread_command cmd st \<noteq> Inl SI_Panic"
    unfolding si_thread_command_def Let_def
    by (intro branch_no_panic and_then_no_panic; (rule no_panics | simp))
  ultimately show ?thesis
    using si_segment_command_no_panic [OF len] by (simp add: si_command_def)
qed

lemma si_commands_no_panic:
  assumes "length source < 2 ^ 64"
  shows "si_commands source commands n offset st \<noteq> Inl SI_Panic"
proof (induction n arbitrary: offset st)
  case (Suc n)
  then show ?case
    using si_command_no_panic [OF assms]
    by (auto simp: Let_def and_then_Inl ok_or_Inl si_reads_no_panic si_bytes_no_panic split: if_splits)
qed simp

lemma si_overlaps_no_panic:
  assumes "unat a + unat n < 2 ^ 64" and "unat b + unat m < 2 ^ 64"
  shows "si_overlaps a n b m \<noteq> Inl SI_Panic"
  using assms by (simp add: si_overlaps_def si_plus_inside)

lemma for_windows_no_panic:
  "(\<And>x y. x \<in> set xs \<Longrightarrow> y \<in> set xs \<Longrightarrow> f x y \<noteq> Inl e) \<Longrightarrow> for_windows f xs \<noteq> Inl e"
  by (induction f xs rule: for_windows.induct) (auto simp: and_then_Inl)

lemma si_finish_no_panic:
  assumes ok: "startup_state_ok source st" and len: "length source < 2 ^ 64"
  shows "si_finish source command_bytes st \<noteq> Inl SI_Panic"
proof -
  define segs where "segs = sort_key st_vmaddr (sc_segments st)"
  have set: "set segs = set (sc_segments st)" by (simp add: segs_def)
  have s: "startup_segment_ok source s" if "s \<in> set segs" for s
    using ok that set by (simp add: startup_state_ok_def)
  have plus: "si_plus (st_vmaddr s) (st_vmsize s) = Inr (st_vmaddr s + st_vmsize s)" if "s \<in> set segs" for s
    using s [OF that] by (simp add: startup_segment_ok_def si_plus_inside)
  have size: "unat (of_nat (st_fileoff s) :: u64) + unat (of_nat (st_filesize s) :: u64) < 2 ^ 64" if "s \<in> set segs" for s
    using s [OF that] len by (simp add: startup_segment_ok_def unat_of_nat)
  have nb: "for_windows check_neighbours segs \<noteq> Inl SI_Panic"
    by (rule for_windows_no_panic) (simp add: check_neighbours_def plus)
  have pair: "check_file_overlap a b \<noteq> Inl SI_Panic" if "a \<in> set segs" "b \<in> set segs" for a b
    using si_overlaps_no_panic [OF size [OF that(1)] size [OF that(2)]]
    by (auto simp: check_file_overlap_def and_then_Inl)
  have fo: "for_each (\<lambda>(index, segm). for_each (check_file_overlap segm) (take index segs)) (enumerate 0 segs)
      \<noteq> Inl SI_Panic"
  proof (rule for_each_no_panic, clarsimp)
    fix i s assume "(i, s) \<in> set (enumerate 0 segs)"
      and p: "for_each (check_file_overlap s) (take i segs) = Inl SI_Panic"
    then have "s \<in> set segs" by (auto simp: in_set_enumerate_eq)
    moreover obtain x where "x \<in> set (take i segs)" "check_file_overlap s x = Inl SI_Panic"
      using for_each_Inl [OF p] by blast
    ultimately show False using pair in_set_takeD by fast
  qed
  have sym: "check_symbols st \<noteq> Inl SI_Panic"
    by (auto simp: check_symbols_def and_then_Inl ok_or_Inl split: option.splits if_splits dest!: for_each_Inl)
  have copied: "try_fold (\<lambda>sum s. ok_or (usize_add sum (st_filesize s)) SI_AddressOverflow) 0 segs \<noteq> Inl SI_Panic"
  proof
    assume "try_fold (\<lambda>sum s. ok_or (usize_add sum (st_filesize s)) SI_AddressOverflow) 0 segs = Inl SI_Panic"
    from try_fold_error [OF this, of "\<lambda>_. True"] show False by (simp add: ok_or_Inl)
  qed
  show ?thesis
  proof (cases "sc_segments st = []")
    case True
    then show ?thesis using sym by (auto simp: si_finish_def and_then_Inl)
  next
    case False
    then have "last segs \<in> set segs" using set by (metis last_in_set set_empty)
    note last = plus [OF this]
    show ?thesis
      unfolding si_finish_def segs_def [symmetric] Let_def last
      by (intro branch_no_panic and_then_no_panic;
          (rule sym | rule nb | rule fo | rule copied | rule si_align_up_no_panic | simp add: ok_or_Inl))
  qed
qed

lemma si_parse_image_no_panic: "si_parse_image room source \<noteq> Inl SI_Panic"
proof (cases "SI_MAX_FILE_SIZE < length source")
  case False
  then have len: "length source < 2 ^ 64" by (simp add: SI_MAX_FILE_SIZE_def)
  have ok: "startup_state_ok source st"
    if "si_commands source commands n 0 initial_startup_state = Inr (st, offset)" for commands n st offset
    by (rule si_commands_keep [OF that _ len]) (simp add: startup_state_ok_def initial_startup_state_def)
  show ?thesis
    unfolding si_parse_image_def Let_def
    by (intro branch_no_panic and_then_no_panic;
        (rule no_panics | rule si_commands_no_panic [OF len] |
         auto simp: si_finish_no_panic [OF ok len] split: if_splits))
qed (simp add: si_parse_image_def)

section \<open>The plan\<close>

lemma plan_startup_no_panic: "plan_startup sr tr sptm txm physical_base occupied_end n \<noteq> Inl SI_Panic"
proof
  assume "plan_startup sr tr sptm txm physical_base occupied_end n = Inl SI_Panic"
  then show False
    unfolding plan_startup_def Let_def
    by (auto simp: and_then_Inl ok_or_Inl ok_or_Inr si_parse_image_no_panic si_align_up_no_panic
        checked_sub_None checked_add_Some max_def word_le_nat_alt dest!: si_align_up_Inr(1) split: if_splits)
qed

definition page_aligned :: "u64 \<Rightarrow> bool" where
  "page_aligned a \<longleftrightarrow> unat a mod 16384 = 0"

text \<open>Where the two images go: behind what is occupied, one behind the other, inside the arena.\<close>

definition placed_well :: "u64 \<Rightarrow> u64 \<Rightarrow> nat \<Rightarrow> startup_placement \<Rightarrow> bool" where
  "placed_well physical_base occupied_end n p \<longleftrightarrow>
     page_aligned (pl_physical_base (su_sptm p)) \<and> page_aligned (pl_physical_base (su_txm p)) \<and>
     unat occupied_end \<le> unat (pl_physical_base (su_sptm p)) \<and>
     unat physical_base \<le> unat (pl_physical_base (su_sptm p)) \<and>
     unat (pl_physical_base (su_sptm p)) + pl_bytes (su_sptm p) \<le> unat (pl_physical_base (su_txm p)) \<and>
     unat (pl_physical_base (su_txm p)) + pl_bytes (su_txm p) = unat (su_occupied_end p) \<and>
     unat (su_occupied_end p) \<le> unat physical_base + n"

definition placement_of :: "startup_image \<Rightarrow> image_placement \<Rightarrow> bool" where
  "placement_of img p \<longleftrightarrow> pl_virtual_base p = si_virtual_base img \<and> pl_bytes p = si_span img \<and>
     pl_copied_bytes p = si_copied_bytes img"

lemma plan_startup_Inr:
  assumes "plan_startup sr tr sptm txm physical_base occupied_end n = Inr (sptm_image, txm_image, a, b, p)"
  shows "si_parse_image sr sptm = Inr sptm_image \<and> si_parse_image tr txm = Inr txm_image \<and>
    placed_well physical_base occupied_end n p \<and>
    placement_of sptm_image (su_sptm p) \<and> placement_of txm_image (su_txm p) \<and>
    a = unat (pl_physical_base (su_sptm p)) - unat physical_base \<and>
    b = unat (pl_physical_base (su_txm p)) - unat physical_base"
proof -
  obtain memory_len arena_end sptm_base sptm_end txm_base txm_end sptm_off txm_off :: u64
    where si: "si_parse_image sr sptm = Inr sptm_image" and ti: "si_parse_image tr txm = Inr txm_image"
    and ml: "u64_of_usize n = Some memory_len" and ae: "checked_add physical_base memory_len = Some arena_end"
    and sb: "si_align_up (max occupied_end physical_base) = Inr sptm_base"
    and se: "checked_add sptm_base (of_nat (si_span sptm_image)) = Some sptm_end"
    and tb: "si_align_up sptm_end = Inr txm_base"
    and te: "checked_add txm_base (of_nat (si_span txm_image)) = Some txm_end"
    and fits: "\<not> arena_end < txm_end"
    and so: "checked_sub sptm_base physical_base = Some sptm_off"
    and toff: "checked_sub txm_base physical_base = Some txm_off"
    and p: "(sptm_image, txm_image, unat sptm_off, unat txm_off,
       \<lparr> su_sptm = \<lparr> pl_physical_base = sptm_base, pl_virtual_base = si_virtual_base sptm_image,
                      pl_bytes = si_span sptm_image, pl_copied_bytes = si_copied_bytes sptm_image \<rparr>,
         su_txm = \<lparr> pl_physical_base = txm_base, pl_virtual_base = si_virtual_base txm_image,
                     pl_bytes = si_span txm_image, pl_copied_bytes = si_copied_bytes txm_image \<rparr>,
         su_occupied_end = txm_end \<rparr>) = (sptm_image, txm_image, a, b, p)"
    using assms unfolding plan_startup_def Let_def if_Inl_Inr and_then_Inr ok_or_Inr sum.inject
    by (elim exE conjE) (rule that, auto)
  have span: "unat (of_nat (si_span img) :: u64) = si_span img" if "startup_image_ok img" for img
    using that by (simp add: startup_image_ok_def unat_of_nat)
  note spans = span [OF conjunct2 [OF si_parse_image_Inr [OF si]]] span [OF conjunct2 [OF si_parse_image_Inr [OF ti]]]
  have "unat occupied_end \<le> unat sptm_base" "unat physical_base \<le> unat sptm_base"
    using si_align_up_Inr(1) [OF sb] by (auto simp: max_def word_le_nat_alt split: if_splits)
  moreover have "unat sptm_base + si_span sptm_image \<le> unat txm_base"
    using si_align_up_Inr(1) [OF tb] se spans by (simp add: checked_add_Some)
  moreover have "unat txm_base + si_span txm_image = unat txm_end" "unat txm_end \<le> unat physical_base + n"
    using te spans fits ae ml by (auto simp: checked_add_Some u64_of_usize_Some word_nat)
  moreover have "a = unat sptm_base - unat physical_base" "b = unat txm_base - unat physical_base"
    using p so toff by (auto simp: checked_sub_Some)
  ultimately show ?thesis
    using p si ti si_align_up_Inr(3) [OF sb] si_align_up_Inr(3) [OF tb]
    by (auto simp: placed_well_def placement_of_def page_aligned_def)
qed

section \<open>The call\<close>

lemma on_slice_loaded:
  assumes "startup_image_ok img" and "a + si_span img \<le> length memory"
  shows "on_slice a (a + si_span img) (stage_image img) memory = (Inr (), put_bytes memory a (loaded img))"
  using stage_image_loaded [OF assms(1), of "take (si_span img) (drop a memory)"] assms(2)
  by (simp add: on_slice_def get_range_def)

lemma stage_startup_images_eq:
  "stage_startup_images sr tr sptm txm physical_base occupied_end memory =
   (case plan_startup sr tr sptm txm physical_base occupied_end (length memory) of
      Inl e \<Rightarrow> (Inl e, memory)
    | Inr (sptm_image, txm_image, a, b, result) \<Rightarrow>
        (Inr result, put_bytes (put_bytes memory a (loaded sptm_image)) b (loaded txm_image)))"
proof (cases "plan_startup sr tr sptm txm physical_base occupied_end (length memory)")
  case (Inr r)
  obtain sptm_image txm_image a b p where r: "r = (sptm_image, txm_image, a, b, p)" by (cases r)
  note P = plan_startup_Inr [OF Inr [unfolded r]]
  have ok: "startup_image_ok sptm_image" "startup_image_ok txm_image" using P si_parse_image_Inr by auto
  have fit: "a + si_span sptm_image \<le> length memory" "b + si_span txm_image \<le> length memory"
    using P by (auto simp: placed_well_def placement_of_def)
  then show ?thesis
    by (simp add: stage_startup_images_def Inr r on_slice_loaded [OF ok(1)] on_slice_loaded [OF ok(2)])
qed (simp add: stage_startup_images_def)

text \<open>
  C34. Nothing is written before both companions are planned, and then the call cannot fail: an
  error leaves the memory as it was and is neither a panic nor a mismatch of the readback.
\<close>

theorem startup_all_or_nothing:
  "case stage_startup_images sr tr sptm txm physical_base occupied_end memory of
     (Inl e, memory') \<Rightarrow> memory' = memory \<and> e \<noteq> SI_Panic \<and>
       plan_startup sr tr sptm txm physical_base occupied_end (length memory) = Inl e
   | (Inr result, memory') \<Rightarrow> length memory' = length memory \<and>
       placed_well physical_base occupied_end (length memory) result"
proof (cases "plan_startup sr tr sptm txm physical_base occupied_end (length memory)")
  case (Inl e)
  then show ?thesis using plan_startup_no_panic by (auto simp: stage_startup_images_eq)
next
  case (Inr r)
  obtain sptm_image txm_image a b p where r: "r = (sptm_image, txm_image, a, b, p)" by (cases r)
  note P = plan_startup_Inr [OF Inr [unfolded r]]
  then have "a + si_span sptm_image \<le> length memory" "b + si_span txm_image \<le> length memory"
    by (auto simp: placed_well_def placement_of_def)
  then show ?thesis using P by (simp add: stage_startup_images_eq Inr r)
qed

section \<open>What stands in the memory\<close>

definition holds_image :: "byte_string \<Rightarrow> nat \<Rightarrow> startup_image \<Rightarrow> bool" where
  "holds_image memory at img \<longleftrightarrow>
     (\<forall>s \<in> set (si_segments img). unat (si_virtual_base img) \<le> unat (st_vmaddr s) \<and>
        (\<forall>k < unat (st_vmsize s).
           memory ! (at + (unat (st_vmaddr s) - unat (si_virtual_base img)) + k) =
             (if k < st_filesize s then si_source img ! (st_fileoff s + k) else 0))) \<and>
     (\<forall>i < si_span img. (\<forall>s \<in> set (si_segments img).
          unat (si_virtual_base img) + i < unat (st_vmaddr s) \<or>
          unat (st_vmaddr s) + unat (st_vmsize s) \<le> unat (si_virtual_base img) + i) \<longrightarrow>
        memory ! (at + i) = 0)"

lemma loaded_holds:
  assumes ok: "startup_image_ok img"
    and mem: "\<And>i. i < si_span img \<Longrightarrow> memory ! (at + i) = loaded img ! i"
  shows "holds_image memory at img"
proof -
  let ?of = "staging_of (si_virtual_base img)"
  have ch: "chain (length (si_source img)) 0 (staging_segments img)"
    "chain_end 0 (staging_segments img) \<le> si_span img"
    and low: "unat (si_virtual_base img) \<le> unat (st_vmaddr s)" if "s \<in> set (si_segments img)" for s
    using ok that by (auto simp: startup_image_ok_def)
  have of: "ss_destination_offset (?of s) = unat (st_vmaddr s) - unat (si_virtual_base img)"
    "ss_memory_size (?of s) = unat (st_vmsize s)" "ss_file_size (?of s) = st_filesize s"
    "ss_file_offset (?of s) = st_fileoff s" for s
    by (simp_all add: staging_of_def)
  have chs: "chain (length (si_source img)) 0 (staging_segments img)" using ok by (simp add: startup_image_ok_def)
  have byte: "memory ! (at + i) = staged_byte (si_source img) (staging_segments img) i" if "i < si_span img" for i
    using mem [OF that] that by (simp add: loaded_def)
  have "memory ! (at + (unat (st_vmaddr s) - unat (si_virtual_base img)) + k) =
      (if k < st_filesize s then si_source img ! (st_fileoff s + k) else 0)"
    if s: "s \<in> set (si_segments img)" and k: "k < unat (st_vmsize s)" for s k
  proof -
    let ?a = "unat (st_vmaddr s) - unat (si_virtual_base img)"
    have m: "?of s \<in> set (staging_segments img)" using s by (simp add: staging_segments_def)
    have "?a + k < si_span img" using chain_mem(2) [OF chs m] ch(2) [OF s] k by (simp add: of)
    then have "memory ! (at + (?a + k)) = staged_byte (si_source img) (staging_segments img) (?a + k)" by (rule byte)
    then show ?thesis using staged_byte_owned [OF chs m, of "?a + k"] k by (simp add: of add.assoc)
  qed
  moreover have "memory ! (at + i) = 0"
    if i: "i < si_span img" and out: "\<forall>s \<in> set (si_segments img).
          unat (si_virtual_base img) + i < unat (st_vmaddr s) \<or>
          unat (st_vmaddr s) + unat (st_vmsize s) \<le> unat (si_virtual_base img) + i" for i
  proof -
    have "staged_byte (si_source img) (staging_segments img) i = 0"
    proof (rule staged_byte_hole)
      fix t assume "t \<in> set (staging_segments img)"
      then obtain s where s: "s \<in> set (si_segments img)" "t = ?of s" by (auto simp: staging_segments_def)
      show "i < ss_destination_offset t \<or> ss_destination_offset t + ss_memory_size t \<le> i"
        using out [rule_format, OF s(1)] low [OF s(1)] by (auto simp: s(2) of)
      show "ss_file_size t \<le> ss_memory_size t"
        using chain_mem(3) [OF chs] s by (simp add: staging_segments_def)
    qed
    then show ?thesis using byte [OF i] by simp
  qed
  ultimately show ?thesis using low by (simp add: holds_image_def)
qed

text \<open>
  C33. After a call that succeeds both companions stand in the memory, each at its physical base:
  every segment with its file bytes and zeros behind them at the distance of its linked address
  from the virtual base, zeros between the segments, and every byte outside the two spans as it
  was. The spans lie behind what was occupied, page aligned, one behind the other, in the memory.
\<close>

theorem startup_images_loaded:
  assumes "stage_startup_images sr tr sptm txm physical_base occupied_end memory = (Inr result, memory')"
  shows "\<exists>sptm_image txm_image.
    si_parse_image sr sptm = Inr sptm_image \<and> si_parse_image tr txm = Inr txm_image \<and>
    placement_of sptm_image (su_sptm result) \<and> placement_of txm_image (su_txm result) \<and>
    placed_well physical_base occupied_end (length memory) result \<and>
    holds_image memory' (unat (pl_physical_base (su_sptm result)) - unat physical_base) sptm_image \<and>
    holds_image memory' (unat (pl_physical_base (su_txm result)) - unat physical_base) txm_image \<and>
    length memory' = length memory \<and>
    (\<forall>i < length memory.
      (unat physical_base + i < unat (pl_physical_base (su_sptm result)) \<or>
       unat (pl_physical_base (su_sptm result)) + pl_bytes (su_sptm result) \<le> unat physical_base + i) \<and>
      (unat physical_base + i < unat (pl_physical_base (su_txm result)) \<or>
       unat (pl_physical_base (su_txm result)) + pl_bytes (su_txm result) \<le> unat physical_base + i) \<longrightarrow>
      memory' ! i = memory ! i)"
proof -
  obtain sptm_image txm_image a b where
    plan: "plan_startup sr tr sptm txm physical_base occupied_end (length memory) =
      Inr (sptm_image, txm_image, a, b, result)"
    and m: "memory' = put_bytes (put_bytes memory a (loaded sptm_image)) b (loaded txm_image)"
    using assms unfolding stage_startup_images_eq
    by (auto split: sum.splits)
  note P = plan_startup_Inr [OF plan]
  have ok: "startup_image_ok sptm_image" "startup_image_ok txm_image" using P si_parse_image_Inr by auto
  have fit: "a + si_span sptm_image \<le> b" "b + si_span txm_image \<le> length memory"
    using P by (auto simp: placed_well_def placement_of_def)
  have at: "memory' ! i = (if b \<le> i \<and> i < b + si_span txm_image then loaded txm_image ! (i - b)
      else if a \<le> i \<and> i < a + si_span sptm_image then loaded sptm_image ! (i - a) else memory ! i)"
    if "i < length memory" for i
    using fit that by (simp add: m nth_put_bytes)
  have "holds_image memory' a sptm_image" "holds_image memory' b txm_image"
    by (rule loaded_holds [OF ok(1)], use at fit in simp) (rule loaded_holds [OF ok(2)], use at fit in simp)
  moreover have "memory' ! i = memory ! i"
    if "i < length memory"
      and "unat physical_base + i < unat (pl_physical_base (su_sptm result)) \<or>
        unat (pl_physical_base (su_sptm result)) + pl_bytes (su_sptm result) \<le> unat physical_base + i"
      and "unat physical_base + i < unat (pl_physical_base (su_txm result)) \<or>
        unat (pl_physical_base (su_txm result)) + pl_bytes (su_txm result) \<le> unat physical_base + i" for i
  proof -
    have "\<not> (b \<le> i \<and> i < b + si_span txm_image)" "\<not> (a \<le> i \<and> i < a + si_span sptm_image)"
      using P that(2,3) by (auto simp: placed_well_def placement_of_def)
    then show ?thesis using at [OF that(1)] by (simp only: if_False)
  qed
  moreover have "length memory' = length memory" using fit by (simp add: m)
  ultimately show ?thesis using P by blast
qed

end
