(* ===== verification/Arm64_Startup_Sample.thy ===== *)
theory Arm64_Startup_Sample
  imports Arm64_Startup_Image_Theorems Le_Image
begin

text \<open>A small companion of one segment, as the witness of the theorems on startup images.\<close>

definition startup_header :: "u32 list" where
  "startup_header = [0xfeedfacf, 0x0100000c, 2, 2, 1, 72, 1, 0]"

definition startup_command :: "u32 list" where
  "startup_command = [25, 72, 0x45545f5f, 0x5458, 0, 0, 0x4000, 0, 0x4000, 0, 0, 0, 104, 0, 5, 5, 0, 0]"

definition startup_file :: byte_string where
  "startup_file = le_image (startup_header @ startup_command)"

definition startup_sample_segment :: startup_segment where
  "startup_sample_segment = \<lparr> st_vmaddr = 0x4000, st_vmsize = 0x4000, st_fileoff = 0, st_filesize = 104 \<rparr>"

definition startup_sample :: startup_image where
  "startup_sample = \<lparr> si_source = startup_file, si_segments = [startup_sample_segment],
     si_virtual_base = 0x4000, si_span = 0x4000, si_copied_bytes = 104 \<rparr>"

lemma si_read_image:
  "k mod 4 = 0 \<Longrightarrow> k div 4 < length ws \<Longrightarrow> k < 2 ^ 63 \<Longrightarrow> si_read32 (le_image ws) k = Inr (ws ! (k div 4))"
  "k mod 4 = 0 \<Longrightarrow> Suc (k div 4) < length ws \<Longrightarrow> k < 2 ^ 63 \<Longrightarrow>
    si_read64 (le_image ws) k = Inr (from_le_bytes (le_image [ws ! (k div 4), ws ! Suc (k div 4)]))"
  "k mod 4 = 0 \<Longrightarrow> n mod 4 = 0 \<Longrightarrow> k + n \<le> 4 * length ws \<Longrightarrow> k + n < 2 ^ 63 \<Longrightarrow>
    si_bytes (le_image ws) k n = Inr (le_image (take (n div 4) (drop (k div 4) ws)))"
  using le_word_at [of k ws] le_words_at [of k ws] le_slice_at [of k n ws]
  by (simp_all add: si_read32_def si_read64_def si_bytes_def usize_add_def get_range_def del: le_image_simps)

lemma startup_words: "length startup_header = 8" "length startup_command = 18"
  by (simp_all add: startup_header_def startup_command_def)

lemma startup_parsed: "si_parse_image True startup_file = Inr startup_sample"
proof -
  let ?cmd = "le_image startup_command"
  let ?st = "initial_startup_state\<lparr> sc_segments := [startup_sample_segment] \<rparr>"
  have len: "length startup_file = 104" "length ?cmd = 72" by (simp_all add: startup_file_def startup_words)
  have header: "si_read32 startup_file 0 = Inr 0xfeedfacf"
    by (simp add: startup_file_def si_read_image startup_header_def startup_words del: le_image_simps)
  have h: "si_read32 (le_image startup_header) 4 = Inr 0x0100000c" "si_read32 (le_image startup_header) 8 = Inr 2"
    "si_read32 (le_image startup_header) 12 = Inr 2" "si_read32 (le_image startup_header) 16 = Inr 1"
    "si_read32 (le_image startup_header) 20 = Inr 72" "si_read32 (le_image startup_header) 24 = Inr 1"
    "si_read32 (le_image startup_header) 28 = Inr 0"
    by (simp_all add: si_read_image startup_header_def del: le_image_simps)
  have parts: "si_bytes startup_file 0 32 = Inr (le_image startup_header)"
    "si_bytes startup_file 32 72 = Inr ?cmd" "si_bytes ?cmd 0 72 = Inr ?cmd"
    "si_bytes startup_file 0 104 = Inr startup_file"
    by (simp_all add: startup_file_def si_read_image startup_words del: le_image_simps)
  have c: "si_read32 ?cmd 0 = Inr 25" "si_read32 ?cmd 4 = Inr 72" "si_read32 ?cmd 64 = Inr 0"
    "si_read64 ?cmd 24 = Inr 0x4000" "si_read64 ?cmd 32 = Inr 0x4000" "si_read64 ?cmd 40 = Inr 0"
    "si_read64 ?cmd 48 = Inr 104"
    by (simp_all add: si_read_image startup_command_def from_le_two_words del: le_image_simps)
  have name: "get_range ?cmd 8 24 = Some (le_image [0x45545f5f, 0x5458, 0, 0])"
    using get_range_le_image [of 2 6 startup_command] by (simp add: startup_command_def del: le_image_simps)
  have other: "le_image [0x45545f5f, 0x5458, 0, 0] \<noteq> PAGEZERO_NAME"
  proof
    assume eq: "le_image [0x45545f5f, 0x5458, 0, 0] = PAGEZERO_NAME"
    have "from_le_bytes (take 4 (le_image [0x45545f5f, 0x5458, 0, 0])) = (0x45545f5f :: u32)" by simp
    moreover have "from_le_bytes (take 4 PAGEZERO_NAME) = (0x41505f5f :: u32)"
      by (simp add: PAGEZERO_NAME_def from_le_bytes_def)
    ultimately show False unfolding eq by simp
  qed
  have "si_segment_command startup_file ?cmd initial_startup_state = Inr ?st"
    using other parts
    by (simp add: si_segment_command_def len startup_words c name Let_def usize_mul_def usize_add_def SI_MAX_SEGMENTS_def
        checked_add_def initial_startup_state_def startup_sample_segment_def del: le_image_simps)
  then have cmds: "si_commands startup_file ?cmd 1 0 initial_startup_state = Inr (?st, 72)"
    by (simp add: c parts Let_def usize_add_def si_command_def LC_SEGMENT_64_def del: le_image_simps)
  have "si_finish startup_file 72 ?st = Inr startup_sample"
    by (simp add: si_finish_def initial_startup_state_def check_symbols_def startup_sample_segment_def
        si_plus_def checked_add_def si_align_up_def SI_PAGE_SIZE_def checked_sub_def SI_MAX_IMAGE_SIZE_def
        usize_add_def startup_sample_def)
  then show ?thesis
    using cmds
    by (simp add: si_parse_image_def len startup_words header h parts SI_MAX_FILE_SIZE_def SI_MAX_COMMANDS_def
        SI_MAX_COMMAND_BYTES_def Let_def del: le_image_simps si_commands.simps)
qed

definition startup_result :: startup_placement where
  "startup_result = \<lparr> su_sptm = \<lparr> pl_physical_base = 0x8000, pl_virtual_base = 0x4000, pl_bytes = 0x4000,
       pl_copied_bytes = 104 \<rparr>,
     su_txm = \<lparr> pl_physical_base = 0xc000, pl_virtual_base = 0x4000, pl_bytes = 0x4000, pl_copied_bytes = 104 \<rparr>,
     su_occupied_end = 0x10000 \<rparr>"

lemma startup_planned:
  "plan_startup True True startup_file startup_file 0x4000 0x4001 0xc000 =
   Inr (startup_sample, startup_sample, 0x4000, 0x8000, startup_result)"
  by (simp add: plan_startup_def startup_parsed u64_of_usize_def checked_add_def si_align_up_def SI_PAGE_SIZE_def
      startup_sample_def checked_sub_def usize_add_def startup_result_def max_def)

lemma startup_images_loaded_witness:
  "\<exists>memory'. stage_startup_images True True startup_file startup_file 0x4000 0x4001 (replicate 0xc000 0xff) =
      (Inr startup_result, memory') \<and>
    memory' ! 0x4000 = startup_file ! 0 \<and> memory' ! 0x8067 = startup_file ! 103 \<and> memory' ! 0x8068 = 0 \<and>
    memory' ! 1 = 0xff"
proof -
  let ?memory = "replicate 0xc000 (0xff :: u8)"
  obtain memory' where run: "stage_startup_images True True startup_file startup_file 0x4000 0x4001 ?memory =
      (Inr startup_result, memory')"
    using startup_planned by (simp add: stage_startup_images_eq)
  obtain sptm_image txm_image where
    L: "si_parse_image True startup_file = Inr sptm_image" "si_parse_image True startup_file = Inr txm_image"
      "holds_image memory' (unat (pl_physical_base (su_sptm startup_result)) - unat (0x4000 :: u64)) sptm_image"
      "holds_image memory' (unat (pl_physical_base (su_txm startup_result)) - unat (0x4000 :: u64)) txm_image"
    and frame: "\<forall>i < length ?memory.
      (unat (0x4000 :: u64) + i < unat (pl_physical_base (su_sptm startup_result)) \<or>
       unat (pl_physical_base (su_sptm startup_result)) + pl_bytes (su_sptm startup_result) \<le> unat (0x4000 :: u64) + i) \<and>
      (unat (0x4000 :: u64) + i < unat (pl_physical_base (su_txm startup_result)) \<or>
       unat (pl_physical_base (su_txm startup_result)) + pl_bytes (su_txm startup_result) \<le> unat (0x4000 :: u64) + i) \<longrightarrow>
      memory' ! i = ?memory ! i"
    using startup_images_loaded [OF run] by blast
  have img: "sptm_image = startup_sample" "txm_image = startup_sample" using L(1,2) startup_parsed by auto
  have hold: "memory' ! (at + k) = (if k < 104 then startup_file ! k else 0)"
    if "holds_image memory' at startup_sample" "k < 0x4000" for at k
  proof -
    have "si_segments startup_sample = [startup_sample_segment]" "si_source startup_sample = startup_file"
      "unat (si_virtual_base startup_sample) = 0x4000" "unat (st_vmaddr startup_sample_segment) = 0x4000"
      "unat (st_vmsize startup_sample_segment) = 0x4000" "st_fileoff startup_sample_segment = 0"
      "st_filesize startup_sample_segment = 104"
      by (simp_all add: startup_sample_def startup_sample_segment_def)
    note sel = this
    show ?thesis
      using that(1) [unfolded holds_image_def sel list.set ball_simps diff_self_eq_0 add_0 add_0_right] that(2) sel
      by simp
  qed
  have at: "holds_image memory' 0x4000 startup_sample" "holds_image memory' 0x8000 startup_sample"
    using L(3,4) by (simp_all add: img startup_result_def)
  have "memory' ! 0x4000 = startup_file ! 0" "memory' ! 0x8067 = startup_file ! 103" "memory' ! 0x8068 = 0"
    using hold [OF at(1), of 0] hold [OF at(2), of 103] hold [OF at(2), of 104] by simp_all
  moreover have "memory' ! 1 = 0xff"
    using frame [rule_format, of 1] by (simp add: startup_result_def)
  ultimately show ?thesis using run by blast
qed

end
