(* ===== verification/Rust_Text.thy ===== *)
theory Rust_Text
  imports Utf8 Slices
begin

text \<open>
  The string operations of the standard library that the parsers of text use. A \<^verbatim>\<open>str\<close> is its
  UTF-8 bytes: \<^verbatim>\<open>lines\<close>, \<^verbatim>\<open>strip_prefix\<close>, \<^verbatim>\<open>parse\<close> and the comparison without case only look
  at ASCII bytes, which are characters of their own.
\<close>

definition ascii :: "string \<Rightarrow> byte_string" where
  "ascii s = map of_char s"

lemma length_ascii [simp]: "length (ascii s) = length s"
  by (simp add: ascii_def)

definition is_digit :: "u8 \<Rightarrow> bool" where
  "is_digit b \<longleftrightarrow> 48 \<le> b \<and> b \<le> 57"

definition is_alphanumeric :: "u8 \<Rightarrow> bool" where
  "is_alphanumeric b \<longleftrightarrow> is_digit b \<or> (65 \<le> b \<and> b \<le> 90) \<or> (97 \<le> b \<and> b \<le> 122)"

definition to_lowercase :: "u8 \<Rightarrow> u8" where
  "to_lowercase b = (if 65 \<le> b \<and> b \<le> 90 then b + 32 else b)"

definition eq_ignore_case :: "byte_string \<Rightarrow> byte_string \<Rightarrow> bool" where
  "eq_ignore_case a b \<longleftrightarrow> map to_lowercase a = map to_lowercase b"

definition starts_with :: "'a list \<Rightarrow> 'a list \<Rightarrow> bool" where
  "starts_with bs p \<longleftrightarrow> take (length p) bs = p"

definition strip_prefix :: "'a list \<Rightarrow> 'a list \<Rightarrow> 'a list option" where
  "strip_prefix bs p = (if starts_with bs p then Some (drop (length p) bs) else None)"

lemma strip_prefix_Some [result_iff]: "strip_prefix bs p = Some v \<longleftrightarrow> bs = p @ v"
  by (auto simp: strip_prefix_def starts_with_def) (metis append_take_drop_id)

lemma strip_prefix_append [simp]: "strip_prefix (p @ v) p = Some v"
  by (simp add: strip_prefix_Some)

section \<open>Lines\<close>

text \<open>
  \<^verbatim>\<open>str::lines\<close>: a line ends in a line feed, which is dropped with a carriage return before it;
  what follows the last line feed is a line where it is not empty.
\<close>

definition strip_cr :: "byte_string \<Rightarrow> byte_string" where
  "strip_cr l = (if l \<noteq> [] \<and> last l = 13 then butlast l else l)"

fun lines_from :: "byte_string \<Rightarrow> byte_string \<Rightarrow> byte_string list" where
  "lines_from current [] = (if current = [] then [] else [current])"
| "lines_from current (b # bs) =
     (if b = 10 then strip_cr current # lines_from [] bs else lines_from (current @ [b]) bs)"

definition text_lines :: "byte_string \<Rightarrow> byte_string list" where
  "text_lines text = lines_from [] text"

lemma lines_from_line: "10 \<notin> set l \<Longrightarrow> lines_from current (l @ 10 # bs) = strip_cr (current @ l) # lines_from [] bs"
  by (induction l arbitrary: current) auto

definition plain_line :: "byte_string \<Rightarrow> bool" where
  "plain_line l \<longleftrightarrow> 10 \<notin> set l \<and> 13 \<notin> set l"

lemma plain_line_append [simp]: "plain_line (a @ b) \<longleftrightarrow> plain_line a \<and> plain_line b"
  by (auto simp: plain_line_def)

lemma strip_cr_plain: "plain_line l \<Longrightarrow> strip_cr l = l"
  by (cases "l = []") (auto simp: strip_cr_def plain_line_def dest: last_in_set)

lemma text_lines_concat:
  "(\<And>l. l \<in> set ls \<Longrightarrow> plain_line l) \<Longrightarrow> text_lines (concat (map (\<lambda>l. l @ [10]) ls)) = ls"
proof (induction ls)
  case (Cons l ls)
  then have "plain_line l" by simp
  then show ?case
    using Cons lines_from_line [of l "[]"] strip_cr_plain [of l] by (simp add: text_lines_def plain_line_def)
qed (simp add: text_lines_def)

section \<open>Numbers\<close>

text \<open>
  \<^verbatim>\<open>str::parse::<usize>\<close> and \<^verbatim>\<open><u64>\<close>, and \<^verbatim>\<open>u64::from_str_radix\<close>: an optional plus sign and at
  least one digit of the radix, without a value that reaches \<open>2 ^ 64\<close>. Where it fails the callers
  throw the reason away. The argument is the list of the character codes.
\<close>

definition digit_value :: "nat \<Rightarrow> nat \<Rightarrow> nat option" where
  "digit_value radix c =
     (let d = if 48 \<le> c \<and> c \<le> 57 then c - 48
              else if 65 \<le> c \<and> c \<le> 90 then c - 55
              else if 97 \<le> c \<and> c \<le> 122 then c - 87 else radix in
      if d < radix then Some d else None)"

fun parse_digits :: "nat \<Rightarrow> nat \<Rightarrow> nat list \<Rightarrow> nat option" where
  "parse_digits radix n [] = Some n"
| "parse_digits radix n (c # cs) =
     (case digit_value radix c of
        None \<Rightarrow> None
      | Some d \<Rightarrow> if n * radix + d < 2 ^ 64 then parse_digits radix (n * radix + d) cs else None)"

definition parse_number :: "nat \<Rightarrow> nat list \<Rightarrow> nat option" where
  "parse_number radix cs =
     (let digits = if starts_with cs [43] then drop 1 cs else cs in
      if digits = [] then None else parse_digits radix 0 digits)"

fun decimal_text :: "nat \<Rightarrow> byte_string" where
  "decimal_text n = (if n < 10 then [of_nat (48 + n)] else decimal_text (n div 10) @ [of_nat (48 + n mod 10)])"

declare decimal_text.simps [simp del]

lemma digit_value_decimal [simp]: "d < 10 \<Longrightarrow> digit_value 10 (unat (of_nat (48 + d) :: u8)) = Some d"
  by (simp add: digit_value_def unat_of_nat del: of_nat_add)

lemma parse_digits_append:
  "parse_digits r n (a @ b) = (case parse_digits r n a of None \<Rightarrow> None | Some m \<Rightarrow> parse_digits r m b)"
  by (induction r n a rule: parse_digits.induct) (auto split: option.splits)

lemma parse_decimal_digits: "n < 2 ^ 64 \<Longrightarrow> parse_digits 10 0 (map unat (decimal_text n)) = Some n"
proof (induction n rule: decimal_text.induct)
  case (1 n)
  show ?case
  proof (cases "n < 10")
    case True
    then show ?thesis by (simp add: decimal_text.simps [of n] del: of_nat_add)
  next
    case False
    moreover from 1 have "parse_digits 10 0 (map unat (decimal_text (n div 10))) = Some (n div 10)" using False by auto
    moreover have "n div 10 * 10 + n mod 10 = n" by simp
    ultimately show ?thesis
      using 1(2) by (simp add: decimal_text.simps [of n] parse_digits_append del: of_nat_add)
  qed
qed

lemma decimal_text_digits: "b \<in> set (decimal_text n) \<Longrightarrow> is_digit b"
proof (induction n rule: decimal_text.induct)
  case (1 n)
  have one: "is_digit (of_nat (48 + d))" if "d < 10" for d
  proof -
    from that have "d \<in> {0, 1, 2, 3, 4, 5, 6, 7, 8, 9}" by auto
    then show ?thesis by (elim insertE) (simp_all add: is_digit_def)
  qed
  show ?case
    using 1 one [of n] one [of "n mod 10"]
    by (auto simp: decimal_text.simps [of n] simp del: of_nat_add split: if_splits)
qed

lemma decimal_text_not_Nil [simp]: "decimal_text n \<noteq> []"
  by (simp add: decimal_text.simps [of n])

lemma parse_decimal [simp]: "n < 2 ^ 64 \<Longrightarrow> parse_number 10 (map unat (decimal_text n)) = Some n"
proof -
  assume n: "n < 2 ^ 64"
  have "\<not> starts_with (map unat (decimal_text n)) [43]"
  proof
    assume "starts_with (map unat (decimal_text n)) [43]"
    then have "43 \<in> set (decimal_text n)" by (cases "decimal_text n") (auto simp: starts_with_def word_unat_eq_iff)
    then show False using decimal_text_digits [of 43 n] by (simp add: is_digit_def)
  qed
  then show ?thesis using parse_decimal_digits [OF n] by (simp add: parse_number_def)
qed

lemma digit_plain: "is_digit b \<Longrightarrow> b < 0x80 \<and> b \<noteq> 10 \<and> b \<noteq> 13"
  by (auto simp: is_digit_def word_le_nat_alt word_less_nat_alt)

lemma plain_decimal [simp]: "plain_line (decimal_text n)"
  using decimal_text_digits digit_plain by (auto simp: plain_line_def)

end
