(* ===== verification/Selected_Boot_Input.thy ===== *)
theory Selected_Boot_Input
  imports Rust_Text
begin

text \<open>
  The byte gate of \<^verbatim>\<open>selected_boot_input.rs\<close>: the records that name an image, its size and its
  digest, their parsers, and the checks of the bytes against them. The digest function of the
  crate \<^verbatim>\<open>sha2\<close> is the argument \<open>sha256\<close>; a digest \<^verbatim>\<open>[u8; 32]\<close> is a byte string.
\<close>

definition MAX_SELECTED_IMAGE_BYTES :: nat where "MAX_SELECTED_IMAGE_BYTES = 64 * 1024 * 1024"
definition MAX_SELECTED_RECORD_BYTES :: nat where "MAX_SELECTED_RECORD_BYTES = 2048"
definition MAX_SELECTED_PAYLOAD_RECORD_BYTES :: nat where "MAX_SELECTED_PAYLOAD_RECORD_BYTES = 2048"
definition MAX_SELECTED_BOOTKC_BYTES :: nat where "MAX_SELECTED_BOOTKC_BYTES = 128 * 1024 * 1024"

datatype verify_error =
    Ve_MissingSelection
  | Ve_InvalidSelection
  | Ve_SizeMismatch
  | Ve_DigestMismatch
  | Ve_InvalidRecord
  | Ve_BindingMismatch
  | Ve_DestinationCapacity
  | Ve_Panic \<comment> \<open>no constructor of the source: an index out of range\<close>

record expected_image =
  ei_byte_len :: nat
  ei_sha256 :: byte_string

record selected_companion =
  co_signed_path :: byte_string
  co_signed :: expected_image
  co_decoded_path :: byte_string
  co_decoded :: expected_image

record startup_companions =
  sg_device_class :: byte_string
  sg_source_sha256 :: byte_string
  sg_manifest_sha256 :: byte_string
  sg_sptm :: selected_companion
  sg_txm :: selected_companion

record selected_boot_record =
  sr_device_class :: byte_string
  sr_source_sha256 :: byte_string
  sr_manifest_sha256 :: byte_string
  sr_image_path :: byte_string
  sr_expected :: expected_image

record selected_payload_record =
  py_signed_sha256 :: byte_string
  py_decoded_path :: byte_string
  py_expected :: expected_image

record selected_bootkc_record =
  bk_device_class :: byte_string
  bk_source_sha256 :: byte_string
  bk_manifest_sha256 :: byte_string
  bk_signed_path :: byte_string
  bk_signed :: expected_image
  bk_decoded_path :: byte_string
  bk_decoded :: expected_image

section \<open>The fields of a record\<close>

definition expected_image_new :: "nat \<Rightarrow> byte_string \<Rightarrow> verify_error + expected_image" where
  "expected_image_new byte_len sha =
     (if byte_len = 0 \<or> MAX_SELECTED_IMAGE_BYTES < byte_len then Inl Ve_InvalidSelection
      else Inr \<lparr> ei_byte_len = byte_len, ei_sha256 = sha \<rparr>)"

definition hex_nibble :: "u8 \<Rightarrow> u8 option" where
  "hex_nibble b =
     (if 48 \<le> b \<and> b \<le> 57 then Some (b - 48)
      else if 97 \<le> b \<and> b \<le> 102 then Some (b - 97 + 10) else None)"

definition hex_pair :: "byte_string \<Rightarrow> verify_error + u8" where
  "hex_pair pair =
     and_then (ok_or (hex_nibble (pair ! 0)) Ve_InvalidRecord) (\<lambda>high.
     and_then (ok_or (hex_nibble (pair ! 1)) Ve_InvalidRecord) (\<lambda>low.
     Inr (push_bit 4 high OR low)))"

definition hex_digest :: "byte_string \<Rightarrow> verify_error + byte_string" where
  "hex_digest text =
     (if length text \<noteq> 64 then Inl Ve_InvalidRecord
      else try_map hex_pair (chunks_exact 2 text 32))"

fun contains_dots :: "byte_string \<Rightarrow> bool" where
  "contains_dots (a # b # bs) = (a = 46 \<and> b = 46 \<or> contains_dots (b # bs))"
| "contains_dots _ = False"

definition valid_efi_path :: "byte_string \<Rightarrow> bool" where
  "valid_efi_path path \<longleftrightarrow>
     2 \<le> length path \<and> length path \<le> 1024 \<and> starts_with path [92] \<and> \<not> contains_dots path \<and>
     list_all (\<lambda>b. is_alphanumeric b \<or> b = 92 \<or> b = 46 \<or> b = 95 \<or> b = 45) path"

definition valid_device_class :: "byte_string \<Rightarrow> bool" where
  "valid_device_class name \<longleftrightarrow>
     name \<noteq> [] \<and> length name \<le> 64 \<and> list_all (\<lambda>b. is_alphanumeric b \<or> b = 45) name"

text \<open>The iterator over the lines is the list of the lines left.\<close>

definition field :: "byte_string list \<Rightarrow> byte_string \<Rightarrow> verify_error + byte_string \<times> byte_string list" where
  "field ls key =
     (case ls of [] \<Rightarrow> Inl Ve_InvalidRecord
      | l # rest \<Rightarrow> and_then (ok_or (strip_prefix l key) Ve_InvalidRecord) (\<lambda>v. Inr (v, rest)))"

definition hex_field :: "byte_string list \<Rightarrow> byte_string \<Rightarrow> verify_error + byte_string \<times> byte_string list" where
  "hex_field ls key =
     and_then (field ls key) (\<lambda>(v, ls). and_then (hex_digest v) (\<lambda>d. Inr (d, ls)))"

definition number_field :: "byte_string list \<Rightarrow> byte_string \<Rightarrow> verify_error + nat \<times> byte_string list" where
  "number_field ls key =
     and_then (field ls key) (\<lambda>(v, ls).
     and_then (ok_or (parse_number 10 (map unat v)) Ve_InvalidRecord) (\<lambda>n. Inr (n, ls)))"

text \<open>The checks of the whole input and of its first line.\<close>

definition record_lines ::
  "nat \<Rightarrow> byte_string \<Rightarrow> byte_string \<Rightarrow> verify_error + byte_string list" where
  "record_lines limit title input =
     (if input = [] \<or> limit < length input \<or> last input \<noteq> 10 then Inl Ve_InvalidRecord
      else if \<not> utf8_valid input then Inl Ve_InvalidRecord
      else
      case text_lines input of
        [] \<Rightarrow> Inl Ve_InvalidRecord
      | l # ls \<Rightarrow> if l \<noteq> title then Inl Ve_InvalidRecord else Inr ls)"

text \<open>The identity that three of the records begin with.\<close>

definition identity_fields ::
  "byte_string list \<Rightarrow> verify_error + (byte_string \<times> byte_string \<times> byte_string) \<times> byte_string list" where
  "identity_fields ls =
     and_then (field ls (ascii ''device-class='')) (\<lambda>(device_class, ls).
     if \<not> valid_device_class device_class then Inl Ve_InvalidRecord
     else
     and_then (hex_field ls (ascii ''source-sha256='')) (\<lambda>(source_sha256, ls).
     and_then (hex_field ls (ascii ''manifest-sha256='')) (\<lambda>(manifest_sha256, ls).
     Inr ((device_class, source_sha256, manifest_sha256), ls))))"

section \<open>The parsers\<close>

definition parse_companion ::
  "byte_string list \<Rightarrow> byte_string \<Rightarrow> verify_error + selected_companion \<times> byte_string list" where
  "parse_companion ls role =
     and_then (field ls (role @ ascii ''-signed-path='')) (\<lambda>(signed_path, ls).
     and_then (number_field ls (role @ ascii ''-signed-bytes='')) (\<lambda>(signed_bytes, ls).
     and_then (hex_field ls (role @ ascii ''-signed-sha256='')) (\<lambda>(signed_sha256, ls).
     and_then (field ls (role @ ascii ''-decoded-path='')) (\<lambda>(decoded_path, ls).
     and_then (number_field ls (role @ ascii ''-decoded-bytes='')) (\<lambda>(decoded_bytes, ls).
     and_then (hex_field ls (role @ ascii ''-decoded-sha256='')) (\<lambda>(decoded_sha256, ls).
     if \<not> valid_efi_path signed_path \<or> \<not> valid_efi_path decoded_path then Inl Ve_InvalidRecord
     else
     and_then (expected_image_new signed_bytes signed_sha256) (\<lambda>signed.
     and_then (expected_image_new decoded_bytes decoded_sha256) (\<lambda>decoded.
     Inr (\<lparr> co_signed_path = signed_path, co_signed = signed, co_decoded_path = decoded_path,
            co_decoded = decoded \<rparr>, ls)))))))))"

fun paths_distinct :: "byte_string list \<Rightarrow> bool" where
  "paths_distinct [] = True"
| "paths_distinct (p # ps) = (\<not> list_ex (eq_ignore_case p) ps \<and> paths_distinct ps)"

definition companion_paths :: "selected_companion \<Rightarrow> selected_companion \<Rightarrow> byte_string list" where
  "companion_paths sptm txm =
     [co_signed_path sptm, co_decoded_path sptm, co_signed_path txm, co_decoded_path txm]"

definition parse_selected_startup_companions :: "byte_string \<Rightarrow> verify_error + startup_companions" where
  "parse_selected_startup_companions input =
     and_then (record_lines MAX_SELECTED_RECORD_BYTES (ascii ''nextcore-selected-startup-companions-v1'') input) (\<lambda>ls.
     and_then (identity_fields ls) (\<lambda>((device_class, source_sha256, manifest_sha256), ls).
     and_then (parse_companion ls (ascii ''sptm'')) (\<lambda>(sptm, ls).
     and_then (parse_companion ls (ascii ''txm'')) (\<lambda>(txm, ls).
     if ls \<noteq> [] then Inl Ve_InvalidRecord
     else if \<not> paths_distinct (companion_paths sptm txm) then Inl Ve_InvalidRecord
     else Inr \<lparr> sg_device_class = device_class, sg_source_sha256 = source_sha256,
                sg_manifest_sha256 = manifest_sha256, sg_sptm = sptm, sg_txm = txm \<rparr>))))"

definition parse_selected_bootkc_record :: "byte_string \<Rightarrow> verify_error + selected_bootkc_record" where
  "parse_selected_bootkc_record input =
     and_then (record_lines MAX_SELECTED_RECORD_BYTES (ascii ''nextcore-selected-bootkc-v1'') input) (\<lambda>ls.
     and_then (identity_fields ls) (\<lambda>((device_class, source_sha256, manifest_sha256), ls).
     and_then (field ls (ascii ''signed-path='')) (\<lambda>(signed_path, ls).
     and_then (number_field ls (ascii ''signed-bytes='')) (\<lambda>(signed_bytes, ls).
     and_then (hex_field ls (ascii ''signed-sha256='')) (\<lambda>(signed_sha256, ls).
     and_then (field ls (ascii ''decoded-path='')) (\<lambda>(decoded_path, ls).
     and_then (number_field ls (ascii ''decoded-bytes='')) (\<lambda>(decoded_bytes, ls).
     and_then (hex_field ls (ascii ''decoded-sha256='')) (\<lambda>(decoded_sha256, ls).
     if ls \<noteq> [] \<or> \<not> valid_efi_path signed_path \<or> \<not> valid_efi_path decoded_path \<or> signed_path = decoded_path
     then Inl Ve_InvalidRecord
     else
     and_then (expected_image_new signed_bytes signed_sha256) (\<lambda>signed.
     if decoded_bytes = 0 \<or> MAX_SELECTED_BOOTKC_BYTES < decoded_bytes then Inl Ve_InvalidSelection
     else Inr \<lparr> bk_device_class = device_class, bk_source_sha256 = source_sha256,
                bk_manifest_sha256 = manifest_sha256, bk_signed_path = signed_path, bk_signed = signed,
                bk_decoded_path = decoded_path,
                bk_decoded = \<lparr> ei_byte_len = decoded_bytes, ei_sha256 = decoded_sha256 \<rparr> \<rparr>)))))))))"

definition parse_selected_payload_record :: "byte_string \<Rightarrow> verify_error + selected_payload_record" where
  "parse_selected_payload_record input =
     and_then (record_lines MAX_SELECTED_PAYLOAD_RECORD_BYTES (ascii ''nextcore-selected-iboot-payload-v1'') input) (\<lambda>ls.
     and_then (hex_field ls (ascii ''signed-sha256='')) (\<lambda>(signed_sha256, ls).
     and_then (field ls (ascii ''decoded-path='')) (\<lambda>(decoded_path, ls).
     if \<not> valid_efi_path decoded_path then Inl Ve_InvalidRecord
     else
     and_then (number_field ls (ascii ''decoded-bytes='')) (\<lambda>(byte_len, ls).
     and_then (hex_field ls (ascii ''decoded-sha256='')) (\<lambda>(sha, ls).
     if ls \<noteq> [] then Inl Ve_InvalidRecord
     else
     and_then (expected_image_new byte_len sha) (\<lambda>image.
     Inr \<lparr> py_signed_sha256 = signed_sha256, py_decoded_path = decoded_path, py_expected = image \<rparr>))))))"

definition parse_selected_boot_record :: "byte_string \<Rightarrow> verify_error + selected_boot_record" where
  "parse_selected_boot_record input =
     and_then (record_lines MAX_SELECTED_RECORD_BYTES (ascii ''nextcore-selected-iboot-v1'') input) (\<lambda>ls.
     and_then (identity_fields ls) (\<lambda>((device_class, source_sha256, manifest_sha256), ls).
     and_then (field ls (ascii ''image-path='')) (\<lambda>(image_path, ls).
     if \<not> valid_efi_path image_path then Inl Ve_InvalidRecord
     else
     and_then (number_field ls (ascii ''image-bytes='')) (\<lambda>(byte_len, ls).
     and_then (hex_field ls (ascii ''image-sha256='')) (\<lambda>(sha, ls).
     if ls \<noteq> [] then Inl Ve_InvalidRecord
     else
     and_then (expected_image_new byte_len sha) (\<lambda>image.
     Inr \<lparr> sr_device_class = device_class, sr_source_sha256 = source_sha256,
           sr_manifest_sha256 = manifest_sha256, sr_image_path = image_path, sr_expected = image \<rparr>))))))"

section \<open>Bindings\<close>

definition companions_bind :: "startup_companions \<Rightarrow> selected_boot_record \<Rightarrow> bool" where
  "companions_bind c selected \<longleftrightarrow>
     sg_device_class c = sr_device_class selected \<and>
     sg_source_sha256 c = sr_source_sha256 selected \<and>
     sg_manifest_sha256 c = sr_manifest_sha256 selected"

definition paths_disjoint_from :: "startup_companions \<Rightarrow> byte_string list \<Rightarrow> bool" where
  "paths_disjoint_from c reserved \<longleftrightarrow>
     list_all (\<lambda>path. list_all (\<lambda>other. \<not> eq_ignore_case path other) reserved)
       (companion_paths (sg_sptm c) (sg_txm c))"

definition bootkc_binds :: "selected_bootkc_record \<Rightarrow> selected_boot_record \<Rightarrow> bool" where
  "bootkc_binds k selected \<longleftrightarrow>
     bk_device_class k = sr_device_class selected \<and>
     bk_source_sha256 k = sr_source_sha256 selected \<and>
     bk_manifest_sha256 k = sr_manifest_sha256 selected"

definition matches_selected_path :: "selected_bootkc_record \<Rightarrow> selected_boot_record \<Rightarrow> byte_string \<Rightarrow> bool" where
  "matches_selected_path k selected configured_path \<longleftrightarrow>
     bootkc_binds k selected \<and> bk_decoded_path k = configured_path"

section \<open>The gate\<close>

text \<open>A verified image is its bytes with their digest.\<close>

definition verify_selected_image ::
  "(byte_string \<Rightarrow> byte_string) \<Rightarrow> expected_image option \<Rightarrow> byte_string \<Rightarrow> verify_error + byte_string \<times> byte_string" where
  "verify_selected_image sha256 selection source =
     and_then (ok_or selection Ve_MissingSelection) (\<lambda>selection.
     if length source \<noteq> ei_byte_len selection then Inl Ve_SizeMismatch
     else let measured = sha256 source in
       if measured \<noteq> ei_sha256 selection then Inl Ve_DigestMismatch
       else Inr (source, measured))"

definition verify_selected_record_digest ::
  "(byte_string \<Rightarrow> byte_string) \<Rightarrow> byte_string option \<Rightarrow> byte_string \<Rightarrow> verify_error + unit" where
  "verify_selected_record_digest sha256 expected rec =
     and_then (ok_or expected Ve_MissingSelection) (\<lambda>expected.
     if rec = [] \<or> MAX_SELECTED_RECORD_BYTES < length rec then Inl Ve_InvalidRecord
     else if sha256 rec \<noteq> expected then Inl Ve_DigestMismatch else Inr ())"

definition copy_selected_payload ::
  "(byte_string \<Rightarrow> byte_string) \<Rightarrow> selected_boot_record \<Rightarrow> byte_string \<Rightarrow> selected_payload_record \<Rightarrow>
   byte_string \<Rightarrow> byte_string \<Rightarrow> (verify_error + nat) \<times> byte_string" where
  "copy_selected_payload sha256 selected signed_bytes companion decoded destination =
     or_return (verify_selected_image sha256 (Some (sr_expected selected)) signed_bytes) destination (\<lambda>_.
     if py_signed_sha256 companion \<noteq> ei_sha256 (sr_expected selected) \<or>
        py_decoded_path companion = sr_image_path selected
     then (Inl Ve_BindingMismatch, destination)
     else
     or_return (verify_selected_image sha256 (Some (py_expected companion)) decoded) destination (\<lambda>(verified, _).
     if length destination < length verified then (Inl Ve_DestinationCapacity, destination)
     else
     or_return (ok_or (copy_from_slice destination (0, length verified) verified) Ve_Panic) destination
       (\<lambda>destination. (Inr (length verified), destination))))"

end
