(* ===== verification/Selected_Boot_Input_Proofs.thy ===== *)
theory Selected_Boot_Input_Proofs
  imports Selected_Boot_Input
begin

text \<open>
  What the parsers of the selected records accept, against a canonical text of every record, and
  what the gate in front of the guest memory lets through.
\<close>

section \<open>Digests\<close>

definition nibble_text :: "u8 \<Rightarrow> u8" where
  "nibble_text n = (if n < 10 then n + 48 else n - 10 + 97)"

definition byte_text :: "u8 \<Rightarrow> byte_string" where
  "byte_text b = [nibble_text (drop_bit 4 b), nibble_text (b AND 15)]"

definition hex_text :: "byte_string \<Rightarrow> byte_string" where
  "hex_text d = concat (map byte_text d)"

lemma nibble_cases:
  fixes n :: u8
  assumes "n < 16"
  shows "n \<in> {0, 1, 2, 3, 4, 5, 6, 7, 8, 9, 10, 11, 12, 13, 14, 15}"
proof -
  have "unat n < 16" using assms by (simp add: word_less_nat_alt)
  then have "unat n = 0 \<or> unat n = 1 \<or> unat n = 2 \<or> unat n = 3 \<or> unat n = 4 \<or> unat n = 5 \<or> unat n = 6 \<or>
    unat n = 7 \<or> unat n = 8 \<or> unat n = 9 \<or> unat n = 10 \<or> unat n = 11 \<or> unat n = 12 \<or> unat n = 13 \<or>
    unat n = 14 \<or> unat n = 15" by presburger
  then show ?thesis by (simp add: word_unat_eq_iff)
qed

lemma nibble_roundtrip: "n < 16 \<Longrightarrow> hex_nibble (nibble_text n) = Some n"
  by (drule nibble_cases, elim insertE) (simp_all add: hex_nibble_def nibble_text_def)

lemma nibble_text_plain: "n < 16 \<Longrightarrow> nibble_text n < 0x80 \<and> nibble_text n \<noteq> 10 \<and> nibble_text n \<noteq> 13"
  by (drule nibble_cases, elim insertE) (simp_all add: nibble_text_def)

lemma nibbles_small: "drop_bit 4 (b :: u8) < 16" "(b :: u8) AND 15 < 16"
proof -
  have "unat (drop_bit 4 b) = unat b div 16"
    unfolding unat_drop_bit_eq by (simp add: drop_bit_eq_div)
  then show "drop_bit 4 b < 16" using unsigned_less [of b, where ?'a = nat] by (simp add: word_less_nat_alt)
  have "b AND 15 \<le> 15" by (rule word_and_le1)
  also have "(15 :: u8) < 16" by simp
  finally show "b AND 15 < 16" .
qed

lemma nibbles_join: "push_bit 4 (drop_bit 4 b) OR (b AND 15) = (b :: u8)"
proof (rule bit_eqI)
  fix n
  have m: "b AND 15 = take_bit 4 b" by (simp add: take_bit_eq_mask mask_eq_exp_minus_1)
  show "bit (push_bit 4 (drop_bit 4 b) OR (b AND 15)) n \<longleftrightarrow> bit b n"
    unfolding m using bit_imp_le_length [of b n] by (auto simp: bit_simps)
qed

lemma hex_pair_byte_text: "hex_pair (byte_text b) = Inr b"
  by (simp add: hex_pair_def byte_text_def nibble_roundtrip nibbles_small nibbles_join)

lemma chunks_hex_text: "chunks_exact 2 (hex_text d) (length d) = map byte_text d"
  by (induction d) (simp_all add: hex_text_def byte_text_def)

lemma length_hex_text [simp]: "length (hex_text d) = 2 * length d"
  by (induction d) (simp_all add: hex_text_def byte_text_def)

lemma try_map_all: "(\<And>x. x \<in> set xs \<Longrightarrow> f (g x) = Inr x) \<Longrightarrow> try_map f (map g xs) = Inr xs"
  by (induction xs) auto

lemma hex_digest_text: "length d = 32 \<Longrightarrow> hex_digest (hex_text d) = Inr d"
  using chunks_hex_text [of d] by (simp add: hex_digest_def try_map_all hex_pair_byte_text)

lemma length_chunks: "length xs = n * k \<Longrightarrow> 0 < n \<Longrightarrow> length (chunks_exact n xs k) = k"
  by (induction n xs k rule: chunks_exact.induct) auto

lemma hex_digest_Inr: "hex_digest t = Inr d \<Longrightarrow> length d = 32"
  using length_chunks [of t 2 32] by (auto simp: hex_digest_def result_iff dest: list_all2_lengthD split: if_splits)

section \<open>The canonical text\<close>

definition record_text :: "byte_string list \<Rightarrow> byte_string" where
  "record_text ls = concat (map (\<lambda>l. l @ [10]) ls)"

definition ascii_line :: "byte_string \<Rightarrow> bool" where
  "ascii_line l \<longleftrightarrow> plain_line l \<and> (\<forall>b \<in> set l. b < 0x80)"

lemma ascii_line_append [simp]: "ascii_line (a @ b) \<longleftrightarrow> ascii_line a \<and> ascii_line b"
  by (auto simp: ascii_line_def)

lemma ascii_line_hex [simp]: "ascii_line (hex_text d)"
  using nibble_text_plain nibbles_small by (auto simp: ascii_line_def plain_line_def hex_text_def byte_text_def)

lemma ascii_line_decimal [simp]: "ascii_line (decimal_text n)"
  using decimal_text_digits [of _ n] digit_plain by (auto simp: ascii_line_def)

lemma alphanumeric_plain: "is_alphanumeric b \<Longrightarrow> b < 0x80 \<and> b \<noteq> 10 \<and> b \<noteq> 13"
  by (auto simp: is_alphanumeric_def is_digit_def word_le_nat_alt word_less_nat_alt)

lemma not_alphanumeric [simp]: "\<not> is_alphanumeric 10" "\<not> is_alphanumeric 13"
  by (simp_all add: is_alphanumeric_def is_digit_def)

lemma ascii_line_path: "valid_efi_path p \<Longrightarrow> ascii_line p"
  using alphanumeric_plain by (auto simp: valid_efi_path_def ascii_line_def plain_line_def list_all_iff)

lemma ascii_line_class: "valid_device_class p \<Longrightarrow> ascii_line p"
  using alphanumeric_plain by (auto simp: valid_device_class_def ascii_line_def plain_line_def list_all_iff)

lemma record_lines_text:
  assumes "ascii_line title" and "\<And>l. l \<in> set ls \<Longrightarrow> ascii_line l"
  shows "record_lines limit title (record_text (title # ls)) =
    (if length (record_text (title # ls)) \<le> limit then Inr ls else Inl Ve_InvalidRecord)"
proof -
  have "text_lines (record_text (title # ls)) = title # ls"
    unfolding record_text_def using assms by (intro text_lines_concat) (auto simp: ascii_line_def)
  moreover have "utf8_valid (record_text (title # ls))"
    using assms by (intro utf8_valid_ascii) (auto simp: record_text_def ascii_line_def split: if_splits)
  moreover have "last (record_text (title # ls)) = 10"
  proof (cases ls rule: rev_cases)
    case (snoc ks k)
    then show ?thesis by (simp add: record_text_def)
  qed (simp add: record_text_def)
  moreover have "record_text (title # ls) \<noteq> []" by (simp add: record_text_def)
  ultimately show ?thesis by (simp add: record_lines_def)
qed

lemma field_line [simp]: "field ((key @ v) # ls) key = Inr (v, ls)"
  by (simp add: field_def)

lemma hex_field_line [simp]: "length d = 32 \<Longrightarrow> hex_field ((key @ hex_text d) # ls) key = Inr (d, ls)"
  by (simp add: hex_field_def hex_digest_text)

lemma number_field_line [simp]: "n < 2 ^ 64 \<Longrightarrow> number_field ((key @ decimal_text n) # ls) key = Inr (n, ls)"
  by (simp add: number_field_def)

lemma length_decimal_text: "n < 10 ^ Suc k \<Longrightarrow> length (decimal_text n) \<le> Suc k"
proof (induction k arbitrary: n)
  case 0
  then show ?case by (simp add: decimal_text.simps [of n])
next
  case (Suc k)
  then have "n div 10 < 10 ^ Suc k" by (simp add: div_less_iff_less_mult)
  then show ?case using Suc.IH [of "n div 10"] by (simp add: decimal_text.simps [of n])
qed

section \<open>The boot record\<close>

definition image_ok :: "expected_image \<Rightarrow> bool" where
  "image_ok e \<longleftrightarrow> 0 < ei_byte_len e \<and> ei_byte_len e \<le> MAX_SELECTED_IMAGE_BYTES \<and> length (ei_sha256 e) = 32"

definition boot_record_ok :: "selected_boot_record \<Rightarrow> bool" where
  "boot_record_ok r \<longleftrightarrow>
     valid_device_class (sr_device_class r) \<and> length (sr_source_sha256 r) = 32 \<and>
     length (sr_manifest_sha256 r) = 32 \<and> valid_efi_path (sr_image_path r) \<and> image_ok (sr_expected r)"

definition boot_record_text :: "selected_boot_record \<Rightarrow> byte_string" where
  "boot_record_text r = record_text
     [ascii ''nextcore-selected-iboot-v1'',
      ascii ''device-class='' @ sr_device_class r,
      ascii ''source-sha256='' @ hex_text (sr_source_sha256 r),
      ascii ''manifest-sha256='' @ hex_text (sr_manifest_sha256 r),
      ascii ''image-path='' @ sr_image_path r,
      ascii ''image-bytes='' @ decimal_text (ei_byte_len (sr_expected r)),
      ascii ''image-sha256='' @ hex_text (ei_sha256 (sr_expected r))]"

lemma hex_field_Inr: "hex_field ls key = Inr (d, ls') \<Longrightarrow> length d = 32"
  by (auto simp: hex_field_def result_iff dest: hex_digest_Inr)

lemma expected_image_new_Inr:
  "expected_image_new n d = Inr e \<Longrightarrow> length d = 32 \<Longrightarrow> image_ok e \<and> e = \<lparr> ei_byte_len = n, ei_sha256 = d \<rparr>"
  by (auto simp: expected_image_new_def image_ok_def split: if_splits)

lemma expected_image_new_ok: "image_ok e \<Longrightarrow> expected_image_new (ei_byte_len e) (ei_sha256 e) = Inr e"
  by (simp add: expected_image_new_def image_ok_def)

lemma identity_fields_Inr:
  "identity_fields ls = Inr ((c, s, m), ls') \<Longrightarrow> valid_device_class c \<and> length s = 32 \<and> length m = 32"
  by (auto simp: identity_fields_def result_iff dest: hex_field_Inr split: if_splits)

lemma parse_selected_boot_record_ok:
  "parse_selected_boot_record input = Inr r \<Longrightarrow> boot_record_ok r"
  by (auto simp: parse_selected_boot_record_def boot_record_ok_def result_iff split: if_splits
      dest!: identity_fields_Inr hex_field_Inr expected_image_new_Inr)

lemma boot_record_text_length: "boot_record_ok r \<Longrightarrow> length (boot_record_text r) \<le> MAX_SELECTED_RECORD_BYTES"
  using length_decimal_text [of "ei_byte_len (sr_expected r)" 7]
  by (simp add: boot_record_ok_def image_ok_def valid_efi_path_def valid_device_class_def boot_record_text_def
      record_text_def MAX_SELECTED_RECORD_BYTES_def MAX_SELECTED_IMAGE_BYTES_def)

lemma parse_boot_record_text: "boot_record_ok r \<Longrightarrow> parse_selected_boot_record (boot_record_text r) = Inr r"
proof -
  assume ok: "boot_record_ok r"
  have lines: "record_lines MAX_SELECTED_RECORD_BYTES (ascii ''nextcore-selected-iboot-v1'') (boot_record_text r) =
    Inr [ascii ''device-class='' @ sr_device_class r,
      ascii ''source-sha256='' @ hex_text (sr_source_sha256 r),
      ascii ''manifest-sha256='' @ hex_text (sr_manifest_sha256 r),
      ascii ''image-path='' @ sr_image_path r,
      ascii ''image-bytes='' @ decimal_text (ei_byte_len (sr_expected r)),
      ascii ''image-sha256='' @ hex_text (ei_sha256 (sr_expected r))]"
    using boot_record_text_length [OF ok] ok unfolding boot_record_text_def
    by (subst record_lines_text) (auto simp: boot_record_ok_def ascii_line_path ascii_line_class,
        auto simp: ascii_line_def plain_line_def ascii_def)
  have "ei_byte_len (sr_expected r) < 2 ^ 64"
    using ok by (simp add: boot_record_ok_def image_ok_def MAX_SELECTED_IMAGE_BYTES_def)
  then show ?thesis
    using ok expected_image_new_ok
    by (simp add: parse_selected_boot_record_def lines identity_fields_def boot_record_ok_def image_ok_def)
qed

text \<open>
  C36. The parser of the selected boot record accepts the canonical text of exactly the well-formed
  records and gives the record back, and whatever text it accepts gives a well-formed record: a
  device class of at most 64 letters, digits and hyphens, a path from the root without two dots in
  a row, digests of 32 bytes and a size that is not zero and within the limit.
\<close>

theorem selected_boot_record_roundtrip:
  "(parse_selected_boot_record (boot_record_text r) = Inr r) = boot_record_ok r \<and>
   (\<exists>input. parse_selected_boot_record input = Inr r) = boot_record_ok r"
  using parse_boot_record_text parse_selected_boot_record_ok by blast

section \<open>The gate\<close>

definition image_matches :: "(byte_string \<Rightarrow> byte_string) \<Rightarrow> expected_image \<Rightarrow> byte_string \<Rightarrow> bool" where
  "image_matches sha256 e bytes \<longleftrightarrow> length bytes = ei_byte_len e \<and> sha256 bytes = ei_sha256 e"

lemma verify_selected_image_cases:
  "image_matches sha256 e bytes \<Longrightarrow> verify_selected_image sha256 (Some e) bytes = Inr (bytes, sha256 bytes)"
  "\<not> image_matches sha256 e bytes \<Longrightarrow>
    \<exists>err. err \<noteq> Ve_Panic \<and> verify_selected_image sha256 (Some e) bytes = Inl err"
  by (auto simp: verify_selected_image_def image_matches_def Let_def)

definition payload_bound ::
  "(byte_string \<Rightarrow> byte_string) \<Rightarrow> selected_boot_record \<Rightarrow> byte_string \<Rightarrow> selected_payload_record \<Rightarrow> byte_string \<Rightarrow> bool" where
  "payload_bound sha256 selected signed_bytes companion decoded \<longleftrightarrow>
     image_matches sha256 (sr_expected selected) signed_bytes \<and>
     py_signed_sha256 companion = sha256 signed_bytes \<and> py_decoded_path companion \<noteq> sr_image_path selected \<and>
     image_matches sha256 (py_expected companion) decoded"

lemma copy_selected_payload_steps:
  fixes destination :: byte_string
  assumes ok: "ok \<longleftrightarrow> payload_bound sha256 selected signed_bytes companion decoded \<and> length decoded \<le> length destination"
  shows "ok \<Longrightarrow> copy_selected_payload sha256 selected signed_bytes companion decoded destination =
      (Inr (length decoded), decoded @ drop (length decoded) destination)"
    and "\<not> ok \<Longrightarrow> \<exists>e. e \<noteq> Ve_Panic \<and>
      copy_selected_payload sha256 selected signed_bytes companion decoded destination = (Inl e, destination)"
proof -
  have digest: "ei_sha256 e = sha256 bytes" if "image_matches sha256 e bytes" for e bytes
    using that by (simp add: image_matches_def)
  show "copy_selected_payload sha256 selected signed_bytes companion decoded destination =
      (Inr (length decoded), decoded @ drop (length decoded) destination)" if ok
    using that digest [of "sr_expected selected" signed_bytes] unfolding ok payload_bound_def
    by (simp add: copy_selected_payload_def verify_selected_image_cases(1) copy_from_slice_def put_bytes_def)
  show "\<exists>e. e \<noteq> Ve_Panic \<and>
      copy_selected_payload sha256 selected signed_bytes companion decoded destination = (Inl e, destination)" if n: "\<not> ok"
  proof (cases "image_matches sha256 (sr_expected selected) signed_bytes")
    case False
    then show ?thesis using verify_selected_image_cases(2) by (fastforce simp: copy_selected_payload_def)
  next
    case True
    then have first: "verify_selected_image sha256 (Some (sr_expected selected)) signed_bytes = Inr (signed_bytes, sha256 signed_bytes)"
      by (rule verify_selected_image_cases(1))
    show ?thesis
    proof (cases "image_matches sha256 (py_expected companion) decoded")
      case True
      then show ?thesis
        using n \<open>image_matches sha256 (sr_expected selected) signed_bytes\<close> verify_selected_image_cases(1) [OF True]
        by (auto simp: copy_selected_payload_def first digest ok payload_bound_def)
    next
      case False
      then obtain e where "e \<noteq> Ve_Panic" "verify_selected_image sha256 (Some (py_expected companion)) decoded = Inl e"
        using verify_selected_image_cases(2) by blast
      then show ?thesis by (auto simp: copy_selected_payload_def first)
    qed
  qed
qed

text \<open>
  C35. The decoded payload reaches the destination exactly when the signed image has the size and
  digest of the selected record, the companion names that digest and another path, the decoded
  bytes have the size and digest of the companion, and they fit: then they stand at the start of
  the destination and the rest is as it was. Any refusal leaves the destination as it was.
\<close>

theorem copy_selected_payload_exact:
  "(copy_selected_payload sha256 selected signed_bytes companion decoded destination = (Inr n, destination')) =
     (payload_bound sha256 selected signed_bytes companion decoded \<and>
      n = length decoded \<and> n \<le> length destination \<and> destination' = decoded @ drop n destination) \<and>
   (case copy_selected_payload sha256 selected signed_bytes companion decoded destination of
      (Inl e, after) \<Rightarrow> after = destination \<and> e \<noteq> Ve_Panic | (Inr _, after) \<Rightarrow> length after = length destination)"
proof (cases "payload_bound sha256 selected signed_bytes companion decoded \<and> length decoded \<le> length destination")
  case True
  then show ?thesis using copy_selected_payload_steps(1) [OF refl True] by auto
next
  case False
  then show ?thesis using copy_selected_payload_steps(2) [OF refl False] by auto
qed

section \<open>The other records\<close>

lemma selected_payload_sound:
  "parse_selected_payload_record input = Inr r \<Longrightarrow>
   length (py_signed_sha256 r) = 32 \<and> valid_efi_path (py_decoded_path r) \<and> image_ok (py_expected r)"
  by (auto simp: parse_selected_payload_record_def result_iff split: if_splits
      dest!: hex_field_Inr expected_image_new_Inr)

definition companion_ok :: "selected_companion \<Rightarrow> bool" where
  "companion_ok c \<longleftrightarrow>
     valid_efi_path (co_signed_path c) \<and> valid_efi_path (co_decoded_path c) \<and> image_ok (co_signed c) \<and>
     image_ok (co_decoded c)"

lemma parse_companion_Inr: "parse_companion ls role = Inr (c, ls') \<Longrightarrow> companion_ok c"
  by (auto simp: parse_companion_def companion_ok_def result_iff split: if_splits
      dest!: hex_field_Inr expected_image_new_Inr)

lemma paths_distinct_iff: "paths_distinct ps \<longleftrightarrow> distinct (map (map to_lowercase) ps)"
  by (induction ps) (auto simp: list_ex_iff eq_ignore_case_def image_iff)

text \<open>
  The four files of accepted startup companions are different files on a file system that does
  not tell upper from lower case, and every one has a valid path, size and digest.
\<close>

lemma startup_companions_sound:
  assumes "parse_selected_startup_companions input = Inr r"
  shows "distinct (map (map to_lowercase) (companion_paths (sg_sptm r) (sg_txm r))) \<and>
    companion_ok (sg_sptm r) \<and> companion_ok (sg_txm r) \<and> valid_device_class (sg_device_class r)"
  using assms unfolding paths_distinct_iff [symmetric]
  by (auto simp: parse_selected_startup_companions_def result_iff split: if_splits
      dest!: identity_fields_Inr parse_companion_Inr)

lemma selected_bootkc_sound:
  "parse_selected_bootkc_record input = Inr r \<Longrightarrow>
   valid_efi_path (bk_signed_path r) \<and> valid_efi_path (bk_decoded_path r) \<and>
   bk_signed_path r \<noteq> bk_decoded_path r \<and> image_ok (bk_signed r) \<and>
   0 < ei_byte_len (bk_decoded r) \<and> ei_byte_len (bk_decoded r) \<le> MAX_SELECTED_BOOTKC_BYTES"
  by (auto simp: parse_selected_bootkc_record_def result_iff split: if_splits
      dest!: hex_field_Inr expected_image_new_Inr)

end
