(* ===== verification/Boot_Config.thy ===== *)
theory Boot_Config
  imports Rust_Text
begin

text \<open>
  The reader of \<^verbatim>\<open>boot_config.rs\<close>: the checks of the property list, the boot menu, the single boot
  target, the kernel target and the configuration of a trace. The XML parser of the crate
  \<^verbatim>\<open>roxmltree\<close> is the argument \<open>parse_xml\<close>, a function of its node limit and of the text to a
  document. A document is the tree that crate documents: elements with an optional namespace, a
  name, attributes and children, texts, comments and processing instructions. A \<^verbatim>\<open>String\<close> of that
  tree is the list of its scalar values.
\<close>

type_synonym ustring = "nat list"

definition chars :: "string \<Rightarrow> ustring" where
  "chars s = map of_char s"

definition MAX_INPUT_BYTES :: nat where "MAX_INPUT_BYTES = 1024 * 1024"
definition MAX_XML_DEPTH :: nat where "MAX_XML_DEPTH = 64"
definition MAX_XML_NODES :: nat where "MAX_XML_NODES = 16384"
definition MAX_ENTRIES :: nat where "MAX_ENTRIES = 64"
definition MAX_PATH_UTF16_UNITS :: nat where "MAX_PATH_UTF16_UNITS = 1024"
definition MAX_ARGUMENTS_UTF16_UNITS :: nat where "MAX_ARGUMENTS_UTF16_UNITS = 4096"
definition MAX_APFS_VOLUME_UTF16_UNITS :: nat where "MAX_APFS_VOLUME_UTF16_UNITS = 255"

record boot_target =
  bt_path :: ustring
  bt_arguments :: ustring
  bt_apfs_volume :: "ustring option"

record boot_menu_entry =
  me_name :: ustring
  me_target :: boot_target

record boot_menu =
  bm_show_picker :: bool
  bm_entries :: "boot_menu_entry list"

datatype kernel_profile =
    Xnu12377Pstart32
  | XnuArm64Uefi
  | QemuVirtArm64Probe
  | X86EfiArm64JitProbe
  | X86EfiArm64Trace

record kernel_target =
  kt_path :: ustring
  kt_arguments :: ustring
  kt_profile :: kernel_profile

datatype arm64_platform_profile = NextcoreIrqCompatV1

record arm64_platform_configuration =
  pc_profile :: arm64_platform_profile
  pc_initial_override :: u64
  pc_initial_pstate :: u64
  pc_vector_base :: u64
  pc_irq_level :: bool
  pc_fiq_level :: bool

datatype arm64_trace_memory_profile = MappedNormalNcV1
datatype arm64_trace_video = GopFramebuffer

record arm64_trace_configuration =
  tc_physical_base :: u64
  tc_virtual_base :: u64
  tc_memory_size :: u64
  tc_actual_memory_size :: u64
  tc_kernel_phys :: u64
  tc_device_tree_path :: ustring
  tc_instruction_budget :: u64
  tc_platform :: "arm64_platform_configuration option"
  tc_video :: "arm64_trace_video option"
  tc_memory_profile :: "arm64_trace_memory_profile option"

datatype boot_config_error =
    Bc_InputTooLarge
  | Bc_UnsupportedFormat
  | Bc_InvalidUtf8
  | Bc_InvalidXml
  | Bc_InvalidPlist
  | Bc_DuplicateKey
  | Bc_InvalidType
  | Bc_DepthLimit
  | Bc_NodeLimit
  | Bc_EntryLimit
  | Bc_AmbiguousTarget
  | Bc_MissingPath
  | Bc_InvalidPath
  | Bc_PathTooLong
  | Bc_InvalidArguments
  | Bc_ArgumentsTooLong
  | Bc_MissingKernelTarget
  | Bc_UnsupportedKernelProfile
  | Bc_InvalidDisplayName
  | Bc_InvalidApfsVolume
  | Bc_InvalidTraceConfiguration
  | Bc_InvalidPlatformConfiguration

section \<open>The document\<close>

text \<open>An attribute is its namespace, its name and its value.\<close>

datatype xml_node =
    Xml_Element "ustring option" ustring "(ustring option \<times> ustring \<times> ustring) list" "xml_node list"
  | Xml_Text ustring
  | Xml_Comment ustring
  | Xml_Instruction ustring

text \<open>The nodes beside the root element stand before and after it.\<close>

record xml_document =
  xd_before :: "xml_node list"
  xd_root :: xml_node
  xd_after :: "xml_node list"

datatype xml_error = Xml_NodesLimitReached | Xml_OtherError

fun xml_children :: "xml_node \<Rightarrow> xml_node list" where
  "xml_children (Xml_Element namespace name attributes children) = children"
| "xml_children _ = []"

fun xml_attributes :: "xml_node \<Rightarrow> (ustring option \<times> ustring \<times> ustring) list" where
  "xml_attributes (Xml_Element namespace name attributes children) = attributes"
| "xml_attributes _ = []"

fun is_element :: "xml_node \<Rightarrow> bool" where
  "is_element (Xml_Element namespace name attributes children) = True"
| "is_element _ = False"

fun is_instruction :: "xml_node \<Rightarrow> bool" where
  "is_instruction (Xml_Instruction v) = True"
| "is_instruction _ = False"

text \<open>\<^verbatim>\<open>has_tag_name\<close> of a name without a namespace compares the local names only.\<close>

fun has_tag_name :: "xml_node \<Rightarrow> ustring \<Rightarrow> bool" where
  "has_tag_name (Xml_Element namespace name attributes children) wanted = (name = wanted)"
| "has_tag_name _ wanted = False"

abbreviation xml_elements :: "xml_node \<Rightarrow> xml_node list" where
  "xml_elements n \<equiv> filter is_element (xml_children n)"

definition require_tag :: "xml_node \<Rightarrow> string \<Rightarrow> boot_config_error + unit" where
  "require_tag n tag = (if has_tag_name n (chars tag) then Inr () else Inl Bc_InvalidType)"

fun push_text :: "ustring \<Rightarrow> xml_node \<Rightarrow> boot_config_error + ustring" where
  "push_text v (Xml_Text t) = Inr (v @ t)"
| "push_text v (Xml_Comment t) = Inr v"
| "push_text v _ = Inl Bc_InvalidPlist"

definition scalar_text :: "xml_node \<Rightarrow> boot_config_error + ustring" where
  "scalar_text n = try_fold push_text [] (xml_children n)"

fun blank_node :: "xml_node \<Rightarrow> bool" where
  "blank_node (Xml_Text t) = list_all (\<lambda>c. c \<in> {32, 9, 13, 10}) t"
| "blank_node _ = True"

definition no_mixed_text :: "xml_node \<Rightarrow> boot_config_error + unit" where
  "no_mixed_text n = (if list_all blank_node (xml_children n) then Inr () else Inl Bc_InvalidPlist)"

fun find_key :: "ustring \<Rightarrow> xml_node list \<Rightarrow> boot_config_error + xml_node option" where
  "find_key wanted [] = Inr None"
| "find_key wanted [key] = Inl Bc_InvalidPlist"
| "find_key wanted (key # val # rest) =
     and_then (scalar_text key) (\<lambda>name. if name = wanted then Inr (Some val) else find_key wanted rest)"

definition dictionary_value :: "xml_node \<Rightarrow> string \<Rightarrow> boot_config_error + xml_node option" where
  "dictionary_value dict wanted = find_key (chars wanted) (xml_elements dict)"

section \<open>The structure of a property list\<close>

fun dict_pairs :: "ustring set \<Rightarrow> xml_node list \<Rightarrow> boot_config_error + unit" where
  "dict_pairs keys [] = Inr ()"
| "dict_pairs keys (key # rest) =
     and_then (require_tag key ''key'') (\<lambda>_.
     and_then (scalar_text key) (\<lambda>name.
     if name \<in> keys then Inl Bc_DuplicateKey
     else
     (case rest of
        [] \<Rightarrow> Inl Bc_InvalidPlist
      | val # rest \<Rightarrow>
          if has_tag_name val (chars ''key'') then Inl Bc_InvalidPlist
          else dict_pairs (insert name keys) rest)))"

definition validate_element :: "bool \<Rightarrow> ustring \<Rightarrow> xml_node \<Rightarrow> boot_config_error + unit" where
  "validate_element is_root name n =
     (if name = chars ''plist'' then
        and_then (no_mixed_text n) (\<lambda>_.
        if \<not> is_root then Inl Bc_InvalidPlist
        else (case xml_elements n of [child] \<Rightarrow> if has_tag_name child (chars ''dict'') then Inr () else Inl Bc_InvalidPlist
              | _ \<Rightarrow> Inl Bc_InvalidPlist))
      else if name = chars ''dict'' then
        and_then (no_mixed_text n) (\<lambda>_. dict_pairs {} (xml_elements n))
      else if name = chars ''array'' then
        and_then (no_mixed_text n) (\<lambda>_.
        if list_ex (\<lambda>child. has_tag_name child (chars ''key'')) (xml_children n) then Inl Bc_InvalidPlist else Inr ())
      else if name \<in> {chars ''key'', chars ''string'', chars ''integer'', chars ''real'', chars ''date'', chars ''data''} then
        and_then (scalar_text n) (\<lambda>_. Inr ())
      else if name \<in> {chars ''true'', chars ''false''} then
        and_then (scalar_text n) (\<lambda>t. if t \<noteq> [] then Inl Bc_InvalidPlist else Inr ())
      else Inl Bc_InvalidType)"

text \<open>One round of the loop over the nodes; \<open>depth\<close> is the number of elements from the root to the node.\<close>

fun validate_node :: "bool \<times> nat \<times> xml_node \<Rightarrow> boot_config_error + unit" where
  "validate_node (is_root, depth, Xml_Element namespace name attributes children) =
     (if MAX_XML_DEPTH < depth then Inl Bc_DepthLimit
      else if namespace \<noteq> None \<or> \<not> is_root \<and> attributes \<noteq> [] then Inl Bc_InvalidPlist
      else validate_element is_root name (Xml_Element namespace name attributes children))"
| "validate_node (is_root, depth, Xml_Instruction v) = Inl Bc_InvalidPlist"
| "validate_node (is_root, depth, n) = Inr ()"

fun descendants :: "nat \<Rightarrow> xml_node \<Rightarrow> (nat \<times> xml_node) list" where
  "descendants depth (Xml_Element namespace name attributes children) =
     (depth, Xml_Element namespace name attributes children) # concat (map (descendants (Suc depth)) children)"
| "descendants depth n = [(depth, n)]"

definition document_nodes :: "xml_document \<Rightarrow> (bool \<times> nat \<times> xml_node) list" where
  "document_nodes doc =
     map (Pair False) (concat (map (descendants 1) (xd_before doc))) @
     (case descendants 1 (xd_root doc) of
        [] \<Rightarrow> [] | root # below \<Rightarrow> (True, root) # map (Pair False) below) @
     map (Pair False) (concat (map (descendants 1) (xd_after doc)))"

definition validate_structure :: "xml_document \<Rightarrow> boot_config_error + unit" where
  "validate_structure doc =
     (let root = xd_root doc in
      if \<not> has_tag_name root (chars ''plist'') \<or>
         map_of (map (\<lambda>(namespace, name, v). ((namespace, name), v)) (xml_attributes root))
           (None, chars ''version'') \<noteq> Some (chars ''1.0'') \<or>
         length (xml_attributes root) \<noteq> 1
      then Inl Bc_InvalidPlist
      else for_each validate_node (document_nodes doc))"

section \<open>The bounds of the text\<close>

text \<open>\<^verbatim>\<open>windows(n).position(|part| part == pattern)\<close>.\<close>

fun find_bytes :: "byte_string \<Rightarrow> byte_string \<Rightarrow> nat option" where
  "find_bytes pattern [] = (if pattern = [] then Some 0 else None)"
| "find_bytes pattern (b # bs) =
     (if starts_with (b # bs) pattern then Some 0 else map_option Suc (find_bytes pattern bs))"

text \<open>The length of the white space character at the front, zero where there is none.\<close>

fun space_width :: "byte_string \<Rightarrow> nat" where
  "space_width [] = 0"
| "space_width (a # rest) =
     (if 9 \<le> a \<and> a \<le> 13 \<or> a = 32 then 1
      else if a = 0xc2 \<and> (starts_with rest [0x85] \<or> starts_with rest [0xa0]) then 2
      else if a = 0xe1 \<and> starts_with rest [0x9a, 0x80] then 3
      else if a = 0xe2 \<and> starts_with rest [0x80] \<and>
              (case drop 1 rest of [] \<Rightarrow> False
               | c # _ \<Rightarrow> 0x80 \<le> c \<and> c \<le> 0x8a \<or> c = 0xa8 \<or> c = 0xa9 \<or> c = 0xaf) then 3
      else if a = 0xe2 \<and> starts_with rest [0x81, 0x9f] then 3
      else if a = 0xe3 \<and> starts_with rest [0x80, 0x80] then 3
      else 0)"

function trim_start :: "byte_string \<Rightarrow> byte_string" where
  "trim_start bs = (if space_width bs = 0 then bs else trim_start (drop (space_width bs) bs))"
  by pat_completeness auto
termination
proof (relation "measure length")
  fix bs :: byte_string
  assume "space_width bs \<noteq> 0"
  then show "(drop (space_width bs) bs, bs) \<in> measure length" by (cases bs) auto
qed simp

declare trim_start.simps [simp del]

definition doctype_name :: "byte_string \<Rightarrow> byte_string" where
  "doctype_name bs = takeWhile (\<lambda>b. b \<notin> {9, 10, 12, 13, 32, 62, 91}) (trim_start bs)"

text \<open>
  The end of a tag: the byte before the bracket that closes it, and what follows that bracket.
\<close>

fun tag_end :: "bool \<Rightarrow> u8 option \<Rightarrow> u8 \<Rightarrow> byte_string \<Rightarrow> boot_config_error + u8 \<times> byte_string" where
  "tag_end doctype quote before [] = Inl Bc_InvalidXml"
| "tag_end doctype quote before (b # bs) =
     (case quote of
        Some delimiter \<Rightarrow> tag_end doctype (if delimiter = b then None else quote) b bs
      | None \<Rightarrow>
          if b = 39 \<or> b = 34 then tag_end doctype (Some b) b bs
          else if b = 91 \<and> doctype then Inl Bc_UnsupportedFormat
          else if b = 62 then Inr (before, bs)
          else if b = 60 then Inl Bc_InvalidXml
          else tag_end doctype None b bs)"

lemma tag_end_length: "tag_end doctype quote before bs = Inr (b, rest) \<Longrightarrow> length rest < length bs"
  by (induction doctype quote before bs rule: tag_end.induct)
    (auto split: option.splits if_splits dest: less_SucI)

definition skipped_markup :: "byte_string \<Rightarrow> (nat \<times> byte_string) option" where
  "skipped_markup tail =
     (if starts_with tail (ascii ''<!--'') then Some (4, ascii ''-->'')
      else if starts_with tail (ascii ''<![CDATA['') then Some (9, ascii '']]>'')
      else if starts_with tail (ascii ''<?'') then Some (2, ascii ''?>'')
      else None)"

text \<open>The scan, of what is left of the text.\<close>

function scan_xml :: "nat \<Rightarrow> byte_string \<Rightarrow> boot_config_error + unit" where
  "scan_xml depth [] = Inr ()"
| "scan_xml depth (b # bs) =
     (if b \<noteq> 60 then scan_xml depth bs
      else
      case skipped_markup (b # bs) of
        Some (prefix, ending) \<Rightarrow>
          and_then (ok_or (find_bytes ending (drop prefix (b # bs))) Bc_InvalidXml) (\<lambda>len.
          scan_xml depth (drop (len + length ending + (prefix - 1)) bs))
      | None \<Rightarrow>
          let doctype = starts_with (b # bs) (ascii ''<!DOCTYPE'') in
          if starts_with (b # bs) (ascii ''<!'') \<and> \<not> doctype then Inl Bc_InvalidXml
          else if doctype \<and> doctype_name (drop 9 (b # bs)) \<noteq> ascii ''plist'' then Inl Bc_InvalidPlist
          else
          (case tag_end doctype None b bs of
             Inl e \<Rightarrow> Inl e
           | Inr (before, rest) \<Rightarrow>
               if doctype then scan_xml depth rest
               else if starts_with (b # bs) (ascii ''</'') then
                 if depth = 0 then Inl Bc_InvalidXml else scan_xml (depth - 1) rest
               else if MAX_XML_DEPTH \<le> depth then Inl Bc_DepthLimit
               else scan_xml (if before \<noteq> 47 then depth + 1 else depth) rest))"
  by pat_completeness auto
termination
proof (relation "measure (\<lambda>(depth, bs). length bs)")
  fix b :: u8 and bs rest :: byte_string and depth :: nat and x :: "u8 \<times> byte_string" and before doctype
  assume x: "tag_end doctype None b bs = Inr x" "(before, rest) = x"
  then show "((depth, rest), depth', b # bs) \<in> measure (\<lambda>(depth, bs). length bs)" for depth'
    using tag_end_length [of doctype None b bs before rest] by auto
qed (use tag_end_length in \<open>auto dest: tag_end_length [THEN less_SucI]\<close>)

end
