(* ===== verification/Boot_Config_Targets.thy ===== *)
theory Boot_Config_Targets
  imports Boot_Config
begin

text \<open>
  The values that \<^verbatim>\<open>boot_config.rs\<close> reads from a checked document: the paths, the boot menu and
  the boot target, the kernel target, and the platform and trace configurations.
\<close>

definition parse_document ::
  "(nat \<Rightarrow> byte_string \<Rightarrow> xml_error + xml_document) \<Rightarrow> byte_string \<Rightarrow> boot_config_error + xml_document" where
  "parse_document parse_xml input =
     (if MAX_INPUT_BYTES < length input then Inl Bc_InputTooLarge
      else if starts_with input (ascii ''bplist'') \<or> starts_with input [0xff, 0xfe] \<or> starts_with input [0xfe, 0xff]
      then Inl Bc_UnsupportedFormat
      else if \<not> utf8_valid input then Inl Bc_InvalidUtf8
      else if MAX_XML_NODES * 2 < length (filter (\<lambda>b. b = 60) input) \<or>
              MAX_XML_NODES < length (filter (\<lambda>b. b = 61) input)
      then Inl Bc_NodeLimit
      else
      and_then (scan_xml 0 input) (\<lambda>_.
      and_then (map_err (\<lambda>e. case e of Xml_NodesLimitReached \<Rightarrow> Bc_NodeLimit | Xml_OtherError \<Rightarrow> Bc_InvalidXml)
        (parse_xml MAX_XML_NODES input)) (\<lambda>doc.
      and_then (validate_structure doc) (\<lambda>_. Inr doc))))"

definition top_dictionary :: "xml_document \<Rightarrow> boot_config_error + xml_node" where
  "top_dictionary doc =
     ok_or (case xml_elements (xd_root doc) of [] \<Rightarrow> None | n # _ \<Rightarrow> Some n) Bc_InvalidPlist"

section \<open>Strings\<close>

definition utf16_units :: "ustring \<Rightarrow> nat" where
  "utf16_units s = sum_list (map (\<lambda>c. if c < 65536 then 1 else 2) s)"

definition is_control :: "nat \<Rightarrow> bool" where
  "is_control c \<longleftrightarrow> c \<le> 31 \<or> 127 \<le> c \<and> c \<le> 159"

definition is_whitespace :: "nat \<Rightarrow> bool" where
  "is_whitespace c \<longleftrightarrow>
     9 \<le> c \<and> c \<le> 13 \<or> 0x2000 \<le> c \<and> c \<le> 0x200a \<or>
     c \<in> {32, 0x85, 0xa0, 0x1680, 0x2028, 0x2029, 0x202f, 0x205f, 0x3000}"

definition trim :: "ustring \<Rightarrow> ustring" where
  "trim s = rev (dropWhile is_whitespace (rev (dropWhile is_whitespace s)))"

definition lowercase :: "nat \<Rightarrow> nat" where
  "lowercase c = (if 65 \<le> c \<and> c \<le> 90 then c + 32 else c)"

fun split_on :: "nat \<Rightarrow> ustring \<Rightarrow> ustring list" where
  "split_on sep [] = [[]]"
| "split_on sep (c # cs) =
     (if c = sep then [] # split_on sep cs
      else (case split_on sep cs of [] \<Rightarrow> [[c]] | w # ws \<Rightarrow> (c # w) # ws))"

text \<open>What follows the last separator, where there is one.\<close>

definition after_last :: "nat \<Rightarrow> ustring \<Rightarrow> ustring option" where
  "after_last sep s = (if sep \<in> set s then Some (rev (takeWhile (\<lambda>c. c \<noteq> sep) (rev s))) else None)"

definition bad_component :: "ustring \<Rightarrow> bool" where
  "bad_component w \<longleftrightarrow> w = [] \<or> w = [46] \<or> w = [46, 46] \<or> last w \<in> {46, 32}"

definition normalize_absolute_path :: "ustring \<Rightarrow> boot_config_error + ustring" where
  "normalize_absolute_path path =
     (if MAX_PATH_UTF16_UNITS < utf16_units path then Inl Bc_PathTooLong
      else if list_ex (\<lambda>c. 65535 < c \<or> is_control c \<or> c \<in> {58, 42, 63, 34, 60, 62, 124}) path
      then Inl Bc_InvalidPath
      else
      let normalized = map (\<lambda>c. if c = 47 then 92 else c) path in
      if \<not> starts_with normalized [92] \<or> starts_with normalized [92, 92] then Inl Bc_InvalidPath
      else if list_ex bad_component (split_on 92 (drop 1 normalized)) then Inl Bc_InvalidPath
      else Inr normalized)"

definition normalize_path :: "ustring \<Rightarrow> boot_config_error + ustring" where
  "normalize_path path =
     and_then (normalize_absolute_path path) (\<lambda>normalized.
     (case after_last 46 normalized of
        None \<Rightarrow> Inl Bc_InvalidPath
      | Some extension \<Rightarrow>
          if map lowercase extension = map lowercase (chars ''efi'') then Inr normalized else Inl Bc_InvalidPath))"

section \<open>The entries\<close>

text \<open>An optional value that must have the given tag, as text.\<close>

definition tagged_text :: "string \<Rightarrow> xml_node \<Rightarrow> boot_config_error + ustring" where
  "tagged_text tag n = and_then (require_tag n tag) (\<lambda>_. scalar_text n)"

definition optional :: "('a \<Rightarrow> 'e + 'b) \<Rightarrow> 'a option \<Rightarrow> 'e + 'b option" where
  "optional f v = (case v of None \<Rightarrow> Inr None | Some x \<Rightarrow> and_then (f x) (\<lambda>y. Inr (Some y)))"

definition boolean_value :: "xml_node option \<Rightarrow> boot_config_error + bool" where
  "boolean_value v =
     (case v of None \<Rightarrow> Inr False
      | Some n \<Rightarrow> if has_tag_name n (chars ''true'') then Inr True
                  else if has_tag_name n (chars ''false'') then Inr False else Inl Bc_InvalidType)"

definition entry_path :: "xml_node \<Rightarrow> boot_config_error + ustring option" where
  "entry_path entry =
     and_then (dictionary_value entry ''Path'')
       (optional (\<lambda>v. and_then (tagged_text ''string'' v) normalize_path))"

definition entry_arguments :: "xml_node \<Rightarrow> boot_config_error + ustring" where
  "entry_arguments entry =
     and_then (dictionary_value entry ''Arguments'') (\<lambda>v.
     (case v of None \<Rightarrow> Inr []
      | Some v \<Rightarrow>
          and_then (tagged_text ''string'' v) (\<lambda>t.
          if list_ex is_control t then Inl Bc_InvalidArguments
          else if MAX_ARGUMENTS_UTF16_UNITS < utf16_units t then Inl Bc_ArgumentsTooLong
          else Inr t)))"

definition parse_apfs_volume :: "xml_node \<Rightarrow> boot_config_error + ustring option" where
  "parse_apfs_volume entry =
     and_then (dictionary_value entry ''ApfsVolume'')
       (optional (\<lambda>v.
          and_then (tagged_text ''string'' v) (\<lambda>t.
          if t = [] \<or> trim t \<noteq> t \<or> list_ex (\<lambda>c. is_control c \<or> c = 47 \<or> c = 92) t \<or>
             MAX_APFS_VOLUME_UTF16_UNITS < utf16_units t
          then Inl Bc_InvalidApfsVolume
          else Inr t)))"

definition entry_enabled :: "xml_node \<Rightarrow> boot_config_error + bool" where
  "entry_enabled entry = and_then (dictionary_value entry ''Enabled'') boolean_value"

definition default_name :: "nat \<Rightarrow> ustring" where
  "default_name index = chars ''EFI entry '' @ map unat (decimal_text (index + 1))"

definition entry_name :: "bool \<Rightarrow> nat \<Rightarrow> xml_node \<Rightarrow> boot_config_error + ustring" where
  "entry_name show_picker index entry =
     (if \<not> show_picker then Inr (default_name index)
      else
      and_then (dictionary_value entry ''Name'') (\<lambda>v.
      (case v of None \<Rightarrow> Inr (default_name index)
       | Some v \<Rightarrow>
           and_then (tagged_text ''string'' v) (\<lambda>t.
           if trim t = [] \<or> list_ex is_control t \<or> 64 < utf16_units t then Inl Bc_InvalidDisplayName
           else Inr t))))"

section \<open>The boot menu\<close>

text \<open>One round of the loop over the entries.\<close>

definition menu_entry :: "boot_menu \<Rightarrow> nat \<times> xml_node \<Rightarrow> boot_config_error + boot_menu" where
  "menu_entry menu indexed =
     (case indexed of (index, entry) \<Rightarrow>
      if MAX_ENTRIES \<le> index then Inl Bc_EntryLimit
      else
      and_then (require_tag entry ''dict'') (\<lambda>_.
      and_then (entry_enabled entry) (\<lambda>enabled.
      and_then (entry_path entry) (\<lambda>path.
      and_then (entry_arguments entry) (\<lambda>arguments.
      and_then (parse_apfs_volume entry) (\<lambda>apfs_volume.
      and_then (entry_name (bm_show_picker menu) index entry) (\<lambda>name.
      if \<not> enabled then Inr menu
      else if \<not> bm_show_picker menu \<and> bm_entries menu \<noteq> [] then Inl Bc_AmbiguousTarget
      else
      and_then (ok_or path Bc_MissingPath) (\<lambda>path.
      Inr (menu\<lparr> bm_entries := bm_entries menu @
        [\<lparr> me_name = name, me_target = \<lparr> bt_path = path, bt_arguments = arguments,
            bt_apfs_volume = apfs_volume \<rparr> \<rparr>] \<rparr>)))))))))"

definition show_picker_of :: "xml_node \<Rightarrow> boot_config_error + bool" where
  "show_picker_of misc =
     and_then (dictionary_value misc ''Boot'') (\<lambda>v.
     (case v of None \<Rightarrow> Inr False
      | Some boot \<Rightarrow>
          and_then (require_tag boot ''dict'') (\<lambda>_.
          and_then (dictionary_value boot ''ShowPicker'') boolean_value)))"

definition parse_boot_menu ::
  "(nat \<Rightarrow> byte_string \<Rightarrow> xml_error + xml_document) \<Rightarrow> byte_string \<Rightarrow> boot_config_error + boot_menu" where
  "parse_boot_menu parse_xml input =
     and_then (parse_document parse_xml input) (\<lambda>doc.
     and_then (top_dictionary doc) (\<lambda>dict.
     and_then (dictionary_value dict ''Misc'') (\<lambda>misc.
     (case misc of None \<Rightarrow> Inr \<lparr> bm_show_picker = False, bm_entries = [] \<rparr>
      | Some misc \<Rightarrow>
          and_then (require_tag misc ''dict'') (\<lambda>_.
          and_then (show_picker_of misc) (\<lambda>show_picker.
          let menu = \<lparr> bm_show_picker = show_picker, bm_entries = [] \<rparr> in
          and_then (dictionary_value misc ''Entries'') (\<lambda>entries.
          (case entries of None \<Rightarrow> Inr menu
           | Some entries \<Rightarrow>
               and_then (require_tag entries ''array'') (\<lambda>_.
               try_fold menu_entry menu (enumerate 0 (xml_elements entries)))))))))))"

section \<open>The single boot target\<close>

definition target_entry :: "boot_target option \<Rightarrow> nat \<times> xml_node \<Rightarrow> boot_config_error + boot_target option" where
  "target_entry selected indexed =
     (case indexed of (index, entry) \<Rightarrow>
      if MAX_ENTRIES \<le> index then Inl Bc_EntryLimit
      else
      and_then (require_tag entry ''dict'') (\<lambda>_.
      and_then (entry_enabled entry) (\<lambda>enabled.
      and_then (entry_path entry) (\<lambda>path.
      and_then (entry_arguments entry) (\<lambda>arguments.
      and_then (parse_apfs_volume entry) (\<lambda>apfs_volume.
      if \<not> enabled then Inr selected
      else if selected \<noteq> None then Inl Bc_AmbiguousTarget
      else
      and_then (ok_or path Bc_MissingPath) (\<lambda>path.
      Inr (Some \<lparr> bt_path = path, bt_arguments = arguments, bt_apfs_volume = apfs_volume \<rparr>))))))))"

definition select_boot_target :: "xml_document \<Rightarrow> boot_config_error + boot_target option" where
  "select_boot_target doc =
     and_then (top_dictionary doc) (\<lambda>dict.
     and_then (dictionary_value dict ''Misc'') (\<lambda>misc.
     (case misc of None \<Rightarrow> Inr None
      | Some misc \<Rightarrow>
          and_then (require_tag misc ''dict'') (\<lambda>_.
          and_then (dictionary_value misc ''Entries'') (\<lambda>entries.
          (case entries of None \<Rightarrow> Inr None
           | Some entries \<Rightarrow>
               and_then (require_tag entries ''array'') (\<lambda>_.
               try_fold target_entry None (enumerate 0 (xml_elements entries)))))))))"

definition parse_boot_target ::
  "(nat \<Rightarrow> byte_string \<Rightarrow> xml_error + xml_document) \<Rightarrow> byte_string \<Rightarrow> boot_config_error + boot_target option" where
  "parse_boot_target parse_xml input = and_then (parse_document parse_xml input) select_boot_target"

section \<open>The kernel target\<close>

definition kernel_profile_of :: "bool \<Rightarrow> ustring \<Rightarrow> kernel_profile option" where
  "kernel_profile_of arm name =
     (if \<not> arm then (if name = chars ''xnu-12377-pstart32'' then Some Xnu12377Pstart32 else None)
      else if name = chars ''xnu-arm64-uefi'' then Some XnuArm64Uefi
      else if name = chars ''qemu-virt-arm64-probe'' then Some QemuVirtArm64Probe
      else if name = chars ''x86-efi-arm64-jit-probe'' then Some X86EfiArm64JitProbe
      else if name = chars ''x86-efi-arm64-trace'' then Some X86EfiArm64Trace
      else None)"

text \<open>A value that must be there.\<close>

definition required_value :: "xml_node \<Rightarrow> string \<Rightarrow> boot_config_error \<Rightarrow> boot_config_error + xml_node" where
  "required_value dict wanted err = and_then (dictionary_value dict wanted) (\<lambda>v. ok_or v err)"

definition parse_named_kernel_target ::
  "(nat \<Rightarrow> byte_string \<Rightarrow> xml_error + xml_document) \<Rightarrow> byte_string \<Rightarrow> bool \<Rightarrow> boot_config_error + kernel_target" where
  "parse_named_kernel_target parse_xml input arm =
     and_then (parse_document parse_xml input) (\<lambda>doc.
     and_then (top_dictionary doc) (\<lambda>dict.
     and_then (required_value dict ''Nextcore'' Bc_MissingKernelTarget) (\<lambda>nextcore.
     and_then (require_tag nextcore ''dict'') (\<lambda>_.
     and_then (required_value nextcore ''Kernel'' Bc_MissingKernelTarget) (\<lambda>kernel.
     and_then (require_tag kernel ''dict'') (\<lambda>_.
     and_then (required_value kernel ''Profile'' Bc_UnsupportedKernelProfile) (\<lambda>profile.
     and_then (tagged_text ''string'' profile) (\<lambda>profile.
     and_then (ok_or (kernel_profile_of arm profile) Bc_UnsupportedKernelProfile) (\<lambda>profile.
     and_then (required_value kernel ''Path'' Bc_MissingPath) (\<lambda>path.
     and_then (tagged_text ''string'' path) (\<lambda>path.
     and_then (normalize_absolute_path path) (\<lambda>path.
     and_then (dictionary_value kernel ''Arguments'') (\<lambda>v.
     and_then (case v of None \<Rightarrow> Inr [] | Some v \<Rightarrow> tagged_text ''string'' v) (\<lambda>arguments.
     if list_ex (\<lambda>c. c < 0x20 \<or> 0x7e < c) arguments then Inl Bc_InvalidArguments
     else if 1023 < length arguments then Inl Bc_ArgumentsTooLong
     else Inr \<lparr> kt_path = path, kt_arguments = arguments, kt_profile = profile \<rparr>))))))))))))))"

definition parse_kernel_target where
  "parse_kernel_target parse_xml input = parse_named_kernel_target parse_xml input False"

definition parse_arm64_kernel_target where
  "parse_arm64_kernel_target parse_xml input = parse_named_kernel_target parse_xml input True"

section \<open>Numbers and the platform\<close>

definition text_number :: "ustring \<Rightarrow> nat option" where
  "text_number t =
     (let t = trim t in
      (case strip_prefix t (chars ''0x'') of
         Some hex \<Rightarrow> parse_number 16 hex
       | None \<Rightarrow> parse_number 10 t))"

definition number_value :: "boot_config_error \<Rightarrow> xml_node \<Rightarrow> boot_config_error + u64" where
  "number_value err n =
     and_then (tagged_text ''integer'' n) (\<lambda>t.
     and_then (ok_or (text_number t) err) (\<lambda>k. Inr (of_nat k)))"

definition trace_number :: "xml_node \<Rightarrow> string \<Rightarrow> boot_config_error + u64" where
  "trace_number trace name =
     and_then (required_value trace name Bc_InvalidTraceConfiguration) (number_value Bc_InvalidTraceConfiguration)"

definition platform_number :: "xml_node option \<Rightarrow> string \<Rightarrow> u64 \<Rightarrow> boot_config_error + u64" where
  "platform_number options name fallback =
     (case options of None \<Rightarrow> Inr fallback
      | Some options \<Rightarrow>
          and_then (dictionary_value options name) (\<lambda>v.
          (case v of None \<Rightarrow> Inr fallback | Some n \<Rightarrow> number_value Bc_InvalidPlatformConfiguration n)))"

definition check_option_key :: "xml_node \<Rightarrow> boot_config_error + unit" where
  "check_option_key key =
     and_then (scalar_text key) (\<lambda>name.
     if name \<in> {chars ''InitialOverride'', chars ''InitialPstate'', chars ''VectorBase'', chars ''IrqLevel'',
         chars ''FiqLevel''}
     then Inr () else Inl Bc_InvalidPlatformConfiguration)"

definition check_options :: "xml_node option \<Rightarrow> boot_config_error + unit" where
  "check_options options =
     (case options of None \<Rightarrow> Inr ()
      | Some options \<Rightarrow>
          and_then (require_tag options ''dict'') (\<lambda>_.
          for_each check_option_key (filter (\<lambda>n. has_tag_name n (chars ''key'')) (xml_elements options))))"

definition parse_arm64_platform_configuration ::
  "xml_node \<Rightarrow> boot_config_error + arm64_platform_configuration option" where
  "parse_arm64_platform_configuration trace =
     and_then (dictionary_value trace ''PlatformProfile'') (\<lambda>profile.
     and_then (dictionary_value trace ''Platform'') (\<lambda>options.
     (case profile of
        None \<Rightarrow> if options = None then Inr None else Inl Bc_InvalidPlatformConfiguration
      | Some profile \<Rightarrow>
          and_then (tagged_text ''string'' profile) (\<lambda>t.
          if t \<noteq> chars ''nextcore-irq-compat-v1'' then Inl Bc_InvalidPlatformConfiguration
          else
          and_then (check_options options) (\<lambda>_.
          and_then (platform_number options ''InitialOverride'' 0) (\<lambda>initial_override.
          and_then (platform_number options ''InitialPstate'' 0x3c5) (\<lambda>initial_pstate.
          and_then (platform_number options ''VectorBase'' 0) (\<lambda>vector_base.
          and_then (platform_number options ''IrqLevel'' 0) (\<lambda>irq_level.
          and_then (platform_number options ''FiqLevel'' 0) (\<lambda>fiq_level.
          if initial_override AND NOT 0x00f00000 \<noteq> 0 \<or>
             drop_bit 20 initial_override AND 3 \<notin> {0, 2} \<or>
             drop_bit 22 initial_override AND 3 \<notin> {0, 2} \<or>
             initial_pstate AND NOT 0xf00003cf \<noteq> 0 \<or>
             initial_pstate AND 15 \<notin> {4, 5} \<or>
             vector_base AND 2047 \<noteq> 0 \<or> 1 < irq_level \<or> 1 < fiq_level
          then Inl Bc_InvalidPlatformConfiguration
          else Inr (Some \<lparr> pc_profile = NextcoreIrqCompatV1, pc_initial_override = initial_override,
                 pc_initial_pstate = initial_pstate, pc_vector_base = vector_base,
                 pc_irq_level = (irq_level \<noteq> 0), pc_fiq_level = (fiq_level \<noteq> 0) \<rparr>)))))))))))"

section \<open>The trace\<close>

datatype trace_tier_capability = Tier_Ordinary | Tier_Deep | Tier_Long | Tier_Initialization | Tier_Mapped

definition memory_profile_of ::
  "trace_tier_capability \<Rightarrow> xml_node \<Rightarrow> boot_config_error + arm64_trace_memory_profile option" where
  "memory_profile_of capability trace =
     and_then (dictionary_value trace ''MemoryProfile'')
       (optional (\<lambda>n.
          if capability \<noteq> Tier_Mapped then Inl Bc_InvalidTraceConfiguration
          else
          and_then (tagged_text ''string'' n) (\<lambda>t.
          if t \<noteq> chars ''mapped-normal-nc-v1'' then Inl Bc_InvalidTraceConfiguration
          else Inr MappedNormalNcV1)))"

definition tier_budget :: "trace_tier_capability \<Rightarrow> bool \<Rightarrow> ustring \<Rightarrow> u64 option" where
  "tier_budget capability mapped t =
     (if t = chars ''deep-16384'' then Some 16384
      else if t = chars ''long-65536'' \<and> capability \<in> {Tier_Long, Tier_Initialization, Tier_Mapped} then Some 65536
      else if t = chars ''transition-1048576'' \<and> capability = Tier_Mapped \<and> mapped then Some 1048576
      else if t = chars ''boundary-1114112'' \<and> capability = Tier_Mapped \<and> mapped then Some 1114112
      else if t = chars ''helper-span-44040192'' \<and> capability = Tier_Mapped \<and> mapped then Some 44040192
      else if t = chars ''initialization-67108864'' \<and> capability \<in> {Tier_Initialization, Tier_Mapped} then Some 67108864
      else None)"

definition selected_budget_of ::
  "trace_tier_capability \<Rightarrow> bool \<Rightarrow> xml_node \<Rightarrow> boot_config_error + u64 option" where
  "selected_budget_of capability mapped trace =
     and_then (dictionary_value trace ''DiagnosticTier'')
       (optional (\<lambda>n.
          if capability = Tier_Ordinary then Inl Bc_InvalidTraceConfiguration
          else
          and_then (tagged_text ''string'' n) (\<lambda>t.
          ok_or (tier_budget capability mapped t) Bc_InvalidTraceConfiguration)))"

definition trace_video_of :: "xml_node \<Rightarrow> boot_config_error + arm64_trace_video option" where
  "trace_video_of trace =
     and_then (dictionary_value trace ''Video'')
       (optional (\<lambda>n.
          and_then (tagged_text ''string'' n) (\<lambda>t.
          if t \<noteq> chars ''gop-framebuffer'' then Inl Bc_InvalidTraceConfiguration else Inr GopFramebuffer)))"

text \<open>The sums behind the checks that they do not overflow cannot wrap around.\<close>

definition trace_out_of_bounds :: "u64 \<Rightarrow> u64 option \<Rightarrow> arm64_trace_configuration \<Rightarrow> bool" where
  "trace_out_of_bounds maximum_budget selected_budget c \<longleftrightarrow>
     tc_memory_size c < 16 * 1024 * 1024 \<or>
     tc_memory_profile c \<noteq> None \<and> tc_platform c = None \<or>
     1024 * 1024 * 1024 < tc_memory_size c \<or>
     tc_memory_size c mod 16384 \<noteq> 0 \<or> tc_physical_base c mod 16384 \<noteq> 0 \<or>
     tc_kernel_phys c mod 16384 \<noteq> 0 \<or> tc_virtual_base c mod 16384 \<noteq> 0 \<or>
     tc_actual_memory_size c < tc_memory_size c \<or> tc_actual_memory_size c mod 16384 \<noteq> 0 \<or>
     checked_add (tc_physical_base c) (tc_memory_size c) = None \<or>
     checked_add (tc_virtual_base c) (tc_memory_size c) = None \<or>
     tc_kernel_phys c < tc_physical_base c \<or>
     tc_physical_base c + tc_memory_size c \<le> tc_kernel_phys c \<or>
     tc_instruction_budget c = 0 \<or>
     (case selected_budget of None \<Rightarrow> False
      | Some budget \<Rightarrow> tc_instruction_budget c \<noteq> budget \<or> tc_platform c = None) \<or>
     (if tc_platform c \<noteq> None then maximum_budget else 8) < tc_instruction_budget c \<or>
     64 < tc_instruction_budget c \<and> tc_instruction_budget c \<notin> {256, 1024, 4096} \<and>
       selected_budget \<noteq> Some (tc_instruction_budget c)"

definition vector_outside :: "arm64_trace_configuration \<Rightarrow> arm64_platform_configuration \<Rightarrow> bool" where
  "vector_outside c platform \<longleftrightarrow>
     pc_vector_base platform \<noteq> 0 \<and>
     (pc_vector_base platform < tc_physical_base c \<or>
      (case checked_add (pc_vector_base platform) 2048 of None \<Rightarrow> True
       | Some stop \<Rightarrow> tc_physical_base c + tc_memory_size c < stop))"

definition parse_arm64_trace_with_policy ::
  "(nat \<Rightarrow> byte_string \<Rightarrow> xml_error + xml_document) \<Rightarrow> byte_string \<Rightarrow> u64 \<Rightarrow> trace_tier_capability \<Rightarrow>
   boot_config_error + arm64_trace_configuration" where
  "parse_arm64_trace_with_policy parse_xml input maximum_budget capability =
     and_then (parse_arm64_kernel_target parse_xml input) (\<lambda>target.
     if kt_profile target \<noteq> X86EfiArm64Trace then Inl Bc_UnsupportedKernelProfile
     else
     and_then (parse_document parse_xml input) (\<lambda>doc.
     and_then (top_dictionary doc) (\<lambda>root.
     and_then (required_value root ''Nextcore'' Bc_MissingKernelTarget) (\<lambda>nextcore.
     and_then (required_value nextcore ''Kernel'' Bc_MissingKernelTarget) (\<lambda>kernel.
     and_then (required_value kernel ''Trace'' Bc_InvalidTraceConfiguration) (\<lambda>trace.
     and_then (require_tag trace ''dict'') (\<lambda>_.
     and_then (memory_profile_of capability trace) (\<lambda>memory_profile.
     and_then (selected_budget_of capability (memory_profile \<noteq> None) trace) (\<lambda>selected_budget.
     and_then (required_value trace ''HandoffAbi'' Bc_InvalidTraceConfiguration) (\<lambda>abi.
     and_then (tagged_text ''string'' abi) (\<lambda>abi.
     if abi \<noteq> chars ''unprovisioned-sptm-prefix'' then Inl Bc_InvalidTraceConfiguration
     else
     and_then (required_value trace ''DeviceTreePath'' Bc_InvalidTraceConfiguration) (\<lambda>path.
     and_then (require_tag path ''string'') (\<lambda>_.
     and_then (trace_number trace ''PhysicalBase'') (\<lambda>physical_base.
     and_then (trace_number trace ''VirtualBase'') (\<lambda>virtual_base.
     and_then (trace_number trace ''MemorySize'') (\<lambda>memory_size.
     and_then (trace_number trace ''ActualMemorySize'') (\<lambda>actual_memory_size.
     and_then (trace_number trace ''KernelPhysical'') (\<lambda>kernel_phys.
     and_then (scalar_text path) (\<lambda>path.
     and_then (normalize_absolute_path path) (\<lambda>device_tree_path.
     and_then (trace_number trace ''InstructionBudget'') (\<lambda>instruction_budget.
     and_then (parse_arm64_platform_configuration trace) (\<lambda>platform.
     and_then (trace_video_of trace) (\<lambda>video.
     let c = \<lparr> tc_physical_base = physical_base, tc_virtual_base = virtual_base, tc_memory_size = memory_size,
               tc_actual_memory_size = actual_memory_size, tc_kernel_phys = kernel_phys,
               tc_device_tree_path = device_tree_path, tc_instruction_budget = instruction_budget,
               tc_platform = platform, tc_video = video, tc_memory_profile = memory_profile \<rparr> in
     if trace_out_of_bounds (case selected_budget of None \<Rightarrow> maximum_budget | Some b \<Rightarrow> b) selected_budget c
     then Inl Bc_InvalidTraceConfiguration
     else if (case platform of None \<Rightarrow> False | Some p \<Rightarrow> vector_outside c p)
     then Inl Bc_InvalidPlatformConfiguration
     else Inr c)))))))))))))))))))))))"

definition parse_arm64_trace_configuration_with_limit where
  "parse_arm64_trace_configuration_with_limit parse_xml input maximum_budget =
     (if maximum_budget \<notin> {64, 256, 1024, 4096} then Inl Bc_InvalidTraceConfiguration
      else parse_arm64_trace_with_policy parse_xml input maximum_budget Tier_Ordinary)"

definition parse_arm64_trace_configuration where
  "parse_arm64_trace_configuration parse_xml input =
     parse_arm64_trace_configuration_with_limit parse_xml input 64"

definition parse_arm64_trace_configuration_with_deep_tier where
  "parse_arm64_trace_configuration_with_deep_tier parse_xml input =
     parse_arm64_trace_with_policy parse_xml input 4096 Tier_Deep"

definition parse_arm64_trace_configuration_with_long_tier where
  "parse_arm64_trace_configuration_with_long_tier parse_xml input =
     parse_arm64_trace_with_policy parse_xml input 4096 Tier_Long"

definition parse_arm64_trace_configuration_with_initialization_tier where
  "parse_arm64_trace_configuration_with_initialization_tier parse_xml input =
     parse_arm64_trace_with_policy parse_xml input 4096 Tier_Initialization"

definition parse_arm64_trace_configuration_with_mapped_tier where
  "parse_arm64_trace_configuration_with_mapped_tier parse_xml input =
     parse_arm64_trace_with_policy parse_xml input 4096 Tier_Mapped"

end
