(* ===== verification/Boot_Config_Proofs.thy ===== *)
theory Boot_Config_Proofs
  imports Boot_Config_Targets
begin

text \<open>
  The normal form of paths, what the boot menu and the single boot target have in common, the
  targets that reach the loader, and the bounds of a trace with the order of its tiers.
\<close>

section \<open>Paths\<close>

definition component_ok :: "ustring \<Rightarrow> bool" where
  "component_ok w \<longleftrightarrow>
     w \<noteq> [] \<and> w \<noteq> [46] \<and> w \<noteq> [46, 46] \<and> last w \<noteq> 46 \<and> last w \<noteq> 32 \<and>
     (\<forall>c \<in> set w. c \<le> 65535 \<and> \<not> is_control c \<and> c \<notin> {92, 47, 58, 42, 63, 34, 60, 62, 124})"

text \<open>A path is a sequence of components, each behind a backslash.\<close>

definition join_path :: "ustring list \<Rightarrow> ustring" where
  "join_path ws = concat (map (Cons 92) ws)"

definition path_ok :: "ustring \<Rightarrow> bool" where
  "path_ok p \<longleftrightarrow> (\<exists>ws. ws \<noteq> [] \<and> list_all component_ok ws \<and> p = join_path ws) \<and> length p \<le> MAX_PATH_UTF16_UNITS"

lemma split_on_not_Nil: "split_on sep s \<noteq> []"
  by (induction s) (auto split: list.splits)

lemma join_split: "join_path (split_on 92 s) = 92 # s"
  by (induction s) (auto simp: join_path_def split_on_not_Nil split: list.splits)

lemma split_on_set: "(\<Union>w \<in> set (split_on sep s). set w) = set s - {sep}"
  by (induction s) (auto split: list.splits simp: split_on_not_Nil, blast+)

lemma split_on_append: "sep \<notin> set w \<Longrightarrow> split_on sep (w @ sep # s) = w # split_on sep s"
  by (induction w) (auto split: list.splits)

lemma split_on_single: "sep \<notin> set w \<Longrightarrow> split_on sep w = [w]"
  by (induction w) (auto split: list.splits)

lemma split_join: "ws \<noteq> [] \<Longrightarrow> \<forall>w \<in> set ws. 92 \<notin> set w \<Longrightarrow> split_on 92 (drop 1 (join_path ws)) = ws"
proof (induction ws rule: list_nonempty_induct)
  case (cons w ws)
  from cons.hyps obtain v vs where "ws = v # vs" by (cases ws) auto
  then have "join_path ws = 92 # drop 1 (join_path ws)" by (simp add: join_path_def)
  then have "drop 1 (join_path (w # ws)) = w @ 92 # drop 1 (join_path ws)" by (simp add: join_path_def)
  then show ?case using cons by (simp add: split_on_append)
qed (simp add: join_path_def split_on_single)

lemma utf16_units_bmp: "\<forall>c \<in> set s. c \<le> 65535 \<Longrightarrow> utf16_units s = length s"
  by (induction s) (auto simp: utf16_units_def)

lemma utf16_units_length: "length s \<le> utf16_units s"
  by (induction s) (auto simp: utf16_units_def)

lemma normalize_path_ok: "normalize_absolute_path p = Inr q \<Longrightarrow> path_ok q"
proof -
  assume n: "normalize_absolute_path p = Inr q"
  then have q: "q = map (\<lambda>c. if c = 47 then 92 else c) p" and bad: "\<not> list_ex bad_component (split_on 92 (drop 1 q))"
    and chars: "\<forall>c \<in> set p. c \<le> 65535 \<and> \<not> is_control c \<and> c \<notin> {58, 42, 63, 34, 60, 62, 124}"
    and first: "starts_with q [92]" and len: "utf16_units p \<le> MAX_PATH_UTF16_UNITS"
    by (auto simp: normalize_absolute_path_def Let_def list_ex_iff split: if_splits)
  let ?ws = "split_on 92 (drop 1 q)"
  have "q = 92 # drop 1 q" using first by (cases q) (auto simp: starts_with_def)
  then have "q = join_path ?ws" using join_split [of "drop 1 q"] by simp
  moreover have "component_ok w" if w: "w \<in> set ?ws" for w
  proof -
    have "set w \<subseteq> set (drop 1 q) - {92}" using w split_on_set [of 92 "drop 1 q"] by auto
    then have "set w \<subseteq> set q - {92}" using set_drop_subset [of 1 q] by auto
    moreover have "\<not> bad_component w" using bad w by (auto simp: list_ex_iff)
    ultimately show ?thesis using chars by (auto simp: component_ok_def bad_component_def q)
  qed
  moreover have "length q \<le> MAX_PATH_UTF16_UNITS" using len utf16_units_length [of p] by (simp add: q)
  ultimately show ?thesis using split_on_not_Nil unfolding path_ok_def list_all_iff by blast
qed

lemma normalize_join:
  assumes ws: "ws \<noteq> []" "list_all component_ok ws" and len: "length (join_path ws) \<le> MAX_PATH_UTF16_UNITS"
  shows "normalize_absolute_path (join_path ws) = Inr (join_path ws)"
proof -
  let ?q = "join_path ws"
  have chars: "c \<le> 65535 \<and> \<not> is_control c \<and> c \<notin> {47, 58, 42, 63, 34, 60, 62, 124}" if "c \<in> set ?q" for c
  proof (cases "c = 92")
    case False
    then have "\<exists>w \<in> set ws. c \<in> set w" using that by (auto simp: join_path_def split: if_splits)
    then show ?thesis using ws(2) unfolding list_all_iff component_ok_def by blast
  qed (simp add: is_control_def)
  have split: "split_on 92 (drop 1 ?q) = ws"
    using ws by (intro split_join) (auto simp: list_all_iff component_ok_def)
  have same: "map (\<lambda>c. if c = 47 then 92 else c) ?q = ?q"
    using chars by (intro map_idI) auto
  have "\<not> list_ex bad_component ws"
    using ws(2) by (auto simp: list_ex_iff list_all_iff component_ok_def bad_component_def)
  moreover have "starts_with ?q [92] \<and> \<not> starts_with ?q [92, 92]"
  proof -
    obtain w vs where "ws = w # vs" using ws(1) by (cases ws) auto
    then show ?thesis
      using ws(2) by (cases w) (auto simp: join_path_def starts_with_def component_ok_def)
  qed
  moreover have "\<not> list_ex (\<lambda>c. 65535 < c \<or> is_control c \<or> c \<in> {58, 42, 63, 34, 60, 62, 124}) ?q"
    using chars by (fastforce simp: list_ex_iff)
  moreover have "utf16_units ?q = length ?q" using chars by (intro utf16_units_bmp) auto
  ultimately show ?thesis
    using len unfolding normalize_absolute_path_def Let_def same split by auto
qed

text \<open>
  C. The paths the reader returns are exactly the sequences of non-empty components behind
  backslashes, within 1024 units, where no component is a dot or two dots, ends in a dot or a
  space, or holds a separator, a control character or one that file systems reserve; such a path
  is its own normal form.
\<close>

theorem normal_paths:
  "(normalize_absolute_path q = Inr q) = path_ok q \<and> (\<exists>p. normalize_absolute_path p = Inr q) = path_ok q"
  using normalize_path_ok normalize_join unfolding path_ok_def by blast

section \<open>Menu and target\<close>

definition as_target :: "boot_menu \<Rightarrow> boot_config_error + boot_target option" where
  "as_target menu =
     (case bm_entries menu of [] \<Rightarrow> Inr None | [e] \<Rightarrow> Inr (Some (me_target e)) | _ \<Rightarrow> Inl Bc_AmbiguousTarget)"

text \<open>What one accepted entry does to the menu.\<close>

lemma menu_entry_Inr:
  assumes "menu_entry menu (i, entry) = Inr menu'"
  obtains (skipped) "menu' = menu" "\<And>selected. target_entry selected (i, entry) = Inr selected" "i < MAX_ENTRIES"
  | (added) name target where "menu' = menu\<lparr> bm_entries := bm_entries menu @ [\<lparr> me_name = name, me_target = target \<rparr>] \<rparr>"
      "bm_show_picker menu \<or> bm_entries menu = []"
      "\<And>selected. target_entry selected (i, entry) = (if selected = None then Inr (Some target) else Inl Bc_AmbiguousTarget)"
      "i < MAX_ENTRIES" "entry_path entry = Inr (Some (bt_path target))"
      "entry_arguments entry = Inr (bt_arguments target)" "parse_apfs_volume entry = Inr (bt_apfs_volume target)"
      "entry_name (bm_show_picker menu) i entry = Inr name"
proof -
  obtain u enabled path arguments apfs_volume name where i: "\<not> MAX_ENTRIES \<le> i"
    and parts: "require_tag entry ''dict'' = Inr u" "entry_enabled entry = Inr enabled" "entry_path entry = Inr path"
      "entry_arguments entry = Inr arguments" "parse_apfs_volume entry = Inr apfs_volume"
      "entry_name (bm_show_picker menu) i entry = Inr name"
    and r: "(if \<not> enabled then Inr menu
      else if \<not> bm_show_picker menu \<and> bm_entries menu \<noteq> [] then Inl Bc_AmbiguousTarget
      else
      and_then (ok_or path Bc_MissingPath) (\<lambda>path.
      Inr (menu\<lparr> bm_entries := bm_entries menu @
        [\<lparr> me_name = name, me_target = \<lparr> bt_path = path, bt_arguments = arguments,
            bt_apfs_volume = apfs_volume \<rparr> \<rparr>] \<rparr>))) = Inr menu'"
    using assms unfolding menu_entry_def prod.case if_Inl_Inr and_then_Inr
    by (elim exE conjE) (rule that, assumption+)
  show thesis
  proof (cases enabled)
    case False
    then show thesis using r i parts skipped by (simp add: target_entry_def)
  next
    case True
    then obtain p where p: "path = Some p" and picker: "bm_show_picker menu \<or> bm_entries menu = []"
      using r by (auto simp: result_iff split: if_splits)
    then show thesis
      using r i parts True
      by (intro added [of name "\<lparr> bt_path = p, bt_arguments = arguments, bt_apfs_volume = apfs_volume \<rparr>"])
        (simp_all add: target_entry_def split: if_splits)
  qed
qed

lemma menu_entries_grow:
  "try_fold menu_entry menu xs = Inr menu' \<Longrightarrow>
   bm_show_picker menu' = bm_show_picker menu \<and> (\<exists>es. bm_entries menu' = bm_entries menu @ es)"
proof (induction xs arbitrary: menu)
  case (Cons x xs)
  then obtain m where m: "menu_entry menu x = Inr m" and rest: "try_fold menu_entry m xs = Inr menu'"
    by (auto simp: result_iff)
  show ?case using Cons.IH [OF rest] m by (cases x) (auto elim!: menu_entry_Inr)
qed simp

lemma menu_fold_target:
  "try_fold menu_entry menu xs = Inr menu' \<Longrightarrow> as_target menu = Inr selected \<Longrightarrow>
   try_fold target_entry selected xs = as_target menu'"
proof (induction xs arbitrary: menu selected)
  case (Cons x xs)
  obtain i entry where x: "x = (i, entry)" by (cases x)
  from Cons.prems obtain m where m: "menu_entry menu (i, entry) = Inr m" and rest: "try_fold menu_entry m xs = Inr menu'"
    by (auto simp: result_iff x)
  from m show ?case
  proof (cases rule: menu_entry_Inr)
    case skipped
    then show ?thesis using Cons.IH [OF rest] Cons.prems(2) by (simp add: x)
  next
    case (added name target)
    show ?thesis
    proof (cases selected)
      case None
      then have "bm_entries menu = []" using Cons.prems(2) by (auto simp: as_target_def split: list.splits)
      then show ?thesis using Cons.IH [OF rest, of "Some target"] added None by (simp add: x as_target_def)
    next
      case (Some t)
      then obtain e where "bm_entries menu = [e]" using Cons.prems(2) by (auto simp: as_target_def split: list.splits)
      then obtain es f where "bm_entries menu' = e # f # es"
        using menu_entries_grow [OF rest] added by auto
      then show ?thesis using added Some by (simp add: x as_target_def)
    qed
  qed
qed simp

text \<open>
  C38. Wherever the boot menu is accepted, the single-target reader answers for the same input by
  the menu alone: no entry is no target, one entry is its target, and more than one is refused as
  ambiguous. A menu without the picker has at most one entry.
\<close>

theorem boot_menu_agrees:
  assumes "parse_boot_menu parse_xml input = Inr menu"
  shows "parse_boot_target parse_xml input = as_target menu"
proof -
  obtain doc dict misc where
    doc: "parse_document parse_xml input = Inr doc" "top_dictionary doc = Inr dict" "dictionary_value dict ''Misc'' = Inr misc"
    and r: "(case misc of None \<Rightarrow> Inr \<lparr> bm_show_picker = False, bm_entries = [] \<rparr>
      | Some misc \<Rightarrow>
          and_then (require_tag misc ''dict'') (\<lambda>_.
          and_then (show_picker_of misc) (\<lambda>show_picker.
          let menu = \<lparr> bm_show_picker = show_picker, bm_entries = [] \<rparr> in
          and_then (dictionary_value misc ''Entries'') (\<lambda>entries.
          (case entries of None \<Rightarrow> Inr menu
           | Some entries \<Rightarrow>
               and_then (require_tag entries ''array'') (\<lambda>_.
               try_fold menu_entry menu (enumerate 0 (xml_elements entries)))))))) = Inr menu"
    using assms by (auto simp: parse_boot_menu_def result_iff)
  have none: "as_target \<lparr> bm_show_picker = b, bm_entries = [] \<rparr> = Inr None" for b by (simp add: as_target_def)
  show ?thesis
    using r menu_fold_target [OF _ none]
    by (auto simp: parse_boot_target_def select_boot_target_def doc none result_iff Let_def split: option.splits)
qed

section \<open>The targets\<close>

definition efi_path_ok :: "ustring \<Rightarrow> bool" where
  "efi_path_ok p \<longleftrightarrow>
     path_ok p \<and> (\<exists>stem extension. p = stem @ 46 # extension \<and> map lowercase extension = chars ''efi'')"

definition boot_target_ok :: "boot_target \<Rightarrow> bool" where
  "boot_target_ok t \<longleftrightarrow>
     efi_path_ok (bt_path t) \<and>
     (\<forall>c \<in> set (bt_arguments t). \<not> is_control c) \<and> utf16_units (bt_arguments t) \<le> MAX_ARGUMENTS_UTF16_UNITS \<and>
     (case bt_apfs_volume t of None \<Rightarrow> True
      | Some v \<Rightarrow> v \<noteq> [] \<and> trim v = v \<and> utf16_units v \<le> MAX_APFS_VOLUME_UTF16_UNITS \<and>
          (\<forall>c \<in> set v. \<not> is_control c \<and> c \<notin> {47, 92}))"

definition name_ok :: "ustring \<Rightarrow> bool" where
  "name_ok n \<longleftrightarrow> trim n \<noteq> [] \<and> utf16_units n \<le> 64 \<and> (\<forall>c \<in> set n. \<not> is_control c)"

lemma after_last_Some: "after_last sep s = Some t \<Longrightarrow> \<exists>stem. s = stem @ sep # t"
proof -
  assume "after_last sep s = Some t"
  then have m: "sep \<in> set s" and t: "t = rev (takeWhile (\<lambda>c. c \<noteq> sep) (rev s))"
    by (auto simp: after_last_def split: if_splits)
  have "dropWhile (\<lambda>c. c \<noteq> sep) (rev s) \<noteq> []" using m by simp
  then obtain rest where "dropWhile (\<lambda>c. c \<noteq> sep) (rev s) = sep # rest"
    using hd_dropWhile [of "\<lambda>c. c \<noteq> sep" "rev s"] by (cases "dropWhile (\<lambda>c. c \<noteq> sep) (rev s)") auto
  then have "rev s = takeWhile (\<lambda>c. c \<noteq> sep) (rev s) @ sep # rest"
    using takeWhile_dropWhile_id [of "\<lambda>c. c \<noteq> sep" "rev s"] by simp
  then have "s = rev rest @ sep # t" using t by (metis append.assoc append_Cons append_Nil rev.simps(2) rev_append rev_swap)
  then show ?thesis by blast
qed

lemma normalize_path_Inr: "normalize_path p = Inr q \<Longrightarrow> efi_path_ok q"
proof -
  assume "normalize_path p = Inr q"
  then obtain extension where n: "normalize_absolute_path p = Inr q" and a: "after_last 46 q = Some extension"
    and e: "map lowercase extension = map lowercase (chars ''efi'')"
    by (auto simp: normalize_path_def result_iff split: option.splits if_splits)
  have "map lowercase (chars ''efi'') = chars ''efi''" by (simp add: chars_def lowercase_def)
  then show ?thesis
    using normalize_path_ok [OF n] after_last_Some [OF a] e unfolding efi_path_ok_def by auto
qed

lemma optional_Some [result_iff]:
  "optional f v = Inr r \<longleftrightarrow> (case v of None \<Rightarrow> r = None | Some x \<Rightarrow> \<exists>y. f x = Inr y \<and> r = Some y)"
  by (auto simp: optional_def result_iff split: option.splits)

lemma entry_path_Inr: "entry_path entry = Inr (Some p) \<Longrightarrow> efi_path_ok p"
  by (auto simp: entry_path_def result_iff split: option.splits dest: normalize_path_Inr)

lemma entry_arguments_Inr:
  "entry_arguments entry = Inr t \<Longrightarrow>
   (\<forall>c \<in> set t. \<not> is_control c) \<and> utf16_units t \<le> MAX_ARGUMENTS_UTF16_UNITS"
  by (auto simp: entry_arguments_def result_iff list_ex_iff utf16_units_def split: option.splits if_splits)

lemma parse_apfs_volume_Inr:
  "parse_apfs_volume entry = Inr (Some v) \<Longrightarrow>
   v \<noteq> [] \<and> trim v = v \<and> utf16_units v \<le> MAX_APFS_VOLUME_UTF16_UNITS \<and> (\<forall>c \<in> set v. \<not> is_control c \<and> c \<notin> {47, 92})"
  by (auto simp: parse_apfs_volume_def result_iff list_ex_iff split: option.splits if_splits)

lemma trim_not_Nil: "c \<in> set s \<Longrightarrow> \<not> is_whitespace c \<Longrightarrow> trim s \<noteq> []"
proof -
  assume c: "c \<in> set s" "\<not> is_whitespace c"
  then have "c \<in> set (dropWhile is_whitespace s)"
    by (metis Un_iff set_append set_takeWhileD takeWhile_dropWhile_id)
  then show ?thesis using c by (auto simp: trim_def)
qed

lemma default_name_ok: "index < 64 \<Longrightarrow> name_ok (default_name index)"
proof -
  assume "index < 64"
  then have "Suc index div 10 < 10" by presburger
  then have len: "length (decimal_text (index + 1)) \<le> 2"
    by (simp add: decimal_text.simps [of "Suc index"] decimal_text.simps [of "Suc index div 10"])
  have digits: "48 \<le> c \<and> c \<le> 57" if "c \<in> set (map unat (decimal_text (index + 1)))" for c
    using that decimal_text_digits [of _ "index + 1"] by (auto simp: is_digit_def word_le_nat_alt)
  have fixed: "chars ''EFI entry '' = [69, 70, 73, 32, 101, 110, 116, 114, 121, 32]" by (simp add: chars_def)
  have "utf16_units (default_name index) = length (default_name index)"
    using digits by (intro utf16_units_bmp) (fastforce simp: default_name_def fixed)
  moreover have "trim (default_name index) \<noteq> []"
    by (rule trim_not_Nil [of 69]) (simp_all add: default_name_def fixed is_whitespace_def)
  moreover have "\<not> is_control c" if "c \<in> set (default_name index)" for c
  proof (cases "c \<in> set (map unat (decimal_text (index + 1)))")
    case True
    then show ?thesis using digits [OF True] by (simp add: is_control_def)
  next
    case False
    then show ?thesis using that by (auto simp: default_name_def fixed is_control_def)
  qed
  moreover have "length (default_name index) \<le> 64" using len by (simp add: default_name_def fixed)
  ultimately show ?thesis unfolding name_ok_def by auto
qed

lemma entry_name_ok: "entry_name picker index entry = Inr n \<Longrightarrow> index < 64 \<Longrightarrow> name_ok n"
  using default_name_ok [of index]
  by (auto simp: entry_name_def name_ok_def result_iff list_ex_iff split: option.splits if_splits)

definition menu_ok :: "boot_menu \<Rightarrow> bool" where
  "menu_ok menu \<longleftrightarrow>
     (\<forall>e \<in> set (bm_entries menu). name_ok (me_name e) \<and> boot_target_ok (me_target e)) \<and>
     (bm_show_picker menu \<or> length (bm_entries menu) \<le> 1)"

lemma boot_target_okI:
  assumes "entry_path entry = Inr (Some (bt_path t))" "entry_arguments entry = Inr (bt_arguments t)"
    "parse_apfs_volume entry = Inr (bt_apfs_volume t)"
  shows "boot_target_ok t"
  using entry_path_Inr [OF assms(1)] entry_arguments_Inr [OF assms(2)] parse_apfs_volume_Inr [of entry] assms(3)
  unfolding boot_target_ok_def by (auto split: option.splits)

lemma menu_entry_ok:
  assumes m: "menu_entry menu (i, entry) = Inr menu'" and ok: "menu_ok menu"
  shows "i < MAX_ENTRIES \<and> menu_ok menu' \<and> length (bm_entries menu') \<le> Suc (length (bm_entries menu))"
  using m
proof (cases rule: menu_entry_Inr)
  case (added name target)
  have "boot_target_ok target" using added(5,6,7) by (rule boot_target_okI)
  moreover have "name_ok name" using entry_name_ok [OF added(8)] added(4) by (simp add: MAX_ENTRIES_def)
  ultimately show ?thesis using added(1,2,4) ok by (auto simp: menu_ok_def)
qed (use ok in auto)

lemma menu_fold_ok:
  "try_fold menu_entry menu (enumerate k xs) = Inr menu' \<Longrightarrow> menu_ok menu \<Longrightarrow> length (bm_entries menu) \<le> k \<Longrightarrow>
   k \<le> MAX_ENTRIES \<Longrightarrow> menu_ok menu' \<and> length (bm_entries menu') \<le> MAX_ENTRIES"
proof (induction xs arbitrary: menu k)
  case (Cons x xs)
  from Cons.prems(1) obtain m where m: "menu_entry menu (k, x) = Inr m"
    and rest: "try_fold menu_entry m (enumerate (Suc k) xs) = Inr menu'"
    by (auto simp: result_iff)
  show ?case using Cons.IH [OF rest] menu_entry_ok [OF m] Cons.prems by auto
qed auto

text \<open>
  C37. Every target of an accepted boot menu can be handed to the firmware: the path is normal and
  ends in the extension of an EFI program, the arguments and the volume name hold no control
  characters and keep their limits, the displayed name is visible and short, there are at most 64
  entries, and at most one where the picker is off.
\<close>

theorem boot_menu_wellformed:
  assumes "parse_boot_menu parse_xml input = Inr menu"
  shows "menu_ok menu \<and> length (bm_entries menu) \<le> MAX_ENTRIES"
proof -
  have start: "menu_ok \<lparr> bm_show_picker = b, bm_entries = [] \<rparr>" for b by (simp add: menu_ok_def)
  show ?thesis
    using assms start menu_fold_ok [OF _ start]
    by (auto simp: parse_boot_menu_def result_iff Let_def split: option.splits)
qed

end
