(* ===== verification/Boot_Config_Trace.thy ===== *)
theory Boot_Config_Trace
  imports Boot_Config_Proofs
begin

text \<open>
  The trace configuration: the bounds of every accepted one, and the order of the capabilities
  that admit it.
\<close>

section \<open>The order of the capabilities\<close>

fun tier_rank :: "trace_tier_capability \<Rightarrow> nat" where
  "tier_rank Tier_Ordinary = 0"
| "tier_rank Tier_Deep = 1"
| "tier_rank Tier_Long = 2"
| "tier_rank Tier_Initialization = 3"
| "tier_rank Tier_Mapped = 4"

text \<open>The largest budget a selector of the capability names.\<close>

fun tier_limit :: "trace_tier_capability \<Rightarrow> nat" where
  "tier_limit Tier_Ordinary = 0"
| "tier_limit Tier_Deep = 16384"
| "tier_limit Tier_Long = 65536"
| "tier_limit Tier_Initialization = 67108864"
| "tier_limit Tier_Mapped = 67108864"

lemma chars_eq [simp]: "chars a = chars b \<longleftrightarrow> a = b"
  by (auto simp: chars_def inj_map_eq_map inj_def)

lemma and_then_weaken:
  assumes "and_then r f = Inr c" and "\<And>a. r = Inr a \<Longrightarrow> r' = Inr a"
    and "\<And>a. r = Inr a \<Longrightarrow> f a = Inr c \<Longrightarrow> g a = Inr c"
  shows "and_then r' g = Inr c"
  using assms by (auto simp: result_iff)

lemma branch_weaken:
  "(if b then Inl e else r) = Inr c \<Longrightarrow> (\<not> b \<Longrightarrow> r = Inr c \<Longrightarrow> r' = Inr c) \<Longrightarrow> (if b then Inl e' else r') = Inr c"
  by (simp split: if_splits)

lemma branch_weaken_cond:
  "(if b then Inl e else r) = Inr c \<Longrightarrow> (\<not> b \<Longrightarrow> \<not> b') \<Longrightarrow> r = r' \<Longrightarrow> (if b' then Inl e' else r') = Inr c"
  by (simp split: if_splits)

lemma optional_weaken:
  "optional f v = Inr r \<Longrightarrow> (\<And>x y. f x = Inr y \<Longrightarrow> g x = Inr y) \<Longrightarrow> optional g v = Inr r"
  by (auto simp: result_iff split: option.splits)

lemma rank_mapped: "4 \<le> tier_rank b \<Longrightarrow> b = Tier_Mapped"
  by (cases b) auto

lemma memory_profile_weaken:
  "memory_profile_of a trace = Inr m \<Longrightarrow> tier_rank a \<le> tier_rank b \<Longrightarrow> memory_profile_of b trace = Inr m"
  unfolding memory_profile_of_def
  by (erule and_then_weaken, assumption, erule optional_weaken, cases "a = Tier_Mapped")
    (use rank_mapped in \<open>auto split: if_splits\<close>)

lemma tier_budget_weaken:
  "tier_budget a mapped t = Some n \<Longrightarrow> tier_rank a \<le> tier_rank b \<Longrightarrow> tier_budget b mapped t = Some n"
  unfolding tier_budget_def by (cases a; cases b) (simp_all split: if_splits)

lemma selected_budget_weaken:
  "selected_budget_of a mapped trace = Inr s \<Longrightarrow> tier_rank a \<le> tier_rank b \<Longrightarrow>
   selected_budget_of b mapped trace = Inr s"
  unfolding selected_budget_of_def
proof (erule and_then_weaken, assumption, erule optional_weaken)
  fix x y
  assume r: "tier_rank a \<le> tier_rank b"
    and n: "(if a = Tier_Ordinary then Inl Bc_InvalidTraceConfiguration
      else and_then (tagged_text ''string'' x) (\<lambda>t. ok_or (tier_budget a mapped t) Bc_InvalidTraceConfiguration)) = Inr y"
  then have "b \<noteq> Tier_Ordinary" by (cases a; cases b) auto
  then show "(if b = Tier_Ordinary then Inl Bc_InvalidTraceConfiguration
      else and_then (tagged_text ''string'' x) (\<lambda>t. ok_or (tier_budget b mapped t) Bc_InvalidTraceConfiguration)) = Inr y"
    using n tier_budget_weaken [OF _ r] by (auto simp: result_iff split: if_splits)
qed

lemma out_of_bounds_weaken:
  assumes "m \<le> n" and "\<not> trace_out_of_bounds (case s of None \<Rightarrow> m | Some k \<Rightarrow> k) s x"
  shows "\<not> trace_out_of_bounds (case s of None \<Rightarrow> n | Some k \<Rightarrow> k) s x"
proof (cases s)
  case None
  have "\<not> (if p then n else 8) < k" if "\<not> (if p then m else 8) < k" for p and k :: u64
    using that assms(1) by (auto split: if_splits)
  then show ?thesis using assms(2) unfolding trace_out_of_bounds_def None option.case by blast
qed (use assms(2) in simp)

text \<open>
  C40. The capabilities extend one another: whatever configuration a parser with a weaker capability
  and a smaller limit accepts, a stronger one accepts with the same result.
\<close>

theorem trace_tiers_extend:
  assumes "parse_arm64_trace_with_policy parse_xml input m a = Inr c"
    and "tier_rank a \<le> tier_rank b" and "m \<le> n"
  shows "parse_arm64_trace_with_policy parse_xml input n b = Inr c"
  using assms(1) unfolding parse_arm64_trace_with_policy_def Let_def
  by - (((erule and_then_weaken, (assumption | erule memory_profile_weaken, rule assms(2) |
        erule selected_budget_weaken, rule assms(2))) | erule branch_weaken)+,
    erule branch_weaken_cond, erule out_of_bounds_weaken [OF assms(3)], rule refl)

section \<open>The bounds of a configuration\<close>

definition platform_ok :: "arm64_trace_configuration \<Rightarrow> arm64_platform_configuration \<Rightarrow> bool" where
  "platform_ok c p \<longleftrightarrow>
     pc_initial_override p AND NOT 0x00f00000 = 0 \<and> pc_initial_pstate p AND NOT 0xf00003cf = 0 \<and>
     pc_initial_pstate p AND 15 \<in> {4, 5} \<and> pc_vector_base p AND 2047 = 0 \<and>
     (pc_vector_base p = 0 \<or>
      unat (tc_physical_base c) \<le> unat (pc_vector_base p) \<and>
      unat (pc_vector_base p) + 2048 \<le> unat (tc_physical_base c) + unat (tc_memory_size c))"

definition trace_ok :: "nat \<Rightarrow> trace_tier_capability \<Rightarrow> arm64_trace_configuration \<Rightarrow> bool" where
  "trace_ok maximum capability c \<longleftrightarrow>
     0x1000000 \<le> unat (tc_memory_size c) \<and> unat (tc_memory_size c) \<le> 0x40000000 \<and>
     list_all (\<lambda>w. unat w mod 16384 = 0)
       [tc_physical_base c, tc_virtual_base c, tc_memory_size c, tc_actual_memory_size c, tc_kernel_phys c] \<and>
     unat (tc_physical_base c) + unat (tc_memory_size c) < 2 ^ 64 \<and>
     unat (tc_virtual_base c) + unat (tc_memory_size c) < 2 ^ 64 \<and>
     unat (tc_memory_size c) \<le> unat (tc_actual_memory_size c) \<and>
     unat (tc_physical_base c) \<le> unat (tc_kernel_phys c) \<and>
     unat (tc_kernel_phys c) < unat (tc_physical_base c) + unat (tc_memory_size c) \<and>
     path_ok (tc_device_tree_path c) \<and> 0 < unat (tc_instruction_budget c) \<and>
     (case tc_platform c of
        None \<Rightarrow> unat (tc_instruction_budget c) \<le> 8 \<and> tc_memory_profile c = None
      | Some p \<Rightarrow> unat (tc_instruction_budget c) \<le> max maximum (tier_limit capability) \<and> platform_ok c p) \<and>
     (tc_memory_profile c = None \<or> capability = Tier_Mapped)"

lemma trace_parts:
  assumes "parse_arm64_trace_with_policy parse_xml input m a = Inr c"
  obtains trace selected path where
    "memory_profile_of a trace = Inr (tc_memory_profile c)"
    "selected_budget_of a (tc_memory_profile c \<noteq> None) trace = Inr selected"
    "normalize_absolute_path path = Inr (tc_device_tree_path c)"
    "parse_arm64_platform_configuration trace = Inr (tc_platform c)"
    "\<not> trace_out_of_bounds (case selected of None \<Rightarrow> m | Some k \<Rightarrow> k) selected c"
    "\<not> (case tc_platform c of None \<Rightarrow> False | Some p \<Rightarrow> vector_outside c p)"
  using assms unfolding parse_arm64_trace_with_policy_def Let_def if_Inl_Inr and_then_Inr sum.inject
  by (elim exE conjE) (rule that, force+)

lemma memory_profile_Inr: "memory_profile_of a trace = Inr m \<Longrightarrow> m = None \<or> a = Tier_Mapped"
  by (auto simp: memory_profile_of_def result_iff split: option.splits if_splits)

lemma selected_budget_Inr: "selected_budget_of a mapped trace = Inr (Some n) \<Longrightarrow> unat n \<le> tier_limit a"
  by (cases a) (auto simp: selected_budget_of_def result_iff tier_budget_def split: option.splits if_splits)

lemma platform_configuration_Inr:
  "parse_arm64_platform_configuration trace = Inr (Some p) \<Longrightarrow>
   pc_initial_override p AND NOT 0x00f00000 = 0 \<and> pc_initial_pstate p AND NOT 0xf00003cf = 0 \<and>
   pc_initial_pstate p AND 15 \<in> {4, 5} \<and> pc_vector_base p AND 2047 = 0"
  unfolding parse_arm64_platform_configuration_def
  by (auto simp: result_iff split: option.splits if_splits)

lemma trace_bounds:
  assumes "\<not> trace_out_of_bounds m s c"
  shows "0x1000000 \<le> unat (tc_memory_size c) \<and> unat (tc_memory_size c) \<le> 0x40000000 \<and>
     list_all (\<lambda>w. unat w mod 16384 = 0)
       [tc_physical_base c, tc_virtual_base c, tc_memory_size c, tc_actual_memory_size c, tc_kernel_phys c] \<and>
     unat (tc_physical_base c) + unat (tc_memory_size c) < 2 ^ 64 \<and>
     unat (tc_virtual_base c) + unat (tc_memory_size c) < 2 ^ 64 \<and>
     unat (tc_memory_size c) \<le> unat (tc_actual_memory_size c) \<and>
     unat (tc_physical_base c) \<le> unat (tc_kernel_phys c) \<and>
     unat (tc_kernel_phys c) < unat (tc_physical_base c) + unat (tc_memory_size c) \<and>
     0 < unat (tc_instruction_budget c)"
proof -
  have aligned: "unat w mod 16384 = 0" if "w mod 16384 = 0" for w :: u64
    using arg_cong [OF that, of unat] by (simp add: unat_mod_distrib)
  have sum: "unat (tc_physical_base c) + unat (tc_memory_size c) < 2 ^ 64"
    using assms unfolding trace_out_of_bounds_def by (auto simp: checked_add_None)
  then have "unat (tc_physical_base c + tc_memory_size c) = unat (tc_physical_base c) + unat (tc_memory_size c)"
    by (intro unat_add_exact) simp
  then show ?thesis
    using assms sum aligned unfolding trace_out_of_bounds_def
    by (auto simp: checked_add_None word_le_nat_alt word_less_nat_alt not_less not_le unat_gt_0)
qed

text \<open>
  C39. An accepted trace configuration describes a run that the loader can set up: sixteen MiB to one
  GiB of memory, everything on the 16 KiB grid, neither range wraps around, the kernel and a
  vector table lie in the memory, and the instruction budget is positive and within what the
  capability grants, eight without the platform profile.
\<close>

theorem trace_configuration_bounds:
  assumes "parse_arm64_trace_with_policy parse_xml input m a = Inr c"
  shows "trace_ok (unat m) a c"
proof -
  from assms obtain trace selected path where
    mp: "memory_profile_of a trace = Inr (tc_memory_profile c)"
    and sb: "selected_budget_of a (tc_memory_profile c \<noteq> None) trace = Inr selected"
    and path: "normalize_absolute_path path = Inr (tc_device_tree_path c)"
    and pf: "parse_arm64_platform_configuration trace = Inr (tc_platform c)"
    and bounds: "\<not> trace_out_of_bounds (case selected of None \<Rightarrow> m | Some k \<Rightarrow> k) selected c"
    and vector: "\<not> (case tc_platform c of None \<Rightarrow> False | Some p \<Rightarrow> vector_outside c p)"
    by (rule trace_parts)
  note B = trace_bounds [OF bounds]
  have limit: "unat (case selected of None \<Rightarrow> m | Some k \<Rightarrow> k) \<le> max (unat m) (tier_limit a)"
    using selected_budget_Inr [of a _ trace] sb by (cases selected) (auto simp: le_max_iff_disj)
  have "case tc_platform c of
        None \<Rightarrow> unat (tc_instruction_budget c) \<le> 8 \<and> tc_memory_profile c = None
      | Some p \<Rightarrow> unat (tc_instruction_budget c) \<le> max (unat m) (tier_limit a) \<and> platform_ok c p"
  proof (cases "tc_platform c")
    case None
    then show ?thesis
      using bounds unfolding trace_out_of_bounds_def by (simp add: word_less_nat_alt not_less)
  next
    case (Some p)
    have "unat (tc_instruction_budget c) \<le> unat (case selected of None \<Rightarrow> m | Some k \<Rightarrow> k)"
      using bounds Some unfolding trace_out_of_bounds_def by (simp add: word_le_nat_alt not_less)
    moreover have "pc_vector_base p = 0 \<or>
      unat (tc_physical_base c) \<le> unat (pc_vector_base p) \<and>
      unat (pc_vector_base p) + 2048 \<le> unat (tc_physical_base c) + unat (tc_memory_size c)"
    proof -
      have "unat (tc_physical_base c + tc_memory_size c) = unat (tc_physical_base c) + unat (tc_memory_size c)"
        using B by (intro unat_add_exact) simp
      then show ?thesis
        using vector Some
        by (auto simp: vector_outside_def word_less_nat_alt not_less checked_add_Some split: option.splits)
    qed
    ultimately show ?thesis
      using limit Some platform_configuration_Inr pf by (auto simp: platform_ok_def)
  qed
  then show ?thesis
    using B memory_profile_Inr [OF mp] normalize_path_ok [OF path] unfolding trace_ok_def by blast
qed

end
