(* ===== verification/Boot_Config_Sample.thy ===== *)
theory Boot_Config_Sample
  imports Boot_Config_Trace
begin

text \<open>A small configuration, as the witness of the theorems on the boot configuration.\<close>

definition xml_tag :: "string \<Rightarrow> xml_node list \<Rightarrow> xml_node" where
  "xml_tag name children = Xml_Element None (chars name) [] children"

definition xml_scalar :: "string \<Rightarrow> string \<Rightarrow> xml_node" where
  "xml_scalar name t = xml_tag name [Xml_Text (chars t)]"

abbreviation xml_key :: "string \<Rightarrow> xml_node" where "xml_key \<equiv> xml_scalar ''key''"

definition sample_misc :: xml_node where
  "sample_misc = xml_tag ''dict''
     [xml_key ''Boot'', xml_tag ''dict'' [xml_key ''ShowPicker'', xml_tag ''true'' []],
      xml_key ''Entries'', xml_tag ''array''
        [xml_tag ''dict'' [xml_key ''Enabled'', xml_tag ''true'' [], xml_key ''Path'', xml_scalar ''string'' ''/EFI/A.efi''],
         xml_tag ''dict'' [xml_key ''Enabled'', xml_tag ''true'' [], xml_key ''Name'', xml_scalar ''string'' ''B'',
           xml_key ''Path'', xml_scalar ''string'' ''/B.EFI'']]]"

definition sample_trace :: xml_node where
  "sample_trace = xml_tag ''dict''
     [xml_key ''HandoffAbi'', xml_scalar ''string'' ''unprovisioned-sptm-prefix'',
      xml_key ''DeviceTreePath'', xml_scalar ''string'' ''/dt.bin'',
      xml_key ''PhysicalBase'', xml_scalar ''integer'' ''0x40000000'',
      xml_key ''VirtualBase'', xml_scalar ''integer'' ''0'',
      xml_key ''MemorySize'', xml_scalar ''integer'' ''16777216'',
      xml_key ''ActualMemorySize'', xml_scalar ''integer'' ''16777216'',
      xml_key ''KernelPhysical'', xml_scalar ''integer'' ''0x40004000'',
      xml_key ''InstructionBudget'', xml_scalar ''integer'' ''8'']"

definition sample_kernel :: xml_node where
  "sample_kernel = xml_tag ''dict''
     [xml_key ''Profile'', xml_scalar ''string'' ''x86-efi-arm64-trace'',
      xml_key ''Path'', xml_scalar ''string'' ''/kernel'', xml_key ''Trace'', sample_trace]"

definition sample_document :: xml_document where
  "sample_document = \<lparr> xd_before = [],
     xd_root = Xml_Element None (chars ''plist'') [(None, chars ''version'', chars ''1.0'')]
       [xml_tag ''dict'' [xml_key ''Misc'', sample_misc,
          xml_key ''Nextcore'', xml_tag ''dict'' [xml_key ''Kernel'', sample_kernel]]],
     xd_after = [] \<rparr>"

abbreviation sample_xml :: "nat \<Rightarrow> byte_string \<Rightarrow> xml_error + xml_document" where
  "sample_xml \<equiv> \<lambda>_ _. Inr sample_document"

abbreviation sample_text :: byte_string where "sample_text \<equiv> ascii ''<plist/>''"

lemma xml_tag_simps [simp]:
  "xml_children (xml_tag n ch) = ch" "xml_attributes (xml_tag n ch) = []" "is_element (xml_tag n ch)"
  "has_tag_name (xml_tag n ch) (chars w) \<longleftrightarrow> n = w" "blank_node (xml_tag n ch)"
  "descendants d (xml_tag n ch) = (d, xml_tag n ch) # concat (map (descendants (Suc d)) ch)"
  "validate_node (r, d, xml_tag n ch) =
     (if MAX_XML_DEPTH < d then Inl Bc_DepthLimit else validate_element r (chars n) (xml_tag n ch))"
  "require_tag (xml_tag n ch) t = (if n = t then Inr () else Inl Bc_InvalidType)"
  "dictionary_value (xml_tag n ch) w = find_key (chars w) (filter is_element ch)"
  "scalar_text (xml_tag n []) = Inr []"
  by (simp_all add: xml_tag_def require_tag_def dictionary_value_def scalar_text_def)

lemma xml_scalar_simps [simp]:
  "is_element (xml_scalar n t)" "has_tag_name (xml_scalar n t) (chars w) \<longleftrightarrow> n = w" "blank_node (xml_scalar n t)"
  "descendants d (xml_scalar n t) = [(d, xml_scalar n t), (Suc d, Xml_Text (chars t))]"
  "validate_node (r, d, xml_scalar n t) =
     (if MAX_XML_DEPTH < d then Inl Bc_DepthLimit else validate_element r (chars n) (xml_scalar n t))"
  "require_tag (xml_scalar n t) w = (if n = w then Inr () else Inl Bc_InvalidType)"
  "scalar_text (xml_scalar n t) = Inr (chars t)"
  by (simp_all add: xml_scalar_def xml_tag_def require_tag_def scalar_text_def)

lemma tagged_text_scalar [simp]:
  "tagged_text w (xml_scalar n t) = (if n = w then Inr (chars t) else Inl Bc_InvalidType)"
  by (simp add: tagged_text_def)

lemmas sample_defs = sample_misc_def sample_trace_def sample_kernel_def

lemma sample_scanned: "scan_xml 0 sample_text = Inr ()"
  by (simp add: ascii_def skipped_markup_def starts_with_def MAX_XML_DEPTH_def)

lemma validate_element_simps:
  "validate_element r (chars ''dict'') n = and_then (no_mixed_text n) (\<lambda>_. dict_pairs {} (xml_elements n))"
  "validate_element r (chars ''key'') n = and_then (scalar_text n) (\<lambda>_. Inr ())"
  "validate_element r (chars ''string'') n = and_then (scalar_text n) (\<lambda>_. Inr ())"
  "validate_element r (chars ''integer'') n = and_then (scalar_text n) (\<lambda>_. Inr ())"
  "validate_element r (chars ''true'') n = and_then (scalar_text n) (\<lambda>t. if t \<noteq> [] then Inl Bc_InvalidPlist else Inr ())"
  "validate_element r (chars ''array'') n = and_then (no_mixed_text n) (\<lambda>_.
     if list_ex (\<lambda>child. has_tag_name child (chars ''key'')) (xml_children n) then Inl Bc_InvalidPlist else Inr ())"
  by (simp_all add: validate_element_def)

lemma validate_scalar:
  "d \<le> 64 \<Longrightarrow> n \<in> {''key'', ''string'', ''integer''} \<Longrightarrow> validate_node (r, d, xml_scalar n t) = Inr ()"
  by (auto simp: MAX_XML_DEPTH_def validate_element_simps)

lemma validate_text: "validate_node (r, d, Xml_Text t) = Inr ()"
  by simp

lemma validate_tag:
  "d \<le> 64 \<Longrightarrow> list_all blank_node ch \<Longrightarrow>
   validate_node (r, d, xml_tag ''dict'' ch) = dict_pairs {} (filter is_element ch)"
  "d \<le> 64 \<Longrightarrow> list_all blank_node ch \<Longrightarrow> list_all (\<lambda>c. \<not> has_tag_name c (chars ''key'')) ch \<Longrightarrow>
   validate_node (r, d, xml_tag ''array'' ch) = Inr ()"
  "d \<le> 64 \<Longrightarrow> validate_node (r, d, xml_tag ''true'' []) = Inr ()"
  by (simp_all add: MAX_XML_DEPTH_def validate_element_simps no_mixed_text_def list_ex_iff list_all_iff)

lemma sample_valid: "validate_structure sample_document = Inr ()"
proof -
  let ?root = "xd_root sample_document"
  have root: "validate_node (True, Suc 0, ?root) = Inr ()"
    by (simp add: sample_document_def validate_element_def no_mixed_text_def MAX_XML_DEPTH_def)
  have "for_each validate_node (document_nodes sample_document) = Inr ()"
    using root unfolding sample_document_def
    by (simp add: document_nodes_def sample_defs validate_scalar validate_text validate_tag
        del: validate_node.simps xml_scalar_simps(5) xml_tag_simps(7))
  then show ?thesis by (simp add: sample_document_def validate_structure_def)
qed

lemma sample_parsed: "parse_document sample_xml sample_text = Inr sample_document"
proof -
  have "utf8_valid sample_text" by (rule utf8_valid_ascii) (auto simp: ascii_def)
  then show ?thesis
    by (simp add: parse_document_def sample_valid sample_scanned MAX_INPUT_BYTES_def MAX_XML_NODES_def)
      (simp add: ascii_def starts_with_def)
qed

definition sample_menu :: boot_menu where
  "sample_menu = \<lparr> bm_show_picker = True, bm_entries =
     [\<lparr> me_name = chars ''EFI entry 1'', me_target = \<lparr> bt_path = chars [CHR 0x5c] @ chars ''EFI'' @ chars [CHR 0x5c] @ chars ''A.efi'',
          bt_arguments = [], bt_apfs_volume = None \<rparr> \<rparr>,
      \<lparr> me_name = chars ''B'', me_target = \<lparr> bt_path = chars [CHR 0x5c] @ chars ''B.EFI'',
          bt_arguments = [], bt_apfs_volume = None \<rparr> \<rparr>] \<rparr>"

lemma sample_paths:
  "normalize_path (chars ''/EFI/A.efi'') = Inr (chars [CHR 0x5c] @ chars ''EFI'' @ chars [CHR 0x5c] @ chars ''A.efi'')"
  "normalize_path (chars ''/B.EFI'') = Inr (chars [CHR 0x5c] @ chars ''B.EFI'')"
  "normalize_absolute_path (chars ''/dt.bin'') = Inr (chars [CHR 0x5c] @ chars ''dt.bin'')"
  "normalize_absolute_path (chars ''/kernel'') = Inr (chars [CHR 0x5c] @ chars ''kernel'')"
  by (simp_all add: normalize_path_def normalize_absolute_path_def chars_def utf16_units_def is_control_def
      starts_with_def bad_component_def after_last_def lowercase_def MAX_PATH_UTF16_UNITS_def Let_def)

lemma sample_names:
  "default_name 0 = chars ''EFI entry 1''"
  "trim (chars ''B'') \<noteq> [] \<and> \<not> list_ex is_control (chars ''B'') \<and> utf16_units (chars ''B'') = 1"
  by (simp_all add: default_name_def decimal_text.simps [of "Suc 0"] chars_def trim_def
      is_whitespace_def is_control_def utf16_units_def)

lemma sample_top: "top_dictionary sample_document = Inr (xml_tag ''dict'' [xml_key ''Misc'', sample_misc,
          xml_key ''Nextcore'', xml_tag ''dict'' [xml_key ''Kernel'', sample_kernel]])"
  by (simp add: top_dictionary_def sample_document_def)

lemma sample_elements [simp]: "is_element sample_misc" "is_element sample_trace" "is_element sample_kernel"
  "require_tag sample_misc ''dict'' = Inr ()" "require_tag sample_trace ''dict'' = Inr ()" "require_tag sample_kernel ''dict'' = Inr ()"
  by (simp_all add: sample_defs)

lemma sample_menu_parsed: "parse_boot_menu sample_xml sample_text = Inr sample_menu"
proof -
  have "show_picker_of sample_misc = Inr True"
    by (simp add: show_picker_of_def sample_misc_def boolean_value_def)
  moreover have "dictionary_value sample_misc ''Entries'' = Inr (Some (xml_tag ''array''
        [xml_tag ''dict'' [xml_key ''Enabled'', xml_tag ''true'' [], xml_key ''Path'', xml_scalar ''string'' ''/EFI/A.efi''],
         xml_tag ''dict'' [xml_key ''Enabled'', xml_tag ''true'' [], xml_key ''Name'', xml_scalar ''string'' ''B'',
           xml_key ''Path'', xml_scalar ''string'' ''/B.EFI'']]))"
    by (simp add: sample_misc_def)
  ultimately show ?thesis
    by (simp add: parse_boot_menu_def sample_parsed sample_top Let_def menu_entry_def MAX_ENTRIES_def
        entry_enabled_def boolean_value_def entry_path_def optional_def sample_paths entry_arguments_def
        parse_apfs_volume_def sample_names entry_name_def sample_menu_def)
qed

lemma boot_menu_agrees_witness:
  "parse_boot_target sample_xml sample_text = Inl Bc_AmbiguousTarget"
  using boot_menu_agrees [OF sample_menu_parsed] by (simp add: as_target_def sample_menu_def)

lemma boot_menu_wellformed_witness: "menu_ok sample_menu \<and> length (bm_entries sample_menu) = 2"
  using boot_menu_wellformed [OF sample_menu_parsed] by (simp add: sample_menu_def)

section \<open>The trace\<close>

lemma sample_numbers:
  "text_number (chars ''0x40000000'') = Some 0x40000000" "text_number (chars ''0'') = Some 0"
  "text_number (chars ''16777216'') = Some 16777216" "text_number (chars ''0x40004000'') = Some 0x40004000"
  "text_number (chars ''8'') = Some 8"
  by (simp_all add: text_number_def trim_def chars_def is_whitespace_def strip_prefix_def starts_with_def
      parse_number_def digit_value_def)

definition sample_configuration :: arm64_trace_configuration where
  "sample_configuration = \<lparr> tc_physical_base = 0x40000000, tc_virtual_base = 0, tc_memory_size = 0x1000000,
     tc_actual_memory_size = 0x1000000, tc_kernel_phys = 0x40004000,
     tc_device_tree_path = chars [CHR 0x5c] @ chars ''dt.bin'', tc_instruction_budget = 8,
     tc_platform = None, tc_video = None, tc_memory_profile = None \<rparr>"

lemma sample_kernel_parsed: "parse_arm64_kernel_target sample_xml sample_text =
    Inr \<lparr> kt_path = chars [CHR 0x5c] @ chars ''kernel'', kt_arguments = [], kt_profile = X86EfiArm64Trace \<rparr>"
proof -
  have "required_value sample_kernel ''Profile'' e = Inr (xml_scalar ''string'' ''x86-efi-arm64-trace'')"
    "required_value sample_kernel ''Path'' e = Inr (xml_scalar ''string'' ''/kernel'')"
    "dictionary_value sample_kernel ''Arguments'' = Inr None" for e
    by (simp_all add: sample_kernel_def required_value_def)
  then show ?thesis
    by (simp add: parse_arm64_kernel_target_def parse_named_kernel_target_def sample_parsed sample_top
        required_value_def [of "xml_tag n ch" for n ch] kernel_profile_of_def sample_paths)
qed

lemma sample_trace_parsed:
  "parse_arm64_trace_with_policy sample_xml sample_text 64 Tier_Ordinary = Inr sample_configuration"
proof -
  have kernel: "required_value sample_kernel ''Trace'' e = Inr sample_trace" for e
    by (simp add: sample_kernel_def required_value_def)
  have optional: "memory_profile_of Tier_Ordinary sample_trace = Inr None"
    "selected_budget_of Tier_Ordinary False sample_trace = Inr None"
    "parse_arm64_platform_configuration sample_trace = Inr None" "trace_video_of sample_trace = Inr None"
    by (simp_all add: memory_profile_of_def selected_budget_of_def parse_arm64_platform_configuration_def
        trace_video_of_def optional_def sample_trace_def)
  have texts: "required_value sample_trace ''HandoffAbi'' e = Inr (xml_scalar ''string'' ''unprovisioned-sptm-prefix'')"
    "required_value sample_trace ''DeviceTreePath'' e = Inr (xml_scalar ''string'' ''/dt.bin'')" for e
    by (simp_all add: required_value_def sample_trace_def)
  have numbers: "trace_number sample_trace ''PhysicalBase'' = Inr 0x40000000"
    "trace_number sample_trace ''VirtualBase'' = Inr 0" "trace_number sample_trace ''MemorySize'' = Inr 0x1000000"
    "trace_number sample_trace ''ActualMemorySize'' = Inr 0x1000000"
    "trace_number sample_trace ''KernelPhysical'' = Inr 0x40004000"
    "trace_number sample_trace ''InstructionBudget'' = Inr 8"
    by (simp_all add: trace_number_def required_value_def number_value_def sample_trace_def sample_numbers)
  have bounds: "\<not> trace_out_of_bounds 64 None sample_configuration"
    by (simp add: trace_out_of_bounds_def sample_configuration_def checked_add_def)
  show ?thesis
    using bounds
    by (simp add: parse_arm64_trace_with_policy_def sample_kernel_parsed sample_parsed sample_top kernel optional texts
        numbers sample_paths required_value_def [of "xml_tag n ch" for n ch] sample_configuration_def)
qed

lemma trace_tiers_extend_witness:
  "parse_arm64_trace_configuration_with_mapped_tier sample_xml sample_text = Inr sample_configuration"
  using trace_tiers_extend [OF sample_trace_parsed, of Tier_Mapped 4096]
  by (simp add: parse_arm64_trace_configuration_with_mapped_tier_def)

lemma trace_configuration_bounds_witness: "trace_ok 64 Tier_Ordinary sample_configuration"
  using trace_configuration_bounds [OF sample_trace_parsed] by simp

end
