(* ===== verification/Spec2Isabelle.thy ===== *)
theory Spec2Isabelle
  imports Rust_Prelude Contracts Flat_Dt Flat_Dt_Roundtrip Firmware_Dt Runtime_Dt Runtime_Dt_Proofs
    Guest_Memory Guest_Memory_Proofs Arm64_Boot_Args Arm64_Boot_Args_Proofs
    Arm64_Stage1_Tables Arm64_Stage1_Proofs
    Slices Kernel_Collection Kernel_Collection_Proofs Kc_Sample Kc_Staging Kc_Staging_Proofs
    Kc_Staging_Theorems Arm64_Handoff Arm64_Handoff_Proofs Arm64_Handoff_Theorems
    Apfs_Jumpstart Apfs_Jumpstart_Proofs Apfs_Jumpstart_Safety Le_Image Apfs_Sample
    Macho_Image Macho_Image_Proofs Macho_Sample Xnu_Boot_Args Xnu_Boot_Args_Proofs
    Utf8 Boot_Handoff Boot_Handoff_Proofs Device_Props Acpi Acpi_Proofs
    Kc_Fixup_Audit Kc_Fixup_Audit_Proofs Kc_Fixup_Audit_Sweep Kc_Fixup_Audit_Theorems Kc_Fixup_Audit_Safety
    Kc_Classic_Rebase Kc_Classic_Rebase_Proofs Kc_Classic_Rebase_Theorems Kc_Classic_Sample Boot_Picker Boot_Picker_Proofs
    Arm64_Startup_Image Arm64_Startup_Image_Proofs Arm64_Startup_Image_Theorems Arm64_Startup_Sample
    Rust_Text Selected_Boot_Input Selected_Boot_Input_Proofs
    Boot_Config Boot_Config_Targets Boot_Config_Proofs Boot_Config_Trace Boot_Config_Sample
begin

text \<open>
  A verification development for the core crate of the boot loader (\<^verbatim>\<open>src/src/*.rs\<close>).

  \<^bold>\<open>The program.\<close> The crate turns untrusted bytes (firmware tables, a configuration, kernel
  images, device trees) into a guest that can be started, without touching hardware. Its parts and
  the way data flows between them:

  \<^item> The configuration selects what is booted: \<^verbatim>\<open>boot_config.rs\<close> reads a property list into a
    boot menu, a single target, a kernel target or a trace configuration; \<^verbatim>\<open>boot_picker.rs\<close>
    moves through the menu and draws it; \<^verbatim>\<open>selected_boot_input.rs\<close> checks the selected bytes
    against records of their size and digest before they reach guest memory.
  \<^item> Images are inspected and laid out: \<^verbatim>\<open>kernel_collection.rs\<close> inspects a collection of Mach-O
    images, \<^verbatim>\<open>kc_staging.rs\<close> lays it out in an arena and reads it back, \<^verbatim>\<open>kc_fixup_audit.rs\<close>
    lists the places relocations and chained fixups write, and \<^verbatim>\<open>kc_classic_rebase.rs\<close> slides the
    classic ones, from the audit and the staging plan. \<^verbatim>\<open>macho_image.rs\<close> plans one small static
    executable, \<^verbatim>\<open>arm64_startup_image.rs\<close> stages two startup companions, and
    \<^verbatim>\<open>apfs_jumpstart.rs\<close> extracts the driver a container embeds.
  \<^item> Device trees: \<^verbatim>\<open>flat_dt.rs\<close> encodes and validates them, \<^verbatim>\<open>firmware_dt.rs\<close> views a tree of
    the firmware, and \<^verbatim>\<open>runtime_dt.rs\<close> replaces its templates by supplied values, in memory that
    the ledger \<^verbatim>\<open>guest_memory.rs\<close> has reserved.
  \<^item> The handoff: \<^verbatim>\<open>xnu_arm64_boot_args.rs\<close> encodes the argument block, \<^verbatim>\<open>xnu_arm64_handoff.rs\<close>
    places kernel, arguments and tree in one allocation, \<^verbatim>\<open>xnu_arm64_backing.rs\<close> gives the view of
    guest RAM it is staged into, \<^verbatim>\<open>arm64_stage1_tables.rs\<close> builds the page tables of the guest, and
    \<^verbatim>\<open>xnu_boot_args.rs\<close> and \<^verbatim>\<open>handoff.rs\<close> write the older argument formats. \<^verbatim>\<open>acpi.rs\<close> and
    \<^verbatim>\<open>device_props.rs\<close> read and write the tables of the host.

  \<^bold>\<open>Conventions.\<close> A \<^verbatim>\<open>Result\<close> is a sum with the source's error enumeration on the left, an
  \<^verbatim>\<open>Option\<close> an option, a struct a record, an enum a datatype. Integers keep their width as words;
  \<^verbatim>\<open>usize\<close> is \<open>nat\<close>, with the bound of the 64-bit target written out where the source checks it. A
  mutable slice or a \<^verbatim>\<open>&mut self\<close> method takes the bytes or the state and returns them with its
  result, also where it fails. What the source leaves unchecked and a checked build turns into a
  panic (an unchecked sum, a slice index, an \<^verbatim>\<open>expect\<close>) is an error constructor of its own, so that
  the absence of panics is a theorem. Loops are recursions on what they consume; where no argument
  shrinks structurally the function has a termination proof, and the one fuel, the depth of
  \<open>dram_range\<close> in \<open>Arm64_Boot_Args\<close>, is shown never to be met. Parameters stand for what the
  crate does not contain: the allocator behind \<^verbatim>\<open>try_reserve_exact\<close>, the SHA-256 of \<^verbatim>\<open>sha2\<close>, the
  XML parser of \<^verbatim>\<open>roxmltree\<close>, the device that is read, and the closures of the callers. No theorem
  assumes more of them than its statement shows.

  \<^bold>\<open>The library.\<close>

  \<^item> \<open>Rust_Prelude\<close> (results, checked arithmetic, slices, little-endian words), \<open>Slices\<close> (loops
    that stop at an error, bounded slices), \<open>Le_Image\<close> (byte images of words), \<open>Utf8\<close> and
    \<open>Rust_Text\<close> (lines, prefixes and numbers of text).
  \<^item> \<open>Contracts\<close> and \<open>Slices\<close> hold the interfaces as locales: the cursor of the tree readers, the
    overlap test of half-open intervals, the rounding to a boundary, and the bounded slice. Each is
    interpreted on the operations of the components that provide it (\<open>Flat_Dt\<close>, \<open>Firmware_Dt\<close>,
    \<open>Arm64_Boot_Args\<close>, \<open>Guest_Memory\<close>, \<open>Arm64_Stage1_Tables\<close>, \<open>Kernel_Collection\<close>,
    \<open>Arm64_Startup_Image_Proofs\<close>).

  \<^bold>\<open>The components.\<close> The theory of a component carries its name; \<open>_Proofs\<close>, \<open>_Theorems\<close> and
  \<open>_Safety\<close> hold what is proved of it, \<open>_Sample\<close> a concrete input on which the theorems with
  hypotheses are instantiated. The definitions keep the names of the functions of the source.

  \<^item> \<open>Flat_Dt\<close>, \<open>Flat_Dt_Roundtrip\<close>: the codec; everything that is encoded validates, with the size
    measured before. \<open>Firmware_Dt\<close>: parsing loses nothing. \<open>Runtime_Dt\<close>, \<open>Runtime_Dt_Proofs\<close>: the
    output is the source tree with the supplied values in place of the templates.
  \<^item> \<open>Guest_Memory\<close>, \<open>Guest_Memory_Proofs\<close>: the ledger as a state machine over its calls, with an
    invariant of every reachable state, first fit, and isolation of the copies.
  \<^item> \<open>Arm64_Boot_Args\<close>, \<open>Arm64_Boot_Args_Proofs\<close>: layout and geometry of the argument block, and the
    end of the recursion over the tree. \<open>Arm64_Stage1_Tables\<close>, \<open>Arm64_Stage1_Proofs\<close>: a walk of
    the hardware over the bytes of the tables is the abstract map they were built for.
  \<^item> \<open>Kernel_Collection\<close>, \<open>Kernel_Collection_Proofs\<close>: what acceptance means for segments, sections
    and members. \<open>Kc_Staging\<close> and its proofs: staging refines the arena that \<open>staged_arena\<close>
    specifies byte by byte, and the readback accepts that arena and no other.
  \<^item> \<open>Kc_Fixup_Audit\<close> and its proofs: the records are true of the source, an audit without issues
    has disjoint writes, and no input makes it panic; the sweep is in \<open>Kc_Fixup_Audit_Sweep\<close>.
    \<open>Kc_Classic_Rebase\<close> and its proofs: the arena afterwards holds the slid values and nothing else
    changed.
  \<^item> \<open>Arm64_Handoff\<close> and its proofs (placement and backing): the geometry of the allocation and the
    staging into the view of guest RAM. \<open>Arm64_Startup_Image\<close> and its proofs: both companions are
    planned before a byte is written, and stand in the memory afterwards.
  \<^item> \<open>Macho_Image\<close>, \<open>Apfs_Jumpstart\<close>, \<open>Xnu_Boot_Args\<close>, \<open>Boot_Handoff\<close>, \<open>Device_Props\<close>, \<open>Acpi\<close> and
    their proofs: well-formed plans and what loading them shows, the extracted driver and the records
    it comes from against the bytes of the partition at the offsets of the format, round trips of
    the formats, and exactly on which data the reader of the tables panics.
  \<^item> \<open>Boot_Picker\<close>, \<open>Boot_Picker_Proofs\<close>: every entry is reached and every picture is drawn.
    \<open>Selected_Boot_Input\<close>, \<open>Selected_Boot_Input_Proofs\<close>: the records and the gate. \<open>Boot_Config\<close>
    (structure and bounds of the text), \<open>Boot_Config_Targets\<close> (the values), \<open>Boot_Config_Proofs\<close>,
    \<open>Boot_Config_Trace\<close>: the normal form of paths, the menu against the single target, the bounds of
    a trace and the order of its tiers.

  \<^bold>\<open>Across components.\<close> The rebase is proved from the audit, the audit and the staging from the
  inspection; the handoff is built from a staged collection and an encoded tree and is staged into
  the backing (\<open>handoff_into_backing\<close>); the tree that \<open>encode\<close> writes is the one \<open>dram_range\<close> and the
  runtime tree read.

  \<^bold>\<open>Not modelled.\<close> \<^verbatim>\<open>config.rs\<close>, \<^verbatim>\<open>kext.rs\<close> and \<^verbatim>\<open>mach_o.rs\<close> serve tools of the host: they derive or
  call the parsers of \<^verbatim>\<open>serde\<close>, \<^verbatim>\<open>plist\<close> and \<^verbatim>\<open>goblin\<close> and walk a directory, with next to no logic of
  their own (the value type of a device property is modelled with \<^verbatim>\<open>device_props.rs\<close>). \<^verbatim>\<open>lib.rs\<close> lists the
  modules. The \<^verbatim>\<open>Display\<close> texts of the errors and the log lines are left out. The copies under
  \<^verbatim>\<open>research/\<close> are earlier versions of modules modelled here and are not compiled with the crate;
  the examples print what the modelled operations return.
\<close>

end
